(* ===== verification/Prelude.thy ===== *)
theory Prelude
  imports Main "HOL-Library.Monad_Syntax"
begin

text \<open>
  Shared vocabulary of the development: byte strings and the part of Rust's \<open>str\<close> and
  slice API that the program calls (\<open>starts_with\<close>, \<open>contains\<close>, \<open>find\<close>, \<open>split\<close>,
  \<open>trim\<close>, \<open>lines\<close>, \<open>to_lowercase\<close>), results as sums, and the collections that the
  component theories fill.

  A Rust \<open>String\<close> is its UTF-8 byte sequence, one \<open>char\<close> of HOL per byte; lengths and
  indices are byte counts, as \<open>len\<close>, \<open>find\<close> and slicing are in Rust. Case folding
  and white space are those of the ASCII range: a cased letter or a space outside ASCII,
  which Rust's Unicode tables would also fold or trim, is left alone.
\<close>

named_theorems str_simps "evaluation rules for the string operations"
named_theorems store_simps "frame rules for the tables of the store"
named_theorems inv_intros "preservation of the store invariants"

subsection \<open>Results\<close>

text \<open>\<open>Result<T, E>\<close> is \<open>'e + 'a\<close> with the error on the left; \<open>?\<close> is \<open>res_bind\<close>.\<close>

definition res_bind :: "'e + 'a \<Rightarrow> ('a \<Rightarrow> 'e + 'b) \<Rightarrow> 'e + 'b" where
  "res_bind m f = (case m of Inl e \<Rightarrow> Inl e | Inr a \<Rightarrow> f a)"

lemma res_bind_simps [simp]:
  "res_bind (Inl e) f = Inl e" "res_bind (Inr a) f = f a"
  by (simp_all add: res_bind_def)

lemma res_bind_Inr: "res_bind m f = Inr b \<longleftrightarrow> (\<exists>a. m = Inr a \<and> f a = Inr b)"
  by (cases m) auto

definition is_ok :: "'e + 'a \<Rightarrow> bool" where
  "is_ok r = (case r of Inl _ \<Rightarrow> False | Inr _ \<Rightarrow> True)"

lemma is_ok_simps [simp]: "is_ok (Inl e) = False" "is_ok (Inr a) = True"
  by (simp_all add: is_ok_def)

subsection \<open>Characters\<close>

abbreviation newline :: char where "newline \<equiv> CHR 0x0A"
abbreviation creturn :: char where "creturn \<equiv> CHR 0x0D"
abbreviation tabchar :: char where "tabchar \<equiv> CHR 0x09"
abbreviation dquote :: char where "dquote \<equiv> CHR 0x22"
abbreviation backslash :: char where "backslash \<equiv> CHR 0x5C"

definition code :: "char \<Rightarrow> int" where
  "code c = of_char c"

definition is_digit :: "char \<Rightarrow> bool" where
  "is_digit c \<longleftrightarrow> 48 \<le> code c \<and> code c \<le> 57"

definition is_upper :: "char \<Rightarrow> bool" where
  "is_upper c \<longleftrightarrow> 65 \<le> code c \<and> code c \<le> 90"

definition is_lower :: "char \<Rightarrow> bool" where
  "is_lower c \<longleftrightarrow> 97 \<le> code c \<and> code c \<le> 122"

definition is_alpha :: "char \<Rightarrow> bool" where
  "is_alpha c \<longleftrightarrow> is_upper c \<or> is_lower c"

definition is_alnum :: "char \<Rightarrow> bool" where
  "is_alnum c \<longleftrightarrow> is_alpha c \<or> is_digit c"

definition is_hexdigit :: "char \<Rightarrow> bool" where
  "is_hexdigit c \<longleftrightarrow> is_digit c \<or> 65 \<le> code c \<and> code c \<le> 70 \<or> 97 \<le> code c \<and> code c \<le> 102"

text \<open>\<open>char::is_whitespace\<close> on ASCII: tab, line feed, vertical tab, form feed, carriage
  return and space.\<close>

definition is_space :: "char \<Rightarrow> bool" where
  "is_space c \<longleftrightarrow> 9 \<le> code c \<and> code c \<le> 13 \<or> code c = 32"

definition lower_char :: "char \<Rightarrow> char" where
  "lower_char c = (if is_upper c then char_of (code c + 32) else c)"

definition lower :: "string \<Rightarrow> string" where
  "lower s = List.map lower_char s"

lemma lower_simps [simp]:
  "lower [] = []" "lower (s @ t) = lower s @ lower t"
  "lower (c # s) = lower_char c # lower s" "length (lower s) = length s"
  by (simp_all add: lower_def)

lemma code_char_of [simp]: "0 \<le> n \<Longrightarrow> n < 256 \<Longrightarrow> code (char_of n) = n"
  by (simp add: code_def of_char_of)

lemma lower_char_idem [simp]: "lower_char (lower_char c) = lower_char c"
  by (simp add: lower_char_def is_upper_def)

lemma lower_idem [simp]: "lower (lower s) = lower s"
  by (induction s) auto

subsection \<open>Searching\<close>

definition starts_with :: "string \<Rightarrow> string \<Rightarrow> bool" where
  "starts_with s p \<longleftrightarrow> take (length p) s = p"

definition ends_with :: "string \<Rightarrow> string \<Rightarrow> bool" where
  "ends_with s p \<longleftrightarrow> starts_with (rev s) (rev p)"

fun contains :: "string \<Rightarrow> string \<Rightarrow> bool" where
  "contains [] p \<longleftrightarrow> p = []"
| "contains (c # s) p \<longleftrightarrow> starts_with (c # s) p \<or> contains s p"

lemma starts_with_iff: "starts_with s p \<longleftrightarrow> (\<exists>t. s = p @ t)"
  by (metis append_eq_conv_conj append_take_drop_id starts_with_def)

lemma starts_with_append [simp]: "starts_with (p @ t) p"
  by (simp add: starts_with_def)

lemma starts_with_Nil [simp]: "starts_with s []"
  by (simp add: starts_with_def)

lemma ends_with_iff: "ends_with s p \<longleftrightarrow> (\<exists>t. s = t @ p)"
  by (metis ends_with_def rev_append rev_rev_ident starts_with_iff)

lemma contains_iff: "contains s p \<longleftrightarrow> (\<exists>u v. s = u @ p @ v)"
proof (induction s)
  case (Cons c s)
  have "(\<exists>u v. c # s = u @ p @ v) \<longleftrightarrow> (\<exists>v. c # s = p @ v) \<or> (\<exists>u v. s = u @ p @ v)"
    (is "?l \<longleftrightarrow> ?r")
  proof
    assume ?l
    then obtain u v where "c # s = u @ p @ v" by blast
    then show ?r by (cases u) auto
  next
    assume ?r
    then show ?l by (metis append_Cons append_Nil)
  qed
  with Cons show ?case by (simp add: starts_with_iff)
qed auto

lemma contains_refl [simp]: "contains s s"
  by (metis append_Nil append_Nil2 contains_iff)

lemma contains_trans: "contains s t \<Longrightarrow> contains t u \<Longrightarrow> contains s u"
  unfolding contains_iff by (metis append.assoc)

lemma contains_lower: "contains s p \<Longrightarrow> contains (lower s) (lower p)"
  unfolding contains_iff by (metis lower_simps(2))

text \<open>\<open>str::find\<close> and \<open>str::rfind\<close> of a character: the byte offset of its first or last
  occurrence.\<close>

fun find_char :: "char \<Rightarrow> string \<Rightarrow> nat option" where
  "find_char c [] = None"
| "find_char c (x # xs) = (if x = c then Some 0 else map_option Suc (find_char c xs))"

fun rfind_char :: "char \<Rightarrow> string \<Rightarrow> nat option" where
  "rfind_char c [] = None"
| "rfind_char c (x # xs) =
     (case rfind_char c xs of
        Some i \<Rightarrow> Some (Suc i)
      | None \<Rightarrow> if x = c then Some 0 else None)"

lemma find_char_Some:
  "find_char c s = Some i \<Longrightarrow> i < length s \<and> s ! i = c \<and> c \<notin> set (take i s)"
  by (induction s arbitrary: i) (auto split: if_splits)

lemma find_char_None: "find_char c s = None \<longleftrightarrow> c \<notin> set s"
  by (induction s) auto

lemma rfind_char_Some:
  "rfind_char c s = Some i \<Longrightarrow> i < length s \<and> s ! i = c \<and> c \<notin> set (drop (Suc i) s)"
proof (induction s arbitrary: i)
  case (Cons x xs)
  have none: "rfind_char c ys = None \<longleftrightarrow> c \<notin> set ys" for ys
    by (induction ys) (auto split: option.splits)
  from Cons show ?case
    by (auto split: option.splits if_splits simp: none)
qed simp

subsection \<open>Trimming and splitting\<close>

definition trim_start :: "string \<Rightarrow> string" where
  "trim_start s = dropWhile is_space s"

definition trim_end :: "string \<Rightarrow> string" where
  "trim_end s = rev (dropWhile is_space (rev s))"

definition trim :: "string \<Rightarrow> string" where
  "trim s = trim_end (trim_start s)"

text \<open>\<open>str::split\<close> by a character predicate: the pieces between separators, the empty
  ones included; a string without a separator is one piece.\<close>

fun split_on :: "(char \<Rightarrow> bool) \<Rightarrow> string \<Rightarrow> string list" where
  "split_on p [] = [[]]"
| "split_on p (c # s) =
     (if p c then [] # split_on p s
      else (case split_on p s of [] \<Rightarrow> [[c]] | w # ws \<Rightarrow> (c # w) # ws))"

abbreviation split_char :: "char \<Rightarrow> string \<Rightarrow> string list" where
  "split_char c \<equiv> split_on (\<lambda>x. x = c)"

lemma split_on_not_Nil [simp]: "split_on p s \<noteq> []"
  by (cases s) (auto split: list.splits)

lemma split_on_pieces: "w \<in> set (split_on p s) \<Longrightarrow> c \<in> set w \<Longrightarrow> \<not> p c \<and> c \<in> set s"
proof (induction s arbitrary: w)
  case (Cons x s)
  obtain v vs where v: "split_on p s = v # vs" by (cases "split_on p s") auto
  from Cons.prems v have "c = x \<and> \<not> p x \<or> (\<exists>u \<in> set (v # vs). c \<in> set u)"
    by (auto split: if_splits)
  with Cons.IH v show ?case by auto
qed auto

text \<open>\<open>split_whitespace\<close>: the non-empty pieces between spaces.\<close>

definition split_whitespace :: "string \<Rightarrow> string list" where
  "split_whitespace s = filter (\<lambda>w. w \<noteq> []) (split_on is_space s)"

text \<open>\<open>split_once\<close>: the parts before and after the first separator.\<close>

definition split_once :: "char \<Rightarrow> string \<Rightarrow> (string \<times> string) option" where
  "split_once c s = map_option (\<lambda>i. (take i s, drop (Suc i) s)) (find_char c s)"

text \<open>\<open>str::lines\<close>: the pieces ended by a line feed, without it and without one carriage
  return before it; a last piece without a line feed is a line too, an empty one is not.\<close>

definition strip_cr :: "string \<Rightarrow> string" where
  "strip_cr l = (if l \<noteq> [] \<and> last l = creturn then butlast l else l)"

fun lines_of :: "string list \<Rightarrow> string list" where
  "lines_of [] = []"
| "lines_of [l] = (if l = [] then [] else [l])"
| "lines_of (l # ls) = strip_cr l # lines_of ls"

definition lines :: "string \<Rightarrow> string list" where
  "lines s = lines_of (split_char newline s)"

text \<open>\<open>strip_prefix\<close>, \<open>strip_suffix\<close>, and \<open>trim_matches\<close>, \<open>trim_end_matches\<close> of a set of
  characters.\<close>

definition strip_prefix :: "string \<Rightarrow> string \<Rightarrow> string option" where
  "strip_prefix p s = (if starts_with s p then Some (drop (length p) s) else None)"

definition strip_suffix :: "string \<Rightarrow> string \<Rightarrow> string option" where
  "strip_suffix p s = (if ends_with s p then Some (take (length s - length p) s) else None)"

definition trim_end_matches :: "(char \<Rightarrow> bool) \<Rightarrow> string \<Rightarrow> string" where
  "trim_end_matches p s = rev (dropWhile p (rev s))"

definition trim_matches :: "(char \<Rightarrow> bool) \<Rightarrow> string \<Rightarrow> string" where
  "trim_matches p s = trim_end_matches p (dropWhile p s)"

lemma strip_prefix_append [simp]: "strip_prefix p (p @ s) = Some s"
  by (simp add: strip_prefix_def)

lemma strip_prefix_Some: "strip_prefix p s = Some t \<longleftrightarrow> s = p @ t"
  by (auto simp: strip_prefix_def starts_with_iff)

text \<open>\<open>[String]::join\<close>.\<close>

fun join :: "string \<Rightarrow> string list \<Rightarrow> string" where
  "join sep [] = []"
| "join sep [x] = x"
| "join sep (x # y # xs) = x @ sep @ join sep (y # xs)"

text \<open>\<open>str::replace\<close> of a single character.\<close>

definition replace_char :: "char \<Rightarrow> string \<Rightarrow> string \<Rightarrow> string" where
  "replace_char c r s = concat (List.map (\<lambda>x. if x = c then r else [x]) s)"

lemma trim_subset: "set (trim s) \<subseteq> set s"
proof
  fix x
  assume "x \<in> set (trim s)"
  then have "x \<in> set (dropWhile is_space s)"
    using set_dropWhileD [of x is_space "rev (dropWhile is_space s)"]
    by (simp add: trim_def trim_start_def trim_end_def)
  then show "x \<in> set s" by (auto dest: set_dropWhileD)
qed

lemma trim_ends:
  assumes "trim s \<noteq> []"
  shows "\<not> is_space (hd (trim s)) \<and> \<not> is_space (last (trim s))"
proof -
  let ?t = "dropWhile is_space s"
  have r: "trim s = rev (dropWhile is_space (rev ?t))"
    by (simp add: trim_def trim_start_def trim_end_def)
  with assms have ne: "dropWhile is_space (rev ?t) \<noteq> []" by simp
  have "\<not> is_space (last (trim s))"
    using hd_dropWhile [OF ne] by (simp add: r last_rev)
  moreover have "\<not> is_space (hd (trim s))"
  proof -
    obtain u where u: "?t = trim s @ u"
      using takeWhile_dropWhile_id [of is_space "rev ?t"] r
      by (metis rev_append rev_rev_ident)
    with assms have "?t \<noteq> []" and "hd ?t = hd (trim s)" by auto
    with hd_dropWhile [of is_space s] show ?thesis by simp
  qed
  ultimately show ?thesis by simp
qed

lemma trim_fixed:
  assumes "s = [] \<or> \<not> is_space (hd s) \<and> \<not> is_space (last s)"
  shows "trim s = s"
proof (cases "s = []")
  case False
  with assms have "dropWhile is_space s = s" "dropWhile is_space (rev s) = rev s"
    by (cases s rule: list.exhaust, simp, simp, cases s rule: rev_cases, simp, simp)
  then show ?thesis by (simp add: trim_def trim_start_def trim_end_def)
qed (simp add: trim_def trim_start_def trim_end_def)

lemma trim_trim [simp]: "trim (trim s) = trim s"
  using trim_ends [of s] by (intro trim_fixed) blast

lemma split_on_sep [simp]:
  "p c \<Longrightarrow> \<forall>x\<in>set l. \<not> p x \<Longrightarrow> split_on p (l @ c # r) = l # split_on p r"
  by (induction l) auto

lemma split_on_none [simp]: "\<forall>x\<in>set l. \<not> p x \<Longrightarrow> split_on p l = [l]"
  by (induction l) auto

lemma split_whitespace_one: "\<forall>x\<in>set l. \<not> is_space x \<Longrightarrow> l \<noteq> [] \<Longrightarrow> split_whitespace l = [l]"
  by (simp add: split_whitespace_def)

lemma split_whitespace_cons:
  "is_space c \<Longrightarrow> \<forall>x\<in>set l. \<not> is_space x \<Longrightarrow> l \<noteq> [] \<Longrightarrow>
   split_whitespace (l @ c # r) = l # split_whitespace r"
  by (simp add: split_whitespace_def)

text \<open>The lines of a text that is written line by line.\<close>

definition unlines :: "string list \<Rightarrow> string" where
  "unlines ls = concat (List.map (\<lambda>l. l @ [newline]) ls)"

lemma lines_Cons:
  assumes "newline \<notin> set l"
  shows "lines (l @ newline # r) = strip_cr l # lines r"
proof -
  have "split_char newline (l @ newline # r) = l # split_char newline r"
    using assms by (intro split_on_sep) auto
  moreover obtain w ws where "split_char newline r = w # ws"
    using split_on_not_Nil by (metis list.exhaust)
  ultimately show ?thesis by (simp add: lines_def)
qed

lemma lines_unlines:
  "\<forall>l\<in>set ls. newline \<notin> set l \<and> (l = [] \<or> last l \<noteq> creturn) \<Longrightarrow> lines (unlines ls) = ls"
proof (induction ls)
  case Nil
  show ?case by (simp add: unlines_def lines_def)
next
  case (Cons l ls)
  have "lines (unlines (l # ls)) = lines (l @ newline # unlines ls)" by (simp add: unlines_def)
  also have "\<dots> = strip_cr l # lines (unlines ls)" using Cons.prems by (intro lines_Cons) auto
  finally show ?case using Cons by (auto simp: strip_cr_def)
qed

subsection \<open>Decimal numbers\<close>

fun digits_value :: "int \<Rightarrow> string \<Rightarrow> int" where
  "digits_value acc [] = acc"
| "digits_value acc (c # s) = digits_value (10 * acc + (code c - 48)) s"

text \<open>\<open>str::parse::<u32>\<close>: an optional plus sign, then one or more digits, and a value that
  fits in 32 bits.\<close>

definition parse_u32 :: "string \<Rightarrow> nat option" where
  "parse_u32 s =
     (let d = (case s of c # r \<Rightarrow> if c = CHR ''+'' then r else s | [] \<Rightarrow> [])
      in if d \<noteq> [] \<and> list_all is_digit d \<and> digits_value 0 d < 2 ^ 32
         then Some (nat (digits_value 0 d)) else None)"

lemma digits_value_nonneg: "0 \<le> acc \<Longrightarrow> list_all is_digit s \<Longrightarrow> 0 \<le> digits_value acc s"
  by (induction s arbitrary: acc) (auto simp: is_digit_def)

lemma parse_u32_bound: "parse_u32 s = Some n \<Longrightarrow> n < 2 ^ 32"
  by (auto simp: parse_u32_def Let_def nat_less_iff split: if_splits)

text \<open>\<open>format!("{}", n)\<close> of an unsigned number.\<close>

function dec_digits :: "int \<Rightarrow> string" where
  "dec_digits n =
     (if n < 10 then [char_of (48 + n)] else dec_digits (n div 10) @ [char_of (48 + n mod 10)])"
  by pat_completeness auto
termination
  by (relation "measure nat") auto

declare dec_digits.simps [simp del]

definition show_nat :: "nat \<Rightarrow> string" where
  "show_nat n = dec_digits (int n)"

definition show_int :: "int \<Rightarrow> string" where
  "show_int n = (if n < 0 then CHR ''-'' # dec_digits (- n) else dec_digits n)"

lemma digits_value_append:
  "digits_value a (s @ [c]) = 10 * digits_value a s + (code c - 48)"
  by (induction s arbitrary: a) auto

lemma digits_value_dec_digits: "0 \<le> n \<Longrightarrow> digits_value 0 (dec_digits n) = n"
proof (induction n rule: dec_digits.induct)
  case (1 n)
  have "0 \<le> n mod 10" "n mod 10 < 10" by simp_all
  with 1 show ?case
    by (subst dec_digits.simps) (auto simp: digits_value_append)
qed

lemma dec_digits_digits: "0 \<le> n \<Longrightarrow> list_all is_digit (dec_digits n) \<and> dec_digits n \<noteq> []"
proof (induction n rule: dec_digits.induct)
  case (1 n)
  have "0 \<le> n mod 10" "n mod 10 \<le> 9" by simp_all
  with 1 show ?case
    by (subst (1 2) dec_digits.simps) (simp add: is_digit_def [of "char_of _"])
qed

lemma parse_show_nat: "n < 2 ^ 32 \<Longrightarrow> parse_u32 (show_nat n) = Some n"
proof -
  assume n: "n < 2 ^ 32"
  note d = dec_digits_digits [of "int n"]
  then obtain c r where r: "show_nat n = c # r" and c: "is_digit c"
    by (cases "show_nat n") (auto simp: show_nat_def)
  then have "c \<noteq> CHR ''+''" by (auto simp: is_digit_def code_def)
  with n d r digits_value_dec_digits [of "int n"] show ?thesis
    by (auto simp: parse_u32_def Let_def show_nat_def)
qed

subsection \<open>Lists as result sets\<close>

lemma set_map_filter: "set (List.map_filter f xs) = {y. \<exists>x\<in>set xs. f x = Some y}"
  by (induction xs) (auto simp: List.map_filter_simps split: option.splits)


text \<open>The first row of a result set, as \<open>rows.next()\<close> gives it.\<close>

definition first :: "'a list \<Rightarrow> 'a option" where
  "first xs = (case xs of [] \<Rightarrow> None | x # _ \<Rightarrow> Some x)"

lemma first_simps [simp]: "first [] = None" "first (x # xs) = Some x"
  by (simp_all add: first_def)

lemma first_map [simp]: "first (List.map f xs) = map_option f (first xs)"
  by (cases xs) simp_all

lemma first_filter_Some:
  "first (filter P xs) = Some x \<Longrightarrow> x \<in> set xs \<and> P x"
  by (induction xs) (auto split: if_splits)

lemma first_filter_None: "first (filter P xs) = None \<longleftrightarrow> (\<forall>x\<in>set xs. \<not> P x)"
  by (induction xs) auto

text \<open>\<open>ORDER BY key DESC\<close> as a stable sort.\<close>

definition sort_desc :: "('a \<Rightarrow> int) \<Rightarrow> 'a list \<Rightarrow> 'a list" where
  "sort_desc k xs = sort_key (\<lambda>x. - k x) xs"

lemma set_sort_desc [simp]: "set (sort_desc k xs) = set xs"
  by (simp add: sort_desc_def)

lemma sorted_sort_desc: "sorted_wrt (\<lambda>x y. k y \<le> k x) (sort_desc k xs)"
proof -
  have "sorted (List.map (\<lambda>x. - k x) (sort_desc k xs))"
    by (simp add: sort_desc_def)
  then show ?thesis by (simp add: sorted_wrt_map)
qed

end
