(* ===== verification/Status.thy ===== *)
theory Status
  imports Prelude
begin

text \<open>
  The two closed vocabularies that the store writes as text and numbers: the review status
  of \<open>src/lib.rs\<close> (\<open>ReviewStatus\<close>, its \<open>Display\<close>, \<open>FromStr\<close> and \<open>as_str\<close>) and the
  severity of a finding (\<open>Severity\<close> of \<open>src/db.rs\<close>).
\<close>

subsection \<open>Review status\<close>

datatype ReviewStatus =
    Incomplete | Pending | InReview | Cancelled | Skipped | Reviewed | Failed | FailedToApply

fun as_str :: "ReviewStatus \<Rightarrow> string" where
  "as_str Incomplete = ''Incomplete''"
| "as_str Pending = ''Pending''"
| "as_str InReview = ''In Review''"
| "as_str Cancelled = ''Cancelled''"
| "as_str Skipped = ''Skipped''"
| "as_str Reviewed = ''Reviewed''"
| "as_str Failed = ''Failed''"
| "as_str FailedToApply = ''Failed To Apply''"

fun display_status :: "ReviewStatus \<Rightarrow> string" where
  "display_status Incomplete = ''Incomplete''"
| "display_status Pending = ''Pending''"
| "display_status InReview = ''In Review''"
| "display_status Cancelled = ''Cancelled''"
| "display_status Skipped = ''Skipped''"
| "display_status Reviewed = ''Reviewed''"
| "display_status Failed = ''Failed''"
| "display_status FailedToApply = ''Failed To Apply''"

definition status_from_str :: "string \<Rightarrow> unit + ReviewStatus" where
  "status_from_str s =
     (if s = ''Incomplete'' then Inr Incomplete
      else if s = ''Pending'' then Inr Pending
      else if s = ''In Review'' then Inr InReview
      else if s = ''Cancelled'' then Inr Cancelled
      else if s = ''Skipped'' then Inr Skipped
      else if s = ''Reviewed'' then Inr Reviewed
      else if s = ''Failed'' then Inr Failed
      else if s = ''Failed To Apply'' then Inr FailedToApply
      else Inl ())"

text \<open>The statuses of the store that are texts only: \<open>Fetching\<close> is written by the fetch
  placeholder and \<open>Embargoed\<close> is what a listing shows, neither is a \<open>ReviewStatus\<close>.\<close>

abbreviation fetching :: string where "fetching \<equiv> ''Fetching''"

lemma as_str_inj: "as_str a = as_str b \<longleftrightarrow> a = b"
  by (cases a; cases b) simp_all

lemma status_from_str_as_str [simp]: "status_from_str (as_str st) = Inr st"
  by (cases st) (simp_all add: status_from_str_def)

lemma status_from_str_Inr: "status_from_str s = Inr st \<Longrightarrow> s = as_str st"
  by (auto simp: status_from_str_def split: if_splits)

lemma display_status_as_str: "display_status st = as_str st"
  by (cases st) simp_all

subsection \<open>Severity\<close>

datatype Severity = Low | Medium | High | Critical

text \<open>The discriminants \<open>Low = 1\<close> to \<open>Critical = 4\<close>, which \<open>severity as i32\<close> stores.\<close>

fun severity_code :: "Severity \<Rightarrow> int" where
  "severity_code Low = 1"
| "severity_code Medium = 2"
| "severity_code High = 3"
| "severity_code Critical = 4"

definition severity_from_str :: "string \<Rightarrow> Severity" where
  "severity_from_str s0 =
     (let s = trim s0 in
      if lower s = ''critical'' then Critical
      else if starts_with (lower s) ''high'' then High
      else if starts_with (lower s) ''medium'' then Medium
      else Low)"

text \<open>The text a stored code is shown as, in \<open>get_findings_for_review\<close> and
  \<open>get_completed_reviews_for_release\<close>.\<close>

definition severity_name :: "int \<Rightarrow> string" where
  "severity_name n =
     (if n = 4 then ''Critical'' else if n = 3 then ''High''
      else if n = 2 then ''Medium'' else ''Low'')"

instantiation Severity :: linorder
begin
definition less_eq_Severity :: "Severity \<Rightarrow> Severity \<Rightarrow> bool" where
  "less_eq_Severity a b \<longleftrightarrow> severity_code a \<le> severity_code b"
definition less_Severity :: "Severity \<Rightarrow> Severity \<Rightarrow> bool" where
  "less_Severity a b \<longleftrightarrow> severity_code a < severity_code b"
instance
proof
  fix a b :: Severity
  show "a \<le> b \<Longrightarrow> b \<le> a \<Longrightarrow> a = b"
    by (cases a; cases b) (simp_all add: less_eq_Severity_def)
qed (auto simp: less_eq_Severity_def less_Severity_def)
end

lemma severity_code_range: "1 \<le> severity_code s \<and> severity_code s \<le> 4"
  by (cases s) simp_all

lemma trim_severity_name: "trim (severity_name n) = severity_name n"
  by (simp add: severity_name_def) (auto intro!: impI; code_simp)

end
