(* ===== verification/Store.thy ===== *)
theory Store
  imports Status
begin

text \<open>
  The relational store of \<open>src/db.rs\<close>: one record per table of \<open>src/schema.sql\<close>, one
  record for the whole database, the SQL steps the statements of \<open>db.rs\<close> are built from,
  and the invariants of the store.

  A table is the list of its rows in \<open>rowid\<close> order, the order in which SQLite scans it. A
  nullable column that some \<open>INSERT\<close> of the program leaves out is an option; a column that
  every \<open>INSERT\<close> of the program fills is not. Integers are mathematical: ids, article
  numbers and Unix times stay far from the bounds of \<open>i64\<close>. Failures of the SQL engine
  itself (I/O, locking) are not modelled, failures the statements cause are: a unique or
  primary key that is taken, a column that does not exist, a \<open>NULL\<close> read into a type
  without one.
\<close>

datatype db_error =
    NullValue
  | UniqueViolation
  | NoSuchColumn string
  | IndexCollision int nat
  | Missing string

subsection \<open>Rows\<close>

record mailing_list_row =
  ml_id :: int
  ml_name :: string
  ml_group :: string
  ml_last_article :: int

record subsystem_row =
  su_id :: int
  su_name :: string
  su_address :: string

record thread_row =
  th_id :: int
  th_root :: string
  th_subject :: string
  th_updated :: int

record message_row =
  me_id :: int
  me_message_id :: string
  me_thread :: int
  me_in_reply_to :: "string option"
  me_author :: string
  me_subject :: string
  me_date :: int
  me_body :: string
  me_to :: string
  me_cc :: string
  me_blob :: "string option"
  me_list :: "string option"

record baseline_row =
  bl_id :: int
  bl_repo :: "string option"
  bl_branch :: "string option"
  bl_commit :: "string option"

text \<open>\<open>skip_filters\<close> and \<open>only_filters\<close> hold a JSON array of strings; the model keeps the
  list that \<open>serde_json\<close> writes and reads back.\<close>

record patchset_row =
  ps_id :: int
  ps_thread :: int
  ps_cover :: "string option"
  ps_subject :: string
  ps_author :: "string option"
  ps_date :: int
  ps_status :: string
  ps_total :: "nat option"
  ps_received :: "nat option"
  ps_subject_index :: nat
  ps_parser_version :: int
  ps_to :: "string option"
  ps_cc :: "string option"
  ps_baseline :: "int option"
  ps_model :: "string option"
  ps_prompts :: "string option"
  ps_baseline_logs :: "string option"
  ps_failed_reason :: "string option"
  ps_skip :: "string list option"
  ps_only :: "string list option"
  ps_target_reviews :: "nat option"
  ps_provider :: "string option"
  ps_embargo :: "int option"

record patch_row =
  pa_id :: int
  pa_patchset :: int
  pa_message_id :: string
  pa_part :: nat
  pa_diff :: string
  pa_status :: "string option"
  pa_apply_error :: "string option"

record review_row =
  rv_id :: int
  rv_patchset :: int
  rv_patch :: "int option"
  rv_summary :: "string option"
  rv_result :: "string option"
  rv_created :: int
  rv_started :: "int option"
  rv_completed :: "int option"
  rv_interaction :: "string option"
  rv_status :: string
  rv_logs :: "string option"
  rv_inline :: "string option"
  rv_baseline :: "int option"
  rv_model :: string
  rv_prompts :: "string option"
  rv_provider :: string

record finding_row =
  fi_id :: int
  fi_review :: int
  fi_severity :: int
  fi_explanation :: "string option"
  fi_problem :: string
  fi_suggestion :: "string option"
  fi_preexisting :: "int option"
  fi_locations :: "string option"
  fi_triage_status :: "string option"
  fi_triage_comment :: "string option"
  fi_triage_updated :: "int option"

record comment_row =
  co_id :: int
  co_finding :: int
  co_status :: string
  co_comment :: string
  co_created :: int

record interaction_row =
  ai_id :: string
  ai_parent :: "string option"
  ai_workflow :: "string option"
  ai_provider :: string
  ai_model :: string
  ai_input :: string
  ai_output :: string
  ai_tokens_in :: nat
  ai_tokens_out :: nat
  ai_tokens_cached :: nat
  ai_created :: int

record person_row =
  pe_id :: int
  pe_name :: "string option"
  pe_email :: string

record recipient_row =
  re_message :: int
  re_person :: int
  re_type :: string

record tool_usage_row =
  tu_id :: int
  tu_review :: int
  tu_provider :: string
  tu_model :: string
  tu_tool :: string
  tu_arguments :: "string option"
  tu_output_length :: int
  tu_created :: int

record outbox_row =
  eo_id :: int
  eo_patch :: int
  eo_status :: string
  eo_to :: string
  eo_cc :: string
  eo_subject :: string
  eo_in_reply_to :: string
  eo_references :: string
  eo_body :: string
  eo_locked :: "int option"
  eo_error :: "string option"
  eo_created :: int

text \<open>The link tables hold pairs of ids. \<open>finding_columns\<close> are the column names the table
  \<open>findings\<close> has at the moment: an \<open>INSERT\<close> that names another column fails.\<close>

record db =
  mailing_lists :: "mailing_list_row list"
  subsystems :: "subsystem_row list"
  threads :: "thread_row list"
  messages :: "message_row list"
  baselines :: "baseline_row list"
  patchsets :: "patchset_row list"
  patches :: "patch_row list"
  reviews :: "review_row list"
  findings :: "finding_row list"
  triage_comments :: "comment_row list"
  interactions :: "interaction_row list"
  messages_subsystems :: "(int \<times> int) list"
  threads_subsystems :: "(int \<times> int) list"
  patches_subsystems :: "(int \<times> int) list"
  patchsets_subsystems :: "(int \<times> int) list"
  people :: "person_row list"
  recipients :: "recipient_row list"
  messages_lists :: "(int \<times> int) list"
  tool_usages :: "tool_usage_row list"
  outbox :: "outbox_row list"
  finding_columns :: "string list"

text \<open>The columns \<open>CREATE TABLE findings\<close> gives the table on a fresh database.\<close>

definition schema_finding_columns :: "string list" where
  "schema_finding_columns =
     [''id'', ''review_id'', ''severity'', ''severity_explanation'', ''problem'',
      ''suggestion'', ''preexisting'', ''locations'', ''triage_status'',
      ''triage_comment'', ''triage_updated_at'']"

definition empty_db :: db where
  "empty_db =
     \<lparr>mailing_lists = [], subsystems = [], threads = [], messages = [], baselines = [],
      patchsets = [], patches = [], reviews = [], findings = [], triage_comments = [],
      interactions = [], messages_subsystems = [], threads_subsystems = [],
      patches_subsystems = [], patchsets_subsystems = [], people = [], recipients = [],
      messages_lists = [], tool_usages = [], outbox = [],
      finding_columns = schema_finding_columns\<rparr>"

subsection \<open>SQL steps\<close>

text \<open>\<open>INTEGER PRIMARY KEY\<close>: a new row gets one more than the largest id in the table, and
  the first row of an empty table gets 1. An id is handed out again when the row with the
  largest id is deleted.\<close>

definition next_id :: "int list \<Rightarrow> int" where
  "next_id ids = foldr max ids 0 + 1"

definition update_where :: "('r \<Rightarrow> bool) \<Rightarrow> ('r \<Rightarrow> 'r) \<Rightarrow> 'r list \<Rightarrow> 'r list" where
  "update_where P f rows = List.map (\<lambda>r. if P r then f r else r) rows"

definition delete_where :: "('r \<Rightarrow> bool) \<Rightarrow> 'r list \<Rightarrow> 'r list" where
  "delete_where P rows = filter (\<lambda>r. \<not> P r) rows"

definition count_where :: "('r \<Rightarrow> bool) \<Rightarrow> 'r list \<Rightarrow> nat" where
  "count_where P rows = length (filter P rows)"

text \<open>\<open>INSERT OR IGNORE\<close> into a table whose primary key is the whole pair.\<close>

definition insert_link :: "int \<times> int \<Rightarrow> (int \<times> int) list \<Rightarrow> (int \<times> int) list" where
  "insert_link p xs = (if p \<in> set xs then xs else xs @ [p])"

text \<open>\<open>UPDATE OR IGNORE t SET a = new WHERE a = old\<close>: a row whose new key is taken stays.\<close>

definition relink :: "int \<Rightarrow> int \<Rightarrow> (int \<times> int) list \<Rightarrow> (int \<times> int) list" where
  "relink new old xs =
     List.map (\<lambda>(a, b). if a = old \<and> (new, b) \<notin> set xs then (new, b) else (a, b)) xs"

text \<open>\<open>a >= b\<close> in SQL is not true when a side is \<open>NULL\<close>.\<close>

fun sql_ge :: "nat option \<Rightarrow> nat option \<Rightarrow> bool" where
  "sql_ge (Some a) (Some b) \<longleftrightarrow> b \<le> a"
| "sql_ge _ _ \<longleftrightarrow> False"

lemma foldr_max_ge: "x \<in> set ids \<Longrightarrow> x \<le> foldr max ids (b::int)"
  by (induction ids) auto

lemma foldr_max_base: "b \<le> foldr max ids (b::int)"
  by (induction ids) auto

lemma next_id_fresh: "next_id ids \<notin> set ids"
  using foldr_max_ge [of "next_id ids" ids 0] by (auto simp: next_id_def)

lemma next_id_pos: "0 < next_id ids"
  using foldr_max_base [of 0 ids] by (simp add: next_id_def)

lemma next_id_gt: "x \<in> set ids \<Longrightarrow> x < next_id ids"
  using foldr_max_ge [of x ids 0] by (simp add: next_id_def)

lemma set_insert_link [simp]: "set (insert_link p xs) = insert p (set xs)"
  by (auto simp: insert_link_def)

lemma distinct_insert_link [simp]: "distinct (insert_link p xs) = distinct xs"
  by (auto simp: insert_link_def)

lemma map_update_where:
  "(\<And>r. g (f r) = g r) \<Longrightarrow> List.map g (update_where P f rows) = List.map g rows"
  by (simp add: update_where_def)

lemma set_update_where:
  "set (update_where P f rows) = {f r |r. r \<in> set rows \<and> P r} \<union> {r \<in> set rows. \<not> P r}"
  by (auto simp: update_where_def)

lemma ball_update_where:
  "(\<forall>r\<in>set (update_where P f rows). Q r) \<longleftrightarrow>
     (\<forall>r\<in>set rows. (P r \<longrightarrow> Q (f r)) \<and> (\<not> P r \<longrightarrow> Q r))"
  by (auto simp: update_where_def)

lemma update_where_memI: "r \<in> set rows \<Longrightarrow> (if P r then f r else r) \<in> set (update_where P f rows)"
  by (auto simp: update_where_def)

lemma first_update_id:
  assumes "\<And>r. P (f r) = P r"
  shows "first (filter P (update_where Q f rows)) =
    map_option (\<lambda>r. if Q r then f r else r) (first (filter P rows))"
  using assms by (induction rows) (auto simp: update_where_def)

lemma length_update_where [simp]: "length (update_where P f rows) = length rows"
  by (simp add: update_where_def)

lemma update_where_Nil [simp]: "update_where P f [] = []"
  by (simp add: update_where_def)

lemma update_where_none: "(\<forall>r\<in>set rows. \<not> P r) \<Longrightarrow> update_where P f rows = rows"
  by (auto simp: update_where_def intro: map_idI)

lemma set_delete_where [simp]: "set (delete_where P rows) = {r \<in> set rows. \<not> P r}"
  by (auto simp: delete_where_def)

lemma count_where_pos: "0 < count_where P rows \<longleftrightarrow> (\<exists>r\<in>set rows. P r)"
  by (induction rows) (auto simp: count_where_def)

lemma count_where_zero: "count_where P rows = 0 \<longleftrightarrow> (\<forall>r\<in>set rows. \<not> P r)"
  by (induction rows) (auto simp: count_where_def)

lemma count_where_cong: "(\<And>r. r \<in> set rows \<Longrightarrow> P r = Q r) \<Longrightarrow> count_where P rows = count_where Q rows"
  unfolding count_where_def by (metis (mono_tags, lifting) filter_cong)

lemma count_where_append [simp]:
  "count_where P (xs @ ys) = count_where P xs + count_where P ys"
  by (simp add: count_where_def)

lemma count_where_single [simp]: "count_where P [x] = (if P x then 1 else 0)"
  by (simp add: count_where_def)

lemma count_update_where:
  "count_where Q (update_where P f rows) = count_where (\<lambda>r. Q (if P r then f r else r)) rows"
  by (induction rows) (auto simp: count_where_def update_where_def)

subsection \<open>Keys\<close>

definition keys_ok :: "('r \<Rightarrow> int) \<Rightarrow> 'r list \<Rightarrow> bool" where
  "keys_ok k rows \<longleftrightarrow> distinct (List.map k rows) \<and> (\<forall>r\<in>set rows. 0 < k r)"

definition unique_on :: "('r \<Rightarrow> 'a) \<Rightarrow> 'r list \<Rightarrow> bool" where
  "unique_on f rows \<longleftrightarrow> distinct (List.map f rows)"

lemma keys_ok_Nil [simp]: "keys_ok k []"
  by (simp add: keys_ok_def)

lemma unique_on_Nil [simp]: "unique_on f []"
  by (simp add: unique_on_def)

lemma keys_ok_insert:
  "keys_ok k rows \<Longrightarrow> k r = next_id (List.map k rows) \<Longrightarrow> keys_ok k (rows @ [r])"
  using next_id_fresh [of "List.map k rows"] next_id_pos [of "List.map k rows"]
  by (auto simp: keys_ok_def)

lemma keys_ok_update:
  "(\<And>r. k (f r) = k r) \<Longrightarrow> keys_ok k (update_where P f rows) = keys_ok k rows"
  by (simp add: keys_ok_def map_update_where ball_update_where)

lemma keys_ok_delete: "keys_ok k rows \<Longrightarrow> keys_ok k (delete_where P rows)"
  by (auto simp: keys_ok_def delete_where_def distinct_map_filter)

lemma unique_on_insert:
  "unique_on f rows \<Longrightarrow> (\<forall>x\<in>set rows. f x \<noteq> f r) \<Longrightarrow> unique_on f (rows @ [r])"
  by (auto simp: unique_on_def)

lemma unique_on_update:
  "(\<And>r. g (f r) = g r) \<Longrightarrow> unique_on g (update_where P f rows) = unique_on g rows"
  by (simp add: unique_on_def map_update_where)

lemma unique_on_delete: "unique_on f rows \<Longrightarrow> unique_on f (delete_where P rows)"
  by (auto simp: unique_on_def delete_where_def distinct_map_filter)

lemma keys_ok_eq: "keys_ok k rows \<Longrightarrow> r \<in> set rows \<Longrightarrow> s \<in> set rows \<Longrightarrow> k r = k s \<Longrightarrow> r = s"
  by (auto simp: keys_ok_def distinct_map inj_on_def)

lemma unique_on_eq: "unique_on f rows \<Longrightarrow> r \<in> set rows \<Longrightarrow> s \<in> set rows \<Longrightarrow> f r = f s \<Longrightarrow> r = s"
  by (auto simp: unique_on_def distinct_map inj_on_def)

lemma first_unique:
  "unique_on f rows \<Longrightarrow> r \<in> set rows \<Longrightarrow> first (filter (\<lambda>x. f x = f r) rows) = Some r"
proof -
  assume u: "unique_on f rows" and r: "r \<in> set rows"
  then obtain x where x: "first (filter (\<lambda>x. f x = f r) rows) = Some x"
    using first_filter_None [of "\<lambda>x. f x = f r" rows] by fastforce
  with first_filter_Some [OF x] u r show ?thesis
    by (metis unique_on_eq)
qed

subsection \<open>References\<close>

text \<open>\<open>ids k rows\<close> are the keys a foreign key may point to; \<open>fk\<close> and \<open>fk_opt\<close> say that a
  column, or a nullable column, only points to them.\<close>

definition ids :: "('r \<Rightarrow> 'k) \<Rightarrow> 'r list \<Rightarrow> 'k set" where
  "ids k rows = k ` set rows"

definition fk :: "('r \<Rightarrow> 'k) \<Rightarrow> 'r list \<Rightarrow> 'k set \<Rightarrow> bool" where
  "fk f rows K \<longleftrightarrow> (\<forall>r\<in>set rows. f r \<in> K)"

definition fk_opt :: "('r \<Rightarrow> 'k option) \<Rightarrow> 'r list \<Rightarrow> 'k set \<Rightarrow> bool" where
  "fk_opt f rows K \<longleftrightarrow> (\<forall>r\<in>set rows. \<forall>k. f r = Some k \<longrightarrow> k \<in> K)"

lemma ids_cong: "List.map k xs = List.map k ys \<Longrightarrow> ids k xs = ids k ys"
  unfolding ids_def by (metis set_map)

lemma ids_Nil [simp]: "ids k [] = {}"
  by (simp add: ids_def)

lemma ids_append [simp]: "ids k (xs @ ys) = ids k xs \<union> ids k ys"
  by (auto simp: ids_def)

lemma ids_single [simp]: "ids k [r] = {k r}"
  by (simp add: ids_def)

lemma ids_update [simp]:
  "(\<And>r. k (f r) = k r) \<Longrightarrow> ids k (update_where P f rows) = ids k rows"
  by (intro ids_cong map_update_where)

lemma ids_memI: "r \<in> set rows \<Longrightarrow> k r \<in> ids k rows"
  by (simp add: ids_def)

lemma fk_Nil [simp]: "fk f [] K" "fk_opt g [] L"
  by (simp_all add: fk_def fk_opt_def)

lemma fk_append [simp]:
  "fk f (xs @ ys) K \<longleftrightarrow> fk f xs K \<and> fk f ys K"
  "fk_opt g (xs @ ys) L \<longleftrightarrow> fk_opt g xs L \<and> fk_opt g ys L"
  by (auto simp: fk_def fk_opt_def)

lemma fk_single [simp]:
  "fk f [r] K \<longleftrightarrow> f r \<in> K" "fk_opt g [r] L \<longleftrightarrow> (\<forall>k. g r = Some k \<longrightarrow> k \<in> L)"
  by (auto simp: fk_def fk_opt_def)

lemma fk_update_other [simp]:
  "(\<And>r. f (h r) = f r) \<Longrightarrow> fk f (update_where P h rows) K \<longleftrightarrow> fk f rows K"
  "(\<And>r. g (h r) = g r) \<Longrightarrow> fk_opt g (update_where P h rows) L \<longleftrightarrow> fk_opt g rows L"
  by (auto simp: fk_def fk_opt_def ball_update_where)

lemma fk_update:
  "fk f rows K \<Longrightarrow> (\<And>r. r \<in> set rows \<Longrightarrow> P r \<Longrightarrow> f (h r) \<in> K) \<Longrightarrow> fk f (update_where P h rows) K"
  "fk_opt g rows L \<Longrightarrow> (\<And>r k. r \<in> set rows \<Longrightarrow> P r \<Longrightarrow> g (h r) = Some k \<Longrightarrow> k \<in> L) \<Longrightarrow>
     fk_opt g (update_where P h rows) L"
  by (auto simp: fk_def fk_opt_def ball_update_where)

lemma fk_delete: "fk f rows K \<Longrightarrow> fk f (delete_where P rows) K"
  "fk_opt g rows L \<Longrightarrow> fk_opt g (delete_where P rows) L"
  by (auto simp: fk_def fk_opt_def)

lemma fk_mono: "fk f rows K \<Longrightarrow> K \<subseteq> K' \<Longrightarrow> fk f rows K'"
  "fk_opt g rows L \<Longrightarrow> L \<subseteq> L' \<Longrightarrow> fk_opt g rows L'"
  by (auto simp: fk_def fk_opt_def)

lemma fk_insertI [intro]: "fk f rows K \<Longrightarrow> fk f rows (insert k K)"
  "fk_opt g rows L \<Longrightarrow> fk_opt g rows (insert l L)"
  by (auto simp: fk_def fk_opt_def)

lemma fk_link [simp]:
  "fk f (insert_link p xs) K \<longleftrightarrow> fk f xs K \<and> f p \<in> K"
  by (auto simp: fk_def)

lemma fkD: "fk f rows K \<Longrightarrow> r \<in> set rows \<Longrightarrow> f r \<in> K"
  by (simp add: fk_def)

subsection \<open>Invariants of the store\<close>

text \<open>\<open>keys_inv\<close>: the primary keys and the \<open>UNIQUE\<close> columns of the schema. \<open>refs_inv\<close>: its
  foreign keys. The statements are modelled without the engine's foreign key checks; an
  operation that keeps \<open>refs_inv\<close> never runs into one, whether they are switched on or not.
  \<open>parts_inv\<close>: \<open>received_parts\<close> of a patchset counts its patches.\<close>

definition keys_inv :: "db \<Rightarrow> bool" where
  "keys_inv d \<longleftrightarrow>
     keys_ok ml_id (mailing_lists d) \<and> unique_on ml_group (mailing_lists d) \<and>
     keys_ok su_id (subsystems d) \<and> unique_on su_name (subsystems d) \<and>
     unique_on su_address (subsystems d) \<and>
     keys_ok th_id (threads d) \<and>
     keys_ok me_id (messages d) \<and> unique_on me_message_id (messages d) \<and>
     keys_ok bl_id (baselines d) \<and>
     keys_ok ps_id (patchsets d) \<and>
     keys_ok pa_id (patches d) \<and> unique_on pa_message_id (patches d) \<and>
     keys_ok rv_id (reviews d) \<and>
     keys_ok fi_id (findings d) \<and> keys_ok co_id (triage_comments d) \<and>
     unique_on ai_id (interactions d) \<and>
     distinct (messages_subsystems d) \<and> distinct (threads_subsystems d) \<and>
     distinct (patches_subsystems d) \<and> distinct (patchsets_subsystems d) \<and>
     distinct (messages_lists d) \<and>
     keys_ok pe_id (people d) \<and> unique_on pe_email (people d) \<and>
     unique_on (\<lambda>r. (re_message r, re_person r)) (recipients d) \<and>
     keys_ok tu_id (tool_usages d) \<and> keys_ok eo_id (outbox d)"

definition refs_inv :: "db \<Rightarrow> bool" where
  "refs_inv d \<longleftrightarrow>
     fk me_thread (messages d) (ids th_id (threads d)) \<and>
     fk ps_thread (patchsets d) (ids th_id (threads d)) \<and>
     fk_opt ps_cover (patchsets d) (ids me_message_id (messages d)) \<and>
     fk_opt ps_baseline (patchsets d) (ids bl_id (baselines d)) \<and>
     fk pa_patchset (patches d) (ids ps_id (patchsets d)) \<and>
     fk pa_message_id (patches d) (ids me_message_id (messages d)) \<and>
     fk rv_patchset (reviews d) (ids ps_id (patchsets d)) \<and>
     fk_opt rv_patch (reviews d) (ids pa_id (patches d)) \<and>
     fk_opt rv_interaction (reviews d) (ids ai_id (interactions d)) \<and>
     fk_opt rv_baseline (reviews d) (ids bl_id (baselines d)) \<and>
     fk fi_review (findings d) (ids rv_id (reviews d)) \<and>
     fk co_finding (triage_comments d) (ids fi_id (findings d)) \<and>
     fk fst (messages_subsystems d) (ids me_id (messages d)) \<and>
     fk snd (messages_subsystems d) (ids su_id (subsystems d)) \<and>
     fk fst (threads_subsystems d) (ids th_id (threads d)) \<and>
     fk snd (threads_subsystems d) (ids su_id (subsystems d)) \<and>
     fk fst (patches_subsystems d) (ids pa_id (patches d)) \<and>
     fk snd (patches_subsystems d) (ids su_id (subsystems d)) \<and>
     fk fst (patchsets_subsystems d) (ids ps_id (patchsets d)) \<and>
     fk snd (patchsets_subsystems d) (ids su_id (subsystems d)) \<and>
     fk re_message (recipients d) (ids me_id (messages d)) \<and>
     fk re_person (recipients d) (ids pe_id (people d)) \<and>
     fk fst (messages_lists d) (ids me_id (messages d)) \<and>
     fk snd (messages_lists d) (ids ml_id (mailing_lists d)) \<and>
     fk tu_review (tool_usages d) (ids rv_id (reviews d)) \<and>
     fk eo_patch (outbox d) (ids pa_id (patches d))"

definition parts_of :: "int \<Rightarrow> patch_row list \<Rightarrow> nat" where
  "parts_of i rows = count_where (\<lambda>p. pa_patchset p = i) rows"

definition received_count :: "patchset_row \<Rightarrow> nat" where
  "received_count p = (case ps_received p of None \<Rightarrow> 0 | Some n \<Rightarrow> n)"

definition parts_inv :: "db \<Rightarrow> bool" where
  "parts_inv d \<longleftrightarrow>
     (\<forall>p\<in>set (patchsets d). received_count p = parts_of (ps_id p) (patches d))"

definition store_inv :: "db \<Rightarrow> bool" where
  "store_inv d \<longleftrightarrow> keys_inv d \<and> refs_inv d \<and> parts_inv d"

lemma store_inv_empty: "store_inv empty_db"
  by (simp add: store_inv_def keys_inv_def refs_inv_def parts_inv_def empty_db_def)

lemmas table_rules = keys_ok_insert keys_ok_update keys_ok_delete unique_on_insert
  unique_on_update unique_on_delete

end
