(* ===== verification/Threads.thy ===== *)
theory Threads
  imports Store "HOL-Library.Word"
begin

text \<open>
  Mailing lists, people, subsystems, threads, messages and baselines of \<open>src/db.rs\<close>. An
  operation that only changes rows is a function on the store; one that returns a value
  too returns the pair, with a sum where a statement of its own can fail.
\<close>

type_synonym u64 = "64 word"

subsection \<open>Mailing lists\<close>

definition get_mailing_list_id_by_name :: "string \<Rightarrow> db \<Rightarrow> int option" where
  "get_mailing_list_id_by_name name d =
     map_option ml_id (first (filter (\<lambda>r. ml_group r = name) (mailing_lists d)))"

definition add_message_to_mailing_list :: "int \<Rightarrow> int \<Rightarrow> db \<Rightarrow> db" where
  "add_message_to_mailing_list message_id mailing_list_id d =
     d\<lparr>messages_lists := insert_link (message_id, mailing_list_id) (messages_lists d)\<rparr>"

definition get_mailing_lists :: "db \<Rightarrow> (string \<times> string) list" where
  "get_mailing_lists d = List.map (\<lambda>r. (ml_name r, ml_group r)) (mailing_lists d)"

text \<open>\<open>ON CONFLICT(nntp_group) DO UPDATE SET name = excluded.name\<close>.\<close>

definition ensure_mailing_list :: "string \<Rightarrow> string \<Rightarrow> db \<Rightarrow> db" where
  "ensure_mailing_list name grp d =
     (if \<exists>r\<in>set (mailing_lists d). ml_group r = grp
      then d\<lparr>mailing_lists :=
             update_where (\<lambda>r. ml_group r = grp) (\<lambda>r. r\<lparr>ml_name := name\<rparr>) (mailing_lists d)\<rparr>
      else d\<lparr>mailing_lists := mailing_lists d @
             [\<lparr>ml_id = next_id (List.map ml_id (mailing_lists d)), ml_name = name,
               ml_group = grp, ml_last_article = 0\<rparr>]\<rparr>)"

text \<open>The article number is a \<open>u64\<close> kept in a signed column: \<open>num as i64\<close> on the way in,
  \<open>num as u64\<close> on the way out.\<close>

definition get_last_article_num :: "string \<Rightarrow> db \<Rightarrow> u64" where
  "get_last_article_num grp d =
     (case first (filter (\<lambda>r. ml_group r = grp) (mailing_lists d)) of
        Some r \<Rightarrow> word_of_int (ml_last_article r)
      | None \<Rightarrow> 0)"

definition update_last_article_num :: "string \<Rightarrow> u64 \<Rightarrow> db \<Rightarrow> db" where
  "update_last_article_num grp num d =
     d\<lparr>mailing_lists :=
        update_where (\<lambda>r. ml_group r = grp) (\<lambda>r. r\<lparr>ml_last_article := sint num\<rparr>)
          (mailing_lists d)\<rparr>"

subsection \<open>People and recipients\<close>

definition ensure_person :: "string option \<Rightarrow> string \<Rightarrow> db \<Rightarrow> (db_error + int) \<times> db" where
  "ensure_person name email0 d =
     (let email = trim email0;
          d' = (if \<exists>r\<in>set (people d). pe_email r = email then d
                else d\<lparr>people := people d @
                       [\<lparr>pe_id = next_id (List.map pe_id (people d)), pe_name = name,
                         pe_email = email\<rparr>]\<rparr>)
      in case first (filter (\<lambda>r. pe_email r = email) (people d')) of
           Some r \<Rightarrow> (Inr (pe_id r), d')
         | None \<Rightarrow> (Inl (Missing email), d'))"

definition add_message_recipient :: "int \<Rightarrow> int \<Rightarrow> string \<Rightarrow> db \<Rightarrow> db" where
  "add_message_recipient message_id person_id recipient_type d =
     (if \<exists>r\<in>set (recipients d). re_message r = message_id \<and> re_person r = person_id then d
      else d\<lparr>recipients := recipients d @
             [\<lparr>re_message = message_id, re_person = person_id, re_type = recipient_type\<rparr>]\<rparr>)"

subsection \<open>Subsystems\<close>

text \<open>Name and address are both unique: a clash on either makes the \<open>INSERT OR IGNORE\<close> a
  no-op, and the second lookup by name serves the clash on the name.\<close>

definition ensure_subsystem :: "string \<Rightarrow> string \<Rightarrow> db \<Rightarrow> (db_error + int) \<times> db" where
  "ensure_subsystem name mailing_list_address d =
     (let d' = (if \<exists>r\<in>set (subsystems d).
                      su_name r = name \<or> su_address r = mailing_list_address then d
                else d\<lparr>subsystems := subsystems d @
                       [\<lparr>su_id = next_id (List.map su_id (subsystems d)), su_name = name,
                         su_address = mailing_list_address\<rparr>]\<rparr>)
      in case first (filter (\<lambda>r. su_address r = mailing_list_address) (subsystems d')) of
           Some r \<Rightarrow> (Inr (su_id r), d')
         | None \<Rightarrow>
             (case first (filter (\<lambda>r. su_name r = name) (subsystems d')) of
                Some r \<Rightarrow> (Inr (su_id r), d')
              | None \<Rightarrow> (Inl (Missing ''subsystem''), d')))"

definition add_subsystem_to_message :: "int \<Rightarrow> int \<Rightarrow> db \<Rightarrow> db" where
  "add_subsystem_to_message message_id_db subsystem_id d =
     d\<lparr>messages_subsystems := insert_link (message_id_db, subsystem_id) (messages_subsystems d)\<rparr>"

definition add_subsystem_to_thread :: "int \<Rightarrow> int \<Rightarrow> db \<Rightarrow> db" where
  "add_subsystem_to_thread thread_id subsystem_id d =
     d\<lparr>threads_subsystems := insert_link (thread_id, subsystem_id) (threads_subsystems d)\<rparr>"

definition add_subsystem_to_patch :: "int \<Rightarrow> int \<Rightarrow> db \<Rightarrow> db" where
  "add_subsystem_to_patch patch_id subsystem_id d =
     d\<lparr>patches_subsystems := insert_link (patch_id, subsystem_id) (patches_subsystems d)\<rparr>"

definition add_subsystem_to_patchset :: "int \<Rightarrow> int \<Rightarrow> db \<Rightarrow> db" where
  "add_subsystem_to_patchset patchset_id subsystem_id d =
     d\<lparr>patchsets_subsystems := insert_link (patchset_id, subsystem_id) (patchsets_subsystems d)\<rparr>"

subsection \<open>Threads and messages\<close>

abbreviation placeholder :: string where "placeholder \<equiv> ''(placeholder)''"

definition find_message :: "string \<Rightarrow> db \<Rightarrow> message_row option" where
  "find_message msg_id d = first (filter (\<lambda>r. me_message_id r = msg_id) (messages d))"

definition get_message_id_by_msg_id :: "string \<Rightarrow> db \<Rightarrow> int option" where
  "get_message_id_by_msg_id msg_id d = map_option me_id (find_message msg_id d)"

definition get_oldest_message_timestamp :: "db \<Rightarrow> int option" where
  "get_oldest_message_timestamp d =
     (case filter (\<lambda>t. 0 < t) (List.map me_date (messages d)) of
        [] \<Rightarrow> None
      | t # ts \<Rightarrow> Some (fold min ts t))"

definition create_thread :: "string \<Rightarrow> string \<Rightarrow> int \<Rightarrow> db \<Rightarrow> int \<times> db" where
  "create_thread root_message_id subject date d =
     (let i = next_id (List.map th_id (threads d))
      in (i, d\<lparr>threads := threads d @
                [\<lparr>th_id = i, th_root = root_message_id, th_subject = subject,
                  th_updated = date\<rparr>]\<rparr>))"

definition get_thread_id_for_message :: "string \<Rightarrow> db \<Rightarrow> int option" where
  "get_thread_id_for_message message_id d = map_option me_thread (find_message message_id d)"

text \<open>The merge of a thread into another that \<open>create_message\<close> does first: messages,
  patchsets and subsystem links move over, links the new thread already has are dropped,
  then the old thread goes.\<close>

definition merge_thread :: "int \<Rightarrow> int \<Rightarrow> db \<Rightarrow> db" where
  "merge_thread thread_id old_thread_id d =
     d\<lparr>messages := update_where (\<lambda>r. me_thread r = old_thread_id)
                     (\<lambda>r. r\<lparr>me_thread := thread_id\<rparr>) (messages d),
       patchsets := update_where (\<lambda>r. ps_thread r = old_thread_id)
                     (\<lambda>r. r\<lparr>ps_thread := thread_id\<rparr>) (patchsets d),
       threads_subsystems :=
         delete_where (\<lambda>(t, _). t = old_thread_id)
           (relink thread_id old_thread_id (threads_subsystems d)),
       threads := delete_where (\<lambda>r. th_id r = old_thread_id) (threads d)\<rparr>"

definition upsert_message :: "message_row \<Rightarrow> message_row list \<Rightarrow> message_row list" where
  "upsert_message m rows =
     (if \<exists>r\<in>set rows. me_message_id r = me_message_id m
      then update_where (\<lambda>r. me_message_id r = me_message_id m) (\<lambda>r. m\<lparr>me_id := me_id r\<rparr>) rows
      else rows @ [m\<lparr>me_id := next_id (List.map me_id rows)\<rparr>])"

text \<open>The fields of the new message travel as a row; the id in it is not used, the table
  gives the id.\<close>

definition create_message :: "message_row \<Rightarrow> db \<Rightarrow> db" where
  "create_message m d =
     (let d' = (case get_thread_id_for_message (me_message_id m) d of
                  Some old_thread_id \<Rightarrow>
                    if old_thread_id \<noteq> me_thread m then merge_thread (me_thread m) old_thread_id d
                    else d
                | None \<Rightarrow> d)
      in d'\<lparr>messages := upsert_message m (messages d')\<rparr>)"

definition ensure_thread_for_message :: "string \<Rightarrow> int \<Rightarrow> db \<Rightarrow> int \<times> db" where
  "ensure_thread_for_message message_id date d =
     (case get_thread_id_for_message message_id d of
        Some tid \<Rightarrow> (tid, d)
      | None \<Rightarrow>
          (let (thread_id, d') = create_thread message_id placeholder date d
           in (thread_id,
               create_message
                 \<lparr>me_id = 0, me_message_id = message_id, me_thread = thread_id,
                  me_in_reply_to = None, me_author = ''unknown'', me_subject = placeholder,
                  me_date = date, me_body = [], me_to = [], me_cc = [], me_blob = None,
                  me_list = None\<rparr> d')))"

subsection \<open>Reading messages\<close>

record MessageDetails =
  md_message :: message_row
  md_diff :: "string option"
  md_thread :: "(int \<times> string \<times> string \<times> int \<times> string \<times> string option) list"

text \<open>The body of an e-mailed patch is its diff too, so a diff equal to the body is not
  shown a second time.\<close>

definition shown_diff :: "string \<Rightarrow> string option \<Rightarrow> string option" where
  "shown_diff body raw_diff =
     (case raw_diff of Some df \<Rightarrow> if body = df then None else raw_diff | None \<Rightarrow> raw_diff)"

definition get_message_details :: "int \<Rightarrow> db \<Rightarrow> MessageDetails option" where
  "get_message_details i d =
     (case first (filter (\<lambda>m. me_id m = i) (messages d)) of
        None \<Rightarrow> None
      | Some m \<Rightarrow>
          (let raw_diff = map_option pa_diff
                 (first (filter (\<lambda>p. pa_message_id p = me_message_id m) (patches d)));
               thread_rows = sort_key me_date
                 (filter (\<lambda>r. me_thread r = me_thread m \<and> me_subject r \<noteq> placeholder)
                    (messages d))
           in Some \<lparr>md_message = m, md_diff = shown_diff (me_body m) raw_diff,
                    md_thread = List.map (\<lambda>r. (me_id r, me_message_id r, me_author r, me_date r,
                                           me_subject r, me_in_reply_to r)) thread_rows\<rparr>))"

definition get_message_details_by_msgid :: "string \<Rightarrow> db \<Rightarrow> MessageDetails option" where
  "get_message_details_by_msgid msg_id d =
     (case get_message_id_by_msg_id msg_id d of
        Some i \<Rightarrow> get_message_details i d
      | None \<Rightarrow> None)"

text \<open>Only a non-empty body counts; with an empty one the caller has to read the blob.\<close>

definition get_message_body :: "string \<Rightarrow> db \<Rightarrow> string option" where
  "get_message_body msg_id d =
     (case find_message msg_id d of
        Some r \<Rightarrow> if me_body r \<noteq> [] then Some (me_body r) else None
      | None \<Rightarrow> None)"

subsection \<open>Baselines\<close>

record BaselineRow =
  repo_url :: "string option"
  branch :: "string option"
  last_known_commit :: "string option"

text \<open>The lookup compares with \<open>IS\<close>, for which \<open>NULL\<close> equals \<open>NULL\<close>.\<close>

definition create_baseline ::
  "string option \<Rightarrow> string option \<Rightarrow> string option \<Rightarrow> db \<Rightarrow> int \<times> db" where
  "create_baseline repo br commit d =
     (case first (filter (\<lambda>r. bl_repo r = repo \<and> bl_branch r = br \<and> bl_commit r = commit)
             (baselines d)) of
        Some r \<Rightarrow> (bl_id r, d)
      | None \<Rightarrow>
          (let i = next_id (List.map bl_id (baselines d))
           in (i, d\<lparr>baselines := baselines d @
                    [\<lparr>bl_id = i, bl_repo = repo, bl_branch = br, bl_commit = commit\<rparr>]\<rparr>)))"

definition get_baseline_commit :: "int \<Rightarrow> db \<Rightarrow> string option" where
  "get_baseline_commit i d =
     (case first (filter (\<lambda>r. bl_id r = i) (baselines d)) of
        Some r \<Rightarrow> bl_commit r | None \<Rightarrow> None)"

definition get_baseline :: "int \<Rightarrow> db \<Rightarrow> BaselineRow option" where
  "get_baseline i d =
     map_option (\<lambda>r. \<lparr>repo_url = bl_repo r, branch = bl_branch r,
                      last_known_commit = bl_commit r\<rparr>)
       (first (filter (\<lambda>r. bl_id r = i) (baselines d)))"

end
