(* ===== verification/Json.thy ===== *)
theory Json
  imports Prelude
begin

text \<open>
  The value type of \<open>serde_json\<close> and the accessors the program calls on it. Parsing and
  printing belong to the crate: where the program parses text, the parser is an argument of
  the definition. Numbers are the integers the program's payloads carry; a number that is
  not one (a sampling temperature) is kept as its text.
\<close>

datatype json =
    JNull
  | JBool bool
  | JInt int
  | JFloat string
  | JStr string
  | JArr "json list"
  | JObj "(string \<times> json) list"

type_synonym json_parser = "string \<Rightarrow> json option"

text \<open>\<open>v.get(key)\<close>: the member of an object, \<open>None\<close> for a missing key or another value.\<close>

fun jget :: "json \<Rightarrow> string \<Rightarrow> json option" where
  "jget (JObj ms) k = map_of ms k"
| "jget _ k = None"

text \<open>\<open>v[key]\<close>: the member, or \<open>null\<close>.\<close>

definition jindex :: "json \<Rightarrow> string \<Rightarrow> json" where
  "jindex v k = (case jget v k of Some x \<Rightarrow> x | None \<Rightarrow> JNull)"

fun as_str_opt :: "json \<Rightarrow> string option" where
  "as_str_opt (JStr s) = Some s"
| "as_str_opt _ = None"

fun as_bool_opt :: "json \<Rightarrow> bool option" where
  "as_bool_opt (JBool b) = Some b"
| "as_bool_opt _ = None"

fun as_array_opt :: "json \<Rightarrow> json list option" where
  "as_array_opt (JArr xs) = Some xs"
| "as_array_opt _ = None"

fun as_i64_opt :: "json \<Rightarrow> int option" where
  "as_i64_opt (JInt n) = Some n"
| "as_i64_opt _ = None"

fun as_object_opt :: "json \<Rightarrow> (string \<times> json) list option" where
  "as_object_opt (JObj ms) = Some ms"
| "as_object_opt _ = None"

definition get_str :: "json \<Rightarrow> string \<Rightarrow> string option" where
  "get_str v k = Option.bind (jget v k) as_str_opt"

definition get_array :: "json \<Rightarrow> string \<Rightarrow> json list option" where
  "get_array v k = Option.bind (jget v k) as_array_opt"

definition jopt :: "('a \<Rightarrow> json) \<Rightarrow> 'a option \<Rightarrow> json" where
  "jopt f m = (case m of None \<Rightarrow> JNull | Some x \<Rightarrow> f x)"

end
