(* ===== verification/Reviews.thy ===== *)
theory Reviews
  imports Threads Json
begin

text \<open>
  Reviews, AI interactions, tool usages, findings and their triage, of \<open>src/db.rs\<close>. The
  current time is an argument wherever the code asks for it. \<open>locations\<close> of a finding is kept
  as the text that is stored.
\<close>

subsection \<open>Reviews\<close>

definition get_pending_review_id :: "int \<Rightarrow> int option \<Rightarrow> db \<Rightarrow> int option" where
  "get_pending_review_id patchset_id patch_id d =
     map_option rv_id (first (filter (\<lambda>r. rv_patchset r = patchset_id \<and>
       (case patch_id of Some pid \<Rightarrow> rv_patch r = Some pid | None \<Rightarrow> rv_patch r = None) \<and>
       rv_status r = ''Pending'') (reviews d)))"

definition create_review ::
  "int \<Rightarrow> int option \<Rightarrow> string \<Rightarrow> string \<Rightarrow> int option \<Rightarrow> string option \<Rightarrow> int \<Rightarrow> db \<Rightarrow> int \<times> db" where
  "create_review patchset_id patch_id provider model baseline_id prompts_hash now d =
     (let i = next_id (List.map rv_id (reviews d))
      in (i, d\<lparr>reviews := reviews d @
            [\<lparr>rv_id = i, rv_patchset = patchset_id, rv_patch = patch_id, rv_summary = None,
              rv_result = None, rv_created = now, rv_started = None, rv_completed = None,
              rv_interaction = None, rv_status = ''Pending'', rv_logs = None, rv_inline = None,
              rv_baseline = baseline_id, rv_model = model, rv_prompts = prompts_hash,
              rv_provider = provider\<rparr>]\<rparr>))"

definition count_successful_reviews :: "int \<Rightarrow> int \<Rightarrow> db \<Rightarrow> nat" where
  "count_successful_reviews patchset_id patch_id d =
     count_where (\<lambda>r. rv_patchset r = patchset_id \<and> rv_patch r = Some patch_id \<and>
       rv_status r = ''Reviewed'') (reviews d)"

definition has_successful_review :: "int \<Rightarrow> int \<Rightarrow> db \<Rightarrow> bool" where
  "has_successful_review patchset_id patch_id d \<longleftrightarrow>
     0 < count_successful_reviews patchset_id patch_id d"

definition has_failed_review :: "int \<Rightarrow> int \<Rightarrow> db \<Rightarrow> bool" where
  "has_failed_review patchset_id patch_id d \<longleftrightarrow>
     (\<exists>r\<in>set (reviews d). rv_patchset r = patchset_id \<and> rv_patch r = Some patch_id \<and>
       (rv_status r = ''Failed'' \<or> rv_status r = ''FailedToApply'') \<and> rv_interaction r = None)"

definition modify_review :: "int \<Rightarrow> (review_row \<Rightarrow> review_row) \<Rightarrow> db \<Rightarrow> db" where
  "modify_review i f d = d\<lparr>reviews := update_where (\<lambda>r. rv_id r = i) f (reviews d)\<rparr>"

definition update_review_status :: "int \<Rightarrow> string \<Rightarrow> string option \<Rightarrow> int \<Rightarrow> db \<Rightarrow> db" where
  "update_review_status review_id status logs now d =
     (case logs of
        Some l \<Rightarrow> modify_review review_id
          (\<lambda>r. r\<lparr>rv_status := status, rv_logs := Some l,
                  rv_started := (if status = ''In Review'' then Some now else rv_started r)\<rparr>) d
      | None \<Rightarrow> modify_review review_id
          (\<lambda>r. r\<lparr>rv_status := status,
                  rv_started := (if status = ''In Review'' then Some now else rv_started r)\<rparr>) d)"

text \<open>\<open>COALESCE(started_at, created_at, now)\<close>; \<open>created_at\<close> is never \<open>NULL\<close>.\<close>

definition complete_review ::
  "int \<Rightarrow> string \<Rightarrow> string \<Rightarrow> string option \<Rightarrow> string option \<Rightarrow> string option \<Rightarrow> string option \<Rightarrow>
   int \<Rightarrow> db \<Rightarrow> db" where
  "complete_review review_id status result summary interaction_id inline_review logs now d =
     modify_review review_id
       (\<lambda>r. r\<lparr>rv_status := status, rv_result := Some result, rv_summary := summary,
               rv_interaction := interaction_id, rv_inline := inline_review, rv_logs := logs,
               rv_started := (case rv_started r of Some t \<Rightarrow> Some t | None \<Rightarrow> Some (rv_created r)),
               rv_completed := Some now\<rparr>) d"

definition get_latest_review_id :: "int \<Rightarrow> db \<Rightarrow> int option" where
  "get_latest_review_id patchset_id d =
     map_option rv_id (first (sort_desc rv_created
       (filter (\<lambda>r. rv_patchset r = patchset_id) (reviews d))))"

subsection \<open>Interactions and tool usages\<close>

text \<open>The id of an interaction is a text primary key: a second insert of it fails.\<close>

definition create_ai_interaction :: "interaction_row \<Rightarrow> int \<Rightarrow> db \<Rightarrow> (db_error + unit) \<times> db" where
  "create_ai_interaction params now d =
     (if \<exists>r\<in>set (interactions d). ai_id r = ai_id params then (Inl UniqueViolation, d)
      else (Inr (), d\<lparr>interactions := interactions d @ [params\<lparr>ai_created := now\<rparr>]\<rparr>))"

record ToolUsage =
  tool_review :: int
  tool_provider :: string
  tool_model :: string
  tool_name :: string
  tool_arguments :: "string option"
  tool_output_length :: int

definition create_tool_usage :: "ToolUsage \<Rightarrow> int \<Rightarrow> db \<Rightarrow> db" where
  "create_tool_usage u now d =
     d\<lparr>tool_usages := tool_usages d @
        [\<lparr>tu_id = next_id (List.map tu_id (tool_usages d)), tu_review = tool_review u,
          tu_provider = tool_provider u, tu_model = tool_model u, tu_tool = tool_name u,
          tu_arguments = tool_arguments u, tu_output_length = tool_output_length u,
          tu_created = now\<rparr>]\<rparr>"

text \<open>\<open>migrate_tool_usages\<close>: reviews with logs and no usage yet get one usage per function
  call in their logs. The rows are selected before the first insert. \<open>from_str\<close> parses the
  logs, \<open>to_text\<close> prints the arguments of a call.\<close>

definition calls_in_logs :: "(json \<Rightarrow> string) \<Rightarrow> json \<Rightarrow> (string \<times> string) list" where
  "calls_in_logs to_text item =
     (case get_array item ''parts'' of
        None \<Rightarrow> []
      | Some parts \<Rightarrow> List.map_filter (\<lambda>part.
          map_option (\<lambda>call.
              ((case as_str_opt (jindex call ''name'') of Some n \<Rightarrow> n | None \<Rightarrow> ''unknown''),
               to_text (jindex call ''args'')))
            (jget part ''functionCall'')) parts)"

definition tool_backfill_rows :: "db \<Rightarrow> review_row list" where
  "tool_backfill_rows d =
     filter (\<lambda>r. (rv_status r = ''Reviewed'' \<or> rv_status r = ''Failed'') \<and> rv_logs r \<noteq> None \<and>
       \<not> (\<exists>t\<in>set (tool_usages d). tu_review t = rv_id r)) (reviews d)"

definition backfill_review_tools ::
  "json_parser \<Rightarrow> (json \<Rightarrow> string) \<Rightarrow> int \<Rightarrow> review_row \<Rightarrow> db \<Rightarrow> db" where
  "backfill_review_tools from_str to_text now r d =
     (case Option.bind (rv_logs r) from_str of
        Some (JArr history) \<Rightarrow>
          fold (\<lambda>(name, args). create_tool_usage
                  \<lparr>tool_review = rv_id r, tool_provider = rv_provider r, tool_model = rv_model r,
                   tool_name = name, tool_arguments = Some args, tool_output_length = 0\<rparr> now)
            (concat (List.map (calls_in_logs to_text) history)) d
      | _ \<Rightarrow> d)"

subsection \<open>Findings\<close>

record Finding =
  review_id :: int
  severity :: Severity
  severity_explanation :: "string option"
  problem :: string
  preexisting :: "bool option"
  locations :: "string option"
  server_id :: "int option"
  source_server :: "string option"

definition finding_insert_columns :: "string list" where
  "finding_insert_columns =
     [''review_id'', ''severity'', ''severity_explanation'', ''problem'', ''preexisting'',
      ''locations'', ''server_id'', ''source_server'']"

text \<open>The statement names its columns; the first one the table lacks makes it fail. The model
  row has no cell for \<open>server_id\<close> and \<open>source_server\<close>, which nothing reads.\<close>

definition create_finding :: "Finding \<Rightarrow> db \<Rightarrow> (db_error + unit) \<times> db" where
  "create_finding f d =
     (case List.find (\<lambda>c. c \<notin> set (finding_columns d)) finding_insert_columns of
        Some c \<Rightarrow> (Inl (NoSuchColumn c), d)
      | None \<Rightarrow>
          (Inr (), d\<lparr>findings := findings d @
             [\<lparr>fi_id = next_id (List.map fi_id (findings d)), fi_review = review_id f,
               fi_severity = severity_code (severity f), fi_explanation = severity_explanation f,
               fi_problem = problem f, fi_suggestion = None,
               fi_preexisting = map_option (\<lambda>b. if b then 1 else 0) (preexisting f),
               fi_locations = locations f, fi_triage_status = Some ''pending'',
               fi_triage_comment = None, fi_triage_updated = None\<rparr>]\<rparr>))"

text \<open>One element of the \<open>findings\<close> array of an AI answer, in the new and the old format.\<close>

definition finding_of_json :: "(json \<Rightarrow> string) \<Rightarrow> int \<Rightarrow> json \<Rightarrow> Finding" where
  "finding_of_json to_text rid f =
     \<lparr>review_id = rid,
      severity = severity_from_str
        (case as_str_opt (jindex f ''severity'') of Some s \<Rightarrow> s | None \<Rightarrow> ''Low''),
      severity_explanation = get_str f ''severity_explanation'',
      problem = (case get_str f ''problem'' of
          Some p \<Rightarrow> p
        | None \<Rightarrow> (case as_str_opt (jindex f ''message'') of Some m \<Rightarrow> m | None \<Rightarrow> [])),
      preexisting = Option.bind (jget f ''preexisting'') as_bool_opt,
      locations = map_option to_text (jget f ''locations''),
      server_id = None, source_server = None\<rparr>"

definition finding_backfill_rows :: "db \<Rightarrow> (int \<times> string) list" where
  "finding_backfill_rows d =
     List.map_filter (\<lambda>r.
       (if rv_status r = ''Reviewed'' \<and> \<not> (\<exists>f\<in>set (findings d). fi_review f = rv_id r)
        then Option.bind (rv_interaction r) (\<lambda>i.
          map_option (\<lambda>x. (rv_id r, ai_output x))
            (first (filter (\<lambda>x. ai_id x = i) (interactions d))))
        else None)) (reviews d)"

definition migrate_findings :: "json_parser \<Rightarrow> (json \<Rightarrow> string) \<Rightarrow> db \<Rightarrow> db" where
  "migrate_findings from_str to_text d =
     fold (\<lambda>(rid, output_raw) e.
        (case Option.bind (from_str output_raw) (\<lambda>v. get_array v ''findings'') of
           None \<Rightarrow> e
         | Some arr \<Rightarrow> fold (\<lambda>f e. snd (create_finding (finding_of_json to_text rid f) e)) arr e))
       (finding_backfill_rows d) d"

definition migrate_tool_usages :: "json_parser \<Rightarrow> (json \<Rightarrow> string) \<Rightarrow> int \<Rightarrow> db \<Rightarrow> db" where
  "migrate_tool_usages from_str to_text now d =
     migrate_findings from_str to_text
       (fold (backfill_review_tools from_str to_text now) (tool_backfill_rows d) d)"

subsection \<open>Migration\<close>

definition add_column :: "string \<Rightarrow> db \<Rightarrow> db" where
  "add_column c d =
     (if c \<in> set (finding_columns d) then d else d\<lparr>finding_columns := finding_columns d @ [c]\<rparr>)"

definition rename_column :: "string \<Rightarrow> string \<Rightarrow> db \<Rightarrow> db" where
  "rename_column old new d =
     (if old \<in> set (finding_columns d) \<and> new \<notin> set (finding_columns d)
      then d\<lparr>finding_columns := List.map (\<lambda>c. if c = old then new else c) (finding_columns d)\<rparr>
      else d)"

definition drop_column :: "string \<Rightarrow> db \<Rightarrow> db" where
  "drop_column c d = d\<lparr>finding_columns := filter (\<lambda>x. x \<noteq> c) (finding_columns d)\<rparr>"

text \<open>The steps of \<open>migrate\<close> that change rows or the columns of \<open>findings\<close>; the other tables
  have all their columns in the model from the start. First the two status names become
  one.\<close>

definition consolidate_applying :: "db \<Rightarrow> db" where
  "consolidate_applying d =
     d\<lparr>patchsets := update_where (\<lambda>p. ps_status p = ''Applying'')
                      (\<lambda>p. p\<lparr>ps_status := ''In Review''\<rparr>) (patchsets d),
       reviews := update_where (\<lambda>r. rv_status r = ''Applying'')
                      (\<lambda>r. r\<lparr>rv_status := ''In Review''\<rparr>) (reviews d)\<rparr>"

definition add_triage_columns :: "db \<Rightarrow> db" where
  "add_triage_columns d =
     add_column ''triage_updated_at'' (add_column ''triage_comment'' (add_column ''triage_status'' d))"

definition default_triage :: "db \<Rightarrow> db" where
  "default_triage d =
     d\<lparr>findings := update_where
        (\<lambda>f. fi_triage_status f = None \<or>
             (fi_triage_status f = Some ''to_fix'' \<and> fi_triage_updated f = None))
        (\<lambda>f. f\<lparr>fi_triage_status := Some ''pending''\<rparr>) (findings d)\<rparr>"

text \<open>A comment kept in the finding itself becomes a row of the comment table, once.\<close>

definition insert_comment :: "int \<Rightarrow> string \<Rightarrow> string \<Rightarrow> int \<Rightarrow> db \<Rightarrow> db" where
  "insert_comment finding_id status comment created d =
     d\<lparr>triage_comments := triage_comments d @
        [\<lparr>co_id = next_id (List.map co_id (triage_comments d)), co_finding = finding_id,
          co_status = status, co_comment = comment, co_created = created\<rparr>]\<rparr>"

definition inline_comment :: "db \<Rightarrow> finding_row \<Rightarrow> (int \<times> string \<times> string \<times> int) option" where
  "inline_comment d f =
     (case fi_triage_comment f of
        None \<Rightarrow> None
      | Some c \<Rightarrow>
          (let at = (case fi_triage_updated f of Some t \<Rightarrow> t | None \<Rightarrow> 0)
           in if (\<exists>x\<in>set c. x \<noteq> CHR '' '') \<and>
                 \<not> (\<exists>k\<in>set (triage_comments d). co_finding k = fi_id f \<and> co_comment k = c \<and>
                      co_created k = at)
              then Some (fi_id f,
                     (case fi_triage_status f of Some s \<Rightarrow> s | None \<Rightarrow> ''pending''), c, at)
              else None))"

definition backfill_comments :: "db \<Rightarrow> db" where
  "backfill_comments d =
     fold (\<lambda>(i, s, c, t). insert_comment i s c t)
       (List.map_filter (inline_comment d) (findings d)) d"

definition backfill_lists :: "db \<Rightarrow> db" where
  "backfill_lists d =
     d\<lparr>messages_lists := fold insert_link
        (concat (List.map (\<lambda>m. List.map (\<lambda>l. (me_id m, ml_id l))
           (filter (\<lambda>l. me_list m = Some (ml_group l)) (mailing_lists d))) (messages d)))
        (messages_lists d)\<rparr>"

definition migrate_finding_columns :: "db \<Rightarrow> db" where
  "migrate_finding_columns d =
     drop_column ''line_number'' (drop_column ''file_path'' (rename_column ''message'' ''problem''
       (add_column ''locations'' (add_column ''preexisting'' (add_column ''severity_explanation'' d)))))"

definition migrate :: "json_parser \<Rightarrow> (json \<Rightarrow> string) \<Rightarrow> int \<Rightarrow> db \<Rightarrow> db" where
  "migrate from_str to_text now d =
     migrate_tool_usages from_str to_text now
       (migrate_finding_columns
         (backfill_lists
           (backfill_comments (default_triage (add_triage_columns (consolidate_applying d))))))"

subsection \<open>Triage\<close>

definition nonblank :: "string option \<Rightarrow> string option" where
  "nonblank c = (case map_option trim c of Some s \<Rightarrow> if s = [] then None else Some s | None \<Rightarrow> None)"

definition update_finding_triage ::
  "int \<Rightarrow> string \<Rightarrow> string option \<Rightarrow> int \<Rightarrow> db \<Rightarrow> bool \<times> db" where
  "update_finding_triage finding_id status comment now d =
     (let changed = count_where (\<lambda>f. fi_id f = finding_id) (findings d);
          d1 = d\<lparr>findings := update_where (\<lambda>f. fi_id f = finding_id)
                 (\<lambda>f. f\<lparr>fi_triage_status := Some status,
                         fi_triage_comment := (case comment of Some c \<Rightarrow> Some c
                                               | None \<Rightarrow> fi_triage_comment f),
                         fi_triage_updated := Some now\<rparr>) (findings d)\<rparr>;
          d2 = (case nonblank comment of
                  Some c \<Rightarrow> if 0 < changed then insert_comment finding_id status c now d1 else d1
                | None \<Rightarrow> d1)
      in (0 < changed, d2))"

definition delete_finding_triage_comment :: "int \<Rightarrow> db \<Rightarrow> bool \<times> db" where
  "delete_finding_triage_comment comment_id d =
     (case first (filter (\<lambda>c. co_id c = comment_id) (triage_comments d)) of
        None \<Rightarrow> (False, d)
      | Some row \<Rightarrow>
          (let finding_id = co_finding row;
               changed = count_where (\<lambda>c. co_id c = comment_id) (triage_comments d);
               d1 = d\<lparr>triage_comments := delete_where (\<lambda>c. co_id c = comment_id) (triage_comments d)\<rparr>;
               remaining = count_where (\<lambda>c. co_finding c = finding_id) (triage_comments d1);
               d2 = (if 0 < changed \<and> remaining = 0
                     then d1\<lparr>findings := update_where (\<lambda>f. fi_id f = finding_id)
                            (\<lambda>f. f\<lparr>fi_triage_comment := None, fi_triage_updated := None\<rparr>)
                            (findings d1)\<rparr>
                     else d1)
           in (0 < changed, d2)))"

text \<open>Comments in order of time; a finding without comment rows shows the comment kept in
  the finding.\<close>

definition get_finding_triage_comments ::
  "int \<Rightarrow> string \<Rightarrow> string option \<Rightarrow> int option \<Rightarrow> db \<Rightarrow>
     (int option \<times> string \<times> string \<times> int option) list" where
  "get_finding_triage_comments finding_id legacy_status legacy legacy_updated_at d =
     (let rows = sort_key (\<lambda>c. co_created c) (sort_key co_id
            (filter (\<lambda>c. co_finding c = finding_id) (triage_comments d)));
          comments = List.map (\<lambda>c. (Some (co_id c), co_status c, co_comment c, Some (co_created c))) rows
      in if comments = []
         then (case nonblank legacy of
                 Some c \<Rightarrow> [(None, legacy_status, c, legacy_updated_at)]
               | None \<Rightarrow> [])
         else comments)"

record FindingView =
  fv_id :: int
  fv_severity :: string
  fv_explanation :: "string option"
  fv_problem :: string
  fv_suggestion :: "string option"
  fv_triage_status :: string
  fv_triage_comment :: "string option"
  fv_triage_updated :: "int option"
  fv_comments :: "(int option \<times> string \<times> string \<times> int option) list"

definition get_findings_for_review :: "int \<Rightarrow> db \<Rightarrow> FindingView list" where
  "get_findings_for_review rid d =
     List.map (\<lambda>f.
        (let status = (case fi_triage_status f of Some s \<Rightarrow> s | None \<Rightarrow> ''pending'')
         in \<lparr>fv_id = fi_id f, fv_severity = severity_name (fi_severity f),
             fv_explanation = fi_explanation f, fv_problem = fi_problem f,
             fv_suggestion = fi_suggestion f, fv_triage_status = status,
             fv_triage_comment = fi_triage_comment f, fv_triage_updated = fi_triage_updated f,
             fv_comments = get_finding_triage_comments (fi_id f) status (fi_triage_comment f)
                             (fi_triage_updated f) d\<rparr>))
       (sort_desc fi_severity (sort_key fi_id (filter (\<lambda>f. fi_review f = rid) (findings d))))"

subsection \<open>Reading patches and reviews\<close>

text \<open>The patches of a patchset joined with their messages, by part index.\<close>

definition get_patch_diffs :: "int \<Rightarrow> db \<Rightarrow> (patch_row \<times> message_row) list" where
  "get_patch_diffs patchset_id d =
     sort_key (\<lambda>(p, m). pa_part p)
       (List.map_filter (\<lambda>p. map_option (Pair p) (find_message (pa_message_id p) d))
          (filter (\<lambda>p. pa_patchset p = patchset_id) (patches d)))"

record ReleaseFinding =
  rf_severity :: string
  rf_problem :: string
  rf_explanation :: "string option"
  rf_preexisting :: "bool option"
  rf_locations :: "json option"

record ReleaseReview =
  rr_patch_id :: int
  rr_message_id :: string
  rr_index :: nat
  rr_inline :: string
  rr_summary :: string
  rr_findings :: "ReleaseFinding list"

definition release_findings :: "json_parser \<Rightarrow> int \<Rightarrow> db \<Rightarrow> ReleaseFinding list" where
  "release_findings from_str rid d =
     List.map (\<lambda>f. \<lparr>rf_severity = severity_name (fi_severity f), rf_problem = fi_problem f,
                    rf_explanation = fi_explanation f,
                    rf_preexisting = map_option (\<lambda>v. v \<noteq> 0) (fi_preexisting f),
                    rf_locations = Option.bind (fi_locations f) from_str\<rparr>)
       (filter (\<lambda>f. fi_review f = rid) (findings d))"

definition get_completed_reviews_for_release :: "json_parser \<Rightarrow> int \<Rightarrow> db \<Rightarrow> ReleaseReview list" where
  "get_completed_reviews_for_release from_str patchset_id d =
     List.map_filter (\<lambda>r.
       Option.bind (rv_patch r) (\<lambda>pid.
       Option.bind (first (filter (\<lambda>p. pa_id p = pid) (patches d))) (\<lambda>p.
       map_option (\<lambda>m.
           \<lparr>rr_patch_id = pid, rr_message_id = me_message_id m, rr_index = pa_part p,
            rr_inline = (case rv_inline r of Some s \<Rightarrow> s | None \<Rightarrow> []),
            rr_summary = (case rv_summary r of Some s \<Rightarrow> s | None \<Rightarrow> []),
            rr_findings = release_findings from_str (rv_id r) d\<rparr>)
         (find_message (pa_message_id p) d))))
     (filter (\<lambda>r. rv_patchset r = patchset_id \<and> rv_status r = ''Reviewed'') (reviews d))"

definition under_review :: "db \<Rightarrow> int list" where
  "under_review d =
     List.map_filter (\<lambda>r. if rv_status r = ''In Review'' \<or> rv_status r = ''Applying''
       then rv_patch r else None) (reviews d)"

definition count_pending_patches :: "db \<Rightarrow> nat" where
  "count_pending_patches d =
     count_where (\<lambda>p. (\<exists>q\<in>set (patchsets d). ps_id q = pa_patchset p \<and>
         (ps_status q = ''Pending'' \<or> ps_status q = ''In Review'')) \<and>
       pa_status p = None \<and> pa_id p \<notin> set (under_review d)) (patches d)"

definition count_reviewing_patches :: "db \<Rightarrow> nat" where
  "count_reviewing_patches d = length (remdups (under_review d))"

end
