(* ===== verification/Threads_Inv.thy ===== *)
theory Threads_Inv
  imports Threads
begin

text \<open>
  Properties of the operations of \<open>Threads\<close>: each keeps the store invariants, returns ids that
  exist, and leaves the other tables alone; merging threads loses no message, patchset or
  subsystem link.
\<close>

subsection \<open>Article numbers survive the signed column\<close>

lemma filter_update_same:
  assumes "\<And>r. P (f r) = P r"
  shows "filter P (update_where P f rows) = List.map f (filter P rows)"
  using assms by (induction rows) (auto simp: update_where_def)

lemma article_num_roundtrip:
  assumes "get_mailing_list_id_by_name grp d \<noteq> None"
  shows "get_last_article_num grp (update_last_article_num grp num d) = num"
  using assms
  by (auto simp: get_last_article_num_def update_last_article_num_def filter_update_same
        get_mailing_list_id_by_name_def split: option.splits)

subsection \<open>Preservation of the store invariants\<close>

lemmas inv_defs = store_inv_def keys_inv_def refs_inv_def parts_inv_def

lemma ensure_mailing_list_inv:
  assumes "store_inv d"
  shows "store_inv (ensure_mailing_list name grp d)"
  using assms
  by (auto simp: ensure_mailing_list_def inv_defs keys_ok_update unique_on_update
        intro!: keys_ok_insert unique_on_insert)

lemma update_last_article_num_inv:
  assumes "store_inv d"
  shows "store_inv (update_last_article_num grp num d)"
  using assms
  by (simp add: update_last_article_num_def inv_defs keys_ok_update unique_on_update)

lemma ensure_person_spec:
  assumes "ensure_person name email d = (r, d')" and "store_inv d"
  shows "store_inv d' \<and> (\<exists>i. r = Inr i \<and> i \<in> ids pe_id (people d'))
    \<and> d' = d\<lparr>people := people d'\<rparr>"
proof -
  let ?e = "trim email"
  have "\<exists>x\<in>set (people d'). pe_email x = ?e"
    using assms(1) by (auto simp: ensure_person_def Let_def split: if_splits option.splits)
  then obtain x where x: "first (filter (\<lambda>r. pe_email r = ?e) (people d')) = Some x"
    using first_filter_None [of "\<lambda>r. pe_email r = ?e" "people d'"] by fastforce
  have "store_inv d'"
    using assms by (auto simp: ensure_person_def Let_def inv_defs split: if_splits option.splits
        intro!: keys_ok_insert unique_on_insert)
  moreover have "r = Inr (pe_id x)"
    using assms(1) x by (auto simp: ensure_person_def Let_def split: if_splits option.splits)
  moreover have "d' = d\<lparr>people := people d'\<rparr>"
    using assms(1) by (auto simp: ensure_person_def Let_def split: if_splits option.splits)
  ultimately show ?thesis
    using first_filter_Some [OF x] ids_memI [of x "people d'" pe_id] by auto
qed

lemma add_message_recipient_inv:
  assumes "store_inv d" "m \<in> ids me_id (messages d)" "p \<in> ids pe_id (people d)"
  shows "store_inv (add_message_recipient m p t d)"
  using assms by (auto simp: add_message_recipient_def inv_defs intro!: unique_on_insert)

lemma ensure_subsystem_spec:
  assumes "ensure_subsystem name addr d = (r, d')" and "store_inv d"
  shows "store_inv d' \<and> (\<exists>i. r = Inr i \<and> i \<in> ids su_id (subsystems d'))
    \<and> d' = d\<lparr>subsystems := subsystems d'\<rparr>"
proof -
  have ex: "\<exists>x\<in>set (subsystems d'). su_name x = name \<or> su_address x = addr"
    using assms(1) by (auto simp: ensure_subsystem_def Let_def split: if_splits option.splits)
  have "\<exists>x\<in>set (subsystems d'). r = Inr (su_id x)"
  proof (cases "first (filter (\<lambda>x. su_address x = addr) (subsystems d'))")
    case (Some x)
    with assms(1) first_filter_Some [OF Some] show ?thesis
      by (auto simp: ensure_subsystem_def Let_def split: if_splits option.splits)
  next
    case None
    with ex have "\<exists>x\<in>set (subsystems d'). su_name x = name"
      by (auto simp: first_filter_None)
    then obtain x where x: "first (filter (\<lambda>x. su_name x = name) (subsystems d')) = Some x"
      using first_filter_None [of "\<lambda>x. su_name x = name" "subsystems d'"] by fastforce
    with None assms(1) first_filter_Some [OF x] show ?thesis
      by (auto simp: ensure_subsystem_def Let_def split: if_splits option.splits)
  qed
  moreover have "store_inv d'"
    using assms by (auto simp: ensure_subsystem_def Let_def inv_defs split: if_splits option.splits
        intro!: keys_ok_insert unique_on_insert)
  moreover have "d' = d\<lparr>subsystems := subsystems d'\<rparr>"
    using assms(1) by (auto simp: ensure_subsystem_def Let_def split: if_splits option.splits)
  ultimately show ?thesis
    using ids_memI [of _ "subsystems d'" su_id] by blast
qed

lemma link_inv:
  assumes "store_inv d" and "s \<in> ids su_id (subsystems d)"
  shows "m \<in> ids me_id (messages d) \<Longrightarrow> store_inv (add_subsystem_to_message m s d)"
    and "t \<in> ids th_id (threads d) \<Longrightarrow> store_inv (add_subsystem_to_thread t s d)"
    and "p \<in> ids pa_id (patches d) \<Longrightarrow> store_inv (add_subsystem_to_patch p s d)"
    and "q \<in> ids ps_id (patchsets d) \<Longrightarrow> store_inv (add_subsystem_to_patchset q s d)"
  using assms
  by (simp_all add: inv_defs add_subsystem_to_message_def add_subsystem_to_thread_def
      add_subsystem_to_patch_def add_subsystem_to_patchset_def)

lemma add_message_to_mailing_list_inv:
  assumes "store_inv d" "m \<in> ids me_id (messages d)" "l \<in> ids ml_id (mailing_lists d)"
  shows "store_inv (add_message_to_mailing_list m l d)"
  using assms by (simp add: inv_defs add_message_to_mailing_list_def)

lemma insert_thread_inv:
  assumes "store_inv d" and "th_id x = next_id (List.map th_id (threads d))"
  shows "store_inv (d\<lparr>threads := threads d @ [x]\<rparr>)"
  using assms by (simp add: inv_defs keys_ok_insert fk_insertI)

lemma create_thread_spec:
  assumes "create_thread root subject date d = (i, d')" and "store_inv d"
  shows "store_inv d' \<and> i \<in> ids th_id (threads d') \<and> i \<notin> ids th_id (threads d)
    \<and> messages d' = messages d \<and> ids th_id (threads d) \<subseteq> ids th_id (threads d')"
proof -
  have i: "i = next_id (List.map th_id (threads d))"
    and d': "d' = d\<lparr>threads := threads d @ [\<lparr>th_id = i, th_root = root, th_subject = subject,
                  th_updated = date\<rparr>]\<rparr>"
    using assms(1) by (auto simp: create_thread_def Let_def)
  have "store_inv d'"
    unfolding d' using assms(2) i by (intro insert_thread_inv) auto
  moreover have "i \<notin> ids th_id (threads d)"
    unfolding i ids_def using next_id_fresh [of "List.map th_id (threads d)"] by simp
  ultimately show ?thesis by (auto simp: d')
qed

lemma insert_baseline_inv:
  assumes "store_inv d" and "bl_id x = next_id (List.map bl_id (baselines d))"
  shows "store_inv (d\<lparr>baselines := baselines d @ [x]\<rparr>)"
  using assms by (simp add: inv_defs keys_ok_insert fk_insertI)

lemma create_baseline_spec:
  assumes "create_baseline repo br commit d = (i, d')" and "store_inv d"
  shows "store_inv d' \<and> i \<in> ids bl_id (baselines d') \<and> d' = d\<lparr>baselines := baselines d'\<rparr>"
proof (cases "first (filter (\<lambda>r. bl_repo r = repo \<and> bl_branch r = br \<and> bl_commit r = commit)
             (baselines d))")
  case None
  with assms show ?thesis
    by (auto simp: create_baseline_def Let_def intro: insert_baseline_inv)
next
  case (Some r)
  with assms first_filter_Some [OF Some] show ?thesis
    by (auto simp: create_baseline_def ids_memI)
qed

subsection \<open>Merging threads\<close>

lemma distinct_relink:
  assumes "distinct xs"
  shows "distinct (relink new old xs)"
proof -
  let ?f = "\<lambda>(a, b). if a = old \<and> (new, b) \<notin> set xs then (new, b) else (a, b)"
  have "inj_on ?f (set xs)"
    by (auto simp: inj_on_def split: if_splits)
  with assms show ?thesis by (simp add: relink_def distinct_map)
qed

lemma mem_relink:
  "(a, b) \<in> set (relink new old xs) \<longleftrightarrow>
     (a, b) \<in> set xs \<and> \<not> (a = old \<and> (new, b) \<notin> set xs) \<or>
     a = new \<and> (old, b) \<in> set xs \<and> (new, b) \<notin> set xs"
proof -
  have "(a, b) \<in> set (relink new old xs) \<longleftrightarrow>
      (\<exists>x y. (x, y) \<in> set xs \<and> (a, b) = (if x = old \<and> (new, y) \<notin> set xs then (new, y) else (x, y)))"
    by (auto simp: relink_def image_iff Bex_def)
  then show ?thesis by (auto split: if_splits)
qed

lemma set_merge_links:
  assumes "new \<noteq> old"
  shows "set (delete_where (\<lambda>(t, _). t = old) (relink new old xs)) =
    {(a, b) \<in> set xs. a \<noteq> old} \<union> {(new, b) |b. (old, b) \<in> set xs}"
  using assms mem_relink [of _ _ new old xs] by auto

lemma distinct_delete: "distinct xs \<Longrightarrow> distinct (delete_where P xs)"
  by (simp add: delete_where_def)

lemma ids_delete: "ids k (delete_where (\<lambda>r. k r = i) rows) = ids k rows - {i}"
  by (auto simp: ids_def)

lemma fk_moved:
  assumes "fk f rows (ids k ts)" "\<And>r. f (h r) = new" "new \<noteq> old" "new \<in> ids k ts"
  shows "fk f (update_where (\<lambda>r. f r = old) h rows) (ids k (delete_where (\<lambda>r. k r = old) ts))"
  using assms by (auto simp: fk_def ball_update_where ids_delete)

lemma parts_update [simp]:
  "(\<And>r. ps_received (f r) = ps_received r) \<Longrightarrow> (\<And>r. ps_id (f r) = ps_id r) \<Longrightarrow>
   (\<forall>p\<in>set (update_where P f rows). received_count p = parts_of (ps_id p) qs) \<longleftrightarrow>
   (\<forall>p\<in>set rows. received_count p = parts_of (ps_id p) qs)"
  by (auto simp: ball_update_where received_count_def)

lemma merge_thread_inv:
  assumes inv: "store_inv d" and new: "new \<in> ids th_id (threads d)" and ne: "new \<noteq> old"
  shows "store_inv (merge_thread new old d)"
proof -
  have keys: "keys_inv (merge_thread new old d)"
    using inv unfolding merge_thread_def store_inv_def keys_inv_def
    by (simp add: keys_ok_update keys_ok_delete unique_on_update distinct_relink distinct_delete)
  have links: "fk fst (delete_where (\<lambda>(t, _). t = old) (relink new old (threads_subsystems d)))
        (ids th_id (delete_where (\<lambda>r. th_id r = old) (threads d)))
      \<and> fk snd (delete_where (\<lambda>(t, _). t = old) (relink new old (threads_subsystems d)))
        (ids su_id (subsystems d))"
    using inv new ne unfolding fk_def set_merge_links [OF ne]
    by (force simp: inv_defs fk_def ids_delete)
  have moved: "fk me_thread (update_where (\<lambda>r. me_thread r = old) (me_thread_update (\<lambda>_. new))
      (messages d)) (ids th_id (delete_where (\<lambda>r. th_id r = old) (threads d)))"
    "fk ps_thread (update_where (\<lambda>r. ps_thread r = old) (ps_thread_update (\<lambda>_. new))
      (patchsets d)) (ids th_id (delete_where (\<lambda>r. th_id r = old) (threads d)))"
    using inv new ne by (auto simp: store_inv_def refs_inv_def intro!: fk_moved)
  have "refs_inv (merge_thread new old d)"
    using inv links moved unfolding merge_thread_def store_inv_def refs_inv_def by simp
  moreover have "parts_inv (merge_thread new old d)"
    using inv by (simp add: merge_thread_def store_inv_def parts_inv_def)
  ultimately show ?thesis using keys by (simp add: store_inv_def)
qed

lemma ids_message_upsert:
  "ids me_message_id (upsert_message m rows) = insert (me_message_id m) (ids me_message_id rows)"
proof (cases "\<exists>r\<in>set rows. me_message_id r = me_message_id m")
  case True
  have "List.map me_message_id (upsert_message m rows) = List.map me_message_id rows"
    using True by (simp add: upsert_message_def update_where_def)
  then have "ids me_message_id (upsert_message m rows) = ids me_message_id rows"
    by (rule ids_cong)
  moreover from True have "me_message_id m \<in> ids me_message_id rows"
    by (metis ids_memI)
  ultimately show ?thesis by (simp add: insert_absorb)
qed (auto simp: upsert_message_def)

lemma ids_id_upsert: "ids me_id rows \<subseteq> ids me_id (upsert_message m rows)"
  by (auto simp: upsert_message_def)

lemma upsert_message_inv:
  assumes inv: "store_inv d" and t: "me_thread m \<in> ids th_id (threads d)"
  shows "store_inv (d\<lparr>messages := upsert_message m (messages d)\<rparr>)"
proof (cases "\<exists>r\<in>set (messages d). me_message_id r = me_message_id m")
  case True
  let ?u = "update_where (\<lambda>r. me_message_id r = me_message_id m) (\<lambda>r. m\<lparr>me_id := me_id r\<rparr>)
    (messages d)"
  have same: "List.map me_message_id ?u = List.map me_message_id (messages d)"
    by (simp add: update_where_def)
  then have i: "ids me_message_id ?u = ids me_message_id (messages d)"
    by (rule ids_cong)
  have "keys_inv (d\<lparr>messages := ?u\<rparr>)"
    using inv same by (simp add: store_inv_def keys_inv_def keys_ok_update unique_on_def)
  moreover have "refs_inv (d\<lparr>messages := ?u\<rparr>)"
    using inv t by (simp add: store_inv_def refs_inv_def i fk_update)
  ultimately show ?thesis
    using True inv by (simp add: upsert_message_def store_inv_def parts_inv_def)
next
  case False
  with inv t show ?thesis
    by (simp add: upsert_message_def inv_defs keys_ok_insert unique_on_insert fk_insertI)
qed

lemma merge_thread_simps [simp]:
  "ids th_id (threads (merge_thread new old d)) = ids th_id (threads d) - {old}"
  "ids me_message_id (messages (merge_thread new old d)) = ids me_message_id (messages d)"
  "ids me_id (messages (merge_thread new old d)) = ids me_id (messages d)"
  "patches (merge_thread new old d) = patches d" "subsystems (merge_thread new old d) = subsystems d"
  "baselines (merge_thread new old d) = baselines d"
  "mailing_lists (merge_thread new old d) = mailing_lists d" "people (merge_thread new old d) = people d"
  "ids ps_id (patchsets (merge_thread new old d)) = ids ps_id (patchsets d)"
  by (simp_all add: merge_thread_def ids_delete)

lemma create_message_inv:
  assumes inv: "store_inv d" and t: "me_thread m \<in> ids th_id (threads d)"
  shows "store_inv (create_message m d)"
proof (cases "get_thread_id_for_message (me_message_id m) d")
  case None
  with assms show ?thesis by (simp add: create_message_def upsert_message_inv)
next
  case (Some old)
  with assms show ?thesis
    by (auto simp: create_message_def Let_def intro!: upsert_message_inv merge_thread_inv)
qed

lemma create_message_ids:
  "ids me_message_id (messages (create_message m d)) =
     insert (me_message_id m) (ids me_message_id (messages d))"
  "me_thread m \<in> ids th_id (threads d) \<Longrightarrow> me_thread m \<in> ids th_id (threads (create_message m d))"
  "ids ps_id (patchsets (create_message m d)) = ids ps_id (patchsets d)"
  "patches (create_message m d) = patches d" "subsystems (create_message m d) = subsystems d"
  "baselines (create_message m d) = baselines d"
  "mailing_lists (create_message m d) = mailing_lists d" "people (create_message m d) = people d"
  by (auto simp: create_message_def Let_def ids_message_upsert split: option.splits)

text \<open>After \<open>create_message\<close> the message is found with exactly the stored fields and in the
  thread it was created in.\<close>

lemma find_message_upsert:
  assumes "unique_on me_message_id (messages d)"
  shows "\<exists>i. find_message (me_message_id m) (d\<lparr>messages := upsert_message m (messages d)\<rparr>)
    = Some (m\<lparr>me_id := i\<rparr>)"
proof (cases "\<exists>r\<in>set (messages d). me_message_id r = me_message_id m")
  case True
  then obtain r where r: "r \<in> set (messages d)" "me_message_id r = me_message_id m" by blast
  let ?u = "update_where (\<lambda>r. me_message_id r = me_message_id m) (\<lambda>r. m\<lparr>me_id := me_id r\<rparr>)
    (messages d)"
  have same: "List.map me_message_id ?u = List.map me_message_id (messages d)"
    by (simp add: update_where_def)
  have "unique_on me_message_id ?u"
    using assms same by (simp add: unique_on_def)
  moreover have "m\<lparr>me_id := me_id r\<rparr> \<in> set ?u"
    using r by (auto simp: set_update_where)
  ultimately show ?thesis
    using True first_unique [of me_message_id ?u "m\<lparr>me_id := me_id r\<rparr>"]
    by (auto simp: find_message_def upsert_message_def)
next
  case False
  then have "filter (\<lambda>r. me_message_id r = me_message_id m) (messages d) = []"
    by (auto simp: filter_empty_conv)
  with False show ?thesis
    by (auto simp: find_message_def upsert_message_def)
qed

lemma create_message_found:
  assumes "store_inv d"
  shows "\<exists>i. find_message (me_message_id m) (create_message m d) = Some (m\<lparr>me_id := i\<rparr>)"
proof -
  have u: "unique_on me_message_id (messages d)"
    using assms by (simp add: inv_defs)
  then have "unique_on me_message_id (messages (merge_thread (me_thread m) t d))" for t
    by (simp add: merge_thread_def unique_on_update)
  with u show ?thesis
    by (auto simp: create_message_def Let_def find_message_upsert split: option.splits)
qed

lemma create_message_thread:
  "store_inv d \<Longrightarrow> get_thread_id_for_message (me_message_id m) (create_message m d) = Some (me_thread m)"
  using create_message_found [of d m] by (auto simp: get_thread_id_for_message_def)

lemma find_message_in:
  "get_thread_id_for_message s d = Some t \<Longrightarrow> store_inv d \<Longrightarrow>
     t \<in> ids th_id (threads d) \<and> s \<in> ids me_message_id (messages d)"
  by (auto simp: get_thread_id_for_message_def find_message_def inv_defs
      dest!: first_filter_Some dest: fkD intro: ids_memI)

lemma ensure_thread_spec:
  assumes e: "ensure_thread_for_message s date d = (t, d')" and inv: "store_inv d"
  shows "store_inv d' \<and> t \<in> ids th_id (threads d') \<and> s \<in> ids me_message_id (messages d')
    \<and> get_thread_id_for_message s d' = Some t
    \<and> baselines d' = baselines d \<and> subsystems d' = subsystems d
    \<and> ids me_message_id (messages d) \<subseteq> ids me_message_id (messages d')
    \<and> patchsets d' = patchsets d \<and> patches d' = patches d"
proof (cases "get_thread_id_for_message s d")
  case (Some tid)
  with e inv find_message_in [OF Some inv] show ?thesis
    by (simp add: ensure_thread_for_message_def)
next
  case None
  let ?m = "\<lambda>t. \<lparr>me_id = 0, me_message_id = s, me_thread = t,
                  me_in_reply_to = None, me_author = ''unknown'', me_subject = placeholder,
                  me_date = date, me_body = [], me_to = [], me_cc = [], me_blob = None,
                  me_list = None\<rparr>"
  obtain d1 where c: "create_thread s placeholder date d = (t, d1)"
    and d': "d' = create_message (?m t) d1"
    using e None by (auto simp: ensure_thread_for_message_def split: prod.splits)
  note sp = create_thread_spec [OF c inv]
  have same: "patchsets d1 = patchsets d" "patches d1 = patches d" "baselines d1 = baselines d"
    "subsystems d1 = subsystems d" "find_message s d1 = find_message s d"
    using c by (auto simp: create_thread_def Let_def find_message_def)
  with None have "get_thread_id_for_message s d1 = None"
    by (simp add: get_thread_id_for_message_def)
  then have d'': "d' = d1\<lparr>messages := upsert_message (?m t) (messages d1)\<rparr>"
    by (simp add: d' create_message_def)
  from sp have inv1: "store_inv d1" and t1: "t \<in> ids th_id (threads d1)" by simp_all
  have "store_inv d'"
    unfolding d' using inv1 t1 by (simp add: create_message_inv)
  moreover have "t \<in> ids th_id (threads d')"
    unfolding d' using create_message_ids(2) [of "?m t" d1] t1 by simp
  moreover have "get_thread_id_for_message s d' = Some t"
    unfolding d' using create_message_thread [OF inv1, of "?m t"] by simp
  moreover have "ids me_message_id (messages d') = insert s (ids me_message_id (messages d))"
    unfolding d' using sp by (simp add: create_message_ids)
  moreover have "baselines d' = baselines d \<and> subsystems d' = subsystems d
      \<and> patchsets d' = patchsets d \<and> patches d' = patches d"
    unfolding d'' using same by simp
  ultimately show ?thesis by blast
qed

subsection \<open>What \<open>create_message\<close> and \<open>ensure_thread_for_message\<close> promise\<close>

lemma find_message_merge:
  "find_message s (merge_thread new old d) =
     map_option (\<lambda>r. if me_thread r = old then r\<lparr>me_thread := new\<rparr> else r) (find_message s d)"
  unfolding find_message_def merge_thread_def by (simp add: first_update_id)

lemma find_message_upsert_other:
  assumes "s \<noteq> me_message_id m"
  shows "find_message s (d\<lparr>messages := upsert_message m (messages d)\<rparr>) = find_message s d"
proof -
  have "filter (\<lambda>r. me_message_id r = s) (update_where (\<lambda>r. me_message_id r = me_message_id m)
      (\<lambda>r. m\<lparr>me_id := me_id r\<rparr>) rows) = filter (\<lambda>r. me_message_id r = s) rows" for rows
    using assms by (induction rows) (auto simp: update_where_def)
  then show ?thesis using assms by (simp add: find_message_def upsert_message_def)
qed

text \<open>C18. Storing a message: the store stays consistent, the message is there with all its fields, in
  the thread it was given, and when it was in another thread before, all messages of that thread
  come along while the others stay where they are.\<close>

theorem create_message_spec:
  assumes "store_inv d" "me_thread m \<in> ids th_id (threads d)"
  shows "store_inv (create_message m d) \<and>
    (\<exists>i. find_message (me_message_id m) (create_message m d) = Some (m\<lparr>me_id := i\<rparr>)) \<and>
    (\<forall>s t. s \<noteq> me_message_id m \<longrightarrow> get_thread_id_for_message s d = Some t \<longrightarrow>
      get_thread_id_for_message s (create_message m d) =
        Some (if get_thread_id_for_message (me_message_id m) d = Some t then me_thread m else t))"
proof -
  have "get_thread_id_for_message s (create_message m d) =
        Some (if get_thread_id_for_message (me_message_id m) d = Some t then me_thread m else t)"
    if s: "s \<noteq> me_message_id m" and t: "get_thread_id_for_message s d = Some t" for s t
  proof (cases "get_thread_id_for_message (me_message_id m) d")
    case None
    with s t show ?thesis
      by (simp add: create_message_def get_thread_id_for_message_def find_message_upsert_other)
  next
    case (Some old)
    obtain r where r: "find_message s d = Some r" "me_thread r = t"
      using t by (auto simp: get_thread_id_for_message_def)
    show ?thesis
    proof (cases "old = me_thread m")
      case True
      then have "create_message m d = d\<lparr>messages := upsert_message m (messages d)\<rparr>"
        using Some by (simp add: create_message_def)
      with Some True r show ?thesis
        by (auto simp: get_thread_id_for_message_def find_message_upsert_other [OF s])
    next
      case False
      let ?e = "merge_thread (me_thread m) old d"
      have "create_message m d = ?e\<lparr>messages := upsert_message m (messages ?e)\<rparr>"
        using Some False by (simp add: create_message_def Let_def)
      with Some r show ?thesis
        by (auto simp: get_thread_id_for_message_def find_message_upsert_other [OF s] find_message_merge)
    qed
  qed
  with create_message_inv [OF assms] create_message_found [OF assms(1)] show ?thesis by blast
qed

text \<open>The thread of a message: asking for it makes a placeholder when the message is unknown, and
  asking again changes nothing more and gives the same thread; patchsets and patches are not
  touched.\<close>

theorem ensure_thread_idempotent:
  assumes "store_inv d" and "ensure_thread_for_message s date d = (t, d')"
  shows "store_inv d' \<and> t \<in> ids th_id (threads d') \<and>
    (\<forall>date'. ensure_thread_for_message s date' d' = (t, d')) \<and>
    patchsets d' = patchsets d \<and> patches d' = patches d"
  using ensure_thread_spec [OF assms(2,1)] by (auto simp: ensure_thread_for_message_def)

theorem ensure_thread_idempotent_witness:
  "\<forall>date'. ensure_thread_for_message ''ab'' date' (snd (ensure_thread_for_message ''ab'' 5 empty_db)) =
     (1, snd (ensure_thread_for_message ''ab'' 5 empty_db))"
proof -
  let ?e = "ensure_thread_for_message ''ab'' 5 empty_db"
  have "fst ?e = 1" by code_simp
  then have "?e = (1, snd ?e)" by (metis prod.collapse)
  from ensure_thread_idempotent [OF store_inv_empty this] show ?thesis by blast
qed

theorem create_message_spec_witness:
  "\<exists>d m. store_inv (create_message m d) \<and> get_thread_id_for_message ''ab'' d = Some 1 \<and>
     get_thread_id_for_message ''ab'' (create_message m d) = Some 2"
proof -
  let ?d1 = "snd (ensure_thread_for_message ''ab'' 5 empty_db)"
  let ?m1 = "(hd (messages ?d1))\<lparr>me_message_id := ''cd''\<rparr>"
  let ?d2 = "create_message ?m1 ?d1"
  let ?d = "snd (create_thread ''r'' ''s'' 5 ?d2)"
  let ?m = "?m1\<lparr>me_thread := 2\<rparr>"
  have t1: "ids th_id (threads ?d1) = {1}" and mt: "me_thread ?m1 = 1" "me_thread ?m = 2"
    by (simp_all add: ids_def, code_simp+)
  have "ensure_thread_for_message ''ab'' 5 empty_db = (fst (ensure_thread_for_message ''ab'' 5 empty_db), ?d1)"
    by simp
  from ensure_thread_spec [OF this store_inv_empty] have "store_inv ?d1" by simp
  then have i2: "store_inv ?d2" using create_message_inv t1 mt by simp
  have "create_thread ''r'' ''s'' 5 ?d2 = (2, ?d)" by (simp add: prod_eq_iff, code_simp)
  from create_thread_spec [OF this i2] have i: "store_inv ?d" "2 \<in> ids th_id (threads ?d)" by simp_all
  have g: "get_thread_id_for_message ''ab'' ?d = Some 1" "get_thread_id_for_message (me_message_id ?m) ?d = Some 1"
    "''ab'' \<noteq> me_message_id ?m" by code_simp+
  from create_message_spec [OF i(1), of ?m] i(2) mt g have "store_inv (create_message ?m ?d)"
    "get_thread_id_for_message ''ab'' (create_message ?m ?d) = Some 2" by auto
  with g(1) show ?thesis by blast
qed

end
