(* ===== verification/Reviews_Inv.thy ===== *)
theory Reviews_Inv
  imports Reviews Threads_Inv
begin

text \<open>
  What the operations on reviews and findings do: the consistency of the store, and how the
  migration that runs at every start treats the triage of findings.
\<close>

subsection \<open>Consistency\<close>

lemma create_review_inv:
  assumes "store_inv d" "i \<in> ids ps_id (patchsets d)"
    and "\<And>p. patch = Some p \<Longrightarrow> p \<in> ids pa_id (patches d)"
    and "\<And>b. bl = Some b \<Longrightarrow> b \<in> ids bl_id (baselines d)"
    and "create_review i patch pr mo bl ph now d = (r, d')"
  shows "store_inv d' \<and> r \<in> ids rv_id (reviews d') \<and> r \<notin> ids rv_id (reviews d)"
proof -
  have r: "r = next_id (List.map rv_id (reviews d))"
    using assms(5) by (simp add: create_review_def Let_def)
  then have "r \<notin> ids rv_id (reviews d)"
    using next_id_fresh [of "List.map rv_id (reviews d)"] by (simp add: ids_def)
  moreover obtain x where "d' = d\<lparr>reviews := reviews d @ [x]\<rparr>" "rv_id x = r"
    "rv_patchset x = i" "rv_patch x = patch" "rv_baseline x = bl" "rv_interaction x = None"
    using assms(5) by (auto simp: create_review_def Let_def)
  ultimately show ?thesis
    using assms(1-4) r by (simp add: inv_defs keys_ok_insert fk_insertI)
qed

lemma modify_review_inv:
  assumes "store_inv d" and "\<And>r. rv_id (f r) = rv_id r" "\<And>r. rv_patchset (f r) = rv_patchset r"
    "\<And>r. rv_patch (f r) = rv_patch r" "\<And>r. rv_baseline (f r) = rv_baseline r"
    and "\<And>r s. rv_interaction (f r) = Some s \<Longrightarrow>
      rv_interaction r = Some s \<or> s \<in> ids ai_id (interactions d)"
  shows "store_inv (modify_review i f d)"
proof -
  have "fk_opt rv_interaction (update_where (\<lambda>r. rv_id r = i) f (reviews d)) (ids ai_id (interactions d))"
    using assms(1,6) by (auto simp: inv_defs fk_opt_def update_where_def) blast
  then show ?thesis
    using assms(1-5) by (simp add: modify_review_def inv_defs keys_ok_update)
qed

lemma review_update_inv:
  assumes "store_inv d"
  shows "store_inv (update_review_status i s l now d)"
    and "(\<And>x. ia = Some x \<Longrightarrow> x \<in> ids ai_id (interactions d)) \<Longrightarrow>
      store_inv (complete_review i s res su ia il lo now d)"
  using assms unfolding update_review_status_def complete_review_def
  by (auto intro!: modify_review_inv split: option.split)

lemma create_ai_interaction_inv:
  assumes "store_inv d" shows "store_inv (snd (create_ai_interaction x now d))"
  using assms by (auto simp: create_ai_interaction_def inv_defs intro!: unique_on_insert)

lemma create_tool_usage_inv:
  assumes "store_inv d" "tool_review u \<in> ids rv_id (reviews d)"
  shows "store_inv (create_tool_usage u now d)"
  using assms by (simp add: create_tool_usage_def inv_defs keys_ok_insert fk_insertI)

lemma create_finding_inv:
  assumes "store_inv d" "review_id f \<in> ids rv_id (reviews d)"
  shows "store_inv (snd (create_finding f d))"
  using assms by (simp add: create_finding_def inv_defs keys_ok_insert fk_insertI split: option.split)

lemma insert_comment_inv:
  assumes "store_inv d" "i \<in> ids fi_id (findings d)"
  shows "store_inv (insert_comment i s c t d)"
  using assms by (simp add: insert_comment_def inv_defs keys_ok_insert fk_insertI)

lemma findings_update_inv:
  assumes "store_inv d" "\<And>f. fi_id (g f) = fi_id f" "\<And>f. fi_review (g f) = fi_review f"
  shows "store_inv (d\<lparr>findings := update_where P g (findings d)\<rparr>)"
  using assms by (simp add: inv_defs keys_ok_update)

lemma update_finding_triage_inv:
  assumes "store_inv d" shows "store_inv (snd (update_finding_triage i s c now d))"
proof -
  define d1 where "d1 = d\<lparr>findings := update_where (\<lambda>f. fi_id f = i)
     (\<lambda>f. f\<lparr>fi_triage_status := Some s,
             fi_triage_comment := (case c of Some c \<Rightarrow> Some c | None \<Rightarrow> fi_triage_comment f),
             fi_triage_updated := Some now\<rparr>) (findings d)\<rparr>"
  have inv: "store_inv d1" unfolding d1_def by (rule findings_update_inv [OF assms]) simp_all
  have "ids fi_id (findings d1) = ids fi_id (findings d)" by (simp add: d1_def)
  then have "i \<in> ids fi_id (findings d1)" if "0 < count_where (\<lambda>f. fi_id f = i) (findings d)"
    using that by (auto simp: ids_def count_where_def filter_empty_conv)
  then show ?thesis
    using inv insert_comment_inv [OF inv]
    unfolding update_finding_triage_def Let_def d1_def [symmetric] snd_conv
    by (auto split: option.split)
qed

subsection \<open>The columns of \<open>findings\<close>\<close>

lemma create_finding_columns: "finding_columns (snd (create_finding f d)) = finding_columns d"
  by (simp add: create_finding_def split: option.split)

lemma create_tool_usage_tables [simp]:
  "finding_columns (create_tool_usage u now d) = finding_columns d"
  "triage_comments (create_tool_usage u now d) = triage_comments d"
  "findings (create_tool_usage u now d) = findings d"
  by (simp_all add: create_tool_usage_def)

lemma fold_keeps:
  assumes "\<And>x e. g (f x e) = g e" shows "g (fold f xs d) = g d"
  by (induction xs arbitrary: d) (simp_all add: assms)

lemma backfill_tools_keeps:
  assumes "\<And>u now e. g (create_tool_usage u now e) = g e"
  shows "g (fold (backfill_review_tools from_str to_text now) rs d) = g d"
  by (rule fold_keeps) (auto simp: backfill_review_tools_def assms split: option.split json.split
      intro!: fold_keeps)

lemma migrate_findings_keeps:
  assumes "\<And>f e. g (snd (create_finding f e)) = g e"
  shows "g (migrate_findings from_str to_text d) = g d"
  unfolding migrate_findings_def
  by (rule fold_keeps) (auto simp: assms split: option.split intro!: fold_keeps)

lemma migrate_tail_keeps:
  assumes "\<And>u now e. g (create_tool_usage u now e) = g e" "\<And>f e. g (snd (create_finding f e)) = g e"
  shows "g (migrate_tool_usages from_str to_text now d) = g d"
  unfolding migrate_tool_usages_def migrate_findings_keeps [of g, OF assms(2)]
  by (rule backfill_tools_keeps) (rule assms(1))

lemma insert_comment_columns [simp]: "finding_columns (insert_comment i s c t d) = finding_columns d"
  by (simp add: insert_comment_def)

lemma backfill_comments_columns: "finding_columns (backfill_comments d) = finding_columns d"
  unfolding backfill_comments_def by (rule fold_keeps) (simp split: prod.split)

lemma column_steps:
  "c \<notin> set (finding_columns d) \<Longrightarrow> c \<noteq> x \<Longrightarrow> c \<notin> set (finding_columns (add_column x d))"
  "c \<notin> set (finding_columns d) \<Longrightarrow> c \<noteq> y \<Longrightarrow> c \<notin> set (finding_columns (rename_column x y d))"
  "c \<notin> set (finding_columns d) \<Longrightarrow> c \<notin> set (finding_columns (drop_column x d))"
  by (auto simp: add_column_def rename_column_def drop_column_def)

lemma head_keeps [simp]:
  "finding_columns (consolidate_applying d) = finding_columns d"
  "finding_columns (default_triage d) = finding_columns d"
  "finding_columns (backfill_lists d) = finding_columns d"
  by (simp_all add: consolidate_applying_def default_triage_def backfill_lists_def)

lemma migrate_columns:
  assumes "c \<notin> {''triage_updated_at'', ''triage_comment'', ''triage_status'', ''locations'',
     ''preexisting'', ''severity_explanation'', ''problem''}" "c \<notin> set (finding_columns d)"
  shows "c \<notin> set (finding_columns (migrate from_str to_text now d))"
  unfolding migrate_def migrate_tail_keeps [of finding_columns, OF create_tool_usage_tables(1)
      create_finding_columns] migrate_finding_columns_def add_triage_columns_def
  using assms by (intro column_steps) (simp_all add: backfill_comments_columns column_steps)

text \<open>On a database whose table of findings has no column \<open>server_id\<close>, the migration gives it none, and the
  statement that stores a finding, which names it, fails and leaves the store as it was. The test
  \<open>tests/integration/findings_sum_test.rs\<close> expects that it succeeds after \<open>migrate\<close>.\<close>

theorem create_finding_fails:
  assumes "''server_id'' \<notin> set (finding_columns d)"
  shows "(\<exists>c. create_finding f (migrate from_str to_text now d) =
      (Inl (NoSuchColumn c), migrate from_str to_text now d)) \<and>
    ''server_id'' \<notin> set (finding_columns (migrate from_str to_text now d))"
proof -
  have n: "''server_id'' \<notin> set (finding_columns (migrate from_str to_text now d))"
    by (rule migrate_columns) (use assms in simp_all)
  have "List.find (\<lambda>c. c \<notin> set (finding_columns (migrate from_str to_text now d)))
      finding_insert_columns \<noteq> None"
    using n by (auto simp: find_None_iff finding_insert_columns_def)
  with n show ?thesis by (auto simp: create_finding_def)
qed

theorem create_finding_fails_witness:
  "\<forall>f. \<exists>c. fst (create_finding f (migrate (\<lambda>_. None) (\<lambda>_. []) 0 empty_db)) = Inl (NoSuchColumn c)"
proof
  fix f
  have "''server_id'' \<notin> set (finding_columns empty_db)" by code_simp
  from create_finding_fails [OF this, of f "\<lambda>_. None" "\<lambda>_. []" 0]
  show "\<exists>c. fst (create_finding f (migrate (\<lambda>_. None) (\<lambda>_. []) 0 empty_db)) = Inl (NoSuchColumn c)"
    by auto
qed

text \<open>A review that failed because the patch did not apply does not count as a failed review:
  over rows whose status is one of the texts the code writes, only \<open>Failed\<close> counts.\<close>

theorem failed_to_apply_not_counted:
  assumes "\<And>r. r \<in> set (reviews d) \<Longrightarrow> \<exists>s. rv_status r = as_str s"
  shows "has_failed_review i p d \<longleftrightarrow>
    (\<exists>r\<in>set (reviews d). rv_patchset r = i \<and> rv_patch r = Some p \<and> rv_status r = as_str Failed \<and>
       rv_interaction r = None)"
proof -
  have "as_str s \<noteq> ''FailedToApply''" for s by (cases s) simp_all
  then have "\<And>r. r \<in> set (reviews d) \<Longrightarrow> rv_status r \<noteq> ''FailedToApply''"
    using assms by metis
  then show ?thesis by (auto simp: has_failed_review_def)
qed

theorem failed_to_apply_not_counted_witness:
  "\<not> has_failed_review 1 2 (snd (create_review 1 (Some 2) [] [] None None 0 empty_db)\<lparr>reviews :=
     [(hd (reviews (snd (create_review 1 (Some 2) [] [] None None 0 empty_db))))\<lparr>rv_status :=
        as_str FailedToApply\<rparr>]\<rparr>)"
proof -
  let ?r = "(hd (reviews (snd (create_review 1 (Some 2) [] [] None None 0 empty_db))))\<lparr>rv_status :=
        as_str FailedToApply\<rparr>"
  let ?d = "snd (create_review 1 (Some 2) [] [] None None 0 empty_db)\<lparr>reviews := [?r]\<rparr>"
  have "\<And>r. r \<in> set (reviews ?d) \<Longrightarrow> \<exists>s. rv_status r = as_str s"
    by (auto intro!: exI [of _ FailedToApply])
  from failed_to_apply_not_counted [of ?d 1 2, OF this] show ?thesis by simp
qed

subsection \<open>Triage across a restart\<close>

text \<open>What the migration does to the triage: the comments of the first part of \<open>migrate\<close> are the
  comments of all of it, and it writes no comment away.\<close>

lemma create_finding_comments: "triage_comments (snd (create_finding f d)) = triage_comments d"
  by (simp add: create_finding_def split: option.split)

lemma column_tables [simp]:
  "triage_comments (add_column c d) = triage_comments d" "findings (add_column c d) = findings d"
  "triage_comments (rename_column x y d) = triage_comments d" "findings (rename_column x y d) = findings d"
  "triage_comments (drop_column c d) = triage_comments d" "findings (drop_column c d) = findings d"
  by (simp_all add: add_column_def rename_column_def drop_column_def)

lemma head_tables [simp]:
  "triage_comments (consolidate_applying d) = triage_comments d"
  "findings (consolidate_applying d) = findings d"
  "triage_comments (default_triage d) = triage_comments d"
  "triage_comments (backfill_lists d) = triage_comments d" "findings (backfill_lists d) = findings d"
  "triage_comments (add_triage_columns d) = triage_comments d"
  "findings (add_triage_columns d) = findings d"
  "triage_comments (migrate_finding_columns d) = triage_comments d"
  "findings (migrate_finding_columns d) = findings d"
  by (simp_all add: consolidate_applying_def default_triage_def backfill_lists_def
      add_triage_columns_def migrate_finding_columns_def)

lemma migrate_comments:
  "triage_comments (migrate from_str to_text now d) =
     triage_comments (backfill_comments (default_triage (add_triage_columns (consolidate_applying d))))"
  unfolding migrate_def migrate_tail_keeps [of triage_comments, OF create_tool_usage_tables(2)
      create_finding_comments] by simp

lemma fold_comments:
  "set (triage_comments d) \<subseteq> set (triage_comments (fold (\<lambda>(i, s, c, t). insert_comment i s c t) xs d)) \<and>
   (\<forall>(i, s, c, t)\<in>set xs. \<exists>k\<in>set (triage_comments (fold (\<lambda>(i, s, c, t). insert_comment i s c t) xs d)).
      co_finding k = i \<and> co_comment k = c \<and> co_created k = t)"
proof (induction xs arbitrary: d)
  case (Cons x xs)
  obtain i s c t where x: "x = (i, s, c, t)" by (cases x)
  have "\<exists>k\<in>set (triage_comments (insert_comment i s c t d)). co_finding k = i \<and> co_comment k = c \<and>
      co_created k = t" "set (triage_comments d) \<subseteq> set (triage_comments (insert_comment i s c t d))"
    by (auto simp: insert_comment_def)
  with Cons.IH [of "insert_comment i s c t d"] show ?case
    by (simp add: x) blast
qed simp

lemma default_triage_row:
  assumes "f \<in> set (findings d)"
  shows "\<exists>g\<in>set (findings (default_triage d)). fi_id g = fi_id f \<and>
    fi_triage_comment g = fi_triage_comment f \<and> fi_triage_updated g = fi_triage_updated f \<and>
    fi_triage_status g = (if fi_triage_status f = None \<or>
       (fi_triage_status f = Some ''to_fix'' \<and> fi_triage_updated f = None)
       then Some ''pending'' else fi_triage_status f)"
proof -
  let ?P = "\<lambda>f. fi_triage_status f = None \<or>
    (fi_triage_status f = Some ''to_fix'' \<and> fi_triage_updated f = None)"
  let ?g = "\<lambda>f. f\<lparr>fi_triage_status := Some ''pending''\<rparr>"
  have "(if ?P f then ?g f else f) \<in> set (findings (default_triage d))"
    using update_where_memI [OF assms, of ?P ?g] by (simp add: default_triage_def)
  then show ?thesis by (rule bexI [rotated]) simp
qed

text \<open>A comment that a finding holds is a comment of its own after the next start.\<close>

lemma migrate_restores_comment:
  assumes "f \<in> set (findings d)" "fi_triage_comment f = Some c" "fi_triage_updated f = Some t"
    and "\<exists>x\<in>set c. x \<noteq> CHR '' ''"
  shows "\<exists>k\<in>set (triage_comments (migrate from_str to_text now d)).
    co_finding k = fi_id f \<and> co_comment k = c \<and> co_created k = t"
proof -
  let ?e = "default_triage (add_triage_columns (consolidate_applying d))"
  have "f \<in> set (findings (add_triage_columns (consolidate_applying d)))" using assms(1) by simp
  from default_triage_row [OF this] obtain g where g: "g \<in> set (findings ?e)" "fi_id g = fi_id f"
    "fi_triage_comment g = Some c" "fi_triage_updated g = Some t" using assms(2,3) by auto
  show ?thesis
  proof (cases "\<exists>k\<in>set (triage_comments ?e). co_finding k = fi_id f \<and> co_comment k = c \<and> co_created k = t")
    case True
    then show ?thesis
      unfolding migrate_comments backfill_comments_def using fold_comments [of ?e] by blast
  next
    case False
    then have "\<exists>s. inline_comment ?e g = Some (fi_id f, s, c, t)"
      using g assms(4) by (simp add: inline_comment_def Let_def)
    then obtain s where s: "inline_comment ?e g = Some (fi_id f, s, c, t)" by blast
    have "(fi_id f, s, c, t) \<in> set (List.map_filter (inline_comment ?e) (findings ?e))"
      unfolding set_map_filter using g(1) s by blast
    from bspec [OF fold_comments [THEN conjunct2] this, of ?e] show ?thesis
      unfolding migrate_comments backfill_comments_def by simp
  qed
qed

lemma trimmed_nonblank:
  assumes "trim c = c" "c \<noteq> []" shows "\<exists>x\<in>set c. x \<noteq> CHR '' ''"
proof (rule ccontr)
  assume "\<not> (\<exists>x\<in>set c. x \<noteq> CHR '' '')"
  moreover have "\<not> is_space (hd c)" using trim_ends [of c] assms by simp
  ultimately show False using assms(2) by (cases c) (auto simp: is_space_def code_def)
qed

text \<open>Changing the status of a commented finding makes the next start repeat the comment: after
  a triage with a comment and a later one without, there is no comment of the later time, and
  after the migration there is one, with the old text.\<close>

theorem status_change_repeats_comment:
  assumes "f \<in> set (findings d)" "trim c = c" "c \<noteq> []" "t1 \<noteq> t2"
    and "\<And>k. k \<in> set (triage_comments d) \<Longrightarrow> co_created k \<noteq> t2"
    and d2: "d2 = snd (update_finding_triage (fi_id f) s2 None t2
    (snd (update_finding_triage (fi_id f) s1 (Some c) t1 d)))"
  shows "(\<nexists>k. k \<in> set (triage_comments d2) \<and> co_created k = t2) \<and>
    (\<exists>k\<in>set (triage_comments (migrate from_str to_text now d2)).
       co_finding k = fi_id f \<and> co_comment k = c \<and> co_created k = t2)"
proof -
  let ?d1 = "snd (update_finding_triage (fi_id f) s1 (Some c) t1 d)"
  have n: "nonblank (Some c) = Some c" "nonblank None = None" using assms(2,3) by (simp_all add: nonblank_def)
  let ?f1 = "f\<lparr>fi_triage_status := Some s1, fi_triage_comment := Some c, fi_triage_updated := Some t1\<rparr>"
  have f1: "?f1 \<in> set (findings ?d1)"
    using assms(1) by (auto simp: update_finding_triage_def Let_def n insert_comment_def update_where_def)
  have "findings d2 = update_where (\<lambda>g. fi_id g = fi_id f) (\<lambda>g. g\<lparr>fi_triage_status := Some s2,
      fi_triage_comment := fi_triage_comment g, fi_triage_updated := Some t2\<rparr>) (findings ?d1)"
    by (simp add: d2 update_finding_triage_def Let_def n)
  then have "\<exists>g\<in>set (findings d2). fi_id g = fi_id f \<and> fi_triage_comment g = Some c \<and>
      fi_triage_updated g = Some t2"
    using update_where_memI [OF f1, of "\<lambda>g. fi_id g = fi_id f" "\<lambda>g. g\<lparr>fi_triage_status := Some s2,
      fi_triage_comment := fi_triage_comment g, fi_triage_updated := Some t2\<rparr>"]
    by (intro bexI) simp_all
  then obtain g where g: "g \<in> set (findings d2)" "fi_id g = fi_id f" "fi_triage_comment g = Some c"
    "fi_triage_updated g = Some t2" by blast
  have "triage_comments d2 = triage_comments ?d1"
    by (simp add: d2 update_finding_triage_def Let_def n)
  moreover have "\<forall>k\<in>set (triage_comments ?d1). k \<in> set (triage_comments d) \<or> co_created k = t1"
    by (auto simp: update_finding_triage_def Let_def n insert_comment_def)
  ultimately have "\<nexists>k. k \<in> set (triage_comments d2) \<and> co_created k = t2"
    using assms(4,5) by auto
  moreover have "\<exists>x\<in>set c. x \<noteq> CHR '' ''" using assms(2,3) by (rule trimmed_nonblank)
  ultimately show ?thesis using migrate_restores_comment [OF g(1,3,4)] g(2) by simp
qed

definition sample_findings :: db where
  "sample_findings = empty_db\<lparr>findings :=
     [\<lparr>fi_id = 1, fi_review = 1, fi_severity = 3, fi_explanation = None, fi_problem = ''p'',
       fi_suggestion = None, fi_preexisting = None, fi_locations = None,
       fi_triage_status = Some ''pending'', fi_triage_comment = None, fi_triage_updated = None\<rparr>]\<rparr>"

theorem status_change_repeats_comment_witness:
  "\<exists>k\<in>set (triage_comments (migrate (\<lambda>_. None) (\<lambda>_. []) 9
      (snd (update_finding_triage 1 ''fixed'' None 2
        (snd (update_finding_triage 1 ''to_fix'' (Some ''c'') 1 sample_findings)))))).
     co_finding k = 1 \<and> co_comment k = ''c'' \<and> co_created k = 2"
proof -
  let ?f = "hd (findings sample_findings)"
  have "?f \<in> set (findings sample_findings)" "fi_id ?f = 1" "triage_comments sample_findings = []"
    by (simp_all add: sample_findings_def empty_db_def)
  moreover have "trim ''c'' = ''c''" by code_simp
  ultimately show ?thesis
    using status_change_repeats_comment [of ?f sample_findings "''c''" 1 2 _ "''fixed''" "''to_fix''"
        "\<lambda>_. None" "\<lambda>_. []" 9, OF _ _ _ _ _ refl] by simp
qed

lemma delete_comment_cases:
  assumes "unique_on co_id (triage_comments d)" "k \<in> set (triage_comments d)"
  shows "delete_finding_triage_comment (co_id k) d =
    (let d1 = d\<lparr>triage_comments := delete_where (\<lambda>c. co_id c = co_id k) (triage_comments d)\<rparr>
     in (True, if count_where (\<lambda>c. co_finding c = co_finding k) (triage_comments d1) = 0
        then d1\<lparr>findings := update_where (\<lambda>f. fi_id f = co_finding k)
               (\<lambda>f. f\<lparr>fi_triage_comment := None, fi_triage_updated := None\<rparr>) (findings d1)\<rparr>
        else d1))"
proof -
  have f: "first (filter (\<lambda>c. co_id c = co_id k) (triage_comments d)) = Some k"
    by (rule first_unique [OF assms])
  have "0 < count_where (\<lambda>c. co_id c = co_id k) (triage_comments d)"
    unfolding count_where_def length_greater_0_conv filter_empty_conv using assms(2) by blast
  then show ?thesis by (simp add: delete_finding_triage_comment_def f Let_def)
qed

lemma fold_mono_findings:
  assumes "\<And>x e. x \<in> set xs \<Longrightarrow> set (findings e) \<subseteq> set (findings (f x e))"
  shows "set (findings d) \<subseteq> set (findings (fold f xs d))"
  using assms
proof (induction xs arbitrary: d)
  case (Cons x xs)
  then have "set (findings d) \<subseteq> set (findings (f x d))"
    "set (findings (f x d)) \<subseteq> set (findings (fold f xs (f x d)))" by auto
  then show ?case by simp
qed simp

lemma migrate_tail_findings: "set (findings d) \<subseteq> set (findings (migrate_tool_usages from_str to_text now d))"
proof -
  have c: "set (findings e) \<subseteq> set (findings (snd (create_finding f e)))" for e f
    by (auto simp: create_finding_def split: option.split)
  have "set (findings e) \<subseteq> set (findings (migrate_findings from_str to_text e))" for e
    unfolding migrate_findings_def
    by (rule fold_mono_findings) (auto split: option.split intro!: subsetD [OF fold_mono_findings [OF c]])
  then show ?thesis
    unfolding migrate_tool_usages_def
    using backfill_tools_keeps [of findings, OF create_tool_usage_tables(3)] by metis
qed

lemma fold_comment_findings: "findings (backfill_comments d) = findings d"
  unfolding backfill_comments_def
  by (rule fold_keeps) (simp add: insert_comment_def split: prod.split)

lemma migrate_defaults_triage:
  assumes "f \<in> set (findings d)" "fi_triage_status f = Some ''to_fix''" "fi_triage_updated f = None"
  shows "\<exists>g\<in>set (findings (migrate from_str to_text now d)). fi_id g = fi_id f \<and>
    fi_triage_status g = Some ''pending''"
proof -
  let ?e = "default_triage (add_triage_columns (consolidate_applying d))"
  have "f \<in> set (findings (add_triage_columns (consolidate_applying d)))" using assms(1) by simp
  from default_triage_row [OF this] assms(2,3) obtain g where
    g: "g \<in> set (findings ?e)" "fi_id g = fi_id f" "fi_triage_status g = Some ''pending''" by auto
  have "g \<in> set (findings (migrate_finding_columns (backfill_lists (backfill_comments ?e))))"
    using g(1) by (simp add: fold_comment_findings)
  with migrate_tail_findings have "g \<in> set (findings (migrate from_str to_text now d))"
    unfolding migrate_def by blast
  with g(2,3) show ?thesis by blast
qed

text \<open>Deleting the only comment of a finding that is marked to be fixed loses the mark at the next
  start: the deletion empties the time of the triage, and the migration takes a mark without a
  time for a default and makes the finding pending.\<close>

theorem deleted_comment_loses_mark:
  assumes "unique_on co_id (triage_comments d)" "k \<in> set (triage_comments d)"
    and "\<And>x. x \<in> set (triage_comments d) \<Longrightarrow> co_finding x = co_finding k \<Longrightarrow> co_id x = co_id k"
    and "f \<in> set (findings d)" "fi_id f = co_finding k" "fi_triage_status f = Some ''to_fix''"
    and "delete_finding_triage_comment (co_id k) d = (b, d')"
  shows "b \<and> (\<exists>g\<in>set (findings d'). fi_id g = fi_id f \<and> fi_triage_status g = Some ''to_fix'') \<and>
    (\<exists>g\<in>set (findings (migrate from_str to_text now d')). fi_id g = fi_id f \<and>
       fi_triage_status g = Some ''pending'')"
proof -
  let ?d1 = "d\<lparr>triage_comments := delete_where (\<lambda>c. co_id c = co_id k) (triage_comments d)\<rparr>"
  let ?h = "\<lambda>f. f\<lparr>fi_triage_comment := None, fi_triage_updated := None\<rparr>"
  have "count_where (\<lambda>c. co_finding c = co_finding k) (triage_comments ?d1) = 0"
    using assms(3) by (auto simp: count_where_zero)
  then have d': "b" "findings d' = update_where (\<lambda>f. fi_id f = co_finding k) ?h (findings d)"
    using assms(7) unfolding delete_comment_cases [OF assms(1,2)] Let_def by auto
  have g: "?h f \<in> set (findings d')"
    using update_where_memI [OF assms(4), of "\<lambda>f. fi_id f = co_finding k" ?h] assms(5) d'(2) by simp
  from migrate_defaults_triage [OF this, of from_str to_text now] assms(6) d'(1) g
  show ?thesis by (auto intro!: bexI [of _ "?h f"])
qed

definition one_comment :: db where
  "one_comment = snd (update_finding_triage 1 ''to_fix'' (Some ''c'') 1 sample_findings)"

definition two_comments :: db where
  "two_comments = snd (update_finding_triage 1 ''fixed'' (Some ''d'') 2 one_comment)"

lemma sample_comments:
  "triage_comments one_comment = [\<lparr>co_id = 1, co_finding = 1, co_status = ''to_fix'',
     co_comment = ''c'', co_created = 1\<rparr>]"
  "triage_comments two_comments = [\<lparr>co_id = 1, co_finding = 1, co_status = ''to_fix'',
     co_comment = ''c'', co_created = 1\<rparr>, \<lparr>co_id = 2, co_finding = 1, co_status = ''fixed'',
     co_comment = ''d'', co_created = 2\<rparr>]"
  by code_simp+

lemma sample_comment_rows:
  "\<exists>f. findings one_comment = [f] \<and> fi_id f = 1 \<and> fi_triage_status f = Some ''to_fix''"
  "\<exists>f. findings two_comments = [f] \<and> fi_id f = 1 \<and> fi_triage_comment f = Some ''d'' \<and>
     fi_triage_updated f = Some 2"
proof -
  have "List.map (\<lambda>f. (fi_id f, fi_triage_status f)) (findings one_comment) = [(1, Some ''to_fix'')]"
    by code_simp
  then show "\<exists>f. findings one_comment = [f] \<and> fi_id f = 1 \<and> fi_triage_status f = Some ''to_fix''"
    by (auto simp: map_eq_Cons_conv)
  have "List.map (\<lambda>f. (fi_id f, fi_triage_comment f, fi_triage_updated f)) (findings two_comments) =
      [(1, Some ''d'', Some 2)]" by code_simp
  then show "\<exists>f. findings two_comments = [f] \<and> fi_id f = 1 \<and> fi_triage_comment f = Some ''d'' \<and>
     fi_triage_updated f = Some 2"
    by (auto simp: map_eq_Cons_conv)
qed

theorem deleted_comment_loses_mark_witness:
  "\<exists>g\<in>set (findings (migrate (\<lambda>_. None) (\<lambda>_. []) 9 (snd (delete_finding_triage_comment 1 one_comment)))).
     fi_id g = 1 \<and> fi_triage_status g = Some ''pending''"
proof -
  obtain f where f: "findings one_comment = [f]" "fi_id f = 1" "fi_triage_status f = Some ''to_fix''"
    using sample_comment_rows(1) by blast
  let ?k = "hd (triage_comments one_comment)"
  have k: "unique_on co_id (triage_comments one_comment)" "?k \<in> set (triage_comments one_comment)"
    "co_id ?k = 1" "co_finding ?k = 1" by (simp_all add: sample_comments unique_on_def)
  have d: "delete_finding_triage_comment (co_id ?k) one_comment =
      (fst (delete_finding_triage_comment 1 one_comment), snd (delete_finding_triage_comment 1 one_comment))"
    by (simp add: k)
  from deleted_comment_loses_mark [OF k(1,2) _ _ _ f(3) d] show ?thesis
    by (simp add: sample_comments f)
qed

text \<open>Deleting the latest of several comments of a finding does not last: the finding keeps its
  own copy of it, and the next start writes the comment back.\<close>

theorem deleted_comment_returns:
  assumes "unique_on co_id (triage_comments d)" "k \<in> set (triage_comments d)"
    and "x \<in> set (triage_comments d)" "co_id x \<noteq> co_id k" "co_finding x = co_finding k"
    and "f \<in> set (findings d)" "fi_id f = co_finding k" "fi_triage_comment f = Some (co_comment k)"
    "fi_triage_updated f = Some (co_created k)" "trim (co_comment k) = co_comment k" "co_comment k \<noteq> []"
    and "delete_finding_triage_comment (co_id k) d = (b, d')"
  shows "b \<and> (\<nexists>y. y \<in> set (triage_comments d') \<and> co_id y = co_id k) \<and>
    (\<exists>y\<in>set (triage_comments (migrate from_str to_text now d')). co_finding y = co_finding k \<and>
       co_comment y = co_comment k \<and> co_created y = co_created k)"
proof -
  let ?rest = "delete_where (\<lambda>c. co_id c = co_id k) (triage_comments d)"
  have "x \<in> set ?rest" using assms(3,4) by simp
  then have "count_where (\<lambda>c. co_finding c = co_finding k) ?rest \<noteq> 0"
    using assms(5) unfolding count_where_zero by blast
  then have d': "b" "findings d' = findings d" "triage_comments d' = ?rest"
    using assms(12) unfolding delete_comment_cases [OF assms(1,2)] Let_def by auto
  have "\<exists>x\<in>set (co_comment k). x \<noteq> CHR '' ''" using assms(10,11) by (rule trimmed_nonblank)
  from migrate_restores_comment [of f d', OF _ assms(8,9) this] assms(6,7) d'(1,2) show ?thesis
    by (simp add: d'(3))
qed


theorem deleted_comment_returns_witness:
  "\<exists>y\<in>set (triage_comments (migrate (\<lambda>_. None) (\<lambda>_. []) 9
      (snd (delete_finding_triage_comment 2 two_comments)))). co_comment y = ''d''"
proof -
  obtain f where f: "findings two_comments = [f]" "fi_id f = 1" "fi_triage_comment f = Some ''d''"
    "fi_triage_updated f = Some 2"
    using sample_comment_rows(2) by blast
  obtain x k where xk: "triage_comments two_comments = [x, k]" "co_id x = 1" "co_finding x = 1"
    "co_id k = 2" "co_finding k = 1" "co_comment k = ''d''" "co_created k = 2"
    by (simp add: sample_comments)
  have k: "unique_on co_id (triage_comments two_comments)" "k \<in> set (triage_comments two_comments)"
    "x \<in> set (triage_comments two_comments)" "co_id x \<noteq> co_id k" "co_finding x = co_finding k"
    by (simp_all add: xk unique_on_def)
  have m: "f \<in> set (findings two_comments)" "fi_id f = co_finding k"
    "fi_triage_comment f = Some (co_comment k)" "fi_triage_updated f = Some (co_created k)"
    by (simp_all add: f xk)
  have t: "trim (co_comment k) = co_comment k" "co_comment k \<noteq> []" by (simp only: xk, code_simp)+
  have d: "delete_finding_triage_comment (co_id k) two_comments =
      (fst (delete_finding_triage_comment 2 two_comments), snd (delete_finding_triage_comment 2 two_comments))"
    by (simp add: xk)
  from deleted_comment_returns [OF k m t d, of "\<lambda>_. None" "\<lambda>_. []" 9] show ?thesis
    unfolding xk by blast
qed

end
