(* ===== verification/Regex.thy ===== *)
theory Regex
  imports Prelude
begin

text \<open>
  The regular expressions of the source. The patterns are literals of the source and are
  written here as values of \<open>re\<close>; the engine that runs them is the \<open>regex\<close> crate, which is
  not part of the repository, so every function that matches takes the engine as its
  argument \<open>rx\<close>: \<open>rx r s i\<close> is the first match of \<open>r\<close> in \<open>s\<close> at or after byte \<open>i\<close>, as the
  spans of its groups, group 0 being the whole match. \<open>regex_engine\<close> states what the crate
  documents and the code relies on; \<open>backtrack\<close>, a leftmost-first backtracking matcher, is an
  engine that satisfies it.
\<close>

subsection \<open>Patterns\<close>

datatype char_class =
    Lit char          \<comment> \<open>a literal\<close>
  | CiLit char        \<comment> \<open>a literal under \<open>(?i)\<close>\<close>
  | AnyChar           \<comment> \<open>\<open>.\<close>, anything but a line feed\<close>
  | Digit             \<comment> \<open>\<open>\d\<close>\<close>
  | Space             \<comment> \<open>\<open>\s\<close>\<close>
  | NonWord           \<comment> \<open>\<open>\W\<close>\<close>
  | NotIn "char list" \<comment> \<open>\<open>[^...]\<close>\<close>
  | OneOf "char list" \<comment> \<open>\<open>[...]\<close>\<close>

datatype re =
    Eps
  | Cl char_class
  | Seq re re
  | Alt re re
  | Star bool re      \<comment> \<open>\<open>r*\<close> when greedy, \<open>r*?\<close> when not\<close>
  | Group nat re
  | WordBoundary      \<comment> \<open>\<open>\b\<close>\<close>
  | TextStart         \<comment> \<open>\<open>^\<close>\<close>
  | LineStart         \<comment> \<open>\<open>^\<close> under \<open>(?m)\<close>\<close>
  | TextEnd           \<comment> \<open>\<open>$\<close>\<close>

definition is_word :: "char \<Rightarrow> bool" where
  "is_word c \<longleftrightarrow> is_alnum c \<or> c = CHR ''_'' \<or> 128 \<le> code c"

fun in_class :: "char_class \<Rightarrow> char \<Rightarrow> bool" where
  "in_class (Lit a) c \<longleftrightarrow> c = a"
| "in_class (CiLit a) c \<longleftrightarrow> lower_char c = lower_char a"
| "in_class AnyChar c \<longleftrightarrow> c \<noteq> newline"
| "in_class Digit c \<longleftrightarrow> is_digit c"
| "in_class Space c \<longleftrightarrow> is_space c"
| "in_class NonWord c \<longleftrightarrow> \<not> is_word c"
| "in_class (NotIn cs) c \<longleftrightarrow> c \<notin> set cs"
| "in_class (OneOf cs) c \<longleftrightarrow> c \<in> set cs"

fun seqs :: "re list \<Rightarrow> re" where
  "seqs [] = Eps"
| "seqs [r] = r"
| "seqs (r # rs) = Seq r (seqs rs)"

fun alts :: "re list \<Rightarrow> re" where
  "alts [] = Eps"
| "alts [r] = r"
| "alts (r # rs) = Alt r (alts rs)"

definition word_ci :: "string \<Rightarrow> re" where
  "word_ci w = seqs (List.map (\<lambda>c. Cl (CiLit c)) w)"

definition word_lit :: "string \<Rightarrow> re" where
  "word_lit w = seqs (List.map (\<lambda>c. Cl (Lit c)) w)"

definition digits1 :: re where
  "digits1 = Seq (Cl Digit) (Star True (Cl Digit))"

definition times :: "nat \<Rightarrow> re \<Rightarrow> re" where
  "times n r = seqs (replicate n r)"

definition optional :: "re \<Rightarrow> re" where
  "optional r = Alt r Eps"

definition lazy_any :: re where
  "lazy_any = Star False (Cl AnyChar)"

subsection \<open>Engines\<close>

type_synonym spans = "(nat \<times> nat \<times> nat) list"
type_synonym engine = "re \<Rightarrow> string \<Rightarrow> nat \<Rightarrow> spans option"

definition substr :: "string \<Rightarrow> nat \<Rightarrow> nat \<Rightarrow> string" where
  "substr s i j = take (j - i) (drop i s)"

definition group_text :: "string \<Rightarrow> spans \<Rightarrow> nat \<Rightarrow> string option" where
  "group_text s cs n = map_option (\<lambda>(i, j). substr s i j) (map_of cs n)"

text \<open>\<open>Regex::captures\<close>, and \<open>Regex::captures_iter\<close>: the successive matches that do not
  overlap. The fuel is the text's length: after a match the search goes on behind it, and
  one byte further behind an empty one.\<close>

definition captures :: "engine \<Rightarrow> re \<Rightarrow> string \<Rightarrow> spans option" where
  "captures rx r s = rx r s 0"

fun matches_from :: "nat \<Rightarrow> engine \<Rightarrow> re \<Rightarrow> string \<Rightarrow> nat \<Rightarrow> spans list" where
  "matches_from 0 rx r s i = []"
| "matches_from (Suc fuel) rx r s i =
     (case rx r s i of
        None \<Rightarrow> []
      | Some cs \<Rightarrow>
          (case map_of cs 0 of
             None \<Rightarrow> []
           | Some (a, b) \<Rightarrow>
               cs # (if length s < b then [] else matches_from fuel rx r s (if a = b then Suc b else b))))"

definition captures_iter :: "engine \<Rightarrow> re \<Rightarrow> string \<Rightarrow> spans list" where
  "captures_iter rx r s = matches_from (Suc (length s)) rx r s 0"

text \<open>\<open>Regex::replace_all\<close> with a replacement computed from the groups of each match.\<close>

fun splice :: "string \<Rightarrow> nat \<Rightarrow> spans list \<Rightarrow> (spans \<Rightarrow> string) \<Rightarrow> string" where
  "splice s i [] rep = drop i s"
| "splice s i (cs # ms) rep =
     (case map_of cs 0 of
        None \<Rightarrow> drop i s
      | Some (a, b) \<Rightarrow> substr s i a @ rep cs @ splice s b ms rep)"

definition replace_all :: "engine \<Rightarrow> re \<Rightarrow> string \<Rightarrow> (spans \<Rightarrow> string) \<Rightarrow> string" where
  "replace_all rx r s rep = splice s 0 (captures_iter rx r s) rep"

subsection \<open>The language of a pattern\<close>

text \<open>\<open>matches r s i j\<close>: the text of \<open>s\<close> between \<open>i\<close> and \<open>j\<close> matches \<open>r\<close> there.\<close>

definition word_at :: "string \<Rightarrow> nat \<Rightarrow> bool" where
  "word_at s i \<longleftrightarrow> i < length s \<and> is_word (s ! i)"

definition boundary :: "string \<Rightarrow> nat \<Rightarrow> bool" where
  "boundary s i \<longleftrightarrow> (0 < i \<and> word_at s (i - 1)) \<noteq> word_at s i"

inductive matches :: "re \<Rightarrow> string \<Rightarrow> nat \<Rightarrow> nat \<Rightarrow> bool" where
  m_eps: "i \<le> length s \<Longrightarrow> matches Eps s i i"
| m_class: "i < length s \<Longrightarrow> in_class c (s ! i) \<Longrightarrow> matches (Cl c) s i (Suc i)"
| m_seq: "matches a s i j \<Longrightarrow> matches b s j k \<Longrightarrow> matches (Seq a b) s i k"
| m_alt1: "matches a s i j \<Longrightarrow> matches (Alt a b) s i j"
| m_alt2: "matches b s i j \<Longrightarrow> matches (Alt a b) s i j"
| m_star0: "i \<le> length s \<Longrightarrow> matches (Star g r) s i i"
| m_star: "matches r s i j \<Longrightarrow> i < j \<Longrightarrow> matches (Star g r) s j k \<Longrightarrow> matches (Star g r) s i k"
| m_group: "matches r s i j \<Longrightarrow> matches (Group n r) s i j"
| m_word: "i \<le> length s \<Longrightarrow> boundary s i \<Longrightarrow> matches WordBoundary s i i"
| m_start: "matches TextStart s 0 0"
| m_line: "i \<le> length s \<Longrightarrow> i = 0 \<or> s ! (i - 1) = newline \<Longrightarrow> matches LineStart s i i"
| m_end: "matches TextEnd s (length s) (length s)"

inductive_cases cl_match: "matches (Cl c) s i j"
inductive_cases seq_match: "matches (Seq a b) s i j"
inductive_cases alt_match: "matches (Alt a b) s i j"
inductive_cases eps_match: "matches Eps s i j"
inductive_simps matches_class_iff: "matches (Cl c) s i j"
inductive_simps matches_seq_iff: "matches (Seq a b) s i j"
inductive_simps matches_alt_iff: "matches (Alt a b) s i j"
inductive_simps matches_group_iff: "matches (Group n r) s i j"

lemma matches_bounds: "matches r s i j \<Longrightarrow> i \<le> j \<and> j \<le> length s"
  by (induction rule: matches.induct) auto

text \<open>The documented promises: a reported match is a match, no match is missed, and no match
  starts earlier than the reported one. Spans of groups lie inside the text.\<close>

locale regex_engine =
  fixes rx :: engine
  assumes sound: "rx r s i = Some cs \<Longrightarrow>
      \<exists>a b. map_of cs 0 = Some (a, b) \<and> i \<le> a \<and> matches r s a b"
    and leftmost: "rx r s i = Some cs \<Longrightarrow> map_of cs 0 = Some (a, b) \<Longrightarrow>
      i \<le> k \<Longrightarrow> matches r s k j \<Longrightarrow> a \<le> k"
    and complete: "rx r s i = None \<Longrightarrow> i \<le> k \<Longrightarrow> \<not> matches r s k j"
    and groups_inside: "rx r s i = Some cs \<Longrightarrow> (n, a, b) \<in> set cs \<Longrightarrow> a \<le> b \<and> b \<le> length s"
begin

lemma found_iff: "(\<exists>cs. rx r s i = Some cs) \<longleftrightarrow> (\<exists>k j. i \<le> k \<and> matches r s k j)"
proof
  show "\<exists>cs. rx r s i = Some cs \<Longrightarrow> \<exists>k j. i \<le> k \<and> matches r s k j"
    using sound by blast
  show "\<exists>k j. i \<le> k \<and> matches r s k j \<Longrightarrow> \<exists>cs. rx r s i = Some cs"
    using complete by (metis option.exhaust)
qed

lemma no_class_no_match:
  assumes "\<And>x. x \<in> set s \<Longrightarrow> \<not> in_class c x"
  shows "rx (Seq (Cl c) r) s i = None"
proof (rule ccontr)
  assume "rx (Seq (Cl c) r) s i \<noteq> None"
  then obtain k j where "matches (Seq (Cl c) r) s k j"
    using found_iff by blast
  then have "k < length s" and "in_class c (s ! k)"
    by (auto simp: matches_seq_iff matches_class_iff)
  with assms show False by (metis nth_mem)
qed

end

subsection \<open>A backtracking engine\<close>

text \<open>\<open>results r s i\<close>: the ends of all matches of \<open>r\<close> from \<open>i\<close> with the groups taken on the
  way, in the order a leftmost-first matcher prefers them.\<close>

function results :: "re \<Rightarrow> string \<Rightarrow> nat \<Rightarrow> (nat \<times> spans) list" where
  "results Eps s i = [(i, [])]"
| "results (Cl c) s i = (if i < length s \<and> in_class c (s ! i) then [(Suc i, [])] else [])"
| "results (Seq a b) s i =
     concat (List.map (\<lambda>(j, cs). List.map (\<lambda>(k, ds). (k, ds @ cs)) (results b s j)) (results a s i))"
| "results (Alt a b) s i = results a s i @ results b s i"
| "results (Star g r) s i =
     (let more = concat (List.map (\<lambda>(j, cs). if i < j \<and> j \<le> length s
                    then List.map (\<lambda>(k, ds). (k, ds @ cs)) (results (Star g r) s j) else [])
                  (results r s i))
      in if g then more @ [(i, [])] else (i, []) # more)"
| "results (Group n r) s i = List.map (\<lambda>(j, cs). (j, (n, i, j) # cs)) (results r s i)"
| "results WordBoundary s i = (if boundary s i then [(i, [])] else [])"
| "results TextStart s i = (if i = 0 then [(i, [])] else [])"
| "results LineStart s i =
     (if i = 0 \<or> i \<le> length s \<and> s ! (i - 1) = newline then [(i, [])] else [])"
| "results TextEnd s i = (if i = length s then [(i, [])] else [])"
  by pat_completeness auto
termination
  by (relation "measures [\<lambda>(r, s, i). size r, \<lambda>(r, s, i). length s - i]") auto

declare results.simps(5) [simp del]

lemma mem_shifted:
  "(k, cs) \<in> set (List.map (\<lambda>(k, ds). (k, ds @ c1)) xs) \<longleftrightarrow>
     (\<exists>c2. (k, c2) \<in> set xs \<and> cs = c2 @ c1)"
  by force

lemma mem_concat_map: "x \<in> set (concat (List.map f xs)) \<longleftrightarrow> (\<exists>j c. (j, c) \<in> set xs \<and> x \<in> set (f (j, c)))"
  by force

lemma mem_guarded: "x \<in> set (if P then xs else []) \<longleftrightarrow> P \<and> x \<in> set xs"
  by simp

definition inside :: "string \<Rightarrow> spans \<Rightarrow> bool" where
  "inside s cs \<longleftrightarrow> (\<forall>n a b. (n, a, b) \<in> set cs \<longrightarrow> a \<le> b \<and> b \<le> length s)"

lemma inside_simps [simp]:
  "inside s []" "inside s (cs @ ds) \<longleftrightarrow> inside s cs \<and> inside s ds"
  "inside s ((n, a, b) # cs) \<longleftrightarrow> a \<le> b \<and> b \<le> length s \<and> inside s cs"
  by (auto simp: inside_def)

lemma mem_star:
  "(k, cs) \<in> set (results (Star g r) s i) \<longleftrightarrow>
     k = i \<and> cs = [] \<or>
     (\<exists>j c1 c2. (j, c1) \<in> set (results r s i) \<and> i < j \<and> j \<le> length s \<and>
        (k, c2) \<in> set (results (Star g r) s j) \<and> cs = c2 @ c1)"
  (is "?l \<longleftrightarrow> _ \<or> ?r")
proof -
  let ?more = "concat (List.map (\<lambda>(j, cs). if i < j \<and> j \<le> length s
      then List.map (\<lambda>(k, ds). (k, ds @ cs)) (results (Star g r) s j) else []) (results r s i))"
  have "(k, cs) \<in> set ?more \<longleftrightarrow> ?r"
    unfolding mem_concat_map prod.case mem_guarded mem_shifted by blast
  moreover have "?l \<longleftrightarrow> k = i \<and> cs = [] \<or> (k, cs) \<in> set ?more"
    unfolding results.simps(5) [of g r s i] Let_def by (cases g) auto
  ultimately show ?thesis by blast
qed

lemma mem_seq:
  "(k, cs) \<in> set (results (Seq a b) s i) \<longleftrightarrow>
     (\<exists>j c1 c2. (j, c1) \<in> set (results a s i) \<and> (k, c2) \<in> set (results b s j) \<and> cs = c2 @ c1)"
  unfolding results.simps(3) mem_concat_map prod.case mem_shifted by blast

fun search :: "re \<Rightarrow> string \<Rightarrow> nat list \<Rightarrow> spans option" where
  "search r s [] = None"
| "search r s (k # ks) =
     (case results r s k of
        [] \<Rightarrow> search r s ks
      | (j, cs) # _ \<Rightarrow> Some ((0, k, j) # cs))"

definition backtrack :: engine where
  "backtrack r s i = search r s [i..<Suc (length s)]"

lemma results_sound:
  "(j, cs) \<in> set (results r s i) \<Longrightarrow> i \<le> length s \<Longrightarrow>
     matches r s i j \<and> inside s cs"
proof (induction r s i arbitrary: j cs rule: results.induct)
  case (3 a b s i)
  then obtain j1 c1 c2 where 1: "(j1, c1) \<in> set (results a s i)" "(j, c2) \<in> set (results b s j1)"
    and cs: "cs = c2 @ c1" by auto
  from "3.IH"(1) [OF 1(1) "3.prems"(2)]
  have m: "matches a s i j1" and g: "inside s c1" by auto
  from "3.IH"(2) [OF 1(1) refl 1(2)] m matches_bounds
  have "matches b s j1 j" "inside s c2" by auto
  with m g show ?case by (auto simp: cs intro: m_seq)
next
  case (5 g r s i)
  from "5.prems"(1) consider (stop) "j = i" "cs = []"
    | (more) j1 c1 c2 where "(j1, c1) \<in> set (results r s i)" "i < j1" "j1 \<le> length s"
        "(j, c2) \<in> set (results (Star g r) s j1)" "cs = c2 @ c1"
    unfolding mem_star [of j cs g r s i] by blast
  then show ?case
  proof cases
    case stop
    with "5.prems"(2) show ?thesis by (auto intro: m_star0)
  next
    case more
    from "5.IH"(1) [OF more(1) "5.prems"(2)]
    have m: "matches r s i j1" and c1: "inside s c1" by auto
    have "i < j1 \<and> j1 \<le> length s" using more by simp
    from "5.IH"(2) [OF more(1) refl this more(4) more(3)]
    have k: "matches (Star g r) s j1 j" and c2: "inside s c2" by auto
    from m_star [OF m more(2) k] c1 c2 show ?thesis unfolding more(5) by auto
  qed
next
  case (6 n r s i)
  then obtain ds where "(j, ds) \<in> set (results r s i)" and cs: "cs = (n, i, j) # ds" by auto
  with "6.IH" "6.prems"(2) have "matches r s i j" "inside s ds" by blast+
  with matches_bounds show ?case by (auto simp: cs intro: m_group)
qed (auto intro: matches.intros split: if_splits)

lemma results_complete: "matches r s i j \<Longrightarrow> \<exists>cs. (j, cs) \<in> set (results r s i)"
proof (induction rule: matches.induct)
  case (m_seq a s i j b k)
  then obtain c1 c2 where "(j, c1) \<in> set (results a s i)" "(k, c2) \<in> set (results b s j)"
    by blast
  then show ?case unfolding mem_seq by blast
next
  case (m_star r s i j g k)
  then obtain c1 c2 where c: "(j, c1) \<in> set (results r s i)" "(k, c2) \<in> set (results (Star g r) s j)"
    by blast
  have "j \<le> length s" using m_star.hyps(1) matches_bounds by blast
  with c \<open>i < j\<close> show ?case by (subst mem_star) blast
next
  case (m_star0 i s g r)
  show ?case by (subst mem_star) blast
qed (auto simp: image_iff Bex_def)

lemma search_Some:
  "search r s ks = Some cs \<Longrightarrow> sorted ks \<Longrightarrow> \<exists>k j ds. cs = (0, k, j) # ds \<and> k \<in> set ks \<and>
     (j, ds) \<in> set (results r s k) \<and> (\<forall>k'\<in>set ks. k' < k \<longrightarrow> results r s k' = [])"
proof (induction ks)
  case (Cons k ks)
  show ?case
  proof (cases "results r s k")
    case Nil
    with Cons.prems Cons.IH obtain k' j ds where "cs = (0, k', j) # ds" "k' \<in> set ks"
      "(j, ds) \<in> set (results r s k')" "\<forall>l\<in>set ks. l < k' \<longrightarrow> results r s l = []"
      by auto
    with Nil show ?thesis by (metis list.set_intros(2) set_ConsD)
  next
    case (Cons p ps)
    obtain j ds where p: "p = (j, ds)" by (cases p)
    with Cons Cons.prems(1) have "cs = (0, k, j) # ds" "(j, ds) \<in> set (results r s k)"
      by simp_all
    moreover have "\<forall>k'\<in>set (k # ks). \<not> k' < k"
      using Cons.prems(2) by auto
    ultimately show ?thesis by fastforce
  qed
qed simp

lemma search_None: "search r s ks = None \<Longrightarrow> k \<in> set ks \<Longrightarrow> results r s k = []"
  by (induction ks) (auto split: list.splits)

interpretation backtrack: regex_engine backtrack
proof
  fix r s i cs
  assume h: "backtrack r s i = Some cs"
  then obtain k j ds where k: "cs = (0, k, j) # ds" "i \<le> k" "k \<le> length s"
    "(j, ds) \<in> set (results r s k)" "\<forall>k'. i \<le> k' \<and> k' < k \<longrightarrow> results r s k' = []"
    using search_Some [of r s "[i..<Suc (length s)]" cs]
    by (auto simp: backtrack_def simp del: upt_Suc)
  show "\<exists>a b. map_of cs 0 = Some (a, b) \<and> i \<le> a \<and> matches r s a b"
    using results_sound [OF k(4,3)] k by auto
  show "a \<le> k'" if "map_of cs 0 = Some (a, b)" "i \<le> k'" "matches r s k' j'" for a b k' j'
    using results_complete [OF that(3)] k(5) that k(1) by (force simp: not_le)
  show "a \<le> b \<and> b \<le> length s" if "(n, a, b) \<in> set cs" for n a b
    using results_sound [OF k(4,3)] matches_bounds that k(1) by (auto simp: inside_def)
next
  fix r s i k j
  assume "backtrack r s i = None" "i \<le> k"
  then show "\<not> matches r s k j"
    using search_None [of r s "[i..<Suc (length s)]" k] results_complete [of r s k j]
      matches_bounds [of r s k j] by (auto simp: backtrack_def simp del: upt_Suc)
qed

end
