(* ===== verification/Subject.thy ===== *)
theory Subject
  imports Regex "HOL-Library.List_Lexorder" "HOL-Library.Char_ord"
begin

text \<open>
  The subject line of a message, as \<open>src/patch.rs\<close> reads it: the part index \<open>M/N\<close>, the
  version \<open>vN\<close>, the tags in brackets, the subject without tags and reply prefixes, and the
  address inside an author line.
\<close>

subsection \<open>Patterns\<close>

text \<open>\<open>(?i)\[.*?\b(?:PATCH|RFC|RESEND|v\d+)\b.*?(\d+)/(\d+).*?\]\<close>\<close>

definition re_index_brackets :: re where
  "re_index_brackets =
     seqs [Cl (Lit CHR ''[''), lazy_any, WordBoundary,
       alts [word_ci ''PATCH'', word_ci ''RFC'', word_ci ''RESEND'',
             Seq (Cl (CiLit CHR ''v'')) digits1],
       WordBoundary, lazy_any, Group 1 digits1, Cl (Lit CHR ''/''), Group 2 digits1, lazy_any,
       Cl (Lit CHR '']'')]"

text \<open>\<open>(?i)\b(?:PATCH|RFC|RESEND)\s+(\d+)/(\d+)\b\<close>\<close>

definition re_index_loose :: re where
  "re_index_loose =
     seqs [WordBoundary, alts [word_ci ''PATCH'', word_ci ''RFC'', word_ci ''RESEND''],
       Cl Space, Star True (Cl Space), Group 1 digits1, Cl (Lit CHR ''/''), Group 2 digits1,
       WordBoundary]"

text \<open>\<open>^\s*(\d+)/(\d+)\b\<close>\<close>

definition re_index_start :: re where
  "re_index_start =
     seqs [TextStart, Star True (Cl Space), Group 1 digits1, Cl (Lit CHR ''/''), Group 2 digits1,
       WordBoundary]"

text \<open>\<open>(?i)(?:\[[^\]]*?\bv(\d+)\b[^\]]*?\]|^\s*v(\d+)\b|PATCH\W*v(\d+)\b)\<close>\<close>

definition re_version :: re where
  "re_version =
     alts [seqs [Cl (Lit CHR ''[''), Star False (Cl (NotIn '']'')), WordBoundary,
             Cl (CiLit CHR ''v''), Group 1 digits1, WordBoundary, Star False (Cl (NotIn '']'')),
             Cl (Lit CHR '']'')],
           seqs [TextStart, Star True (Cl Space), Cl (CiLit CHR ''v''), Group 2 digits1,
             WordBoundary],
           seqs [word_ci ''PATCH'', Star True (Cl NonWord), Cl (CiLit CHR ''v''),
             Group 3 digits1, WordBoundary]]"

text \<open>\<open>\[(.*?)\]\<close> and \<open>\[.*?\]\<close>\<close>

definition re_tag :: re where
  "re_tag = seqs [Cl (Lit CHR ''[''), Group 1 lazy_any, Cl (Lit CHR '']'')]"

definition re_brackets :: re where
  "re_brackets = seqs [Cl (Lit CHR ''[''), lazy_any, Cl (Lit CHR '']'')]"

subsection \<open>Cleaning a subject\<close>

text \<open>The last two prefixes are the UTF-8 bytes of the Chinese word for "reply" with an
  ASCII and a full-width colon.\<close>

definition reply_zh :: string where
  "reply_zh = [CHR 0xE5, CHR 0x9B, CHR 0x9E, CHR 0xE5, CHR 0xA4, CHR 0x8D]"

definition fullwidth_colon :: string where
  "fullwidth_colon = [CHR 0xEF, CHR 0xBC, CHR 0x9A]"

definition reply_prefixes :: "string list" where
  "reply_prefixes =
     [''re:'', ''fwd:'', ''aw:'', ''forwarded:'', reply_zh @ '':'', reply_zh @ fullwidth_colon]"

lemma length_trim: "length (trim s) \<le> length s"
  by (metis length_dropWhile_le length_rev order_trans trim_def trim_end_def trim_start_def)

text \<open>The loop that strips one prefix per round until none is left.\<close>

function strip_replies :: "string \<Rightarrow> string" where
  "strip_replies cleaned =
     (case List.find (\<lambda>p. starts_with (lower cleaned) p) reply_prefixes of
        None \<Rightarrow> cleaned
      | Some p \<Rightarrow>
          if p = [] \<or> length cleaned < length p then cleaned
          else strip_replies (trim (drop (length p) cleaned)))"
  by pat_completeness auto
termination
proof (relation "measure length", goal_cases)
  case (2 cleaned p)
  have "length (trim (drop (length p) cleaned)) \<le> length cleaned - length p"
    by (metis length_drop length_trim)
  moreover have "0 < length p" and "length p \<le> length cleaned" using 2 by auto
  ultimately have "length (trim (drop (length p) cleaned)) < length cleaned" by linarith
  then show ?case by simp
qed simp

declare strip_replies.simps [simp del]

definition clean_subject :: "engine \<Rightarrow> string \<Rightarrow> string" where
  "clean_subject rx subject =
     strip_replies (trim (replace_all rx re_brackets subject (\<lambda>_. [])))"

subsection \<open>Index and version\<close>

definition parse_or_1 :: "string \<Rightarrow> nat" where
  "parse_or_1 s = (case parse_u32 s of Some n \<Rightarrow> n | None \<Rightarrow> 1)"

definition index_of :: "string \<Rightarrow> spans \<Rightarrow> (nat \<times> nat) option" where
  "index_of s cs =
     (case (group_text s cs 1, group_text s cs 2) of
        (Some i, Some t) \<Rightarrow>
          Some (parse_or_1 i, parse_or_1 t)
      | _ \<Rightarrow> None)"

definition index_by :: "engine \<Rightarrow> re \<Rightarrow> string \<Rightarrow> (nat \<times> nat) option" where
  "index_by rx r s = Option.bind (captures rx r s) (index_of s)"

definition parse_subject_index :: "engine \<Rightarrow> string \<Rightarrow> nat \<times> nat" where
  "parse_subject_index rx subject =
     (case index_by rx re_index_brackets subject of
        Some it \<Rightarrow> it
      | None \<Rightarrow>
          (case index_by rx re_index_loose subject of
             Some it \<Rightarrow> it
           | None \<Rightarrow>
               (case index_by rx re_index_start (clean_subject rx subject) of
                  Some it \<Rightarrow> it
                | None \<Rightarrow> (1, 1))))"

definition parse_subject_version :: "engine \<Rightarrow> string \<Rightarrow> nat option" where
  "parse_subject_version rx subject =
     (case captures rx re_version subject of
        None \<Rightarrow> None
      | Some cs \<Rightarrow>
          (case group_text subject cs 1 of
             Some m \<Rightarrow> parse_u32 m
           | None \<Rightarrow>
               (case group_text subject cs 2 of
                  Some m \<Rightarrow> parse_u32 m
                | None \<Rightarrow>
                    (case group_text subject cs 3 of
                       Some m \<Rightarrow> parse_u32 m
                     | None \<Rightarrow> None))))"

subsection \<open>Tags\<close>

definition tag_separator :: "char \<Rightarrow> bool" where
  "tag_separator c \<longleftrightarrow>
     \<not> (is_alnum c \<or> 128 \<le> code c) \<and> c \<noteq> CHR ''-'' \<and> c \<noteq> CHR ''.'' \<and> c \<noteq> CHR ''_''"

definition keep_token :: "string \<Rightarrow> bool" where
  "keep_token token =
     (let lo = lower token in
      if lo = ''patch'' \<or> lo = ''rfc'' \<or> lo = ''resend'' then False
      else if starts_with lo ''v'' \<and> list_all is_digit (drop 1 lo) then False
      else if list_all is_digit token then False
      else True)"

definition tag_tokens :: "string \<Rightarrow> string list" where
  "tag_tokens content =
     filter keep_token (filter (\<lambda>s. s \<noteq> []) (split_on tag_separator content))"

text \<open>\<open>Vec::dedup\<close> drops consecutive repetitions, which is \<open>remdups_adj\<close>.\<close>

definition get_subject_prefixes :: "engine \<Rightarrow> string \<Rightarrow> string list" where
  "get_subject_prefixes rx subject =
     remdups_adj (sort (concat (List.map
       (\<lambda>cs. case group_text subject cs 1 of Some content \<Rightarrow> tag_tokens content | None \<Rightarrow> [])
       (captures_iter rx re_tag subject))))"

subsection \<open>Author lines\<close>

definition extract_email :: "string \<Rightarrow> string" where
  "extract_email author =
     (case (find_char CHR ''<'' author, find_char CHR ''>'' author) of
        (Some start, Some end') \<Rightarrow>
          if start < end' then trim (substr author (start + 1) end') else trim author
      | _ \<Rightarrow> trim author)"

subsection \<open>Properties\<close>

lemma strip_replies_done:
  "p \<in> set reply_prefixes \<Longrightarrow> \<not> starts_with (lower (strip_replies s)) p"
proof (induction s rule: strip_replies.induct)
  case (1 s)
  have nonempty: "q \<noteq> []" if "q \<in> set reply_prefixes" for q
    using that by (auto simp: reply_prefixes_def reply_zh_def)
  show ?case
  proof (cases "List.find (\<lambda>p. starts_with (lower s) p) reply_prefixes")
    case None
    then have "strip_replies s = s" by (subst strip_replies.simps) simp
    with None "1.prems" show ?thesis by (auto simp: find_None_iff)
  next
    case (Some q)
    then have q: "q \<in> set reply_prefixes" "starts_with (lower s) q"
      by (auto simp: find_Some_iff)
    then have "\<not> (q = [] \<or> length s < length q)"
      using nonempty by (auto simp: starts_with_iff) (metis leD le_add1 length_append lower_simps(4))
    with 1 Some show ?thesis
      by (subst strip_replies.simps) simp
  qed
qed

lemma strip_replies_fixed:
  "(\<forall>p\<in>set reply_prefixes. \<not> starts_with (lower s) p) \<Longrightarrow> strip_replies s = s"
proof -
  assume "\<forall>p\<in>set reply_prefixes. \<not> starts_with (lower s) p"
  then have "List.find (\<lambda>p. starts_with (lower s) p) reply_prefixes = None"
    by (auto simp: find_None_iff)
  then show ?thesis by (subst strip_replies.simps) simp
qed

lemma strip_replies_idem: "strip_replies (strip_replies s) = strip_replies s"
  by (intro strip_replies_fixed ballI strip_replies_done)

lemma tag_tokens_kept: "t \<in> set (tag_tokens c) \<Longrightarrow> keep_token t \<and> t \<noteq> []"
  by (auto simp: tag_tokens_def)

lemma sorted_remdups_adj_distinct: "sorted xs \<Longrightarrow> sorted (remdups_adj xs) \<and> distinct (remdups_adj xs)"
  using sorted_remdups_adj sorted_wrt_iff_nth_less
  by (induction xs rule: remdups_adj.induct) (auto, (metis order.antisym remdups_adj_set set_ConsD)?)

lemma parse_or_1_bound: "parse_or_1 s < 2 ^ 32"
  using parse_u32_bound [of s] by (simp add: parse_or_1_def split: option.splits)

lemma index_of_bound: "index_of s cs = Some (i, t) \<Longrightarrow> i < 2 ^ 32 \<and> t < 2 ^ 32"
  using parse_or_1_bound
  by (cases "group_text s cs 1"; cases "group_text s cs 2") (auto simp: index_of_def)

lemma index_by_bound: "index_by rx r s = Some (i, t) \<Longrightarrow> i < 2 ^ 32 \<and> t < 2 ^ 32"
  by (auto simp: index_by_def Option.bind_eq_Some_conv dest: index_of_bound)

lemma parse_subject_index_bound: "parse_subject_index rx s = (i, t) \<Longrightarrow> i < 2 ^ 32 \<and> t < 2 ^ 32"
  by (auto simp: parse_subject_index_def dest: index_by_bound split: option.splits)

lemma strip_replies_trimmed: "trim s = s \<Longrightarrow> trim (strip_replies s) = strip_replies s"
proof (induction s rule: strip_replies.induct)
  case (1 s)
  show ?case
    by (subst (1 2) strip_replies.simps)
      (use 1 in \<open>auto split: option.split\<close>)
qed

text \<open>A cleaned subject begins with none of the reply prefixes, in any letter case, has no white
  space around it, and stripping it again leaves it as it is.\<close>

theorem clean_subject_spec:
  "\<not> list_ex (\<lambda>p. starts_with (lower (clean_subject rx s)) p) reply_prefixes \<and>
   trim (clean_subject rx s) = clean_subject rx s \<and>
   strip_replies (clean_subject rx s) = clean_subject rx s"
  using strip_replies_done
  by (simp add: clean_subject_def strip_replies_idem strip_replies_trimmed list_ex_iff)

text \<open>The tags of a subject come sorted and without repetition, and none of them is a standard
  tag, a version or a number.\<close>

theorem subject_prefixes_spec:
  "sorted (get_subject_prefixes rx s) \<and> distinct (get_subject_prefixes rx s) \<and>
   list_all (\<lambda>t. t \<noteq> [] \<and> lower t \<notin> {''patch'', ''rfc'', ''resend''} \<and>
     \<not> list_all is_digit t \<and> (\<nexists>n. lower t = CHR ''v'' # n \<and> list_all is_digit n))
     (get_subject_prefixes rx s)"
proof -
  have k: "t \<noteq> [] \<and> lower t \<notin> {''patch'', ''rfc'', ''resend''} \<and>
     \<not> list_all is_digit t \<and> (\<nexists>n. lower t = CHR ''v'' # n \<and> list_all is_digit n)"
    if "keep_token t \<and> t \<noteq> []" for t
    using that by (auto simp: keep_token_def Let_def starts_with_def split: if_splits)
  have "\<forall>t\<in>set (get_subject_prefixes rx s). keep_token t \<and> t \<noteq> []"
    by (auto simp: get_subject_prefixes_def tag_tokens_def split: option.splits)
  with k have "list_all (\<lambda>t. t \<noteq> [] \<and> lower t \<notin> {''patch'', ''rfc'', ''resend''} \<and>
     \<not> list_all is_digit t \<and> (\<nexists>n. lower t = CHR ''v'' # n \<and> list_all is_digit n))
     (get_subject_prefixes rx s)" unfolding list_all_iff by blast
  then show ?thesis using sorted_remdups_adj_distinct [OF sorted_sort]
    by (simp add: get_subject_prefixes_def)
qed

end
