(* ===== verification/Patchsets.thy ===== *)
theory Patchsets
  imports Threads Subject
begin

text \<open>
  Patchsets and patches of \<open>src/db.rs\<close>: how an incoming part finds the patchset it belongs
  to (\<open>create_patchset\<close>), how patchsets that turn out to be one series are merged, how a patch
  is stored (\<open>create_patch\<close>), and the status updates of a patchset.
\<close>

subsection \<open>Single-row updates\<close>

definition modify_patchset :: "int \<Rightarrow> (patchset_row \<Rightarrow> patchset_row) \<Rightarrow> db \<Rightarrow> db" where
  "modify_patchset i f d = d\<lparr>patchsets := update_where (\<lambda>p. ps_id p = i) f (patchsets d)\<rparr>"

text \<open>\<open>UPDATE patchsets SET status = 'Incomplete' WHERE id = ? AND status = 'Fetching'\<close>\<close>

definition end_fetching :: "int \<Rightarrow> db \<Rightarrow> db" where
  "end_fetching i d =
     d\<lparr>patchsets := update_where (\<lambda>p. ps_id p = i \<and> ps_status p = fetching)
        (\<lambda>p. p\<lparr>ps_status := ''Incomplete''\<rparr>) (patchsets d)\<rparr>"

text \<open>\<open>... SET status = 'Pending' WHERE id = ? AND received_parts >= total_parts AND status IN
  ('Incomplete', 'Fetching')\<close>\<close>

definition ready :: "patchset_row \<Rightarrow> bool" where
  "ready p \<longleftrightarrow> sql_ge (ps_received p) (ps_total p)
     \<and> (ps_status p = ''Incomplete'' \<or> ps_status p = fetching)"

definition promote :: "int \<Rightarrow> db \<Rightarrow> db" where
  "promote i d =
     d\<lparr>patchsets := update_where (\<lambda>p. ps_id p = i \<and> ready p)
        (\<lambda>p. p\<lparr>ps_status := ''Pending''\<rparr>) (patchsets d)\<rparr>"

text \<open>\<open>... SET received_parts = (SELECT COUNT(*) FROM patches WHERE patchset_id = ?)\<close>\<close>

definition recount :: "int \<Rightarrow> db \<Rightarrow> db" where
  "recount i d = modify_patchset i (\<lambda>p. p\<lparr>ps_received := Some (parts_of i (patches d))\<rparr>) d"

definition index_collision :: "int \<Rightarrow> nat \<Rightarrow> string \<Rightarrow> db \<Rightarrow> bool" where
  "index_collision i part message_id d \<longleftrightarrow>
     (\<exists>p\<in>set (patches d). pa_patchset p = i \<and> pa_part p = part \<and> pa_message_id p \<noteq> message_id)"

subsection \<open>Finding the patchset by its cover letter\<close>

record PatchsetArgs =
  a_thread :: int
  a_cover :: "string option"
  a_message_id :: string
  a_subject :: string
  a_author :: string
  a_date :: int
  a_total :: nat
  a_parser_version :: int
  a_to :: string
  a_cc :: string
  a_version :: "nat option"
  a_part :: nat
  a_baseline :: "int option"
  a_strict_author :: bool
  a_skip :: "string list option"
  a_only :: "string list option"

definition or_else :: "'a option \<Rightarrow> 'a \<Rightarrow> 'a" where
  "or_else m x = (case m of Some y \<Rightarrow> y | None \<Rightarrow> x)"

definition versions_compatible :: "engine \<Rightarrow> nat option \<Rightarrow> string \<Rightarrow> bool" where
  "versions_compatible rx version existing_subject \<longleftrightarrow>
     or_else version 1 = or_else (parse_subject_version rx existing_subject) 1"

definition clid_candidates :: "PatchsetArgs \<Rightarrow> string list" where
  "clid_candidates a =
     (case a_cover a of Some clid \<Rightarrow> [clid] | None \<Rightarrow> []) @ [a_message_id a @ ''@sashiko.local'']"

definition clid_accepts :: "engine \<Rightarrow> PatchsetArgs \<Rightarrow> db \<Rightarrow> patchset_row \<Rightarrow> bool" where
  "clid_accepts rx a d p =
     (let is_placeholder = ps_subject p = placeholder \<or> ps_status p = fetching;
          collision = (if a_part a = 0 then False
                       else index_collision (ps_id p) (a_part a) (a_message_id a) d)
      in \<not> (collision \<or> \<not> is_placeholder \<and> \<not> versions_compatible rx (a_version a) (ps_subject p)))"

definition find_by_cover :: "engine \<Rightarrow> PatchsetArgs \<Rightarrow> db \<Rightarrow> patchset_row option" where
  "find_by_cover rx a d =
     first (filter (clid_accepts rx a d)
       (concat (List.map (\<lambda>clid. filter (\<lambda>p. ps_cover p = Some clid) (patchsets d))
          (clid_candidates a))))"

text \<open>A singleton does not shrink the series that was inferred before it.\<close>

definition final_total :: "PatchsetArgs \<Rightarrow> patchset_row \<Rightarrow> nat" where
  "final_total a p =
     (let existing_total = or_else (ps_total p) 1
      in if a_total a = 1 \<and> 1 < existing_total then existing_total else a_total a)"

definition update_by_cover :: "PatchsetArgs \<Rightarrow> patchset_row \<Rightarrow> db \<Rightarrow> db" where
  "update_by_cover a p d =
     (let i = ps_id p;
          d1 = modify_patchset i (\<lambda>q. q\<lparr>ps_thread := a_thread a, ps_author := Some (a_author a),
                 ps_total := Some (final_total a p), ps_parser_version := a_parser_version a,
                 ps_to := Some (a_to a), ps_cc := Some (a_cc a)\<rparr>) d;
          d2 = (case a_cover a of
                  Some clid \<Rightarrow> modify_patchset i (\<lambda>q. q\<lparr>ps_cover := Some clid\<rparr>) d1 | None \<Rightarrow> d1);
          d3 = (case a_baseline a of
                  Some bid \<Rightarrow> modify_patchset i (\<lambda>q. q\<lparr>ps_baseline := Some bid\<rparr>) d2 | None \<Rightarrow> d2);
          d4 = (if a_part a < ps_subject_index p
                then modify_patchset i
                       (\<lambda>q. q\<lparr>ps_subject := a_subject a, ps_subject_index := a_part a\<rparr>) d3
                else d3)
      in promote i (end_fetching i d4))"

subsection \<open>Matching against the patchsets of the thread and of the author\<close>

definition in_window :: "PatchsetArgs \<Rightarrow> patchset_row \<Rightarrow> bool" where
  "in_window a p \<longleftrightarrow> ps_thread p = a_thread a \<or>
     (ps_author p = Some (a_author a) \<and> a_date a - 86400 \<le> ps_date p \<and> ps_date p \<le> a_date a + 86400)"

definition candidates :: "PatchsetArgs \<Rightarrow> db \<Rightarrow> patchset_row list" where
  "candidates a d = filter (in_window a) (patchsets d)"

text \<open>\<open>s.split('-').next()\<close>\<close>

definition dash_prefix :: "string \<Rightarrow> string" where
  "dash_prefix s = takeWhile (\<lambda>c. c \<noteq> CHR ''-'') s"

definition is_duplicate :: "PatchsetArgs \<Rightarrow> db \<Rightarrow> patchset_row \<Rightarrow> bool" where
  "is_duplicate a d p \<longleftrightarrow> ps_cover p = Some (a_message_id a) \<or>
     (\<exists>q\<in>set (patches d). pa_patchset q = ps_id p \<and> pa_message_id q = a_message_id a)"

definition already_full :: "PatchsetArgs \<Rightarrow> db \<Rightarrow> patchset_row \<Rightarrow> bool" where
  "already_full a d p \<longleftrightarrow>
     or_else (ps_total p) 1 \<le> or_else (ps_received p) 0 \<and> \<not> is_duplicate a d p \<and> a_part a \<noteq> 0"

definition part_collision :: "PatchsetArgs \<Rightarrow> db \<Rightarrow> patchset_row \<Rightarrow> bool" where
  "part_collision a d p =
     (if a_part a = 0
      then ps_cover p \<noteq> None \<and> ps_cover p \<noteq> Some (a_message_id a) \<and> ps_subject_index p = 0
      else index_collision (ps_id p) (a_part a) (a_message_id a) d)"

definition msgid_prefix_match :: "PatchsetArgs \<Rightarrow> db \<Rightarrow> patchset_row \<Rightarrow> bool" where
  "msgid_prefix_match a d p =
     (let existing = (case ps_cover p of
            Some cover_id \<Rightarrow> Some (dash_prefix cover_id)
          | None \<Rightarrow> map_option (\<lambda>q. dash_prefix (pa_message_id q))
                      (first (filter (\<lambda>q. pa_patchset q = ps_id p) (patches d))));
          new = dash_prefix (a_message_id a)
      in existing = Some new \<and> 10 < length new)"

definition subject_match :: "engine \<Rightarrow> PatchsetArgs \<Rightarrow> patchset_row \<Rightarrow> bool" where
  "subject_match rx a p =
     (let same_clean = (clean_subject rx (a_subject a) = clean_subject rx (ps_subject p))
      in if a_total a = 1
         then if a_subject a = ps_subject p then True
              else if (a_part a = 0 \<and> ps_subject_index p = 1) \<or>
                      (a_part a = 1 \<and> ps_subject_index p = 0) then True
              else same_clean
         else if a_part a = ps_subject_index p then same_clean
              else True)"

definition author_or_series_match :: "PatchsetArgs \<Rightarrow> patchset_row \<Rightarrow> string \<Rightarrow> bool" where
  "author_or_series_match a p existing_author =
     (let existing_total = or_else (ps_total p) 1;
          author_match = (extract_email existing_author = extract_email (a_author a));
          series_match = (1 < a_total a \<and> a_total a = existing_total) \<or> existing_total = 1
                         \<or> a_total a = 1
      in if a_strict_author a then author_match else author_match \<or> series_match)"

definition prefix_match :: "engine \<Rightarrow> PatchsetArgs \<Rightarrow> patchset_row \<Rightarrow> bool" where
  "prefix_match rx a p \<longleftrightarrow> ps_thread p = a_thread a \<or>
     get_subject_prefixes rx (a_subject a) = get_subject_prefixes rx (ps_subject p)"

definition row_matches :: "engine \<Rightarrow> PatchsetArgs \<Rightarrow> db \<Rightarrow> patchset_row \<Rightarrow> string \<Rightarrow> bool" where
  "row_matches rx a d p existing_author =
     (let existing_total = or_else (ps_total p) 1;
          same_thread = ps_thread p = a_thread a;
          thread_compatible = same_thread \<or> a_total a = 1 \<or> msgid_prefix_match a d p
      in \<not> already_full a d p
         \<and> author_or_series_match a p existing_author
         \<and> (\<not> a_strict_author a \<or> \<bar>a_date a - ps_date p\<bar> < 86400)
         \<and> (versions_compatible rx (a_version a) (ps_subject p) \<or> same_thread)
         \<and> (a_total a = existing_total \<or> existing_total = 1 \<or> a_total a = 1)
         \<and> subject_match rx a p
         \<and> prefix_match rx a p
         \<and> thread_compatible
         \<and> \<not> part_collision a d p)"

text \<open>The loop over the candidate rows. The author is read as a \<open>String\<close>, so a row without
  one ends the whole call with an error.\<close>

fun collect_matches ::
  "engine \<Rightarrow> PatchsetArgs \<Rightarrow> db \<Rightarrow> patchset_row list \<Rightarrow> db_error + (int \<times> nat) list" where
  "collect_matches rx a d [] = Inr []"
| "collect_matches rx a d (p # ps) =
     (case ps_author p of
        None \<Rightarrow> Inl NullValue
      | Some existing_author \<Rightarrow>
          res_bind (collect_matches rx a d ps) (\<lambda>ms.
            Inr (if row_matches rx a d p existing_author
                 then (ps_id p, ps_subject_index p) # ms else ms)))"

subsection \<open>Merging\<close>

definition merge_patchset :: "int \<Rightarrow> int \<Rightarrow> db \<Rightarrow> db" where
  "merge_patchset target_id merge_from_id d =
     d\<lparr>patches := update_where (\<lambda>p. pa_patchset p = merge_from_id)
                    (\<lambda>p. p\<lparr>pa_patchset := target_id\<rparr>) (patches d),
       reviews := update_where (\<lambda>r. rv_patchset r = merge_from_id)
                    (\<lambda>r. r\<lparr>rv_patchset := target_id\<rparr>) (reviews d),
       patchsets_subsystems :=
         delete_where (\<lambda>(p, _). p = merge_from_id)
           (fold insert_link
              (List.map (\<lambda>(_, s). (target_id, s))
                 (filter (\<lambda>(p, _). p = merge_from_id) (patchsets_subsystems d)))
              (patchsets_subsystems d)),
       patchsets := delete_where (\<lambda>p. ps_id p = merge_from_id) (patchsets d)\<rparr>"

fun merge_all :: "int \<Rightarrow> nat \<Rightarrow> (int \<times> nat) list \<Rightarrow> db \<Rightarrow> nat \<times> db" where
  "merge_all target_id current_subject_index [] d = (current_subject_index, d)"
| "merge_all target_id current_subject_index ((merge_from_id, merge_subject_index) # ms) d =
     merge_all target_id
       (if merge_subject_index < current_subject_index then merge_subject_index
        else current_subject_index)
       ms (merge_patchset target_id merge_from_id d)"

definition coalesce :: "'a option \<Rightarrow> 'a option \<Rightarrow> 'a option" where
  "coalesce a b = (case a of Some x \<Rightarrow> Some x | None \<Rightarrow> b)"

definition update_target :: "PatchsetArgs \<Rightarrow> nat \<Rightarrow> int \<Rightarrow> db \<Rightarrow> db" where
  "update_target a current_subject_index i d =
     (let d1 = modify_patchset i (\<lambda>q. q\<lparr>ps_author := Some (a_author a),
                 ps_total := Some (a_total a), ps_parser_version := a_parser_version a,
                 ps_to := Some (a_to a), ps_cc := Some (a_cc a)\<rparr>) d;
          d2 = (if a_skip a \<noteq> None \<or> a_only a \<noteq> None
                then modify_patchset i (\<lambda>q. q\<lparr>ps_skip := coalesce (a_skip a) (ps_skip q),
                       ps_only := coalesce (a_only a) (ps_only q)\<rparr>) d1
                else d1);
          d3 = (case a_baseline a of
                  Some bid \<Rightarrow> modify_patchset i (\<lambda>q. q\<lparr>ps_baseline := Some bid\<rparr>) d2 | None \<Rightarrow> d2);
          d4 = (if a_part a < current_subject_index
                then modify_patchset i
                       (\<lambda>q. q\<lparr>ps_subject := a_subject a, ps_subject_index := a_part a\<rparr>) d3
                else d3);
          d5 = (case a_cover a of
                  Some clid \<Rightarrow> modify_patchset i (\<lambda>q. q\<lparr>ps_cover := Some clid\<rparr>) d4 | None \<Rightarrow> d4)
      in promote i (end_fetching i (recount i d5)))"

subsection \<open>Creating a patchset\<close>

definition insert_patchset :: "PatchsetArgs \<Rightarrow> db \<Rightarrow> int \<times> db" where
  "insert_patchset a d =
     (let i = next_id (List.map ps_id (patchsets d))
      in (i, d\<lparr>patchsets := patchsets d @
            [\<lparr>ps_id = i, ps_thread = a_thread a, ps_cover = a_cover a, ps_subject = a_subject a,
              ps_author = Some (a_author a), ps_date = a_date a, ps_status = ''Incomplete'',
              ps_total = Some (a_total a), ps_received = Some 0,
              ps_subject_index = a_part a, ps_parser_version = a_parser_version a,
              ps_to = Some (a_to a), ps_cc = Some (a_cc a), ps_baseline = a_baseline a,
              ps_model = None, ps_prompts = None, ps_baseline_logs = None,
              ps_failed_reason = None, ps_skip = a_skip a, ps_only = a_only a,
              ps_target_reviews = Some 1, ps_provider = None, ps_embargo = None\<rparr>]\<rparr>))"

definition merge_matches :: "PatchsetArgs \<Rightarrow> (int \<times> nat) list \<Rightarrow> db \<Rightarrow> int \<times> db" where
  "merge_matches a ms d =
     (case sort_key fst ms of
        [] \<Rightarrow> insert_patchset a d
      | (target_id, index) # rest \<Rightarrow>
          (let (current, d') = merge_all target_id index rest d
           in (target_id, update_target a current target_id d')))"

definition create_patchset ::
  "engine \<Rightarrow> PatchsetArgs \<Rightarrow> db \<Rightarrow> (db_error + int option) \<times> db" where
  "create_patchset rx a d =
     (case find_by_cover rx a d of
        Some p \<Rightarrow> (Inr (Some (ps_id p)), update_by_cover a p d)
      | None \<Rightarrow>
          (case collect_matches rx a d (candidates a d) of
             Inl e \<Rightarrow> (Inl e, d)
           | Inr ms \<Rightarrow> (let (i, d') = merge_matches a ms d in (Inr (Some i), d'))))"

subsection \<open>Storing a patch\<close>

definition upsert_patch :: "int \<Rightarrow> string \<Rightarrow> nat \<Rightarrow> string \<Rightarrow> patch_row list \<Rightarrow> patch_row list" where
  "upsert_patch patchset_id message_id part df rows =
     (if \<exists>r\<in>set rows. pa_message_id r = message_id
      then update_where (\<lambda>r. pa_message_id r = message_id)
             (\<lambda>r. r\<lparr>pa_patchset := patchset_id, pa_part := part, pa_diff := df\<rparr>) rows
      else rows @ [\<lparr>pa_id = next_id (List.map pa_id rows), pa_patchset = patchset_id,
             pa_message_id = message_id, pa_part = part, pa_diff = df, pa_status = None,
             pa_apply_error = None\<rparr>])"

definition create_patch ::
  "int \<Rightarrow> string \<Rightarrow> nat \<Rightarrow> string \<Rightarrow> db \<Rightarrow> (db_error + int) \<times> db" where
  "create_patch patchset_id message_id part df d =
     (if index_collision patchset_id part message_id d
      then (Inl (IndexCollision patchset_id part), d)
      else
        (let old_patchset_id = map_option pa_patchset
               (first (filter (\<lambda>p. pa_message_id p = message_id) (patches d)));
             d1 = d\<lparr>patches := upsert_patch patchset_id message_id part df (patches d)\<rparr>;
             d2 = recount patchset_id d1;
             d3 = (case old_patchset_id of
                     Some old_id \<Rightarrow> if old_id \<noteq> patchset_id then recount old_id d2 else d2
                   | None \<Rightarrow> d2);
             d4 = promote patchset_id d3
         in case first (filter (\<lambda>p. pa_message_id p = message_id) (patches d4)) of
              Some p \<Rightarrow> (Inr (pa_id p), d4)
            | None \<Rightarrow> (Inl (Missing message_id), d4)))"

end
