(* ===== verification/Patchsets_Inv.thy ===== *)
theory Patchsets_Inv
  imports Patchsets Threads_Inv
begin

text \<open>
  Properties of \<open>create_patchset\<close> and \<open>create_patch\<close>: the store invariants, the received-parts
  count, the promotion of complete patchsets, and what a merge does to the merged rows.
\<close>

subsection \<open>Updates of patchset rows\<close>

definition core_inv :: "db \<Rightarrow> bool" where
  "core_inv d \<longleftrightarrow> keys_inv d \<and> refs_inv d"

text \<open>The received-parts invariant with exceptions, for the states in the middle of an
  operation.\<close>

definition parts_but :: "int set \<Rightarrow> db \<Rightarrow> bool" where
  "parts_but E d \<longleftrightarrow> (\<forall>p\<in>set (patchsets d). ps_id p \<notin> E \<longrightarrow>
     received_count p = parts_of (ps_id p) (patches d))"

lemma store_inv_core: "store_inv d \<longleftrightarrow> core_inv d \<and> parts_but {} d"
  by (simp add: store_inv_def core_inv_def parts_inv_def parts_but_def)

definition row_refs_ok :: "db \<Rightarrow> patchset_row \<Rightarrow> bool" where
  "row_refs_ok d p \<longleftrightarrow> ps_thread p \<in> ids th_id (threads d) \<and>
     (\<forall>c. ps_cover p = Some c \<longrightarrow> c \<in> ids me_message_id (messages d)) \<and>
     (\<forall>b. ps_baseline p = Some b \<longrightarrow> b \<in> ids bl_id (baselines d))"

lemma row_refs_okI: "core_inv d \<Longrightarrow> p \<in> set (patchsets d) \<Longrightarrow> row_refs_ok d p"
  by (auto simp: core_inv_def refs_inv_def row_refs_ok_def fk_def fk_opt_def)

lemma core_update_rows:
  assumes "core_inv d" and "\<And>p. ps_id (f p) = ps_id p"
    and "\<And>p. p \<in> set (patchsets d) \<Longrightarrow> P p \<Longrightarrow> row_refs_ok d p \<Longrightarrow> row_refs_ok d (f p)"
  shows "core_inv (d\<lparr>patchsets := update_where P f (patchsets d)\<rparr>)"
proof -
  have "row_refs_ok d (f p)" if "p \<in> set (patchsets d)" "P p" for p
    using assms that row_refs_okI by blast
  then have "fk ps_thread (update_where P f (patchsets d)) (ids th_id (threads d))"
    "fk_opt ps_cover (update_where P f (patchsets d)) (ids me_message_id (messages d))"
    "fk_opt ps_baseline (update_where P f (patchsets d)) (ids bl_id (baselines d))"
    using assms(1) unfolding core_inv_def refs_inv_def
    by (auto intro!: fk_update simp: row_refs_ok_def)
  with assms(1,2) show ?thesis
    by (simp add: core_inv_def keys_inv_def refs_inv_def keys_ok_update)
qed

lemma core_modify:
  assumes "core_inv d" and "\<And>p. ps_id (f p) = ps_id p"
    and "\<And>p. row_refs_ok d p \<Longrightarrow> row_refs_ok d (f p)"
  shows "core_inv (modify_patchset i f d)"
  unfolding modify_patchset_def using assms by (intro core_update_rows) auto

lemma parts_modify:
  assumes "\<And>p. ps_id (f p) = ps_id p" and "\<And>p. ps_received (f p) = ps_received p"
  shows "parts_but E (modify_patchset i f d) \<longleftrightarrow> parts_but E d"
  using assms by (auto simp: parts_but_def modify_patchset_def ball_update_where received_count_def)

lemma modify_frame [simp]:
  "ids ps_id (patchsets (modify_patchset i f d)) = ids ps_id (patchsets d)"
  if "\<And>p. ps_id (f p) = ps_id p"
  using that by (simp add: modify_patchset_def)

lemma modify_other [simp]:
  "threads (modify_patchset i f d) = threads d" "messages (modify_patchset i f d) = messages d"
  "baselines (modify_patchset i f d) = baselines d" "patches (modify_patchset i f d) = patches d"
  "row_refs_ok (modify_patchset i f d) = row_refs_ok d"
  by (simp_all add: modify_patchset_def row_refs_ok_def fun_eq_iff)

lemma recount_other [simp]:
  "threads (recount i d) = threads d" "messages (recount i d) = messages d"
  "baselines (recount i d) = baselines d" "patches (recount i d) = patches d"
  "ids ps_id (patchsets (recount i d)) = ids ps_id (patchsets d)"
  by (simp_all add: recount_def)

lemma promote_other [simp]:
  "patches (promote i d) = patches d" "patches (end_fetching i d) = patches d"
  "messages (promote i d) = messages d" "messages (end_fetching i d) = messages d"
  "ids ps_id (patchsets (promote i d)) = ids ps_id (patchsets d)"
  "ids ps_id (patchsets (end_fetching i d)) = ids ps_id (patchsets d)"
  by (simp_all add: promote_def end_fetching_def)

lemma core_recount: "core_inv d \<Longrightarrow> core_inv (recount i d)"
  unfolding recount_def by (rule core_modify) (auto simp: row_refs_ok_def)

lemma core_promote: "core_inv d \<Longrightarrow> core_inv (promote i d)"
  unfolding promote_def by (rule core_update_rows) (auto simp: row_refs_ok_def)

lemma core_end_fetching: "core_inv d \<Longrightarrow> core_inv (end_fetching i d)"
  unfolding end_fetching_def by (rule core_update_rows) (auto simp: row_refs_ok_def)

lemma parts_promote [simp]: "parts_but E (promote i d) \<longleftrightarrow> parts_but E d"
  by (auto simp: promote_def parts_but_def ball_update_where received_count_def)

lemma parts_end_fetching [simp]: "parts_but E (end_fetching i d) \<longleftrightarrow> parts_but E d"
  by (auto simp: end_fetching_def parts_but_def ball_update_where received_count_def)

lemma parts_recount: "parts_but E d \<Longrightarrow> parts_but (E - {i}) (recount i d)"
  by (auto simp: recount_def modify_patchset_def parts_but_def ball_update_where received_count_def)

lemmas status_step_inv = core_promote core_end_fetching core_recount

subsection \<open>The update of a patchset found by its cover letter\<close>

definition args_ok :: "PatchsetArgs \<Rightarrow> db \<Rightarrow> bool" where
  "args_ok a d \<longleftrightarrow> a_thread a \<in> ids th_id (threads d) \<and>
     (\<forall>c. a_cover a = Some c \<longrightarrow> c \<in> ids me_message_id (messages d)) \<and>
     (\<forall>b. a_baseline a = Some b \<longrightarrow> b \<in> ids bl_id (baselines d))"

lemma update_by_cover_inv:
  assumes "store_inv d" and "args_ok a d"
  shows "store_inv (update_by_cover a p d)"
    and "ids ps_id (patchsets (update_by_cover a p d)) = ids ps_id (patchsets d)"
proof -
  have c: "core_inv d" and q: "parts_but {} d" using assms(1) by (auto simp: store_inv_core)
  have "core_inv (update_by_cover a p d)"
    unfolding update_by_cover_def Let_def
    using c assms(2)
    by (intro status_step_inv)
       (auto split: option.split intro!: core_modify simp: row_refs_ok_def args_ok_def)
  moreover have "parts_but {} (update_by_cover a p d)"
    unfolding update_by_cover_def Let_def using q
    by (auto split: option.split simp: parts_modify)
  ultimately show "store_inv (update_by_cover a p d)" by (simp add: store_inv_core)
  show "ids ps_id (patchsets (update_by_cover a p d)) = ids ps_id (patchsets d)"
    by (simp add: update_by_cover_def Let_def split: option.split)
qed

lemma find_by_cover_in: "find_by_cover rx a d = Some p \<Longrightarrow> p \<in> set (patchsets d)"
  by (auto simp: find_by_cover_def dest!: first_filter_Some)

subsection \<open>Merging\<close>

lemma set_fold_insert_link [simp]: "set (fold insert_link ps xs) = set ps \<union> set xs"
  by (induction ps arbitrary: xs) auto

lemma distinct_fold_insert_link [simp]: "distinct (fold insert_link ps xs) = distinct xs"
  by (induction ps arbitrary: xs) auto

lemma merge_patchset_core:
  assumes c: "core_inv d" and t: "target \<in> ids ps_id (patchsets d)" and ne: "target \<noteq> from"
  shows "core_inv (merge_patchset target from d)"
proof -
  let ?d = "merge_patchset target from d"
  let ?keep = "ids ps_id (delete_where (\<lambda>p. ps_id p = from) (patchsets d))"
  have keys: "keys_inv ?d"
    using c unfolding merge_patchset_def core_inv_def keys_inv_def
    by (simp add: keys_ok_update keys_ok_delete unique_on_update distinct_delete)
  have moved: "fk pa_patchset (update_where (\<lambda>p. pa_patchset p = from)
      (pa_patchset_update (\<lambda>_. target)) (patches d)) ?keep"
    "fk rv_patchset (update_where (\<lambda>r. rv_patchset r = from)
      (rv_patchset_update (\<lambda>_. target)) (reviews d)) ?keep"
    using c t ne by (auto simp: core_inv_def refs_inv_def intro!: fk_moved)
  have links: "fk fst (patchsets_subsystems ?d) ?keep"
    "fk snd (patchsets_subsystems ?d) (ids su_id (subsystems d))"
    using c t ne by (auto simp: merge_patchset_def core_inv_def refs_inv_def fk_def ids_delete)
  have dels: "fk ps_thread (delete_where (\<lambda>p. ps_id p = from) (patchsets d)) (ids th_id (threads d))"
    "fk_opt ps_cover (delete_where (\<lambda>p. ps_id p = from) (patchsets d)) (ids me_message_id (messages d))"
    "fk_opt ps_baseline (delete_where (\<lambda>p. ps_id p = from) (patchsets d)) (ids bl_id (baselines d))"
    using c by (auto simp: core_inv_def refs_inv_def intro: fk_delete)
  have "refs_inv ?d"
    using c moved dels links unfolding merge_patchset_def core_inv_def refs_inv_def by simp
  with keys show ?thesis by (simp add: core_inv_def)
qed

lemma parts_of_update:
  "parts_of i (update_where (\<lambda>p. pa_patchset p = from) (pa_patchset_update (\<lambda>_. target)) ps) =
     (if i = target \<and> i \<noteq> from then parts_of target ps + parts_of from ps
      else if i = from \<and> i \<noteq> target then 0 else parts_of i ps)"
  by (induction ps) (auto simp: parts_of_def count_where_def update_where_def filter_empty_conv)

lemma merge_patchset_parts:
  assumes "parts_but E d" and "target \<in> E" and "target \<noteq> from"
  shows "parts_but E (merge_patchset target from d)"
  using assms by (auto simp: parts_but_def merge_patchset_def parts_of_update)

lemma merge_patchset_frame [simp]:
  "ids ps_id (patchsets (merge_patchset t f d)) = ids ps_id (patchsets d) - {f}"
  "threads (merge_patchset t f d) = threads d" "messages (merge_patchset t f d) = messages d"
  "baselines (merge_patchset t f d) = baselines d"
  by (simp_all add: merge_patchset_def ids_delete)

lemma merge_all_inv:
  assumes "core_inv d" "parts_but {t} d" "t \<in> ids ps_id (patchsets d)" "t \<notin> fst ` set ms"
    and "merge_all t c ms d = (c', d')"
  shows "core_inv d' \<and> parts_but {t} d' \<and> t \<in> ids ps_id (patchsets d') \<and> threads d' = threads d
    \<and> messages d' = messages d \<and> baselines d' = baselines d"
  using assms
proof (induction t c ms d arbitrary: c' d' rule: merge_all.induct)
  case (2 t c f m ms d)
  let ?d = "merge_patchset t f d"
  from "2.prems" have ne: "t \<noteq> f" and "t \<notin> fst ` set ms" by auto
  moreover have "core_inv ?d" "parts_but {t} ?d" "t \<in> ids ps_id (patchsets ?d)"
    using "2.prems" ne by (auto intro: merge_patchset_core merge_patchset_parts)
  moreover have "merge_all t (if m < c then m else c) ms ?d = (c', d')"
    using "2.prems"(5) by simp
  ultimately show ?case using "2.IH" by simp
qed simp

lemma update_target_inv:
  assumes "core_inv d" and "parts_but {i} d" and "args_ok a d"
  shows "store_inv (update_target a c i d)"
    and "ids ps_id (patchsets (update_target a c i d)) = ids ps_id (patchsets d)"
proof -
  have "core_inv (update_target a c i d)"
    unfolding update_target_def Let_def using assms(1,3)
    by (intro status_step_inv)
       (auto split: option.split intro!: core_modify simp: row_refs_ok_def args_ok_def)
  moreover have "parts_but {} (update_target a c i d)"
  proof -
    have "parts_but {i} (modify_patchset i f e)" if "parts_but {i} e"
      "\<And>p. ps_id (f p) = ps_id p" "\<And>p. ps_received (f p) = ps_received p" for f e
      using that by (simp add: parts_modify)
    then have "parts_but ({i} - {i}) (update_target a c i d)"
      unfolding update_target_def Let_def parts_promote parts_end_fetching using assms(2)
      by (intro parts_recount) (auto split: option.split simp: parts_modify)
    then show ?thesis by simp
  qed
  ultimately show "store_inv (update_target a c i d)" by (simp add: store_inv_core)
  show "ids ps_id (patchsets (update_target a c i d)) = ids ps_id (patchsets d)"
    by (simp add: update_target_def Let_def split: option.split)
qed

subsection \<open>The candidates\<close>

lemma collect_matches_ids:
  "collect_matches rx a d ps = Inr ms \<Longrightarrow>
     set (List.map fst ms) \<subseteq> ps_id ` set ps \<and> (distinct (List.map ps_id ps) \<longrightarrow> distinct (List.map fst ms))"
proof (induction ps arbitrary: ms)
  case (Cons p ps)
  then obtain au ms' where "ps_author p = Some au" "collect_matches rx a d ps = Inr ms'"
    "ms = (if row_matches rx a d p au then (ps_id p, ps_subject_index p) # ms' else ms')"
    by (auto simp: res_bind_Inr split: option.splits)
  with Cons.IH [of ms'] show ?case by (auto split: if_splits)
qed simp

lemma candidates_sub: "set (candidates a d) \<subseteq> set (patchsets d)"
  by (auto simp: candidates_def)

lemma candidates_distinct: "keys_inv d \<Longrightarrow> distinct (List.map ps_id (candidates a d))"
  by (auto simp: candidates_def keys_inv_def keys_ok_def distinct_map_filter)

lemma append_patchset_inv:
  assumes inv: "store_inv d" and i: "ps_id p = next_id (List.map ps_id (patchsets d))"
    and p: "row_refs_ok d p" "received_count p = 0"
  shows "store_inv (d\<lparr>patchsets := patchsets d @ [p]\<rparr>)"
proof -
  have "ps_id p \<notin> ids ps_id (patchsets d)"
    using i next_id_fresh [of "List.map ps_id (patchsets d)"] by (simp add: ids_def)
  then have none: "parts_of (ps_id p) (patches d) = 0"
    using inv by (auto simp: inv_defs fk_def parts_of_def count_where_zero)
  have "keys_inv (d\<lparr>patchsets := patchsets d @ [p]\<rparr>)"
    using inv i by (simp add: store_inv_def keys_inv_def keys_ok_insert)
  moreover have "refs_inv (d\<lparr>patchsets := patchsets d @ [p]\<rparr>)"
    using inv p by (simp add: store_inv_def refs_inv_def row_refs_ok_def fk_insertI)
  moreover have "parts_inv (d\<lparr>patchsets := patchsets d @ [p]\<rparr>)"
    using inv p none by (simp add: store_inv_def parts_inv_def)
  ultimately show ?thesis by (simp add: store_inv_def)
qed

lemma insert_patchset_inv:
  assumes "store_inv d" "args_ok a d" "insert_patchset a d = (i, d')"
  shows "store_inv d' \<and> i \<in> ids ps_id (patchsets d')"
proof -
  obtain p where p: "d' = d\<lparr>patchsets := patchsets d @ [p]\<rparr>" "ps_id p = i"
    "ps_id p = next_id (List.map ps_id (patchsets d))" "row_refs_ok d p" "received_count p = 0"
    using assms(2,3)
    by (auto simp: insert_patchset_def Let_def args_ok_def row_refs_ok_def received_count_def)
  with append_patchset_inv [OF assms(1) p(3-5)] show ?thesis by simp
qed

lemma merge_matches_inv:
  assumes inv: "store_inv d" "args_ok a d" and ms: "set (List.map fst ms) \<subseteq> ids ps_id (patchsets d)"
    "distinct (List.map fst ms)" and m: "merge_matches a ms d = (i, d')"
  shows "store_inv d' \<and> i \<in> ids ps_id (patchsets d')"
proof (cases "sort_key fst ms")
  case Nil
  with inv m show ?thesis by (auto simp: merge_matches_def dest: insert_patchset_inv)
next
  case (Cons q rest)
  obtain t c where q: "q = (t, c)" by (cases q)
  have "distinct (List.map fst (sort_key fst ms))"
    using ms(2) by (simp add: distinct_map)
  with Cons q have t: "t \<notin> fst ` set rest" by simp
  have "t \<in> fst ` set ms"
    using Cons q by (metis fst_conv image_eqI list.set_intros(1) set_sort)
  with ms(1) have in_ids: "t \<in> ids ps_id (patchsets d)" by auto
  obtain c' d1 where d1: "merge_all t c rest d = (c', d1)" by fastforce
  have "core_inv d" "parts_but {t} d"
    using inv(1) by (auto simp: store_inv_core parts_but_def)
  from merge_all_inv [OF this in_ids t d1] have 1: "core_inv d1" "parts_but {t} d1"
    "t \<in> ids ps_id (patchsets d1)" "args_ok a d1"
    using inv(2) by (auto simp: args_ok_def)
  have "i = t" "d' = update_target a c' t d1"
    using m Cons q d1 by (auto simp: merge_matches_def)
  with update_target_inv [OF 1(1,2,4)] 1(3) show ?thesis by simp
qed

lemma create_patchset_inv:
  assumes inv: "store_inv d" "args_ok a d" and c: "create_patchset rx a d = (r, d')"
  shows "store_inv d' \<and> (\<forall>i. r = Inr (Some i) \<longrightarrow> i \<in> ids ps_id (patchsets d')) \<and> r \<noteq> Inr None"
proof (cases "find_by_cover rx a d")
  case (Some p)
  with c update_by_cover_inv [OF inv, of p] find_by_cover_in [OF Some] show ?thesis
    by (auto simp: create_patchset_def intro: ids_memI)
next
  case None
  show ?thesis
  proof (cases "collect_matches rx a d (candidates a d)")
    case (Inl e)
    with c None inv show ?thesis by (auto simp: create_patchset_def)
  next
    case (Inr ms)
    obtain i d1 where m: "merge_matches a ms d = (i, d1)" by fastforce
    have "set (List.map fst ms) \<subseteq> ids ps_id (patchsets d)"
      using collect_matches_ids [OF Inr] image_mono [OF candidates_sub [of a d], of ps_id]
      unfolding ids_def by blast
    moreover have "distinct (List.map fst ms)"
      using collect_matches_ids [OF Inr] candidates_distinct [of d a] inv(1)
      by (simp add: store_inv_def)
    ultimately show ?thesis
      using merge_matches_inv [OF inv _ _ m] c None Inr m
      by (auto simp: create_patchset_def)
  qed
qed

subsection \<open>Storing a patch\<close>

lemma upsert_patch_keys:
  assumes "keys_ok pa_id rows" "unique_on pa_message_id rows"
  shows "keys_ok pa_id (upsert_patch i m k df rows) \<and> unique_on pa_message_id (upsert_patch i m k df rows)"
  using assms
  by (auto simp: upsert_patch_def keys_ok_update unique_on_update
      intro!: keys_ok_insert unique_on_insert)

lemma upsert_patch_found:
  assumes "unique_on pa_message_id rows"
  shows "\<exists>p. first (filter (\<lambda>p. pa_message_id p = m) (upsert_patch i m k df rows)) = Some p
    \<and> pa_patchset p = i \<and> pa_part p = k \<and> pa_diff p = df"
proof (cases "\<exists>r\<in>set rows. pa_message_id r = m")
  case True
  then obtain r where "r \<in> set rows" "pa_message_id r = m" by blast
  with assms first_unique [of pa_message_id rows r]
  have r: "first (filter (\<lambda>p. pa_message_id p = m) rows) = Some r" by simp
  with True show ?thesis
    by (simp add: upsert_patch_def filter_update_same)
next
  case False
  then have "filter (\<lambda>p. pa_message_id p = m) rows = []" by (auto simp: filter_empty_conv)
  with False show ?thesis by (auto simp: upsert_patch_def)
qed

lemma upsert_patch_ids:
  "ids pa_id rows \<subseteq> ids pa_id (upsert_patch i m k df rows)"
  "fk pa_patchset rows K \<Longrightarrow> i \<in> K \<Longrightarrow> fk pa_patchset (upsert_patch i m k df rows) K"
  "fk pa_message_id rows L \<Longrightarrow> m \<in> L \<Longrightarrow> fk pa_message_id (upsert_patch i m k df rows) L"
  by (auto simp: upsert_patch_def intro: fk_update)

lemma parts_of_upsert:
  assumes "unique_on pa_message_id rows" "j \<noteq> i"
    and "\<And>r. r \<in> set rows \<Longrightarrow> pa_message_id r = m \<Longrightarrow> pa_patchset r \<noteq> j"
  shows "parts_of j (upsert_patch i m k df rows) = parts_of j rows"
  using assms(2,3)
  by (auto simp: upsert_patch_def parts_of_def count_update_where intro!: count_where_cong)

lemma core_upsert_patch:
  assumes c: "core_inv d" and i: "i \<in> ids ps_id (patchsets d)" "m \<in> ids me_message_id (messages d)"
  shows "core_inv (d\<lparr>patches := upsert_patch i m k df (patches d)\<rparr>)"
proof -
  have 1: "keys_ok pa_id (patches d)" "unique_on pa_message_id (patches d)"
    "fk pa_patchset (patches d) (ids ps_id (patchsets d))"
    "fk pa_message_id (patches d) (ids me_message_id (messages d))"
    using c by (simp_all add: core_inv_def keys_inv_def refs_inv_def)
  note u = upsert_patch_keys [OF 1(1,2)] upsert_patch_ids(1) [of "patches d"]
    upsert_patch_ids(2) [OF 1(3) i(1)] upsert_patch_ids(3) [OF 1(4) i(2)]
  have "keys_inv (d\<lparr>patches := upsert_patch i m k df (patches d)\<rparr>)"
    using c u(1) by (simp add: core_inv_def keys_inv_def)
  moreover have "fk_opt rv_patch (reviews d) (ids pa_id (upsert_patch i m k df (patches d)))"
    "fk fst (patches_subsystems d) (ids pa_id (upsert_patch i m k df (patches d)))"
    "fk eo_patch (outbox d) (ids pa_id (upsert_patch i m k df (patches d)))"
    using c by (simp_all add: core_inv_def refs_inv_def fk_mono [OF _ upsert_patch_ids(1)])
  then have "refs_inv (d\<lparr>patches := upsert_patch i m k df (patches d)\<rparr>)"
    using c u by (simp add: core_inv_def refs_inv_def)
  ultimately show ?thesis by (simp add: core_inv_def)
qed

lemma create_patch_inv:
  assumes inv: "store_inv d" and i: "i \<in> ids ps_id (patchsets d)" "m \<in> ids me_message_id (messages d)"
    and c: "create_patch i m k df d = (r, d')"
  shows "store_inv d' \<and> ids ps_id (patchsets d') = ids ps_id (patchsets d) \<and>
    (index_collision i k m d \<longrightarrow> r = Inl (IndexCollision i k) \<and> d' = d) \<and>
    (\<not> index_collision i k m d \<longrightarrow> (\<exists>p\<in>set (patches d'). r = Inr (pa_id p) \<and>
       pa_message_id p = m \<and> pa_patchset p = i \<and> pa_part p = k \<and> pa_diff p = df))"
proof (cases "index_collision i k m d")
  case True
  with c inv show ?thesis by (simp add: create_patch_def)
next
  case False
  let ?old = "map_option pa_patchset (first (filter (\<lambda>p. pa_message_id p = m) (patches d)))"
  let ?d1 = "d\<lparr>patches := upsert_patch i m k df (patches d)\<rparr>"
  let ?d2 = "recount i ?d1"
  let ?d3 = "case ?old of Some old_id \<Rightarrow> if old_id \<noteq> i then recount old_id ?d2 else ?d2 | None \<Rightarrow> ?d2"
  let ?E = "{i} \<union> (case ?old of Some old_id \<Rightarrow> {old_id} | None \<Rightarrow> {})"
  have u: "unique_on pa_message_id (patches d)" and q: "parts_but {} d" and core: "core_inv d"
    using inv by (simp_all add: store_inv_core core_inv_def keys_inv_def)
  have moved: "pa_patchset r \<in> ?E" if "r \<in> set (patches d)" "pa_message_id r = m" for r
    using first_unique [OF u that(1)] that(2) by simp
  have p1: "parts_but ?E ?d1"
    using q parts_of_upsert [OF u, of _ i m k df] moved by (fastforce simp: parts_but_def)
  have "parts_but {} ?d3"
  proof (cases ?old)
    case None
    with parts_recount [OF p1, of i] show ?thesis unfolding None option.case by simp
  next
    case (Some old)
    with p1 have p2: "parts_but {i, old} ?d1" by (auto simp: insert_commute)
    show ?thesis
    proof (cases "old = i")
      case True
      with parts_recount [OF p2, of i] show ?thesis unfolding Some option.case by simp
    next
      case False
      then have "{i, old} - {i} = {old}" by auto
      with parts_recount [OF p2, of i] have "parts_but {old} ?d2" by simp
      from parts_recount [OF this, of old] False show ?thesis unfolding Some option.case by simp
    qed
  qed
  moreover have "core_inv ?d3"
    using core_upsert_patch [OF core i, of k df] by (auto split: option.split intro: core_recount)
  ultimately have inv': "store_inv (promote i ?d3)"
    by (simp add: store_inv_core core_promote)
  have pt: "patches (promote i ?d3) = upsert_patch i m k df (patches d)"
    by (simp split: option.split)
  obtain p where p: "first (filter (\<lambda>p. pa_message_id p = m) (upsert_patch i m k df (patches d))) = Some p"
    "pa_patchset p = i" "pa_part p = k" "pa_diff p = df"
    using upsert_patch_found [OF u] by blast
  have r: "r = Inr (pa_id p)" "d' = promote i ?d3"
    using c False p(1) pt by (simp_all add: create_patch_def Let_def split: option.splits)
  have ids: "ids ps_id (patchsets d') = ids ps_id (patchsets d)"
    unfolding r(2) by (simp split: option.split)
  have "p \<in> set (patches d')" "pa_message_id p = m"
    using first_filter_Some [OF p(1)] pt r(2) by simp_all
  with inv' ids False p r show ?thesis by blast
qed

subsection \<open>A small store for examples\<close>

text \<open>One thread with the message \<open>ab\<close> in it, and then the patchset of that message.\<close>

definition sample_thread :: db where
  "sample_thread = snd (ensure_thread_for_message ''ab'' 100 empty_db)"

definition sample_args :: PatchsetArgs where
  "sample_args = \<lparr>a_thread = 1, a_cover = Some ''ab'', a_message_id = ''ab'',
     a_subject = ''[PATCH v2] mm: fix'', a_author = ''A <a@b>'', a_date = 100, a_total = 1,
     a_parser_version = 2, a_to = [], a_cc = [], a_version = Some 2, a_part = 1,
     a_baseline = None, a_strict_author = True, a_skip = None, a_only = None\<rparr>"

definition sample_patchset :: db where
  "sample_patchset = snd (create_patchset backtrack sample_args sample_thread)"

lemma sample_thread_inv: "store_inv sample_thread"
proof -
  have "ensure_thread_for_message ''ab'' 100 empty_db =
      (fst (ensure_thread_for_message ''ab'' 100 empty_db), sample_thread)"
    by (simp add: sample_thread_def)
  from ensure_thread_spec [OF this store_inv_empty] show ?thesis by simp
qed

lemma sample_ids:
  "ids th_id (threads sample_thread) = {1}" "ids me_message_id (messages sample_thread) = {''ab''}"
  by (simp_all add: ids_def, code_simp+)

lemma sample_args_ok: "args_ok sample_args sample_thread"
  by (simp add: args_ok_def sample_ids sample_args_def)

lemma sample_patchset_inv: "store_inv sample_patchset"
proof -
  have "create_patchset backtrack sample_args sample_thread =
      (fst (create_patchset backtrack sample_args sample_thread), sample_patchset)"
    by (simp add: sample_patchset_def)
  from create_patchset_inv [OF sample_thread_inv sample_args_ok this] show ?thesis by simp
qed

lemma sample_patchset_rows:
  "List.map (\<lambda>p. (ps_id p, ps_cover p, ps_status p)) (patchsets sample_patchset) =
     [(1, Some ''ab'', ''Incomplete'')]"
  by code_simp

end
