(* ===== verification/Outbox.thy ===== *)
theory Outbox
  imports Store
begin

text \<open>
  The e-mail outbox: the queue of \<open>src/db.rs\<close> (\<open>insert_email_outbox\<close> to
  \<open>sweep_ghost_emails\<close>) and the worker of \<open>src/worker/email.rs\<close> that drains it.
\<close>

subsection \<open>Queue operations\<close>

record Email =
  em_to :: string
  em_cc :: string
  em_subject :: string
  em_in_reply_to :: string
  em_references :: string
  em_body :: string

text \<open>One entry per patch: a second insert for the patch is skipped.\<close>

definition insert_email_outbox :: "int \<Rightarrow> string \<Rightarrow> Email \<Rightarrow> int \<Rightarrow> db \<Rightarrow> db" where
  "insert_email_outbox patch_id status e now d =
     (if \<exists>r\<in>set (outbox d). eo_patch r = patch_id then d
      else d\<lparr>outbox := outbox d @
        [\<lparr>eo_id = next_id (List.map eo_id (outbox d)), eo_patch = patch_id, eo_status = status,
          eo_to = em_to e, eo_cc = em_cc e, eo_subject = em_subject e,
          eo_in_reply_to = em_in_reply_to e, eo_references = em_references e,
          eo_body = em_body e, eo_locked = None, eo_error = None, eo_created = now\<rparr>]\<rparr>)"

definition modify_email :: "int \<Rightarrow> (outbox_row \<Rightarrow> outbox_row) \<Rightarrow> db \<Rightarrow> db" where
  "modify_email i f d = d\<lparr>outbox := update_where (\<lambda>r. eo_id r = i) f (outbox d)\<rparr>"

text \<open>The row that is returned is the updated one.\<close>

definition lock_pending_email :: "int \<Rightarrow> db \<Rightarrow> outbox_row option \<times> db" where
  "lock_pending_email now d =
     (case first (filter (\<lambda>r. eo_status r = ''Pending'') (outbox d)) of
        None \<Rightarrow> (None, d)
      | Some r \<Rightarrow>
          (Some (r\<lparr>eo_status := ''Sending'', eo_locked := Some now\<rparr>),
           modify_email (eo_id r)
             (\<lambda>r. r\<lparr>eo_status := ''Sending'', eo_locked := Some now\<rparr>) d))"

definition mark_email_sent :: "int \<Rightarrow> db \<Rightarrow> db" where
  "mark_email_sent i d = modify_email i (\<lambda>r. r\<lparr>eo_status := ''Sent'', eo_locked := None\<rparr>) d"

definition mark_email_failed :: "int \<Rightarrow> string \<Rightarrow> db \<Rightarrow> db" where
  "mark_email_failed i error_log d =
     modify_email i
       (\<lambda>r. r\<lparr>eo_status := ''Failed'', eo_error := Some error_log, eo_locked := None\<rparr>) d"

definition ghost :: "int \<Rightarrow> outbox_row \<Rightarrow> bool" where
  "ghost now r \<longleftrightarrow> eo_status r = ''Sending'' \<and>
     (case eo_locked r of Some t \<Rightarrow> t < now - 600 | None \<Rightarrow> False)"

definition sweep_ghost_emails :: "int \<Rightarrow> db \<Rightarrow> nat \<times> db" where
  "sweep_ghost_emails now d =
     (count_where (ghost now) (outbox d),
      d\<lparr>outbox := update_where (ghost now)
         (\<lambda>r. r\<lparr>eo_status := ''Pending'', eo_locked := None\<rparr>) (outbox d)\<rparr>)"

subsection \<open>The worker\<close>

record SmtpSettings =
  smtp_server :: string
  smtp_port :: nat
  smtp_username :: "string option"
  smtp_password :: "string option"
  smtp_sender_address :: string
  smtp_reply_to :: "string option"
  smtp_dry_run :: bool

record Mail =
  mail_from :: string
  mail_reply_to :: "string option"
  mail_to :: "string list"
  mail_cc :: "string list"
  mail_subject :: string
  mail_in_reply_to :: "string option"
  mail_references :: "string option"
  mail_body :: string

definition angle :: "string \<Rightarrow> string option" where
  "angle s = (if s = [] then None else Some (''<'' @ s @ ''>''))"

text \<open>\<open>send_email\<close> up to the transport: the addresses of a row are JSON arrays of strings
  (\<open>from_str\<close>), an address that does not parse (\<open>parse_addr\<close>) is left out, a sender that does
  not parse is an error. \<open>Inr None\<close> is the dry run, which sends nothing.\<close>

definition keep_addresses :: "(string \<Rightarrow> string option) \<Rightarrow> string list \<Rightarrow> string list" where
  "keep_addresses parse_addr xs = List.map_filter parse_addr xs"

definition compose_email ::
  "(string \<Rightarrow> string option) \<Rightarrow> (string \<Rightarrow> string list option) \<Rightarrow> SmtpSettings \<Rightarrow> outbox_row \<Rightarrow>
   string + Mail option" where
  "compose_email parse_addr from_str settings row =
     (if smtp_dry_run settings then Inr None
      else case parse_addr (smtp_sender_address settings) of
        None \<Rightarrow> Inl ''sender address''
      | Some from_addr \<Rightarrow>
          (case from_str (eo_to row) of
             None \<Rightarrow> Inl ''to addresses''
           | Some tos \<Rightarrow>
               (case from_str (eo_cc row) of
                  None \<Rightarrow> Inl ''cc addresses''
                | Some ccs \<Rightarrow>
                    Inr (Some \<lparr>mail_from = from_addr,
                      mail_reply_to = Option.bind (smtp_reply_to settings) parse_addr,
                      mail_to = keep_addresses parse_addr tos,
                      mail_cc = keep_addresses parse_addr ccs,
                      mail_subject = eo_subject row,
                      mail_in_reply_to = angle (eo_in_reply_to row),
                      mail_references = angle (eo_references row),
                      mail_body = eo_body row\<rparr>))))"

text \<open>\<open>transport\<close> builds the message and hands it to the SMTP server.\<close>

definition send_email ::
  "(string \<Rightarrow> string option) \<Rightarrow> (string \<Rightarrow> string list option) \<Rightarrow> (Mail \<Rightarrow> string + unit) \<Rightarrow>
   SmtpSettings \<Rightarrow> outbox_row \<Rightarrow> string + unit" where
  "send_email parse_addr from_str transport settings row =
     res_bind (compose_email parse_addr from_str settings row)
       (\<lambda>m. case m of None \<Rightarrow> Inr () | Some mail \<Rightarrow> transport mail)"

text \<open>One turn of \<open>run\<close>: sweep, lock, send, mark. The second component of the state lists the
  ids the worker has tried to send, the latest first.\<close>

definition email_round ::
  "(int \<Rightarrow> 'd \<Rightarrow> nat \<times> 'd) \<Rightarrow> (int \<Rightarrow> 'd \<Rightarrow> outbox_row option \<times> 'd) \<Rightarrow> (int \<Rightarrow> 'd \<Rightarrow> 'd) \<Rightarrow>
   (int \<Rightarrow> string \<Rightarrow> 'd \<Rightarrow> 'd) \<Rightarrow> (outbox_row \<Rightarrow> string + unit) \<Rightarrow> int \<Rightarrow> 'd \<times> int list \<Rightarrow>
   'd \<times> int list" where
  "email_round sweep lock sent failed send now st =
     (let (d, tried) = st;
          d1 = snd (sweep now d)
      in case lock now d1 of
           (None, d2) \<Rightarrow> (d2, tried)
         | (Some email, d2) \<Rightarrow>
             (case send email of
                Inr () \<Rightarrow> (sent (eo_id email) d2, eo_id email # tried)
              | Inl e \<Rightarrow> (failed (eo_id email) e d2, eo_id email # tried)))"

definition worker_round ::
  "(outbox_row \<Rightarrow> string + unit) \<Rightarrow> int \<Rightarrow> db \<times> int list \<Rightarrow> db \<times> int list" where
  "worker_round send = email_round sweep_ghost_emails lock_pending_email mark_email_sent
     mark_email_failed send"

text \<open>The loop of \<open>run\<close>, one clock reading per turn.\<close>

definition run_worker ::
  "(outbox_row \<Rightarrow> string + unit) \<Rightarrow> int list \<Rightarrow> db \<times> int list \<Rightarrow> db \<times> int list" where
  "run_worker send clocks st = fold (worker_round send) clocks st"

subsection \<open>The contract of the queue\<close>

text \<open>\<open>status\<close> is the status of the entry with a given id. What a worker relies on: \<open>lock\<close>
  hands out a pending entry and marks it as being sent, \<open>sent\<close> and \<open>failed\<close> end an entry,
  \<open>sweep\<close> touches nothing but entries that are being sent.\<close>

locale email_queue =
  fixes inv :: "'d \<Rightarrow> bool"
    and status :: "'d \<Rightarrow> int \<Rightarrow> string option"
    and sweep :: "int \<Rightarrow> 'd \<Rightarrow> nat \<times> 'd"
    and lock :: "int \<Rightarrow> 'd \<Rightarrow> outbox_row option \<times> 'd"
    and sent :: "int \<Rightarrow> 'd \<Rightarrow> 'd"
    and failed :: "int \<Rightarrow> string \<Rightarrow> 'd \<Rightarrow> 'd"
  assumes inv_sweep: "inv d \<Longrightarrow> inv (snd (sweep now d))"
    and inv_lock: "inv d \<Longrightarrow> inv (snd (lock now d))"
    and inv_sent: "inv d \<Longrightarrow> inv (sent i d)"
    and inv_failed: "inv d \<Longrightarrow> inv (failed i e d)"
    and sweep_status: "inv d \<Longrightarrow> status (snd (sweep now d)) i = status d i \<or> status d i = Some ''Sending''"
    and lock_some: "inv d \<Longrightarrow> lock now d = (Some email, d') \<Longrightarrow>
      status d (eo_id email) = Some ''Pending'' \<and> status d' = (status d)(eo_id email \<mapsto> ''Sending'')"
    and lock_none: "inv d \<Longrightarrow> lock now d = (None, d') \<Longrightarrow>
      d' = d \<and> (\<forall>i. status d i \<noteq> Some ''Pending'')"
    and sent_status: "inv d \<Longrightarrow> status d i \<noteq> None \<Longrightarrow> status (sent i d) = (status d)(i \<mapsto> ''Sent'')"
    and failed_status: "inv d \<Longrightarrow> status d i \<noteq> None \<Longrightarrow>
      status (failed i e d) = (status d)(i \<mapsto> ''Failed'')"
begin

lemma round_quiet:
  assumes "inv d" "\<forall>i. status d i \<noteq> Some ''Sending''"
    and tried: "distinct tried" "\<forall>i\<in>set tried. status d i = Some ''Sent'' \<or> status d i = Some ''Failed''"
    and r: "email_round sweep lock sent failed send now (d, tried) = (d', tried')"
  shows "inv d' \<and> (\<forall>i. status d' i \<noteq> Some ''Sending'') \<and> distinct tried' \<and>
    (\<forall>i\<in>set tried'. status d' i = Some ''Sent'' \<or> status d' i = Some ''Failed'') \<and>
    (({i. status d i = Some ''Pending''} = {} \<and> {i. status d' i = Some ''Pending''} = {}) \<or>
     (\<exists>i. status d i = Some ''Pending'' \<and>
       {i. status d' i = Some ''Pending''} = {i. status d i = Some ''Pending''} - {i}))"
proof -
  let ?d1 = "snd (sweep now d)"
  have i1: "inv ?d1" using assms(1) by (rule inv_sweep)
  have s1: "status ?d1 = status d"
    using assms(2) sweep_status [OF assms(1)] by (auto simp: fun_eq_iff)
  obtain m d2 where l: "lock now ?d1 = (m, d2)" by fastforce
  show ?thesis
  proof (cases m)
    case None
    with l lock_none [OF i1] have "d2 = ?d1" "\<forall>i. status ?d1 i \<noteq> Some ''Pending''" by auto
    with None l r assms(2) tried i1 s1 show ?thesis by (auto simp: email_round_def)
  next
    case (Some email)
    let ?i = "eo_id email"
    note lk = lock_some [OF i1 l [unfolded Some]]
    have i2: "inv d2" using inv_lock [OF i1, of now] l by simp
    have fresh: "?i \<notin> set tried" using lk s1 tried(2) by force
    have r': "(case send email of
        Inr () \<Rightarrow> (sent ?i d2, ?i # tried)
      | Inl e \<Rightarrow> (failed ?i e d2, ?i # tried)) = (d', tried')"
      using r by (simp add: email_round_def l Some)
    have tr: "tried' = ?i # tried"
      using r' by (cases "send email") (simp_all add: case_unit_Unity)
    have d': "d' = sent ?i d2 \<or> (\<exists>e. d' = failed ?i e d2)"
      using r' by (cases "send email") (auto simp: case_unit_Unity)
    from lk have n2: "status d2 ?i \<noteq> None" by simp
    have iv: "inv d'" using d' inv_sent [OF i2] inv_failed [OF i2] by metis
    obtain w where w: "w = ''Sent'' \<or> w = ''Failed''" "status d' = (status d2)(?i \<mapsto> w)"
      using d' sent_status [OF i2 n2] failed_status [OF i2 n2] by metis
    have q: "status d' = (status d)(?i \<mapsto> w)" using lk s1 w(2) by simp
    show ?thesis
    proof (intro conjI)
      show "\<forall>i. status d' i \<noteq> Some ''Sending''" using q w(1) assms(2) by (auto split: if_splits)
      show "distinct tried'" using tr fresh tried(1) by simp
      show "\<forall>i\<in>set tried'. status d' i = Some ''Sent'' \<or> status d' i = Some ''Failed''"
        using tr q w(1) tried(2) by auto
      have "{i. status d' i = Some ''Pending''} = {i. status d i = Some ''Pending''} - {?i}"
        using q w(1) by auto
      then show "({i. status d i = Some ''Pending''} = {} \<and> {i. status d' i = Some ''Pending''} = {}) \<or>
          (\<exists>i. status d i = Some ''Pending'' \<and>
            {i. status d' i = Some ''Pending''} = {i. status d i = Some ''Pending''} - {i})"
        using lk s1 by auto
    qed (rule iv)
  qed
qed

lemma run_quiet:
  assumes "inv d" "\<forall>i. status d i \<noteq> Some ''Sending''"
    and "distinct tried" "\<forall>i\<in>set tried. status d i = Some ''Sent'' \<or> status d i = Some ''Failed''"
    and "fold (email_round sweep lock sent failed send) clocks (d, tried) = (d', tried')"
  shows "distinct tried' \<and> (\<forall>i\<in>set tried'. status d' i = Some ''Sent'' \<or> status d' i = Some ''Failed'')"
  using assms
proof (induction clocks arbitrary: d tried)
  case (Cons now clocks)
  obtain d1 t1 where r: "email_round sweep lock sent failed send now (d, tried) = (d1, t1)"
    by fastforce
  from round_quiet [OF Cons.prems(1-4) r] Cons.IH [of d1 t1] Cons.prems(5) r show ?case by simp
qed simp

lemma run_drains:
  assumes "inv d" "\<forall>i. status d i \<noteq> Some ''Sending''"
    and "distinct tried" "\<forall>i\<in>set tried. status d i = Some ''Sent'' \<or> status d i = Some ''Failed''"
    and "finite {i. status d i = Some ''Pending''}"
    and "card {i. status d i = Some ''Pending''} \<le> length clocks"
    and "fold (email_round sweep lock sent failed send) clocks (d, tried) = (d', tried')"
  shows "{i. status d' i = Some ''Pending''} = {}"
  using assms
proof (induction clocks arbitrary: d tried)
  case (Cons now clocks)
  obtain d1 t1 where r: "email_round sweep lock sent failed send now (d, tried) = (d1, t1)"
    by fastforce
  note q = round_quiet [OF Cons.prems(1-4) r]
  have "finite {i. status d1 i = Some ''Pending''}"
    using q Cons.prems(5) by auto
  moreover have "card {i. status d1 i = Some ''Pending''} \<le> length clocks"
    using q Cons.prems(5,6) card_Diff_singleton [of _ "{i. status d i = Some ''Pending''}"]
    by (elim conjE disjE exE) auto
  ultimately show ?case using Cons.IH [of d1 t1] q Cons.prems(7) r by simp
qed simp

end

subsection \<open>The store as a queue\<close>

definition email_status :: "db \<Rightarrow> int \<Rightarrow> string option" where
  "email_status d i = map_option eo_status (first (filter (\<lambda>r. eo_id r = i) (outbox d)))"

lemma filter_update_key:
  assumes "\<And>r. k (f r) = k r"
  shows "filter (\<lambda>r. k r = j) (update_where P f rows) =
    List.map (\<lambda>r. if P r then f r else r) (filter (\<lambda>r. k r = j) rows)"
  by (induction rows) (auto simp: update_where_def assms)

lemma email_status_update:
  assumes "\<And>r. eo_id (f r) = eo_id r"
  shows "email_status (d\<lparr>outbox := update_where P f (outbox d)\<rparr>) j =
    map_option (\<lambda>r. eo_status (if P r then f r else r))
      (first (filter (\<lambda>r. eo_id r = j) (outbox d)))"
  by (simp add: email_status_def filter_update_key [where k = eo_id, OF assms] first_map option.map_comp comp_def)

lemma email_status_modify:
  assumes "\<And>r. eo_id (f r) = eo_id r" "\<And>r. eo_status (f r) = s" "email_status d i \<noteq> None"
  shows "email_status (modify_email i f d) = (email_status d)(i \<mapsto> s)"
proof
  fix j
  show "email_status (modify_email i f d) j = ((email_status d)(i \<mapsto> s)) j"
  proof (cases "first (filter (\<lambda>r. eo_id r = j) (outbox d))")
    case None
    with assms(3) have "j \<noteq> i" by (auto simp: email_status_def)
    with None show ?thesis
      unfolding modify_email_def email_status_update [where f = f, OF assms(1)] by (simp add: email_status_def)
  next
    case (Some r)
    then have "eo_id r = j" using first_filter_Some by fastforce
    with Some show ?thesis
      unfolding modify_email_def email_status_update [where f = f, OF assms(1)]
      by (simp add: email_status_def assms(2))
  qed
qed

lemma first_key:
  assumes "distinct (List.map k rows)" "r \<in> set rows"
  shows "first (filter (\<lambda>x. k x = k r) rows) = Some r"
  using assms by (induction rows) (auto simp: rev_image_eqI)

definition email_ids_ok :: "db \<Rightarrow> bool" where
  "email_ids_ok d \<longleftrightarrow> distinct (List.map eo_id (outbox d))"

lemma email_ids_ok_update:
  "(\<And>r. eo_id (f r) = eo_id r) \<Longrightarrow>
   email_ids_ok (d\<lparr>outbox := update_where P f (outbox d)\<rparr>) = email_ids_ok d"
  by (simp add: email_ids_ok_def map_update_where)

lemma email_status_lookup:
  "email_ids_ok d \<Longrightarrow> r \<in> set (outbox d) \<Longrightarrow> email_status d (eo_id r) = Some (eo_status r)"
  by (simp add: email_status_def email_ids_ok_def first_key)

lemma email_status_Some_iff:
  assumes "email_ids_ok d"
  shows "email_status d i = Some s \<longleftrightarrow> (\<exists>r\<in>set (outbox d). eo_id r = i \<and> eo_status r = s)"
  using email_status_lookup [OF assms]
  by (force simp: email_status_def dest!: first_filter_Some)

lemma finite_pending:
  assumes "email_ids_ok d" shows "finite {i. email_status d i = Some s}"
  by (rule finite_subset [of _ "eo_id ` set (outbox d)"])
     (auto simp: email_status_Some_iff [OF assms])

interpretation outbox_queue: email_queue email_ids_ok email_status sweep_ghost_emails
  lock_pending_email mark_email_sent mark_email_failed
proof
  fix d now i e
  assume ok: "email_ids_ok d"
  show "email_ids_ok (snd (sweep_ghost_emails now d))"
    using ok by (simp add: sweep_ghost_emails_def email_ids_ok_update)
  show "email_ids_ok (snd (lock_pending_email now d))"
    using ok by (simp add: lock_pending_email_def modify_email_def email_ids_ok_update split: option.split)
  show "email_ids_ok (mark_email_sent i d)" "email_ids_ok (mark_email_failed i e d)"
    using ok by (simp_all add: mark_email_sent_def mark_email_failed_def modify_email_def email_ids_ok_update)
  show "email_status (snd (sweep_ghost_emails now d)) i = email_status d i \<or>
      email_status d i = Some ''Sending''"
    by (cases "first (filter (\<lambda>r. eo_id r = i) (outbox d))")
       (auto simp: sweep_ghost_emails_def email_status_update ghost_def, auto simp: email_status_def)
next
  fix d now email d'
  assume ok: "email_ids_ok d" and l: "lock_pending_email now d = (Some email, d')"
  obtain r where r: "first (filter (\<lambda>r. eo_status r = ''Pending'') (outbox d)) = Some r"
    using l by (auto simp: lock_pending_email_def split: option.splits)
  have st: "email_status d (eo_id r) = Some ''Pending''"
    using email_status_lookup [OF ok] first_filter_Some [OF r] by auto
  from l r have e: "eo_id email = eo_id r"
    and d': "d' = modify_email (eo_id r) (\<lambda>r. r\<lparr>eo_status := ''Sending'', eo_locked := Some now\<rparr>) d"
    by (auto simp: lock_pending_email_def)
  have "email_status d' = (email_status d)(eo_id r \<mapsto> ''Sending'')"
    unfolding d' by (rule email_status_modify) (simp_all add: st)
  with st e show "email_status d (eo_id email) = Some ''Pending'' \<and>
      email_status d' = (email_status d)(eo_id email \<mapsto> ''Sending'')" by simp
next
  fix d now d'
  assume ok: "email_ids_ok d" and l: "lock_pending_email now d = (None, d')"
  then show "d' = d \<and> (\<forall>i. email_status d i \<noteq> Some ''Pending'')"
    by (auto simp: lock_pending_email_def first_filter_None email_status_Some_iff split: option.splits)
next
  fix d i e
  assume "email_status d i \<noteq> None"
  then show "email_status (mark_email_sent i d) = (email_status d)(i \<mapsto> ''Sent'')"
    "email_status (mark_email_failed i e d) = (email_status d)(i \<mapsto> ''Failed'')"
    by (simp_all add: mark_email_sent_def mark_email_failed_def email_status_modify)
qed

subsection \<open>The worker on the store\<close>

text \<open>C17. One worker, started when no entry is marked as being sent, tries no entry twice, whatever
  the clock says and whatever becomes of the sending; every entry it tries ends as sent or as
  failed; and after as many turns as there were pending entries none is left.\<close>

theorem worker_sends_once:
  assumes "email_ids_ok d" "\<forall>i. email_status d i \<noteq> Some ''Sending''"
    and "run_worker send clocks (d, []) = (d', tried)"
  shows "distinct tried \<and>
    (\<forall>i\<in>set tried. email_status d' i = Some ''Sent'' \<or> email_status d' i = Some ''Failed'') \<and>
    (card {i. email_status d i = Some ''Pending''} \<le> length clocks \<longrightarrow>
       (\<forall>i. email_status d' i \<noteq> Some ''Pending''))"
proof -
  have r: "fold (email_round sweep_ghost_emails lock_pending_email mark_email_sent mark_email_failed send)
      clocks (d, []) = (d', tried)"
    using assms(3) by (simp add: run_worker_def worker_round_def)
  have "card {i. email_status d i = Some ''Pending''} \<le> length clocks \<Longrightarrow>
      {i. email_status d' i = Some ''Pending''} = {}"
    using outbox_queue.run_drains [OF assms(1,2) _ _ finite_pending [OF assms(1)] _ r] by simp
  with outbox_queue.run_quiet [OF assms(1,2) _ _ r] show ?thesis by auto
qed

definition sample_email :: Email where
  "sample_email = \<lparr>em_to = ''[]'', em_cc = ''[]'', em_subject = ''s'', em_in_reply_to = [],
     em_references = [], em_body = ''b''\<rparr>"

definition sample_outbox :: db where
  "sample_outbox = insert_email_outbox 2 ''Pending'' sample_email 6
     (insert_email_outbox 1 ''Pending'' sample_email 5 empty_db)"

theorem worker_sends_once_witness:
  "\<exists>d' tried. run_worker (\<lambda>r. if eo_id r = 1 then Inl ''refused'' else Inr ()) [10, 11] (sample_outbox, []) =
       (d', tried) \<and> distinct tried \<and> (\<forall>i. email_status d' i \<noteq> Some ''Pending'')"
proof -
  let ?send = "\<lambda>r. if eo_id r = 1 then Inl ''refused'' else Inr ()"
  let ?r = "run_worker ?send [10, 11] (sample_outbox, [])"
  have ids: "List.map eo_id (outbox sample_outbox) = [1, 2]"
    and st: "List.map eo_status (outbox sample_outbox) = [''Pending'', ''Pending'']" by code_simp+
  have ok: "email_ids_ok sample_outbox" by (simp add: email_ids_ok_def ids)
  have q: "\<forall>i. email_status sample_outbox i \<noteq> Some ''Sending''"
  proof (intro allI notI)
    fix i assume "email_status sample_outbox i = Some ''Sending''"
    then have "''Sending'' \<in> set (List.map eo_status (outbox sample_outbox))"
      unfolding email_status_Some_iff [OF ok] set_map by force
    then show False by (simp add: st)
  qed
  have "{i. email_status sample_outbox i = Some ''Pending''} \<subseteq> set [1, 2]"
    unfolding email_status_Some_iff [OF ok] ids [symmetric] by auto
  then have c: "card {i. email_status sample_outbox i = Some ''Pending''} \<le> length [10::int, 11]"
    by (rule card_mono [THEN le_trans, rotated]) simp_all
  have r: "?r = (fst ?r, snd ?r)" by simp
  from worker_sends_once [OF ok q r] c r show ?thesis by blast
qed

text \<open>The outbox holds one e-mail per patch: queueing never gives a patch a second entry, and
  what was queued first stays as it is.\<close>

theorem one_email_per_patch:
  assumes "distinct (List.map eo_patch (outbox d))"
  shows "distinct (List.map eo_patch (outbox (insert_email_outbox i status e now d))) \<and>
    i \<in> eo_patch ` set (outbox (insert_email_outbox i status e now d)) \<and>
    (\<forall>r\<in>set (outbox d). r \<in> set (outbox (insert_email_outbox i status e now d)))"
  using assms by (auto simp: insert_email_outbox_def)

theorem one_email_per_patch_witness:
  "distinct (List.map eo_patch (outbox (insert_email_outbox 1 ''Pending'' sample_email 9 sample_outbox)))"
proof -
  have "distinct (List.map eo_patch (outbox sample_outbox))" by code_simp
  from one_email_per_patch [OF this] show ?thesis by blast
qed

lemma set_keep_addresses: "set (keep_addresses parse_addr xs) = {a. \<exists>t\<in>set xs. parse_addr t = Some a}"
  by (induction xs) (auto simp: keep_addresses_def List.map_filter_simps split: option.splits)

lemma composed_addresses:
  assumes "compose_email parse_addr from_str settings row = Inr (Some m)"
  shows "\<exists>tos ccs. from_str (eo_to row) = Some tos \<and> from_str (eo_cc row) = Some ccs \<and>
       set (mail_to m) = {a. \<exists>t\<in>set tos. parse_addr t = Some a} \<and>
       set (mail_cc m) = {a. \<exists>t\<in>set ccs. parse_addr t = Some a}"
  using assms by (auto simp: compose_email_def set_keep_addresses split: if_splits option.splits)

text \<open>What is handed to the transport: nothing in a dry run, nothing when the sender does not
  parse; otherwise only addresses that parse, the body and subject of the row unchanged, and the
  thread headers in angle brackets when the row has them.\<close>

theorem compose_email_spec:
  assumes "compose_email parse_addr from_str settings row = Inr (Some m)"
  shows "\<not> smtp_dry_run settings \<and> parse_addr (smtp_sender_address settings) = Some (mail_from m) \<and>
    mail_subject m = eo_subject row \<and> mail_body m = eo_body row \<and>
    (\<exists>tos ccs. from_str (eo_to row) = Some tos \<and> from_str (eo_cc row) = Some ccs \<and>
       set (mail_to m) = {a. \<exists>t\<in>set tos. parse_addr t = Some a} \<and>
       set (mail_cc m) = {a. \<exists>t\<in>set ccs. parse_addr t = Some a}) \<and>
    (mail_in_reply_to m = None \<longleftrightarrow> eo_in_reply_to row = [])"
  using assms composed_addresses [OF assms]
  by (auto simp: compose_email_def angle_def split: if_splits option.splits)

theorem compose_email_spec_witness:
  "\<exists>m. compose_email Some (\<lambda>_. Some [''a@b'']) \<lparr>smtp_server = [], smtp_port = 25, smtp_username = None,
      smtp_password = None, smtp_sender_address = ''s@b'', smtp_reply_to = None, smtp_dry_run = False\<rparr>
      (hd (outbox sample_outbox)) = Inr (Some m) \<and> mail_body m = ''b''"
proof -
  let ?s = "\<lparr>smtp_server = [], smtp_port = 25, smtp_username = None, smtp_password = None,
    smtp_sender_address = ''s@b'', smtp_reply_to = None, smtp_dry_run = False\<rparr>"
  let ?c = "compose_email Some (\<lambda>_. Some [''a@b'']) ?s (hd (outbox sample_outbox))"
  obtain m where m: "?c = Inr (Some m)" by (simp add: compose_email_def)
  moreover have "eo_body (hd (outbox sample_outbox)) = ''b''" by code_simp
  ultimately show ?thesis using compose_email_spec [OF m] by auto
qed

end
