(* ===== verification/Patchset_Status.thy ===== *)
theory Patchset_Status
  imports Patchsets_Inv Status Outbox
begin

text \<open>
  The life of a patchset in \<open>src/db.rs\<close> after it is created: placeholders for patches that
  are being fetched, the status updates of the reviewer and of the web interface, embargoes,
  reruns and the reset after a crash. The first part has the operations in the order of the
  source, the second what they keep and what they do.
\<close>

subsection \<open>Status updates\<close>

definition set_patchset_embargo_until :: "int \<Rightarrow> int \<Rightarrow> db \<Rightarrow> db" where
  "set_patchset_embargo_until i embargo_until d =
     modify_patchset i (\<lambda>p. p\<lparr>ps_embargo := Some embargo_until\<rparr>) d"

definition get_pending_patchsets :: "nat \<Rightarrow> db \<Rightarrow> patchset_row list" where
  "get_pending_patchsets limit d =
     take limit (sort_desc ps_date (filter (\<lambda>p. ps_status p = ''Pending'') (patchsets d)))"

text \<open>A patchset whose embargo is over and for which no e-mail was queued yet.\<close>

definition mailed :: "db \<Rightarrow> int \<Rightarrow> bool" where
  "mailed d i \<longleftrightarrow> (\<exists>e\<in>set (outbox d). \<exists>p\<in>set (patches d). eo_patch e = pa_id p \<and> pa_patchset p = i)"

definition embargo_expired :: "int \<Rightarrow> db \<Rightarrow> patchset_row \<Rightarrow> bool" where
  "embargo_expired now d p \<longleftrightarrow> ps_status p = ''Reviewed'' \<and>
     (case ps_embargo p of Some t \<Rightarrow> t \<le> now | None \<Rightarrow> False) \<and> \<not> mailed d (ps_id p)"

definition get_expired_embargoed_patchsets :: "int \<Rightarrow> nat \<Rightarrow> db \<Rightarrow> patchset_row list" where
  "get_expired_embargoed_patchsets now limit d =
     take limit (sort_key ps_date (filter (embargo_expired now d) (patchsets d)))"

definition update_patchset_status :: "int \<Rightarrow> string \<Rightarrow> db \<Rightarrow> db" where
  "update_patchset_status i status d = modify_patchset i (\<lambda>p. p\<lparr>ps_status := status\<rparr>) d"

definition update_patch_status :: "int \<Rightarrow> string \<Rightarrow> db \<Rightarrow> db" where
  "update_patch_status patch_id status d =
     d\<lparr>patches := update_where (\<lambda>p. pa_id p = patch_id) (\<lambda>p. p\<lparr>pa_status := Some status\<rparr>)
        (patches d)\<rparr>"

definition find_patchset :: "int \<Rightarrow> db \<Rightarrow> patchset_row option" where
  "find_patchset i d = first (filter (\<lambda>p. ps_id p = i) (patchsets d))"

definition get_patchset_status :: "int \<Rightarrow> db \<Rightarrow> string option" where
  "get_patchset_status i d = map_option ps_status (find_patchset i d)"

definition cancellable :: "bool \<Rightarrow> string \<Rightarrow> bool" where
  "cancellable force status =
     (if force then status = ''Pending'' \<or> status = ''Incomplete'' \<or> status = ''In Review''
      else status = ''Pending'' \<or> status = ''Incomplete'')"

definition cancel_patchset :: "int \<Rightarrow> bool \<Rightarrow> db \<Rightarrow> bool \<times> db" where
  "cancel_patchset i force d =
     (0 < count_where (\<lambda>p. ps_id p = i \<and> cancellable force (ps_status p)) (patchsets d),
      d\<lparr>patchsets := update_where (\<lambda>p. ps_id p = i \<and> cancellable force (ps_status p))
         (\<lambda>p. p\<lparr>ps_status := ''Cancelled''\<rparr>) (patchsets d)\<rparr>)"

definition review_failed :: "patchset_row \<Rightarrow> bool" where
  "review_failed p \<longleftrightarrow> ps_status p = ''Failed'' \<or> ps_status p = ''Failed To Apply''"

definition restart_failed_reviews :: "db \<Rightarrow> nat \<times> db" where
  "restart_failed_reviews d =
     (count_where review_failed (patchsets d),
      d\<lparr>patchsets := update_where review_failed
         (\<lambda>p. p\<lparr>ps_status := ''Pending'', ps_failed_reason := None\<rparr>) (patchsets d)\<rparr>)"

definition rerun_patchset :: "int \<Rightarrow> db \<Rightarrow> db" where
  "rerun_patchset i d =
     modify_patchset i (\<lambda>p. p\<lparr>ps_target_reviews := Some (or_else (ps_target_reviews p) 1 + 1)\<rparr>)
       (modify_patchset i (\<lambda>p. p\<lparr>ps_status := ''Pending''\<rparr>) d)"

definition rerun_patch :: "int \<Rightarrow> int \<Rightarrow> db \<Rightarrow> db" where
  "rerun_patch patchset_id patch_id d = rerun_patchset patchset_id d"

subsection \<open>Placeholders of patches being fetched\<close>

definition root_msg_id :: "string \<Rightarrow> string" where
  "root_msg_id article_id =
     (if CHR ''@'' \<in> set article_id then article_id else article_id @ ''@sashiko.local'')"

definition refetchable :: "patchset_row \<Rightarrow> bool" where
  "refetchable p \<longleftrightarrow> ps_status p = ''Failed'' \<or> ps_status p = fetching"

definition insert_fetching :: "int \<Rightarrow> string \<Rightarrow> string \<Rightarrow> int \<Rightarrow> string list option \<Rightarrow>
   string list option \<Rightarrow> db \<Rightarrow> int \<times> db" where
  "insert_fetching thread_id root subject now skip_filters only_filters d =
     (let i = next_id (List.map ps_id (patchsets d))
      in (i, d\<lparr>patchsets := patchsets d @
            [\<lparr>ps_id = i, ps_thread = thread_id, ps_cover = Some root, ps_subject = subject,
              ps_author = None, ps_date = now, ps_status = fetching, ps_total = None,
              ps_received = None, ps_subject_index = 9999, ps_parser_version = 0, ps_to = None,
              ps_cc = None, ps_baseline = None, ps_model = None, ps_prompts = None,
              ps_baseline_logs = None, ps_failed_reason = None, ps_skip = skip_filters,
              ps_only = only_filters, ps_target_reviews = Some 1, ps_provider = None,
              ps_embargo = None\<rparr>]\<rparr>))"

text \<open>The patchset an article id stands for: the first row with the id as its cover letter,
  else the first row with the root message id. Of each query only the first row counts.\<close>

definition find_fetched :: "string \<Rightarrow> db \<Rightarrow> patchset_row option" where
  "find_fetched article_id d =
     (case first (filter (\<lambda>p. ps_cover p = Some article_id) (patchsets d)) of
        Some p \<Rightarrow> Some p
      | None \<Rightarrow> first (filter (\<lambda>p. ps_cover p = Some (root_msg_id article_id)) (patchsets d)))"

definition create_fetching_patchset ::
  "string \<Rightarrow> string \<Rightarrow> string list option \<Rightarrow> string list option \<Rightarrow> int \<Rightarrow> db \<Rightarrow> int \<times> db" where
  "create_fetching_patchset article_id subject skip_filters only_filters now d =
     (case find_fetched article_id d of
        Some p \<Rightarrow>
          (ps_id p,
           if refetchable p
           then modify_patchset (ps_id p) (\<lambda>q. q\<lparr>ps_status := fetching, ps_failed_reason := None,
                  ps_skip := skip_filters, ps_only := only_filters\<rparr>) d
           else d)
      | None \<Rightarrow>
          (let (thread_id, d') = ensure_thread_for_message (root_msg_id article_id) now d
           in insert_fetching thread_id (root_msg_id article_id) subject now skip_filters
                only_filters d'))"

definition update_patchset_error :: "string \<Rightarrow> string \<Rightarrow> db \<Rightarrow> db" where
  "update_patchset_error article_id err d =
     d\<lparr>patchsets := update_where (\<lambda>p. ps_cover p = Some (root_msg_id article_id))
        (\<lambda>p. p\<lparr>ps_status := ''Failed'', ps_failed_reason := Some err\<rparr>) (patchsets d)\<rparr>"

subsection \<open>What the reviewer records\<close>

definition update_patchset_baseline_info ::
  "int \<Rightarrow> int option \<Rightarrow> string option \<Rightarrow> string option \<Rightarrow> string option \<Rightarrow> string option \<Rightarrow>
   db \<Rightarrow> db" where
  "update_patchset_baseline_info i baseline_id model_name prompts_hash logs provider d =
     modify_patchset i (\<lambda>p. p\<lparr>ps_baseline := baseline_id, ps_model := model_name,
       ps_prompts := prompts_hash, ps_baseline_logs := logs, ps_provider := provider\<rparr>) d"

definition update_patch_application_status ::
  "int \<Rightarrow> nat \<Rightarrow> string \<Rightarrow> string option \<Rightarrow> db \<Rightarrow> db" where
  "update_patch_application_status patchset_id part_index status err d =
     d\<lparr>patches := update_where (\<lambda>p. pa_patchset p = patchset_id \<and> pa_part p = part_index)
        (\<lambda>p. p\<lparr>pa_status := Some status, pa_apply_error := err\<rparr>) (patches d)\<rparr>"

definition being_reviewed :: "patchset_row \<Rightarrow> bool" where
  "being_reviewed p \<longleftrightarrow> ps_status p = ''In Review'' \<or> ps_status p = ''Reviewing''"

definition reset_reviewing_status :: "db \<Rightarrow> nat \<times> db" where
  "reset_reviewing_status d =
     (count_where being_reviewed (patchsets d) +
        count_where (\<lambda>r. rv_status r = ''In Review'') (reviews d),
      d\<lparr>patchsets := update_where being_reviewed (\<lambda>p. p\<lparr>ps_status := as_str Pending\<rparr>)
                       (patchsets d),
        reviews := update_where (\<lambda>r. rv_status r = ''In Review'')
                       (\<lambda>r. r\<lparr>rv_status := as_str Pending\<rparr>) (reviews d)\<rparr>)"

text \<open>\<open>GROUP BY status\<close>: one entry per status that occurs.\<close>

definition get_patchset_counts_by_status :: "db \<Rightarrow> (string \<times> nat) list" where
  "get_patchset_counts_by_status d =
     List.map (\<lambda>s. (s, count_where (\<lambda>p. ps_status p = s) (patchsets d)))
       (remdups (List.map ps_status (patchsets d)))"

subsection \<open>The invariant\<close>

lemma update_patchsets_inv:
  assumes inv: "store_inv d" and i: "\<And>p. ps_id (f p) = ps_id p"
    and n: "\<And>p. ps_received (f p) = ps_received p"
    and r: "\<And>p. p \<in> set (patchsets d) \<Longrightarrow> P p \<Longrightarrow> row_refs_ok d p \<Longrightarrow> row_refs_ok d (f p)"
  shows "store_inv (d\<lparr>patchsets := update_where P f (patchsets d)\<rparr>)"
proof -
  have "core_inv (d\<lparr>patchsets := update_where P f (patchsets d)\<rparr>)"
    using inv i r by (intro core_update_rows) (auto simp: store_inv_core)
  then show ?thesis
    using inv by (simp add: store_inv_core parts_but_def ball_update_where received_count_def i n)
qed

lemma modify_patchset_inv:
  assumes "store_inv d" "\<And>p. ps_id (f p) = ps_id p" "\<And>p. ps_received (f p) = ps_received p"
    and "\<And>p. row_refs_ok d p \<Longrightarrow> row_refs_ok d (f p)"
  shows "store_inv (modify_patchset i f d)"
  unfolding modify_patchset_def by (rule update_patchsets_inv [OF assms(1-3)]) (rule assms(4))

lemma row_refs_status [simp]:
  "row_refs_ok d (p\<lparr>ps_status := s\<rparr>) = row_refs_ok d p"
  "row_refs_ok d (p\<lparr>ps_failed_reason := e\<rparr>) = row_refs_ok d p"
  "row_refs_ok d (p\<lparr>ps_embargo := t\<rparr>) = row_refs_ok d p"
  "row_refs_ok d (p\<lparr>ps_target_reviews := n\<rparr>) = row_refs_ok d p"
  "row_refs_ok d (p\<lparr>ps_skip := x\<rparr>) = row_refs_ok d p"
  "row_refs_ok d (p\<lparr>ps_only := x\<rparr>) = row_refs_ok d p"
  by (simp_all add: row_refs_ok_def)

lemma status_update_inv:
  assumes "store_inv d"
  shows "store_inv (set_patchset_embargo_until i t d)"
    and "store_inv (update_patchset_status i s d)"
    and "store_inv (snd (cancel_patchset i force d))"
    and "store_inv (snd (restart_failed_reviews d))"
    and "store_inv (rerun_patchset i d)"
    and "store_inv (update_patchset_error article_id err d)"
  unfolding set_patchset_embargo_until_def update_patchset_status_def cancel_patchset_def
    restart_failed_reviews_def rerun_patchset_def update_patchset_error_def snd_conv
  using assms by (auto intro!: modify_patchset_inv update_patchsets_inv)

lemma insert_fetching_inv:
  assumes "store_inv d" "t \<in> ids th_id (threads d)" "m \<in> ids me_message_id (messages d)"
    and "insert_fetching t m subject now skip only d = (i, d')"
  shows "store_inv d' \<and> i \<in> ids ps_id (patchsets d')"
proof -
  obtain p where p: "d' = d\<lparr>patchsets := patchsets d @ [p]\<rparr>" "ps_id p = i"
    "ps_id p = next_id (List.map ps_id (patchsets d))" "row_refs_ok d p" "received_count p = 0"
    using assms(2-4)
    by (auto simp: insert_fetching_def Let_def row_refs_ok_def received_count_def)
  with append_patchset_inv [OF assms(1) p(3-5)] show ?thesis by simp
qed

lemma create_fetching_inv:
  assumes "store_inv d" and "create_fetching_patchset a subject skip only now d = (i, d')"
  shows "store_inv d' \<and> i \<in> ids ps_id (patchsets d')"
proof (cases "find_fetched a d")
  case None
  obtain t d1 where e: "ensure_thread_for_message (root_msg_id a) now d = (t, d1)" by fastforce
  note s = ensure_thread_spec [OF e assms(1)]
  show ?thesis
    by (rule insert_fetching_inv [of d1 t "root_msg_id a"])
       (use s None e assms(2) in \<open>simp_all add: create_fetching_patchset_def\<close>)
next
  case (Some p)
  then have "p \<in> set (patchsets d)"
    by (auto simp: find_fetched_def dest!: first_filter_Some split: option.splits)
  moreover have "store_inv (modify_patchset (ps_id p) (\<lambda>q. q\<lparr>ps_status := fetching,
      ps_failed_reason := None, ps_skip := skip, ps_only := only\<rparr>) d)"
    using assms(1) by (intro modify_patchset_inv) (simp_all add: row_refs_ok_def)
  ultimately show ?thesis
    using assms Some by (auto simp: create_fetching_patchset_def intro: ids_memI split: if_splits)
qed

lemma reset_reviewing_inv:
  assumes "store_inv d" shows "store_inv (snd (reset_reviewing_status d))"
proof -
  let ?d = "d\<lparr>patchsets := update_where being_reviewed (\<lambda>p. p\<lparr>ps_status := as_str Pending\<rparr>)
    (patchsets d)\<rparr>"
  have "store_inv ?d" using assms by (intro update_patchsets_inv) auto
  then have "store_inv (?d\<lparr>reviews := update_where (\<lambda>r. rv_status r = ''In Review'')
      (\<lambda>r. r\<lparr>rv_status := as_str Pending\<rparr>) (reviews ?d)\<rparr>)"
    by (simp add: inv_defs keys_ok_update)
  then show ?thesis by (simp add: reset_reviewing_status_def)
qed

lemma patch_update_inv:
  assumes inv: "store_inv d" and "\<And>p. pa_id (f p) = pa_id p" "\<And>p. pa_patchset (f p) = pa_patchset p"
    "\<And>p. pa_message_id (f p) = pa_message_id p"
  shows "store_inv (d\<lparr>patches := update_where P f (patches d)\<rparr>)"
proof -
  have "parts_of i (update_where P f (patches d)) = parts_of i (patches d)" for i
    using assms(3) by (simp add: parts_of_def count_update_where cong: count_where_cong)
  with assms show ?thesis
    by (simp add: inv_defs keys_ok_update unique_on_update)
qed

lemma patch_status_inv:
  assumes "store_inv d"
  shows "store_inv (update_patch_status i s d)"
    and "store_inv (update_patch_application_status j k s e d)"
  unfolding update_patch_status_def update_patch_application_status_def
  using assms by (intro patch_update_inv; simp)+

lemma baseline_info_inv:
  assumes "store_inv d" "\<And>b. baseline_id = Some b \<Longrightarrow> b \<in> ids bl_id (baselines d)"
  shows "store_inv (update_patchset_baseline_info i baseline_id m h l pr d)"
  unfolding update_patchset_baseline_info_def
  using assms by (intro modify_patchset_inv) (auto simp: row_refs_ok_def)

subsection \<open>Looking a patchset up after an update\<close>

lemma find_patchset_update:
  assumes "\<And>p. ps_id (f p) = ps_id p"
  shows "find_patchset i (d\<lparr>patchsets := update_where P f (patchsets d)\<rparr>) =
    map_option (\<lambda>p. if P p then f p else p) (find_patchset i d)"
proof -
  have "filter (\<lambda>p. ps_id p = i) (update_where P f rows) =
      List.map (\<lambda>p. if P p then f p else p) (filter (\<lambda>p. ps_id p = i) rows)" for rows
    by (induction rows) (auto simp: update_where_def assms)
  then show ?thesis by (simp add: find_patchset_def)
qed

lemma find_patchset_id: "find_patchset i d = Some p \<Longrightarrow> ps_id p = i \<and> p \<in> set (patchsets d)"
  by (auto simp: find_patchset_def dest!: first_filter_Some)

lemma find_patchset_modify:
  assumes "\<And>p. ps_id (f p) = ps_id p"
  shows "find_patchset i (modify_patchset j f d) =
    map_option (\<lambda>p. if i = j then f p else p) (find_patchset i d)"
  using find_patchset_id [of i d]
  by (cases "find_patchset i d") (auto simp: modify_patchset_def find_patchset_update assms)

lemma find_patchset_mem:
  "store_inv d \<Longrightarrow> p \<in> set (patchsets d) \<Longrightarrow> find_patchset (ps_id p) d = Some p"
  unfolding find_patchset_def
  by (rule first_unique) (auto simp: inv_defs unique_on_def keys_ok_def)

subsection \<open>Fetching\<close>

lemma first_append: "first xs = None \<Longrightarrow> first (xs @ ys) = first ys"
  by (cases xs) simp_all

lemma find_fetched_cover:
  "find_fetched a d = Some p \<Longrightarrow>
   p \<in> set (patchsets d) \<and> (ps_cover p = Some a \<or> ps_cover p = Some (root_msg_id a))"
  by (auto simp: find_fetched_def dest!: first_filter_Some split: option.splits)

lemma find_fetched_update:
  assumes "\<And>p. ps_cover (f p) = ps_cover p"
  shows "find_fetched a (d\<lparr>patchsets := update_where P f (patchsets d)\<rparr>) =
    map_option (\<lambda>p. if P p then f p else p) (find_fetched a d)"
  by (simp add: find_fetched_def first_update_id assms split: option.split)

lemma find_fetched_after:
  assumes "store_inv d" and "create_fetching_patchset a subject skip only now d = (i, d')"
  shows "\<exists>p. find_fetched a d' = Some p \<and> ps_id p = i"
proof (cases "find_fetched a d")
  case (Some p)
  then show ?thesis
    using assms(2) by (auto simp: create_fetching_patchset_def modify_patchset_def find_fetched_update
        split: if_splits)
next
  case None
  obtain t d1 where e: "ensure_thread_for_message (root_msg_id a) now d = (t, d1)" by fastforce
  have s: "patchsets d1 = patchsets d" using ensure_thread_spec [OF e assms(1)] by simp
  from None have n: "first (filter (\<lambda>p. ps_cover p = Some a) (patchsets d)) = None"
    "first (filter (\<lambda>p. ps_cover p = Some (root_msg_id a)) (patchsets d)) = None"
    by (auto simp: find_fetched_def split: option.splits)
  obtain r where r: "patchsets d' = patchsets d @ [r]" "ps_id r = i" "ps_cover r = Some (root_msg_id a)"
    using assms(2) None e s by (auto simp: create_fetching_patchset_def insert_fetching_def Let_def)
  show ?thesis
    using r(2,3) by (simp add: find_fetched_def r(1) first_append n)
qed

lemma fetching_keeps:
  assumes inv: "store_inv d" and c: "create_fetching_patchset a subject skip only now d = (i, d')"
    and q: "q \<in> set (patchsets d)" "\<not> refetchable q"
  shows "q \<in> set (patchsets d')"
proof (cases "find_fetched a d")
  case None
  obtain t d1 where e: "ensure_thread_for_message (root_msg_id a) now d = (t, d1)" by fastforce
  have "patchsets d1 = patchsets d" using ensure_thread_spec [OF e inv] by simp
  with c None e q show ?thesis
    by (auto simp: create_fetching_patchset_def insert_fetching_def Let_def)
next
  case (Some p)
  have "q \<in> set (update_where (\<lambda>r. ps_id r = ps_id p) f (patchsets d))" if "refetchable p" for f
  proof -
    have "ps_id q \<noteq> ps_id p"
      using find_patchset_mem [OF inv q(1)] find_patchset_mem [OF inv] find_fetched_cover [OF Some]
        q(2) that by force
    with q(1) show ?thesis by (simp add: set_update_where)
  qed
  with c Some q(1) show ?thesis
    by (auto simp: create_fetching_patchset_def modify_patchset_def split: if_splits)
qed

text \<open>A placeholder for a patch that is to be fetched: the id that comes back belongs to a
  patchset whose cover letter is the article or its root message id, the store stays
  consistent, a second request for the article gives the same patchset, and no patchset that
  is past fetching (neither failed nor being fetched) is changed.\<close>

theorem fetching_placeholder:
  assumes "store_inv d" and "create_fetching_patchset a subject skip only now d = (i, d')"
  shows "store_inv d' \<and>
    (\<exists>p\<in>set (patchsets d'). ps_id p = i \<and> ps_cover p \<in> {Some a, Some (root_msg_id a)}) \<and>
    (\<forall>s sk on t. fst (create_fetching_patchset a s sk on t d') = i) \<and>
    (\<forall>q\<in>set (patchsets d). \<not> refetchable q \<longrightarrow> q \<in> set (patchsets d'))"
proof -
  obtain p where p: "find_fetched a d' = Some p" "ps_id p = i"
    using find_fetched_after [OF assms] by blast
  show ?thesis
    using create_fetching_inv [OF assms] fetching_keeps [OF assms] p find_fetched_cover [OF p(1)]
    by (auto simp: create_fetching_patchset_def)
qed

theorem fetching_placeholder_witness:
  "fst (create_fetching_patchset ''ab'' ''s'' None None 9
     (snd (create_fetching_patchset ''ab'' ''s'' None None 7 empty_db))) = 1"
proof -
  have "create_fetching_patchset ''ab'' ''s'' None None 7 empty_db =
      (1, snd (create_fetching_patchset ''ab'' ''s'' None None 7 empty_db))"
    by code_simp
  from fetching_placeholder [OF store_inv_empty this] show ?thesis by blast
qed

text \<open>A failed fetch can leave its patchset in the state \<open>Fetching\<close> for good: an article id
  without an \<open>@\<close> whose patchset has the bare id as its cover letter is found and put back to
  \<open>Fetching\<close> by the request, but the error is only written to patchsets whose cover letter is
  the id with \<open>@sashiko.local\<close>.\<close>

theorem fetch_error_missed:
  assumes inv: "store_inv d" and a: "CHR ''@'' \<notin> set a"
    and p: "find_fetched a d = Some p" "ps_cover p = Some a" "refetchable p"
    and c: "create_fetching_patchset a subject skip only now d = (i, d')"
  shows "get_patchset_status i (update_patchset_error a err d') = Some fetching"
proof -
  have m: "p \<in> set (patchsets d)" using find_fetched_cover [OF p(1)] by simp
  have i: "i = ps_id p" and d': "d' = modify_patchset (ps_id p) (\<lambda>q. q\<lparr>ps_status := fetching,
      ps_failed_reason := None, ps_skip := skip, ps_only := only\<rparr>) d"
    using c p by (auto simp: create_fetching_patchset_def)
  have f: "find_patchset i d' = Some (p\<lparr>ps_status := fetching, ps_failed_reason := None,
      ps_skip := skip, ps_only := only\<rparr>)"
    using find_patchset_mem [OF inv m] by (simp add: d' i find_patchset_modify)
  have "a \<noteq> root_msg_id a" using a by (simp add: root_msg_id_def)
  with p(2) f show ?thesis
    by (simp add: get_patchset_status_def update_patchset_error_def find_patchset_update)
qed

theorem fetch_error_missed_witness:
  "\<exists>d a i. store_inv d \<and> fst (create_fetching_patchset a ''s'' None None 7 d) = i \<and>
     get_patchset_status i (update_patchset_error a ''no such commit''
       (snd (create_fetching_patchset a ''s'' None None 7 d))) = Some fetching"
proof -
  let ?d = "update_patchset_status 1 ''Failed'' sample_patchset"
  let ?p = "hd (patchsets ?d)"
  let ?c = "create_fetching_patchset ''ab'' ''s'' None None 7 ?d"
  have inv: "store_inv ?d" using sample_patchset_inv by (rule status_update_inv)
  have f: "find_fetched ''ab'' ?d = Some ?p" by code_simp
  have q: "ps_cover ?p = Some ''ab''" "refetchable ?p" by code_simp+
  have "get_patchset_status (fst ?c) (update_patchset_error ''ab'' ''no such commit'' (snd ?c)) =
      Some fetching"
    by (rule fetch_error_missed [OF inv _ f q]) simp_all
  with inv show ?thesis by blast
qed

subsection \<open>Cancelling, resetting, releasing\<close>

text \<open>Cancelling answers whether the patchset was in a state that can be cancelled; only
  then is it \<open>Cancelled\<close> afterwards. A review in progress is only cancelled by force, a
  finished patchset never, and no other patchset changes.\<close>

theorem cancel_patchset_spec:
  assumes "store_inv d" and "find_patchset i d = Some p" and "cancel_patchset i force d = (b, d')"
  shows "b = cancellable force (ps_status p) \<and>
    find_patchset i d' = Some (if b then p\<lparr>ps_status := ''Cancelled''\<rparr> else p) \<and>
    (\<forall>j. j \<noteq> i \<longrightarrow> find_patchset j d' = find_patchset j d) \<and>
    (ps_status p \<in> {''Reviewed'', ''Failed'', ''Skipped''} \<longrightarrow> \<not> b) \<and>
    (ps_status p = ''In Review'' \<longrightarrow> b = force) \<and> store_inv d'"
proof -
  note p = find_patchset_id [OF assms(2)]
  have d': "d' = d\<lparr>patchsets := update_where (\<lambda>p. ps_id p = i \<and> cancellable force (ps_status p))
         (\<lambda>p. p\<lparr>ps_status := ''Cancelled''\<rparr>) (patchsets d)\<rparr>"
    and b: "b = (0 < count_where (\<lambda>p. ps_id p = i \<and> cancellable force (ps_status p)) (patchsets d))"
    using assms(3) by (simp_all add: cancel_patchset_def)
  have u: "q = p" if "q \<in> set (patchsets d)" "ps_id q = i" for q
    using find_patchset_mem [OF assms(1) that(1)] that(2) assms(2) by simp
  have b': "b = cancellable force (ps_status p)"
    unfolding b count_where_def length_greater_0_conv filter_empty_conv using p u by blast
  have "find_patchset j d' = find_patchset j d" if "j \<noteq> i" for j
    using that find_patchset_id [of j d]
    by (cases "find_patchset j d") (auto simp: d' find_patchset_update)
  moreover have "find_patchset i d' = Some (if b then p\<lparr>ps_status := ''Cancelled''\<rparr> else p)"
    using p assms(2) by (simp add: d' find_patchset_update b')
  moreover have "store_inv d'"
    using status_update_inv(3) [OF assms(1), of i force] assms(3) by simp
  ultimately show ?thesis using b' by (auto simp: cancellable_def)
qed

theorem cancel_patchset_spec_witness:
  "\<exists>d d' p. store_inv d \<and> cancel_patchset 1 False d = (False, d') \<and> find_patchset 1 d' = Some p"
proof -
  let ?d = "update_patchset_status 1 ''In Review'' sample_patchset"
  have inv: "store_inv ?d" using sample_patchset_inv by (rule status_update_inv)
  have f: "find_patchset 1 ?d = Some (hd (patchsets ?d))" by code_simp
  have b: "fst (cancel_patchset 1 False ?d) = False" by code_simp
  then have c: "cancel_patchset 1 False ?d = (False, snd (cancel_patchset 1 False ?d))"
    by (metis prod.collapse)
  from cancel_patchset_spec [OF inv f c] inv c show ?thesis by blast
qed

text \<open>The reset after a crash: no patchset and no review is in progress any more, each one
  that was is pending again, the rest is as before, and the count is the number of rows that
  changed.\<close>

theorem reset_reviewing_spec:
  assumes "reset_reviewing_status d = (n, d')"
  shows "(\<forall>p\<in>set (patchsets d'). \<not> being_reviewed p) \<and>
    (\<forall>r\<in>set (reviews d'). rv_status r \<noteq> ''In Review'') \<and>
    (\<forall>i. get_patchset_status i d' =
      (if get_patchset_status i d \<in> {Some ''In Review'', Some ''Reviewing''} then Some ''Pending''
       else get_patchset_status i d)) \<and>
    n = count_where being_reviewed (patchsets d) +
        count_where (\<lambda>r. rv_status r = ''In Review'') (reviews d) \<and>
    (store_inv d \<longrightarrow> store_inv d')"
proof -
  let ?u = "update_where being_reviewed (\<lambda>p. p\<lparr>ps_status := as_str Pending\<rparr>) (patchsets d)"
  let ?w = "update_where (\<lambda>r. rv_status r = ''In Review'') (\<lambda>r. r\<lparr>rv_status := as_str Pending\<rparr>)
    (reviews d)"
  have d': "d' = d\<lparr>patchsets := ?u, reviews := ?w\<rparr>" and n: "n = count_where being_reviewed (patchsets d) +
        count_where (\<lambda>r. rv_status r = ''In Review'') (reviews d)"
    using assms by (simp_all add: reset_reviewing_status_def)
  have "find_patchset i d' = find_patchset i (d\<lparr>patchsets := ?u\<rparr>)" for i
    by (simp add: d' find_patchset_def)
  then have "get_patchset_status i d' =
      (if get_patchset_status i d \<in> {Some ''In Review'', Some ''Reviewing''} then Some ''Pending''
       else get_patchset_status i d)" for i
    by (cases "find_patchset i d") (simp_all add: get_patchset_status_def find_patchset_update
        being_reviewed_def)
  moreover have "\<forall>p\<in>set ?u. \<not> being_reviewed p"
    by (simp add: ball_update_where) (simp add: being_reviewed_def)
  moreover have "\<forall>r\<in>set ?w. rv_status r \<noteq> ''In Review''"
    by (simp add: ball_update_where)
  moreover have "store_inv d \<Longrightarrow> store_inv d'"
    using reset_reviewing_inv [of d] assms by simp
  ultimately show ?thesis by (simp add: d' n)
qed

theorem reset_reviewing_spec_witness:
  "\<exists>n d' . reset_reviewing_status (update_patchset_status 1 ''In Review'' sample_patchset) = (n, d') \<and>
     n = 1 \<and> get_patchset_status 1 d' = Some ''Pending''"
proof -
  let ?r = "reset_reviewing_status (update_patchset_status 1 ''In Review'' sample_patchset)"
  have r: "?r = (fst ?r, snd ?r)" by simp
  have f: "fst ?r = 1" by code_simp
  have "get_patchset_status 1 (update_patchset_status 1 ''In Review'' sample_patchset) = Some ''In Review''"
    by code_simp
  with reset_reviewing_spec [OF r] have "get_patchset_status 1 (snd ?r) = Some ''Pending''" by simp
  with r f show ?thesis by metis
qed

text \<open>An embargoed review is released at most once: what is released is reviewed, its embargo
  is over, and once an e-mail for one of its patches is in the outbox, whatever became of that
  e-mail, the patchset is not released again.\<close>

theorem released_once:
  assumes "q \<in> set (patches d)" and "p \<in> set (get_expired_embargoed_patchsets now limit
      (insert_email_outbox (pa_id q) status e t d))"
  shows "ps_id p \<noteq> pa_patchset q \<and> ps_status p = ''Reviewed'' \<and>
    (\<exists>u\<le>now. ps_embargo p = Some u) \<and> p \<in> set (patchsets d)"
proof -
  let ?d = "insert_email_outbox (pa_id q) status e t d"
  have "p \<in> set (filter (embargo_expired now ?d) (patchsets ?d))"
    using assms(2) by (auto simp: get_expired_embargoed_patchsets_def dest: in_set_takeD)
  then have p: "p \<in> set (patchsets d)" "embargo_expired now ?d p"
    by (auto simp: insert_email_outbox_def split: if_splits)
  moreover have "mailed ?d (pa_patchset q)"
    using assms(1) by (auto simp: mailed_def insert_email_outbox_def)
  ultimately show ?thesis by (auto simp: embargo_expired_def split: option.splits)
qed

theorem released_once_witness:
  "\<exists>d p q. q \<in> set (patches d) \<and> ps_id p \<noteq> pa_patchset q \<and>
     get_expired_embargoed_patchsets 9 10 (insert_email_outbox (pa_id q) ''Pending''
       \<lparr>em_to = [], em_cc = [], em_subject = [], em_in_reply_to = [], em_references = [],
        em_body = []\<rparr> 9 d) = [p]"
proof -
  let ?q = "\<lparr>pa_id = 1, pa_patchset = 1, pa_message_id = ''ab'', pa_part = 1, pa_diff = [],
    pa_status = None, pa_apply_error = None\<rparr>"
  let ?p = "(hd (patchsets sample_patchset))\<lparr>ps_status := ''Reviewed'', ps_embargo := Some 5\<rparr>"
  let ?d = "sample_patchset\<lparr>patches := [?q], patchsets := [?p, ?p\<lparr>ps_id := 2\<rparr>]\<rparr>"
  let ?e = "\<lparr>em_to = [], em_cc = [], em_subject = [], em_in_reply_to = [], em_references = [],
    em_body = []\<rparr>"
  have g: "get_expired_embargoed_patchsets 9 10 (insert_email_outbox (pa_id ?q) ''Pending'' ?e 9 ?d) =
      [?p\<lparr>ps_id := 2\<rparr>]" by code_simp
  then have "?p\<lparr>ps_id := 2\<rparr> \<in> set (get_expired_embargoed_patchsets 9 10
      (insert_email_outbox (pa_id ?q) ''Pending'' ?e 9 ?d))" by simp
  moreover have q: "?q \<in> set (patches ?d)" by simp
  ultimately have "ps_id (?p\<lparr>ps_id := 2\<rparr>) \<noteq> pa_patchset ?q" using released_once by blast
  with g q show ?thesis by blast
qed

lemma sum_group_counts:
  "sum_list (List.map (\<lambda>s. count_where (\<lambda>r. f r = s) rows) (remdups (List.map f rows))) = length rows"
proof -
  have "count_where (\<lambda>r. f r = s) rows = count_list (List.map f rows) s" for s
    by (induction rows) (auto simp: count_where_def)
  then have "sum_list (List.map (\<lambda>s. count_where (\<lambda>r. f r = s) rows) (remdups (List.map f rows))) =
      sum (count_list (List.map f rows)) (set (List.map f rows))"
    by (subst sum_list_distinct_conv_sum_set) (simp_all only: distinct_remdups set_remdups)
  also have "\<dots> = length rows" by (subst sum_count_set) simp_all
  finally show ?thesis .
qed

text \<open>The counts per status add up to the number of patchsets, with one entry per status.\<close>

theorem status_counts_total:
  "distinct (List.map fst (get_patchset_counts_by_status d)) \<and>
   sum_list (List.map snd (get_patchset_counts_by_status d)) = length (patchsets d)"
  using sum_group_counts [of ps_status "patchsets d"]
  by (simp add: get_patchset_counts_by_status_def comp_def)

end
