(* ===== verification/Mail.thy ===== *)
theory Mail
  imports Subject
begin

text \<open>
  Reading e-mails: \<open>parse_email\<close> and \<open>extract_received_date\<close> of \<open>src/patch.rs\<close>, and the splitting of
  mailboxes and the search for a message id of \<open>src/ingestor.rs\<close>. Bytes are characters; text is
  taken to be UTF-8, on which \<open>from_utf8_lossy\<close> changes nothing. The MIME parser and the date
  parser are arguments.
\<close>

subsection \<open>What is read from a message\<close>

record PatchsetMetadata =
  md_message_id :: string
  md_subject :: string
  md_author :: string
  md_date :: int
  md_received :: "int option"
  md_in_reply_to :: "string option"
  md_references :: "string list"
  md_index :: nat
  md_total :: nat
  md_to :: string
  md_cc :: string
  md_is_patch_or_cover :: bool
  md_version :: "nat option"
  md_body :: string

record Patch =
  pt_message_id :: string
  pt_body :: string
  pt_diff :: string
  pt_part :: nat

text \<open>What \<open>mail_parser\<close> makes of the bytes.\<close>

record Addr =
  addr_name :: "string option"
  addr_address :: "string option"

datatype HeaderValue = Text string | TextList "string list" | OtherValue

record MailMessage =
  mm_message_id :: "string option"
  mm_subject :: "string option"
  mm_from :: "Addr list option"
  mm_date :: "int option"
  mm_to :: "Addr list option"
  mm_cc :: "Addr list option"
  mm_in_reply_to :: HeaderValue
  mm_references :: HeaderValue
  mm_bodies :: "string option list"

type_synonym mail_parser = "string \<Rightarrow> MailMessage option"

subsection \<open>The date of receipt\<close>

definition header_break :: string where
  "header_break = [creturn, newline, creturn, newline]"

fun before_break :: "string \<Rightarrow> string" where
  "before_break [] = []"
| "before_break (c # s) = (if starts_with (c # s) header_break then [] else c # before_break s)"

fun received_header :: "bool \<Rightarrow> string \<Rightarrow> string list \<Rightarrow> string" where
  "received_header in_received current [] = current"
| "received_header in_received current (line # ls) =
     (if starts_with line ''Received:''
      then if in_received then current else received_header True (current @ line) ls
      else if in_received \<and> (starts_with line '' '' \<or> starts_with line [tabchar])
      then received_header in_received (current @ line) ls
      else if in_received then current
      else received_header in_received current ls)"

definition extract_received_date :: "(string \<Rightarrow> int option) \<Rightarrow> string \<Rightarrow> int option" where
  "extract_received_date parse_rfc2822 raw =
     (let current = received_header False [] (lines (before_break raw))
      in if current = [] then None
         else case rfind_char CHR '';'' current of
             Some semi \<Rightarrow> parse_rfc2822 (trim (drop (semi + 1) current))
           | None \<Rightarrow> None)"

subsection \<open>Addresses\<close>

definition unknown_author :: string where
  "unknown_author = ''unknown@localhost''"

definition with_default :: "'a \<Rightarrow> 'a option \<Rightarrow> 'a" where
  "with_default x m = (case m of Some y \<Rightarrow> y | None \<Rightarrow> x)"

definition format_author :: "Addr \<Rightarrow> string" where
  "format_author a =
     (let name = trim (with_default [] (addr_name a));
          address = trim (with_default unknown_author (addr_address a));
          addr = (if address = [] \<or> CHR ''@'' \<notin> set address then unknown_author else address)
      in if name = [] \<or> lower name = ''unknown'' then addr
         else name @ '' <'' @ addr @ ''>'')"

definition author_of :: "MailMessage \<Rightarrow> string" where
  "author_of m =
     (case Option.bind (mm_from m) first of
        Some a \<Rightarrow> format_author a
      | None \<Rightarrow> unknown_author)"

definition format_recipient :: "Addr \<Rightarrow> string option" where
  "format_recipient a =
     (let address = trim (with_default [] (addr_address a))
      in if address = [] \<or> CHR ''@'' \<notin> set address then None
         else let name = trim (with_default [] (addr_name a))
              in if name = [] then Some address
                 else Some ([dquote] @ replace_char dquote [backslash, dquote] name @ [dquote] @
                            '' <'' @ address @ ''>''))"

definition recipients_of :: "Addr list option \<Rightarrow> string" where
  "recipients_of m =
     (case m of
        Some addrs \<Rightarrow> join '', '' (List.map_filter format_recipient addrs)
      | None \<Rightarrow> [])"

fun first_text :: "HeaderValue \<Rightarrow> string option" where
  "first_text (Text t) = Some t"
| "first_text (TextList l) = first l"
| "first_text OtherValue = None"

fun all_texts :: "HeaderValue \<Rightarrow> string list" where
  "all_texts (Text t) = [t]"
| "all_texts (TextList l) = l"
| "all_texts OtherValue = []"

subsection \<open>Is it a patch?\<close>

text \<open>The text bodies one after the other, a line feed between them.\<close>

fun add_bodies :: "string \<Rightarrow> string option list \<Rightarrow> string" where
  "add_bodies body [] = body"
| "add_bodies body (None # bs) = add_bodies body bs"
| "add_bodies body (Some text # bs) =
     add_bodies ((if body = [] then [] else body @ [newline]) @ text) bs"

definition diff_of_body :: "string \<Rightarrow> string" where
  "diff_of_body body =
     (if contains body ''diff --git'' \<or>
         (contains body ''--- '' \<and> contains body ''+++ '' \<and> contains body ''@@ -'')
      then body else [])"

text \<open>The UTF-8 bytes of the other Chinese word for "reply".\<close>

definition answer_zh :: string where
  "answer_zh = [CHR 0xE7, CHR 0xAD, CHR 0x94, CHR 0xE5, CHR 0xA4, CHR 0x8D]"

definition reply_marks :: "string list" where
  "reply_marks = [''re:'', ''fwd:'', ''forwarded:'', ''aw:'', ''wg:'', reply_zh @ '':'',
     reply_zh @ fullwidth_colon, answer_zh @ '':'', answer_zh @ fullwidth_colon, ''[reproducer]'']"

definition is_reply :: "string \<Rightarrow> bool" where
  "is_reply subject \<longleftrightarrow>
     (\<exists>p\<in>set reply_marks. starts_with (trim (lower subject)) p) \<or>
     contains (lower subject) ''(was '' \<or> contains (lower subject) ''(was:''"

definition is_patch_or_cover :: "string \<Rightarrow> string \<Rightarrow> nat \<Rightarrow> nat \<Rightarrow> bool" where
  "is_patch_or_cover subject df index parts \<longleftrightarrow>
     (let clean = trim (lower subject);
          has_patch_tag = contains clean ''patch'' \<or> contains clean ''rfc'';
          is_series_metadata = 1 < parts \<or> index = 0
      in \<not> is_reply subject \<and> (has_patch_tag \<or> df \<noteq> [] \<or> is_series_metadata))"

definition parse_email ::
  "engine \<Rightarrow> mail_parser \<Rightarrow> (string \<Rightarrow> int option) \<Rightarrow> string \<Rightarrow>
   string + PatchsetMetadata \<times> Patch option" where
  "parse_email rx parser parse_rfc2822 raw =
     (case parser raw of
        None \<Rightarrow> Inl ''Failed to parse email''
      | Some m \<Rightarrow>
          (case mm_message_id m of
             None \<Rightarrow> Inl ''No Message-ID header''
           | Some message_id \<Rightarrow>
               (let subject = with_default ''(no subject)'' (mm_subject m);
                    (index, parts) = parse_subject_index rx subject;
                    body = add_bodies [] (mm_bodies m);
                    df = diff_of_body body
                in Inr
                  (\<lparr>md_message_id = message_id, md_subject = subject, md_author = author_of m,
                    md_date = with_default 0 (mm_date m),
                    md_received = extract_received_date parse_rfc2822 raw,
                    md_in_reply_to = first_text (mm_in_reply_to m),
                    md_references = all_texts (mm_references m), md_index = index,
                    md_total = parts, md_to = recipients_of (mm_to m),
                    md_cc = recipients_of (mm_cc m),
                    md_is_patch_or_cover = is_patch_or_cover subject df index parts,
                    md_version = parse_subject_version rx subject, md_body = body\<rparr>,
                   if df \<noteq> [] \<and> index \<noteq> 0
                   then Some \<lparr>pt_message_id = message_id, pt_body = body, pt_diff = df,
                              pt_part = index\<rparr>
                   else None))))"

subsection \<open>Mailboxes\<close>

text \<open>\<open>split_inclusive\<close> at line feeds: every line keeps its line feed.\<close>

fun split_inclusive :: "string \<Rightarrow> string list" where
  "split_inclusive [] = []"
| "split_inclusive (c # s) =
     (if c = newline then [c] # split_inclusive s
      else case split_inclusive s of [] \<Rightarrow> [[c]] | l # ls \<Rightarrow> (c # l) # ls)"

definition is_mbox_separator :: "string \<Rightarrow> bool" where
  "is_mbox_separator line \<longleftrightarrow> starts_with line ''From '' \<and>
     2 \<le> length (filter (\<lambda>b. b = CHR '':'') line)"

fun split_emails :: "string \<Rightarrow> string list \<Rightarrow> string list" where
  "split_emails current [] = (if current = [] then [] else [current])"
| "split_emails current (line # ls) =
     (if is_mbox_separator line
      then if current \<noteq> [] then current # split_emails [] ls else split_emails [] ls
      else split_emails (current @ line) ls)"

definition split_mbox :: "string \<Rightarrow> string list" where
  "split_mbox raw = split_emails [] (split_inclusive raw)"

fun find_message_id :: "string list \<Rightarrow> string" where
  "find_message_id [] = ''unknown''"
| "find_message_id (line # ls) =
     (if starts_with (lower line) ''message-id:''
      then let val = trim (case split_once CHR '':'' line of Some (_, v) \<Rightarrow> v | None \<Rightarrow> []);
               clean = rev (dropWhile (\<lambda>c. c = CHR ''>'') (rev (dropWhile (\<lambda>c. c = CHR ''<'') val)))
           in if clean \<noteq> [] then clean else find_message_id ls
      else find_message_id ls)"

definition extract_message_id :: "string \<Rightarrow> string" where
  "extract_message_id raw = find_message_id (lines raw)"

subsection \<open>Splitting loses nothing\<close>

lemma concat_split_inclusive [simp]: "concat (split_inclusive s) = s"
proof (induction s)
  case (Cons c s)
  then show ?case by (cases "split_inclusive s") auto
qed simp

lemma split_inclusive_append:
  "s = [] \<or> last s = newline \<Longrightarrow> split_inclusive (s @ t) = split_inclusive s @ split_inclusive t"
proof (induction s)
  case (Cons c s)
  show ?case
  proof (cases "s = []")
    case False
    with Cons have IH: "split_inclusive (s @ t) = split_inclusive s @ split_inclusive t" by simp
    have "split_inclusive s \<noteq> []"
      using False concat_split_inclusive [of s] by (metis concat.simps(1))
    then obtain l ls where "split_inclusive s = l # ls" by (cases "split_inclusive s") auto
    with IH show ?thesis by simp
  qed (use Cons.prems in simp)
qed simp

lemma split_emails_no_sep:
  "\<forall>l\<in>set ls. \<not> is_mbox_separator l \<Longrightarrow> split_emails cur (ls @ ls') = split_emails (cur @ concat ls) ls'"
  by (induction ls arbitrary: cur) auto

lemma split_emails_concat:
  "concat (split_emails cur ls) = cur @ concat (filter (\<lambda>l. \<not> is_mbox_separator l) ls)"
  by (induction cur ls rule: split_emails.induct) auto

lemma split_emails_nonempty: "[] \<notin> set (split_emails cur ls)"
  by (induction cur ls rule: split_emails.induct) auto

lemma split_inclusive_line:
  "newline \<notin> set s \<Longrightarrow> split_inclusive (s @ [newline]) = [s @ [newline]]"
  by (induction s) auto

text \<open>Splitting a mailbox: nothing but the separator lines is dropped, no e-mail is empty,
  and a mailbox written as separator lines with complete e-mails between them, no line of which
  looks like a separator, gives these e-mails back.\<close>

theorem split_mbox_spec:
  shows "concat (split_mbox raw) = concat (filter (\<lambda>l. \<not> is_mbox_separator l) (split_inclusive raw)) \<and>
    [] \<notin> set (split_mbox raw) \<and>
    (\<forall>mails seps. length seps = length mails \<longrightarrow>
      (\<forall>s\<in>set seps. is_mbox_separator (s @ [newline]) \<and> newline \<notin> set s) \<longrightarrow>
      (\<forall>m\<in>set mails. m \<noteq> [] \<and> last m = newline \<and> (\<forall>l\<in>set (split_inclusive m). \<not> is_mbox_separator l)) \<longrightarrow>
      raw = concat (List.map2 (\<lambda>s m. s @ [newline] @ m) seps mails) \<longrightarrow> split_mbox raw = mails)"
proof -
  have go: "split_emails cur (split_inclusive (concat (List.map2 (\<lambda>s m. s @ [newline] @ m) seps mails))) =
      (if cur = [] then [] else [cur]) @ mails"
    if "length seps = length mails" "\<forall>s\<in>set seps. is_mbox_separator (s @ [newline]) \<and> newline \<notin> set s"
      "\<forall>m\<in>set mails. m \<noteq> [] \<and> last m = newline \<and> (\<forall>l\<in>set (split_inclusive m). \<not> is_mbox_separator l)"
    for seps mails cur
    using that
  proof (induction seps mails arbitrary: cur rule: list_induct2)
    case (Cons s seps m mails)
    let ?rest = "concat (List.map2 (\<lambda>s m. s @ [newline] @ m) seps mails)"
    have "split_inclusive (s @ [newline] @ m @ ?rest) =
        (s @ [newline]) # split_inclusive m @ split_inclusive ?rest"
      using Cons.prems split_inclusive_append [of "s @ [newline]" "m @ ?rest"]
        split_inclusive_append [of m ?rest] split_inclusive_line [of s] by simp
    with Cons show ?case by (simp add: split_emails_no_sep)
  qed simp
  show ?thesis
    using go [of _ _ "[]"] by (auto simp: split_mbox_def split_emails_concat split_emails_nonempty)
qed

theorem split_mbox_spec_witness:
  "split_mbox (''From a Thu 1:02:03'' @ [newline] @ ''From me'' @ [newline] @ ''From b 1:02:03'' @
     [newline] @ ''x'' @ [newline]) = [''From me'' @ [newline], ''x'' @ [newline]]"
proof -
  let ?seps = "[''From a Thu 1:02:03'', ''From b 1:02:03'']"
  let ?mails = "[''From me'' @ [newline], ''x'' @ [newline]]"
  have s: "\<forall>s\<in>set ?seps. is_mbox_separator (s @ [newline]) \<and> newline \<notin> set s" by code_simp
  have m: "\<forall>m\<in>set ?mails. m \<noteq> [] \<and> last m = newline \<and>
      (\<forall>l\<in>set (split_inclusive m). \<not> is_mbox_separator l)" by code_simp
  have l: "length ?seps = length ?mails" by simp
  from split_mbox_spec [THEN conjunct2, THEN conjunct2, rule_format, OF l _ _ refl] s m
  show ?thesis by simp
qed

subsection \<open>What \<open>parse_email\<close> promises\<close>

lemma format_author_at: "CHR ''@'' \<in> set (format_author a)"
  by (auto simp: format_author_def Let_def unknown_author_def)

lemma author_of_at: "CHR ''@'' \<in> set (author_of m)"
  by (auto simp: author_of_def format_author_at unknown_author_def split: option.split)

lemma format_recipient_at: "format_recipient a = Some s \<Longrightarrow> CHR ''@'' \<in> set s"
  by (auto simp: format_recipient_def Let_def split: if_splits)

text \<open>A message that parses: it has the message id of the mail, its author has an address,
  series numbers fit in 32 bits, and the patch, when there is one, carries the body as its diff
  under the same message id and a part number that is not the cover letter's. A mail without a
  message id is an error.\<close>

theorem parse_email_spec:
  assumes "parse_email rx parser date raw = Inr (md, patch)"
  shows "\<exists>m. parser raw = Some m \<and> mm_message_id m = Some (md_message_id md) \<and>
    CHR ''@'' \<in> set (md_author md) \<and> md_index md < 2 ^ 32 \<and> md_total md < 2 ^ 32 \<and>
    (patch \<noteq> None \<longleftrightarrow> diff_of_body (md_body md) \<noteq> [] \<and> md_index md \<noteq> 0) \<and>
    (\<forall>p. patch = Some p \<longrightarrow> pt_message_id p = md_message_id md \<and> pt_part p = md_index md \<and>
       pt_part p \<noteq> 0 \<and> pt_diff p = md_body md \<and> pt_diff p \<noteq> [] \<and>
       (md_is_patch_or_cover md \<longleftrightarrow> \<not> is_reply (md_subject md)))"
proof -
  obtain m i where m: "parser raw = Some m" "mm_message_id m = Some i"
    using assms by (auto simp: parse_email_def split: option.splits)
  obtain index parts where n: "parse_subject_index rx (with_default ''(no subject)'' (mm_subject m)) = (index, parts)"
    by fastforce
  let ?body = "add_bodies [] (mm_bodies m)"
  from assms m n have f: "md_message_id md = i" "md_author md = author_of m" "md_index md = index"
    "md_total md = parts" "md_body md = ?body"
    "md_is_patch_or_cover md = is_patch_or_cover (md_subject md) (diff_of_body ?body) index parts"
    and p: "patch = (if diff_of_body ?body \<noteq> [] \<and> index \<noteq> 0
      then Some \<lparr>pt_message_id = i, pt_body = ?body, pt_diff = diff_of_body ?body, pt_part = index\<rparr>
      else None)"
    by (auto simp only: parse_email_def Let_def option.case split_conv prod.inject sum.inject
        PatchsetMetadata.simps)
  have d: "diff_of_body b \<noteq> [] \<Longrightarrow> diff_of_body b = b" for b
    unfolding diff_of_body_def by presburger
  show ?thesis
    unfolding f p using m parse_subject_index_bound [OF n] author_of_at d
    by (simp add: is_patch_or_cover_def)
qed

definition sample_mail :: MailMessage where
  "sample_mail = \<lparr>mm_message_id = Some ''ab'', mm_subject = Some ''[PATCH v2 1/2] mm: fix'',
     mm_from = Some [\<lparr>addr_name = Some ''A'', addr_address = Some ''a@b''\<rparr>], mm_date = Some 100,
     mm_to = Some [\<lparr>addr_name = Some ''Doe, J'', addr_address = Some ''d@b''\<rparr>], mm_cc = None,
     mm_in_reply_to = OtherValue, mm_references = OtherValue,
     mm_bodies = [Some ''diff --git'']\<rparr>"

theorem parse_email_spec_witness:
  "\<exists>md p. parse_email backtrack (\<lambda>_. Some sample_mail) (\<lambda>_. None) ''raw'' = Inr (md, Some p) \<and>
     pt_part p = md_index md \<and> md_is_patch_or_cover md"
proof -
  let ?r = "projr (parse_email backtrack (\<lambda>_. Some sample_mail) (\<lambda>_. None) ''raw'')"
  have "\<not> isl (parse_email backtrack (\<lambda>_. Some sample_mail) (\<lambda>_. None) ''raw'')" by code_simp
  then have r: "parse_email backtrack (\<lambda>_. Some sample_mail) (\<lambda>_. None) ''raw'' = Inr (fst ?r, snd ?r)"
    by (simp add: sum.collapse)
  have s: "diff_of_body (md_body (fst ?r)) \<noteq> []" "md_index (fst ?r) \<noteq> 0" "\<not> is_reply (md_subject (fst ?r))"
    by code_simp+
  from parse_email_spec [OF r] s obtain p where "snd ?r = Some p" by blast
  with parse_email_spec [OF r] s r show ?thesis by metis
qed

end
