(* ===== verification/Email_Policy.thy ===== *)
theory Email_Policy
  imports Prelude
begin

text \<open>
  Who hears about a review: \<open>src/email_policy.rs\<close> and \<open>src/email_router.rs\<close>. A hash map of the
  policy is an association list in the order the iteration happens to take, a hash set is a
  list without duplicates; that this order does not matter is one of the lemmas.
\<close>

subsection \<open>The policy\<close>

record PatchworkPolicy =
  pw_enabled :: bool
  pw_api_url :: "string option"
  pw_token :: "string option"

record SubsystemPolicy =
  sp_lists :: "string list"
  sp_reply_all :: bool
  sp_reply_to_author :: bool
  sp_cc_individuals :: bool
  sp_mute_all :: bool
  sp_cc :: "string list"
  sp_ignored_emails :: "string list"
  sp_subject_prefixes :: "string list"
  sp_patchwork :: PatchworkPolicy
  sp_embargo_hours :: "nat option"
  sp_send_positive_review :: bool

record EmailPolicyConfig =
  defaults :: SubsystemPolicy
  policies :: "(string \<times> SubsystemPolicy) list"

abbreviation policy_values :: "EmailPolicyConfig \<Rightarrow> SubsystemPolicy list" where
  "policy_values policy \<equiv> List.map snd (policies policy)"

definition default_patchwork :: PatchworkPolicy where
  "default_patchwork = \<lparr>pw_enabled = False, pw_api_url = None, pw_token = None\<rparr>"

definition default_policy :: SubsystemPolicy where
  "default_policy =
     \<lparr>sp_lists = [], sp_reply_all = False, sp_reply_to_author = False, sp_cc_individuals = False,
      sp_mute_all = False, sp_cc = [], sp_ignored_emails = [], sp_subject_prefixes = [],
      sp_patchwork = default_patchwork, sp_embargo_hours = None, sp_send_positive_review = False\<rparr>"

text \<open>\<open>load\<close>: the file is read by \<open>contents\<close> (\<open>None\<close> when the path does not exist), \<open>from_toml\<close>
  parses it.\<close>

definition load_policy ::
  "('p \<Rightarrow> (string + string) option) \<Rightarrow> (string \<Rightarrow> string + EmailPolicyConfig) \<Rightarrow> 'p \<Rightarrow>
   string + EmailPolicyConfig" where
  "load_policy contents from_toml path =
     (case contents path of
        None \<Rightarrow> Inr \<lparr>defaults = default_policy, policies = []\<rparr>
      | Some r \<Rightarrow> res_bind r from_toml)"

subsection \<open>Routing\<close>

datatype Action = Mute | Send "string list" "string list" bool

text \<open>An entry of the policy applies when one of its lists occurs in a recipient.\<close>

definition policy_matches :: "string list \<Rightarrow> SubsystemPolicy \<Rightarrow> bool" where
  "policy_matches all_incoming p \<longleftrightarrow>
     (\<exists>l\<in>set (sp_lists p). \<exists>a\<in>set all_incoming. contains (lower a) (lower l))"

definition resolve_patchwork ::
  "EmailPolicyConfig \<Rightarrow> string list \<Rightarrow> string list \<Rightarrow> PatchworkPolicy list" where
  "resolve_patchwork policy incoming_to incoming_cc =
     (let matched = List.map sp_patchwork
            (filter (policy_matches (incoming_to @ incoming_cc)) (policy_values policy));
          matched_policies = (if matched = [] then [sp_patchwork (defaults policy)] else matched)
      in filter pw_enabled matched_policies)"

definition active_policies :: "EmailPolicyConfig \<Rightarrow> string list \<Rightarrow> SubsystemPolicy list" where
  "active_policies policy all_incoming =
     (let ps = filter (policy_matches all_incoming) (policy_values policy)
      in if ps = [] then [defaults policy] else ps)"

definition known_mailing_lists :: "EmailPolicyConfig \<Rightarrow> string list" where
  "known_mailing_lists policy =
     remdups (List.map lower (concat (List.map sp_lists (policy_values policy))))"

definition is_mailing_list :: "EmailPolicyConfig \<Rightarrow> string \<Rightarrow> bool" where
  "is_mailing_list policy addr \<longleftrightarrow> (\<exists>ml\<in>set (known_mailing_lists policy). contains (lower addr) ml)"

text \<open>Which of the recipients of the patch get the reply.\<close>

definition keep_incoming :: "EmailPolicyConfig \<Rightarrow> SubsystemPolicy list \<Rightarrow> string \<Rightarrow> bool" where
  "keep_incoming policy active addr \<longleftrightarrow>
     (let is_private = (\<exists>p\<in>set active. \<not> sp_reply_all p);
          cc_individuals = (\<exists>p\<in>set active. sp_cc_individuals p)
      in \<not> is_private \<or> (cc_individuals \<and> \<not> is_mailing_list policy addr))"

definition final_to ::
  "EmailPolicyConfig \<Rightarrow> SubsystemPolicy list \<Rightarrow> string list \<Rightarrow> string \<Rightarrow> string \<Rightarrow> string list" where
  "final_to policy active incoming_to patch_author sashiko_lower =
     (let reply_to_author = (\<exists>p\<in>set active. sp_reply_to_author p)
      in filter (\<lambda>a. \<not> contains (lower a) sashiko_lower) (remdups
           ((if reply_to_author \<and> patch_author \<noteq> [] then [patch_author] else []) @
            filter (keep_incoming policy active) incoming_to)))"

definition final_cc ::
  "EmailPolicyConfig \<Rightarrow> SubsystemPolicy list \<Rightarrow> string list \<Rightarrow> string list \<Rightarrow> string \<Rightarrow> string list" where
  "final_cc policy active incoming_cc to sashiko_lower =
     (let cc = concat (List.map sp_cc active) @ sp_cc (defaults policy)
      in filter (\<lambda>a. \<not> contains (lower a) sashiko_lower \<and> a \<notin> set to) (remdups
           (cc @ filter (keep_incoming policy active) incoming_cc)))"

definition resolve_recipients ::
  "EmailPolicyConfig \<Rightarrow> string list \<Rightarrow> string list \<Rightarrow> string \<Rightarrow> string \<Rightarrow> Action" where
  "resolve_recipients policy incoming_to incoming_cc patch_author sashiko_address =
     (let active = active_policies policy (incoming_to @ incoming_cc);
          to = final_to policy active incoming_to patch_author (lower sashiko_address);
          cc = final_cc policy active incoming_cc to (lower sashiko_address)
      in if (\<exists>p\<in>set active. sp_mute_all p) then Mute
         else if to = [] \<and> cc = [] then Mute
         else Send to cc (\<exists>p\<in>set active. sp_send_positive_review p))"

definition is_ignored_author :: "EmailPolicyConfig \<Rightarrow> string \<Rightarrow> bool" where
  "is_ignored_author policy author_email \<longleftrightarrow>
     (let ignores = (\<lambda>p. \<exists>e\<in>set (sp_ignored_emails p). contains (lower author_email) (lower e))
      in ignores (defaults policy) \<or> (\<exists>p\<in>set (policy_values policy). ignores p))"

subsection \<open>Lemmas\<close>

text \<open>An action as the sets the code builds.\<close>

fun action_sets :: "Action \<Rightarrow> (string set \<times> string set \<times> bool) option" where
  "action_sets Mute = None"
| "action_sets (Send to cc b) = Some (set to, set cc, b)"

lemma set_known: "set (known_mailing_lists policy) = lower ` (\<Union>p\<in>set (policy_values policy). set (sp_lists p))"
  by (auto simp: known_mailing_lists_def)

lemma set_active:
  "set (active_policies policy inc) =
     (let M = {p \<in> set (policy_values policy). policy_matches inc p}
      in if M = {} then {defaults policy} else M)"
  by (auto simp: active_policies_def Let_def filter_empty_conv)

lemma Send_parts:
  assumes "resolve_recipients policy to cc author me = Send t c b"
  shows "t = final_to policy (active_policies policy (to @ cc)) to author (lower me)"
    and "c = final_cc policy (active_policies policy (to @ cc)) cc t (lower me)"
    and "\<forall>p\<in>set (active_policies policy (to @ cc)). \<not> sp_mute_all p" "t \<noteq> [] \<or> c \<noteq> []"
  using assms by (auto simp: resolve_recipients_def Let_def split: if_splits)

lemma set_final_to:
  "set (final_to policy active to author me) =
     {a. \<not> contains (lower a) me \<and>
         ((\<exists>p\<in>set active. sp_reply_to_author p) \<and> a = author \<and> author \<noteq> [] \<or>
          a \<in> set to \<and> keep_incoming policy active a)}"
  by (auto simp: final_to_def)

lemma set_final_cc:
  "set (final_cc policy active cc t me) =
     {a. \<not> contains (lower a) me \<and> a \<notin> set t \<and>
         ((\<exists>p\<in>set (defaults policy # active). a \<in> set (sp_cc p)) \<or>
          a \<in> set cc \<and> keep_incoming policy active a)}"
  by (auto simp: final_cc_def)

lemma distinct_final [simp]:
  "distinct (final_to policy active to author me)" "distinct (final_cc policy active cc t me)"
  by (simp_all add: final_to_def final_cc_def)

text \<open>A policy for examples: mail for a private list of subsystem \<open>mm\<close> goes to the author.\<close>

definition sample_policy :: EmailPolicyConfig where
  "sample_policy = \<lparr>defaults = default_policy\<lparr>sp_cc := [''Log@x'']\<rparr>,
     policies = [(''mm'', default_policy\<lparr>sp_lists := [''mm@k''], sp_reply_to_author := True,
                    sp_cc_individuals := True, sp_embargo_hours := Some 24\<rparr>),
                 (''net'', default_policy\<lparr>sp_lists := [''net@k''], sp_mute_all := True\<rparr>)]\<rparr>"

lemma sample_route:
  "resolve_recipients sample_policy [''Mm <MM@k>'', ''a@x''] [''S <me@x>'', ''b@x''] ''c@x'' ''Me@x'' =
     Send [''c@x'', ''a@x''] [''Log@x'', ''b@x''] False"
  by code_simp

lemma never_to_self:
  assumes "resolve_recipients policy to cc author me = Send t c b" "a \<in> set (t @ c)"
  shows "\<not> contains (lower a) (lower me)"
  using Send_parts [OF assms(1)] assms(2) by (auto simp: set_final_to set_final_cc)

text \<open>What is sent goes to somebody, names nobody twice, never goes back to the address the
  reviews come from, and is not sent at all when an applying policy mutes it.\<close>

theorem recipients_sane:
  assumes "resolve_recipients policy to cc author me = Send t c b"
  shows "t @ c \<noteq> [] \<and> distinct (t @ c) \<and>
    (\<forall>a\<in>set (t @ c). \<not> contains (lower a) (lower me)) \<and>
    (\<forall>p\<in>set (active_policies policy (to @ cc)). \<not> sp_mute_all p)"
  using Send_parts [OF assms] by (auto simp: set_final_to set_final_cc)

theorem recipients_sane_witness:
  "distinct ([''c@x'', ''a@x''] @ [''Log@x'', ''b@x''])"
  using recipients_sane [OF sample_route] by (elim conjE)

lemma private_recipient:
  assumes "resolve_recipients policy to cc author me = Send t c b"
    and "p \<in> set (active_policies policy (to @ cc))" "\<not> sp_reply_all p" "a \<in> set (t @ c)"
  shows "a = author \<or> (\<exists>q\<in>set (defaults policy # active_policies policy (to @ cc)). a \<in> set (sp_cc q)) \<or>
    (a \<in> set (to @ cc) \<and> \<not> is_mailing_list policy a \<and>
     (\<exists>q\<in>set (active_policies policy (to @ cc)). sp_cc_individuals q))"
proof -
  note s = Send_parts(1,2) [OF assms(1)]
  have k: "keep_incoming policy (active_policies policy (to @ cc)) x \<Longrightarrow>
      \<not> is_mailing_list policy x \<and> (\<exists>q\<in>set (active_policies policy (to @ cc)). sp_cc_individuals q)" for x
    using assms(2,3) by (auto simp: keep_incoming_def Let_def)
  show ?thesis
    using assms(4) k unfolding s set_append set_final_to set_final_cc by auto
qed

text \<open>A private policy keeps the lists out: when one of the applying policies does not reply
  to all, every address the reply goes to is the author, one the policy itself names, or a
  recipient of the patch that is on no known mailing list, and the latter only if a policy asks
  for individuals.\<close>

theorem private_reply:
  assumes "resolve_recipients policy to cc author me = Send t c b"
    and "p \<in> set (active_policies policy (to @ cc))" "\<not> sp_reply_all p" "a \<in> set (t @ c)"
  shows "a = author \<or> (\<exists>q\<in>set (defaults policy # active_policies policy (to @ cc)). a \<in> set (sp_cc q)) \<or>
    (a \<in> set (to @ cc) \<and> \<not> is_mailing_list policy a \<and>
     (\<exists>q\<in>set (active_policies policy (to @ cc)). sp_cc_individuals q))"
  using assms by (rule private_recipient)

theorem private_reply_witness:
  "\<not> is_mailing_list sample_policy ''b@x''"
proof -
  let ?p = "snd (hd (policies sample_policy))"
  have "active_policies sample_policy ([''Mm <MM@k>'', ''a@x''] @ [''S <me@x>'', ''b@x'']) = [?p]" by code_simp
  moreover have "\<not> sp_reply_all ?p" "sp_cc ?p = []" "sp_cc (defaults sample_policy) = [''Log@x'']"
    by code_simp+
  ultimately show ?thesis
    using private_reply [OF sample_route, of ?p "''b@x''"] by simp
qed

text \<open>The order in which a hash map of policies is walked does not matter: policies with the
  same entries give the same action, up to the order of the addresses.\<close>

theorem recipients_order_free:
  assumes "defaults policy = defaults policy'" "set (policy_values policy) = set (policy_values policy')"
  shows "action_sets (resolve_recipients policy to cc author me) =
    action_sets (resolve_recipients policy' to cc author me)"
proof -
  have a: "set (active_policies policy (to @ cc)) = set (active_policies policy' (to @ cc))"
    by (simp only: set_active assms)
  have m: "is_mailing_list policy x = is_mailing_list policy' x" for x
    by (simp only: is_mailing_list_def set_known assms)
  have k: "keep_incoming policy (active_policies policy (to @ cc)) x =
      keep_incoming policy' (active_policies policy' (to @ cc)) x" for x
    by (simp only: keep_incoming_def a m)
  have t: "set (final_to policy (active_policies policy (to @ cc)) to author (lower me)) =
      set (final_to policy' (active_policies policy' (to @ cc)) to author (lower me))" (is "?t = ?t'")
    by (simp only: set_final_to a k)
  have c: "set (final_cc policy (active_policies policy (to @ cc)) cc xs (lower me)) =
      set (final_cc policy' (active_policies policy' (to @ cc)) cc ys (lower me))"
    if "set xs = set ys" for xs ys
    by (simp add: set_final_cc a k that assms(1))
  show ?thesis
    unfolding resolve_recipients_def Let_def if_distrib [of action_sets] action_sets.simps
    by (simp only: set_empty [symmetric] t c [OF t] a)
qed

theorem recipients_order_free_witness:
  "action_sets (resolve_recipients (sample_policy\<lparr>policies := rev (policies sample_policy)\<rparr>)
      [''Mm <MM@k>'', ''a@x''] [''S <me@x>'', ''b@x''] ''c@x'' ''Me@x'') =
    Some ({''c@x'', ''a@x''}, {''Log@x'', ''b@x''}, False)"
proof -
  let ?q = "sample_policy\<lparr>policies := rev (policies sample_policy)\<rparr>"
  have "defaults ?q = defaults sample_policy" "set (policy_values ?q) = set (policy_values sample_policy)"
    by simp_all
  from recipients_order_free [OF this] show ?thesis by (simp add: sample_route)
qed

end
