(* ===== verification/Article.thy ===== *)
theory Article
  imports Patchset_Status Mail Email_Policy "HOL-Library.Product_Lexorder"
begin

text \<open>
  Taking an article into the store: \<open>process_parsed_article\<close> of \<open>src/main.rs\<close> with the functions
  it uses to find the recipients, the subsystems and the embargo of a patch. Calls that cannot
  fail in the store model have no error branch here.
\<close>

subsection \<open>Articles\<close>

record ParsedArticle =
  ar_group :: string
  ar_article_id :: string
  ar_metadata :: "PatchsetMetadata option"
  ar_patch :: "Patch option"
  ar_baseline :: "string option"
  ar_repo_url :: "string option"
  ar_failed_error :: "string option"
  ar_skip :: "string list option"
  ar_only :: "string list option"

datatype ProcessStatus = Ingested | ArticleError

definition PARSER_VERSION :: int where
  "PARSER_VERSION = 2"

subsection \<open>Recipients\<close>

definition parse_recipient :: "string \<Rightarrow> string option \<times> string" where
  "parse_recipient raw =
     (case (find_char CHR ''<'' raw, find_char CHR ''>'' raw) of
        (Some start, Some stop) \<Rightarrow>
          if start < stop
          then let name = trim (take start raw)
               in (if name = [] then None else Some name, trim (substr raw (start + 1) stop))
          else (None, raw)
      | _ \<Rightarrow> (None, raw))"

definition recipient_list :: "string \<Rightarrow> (string option \<times> string) list" where
  "recipient_list s =
     filter (\<lambda>(_, email). email \<noteq> [])
       (List.map parse_recipient (filter (\<lambda>r. r \<noteq> []) (List.map trim (split_char CHR '','' s))))"

definition add_recipient :: "int \<Rightarrow> string \<Rightarrow> string option \<times> string \<Rightarrow> db \<Rightarrow> db" where
  "add_recipient message_id recipient_type r d =
     (case ensure_person (fst r) (snd r) d of
        (Inr person_id, d') \<Rightarrow> add_message_recipient message_id person_id recipient_type d'
      | (Inl _, d') \<Rightarrow> d')"

definition process_recipients :: "int \<Rightarrow> string \<Rightarrow> string \<Rightarrow> db \<Rightarrow> db" where
  "process_recipients message_id rcpts recipient_type d =
     fold (add_recipient message_id recipient_type) (recipient_list rcpts) d"

subsection \<open>Subject prefixes and embargo\<close>

text \<open>The loop over the characters of the subject, giving the contents of the brackets.\<close>

fun bracket_blocks :: "bool \<Rightarrow> string \<Rightarrow> string \<Rightarrow> string list" where
  "bracket_blocks in_bracket current [] = []"
| "bracket_blocks in_bracket current (c # s) =
     (if c = CHR ''['' then bracket_blocks True [] s
      else if c = CHR '']''
      then if in_bracket then current # bracket_blocks False current s
           else bracket_blocks False current s
      else if in_bracket then bracket_blocks in_bracket (current @ [c]) s
      else bracket_blocks in_bracket current s)"

definition keep_part :: "string \<Rightarrow> bool" where
  "keep_part part \<longleftrightarrow> part \<noteq> ''patch'' \<and> part \<noteq> ''rfc'' \<and>
     \<not> (starts_with part ''v'' \<and> list_all is_digit (drop 1 part)) \<and>
     \<not> (CHR ''/'' \<in> set part \<and> list_all (\<lambda>c. is_digit c \<or> c = CHR ''/'') part) \<and> part \<noteq> []"

definition extract_subject_prefixes :: "string \<Rightarrow> string list" where
  "extract_subject_prefixes subject =
     concat (List.map (\<lambda>block. filter keep_part (List.map lower (split_whitespace block)))
       (bracket_blocks False [] subject))"

text \<open>One entry per subsystem of the patch and policy that lists it.\<close>

definition matched_subsystem_policies ::
  "(string \<times> string) list \<Rightarrow> EmailPolicyConfig \<Rightarrow> SubsystemPolicy list" where
  "matched_subsystem_policies subs policy =
     concat (List.map (\<lambda>(_, email).
       filter (\<lambda>p. \<exists>l\<in>set (sp_lists p). contains email l) (policy_values policy)) subs)"

definition prefix_listed :: "string list \<Rightarrow> SubsystemPolicy \<Rightarrow> bool" where
  "prefix_listed prefixes p \<longleftrightarrow>
     (\<exists>x\<in>set prefixes. \<exists>q\<in>set (sp_subject_prefixes p). lower q = lower x)"

fun min_list1 :: "nat \<Rightarrow> nat list \<Rightarrow> nat" where
  "min_list1 m [] = m"
| "min_list1 m (x # xs) = min_list1 (min m x) xs"

definition calculate_embargo_hours ::
  "string \<Rightarrow> (string \<times> string) list \<Rightarrow> EmailPolicyConfig \<Rightarrow> nat" where
  "calculate_embargo_hours subject subs policy =
     (let prefixes = extract_subject_prefixes subject;
          matched = matched_subsystem_policies subs policy;
          explicit_delays = List.map_filter sp_embargo_hours matched;
          prefix_matched_delays =
            List.map_filter sp_embargo_hours (filter (prefix_listed prefixes) matched);
          delays = (if prefix_matched_delays \<noteq> [] then prefix_matched_delays else explicit_delays)
      in case delays of
           x # xs \<Rightarrow> min_list1 x xs
         | [] \<Rightarrow> with_default 0 (sp_embargo_hours (defaults policy)))"

subsection \<open>Subsystems\<close>

definition static_lists :: "(string \<times> string) list" where
  "static_lists =
     [(''LKML'', ''linux-kernel@vger.kernel.org''), (''netdev'', ''netdev@vger.kernel.org''),
      (''bpf'', ''bpf@vger.kernel.org''), (''usb'', ''linux-usb@vger.kernel.org''),
      (''fsdevel'', ''linux-fsdevel@vger.kernel.org''), (''linux-mm'', ''linux-mm@kvack.org'')]"

definition list_hosts :: "string list" where
  "list_hosts = [''@vger.kernel.org'', ''@lists.linux.dev'', ''@lists.infradead.org'']"

definition subsystem_of :: "string \<Rightarrow> (string \<times> string) option" where
  "subsystem_of email =
     (case List.find (\<lambda>(_, addr). contains (lower email) addr) static_lists of
        Some s \<Rightarrow> Some s
      | None \<Rightarrow>
          if \<exists>h\<in>set list_hosts. ends_with (lower email) h
          then Some (hd (split_char CHR ''@'' (lower email)), lower email)
          else None)"

definition identify_subsystems :: "string \<Rightarrow> string \<Rightarrow> (string \<times> string) list" where
  "identify_subsystems to cc =
     remdups_adj (sort (List.map_filter subsystem_of
       (filter (\<lambda>e. e \<noteq> []) (List.map trim (split_char CHR '','' (to @ '', '' @ cc))))))"

fun ensure_subsystems :: "(string \<times> string) list \<Rightarrow> db \<Rightarrow> int list \<times> db" where
  "ensure_subsystems [] d = ([], d)"
| "ensure_subsystems ((name, email) # ss) d =
     (case ensure_subsystem name email d of
        (Inr sid, d') \<Rightarrow> (let (sids, d'') = ensure_subsystems ss d' in (sid # sids, d''))
      | (Inl _, d') \<Rightarrow> ensure_subsystems ss d')"

subsection \<open>The thread of an article\<close>

definition git_import :: string where "git_import = ''git-import:''"

definition by_article_id :: "string \<Rightarrow> bool" where
  "by_article_id grp \<longleftrightarrow> grp = ''git-fetch'' \<or> grp = ''api-submit''"

text \<open>\<open>count:range\<close>; without a colon there is no count.\<close>

definition import_count_range :: "string \<Rightarrow> nat \<times> string" where
  "import_count_range rest =
     (case split_once CHR '':'' rest of
        Some (n, rng) \<Rightarrow> (with_default 0 (parse_u32 n), rng)
      | None \<Rightarrow> (0, rest))"

definition safe_range :: "string \<Rightarrow> string" where
  "safe_range rng = List.map (\<lambda>c. if c \<in> set ''/: .'' then CHR ''_'' else c) rng"

definition import_root :: "string \<Rightarrow> string" where
  "import_root rng = ''git-import-'' @ safe_range rng @ ''@sashiko.local''"

text \<open>The message an article's thread hangs on.\<close>

definition thread_root :: "string \<Rightarrow> string \<Rightarrow> PatchsetMetadata \<Rightarrow> string" where
  "thread_root grp article_id md =
     (case strip_prefix git_import grp of
        Some rest \<Rightarrow> import_root (snd (import_count_range rest))
      | None \<Rightarrow>
          if by_article_id grp then article_id @ ''@sashiko.local''
          else case md_in_reply_to md of
              Some reply_to \<Rightarrow> reply_to
            | None \<Rightarrow> md_message_id md)"

definition git_import_total :: "string \<Rightarrow> nat" where
  "git_import_total grp =
     (case strip_prefix git_import grp of
        Some rest \<Rightarrow> fst (import_count_range rest)
      | None \<Rightarrow> 0)"

definition is_git_import :: "string \<Rightarrow> bool" where
  "is_git_import grp \<longleftrightarrow> strip_prefix git_import grp \<noteq> None"

subsection \<open>The steps after the thread is known\<close>

definition is_git_hash :: "string \<Rightarrow> bool" where
  "is_git_hash article_id \<longleftrightarrow> length article_id = 40 \<and> list_all is_hexdigit article_id"

definition article_message :: "string \<Rightarrow> string \<Rightarrow> int \<Rightarrow> PatchsetMetadata \<Rightarrow> message_row" where
  "article_message grp article_id thread_id md =
     (let archived = is_git_hash article_id \<and> starts_with grp ''git-import''
      in \<lparr>me_id = 0, me_message_id = md_message_id md, me_thread = thread_id,
          me_in_reply_to = md_in_reply_to md, me_author = md_author md,
          me_subject = md_subject md, me_date = md_date md,
          me_body = (if archived then [] else md_body md), me_to = md_to md, me_cc = md_cc md,
          me_blob = (if archived then Some article_id else None), me_list = Some grp\<rparr>)"

definition article_subsystems :: "string \<Rightarrow> PatchsetMetadata \<Rightarrow> (string \<times> string) list" where
  "article_subsystems grp md =
     identify_subsystems (md_to md) (md_cc md) @
     (if starts_with grp ''git-import'' then [(''from git'', ''git-import'')] else [])"

definition link_subsystem :: "int \<Rightarrow> int \<Rightarrow> int \<Rightarrow> db \<Rightarrow> db" where
  "link_subsystem msg_id_db thread_id sid d =
     add_subsystem_to_thread thread_id sid (add_subsystem_to_message msg_id_db sid d)"

definition link_message :: "string \<Rightarrow> int \<Rightarrow> int list \<Rightarrow> PatchsetMetadata \<Rightarrow> db \<Rightarrow> db" where
  "link_message grp thread_id subsystem_ids md d =
     (case get_message_id_by_msg_id (md_message_id md) d of
        None \<Rightarrow> d
      | Some msg_id_db \<Rightarrow>
          (let d1 = (case get_mailing_list_id_by_name grp d of
                       Some list_id \<Rightarrow> add_message_to_mailing_list msg_id_db list_id d
                     | None \<Rightarrow> d);
               d2 = fold (link_subsystem msg_id_db thread_id) subsystem_ids d1;
               d3 = process_recipients msg_id_db (md_to md) ''To'' d2
           in process_recipients msg_id_db (md_cc md) ''Cc'' d3))"

definition cover_letter_id :: "string \<Rightarrow> string \<Rightarrow> PatchsetMetadata \<Rightarrow> string option" where
  "cover_letter_id grp article_id md =
     (if by_article_id grp then Some (article_id @ ''@sashiko.local'')
      else if md_index md = 0 \<or> md_total md = 1 then Some (md_message_id md)
      else md_in_reply_to md)"

definition article_args ::
  "ParsedArticle \<Rightarrow> PatchsetMetadata \<Rightarrow> int \<Rightarrow> int option \<Rightarrow> PatchsetArgs" where
  "article_args a md thread_id baseline_id =
     (let grp = ar_group a;
          import = is_git_import grp;
          rng = (case Option.bind (strip_prefix git_import grp) (split_once CHR '':'') of
                     Some (_, r) \<Rightarrow> r | None \<Rightarrow> ''unknown'')
      in \<lparr>a_thread = thread_id, a_cover = cover_letter_id grp (ar_article_id a) md,
          a_message_id = md_message_id md,
          a_subject = (if import then ''Git Import: '' @ rng else md_subject md),
          a_author = (if import then ''Sashiko Git Import'' else md_author md),
          a_date = md_date md,
          a_total = (if import \<and> 0 < git_import_total grp then git_import_total grp
                     else md_total md),
          a_parser_version = PARSER_VERSION, a_to = md_to md, a_cc = md_cc md,
          a_version = md_version md, a_part = md_index md, a_baseline = baseline_id,
          a_strict_author = (if import then False else \<not> starts_with grp ''git-import''),
          a_skip = ar_skip a, a_only = ar_only a\<rparr>)"

definition embargo_until ::
  "string \<Rightarrow> (string \<times> string) list \<Rightarrow> EmailPolicyConfig \<Rightarrow> PatchsetMetadata \<Rightarrow> int \<Rightarrow> int option" where
  "embargo_until subject subs policy md now =
     (let hours = calculate_embargo_hours subject subs policy
      in if 0 < hours then Some (with_default now (md_received md) + int hours * 3600) else None)"

text \<open>The patchset exists: its embargo, its subsystems, its patch.\<close>

definition finish_patchset ::
  "int \<Rightarrow> int option \<Rightarrow> int list \<Rightarrow> Patch option \<Rightarrow> db \<Rightarrow> ProcessStatus \<times> db" where
  "finish_patchset patchset_id until subsystem_ids patch_opt d =
     (let d1 = (case until of
                  Some t \<Rightarrow> set_patchset_embargo_until patchset_id t d | None \<Rightarrow> d);
          d2 = fold (add_subsystem_to_patchset patchset_id) subsystem_ids d1
      in case patch_opt of
           None \<Rightarrow> (Ingested, d2)
         | Some p \<Rightarrow>
             (case create_patch patchset_id (pt_message_id p) (pt_part p) (pt_diff p) d2 of
                (Inl _, d3) \<Rightarrow> (ArticleError, d3)
              | (Inr patch_id, d3) \<Rightarrow>
                  (Ingested, fold (add_subsystem_to_patch patch_id) subsystem_ids d3)))"

definition ignored :: "EmailPolicyConfig \<Rightarrow> PatchsetMetadata \<Rightarrow> bool" where
  "ignored policy md \<longleftrightarrow> is_ignored_author policy (extract_email (md_author md))"

definition resolve_baseline :: "ParsedArticle \<Rightarrow> db \<Rightarrow> int option \<times> db" where
  "resolve_baseline a d =
     (case ar_baseline a of
        Some b \<Rightarrow> (let (i, d') = create_baseline (ar_repo_url a) None (Some b) d in (Some i, d'))
      | None \<Rightarrow> (None, d))"

definition store_patchset ::
  "engine \<Rightarrow> EmailPolicyConfig \<Rightarrow> int \<Rightarrow> ParsedArticle \<Rightarrow> PatchsetMetadata \<Rightarrow> Patch option \<Rightarrow> int \<Rightarrow>
   int option \<Rightarrow> int list \<Rightarrow> db \<Rightarrow> ProcessStatus \<times> db" where
  "store_patchset rx policy now a md patch_opt thread_id baseline_id subsystem_ids d =
     (let args = article_args a md thread_id baseline_id;
          until = embargo_until (a_subject args) (article_subsystems (ar_group a) md) policy md now
      in case create_patchset rx args d of
           (Inr (Some patchset_id), d') \<Rightarrow>
             finish_patchset patchset_id until subsystem_ids patch_opt d'
         | (Inr None, d') \<Rightarrow> (Ingested, d')
         | (Inl _, d') \<Rightarrow> (ArticleError, d'))"

definition process_parsed_article ::
  "engine \<Rightarrow> EmailPolicyConfig \<Rightarrow> int \<Rightarrow> ParsedArticle \<Rightarrow> db \<Rightarrow> ProcessStatus \<times> db" where
  "process_parsed_article rx policy now a d =
     (case ar_failed_error a of
        Some err \<Rightarrow> (Ingested, update_patchset_error (ar_article_id a) err d)
      | None \<Rightarrow>
          (case ar_metadata a of
             None \<Rightarrow> (ArticleError, d)
           | Some md \<Rightarrow>
               (let grp = ar_group a;
                    is_patch = md_is_patch_or_cover md \<and> \<not> ignored policy md;
                    patch_opt = (if ignored policy md then None else ar_patch a);
                    (baseline_id, d1) = resolve_baseline a d;
                    (thread_id, d2) = ensure_thread_for_message
                      (thread_root grp (ar_article_id a) md) (md_date md) d1;
                    d3 = create_message (article_message grp (ar_article_id a) thread_id md) d2;
                    (subsystem_ids, d4) = ensure_subsystems (article_subsystems grp md) d3;
                    d5 = link_message grp thread_id subsystem_ids md d4
                in if is_patch
                   then store_patchset rx policy now a md patch_opt thread_id baseline_id
                          subsystem_ids d5
                   else (Ingested, d5))))"

subsection \<open>Every step keeps the store consistent\<close>

text \<open>The tables an article's later steps refer to stay as they are.\<close>

definition same_tables :: "db \<Rightarrow> db \<Rightarrow> bool" where
  "same_tables d d' \<longleftrightarrow> threads d' = threads d \<and> messages d' = messages d \<and>
     baselines d' = baselines d \<and> subsystems d' = subsystems d \<and> patchsets d' = patchsets d \<and>
     patches d' = patches d \<and> mailing_lists d' = mailing_lists d"

lemma same_refl [simp]: "same_tables d d" by (simp add: same_tables_def)

lemma same_trans: "same_tables d d' \<Longrightarrow> same_tables d' d'' \<Longrightarrow> same_tables d d''"
  by (simp add: same_tables_def)

lemma fold_inv_same:
  assumes "\<And>x e. x \<in> set xs \<Longrightarrow> store_inv e \<Longrightarrow> same_tables d e \<Longrightarrow> store_inv (f x e) \<and> same_tables e (f x e)"
    and "store_inv e" "same_tables d e"
  shows "store_inv (fold f xs e) \<and> same_tables d (fold f xs e)"
  using assms
proof (induction xs arbitrary: e)
  case (Cons x xs)
  from Cons.prems(1) [of x e] Cons.prems(2,3) have "store_inv (f x e)" "same_tables d (f x e)"
    by (auto intro: same_trans)
  with Cons show ?case by simp
qed simp

lemma resolve_baseline_inv:
  assumes "resolve_baseline a d = (b, d')" "store_inv d"
  shows "store_inv d' \<and> (\<forall>i. b = Some i \<longrightarrow> i \<in> ids bl_id (baselines d')) \<and> messages d' = messages d"
proof (cases "ar_baseline a")
  case (Some s)
  obtain i e where c: "create_baseline (ar_repo_url a) None (Some s) d = (i, e)" by fastforce
  with assms Some have "b = Some i" "d' = e" by (simp_all add: resolve_baseline_def)
  with create_baseline_spec [OF c assms(2)] show ?thesis
    by (metis db.ext_inject db.surjective db.update_convs(5) option.inject)
qed (use assms in \<open>simp add: resolve_baseline_def\<close>)

lemma resolve_baseline_patches:
  assumes "resolve_baseline a d = (b, d')"
  shows "patches d' = patches d" "patchsets d' = patchsets d"
  using assms by (auto simp: resolve_baseline_def create_baseline_def Let_def split: option.splits prod.splits)

lemma ensure_subsystems_inv:
  assumes "ensure_subsystems ss d = (sids, d')" "store_inv d"
  shows "store_inv d' \<and> set sids \<subseteq> ids su_id (subsystems d') \<and>
    ids su_id (subsystems d) \<subseteq> ids su_id (subsystems d') \<and> d' = d\<lparr>subsystems := subsystems d'\<rparr>"
  using assms
proof (induction ss arbitrary: d d' sids)
  case (Cons x ss)
  obtain name email where x: "x = (name, email)" by fastforce
  obtain r e where e: "ensure_subsystem name email d = (r, e)" by fastforce
  from ensure_subsystem_spec [OF e Cons.prems(2)] obtain i where
    i: "store_inv e" "r = Inr i" "i \<in> ids su_id (subsystems e)" "e = d\<lparr>subsystems := subsystems e\<rparr>"
    by blast
  obtain sids' f where f: "ensure_subsystems ss e = (sids', f)" by fastforce
  have "sids = i # sids'" "d' = f" using Cons.prems(1) x e i(2) f by simp_all
  moreover note Cons.IH [OF f i(1)]
  moreover have "ids su_id (subsystems d) \<subseteq> ids su_id (subsystems e)"
    using e by (auto simp: ensure_subsystem_def Let_def split: if_splits option.splits)
  moreover have "f = d\<lparr>subsystems := subsystems f\<rparr>"
  proof -
    obtain s where s: "e = d\<lparr>subsystems := s\<rparr>" using i(4) by blast
    obtain s' where s': "f = e\<lparr>subsystems := s'\<rparr>" using Cons.IH [OF f i(1)] by blast
    show ?thesis by (simp add: s s')
  qed
  ultimately show ?case using i(3) by auto
qed simp

lemma add_recipient_inv:
  assumes "store_inv d" "m \<in> ids me_id (messages d)"
  shows "store_inv (add_recipient m t r d) \<and> same_tables d (add_recipient m t r d)"
proof -
  obtain x e where e: "ensure_person (fst r) (snd r) d = (x, e)" by fastforce
  from ensure_person_spec [OF e assms(1)] obtain i where i: "store_inv e" "x = Inr i"
    "i \<in> ids pe_id (people e)" "e = d\<lparr>people := people e\<rparr>" by blast
  have m: "messages e = messages d" "same_tables d e"
    by (subst i(4), simp add: same_tables_def)+
  have "same_tables d (add_message_recipient m i t e)"
    using m(2) by (simp add: same_tables_def add_message_recipient_def)
  with e i(1-3) m assms(2) show ?thesis
    by (simp add: add_recipient_def add_message_recipient_inv)
qed

lemma process_recipients_inv:
  assumes "store_inv d" "m \<in> ids me_id (messages d)"
  shows "store_inv (process_recipients m s t d) \<and> same_tables d (process_recipients m s t d)"
  unfolding process_recipients_def
  by (rule fold_inv_same) (use assms add_recipient_inv in \<open>auto simp: same_tables_def\<close>)

lemma link_subsystem_inv:
  assumes "store_inv d" "sid \<in> ids su_id (subsystems d)" "m \<in> ids me_id (messages d)"
    "t \<in> ids th_id (threads d)"
  shows "store_inv (link_subsystem m t sid d) \<and> same_tables d (link_subsystem m t sid d)"
proof -
  have "store_inv (add_subsystem_to_message m sid d)" using link_inv(1) assms by blast
  moreover have "same_tables d (add_subsystem_to_message m sid d)"
    by (simp add: same_tables_def add_subsystem_to_message_def)
  ultimately show ?thesis
    using link_inv(2) [of "add_subsystem_to_message m sid d" sid t] assms
    by (simp add: link_subsystem_def same_tables_def add_subsystem_to_thread_def)
qed

lemma link_subsystems_inv:
  assumes "store_inv d" "set sids \<subseteq> ids su_id (subsystems d)" "m \<in> ids me_id (messages d)"
    "t \<in> ids th_id (threads d)"
  shows "store_inv (fold (link_subsystem m t) sids d) \<and>
    same_tables d (fold (link_subsystem m t) sids d)"
proof (rule fold_inv_same)
  fix x e
  assume "x \<in> set sids" "store_inv e" "same_tables d e"
  with assms(2-4) show "store_inv (link_subsystem m t x e) \<and> same_tables e (link_subsystem m t x e)"
    by (intro link_subsystem_inv) (auto simp: same_tables_def)
qed (use assms(1) in simp_all)

lemma link_message_inv:
  assumes "store_inv d" "set sids \<subseteq> ids su_id (subsystems d)" "t \<in> ids th_id (threads d)"
  shows "store_inv (link_message g t sids md d) \<and> same_tables d (link_message g t sids md d)"
proof (cases "get_message_id_by_msg_id (md_message_id md) d")
  case None
  with assms show ?thesis by (simp add: link_message_def)
next
  case (Some m)
  then have m: "m \<in> ids me_id (messages d)"
    by (auto simp: get_message_id_by_msg_id_def find_message_def intro: ids_memI
        dest!: first_filter_Some)
  let ?d1 = "case get_mailing_list_id_by_name g d of
      Some list_id \<Rightarrow> add_message_to_mailing_list m list_id d | None \<Rightarrow> d"
  have 1: "store_inv ?d1 \<and> same_tables d ?d1"
  proof (cases "get_mailing_list_id_by_name g d")
    case (Some l)
    then have "l \<in> ids ml_id (mailing_lists d)"
      by (auto simp: get_mailing_list_id_by_name_def intro: ids_memI dest!: first_filter_Some)
    with assms(1) m Some show ?thesis
      by (simp add: add_message_to_mailing_list_inv)
        (simp add: add_message_to_mailing_list_def same_tables_def)
  qed (use assms in simp)
  let ?d2 = "fold (link_subsystem m t) sids ?d1"
  have 2: "store_inv ?d2 \<and> same_tables d ?d2"
    using link_subsystems_inv [of ?d1 sids m t] 1 m assms(2,3) same_trans [of d ?d1 ?d2]
    by (simp only: same_tables_def)
  let ?d3 = "process_recipients m (md_to md) ''To'' ?d2"
  have 3: "store_inv ?d3 \<and> same_tables d ?d3"
    using process_recipients_inv [of ?d2 m] 2 m by (auto simp: same_tables_def)
  have "store_inv (process_recipients m (md_cc md) ''Cc'' ?d3) \<and>
      same_tables d (process_recipients m (md_cc md) ''Cc'' ?d3)"
    using process_recipients_inv [of ?d3 m] 3 m by (auto simp: same_tables_def)
  then show ?thesis unfolding link_message_def Some option.case Let_def .
qed

lemma modify_frame2 [simp]:
  "subsystems (modify_patchset i f d) = subsystems d" "messages (modify_patchset i f d) = messages d"
  "subsystems (promote i d) = subsystems d" "subsystems (end_fetching i d) = subsystems d"
  "subsystems (recount i d) = subsystems d"
  by (simp_all add: modify_patchset_def promote_def end_fetching_def recount_def)

lemma update_by_cover_frame:
  "subsystems (update_by_cover a p d) = subsystems d \<and> messages (update_by_cover a p d) = messages d"
  by (simp add: update_by_cover_def Let_def split: option.split)

lemma update_target_frame:
  "subsystems (update_target a c i d) = subsystems d \<and> messages (update_target a c i d) = messages d"
  by (simp add: update_target_def Let_def split: option.split)

lemma merge_all_frame:
  "merge_all t c ms d = (c', d') \<Longrightarrow> subsystems d' = subsystems d \<and> messages d' = messages d"
proof (induction t c ms d rule: merge_all.induct)
  case (2 t c f m ms d)
  then show ?case by (simp add: merge_patchset_def)
qed simp

lemma create_patchset_frame:
  assumes "create_patchset rx a d = (r, d')"
  shows "subsystems d' = subsystems d \<and> messages d' = messages d"
proof (cases "find_by_cover rx a d")
  case (Some p)
  with assms update_by_cover_frame show ?thesis by (auto simp: create_patchset_def)
next
  case None
  show ?thesis
  proof (cases "collect_matches rx a d (candidates a d)")
    case (Inr ms)
    with assms None have d': "d' = snd (merge_matches a ms d)"
      by (simp add: create_patchset_def split: prod.splits)
    show ?thesis
    proof (cases "sort_key fst ms")
      case Nil
      then show ?thesis by (simp add: d' merge_matches_def insert_patchset_def Let_def)
    next
      case (Cons x rest)
      obtain c e where m: "merge_all (fst x) (snd x) rest d = (c, e)" by fastforce
      with Cons have "d' = update_target a c (fst x) e"
        by (cases x) (simp add: d' merge_matches_def)
      with update_target_frame merge_all_frame [OF m] show ?thesis by simp
    qed
  qed (use assms None in \<open>simp add: create_patchset_def\<close>)
qed

lemma link_patchset_inv:
  assumes "store_inv d" "set sids \<subseteq> ids su_id (subsystems d)" "i \<in> ids ps_id (patchsets d)"
  shows "store_inv (fold (add_subsystem_to_patchset i) sids d) \<and>
    same_tables d (fold (add_subsystem_to_patchset i) sids d)"
proof (rule fold_inv_same)
  fix x e
  assume "x \<in> set sids" "store_inv e" "same_tables d e"
  with assms(2,3) show "store_inv (add_subsystem_to_patchset i x e) \<and>
      same_tables e (add_subsystem_to_patchset i x e)"
    by (auto simp: same_tables_def add_subsystem_to_patchset_def
        intro!: link_inv(4) [unfolded add_subsystem_to_patchset_def])
qed (use assms in simp_all)

lemma link_patch_inv:
  assumes "store_inv d" "set sids \<subseteq> ids su_id (subsystems d)" "i \<in> ids pa_id (patches d)"
  shows "store_inv (fold (add_subsystem_to_patch i) sids d) \<and>
    same_tables d (fold (add_subsystem_to_patch i) sids d)"
proof (rule fold_inv_same)
  fix x e
  assume "x \<in> set sids" "store_inv e" "same_tables d e"
  with assms(2,3) show "store_inv (add_subsystem_to_patch i x e) \<and>
      same_tables e (add_subsystem_to_patch i x e)"
    by (auto simp: same_tables_def add_subsystem_to_patch_def
        intro!: link_inv(3) [unfolded add_subsystem_to_patch_def])
qed (use assms in simp_all)

lemma create_patch_subsystems:
  "create_patch i m k df d = (r, d') \<Longrightarrow> subsystems d' = subsystems d"
  by (auto simp: create_patch_def Let_def split: if_splits option.splits)

lemma finish_patchset_inv:
  assumes inv: "store_inv d" "set sids \<subseteq> ids su_id (subsystems d)" "i \<in> ids ps_id (patchsets d)"
    and p: "\<And>p. patch_opt = Some p \<Longrightarrow> pt_message_id p \<in> ids me_message_id (messages d)"
    and f: "finish_patchset i until sids patch_opt d = (st, d')"
  shows "store_inv d' \<and>
    (st = Ingested \<longrightarrow> (\<forall>p. patch_opt = Some p \<longrightarrow>
      (\<exists>q\<in>set (patches d'). pa_message_id q = pt_message_id p \<and> pa_patchset q = i \<and>
         pa_part q = pt_part p \<and> pa_diff q = pt_diff p)))"
proof -
  define d1 where "d1 = (case until of Some t \<Rightarrow> set_patchset_embargo_until i t d | None \<Rightarrow> d)"
  have 1: "store_inv d1" "subsystems d1 = subsystems d" "messages d1 = messages d"
    "ids ps_id (patchsets d1) = ids ps_id (patchsets d)"
    using inv(1) status_update_inv(1) [OF inv(1)]
    by (auto simp: d1_def set_patchset_embargo_until_def split: option.split)
  define d2 where "d2 = fold (add_subsystem_to_patchset i) sids d1"
  have 2: "store_inv d2" "same_tables d1 d2"
    using link_patchset_inv [of d1 sids i] 1 inv(2,3) by (simp_all add: d2_def)
  show ?thesis
  proof (cases patch_opt)
    case None
    with f 2 show ?thesis by (simp add: finish_patchset_def d1_def [symmetric] d2_def [symmetric])
  next
    case (Some q)
    obtain r d3 where c: "create_patch i (pt_message_id q) (pt_part q) (pt_diff q) d2 = (r, d3)"
      by fastforce
    have m: "i \<in> ids ps_id (patchsets d2)" "pt_message_id q \<in> ids me_message_id (messages d2)"
      using 2(2) 1 inv(3) p [OF Some] by (simp_all add: same_tables_def)
    note s = create_patch_inv [OF 2(1) m c]
    have fe: "finish_patchset i until sids patch_opt d = (case r of Inl _ \<Rightarrow> (ArticleError, d3)
        | Inr pid \<Rightarrow> (Ingested, fold (add_subsystem_to_patch pid) sids d3))"
      unfolding finish_patchset_def Let_def d1_def [symmetric] d2_def [symmetric] Some option.case c
      by (simp split: sum.split)
    show ?thesis
    proof (cases r)
      case (Inl e)
      with fe f s 2(1) show ?thesis by simp
    next
      case (Inr pid)
      then obtain x where x: "x \<in> set (patches d3)" "pid = pa_id x" "pa_message_id x = pt_message_id q"
        "pa_patchset x = i" "pa_part x = pt_part q" "pa_diff x = pt_diff q"
        using s by (cases "index_collision i (pt_part q) (pt_message_id q) d2") auto
      have "set sids \<subseteq> ids su_id (subsystems d3)"
        using create_patch_subsystems [OF c] 2(2) 1(2) inv(2) by (simp add: same_tables_def)
      with link_patch_inv [of d3 sids pid] s x(1,2)
      have "store_inv (fold (add_subsystem_to_patch pid) sids d3) \<and>
          same_tables d3 (fold (add_subsystem_to_patch pid) sids d3)"
        by (auto intro: ids_memI)
      with fe f Inr Some x show ?thesis by (auto simp: same_tables_def)
    qed
  qed
qed


text \<open>What \<open>parse_email\<close> and the git import give: a patch under the message id of its mail, and
  for an import a parent that is known.\<close>

definition article_ok :: "ParsedArticle \<Rightarrow> PatchsetMetadata \<Rightarrow> db \<Rightarrow> bool" where
  "article_ok a md d \<longleftrightarrow>
     (\<forall>p. ar_patch a = Some p \<longrightarrow> pt_message_id p = md_message_id md) \<and>
     (is_git_import (ar_group a) \<and> md_index md \<noteq> 0 \<and> md_total md \<noteq> 1 \<longrightarrow>
       (\<forall>c. md_in_reply_to md = Some c \<longrightarrow> c \<in> ids me_message_id (messages d)))"

lemma cover_known:
  assumes "article_ok a md d" "cover_letter_id (ar_group a) (ar_article_id a) md = Some c"
  shows "c \<in> insert (thread_root (ar_group a) (ar_article_id a) md)
    (insert (md_message_id md) (ids me_message_id (messages d)))"
proof (cases "by_article_id (ar_group a)")
  case True
  then have "\<not> starts_with (ar_group a) git_import"
    by (auto simp: by_article_id_def starts_with_def git_import_def)
  with True assms(2) show ?thesis
    by (simp add: cover_letter_id_def thread_root_def strip_prefix_def)
next
  case False
  with assms show ?thesis
    by (cases "strip_prefix git_import (ar_group a)")
      (auto simp: cover_letter_id_def thread_root_def article_ok_def is_git_import_def split: if_splits)
qed

lemma store_patchset_inv:
  assumes "store_inv d" "set sids \<subseteq> ids su_id (subsystems d)" "t \<in> ids th_id (threads d)"
    and "\<And>b. bl = Some b \<Longrightarrow> b \<in> ids bl_id (baselines d)"
    and "\<And>c. cover_letter_id (ar_group a) (ar_article_id a) md = Some c \<Longrightarrow>
      c \<in> ids me_message_id (messages d)"
    and "\<And>p. patch_opt = Some p \<Longrightarrow> pt_message_id p \<in> ids me_message_id (messages d)"
    and s: "store_patchset rx policy now a md patch_opt t bl sids d = (st, d')"
  shows "store_inv d' \<and> (st = Ingested \<longrightarrow> (\<forall>p. patch_opt = Some p \<longrightarrow>
      (\<exists>q\<in>set (patches d'). pa_message_id q = pt_message_id p \<and> pa_part q = pt_part p \<and>
         pa_diff q = pt_diff p)))"
proof -
  let ?args = "article_args a md t bl"
  have ok: "args_ok ?args d"
    using assms(3-5) by (simp add: args_ok_def article_args_def Let_def)
  obtain r d1 where c: "create_patchset rx ?args d = (r, d1)" by fastforce
  note i = create_patchset_inv [OF assms(1) ok c]
  note fr = create_patchset_frame [OF c]
  show ?thesis
  proof (cases r)
    case (Inl e)
    with s c i show ?thesis by (simp add: store_patchset_def Let_def)
  next
    case (Inr m)
    with i obtain j where j: "r = Inr (Some j)" by auto
    then have f: "finish_patchset j (embargo_until (a_subject ?args) (article_subsystems (ar_group a) md)
        policy md now) sids patch_opt d1 = (st, d')"
      using s c by (simp add: store_patchset_def Let_def)
    have "store_inv d1" "set sids \<subseteq> ids su_id (subsystems d1)" "j \<in> ids ps_id (patchsets d1)"
      using i fr assms(2) j by simp_all
    from finish_patchset_inv [OF this _ f] assms(6) fr show ?thesis by auto
  qed
qed

lemma fold_messages: "(\<And>x e. messages (f x e) = messages e) \<Longrightarrow> messages (fold f xs d) = messages d"
  by (induction xs arbitrary: d) simp_all

lemma finish_patchset_messages:
  assumes "finish_patchset i until sids patch_opt d = (st, d')"
  shows "messages d' = messages d"
proof -
  have link: "messages (add_subsystem_to_patchset j x e) = messages e"
    "messages (add_subsystem_to_patch j x e) = messages e"
    "messages (set_patchset_embargo_until j t e) = messages e" for j x e t
    by (simp_all add: add_subsystem_to_patchset_def add_subsystem_to_patch_def set_patchset_embargo_until_def)
  have patch: "create_patch j m k df e = (r, e') \<Longrightarrow> messages e' = messages e" for j m k df e r e'
    by (auto simp: create_patch_def Let_def split: if_splits option.splits)
  from assms show ?thesis
    by (auto simp: finish_patchset_def Let_def link fold_messages dest!: patch
        split: option.splits prod.splits sum.splits)
qed

lemma store_patchset_messages:
  assumes "store_patchset rx policy now a md patch_opt t bl sids d = (st, d')"
  shows "messages d' = messages d"
  using assms
  by (auto simp: store_patchset_def Let_def dest!: create_patchset_frame finish_patchset_messages
      split: prod.splits sum.splits option.splits)

lemma process_article_inv:
  assumes inv: "store_inv d" and md: "ar_failed_error a = None" "ar_metadata a = Some md"
    and ok: "article_ok a md d" and p: "process_parsed_article rx policy now a d = (st, d')"
  shows "store_inv d' \<and> (st = Ingested \<longrightarrow> md_is_patch_or_cover md \<longrightarrow> \<not> ignored policy md \<longrightarrow>
      (\<forall>p. ar_patch a = Some p \<longrightarrow>
      (\<exists>q\<in>set (patches d'). pa_message_id q = pt_message_id p \<and> pa_part q = pt_part p \<and>
         pa_diff q = pt_diff p))) \<and>
    md_message_id md \<in> ids me_message_id (messages d') \<and>
    (\<not> (md_is_patch_or_cover md \<and> \<not> ignored policy md) \<longrightarrow> st = Ingested \<and> patches d' = patches d \<and>
       ids ps_id (patchsets d') = ids ps_id (patchsets d))"
proof -
  let ?g = "ar_group a" let ?root = "thread_root (ar_group a) (ar_article_id a) md"
  obtain bl d1 where b: "resolve_baseline a d = (bl, d1)" by fastforce
  obtain t d2 where t: "ensure_thread_for_message ?root (md_date md) d1 = (t, d2)" by fastforce
  let ?m = "article_message ?g (ar_article_id a) t md"
  define d3 where "d3 = create_message ?m d2"
  obtain sids d4 where s: "ensure_subsystems (article_subsystems ?g md) d3 = (sids, d4)" by fastforce
  define d5 where "d5 = link_message ?g t sids md d4"
  note 1 = resolve_baseline_inv [OF b inv]
  then have inv1: "store_inv d1" by simp
  note 2 = ensure_thread_spec [OF t inv1]
  have m: "me_message_id ?m = md_message_id md" "me_thread ?m = t"
    by (simp_all add: article_message_def Let_def)
  have 3: "store_inv d3" "t \<in> ids th_id (threads d3)"
    "ids me_message_id (messages d3) = insert (md_message_id md) (ids me_message_id (messages d2))"
    "baselines d3 = baselines d2"
    using create_message_inv [of d2 ?m] create_message_ids [of ?m d2] 2 m by (simp_all add: d3_def)
  note 4 = ensure_subsystems_inv [OF s 3(1)]
  have fr4: "threads d4 = threads d3" "messages d4 = messages d3" "baselines d4 = baselines d3"
    using 4 by (metis db.select_convs db.surjective db.update_convs(2))+
  note 5 = link_message_inv [of d4 sids t ?g md, folded d5_def]
  have inv5: "store_inv d5" "same_tables d4 d5" using 5 4 3(2) fr4 by simp_all
  have ids5: "ids me_message_id (messages d5) = insert (md_message_id md) (ids me_message_id (messages d2))"
    using inv5(2) fr4 3(3) by (simp add: same_tables_def)
  have e: "process_parsed_article rx policy now a d =
      (if md_is_patch_or_cover md \<and> \<not> ignored policy md
       then store_patchset rx policy now a md (if ignored policy md then None else ar_patch a) t bl sids d5
       else (Ingested, d5))"
    unfolding process_parsed_article_def md option.case Let_def b split_conv t d3_def [symmetric] s
      d5_def [symmetric] ..
  show ?thesis
  proof (cases "md_is_patch_or_cover md \<and> \<not> ignored policy md")
    case False
    have "patches d4 = patches d3" "patchsets d4 = patchsets d3"
      using 4 by (metis db.select_convs db.surjective db.update_convs(2))+
    moreover have "patches d1 = patches d" "patchsets d1 = patchsets d" using resolve_baseline_patches [OF b] .
    ultimately have "patches d5 = patches d" "ids ps_id (patchsets d5) = ids ps_id (patchsets d)"
      using inv5(2) 2 create_message_ids(3,4) [of ?m d2] by (simp_all add: same_tables_def d3_def)
    with False e p inv5(1) ids5 show ?thesis by auto
  next
    case True
    with e p have sp: "store_patchset rx policy now a md (ar_patch a) t bl sids d5 = (st, d')" by simp
    have "set sids \<subseteq> ids su_id (subsystems d5)" "t \<in> ids th_id (threads d5)"
      using inv5(2) 4 3(2) fr4 by (simp_all add: same_tables_def)
    moreover have "\<And>b. bl = Some b \<Longrightarrow> b \<in> ids bl_id (baselines d5)"
      using 1 2 3(4) fr4(3) inv5(2) by (simp add: same_tables_def)
    moreover have "\<And>c. cover_letter_id ?g (ar_article_id a) md = Some c \<Longrightarrow> c \<in> ids me_message_id (messages d5)"
      using cover_known [OF ok] 1 2 ids5 by auto
    moreover have "\<And>p. ar_patch a = Some p \<Longrightarrow> pt_message_id p \<in> ids me_message_id (messages d5)"
      using ok ids5 by (simp add: article_ok_def)
    ultimately show ?thesis
      using store_patchset_inv [OF inv5(1) _ _ _ _ _ sp] store_patchset_messages [OF sp] ids5 True by auto
  qed
qed

text \<open>C3. Taking in an article keeps the store consistent, when the patch it carries goes by the message id of
  its mail and, for a later commit of an imported range, the mail it replies to is known (\<open>article_ok\<close>, what the
  parser of events and the order of an import give). An article of a fetch that failed leaves no patch, and one
  without metadata is an error and changes nothing. The mail of any other article is in the store
  afterwards. When it was recognised as a patch or a cover letter, its author is not ignored, and it counts
  as ingested, the patch that it carries is in the store, with its part number and its diff; any other
  mail, a reply with a diff in it as well, and a mail of an ignored author count as ingested and leave the
  patches as they were, and add no patchset.\<close>

theorem process_article_consistent:
  assumes "store_inv d" and "\<And>md. ar_metadata a = Some md \<Longrightarrow> article_ok a md d"
    and "process_parsed_article rx policy now a d = (st, d')"
  shows "store_inv d' \<and> (ar_failed_error a \<noteq> None \<longrightarrow> st = Ingested \<and> patches d' = patches d) \<and>
    (ar_failed_error a = None \<and> ar_metadata a = None \<longrightarrow> st = ArticleError \<and> d' = d) \<and>
    (\<forall>md. ar_failed_error a = None \<longrightarrow> ar_metadata a = Some md \<longrightarrow>
      md_message_id md \<in> ids me_message_id (messages d') \<and>
      (if md_is_patch_or_cover md \<and> \<not> ignored policy md
       then st = Ingested \<longrightarrow> (\<forall>p. ar_patch a = Some p \<longrightarrow>
         (\<exists>q\<in>set (patches d'). pa_message_id q = md_message_id md \<and> pa_part q = pt_part p \<and>
            pa_diff q = pt_diff p))
       else st = Ingested \<and> patches d' = patches d \<and>
         ids ps_id (patchsets d') = ids ps_id (patchsets d)))"
proof (cases "ar_failed_error a")
  case (Some err)
  have "patches (update_patchset_error (ar_article_id a) err d) = patches d"
    by (simp add: update_patchset_error_def)
  with Some assms status_update_inv(6) [OF assms(1), of "ar_article_id a" err] show ?thesis
    by (auto simp: process_parsed_article_def)
next
  case None
  show ?thesis
  proof (cases "ar_metadata a")
    case None
    with \<open>ar_failed_error a = None\<close> assms show ?thesis by (auto simp: process_parsed_article_def)
  next
    case (Some md)
    with process_article_inv [OF assms(1) None Some assms(2) [OF Some] assms(3)] assms(2) [OF Some]
    show ?thesis using None by (simp add: article_ok_def)
  qed
qed

definition sample_article :: ParsedArticle where
  "sample_article = \<lparr>ar_group = ''linux-mm'', ar_article_id = ''7'',
     ar_metadata = Some \<lparr>md_message_id = ''p1'', md_subject = ''[PATCH 1/2] mm: a'',
       md_author = ''A <a@b>'', md_date = 100, md_received = None, md_in_reply_to = Some ''p0'',
       md_references = [], md_index = 1, md_total = 2, md_to = ''linux-mm@kvack.org'',
       md_cc = [], md_is_patch_or_cover = True, md_version = None, md_body = ''b''\<rparr>,
     ar_patch = Some \<lparr>pt_message_id = ''p1'', pt_body = ''b'', pt_diff = ''diff'', pt_part = 1\<rparr>,
     ar_baseline = None, ar_repo_url = None, ar_failed_error = None, ar_skip = None, ar_only = None\<rparr>"

theorem process_article_consistent_witness:
  "\<exists>d. process_parsed_article backtrack sample_policy 100 sample_article empty_db = (Ingested, d) \<and>
     store_inv d \<and> (\<exists>q\<in>set (patches d). pa_message_id q = ''p1'' \<and> pa_diff q = ''diff'')"
proof -
  let ?r = "process_parsed_article backtrack sample_policy 100 sample_article empty_db"
  have st: "fst ?r = Ingested" by code_simp
  have ok: "\<And>md. ar_metadata sample_article = Some md \<Longrightarrow> article_ok sample_article md empty_db"
    by (auto simp: sample_article_def article_ok_def is_git_import_def strip_prefix_def
        starts_with_def git_import_def)
  have r: "?r = (Ingested, snd ?r)" using st by (metis prod.collapse)
  have "\<not> ignored sample_policy (the (ar_metadata sample_article))" by code_simp
  with process_article_consistent [OF store_inv_empty ok r] r show ?thesis
    by (auto simp: sample_article_def)
qed

subsection \<open>The embargo\<close>

lemma min_list1_Min: "min_list1 m xs = Min (insert m (set xs))"
proof (induction m xs rule: min_list1.induct)
  case (2 m x xs)
  have "Min (insert (min m x) (set xs)) = Min (insert m (insert x (set xs)))"
    by (cases "xs = []") (simp_all add: min.assoc)
  with 2 show ?case by simp
qed simp

definition listed_policies :: "(string \<times> string) list \<Rightarrow> EmailPolicyConfig \<Rightarrow> SubsystemPolicy set" where
  "listed_policies subs policy =
     {p \<in> set (policy_values policy). \<exists>(n, email)\<in>set subs. \<exists>l\<in>set (sp_lists p). contains email l}"

lemma set_matched: "set (matched_subsystem_policies subs policy) = listed_policies subs policy"
  by (auto simp: matched_subsystem_policies_def listed_policies_def)

lemma set_map_filter_hours:
  "set (List.map_filter sp_embargo_hours ps) = {h. \<exists>p\<in>set ps. sp_embargo_hours p = Some h}"
  by (auto simp: List.map_filter_def) force

text \<open>The embargo of a patch is the shortest one among the policies that list one of its
  subsystems and one of its subject prefixes; if there is none with a delay, the shortest among
  the policies that list one of its subsystems; else the default. The order in which policies
  and subsystems are walked does not matter.\<close>

theorem embargo_hours_spec:
  "calculate_embargo_hours subject subs policy =
    (let delays = (\<lambda>Q. {h. \<exists>p\<in>listed_policies subs policy. Q p \<and> sp_embargo_hours p = Some h});
         by_prefix = delays (prefix_listed (extract_subject_prefixes subject))
     in if by_prefix \<noteq> {} then Min by_prefix
        else if delays (\<lambda>_. True) \<noteq> {} then Min (delays (\<lambda>_. True))
        else with_default 0 (sp_embargo_hours (defaults policy)))"
proof -
  let ?m = "matched_subsystem_policies subs policy"
  let ?l = "\<lambda>Q. List.map_filter sp_embargo_hours (filter Q ?m)"
  have s: "set (?l Q) = {h. \<exists>p\<in>listed_policies subs policy. Q p \<and> sp_embargo_hours p = Some h}" for Q
    by (auto simp: set_map_filter_hours set_matched)
  have pick: "(case ds of x # xs \<Rightarrow> min_list1 x xs | [] \<Rightarrow> z) = (if set ds \<noteq> {} then Min (set ds) else z)"
    for ds :: "nat list" and z
    by (cases ds) (simp_all add: min_list1_Min)
  have all: "List.map_filter sp_embargo_hours ?m = ?l (\<lambda>_. True)" by simp
  have e: "(ds \<noteq> []) = (set ds \<noteq> {})" for ds :: "nat list" by simp
  show ?thesis
    unfolding calculate_embargo_hours_def Let_def all pick e if_distrib [of set] s
    by presburger
qed

subsection \<open>Where names get in the way\<close>

text \<open>\<open>parse_email\<close> writes a recipient with a name as \<open>"name" <address>\<close>, and a comma in the name
  then splits it in two: the first half of the name is stored as a person whose address has no
  \<open>@\<close> in it.\<close>

theorem comma_in_name_splits:
  assumes "is_alpha a" "is_alpha b"
  shows "recipient_list (with_default [] (format_recipient
      \<lparr>addr_name = Some [a, CHR '','', CHR '' '', b], addr_address = Some ''d@x''\<rparr>)) =
    [(None, [dquote, a]), (Some [b, dquote], ''d@x'')]"
proof -
  have n: "a \<noteq> CHR '','' \<and> a \<noteq> dquote \<and> a \<noteq> CHR ''<'' \<and> a \<noteq> CHR ''>'' \<and> \<not> is_space a"
    "b \<noteq> CHR '','' \<and> b \<noteq> dquote \<and> b \<noteq> CHR ''<'' \<and> b \<noteq> CHR ''>'' \<and> \<not> is_space b"
    using assms by (auto simp: is_alpha_def is_upper_def is_lower_def is_space_def code_def)
  have sp: "\<not> is_space CHR '',''" "is_space CHR '' ''" "\<not> is_space dquote" "\<not> is_space CHR ''<''"
    "\<not> is_space CHR ''>''" "\<not> is_space CHR ''d''" "\<not> is_space CHR ''x''" by code_simp+
  show ?thesis
    using n sp by (simp add: format_recipient_def Let_def with_default_def trim_def trim_start_def
        trim_end_def replace_char_def recipient_list_def parse_recipient_def substr_def
        split: if_splits)
qed

theorem comma_in_name_splits_witness:
  "recipient_list (with_default [] (format_recipient
      \<lparr>addr_name = Some ''D, J'', addr_address = Some ''d@x''\<rparr>)) =
    [(None, [dquote] @ ''D''), (Some (''J'' @ [dquote]), ''d@x'')]"
proof -
  have "is_alpha CHR ''D''" "is_alpha CHR ''J''" by code_simp+
  from comma_in_name_splits [OF this] show ?thesis by simp
qed

text \<open>A list is recognised by its host only when it stands alone: written with a name, as
  \<open>parse_email\<close> does, no list other than the six known ones is ever taken for a subsystem.\<close>

theorem named_list_missed:
  assumes "format_recipient \<lparr>addr_name = Some name, addr_address = Some addr\<rparr> = Some s"
    and "trim name \<noteq> []" and "\<forall>(_, k)\<in>set static_lists. \<not> contains (lower s) k"
  shows "subsystem_of s = None"
proof -
  obtain t where t: "s = t @ ''>''"
    using assms(1,2) by (auto simp: format_recipient_def Let_def with_default_def split: if_splits)
  have "\<not> ends_with (lower s) h" if "h \<in> set list_hosts" for h
    using that by (auto simp: t list_hosts_def ends_with_def starts_with_def lower_char_def is_upper_def code_def)
  moreover have "List.find (\<lambda>(_, addr). contains (lower s) addr) static_lists = None"
    using assms(3) by (auto simp: find_None_iff)
  ultimately show ?thesis by (auto simp: subsystem_of_def)
qed

theorem named_list_missed_witness:
  "subsystem_of ''linux-block@vger.kernel.org'' = Some (''linux-block'', ''linux-block@vger.kernel.org'') \<and>
   subsystem_of ([dquote] @ ''b'' @ [dquote] @ '' <linux-block@vger.kernel.org>'') = None"
proof -
  let ?s = "[dquote] @ ''b'' @ [dquote] @ '' <linux-block@vger.kernel.org>''"
  have "format_recipient \<lparr>addr_name = Some ''b'', addr_address = Some ''linux-block@vger.kernel.org''\<rparr> = Some ?s"
    by code_simp
  moreover have "trim ''b'' \<noteq> []" "\<forall>(_, k)\<in>set static_lists. \<not> contains (lower ?s) k" by code_simp+
  ultimately have "subsystem_of ?s = None" by (rule named_list_missed)
  moreover have "subsystem_of ''linux-block@vger.kernel.org'' =
      Some (''linux-block'', ''linux-block@vger.kernel.org'')" by code_simp
  ultimately show ?thesis by blast
qed

end
