(* ===== verification/Patchset_Properties.thy ===== *)
theory Patchset_Properties
  imports Patchset_Status
begin

text \<open>
  What \<open>create_patchset\<close> and \<open>create_patch\<close> promise, over the invariants of \<open>Patchsets_Inv\<close>.
\<close>

subsection \<open>Merging moves, and loses nothing\<close>

definition move_patches :: "int set \<Rightarrow> int \<Rightarrow> patch_row list \<Rightarrow> patch_row list" where
  "move_patches S i rows =
     List.map (\<lambda>p. if pa_patchset p \<in> S then p\<lparr>pa_patchset := i\<rparr> else p) rows"

definition move_reviews :: "int set \<Rightarrow> int \<Rightarrow> review_row list \<Rightarrow> review_row list" where
  "move_reviews S i rows =
     List.map (\<lambda>r. if rv_patchset r \<in> S then r\<lparr>rv_patchset := i\<rparr> else r) rows"

lemma move_none [simp]: "move_patches {} i rows = rows" "move_reviews {} i rs = rs"
  by (simp_all add: move_patches_def move_reviews_def)

lemma move_merge:
  assumes "t \<notin> S" "f \<noteq> t"
  shows "move_patches S t (update_where (\<lambda>p. pa_patchset p = f) (\<lambda>p. p\<lparr>pa_patchset := t\<rparr>) rows) =
      move_patches (insert f S) t rows"
    and "move_reviews S t (update_where (\<lambda>r. rv_patchset r = f) (\<lambda>r. r\<lparr>rv_patchset := t\<rparr>) rs) =
      move_reviews (insert f S) t rs"
  using assms by (auto simp: move_patches_def move_reviews_def update_where_def)

lemma merge_all_moves:
  assumes "merge_all t c ms d = (c', d')" "t \<notin> fst ` set ms"
  shows "patches d' = move_patches (fst ` set ms) t (patches d) \<and>
    reviews d' = move_reviews (fst ` set ms) t (reviews d) \<and>
    ids ps_id (patchsets d') = ids ps_id (patchsets d) - fst ` set ms"
  using assms
proof (induction t c ms d rule: merge_all.induct)
  case (2 t c f m ms d)
  then show ?case by (auto simp: merge_patchset_def move_merge ids_delete)
qed simp

lemma modify_reviews [simp]:
  "reviews (modify_patchset i f d) = reviews d" "reviews (promote i d) = reviews d"
  "reviews (end_fetching i d) = reviews d" "reviews (recount i d) = reviews d"
  by (simp_all add: modify_patchset_def promote_def end_fetching_def recount_def)

lemma update_by_cover_tables:
  "patches (update_by_cover a p d) = patches d \<and> reviews (update_by_cover a p d) = reviews d"
proof -
  let ?i = "ps_id p"
  define d1 where "d1 = modify_patchset ?i (\<lambda>q. q\<lparr>ps_thread := a_thread a,
    ps_author := Some (a_author a), ps_total := Some (final_total a p),
    ps_parser_version := a_parser_version a, ps_to := Some (a_to a), ps_cc := Some (a_cc a)\<rparr>) d"
  define d2 where "d2 = (case a_cover a of
    Some clid \<Rightarrow> modify_patchset ?i (\<lambda>q. q\<lparr>ps_cover := Some clid\<rparr>) d1 | None \<Rightarrow> d1)"
  define d3 where "d3 = (case a_baseline a of
    Some bid \<Rightarrow> modify_patchset ?i (\<lambda>q. q\<lparr>ps_baseline := Some bid\<rparr>) d2 | None \<Rightarrow> d2)"
  define d4 where "d4 = (if a_part a < ps_subject_index p
    then modify_patchset ?i (\<lambda>q. q\<lparr>ps_subject := a_subject a, ps_subject_index := a_part a\<rparr>) d3
    else d3)"
  have "update_by_cover a p d = promote ?i (end_fetching ?i d4)"
    by (simp only: update_by_cover_def Let_def d1_def d2_def d3_def d4_def)
  moreover have "patches d1 = patches d \<and> reviews d1 = reviews d" by (simp add: d1_def)
  moreover have "patches d2 = patches d1 \<and> reviews d2 = reviews d1"
    by (simp add: d2_def split: option.split)
  moreover have "patches d3 = patches d2 \<and> reviews d3 = reviews d2"
    by (simp add: d3_def split: option.split)
  moreover have "patches d4 = patches d3 \<and> reviews d4 = reviews d3" by (simp add: d4_def)
  ultimately show ?thesis by simp
qed

lemma update_target_tables:
  "patches (update_target a c i d) = patches d \<and> reviews (update_target a c i d) = reviews d \<and>
   ids ps_id (patchsets (update_target a c i d)) = ids ps_id (patchsets d)"
proof -
  define d1 where "d1 = modify_patchset i (\<lambda>q. q\<lparr>ps_author := Some (a_author a),
    ps_total := Some (a_total a), ps_parser_version := a_parser_version a,
    ps_to := Some (a_to a), ps_cc := Some (a_cc a)\<rparr>) d"
  define d2 where "d2 = (if a_skip a \<noteq> None \<or> a_only a \<noteq> None
    then modify_patchset i (\<lambda>q. q\<lparr>ps_skip := coalesce (a_skip a) (ps_skip q),
           ps_only := coalesce (a_only a) (ps_only q)\<rparr>) d1 else d1)"
  define d3 where "d3 = (case a_baseline a of
    Some bid \<Rightarrow> modify_patchset i (\<lambda>q. q\<lparr>ps_baseline := Some bid\<rparr>) d2 | None \<Rightarrow> d2)"
  define d4 where "d4 = (if a_part a < c
    then modify_patchset i (\<lambda>q. q\<lparr>ps_subject := a_subject a, ps_subject_index := a_part a\<rparr>) d3
    else d3)"
  define d5 where "d5 = (case a_cover a of
    Some clid \<Rightarrow> modify_patchset i (\<lambda>q. q\<lparr>ps_cover := Some clid\<rparr>) d4 | None \<Rightarrow> d4)"
  have "update_target a c i d = promote i (end_fetching i (recount i d5))"
    by (simp only: update_target_def Let_def d1_def d2_def d3_def d4_def d5_def)
  moreover have "patches d1 = patches d \<and> reviews d1 = reviews d \<and>
      ids ps_id (patchsets d1) = ids ps_id (patchsets d)" by (simp add: d1_def)
  moreover have "patches d2 = patches d1 \<and> reviews d2 = reviews d1 \<and>
      ids ps_id (patchsets d2) = ids ps_id (patchsets d1)" by (simp add: d2_def)
  moreover have "patches d3 = patches d2 \<and> reviews d3 = reviews d2 \<and>
      ids ps_id (patchsets d3) = ids ps_id (patchsets d2)" by (simp add: d3_def split: option.split)
  moreover have "patches d4 = patches d3 \<and> reviews d4 = reviews d3 \<and>
      ids ps_id (patchsets d4) = ids ps_id (patchsets d3)" by (simp add: d4_def)
  moreover have "patches d5 = patches d4 \<and> reviews d5 = reviews d4 \<and>
      ids ps_id (patchsets d5) = ids ps_id (patchsets d4)" by (simp add: d5_def split: option.split)
  ultimately show ?thesis by simp
qed

lemma promoted_not_ready:
  assumes "p \<in> set (patchsets (promote i d))" "ps_id p = i"
  shows "\<not> ready p"
proof -
  let ?f = "\<lambda>p. p\<lparr>ps_status := ''Pending''\<rparr>"
  have "p \<in> (\<lambda>q. if ps_id q = i \<and> ready q then ?f q else q) ` set (patchsets d)"
    using assms(1) by (simp add: promote_def update_where_def)
  then obtain q where q: "p = (if ps_id q = i \<and> ready q then ?f q else q)" by blast
  have "ps_id q = i" using q assms(2) by (simp split: if_splits)
  with q show ?thesis by (cases "ready q") (simp_all add: ready_def)
qed

lemma update_promotes:
  "\<exists>e. update_target a c i d = promote i e" "\<exists>e. update_by_cover a p d = promote (ps_id p) e"
  unfolding update_target_def update_by_cover_def Let_def by (rule exI, rule refl)+

lemma merge_matches_cases:
  assumes "merge_matches a ms d = (i, d')"
  shows "ms = [] \<and> insert_patchset a d = (i, d') \<or>
    (\<exists>c d1 index rest. sort_key fst ms = (i, index) # rest \<and> merge_all i index rest d = (c, d1) \<and>
       d' = update_target a c i d1)"
proof (cases "sort_key fst ms")
  case Nil
  then have "ms = []" by (metis set_empty set_sort)
  with assms show ?thesis by (simp add: merge_matches_def)
next
  case (Cons x rest)
  obtain c d1 where m: "merge_all (fst x) (snd x) rest d = (c, d1)" by fastforce
  with Cons assms have "i = fst x" "d' = update_target a c (fst x) d1"
    by (cases x, simp add: merge_matches_def)+
  with Cons m show ?thesis by (cases x) auto
qed

lemma collect_matches_fails:
  "collect_matches rx a d ps = Inl e \<Longrightarrow> e = NullValue \<and> (\<exists>p\<in>set ps. ps_author p = None)"
  by (induction ps) (auto split: option.splits sum.splits if_splits simp: res_bind_def)

lemma inserted_row:
  assumes "insert_patchset a d = (i, d')"
  shows "i \<notin> ids ps_id (patchsets d)"
    "p \<in> set (patchsets d') \<Longrightarrow> ps_id p = i \<Longrightarrow> ready p \<longleftrightarrow> a_total a = 0"
proof -
  have i: "i = next_id (List.map ps_id (patchsets d))" using assms by (simp add: insert_patchset_def Let_def)
  show n: "i \<notin> ids ps_id (patchsets d)" using next_id_fresh [of "List.map ps_id (patchsets d)"] by (simp add: i ids_def)
  have row: "\<exists>row. patchsets d' = patchsets d @ [row] \<and> (ready row \<longleftrightarrow> a_total a = 0)"
    using assms by (auto simp: insert_patchset_def Let_def ready_def)
  from row obtain row where r: "patchsets d' = patchsets d @ [row]" "ready row \<longleftrightarrow> a_total a = 0"
    by (elim exE conjE)
  assume p: "p \<in> set (patchsets d')" "ps_id p = i"
  then have "p \<notin> set (patchsets d)" using n by (auto simp: ids_def)
  with p r have "p = row" by simp
  with r show "ready p \<longleftrightarrow> a_total a = 0" by simp
qed

lemma merge_matches_spec:
  assumes m: "merge_matches a ms d = (i, d')" and ms: "distinct (List.map fst ms)"
    and i: "set (List.map fst ms) \<subseteq> ids ps_id (patchsets d)"
  shows "\<exists>S. i \<notin> S \<and> S \<subseteq> set (List.map fst ms) \<and> patches d' = move_patches S i (patches d) \<and>
    reviews d' = move_reviews S i (reviews d) \<and>
    ids ps_id (patchsets d') = insert i (ids ps_id (patchsets d)) - S \<and>
    (\<forall>p\<in>set (patchsets d'). ps_id p = i \<longrightarrow>
       (ready p \<longleftrightarrow> i \<notin> ids ps_id (patchsets d) \<and> a_total a = 0))"
  using merge_matches_cases [OF m]
proof (elim disjE conjE exE)
  assume n: "insert_patchset a d = (i, d')"
  then have "patches d' = patches d \<and> reviews d' = reviews d \<and>
      ids ps_id (patchsets d') = insert i (ids ps_id (patchsets d))"
    by (auto simp: insert_patchset_def Let_def)
  then show ?thesis using inserted_row [OF n] by (intro exI [of _ "{}"]) simp
next
  fix c d1 index rest
  assume s: "sort_key fst ms = (i, index) # rest" and a: "merge_all i index rest d = (c, d1)"
    and d': "d' = update_target a c i d1"
  have "distinct (List.map fst (sort_key fst ms))"
    using ms by (metis distinct_map distinct_sort set_sort)
  then have n: "i \<notin> fst ` set rest" by (simp add: s)
  have sub: "fst ` set rest \<subseteq> set (List.map fst ms)"
    using s by (metis image_mono list.set_map set_sort set_subset_Cons)
  note mv = merge_all_moves [OF a n]
  have "i \<in> ids ps_id (patchsets d)"
    using i s by (metis fst_conv image_eqI list.set_intros(1) list.set_map set_sort subsetD)
  moreover have "\<forall>p\<in>set (patchsets d'). ps_id p = i \<longrightarrow> \<not> ready p"
    using promoted_not_ready update_promotes(1) [of a c i d1] unfolding d' by metis
  ultimately show ?thesis
    using mv n sub update_target_tables [of a c i d1] unfolding d' [symmetric]
    by (intro exI [of _ "fst ` set rest"]) auto
qed

text \<open>C1. Finding or making the patchset of an incoming part, whose thread, cover letter and baseline are in the
  store (\<open>args_ok\<close>). The store stays consistent. The call fails only when a patchset it has to look at has no
  author, and then it changes nothing. Otherwise the id that comes back is a patchset, and apart from a new
  patchset nothing appears or disappears but the patchsets that are merged into it, which are candidates for the
  part; all their patches and reviews are then its own, and all others are unchanged. A patchset that was there
  and is complete does not stay behind waiting; a new one, which has no part yet, counts as complete exactly
  when the subject gave its total as 0.\<close>

theorem create_patchset_spec:
  assumes "store_inv d" "args_ok a d" and c: "create_patchset rx a d = (r, d')"
  shows "store_inv d' \<and>
    ((\<exists>p\<in>set (candidates a d). ps_author p = None) \<and> r = Inl NullValue \<and> d' = d \<or>
     (\<exists>i S. r = Inr (Some i) \<and> i \<in> ids ps_id (patchsets d') \<and> i \<notin> S \<and> S \<subseteq> ids ps_id (candidates a d) \<and>
       patches d' = move_patches S i (patches d) \<and> reviews d' = move_reviews S i (reviews d) \<and>
       ids ps_id (patchsets d') = insert i (ids ps_id (patchsets d)) - S \<and>
       (\<forall>p\<in>set (patchsets d'). ps_id p = i \<longrightarrow>
          (ready p \<longleftrightarrow> i \<notin> ids ps_id (patchsets d) \<and> a_total a = 0))))"
proof -
  note inv = create_patchset_inv [OF assms]
  show ?thesis
  proof (cases "find_by_cover rx a d")
    case (Some p)
    with c have r: "r = Inr (Some (ps_id p))" and d': "d' = update_by_cover a p d"
      by (auto simp: create_patchset_def)
    have old: "ps_id p \<in> ids ps_id (patchsets d)" by (rule ids_memI [OF find_by_cover_in [OF Some]])
    have "\<forall>q\<in>set (patchsets d'). ps_id q = ps_id p \<longrightarrow> \<not> ready q"
      using promoted_not_ready update_promotes(2) [of a p d] unfolding d' by metis
    moreover have "ids ps_id (patchsets d') = insert (ps_id p) (ids ps_id (patchsets d))"
      using update_by_cover_inv(2) [OF assms(1,2), of p] old by (auto simp: d')
    ultimately show ?thesis
      using inv old update_by_cover_tables [of a p d] unfolding r
      by (intro conjI disjI2 exI [of _ "ps_id p"] exI [of _ "{}"]) (auto simp: d')
  next
    case None
    show ?thesis
    proof (cases "collect_matches rx a d (candidates a d)")
      case (Inl e)
      from collect_matches_fails [OF this] Inl None c inv show ?thesis by (auto simp: create_patchset_def)
    next
      case (Inr ms)
      with None c obtain i where m: "merge_matches a ms d = (i, d')" and r: "r = Inr (Some i)"
        by (auto simp: create_patchset_def split: prod.splits)
      have cand: "set (List.map fst ms) \<subseteq> ids ps_id (candidates a d)" and dist: "distinct (List.map fst ms)"
        using collect_matches_ids [OF Inr] candidates_distinct [of d a] assms(1)
        unfolding store_inv_def ids_def by blast+
      then have "set (List.map fst ms) \<subseteq> ids ps_id (patchsets d)"
        using image_mono [OF candidates_sub [of a d], of ps_id] unfolding ids_def by blast
      from merge_matches_spec [OF m dist this] obtain S where S: "i \<notin> S" "S \<subseteq> set (List.map fst ms)"
        "patches d' = move_patches S i (patches d)" "reviews d' = move_reviews S i (reviews d)"
        "ids ps_id (patchsets d') = insert i (ids ps_id (patchsets d)) - S"
        "\<forall>p\<in>set (patchsets d'). ps_id p = i \<longrightarrow> (ready p \<longleftrightarrow> i \<notin> ids ps_id (patchsets d) \<and> a_total a = 0)"
        by (elim exE conjE)
      then have "i \<in> ids ps_id (patchsets d')" "S \<subseteq> ids ps_id (candidates a d)" using cand by simp_all
      then show ?thesis using S inv r by (intro conjI disjI2 exI [of _ i] exI [of _ S]) simp_all
    qed
  qed
qed

theorem create_patchset_spec_witness:
  "\<exists>i d. create_patchset backtrack sample_args sample_thread = (Inr (Some i), d) \<and> store_inv d \<and>
     i \<in> ids ps_id (patchsets d)"
proof -
  let ?c = "create_patchset backtrack sample_args sample_thread"
  have "fst ?c = Inr (Some 1)" by code_simp
  then have c: "?c = (Inr (Some 1), snd ?c)" by (metis prod.collapse)
  from create_patchset_spec [OF sample_thread_inv sample_args_ok c] c show ?thesis by auto
qed

subsection \<open>Storing a patch\<close>

definition parts_unique :: "db \<Rightarrow> bool" where
  "parts_unique d \<longleftrightarrow> (\<forall>p\<in>set (patches d). \<forall>q\<in>set (patches d).
     pa_patchset p = pa_patchset q \<longrightarrow> pa_part p = pa_part q \<longrightarrow> pa_message_id p = pa_message_id q)"

lemma upsert_patch_member:
  "x \<in> set (upsert_patch i m k df rows) \<Longrightarrow>
     (x \<in> set rows \<and> pa_message_id x \<noteq> m) \<or> (pa_patchset x = i \<and> pa_part x = k \<and> pa_message_id x = m)"
  by (auto simp: upsert_patch_def update_where_def split: if_splits)

lemma create_patch_rows:
  "create_patch i m k df d = (Inr j, d') \<Longrightarrow> patches d' = upsert_patch i m k df (patches d)"
  by (auto simp: create_patch_def Let_def split: if_splits option.splits)

lemma create_patch_promotes:
  "create_patch i m k df d = (Inr j, d') \<Longrightarrow> \<exists>e. d' = promote i e"
  unfolding create_patch_def Let_def by (auto split: if_splits option.splits)

text \<open>C2. Storing a patch: it fails exactly when the patchset has another message at the same
  part number, and then nothing changes. Otherwise the row is the patch that was given, every
  other patch is untouched, no patchset gets two messages for one part, the store stays
  consistent, and the patchset is not left waiting when its last part is in.\<close>

theorem create_patch_spec:
  assumes inv: "store_inv d" "i \<in> ids ps_id (patchsets d)" "m \<in> ids me_message_id (messages d)"
    and c: "create_patch i m k df d = (r, d')"
  shows "store_inv d' \<and>
    (index_collision i k m d \<longrightarrow> r = Inl (IndexCollision i k) \<and> d' = d) \<and>
    (\<not> index_collision i k m d \<longrightarrow>
       (\<exists>p\<in>set (patches d'). r = Inr (pa_id p) \<and> pa_message_id p = m \<and> pa_patchset p = i \<and>
          pa_part p = k \<and> pa_diff p = df) \<and>
       (\<forall>p\<in>set (patches d). pa_message_id p \<noteq> m \<longrightarrow> p \<in> set (patches d')) \<and>
       (parts_unique d \<longrightarrow> parts_unique d') \<and>
       (\<forall>q\<in>set (patchsets d'). ps_id q = i \<longrightarrow> \<not> ready q))"
proof (cases "index_collision i k m d")
  case True
  with create_patch_inv [OF assms] show ?thesis by blast
next
  case False
  note s = create_patch_inv [OF assms]
  with False obtain j where c': "create_patch i m k df d = (Inr j, d')" using c by blast
  note rows = create_patch_rows [OF c']
  have "p \<in> set (patches d')" if "p \<in> set (patches d)" "pa_message_id p \<noteq> m" for p
    using that by (auto simp: rows upsert_patch_def update_where_def)
  moreover have "parts_unique d'" if u: "parts_unique d"
    unfolding parts_unique_def rows
  proof (intro ballI impI)
    fix p q
    assume pq: "p \<in> set (upsert_patch i m k df (patches d))" "q \<in> set (upsert_patch i m k df (patches d))"
      "pa_patchset p = pa_patchset q" "pa_part p = pa_part q"
    then show "pa_message_id p = pa_message_id q"
      using upsert_patch_member [OF pq(1)] upsert_patch_member [OF pq(2)] u False
      unfolding parts_unique_def index_collision_def by metis
  qed
  moreover have "\<forall>q\<in>set (patchsets d'). ps_id q = i \<longrightarrow> \<not> ready q"
    using create_patch_promotes [OF c'] promoted_not_ready by blast
  ultimately show ?thesis using s False by blast
qed

theorem create_patch_spec_witness:
  "\<exists>d'. create_patch 1 ''ab'' 1 ''diff'' sample_patchset = (Inr 1, d') \<and> store_inv d' \<and>
     (\<forall>q\<in>set (patchsets d'). ps_id q = 1 \<longrightarrow> \<not> ready q)"
proof -
  let ?c = "create_patch 1 ''ab'' 1 ''diff'' sample_patchset"
  have m: "1 \<in> ids ps_id (patchsets sample_patchset)" "''ab'' \<in> ids me_message_id (messages sample_patchset)"
    by (simp_all add: ids_def, code_simp+)
  have n: "\<not> index_collision 1 1 ''ab'' sample_patchset" by code_simp
  have "fst ?c = Inr 1" by code_simp
  then have c: "?c = (Inr 1, snd ?c)" by (metis prod.collapse)
  from create_patch_spec [OF sample_patchset_inv m c] n c show ?thesis by blast
qed

subsection \<open>Reading rows that have no author\<close>

lemma collect_null:
  "p \<in> set ps \<Longrightarrow> ps_author p = None \<Longrightarrow> collect_matches rx a d ps = Inl NullValue"
proof (induction ps)
  case (Cons q ps)
  show ?case
  proof (cases "ps_author q")
    case (Some x)
    with Cons have "collect_matches rx a d ps = Inl NullValue" by auto
    with Some show ?thesis by (simp add: res_bind_def)
  qed simp
qed simp

text \<open>As long as a thread holds a placeholder of a patch being fetched, which has no author, no
  other message of that thread can be given a patchset: the scan fails on the row and the call
  ends with an error, the store unchanged.\<close>

theorem placeholder_blocks_thread:
  assumes "find_by_cover rx a d = None" and "p \<in> set (patchsets d)" "ps_author p = None"
    "ps_thread p = a_thread a"
  shows "create_patchset rx a d = (Inl NullValue, d)"
proof -
  have "p \<in> set (candidates a d)"
    using assms(2,4) by (simp add: candidates_def in_window_def)
  from collect_null [OF this assms(3)] assms(1) show ?thesis by (simp add: create_patchset_def)
qed

theorem placeholder_blocks_thread_witness:
  "fst (create_patchset backtrack sample_args
     (snd (create_fetching_patchset ''x@y'' ''s'' None None 7 empty_db))) = Inl NullValue"
proof -
  let ?d = "snd (create_fetching_patchset ''x@y'' ''s'' None None 7 empty_db)"
  let ?p = "hd (patchsets ?d)"
  have f: "find_by_cover backtrack sample_args ?d = None" by code_simp
  have "patchsets ?d \<noteq> []" by code_simp
  then have m: "?p \<in> set (patchsets ?d)" by simp
  have "ps_author ?p = None" "ps_thread ?p = a_thread sample_args" by code_simp+
  from placeholder_blocks_thread [OF f m this] show ?thesis by simp
qed

subsection \<open>The size of a series\<close>

lemma find_patchset_promote:
  "map_option ps_total (find_patchset i (promote j d)) = map_option ps_total (find_patchset i d)"
  "map_option ps_total (find_patchset i (end_fetching j d)) = map_option ps_total (find_patchset i d)"
  unfolding promote_def end_fetching_def
  by (subst find_patchset_update; cases "find_patchset i d"; simp)+

lemma total_modify:
  "(\<And>q. ps_id (f q) = ps_id q) \<Longrightarrow> (\<And>q. ps_total (f q) = ps_total q) \<Longrightarrow>
   map_option ps_total (find_patchset i (modify_patchset j f d)) = map_option ps_total (find_patchset i d)"
  by (cases "find_patchset i d") (simp_all add: find_patchset_modify)

text \<open>A patchset found by its cover letter takes the size the new part states, except that a
  lone part never shrinks a series.\<close>

theorem cover_keeps_series:
  assumes "store_inv d" and f: "find_by_cover rx a d = Some p"
  shows "\<exists>q. create_patchset rx a d = (Inr (Some (ps_id p)), update_by_cover a p d) \<and>
    find_patchset (ps_id p) (update_by_cover a p d) = Some q \<and>
    ps_total q = Some (if a_total a = 1 \<and> 1 < or_else (ps_total p) 1 then or_else (ps_total p) 1
                       else a_total a)"
proof -
  let ?i = "ps_id p"
  define d1 where "d1 = modify_patchset ?i (\<lambda>q. q\<lparr>ps_thread := a_thread a,
    ps_author := Some (a_author a), ps_total := Some (final_total a p),
    ps_parser_version := a_parser_version a, ps_to := Some (a_to a), ps_cc := Some (a_cc a)\<rparr>) d"
  define d2 where "d2 = (case a_cover a of
    Some clid \<Rightarrow> modify_patchset ?i (\<lambda>q. q\<lparr>ps_cover := Some clid\<rparr>) d1 | None \<Rightarrow> d1)"
  define d3 where "d3 = (case a_baseline a of
    Some bid \<Rightarrow> modify_patchset ?i (\<lambda>q. q\<lparr>ps_baseline := Some bid\<rparr>) d2 | None \<Rightarrow> d2)"
  define d4 where "d4 = (if a_part a < ps_subject_index p
    then modify_patchset ?i (\<lambda>q. q\<lparr>ps_subject := a_subject a, ps_subject_index := a_part a\<rparr>) d3
    else d3)"
  let ?t = "\<lambda>d. map_option ps_total (find_patchset ?i d)"
  have u: "update_by_cover a p d = promote ?i (end_fetching ?i d4)"
    by (simp only: update_by_cover_def Let_def d1_def d2_def d3_def d4_def)
  have "?t d1 = Some (Some (final_total a p))"
    using find_patchset_mem [OF assms(1) find_by_cover_in [OF f]]
    by (simp add: d1_def find_patchset_modify)
  moreover have "?t d2 = ?t d1" by (simp add: d2_def total_modify split: option.split)
  moreover have "?t d3 = ?t d2" by (simp add: d3_def total_modify split: option.split)
  moreover have "?t d4 = ?t d3" by (simp add: d4_def total_modify)
  ultimately have "?t (update_by_cover a p d) = Some (Some (final_total a p))"
    by (simp add: u find_patchset_promote)
  then show ?thesis using f by (auto simp: create_patchset_def final_total_def Let_def)
qed

theorem cover_keeps_series_witness:
  "\<exists>q d. store_inv d \<and> create_patchset backtrack (sample_args\<lparr>a_total := 1\<rparr>) d =
       (Inr (Some 1), update_by_cover (sample_args\<lparr>a_total := 1\<rparr>) (hd (patchsets d)) d) \<and>
     find_patchset 1 (update_by_cover (sample_args\<lparr>a_total := 1\<rparr>) (hd (patchsets d)) d) = Some q \<and>
     ps_total q = Some 3"
proof -
  let ?a3 = "sample_args\<lparr>a_total := 3\<rparr>" let ?a1 = "sample_args\<lparr>a_total := 1\<rparr>"
  let ?d = "snd (create_patchset backtrack ?a3 sample_thread)"
  have c: "create_patchset backtrack ?a3 sample_thread =
      (fst (create_patchset backtrack ?a3 sample_thread), ?d)" by simp
  have "args_ok ?a3 sample_thread" using sample_args_ok by (simp add: args_ok_def)
  from create_patchset_inv [OF sample_thread_inv this c] have inv: "store_inv ?d" by simp
  have f: "find_by_cover backtrack ?a1 ?d = Some (hd (patchsets ?d))"
    and t: "ps_id (hd (patchsets ?d)) = 1" "ps_total (hd (patchsets ?d)) = Some 3" by code_simp+
  from cover_keeps_series [OF inv f] t inv show ?thesis
    by (auto simp: sample_args_def or_else_def)
qed

end
