(* ===== verification/Scenarios.thy ===== *)
theory Scenarios
  imports Article Patchset_Properties
begin

text \<open>
  Runs of the article intake from an empty store, with every message going through
  \<open>process_parsed_article\<close>: what becomes of two patch series the matching rules mishandle, and of
  an ordinary one.
\<close>

definition run_articles :: "ParsedArticle list \<Rightarrow> db" where
  "run_articles articles =
     fold (\<lambda>a d. snd (process_parsed_article backtrack sample_policy 0 a d)) articles empty_db"

text \<open>A mail of a fixed author to a list, its series numbers read from the subject. A part other
  than the cover letter carries a diff.\<close>

definition patch_mail :: "string \<Rightarrow> string option \<Rightarrow> string \<Rightarrow> int \<Rightarrow> ParsedArticle" where
  "patch_mail msg_id parent subject date =
     (let (index, parts) = parse_subject_index backtrack subject
      in \<lparr>ar_group = ''linux-mm'', ar_article_id = ''1'',
          ar_metadata = Some \<lparr>md_message_id = msg_id, md_subject = subject,
            md_author = ''A <a@b>'', md_date = date, md_received = None, md_in_reply_to = parent,
            md_references = [], md_index = index, md_total = parts, md_to = [], md_cc = [],
            md_is_patch_or_cover = is_patch_or_cover subject [] index parts,
            md_version = parse_subject_version backtrack subject, md_body = []\<rparr>,
          ar_patch = (if index = 0 then None
            else Some \<lparr>pt_message_id = msg_id, pt_body = [], pt_diff = ''diff'', pt_part = index\<rparr>),
          ar_baseline = None, ar_repo_url = None, ar_failed_error = None, ar_skip = None,
          ar_only = None\<rparr>)"

text \<open>What is seen of a run: the patchsets with their status, their size and the parts they have
  received, and of each patch its message, its patchset and its part number.\<close>

definition overview :: "db \<Rightarrow> (int \<times> string \<times> nat option \<times> nat option) list \<times> (string \<times> int \<times> nat) list" where
  "overview d =
     (List.map (\<lambda>p. (ps_id p, ps_status p, ps_total p, ps_received p)) (patchsets d),
      List.map (\<lambda>p. (pa_message_id p, pa_patchset p, pa_part p)) (patches d))"

text \<open>An ordinary series of a cover letter and two parts, the second part arriving first, ends
  as one patchset that waits for its review with both parts in it.\<close>

theorem series_collected:
  "overview (run_articles
     [patch_mail ''p2'' (Some ''c0'') ''[PATCH 2/2] mm: b'' 100,
      patch_mail ''c0'' None ''[PATCH 0/2] mm: series'' 99,
      patch_mail ''p1'' (Some ''c0'') ''[PATCH 1/2] mm: a'' 101]) =
   ([(1, ''Pending'', Some 2, Some 2)], [(''p2'', 1, 2), (''p1'', 1, 1)])"
  by code_simp

text \<open>A series can be declared complete with a part missing: when the first part is sent again
  within the thread, and the second part answers the copy, the two patchsets are merged, both
  copies of part one count, and the set of three goes to review without part three.\<close>

theorem merged_without_part:
  "overview (run_articles
     [patch_mail ''a1'' None ''[PATCH 1/3] mm: a'' 100,
      patch_mail ''b1'' (Some ''a1'') ''[PATCH 1/3] mm: a, again'' 101,
      patch_mail ''b2'' (Some ''b1'') ''[PATCH 2/3] mm: b'' 102]) =
   ([(1, ''Pending'', Some 3, Some 3)], [(''a1'', 1, 1), (''b1'', 1, 1), (''b2'', 1, 2)])"
  by code_simp

text \<open>A lone patch sent as an answer to a cover letter takes over the series: the patchset of
  three shrinks to one and goes to review with the lone patch, and the first part of the series,
  when it comes, starts a patchset of its own.\<close>

theorem lone_patch_takes_series:
  "overview (run_articles
     [patch_mail ''c0'' None ''[PATCH 0/3] mm: series'' 100,
      patch_mail ''f1'' (Some ''c0'') ''[PATCH] mm: fixup'' 101,
      patch_mail ''p1'' (Some ''c0'') ''[PATCH 1/3] mm: a'' 102]) =
   ([(1, ''Pending'', Some 1, Some 1), (2, ''Incomplete'', Some 3, Some 1)],
    [(''f1'', 1, 1), (''p1'', 2, 1)])"
  by code_simp

end
