(* ===== verification/Notify.thy ===== *)
theory Notify
  imports Reviews Outbox Email_Policy
begin

text \<open>
  What a finished review sends out: \<open>queue_notifications\<close> of \<open>src/reviewer.rs\<close>, which writes
  one outbox row per patch, and the patchwork check of \<open>src/patchwork.rs\<close>. Findings are the
  JSON objects the AI answered with; \<open>to_text\<close> prints JSON. HTTP and the task that posts a
  check are outside: the model gives the requests that are made.
\<close>

subsection \<open>Patchwork\<close>

definition clean_msgid :: "string \<Rightarrow> string" where
  "clean_msgid = trim_matches (\<lambda>c. c = CHR ''<'' \<or> c = CHR ''>'')"

record CheckRequest =
  ck_url :: string
  ck_state :: string
  ck_target_url :: string
  ck_description :: string
  ck_context :: string

text \<open>\<open>get\<close> answers the first request: the ids of the patches that match, or nothing when it
  fails, is not a success or does not parse.\<close>

definition post_patchwork_check ::
  "(string \<Rightarrow> string option \<Rightarrow> nat list option) \<Rightarrow> PatchworkPolicy \<Rightarrow> string \<Rightarrow> string \<Rightarrow> string \<Rightarrow>
   string \<Rightarrow> CheckRequest option" where
  "post_patchwork_check get policy msgid status description target_url =
     (if \<not> pw_enabled policy then None
      else case pw_api_url policy of
        None \<Rightarrow> None
      | Some url \<Rightarrow>
          (let api_url = trim_end_matches (\<lambda>c. c = CHR ''/'') url
           in case get (api_url @ ''/patches/?msgid='' @ clean_msgid msgid) (pw_token policy) of
                Some (patch_id # _) \<Rightarrow>
                  Some \<lparr>ck_url = api_url @ ''/patches/'' @ show_nat patch_id @ ''/checks/'',
                        ck_state = status, ck_target_url = target_url,
                        ck_description = description, ck_context = ''sashiko''\<rparr>
              | _ \<Rightarrow> None))"

subsection \<open>The parts of the message\<close>

definition split_addresses :: "string \<Rightarrow> string list" where
  "split_addresses s = filter (\<lambda>x. x \<noteq> []) (List.map trim (split_char CHR '','' s))"

definition target_url :: "string \<Rightarrow> nat \<Rightarrow> string" where
  "target_url patchset_message_id index =
     ''https://sashiko.dev/#/patchset/'' @ clean_msgid patchset_message_id @ ''?part='' @
     show_nat index"

definition patchwork_status :: "nat \<Rightarrow> string" where
  "patchwork_status findings_count = (if 0 < findings_count then ''warning'' else ''success'')"

definition patchwork_desc :: "nat \<Rightarrow> string" where
  "patchwork_desc findings_count =
     (if 0 < findings_count
      then ''Sashiko AI review found '' @ show_nat findings_count @ '' potential issue(s)''
      else ''Sashiko AI review found no regressions'')"

text \<open>The head of the commit message that a positive review quotes: up to its last
  \<open>Signed-off-by\<close>, or all of it.\<close>

fun last_index :: "('a \<Rightarrow> bool) \<Rightarrow> 'a list \<Rightarrow> nat option" where
  "last_index p [] = None"
| "last_index p (x # xs) =
     (case last_index p xs of
        Some i \<Rightarrow> Some (Suc i)
      | None \<Rightarrow> if p x then Some 0 else None)"

definition commit_msg_lines :: "string \<Rightarrow> string list" where
  "commit_msg_lines body =
     takeWhile (\<lambda>l. l \<noteq> ''---'' \<and> \<not> starts_with l ''diff --git '') (lines body)"

definition head_lines :: "string list \<Rightarrow> string list" where
  "head_lines ls =
     (let end_index = (case last_index (\<lambda>l. starts_with (lower l) ''signed-off-by:'') ls of
                         Some i \<Rightarrow> i | None \<Rightarrow> length ls - 1)
      in if ls \<noteq> [] \<and> end_index < length ls then take (Suc end_index) ls else [])"

definition quote_lines :: "string list \<Rightarrow> string" where
  "quote_lines ls = concat (List.map (\<lambda>l. ''> '' @ l @ [newline]) ls)"

definition body_head :: "string \<Rightarrow> string" where
  "body_head body =
     (let hd = head_lines (commit_msg_lines body)
      in if 30 < length hd
         then quote_lines (take 15 hd) @ ''> [ ... ]'' @ [newline] @
              quote_lines (drop (length hd - 5) hd)
         else quote_lines hd)"

definition final_subject :: "string \<Rightarrow> string" where
  "final_subject patch_subject =
     (if starts_with (lower patch_subject) ''re:'' then patch_subject else ''Re: '' @ patch_subject)"

text \<open>The middle dot of the signature in UTF-8.\<close>

definition signature :: "string \<Rightarrow> string" where
  "signature url = ''-- '' @ [newline] @ ''Sashiko AI review '' @ [CHR 0xC2, CHR 0xB7] @ '' '' @ url"

definition positive_body :: "string \<Rightarrow> string \<Rightarrow> string" where
  "positive_body bhead url =
     bhead @ [newline] @
     ''Sashiko has reviewed this patch and found no issues. It looks great!'' @
     [newline, newline] @ signature url @ [newline]"

definition is_preexisting :: "json \<Rightarrow> bool" where
  "is_preexisting f = (case Option.bind (jget f ''preexisting'') as_bool_opt of Some b \<Rightarrow> b | None \<Rightarrow> False)"

definition finding_severity :: "json \<Rightarrow> Severity" where
  "finding_severity f =
     severity_from_str (case get_str f ''severity'' of Some s \<Rightarrow> s | None \<Rightarrow> ''Low'')"

definition by_severity :: "json list \<Rightarrow> json list" where
  "by_severity fs = sort_desc (\<lambda>f. severity_code (finding_severity f)) fs"

definition format_finding :: "json \<Rightarrow> string" where
  "format_finding f =
     ''- ['' @ (case get_str f ''severity'' of Some s \<Rightarrow> s | None \<Rightarrow> ''Unknown'') @ ''] '' @
     trim (case get_str f ''problem'' of Some s \<Rightarrow> s | None \<Rightarrow> ''Unknown issue'') @ [newline]"

definition findings_header :: "json list \<Rightarrow> string" where
  "findings_header fs =
     (let new_findings = by_severity (filter (\<lambda>f. \<not> is_preexisting f) fs);
          preexisting_findings = by_severity (filter is_preexisting fs);
          show_all = (\<lambda>xs. concat (List.map format_finding xs))
      in if fs = [] then []
         else ''Thank you for your contribution! Sashiko AI review found '' @ show_nat (length fs) @
              '' potential issue(s) to consider:'' @ [newline] @
              (if new_findings \<noteq> [] \<and> preexisting_findings \<noteq> []
               then [newline] @ ''New issues:'' @ [newline] @ show_all new_findings @
                    [newline] @ ''Pre-existing issues:'' @ [newline] @ show_all preexisting_findings
               else if new_findings \<noteq> [] then show_all new_findings
               else if preexisting_findings \<noteq> []
               then [newline] @ ''Pre-existing issues:'' @ [newline] @ show_all preexisting_findings
               else []) @
              ''--'' @ [newline, newline])"

definition review_body :: "json list \<Rightarrow> string \<Rightarrow> string \<Rightarrow> string" where
  "review_body fs inline_review url =
     findings_header fs @ trim_end inline_review @ [newline, newline] @ signature url"

subsection \<open>Queueing\<close>

definition address_json :: "(json \<Rightarrow> string) \<Rightarrow> string list \<Rightarrow> string" where
  "address_json to_text xs = to_text (JArr (List.map JStr xs))"

text \<open>A row that records why nothing is sent.\<close>

definition silent_email :: "string \<Rightarrow> string \<Rightarrow> string \<Rightarrow> Email" where
  "silent_email subject message_id body =
     \<lparr>em_to = ''[]'', em_cc = ''[]'', em_subject = subject, em_in_reply_to = clean_msgid message_id,
      em_references = clean_msgid message_id, em_body = body\<rparr>"

definition reply_email ::
  "(json \<Rightarrow> string) \<Rightarrow> string list \<Rightarrow> string list \<Rightarrow> string \<Rightarrow> string \<Rightarrow> string \<Rightarrow> Email" where
  "reply_email to_text to cc patch_subject message_id body =
     \<lparr>em_to = address_json to_text to, em_cc = address_json to_text cc,
      em_subject = final_subject patch_subject, em_in_reply_to = clean_msgid message_id,
      em_references = clean_msgid message_id, em_body = body\<rparr>"

text \<open>No findings: a positive review when the policy asks for one and there is text to quote,
  else a row that says that nothing was sent.\<close>

definition queue_without_findings ::
  "(json \<Rightarrow> string) \<Rightarrow> Action \<Rightarrow> int \<Rightarrow> string \<Rightarrow> string \<Rightarrow> string \<Rightarrow> string \<Rightarrow> int \<Rightarrow> db \<Rightarrow> db" where
  "queue_without_findings to_text action patch_id message_id patch_subject bhead url now d =
     (let skipped = insert_email_outbox patch_id ''Skipped''
            (silent_email ''Skipped'' message_id ''Skipped due to no findings'') now d
      in case action of
           Send to cc send_positive_review \<Rightarrow>
             if send_positive_review \<and> bhead \<noteq> []
             then insert_email_outbox patch_id ''Pending''
                    (reply_email to_text to cc patch_subject message_id (positive_body bhead url))
                    now d
             else skipped
         | Mute \<Rightarrow> skipped)"

definition send_status :: "SmtpSettings option \<Rightarrow> string" where
  "send_status smtp =
     (case smtp of
        None \<Rightarrow> ''Disabled''
      | Some s \<Rightarrow> if smtp_dry_run s then ''Dry-Run'' else ''Pending'')"

definition queue_with_findings ::
  "(json \<Rightarrow> string) \<Rightarrow> SmtpSettings option \<Rightarrow> Action \<Rightarrow> int \<Rightarrow> string \<Rightarrow> string \<Rightarrow> string \<Rightarrow> int \<Rightarrow>
   db \<Rightarrow> db" where
  "queue_with_findings to_text smtp action patch_id message_id patch_subject body now d =
     (case action of
        Mute \<Rightarrow> insert_email_outbox patch_id ''Muted''
                  (silent_email ''Muted'' message_id ''Muted by policy'') now d
      | Send to cc _ \<Rightarrow> insert_email_outbox patch_id (send_status smtp)
                  (reply_email to_text to cc patch_subject message_id body) now d)"

definition sender_address :: "SmtpSettings option \<Rightarrow> string" where
  "sender_address smtp =
     (case smtp of Some s \<Rightarrow> smtp_sender_address s | None \<Rightarrow> ''sashiko-bot@localhost'')"

text \<open>The policy is read from its file on every call; one that cannot be read counts as the
  empty one.\<close>

definition empty_policy :: EmailPolicyConfig where
  "empty_policy = \<lparr>defaults = default_policy, policies = []\<rparr>"

record Notice =
  no_patch_id :: int
  no_patch_message_id :: string
  no_patchset_message_id :: string
  no_index :: nat
  no_inline :: string
  no_findings :: "json list option"

definition notice_findings :: "Notice \<Rightarrow> json list" where
  "notice_findings n = (case no_findings n of Some fs \<Rightarrow> fs | None \<Rightarrow> [])"

definition notice_action :: "EmailPolicyConfig \<Rightarrow> SmtpSettings option \<Rightarrow> message_row \<Rightarrow> Action" where
  "notice_action policy smtp m =
     resolve_recipients policy (split_addresses (me_to m)) (split_addresses (me_cc m))
       (me_author m) (sender_address smtp)"

text \<open>The checks to be posted for a notice, each as the arguments of
  \<open>post_patchwork_check\<close>.\<close>

definition patchwork_checks ::
  "EmailPolicyConfig \<Rightarrow> message_row \<Rightarrow> Notice \<Rightarrow>
   (PatchworkPolicy \<times> string \<times> string \<times> string \<times> string) list" where
  "patchwork_checks policy m n =
     List.map (\<lambda>pw. (pw, no_patch_message_id n, patchwork_status (length (notice_findings n)),
                     patchwork_desc (length (notice_findings n)),
                     target_url (no_patchset_message_id n) (no_index n)))
       (resolve_patchwork policy (split_addresses (me_to m)) (split_addresses (me_cc m)))"

definition queue_notifications ::
  "(json \<Rightarrow> string) \<Rightarrow> string + EmailPolicyConfig \<Rightarrow> SmtpSettings option \<Rightarrow> Notice \<Rightarrow> int \<Rightarrow> db \<Rightarrow>
   (PatchworkPolicy \<times> string \<times> string \<times> string \<times> string) list \<times> db" where
  "queue_notifications to_text loaded smtp n now d =
     (if \<exists>e\<in>set (outbox d). eo_patch e = no_patch_id n then ([], d)
      else case get_message_details_by_msgid (no_patch_message_id n) d of
        None \<Rightarrow> ([], d)
      | Some details \<Rightarrow>
          (let m = md_message details;
               policy = (case loaded of Inr p \<Rightarrow> p | Inl _ \<Rightarrow> empty_policy);
               url = target_url (no_patchset_message_id n) (no_index n);
               action = notice_action policy smtp m
           in (patchwork_checks policy m n,
               if notice_findings n = []
               then queue_without_findings to_text action (no_patch_id n) (no_patch_message_id n)
                      (me_subject m) (body_head (me_body m)) url now d
               else queue_with_findings to_text smtp action (no_patch_id n)
                      (no_patch_message_id n) (me_subject m)
                      (review_body (notice_findings n) (no_inline n) url) now d)))"

subsection \<open>What is queued\<close>

definition queued :: "db \<Rightarrow> int \<Rightarrow> bool" where
  "queued d patch_id \<longleftrightarrow> (\<exists>e\<in>set (outbox d). eo_patch e = patch_id)"

lemma insert_new:
  "\<not> queued d i \<Longrightarrow> \<exists>r. insert_email_outbox i status e now d = d\<lparr>outbox := outbox d @ [r]\<rparr> \<and>
     eo_patch r = i \<and> eo_status r = status \<and> eo_to r = em_to e \<and> eo_cc r = em_cc e \<and>
     eo_subject r = em_subject e \<and> eo_body r = em_body e"
  by (auto simp: insert_email_outbox_def queued_def)

text \<open>The status and the message that a notice is queued with.\<close>

definition queued_as ::
  "(json \<Rightarrow> string) \<Rightarrow> SmtpSettings option \<Rightarrow> Action \<Rightarrow> Notice \<Rightarrow> message_row \<Rightarrow> string \<times> Email" where
  "queued_as to_text smtp action n m =
     (let url = target_url (no_patchset_message_id n) (no_index n); mid = no_patch_message_id n in
      case action of
        Mute \<Rightarrow> if notice_findings n = [] then (''Skipped'', silent_email ''Skipped'' mid ''Skipped due to no findings'')
                else (''Muted'', silent_email ''Muted'' mid ''Muted by policy'')
      | Send to cc positive \<Rightarrow>
          if notice_findings n \<noteq> []
          then (send_status smtp, reply_email to_text to cc (me_subject m) mid
                  (review_body (notice_findings n) (no_inline n) url))
          else if positive \<and> body_head (me_body m) \<noteq> []
          then (''Pending'', reply_email to_text to cc (me_subject m) mid
                  (positive_body (body_head (me_body m)) url))
          else (''Skipped'', silent_email ''Skipped'' mid ''Skipped due to no findings''))"

lemma queue_notifications_old:
  "queued d (no_patch_id n) \<Longrightarrow> queue_notifications to_text loaded smtp n now d = ([], d)"
  by (simp add: queue_notifications_def queued_def)

lemma queue_notifications_unknown:
  "get_message_details_by_msgid (no_patch_message_id n) d = None \<Longrightarrow>
   queue_notifications to_text loaded smtp n now d = ([], d)"
  by (simp add: queue_notifications_def)

lemma queue_notifications_new:
  assumes "\<not> queued d (no_patch_id n)"
    and "get_message_details_by_msgid (no_patch_message_id n) d = Some det"
  shows "snd (queue_notifications to_text (Inr policy) smtp n now d) =
    (let (status, e) = queued_as to_text smtp (notice_action policy smtp (md_message det)) n (md_message det)
     in insert_email_outbox (no_patch_id n) status e now d)"
proof -
  have "\<not> (\<exists>e\<in>set (outbox d). eo_patch e = no_patch_id n)"
    using assms(1) by (simp add: queued_def)
  then show ?thesis
    using assms(2)
    by (cases "notice_action policy smtp (md_message det)")
       (simp_all add: queue_notifications_def queued_as_def Let_def queue_without_findings_def
         queue_with_findings_def)
qed

lemma queue_new:
  assumes "\<not> queued d (no_patch_id n)"
    and "get_message_details_by_msgid (no_patch_message_id n) d = Some det"
    and d': "d' = snd (queue_notifications to_text (Inr policy) smtp n now d)"
  shows "\<exists>r. d' = d\<lparr>outbox := outbox d @ [r]\<rparr> \<and> eo_patch r = no_patch_id n \<and>
    (case notice_action policy smtp (md_message det) of
       Mute \<Rightarrow> eo_status r = (if notice_findings n = [] then ''Skipped'' else ''Muted'') \<and> eo_to r = ''[]''
     | Send to cc positive \<Rightarrow>
         if notice_findings n \<noteq> []
         then eo_status r = send_status smtp \<and> eo_to r = address_json to_text to \<and>
           eo_cc r = address_json to_text cc \<and>
           eo_body r = review_body (notice_findings n) (no_inline n)
             (target_url (no_patchset_message_id n) (no_index n))
         else if positive \<and> body_head (me_body (md_message det)) \<noteq> []
         then eo_status r = ''Pending'' \<and> eo_to r = address_json to_text to \<and>
           eo_cc r = address_json to_text cc
         else eo_status r = ''Skipped'' \<and> eo_to r = ''[]'') \<and>
    (\<forall>n' loaded smtp' t. queue_notifications to_text loaded smtp' (n'\<lparr>no_patch_id := no_patch_id n\<rparr>) t d' =
       ([], d'))"
proof -
  obtain status e where q: "queued_as to_text smtp (notice_action policy smtp (md_message det)) n
      (md_message det) = (status, e)" by fastforce
  have d1: "d' = insert_email_outbox (no_patch_id n) status e now d"
    using queue_notifications_new [OF assms(1,2)] q d' by simp
  obtain r where r: "d' = d\<lparr>outbox := outbox d @ [r]\<rparr>" "eo_patch r = no_patch_id n"
      "eo_status r = status" "eo_to r = em_to e" "eo_cc r = em_cc e" "eo_body r = em_body e"
    using insert_new [OF assms(1)] unfolding d1 by metis
  have "queued d' (no_patch_id n)" by (auto simp: queued_def r)
  then have again: "queue_notifications to_text loaded smtp' (n'\<lparr>no_patch_id := no_patch_id n\<rparr>) t d' =
      ([], d')" for n' loaded smtp' t
    by (simp add: queue_notifications_old)
  have c: "case notice_action policy smtp (md_message det) of
       Mute \<Rightarrow> eo_status r = (if notice_findings n = [] then ''Skipped'' else ''Muted'') \<and> eo_to r = ''[]''
     | Send to cc positive \<Rightarrow>
         if notice_findings n \<noteq> []
         then eo_status r = send_status smtp \<and> eo_to r = address_json to_text to \<and>
           eo_cc r = address_json to_text cc \<and>
           eo_body r = review_body (notice_findings n) (no_inline n)
             (target_url (no_patchset_message_id n) (no_index n))
         else if positive \<and> body_head (me_body (md_message det)) \<noteq> []
         then eo_status r = ''Pending'' \<and> eo_to r = address_json to_text to \<and>
           eo_cc r = address_json to_text cc
         else eo_status r = ''Skipped'' \<and> eo_to r = ''[]''"
    using q r(3-6)
    by (cases "notice_action policy smtp (md_message det)")
       (auto simp: queued_as_def Let_def silent_email_def reply_email_def split: if_splits)
  show ?thesis using r(1,2) c again by blast
qed

text \<open>C28. Queueing the result of a review of a known patch adds exactly one row to the outbox and
  changes nothing else: without findings the row is a positive review, if the policy wants one and
  there is text to quote, or a note that nothing was sent; with findings it is the review, addressed
  as the policy says and held back when mail is switched off or on a dry run, or a note that the
  policy muted it. Doing it again has no effect, whatever the new result says.\<close>

theorem queue_notifications_spec:
  assumes "\<not> queued d (no_patch_id n)"
    and "get_message_details_by_msgid (no_patch_message_id n) d = Some det"
    and d': "d' = snd (queue_notifications to_text (Inr policy) smtp n now d)"
  shows "\<exists>r. d' = d\<lparr>outbox := outbox d @ [r]\<rparr> \<and> eo_patch r = no_patch_id n \<and>
    (case notice_action policy smtp (md_message det) of
       Mute \<Rightarrow> eo_status r = (if notice_findings n = [] then ''Skipped'' else ''Muted'') \<and> eo_to r = ''[]''
     | Send to cc positive \<Rightarrow>
         if notice_findings n \<noteq> []
         then eo_status r = send_status smtp \<and> eo_to r = address_json to_text to \<and>
           eo_cc r = address_json to_text cc \<and>
           eo_body r = review_body (notice_findings n) (no_inline n)
             (target_url (no_patchset_message_id n) (no_index n))
         else if positive \<and> body_head (me_body (md_message det)) \<noteq> []
         then eo_status r = ''Pending'' \<and> eo_to r = address_json to_text to \<and>
           eo_cc r = address_json to_text cc
         else eo_status r = ''Skipped'' \<and> eo_to r = ''[]'') \<and>
    (\<forall>n' loaded smtp' t. queue_notifications to_text loaded smtp' (n'\<lparr>no_patch_id := no_patch_id n\<rparr>) t d' =
       ([], d'))"
  using assms by (rule queue_new)

text \<open>Examples: a patch mailed to the list of subsystem \<open>mm\<close>, and a notice about it.\<close>

definition sample_patch_mail :: message_row where
  "sample_patch_mail =
     \<lparr>me_id = 1, me_message_id = ''p@x'', me_thread = 1, me_in_reply_to = None, me_author = ''c@x'',
      me_subject = ''[PATCH] mm: fix'', me_date = 5, me_body = ''Fix it.'', me_to = ''Mm <mm@k>, a@x'',
      me_cc = ''b@x'', me_blob = None, me_list = None\<rparr>"

definition sample_mail_db :: db where
  "sample_mail_db = empty_db\<lparr>messages := [sample_patch_mail]\<rparr>"

definition sample_notice :: Notice where
  "sample_notice =
     \<lparr>no_patch_id = 7, no_patch_message_id = ''p@x'', no_patchset_message_id = ''<p@x>'', no_index = 1,
      no_inline = ''> Fix it.'', no_findings = Some [JObj [(''problem'', JStr ''leak'')]]\<rparr>"

definition sample_smtp :: SmtpSettings where
  "sample_smtp = \<lparr>smtp_server = ''s'', smtp_port = 25, smtp_username = None, smtp_password = None,
     smtp_sender_address = ''bot@x'', smtp_reply_to = None, smtp_dry_run = False\<rparr>"

lemma sample_mail:
  "get_message_details_by_msgid ''p@x'' sample_mail_db =
     Some \<lparr>md_message = sample_patch_mail, md_diff = None,
           md_thread = [(1, ''p@x'', ''c@x'', 5, ''[PATCH] mm: fix'', None)]\<rparr>"
  by code_simp

lemma sample_action:
  "notice_action sample_policy smtp sample_patch_mail =
     resolve_recipients sample_policy [''Mm <mm@k>'', ''a@x''] [''b@x''] ''c@x'' (sender_address smtp)"
proof -
  have "split_addresses (me_to sample_patch_mail) = [''Mm <mm@k>'', ''a@x'']"
    "split_addresses (me_cc sample_patch_mail) = [''b@x'']" "me_author sample_patch_mail = ''c@x''"
    by code_simp+
  then show ?thesis by (simp add: notice_action_def)
qed

lemma sample_send:
  "notice_action sample_policy (Some sample_smtp) sample_patch_mail = Send [''c@x'', ''a@x''] [''Log@x'', ''b@x''] False"
  by code_simp

theorem queue_notifications_spec_witness:
  "\<exists>r. snd (queue_notifications (\<lambda>_. ''json'') (Inr sample_policy) (Some sample_smtp) sample_notice 9
        sample_mail_db) = sample_mail_db\<lparr>outbox := [r]\<rparr> \<and> eo_status r = ''Pending'' \<and> eo_to r = ''json''"
proof -
  have n: "\<not> queued sample_mail_db (no_patch_id sample_notice)"
    and f: "notice_findings sample_notice \<noteq> []" "send_status (Some sample_smtp) = ''Pending''" by code_simp+
  have m: "no_patch_message_id sample_notice = ''p@x''" by code_simp
  have o: "outbox sample_mail_db = []" by code_simp
  from queue_notifications_spec [OF n sample_mail [folded m] refl, of "\<lambda>_. ''json''" sample_policy
      "Some sample_smtp" 9] f
  show ?thesis by (auto simp: sample_send o address_json_def)
qed

text \<open>From the policy to the wire: when a policy that applies to a patch answers privately, a
  message that the worker composes from the row queued for that patch goes only to the author, to
  addresses a policy names, and to recipients of the patch that are not a mailing list; the JSON
  reader is assumed to read back what the printer wrote.\<close>

theorem mail_stays_private:
  assumes json: "\<forall>xs. from_str (address_json to_text xs) = Some xs"
    and new: "\<not> queued d (no_patch_id n)"
    and known: "get_message_details_by_msgid (no_patch_message_id n) d = Some det"
    and r: "r \<in> set (outbox (snd (queue_notifications to_text (Inr policy) smtp n now d)))"
      "eo_patch r = no_patch_id n" "eo_status r = ''Pending''"
    and p: "p \<in> set (active_policies policy (split_addresses (me_to (md_message det)) @
        split_addresses (me_cc (md_message det))))" "\<not> sp_reply_all p"
    and m: "compose_email parse_addr from_str settings r = Inr (Some m)"
    and a: "a \<in> set (mail_to m @ mail_cc m)"
  shows "\<exists>x. parse_addr x = Some a \<and> \<not> contains (lower x) (lower (sender_address smtp)) \<and>
    (x = me_author (md_message det) \<or>
     (\<exists>q\<in>set (defaults policy # policy_values policy). x \<in> set (sp_cc q)) \<or>
     x \<in> set (split_addresses (me_to (md_message det)) @ split_addresses (me_cc (md_message det))) \<and>
       \<not> is_mailing_list policy x)"
proof -
  let ?m = "md_message det"
  let ?to = "split_addresses (me_to ?m)" and ?cc = "split_addresses (me_cc ?m)"
  obtain r' where r': "snd (queue_notifications to_text (Inr policy) smtp n now d) = d\<lparr>outbox := outbox d @ [r']\<rparr>"
    and c: "case notice_action policy smtp ?m of
       Mute \<Rightarrow> eo_status r' = (if notice_findings n = [] then ''Skipped'' else ''Muted'') \<and> eo_to r' = ''[]''
     | Send to cc positive \<Rightarrow>
         if notice_findings n \<noteq> []
         then eo_status r' = send_status smtp \<and> eo_to r' = address_json to_text to \<and>
           eo_cc r' = address_json to_text cc \<and>
           eo_body r' = review_body (notice_findings n) (no_inline n)
             (target_url (no_patchset_message_id n) (no_index n))
         else if positive \<and> body_head (me_body ?m) \<noteq> []
         then eo_status r' = ''Pending'' \<and> eo_to r' = address_json to_text to \<and>
           eo_cc r' = address_json to_text cc
         else eo_status r' = ''Skipped'' \<and> eo_to r' = ''[]''"
    using queue_new [OF new known refl] by blast
  have "r = r'" using r(1,2) new by (auto simp: r' queued_def)
  with c r(3) obtain to cc pos where s: "notice_action policy smtp ?m = Send to cc pos"
      "eo_to r = address_json to_text to" "eo_cc r = address_json to_text cc"
    by (auto split: Action.splits if_splits)
  then have act: "resolve_recipients policy ?to ?cc (me_author ?m) (sender_address smtp) = Send to cc pos"
    by (simp add: notice_action_def)
  have "set (mail_to m @ mail_cc m) = {a. \<exists>t\<in>set (to @ cc). parse_addr t = Some a}"
    using composed_addresses [OF m] json s by auto
  with a obtain x where x: "x \<in> set (to @ cc)" "parse_addr x = Some a" by blast
  have "\<not> contains (lower x) (lower (sender_address smtp))"
    using never_to_self [OF act x(1)] .
  moreover have "set (active_policies policy (?to @ ?cc)) \<subseteq> set (defaults policy # policy_values policy)"
    by (auto simp: active_policies_def Let_def)
  ultimately show ?thesis
    using private_recipient [OF act p x(1)] x(2) by auto
qed

text \<open>A printer and a reader for arrays of strings, as an instance of the JSON assumption: every
  character is marked, every string ends with a dot.\<close>

definition sample_print :: "json \<Rightarrow> string" where
  "sample_print v = (case v of
     JArr vs \<Rightarrow> concat (List.map (\<lambda>x. concat (List.map (\<lambda>c. [CHR ''c'', c])
       (case x of JStr s \<Rightarrow> s | _ \<Rightarrow> [])) @ ''.'') vs) | _ \<Rightarrow> [])"

fun sample_read :: "string \<Rightarrow> string \<Rightarrow> string list option" where
  "sample_read cur [] = Some []"
| "sample_read cur [x] = Some [cur]"
| "sample_read cur (x # c # r) =
     (if x = CHR ''.'' then map_option ((#) cur) (sample_read [] (c # r)) else sample_read (cur @ [c]) r)"

lemma sample_read_dot: "sample_read cur (''.'' @ r) = map_option ((#) cur) (sample_read [] r)"
  by (cases r) simp_all

lemma sample_read_chars:
  "sample_read cur (concat (List.map (\<lambda>c. [CHR ''c'', c]) s) @ r) = sample_read (cur @ s) r"
  by (induction s arbitrary: cur) simp_all

lemma sample_json: "sample_read [] (address_json sample_print xs) = Some xs"
proof (induction xs)
  case Nil
  show ?case by (simp add: address_json_def sample_print_def)
next
  case (Cons x xs)
  have "address_json sample_print (x # xs) =
      concat (List.map (\<lambda>c. [CHR ''c'', c]) x) @ ''.'' @ address_json sample_print xs"
    by (simp add: address_json_def sample_print_def)
  with Cons show ?case
    by (simp only: sample_read_chars sample_read_dot append_Nil option.map)
qed

theorem mail_stays_private_witness:
  "\<not> contains (lower ''b@x'') (lower (sender_address (Some sample_smtp))) \<and>
   (\<exists>r m. r \<in> set (outbox (snd (queue_notifications sample_print (Inr sample_policy) (Some sample_smtp)
        sample_notice 9 sample_mail_db))) \<and>
     compose_email Some (sample_read []) sample_smtp r = Inr (Some m) \<and> ''b@x'' \<in> set (mail_cc m))"
proof -
  let ?q = "queue_notifications sample_print (Inr sample_policy) (Some sample_smtp) sample_notice 9 sample_mail_db"
  let ?p = "snd (hd (policies sample_policy))"
  let ?r = "hd (outbox (snd ?q))"
  have n: "\<not> queued sample_mail_db (no_patch_id sample_notice)" by code_simp
  have m: "no_patch_message_id sample_notice = ''p@x''" by code_simp
  have "List.length (outbox (snd ?q)) = 1" by code_simp
  then have r: "?r \<in> set (outbox (snd ?q))"
    by (intro hd_in_set) (metis list.size(3) zero_neq_one)
  have r': "eo_patch ?r = no_patch_id sample_notice" "eo_status ?r = ''Pending''" by code_simp+
  have ps: "?p \<in> set (active_policies sample_policy
      (split_addresses (me_to sample_patch_mail) @ split_addresses (me_cc sample_patch_mail)))"
    and pr: "\<not> sp_reply_all ?p" by code_simp+
  have c: "\<not> isl (compose_email Some (sample_read []) sample_smtp ?r)"
    "projr (compose_email Some (sample_read []) sample_smtp ?r) \<noteq> None"
    "''b@x'' \<in> set (mail_cc (the (projr (compose_email Some (sample_read []) sample_smtp ?r))))" by code_simp+
  have g: "\<not> isl c \<Longrightarrow> projr c \<noteq> None \<Longrightarrow> x \<in> set (mail_cc (the (projr c))) \<Longrightarrow>
      \<exists>m. c = Inr (Some m) \<and> x \<in> set (mail_cc m)" for c :: "string + Mail option" and x
    by (cases c) auto
  from g [OF c] obtain mm where mm: "compose_email Some (sample_read []) sample_smtp ?r = Inr (Some mm)"
    "''b@x'' \<in> set (mail_cc mm)" by blast
  then have a: "''b@x'' \<in> set (mail_to mm @ mail_cc mm)" by simp
  have j: "\<forall>xs. sample_read [] (address_json sample_print xs) = Some xs"
    using sample_json by blast
  from mail_stays_private [OF j n sample_mail [folded m] r r' _ pr mm(1) a] ps
  have "\<not> contains (lower ''b@x'') (lower (sender_address (Some sample_smtp)))" by simp
  with r mm show ?thesis by blast
qed

text \<open>A positive review takes no notice of the mail settings: with mail switched off, or in a dry
  run, it is queued as \<open>Pending\<close>, the status the worker sends, where a review with findings about the
  same patch is held back as \<open>Disabled\<close> or \<open>Dry-Run\<close>.\<close>

theorem positive_review_ignores_smtp:
  assumes "\<not> queued d (no_patch_id n)"
    and "get_message_details_by_msgid (no_patch_message_id n) d = Some det"
    and "notice_action policy smtp (md_message det) = Send to cc True"
    and "body_head (me_body (md_message det)) \<noteq> []"
    and held: "smtp = None \<or> smtp = Some s \<and> smtp_dry_run s" and "f \<noteq> []"
  shows "(\<exists>r. outbox (snd (queue_notifications to_text (Inr policy) smtp (n\<lparr>no_findings := Some []\<rparr>) now d)) =
       outbox d @ [r] \<and> eo_status r = ''Pending'') \<and>
    (\<exists>r. outbox (snd (queue_notifications to_text (Inr policy) smtp
         (n\<lparr>no_findings := Some f\<rparr>) now d)) = outbox d @ [r] \<and> eo_status r \<in> {''Disabled'', ''Dry-Run''})"
proof -
  have u: "\<not> queued d (no_patch_id (n\<lparr>no_findings := x\<rparr>))"
    "get_message_details_by_msgid (no_patch_message_id (n\<lparr>no_findings := x\<rparr>)) d = Some det"
    "notice_findings (n\<lparr>no_findings := Some y\<rparr>) = y" for x y
    using assms(1,2) by (simp_all add: notice_findings_def)
  note q = queue_new [OF u(1,2) refl, where policy = policy and smtp = smtp and to_text = to_text and now = now]
  show ?thesis
    using q [of "Some []"] q [of "Some f"] assms(3,4) held \<open>f \<noteq> []\<close>
    by (auto simp: u(3) send_status_def)
qed

theorem positive_review_ignores_smtp_witness:
  "\<exists>r. outbox (snd (queue_notifications sample_print (Inr \<lparr>defaults = default_policy\<lparr>sp_reply_all := True,
       sp_send_positive_review := True\<rparr>, policies = []\<rparr>) None (sample_notice\<lparr>no_findings := Some []\<rparr>) 9
       sample_mail_db)) = [r] \<and> eo_status r = ''Pending''"
proof -
  let ?p = "\<lparr>defaults = default_policy\<lparr>sp_reply_all := True, sp_send_positive_review := True\<rparr>,
    policies = []\<rparr>"
  have n: "\<not> queued sample_mail_db (no_patch_id sample_notice)" by code_simp
  have m: "no_patch_message_id sample_notice = ''p@x''" by code_simp
  have o: "outbox sample_mail_db = []" by code_simp
  have a: "notice_action ?p None sample_patch_mail = Send [''Mm <mm@k>'', ''a@x''] [''b@x''] True"
    and h: "body_head (me_body sample_patch_mail) \<noteq> []" by code_simp+
  have j: "[JNull] \<noteq> []" by simp
  from positive_review_ignores_smtp [OF n sample_mail [folded m] _ _ _ j, of ?p None _ _ sample_smtp
      sample_print 9] a h
  show ?thesis by (simp add: o)
qed

end
