(* ===== verification/Ai.thy ===== *)
theory Ai
  imports Json
begin

text \<open>
  The vocabulary that all AI providers share, of \<open>src/ai/mod.rs\<close>: messages, requests,
  responses, the classes of errors and their wire format on the stdio protocol, and the removal of
  thought signatures. A \<open>Duration\<close> is its number of nanoseconds. The JSON form of a value is
  what the derived serde implementations read and write.
\<close>

subsection \<open>Messages, requests and responses\<close>

datatype AiRole = System | User | Assistant | Tool

fun role_str :: "AiRole \<Rightarrow> string" where
  "role_str System = ''system''"
| "role_str User = ''user''"
| "role_str Assistant = ''assistant''"
| "role_str Tool = ''tool''"

record ToolCall =
  tc_id :: string
  tc_function_name :: string
  tc_arguments :: json
  tc_thought_signature :: "string option"

record AiMessage =
  mg_role :: AiRole
  mg_content :: "string option"
  mg_thought :: "string option"
  mg_thought_signature :: "string option"
  mg_tool_calls :: "ToolCall list option"
  mg_tool_call_id :: "string option"

datatype AiResponseFormat = Text | Json "json option"

record AiTool =
  tl_name :: string
  tl_description :: string
  tl_parameters :: json

record AiRequest =
  rq_system :: "string option"
  rq_messages :: "AiMessage list"
  rq_tools :: "AiTool list option"
  rq_temperature :: "string option"
  rq_response_format :: "AiResponseFormat option"
  rq_context_tag :: "string option"

record AiUsage =
  us_prompt_tokens :: nat
  us_completion_tokens :: nat
  us_total_tokens :: nat
  us_cached_tokens :: "nat option"

record AiResponse =
  rs_content :: "string option"
  rs_thought :: "string option"
  rs_thought_signature :: "string option"
  rs_tool_calls :: "ToolCall list option"
  rs_usage :: "AiUsage option"

record ProviderCapabilities =
  model_name :: string
  context_window_size :: nat

record CacheStats =
  hits_this_session :: nat
  hits_prev_session :: nat
  tokens_saved_this_session :: nat
  tokens_saved_prev_session :: nat

subsection \<open>JSON of requests and responses\<close>

text \<open>\<open>skip_serializing_if = "Option::is_none"\<close>.\<close>

definition some_field :: "string \<Rightarrow> ('a \<Rightarrow> json) \<Rightarrow> 'a option \<Rightarrow> (string \<times> json) list" where
  "some_field k f m = (case m of Some x \<Rightarrow> [(k, f x)] | None \<Rightarrow> [])"

definition tool_call_json :: "ToolCall \<Rightarrow> json" where
  "tool_call_json c =
     JObj ([(''id'', JStr (tc_id c)), (''function_name'', JStr (tc_function_name c)),
            (''arguments'', tc_arguments c)] @ some_field ''thought_signature'' JStr (tc_thought_signature c))"

definition message_json :: "AiMessage \<Rightarrow> json" where
  "message_json m =
     JObj ([(''role'', JStr (role_str (mg_role m))), (''content'', jopt JStr (mg_content m))] @
       some_field ''thought'' JStr (mg_thought m) @
       some_field ''thought_signature'' JStr (mg_thought_signature m) @
       some_field ''tool_calls'' (\<lambda>cs. JArr (List.map tool_call_json cs)) (mg_tool_calls m) @
       some_field ''tool_call_id'' JStr (mg_tool_call_id m))"

definition usage_json :: "AiUsage \<Rightarrow> json" where
  "usage_json u =
     JObj ([(''prompt_tokens'', JInt (int (us_prompt_tokens u))),
            (''completion_tokens'', JInt (int (us_completion_tokens u))),
            (''total_tokens'', JInt (int (us_total_tokens u)))] @
       some_field ''cached_tokens'' (\<lambda>n. JInt (int n)) (us_cached_tokens u))"

definition response_json :: "AiResponse \<Rightarrow> json" where
  "response_json r =
     JObj ([(''content'', jopt JStr (rs_content r))] @
       some_field ''thought'' JStr (rs_thought r) @
       some_field ''thought_signature'' JStr (rs_thought_signature r) @
       some_field ''tool_calls'' (\<lambda>cs. JArr (List.map tool_call_json cs)) (rs_tool_calls r) @
       [(''usage'', jopt usage_json (rs_usage r))])"

text \<open>Reading: an optional field may be missing or null, a value of another type is an error.\<close>

definition opt_field :: "(json \<Rightarrow> 'a option) \<Rightarrow> json \<Rightarrow> string \<Rightarrow> 'a option option" where
  "opt_field dec v k =
     (case jget v k of
        None \<Rightarrow> Some None
      | Some x \<Rightarrow> if x = JNull then Some None else map_option Some (dec x))"

definition req_field :: "(json \<Rightarrow> 'a option) \<Rightarrow> json \<Rightarrow> string \<Rightarrow> 'a option" where
  "req_field dec v k = Option.bind (jget v k) dec"

fun as_usize :: "json \<Rightarrow> nat option" where
  "as_usize (JInt n) = (if 0 \<le> n \<and> n < 2 ^ 64 then Some (nat n) else None)"
| "as_usize _ = None"

fun all_some :: "'a option list \<Rightarrow> 'a list option" where
  "all_some [] = Some []"
| "all_some (None # xs) = None"
| "all_some (Some x # xs) = map_option ((#) x) (all_some xs)"

definition list_of :: "(json \<Rightarrow> 'a option) \<Rightarrow> json \<Rightarrow> 'a list option" where
  "list_of dec v = Option.bind (as_array_opt v) (\<lambda>xs. all_some (List.map dec xs))"

definition tool_call_of_json :: "json \<Rightarrow> ToolCall option" where
  "tool_call_of_json v =
     do { i \<leftarrow> req_field as_str_opt v ''id'';
          f \<leftarrow> req_field as_str_opt v ''function_name'';
          a \<leftarrow> req_field Some v ''arguments'';
          t \<leftarrow> opt_field as_str_opt v ''thought_signature'';
          Some \<lparr>tc_id = i, tc_function_name = f, tc_arguments = a, tc_thought_signature = t\<rparr> }"

definition usage_of_json :: "json \<Rightarrow> AiUsage option" where
  "usage_of_json v =
     do { p \<leftarrow> req_field as_usize v ''prompt_tokens'';
          c \<leftarrow> req_field as_usize v ''completion_tokens'';
          t \<leftarrow> req_field as_usize v ''total_tokens'';
          k \<leftarrow> opt_field as_usize v ''cached_tokens'';
          Some \<lparr>us_prompt_tokens = p, us_completion_tokens = c, us_total_tokens = t, us_cached_tokens = k\<rparr> }"

definition response_of_json :: "json \<Rightarrow> AiResponse option" where
  "response_of_json v =
     (if as_object_opt v = None then None else
      do { c \<leftarrow> opt_field as_str_opt v ''content'';
           t \<leftarrow> opt_field as_str_opt v ''thought'';
           s \<leftarrow> opt_field as_str_opt v ''thought_signature'';
           k \<leftarrow> opt_field (list_of tool_call_of_json) v ''tool_calls'';
           u \<leftarrow> opt_field usage_of_json v ''usage'';
           Some \<lparr>rs_content = c, rs_thought = t, rs_thought_signature = s, rs_tool_calls = k, rs_usage = u\<rparr> })"

subsection \<open>Errors\<close>

definition nanos :: nat where "nanos = 10 ^ 9"

datatype AiErrorClass = Fatal | RateLimit nat | Transient nat

record RemoteAiErrorPayload =
  pl_message :: string
  pl_class :: AiErrorClass

definition DEFAULT_RETRY_AFTER :: nat where "DEFAULT_RETRY_AFTER = 60 * nanos"

definition classify_status_code :: "nat \<Rightarrow> AiErrorClass option" where
  "classify_status_code status =
     (if status = 429 then Some (RateLimit DEFAULT_RETRY_AFTER)
      else if status = 500 \<or> status = 502 \<or> status = 503 \<or> status = 504
      then Some (Transient DEFAULT_RETRY_AFTER)
      else if status = 529 then Some (Transient DEFAULT_RETRY_AFTER)
      else None)"

text \<open>The errors that carry a class; any other error is fatal.\<close>

datatype AiError =
    RemoteError RemoteAiErrorPayload
  | ProviderError string AiErrorClass
  | OtherError string

fun classify_ai_error :: "AiError \<Rightarrow> AiErrorClass" where
  "classify_ai_error (RemoteError p) = pl_class p"
| "classify_ai_error (ProviderError _ c) = c"
| "classify_ai_error (OtherError _) = Fatal"

text \<open>The payload is flattened, the class is a tag; durations travel in whole seconds.\<close>

definition error_payload_json :: "RemoteAiErrorPayload \<Rightarrow> json" where
  "error_payload_json p =
     JObj ((''message'', JStr (pl_message p)) #
       (case pl_class p of
          Fatal \<Rightarrow> [(''class'', JStr ''fatal'')]
        | RateLimit t \<Rightarrow> [(''class'', JStr ''rate_limit''), (''retry_after_secs'', JInt (int (t div nanos)))]
        | Transient t \<Rightarrow> [(''class'', JStr ''transient''), (''retry_after_secs'', JInt (int (t div nanos)))]))"

definition error_payload_of_json :: "json \<Rightarrow> RemoteAiErrorPayload option" where
  "error_payload_of_json v =
     do { m \<leftarrow> req_field as_str_opt v ''message'';
          c \<leftarrow> req_field as_str_opt v ''class'';
          k \<leftarrow> (if c = ''fatal'' then Some Fatal
               else if c = ''rate_limit'' then map_option (\<lambda>t. RateLimit (t * nanos)) (req_field as_usize v ''retry_after_secs'')
               else if c = ''transient'' then map_option (\<lambda>t. Transient (t * nanos)) (req_field as_usize v ''retry_after_secs'')
               else None);
          Some \<lparr>pl_message = m, pl_class = k\<rparr> }"

text \<open>One line of the protocol: a response, a typed error, or something unexpected.\<close>

definition decode_stdio_ai_response :: "json_parser \<Rightarrow> string \<Rightarrow> AiError + AiResponse" where
  "decode_stdio_ai_response from_str line =
     (case from_str line of
        None \<Rightarrow> Inl (OtherError ''not JSON'')
      | Some v \<Rightarrow>
          (if as_str_opt (jindex v ''type'') = Some ''ai_response''
           then (case response_of_json (jindex v ''payload'') of
                   Some r \<Rightarrow> Inr r | None \<Rightarrow> Inl (OtherError ''bad payload''))
           else if as_str_opt (jindex v ''type'') = Some ''error''
           then (case error_payload_of_json (jindex v ''payload'') of
                   Some p \<Rightarrow> Inl (RemoteError p) | None \<Rightarrow> Inl (OtherError ''bad payload''))
           else Inl (OtherError ''Unexpected response type'')))"

definition ai_response_msg :: "AiResponse \<Rightarrow> json" where
  "ai_response_msg r = JObj [(''type'', JStr ''ai_response''), (''payload'', response_json r)]"

definition error_msg :: "RemoteAiErrorPayload \<Rightarrow> json" where
  "error_msg p = JObj [(''type'', JStr ''error''), (''payload'', error_payload_json p)]"

subsection \<open>Thought signatures\<close>

definition is_thought_key :: "string \<Rightarrow> bool" where
  "is_thought_key k \<longleftrightarrow> k = ''thought_signature'' \<or> k = ''thoughtSignature''"

fun scrub_thought_signatures :: "json \<Rightarrow> json" where
  "scrub_thought_signatures (JObj ms) =
     JObj (List.map (\<lambda>(k, v). (k, scrub_thought_signatures v))
       (filter (\<lambda>(k, v). \<not> is_thought_key k) ms))"
| "scrub_thought_signatures (JArr vs) = JArr (List.map scrub_thought_signatures vs)"
| "scrub_thought_signatures v = v"

subsection \<open>The protocol: lemmas\<close>

lemma all_some_map: "\<forall>x\<in>set xs. dec (enc x) = Some x \<Longrightarrow> all_some (List.map (\<lambda>x. dec (enc x)) xs) = Some xs"
  by (induction xs) auto

lemma list_of_map: "\<forall>x\<in>set xs. dec (enc x) = Some x \<Longrightarrow> list_of dec (JArr (List.map enc xs)) = Some xs"
  by (simp add: list_of_def comp_def all_some_map)

lemma jget_JObj [simp]: "jget (JObj ms) k = map_of ms k" by simp

lemma map_of_some_field [simp]:
  "map_of (some_field k f m) k' = (if k = k' then map_option f m else None)"
  by (cases m) (auto simp: some_field_def)

lemma opt_field_some:
  "jget v k = map_option f m \<Longrightarrow> (\<And>x. m = Some x \<Longrightarrow> f x \<noteq> JNull \<and> dec (f x) = Some x) \<Longrightarrow>
   opt_field dec v k = Some m"
  by (cases m) (auto simp: opt_field_def)

lemma opt_field_jopt:
  "jget v k = Some (jopt f m) \<Longrightarrow> (\<And>x. m = Some x \<Longrightarrow> f x \<noteq> JNull \<and> dec (f x) = Some x) \<Longrightarrow>
   opt_field dec v k = Some m"
  by (cases m) (auto simp: opt_field_def jopt_def)

lemma tool_call_roundtrip: "tool_call_of_json (tool_call_json c) = Some c"
proof -
  let ?v = "tool_call_json c"
  have "opt_field as_str_opt ?v ''thought_signature'' = Some (tc_thought_signature c)"
    by (rule opt_field_some [where f = JStr]) (auto simp: tool_call_json_def map_add_def split: option.splits)
  then show ?thesis
    by (simp add: tool_call_of_json_def req_field_def tool_call_json_def)
qed

definition usize_ok :: "nat \<Rightarrow> bool" where
  "usize_ok n \<longleftrightarrow> n < 2 ^ 64"

definition usage_ok :: "AiUsage \<Rightarrow> bool" where
  "usage_ok u \<longleftrightarrow> usize_ok (us_prompt_tokens u) \<and> usize_ok (us_completion_tokens u) \<and>
     usize_ok (us_total_tokens u) \<and> pred_option usize_ok (us_cached_tokens u)"

lemma as_usize_int [simp]: "usize_ok n \<Longrightarrow> as_usize (JInt (int n)) = Some n"
proof -
  assume "usize_ok n"
  then have "int n < 2 ^ 64" unfolding usize_ok_def by (metis of_nat_less_iff of_nat_numeral of_nat_power)
  then show ?thesis by simp
qed

lemma usage_roundtrip:
  assumes "usage_ok u"
  shows "usage_of_json (usage_json u) = Some u"
proof -
  let ?v = "usage_json u"
  have "opt_field as_usize ?v ''cached_tokens'' = Some (us_cached_tokens u)"
    using assms
    by (intro opt_field_some [where f = "\<lambda>n. JInt (int n)"])
       (auto simp: usage_json_def usage_ok_def map_add_def simp del: as_usize.simps split: option.splits)
  then show ?thesis
    using assms by (simp add: usage_of_json_def req_field_def usage_json_def usage_ok_def del: as_usize.simps)
qed

lemma response_roundtrip:
  assumes "pred_option usage_ok (rs_usage r)"
  shows "response_of_json (response_json r) = Some r"
proof -
  let ?v = "response_json r"
  have "opt_field as_str_opt ?v ''content'' = Some (rs_content r)"
    by (rule opt_field_jopt [where f = JStr]) (auto simp: response_json_def)
  moreover have "opt_field as_str_opt ?v ''thought'' = Some (rs_thought r)"
    by (rule opt_field_some [where f = JStr]) (auto simp: response_json_def map_add_def split: option.splits)
  moreover have "opt_field as_str_opt ?v ''thought_signature'' = Some (rs_thought_signature r)"
    by (rule opt_field_some [where f = JStr]) (auto simp: response_json_def map_add_def split: option.splits)
  moreover have "opt_field (list_of tool_call_of_json) ?v ''tool_calls'' = Some (rs_tool_calls r)"
    by (rule opt_field_some [where f = "\<lambda>cs. JArr (List.map tool_call_json cs)"])
       (auto simp: response_json_def map_add_def list_of_map tool_call_roundtrip split: option.splits)
  moreover have "opt_field usage_of_json ?v ''usage'' = Some (rs_usage r)"
  proof (rule opt_field_jopt [where f = usage_json])
    show "jget ?v ''usage'' = Some (jopt usage_json (rs_usage r))"
      by (auto simp: response_json_def map_add_def split: option.splits)
    show "usage_json x \<noteq> JNull \<and> usage_of_json (usage_json x) = Some x" if "rs_usage r = Some x" for x
      using usage_roundtrip [of x] that assms by (simp add: usage_json_def)
  qed
  moreover have "as_object_opt ?v \<noteq> None" by (simp add: response_json_def)
  ultimately show ?thesis by (simp add: response_of_json_def)
qed

text \<open>What is left of a class on the other side: a wait in whole seconds.\<close>

fun whole_seconds :: "AiErrorClass \<Rightarrow> AiErrorClass" where
  "whole_seconds Fatal = Fatal"
| "whole_seconds (RateLimit t) = RateLimit (t div nanos * nanos)"
| "whole_seconds (Transient t) = Transient (t div nanos * nanos)"

fun retry_after :: "AiErrorClass \<Rightarrow> nat" where
  "retry_after Fatal = 0"
| "retry_after (RateLimit t) = t"
| "retry_after (Transient t) = t"

lemma error_payload_roundtrip:
  assumes "usize_ok (retry_after (pl_class p) div nanos)"
  shows "error_payload_of_json (error_payload_json p) = Some (p\<lparr>pl_class := whole_seconds (pl_class p)\<rparr>)"
  using assms
  by (cases "pl_class p")
     (simp_all add: error_payload_of_json_def error_payload_json_def req_field_def del: as_usize.simps)

text \<open>C37. The stdio protocol between the reviewer and the review process: what one side writes the
  other reads. A response arrives unchanged, and an error arrives with its message and its class,
  so that it is retried or given up on the far side as it would be on the near one; only the wait of
  a rate limit or a transient error is cut to whole seconds. The JSON reader is assumed to read back
  what the printer wrote of the two messages.\<close>

theorem stdio_protocol_roundtrip:
  assumes json: "\<forall>v\<in>{ai_response_msg r, error_msg p}. from_str (to_text v) = Some v"
    and "pred_option usage_ok (rs_usage r)" "usize_ok (retry_after (pl_class p) div nanos)"
  shows "decode_stdio_ai_response from_str (to_text (ai_response_msg r)) = Inr r \<and>
    (\<exists>e. decode_stdio_ai_response from_str (to_text (error_msg p)) = Inl e \<and>
      e = RemoteError (p\<lparr>pl_class := whole_seconds (pl_class p)\<rparr>) \<and>
      classify_ai_error e = whole_seconds (pl_class p) \<and>
      retry_after (classify_ai_error e) \<le> retry_after (pl_class p))"
proof -
  have "decode_stdio_ai_response from_str (to_text (ai_response_msg r)) = Inr r"
    using json response_roundtrip [OF assms(2)]
    by (simp add: decode_stdio_ai_response_def ai_response_msg_def jindex_def)
  moreover have "decode_stdio_ai_response from_str (to_text (error_msg p)) =
      Inl (RemoteError (p\<lparr>pl_class := whole_seconds (pl_class p)\<rparr>))"
    using json error_payload_roundtrip [OF assms(3)]
    by (simp add: decode_stdio_ai_response_def error_msg_def jindex_def)
  moreover have "retry_after (whole_seconds c) \<le> retry_after c" for c by (cases c) simp_all
  ultimately show ?thesis by simp
qed

fun json_keys :: "json \<Rightarrow> string set" where
  "json_keys (JObj ms) = (\<Union>(k, v)\<in>set ms. insert k (json_keys v))"
| "json_keys (JArr vs) = (\<Union>v\<in>set vs. json_keys v)"
| "json_keys v = {}"

lemma keys_scrubbed: "is_thought_key k \<Longrightarrow> k \<notin> json_keys (scrub_thought_signatures v)"
proof (induction v rule: scrub_thought_signatures.induct)
  case (1 ms)
  then show ?case by (auto simp: is_thought_key_def)
qed auto

lemma scrub_fixed: "(\<forall>k\<in>json_keys v. \<not> is_thought_key k) \<Longrightarrow> scrub_thought_signatures v = v"
proof (induction v rule: scrub_thought_signatures.induct)
  case (1 ms)
  have f: "filter (\<lambda>(k, v). \<not> is_thought_key k) ms = ms"
    using "1.prems" by (intro filter_True) auto
  have "List.map (\<lambda>(k, v). (k, scrub_thought_signatures v)) ms = ms"
    using 1 f by (intro map_idI) (force split: prod.splits)
  with f show ?case by simp
next
  case (2 vs)
  have "List.map scrub_thought_signatures vs = vs"
    using 2 by (intro map_idI) auto
  then show ?case by simp
qed auto

text \<open>No thought signature survives the scrubbing, at any depth, and scrubbing twice is scrubbing
  once.\<close>

theorem scrub_spec:
  "json_keys (scrub_thought_signatures v) \<inter> {''thought_signature'', ''thoughtSignature''} = {} \<and>
   scrub_thought_signatures (scrub_thought_signatures v) = scrub_thought_signatures v"
proof -
  have "k \<notin> json_keys (scrub_thought_signatures v)" if "is_thought_key k" for k
    by (rule keys_scrubbed [OF that])
  then show ?thesis by (auto simp: is_thought_key_def intro!: scrub_fixed)
qed

theorem stdio_protocol_roundtrip_witness:
  "\<exists>from_str to_text. \<exists>e. decode_stdio_ai_response from_str
     (to_text (error_msg \<lparr>pl_message = ''busy'', pl_class = RateLimit 2500000000\<rparr>)) = Inl e \<and>
   classify_ai_error e = RateLimit 2000000000"
proof -
  let ?r = "\<lparr>rs_content = Some ''x'', rs_thought = None, rs_thought_signature = None, rs_tool_calls = None,
    rs_usage = None\<rparr>"
  let ?p = "\<lparr>pl_message = ''busy'', pl_class = RateLimit 2500000000\<rparr>"
  let ?to = "\<lambda>v. if v = ai_response_msg ?r then ''a'' else ''b''"
  let ?from = "\<lambda>s. if s = ''a'' then Some (ai_response_msg ?r) else Some (error_msg ?p)"
  have "error_msg ?p \<noteq> ai_response_msg ?r" by (simp add: error_msg_def ai_response_msg_def)
  then have j: "\<forall>v\<in>{ai_response_msg ?r, error_msg ?p}. ?from (?to v) = Some v" by simp
  have u: "pred_option usage_ok (rs_usage ?r)" "usize_ok (retry_after (pl_class ?p) div nanos)"
    by (simp_all add: usize_ok_def nanos_def)
  have "whole_seconds (pl_class ?p) = RateLimit 2000000000" by (simp add: nanos_def)
  with stdio_protocol_roundtrip [where from_str = ?from and to_text = ?to and r = ?r and p = ?p, OF j u]
  show ?thesis by metis
qed

end
