(* ===== verification/Baseline.thy ===== *)
theory Baseline
  imports Subject
begin

text \<open>
  Which commits a series may be based on: \<open>src/baseline.rs\<close>, the parser of the kernel's
  \<open>MAINTAINERS\<close> file, the subsystem heuristic and the list of candidates. git is a subprocess:
  what it prints is an argument. A hash map from URLs to names is an association list whose
  first entry of a key counts; where the code iterates over a hash map, the order is an argument
  (\<open>iter\<close>).
\<close>

subsection \<open>Data\<close>

record MaintainersEntry =
  mt_subsystem :: string
  mt_trees :: "(string \<times> string option) list"
  mt_patterns :: "string list"

datatype BaselineResolution =
    Commit string
  | CommitInRepo string string
  | LocalRef string
  | RemoteTarget string string "string option"

fun baseline_str :: "BaselineResolution \<Rightarrow> string" where
  "baseline_str (Commit h) = h"
| "baseline_str (CommitInRepo _ commit) = commit"
| "baseline_str (LocalRef r) = r"
| "baseline_str (RemoteTarget _ name br) =
     (case br of Some b \<Rightarrow> name @ ''/'' @ b | None \<Rightarrow> name @ ''/HEAD'')"

record CustomRemoteSettings =
  cr_name :: string
  cr_url :: string
  cr_check_all_branches :: bool
  cr_only_branches :: "string list option"

record BaselineRegistry =
  br_entries :: "MaintainersEntry list"
  br_remote_map :: "(string \<times> string) list"
  br_custom_remotes :: "CustomRemoteSettings list option"

subsection \<open>The MAINTAINERS file\<close>

record ParserState =
  mp_entries :: "MaintainersEntry list"
  mp_subsystem :: string
  mp_trees :: "(string \<times> string option) list"
  mp_patterns :: "string list"

definition parser_start :: ParserState where
  "parser_start = \<lparr>mp_entries = [], mp_subsystem = [], mp_trees = [], mp_patterns = []\<rparr>"

text \<open>The entry collected so far is kept if it has a name and a tree or a pattern.\<close>

definition flush_entry :: "ParserState \<Rightarrow> MaintainersEntry list" where
  "flush_entry st =
     (if mp_subsystem st \<noteq> [] \<and> (mp_trees st \<noteq> [] \<or> mp_patterns st \<noteq> [])
      then mp_entries st @ [\<lparr>mt_subsystem = mp_subsystem st, mt_trees = mp_trees st,
             mt_patterns = mp_patterns st\<rparr>]
      else mp_entries st)"

definition parse_tree :: "string \<Rightarrow> (string \<times> string option) option" where
  "parse_tree val =
     (case strip_prefix ''git '' val of
        None \<Rightarrow> None
      | Some rest \<Rightarrow>
          (case split_whitespace rest of
             [] \<Rightarrow> None
           | [url] \<Rightarrow> Some (url, None)
           | url # br # _ \<Rightarrow> Some (url, Some br)))"

definition parse_line :: "ParserState \<Rightarrow> string \<Rightarrow> ParserState" where
  "parse_line st line =
     (if trim line = []
      then st\<lparr>mp_entries := flush_entry st, mp_subsystem := [], mp_trees := [], mp_patterns := []\<rparr>
      else if CHR '':'' \<notin> set line \<and> mp_subsystem st = []
      then st\<lparr>mp_subsystem := trim line\<rparr>
      else case split_once CHR '':'' line of
        None \<Rightarrow> st
      | Some (tag, value) \<Rightarrow>
          (let val = trim value in
           if tag = ''T''
           then (case parse_tree val of
                   Some t \<Rightarrow> st\<lparr>mp_trees := mp_trees st @ [t]\<rparr> | None \<Rightarrow> st)
           else if tag = ''F'' then st\<lparr>mp_patterns := mp_patterns st @ [val]\<rparr>
           else st))"

definition parse_maintainers :: "string \<Rightarrow> MaintainersEntry list" where
  "parse_maintainers content = flush_entry (foldl parse_line parser_start (lines content))"

subsection \<open>Remotes\<close>

text \<open>The output of \<open>git remote -v\<close>; a URL is known with and without its \<open>.git\<close>.\<close>

definition remote_entry :: "string \<Rightarrow> (string \<times> string) list" where
  "remote_entry line =
     (case split_whitespace line of
        name # url # _ \<Rightarrow>
          (case strip_suffix ''.git'' url of
             Some stripped \<Rightarrow> [(stripped, name), (url, name)]
           | None \<Rightarrow> [(url, name)])
      | _ \<Rightarrow> [])"

definition load_git_remotes :: "string \<Rightarrow> (string \<times> string) list" where
  "load_git_remotes stdout = concat (List.map remote_entry (rev (lines stdout)))"

text \<open>\<open>new\<close>: \<open>remotes\<close> is what \<open>git remote -v\<close> printed if it ran, \<open>show\<close> is \<open>git show\<close> of a
  file at a revision, \<open>local\<close> is the file in the work tree, if there is one.\<close>

definition new_registry ::
  "((string \<times> string) list \<Rightarrow> (string \<times> string) list) \<Rightarrow> string option \<Rightarrow>
   (string \<Rightarrow> string option) \<Rightarrow> string option \<Rightarrow> CustomRemoteSettings list option \<Rightarrow> BaselineRegistry" where
  "new_registry iter remotes show_file local_file custom =
     (let remote_map = (case remotes of Some out \<Rightarrow> load_git_remotes out | None \<Rightarrow> []);
          linus_remote = (case List.find (\<lambda>(url, _). contains url ''torvalds/linux.git'') (iter remote_map) of
                            Some (_, name) \<Rightarrow> name | None \<Rightarrow> ''origin'');
          ref_name = linus_remote @ ''/master''
      in \<lparr>br_entries = (case show_file (ref_name @ '':MAINTAINERS'') of
                          Some content \<Rightarrow> parse_maintainers content
                        | None \<Rightarrow>
                            (case local_file of Some content \<Rightarrow> parse_maintainers content | None \<Rightarrow> [])),
          br_remote_map = remote_map, br_custom_remotes = custom\<rparr>)"

definition suggest_remote_name :: "string \<Rightarrow> string" where
  "suggest_remote_name url =
     (let path = trim_end_matches (\<lambda>c. c = CHR ''/'') url;
          parts = split_char CHR ''/'' path;
          name = last parts;
          name' = (case strip_suffix ''.git'' name of Some n \<Rightarrow> n | None \<Rightarrow> name)
      in if name' = ''linux'' \<and> 2 \<le> length parts then parts ! (length parts - 2) else name')"

definition resolve_url :: "BaselineRegistry \<Rightarrow> string \<Rightarrow> string option \<Rightarrow> BaselineResolution" where
  "resolve_url reg url br =
     (case map_of (br_remote_map reg) url of
        Some remote_name \<Rightarrow> RemoteTarget url remote_name br
      | None \<Rightarrow> RemoteTarget url (suggest_remote_name url) br)"

subsection \<open>The subsystem heuristic\<close>

definition pattern_matches :: "string \<Rightarrow> string \<Rightarrow> bool" where
  "pattern_matches file pat \<longleftrightarrow>
     (if pat \<noteq> [] \<and> last pat = CHR ''/'' then starts_with file pat else pat = file)"

definition entry_matches :: "string \<Rightarrow> MaintainersEntry \<Rightarrow> bool" where
  "entry_matches file e \<longleftrightarrow> (\<exists>p\<in>set (mt_patterns e). pattern_matches file p)"

text \<open>The entries that match, once for every file and entry that match, in the order of the
  loops.\<close>

definition matched_entries :: "BaselineRegistry \<Rightarrow> string list \<Rightarrow> MaintainersEntry list" where
  "matched_entries reg files =
     concat (List.map (\<lambda>f. filter (entry_matches f) (br_entries reg)) files)"

definition tree_counts ::
  "BaselineRegistry \<Rightarrow> string list \<Rightarrow> ((string \<times> string option) \<times> nat) list" where
  "tree_counts reg files =
     (let ts = concat (List.map mt_trees (matched_entries reg files))
      in List.map (\<lambda>t. (t, count_list ts t)) (remdups ts))"

text \<open>\<open>sort_by\<close> with the larger count first, then the smaller URL.\<close>

definition by_count ::
  "((string \<times> string option) \<times> nat) list \<Rightarrow> ((string \<times> string option) \<times> nat) list" where
  "by_count cs = sort_desc (\<lambda>(_, n). int n) (sort_key (\<lambda>((url, _), _). url) cs)"

definition is_mm :: "string \<Rightarrow> string option \<Rightarrow> bool" where
  "is_mm top_url matched_subsystem_name \<longleftrightarrow>
     contains top_url ''akpm/mm'' \<or> contains top_url ''linux-mm'' \<or>
     (case matched_subsystem_name of Some s \<Rightarrow> lower s = ''memory management'' | None \<Rightarrow> False)"

definition base_prefixes :: "engine \<Rightarrow> string \<Rightarrow> string list" where
  "base_prefixes rx subject =
     concat (List.map (\<lambda>prefix.
       (let prefix_lower = lower prefix in
        prefix_lower #
        (if CHR ''-'' \<in> set prefix_lower
         then filter (\<lambda>part. part \<noteq> ''next'' \<and> part \<noteq> ''net'') (split_char CHR ''-'' prefix_lower)
         else []))) (get_subject_prefixes rx subject))"

definition prefix_score :: "string list \<Rightarrow> string \<Rightarrow> string \<Rightarrow> int" where
  "prefix_score prefixes url_lower branch_lower =
     50 * int (length (filter (\<lambda>p. ends_with url_lower (''/'' @ p @ ''.git'') \<or> branch_lower = p) prefixes)) +
     (if \<exists>p\<in>set prefixes. contains url_lower p \<or> contains branch_lower p then 100 else 0)"

definition next_score :: "bool \<Rightarrow> string \<Rightarrow> string \<Rightarrow> int" where
  "next_score is_next url_lower branch_lower =
     (if contains url_lower ''mptcp''
      then (if is_next
            then (if branch_lower = ''export'' then 50 else 0) + (if branch_lower = ''export-net'' then -50 else 0)
            else (if branch_lower = ''export-net'' then 50 else 0) + (if branch_lower = ''export'' then -50 else 0))
      else let tree_is_next = contains url_lower ''next'' \<or> contains branch_lower ''next''
           in if is_next = tree_is_next then 50 else -50)"

definition fallback_keywords :: "string list" where
  "fallback_keywords = [''net'', ''bpf'', ''drm'', ''mm'', ''sched'', ''x86'', ''arm'', ''arm64'', ''scsi'', ''usb'', ''perf'']"

definition keyword_score :: "string \<Rightarrow> string option \<Rightarrow> string \<Rightarrow> string \<Rightarrow> int" where
  "keyword_score subject_lower subsystem url_lower branch_lower =
     10 * int (length (filter (\<lambda>kw.
       (contains subject_lower kw \<or> (case subsystem of Some s \<Rightarrow> contains (lower s) kw | None \<Rightarrow> False)) \<and>
       (contains url_lower kw \<or> contains branch_lower kw)) fallback_keywords))"

definition tree_score ::
  "engine \<Rightarrow> string \<Rightarrow> string option \<Rightarrow> (string \<times> string option) \<times> nat \<Rightarrow> int" where
  "tree_score rx subject subsystem c =
     (case c of ((url, br), n) \<Rightarrow>
       (let url_lower = lower url; branch_lower = (case br of Some b \<Rightarrow> lower b | None \<Rightarrow> []);
            subject_lower = lower subject
        in int n * 10 + prefix_score (base_prefixes rx subject) url_lower branch_lower +
           next_score (contains subject_lower ''next'') url_lower branch_lower +
           keyword_score subject_lower subsystem url_lower branch_lower))"

text \<open>The first occurrence of every element.\<close>

definition keep_first :: "'a list \<Rightarrow> 'a list" where
  "keep_first xs = rev (remdups (rev xs))"

definition resolve_subsystem_heuristic ::
  "(((string \<times> string option) \<times> nat) list \<Rightarrow> ((string \<times> string option) \<times> nat) list) \<Rightarrow> engine \<Rightarrow>
   BaselineRegistry \<Rightarrow> string list \<Rightarrow> string \<Rightarrow> BaselineResolution list" where
  "resolve_subsystem_heuristic iter rx reg files subject =
     (let subsystem = map_option mt_subsystem (first (matched_entries reg files))
      in case by_count (iter (tree_counts reg files)) of
           [] \<Rightarrow> []
         | ((top_url, top_branch), top_count) # cs \<Rightarrow>
             (if is_mm top_url subsystem
              then [resolve_url reg top_url (Some ''mm-new''),
                    resolve_url reg top_url (Some ''mm-unstable''),
                    resolve_url reg top_url (Some ''mm-stable'')]
              else keep_first (List.map (\<lambda>((url, br), _). resolve_url reg url br)
                (sort_desc (tree_score rx subject subsystem) (((top_url, top_branch), top_count) # cs)))))"

subsection \<open>What the texts say\<close>

definition extract_files_from_diff :: "string \<Rightarrow> string list" where
  "extract_files_from_diff diff =
     List.map_filter (\<lambda>line. Option.bind (strip_prefix ''diff --git a/'' line)
       (\<lambda>path. map_option fst (split_once CHR '' '' path))) (lines diff)"

text \<open>\<open>(?m)^base-commit: ([0-9a-f]{40})\<close>\<close>

definition re_base_commit :: re where
  "re_base_commit =
     seqs [LineStart, word_lit ''base-commit: '', Group 1 (times 40 (Cl (OneOf ''0123456789abcdef'')))]"

definition extract_base_commit :: "engine \<Rightarrow> string \<Rightarrow> string option" where
  "extract_base_commit rx body =
     Option.bind (captures rx re_base_commit body) (\<lambda>cs. group_text body cs 1)"

text \<open>\<open>(?i)\bv?(\d+\.\d+(?:\.\d+)?(?:-rc\d+)?(?:\.y)?)\b\<close>\<close>

definition re_version_tag :: re where
  "re_version_tag =
     seqs [WordBoundary, optional (Cl (CiLit CHR ''v'')),
       Group 1 (seqs [digits1, Cl (Lit CHR ''.''), digits1,
         optional (Seq (Cl (Lit CHR ''.'')) digits1),
         optional (Seq (word_ci ''-rc'') digits1),
         optional (Seq (Cl (Lit CHR ''.'')) (Cl (CiLit CHR ''y'')))]),
       WordBoundary]"

definition extract_version_tag :: "engine \<Rightarrow> string \<Rightarrow> string option" where
  "extract_version_tag rx subject =
     map_option lower (Option.bind (captures rx re_version_tag subject) (\<lambda>cs. group_text subject cs 1))"

subsection \<open>Candidates\<close>

definition stable_url :: string where
  "stable_url = ''https://git.kernel.org/pub/scm/linux/kernel/git/stable/linux.git''"

definition linux_next_url :: string where
  "linux_next_url = ''https://git.kernel.org/pub/scm/linux/kernel/git/next/linux-next.git''"

definition version_candidates :: "string option \<Rightarrow> BaselineResolution list" where
  "version_candidates v =
     (case v of
        None \<Rightarrow> []
      | Some version \<Rightarrow>
          (case strip_suffix ''.y'' version of
             Some base_version \<Rightarrow>
               [RemoteTarget stable_url ''stable'' (Some (''linux-'' @ version)),
                LocalRef (CHR ''v'' # base_version)]
           | None \<Rightarrow> [LocalRef (CHR ''v'' # version)]))"

text \<open>\<open>branches\<close> lists the branches of a remote, if git can.\<close>

definition custom_candidates ::
  "(string \<Rightarrow> string list option) \<Rightarrow> CustomRemoteSettings \<Rightarrow> BaselineResolution list" where
  "custom_candidates branches r =
     (let target = (\<lambda>b. RemoteTarget (cr_url r) (cr_name r) (Some b))
      in (if cr_check_all_branches r
          then (case branches (cr_name r) of Some bs \<Rightarrow> List.map target bs | None \<Rightarrow> []) else []) @
         (case cr_only_branches r of Some bs \<Rightarrow> List.map target bs | None \<Rightarrow> []))"

definition resolve_candidates ::
  "(((string \<times> string option) \<times> nat) list \<Rightarrow> ((string \<times> string option) \<times> nat) list) \<Rightarrow> engine \<Rightarrow>
   (string \<Rightarrow> string list option) \<Rightarrow> BaselineRegistry \<Rightarrow> string list \<Rightarrow> string \<Rightarrow> string option \<Rightarrow>
   BaselineResolution list" where
  "resolve_candidates iter rx branches reg files subject body =
     keep_first
       ((case Option.bind body (extract_base_commit rx) of Some c \<Rightarrow> [Commit c] | None \<Rightarrow> []) @
        version_candidates (extract_version_tag rx subject) @
        resolve_subsystem_heuristic iter rx reg files subject @
        [resolve_url reg linux_next_url None, LocalRef ''HEAD''] @
        (case br_custom_remotes reg of
           Some rs \<Rightarrow> concat (List.map (custom_candidates branches) rs) | None \<Rightarrow> []))"

subsection \<open>Candidates: lemmas\<close>

lemma set_keep_first [simp]: "set (keep_first xs) = set xs"
  by (simp add: keep_first_def)

lemma distinct_keep_first [simp]: "distinct (keep_first xs)"
  by (simp add: keep_first_def)

lemma remdups_snoc: "remdups (ys @ [x]) = filter (\<lambda>y. y \<noteq> x) (remdups ys) @ [x]"
  by (induction ys) auto

lemma keep_first_Cons: "keep_first (x # xs) = x # filter (\<lambda>y. y \<noteq> x) (keep_first xs)"
  by (simp add: keep_first_def remdups_snoc rev_filter)

lemma matched_entriesD:
  "e \<in> set (matched_entries reg files) \<Longrightarrow>
   e \<in> set (br_entries reg) \<and> (\<exists>f\<in>set files. entry_matches f e)"
  by (auto simp: matched_entries_def)

lemma tree_countsD:
  "(t, n) \<in> set (tree_counts reg files) \<Longrightarrow> \<exists>e\<in>set (matched_entries reg files). t \<in> set (mt_trees e)"
  by (auto simp: tree_counts_def Let_def)

fun candidate_url :: "BaselineResolution \<Rightarrow> string option" where
  "candidate_url (RemoteTarget url _ _) = Some url"
| "candidate_url _ = None"

lemma candidate_url_resolve [simp]: "candidate_url (resolve_url reg url b) = Some url"
  by (simp add: resolve_url_def split: option.splits)

lemma heuristic_url:
  assumes "set (iter (tree_counts reg files)) = set (tree_counts reg files)"
    and "c \<in> set (resolve_subsystem_heuristic iter rx reg files subject)"
  shows "\<exists>e\<in>set (matched_entries reg files). \<exists>url b. (url, b) \<in> set (mt_trees e) \<and> candidate_url c = Some url"
proof -
  let ?cs = "by_count (iter (tree_counts reg files))"
  obtain url b n where m: "((url, b), n) \<in> set ?cs" "candidate_url c = Some url"
  proof (cases ?cs)
    case Nil
    with assms(2) show ?thesis by (simp add: resolve_subsystem_heuristic_def)
  next
    case (Cons x xs)
    obtain top_url top_branch top_count where "x = ((top_url, top_branch), top_count)"
      by (metis prod.exhaust)
    with Cons assms(2) that show ?thesis
      by (fastforce simp: resolve_subsystem_heuristic_def Let_def split: if_splits prod.splits)
  qed
  have "((url, b), n) \<in> set (tree_counts reg files)"
    using m(1) assms(1) by (simp add: by_count_def)
  from tree_countsD [OF this] m(2) show ?thesis by blast
qed

text \<open>The candidates for the base of a series: nobody is listed twice; a base commit that the
  message names comes first; linux-next and \<open>HEAD\<close> are always among them, so there is always
  something to try; and a tree that the subsystem heuristic proposes belongs to an entry of the
  \<open>MAINTAINERS\<close> file one of whose patterns covers a file the series touches.\<close>

theorem resolve_candidates_spec:
  assumes "set (iter (tree_counts reg files)) = set (tree_counts reg files)"
  shows "distinct (resolve_candidates iter rx branches reg files subject body) \<and>
    {LocalRef ''HEAD'', resolve_url reg linux_next_url None} \<subseteq>
      set (resolve_candidates iter rx branches reg files subject body) \<and>
    (\<forall>b c. body = Some b \<and> extract_base_commit rx b = Some c \<longrightarrow>
      hd (resolve_candidates iter rx branches reg files subject body) = Commit c) \<and>
    set (resolve_subsystem_heuristic iter rx reg files subject) \<subseteq>
      set (resolve_candidates iter rx branches reg files subject body) \<and>
    (\<forall>c\<in>set (resolve_subsystem_heuristic iter rx reg files subject).
      \<exists>e\<in>set (br_entries reg). \<exists>f\<in>set files. entry_matches f e \<and>
        (\<exists>url b. (url, b) \<in> set (mt_trees e) \<and> candidate_url c = Some url))"
proof (intro conjI allI impI ballI)
  show "distinct (resolve_candidates iter rx branches reg files subject body)"
    by (simp add: resolve_candidates_def)
  show "{LocalRef ''HEAD'', resolve_url reg linux_next_url None} \<subseteq>
      set (resolve_candidates iter rx branches reg files subject body)"
    by (simp add: resolve_candidates_def)
  show "hd (resolve_candidates iter rx branches reg files subject body) = Commit c"
    if "body = Some b \<and> extract_base_commit rx b = Some c" for b c
    using that by (simp add: resolve_candidates_def keep_first_Cons)
  show "set (resolve_subsystem_heuristic iter rx reg files subject) \<subseteq>
      set (resolve_candidates iter rx branches reg files subject body)"
    by (auto simp: resolve_candidates_def)
  show "\<exists>e\<in>set (br_entries reg). \<exists>f\<in>set files. entry_matches f e \<and>
      (\<exists>url b. (url, b) \<in> set (mt_trees e) \<and> candidate_url c = Some url)"
    if "c \<in> set (resolve_subsystem_heuristic iter rx reg files subject)" for c
    using heuristic_url [OF assms that] matched_entriesD by meson
qed

definition sample_registry :: BaselineRegistry where
  "sample_registry =
     \<lparr>br_entries = [\<lparr>mt_subsystem = ''NETWORKING'', mt_trees = [(''git://net-next.git'', None)],
                     mt_patterns = [''net/'']\<rparr>],
      br_remote_map = [(''git://net-next.git'', ''net-next'')], br_custom_remotes = None\<rparr>"

theorem resolve_candidates_spec_witness:
  "\<exists>e\<in>set (br_entries sample_registry). entry_matches ''net/core.c'' e"
proof -
  let ?h = "resolve_subsystem_heuristic (\<lambda>x. x) (\<lambda>_ _ _. None) sample_registry [''net/core.c''] ''Subject''"
  have "?h = [RemoteTarget ''git://net-next.git'' ''net-next'' None]" by code_simp
  then have "RemoteTarget ''git://net-next.git'' ''net-next'' None \<in> set ?h" by simp
  then show ?thesis
    using resolve_candidates_spec [of "\<lambda>x. x" sample_registry "[''net/core.c'']" "\<lambda>_ _ _. None"
        "\<lambda>_. None" "''Subject''" None] by auto
qed

subsection \<open>Reading back a MAINTAINERS file\<close>

definition word :: "string \<Rightarrow> bool" where
  "word w \<longleftrightarrow> w \<noteq> [] \<and> (\<forall>x\<in>set w. \<not> is_space x)"

definition one_line :: "string \<Rightarrow> bool" where
  "one_line s \<longleftrightarrow> trim s = s \<and> newline \<notin> set s"

text \<open>The lines of a block below its name: a git tree with or without a branch, a pattern of files, or any other
  line: the people, the lists, the status, a tree of another kind, or a line without a tag.\<close>

datatype block_line =
    TreeLine string "string option"
  | PatternLine string
  | OtherLine string

fun line_text :: "block_line \<Rightarrow> string" where
  "line_text (TreeLine url br) = ''T:'' @ [tabchar] @ ''git '' @ url @ (case br of Some b \<Rightarrow> '' '' @ b | None \<Rightarrow> [])"
| "line_text (PatternLine p) = ''F:'' @ [tabchar] @ p"
| "line_text (OtherLine l) = l"

fun line_ok :: "block_line \<Rightarrow> bool" where
  "line_ok (TreeLine url br) = (word url \<and> (case br of Some b \<Rightarrow> word b | None \<Rightarrow> True))"
| "line_ok (PatternLine p) = one_line p"
| "line_ok (OtherLine l) =
     (trim l \<noteq> [] \<and> newline \<notin> set l \<and> last l \<noteq> creturn \<and> \<not> starts_with l ''F:'' \<and>
      (starts_with l ''T:'' \<longrightarrow> \<not> starts_with (trim (drop 2 l)) ''git ''))"

type_synonym maintainers_block = "string \<times> block_line list"

definition block_ok :: "maintainers_block \<Rightarrow> bool" where
  "block_ok b \<longleftrightarrow> fst b \<noteq> [] \<and> one_line (fst b) \<and> CHR '':'' \<notin> set (fst b) \<and> list_all line_ok (snd b)"

definition block_trees :: "block_line list \<Rightarrow> (string \<times> string option) list" where
  "block_trees ls = List.map_filter (\<lambda>l. case l of TreeLine url br \<Rightarrow> Some (url, br) | _ \<Rightarrow> None) ls"

definition block_patterns :: "block_line list \<Rightarrow> string list" where
  "block_patterns ls = List.map_filter (\<lambda>l. case l of PatternLine p \<Rightarrow> Some p | _ \<Rightarrow> None) ls"

text \<open>What a block says, if it says anything of trees and files.\<close>

definition block_entries :: "maintainers_block \<Rightarrow> MaintainersEntry list" where
  "block_entries b =
     (if block_trees (snd b) = [] \<and> block_patterns (snd b) = [] then []
      else [\<lparr>mt_subsystem = fst b, mt_trees = block_trees (snd b), mt_patterns = block_patterns (snd b)\<rparr>])"

definition block_text :: "maintainers_block \<Rightarrow> string list" where
  "block_text b = fst b # List.map line_text (snd b)"

text \<open>Blocks, each with the number of blank lines behind it: at least one between two blocks.\<close>

fun file_lines :: "(maintainers_block \<times> nat) list \<Rightarrow> string list" where
  "file_lines [] = []"
| "file_lines ((b, k) # bs) = block_text b @ replicate (if bs = [] then k else Suc k) [] @ file_lines bs"

definition render_maintainers :: "nat \<Rightarrow> (maintainers_block \<times> nat) list \<Rightarrow> string" where
  "render_maintainers k bs = unlines (replicate k [] @ file_lines bs)"

lemma is_space_consts [simp]:
  "is_space tabchar" "is_space CHR '' ''" "is_space newline" "is_space creturn"
  "\<not> is_space CHR ''T''" "\<not> is_space CHR ''F''" "\<not> is_space CHR ''g''" "\<not> is_space CHR '':''"
  by code_simp+

lemma trim_nonblank: "x \<in> set s \<Longrightarrow> \<not> is_space x \<Longrightarrow> trim s \<noteq> []"
proof
  assume x: "x \<in> set s" "\<not> is_space x" and "trim s = []"
  then have "\<forall>c\<in>set (dropWhile is_space s). is_space c"
    by (simp add: trim_def trim_start_def trim_end_def)
  moreover have "x \<in> set (dropWhile is_space s)"
    using x by (induction s) auto
  ultimately show False using x(2) by blast
qed

lemma trim_tab [simp]: "trim (tabchar # s) = trim s"
  by (simp add: trim_def trim_start_def)

lemma one_line_last: "one_line s \<Longrightarrow> s \<noteq> [] \<Longrightarrow> last s \<noteq> creturn"
  using trim_ends [of s] by (metis is_space_consts(4) one_line_def)

lemma word_no_newline: "word w \<Longrightarrow> newline \<notin> set w \<and> last w \<noteq> creturn \<and> w \<noteq> []"
  unfolding word_def by (metis is_space_consts(3,4) last_in_set)

lemma split_once_tag [simp]: "c \<noteq> x \<Longrightarrow> split_once c (x # c # s) = Some ([x], s)"
  by (simp add: split_once_def)

lemma tree_val_fixed: "line_ok (TreeLine url br) \<Longrightarrow>
    trim (''git '' @ url @ (case br of Some b \<Rightarrow> '' '' @ b | None \<Rightarrow> [])) =
      ''git '' @ url @ (case br of Some b \<Rightarrow> '' '' @ b | None \<Rightarrow> [])"
  by (rule trim_fixed) (auto simp: word_def split: option.splits)

lemma parse_tree_line:
  assumes "line_ok (TreeLine url br)"
  shows "parse_tree (''git '' @ url @ (case br of Some b \<Rightarrow> '' '' @ b | None \<Rightarrow> [])) = Some (url, br)"
proof (cases br)
  case None
  with assms show ?thesis
    by (simp add: parse_tree_def strip_prefix_def starts_with_def word_def split_whitespace_one)
next
  case (Some c)
  have "split_whitespace (url @ '' '' @ c) = [url, c]"
    using assms Some split_whitespace_cons [of "CHR '' ''" url c]
    by (simp add: word_def split_whitespace_one)
  with Some show ?thesis
    by (simp add: parse_tree_def strip_prefix_def starts_with_def)
qed

lemma parse_line_tree:
  assumes "line_ok (TreeLine url br)" "mp_subsystem st \<noteq> []"
  shows "parse_line st (line_text (TreeLine url br)) = st\<lparr>mp_trees := mp_trees st @ [(url, br)]\<rparr>"
proof -
  let ?v = "''git '' @ url @ (case br of Some b \<Rightarrow> '' '' @ b | None \<Rightarrow> [])"
  have l: "line_text (TreeLine url br) = CHR ''T'' # CHR '':'' # tabchar # ?v" by simp
  have "trim (line_text (TreeLine url br)) \<noteq> []"
    unfolding l by (rule trim_nonblank [of "CHR ''T''"]) simp_all
  moreover have "split_once CHR '':'' (line_text (TreeLine url br)) = Some (''T'', tabchar # ?v)" unfolding l by simp
  moreover have "trim (tabchar # ?v) = ?v" using tree_val_fixed [OF assms(1)] by (simp only: trim_tab)
  ultimately show ?thesis
    using assms(2) parse_tree_line [OF assms(1)]
    unfolding parse_line_def Let_def by (simp only: simp_thms if_False option.case prod.case if_True)
qed

lemma parse_line_pattern:
  assumes "line_ok (PatternLine p)" "mp_subsystem st \<noteq> []"
  shows "parse_line st (line_text (PatternLine p)) = st\<lparr>mp_patterns := mp_patterns st @ [p]\<rparr>"
proof -
  have l: "line_text (PatternLine p) = CHR ''F'' # CHR '':'' # tabchar # p" by simp
  have "trim (line_text (PatternLine p)) \<noteq> []"
    unfolding l by (rule trim_nonblank [of "CHR ''F''"]) simp_all
  then show ?thesis using assms by (simp add: parse_line_def l one_line_def)
qed

lemma split_once_starts:
  assumes "split_once c l = Some ([x], v)"
  shows "l = x # c # v"
proof -
  from assms obtain i where i: "find_char c l = Some i" "take i l = [x]" "drop (Suc i) l = v"
    by (auto simp: split_once_def)
  from find_char_Some [OF i(1)] have "i < length l" "l ! i = c" by simp_all
  with i(2,3) id_take_nth_drop [of i l] show ?thesis by simp
qed

lemma parse_line_other:
  assumes "line_ok (OtherLine l)" "mp_subsystem st \<noteq> []"
  shows "parse_line st l = st"
proof (cases "split_once CHR '':'' l")
  case None
  with assms show ?thesis by (simp add: parse_line_def)
next
  case (Some q)
  obtain tag v where q: "q = (tag, v)" by (cases q)
  have "tag \<noteq> ''F''"
    using assms(1) Some q split_once_starts by (fastforce simp: starts_with_def)
  moreover have "parse_tree (trim v) = None" if "tag = ''T''"
  proof -
    have "l = ''T:'' @ v" using that Some q split_once_starts by fastforce
    with assms(1) show ?thesis by (simp add: parse_tree_def strip_prefix_def starts_with_def)
  qed
  ultimately show ?thesis
    using assms Some q by (cases "tag = ''T''") (simp_all add: parse_line_def)
qed

lemma parse_block_lines:
  "list_all line_ok ls \<Longrightarrow> mp_subsystem st \<noteq> [] \<Longrightarrow>
   foldl parse_line st (List.map line_text ls) =
     st\<lparr>mp_trees := mp_trees st @ block_trees ls, mp_patterns := mp_patterns st @ block_patterns ls\<rparr>"
proof (induction ls arbitrary: st)
  case (Cons l ls)
  then show ?case
    by (cases l)
       (simp_all add: parse_line_tree parse_line_pattern parse_line_other block_trees_def block_patterns_def
          map_filter_simps del: line_text.simps(1,2) line_ok.simps)
qed (simp add: block_trees_def block_patterns_def map_filter_simps)

abbreviation between_blocks :: "MaintainersEntry list \<Rightarrow> ParserState" where
  "between_blocks es \<equiv> \<lparr>mp_entries = es, mp_subsystem = [], mp_trees = [], mp_patterns = []\<rparr>"

lemma parse_blank: "parse_line st [] = between_blocks (flush_entry st)"
  by (simp add: parse_line_def trim_def trim_start_def trim_end_def)

lemma parse_blanks: "foldl parse_line (between_blocks es) (replicate k []) = between_blocks es"
  by (induction k) (simp_all add: parse_blank flush_entry_def)

lemma parse_block:
  assumes "block_ok b"
  shows "flush_entry (foldl parse_line (between_blocks es) (block_text b)) = es @ block_entries b"
proof -
  have "parse_line (between_blocks es) (fst b) = (between_blocks es)\<lparr>mp_subsystem := fst b\<rparr>"
    using assms by (simp add: parse_line_def block_ok_def one_line_def)
  then show ?thesis
    using assms by (simp add: block_text_def parse_block_lines block_ok_def flush_entry_def block_entries_def)
qed

lemma parse_file:
  "\<forall>b\<in>set bs. block_ok (fst b) \<Longrightarrow>
   flush_entry (foldl parse_line (between_blocks es) (file_lines bs)) =
     es @ concat (List.map (\<lambda>b. block_entries (fst b)) bs)"
proof (induction bs arbitrary: es)
  case Nil
  show ?case by (simp add: flush_entry_def)
next
  case (Cons q bs)
  obtain b k where q: "q = (b, k)" by (cases q)
  let ?st = "foldl parse_line (between_blocks es) (block_text b)"
  have b: "flush_entry ?st = es @ block_entries b"
    using Cons.prems q by (simp add: parse_block)
  have blanks: "foldl parse_line ?st (replicate (Suc j) []) = between_blocks (es @ block_entries b)" for j
    using b by (simp add: parse_blank parse_blanks)
  show ?case
  proof (cases "bs = []")
    case True
    have "flush_entry (foldl parse_line ?st (replicate k [])) = es @ block_entries b"
    proof (cases k)
      case (Suc j)
      then show ?thesis using blanks [of j] by (simp only: flush_entry_def) simp
    qed (simp add: b)
    with True q show ?thesis by simp
  next
    case False
    with Cons q blanks [of k] show ?thesis by (simp del: replicate.simps)
  qed
qed

lemma line_text_ok:
  assumes "line_ok l"
  shows "newline \<notin> set (line_text l) \<and> last (line_text l) \<noteq> creturn"
proof (cases l)
  case (TreeLine url br)
  with assms show ?thesis
    using word_no_newline by (auto split: option.splits)
next
  case (PatternLine p)
  with assms show ?thesis
    using one_line_last [of p] by (cases "p = []") (auto simp: one_line_def)
qed (use assms in auto)

lemma file_lines_ok:
  "\<forall>b\<in>set bs. block_ok (fst b) \<Longrightarrow> l \<in> set (file_lines bs) \<Longrightarrow> newline \<notin> set l \<and> (l = [] \<or> last l \<noteq> creturn)"
proof (induction bs)
  case (Cons q bs)
  obtain b k where q: "q = (b, k)" by (cases q)
  with Cons.prems have "l = [] \<or> l \<in> set (block_text b) \<or> l \<in> set (file_lines bs)" by auto
  moreover have "newline \<notin> set l \<and> last l \<noteq> creturn" if "l \<in> set (block_text b)"
    using that Cons.prems(1) q line_text_ok one_line_last [of "fst b"]
    by (auto simp: block_text_def block_ok_def list_all_iff one_line_def)
  ultimately show ?case using Cons by auto
qed simp

text \<open>C39. The parser of the \<open>MAINTAINERS\<close> file reads back what the file says. The file has one block per
  subsystem, with blank lines before, between and behind them, none behind the last one at need. A block is a name without
  a colon and then lines in any order: git trees with or without a branch, patterns without white space at their ends, and any other lines, like the people,
  the lists, the status and trees of another kind. The parser returns, in the order of the file, an
  entry for each block with a git tree or a pattern, with its name, its trees and its patterns in their order;
  the other lines change nothing.\<close>

theorem maintainers_roundtrip:
  assumes "\<forall>b\<in>set bs. block_ok (fst b)"
  shows "parse_maintainers (render_maintainers k bs) = concat (List.map (\<lambda>b. block_entries (fst b)) bs)"
proof -
  have "lines (render_maintainers k bs) = replicate k [] @ file_lines bs"
    unfolding render_maintainers_def using file_lines_ok [OF assms] by (intro lines_unlines) auto
  with parse_file [OF assms, of "[]"] show ?thesis
    by (simp add: parse_maintainers_def parser_start_def parse_blanks)
qed

theorem maintainers_roundtrip_witness:
  "parse_maintainers (render_maintainers 1
     [((''MM'', [OtherLine (''M:'' @ [tabchar] @ ''A B <a@b>''), OtherLine ''S: Maintained'', PatternLine ''mm/'',
                 OtherLine ''T: quilt q'', TreeLine ''git://a/mm.git'' (Some ''mm-new'')]), 0),
      ((''OLD'', [OtherLine ''S: Obsolete'']), 2),
      ((''X'', [PatternLine ''a b'']), 0)]) =
   [\<lparr>mt_subsystem = ''MM'', mt_trees = [(''git://a/mm.git'', Some ''mm-new'')], mt_patterns = [''mm/'']\<rparr>,
    \<lparr>mt_subsystem = ''X'', mt_trees = [], mt_patterns = [''a b'']\<rparr>]"
  by (subst maintainers_roundtrip) code_simp+

end
