(* ===== verification/Review_Loop.thy ===== *)
theory Review_Loop
  imports Notify Ai Baseline Patchset_Status
begin

text \<open>
  The review of one patch: \<open>process_patch_review\<close> of \<open>src/reviewer.rs\<close>, with its retries. The
  review tool is a subprocess behind an argument; so are the clock, the schedule and the fresh ids of
  interactions. One record holds what the environment answers during one turn of the retry loop.
\<close>

subsection \<open>Surroundings\<close>

text \<open>The settings and the context the loop reads. \<open>to_text\<close> and \<open>pretty\<close> print JSON.\<close>

record ReviewContext =
  cx_provider :: string
  cx_model :: string
  cx_max_retries :: nat
  cx_ignore_files :: "string list"
  cx_no_ai :: bool
  cx_target_review_count :: nat
  cx_smtp :: "SmtpSettings option"
  cx_to_text :: "json \<Rightarrow> string"
  cx_pretty :: "json \<Rightarrow> string"

record PatchJob =
  jb_patchset :: int
  jb_patch :: int
  jb_index :: nat
  jb_baseline :: "int option"
  jb_payload :: json
  jb_prompts :: "string option"
  jb_diff :: string
  jb_embargo :: "int option"

text \<open>\<open>at_open\<close> and \<open>at_still_open\<close> answer \<open>should_process_reviews_now\<close>; \<open>at_tool\<close> is
  \<open>run_review_tool\<close> for a review id, which also writes to the store (\<open>None\<close>: it never
  returns); \<open>at_id\<close> is the id
  \<open>generate_id\<close> gives; \<open>at_policy\<close> is what reading the mail policy gives; \<open>at_now\<close> is the
  time.\<close>

record Attempt =
  at_open :: bool
  at_still_open :: bool
  at_tool :: "int \<Rightarrow> db \<Rightarrow> ((string + json) \<times> db) option"
  at_id :: string
  at_policy :: "string + EmailPolicyConfig"
  at_now :: int

datatype PatchResult = Success | ReviewFailed | PausedBySchedule

datatype Outcome = Done PatchResult | Retry

definition paused_text :: string where
  "paused_text = ''Review paused: outside scheduled review window''"

subsection \<open>Reading the output of the tool\<close>

definition find_index :: "nat \<Rightarrow> json list \<Rightarrow> json option" where
  "find_index index ps = List.find (\<lambda>p. jindex p ''index'' = JInt (int index)) ps"

definition target_applied :: "json \<Rightarrow> nat \<Rightarrow> bool" where
  "target_applied output index =
     (case Option.bind (as_array_opt (jindex output ''patches'')) (find_index index) of
        Some p \<Rightarrow> jindex p ''status'' = JStr ''applied''
      | None \<Rightarrow> False)"

definition logs_of :: "ReviewContext \<Rightarrow> json \<Rightarrow> string option" where
  "logs_of cx output =
     map_option (\<lambda>h. cx_pretty cx (scrub_thought_signatures h)) (jget output ''history'')"

text \<open>The tool calls of the assistant's turns.\<close>

definition history_calls :: "json \<Rightarrow> json list" where
  "history_calls output =
     (case Option.bind (jget output ''history'') as_array_opt of
        None \<Rightarrow> []
      | Some h \<Rightarrow> concat (List.map (\<lambda>item.
          if Option.bind (jget item ''role'') as_str_opt = Some ''assistant''
          then (case get_array item ''tool_calls'' of Some calls \<Rightarrow> calls | None \<Rightarrow> [])
          else []) h))"

definition usage_of_call :: "ReviewContext \<Rightarrow> int \<Rightarrow> json \<Rightarrow> ToolUsage" where
  "usage_of_call cx rid call =
     \<lparr>tool_review = rid, tool_provider = cx_provider cx, tool_model = cx_model cx,
      tool_name = (case as_str_opt (jindex call ''function_name'') of Some n \<Rightarrow> n | None \<Rightarrow> ''unknown''),
      tool_arguments = Some (cx_to_text cx (jindex call ''arguments'')), tool_output_length = 0\<rparr>"

definition record_calls :: "ReviewContext \<Rightarrow> int \<Rightarrow> json \<Rightarrow> int \<Rightarrow> db \<Rightarrow> db" where
  "record_calls cx rid output now d =
     fold (\<lambda>call. create_tool_usage (usage_of_call cx rid call) now) (history_calls output) d"

text \<open>\<open>as u32\<close> keeps the low 32 bits.\<close>

definition as_u32 :: "nat \<Rightarrow> nat" where
  "as_u32 n = n mod 2 ^ 32"

definition token_field :: "json \<Rightarrow> string \<Rightarrow> nat" where
  "token_field output k = (case as_usize (jindex output k) of Some n \<Rightarrow> as_u32 n | None \<Rightarrow> 0)"

definition record_interaction ::
  "ReviewContext \<Rightarrow> string \<Rightarrow> json \<Rightarrow> int \<Rightarrow> db \<Rightarrow> string option \<times> db" where
  "record_interaction cx i output now d =
     (case as_usize (jindex output ''tokens_in'') of
        None \<Rightarrow> (None, d)
      | Some tokens_in \<Rightarrow>
          (let output_raw = (case jget output ''review'' of
                 Some r \<Rightarrow> cx_to_text cx r
               | None \<Rightarrow> (case jget output ''error'' of Some e \<Rightarrow> cx_to_text cx e | None \<Rightarrow> []));
               params = \<lparr>ai_id = i, ai_parent = None, ai_workflow = None, ai_provider = cx_provider cx,
                 ai_model = cx_model cx,
                 ai_input = (case as_str_opt (jindex output ''input_context'') of Some s \<Rightarrow> s | None \<Rightarrow> []),
                 ai_output = output_raw, ai_tokens_in = as_u32 tokens_in,
                 ai_tokens_out = token_field output ''tokens_out'',
                 ai_tokens_cached = token_field output ''tokens_cached'', ai_created = now\<rparr>
           in (Some i, snd (create_ai_interaction params now d))))"

text \<open>A finding of the review; a JSON value that is not of the expected type counts as
  missing.\<close>

definition finding_of_review :: "ReviewContext \<Rightarrow> int \<Rightarrow> json \<Rightarrow> Finding" where
  "finding_of_review cx rid f =
     \<lparr>review_id = rid,
      severity = severity_from_str
        (case as_str_opt (jindex f ''severity'') of Some s \<Rightarrow> s | None \<Rightarrow> ''Low''),
      severity_explanation = as_str_opt (jindex f ''severity_explanation''),
      problem = (case as_str_opt (jindex f ''problem'') of Some s \<Rightarrow> s | None \<Rightarrow> []),
      preexisting = as_bool_opt (jindex f ''preexisting''),
      locations = map_option (cx_to_text cx) (jget f ''locations''),
      server_id = None, source_server = None\<rparr>"

definition record_findings :: "ReviewContext \<Rightarrow> int \<Rightarrow> json \<Rightarrow> db \<Rightarrow> db" where
  "record_findings cx rid review d =
     (case get_array review ''findings'' of
        None \<Rightarrow> d
      | Some fs \<Rightarrow> fold (\<lambda>f e. snd (create_finding (finding_of_review cx rid f) e)) fs d)"

subsection \<open>Ending an attempt\<close>

definition fail_review ::
  "int \<Rightarrow> string \<Rightarrow> string option \<Rightarrow> string option \<Rightarrow> int \<Rightarrow> db \<Rightarrow> db" where
  "fail_review rid reason interaction logs now d =
     complete_review rid (as_str Failed) reason None interaction None logs now d"

definition embargoed_at :: "int \<Rightarrow> int option \<Rightarrow> bool" where
  "embargoed_at now embargo = (case embargo of Some u \<Rightarrow> now < u | None \<Rightarrow> False)"

definition payload_message_id :: "json \<Rightarrow> nat \<Rightarrow> string" where
  "payload_message_id payload index =
     (case Option.bind (Option.bind (as_array_opt (jindex payload ''patches'')) (find_index index))
             (\<lambda>p. as_str_opt (jindex p ''message_id'')) of
        Some m \<Rightarrow> m | None \<Rightarrow> [])"

definition review_notice :: "PatchJob \<Rightarrow> json \<Rightarrow> string \<Rightarrow> Notice" where
  "review_notice job review inline =
     (let pm = payload_message_id (jb_payload job) (jb_index job)
      in \<lparr>no_patch_id = jb_patch job, no_patch_message_id = pm,
          no_patchset_message_id = (case as_str_opt (jindex (jb_payload job) ''message_id'') of
              Some m \<Rightarrow> m | None \<Rightarrow> pm),
          no_index = jb_index job, no_inline = inline,
          no_findings = as_array_opt (jindex review ''findings'')\<rparr>)"

text \<open>A review with content: findings, completion, notification unless it is under embargo. The code sets the status
  of the patch only when the row of the review was updated and the notification queued (\<open>db_success\<close>); the
  statements of both name columns that exist and do not fail here, only the insert of a finding can, whose error the
  code drops.\<close>

definition finish_review ::
  "ReviewContext \<Rightarrow> PatchJob \<Rightarrow> Attempt \<Rightarrow> int \<Rightarrow> json \<Rightarrow> json \<Rightarrow> string option \<Rightarrow> string option \<Rightarrow>
   db \<Rightarrow> db" where
  "finish_review cx job at rid output review interaction logs d =
     (let summary = (case as_str_opt (jindex review ''summary'') of Some s \<Rightarrow> s | None \<Rightarrow> []);
          inline = as_str_opt (jindex output ''inline_review'');
          d1 = record_findings cx rid review d;
          d2 = complete_review rid (as_str Reviewed) ''Review completed successfully.'' (Some summary)
                 interaction inline logs (at_now at) d1;
          d3 = (case inline of
                  None \<Rightarrow> d2
                | Some text \<Rightarrow>
                    if embargoed_at (at_now at) (jb_embargo job) then d2
                    else snd (queue_notifications (cx_to_text cx) (at_policy at) (cx_smtp cx)
                                (review_notice job review text) (at_now at) d2))
      in update_patch_status (jb_patch job) ''Reviewed'' d3)"

definition output_error :: "json \<Rightarrow> string \<Rightarrow> string" where
  "output_error output fallback =
     (case as_str_opt (jindex output ''error'') of Some e \<Rightarrow> e | None \<Rightarrow> fallback)"

text \<open>The tool returned an output.\<close>

definition handle_output ::
  "ReviewContext \<Rightarrow> PatchJob \<Rightarrow> Attempt \<Rightarrow> int \<Rightarrow> json \<Rightarrow> db \<Rightarrow> Outcome \<times> db" where
  "handle_output cx job at rid output d =
     (let now = at_now at; logs = logs_of cx output;
          d1 = record_calls cx rid output now d;
          (interaction, d2) = record_interaction cx (at_id at) output now d1;
          give_up = (\<lambda>reason. fail_review rid reason interaction logs now d2)
      in if target_applied output (jb_index job)
         then case as_str_opt (jindex output ''error'') of
                Some err \<Rightarrow> (Retry, give_up err)
              | None \<Rightarrow>
                  (case jget output ''review'' of
                     None \<Rightarrow> (Done ReviewFailed, update_patch_status (jb_patch job) ''Failed''
                                (give_up (output_error output ''Missing review content'')))
                   | Some review \<Rightarrow>
                       if review \<noteq> JNull
                       then (Done Success, finish_review cx job at rid output review interaction logs d2)
                       else if cx_no_ai cx
                       then (Done Success, update_patch_status (jb_patch job) ''Skipped''
                               (complete_review rid (as_str Skipped) ''Skipped AI review via --no-ai''
                                  None interaction None logs now d2))
                       else (Retry, give_up ''AI returned null response''))
         else (Retry, give_up (output_error output ''Tool failed to return patch status'')))"

text \<open>The review a turn works on: a pending one left over from before, in the first turn, or a new
  one.\<close>

definition take_review ::
  "ReviewContext \<Rightarrow> PatchJob \<Rightarrow> int option \<Rightarrow> int \<Rightarrow> db \<Rightarrow> int \<times> db" where
  "take_review cx job existing now d =
     (case existing of
        Some i \<Rightarrow> (i, d)
      | None \<Rightarrow> create_review (jb_patchset job) (Some (jb_patch job)) (cx_provider cx) (cx_model cx)
                  (jb_baseline job) (jb_prompts job) now d)"

definition attempt ::
  "ReviewContext \<Rightarrow> PatchJob \<Rightarrow> Attempt \<Rightarrow> int option \<Rightarrow> db \<Rightarrow> (Outcome \<times> db) option" where
  "attempt cx job at existing d =
     (if \<not> at_open at then Some (Done PausedBySchedule, d)
      else let (rid, d1) = take_review cx job existing (at_now at) d;
               d2 = update_review_status rid (as_str InReview) None (at_now at) d1
           in if \<not> at_still_open at
              then Some (Done PausedBySchedule,
                    update_review_status rid (as_str Pending) (Some paused_text) (at_now at) d2)
              else case at_tool at rid d2 of
                     None \<Rightarrow> None
                   | Some (Inr output, d3) \<Rightarrow> Some (handle_output cx job at rid output d3)
                   | Some (Inl e, d3) \<Rightarrow>
                       if contains e paused_text
                       then Some (Done PausedBySchedule,
                             update_review_status rid (as_str Pending) (Some paused_text) (at_now at) d3)
                       else Some (Retry, fail_review rid (''Tool error: '' @ e) None None (at_now at) d3))"

subsection \<open>The loop\<close>

text \<open>\<open>left\<close> is \<open>max_retries - retries\<close>; a turn that would retry with none left gives up.\<close>

fun review_turns ::
  "ReviewContext \<Rightarrow> PatchJob \<Rightarrow> nat \<Rightarrow> (nat \<Rightarrow> Attempt) \<Rightarrow> int option \<Rightarrow> db \<Rightarrow>
   (PatchResult \<times> db) option" where
  "review_turns cx job left env existing d =
     (case attempt cx job (env 0) existing d of
        None \<Rightarrow> None
      | Some (Done r, d') \<Rightarrow> Some (r, d')
      | Some (Retry, d') \<Rightarrow>
          (case left of
             0 \<Rightarrow> Some (ReviewFailed, update_patch_status (jb_patch job) ''Failed'' d')
           | Suc left' \<Rightarrow> review_turns cx job left' (\<lambda>k. env (Suc k)) None d'))"

declare review_turns.simps [simp del]

definition only_ignored_files :: "ReviewContext \<Rightarrow> string \<Rightarrow> bool" where
  "only_ignored_files cx diff \<longleftrightarrow>
     (let files = extract_files_from_diff diff
      in files \<noteq> [] \<and> (\<forall>f\<in>set files. \<exists>i\<in>set (cx_ignore_files cx). starts_with f i))"

definition process_patch_review ::
  "ReviewContext \<Rightarrow> PatchJob \<Rightarrow> (nat \<Rightarrow> Attempt) \<Rightarrow> db \<Rightarrow> (PatchResult \<times> db) option" where
  "process_patch_review cx job env d =
     (if cx_target_review_count cx \<le> count_successful_reviews (jb_patchset job) (jb_patch job) d
      then Some (Success, d)
      else if has_failed_review (jb_patchset job) (jb_patch job) d
      then Some (ReviewFailed, update_patch_status (jb_patch job) ''Failed'' d)
      else if only_ignored_files cx (jb_diff job)
      then let (rid, d1) = take_review cx job
                 (get_pending_review_id (jb_patchset job) (Some (jb_patch job)) d) (at_now (env 0)) d
           in Some (Success, complete_review rid (as_str Skipped) ''Skipped: touches only ignored files''
                 None None None None (at_now (env 0)) d1)
      else review_turns cx job (cx_max_retries cx) env
             (get_pending_review_id (jb_patchset job) (Some (jb_patch job)) d) d)"

subsection \<open>What the tool may change\<close>

text \<open>The contract between the loop and the tool: the tool keeps the mail queue, the findings, the
  messages and the patchsets, and of the reviews it only touches the one it works on, of which it
  keeps the id, the patchset and the patch.\<close>

definition review_frame :: "int \<Rightarrow> db \<Rightarrow> db \<Rightarrow> bool" where
  "review_frame rid d d' \<longleftrightarrow>
     outbox d' = outbox d \<and> findings d' = findings d \<and> finding_columns d' = finding_columns d \<and>
     messages d' = messages d \<and> patchsets d' = patchsets d \<and>
     (\<exists>f. reviews d' = update_where (\<lambda>r. rv_id r = rid) f (reviews d) \<and>
        (\<forall>r. rv_id (f r) = rv_id r \<and> rv_patchset (f r) = rv_patchset r \<and> rv_patch (f r) = rv_patch r))"

lemma review_frame_refl [simp]: "review_frame rid d d"
  unfolding review_frame_def by (intro conjI refl exI [of _ "\<lambda>r. r"]) (auto simp: update_where_def)

lemma update_where_twice:
  assumes "\<And>r. P (f r) = P r"
  shows "update_where P g (update_where P f rows) = update_where P (\<lambda>r. g (f r)) rows"
  using assms by (auto simp: update_where_def)

lemma review_frame_trans:
  assumes "review_frame rid d d1" "review_frame rid d1 d2"
  shows "review_frame rid d d2"
proof -
  obtain f g where f: "reviews d1 = update_where (\<lambda>r. rv_id r = rid) f (reviews d)"
      "\<forall>r. rv_id (f r) = rv_id r \<and> rv_patchset (f r) = rv_patchset r \<and> rv_patch (f r) = rv_patch r"
    and g: "reviews d2 = update_where (\<lambda>r. rv_id r = rid) g (reviews d1)"
      "\<forall>r. rv_id (g r) = rv_id r \<and> rv_patchset (g r) = rv_patchset r \<and> rv_patch (g r) = rv_patch r"
    using assms unfolding review_frame_def by blast
  have "reviews d2 = update_where (\<lambda>r. rv_id r = rid) (\<lambda>r. g (f r)) (reviews d)"
    unfolding g(1) f(1) using f(2) by (intro update_where_twice) simp
  with assms f(2) g(2) show ?thesis unfolding review_frame_def by (metis (no_types, lifting))
qed

lemma review_frame_other:
  "review_frame rid d d' \<Longrightarrow> filter (\<lambda>r. rv_id r \<noteq> rid) (reviews d') = filter (\<lambda>r. rv_id r \<noteq> rid) (reviews d)"
proof -
  have k: "(\<And>r. rv_id (f r) = rv_id r) \<Longrightarrow>
      filter (\<lambda>r. rv_id r \<noteq> rid) (update_where (\<lambda>r. rv_id r = rid) f rows) =
      filter (\<lambda>r. rv_id r \<noteq> rid) rows" for f rows
    by (induction rows) (auto simp: update_where_def)
  show "review_frame rid d d' \<Longrightarrow> ?thesis" unfolding review_frame_def using k by metis
qed

lemma review_frame_ids: "review_frame rid d d' \<Longrightarrow> List.map rv_id (reviews d') = List.map rv_id (reviews d)"
  unfolding review_frame_def by (auto simp: map_update_where)

lemma modify_review_frame:
  assumes "\<And>r. rv_id (f r) = rv_id r \<and> rv_patchset (f r) = rv_patchset r \<and> rv_patch (f r) = rv_patch r"
  shows "review_frame rid d (modify_review rid f d)"
  using assms unfolding review_frame_def modify_review_def by auto

lemma update_review_status_frame: "review_frame rid d (update_review_status rid st logs now d)"
  unfolding update_review_status_def by (cases logs) (auto intro!: modify_review_frame)

lemma complete_review_frame: "review_frame rid d (complete_review rid st res sm i inl logs now d)"
  unfolding complete_review_def by (rule modify_review_frame) simp

lemma other_tables_frame:
  assumes "outbox d' = outbox d" "findings d' = findings d" "finding_columns d' = finding_columns d"
    "messages d' = messages d" "patchsets d' = patchsets d" "reviews d' = reviews d"
  shows "review_frame rid d d'"
  using assms unfolding review_frame_def by (auto intro!: exI [of _ "\<lambda>r. r"] simp: update_where_def)

lemma create_tool_usage_frame: "review_frame rid d (create_tool_usage u now d)"
  by (rule other_tables_frame) (simp_all add: create_tool_usage_def)

lemma update_patch_status_frame: "review_frame rid d (update_patch_status p st d)"
  by (rule other_tables_frame) (simp_all add: update_patch_status_def)

lemma update_application_frame: "review_frame rid d (update_patch_application_status p i st e d)"
  by (rule other_tables_frame) (simp_all add: update_patch_application_status_def)

lemma fold_frame:
  "(\<And>x d. x \<in> set xs \<Longrightarrow> review_frame rid d (f x d)) \<Longrightarrow> review_frame rid d (fold f xs d)"
  by (induction xs arbitrary: d) (auto intro: review_frame_trans)

lemma record_interaction_frame: "record_interaction cx i out now d = (x, d') \<Longrightarrow> review_frame rid d d'"
  by (rule other_tables_frame)
     (auto simp: record_interaction_def create_ai_interaction_def Let_def split: option.splits if_splits)

lemma record_calls_frame: "review_frame rid d (record_calls cx r out now d)"
  unfolding record_calls_def by (rule fold_frame) (rule create_tool_usage_frame)

text \<open>The status of a review after a step.\<close>

definition status_of :: "db \<Rightarrow> int \<Rightarrow> string set" where
  "status_of d rid = rv_status ` {r \<in> set (reviews d). rv_id r = rid}"

lemma status_modify: "(\<And>r. rv_status (f r) = st) \<Longrightarrow> status_of (modify_review rid f d) rid \<subseteq> {st}"
  by (auto simp: status_of_def modify_review_def update_where_def split: if_splits)

lemma status_complete: "status_of (complete_review rid st res sm i inl logs now d) rid \<subseteq> {st}"
  unfolding complete_review_def by (rule status_modify) simp

lemma status_update: "status_of (update_review_status rid st logs now d) rid \<subseteq> {st}"
  unfolding update_review_status_def
  by (cases logs) (simp_all only: option.case, (rule status_modify, simp)+)

lemma status_other_tables: "reviews d' = reviews d \<Longrightarrow> status_of d' rid = status_of d rid"
  by (simp add: status_of_def)

text \<open>The part of the contract about reviews alone, which the whole turn keeps.\<close>

definition reviews_frame :: "int \<Rightarrow> db \<Rightarrow> db \<Rightarrow> bool" where
  "reviews_frame rid d d' \<longleftrightarrow>
     filter (\<lambda>r. rv_id r \<noteq> rid) (reviews d') = filter (\<lambda>r. rv_id r \<noteq> rid) (reviews d) \<and>
     List.map rv_id (reviews d') = List.map rv_id (reviews d)"

lemma reviews_frame_trans: "reviews_frame rid d d1 \<Longrightarrow> reviews_frame rid d1 d2 \<Longrightarrow> reviews_frame rid d d2"
  by (simp add: reviews_frame_def)

lemma reviews_frameI: "review_frame rid d d' \<Longrightarrow> reviews_frame rid d d'"
  unfolding reviews_frame_def using review_frame_other review_frame_ids by blast

lemma reviews_frame_same: "reviews d' = reviews d \<Longrightarrow> reviews_frame rid d d'"
  by (simp add: reviews_frame_def)

lemma queue_notifications_reviews [simp]:
  "reviews (snd (queue_notifications to_text loaded smtp n now d)) = reviews d"
  by (auto simp: queue_notifications_def Let_def queue_without_findings_def queue_with_findings_def
      insert_email_outbox_def split: option.splits Action.splits)

lemma create_finding_reviews [simp]: "reviews (snd (create_finding f d)) = reviews d"
  by (simp add: create_finding_def split: option.splits)

lemma record_findings_reviews [simp]: "reviews (record_findings cx rid v d) = reviews d"
proof -
  have "reviews (fold (\<lambda>f e. snd (create_finding (finding_of_review cx rid f) e)) fs d) = reviews d" for fs
    by (induction fs arbitrary: d) simp_all
  then show ?thesis by (simp add: record_findings_def split: option.splits)
qed

lemma update_patch_status_reviews [simp]: "reviews (update_patch_status p st d) = reviews d"
  by (simp add: update_patch_status_def)

lemma status_update_patch [simp]: "status_of (update_patch_status p st d) rid = status_of d rid"
  by (rule status_other_tables) simp

lemma finish_review_rows:
  "reviews_frame rid d (finish_review cx job at rid out rv i logs d) \<and>
   status_of (finish_review cx job at rid out rv i logs d) rid \<subseteq> {''Reviewed''}"
proof -
  let ?d1 = "record_findings cx rid rv d"
  let ?inl = "as_str_opt (jindex out ''inline_review'')"
  let ?sm = "Some (case as_str_opt (jindex rv ''summary'') of Some s \<Rightarrow> s | None \<Rightarrow> [])"
  let ?d2 = "complete_review rid ''Reviewed'' ''Review completed successfully.'' ?sm i ?inl logs (at_now at) ?d1"
  let ?f = "finish_review cx job at rid out rv i logs d"
  have e: "reviews ?f = reviews ?d2"
    unfolding finish_review_def Let_def by (simp split: option.splits)
  have "reviews_frame rid d ?d1" by (rule reviews_frame_same) simp
  moreover have "reviews_frame rid ?d1 ?d2" by (rule reviews_frameI [OF complete_review_frame])
  moreover have "reviews_frame rid ?d2 ?f" by (rule reviews_frame_same [OF e])
  ultimately have "reviews_frame rid d ?f" by (blast intro: reviews_frame_trans)
  moreover have "status_of ?f rid \<subseteq> {''Reviewed''}"
    unfolding status_other_tables [OF e] by (rule status_complete)
  ultimately show ?thesis by blast
qed

fun closing_status :: "Outcome \<Rightarrow> string set" where
  "closing_status (Done Success) = {''Reviewed'', ''Skipped''}"
| "closing_status (Done ReviewFailed) = {''Failed''}"
| "closing_status (Done PausedBySchedule) = {''Pending''}"
| "closing_status Retry = {''Failed''}"

lemma fail_review_rows:
  "reviews_frame rid d (fail_review rid reason i logs now d)"
  "status_of (fail_review rid reason i logs now d) rid \<subseteq> {''Failed''}"
  unfolding fail_review_def using complete_review_frame reviews_frameI status_complete by fastforce+

lemma handle_output_rows:
  assumes "handle_output cx job at rid out d = (oc, d')"
  shows "reviews_frame rid d d' \<and> status_of d' rid \<subseteq> closing_status oc"
proof -
  define d1 where "d1 = record_calls cx rid out (at_now at) d"
  obtain i d2 where i: "record_interaction cx (at_id at) out (at_now at) d1 = (i, d2)" by fastforce
  have f: "reviews_frame rid d d2"
    using record_calls_frame record_interaction_frame [OF i] unfolding d1_def
    by (blast intro: reviews_frameI reviews_frame_trans)
  define good where "good = (\<lambda>(oc, e). reviews_frame rid d2 e \<and> status_of e rid \<subseteq> closing_status oc)"
  have u: "good (oc, e) \<Longrightarrow> good (oc, update_patch_status p st e)" for p st oc e
    using reviews_frame_same [of "update_patch_status p st e" e]
    by (auto simp: good_def intro: reviews_frame_trans)
  have k: "good (Retry, fail_review rid reason i logs now d2)"
    "good (Done ReviewFailed, fail_review rid reason i logs now d2)" for reason logs now
    using fail_review_rows by (simp_all add: good_def)
  have p: "good (Done Success, finish_review cx job at rid out rv i logs d2)" for rv logs
    using finish_review_rows [of rid d2 cx job at out rv i logs] by (auto simp: good_def)
  have n: "good (Done Success, complete_review rid (as_str Skipped) t None i None logs now d2)" for t logs now
    using reviews_frameI [OF complete_review_frame] status_complete
    by (fastforce simp: good_def)
  have "good (handle_output cx job at rid out d)"
    unfolding handle_output_def Let_def d1_def [symmetric] i prod.case
    by (simp add: u k p n [simplified] split: option.split)
  then have "reviews_frame rid d2 d' \<and> status_of d' rid \<subseteq> closing_status oc"
    unfolding assms by (simp add: good_def)
  with f show ?thesis by (blast intro: reviews_frame_trans)
qed

lemma take_review_rows:
  assumes "take_review cx job existing now d = (rid, d1)"
  shows "length (reviews d1) \<le> Suc (length (reviews d)) \<and>
    (\<forall>r\<in>set (reviews d1). r \<in> set (reviews d) \<or> rv_id r = rid) \<and>
    outbox d1 = outbox d \<and> findings d1 = findings d \<and> finding_columns d1 = finding_columns d \<and>
    messages d1 = messages d \<and> patchsets d1 = patchsets d"
  using assms by (auto simp: take_review_def create_review_def Let_def split: option.splits)

lemma attempt_cases [consumes 1, case_names shut reopened answered paused broken]:
  assumes "attempt cx job at existing d = Some (oc, d')"
  obtains "oc = Done PausedBySchedule" "d' = d"
  | rid d1 where "take_review cx job existing (at_now at) d = (rid, d1)" "oc = Done PausedBySchedule"
      "d' = update_review_status rid (as_str Pending) (Some paused_text) (at_now at)
        (update_review_status rid (as_str InReview) None (at_now at) d1)"
  | rid d1 out d3 where "take_review cx job existing (at_now at) d = (rid, d1)"
      "at_tool at rid (update_review_status rid (as_str InReview) None (at_now at) d1) = Some (Inr out, d3)"
      "handle_output cx job at rid out d3 = (oc, d')"
  | rid d1 e d3 where "take_review cx job existing (at_now at) d = (rid, d1)"
      "at_tool at rid (update_review_status rid (as_str InReview) None (at_now at) d1) = Some (Inl e, d3)"
      "oc = Done PausedBySchedule"
      "d' = update_review_status rid (as_str Pending) (Some paused_text) (at_now at) d3"
  | rid d1 e d3 where "take_review cx job existing (at_now at) d = (rid, d1)"
      "at_tool at rid (update_review_status rid (as_str InReview) None (at_now at) d1) = Some (Inl e, d3)"
      "oc = Retry" "d' = fail_review rid (''Tool error: '' @ e) None None (at_now at) d3"
proof -
  obtain rid d1 where t: "take_review cx job existing (at_now at) d = (rid, d1)" by fastforce
  define d2 where "d2 = update_review_status rid (as_str InReview) None (at_now at) d1"
  have a: "attempt cx job at existing d = (if \<not> at_open at then Some (Done PausedBySchedule, d)
      else if \<not> at_still_open at
      then Some (Done PausedBySchedule, update_review_status rid (as_str Pending) (Some paused_text) (at_now at) d2)
      else case at_tool at rid d2 of None \<Rightarrow> None
        | Some (Inr out, d3) \<Rightarrow> Some (handle_output cx job at rid out d3)
        | Some (Inl e, d3) \<Rightarrow>
            if contains e paused_text
            then Some (Done PausedBySchedule, update_review_status rid (as_str Pending) (Some paused_text) (at_now at) d3)
            else Some (Retry, fail_review rid (''Tool error: '' @ e) None None (at_now at) d3))"
    unfolding attempt_def t Let_def prod.case d2_def ..
  show thesis
  proof (cases "at_open at \<longrightarrow> at_still_open at"; cases "at_open at")
    assume "\<not> at_open at" then show thesis using assms a that(1) by simp
  next
    assume "\<not> at_open at" then show thesis using assms a that(1) by simp
  next
    assume "at_open at" "\<not> (at_open at \<longrightarrow> at_still_open at)"
    with a assms have "oc = Done PausedBySchedule"
      "d' = update_review_status rid (as_str Pending) (Some paused_text) (at_now at) d2" by simp_all
    with that(2) t show thesis unfolding d2_def by blast
  next
    assume "at_open at \<longrightarrow> at_still_open at" "at_open at"
    then have True: "at_open at" "at_still_open at" by simp_all
    with a assms obtain res d3 where r: "at_tool at rid d2 = Some (res, d3)"
      by (cases "at_tool at rid d2") auto
    show thesis
    proof (cases res)
      case (Inr out)
      with True a assms r have "handle_output cx job at rid out d3 = (oc, d')" by simp
      with that(3) t r Inr show thesis unfolding d2_def by blast
    next
      case (Inl e)
      show thesis
      proof (cases "contains e paused_text")
        case c: True
        with True a assms r Inl have "oc = Done PausedBySchedule"
          "d' = update_review_status rid (as_str Pending) (Some paused_text) (at_now at) d3" by simp_all
        with that(4) t r Inl show thesis unfolding d2_def by blast
      next
        case c: False
        with True a assms r Inl have "oc = Retry"
          "d' = fail_review rid (''Tool error: '' @ e) None None (at_now at) d3" by simp_all
        with that(5) t r Inl show thesis unfolding d2_def by blast
      qed
    qed
  qed
qed

lemma attempt_returns:
  assumes "\<forall>rid e. at_tool at rid e \<noteq> None"
  shows "attempt cx job at existing d \<noteq> None"
proof -
  obtain rid d1 where t: "take_review cx job existing (at_now at) d = (rid, d1)" by fastforce
  obtain res d3 where "at_tool at rid (update_review_status rid (as_str InReview) None (at_now at) d1) = Some (res, d3)"
    using assms by fastforce
  with t show ?thesis by (cases res) (simp_all add: attempt_def Let_def)
qed

subsection \<open>The loop against the contract of the tool\<close>

locale review_tool =
  fixes tool :: "int \<Rightarrow> db \<Rightarrow> ((string + json) \<times> db) option"
  assumes frame: "tool rid d = Some (res, d') \<Longrightarrow> review_frame rid d d'"
begin

lemma attempt_rows:
  assumes "at_tool at = tool" "attempt cx job at existing d = Some (oc, d')"
  shows "length (reviews d') \<le> length (reviews d) + (case existing of None \<Rightarrow> 1 | Some _ \<Rightarrow> 0) \<and>
    (\<forall>r\<in>set (reviews d'). r \<in> set (reviews d) \<or> rv_status r \<in> closing_status oc)"
proof -
  have p: "reviews_frame rid e (update_review_status rid st l now e) \<and>
      status_of (update_review_status rid st l now e) rid \<subseteq> {st}" for rid st l now e
    using reviews_frameI [OF update_review_status_frame] status_update by blast
  have main: ?thesis if t: "take_review cx job existing (at_now at) d = (rid, d1)"
    and fr: "reviews_frame rid d1 d'" and st: "status_of d' rid \<subseteq> closing_status oc" for rid d1
  proof -
    note ids = take_review_rows [OF t]
    have "r \<in> set (reviews d)" if "r \<in> set (reviews d')" "rv_status r \<notin> closing_status oc" for r
    proof -
      have n: "rv_id r \<noteq> rid" using that st by (auto simp: status_of_def)
      with that(1) have "r \<in> set (filter (\<lambda>r. rv_id r \<noteq> rid) (reviews d'))" by simp
      then have "r \<in> set (filter (\<lambda>r. rv_id r \<noteq> rid) (reviews d1))" using fr by (simp only: reviews_frame_def)
      with ids n show ?thesis by auto
    qed
    moreover have "length (reviews d') = length (reviews d1)"
      using fr unfolding reviews_frame_def by (metis length_map)
    moreover have "length (reviews d1) \<le> length (reviews d) + (case existing of None \<Rightarrow> 1 | Some _ \<Rightarrow> 0)"
      using ids t by (auto simp: take_review_def split: option.splits)
    ultimately show ?thesis by auto
  qed
  from assms(2) show ?thesis
  proof (cases rule: attempt_cases)
    case (reopened rid d1)
    have "reviews_frame rid d1 d'" unfolding reopened(3) using p reviews_frame_trans by blast
    moreover have "status_of d' rid \<subseteq> closing_status oc"
      using p [THEN conjunct2] unfolding reopened by simp
    ultimately show ?thesis using main reopened(1) by blast
  next
    case (answered rid d1 out d3)
    have "reviews_frame rid d1 d3"
      using p reviews_frameI [OF frame [OF answered(2) [unfolded assms(1)]]] reviews_frame_trans by blast
    with handle_output_rows [OF answered(3)] main [OF answered(1)] reviews_frame_trans show ?thesis by blast
  next
    case (paused rid d1 e d3)
    have "reviews_frame rid d1 d3"
      using p reviews_frameI [OF frame [OF paused(2) [unfolded assms(1)]]] reviews_frame_trans by blast
    then have "reviews_frame rid d1 d'" unfolding paused(4) using p reviews_frame_trans by blast
    moreover have "status_of d' rid \<subseteq> closing_status oc"
      using p [THEN conjunct2] unfolding paused by simp
    ultimately show ?thesis using main paused(1) by blast
  next
    case (broken rid d1 e d3)
    have "reviews_frame rid d1 d3"
      using p reviews_frameI [OF frame [OF broken(2) [unfolded assms(1)]]] reviews_frame_trans by blast
    then have "reviews_frame rid d1 d'"
      unfolding broken(4) using fail_review_rows(1) reviews_frame_trans by blast
    moreover have "status_of d' rid \<subseteq> closing_status oc"
      unfolding broken closing_status.simps by (rule fail_review_rows(2))
    ultimately show ?thesis using main broken(1) by blast
  qed auto
qed

end

lemma turns_cases:
  assumes "review_turns cx job left env existing d = Some (res, d')"
  obtains (ended) "attempt cx job (env 0) existing d = Some (Done res, d')"
  | (gave_up) d1 where "attempt cx job (env 0) existing d = Some (Retry, d1)" "left = 0" "res = ReviewFailed"
      "d' = update_patch_status (jb_patch job) ''Failed'' d1"
  | (again) d1 left' where "attempt cx job (env 0) existing d = Some (Retry, d1)" "left = Suc left'"
      "review_turns cx job left' (\<lambda>k. env (Suc k)) None d1 = Some (res, d')"
proof -
  note e = assms [unfolded review_turns.simps [of cx job left]]
  then obtain oc d1 where a: "attempt cx job (env 0) existing d = Some (oc, d1)"
    by (cases "attempt cx job (env 0) existing d") auto
  show thesis
    using e a that by (cases oc; cases left) auto
qed

lemma turns_rows:
  assumes "\<forall>k. review_tool (at_tool (env k))" "review_turns cx job left env existing d = Some (res, d')"
  shows "length (reviews d') \<le> length (reviews d) + left + (case existing of None \<Rightarrow> 1 | Some _ \<Rightarrow> 0) \<and>
    (\<forall>r\<in>set (reviews d'). r \<in> set (reviews d) \<or>
       rv_status r \<in> closing_status (Done res) \<union> {''Failed''})"
  using assms
proof (induction left arbitrary: env existing d)
  case (0 env existing d)
  note rows = review_tool.attempt_rows [OF "0.prems"(1) [rule_format] refl]
  from "0.prems"(2) show ?case
  proof (cases rule: turns_cases)
    case ended
    with rows [OF ended] show ?thesis by auto
  next
    case (gave_up d1)
    with rows [OF gave_up(1)] show ?thesis by auto
  qed simp
next
  case (Suc left env existing d)
  note rows = review_tool.attempt_rows [OF "Suc.prems"(1) [rule_format] refl]
  from "Suc.prems"(2) show ?case
  proof (cases rule: turns_cases)
    case ended
    with rows [OF ended] show ?thesis by auto
  next
    case (again d1 left')
    with Suc.IH [of "\<lambda>k. env (Suc k)" None d1] "Suc.prems"(1)
    have "length (reviews d') \<le> length (reviews d1) + left + 1 \<and>
      (\<forall>r\<in>set (reviews d'). r \<in> set (reviews d1) \<or> rv_status r \<in> closing_status (Done res) \<union> {''Failed''})"
      by simp
    with rows [OF again(1)] show ?thesis by auto
  qed simp
qed

subsection \<open>Properties of the review of a patch\<close>

lemma process_cases:
  assumes "process_patch_review cx job env d = Some (res, d')"
  obtains (enough) "res = Success" "d' = d"
  | (failed_before) "res = ReviewFailed" "d' = update_patch_status (jb_patch job) ''Failed'' d"
  | (ignored) rid d1 where "res = Success"
      "take_review cx job (get_pending_review_id (jb_patchset job) (Some (jb_patch job)) d) (at_now (env 0)) d = (rid, d1)"
      "d' = complete_review rid (as_str Skipped) ''Skipped: touches only ignored files'' None None None None
        (at_now (env 0)) d1"
  | (turns) "review_turns cx job (cx_max_retries cx) env
      (get_pending_review_id (jb_patchset job) (Some (jb_patch job)) d) d = Some (res, d')"
proof -
  obtain rid d1 where t: "take_review cx job
      (get_pending_review_id (jb_patchset job) (Some (jb_patch job)) d) (at_now (env 0)) d = (rid, d1)" by fastforce
  note e = assms [unfolded process_patch_review_def t Let_def prod.case]
  show thesis
  proof (cases "cx_target_review_count cx \<le> count_successful_reviews (jb_patchset job) (jb_patch job) d")
    case True
    with e that(1) show thesis by simp
  next
    case a: False
    show thesis
    proof (cases "has_failed_review (jb_patchset job) (jb_patch job) d")
      case True
      with e a that(2) show thesis by simp
    next
      case b: False
      show thesis
      proof (cases "only_ignored_files cx (jb_diff job)")
        case True
        with e a b that(3) [OF _ t] show thesis by simp
      next
        case False
        with e a b that(4) show thesis by simp
      qed
    qed
  qed
qed

text \<open>At most one review more than the allowed retries is recorded, and every review that is new or
  was touched is closed, or pending again when the schedule closed.\<close>

lemma process_closes:
  assumes "\<forall>k. review_tool (at_tool (env k))" "process_patch_review cx job env d = Some (res, d')"
  shows "length (reviews d') \<le> length (reviews d) + cx_max_retries cx + 1 \<and>
    (\<forall>r\<in>set (reviews d'). r \<in> set (reviews d) \<or>
       rv_status r \<in> {''Reviewed'', ''Skipped'', ''Failed''} \<or>
       res = PausedBySchedule \<and> rv_status r = ''Pending'')"
  using assms(2)
proof (cases rule: process_cases)
  case (ignored rid d1)
  have f: "reviews_frame rid d1 d'" and st: "status_of d' rid \<subseteq> {''Skipped''}"
    unfolding ignored(3) using reviews_frameI [OF complete_review_frame] status_complete by fastforce+
  note ids = take_review_rows [OF ignored(2)]
  have "r \<in> set (reviews d)" if "r \<in> set (reviews d')" "rv_status r \<noteq> ''Skipped''" for r
  proof -
    have n: "rv_id r \<noteq> rid" using that st by (auto simp: status_of_def)
    with that(1) have "r \<in> set (filter (\<lambda>r. rv_id r \<noteq> rid) (reviews d'))" by simp
    then have "r \<in> set (filter (\<lambda>r. rv_id r \<noteq> rid) (reviews d1))" using f by (simp only: reviews_frame_def)
    with ids n show ?thesis by auto
  qed
  moreover have "length (reviews d') = length (reviews d1)"
    using f unfolding reviews_frame_def by (metis length_map)
  ultimately show ?thesis using ids by auto
next
  case turns
  from turns_rows [OF assms(1) turns]
  have l: "length (reviews d') \<le> length (reviews d) + cx_max_retries cx +
      (case get_pending_review_id (jb_patchset job) (Some (jb_patch job)) d of None \<Rightarrow> 1 | Some _ \<Rightarrow> 0)"
    and r: "\<forall>r\<in>set (reviews d'). r \<in> set (reviews d) \<or> rv_status r \<in> closing_status (Done res) \<union> {''Failed''}"
    by blast+
  have c: "closing_status (Done res) \<union> {''Failed''} \<subseteq> {''Reviewed'', ''Skipped'', ''Failed''} \<union>
      (if res = PausedBySchedule then {''Pending''} else {})"
    by (cases res) auto
  from l have "length (reviews d') \<le> length (reviews d) + cx_max_retries cx + 1"
    by (auto split: option.splits)
  with r c show ?thesis by (auto split: if_splits)
qed auto

lemma turns_return:
  "\<forall>k rid e. at_tool (env k) rid e \<noteq> None \<Longrightarrow> review_turns cx job left env existing d \<noteq> None"
proof (induction left arbitrary: env existing d)
  case (0 env existing d)
  then have "attempt cx job (env 0) existing d \<noteq> None"
    using attempt_returns by blast
  then show ?case by (auto simp: review_turns.simps [of cx job 0] split: option.splits Outcome.splits)
next
  case (Suc left env existing d)
  then have "attempt cx job (env 0) existing d \<noteq> None"
    using attempt_returns by blast
  moreover have "review_turns cx job left (\<lambda>k. env (Suc k)) None d1 \<noteq> None" for d1
    using Suc.IH [of "\<lambda>k. env (Suc k)" None d1] Suc.prems by simp
  ultimately show ?case
    by (auto simp: review_turns.simps [of cx job "Suc left"] split: option.splits Outcome.splits)
qed

text \<open>The review of a patch comes to an end whenever every run of the review process does: there
  is no endless retry.\<close>

theorem review_returns:
  assumes "\<forall>k rid e. at_tool (env k) rid e \<noteq> None"
  shows "\<exists>res d'. process_patch_review cx job env d = Some (res, d')"
  using turns_return [OF assms] by (auto simp: process_patch_review_def Let_def split: prod.splits)

lemma marked: "p \<in> set (patches (update_patch_status i st d)) \<Longrightarrow> pa_id p = i \<Longrightarrow> pa_status p = Some st"
proof -
  assume p: "p \<in> set (patches (update_patch_status i st d))" "pa_id p = i"
  from p(1) have "p \<in> (\<lambda>r. if pa_id r = i then r\<lparr>pa_status := Some st\<rparr> else r) ` set (patches d)"
    by (simp add: update_patch_status_def update_where_def)
  then obtain r where "p = (if pa_id r = i then r\<lparr>pa_status := Some st\<rparr> else r)" by (rule imageE)
  with p(2) show "pa_status p = Some st" by (cases "pa_id r = i") simp_all
qed

lemma attempt_failed_marks:
  assumes "attempt cx job at existing d = Some (Done ReviewFailed, d')"
  shows "\<exists>e. d' = update_patch_status (jb_patch job) ''Failed'' e"
  using assms
proof (cases rule: attempt_cases)
  case (answered rid d1 out d3)
  obtain i d2 where i: "record_interaction cx (at_id at) out (at_now at)
      (record_calls cx rid out (at_now at) d3) = (i, d2)" by fastforce
  from answered(3) have "d' = update_patch_status (jb_patch job) ''Failed''
      (fail_review rid (output_error out ''Missing review content'') i (logs_of cx out) (at_now at) d2)"
    unfolding handle_output_def Let_def i prod.case
    by (simp split: if_splits option.splits)
  then show ?thesis by blast
qed simp_all

lemma turns_failed_marks:
  "review_turns cx job left env existing d = Some (ReviewFailed, d') \<Longrightarrow>
   \<exists>e. d' = update_patch_status (jb_patch job) ''Failed'' e"
proof (induction left arbitrary: env existing d)
  case 0
  from 0 show ?case by (cases rule: turns_cases) (auto dest: attempt_failed_marks)
next
  case (Suc left)
  from Suc.prems show ?case by (cases rule: turns_cases) (auto dest: attempt_failed_marks Suc.IH)
qed

text \<open>A failed review is visible on the patch: whenever the result is a failure, the patch is
  marked failed.\<close>

theorem review_failure_marked:
  assumes "process_patch_review cx job env d = Some (ReviewFailed, d')" "p \<in> set (patches d')"
    "pa_id p = jb_patch job"
  shows "pa_status p = Some ''Failed''"
  using assms(1)
proof (cases rule: process_cases)
  case failed_before
  with assms marked show ?thesis by blast
next
  case turns
  with turns_failed_marks assms marked show ?thesis by metis
qed simp_all

subsection \<open>Findings and mail\<close>

text \<open>What a turn does to the other tables: nothing to the patchsets, nothing to the findings while
  the table lacks a column the insert names, nothing to the mail while the embargo lasts.\<close>

definition quiet :: "bool \<Rightarrow> db \<Rightarrow> db \<Rightarrow> bool" where
  "quiet embargoed d d' \<longleftrightarrow> finding_columns d' = finding_columns d \<and>
     (''server_id'' \<notin> set (finding_columns d) \<longrightarrow> findings d' = findings d) \<and>
     (embargoed \<longrightarrow> outbox d' = outbox d) \<and> patchsets d' = patchsets d"

lemma quiet_trans: "quiet b d d1 \<Longrightarrow> quiet b d1 d2 \<Longrightarrow> quiet b d d2"
  by (simp add: quiet_def)

lemma quiet_refl [simp]: "quiet b d d"
  by (simp add: quiet_def)

lemma quiet_frame: "review_frame rid d d' \<Longrightarrow> quiet b d d'"
  by (simp add: quiet_def review_frame_def)

lemma quiet_queue: "quiet False d (snd (queue_notifications to_text loaded smtp n now d))"
  by (auto simp: quiet_def queue_notifications_def Let_def queue_without_findings_def
      queue_with_findings_def insert_email_outbox_def split: option.splits Action.splits)

lemma create_finding_missing:
  assumes "''server_id'' \<notin> set (finding_columns d)"
  shows "snd (create_finding f d) = d"
proof -
  have "List.find (\<lambda>c. c \<notin> set (finding_columns d)) finding_insert_columns \<noteq> None"
    using assms by (auto simp: find_None_iff finding_insert_columns_def)
  then show ?thesis by (auto simp: create_finding_def)
qed

lemma quiet_finding: "quiet b d (snd (create_finding f d))"
proof (cases "''server_id'' \<in> set (finding_columns d)")
  case True
  then show ?thesis by (simp add: quiet_def create_finding_def split: option.splits)
next
  case False
  then show ?thesis by (simp add: create_finding_missing)
qed

lemma quiet_fold: "(\<And>x d. quiet b d (f x d)) \<Longrightarrow> quiet b d (fold f xs d)"
  by (induction xs arbitrary: d) (auto intro: quiet_trans)

lemma quiet_finish:
  "quiet (embargoed_at (at_now at) (jb_embargo job)) d (finish_review cx job at rid out rv i logs d)"
proof -
  let ?b = "embargoed_at (at_now at) (jb_embargo job)"
  have f: "quiet b d (record_findings cx rid rv d)" for b
    by (auto simp: record_findings_def intro!: quiet_fold quiet_finding split: option.splits)
  have c: "quiet b e (complete_review rid st res sm i inl logs now e)" for b e st res sm inl now
    by (rule quiet_frame [OF complete_review_frame])
  have u: "quiet b e (update_patch_status p st e)" for b e p st
    by (rule quiet_frame [OF update_patch_status_frame [where rid = rid]])
  have n: "quiet ?b e (if ?b then e else snd (queue_notifications to_text loaded smtp n now e))"
    for e to_text loaded smtp n now using quiet_queue by (cases ?b) simp_all
  define d2 where "d2 = complete_review rid (as_str Reviewed) ''Review completed successfully.''
    (Some (case as_str_opt (jindex rv ''summary'') of Some s \<Rightarrow> s | None \<Rightarrow> [])) i
    (as_str_opt (jindex out ''inline_review'')) logs (at_now at) (record_findings cx rid rv d)"
  have "quiet ?b d d2" unfolding d2_def by (rule quiet_trans [OF f c])
  moreover have "quiet ?b d2 (case as_str_opt (jindex out ''inline_review'') of None \<Rightarrow> d2
      | Some text \<Rightarrow> if ?b then d2 else snd (queue_notifications (cx_to_text cx) (at_policy at) (cx_smtp cx)
          (review_notice job rv text) (at_now at) d2))" (is "quiet _ _ ?d3")
    using n by (simp split: option.split)
  ultimately have "quiet ?b d ?d3" by (rule quiet_trans)
  from quiet_trans [OF this u] show ?thesis
    unfolding finish_review_def Let_def d2_def .
qed

lemma quiet_handle:
  assumes "handle_output cx job at rid out d = (oc, d')"
  shows "quiet (embargoed_at (at_now at) (jb_embargo job)) d d'"
proof -
  let ?b = "embargoed_at (at_now at) (jb_embargo job)"
  obtain i d2 where i: "record_interaction cx (at_id at) out (at_now at)
      (record_calls cx rid out (at_now at) d) = (i, d2)" by fastforce
  have d2: "quiet ?b d d2"
    using quiet_trans [OF quiet_frame [OF record_calls_frame] quiet_frame [OF record_interaction_frame [OF i]]] .
  define good where "good = (\<lambda>(oc :: Outcome, e). quiet ?b d2 e)"
  have u: "good (oc, e) \<Longrightarrow> good (oc, update_patch_status p st e)" for oc e p st
    using quiet_frame [OF update_patch_status_frame [where rid = rid]]
    by (auto simp: good_def intro: quiet_trans)
  have c: "good (oc, complete_review rid st res sm j inl logs now d2)" for oc st res sm j inl logs now
    by (simp add: good_def quiet_frame [OF complete_review_frame])
  have q: "good (oc, fail_review rid reason j logs now d2)" for oc reason j logs now
    unfolding fail_review_def by (rule c)
  have f: "good (oc, finish_review cx job at rid out rv j logs d2)" for oc rv j logs
    by (simp add: good_def quiet_finish)
  have "good (handle_output cx job at rid out d)"
    unfolding handle_output_def Let_def i prod.case
    by (simp add: u q f c split: option.split)
  then have "quiet ?b d2 d'" unfolding assms by (simp add: good_def)
  with d2 show ?thesis by (rule quiet_trans)
qed

context review_tool begin

lemma attempt_quiet:
  assumes "at_tool at = tool" "attempt cx job at existing d = Some (oc, d')"
  shows "quiet (embargoed_at (at_now at) (jb_embargo job)) d d'"
proof -
  have t: "quiet b d d1" if "take_review cx job existing (at_now at) d = (rid, d1)" for b rid d1
    using take_review_rows [OF that] by (simp add: quiet_def)
  have s: "quiet b e (update_review_status rid st l now e)" for b e rid st l now
    by (rule quiet_frame [OF update_review_status_frame])
  have c: "quiet b e (fail_review rid reason j logs now e)" for b e rid reason j logs now
    unfolding fail_review_def by (rule quiet_frame [OF complete_review_frame])
  from assms(2) show ?thesis
  proof (cases rule: attempt_cases)
    case (reopened rid d1)
    show ?thesis unfolding reopened(3) by (rule quiet_trans [OF quiet_trans [OF t [OF reopened(1)] s] s])
  next
    case (answered rid d1 out d3)
    note tool = quiet_frame [OF frame [OF answered(2) [unfolded assms(1)]]]
    show ?thesis
      by (rule quiet_trans [OF quiet_trans [OF quiet_trans [OF t [OF answered(1)] s] tool]
            quiet_handle [OF answered(3)]])
  next
    case (paused rid d1 e d3)
    note tool = quiet_frame [OF frame [OF paused(2) [unfolded assms(1)]]]
    show ?thesis
      unfolding paused(4) by (rule quiet_trans [OF quiet_trans [OF quiet_trans [OF t [OF paused(1)] s] tool] s])
  next
    case (broken rid d1 e d3)
    note tool = quiet_frame [OF frame [OF broken(2) [unfolded assms(1)]]]
    show ?thesis
      unfolding broken(4) by (rule quiet_trans [OF quiet_trans [OF quiet_trans [OF t [OF broken(1)] s] tool] c])
  qed simp
qed

end

lemma turns_quiet:
  assumes "\<forall>k. review_tool (at_tool (env k))" "\<forall>k. b \<longrightarrow> embargoed_at (at_now (env k)) (jb_embargo job)"
    and "review_turns cx job left env existing d = Some (res, d')"
  shows "quiet b d d'"
  using assms
proof (induction left arbitrary: env existing d)
  case (0 env existing d)
  have q: "quiet b d d1" if "attempt cx job (env 0) existing d = Some (oc, d1)" for oc d1
    using review_tool.attempt_quiet [OF "0.prems"(1) [rule_format] refl that] "0.prems"(2)
    by (auto simp: quiet_def)
  from "0.prems"(3) show ?case
  proof (cases rule: turns_cases)
    case ended
    then show ?thesis by (rule q)
  next
    case (gave_up d1)
    show ?thesis
      unfolding gave_up(4)
      by (rule quiet_trans [OF q [OF gave_up(1)] quiet_frame [OF update_patch_status_frame [where rid = 0]]])
  qed simp
next
  case (Suc left env existing d)
  have q: "quiet b d d1" if "attempt cx job (env 0) existing d = Some (oc, d1)" for oc d1
    using review_tool.attempt_quiet [OF "Suc.prems"(1) [rule_format] refl that] "Suc.prems"(2)
    by (auto simp: quiet_def)
  from "Suc.prems"(3) show ?case
  proof (cases rule: turns_cases)
    case (again d1 left')
    with Suc.IH [of "\<lambda>k. env (Suc k)" None d1] Suc.prems(1,2) have "quiet b d1 d'" by simp
    with q [OF again(1)] show ?thesis by (rule quiet_trans)
  next
    case ended
    then show ?thesis by (rule q)
  qed simp
qed

lemma process_quiet:
  assumes "\<forall>k. review_tool (at_tool (env k))" "\<forall>k. b \<longrightarrow> embargoed_at (at_now (env k)) (jb_embargo job)"
    and "process_patch_review cx job env d = Some (res, d')"
  shows "quiet b d d'"
  using assms(3)
proof (cases rule: process_cases)
  case failed_before
  then show ?thesis using quiet_frame [OF update_patch_status_frame [where rid = 0]] by blast
next
  case (ignored rid d1)
  have "quiet b d d1" using take_review_rows [OF ignored(2)] by (simp add: quiet_def)
  with quiet_frame [OF complete_review_frame] show ?thesis
    unfolding ignored(3) by (blast intro: quiet_trans)
next
  case turns
  show ?thesis by (rule turns_quiet [OF assms(1,2) turns])
qed simp

subsection \<open>Errors of the tool\<close>

lemma attempt_broken:
  assumes "review_tool (at_tool at)" "at_open at" "at_still_open at"
    and "\<forall>rid e. \<exists>msg e'. at_tool at rid e = Some (Inl msg, e') \<and> \<not> contains msg paused_text"
  shows "\<exists>d'. attempt cx job at existing d = Some (Retry, d') \<and>
    length (reviews d') = length (reviews d) + (case existing of None \<Rightarrow> 1 | Some _ \<Rightarrow> 0)"
proof -
  obtain rid d1 where t: "take_review cx job existing (at_now at) d = (rid, d1)" by fastforce
  define d2 where "d2 = update_review_status rid (as_str InReview) None (at_now at) d1"
  obtain msg d3 where r: "at_tool at rid d2 = Some (Inl msg, d3)" "\<not> contains msg paused_text"
    using assms(4) by blast
  let ?d = "fail_review rid (''Tool error: '' @ msg) None None (at_now at) d3"
  have "attempt cx job at existing d = Some (Retry, ?d)"
    using assms(2,3) r by (simp add: attempt_def Let_def t d2_def)
  moreover have "reviews_frame rid d1 ?d"
    using reviews_frameI [OF update_review_status_frame] reviews_frameI [OF review_tool.frame [OF assms(1) r(1)]]
      fail_review_rows(1) unfolding d2_def by (blast intro: reviews_frame_trans)
  then have "length (reviews ?d) = length (reviews d1)"
    unfolding reviews_frame_def by (metis length_map)
  moreover have "length (reviews d1) = length (reviews d) + (case existing of None \<Rightarrow> 1 | Some _ \<Rightarrow> 0)"
    using t by (auto simp: take_review_def create_review_def Let_def split: option.splits)
  ultimately show ?thesis by auto
qed

lemma turns_broken:
  assumes "\<forall>k. review_tool (at_tool (env k)) \<and> at_open (env k) \<and> at_still_open (env k)"
    and "\<forall>k rid e. \<exists>msg e'. at_tool (env k) rid e = Some (Inl msg, e') \<and> \<not> contains msg paused_text"
  shows "\<exists>d'. review_turns cx job left env existing d = Some (ReviewFailed, d') \<and>
    length (reviews d') = length (reviews d) + left + (case existing of None \<Rightarrow> 1 | Some _ \<Rightarrow> 0)"
  using assms
proof (induction left arbitrary: env existing d)
  case (0 env existing d)
  obtain d1 where "attempt cx job (env 0) existing d = Some (Retry, d1)"
      "length (reviews d1) = length (reviews d) + (case existing of None \<Rightarrow> 1 | Some _ \<Rightarrow> 0)"
    using attempt_broken [of "env 0"] "0.prems" by meson
  then show ?case by (auto simp: review_turns.simps [of cx job 0])
next
  case (Suc left env existing d)
  obtain d1 where a: "attempt cx job (env 0) existing d = Some (Retry, d1)"
      "length (reviews d1) = length (reviews d) + (case existing of None \<Rightarrow> 1 | Some _ \<Rightarrow> 0)"
    using attempt_broken [of "env 0"] Suc.prems by meson
  obtain d' where "review_turns cx job left (\<lambda>k. env (Suc k)) None d1 = Some (ReviewFailed, d')"
      "length (reviews d') = length (reviews d1) + left + 1"
    using Suc.IH [of "\<lambda>k. env (Suc k)" None d1] Suc.prems by auto
  with a show ?case by (auto simp: review_turns.simps [of cx job "Suc left"])
qed

text \<open>An error of the tool is always tried again, an exceeded token budget like any other: a tool
  that only gives errors is run once and then \<open>max_retries\<close> times more, each time under a review of
  its own (the first may be one that was left pending), and then the patch has failed.\<close>

theorem tool_errors_retried:
  assumes "\<forall>k. review_tool (at_tool (env k)) \<and> at_open (env k) \<and> at_still_open (env k)"
    and "\<forall>k rid e. \<exists>msg e'. at_tool (env k) rid e = Some (Inl msg, e') \<and> \<not> contains msg paused_text"
    and "count_successful_reviews (jb_patchset job) (jb_patch job) d < cx_target_review_count cx"
    and "\<not> has_failed_review (jb_patchset job) (jb_patch job) d" "\<not> only_ignored_files cx (jb_diff job)"
  shows "\<exists>d'. process_patch_review cx job env d = Some (ReviewFailed, d') \<and>
    length (reviews d') = length (reviews d) + cx_max_retries cx +
      (case get_pending_review_id (jb_patchset job) (Some (jb_patch job)) d of None \<Rightarrow> 1 | Some _ \<Rightarrow> 0)"
  using turns_broken [OF assms(1,2)] assms(3-5) by (simp add: process_patch_review_def)

subsection \<open>Samples\<close>

definition sample_cx :: ReviewContext where
  "sample_cx = \<lparr>cx_provider = ''p'', cx_model = ''m'', cx_max_retries = 1, cx_ignore_files = [],
     cx_no_ai = False, cx_target_review_count = 1, cx_smtp = None,
     cx_to_text = (\<lambda>_. ''json''), cx_pretty = (\<lambda>_. ''json'')\<rparr>"

definition sample_payload :: json where
  "sample_payload = JObj [(''patches'', JArr [JObj [(''index'', JInt 1), (''message_id'', JStr ''p@x'')]])]"

definition sample_job :: PatchJob where
  "sample_job = \<lparr>jb_patchset = 1, jb_patch = 1, jb_index = 1, jb_baseline = None,
     jb_payload = sample_payload, jb_prompts = None, jb_diff = [], jb_embargo = Some 100\<rparr>"

text \<open>A review with one finding.\<close>

definition sample_output :: json where
  "sample_output =
     JObj [(''patches'', JArr [JObj [(''index'', JInt 1), (''status'', JStr ''applied'')]]),
           (''review'', JObj [(''summary'', JStr ''s''),
              (''findings'', JArr [JObj [(''severity'', JStr ''High''), (''problem'', JStr ''bad'')]])]),
           (''inline_review'', JStr ''text'')]"

definition sample_attempt :: "string + json \<Rightarrow> Attempt" where
  "sample_attempt x = \<lparr>at_open = True, at_still_open = True, at_tool = (\<lambda>_ d. Some (x, d)),
     at_id = ''i'', at_policy = Inr sample_policy, at_now = 9\<rparr>"

text \<open>A store with one patch, of one patchset.\<close>

definition sample_db :: db where
  "sample_db = empty_db\<lparr>patchsets :=
     [\<lparr>ps_id = 1, ps_thread = 1, ps_cover = Some ''r@x'', ps_subject = ''s'', ps_author = None,
       ps_date = 5, ps_status = ''Pending'', ps_total = Some 1, ps_received = Some 1,
       ps_subject_index = 1, ps_parser_version = 0, ps_to = None, ps_cc = None, ps_baseline = None,
       ps_model = None, ps_prompts = None, ps_baseline_logs = None, ps_failed_reason = None,
       ps_skip = None, ps_only = None, ps_target_reviews = Some 1, ps_provider = None,
       ps_embargo = Some 100\<rparr>],
     patches :=
     [\<lparr>pa_id = 1, pa_patchset = 1, pa_message_id = ''p@x'', pa_part = 1, pa_diff = [],
       pa_status = None, pa_apply_error = None\<rparr>]\<rparr>"

text \<open>The first run of the tool breaks, the second gives a review.\<close>

definition second_time :: "nat \<Rightarrow> Attempt" where
  "second_time k = sample_attempt (if k = 0 then Inl ''broken pipe'' else Inr sample_output)"

lemma sample_tools: "review_tool (\<lambda>_ d. Some (x, d))"
  by unfold_locales simp

lemma second_time_tools: "\<forall>k. review_tool (at_tool (second_time k))"
  by (simp add: second_time_def sample_attempt_def sample_tools)

text \<open>What is seen of a run: the result, the reviews, the marks of the patches.\<close>

definition seen :: "PatchResult \<times> db \<Rightarrow>
  PatchResult \<times> (string \<times> string option) list \<times> string option list" where
  "seen = (\<lambda>(res, d). (res, List.map (\<lambda>r. (rv_status r, rv_interaction r)) (reviews d),
     List.map pa_status (patches d)))"

text \<open>A review that worked the second time cannot be repeated: the failed first try is kept
  without an interaction and counts as a failure of the patch, so that asking for another review,
  which should give a second one, marks the reviewed patch as failed without running anything.\<close>

theorem retried_review_blocks_rerun:
  "map_option seen (process_patch_review sample_cx sample_job second_time sample_db) =
     Some (Success, [(''Failed'', None), (''Reviewed'', None)], [Some ''Reviewed'']) \<and>
   Option.bind (process_patch_review sample_cx sample_job second_time sample_db)
     (\<lambda>(_, d). map_option seen (process_patch_review (sample_cx\<lparr>cx_target_review_count := 2\<rparr>)
        sample_job (\<lambda>_. sample_attempt (Inr sample_output)) (rerun_patchset 1 d))) =
     Some (ReviewFailed, [(''Failed'', None), (''Reviewed'', None)], [Some ''Failed''])"
  by code_simp

theorem review_returns_witness:
  "\<exists>res d'. process_patch_review sample_cx sample_job (\<lambda>_. sample_attempt (Inl ''e'')) sample_db = Some (res, d')"
  by (rule review_returns) (simp add: sample_attempt_def)

definition breaking :: "nat \<Rightarrow> Attempt" where
  "breaking k = sample_attempt (Inl ''broken pipe'')"

lemma breaking_tools: "\<forall>k. review_tool (at_tool (breaking k)) \<and> at_open (breaking k) \<and> at_still_open (breaking k)"
  by (simp add: breaking_def sample_attempt_def sample_tools)

theorem tool_errors_retried_witness:
  "\<exists>d'. process_patch_review sample_cx sample_job breaking sample_db = Some (ReviewFailed, d') \<and>
     length (reviews d') = 2"
proof -
  have e: "\<forall>k rid e. \<exists>msg e'. at_tool (breaking k) rid e = Some (Inl msg, e') \<and> \<not> contains msg paused_text"
  proof -
    have "\<not> contains ''broken pipe'' paused_text" by code_simp
    then show ?thesis by (simp add: breaking_def sample_attempt_def)
  qed
  have "count_successful_reviews (jb_patchset sample_job) (jb_patch sample_job) sample_db < cx_target_review_count sample_cx"
    "\<not> has_failed_review (jb_patchset sample_job) (jb_patch sample_job) sample_db"
    "\<not> only_ignored_files sample_cx (jb_diff sample_job)"
    "get_pending_review_id (jb_patchset sample_job) (Some (jb_patch sample_job)) sample_db = None"
    "length (reviews sample_db) = 0" "cx_max_retries sample_cx = 1"
    by code_simp+
  with tool_errors_retried [OF breaking_tools e, of sample_job sample_db sample_cx] show ?thesis
    by (simp add: numeral_2_eq_2)
qed

theorem review_failure_marked_witness:
  "\<exists>d'. process_patch_review sample_cx sample_job breaking sample_db = Some (ReviewFailed, d') \<and>
     (\<forall>p\<in>set (patches d'). pa_id p = 1 \<longrightarrow> pa_status p = Some ''Failed'')"
proof -
  have "map_option fst (process_patch_review sample_cx sample_job breaking sample_db) = Some ReviewFailed"
    by code_simp
  then obtain d' where d: "process_patch_review sample_cx sample_job breaking sample_db = Some (ReviewFailed, d')"
    by (cases "process_patch_review sample_cx sample_job breaking sample_db") auto
  have "jb_patch sample_job = 1" by (simp add: sample_job_def)
  with review_failure_marked [OF d] d show ?thesis by auto
qed

end
