(* ===== verification/Review_Tool.thy ===== *)
theory Review_Tool
  imports Review_Loop "HOL-Library.Code_Target_Nat"
begin

text \<open>
  The conversation with the review process: \<open>run_review_tool\<close> of \<open>src/reviewer.rs\<close> and the quota
  of \<open>src/ai/quota.rs\<close>. The process asks for AI answers over its standard output, the reviewer
  answers over its standard input, until the process prints a result, a budget is exceeded, the
  schedule closes, or the time is up. Time is in nanoseconds. What the process prints and what the
  AI provider answers are lists in the arguments; where the process prints nothing more the
  deadline passes, and where the provider answers nothing more the tool waits for ever (\<open>None\<close>),
  since a call of the provider has no deadline of its own. Starting the process, its environment and the logs
  are outside the model.
\<close>

subsection \<open>Quota\<close>

definition MAX_RETRY_AFTER :: nat where "MAX_RETRY_AFTER = 300 * nanos"

text \<open>The instant until which no request may be made.\<close>

type_synonym quota = "nat option"

text \<open>\<open>wait_for_access\<close>: \<open>gs\<close> are the values that the turns of the loop read, one per turn; the
  sleep ends at the instant that was read.\<close>

fun wait_for_access :: "quota list \<Rightarrow> nat \<Rightarrow> nat" where
  "wait_for_access [] now = 0"
| "wait_for_access (g # gs) now =
     (case g of
        Some until \<Rightarrow> if now < until then (until - now) + wait_for_access gs until else 0
      | None \<Rightarrow> 0)"

definition report_success :: "quota \<Rightarrow> quota" where
  "report_success q = None"

definition report_quota_error :: "nat \<Rightarrow> nat \<Rightarrow> quota \<Rightarrow> quota" where
  "report_quota_error retry now q =
     (let resume_time = now + min retry MAX_RETRY_AFTER
      in case q of
           Some current \<Rightarrow> if current < resume_time then Some resume_time else Some current
         | None \<Rightarrow> Some resume_time)"

subsection \<open>Asking the provider\<close>

text \<open>One call of the provider: how long it took and what came back.\<close>

record Answer =
  an_took :: nat
  an_result :: "AiError + AiResponse"

fun error_text :: "AiError \<Rightarrow> string" where
  "error_text (RemoteError p) = ''Remote AI Error: '' @ pl_message p"
| "error_text (ProviderError s _) = s"
| "error_text (OtherError s) = s"

text \<open>The wait after the \<open>n\<close>-th transient error in a row: it doubles up to a minute, and is at least
  what the provider asked for.\<close>

definition backoff :: "nat \<Rightarrow> nat \<Rightarrow> nat" where
  "backoff n retry = max (min (2 ^ (n - 1)) 60 * nanos) retry"

definition timeout_text :: string where
  "timeout_text = ''Review tool timed out (active time exceeded)''"

record Clock =
  ck_now :: nat
  ck_deadline :: nat
  ck_quota :: quota

text \<open>Sleeping for the quota moves the deadline, sleeping after a transient error does not.\<close>

fun ask :: "nat \<Rightarrow> Answer list \<Rightarrow> Clock \<Rightarrow> ((AiError + AiResponse) \<times> Clock) option" where
  "ask errors as c =
     (let slept = wait_for_access [ck_quota c, ck_quota c] (ck_now c);
          c1 = c\<lparr>ck_now := ck_now c + slept, ck_deadline := ck_deadline c + slept\<rparr>
      in if ck_deadline c1 < ck_now c1 then Some (Inl (OtherError timeout_text), c1)
         else case as of
           [] \<Rightarrow> None
         | a # as' \<Rightarrow>
             (let now = ck_now c1 + an_took a in
              case an_result a of
                Inr resp \<Rightarrow> Some (Inr resp, c1\<lparr>ck_now := now, ck_quota := report_success (ck_quota c1)\<rparr>)
              | Inl e \<Rightarrow>
                  (case classify_ai_error e of
                     RateLimit retry \<Rightarrow>
                       ask errors as' (c1\<lparr>ck_now := now, ck_quota := report_quota_error retry now (ck_quota c1)\<rparr>)
                   | Transient retry \<Rightarrow>
                       ask (Suc errors) as' (c1\<lparr>ck_now := now + backoff (Suc errors) retry\<rparr>)
                   | Fatal \<Rightarrow> Some (Inl e, c1\<lparr>ck_now := now\<rparr>))))"

declare ask.simps [simp del]

subsection \<open>The conversation\<close>

record ToolSettings =
  ts_timeout_seconds :: nat
  ts_max_total_tokens :: nat
  ts_max_total_output_tokens :: nat
  ts_provider :: string
  ts_model :: string
  ts_to_text :: "json \<Rightarrow> string"

text \<open>What happens next, with the time since the last event: the process prints a line (the answers
  are those the provider gives if the line is a request, the flag tells whether the reply can be
  written), five seconds pass without a line (with the answer of the schedule), the output ends, or
  it cannot be read.\<close>

datatype Event = Line string "Answer list" bool | Tick bool | Eof

record Talk =
  tk_clock :: Clock
  tk_started :: bool
  tk_total :: nat
  tk_output :: nat
  tk_replies :: "json list"
  tk_db :: db

definition seconds :: "Talk \<Rightarrow> int" where
  "seconds t = int (ck_now (tk_clock t) div nanos)"

text \<open>The tokens that count: input that was not served from a cache, and output.\<close>

definition counted_tokens :: "AiUsage \<Rightarrow> nat" where
  "counted_tokens u =
     (us_prompt_tokens u - (case us_cached_tokens u of Some c \<Rightarrow> c | None \<Rightarrow> 0)) + us_completion_tokens u"

definition add_usage :: "AiResponse \<Rightarrow> Talk \<Rightarrow> Talk" where
  "add_usage r t =
     (case rs_usage r of
        None \<Rightarrow> t
      | Some u \<Rightarrow> t\<lparr>tk_total := tk_total t + counted_tokens u,
                     tk_output := tk_output t + us_completion_tokens u\<rparr>)"

definition over :: "nat \<Rightarrow> nat \<Rightarrow> bool" where
  "over budget used \<longleftrightarrow> 0 < budget \<and> budget < used"

definition budget_error :: "ToolSettings \<Rightarrow> AiResponse \<Rightarrow> Talk \<Rightarrow> string option" where
  "budget_error s r t =
     (if rs_usage r = None then None
      else if over (ts_max_total_tokens s) (tk_total t)
      then Some (''Token budget exceeded: Token budget exceeded: '' @ show_nat (tk_total t) @
             '' uncached input + output tokens used (limit: '' @ show_nat (ts_max_total_tokens s) @ '')'')
      else if over (ts_max_total_output_tokens s) (tk_output t)
      then Some (''Token budget exceeded: Output token budget exceeded: '' @ show_nat (tk_output t) @
             '' output tokens used (limit: '' @ show_nat (ts_max_total_output_tokens s) @ '')'')
      else None)"

definition record_tool_calls :: "ToolSettings \<Rightarrow> int \<Rightarrow> AiResponse \<Rightarrow> Talk \<Rightarrow> Talk" where
  "record_tool_calls s rid r t =
     t\<lparr>tk_db := fold (\<lambda>c. create_tool_usage
          \<lparr>tool_review = rid, tool_provider = ts_provider s, tool_model = ts_model s,
           tool_name = tc_function_name c, tool_arguments = Some (ts_to_text s (tc_arguments c)),
           tool_output_length = 0\<rparr> (seconds t))
        (case rs_tool_calls r of Some cs \<Rightarrow> cs | None \<Rightarrow> []) (tk_db t)\<rparr>"

definition start_ai :: "int \<Rightarrow> Talk \<Rightarrow> Talk" where
  "start_ai rid t =
     (if tk_started t then t
      else t\<lparr>tk_started := True,
             tk_db := update_review_status rid (as_str InReview) None (seconds t) (tk_db t)\<rparr>)"

text \<open>What a line of the process asks for.\<close>

datatype Message = Request json | Result json | Other

definition read_message :: "json_parser \<Rightarrow> string \<Rightarrow> Message" where
  "read_message from_str line =
     (case from_str line of
        None \<Rightarrow> Other
      | Some v \<Rightarrow>
          (case Option.bind (jget v ''type'') as_str_opt of
             Some ty \<Rightarrow>
               if ty = ''ai_request'' \<or> ty = ''ai_request_with_cache''
               then Request (jindex v ''payload'')
               else if jget v ''patchset_id'' \<noteq> None then Result v else Other
           | None \<Rightarrow> if jget v ''patchset_id'' \<noteq> None then Result v else Other))"

text \<open>Answering a request; \<open>parse_request\<close> reads the payload, and one that is not a request is not
  answered. \<open>Inl\<close> ends the conversation.\<close>

definition answer_request ::
  "(json \<Rightarrow> AiRequest option) \<Rightarrow> ToolSettings \<Rightarrow> int \<Rightarrow> json \<Rightarrow> Answer list \<Rightarrow> bool \<Rightarrow> Talk \<Rightarrow>
   ((string + json option) option \<times> Talk) option" where
  "answer_request parse_request s rid payload answers writable t0 =
     (let t = start_ai rid t0 in
      if parse_request payload = None then Some (None, t)
      else case ask 0 answers (tk_clock t) of
        None \<Rightarrow> None
      | Some (res, c) \<Rightarrow>
          (let t1 = t\<lparr>tk_clock := c\<rparr> in
           case res of
             Inr r \<Rightarrow>
               (let t2 = add_usage r t1 in
                case budget_error s r t2 of
                  Some e \<Rightarrow> Some (Some (Inl e), t2)
                | None \<Rightarrow>
                    (let t3 = record_tool_calls s rid r t2 in
                     if writable then Some (None, t3\<lparr>tk_replies := tk_replies t3 @ [ai_response_msg r]\<rparr>)
                     else Some (Some (Inr None), t3)))
           | Inl e \<Rightarrow>
               if writable
               then Some (None, t1\<lparr>tk_replies := tk_replies t1 @
                      [error_msg \<lparr>pl_message = error_text e, pl_class = classify_ai_error e\<rparr>]\<rparr>)
               else Some (Some (Inr None), t1)))"

text \<open>The events until the run ends. The totals of tokens are sums of \<open>usize\<close> in the code and have no bound here; they
  differ only from \<open>2 ^ 64\<close> tokens on.\<close>

fun converse ::
  "json_parser \<Rightarrow> (json \<Rightarrow> AiRequest option) \<Rightarrow> ToolSettings \<Rightarrow> int \<Rightarrow> (nat \<times> Event) list \<Rightarrow> Talk \<Rightarrow>
   ((string + json option) \<times> Talk) option" where
  "converse from_str parse_request s rid [] t = Some (Inl timeout_text, t)"
| "converse from_str parse_request s rid ((gap, ev) # evs) t0 =
     (let c = tk_clock t0;
          t = t0\<lparr>tk_clock := c\<lparr>ck_now := ck_now c + gap\<rparr>\<rparr>
      in if ck_deadline (tk_clock t) < ck_now (tk_clock t) then Some (Inl timeout_text, t)
         else case ev of
           Tick open_now \<Rightarrow>
             if open_now then converse from_str parse_request s rid evs t else Some (Inl paused_text, t)
         | Eof \<Rightarrow> Some (Inr None, t)
         | Line line answers writable \<Rightarrow>
             (case read_message from_str line of
                Other \<Rightarrow> converse from_str parse_request s rid evs t
              | Result v \<Rightarrow> Some (Inr (Some v), t)
              | Request payload \<Rightarrow>
                  (case answer_request parse_request s rid payload answers writable t of
                     None \<Rightarrow> None
                   | Some (Some r, t') \<Rightarrow> Some (r, t')
                   | Some (None, t') \<Rightarrow> converse from_str parse_request s rid evs t')))"

subsection \<open>The tool\<close>

definition application_log :: "json \<Rightarrow> string option" where
  "application_log p =
     (let get = (\<lambda>k. case as_str_opt (jindex p k) of Some x \<Rightarrow> x | None \<Rightarrow> []);
          am = get ''am_error''; out = get ''stdout''; err = get ''stderr'';
          full_log = (if am \<noteq> [] then ''git am error:'' @ [newline] @ am @ [newline, newline] else []) @
            (if out \<noteq> [] then ''stdout:'' @ [newline] @ out @ [newline] else []) @
            (if err \<noteq> [] then ''stderr:'' @ [newline] @ err else [])
      in if trim full_log = [] then None else Some full_log)"

definition record_application :: "int \<Rightarrow> json \<Rightarrow> db \<Rightarrow> db" where
  "record_application patchset_id p d =
     (let idx = (case as_i64_opt (jindex p ''index'') of Some n \<Rightarrow> n | None \<Rightarrow> 0);
          status = (case as_str_opt (jindex p ''status'') of Some x \<Rightarrow> x | None \<Rightarrow> ''error'')
      in if idx < 0 then d
         else update_patch_application_status patchset_id (nat idx) status (application_log p) d)"

definition run_review_tool ::
  "json_parser \<Rightarrow> (json \<Rightarrow> AiRequest option) \<Rightarrow> ToolSettings \<Rightarrow> bool \<Rightarrow> (nat \<times> Event) list \<Rightarrow> nat \<Rightarrow>
   quota \<Rightarrow> int \<Rightarrow> int \<Rightarrow> db \<Rightarrow> ((string + json) \<times> db) option" where
  "run_review_tool from_str parse_request s open_now evs now q patchset_id rid d =
     (if \<not> open_now then Some (Inl paused_text, d)
      else case converse from_str parse_request s rid evs
             \<lparr>tk_clock = \<lparr>ck_now = now, ck_deadline = now + ts_timeout_seconds s * nanos, ck_quota = q\<rparr>,
              tk_started = False, tk_total = 0, tk_output = 0, tk_replies = [], tk_db = d\<rparr> of
        None \<Rightarrow> None
      | Some (Inl e, t) \<Rightarrow> Some (Inl e, tk_db t)
      | Some (Inr None, t) \<Rightarrow> Some (Inl ''Review tool finished without valid result'', tk_db t)
      | Some (Inr (Some v), t) \<Rightarrow>
          Some (Inr v, (case as_array_opt (jindex v ''patches'') of
            Some ps \<Rightarrow> fold (record_application patchset_id) ps (tk_db t)
          | None \<Rightarrow> tk_db t)))"

subsection \<open>The tool keeps its contract\<close>

lemma start_ai_frame: "review_frame rid (tk_db t) (tk_db (start_ai rid t))"
  by (simp add: start_ai_def update_review_status_frame)

lemma add_usage_db [simp]: "tk_db (add_usage r t) = tk_db t"
  by (simp add: add_usage_def split: option.split)

lemma record_tool_calls_frame: "review_frame rid (tk_db t) (tk_db (record_tool_calls s rid r t))"
  by (simp add: record_tool_calls_def fold_frame create_tool_usage_frame)

text \<open>What answering a request does: the totals grow by the usage of the answer, and a reply is
  handed on only when they are within the budgets.\<close>

lemma answer_cases [consumes 1, case_names not_a_request exceeded answered unwritten error]:
  assumes "answer_request parse_request s rid payload answers w t0 = Some (res, t')"
  obtains "parse_request payload = None" "res = None" "t' = start_ai rid t0"
  | r c e t where "ask 0 answers (tk_clock (start_ai rid t0)) = Some (Inr r, c)"
      "t = add_usage r (start_ai rid t0\<lparr>tk_clock := c\<rparr>)" "budget_error s r t = Some e"
      "res = Some (Inl e)" "t' = t"
  | r c t where "ask 0 answers (tk_clock (start_ai rid t0)) = Some (Inr r, c)"
      "t = add_usage r (start_ai rid t0\<lparr>tk_clock := c\<rparr>)" "budget_error s r t = None" "w" "res = None"
      "t' = (record_tool_calls s rid r t)\<lparr>tk_replies :=
         tk_replies (record_tool_calls s rid r t) @ [ai_response_msg r]\<rparr>"
  | r c t where "ask 0 answers (tk_clock (start_ai rid t0)) = Some (Inr r, c)"
      "t = add_usage r (start_ai rid t0\<lparr>tk_clock := c\<rparr>)" "budget_error s r t = None" "\<not> w"
      "res = Some (Inr None)" "t' = record_tool_calls s rid r t"
  | e c where "ask 0 answers (tk_clock (start_ai rid t0)) = Some (Inl e, c)"
      "res = (if w then None else Some (Inr None))" "tk_total t' = tk_total (start_ai rid t0)"
      "tk_output t' = tk_output (start_ai rid t0)" "tk_db t' = tk_db (start_ai rid t0)"
      "tk_replies t' = tk_replies (start_ai rid t0) @ (if w
         then [error_msg \<lparr>pl_message = error_text e, pl_class = classify_ai_error e\<rparr>] else [])"
      "tk_clock t' = c"
proof (cases "parse_request payload = None")
  case True
  with assms that(1) show thesis by (simp add: answer_request_def Let_def)
next
  case False
  note a = assms [unfolded answer_request_def Let_def]
  from a False obtain res1 c where k: "ask 0 answers (tk_clock (start_ai rid t0)) = Some (res1, c)"
    by (cases "ask 0 answers (tk_clock (start_ai rid t0))") auto
  show thesis
  proof (cases res1)
    case (Inl e)
    with a False k have r: "res = (if w then None else Some (Inr None))"
      "t' = (if w then (start_ai rid t0\<lparr>tk_clock := c\<rparr>)\<lparr>tk_replies := tk_replies (start_ai rid t0) @
         [error_msg \<lparr>pl_message = error_text e, pl_class = classify_ai_error e\<rparr>]\<rparr>
       else start_ai rid t0\<lparr>tk_clock := c\<rparr>)"
      by (simp_all split: if_splits)
    show thesis by (rule that(5) [OF k [unfolded Inl] r(1)]) (simp_all add: r(2))
  next
    case (Inr r)
    define t where "t = add_usage r (start_ai rid t0\<lparr>tk_clock := c\<rparr>)"
    note k = k [unfolded Inr]
    show thesis
    proof (cases "budget_error s r t")
      case (Some e)
      with a False k that(2) [OF k t_def Some] show thesis by (simp add: t_def)
    next
      case None
      show thesis
      proof (cases w)
        case True
        with a False k None that(3) [OF k t_def None True] show thesis by (simp add: t_def)
      next
        case w: False
        with a False k None that(4) [OF k t_def None w] show thesis by (simp add: t_def)
      qed
    qed
  qed
qed

lemma answer_frame:
  assumes "answer_request parse_request s rid payload answers w t0 = Some (res, t')"
  shows "review_frame rid (tk_db t0) (tk_db t')"
  using assms
proof (cases rule: answer_cases)
  case (answered r c t)
  have "review_frame rid (tk_db (start_ai rid t0)) (tk_db t')"
    unfolding answered(6) answered(2) using record_tool_calls_frame [of rid "add_usage r (start_ai rid t0\<lparr>tk_clock := c\<rparr>)"]
    by simp
  with start_ai_frame show ?thesis by (rule review_frame_trans)
next
  case (unwritten r c t)
  have "review_frame rid (tk_db (start_ai rid t0)) (tk_db t')"
    unfolding unwritten(6) unwritten(2) using record_tool_calls_frame [of rid "add_usage r (start_ai rid t0\<lparr>tk_clock := c\<rparr>)"]
    by simp
  with start_ai_frame show ?thesis by (rule review_frame_trans)
qed (simp_all add: start_ai_frame)

text \<open>One step of the conversation.\<close>

lemma converse_cases [consumes 1, case_names silent stopped went_on answered_on]:
  assumes "converse from_str parse_request s rid evs0 t0 = Some (r, t')"
  obtains "evs0 = []" "r = Inl timeout_text" "t' = t0"
  | gap ev evs where "evs0 = (gap, ev) # evs"
      "t' = t0\<lparr>tk_clock := tk_clock t0\<lparr>ck_now := ck_now (tk_clock t0) + gap\<rparr>\<rparr>"
  | gap ev evs where "evs0 = (gap, ev) # evs" "converse from_str parse_request s rid evs
      (t0\<lparr>tk_clock := tk_clock t0\<lparr>ck_now := ck_now (tk_clock t0) + gap\<rparr>\<rparr>) = Some (r, t')"
  | gap line answers w evs payload res t1 where "evs0 = (gap, Line line answers w) # evs"
      "answer_request parse_request s rid payload answers w
        (t0\<lparr>tk_clock := tk_clock t0\<lparr>ck_now := ck_now (tk_clock t0) + gap\<rparr>\<rparr>) = Some (res, t1)"
      "(case res of Some r' \<Rightarrow> r = r' \<and> t' = t1
        | None \<Rightarrow> converse from_str parse_request s rid evs t1 = Some (r, t'))"
proof (cases evs0)
  case Nil
  with assms that(1) show thesis by simp
next
  case (Cons x evs)
  obtain gap ev where x: "x = (gap, ev)" by fastforce
  define t where "t = t0\<lparr>tk_clock := tk_clock t0\<lparr>ck_now := ck_now (tk_clock t0) + gap\<rparr>\<rparr>"
  note c = assms [unfolded Cons x converse.simps Let_def, folded t_def]
  have e: "evs0 = (gap, ev) # evs" using Cons x by simp
  note stopped = that(2)
  have stop: thesis if "t' = t" by (rule stopped [OF e]) (use that in \<open>simp add: t_def\<close>)
  show thesis
  proof (cases "ck_deadline (tk_clock t) < ck_now (tk_clock t)")
    case True
    with c have "t' = t" by simp
    then show thesis by (rule stop)
  next
    case False
    show thesis
    proof (cases ev)
      case (Line line answers w)
      show thesis
      proof (cases "read_message from_str line")
        case (Request payload)
        with c False Line obtain res t1 where a: "answer_request parse_request s rid payload answers w t = Some (res, t1)"
          by (cases "answer_request parse_request s rid payload answers w t") auto
        moreover have "(case res of Some r' \<Rightarrow> r = r' \<and> t' = t1
            | None \<Rightarrow> converse from_str parse_request s rid evs t1 = Some (r, t'))"
          using c False Line Request a by (cases res) simp_all
        ultimately show thesis using that(4) e Line unfolding t_def by blast
      next
        case (Result v)
        with c False Line have "t' = t" by simp
        then show thesis by (rule stop)
      next
        case Other
        with c False Line have "converse from_str parse_request s rid evs t = Some (r, t')" by simp
        with that(3) e show thesis unfolding t_def by blast
      qed
    next
      case (Tick open_now)
      show thesis
      proof (cases open_now)
        case True
        with c False Tick have "converse from_str parse_request s rid evs t = Some (r, t')" by simp
        with that(3) e show thesis unfolding t_def by blast
      next
        case o: False
        with c False Tick have "t' = t" by simp
        then show thesis by (rule stop)
      qed
    next
      case Eof
      with c False have "t' = t" by simp
      then show thesis by (rule stop)
    qed
  qed
qed

lemma converse_frame:
  assumes "converse from_str parse_request s rid evs t = Some (r, t')"
  shows "review_frame rid (tk_db t) (tk_db t')"
  using assms
proof (induction evs arbitrary: t)
  case (Cons x evs t)
  from Cons.prems show ?case
  proof (cases rule: converse_cases)
    case (went_on gap ev evs')
    then show ?thesis using Cons.IH [where t = "t\<lparr>tk_clock := tk_clock t\<lparr>ck_now := ck_now (tk_clock t) + gap\<rparr>\<rparr>"] by simp
  next
    case (answered_on gap line answers w evs' payload res t1)
    have a: "review_frame rid (tk_db t) (tk_db t1)" using answer_frame [OF answered_on(2)] by simp
    show ?thesis
    proof (cases res)
      case None
      with answered_on(1,3) Cons.IH have "review_frame rid (tk_db t1) (tk_db t')" by simp
      with a show ?thesis by (rule review_frame_trans)
    next
      case (Some r')
      with a answered_on(3) show ?thesis by simp
    qed
  qed simp_all
qed simp

lemma run_review_tool_frame:
  assumes "run_review_tool from_str parse_request s open_now evs now q patchset_id rid d = Some (res, d')"
  shows "review_frame rid d d'"
proof -
  let ?t = "\<lparr>tk_clock = \<lparr>ck_now = now, ck_deadline = now + ts_timeout_seconds s * nanos, ck_quota = q\<rparr>,
    tk_started = False, tk_total = 0, tk_output = 0, tk_replies = [], tk_db = d\<rparr>"
  have f: "review_frame rid e (fold (record_application patchset_id) ps e)" for ps e
    by (rule fold_frame) (simp add: record_application_def Let_def update_application_frame)
  note a = assms [unfolded run_review_tool_def]
  show ?thesis
  proof (cases "open_now")
    case False
    with a show ?thesis by simp
  next
    case True
    with a obtain r t' where c: "converse from_str parse_request s rid evs ?t = Some (r, t')"
      by (cases "converse from_str parse_request s rid evs ?t") auto
    have k: "review_frame rid d (tk_db t')" using converse_frame [OF c] by simp
    have "d' = tk_db t' \<or> (\<exists>ps. d' = fold (record_application patchset_id) ps (tk_db t'))"
      using a True c by (auto split: sum.splits option.splits)
    with k f show ?thesis by (metis review_frame_trans)
  qed
qed

interpretation tool: review_tool "run_review_tool from_str parse_request s open_now evs now q patchset_id"
  for from_str parse_request s open_now evs now q patchset_id
  by unfold_locales (rule run_review_tool_frame)

subsection \<open>The review of a patch with the tool\<close>

text \<open>One run of the tool in the surroundings of an attempt.\<close>

record ToolRun =
  tr_open :: bool
  tr_events :: "(nat \<times> Event) list"
  tr_now :: nat
  tr_quota :: quota

definition with_tool ::
  "json_parser \<Rightarrow> (json \<Rightarrow> AiRequest option) \<Rightarrow> ToolSettings \<Rightarrow> PatchJob \<Rightarrow> ToolRun \<Rightarrow> Attempt \<Rightarrow> Attempt" where
  "with_tool from_str parse_request s job run at =
     at\<lparr>at_tool := run_review_tool from_str parse_request s (tr_open run) (tr_events run) (tr_now run)
          (tr_quota run) (jb_patchset job)\<rparr>"

definition review_patch ::
  "json_parser \<Rightarrow> (json \<Rightarrow> AiRequest option) \<Rightarrow> ToolSettings \<Rightarrow> ReviewContext \<Rightarrow> PatchJob \<Rightarrow>
   (nat \<Rightarrow> ToolRun) \<Rightarrow> (nat \<Rightarrow> Attempt) \<Rightarrow> db \<Rightarrow> (PatchResult \<times> db) option" where
  "review_patch from_str parse_request s cx job runs env d =
     process_patch_review cx job (\<lambda>k. with_tool from_str parse_request s job (runs k) (env k)) d"

lemma with_tool_contract:
  "\<forall>k. review_tool (at_tool (with_tool from_str parse_request s job (runs k) (env k)))"
  by (simp add: with_tool_def tool.review_tool_axioms)








text \<open>While the embargo of a patchset lasts, reviewing its patches sends nothing: the mail queue
  stays as it was, whatever the reviews find.\<close>

theorem embargo_holds_mail:
  assumes "\<forall>k. embargoed_at (at_now (env k)) (jb_embargo job)"
    and "review_patch from_str parse_request s cx job runs env d = Some (res, d')"
  shows "outbox d' = outbox d"
  using process_quiet [where b = True, OF with_tool_contract _ assms(2) [unfolded review_patch_def]] assms(1)
  by (simp add: quiet_def with_tool_def)

text \<open>Reviews lose their findings: the table of findings has no column \<open>server_id\<close>, each insert
  of a finding fails, the error is dropped, and the review still counts as reviewed.\<close>

theorem findings_lost:
  assumes "''server_id'' \<notin> set (finding_columns d)"
    and "review_patch from_str parse_request s cx job runs env d = Some (res, d')"
  shows "findings d' = findings d"
  using process_quiet [where b = False, OF with_tool_contract _ assms(2) [unfolded review_patch_def]] assms(1)
  by (simp add: quiet_def)

subsection \<open>Budgets\<close>

definition within_budget :: "ToolSettings \<Rightarrow> Talk \<Rightarrow> bool" where
  "within_budget s t \<longleftrightarrow>
     \<not> over (ts_max_total_tokens s) (tk_total t) \<and> \<not> over (ts_max_total_output_tokens s) (tk_output t)"

lemma start_ai_totals [simp]:
  "tk_total (start_ai rid t) = tk_total t" "tk_output (start_ai rid t) = tk_output t"
  "tk_replies (start_ai rid t) = tk_replies t" "tk_clock (start_ai rid t) = tk_clock t"
  by (simp_all add: start_ai_def)

lemma record_tool_calls_totals [simp]:
  "tk_total (record_tool_calls s rid r t) = tk_total t" "tk_output (record_tool_calls s rid r t) = tk_output t"
  by (simp_all add: record_tool_calls_def)

lemma no_budget_error:
  assumes "budget_error s r (add_usage r t) = None" "within_budget s t"
  shows "within_budget s (add_usage r t)"
  using assms by (auto simp: budget_error_def within_budget_def add_usage_def split: option.splits if_splits)

lemma answer_budget:
  assumes "answer_request parse_request s rid payload answers w t0 = Some (res, t')"
    "within_budget s t0" "\<forall>e. res \<noteq> Some (Inl e)"
  shows "within_budget s t'"
  using assms(1)
proof (cases rule: answer_cases)
  case (answered r c t)
  with no_budget_error [of s r "start_ai rid t0\<lparr>tk_clock := c\<rparr>"] assms(2)
  show ?thesis by (simp add: within_budget_def)
next
  case (unwritten r c t)
  with no_budget_error [of s r "start_ai rid t0\<lparr>tk_clock := c\<rparr>"] assms(2)
  show ?thesis by (simp add: within_budget_def)
qed (use assms in \<open>auto simp: within_budget_def\<close>)

text \<open>C29. The token budgets hold: a review process whose result is taken never used more tokens than
  the limits allow, uncached input and output together as well as output alone (0 means no
  limit).\<close>

theorem budget_respected:
  assumes "converse from_str parse_request s rid evs t = Some (Inr r, t')" "within_budget s t"
  shows "within_budget s t'"
  using assms
proof (induction evs arbitrary: t)
  case (Cons x evs t)
  from Cons.prems(1) show ?case
  proof (cases rule: converse_cases)
    case (went_on gap ev evs')
    with Cons show ?thesis by (simp add: within_budget_def)
  next
    case (answered_on gap line answers w evs' payload res t1)
    have "\<forall>e. res \<noteq> Some (Inl e)" using answered_on(3) by (cases res) auto
    with answer_budget [OF answered_on(2)] Cons.prems(2) have b: "within_budget s t1"
      by (simp add: within_budget_def)
    show ?thesis
    proof (cases res)
      case None
      with answered_on(1,3) Cons.IH b show ?thesis by simp
    next
      case (Some r')
      with answered_on(3) b show ?thesis by simp
    qed
  qed (use Cons.prems in \<open>simp_all add: within_budget_def\<close>)
qed simp

subsection \<open>Waiting\<close>

text \<open>The wait after a quota error is the longest of what was asked for: at once after the error a
  request waits as long as the error said, at most five minutes, or as long as an earlier error still
  asks; an error never shortens the wait.\<close>

theorem quota_wait:
  "(let g = report_quota_error retry now q in wait_for_access [g, g] now) =
     max (min retry MAX_RETRY_AFTER) (case q of Some u \<Rightarrow> u - now | None \<Rightarrow> 0)"
  by (cases q) (simp_all add: report_quota_error_def Let_def, auto simp: max_def min_def)

text \<open>Without errors of the quota the deadline stands, and each transient error costs a second.\<close>

lemma backoff_at_least: "nanos \<le> backoff (Suc n) retry"
proof -
  have "1 \<le> min ((2::nat) ^ n) 60" by simp
  then have "1 * nanos \<le> min (2 ^ n) 60 * nanos" by (rule mult_le_mono1)
  also have "\<dots> \<le> backoff (Suc n) retry" by (simp add: backoff_def)
  finally show ?thesis by simp
qed

lemma ask_step:
  assumes "ck_quota c = None" "ck_now c \<le> ck_deadline c"
    "\<forall>e. an_result a = Inl e \<longrightarrow> (\<forall>r. classify_ai_error e \<noteq> RateLimit r)"
  shows "ask n (a # as) c \<noteq> None \<or>
    (\<exists>c'. ask n (a # as) c = ask (Suc n) as c' \<and> ck_quota c' = None \<and> ck_deadline c' = ck_deadline c \<and>
       ck_now c + nanos \<le> ck_now c')"
proof (cases "an_result a")
  case (Inr resp)
  with assms show ?thesis by (simp add: ask.simps [of n "a # as"] Let_def)
next
  case (Inl e)
  show ?thesis
  proof (cases "classify_ai_error e")
    case (RateLimit r)
    with Inl assms(3) show ?thesis by simp
  next
    case Fatal
    with assms Inl show ?thesis by (simp add: ask.simps [of n "a # as"] Let_def)
  next
    case (Transient r)
    let ?c = "c\<lparr>ck_now := ck_now c + an_took a + backoff (Suc n) r\<rparr>"
    have "ask n (a # as) c = ask (Suc n) as ?c"
      using assms Inl Transient by (simp add: ask.simps [of n "a # as"] Let_def)
    moreover have "ck_now c + nanos \<le> ck_now ?c" using backoff_at_least [of n r] by simp
    ultimately show ?thesis using assms(1) by (intro disjI2 exI [of _ ?c]) simp
  qed
qed

lemma ask_ends:
  assumes "ck_quota c = None" "\<forall>a\<in>set as. \<forall>e. an_result a = Inl e \<longrightarrow> (\<forall>r. classify_ai_error e \<noteq> RateLimit r)"
    "ck_deadline c < ck_now c + length as * nanos"
  shows "ask n as c \<noteq> None"
  using assms
proof (induction as arbitrary: n c)
  case Nil
  then show ?case by (simp add: ask.simps [of n "[]"] Let_def)
next
  case (Cons a as)
  show ?case
  proof (cases "ck_deadline c < ck_now c")
    case True
    with Cons.prems(1) show ?thesis by (simp add: ask.simps [of n "a # as"] Let_def)
  next
    case False
    have "\<forall>e. an_result a = Inl e \<longrightarrow> (\<forall>r. classify_ai_error e \<noteq> RateLimit r)" using Cons.prems(2) by simp
    from ask_step [OF Cons.prems(1) _ this, of n as] False
    have "ask n (a # as) c \<noteq> None \<or> (\<exists>c'. ask n (a # as) c = ask (Suc n) as c' \<and> ck_quota c' = None \<and>
      ck_deadline c' = ck_deadline c \<and> ck_now c + nanos \<le> ck_now c')" by simp
    then show ?thesis
    proof (elim disjE exE conjE)
      fix c'
      assume "ask n (a # as) c = ask (Suc n) as c'" "ck_quota c' = None" "ck_deadline c' = ck_deadline c"
        "ck_now c + nanos \<le> ck_now c'"
      with Cons.IH [of c' "Suc n"] Cons.prems(2,3) show ?thesis by simp
    qed simp_all
  qed
qed

text \<open>Asking the provider comes to an end: with no rate limits in play, a provider that keeps
  failing in passing is asked at most once per second that is left until the deadline, and once
  more.\<close>

theorem transient_errors_end:
  assumes "ck_quota c = None"
    "\<forall>a\<in>set as. \<forall>e. an_result a = Inl e \<longrightarrow> (\<forall>r. classify_ai_error e \<noteq> RateLimit r)"
    "(ck_deadline c - ck_now c) div nanos < length as"
  shows "ask n as c \<noteq> None"
proof -
  have "ck_deadline c - ck_now c < length as * nanos"
    using assms(3) by (simp add: div_less_iff_less_mult nanos_def)
  with ask_ends [OF assms(1,2)] show ?thesis by simp
qed

text \<open>Rate limits are waited out without end: the wait moves the deadline, so a provider that
  answers each request at once with a rate limit is asked again and again, and the review never times
  out.\<close>

theorem rate_limits_never_end:
  assumes "\<forall>a\<in>set as. an_took a = 0 \<and> (\<exists>e r. an_result a = Inl e \<and> classify_ai_error e = RateLimit r)"
    "ck_now c \<le> ck_deadline c"
  shows "ask n as c = None"
  using assms
proof (induction as arbitrary: c)
  case Nil
  then show ?case by (simp add: ask.simps [of n "[]"] Let_def)
next
  case (Cons a as)
  from Cons.prems(1) obtain e r where a: "an_took a = 0" "an_result a = Inl e" "classify_ai_error e = RateLimit r"
    by auto
  define w where "w = wait_for_access [ck_quota c, ck_quota c] (ck_now c)"
  define c1 where "c1 = c\<lparr>ck_deadline := ck_deadline c + w, ck_now := ck_now c + w,
    ck_quota := report_quota_error r (ck_now c + w) (ck_quota c)\<rparr>"
  have "ask n (a # as) c = ask n as c1"
    using Cons.prems(2) a
    by (simp add: ask.simps [of n "a # as"] Let_def w_def [symmetric] c1_def del: wait_for_access.simps)
  moreover have "ask n as c1 = None"
    using Cons.prems by (intro Cons.IH) (simp_all add: c1_def)
  ultimately show ?case by simp
qed

subsection \<open>Samples\<close>

definition sample_settings :: ToolSettings where
  "sample_settings = \<lparr>ts_timeout_seconds = 1, ts_max_total_tokens = 2, ts_max_total_output_tokens = 0,
     ts_provider = ''p'', ts_model = ''m'', ts_to_text = (\<lambda>_. ''json'')\<rparr>"

text \<open>The first run ends without a result, the later ones give the sample review.\<close>

definition sample_runs :: "nat \<Rightarrow> ToolRun" where
  "sample_runs k = \<lparr>tr_open = True, tr_events = (if k = 0 then [(0, Eof)] else [(0, Line ''r'' [] True)]),
     tr_now = 0, tr_quota = None\<rparr>"

definition sample_parser :: json_parser where
  "sample_parser _ = Some (case sample_output of JObj kvs \<Rightarrow> JObj ((''patchset_id'', JInt 1) # kvs))"

definition sample_env :: "nat \<Rightarrow> Attempt" where
  "sample_env k = sample_attempt (Inl [])"

abbreviation sample_review :: "(PatchResult \<times> db) option" where
  "sample_review \<equiv> review_patch sample_parser (\<lambda>_. None) sample_settings sample_cx sample_job sample_runs
     sample_env sample_db"

lemma sample_review_seen:
  "map_option seen sample_review = Some (Success, [(''Failed'', None), (''Reviewed'', None)], [Some ''Reviewed''])"
  by code_simp

lemma sample_review_run: "\<exists>d'. sample_review = Some (Success, d')"
proof -
  from sample_review_seen obtain p where p: "sample_review = Some p" "fst (seen p) = Success" by auto
  then show ?thesis by (cases p) (simp add: seen_def)
qed



theorem embargo_holds_mail_witness: "\<exists>d'. sample_review = Some (Success, d') \<and> outbox d' = []"
proof -
  obtain d' where d: "sample_review = Some (Success, d')" using sample_review_run by blast
  have e: "\<forall>k. embargoed_at (at_now (sample_env k)) (jb_embargo sample_job)"
    by (simp add: sample_env_def sample_attempt_def sample_job_def embargoed_at_def)
  have "outbox sample_db = []" by code_simp
  with embargo_holds_mail [OF e d] d show ?thesis by simp
qed

theorem findings_lost_witness:
  "get_array (jindex sample_output ''review'') ''findings'' \<noteq> Some [] \<and>
   (\<exists>d'. sample_review = Some (Success, d') \<and> findings d' = [])"
proof -
  obtain d' where d: "sample_review = Some (Success, d')" using sample_review_run by blast
  have "''server_id'' \<notin> set (finding_columns sample_db)" "findings sample_db = []"
    "get_array (jindex sample_output ''review'') ''findings'' \<noteq> Some []" by code_simp+
  with findings_lost [OF _ d] d show ?thesis by simp
qed

text \<open>A request whose answer used one token, then the result.\<close>

definition sample_answer :: "AiError + AiResponse \<Rightarrow> Answer" where
  "sample_answer x = \<lparr>an_took = 0, an_result = x\<rparr>"

definition one_token :: AiResponse where
  "one_token = \<lparr>rs_content = None, rs_thought = None, rs_thought_signature = None, rs_tool_calls = None,
     rs_usage = Some \<lparr>us_prompt_tokens = 1, us_completion_tokens = 1, us_total_tokens = 2,
       us_cached_tokens = Some 1\<rparr>\<rparr>"

definition sample_request :: AiRequest where
  "sample_request = \<lparr>rq_system = None, rq_messages = [], rq_tools = None, rq_temperature = None,
     rq_response_format = None, rq_context_tag = None\<rparr>"

definition request_parser :: json_parser where
  "request_parser l =
     Some (JObj (if l = ''q'' then [(''type'', JStr ''ai_request'')] else [(''patchset_id'', JInt 1)]))"

definition fresh_talk :: Talk where
  "fresh_talk = \<lparr>tk_clock = \<lparr>ck_now = 0, ck_deadline = 5 * nanos, ck_quota = None\<rparr>, tk_started = False,
     tk_total = 0, tk_output = 0, tk_replies = [], tk_db = sample_db\<rparr>"

abbreviation sample_talk :: "((string + json option) \<times> Talk) option" where
  "sample_talk \<equiv> converse request_parser (\<lambda>_. Some sample_request) sample_settings 1
     [(0, Line ''q'' [sample_answer (Inr one_token)] True), (0, Line ''r'' [] True)] fresh_talk"

theorem budget_respected_witness:
  "\<exists>r t'. sample_talk = Some (Inr r, t') \<and> within_budget sample_settings t' \<and> tk_total t' = 1"
proof -
  have s: "map_option (\<lambda>(r, t). (isl r, tk_total t)) sample_talk = Some (False, 1)"
    "within_budget sample_settings fresh_talk" by code_simp+
  from s(1) obtain x t' where x: "sample_talk = Some (x, t')" "\<not> isl x" "tk_total t' = 1" by auto
  from x(2) obtain r where "x = Inr r" by (cases x) auto
  with x budget_respected [OF _ s(2)] show ?thesis by blast
qed

definition unavailable :: "nat \<Rightarrow> Answer" where
  "unavailable k = sample_answer (Inl (ProviderError ''503'' (Transient 0)))"

theorem transient_errors_end_witness:
  "ask 0 (List.map unavailable [0..<6]) (tk_clock fresh_talk) \<noteq> None"
proof (rule transient_errors_end)
  show "ck_quota (tk_clock fresh_talk) = None" by (simp add: fresh_talk_def)
  show "\<forall>a\<in>set (List.map unavailable [0..<6]). \<forall>e. an_result a = Inl e \<longrightarrow> (\<forall>r. classify_ai_error e \<noteq> RateLimit r)"
    by (auto simp: unavailable_def sample_answer_def)
  show "(ck_deadline (tk_clock fresh_talk) - ck_now (tk_clock fresh_talk)) div nanos
      < length (List.map unavailable [0..<6])"
    by (simp add: fresh_talk_def nanos_def)
qed

theorem rate_limits_never_end_witness:
  "ask 0 (replicate 1000 (sample_answer (Inl (ProviderError ''429'' (RateLimit (60 * nanos)))))) (tk_clock fresh_talk) = None"
  by (rule rate_limits_never_end) (auto simp: sample_answer_def fresh_talk_def)

end
