(* ===== verification/Review_Jobs.thy ===== *)
theory Review_Jobs
  imports Review_Tool "HOL-Library.Multiset"
begin

text \<open>
  What decides which patches of a patchset are reviewed, and how the reviews are shared out: the
  schedule of \<open>src/settings.rs\<close> and \<open>src/reviewer.rs\<close>, the skip and only filters, the size
  limits, and the workers that take jobs from a common queue.
\<close>

subsection \<open>The schedule\<close>

record ScheduleSettings =
  start_hour :: nat
  end_hour :: nat
  timezone :: "string option"

text \<open>\<open>tz_ok\<close> tells whether a name is a time zone of \<open>chrono_tz\<close>.\<close>

definition validate :: "(string \<Rightarrow> bool) \<Rightarrow> ScheduleSettings \<Rightarrow> string + unit" where
  "validate tz_ok sc =
     (if 23 < start_hour sc
      then Inl (''start_hour '' @ show_nat (start_hour sc) @ '' is out of range, must be 0-23'')
      else if 23 < end_hour sc
      then Inl (''end_hour '' @ show_nat (end_hour sc) @ '' is out of range, must be 0-23'')
      else case timezone sc of
        None \<Rightarrow> Inr ()
      | Some tz \<Rightarrow>
          if tz_ok tz then Inr ()
          else Inl (''invalid timezone '' @ [CHR 0x27] @ tz @ [CHR 0x27] @
                 '', use IANA names like '' @ [CHR 0x27] @ ''Asia/Shanghai'' @ [CHR 0x27] @ '' or '' @
                 [CHR 0x27] @ ''US/Pacific'' @ [CHR 0x27]))"

definition is_hour_in_schedule :: "ScheduleSettings \<Rightarrow> nat \<Rightarrow> bool" where
  "is_hour_in_schedule sc current_hour =
     (if start_hour sc \<le> end_hour sc
      then start_hour sc \<le> current_hour \<and> current_hour < end_hour sc
      else start_hour sc \<le> current_hour \<or> current_hour < end_hour sc)"

text \<open>\<open>hour_in\<close> is the hour now in a time zone, \<open>local_hour\<close> that of the machine.\<close>

definition get_current_hour ::
  "(string \<Rightarrow> bool) \<Rightarrow> (string \<Rightarrow> nat) \<Rightarrow> nat \<Rightarrow> ScheduleSettings \<Rightarrow> nat" where
  "get_current_hour tz_ok hour_in local_hour sc =
     (case timezone sc of
        Some tz \<Rightarrow> if tz_ok tz then hour_in tz else local_hour
      | None \<Rightarrow> local_hour)"

definition should_process_reviews_now ::
  "(string \<Rightarrow> bool) \<Rightarrow> (string \<Rightarrow> nat) \<Rightarrow> nat \<Rightarrow> ScheduleSettings option \<Rightarrow> bool" where
  "should_process_reviews_now tz_ok hour_in local_hour schedule =
     (case schedule of
        Some sc \<Rightarrow> is_hour_in_schedule sc (get_current_hour tz_ok hour_in local_hour sc)
      | None \<Rightarrow> True)"

subsection \<open>Filters on subjects\<close>

text \<open>A filter is a glob; \<open>compile_glob\<close> turns it into a regular expression over the whole
  subject. Every escaped character stands for itself, and so does any other one: none of them is
  special outside a class, so the expression always compiles.\<close>

definition glob_char :: "char \<Rightarrow> re" where
  "glob_char c =
     (if c = CHR ''*'' then Star True (Cl AnyChar)
      else if c = CHR ''?'' then Cl AnyChar
      else Cl (Lit c))"

fun glob_tail :: "string \<Rightarrow> re" where
  "glob_tail [] = TextEnd"
| "glob_tail (c # p) = Seq (glob_char c) (glob_tail p)"

definition compile_glob :: "string \<Rightarrow> re" where
  "compile_glob pattern = Seq TextStart (glob_tail pattern)"

definition is_match :: "engine \<Rightarrow> re \<Rightarrow> string \<Rightarrow> bool" where
  "is_match rx r s \<longleftrightarrow> captures rx r s \<noteq> None"

subsection \<open>Which patches are reviewed\<close>

definition lines_changed :: "string \<Rightarrow> nat" where
  "lines_changed diff =
     length (filter (\<lambda>line.
       starts_with line ''+'' \<and> \<not> starts_with line ''+++'' \<or>
       starts_with line ''-'' \<and> \<not> starts_with line ''---'') (lines diff))"

definition should_skip ::
  "engine \<Rightarrow> nat \<Rightarrow> nat \<Rightarrow> string list \<Rightarrow> string list \<Rightarrow> string \<Rightarrow> string \<Rightarrow> bool" where
  "should_skip rx max_lines max_files skip_filters only_filters subject diff \<longleftrightarrow>
     (\<exists>f\<in>set skip_filters. is_match rx (compile_glob f) subject) \<or>
     only_filters \<noteq> [] \<and> \<not> (\<exists>f\<in>set only_filters. is_match rx (compile_glob f) subject) \<or>
     max_lines < lines_changed diff \<or>
     max_files < length (remdups (extract_files_from_diff diff))"

subsection \<open>The filters as globs\<close>

text \<open>What a glob means: \<open>*\<close> is any text without a line feed, \<open>?\<close> any character but a line
  feed.\<close>

fun glob :: "string \<Rightarrow> string \<Rightarrow> bool" where
  "glob [] s \<longleftrightarrow> s = []"
| "glob (c # p) [] \<longleftrightarrow> c = CHR ''*'' \<and> glob p []"
| "glob (c # p) (x # s) \<longleftrightarrow>
     (if c = CHR ''*'' then glob p (x # s) \<or> x \<noteq> newline \<and> glob (c # p) s
      else if c = CHR ''?'' then x \<noteq> newline \<and> glob p s
      else x = c \<and> glob p s)"

inductive_simps matches_end_iff: "matches TextEnd s i j"
inductive_simps matches_start_iff: "matches TextStart s i j"

lemma star_class_step:
  "i < length s \<Longrightarrow> in_class c (s ! i) \<Longrightarrow> matches (Star g (Cl c)) s (Suc i) k \<Longrightarrow> matches (Star g (Cl c)) s i k"
  by (rule m_star [OF m_class lessI])

lemma glob_star:
  "(\<exists>j. matches (Star True (Cl AnyChar)) s i j \<and> Q j) \<longleftrightarrow>
     i \<le> length s \<and> (Q i \<or> i < length s \<and> s ! i \<noteq> newline \<and>
       (\<exists>j. matches (Star True (Cl AnyChar)) s (Suc i) j \<and> Q j))"
  (is "?l \<longleftrightarrow> ?r")
proof
  assume ?l
  then obtain j where j: "matches (Star True (Cl AnyChar)) s i j" "Q j" by blast
  from j(1) show ?r
  proof (cases rule: matches.cases)
    case m_star0
    with j(2) show ?r by simp
  next
    case (m_star j')
    from m_star(1) have "i < length s" "s ! i \<noteq> newline" "j' = Suc i" by (simp_all add: matches_class_iff)
    with m_star(3) j(2) show ?r by auto
  qed
next
  assume ?r
  then show ?l using m_star0 star_class_step [of i s AnyChar True] by fastforce
qed

lemma glob_star_text:
  "i \<le> length s \<Longrightarrow> (\<exists>j. matches (Star True (Cl AnyChar)) s i j \<and> glob p (drop j s)) \<longleftrightarrow>
     glob (CHR ''*'' # p) (drop i s)"
proof (induction "length s - i" arbitrary: i)
  case 0
  then show ?case using glob_star [of s i "\<lambda>j. glob p (drop j s)"] by simp
next
  case (Suc n)
  then have i: "i < length s" by simp
  have d: "drop i s = s ! i # drop (Suc i) s" using i by (simp add: Cons_nth_drop_Suc)
  have g: "glob (CHR ''*'' # p) (drop i s) \<longleftrightarrow>
      glob p (drop i s) \<or> s ! i \<noteq> newline \<and> glob (CHR ''*'' # p) (drop (Suc i) s)"
    unfolding d by simp
  have "(\<exists>j. matches (Star True (Cl AnyChar)) s (Suc i) j \<and> glob p (drop j s)) \<longleftrightarrow>
      glob (CHR ''*'' # p) (drop (Suc i) s)"
    using Suc.hyps(2) i by (intro Suc.hyps(1)) auto
  then show ?case using glob_star [of s i "\<lambda>j. glob p (drop j s)"] i g by simp
qed

lemma glob_tail_matches:
  "i \<le> length s \<Longrightarrow> matches (glob_tail p) s i j \<longleftrightarrow> j = length s \<and> glob p (drop i s)"
proof (induction p arbitrary: i)
  case Nil
  then show ?case by (auto simp: matches_end_iff)
next
  case (Cons c p)
  have step: "matches (Seq (Cl k) (glob_tail p)) s i j \<longleftrightarrow>
      i < length s \<and> in_class k (s ! i) \<and> j = length s \<and> glob p (drop (Suc i) s)" for k
    using Cons.IH [of "Suc i"] by (auto simp: matches_seq_iff matches_class_iff)
  have d: "i < length s \<Longrightarrow> drop i s = s ! i # drop (Suc i) s" by (simp add: Cons_nth_drop_Suc)
  have e: "\<not> i < length s \<Longrightarrow> drop i s = []" by simp
  show ?case
  proof (cases "c = CHR ''*''")
    case True
    have "matches (glob_tail (c # p)) s i j \<longleftrightarrow>
        (\<exists>k. matches (Star True (Cl AnyChar)) s i k \<and> matches (glob_tail p) s k j)"
      by (simp add: True glob_char_def matches_seq_iff)
    also have "\<dots> \<longleftrightarrow> (\<exists>k. matches (Star True (Cl AnyChar)) s i k \<and> j = length s \<and> glob p (drop k s))"
      using Cons.IH matches_bounds by blast
    also have "\<dots> \<longleftrightarrow> j = length s \<and> glob (c # p) (drop i s)"
      using glob_star_text [OF Cons.prems, of p] unfolding True by blast
    finally show ?thesis .
  next
    case False
    show ?thesis
    proof (cases "i < length s")
      case True
      with False show ?thesis
        unfolding glob_tail.simps glob_char_def d [OF True]
        by (auto simp: step)
    next
      case n: False
      with False show ?thesis
        unfolding glob_tail.simps glob_char_def e [OF n]
        by (auto simp: step)
    qed
  qed
qed

text \<open>A filter selects the subjects its glob describes: with any engine that keeps the
  documented promises, the regular expression built from the pattern matches exactly the texts that a
  direct reading of the pattern accepts.\<close>

theorem compile_glob_spec:
  assumes "regex_engine rx"
  shows "is_match rx (compile_glob pattern) subject \<longleftrightarrow> glob pattern subject"
proof -
  have "is_match rx (compile_glob pattern) subject \<longleftrightarrow> (\<exists>k j. matches (compile_glob pattern) subject k j)"
    using regex_engine.found_iff [OF assms, of "compile_glob pattern" subject 0]
    by (simp add: is_match_def captures_def)
  also have "\<dots> \<longleftrightarrow> (\<exists>j. matches (glob_tail pattern) subject 0 j)"
    by (auto simp: compile_glob_def matches_seq_iff matches_start_iff)
  also have "\<dots> \<longleftrightarrow> glob pattern subject" by (simp add: glob_tail_matches)
  finally show ?thesis .
qed

theorem compile_glob_spec_witness:
  "is_match backtrack (compile_glob ''*arm*: fix?'') ''[PATCH] arm64: fix2''"
  unfolding compile_glob_spec [OF backtrack.regex_engine_axioms] by code_simp

text \<open>The reviewer runs in the hours of its window and only then, a window over midnight
  included; a window whose ends are the same hour never opens.\<close>

theorem schedule_window:
  assumes "start_hour sc < 24" "end_hour sc < 24" "current_hour < 24"
  shows "is_hour_in_schedule sc current_hour \<longleftrightarrow>
    (current_hour + 24 - start_hour sc) mod 24 < (end_hour sc + 24 - start_hour sc) mod 24"
proof -
  have m: "x < 24 \<Longrightarrow> y < 24 \<Longrightarrow> (x + 24 - y) mod 24 = (if y \<le> x then x - y else x + 24 - y)" for x y :: nat
    by (auto simp: mod_if)
  show ?thesis
    unfolding m [OF assms(3,1)] m [OF assms(2,1)] is_hour_in_schedule_def using assms by auto
qed

theorem schedule_window_witness:
  "is_hour_in_schedule \<lparr>start_hour = 22, end_hour = 6, timezone = None\<rparr> 3"
  using schedule_window [of "\<lparr>start_hour = 22, end_hour = 6, timezone = None\<rparr>" 3] by simp

subsection \<open>The workers\<close>

record ValidJob =
  vj_patch_id :: int
  vj_index :: nat
  vj_commit_sha :: "string option"
  vj_diff :: string

text \<open>The main worker alone: the jobs in their order until the schedule closes. The result is the
  number of failures and whether it paused; \<open>None\<close>: a review does not return.\<close>

fun run_jobs ::
  "(ValidJob \<Rightarrow> db \<Rightarrow> (PatchResult \<times> db) option) \<Rightarrow> ValidJob list \<Rightarrow> db \<Rightarrow> (nat \<times> bool \<times> db) option" where
  "run_jobs process [] d = Some (0, False, d)"
| "run_jobs process (j # js) d =
     (case process j d of
        None \<Rightarrow> None
      | Some (PausedBySchedule, d') \<Rightarrow> Some (0, True, d')
      | Some (res, d') \<Rightarrow>
          map_option (\<lambda>(failed_count, paused, d''). (failed_count + (if res = Success then 0 else 1), paused, d''))
            (run_jobs process js d'))"

text \<open>With helpers, the loads of the flag, the pops of the queue and the reviews interleave. A
  worker is about to load the flag, has found it unset, works on a job, or has left its loop; the
  main worker first starts the helpers. Each worker counts its failures. The log of results is not in
  the code.\<close>

datatype phase = Spawning | Ready | Checked | Busy ValidJob | Stopped

record pool =
  po_queue :: "ValidJob list"
  po_workers :: "(phase \<times> nat) list"
  po_paused :: bool
  po_log :: "(ValidJob \<times> PatchResult) list"

definition pool_start :: "bool \<Rightarrow> ValidJob list \<Rightarrow> pool" where
  "pool_start with_helpers jobs =
     \<lparr>po_queue = jobs, po_workers = [(if with_helpers then Spawning else Ready, 0)], po_paused = False,
      po_log = []\<rparr>"

definition set_worker :: "nat \<Rightarrow> phase \<times> nat \<Rightarrow> pool \<Rightarrow> pool" where
  "set_worker i w p = p\<lparr>po_workers := (po_workers p)[i := w]\<rparr>"

text \<open>\<open>spawn\<close>: a permit was free; the helpers are the workers after the first, and no more are
  started than jobs are left. A review is one step from taken to done, which comes when the review returns; that it
  does is a condition of what is said about the end of the pool. A helper that panics, whose error the code drops, is
  not modelled.\<close>

inductive pool_step :: "pool \<Rightarrow> pool \<Rightarrow> bool" where
  spawn: "po_workers p = (Spawning, n) # ws \<Longrightarrow>
    pool_step p (p\<lparr>po_workers :=
      (if length (po_queue p) \<le> Suc (length ws) then Ready else Spawning, n) # ws @ [(Ready, 0)]\<rparr>)"
| no_permit: "po_workers p = (Spawning, n) # ws \<Longrightarrow> pool_step p (p\<lparr>po_workers := (Ready, n) # ws\<rparr>)"
| leave: "i < length (po_workers p) \<Longrightarrow> po_workers p ! i = (Ready, n) \<Longrightarrow> po_paused p \<Longrightarrow>
    pool_step p (set_worker i (Stopped, n) p)"
| check: "i < length (po_workers p) \<Longrightarrow> po_workers p ! i = (Ready, n) \<Longrightarrow> \<not> po_paused p \<Longrightarrow>
    pool_step p (set_worker i (Checked, n) p)"
| take_job: "i < length (po_workers p) \<Longrightarrow> po_workers p ! i = (Checked, n) \<Longrightarrow> po_queue p = j # js \<Longrightarrow>
    pool_step p (set_worker i (Busy j, n) (p\<lparr>po_queue := js\<rparr>))"
| no_job: "i < length (po_workers p) \<Longrightarrow> po_workers p ! i = (Checked, n) \<Longrightarrow> po_queue p = [] \<Longrightarrow>
    pool_step p (set_worker i (Stopped, n) p)"
| reviewed: "i < length (po_workers p) \<Longrightarrow> po_workers p ! i = (Busy j, n) \<Longrightarrow>
    pool_step p (set_worker i (Ready, n) (p\<lparr>po_log := (j, Success) # po_log p\<rparr>))"
| failure: "i < length (po_workers p) \<Longrightarrow> po_workers p ! i = (Busy j, n) \<Longrightarrow>
    pool_step p (set_worker i (Ready, Suc n) (p\<lparr>po_log := (j, ReviewFailed) # po_log p\<rparr>))"
| pause: "i < length (po_workers p) \<Longrightarrow> po_workers p ! i = (Busy j, n) \<Longrightarrow>
    pool_step p (set_worker i (Stopped, n)
      (p\<lparr>po_paused := True, po_log := (j, PausedBySchedule) # po_log p\<rparr>))"

definition all_stopped :: "pool \<Rightarrow> bool" where
  "all_stopped p \<longleftrightarrow> (\<forall>w\<in>set (po_workers p). fst w = Stopped)"

definition failed_patches :: "pool \<Rightarrow> nat" where
  "failed_patches p = sum_list (List.map snd (po_workers p))"

subsection \<open>What the workers do\<close>

fun busy_job :: "phase \<times> nat \<Rightarrow> ValidJob multiset" where
  "busy_job (Busy j, n) = {#j#}"
| "busy_job _ = {#}"

definition busy_jobs :: "pool \<Rightarrow> ValidJob multiset" where
  "busy_jobs p = sum_list (List.map busy_job (po_workers p))"

text \<open>A sum over a list after one entry changed.\<close>

lemma sum_list_set_mset:
  fixes f :: "'a \<Rightarrow> 'b multiset"
  shows "i < length xs \<Longrightarrow>
    sum_list (List.map f (xs[i := x])) + f (xs ! i) = sum_list (List.map f xs) + f x"
  by (induction xs arbitrary: i) (auto simp: ac_simps split: nat.split)

lemma sum_list_set_nat:
  fixes f :: "'a \<Rightarrow> nat"
  shows "i < length xs \<Longrightarrow>
    sum_list (List.map f (xs[i := x])) + f (xs ! i) = sum_list (List.map f xs) + f x"
  by (induction xs arbitrary: i) (auto simp: ac_simps split: nat.split)

definition pool_inv :: "ValidJob list \<Rightarrow> pool \<Rightarrow> bool" where
  "pool_inv jobs p \<longleftrightarrow>
     mset jobs = mset (po_queue p) + busy_jobs p + mset (List.map fst (po_log p)) \<and>
     failed_patches p = length (filter (\<lambda>e. snd e = ReviewFailed) (po_log p)) \<and>
     (po_paused p \<longleftrightarrow> PausedBySchedule \<in> snd ` set (po_log p)) \<and>
     ((\<exists>w\<in>set (po_workers p). fst w = Stopped) \<longrightarrow> po_paused p \<or> po_queue p = []) \<and>
     po_workers p \<noteq> []"

lemma pool_inv_start: "pool_inv jobs (pool_start h jobs)"
  by (simp add: pool_inv_def pool_start_def busy_jobs_def failed_patches_def)

lemma stopped_set: "w \<in> set (ws[i := x]) \<Longrightarrow> w = x \<or> w \<in> set ws"
  using set_update_subset_insert by fastforce

lemma set_worker_simps [simp]:
  "po_queue (set_worker i w p) = po_queue p" "po_paused (set_worker i w p) = po_paused p"
  "po_log (set_worker i w p) = po_log p" "po_workers (set_worker i w p) = (po_workers p)[i := w]"
  by (simp_all add: set_worker_def)

lemma worker_sums:
  assumes "i < length (po_workers p)" "po_workers p ! i = (ph, n)" "po_workers p' = (po_workers p)[i := (ph', n')]"
  shows "busy_jobs p' + busy_job (ph, n) = busy_jobs p + busy_job (ph', n')"
    and "failed_patches p' + n = failed_patches p + n'"
  using sum_list_set_mset [OF assms(1), of busy_job "(ph', n')"] sum_list_set_nat [OF assms(1), of snd "(ph', n')"]
    assms(2,3) by (simp_all add: busy_jobs_def failed_patches_def)

lemma pool_inv_step: "pool_step p p' \<Longrightarrow> pool_inv jobs p \<Longrightarrow> pool_inv jobs p'"
proof (induction rule: pool_step.induct)
  case (spawn p n ws)
  then show ?case by (auto simp: pool_inv_def busy_jobs_def failed_patches_def)
next
  case (no_permit p n ws)
  then show ?case by (auto simp: pool_inv_def busy_jobs_def failed_patches_def)
next
  case (leave i p n)
  then show ?case using worker_sums [OF leave(1,2), of "set_worker i (Stopped, n) p" Stopped n]
    by (auto simp: pool_inv_def)
next
  case (check i p n)
  then show ?case using worker_sums [OF check(1,2), of "set_worker i (Checked, n) p" Checked n]
    by (fastforce simp: pool_inv_def dest: stopped_set)
next
  case (take_job i p n j js)
  then show ?case
    using worker_sums [OF take_job(1,2), of "set_worker i (Busy j, n) (p\<lparr>po_queue := js\<rparr>)" "Busy j" n]
    by (auto simp: pool_inv_def dest: stopped_set)
next
  case (no_job i p n)
  then show ?case using worker_sums [OF no_job(1,2), of "set_worker i (Stopped, n) p" Stopped n]
    by (auto simp: pool_inv_def)
next
  case (reviewed i p j n)
  then show ?case
    using worker_sums [OF reviewed(1,2), of "set_worker i (Ready, n) (p\<lparr>po_log := (j, Success) # po_log p\<rparr>)" Ready n]
    by (auto simp: pool_inv_def dest: stopped_set)
next
  case (failure i p j n)
  then show ?case
    using worker_sums [OF failure(1,2),
        of "set_worker i (Ready, Suc n) (p\<lparr>po_log := (j, ReviewFailed) # po_log p\<rparr>)" Ready "Suc n"]
    by (auto simp: pool_inv_def dest: stopped_set)
next
  case (pause i p j n)
  then show ?case
    using worker_sums [OF pause(1,2), of "set_worker i (Stopped, n)
      (p\<lparr>po_paused := True, po_log := (j, PausedBySchedule) # po_log p\<rparr>)" Stopped n]
    by (auto simp: pool_inv_def)
qed

lemma pool_inv_reach: "pool_step\<^sup>*\<^sup>* p p' \<Longrightarrow> pool_inv jobs p \<Longrightarrow> pool_inv jobs p'"
  by (induction rule: rtranclp_induct) (auto intro: pool_inv_step)

lemma busy_none: "all_stopped p \<Longrightarrow> busy_jobs p = {#}"
proof -
  have "\<forall>w\<in>set ws. fst w = Stopped \<Longrightarrow> sum_list (List.map busy_job ws) = {#}" for ws :: "(phase \<times> nat) list"
  proof (induction ws)
    case (Cons w ws)
    then show ?case by (cases w) simp
  qed simp
  then show "all_stopped p \<Longrightarrow> ?thesis" by (simp add: all_stopped_def busy_jobs_def)
qed

text \<open>C19. The outcome of a patchset does not depend on how its patches are shared out: when all
  workers have left, and the schedule did not close, each job was reviewed exactly once and the
  failures counted are the failed reviews; and when it did close, no job was lost or reviewed
  twice.\<close>

theorem pool_outcome:
  assumes "pool_step\<^sup>*\<^sup>* (pool_start with_helpers jobs) p" "all_stopped p"
  shows "failed_patches p = length (filter (\<lambda>e. snd e = ReviewFailed) (po_log p)) \<and>
    (\<not> po_paused p \<longrightarrow> mset (List.map fst (po_log p)) = mset jobs \<and>
      (\<forall>e\<in>set (po_log p). snd e \<noteq> PausedBySchedule)) \<and>
    mset (List.map fst (po_log p)) + mset (po_queue p) = mset jobs"
proof -
  have i: "pool_inv jobs p" by (rule pool_inv_reach [OF assms(1) pool_inv_start])
  obtain w where "w \<in> set (po_workers p)" "fst w = Stopped"
    using i assms(2) by (cases "po_workers p") (auto simp: pool_inv_def all_stopped_def)
  with i have "po_paused p \<or> po_queue p = []" by (auto simp: pool_inv_def)
  with i busy_none [OF assms(2)] show ?thesis by (auto simp: pool_inv_def image_iff)
qed

subsection \<open>The workers come to an end\<close>

text \<open>A main worker that still starts helpers weighs more than the helpers it can still start.\<close>

fun weight :: "nat \<Rightarrow> phase \<Rightarrow> nat" where
  "weight k Spawning = 3 * Suc k + 2"
| "weight k Ready = 2"
| "weight k Checked = 1"
| "weight k (Busy j) = 3"
| "weight k Stopped = 0"

definition pool_size :: "pool \<Rightarrow> nat" where
  "pool_size p = 3 * length (po_queue p) + sum_list (List.map
     (\<lambda>w. weight (length (po_queue p) - (length (po_workers p) - 1)) (fst w)) (po_workers p))"

lemma weight_mono: "k \<le> k' \<Longrightarrow> weight k ph \<le> weight k' ph"
  by (cases ph) simp_all

lemma weights_mono: "k \<le> k' \<Longrightarrow> sum_list (List.map (\<lambda>w. weight k (fst w)) ws) \<le>
    sum_list (List.map (\<lambda>w. weight k' (fst w)) ws)"
  by (induction ws) (auto intro: add_mono weight_mono)

lemma worker_weight:
  assumes "i < length (po_workers p)" "po_workers p ! i = (ph, n)" "po_workers p' = (po_workers p)[i := (ph', n')]"
    "po_queue p' = po_queue p" "weight 0 ph' < weight 0 ph" "ph' \<noteq> Spawning" "ph \<noteq> Spawning"
  shows "pool_size p' < pool_size p"
proof -
  define k where "k = length (po_queue p) - (length (po_workers p) - 1)"
  have w: "weight k ph' < weight k ph" using assms(5-7) by (cases ph; cases ph') simp_all
  from sum_list_set_nat [OF assms(1), of "\<lambda>w. weight k (fst w)" "(ph', n')"] assms(2)
  have "sum_list (List.map (\<lambda>w. weight k (fst w)) ((po_workers p)[i := (ph', n')])) + weight k ph =
      sum_list (List.map (\<lambda>w. weight k (fst w)) (po_workers p)) + weight k ph'" by simp
  with w have "sum_list (List.map (\<lambda>w. weight k (fst w)) ((po_workers p)[i := (ph', n')])) <
      sum_list (List.map (\<lambda>w. weight k (fst w)) (po_workers p))" by linarith
  then show ?thesis using assms(3,4) by (simp add: pool_size_def k_def)
qed

lemma take_weight:
  assumes "i < length (po_workers p)" "po_workers p ! i = (Checked, n)" "po_queue p = j # js"
  shows "pool_size (set_worker i (Busy j, n) (p\<lparr>po_queue := js\<rparr>)) < pool_size p"
proof -
  define k where "k = length (po_queue p) - (length (po_workers p) - 1)"
  define k' where "k' = length js - (length (po_workers p) - 1)"
  let ?s = "\<lambda>k ws. sum_list (List.map (\<lambda>w. weight k (fst w)) ws)"
  have "?s k' ((po_workers p)[i := (Busy j, n)]) + 1 = ?s k' (po_workers p) + 3"
    using sum_list_set_nat [OF assms(1), of "\<lambda>w. weight k' (fst w)" "(Busy j, n)"] assms(2) by simp
  moreover have "?s k' (po_workers p) \<le> ?s k (po_workers p)"
    using assms(3) by (intro weights_mono) (simp add: k_def k'_def)
  ultimately have "3 * length js + ?s k' ((po_workers p)[i := (Busy j, n)]) < 3 * length (po_queue p) + ?s k (po_workers p)"
    using assms(3) by simp
  then show ?thesis by (simp add: pool_size_def k_def k'_def)
qed

lemma spawn_weight:
  assumes "po_workers p = (Spawning, n) # ws"
  shows "pool_size (p\<lparr>po_workers :=
      (if length (po_queue p) \<le> Suc (length ws) then Ready else Spawning, n) # ws @ [(Ready, 0)]\<rparr>) < pool_size p"
proof -
  let ?s = "\<lambda>k. sum_list (List.map (\<lambda>w. weight k (fst w)) ws)"
  have m: "?s (length (po_queue p) - Suc (length ws)) \<le> ?s (length (po_queue p) - length ws)"
    by (rule weights_mono) simp
  show ?thesis
  proof (cases "length (po_queue p) \<le> Suc (length ws)")
    case True
    with m have "?s 0 \<le> ?s (length (po_queue p) - length ws)" by simp
    with True show ?thesis by (simp add: pool_size_def assms)
  next
    case False
    then have "3 * (length (po_queue p) - length ws) = 3 * (length (po_queue p) - Suc (length ws)) + 3" by simp
    with False m show ?thesis by (simp add: pool_size_def assms)
  qed
qed

lemma step_weight: "pool_step p p' \<Longrightarrow> pool_size p' < pool_size p"
proof (induction rule: pool_step.induct)
  case (spawn p n ws)
  then show ?case by (rule spawn_weight)
next
  case (no_permit p n ws)
  then show ?case by (simp add: pool_size_def)
next
  case (take_job i p n j js)
  then show ?case by (rule take_weight)
next
  case (reviewed i p j n)
  show ?case by (rule worker_weight [where ph' = Ready and n' = n, OF reviewed]) simp_all
next
  case (failure i p j n)
  show ?case by (rule worker_weight [where ph' = Ready and n' = "Suc n", OF failure]) simp_all
next
  case (pause i p j n)
  show ?case by (rule worker_weight [where ph' = Stopped and n' = n, OF pause]) simp_all
next
  case (leave i p n)
  show ?case by (rule worker_weight [where ph' = Stopped and n' = n, OF leave(1,2)]) simp_all
next
  case (check i p n)
  show ?case by (rule worker_weight [where ph' = Checked and n' = n, OF check(1,2)]) simp_all
next
  case (no_job i p n)
  show ?case by (rule worker_weight [where ph' = Stopped and n' = n, OF no_job(1,2)]) simp_all
qed

text \<open>Only the main worker starts helpers.\<close>

definition one_spawner :: "pool \<Rightarrow> bool" where
  "one_spawner p \<longleftrightarrow> po_workers p \<noteq> [] \<and> (\<forall>w\<in>set (tl (po_workers p)). fst w \<noteq> Spawning)"

lemma one_spawner_set: "one_spawner p \<Longrightarrow> fst w \<noteq> Spawning \<Longrightarrow> one_spawner (set_worker i w p)"
  by (cases "po_workers p"; cases i) (auto simp: one_spawner_def dest: stopped_set)

lemma one_spawner_simps [simp]:
  "one_spawner (p\<lparr>po_queue := q\<rparr>) = one_spawner p" "one_spawner (p\<lparr>po_log := l\<rparr>) = one_spawner p"
  "one_spawner (p\<lparr>po_paused := b\<rparr>) = one_spawner p"
  by (simp_all add: one_spawner_def)

lemma one_spawner_step: "pool_step p p' \<Longrightarrow> one_spawner p \<Longrightarrow> one_spawner p'"
proof (induction rule: pool_step.induct)
  case (spawn p n ws)
  then show ?case by (auto simp: one_spawner_def)
next
  case (no_permit p n ws)
  then show ?case by (auto simp: one_spawner_def)
qed (simp_all add: one_spawner_set)

lemma one_spawner_start: "one_spawner (pool_start h jobs)"
  by (simp add: pool_start_def one_spawner_def)

text \<open>Not every review returns: \<open>returns j\<close> tells whether the one of \<open>j\<close> does. The steps that are then possible are
  those that do not end another one.\<close>

definition returning_step :: "(ValidJob \<Rightarrow> bool) \<Rightarrow> pool \<Rightarrow> pool \<Rightarrow> bool" where
  "returning_step returns p p' \<longleftrightarrow>
     pool_step p p' \<and> (\<forall>j res. po_log p' = (j, res) # po_log p \<longrightarrow> returns j)"

lemma worker_moves:
  assumes "one_spawner p" "w \<in> set (po_workers p)" "fst w \<noteq> Stopped" "\<And>j. fst w = Busy j \<Longrightarrow> returns j"
  shows "\<exists>p'. returning_step returns p p'"
proof -
  obtain i where i: "i < length (po_workers p)" "po_workers p ! i = w"
    using assms(2) by (auto simp: in_set_conv_nth)
  obtain ph n where w: "po_workers p ! i = (ph, n)" by fastforce
  have quiet: "\<exists>p'. returning_step returns p p'" if "pool_step p p'" "po_log p' = po_log p" for p'
    using that by (auto simp: returning_step_def)
  show ?thesis
  proof (cases ph)
    case Spawning
    have "i = 0"
    proof (rule ccontr)
      assume "i \<noteq> 0"
      then have "po_workers p ! i \<in> set (tl (po_workers p))"
        using i(1) by (cases "po_workers p"; cases i) auto
      with assms(1) w Spawning show False by (force simp: one_spawner_def)
    qed
    with i w Spawning obtain ws where "po_workers p = (Spawning, n) # ws" by (cases "po_workers p") auto
    from quiet [OF pool_step.no_permit [OF this]] show ?thesis by simp
  next
    case Ready
    with i(1) w quiet [OF pool_step.leave [of i p n]] quiet [OF pool_step.check [of i p n]] show ?thesis
      by (cases "po_paused p") (simp_all add: set_worker_def)
  next
    case Checked
    with i(1) w quiet [OF pool_step.take_job [of i p n]] quiet [OF pool_step.no_job [of i p n]] show ?thesis
      by (cases "po_queue p") (simp_all add: set_worker_def)
  next
    case (Busy j)
    with i w have "fst w = Busy j" by auto
    then have "returns j" by (rule assms(4))
    with i(1) w Busy pool_step.reviewed [of i p j n] show ?thesis
      by (auto simp: returning_step_def set_worker_def)
  next
    case Stopped
    with i w have "fst w = Stopped" by auto
    with assms(3) show ?thesis by simp
  qed
qed

text \<open>A worker leaves only when the schedule closed or nothing is left to take.\<close>

definition left_rightly :: "pool \<Rightarrow> bool" where
  "left_rightly p \<longleftrightarrow> ((\<exists>w\<in>set (po_workers p). fst w = Stopped) \<longrightarrow> po_paused p \<or> po_queue p = [])"

lemma left_set:
  "left_rightly p \<Longrightarrow> fst w \<noteq> Stopped \<or> po_paused p \<or> po_queue p = [] \<Longrightarrow> left_rightly (set_worker i w p)"
  by (auto simp: left_rightly_def dest!: set_update_subset_insert [THEN subsetD])

lemma left_step: "pool_step p p' \<Longrightarrow> left_rightly p \<Longrightarrow> left_rightly p'"
proof (induction rule: pool_step.induct)
  case (take_job i p n j js)
  then have "left_rightly (p\<lparr>po_queue := js\<rparr>)" by (auto simp: left_rightly_def)
  then show ?case by (rule left_set) simp
next
  case (reviewed i p j n)
  then have "left_rightly (p\<lparr>po_log := (j, Success) # po_log p\<rparr>)" by (simp add: left_rightly_def)
  then show ?case by (rule left_set) simp
next
  case (failure i p j n)
  then have "left_rightly (p\<lparr>po_log := (j, ReviewFailed) # po_log p\<rparr>)" by (simp add: left_rightly_def)
  then show ?case by (rule left_set) simp
next
  case (pause i p j n)
  then have "left_rightly (p\<lparr>po_paused := True, po_log := (j, PausedBySchedule) # po_log p\<rparr>)" by (simp add: left_rightly_def)
  then show ?case by (rule left_set) simp
next
  case (leave i p n)
  then show ?case by (intro left_set) simp_all
next
  case (check i p n)
  then show ?case by (intro left_set) simp_all
next
  case (no_job i p n)
  then show ?case by (intro left_set) simp_all
qed (auto simp: left_rightly_def)

text \<open>C20. The workers do a bounded number of steps, however they interleave, and never wait for each other: when
  nothing can happen any more, every worker has left or is in a review that does not return; and a worker leaves
  only when the schedule closed or no job is left to take. So when every review returns (\<open>returns\<close> holds of every
  job), the workers always come to an end; a review that never returns holds up the worker it is with and no
  other. A panic of a worker is not modelled.\<close>

theorem pool_ends:
  "wf {(p', p). pool_step p p'} \<and>
   (\<forall>p. pool_step\<^sup>*\<^sup>* (pool_start with_helpers jobs) p \<longrightarrow>
      ((\<nexists>p'. returning_step returns p p') \<longrightarrow>
         (\<forall>w\<in>set (po_workers p). fst w = Stopped \<or> (\<exists>j. fst w = Busy j \<and> \<not> returns j))) \<and>
      ((\<exists>w\<in>set (po_workers p). fst w = Stopped) \<longrightarrow> po_paused p \<or> po_queue p = []))"
proof (intro conjI allI impI)
  show "wf {(p', p). pool_step p p'}"
    by (rule wf_subset [OF wf_measure [of pool_size]]) (auto dest: step_weight)
next
  fix p assume r: "pool_step\<^sup>*\<^sup>* (pool_start with_helpers jobs) p" and stuck: "\<nexists>p'. returning_step returns p p'"
  from r have "one_spawner p"
    by (induction rule: rtranclp_induct) (simp_all add: one_spawner_start one_spawner_step)
  from worker_moves [OF this] stuck
  show "\<forall>w\<in>set (po_workers p). fst w = Stopped \<or> (\<exists>j. fst w = Busy j \<and> \<not> returns j)" by blast
next
  fix p assume r: "pool_step\<^sup>*\<^sup>* (pool_start with_helpers jobs) p" and w: "\<exists>w\<in>set (po_workers p). fst w = Stopped"
  have "left_rightly (pool_start with_helpers jobs)" by (simp add: left_rightly_def pool_start_def)
  with r have "left_rightly p" by (induction rule: rtranclp_induct) (simp_all add: left_step)
  with w show "po_paused p \<or> po_queue p = []" by (simp add: left_rightly_def)
qed

subsection \<open>The main worker alone\<close>

text \<open>One turn of a worker that is alone.\<close>

lemma alone_takes:
  assumes "po_workers p = [(Ready, n)]" "po_queue p = j # js" "\<not> po_paused p"
  shows "pool_step\<^sup>*\<^sup>* p (p\<lparr>po_workers := [(Busy j, n)], po_queue := js\<rparr>)"
proof -
  let ?c = "set_worker 0 (Checked, n) p"
  have "pool_step p ?c" using assms by (intro pool_step.check) simp_all
  moreover have "pool_step ?c (set_worker 0 (Busy j, n) (?c\<lparr>po_queue := js\<rparr>))"
    using assms by (intro pool_step.take_job) simp_all
  moreover have "set_worker 0 (Busy j, n) (?c\<lparr>po_queue := js\<rparr>) = p\<lparr>po_workers := [(Busy j, n)], po_queue := js\<rparr>"
    using assms(1) by (simp add: set_worker_def)
  ultimately show ?thesis by (metis converse_rtranclp_into_rtranclp rtranclp.rtrancl_refl)
qed

lemma run_jobs_pool:
  assumes "run_jobs process js d = Some (m, paused, d')" "po_workers p = [(Ready, n)]" "po_queue p = js" "\<not> po_paused p"
  shows "\<exists>p'. pool_step\<^sup>*\<^sup>* p p' \<and> all_stopped p' \<and> po_paused p' = paused \<and> failed_patches p' = n + m"
  using assms
proof (induction js arbitrary: d m p n)
  case Nil
  let ?c = "set_worker 0 (Checked, n) p" and ?e = "p\<lparr>po_workers := [(Stopped, n)]\<rparr>"
  have "pool_step p ?c" using Nil by (intro pool_step.check) simp_all
  moreover have "pool_step ?c (set_worker 0 (Stopped, n) ?c)"
    using Nil by (intro pool_step.no_job) simp_all
  moreover have "set_worker 0 (Stopped, n) ?c = ?e" using Nil by (simp add: set_worker_def)
  ultimately have "pool_step\<^sup>*\<^sup>* p ?e" by (metis converse_rtranclp_into_rtranclp rtranclp.rtrancl_refl)
  with Nil show ?case by (intro exI [of _ ?e]) (simp add: all_stopped_def failed_patches_def)
next
  case (Cons j js)
  let ?b = "p\<lparr>po_workers := [(Busy j, n)], po_queue := js\<rparr>"
  have b: "pool_step\<^sup>*\<^sup>* p ?b" using Cons.prems(2-4) by (rule alone_takes)
  obtain res d1 where r: "process j d = Some (res, d1)"
    using Cons.prems(1) by (cases "process j d") auto
  show ?case
  proof (cases "res = PausedBySchedule")
    case True
    let ?e = "set_worker 0 (Stopped, n) (?b\<lparr>po_paused := True, po_log := (j, PausedBySchedule) # po_log ?b\<rparr>)"
    have "pool_step ?b ?e" by (rule pool_step.pause) simp_all
    with b have "pool_step\<^sup>*\<^sup>* p ?e" by (rule rtranclp.rtrancl_into_rtrancl)
    with True Cons.prems(1) r show ?thesis
      by (intro exI [of _ ?e]) (simp add: all_stopped_def failed_patches_def)
  next
    case False
    with Cons.prems(1) r obtain m' where m: "run_jobs process js d1 = Some (m', paused, d')"
        "m = m' + (if res = Success then 0 else 1)"
      by (cases res) auto
    define n' where "n' = n + (if res = Success then 0 else 1)"
    define e where "e = set_worker 0 (Ready, n') (?b\<lparr>po_log := (j, res) # po_log ?b\<rparr>)"
    have "pool_step ?b e"
    proof (cases res)
      case Success
      then show ?thesis using pool_step.reviewed [of 0 ?b j n] by (simp add: e_def n'_def)
    next
      case ReviewFailed
      then show ?thesis using pool_step.failure [of 0 ?b j n] by (simp add: e_def n'_def)
    next
      case PausedBySchedule
      with False show ?thesis by simp
    qed
    with b have s: "pool_step\<^sup>*\<^sup>* p e" by (rule rtranclp.rtrancl_into_rtrancl)
    have "po_workers e = [(Ready, n')]" "po_queue e = js" "\<not> po_paused e"
      using Cons.prems(4) by (simp_all add: e_def)
    from Cons.IH [OF m(1) this] obtain p' where
      "pool_step\<^sup>*\<^sup>* e p'" "all_stopped p'" "po_paused p' = paused" "failed_patches p' = n' + m'" by blast
    with s m(2) show ?thesis by (auto simp: n'_def intro: rtranclp_trans)
  qed
qed

text \<open>The main worker alone is one of the runs of the pool: what the plain loop over the jobs
  returns is an outcome the workers can have.\<close>

theorem run_jobs_refines:
  assumes "run_jobs process jobs d = Some (failed_count, paused, d')"
  shows "\<exists>p. pool_step\<^sup>*\<^sup>* (pool_start False jobs) p \<and> all_stopped p \<and> po_paused p = paused \<and>
    failed_patches p = failed_count"
  using run_jobs_pool [OF assms, of "pool_start False jobs" 0] by (simp add: pool_start_def)

subsection \<open>Samples of the pool\<close>

definition job_numbered :: "nat \<Rightarrow> ValidJob" where
  "job_numbered n = \<lparr>vj_patch_id = int n, vj_index = n, vj_commit_sha = None, vj_diff = []\<rparr>"

text \<open>The second review fails.\<close>

definition sample_process :: "ValidJob \<Rightarrow> db \<Rightarrow> (PatchResult \<times> db) option" where
  "sample_process j d = Some (if vj_index j = 2 then ReviewFailed else Success, d)"

abbreviation two_jobs :: "ValidJob list" where
  "two_jobs \<equiv> [job_numbered 1, job_numbered 2]"

lemma sample_jobs: "run_jobs sample_process two_jobs d = Some (1, False, d)"
  by (simp add: sample_process_def job_numbered_def)

theorem run_jobs_refines_witness:
  "\<exists>p. pool_step\<^sup>*\<^sup>* (pool_start False two_jobs) p \<and> all_stopped p \<and> \<not> po_paused p \<and> failed_patches p = 1"
  using run_jobs_refines [OF sample_jobs] by blast

theorem pool_outcome_witness:
  "\<exists>p. pool_step\<^sup>*\<^sup>* (pool_start False two_jobs) p \<and> all_stopped p \<and>
     mset (List.map fst (po_log p)) = mset two_jobs \<and> length (filter (\<lambda>e. snd e = ReviewFailed) (po_log p)) = 1"
proof -
  obtain p where p: "pool_step\<^sup>*\<^sup>* (pool_start False two_jobs) p" "all_stopped p" "\<not> po_paused p" "failed_patches p = 1"
    using run_jobs_pool [OF sample_jobs, of "pool_start False two_jobs" 0] by (auto simp: pool_start_def)
  with pool_outcome [OF p(1,2)] show ?thesis by metis
qed

theorem pool_ends_witness: "\<exists>p. returning_step (\<lambda>_. True) (pool_start True two_jobs) p"
proof (rule ccontr)
  assume "\<not> ?thesis"
  with pool_ends [of True two_jobs "\<lambda>_. True"]
  have "\<forall>w\<in>set (po_workers (pool_start True two_jobs)). fst w = Stopped" by auto
  then show False by (simp add: pool_start_def)
qed

end
