(* ===== verification/Utils.thy ===== *)
theory Utils
  imports Regex
begin

text \<open>
  The helpers of \<open>src/utils.rs\<close>: taking secrets out of texts that are logged, and repairing the
  JSON an AI writes, where texts may hold line feeds and other control characters that JSON does not
  allow there.
\<close>

subsection \<open>Secrets\<close>

definition word_chars :: "char list" where
  "word_chars = List.map char_of ([97..<123] @ [65..<91] @ [48..<58 :: nat]) @ ''_-''"

definition KEY_REGEX :: re where
  "KEY_REGEX = seqs [Group 1 (alts [word_ci ''key'', word_ci ''token'', word_ci ''secret'']), Cl (Lit CHR ''=''),
     Group 2 (Seq (Cl (OneOf word_chars)) (Star True (Cl (OneOf word_chars))))]"

definition URL_CRED_REGEX :: re where
  "URL_CRED_REGEX = seqs [word_lit ''://'',
     Group 1 (Seq (Cl (NotIn ''/:'')) (Star True (Cl (NotIn ''/:'')))), Cl (Lit CHR '':''),
     Group 2 (Seq (Cl (NotIn ''/@'')) (Star True (Cl (NotIn ''/@'')))), Cl (Lit CHR ''@'')]"

definition redact_secret :: "engine \<Rightarrow> string \<Rightarrow> string" where
  "redact_secret rx s =
     (let redacted_params = replace_all rx KEY_REGEX s
            (\<lambda>cs. (case group_text s cs 1 of Some k \<Rightarrow> k | None \<Rightarrow> []) @ ''=[REDACTED]'')
      in replace_all rx URL_CRED_REGEX redacted_params (\<lambda>_. ''://[REDACTED]:[REDACTED]@''))"

subsection \<open>JSON written by an AI\<close>

text \<open>Where the loop is: outside of a string, in one, or in one behind a backslash.\<close>

datatype scan = Outside | Inside | Escape

definition backslash :: char where "backslash = CHR 0x5C"
definition quote :: char where "quote = CHR 0x22"

definition hex_digit :: "int \<Rightarrow> char" where
  "hex_digit n = (if n < 10 then char_of (48 + n) else char_of (87 + n))"

definition escape_control :: "char \<Rightarrow> string" where
  "escape_control c =
     (if c = newline then [backslash, CHR ''n'']
      else if c = CHR 0x0D then [backslash, CHR ''r'']
      else if c = CHR 0x09 then [backslash, CHR ''t'']
      else [backslash] @ ''u00'' @ [hex_digit (code c div 16), hex_digit (code c mod 16)])"

definition is_control :: "char \<Rightarrow> bool" where
  "is_control c \<longleftrightarrow> code c < 32"

fun clean_from :: "scan \<Rightarrow> string \<Rightarrow> string" where
  "clean_from Escape [] = [backslash]"
| "clean_from _ [] = []"
| "clean_from Outside (c # s) = c # clean_from (if c = quote then Inside else Outside) s"
| "clean_from Escape (c # s) = backslash # c # clean_from Inside s"
| "clean_from Inside (c # s) =
     (if c = backslash then clean_from Escape s
      else if c = quote then c # clean_from Outside s
      else if is_control c then escape_control c @ clean_from Inside s
      else c # clean_from Inside s)"

definition clean_json_string :: "string \<Rightarrow> string" where
  "clean_json_string input = clean_from Outside input"

subsection \<open>What the cleaning does\<close>

text \<open>A control character inside a string: \<open>bare\<close> tells for the one behind a backslash, and for
  the others, whether it counts.\<close>

fun controls :: "(bool \<Rightarrow> bool) \<Rightarrow> scan \<Rightarrow> string \<Rightarrow> bool" where
  "controls bare _ [] \<longleftrightarrow> False"
| "controls bare Outside (c # s) \<longleftrightarrow> controls bare (if c = quote then Inside else Outside) s"
| "controls bare Escape (c # s) \<longleftrightarrow> bare False \<and> is_control c \<or> controls bare Inside s"
| "controls bare Inside (c # s) \<longleftrightarrow>
     (if c = backslash then controls bare Escape s
      else if c = quote then controls bare Outside s
      else bare True \<and> is_control c \<or> controls bare Inside s)"

definition raw_controls :: "string \<Rightarrow> bool" where
  "raw_controls s \<longleftrightarrow> controls (\<lambda>_. True) Outside s"

definition escaped_controls :: "string \<Rightarrow> bool" where
  "escaped_controls s \<longleftrightarrow> controls (\<lambda>b. \<not> b) Outside s"

lemma hex_plain: "0 \<le> n \<Longrightarrow> n < 16 \<Longrightarrow> \<not> is_control (hex_digit n) \<and> hex_digit n \<noteq> backslash \<and> hex_digit n \<noteq> quote"
proof -
  have "\<forall>n\<in>set [0..15]. \<not> is_control (hex_digit n) \<and> hex_digit n \<noteq> backslash \<and> hex_digit n \<noteq> quote"
    by code_simp
  then show "0 \<le> n \<Longrightarrow> n < 16 \<Longrightarrow> ?thesis" by simp
qed

lemma plain_chars:
  "\<not> is_control backslash" "\<not> is_control quote" "quote \<noteq> backslash" "\<not> is_control CHR ''n''"
  "\<not> is_control CHR ''r''" "\<not> is_control CHR ''t''" "\<not> is_control CHR ''u''" "\<not> is_control CHR ''0''"
  "CHR ''0'' \<noteq> backslash" "CHR ''0'' \<noteq> quote"
  by code_simp+

lemma code_pos: "0 \<le> code c"
  by (metis code_def of_nat_of_char of_nat_0_le_iff)

lemma escape_control_clean:
  "is_control c \<Longrightarrow> controls bare Inside (escape_control c @ s) \<longleftrightarrow> controls bare Inside s"
proof -
  assume c: "is_control c"
  have d: "0 \<le> code c div 16" "code c div 16 < 16" "0 \<le> code c mod 16" "code c mod 16 < 16"
    using c code_pos [of c] by (simp_all add: is_control_def)
  note [simp] = hex_plain [OF d(1,2)] hex_plain [OF d(3,4)] plain_chars
  show ?thesis by (auto simp: escape_control_def)
qed

lemma clean_controls:
  "controls (\<lambda>_. True) (if st = Escape then Inside else st) (clean_from st s) \<longleftrightarrow> controls (\<lambda>b. \<not> b) st s"
proof (induction st s rule: clean_from.induct)
  case (5 c s)
  then show ?case using plain_chars escape_control_clean [of c "\<lambda>_. True"] by auto
qed (auto simp: plain_chars)

lemma clean_fixes: "\<not> controls (\<lambda>_. True) st s \<Longrightarrow> clean_from st s = (if st = Escape then [backslash] else []) @ s"
  by (induction st s rule: clean_from.induct) (auto split: if_splits)

text \<open>The text for the JSON parser: a text without control characters inside its strings is
  kept as it is, and the result has none exactly when the text had none behind a backslash; there, the
  cleaning leaves them.\<close>

theorem clean_json_string_spec:
  "(\<not> raw_controls s \<longrightarrow> clean_json_string s = s) \<and>
   (raw_controls (clean_json_string s) \<longleftrightarrow> escaped_controls s)"
  using clean_fixes [of Outside s] clean_controls [of Outside s]
  by (simp add: raw_controls_def escaped_controls_def clean_json_string_def)

theorem clean_json_string_spec_witness:
  "clean_json_string [quote, CHR ''a'', quote] = [quote, CHR ''a'', quote] \<and>
   raw_controls (clean_json_string [quote, backslash, newline, quote])"
proof -
  have "\<not> raw_controls [quote, CHR ''a'', quote]" "escaped_controls [quote, backslash, newline, quote]"
    by code_simp+
  with clean_json_string_spec [of "[quote, CHR ''a'', quote]"]
    clean_json_string_spec [of "[quote, backslash, newline, quote]"] show ?thesis by blast
qed

end
