(* ===== verification/Worktree.thy ===== *)
theory Worktree
  imports Review_Jobs Utils
begin

text \<open>
  Finding the commit a series applies to: \<open>prepare_baseline_worktree\<close> of \<open>src/reviewer.rs\<close>. Git
  and the file system are a record of operations on a state of their own.
\<close>

subsection \<open>Git\<close>

text \<open>The first argument of an operation is the directory it runs in. \<open>gi_apply_patch\<close> is \<open>git am\<close>
  of a mail, \<open>gi_apply_raw\<close> is \<open>git apply\<close> of a diff, \<open>gi_commit_raw\<close> commits what that left,
  \<open>gi_date\<close> prints a date the way mails do.\<close>

record 'g Git =
  gi_path_exists :: "string \<Rightarrow> bool"
  gi_date :: "int \<Rightarrow> string"
  gi_ensure_remote :: "string \<Rightarrow> string \<Rightarrow> string \<Rightarrow> 'g \<Rightarrow> (string + unit) \<times> 'g"
  gi_commit_hash :: "string \<Rightarrow> string \<Rightarrow> 'g \<Rightarrow> string + string"
  gi_fetch :: "string \<Rightarrow> string \<Rightarrow> 'g \<Rightarrow> 'g"
  gi_new_worktree :: "string \<Rightarrow> string \<Rightarrow> 'g \<Rightarrow> (string + string) \<times> 'g"
  gi_remove_worktree :: "string \<Rightarrow> 'g \<Rightarrow> 'g"
  gi_reset_hard :: "string \<Rightarrow> string \<Rightarrow> 'g \<Rightarrow> (string + unit) \<times> 'g"
  gi_apply_patch :: "string \<Rightarrow> string \<Rightarrow> 'g \<Rightarrow> bool \<times> 'g"
  gi_apply_raw :: "string \<Rightarrow> string \<Rightarrow> 'g \<Rightarrow> bool \<times> 'g"
  gi_commit_raw :: "string \<Rightarrow> string \<Rightarrow> string \<Rightarrow> 'g \<Rightarrow> 'g"

definition is_sha :: "string \<Rightarrow> bool" where
  "is_sha msg_id \<longleftrightarrow> length msg_id = 40 \<and> list_all is_hexdigit msg_id"

definition repo_path_for_candidate :: "'g Git \<Rightarrow> string \<Rightarrow> BaselineResolution \<Rightarrow> string" where
  "repo_path_for_candidate git repository_path candidate =
     (case candidate of
        CommitInRepo url _ \<Rightarrow> if gi_path_exists git url then url else repository_path
      | _ \<Rightarrow> repository_path)"

subsection \<open>The commit of a candidate\<close>

text \<open>\<open>Inl\<close>: what the log says. A commit that is not there is fetched once.\<close>

definition resolve_sha ::
  "engine \<Rightarrow> 'g Git \<Rightarrow> string \<Rightarrow> BaselineResolution \<Rightarrow> 'g \<Rightarrow> (string + string) \<times> 'g" where
  "resolve_sha rx git repo_path candidate g =
     (let baseline_ref = baseline_str candidate;
          unresolved = (\<lambda>e. ''Failed to resolve baseline ref '' @ baseline_ref @ '': '' @ e @ [newline]);
          lookup = (\<lambda>g. case gi_commit_hash git repo_path baseline_ref g of
            Inr sha \<Rightarrow> (Inr sha, g)
          | Inl e \<Rightarrow>
              (case candidate of
                 Commit sha_str \<Rightarrow>
                   (let g' = gi_fetch git repo_path sha_str g in
                    case gi_commit_hash git repo_path baseline_ref g' of
                      Inr sha \<Rightarrow> (Inr sha, g')
                    | Inl e2 \<Rightarrow> (Inl (unresolved e2), g'))
               | _ \<Rightarrow> (Inl (unresolved e), g)))
      in case candidate of
           RemoteTarget url name _ \<Rightarrow>
             (case gi_ensure_remote git repo_path name url g of
                (Inl e, g') \<Rightarrow>
                  (Inl (''Failed to fetch remote '' @ redact_secret rx url @ '': '' @ e @ [newline]), g')
              | (Inr _, g') \<Rightarrow> lookup g')
         | _ \<Rightarrow> lookup g)"

subsection \<open>Applying the series\<close>

type_synonym diffs = "(patch_row \<times> message_row) list"

text \<open>A message id that is a commit is looked up or checked out; the second result tells that it was
  only looked up, the third is what the log says.\<close>

definition take_commit :: "'g Git \<Rightarrow> string \<Rightarrow> string \<Rightarrow> bool \<Rightarrow> 'g \<Rightarrow> (bool \<times> bool \<times> string) \<times> 'g" where
  "take_commit git path msg_id next_is_sha g =
     (if \<not> is_sha msg_id then ((False, False, []), g)
      else if next_is_sha
      then (case gi_commit_hash git path msg_id g of
              Inr _ \<Rightarrow> ((True, True, []), g)
            | Inl e \<Rightarrow> ((False, False, ''Commit '' @ msg_id @ '' missing: '' @ e @ [newline]), g))
      else (case gi_reset_hard git path msg_id g of
              (Inr _, g') \<Rightarrow> ((True, False, []), g')
            | (Inl e, g') \<Rightarrow>
                ((False, False, ''Failed to reset hard to '' @ msg_id @ '': '' @ e @ [newline]), g')))"

definition mbox_of :: "'g Git \<Rightarrow> patch_row \<Rightarrow> message_row \<Rightarrow> string" where
  "mbox_of git p m = ''From: '' @ me_author m @ [newline] @ ''Date: '' @ gi_date git (me_date m) @ [newline] @
     ''Subject: '' @ me_subject m @ [newline, newline] @ pa_diff p @ [newline]"

text \<open>\<open>git am\<close>, else \<open>git apply\<close> and a commit.\<close>

definition apply_mail :: "'g Git \<Rightarrow> string \<Rightarrow> patch_row \<Rightarrow> message_row \<Rightarrow> 'g \<Rightarrow> bool \<times> 'g" where
  "apply_mail git path p m g =
     (case gi_apply_patch git path (mbox_of git p m) g of
        (True, g1) \<Rightarrow> (True, g1)
      | (False, g1) \<Rightarrow>
          (case gi_apply_raw git path (pa_diff p) g1 of
             (True, g2) \<Rightarrow> (True, gi_commit_raw git path (me_author m)
                (me_subject m @ [newline, newline] @ ''(Applied via git apply)'') g2)
           | (False, g2) \<Rightarrow> (False, g2)))"

definition next_is_sha :: "diffs \<Rightarrow> bool" where
  "next_is_sha rest = (case rest of [] \<Rightarrow> True | (_, m) # _ \<Rightarrow> is_sha (me_message_id m))"

fun apply_series ::
  "'g Git \<Rightarrow> int \<Rightarrow> string \<Rightarrow> diffs \<Rightarrow> (nat \<rightharpoonup> string) \<Rightarrow> string \<Rightarrow> 'g \<Rightarrow>
   (bool \<times> (nat \<rightharpoonup> string) \<times> string) \<times> 'g" where
  "apply_series git patchset_id path [] commits logs g = ((True, commits, logs), g)"
| "apply_series git patchset_id path ((p, m) # rest) commits logs g =
     (let msg_id = me_message_id m;
          ((taken, fast_path, msg), g1) = take_commit git path msg_id (next_is_sha rest) g;
          (applied, g2) = (if taken then (True, g1) else apply_mail git path p m g1);
          logs' = logs @ msg
      in if applied
         then apply_series git patchset_id path rest
                (if fast_path then commits(pa_part p \<mapsto> msg_id)
                 else case gi_commit_hash git path ''HEAD'' g2 of
                        Inr sha \<Rightarrow> commits(pa_part p \<mapsto> sha)
                      | Inl _ \<Rightarrow> commits) logs' g2
         else ((False, commits, logs' @ ''Patch '' @ show_int patchset_id @ ''/'' @ show_nat (pa_part p) @
                  '' (ID: '' @ show_int (pa_id p) @ '') failed to apply.'' @ [newline]), g2))"

subsection \<open>The candidates in turn\<close>

record BaselineAttempt =
  ba_baseline :: string
  ba_status :: string
  ba_log :: string

definition attempts_json :: "BaselineAttempt list \<Rightarrow> json" where
  "attempts_json as = JArr (List.map (\<lambda>a. JObj [(''baseline'', JStr (ba_baseline a)),
     (''status'', JStr (ba_status a)), (''log'', JStr (ba_log a))]) as)"

definition trying :: "string \<Rightarrow> string" where
  "trying what = ''Trying baseline: '' @ what @ [newline]"

definition baseline_repo :: "BaselineResolution \<Rightarrow> string option" where
  "baseline_repo candidate =
     (case candidate of RemoteTarget url _ _ \<Rightarrow> Some url | CommitInRepo url _ \<Rightarrow> Some url | _ \<Rightarrow> None)"

type_synonym found = "BaselineResolution \<times> int \<times> string"

fun try_candidates ::
  "engine \<Rightarrow> 'g Git \<Rightarrow> string \<Rightarrow> int \<Rightarrow> diffs \<Rightarrow> BaselineResolution list \<Rightarrow> string list \<Rightarrow>
   BaselineAttempt list \<Rightarrow> 'g \<Rightarrow> db \<Rightarrow>
   (found option \<times> (nat \<rightharpoonup> string) \<times> BaselineAttempt list) \<times> 'g \<times> db" where
  "try_candidates rx git repository_path patchset_id diffs [] tested attempts g d =
     ((None, Map.empty, attempts), g, d)"
| "try_candidates rx git repository_path patchset_id diffs (candidate # cs) tested attempts g d =
     (let baseline_ref = baseline_str candidate;
          repo_path = repo_path_for_candidate git repository_path candidate;
          failing = (\<lambda>log. attempts @ [\<lparr>ba_baseline = baseline_ref, ba_status = ''Failed'', ba_log = log\<rparr>])
      in case resolve_sha rx git repo_path candidate g of
           (Inl msg, g1) \<Rightarrow>
             try_candidates rx git repository_path patchset_id diffs cs tested
               (failing (trying baseline_ref @ msg)) g1 d
         | (Inr sha, g1) \<Rightarrow>
             if sha \<in> set tested
             then try_candidates rx git repository_path patchset_id diffs cs tested attempts g1 d
             else let display = baseline_ref @ '' ('' @ sha @ '')'' in
               (case gi_new_worktree git repo_path sha g1 of
                  (Inl e, g2) \<Rightarrow>
                    try_candidates rx git repository_path patchset_id diffs cs (sha # tested)
                      (failing (trying display @ ''Failed to create worktree: '' @ e @ [newline])) g2 d
                | (Inr path, g2) \<Rightarrow>
                    (case apply_series git patchset_id path diffs Map.empty [] g2 of
                       ((True, commits, _), g3) \<Rightarrow>
                         (let (i, d1) = create_baseline (baseline_repo candidate) (Some baseline_ref) (Some sha) d
                          in ((Some (candidate, i, path), commits, attempts @
                                [\<lparr>ba_baseline = display, ba_status = ''Applied'',
                                  ba_log = trying display @ ''Application successful.'' @ [newline]\<rparr>]), g3, d1))
                     | ((False, _, logs), g3) \<Rightarrow>
                         try_candidates rx git repository_path patchset_id diffs cs (sha # tested)
                           (attempts @ [\<lparr>ba_baseline = display, ba_status = ''Failed'',
                              ba_log = trying display @ logs @ ''Application failed.'' @ [newline]\<rparr>])
                           (gi_remove_worktree git path g3) d)))"

definition prepare_baseline_worktree ::
  "engine \<Rightarrow> 'g Git \<Rightarrow> (json \<Rightarrow> string) \<Rightarrow> string \<Rightarrow> int \<Rightarrow> BaselineResolution list \<Rightarrow> diffs \<Rightarrow> 'g \<Rightarrow> db \<Rightarrow>
   (found option \<times> (nat \<rightharpoonup> string) \<times> string) \<times> 'g \<times> db" where
  "prepare_baseline_worktree rx git to_text repository_path patchset_id cands diffs g d =
     (case try_candidates rx git repository_path patchset_id diffs cands [] [] g d of
        ((res, commits, attempts), g', d') \<Rightarrow> ((res, commits, to_text (attempts_json attempts)), g', d'))"

subsection \<open>What is left behind\<close>

text \<open>One candidate: given up with at most one failed attempt and its worktree removed, or taken.\<close>

lemma candidate_cases [consumes 1, case_names unresolved duplicate no_worktree not_applied taken]:
  assumes "try_candidates rx git rp pid diffs (c # cs) tested attempts g d = ((res, commits, as), g', d')"
  obtains msg g1 where "resolve_sha rx git (repo_path_for_candidate git rp c) c g = (Inl msg, g1)"
      "try_candidates rx git rp pid diffs cs tested (attempts @ [\<lparr>ba_baseline = baseline_str c,
        ba_status = ''Failed'', ba_log = trying (baseline_str c) @ msg\<rparr>]) g1 d = ((res, commits, as), g', d')"
  | sha g1 where "resolve_sha rx git (repo_path_for_candidate git rp c) c g = (Inr sha, g1)"
      "try_candidates rx git rp pid diffs cs tested attempts g1 d = ((res, commits, as), g', d')"
  | sha e g1 g2 log where "resolve_sha rx git (repo_path_for_candidate git rp c) c g = (Inr sha, g1)"
      "gi_new_worktree git (repo_path_for_candidate git rp c) sha g1 = (Inl e, g2)"
      "try_candidates rx git rp pid diffs cs (sha # tested) (attempts @ [\<lparr>ba_baseline = baseline_str c,
        ba_status = ''Failed'', ba_log = log\<rparr>]) g2 d = ((res, commits, as), g', d')"
  | sha path g1 g2 cm logs g3 b log where "resolve_sha rx git (repo_path_for_candidate git rp c) c g = (Inr sha, g1)"
      "gi_new_worktree git (repo_path_for_candidate git rp c) sha g1 = (Inr path, g2)"
      "apply_series git pid path diffs Map.empty [] g2 = ((False, cm, logs), g3)"
      "try_candidates rx git rp pid diffs cs (sha # tested) (attempts @ [\<lparr>ba_baseline = b,
        ba_status = ''Failed'', ba_log = log\<rparr>]) (gi_remove_worktree git path g3) d = ((res, commits, as), g', d')"
  | sha path g1 g2 logs i a where "resolve_sha rx git (repo_path_for_candidate git rp c) c g = (Inr sha, g1)"
      "gi_new_worktree git (repo_path_for_candidate git rp c) sha g1 = (Inr path, g2)"
      "apply_series git pid path diffs Map.empty [] g2 = ((True, commits, logs), g')"
      "create_baseline (baseline_repo c) (Some (baseline_str c)) (Some sha) d = (i, d')"
      "res = Some (c, i, path)" "as = attempts @ [a]" "ba_status a = ''Applied''"
proof -
  obtain r g1 where r: "resolve_sha rx git (repo_path_for_candidate git rp c) c g = (r, g1)" by fastforce
  note t = assms [unfolded try_candidates.simps Let_def r prod.case]
  show thesis
  proof (cases r)
    case (Inl msg)
    with t that(1) r show thesis by simp
  next
    case (Inr sha)
    note r = r [unfolded Inr]
    show thesis
    proof (cases "sha \<in> set tested")
      case True
      with t Inr that(2) [OF r] show thesis by simp
    next
      case False
      obtain w g2 where w: "gi_new_worktree git (repo_path_for_candidate git rp c) sha g1 = (w, g2)" by fastforce
      show thesis
      proof (cases w)
        case (Inl e)
        with t Inr False w show thesis by (intro that(3) [OF r]) simp_all
      next
        case (Inr path)
        note w = w [unfolded Inr]
        obtain ok cm logs g3 where a: "apply_series git pid path diffs Map.empty [] g2 = ((ok, cm, logs), g3)"
          by (metis prod.collapse)
        obtain i d1 where b: "create_baseline (baseline_repo c) (Some (baseline_str c)) (Some sha) d = (i, d1)" by fastforce
        show thesis
        proof (cases ok)
          case True
          with t \<open>r = Inr sha\<close> False w a b show thesis by (intro that(5) [OF r w]) auto
        next
          case nok: False
          with t \<open>r = Inr sha\<close> False w a show thesis by (intro that(4) [OF r w]) auto
        qed
      qed
    qed
  qed
qed

text \<open>The log of the search is complete and tells the outcome: a failed attempt for each
  candidate given up (none for one whose commit was tried before), and at the end the one that
  applied, if one did; the baseline taken is one of the candidates.\<close>

theorem baseline_attempts:
  assumes "try_candidates rx git rp pid diffs cs tested [] g d = ((res, commits, as), g', d')"
  shows "length as \<le> length cs \<and>
    (case res of
       None \<Rightarrow> \<forall>a\<in>set as. ba_status a = ''Failed''
     | Some (c, i, path) \<Rightarrow> c \<in> set cs \<and> as \<noteq> [] \<and> ba_status (last as) = ''Applied'' \<and>
         (\<forall>a\<in>set (butlast as). ba_status a = ''Failed''))"
proof -
  define ok where "ok = (\<lambda>(before :: BaselineAttempt list) (cs :: BaselineResolution list) (res :: found option) as.
    \<exists>more. as = before @ more \<and> length more \<le> length cs \<and>
    (case res of
       None \<Rightarrow> \<forall>a\<in>set more. ba_status a = ''Failed''
     | Some (c, i, path) \<Rightarrow> c \<in> set cs \<and> more \<noteq> [] \<and> ba_status (last more) = ''Applied'' \<and>
         (\<forall>a\<in>set (butlast more). ba_status a = ''Failed'')))"
  have add: "ok (before @ [a]) cs res as \<Longrightarrow> ba_status a = ''Failed'' \<Longrightarrow> ok before (c # cs) res as" for before a cs c res as
  proof -
    assume o: "ok (before @ [a]) cs res as" and f: "ba_status a = ''Failed''"
    from o obtain more where m: "as = before @ (a # more)" "length more \<le> length cs"
      "(case res of
         None \<Rightarrow> \<forall>a\<in>set more. ba_status a = ''Failed''
       | Some (c, i, path) \<Rightarrow> c \<in> set cs \<and> more \<noteq> [] \<and> ba_status (last more) = ''Applied'' \<and>
           (\<forall>a\<in>set (butlast more). ba_status a = ''Failed''))" by (auto simp: ok_def)
    then show "ok before (c # cs) res as"
      unfolding ok_def by (intro exI [of _ "a # more"]) (auto simp: f split: option.splits)
  qed
  have "try_candidates rx git rp pid diffs cs tested before g d = ((res, commits, as), g', d') \<Longrightarrow> ok before cs res as"
    for cs tested before g d
  proof (induction cs arbitrary: tested before g)
    case Nil
    then show ?case by (auto simp: ok_def)
  next
    case (Cons c cs)
    from Cons.prems show ?case
    proof (cases rule: candidate_cases)
      case unresolved
      show ?thesis by (rule add [OF Cons.IH [OF unresolved(2)]]) simp
    next
      case duplicate
      with Cons.IH have "ok before cs res as" by blast
      then show ?thesis by (auto simp: ok_def split: option.splits)
    next
      case no_worktree
      show ?thesis by (rule add [OF Cons.IH [OF no_worktree(3)]]) simp
    next
      case not_applied
      show ?thesis by (rule add [OF Cons.IH [OF not_applied(4)]]) simp
    next
      case taken
      then show ?thesis by (auto simp: ok_def)
    qed
  qed
  from this [OF assms] show ?thesis by (simp add: ok_def)
qed

text \<open>What is relied on of git: creating a worktree gives a new one and adds it, removing takes
  it away, and nothing else creates or removes any.\<close>

definition tracks_worktrees :: "'g Git \<Rightarrow> ('g \<Rightarrow> string set) \<Rightarrow> bool" where
  "tracks_worktrees git live \<longleftrightarrow>
     (\<forall>rp sha g. case gi_new_worktree git rp sha g of
        (Inr path, g') \<Rightarrow> path \<notin> live g \<and> live g' = insert path (live g) | (Inl _, g') \<Rightarrow> live g' = live g) \<and>
     (\<forall>path g. live (gi_remove_worktree git path g) = live g - {path}) \<and>
     (\<forall>rp n u g. live (snd (gi_ensure_remote git rp n u g)) = live g) \<and>
     (\<forall>rp sha g. live (gi_fetch git rp sha g) = live g) \<and>
     (\<forall>path sha g. live (snd (gi_reset_hard git path sha g)) = live g) \<and>
     (\<forall>path t g. live (snd (gi_apply_patch git path t g)) = live g) \<and>
     (\<forall>path t g. live (snd (gi_apply_raw git path t g)) = live g) \<and>
     (\<forall>path a t g. live (gi_commit_raw git path a t g) = live g)"

lemma resolve_live:
  assumes "tracks_worktrees git live"
  shows "live (snd (resolve_sha rx git rp c g)) = live g"
proof -
  have e: "live (snd (gi_ensure_remote git rp n u g)) = live g" "live (gi_fetch git rp sha g) = live g" for n u sha g
    using assms by (simp_all add: tracks_worktrees_def)
  show ?thesis
  proof (cases c)
    case (RemoteTarget url name br)
    obtain r g1 where r: "gi_ensure_remote git rp name url g = (r, g1)" by fastforce
    with e(1) [of name url g] have "live g1 = live g" by simp
    then show ?thesis
      by (cases r; cases "gi_commit_hash git rp (baseline_str c) g1")
         (simp_all add: resolve_sha_def Let_def r RemoteTarget)
  qed (auto simp: resolve_sha_def Let_def e split: sum.splits)
qed

lemma take_live:
  "tracks_worktrees git live \<Longrightarrow> take_commit git path msg n g = (r, g') \<Longrightarrow> live g' = live g"
proof -
  assume t: "tracks_worktrees git live" and k: "take_commit git path msg n g = (r, g')"
  have "live (snd (gi_reset_hard git path msg g)) = live g" using t by (simp add: tracks_worktrees_def)
  then show ?thesis using k by (auto simp: take_commit_def split: if_splits sum.splits prod.splits)
qed

lemma mail_live:
  "tracks_worktrees git live \<Longrightarrow> apply_mail git path p m g = (r, g') \<Longrightarrow> live g' = live g"
proof -
  assume t: "tracks_worktrees git live" and k: "apply_mail git path p m g = (r, g')"
  have e: "live (snd (gi_apply_patch git path x g)) = live g" "live (snd (gi_apply_raw git path x g)) = live g"
    "live (gi_commit_raw git path a x g) = live g" for x a g
    using t by (simp_all add: tracks_worktrees_def)
  from k e(1) [of "mbox_of git p m" g] e(2) [of "pa_diff p"] show ?thesis
    by (auto simp: apply_mail_def e(3) split: prod.splits bool.splits) (metis snd_conv)+
qed

lemma series_live:
  assumes t: "tracks_worktrees git live"
  shows "apply_series git pid path diffs cm logs g = (r, g') \<Longrightarrow> live g' = live g"
proof (induction diffs arbitrary: cm logs g)
  case (Cons x diffs)
  obtain p m where x: "x = (p, m)" by fastforce
  obtain taken fast msg g1 where k: "take_commit git path (me_message_id m) (next_is_sha diffs) g = ((taken, fast, msg), g1)"
    by (metis prod.collapse)
  obtain applied g2 where a: "(if taken then (True, g1) else apply_mail git path p m g1) = (applied, g2)" by fastforce
  have "live g1 = live g" by (rule take_live [OF t k])
  moreover have "live g2 = live g1" using a mail_live [OF t] by (auto split: if_splits)
  moreover have "live g' = live g2"
    using Cons.prems Cons.IH unfolding x apply_series.simps Let_def k prod.case a by (auto split: if_splits)
  ultimately show ?case by simp
qed simp

text \<open>The search leaves no worktree behind but the one it returns: those of the candidates that
  did not work out are removed.\<close>

theorem worktrees_removed:
  assumes "tracks_worktrees git live"
    and "prepare_baseline_worktree rx git to_text rp pid cs diffs g d = ((res, commits, logs), g', d')"
  shows "live g' = live g \<union> (case res of Some (_, _, path) \<Rightarrow> {path} | None \<Rightarrow> {})"
proof -
  have loop: "try_candidates rx git rp pid diffs cs tested before g d = ((res, commits, as), g', d') \<Longrightarrow>
      live g' = live g \<union> (case res of Some (_, _, path) \<Rightarrow> {path} | None \<Rightarrow> {})" for tested before as g
  proof (induction cs arbitrary: tested before g)
    case Nil
    then show ?case by auto
  next
    case (Cons c cs)
    have s: "resolve_sha rx git (repo_path_for_candidate git rp c) c g = (r, g1) \<Longrightarrow> live g1 = live g" for r g1
      using resolve_live [OF assms(1)] by (metis snd_conv)
    have n: "gi_new_worktree git (repo_path_for_candidate git rp c) sha g1 = (Inr path, g2) \<Longrightarrow>
        path \<notin> live g1 \<and> live g2 = insert path (live g1)"
      "gi_new_worktree git (repo_path_for_candidate git rp c) sha g1 = (Inl e, g2) \<Longrightarrow> live g2 = live g1"
      for sha g1 path g2 e
      using assms(1) unfolding tracks_worktrees_def by (metis (mono_tags, lifting) case_prod_conv sum.case)+
    from Cons.prems show ?case
    proof (cases rule: candidate_cases)
      case unresolved
      with Cons.IH s show ?thesis by metis
    next
      case duplicate
      with Cons.IH s show ?thesis by metis
    next
      case no_worktree
      with Cons.IH s n(2) show ?thesis by metis
    next
      case (not_applied sha path g1 g2 cm logs g3)
      have "live (gi_remove_worktree git path g3) = live g3 - {path}"
        using assms(1) by (simp add: tracks_worktrees_def)
      then have "live (gi_remove_worktree git path g3) = live g"
        using n(1) [OF not_applied(2)] s [OF not_applied(1)] series_live [OF assms(1) not_applied(3)] by auto
      with Cons.IH [OF not_applied(4)] show ?thesis by simp
    next
      case (taken sha path g1 g2 logs i)
      then show ?thesis
        using n(1) [OF taken(2)] s [OF taken(1)] series_live [OF assms(1) taken(3)] by auto
    qed
  qed
  obtain r1 c1 as g1 d1 where t: "try_candidates rx git rp pid diffs cs [] [] g d = ((r1, c1, as), g1, d1)"
    by (metis prod.collapse)
  from assms(2) have "r1 = res" "c1 = commits" "g1 = g'" "d1 = d'"
    by (simp_all add: prepare_baseline_worktree_def t)
  with loop t show ?thesis by blast
qed

subsection \<open>Samples\<close>

text \<open>A git whose state is the list of the worktrees with the commit checked out last, and where
  patches apply to one commit only.\<close>

definition sample_git :: "(string list \<times> string) Git" where
  "sample_git =
     \<lparr>gi_path_exists = (\<lambda>_. False), gi_date = (\<lambda>_. ''date''),
      gi_ensure_remote = (\<lambda>_ _ _ g. (Inr (), g)), gi_commit_hash = (\<lambda>_ r _. Inr r),
      gi_fetch = (\<lambda>_ _ g. g),
      gi_new_worktree = (\<lambda>_ sha (ws, _). (Inr (concat ws @ ''w''), (concat ws @ ''w'') # ws, sha)),
      gi_remove_worktree = (\<lambda>w (ws, c). (filter (\<lambda>x. x \<noteq> w) ws, c)),
      gi_reset_hard = (\<lambda>_ _ g. (Inr (), g)), gi_apply_patch = (\<lambda>_ _ (ws, c). (c = ''good'', ws, c)),
      gi_apply_raw = (\<lambda>_ _ g. (False, g)), gi_commit_raw = (\<lambda>_ _ _ g. g)\<rparr>"

lemma sample_git_tracks: "tracks_worktrees sample_git (\<lambda>g. set (fst g))"
proof -
  have "w \<in> set ws \<Longrightarrow> length w \<le> length (concat ws)" for w :: string and ws
    by (induction ws) auto
  then have "concat ws @ ''w'' \<notin> set ws" for ws :: "string list" by force
  then show ?thesis by (auto simp: tracks_worktrees_def sample_git_def)
qed

definition sample_diffs :: diffs where
  "sample_diffs = List.map (\<lambda>p. (p, sample_patch_mail)) (patches sample_db)"

abbreviation sample_search where
  "sample_search \<equiv> try_candidates backtrack sample_git ''repo'' 1 sample_diffs
     [LocalRef ''bad'', Commit ''bad'', LocalRef ''good''] [] [] ([''v''], []) sample_db"

lemma sample_search_found:
  "\<exists>commits as d'. sample_search = ((Some (LocalRef ''good'', 1, ''vw''), commits, as), ([''vw'', ''v''], ''good''), d')"
proof -
  have "fst (fst sample_search) = Some (LocalRef ''good'', 1, ''vw'') \<and> fst (snd sample_search) = ([''vw'', ''v''], ''good'')"
    by code_simp
  then show ?thesis by (metis prod.collapse)
qed

theorem baseline_attempts_witness:
  "\<exists>as. snd (snd (fst sample_search)) = as \<and> length as \<le> 3 \<and> ba_status (last as) = ''Applied'' \<and>
     (\<forall>a\<in>set (butlast as). ba_status a = ''Failed'')"
proof -
  obtain commits as d' where s: "sample_search = ((Some (LocalRef ''good'', 1, ''vw''), commits, as), ([''vw'', ''v''], ''good''), d')"
    using sample_search_found by blast
  from baseline_attempts [OF s] s show ?thesis by auto
qed

theorem worktrees_removed_witness:
  "\<exists>r d'. prepare_baseline_worktree backtrack sample_git (\<lambda>_. []) ''repo'' 1
      [LocalRef ''bad'', Commit ''bad'', LocalRef ''good''] sample_diffs ([''v''], []) sample_db =
        (r, ([''vw'', ''v''], ''good''), d') \<and>
     set [''vw'', ''v''] = set [''v''] \<union> {''vw''}"
proof -
  obtain commits as d' where s: "sample_search = ((Some (LocalRef ''good'', 1, ''vw''), commits, as), ([''vw'', ''v''], ''good''), d')"
    using sample_search_found by blast
  then have p: "prepare_baseline_worktree backtrack sample_git (\<lambda>_. []) ''repo'' 1
      [LocalRef ''bad'', Commit ''bad'', LocalRef ''good''] sample_diffs ([''v''], []) sample_db =
        ((Some (LocalRef ''good'', 1, ''vw''), commits, []), ([''vw'', ''v''], ''good''), d')"
    by (simp add: prepare_baseline_worktree_def)
  with worktrees_removed [OF sample_git_tracks p] show ?thesis by auto
qed

end
