(* ===== verification/Review_Task.thy ===== *)
theory Review_Task
  imports Worktree
begin

text \<open>
  The reviewer service of \<open>src/reviewer.rs\<close>: the review of a patchset from the choice of a baseline
  to its last status, the intake of pending patchsets, and the release of results whose embargo is
  over. The patches of a patchset are reviewed by the main worker alone here; \<open>Review_Jobs\<close> relates
  that to the runs with helpers. What other tasks do to the store meanwhile is an argument.
\<close>

subsection \<open>Choosing the baseline\<close>

record 'g TaskContext =
  rt_rx :: engine
  rt_git :: "'g Git"
  rt_cx :: ReviewContext
  rt_repository_path :: string
  rt_max_lines_changed :: nat
  rt_max_files_touched :: nat
  rt_iter :: "((string \<times> string option) \<times> nat) list \<Rightarrow> ((string \<times> string option) \<times> nat) list"
  rt_branches :: "string \<Rightarrow> string list option"
  rt_registry :: BaselineRegistry
  rt_prompts_hash :: "string option"

definition all_files :: "diffs \<Rightarrow> string list" where
  "all_files diffs = sort (remdups (concat (List.map (\<lambda>(p, m). extract_files_from_diff (pa_diff p)) diffs)))"

definition patchset_body :: "patchset_row \<Rightarrow> diffs \<Rightarrow> db \<Rightarrow> string option" where
  "patchset_body p diffs d =
     (case ps_cover p of
        Some mid \<Rightarrow> get_message_body mid d
      | None \<Rightarrow> (case diffs of (_, m) # _ \<Rightarrow> get_message_body (me_message_id m) d | [] \<Rightarrow> None))"

text \<open>A baseline given with the patchset goes before the candidates that are worked out.\<close>

definition task_candidates :: "'g TaskContext \<Rightarrow> patchset_row \<Rightarrow> diffs \<Rightarrow> db \<Rightarrow> BaselineResolution list" where
  "task_candidates ctx p diffs d =
     (let resolved = resolve_candidates (rt_iter ctx) (rt_rx ctx) (rt_branches ctx) (rt_registry ctx)
            (all_files diffs) (ps_subject p) (patchset_body p diffs d)
      in case Option.bind (ps_baseline p) (\<lambda>i. get_baseline i d) of
           None \<Rightarrow> resolved
         | Some b \<Rightarrow>
             (case last_known_commit b of
                None \<Rightarrow> resolved
              | Some commit \<Rightarrow>
                  (case repo_url b of Some url \<Rightarrow> [CommitInRepo url commit] | None \<Rightarrow> [Commit commit])))"

subsection \<open>What is handed to the reviews\<close>

definition patch_json :: "(nat \<rightharpoonup> string) \<Rightarrow> patch_row \<times> message_row \<Rightarrow> json" where
  "patch_json commits = (\<lambda>(p, m).
     JObj [(''index'', JInt (int (pa_part p))), (''diff'', JStr (pa_diff p)), (''subject'', JStr (me_subject m)),
           (''author'', JStr (me_author m)), (''date'', JInt (me_date m)),
           (''message_id'', JStr (me_message_id m)),
           (''commit_id'', case commits (pa_part p) of
              Some sha \<Rightarrow> JStr sha
            | None \<Rightarrow> if is_sha (me_message_id m) then JStr (me_message_id m) else JNull)])"

definition input_payload :: "patchset_row \<Rightarrow> (nat \<rightharpoonup> string) \<Rightarrow> diffs \<Rightarrow> json" where
  "input_payload p commits diffs =
     JObj [(''id'', JInt (ps_id p)),
           (''message_id'', JStr (case ps_cover p of
              Some mid \<Rightarrow> mid
            | None \<Rightarrow> (case diffs of (_, m) # _ \<Rightarrow> me_message_id m | [] \<Rightarrow> []))),
           (''subject'', JStr (ps_subject p)),
           (''patches'', JArr (List.map (patch_json commits) diffs))]"

definition filtered :: "'g TaskContext \<Rightarrow> patchset_row \<Rightarrow> patch_row \<times> message_row \<Rightarrow> bool" where
  "filtered ctx p = (\<lambda>(q, m). should_skip (rt_rx ctx) (rt_max_lines_changed ctx) (rt_max_files_touched ctx)
     (case ps_skip p of Some fs \<Rightarrow> fs | None \<Rightarrow> []) (case ps_only p of Some fs \<Rightarrow> fs | None \<Rightarrow> [])
     (me_subject m) (pa_diff q))"

definition valid_jobs :: "'g TaskContext \<Rightarrow> patchset_row \<Rightarrow> (nat \<rightharpoonup> string) \<Rightarrow> diffs \<Rightarrow> ValidJob list" where
  "valid_jobs ctx p commits diffs =
     List.map (\<lambda>(q, m). \<lparr>vj_patch_id = pa_id q, vj_index = pa_part q, vj_commit_sha = commits (pa_part q),
                          vj_diff = pa_diff q\<rparr>)
       (filter (\<lambda>x. \<not> filtered ctx p x) diffs)"

definition mark_skipped :: "'g TaskContext \<Rightarrow> patchset_row \<Rightarrow> diffs \<Rightarrow> db \<Rightarrow> db" where
  "mark_skipped ctx p diffs d =
     fold (\<lambda>(q, m). update_patch_status (pa_id q) ''Skipped'') (filter (filtered ctx p) diffs) d"

definition patch_job :: "'g TaskContext \<Rightarrow> patchset_row \<Rightarrow> int \<Rightarrow> json \<Rightarrow> ValidJob \<Rightarrow> PatchJob" where
  "patch_job ctx p baseline_id payload j =
     \<lparr>jb_patchset = ps_id p, jb_patch = vj_patch_id j, jb_index = vj_index j, jb_baseline = Some baseline_id,
      jb_payload = payload, jb_prompts = rt_prompts_hash ctx, jb_diff = vj_diff j, jb_embargo = ps_embargo p\<rparr>"

subsection \<open>The task\<close>

text \<open>The last status. A patchset that was cancelled meanwhile keeps that, unless the schedule
  closed.\<close>

definition finish_task :: "int \<Rightarrow> nat \<Rightarrow> bool \<Rightarrow> db \<Rightarrow> db" where
  "finish_task i failed_count paused d =
     (if paused then update_patchset_status i (as_str Pending) d
      else if get_patchset_status i d = Some (as_str Cancelled) then d
      else update_patchset_status i (if failed_count = 0 then as_str Reviewed else as_str Failed) d)"

definition task_context :: "'g TaskContext \<Rightarrow> patchset_row \<Rightarrow> ReviewContext" where
  "task_context ctx p = (rt_cx ctx)\<lparr>cx_target_review_count := or_else (ps_target_reviews p) 1\<rparr>"

definition save_baseline :: "'g TaskContext \<Rightarrow> int \<Rightarrow> int option \<Rightarrow> string \<Rightarrow> db \<Rightarrow> db" where
  "save_baseline ctx i baseline logs d =
     update_patchset_baseline_info i baseline (Some (cx_model (rt_cx ctx))) (rt_prompts_hash ctx) (Some logs)
       (Some (cx_provider (rt_cx ctx))) d"

text \<open>\<open>env\<close> is the surroundings of the reviews of a job; \<open>others\<close> is what other tasks did to the
  store before the last status is written.\<close>

definition review_patchset_task ::
  "'g TaskContext \<Rightarrow> patchset_row \<Rightarrow> (ValidJob \<Rightarrow> nat \<Rightarrow> Attempt) \<Rightarrow> (db \<Rightarrow> db) \<Rightarrow> 'g \<Rightarrow> db \<Rightarrow> ('g \<times> db) option" where
  "review_patchset_task ctx p env others g d =
     (let i = ps_id p;
          d1 = update_patchset_status i (as_str InReview) d;
          diffs = get_patch_diffs i d1;
          ((found, commits, logs), g1, d2) = prepare_baseline_worktree (rt_rx ctx) (rt_git ctx)
            (cx_to_text (rt_cx ctx)) (rt_repository_path ctx) i (task_candidates ctx p diffs d1) diffs g d1
      in case found of
           None \<Rightarrow> Some (g1, update_patchset_status i (as_str FailedToApply) (others (save_baseline ctx i None logs d2)))
         | Some (resolution, baseline_id, path) \<Rightarrow>
             (let d3 = save_baseline ctx i (Some baseline_id) logs d2;
                  payload = input_payload p commits diffs;
                  d4 = mark_skipped ctx p diffs d3
              in case run_jobs (\<lambda>j. process_patch_review (task_context ctx p) (patch_job ctx p baseline_id payload j) (env j))
                        (valid_jobs ctx p commits diffs) d4 of
                   None \<Rightarrow> None
                 | Some (failed_count, paused, d5) \<Rightarrow>
                     Some (gi_remove_worktree (rt_git ctx) path g1, finish_task i failed_count paused (others d5))))"

subsection \<open>The service\<close>

text \<open>The patchsets a turn of the service starts tasks for. A task starts when a permit is free, at
  which time its row is no longer read again.\<close>

definition process_pending_patchsets :: "bool \<Rightarrow> db \<Rightarrow> patchset_row list" where
  "process_pending_patchsets open_now d = (if open_now then get_pending_patchsets 10 d else [])"

definition release_finding_json :: "ReleaseFinding \<Rightarrow> json" where
  "release_finding_json f =
     JObj [(''severity'', JStr (rf_severity f)), (''problem'', JStr (rf_problem f)),
           (''severity_explanation'', case rf_explanation f of Some s \<Rightarrow> JStr s | None \<Rightarrow> JNull),
           (''preexisting'', case rf_preexisting f of Some b \<Rightarrow> JBool b | None \<Rightarrow> JNull),
           (''locations'', case rf_locations f of Some v \<Rightarrow> v | None \<Rightarrow> JNull)]"

definition release_notice :: "patchset_row \<Rightarrow> ReleaseReview \<Rightarrow> Notice" where
  "release_notice p r =
     \<lparr>no_patch_id = rr_patch_id r, no_patch_message_id = rr_message_id r,
      no_patchset_message_id = (case ps_cover p of Some mid \<Rightarrow> mid | None \<Rightarrow> rr_message_id r),
      no_index = rr_index r, no_inline = rr_inline r,
      no_findings = Some (List.map release_finding_json (rr_findings r))\<rparr>"

definition release_patchset ::
  "json_parser \<Rightarrow> (json \<Rightarrow> string) \<Rightarrow> string + EmailPolicyConfig \<Rightarrow> SmtpSettings option \<Rightarrow> int \<Rightarrow>
   patchset_row \<Rightarrow> db \<Rightarrow> db" where
  "release_patchset from_str to_text policy smtp now p d =
     fold (\<lambda>r d. snd (queue_notifications to_text policy smtp (release_notice p r) now d))
       (get_completed_reviews_for_release from_str (ps_id p) d) d"

definition release_embargoed_results ::
  "json_parser \<Rightarrow> (json \<Rightarrow> string) \<Rightarrow> string + EmailPolicyConfig \<Rightarrow> SmtpSettings option \<Rightarrow> int \<Rightarrow> db \<Rightarrow> db" where
  "release_embargoed_results from_str to_text policy smtp now d =
     fold (release_patchset from_str to_text policy smtp now) (get_expired_embargoed_patchsets now 10 d) d"

subsection \<open>The last status\<close>

lemma status_after_update:
  "get_patchset_status i (update_patchset_status i s d) = map_option (\<lambda>_. s) (get_patchset_status i d)"
  by (simp add: get_patchset_status_def update_patchset_status_def find_patchset_modify option.map_comp comp_def)

lemma status_patchsets: "patchsets d' = patchsets d \<Longrightarrow> get_patchset_status i d' = get_patchset_status i d"
  by (simp add: get_patchset_status_def find_patchset_def)

lemma status_save_baseline: "get_patchset_status i (save_baseline ctx i b logs d) = get_patchset_status i d"
  by (simp add: get_patchset_status_def save_baseline_def update_patchset_baseline_info_def find_patchset_modify
      option.map_comp comp_def)

lemma status_cancel:
  "get_patchset_status i (snd (cancel_patchset i force d)) =
     map_option (\<lambda>st. if cancellable force st then ''Cancelled'' else st) (get_patchset_status i d)"
proof -
  have "map_option ps_status (first (filter (\<lambda>p. ps_id p = i)
      (update_where (\<lambda>p. ps_id p = i \<and> cancellable force (ps_status p)) (\<lambda>p. p\<lparr>ps_status := ''Cancelled''\<rparr>) ps))) =
    map_option (\<lambda>st. if cancellable force st then ''Cancelled'' else st)
      (map_option ps_status (first (filter (\<lambda>p. ps_id p = i) ps)))" for ps
    by (induction ps) (auto simp: update_where_def first_def)
  then show ?thesis by (simp add: get_patchset_status_def find_patchset_def cancel_patchset_def)
qed

lemma create_baseline_patchsets: "create_baseline r b c d = (i, d') \<Longrightarrow> patchsets d' = patchsets d"
  by (auto simp: create_baseline_def Let_def split: option.splits)

lemma prepare_patchsets:
  assumes "prepare_baseline_worktree rx git to_text rp pid cs diffs g d = (r, g', d')"
  shows "patchsets d' = patchsets d"
proof -
  have loop: "try_candidates rx git rp pid diffs cs tested before g d = ((res, commits, as), g', d') \<Longrightarrow>
      patchsets d' = patchsets d" for tested before g res commits as g' d'
  proof (induction cs arbitrary: tested before g)
    case (Cons c cs)
    from Cons.prems show ?case
    proof (cases rule: candidate_cases)
      case unresolved
      from Cons.IH [OF unresolved(2)] show ?thesis .
    next
      case duplicate
      from Cons.IH [OF duplicate(2)] show ?thesis .
    next
      case no_worktree
      from Cons.IH [OF no_worktree(3)] show ?thesis .
    next
      case not_applied
      from Cons.IH [OF not_applied(4)] show ?thesis .
    next
      case taken
      from create_baseline_patchsets [OF taken(4)] show ?thesis .
    qed
  qed simp
  obtain res commits as g1 d1 where t: "try_candidates rx git rp pid diffs cs [] [] g d = ((res, commits, as), g1, d1)"
    by (metis prod.collapse)
  with assms have "d1 = d'" by (simp add: prepare_baseline_worktree_def)
  with loop [OF t] show ?thesis by simp
qed

lemma run_jobs_keeps:
  assumes "\<And>j d res d'. process j d = Some (res, d') \<Longrightarrow> patchsets d' = patchsets d"
  shows "run_jobs process js d = Some (m, paused, d') \<Longrightarrow> patchsets d' = patchsets d"
proof (induction js arbitrary: d m)
  case (Cons j js)
  obtain res d1 where r: "process j d = Some (res, d1)" using Cons.prems by (cases "process j d") auto
  with assms have d1: "patchsets d1 = patchsets d" by blast
  show ?case
  proof (cases "res = PausedBySchedule")
    case True
    with Cons.prems r d1 show ?thesis by simp
  next
    case False
    with Cons.prems r obtain m' where "run_jobs process js d1 = Some (m', paused, d')" by (cases res) auto
    with Cons.IH d1 show ?thesis by simp
  qed
qed simp

lemma mark_skipped_patchsets: "patchsets (mark_skipped ctx p diffs d) = patchsets d"
proof -
  have "patchsets (fold (\<lambda>(q, m). update_patch_status (pa_id q) st) xs d) = patchsets d" for xs st
    by (induction xs arbitrary: d) (auto simp: update_patch_status_def)
  then show ?thesis by (simp add: mark_skipped_def)
qed

text \<open>A task ends without a baseline, or after the reviews; until then its patchset is in
  review.\<close>

lemma task_cases [consumes 2, case_names not_applied reviewed]:
  assumes "\<forall>j k. review_tool (at_tool (env j k))"
    and "review_patchset_task ctx p env others g d = Some (g', d')"
  obtains d1 where "get_patchset_status (ps_id p) d1 = map_option (\<lambda>_. ''In Review'') (get_patchset_status (ps_id p) d)"
      "d' = update_patchset_status (ps_id p) ''Failed To Apply'' (others d1)"
  | d1 m paused where "get_patchset_status (ps_id p) d1 = map_option (\<lambda>_. ''In Review'') (get_patchset_status (ps_id p) d)"
      "d' = finish_task (ps_id p) m paused (others d1)"
proof -
  let ?i = "ps_id p"
  define d1 where "d1 = update_patchset_status ?i (as_str InReview) d"
  define diffs where "diffs = get_patch_diffs ?i d1"
  obtain found commits logs g1 d2 where w: "prepare_baseline_worktree (rt_rx ctx) (rt_git ctx)
      (cx_to_text (rt_cx ctx)) (rt_repository_path ctx) ?i (task_candidates ctx p diffs d1) diffs g d1 =
      ((found, commits, logs), g1, d2)" by (metis prod.collapse)
  have s: "get_patchset_status ?i d2 = map_option (\<lambda>_. ''In Review'') (get_patchset_status ?i d)"
    using status_patchsets [OF prepare_patchsets [OF w]] by (simp add: d1_def status_after_update)
  note t = assms(2) [unfolded review_patchset_task_def Let_def, folded d1_def, folded diffs_def, unfolded w prod.case]
  show thesis
  proof (cases found)
    case None
    with t have "d' = update_patchset_status ?i ''Failed To Apply'' (others (save_baseline ctx ?i None logs d2))"
      by simp
    moreover have "get_patchset_status ?i (save_baseline ctx ?i None logs d2) =
        map_option (\<lambda>_. ''In Review'') (get_patchset_status ?i d)" by (simp add: s status_save_baseline)
    ultimately show thesis by (intro that(1))
  next
    case (Some f)
    obtain resolution b path where f: "f = (resolution, b, path)" by (metis prod.collapse)
    define d4 where "d4 = mark_skipped ctx p diffs (save_baseline ctx ?i (Some b) logs d2)"
    define process where "process = (\<lambda>j. process_patch_review (task_context ctx p)
      (patch_job ctx p b (input_payload p commits diffs) j) (env j))"
    note t = t [unfolded Some f option.case prod.case, folded process_def, folded d4_def]
    then obtain m paused d5 where r: "run_jobs process (valid_jobs ctx p commits diffs) d4 = Some (m, paused, d5)"
      by (cases "run_jobs process (valid_jobs ctx p commits diffs) d4") auto
    have keep: "process j e = Some (res, e') \<Longrightarrow> patchsets e' = patchsets e" for j e res e'
      using process_quiet [where b = False and env = "env j"] assms(1)
      unfolding process_def quiet_def by blast
    have "get_patchset_status ?i d5 = map_option (\<lambda>_. ''In Review'') (get_patchset_status ?i d)"
      using status_patchsets [OF run_jobs_keeps [OF keep r]] s
        status_patchsets [OF mark_skipped_patchsets [of ctx p diffs "save_baseline ctx ?i (Some b) logs d2"]]
      by (simp add: d4_def status_save_baseline)
    moreover have "d' = finish_task ?i m paused (others d5)" using t r by simp
    ultimately show thesis by (rule that(2))
  qed
qed

lemma finish_status:
  "get_patchset_status i (finish_task i m paused d) = map_option (\<lambda>st.
     if paused then ''Pending'' else if st = ''Cancelled'' then st
     else if m = 0 then ''Reviewed'' else ''Failed'') (get_patchset_status i d)"
  by (cases "get_patchset_status i d") (simp_all add: finish_task_def status_after_update)

text \<open>C21. No patchset stays in review: when its task is over, whether or not it was cancelled
  meanwhile, it is reviewed, failed, failed to apply, pending again or cancelled.\<close>

theorem review_task_closes:
  assumes "\<forall>j k. review_tool (at_tool (env j k))" "get_patchset_status (ps_id p) d \<noteq> None"
    and "\<forall>e. get_patchset_status (ps_id p) (others e) = get_patchset_status (ps_id p) e \<or>
      get_patchset_status (ps_id p) (others e) = Some ''Cancelled''"
    and "review_patchset_task ctx p env others g d = Some (g', d')"
  shows "get_patchset_status (ps_id p) d' \<in>
    Some ` {''Reviewed'', ''Failed'', ''Failed To Apply'', ''Pending'', ''Cancelled''}"
proof -
  have o: "get_patchset_status (ps_id p) (others d1) = Some ''In Review'' \<or>
      get_patchset_status (ps_id p) (others d1) = Some ''Cancelled''"
    if "get_patchset_status (ps_id p) d1 = map_option (\<lambda>_. ''In Review'') (get_patchset_status (ps_id p) d)" for d1
  proof -
    have e: "get_patchset_status (ps_id p) d1 = Some ''In Review''" using that assms(2) by auto
    show ?thesis using spec [OF assms(3), of d1] unfolding e by blast
  qed
  from assms(1,4) show ?thesis
  proof (cases rule: task_cases)
    case (not_applied d1)
    from o [OF not_applied(1)] show ?thesis unfolding not_applied(2) status_after_update by (elim disjE) simp_all
  next
    case (reviewed d1 m paused)
    from o [OF reviewed(1)] show ?thesis unfolding reviewed(2) finish_status by (elim disjE) simp_all
  qed
qed

text \<open>A cancel is lost when it comes too early: a patchset that is cancelled after the service
  has listed it as pending and before its task gets a permit is reviewed all the same, and its status
  tells nothing of the cancel.\<close>

theorem early_cancel_lost:
  assumes "\<forall>j k. review_tool (at_tool (env j k))" "p \<in> set (process_pending_patchsets open_now d)"
    and "review_patchset_task ctx p env (\<lambda>e. e) g (snd (cancel_patchset (ps_id p) force d)) = Some (g', d')"
  shows "get_patchset_status (ps_id p) d' \<in> Some ` {''Reviewed'', ''Failed'', ''Failed To Apply'', ''Pending''}"
proof -
  have "p \<in> set (patchsets d)"
    using assms(2) by (auto simp: process_pending_patchsets_def get_pending_patchsets_def dest: in_set_takeD split: if_splits)
  then have "find_patchset (ps_id p) d \<noteq> None"
    by (auto simp: find_patchset_def first_def filter_empty_conv split: list.splits)
  then have n: "get_patchset_status (ps_id p) d \<noteq> None" by (simp add: get_patchset_status_def)
  then obtain st where st: "get_patchset_status (ps_id p) (snd (cancel_patchset (ps_id p) force d)) = Some st"
    by (auto simp: status_cancel)
  from assms(1,3) show ?thesis
  proof (cases rule: task_cases)
    case (not_applied d1)
    show ?thesis unfolding not_applied(2) status_after_update not_applied(1) st by simp
  next
    case (reviewed d1 m paused)
    show ?thesis unfolding reviewed(2) finish_status reviewed(1) st by simp
  qed
qed

text \<open>A cancel during the review is kept when the reviews come to their end, whatever they gave,
  but the end of the review window turns the patchset back to pending, and it is reviewed in the next
  window.\<close>

theorem late_cancel:
  assumes "get_patchset_status i d \<noteq> None"
  shows "get_patchset_status i (finish_task i m paused (snd (cancel_patchset i True d))) =
    Some (if paused then ''Pending''
      else if cancellable True (the (get_patchset_status i d)) then ''Cancelled''
      else if the (get_patchset_status i d) = ''Cancelled'' then ''Cancelled''
      else if m = 0 then ''Reviewed'' else ''Failed'')"
proof -
  obtain st where st: "get_patchset_status i d = Some st" using assms by auto
  show ?thesis
    unfolding finish_status status_cancel st option.map option.sel by (cases "cancellable True st") simp_all
qed

subsection \<open>Releasing embargoed results\<close>

text \<open>The release of embargoed results can stall: ten patchsets whose embargo is over and that
  have no completed review, as when all their patches were skipped, are listed again at every turn;
  nothing is released, and no other patchset comes to its turn.\<close>

theorem release_stalls:
  assumes "\<forall>p\<in>set (get_expired_embargoed_patchsets now 10 d). get_completed_reviews_for_release from_str (ps_id p) d = []"
  shows "release_embargoed_results from_str to_text policy smtp now d = d"
proof -
  have "\<forall>p\<in>set ps. get_completed_reviews_for_release from_str (ps_id p) d = [] \<Longrightarrow>
      fold (release_patchset from_str to_text policy smtp now) ps d = d" for ps
    by (induction ps) (simp_all add: release_patchset_def)
  with assms show ?thesis by (simp add: release_embargoed_results_def)
qed

subsection \<open>Samples\<close>

definition sample_task :: "(string list \<times> string) TaskContext" where
  "sample_task = \<lparr>rt_rx = backtrack, rt_git = sample_git, rt_cx = sample_cx, rt_repository_path = ''repo'',
     rt_max_lines_changed = 9, rt_max_files_touched = 9, rt_iter = (\<lambda>x. x), rt_branches = (\<lambda>_. None),
     rt_registry = \<lparr>br_entries = [], br_remote_map = [], br_custom_remotes = None\<rparr>, rt_prompts_hash = None\<rparr>"

definition sample_row :: patchset_row where
  "sample_row = (hd (patchsets sample_db))\<lparr>ps_baseline := Some 1\<rparr>"

definition sample_task_db :: db where
  "sample_task_db = sample_db\<lparr>patchsets := [sample_row], messages := [sample_patch_mail],
     baselines := [\<lparr>bl_id = 1, bl_repo = None, bl_branch = None, bl_commit = Some ''good''\<rparr>]\<rparr>"

lemma sample_row_id: "ps_id sample_row = 1"
  by code_simp

lemma sample_task_tools: "\<forall>j k. review_tool (at_tool ((\<lambda>_. second_time) j k))"
  using second_time_tools by simp

lemma sample_task_run:
  "map_option (\<lambda>(g, d). (g, get_patchset_status 1 d))
     (review_patchset_task sample_task sample_row (\<lambda>_. second_time) (\<lambda>e. e) ([], []) sample_task_db) =
   Some (([], ''good''), Some ''Reviewed'')"
  by code_simp

theorem review_task_closes_witness:
  "\<exists>g' d'. review_patchset_task sample_task sample_row (\<lambda>_. second_time) (\<lambda>e. e) ([], []) sample_task_db = Some (g', d') \<and>
     get_patchset_status 1 d' \<noteq> Some ''In Review''"
proof -
  obtain g' d' where r: "review_patchset_task sample_task sample_row (\<lambda>_. second_time) (\<lambda>e. e) ([], [])
      sample_task_db = Some (g', d')" using sample_task_run by auto
  have n: "get_patchset_status (ps_id sample_row) sample_task_db \<noteq> None" by code_simp
  from review_task_closes [OF sample_task_tools n _ r] r show ?thesis by (auto simp: sample_row_id)
qed

theorem early_cancel_lost_witness:
  "sample_row \<in> set (process_pending_patchsets True sample_task_db) \<and>
   get_patchset_status 1 (snd (cancel_patchset 1 False sample_task_db)) = Some ''Cancelled'' \<and>
   (\<exists>g' d'. review_patchset_task sample_task sample_row (\<lambda>_. second_time) (\<lambda>e. e) ([], [])
        (snd (cancel_patchset 1 False sample_task_db)) = Some (g', d') \<and>
      get_patchset_status 1 d' \<noteq> Some ''Cancelled'')"
proof -
  have "process_pending_patchsets True sample_task_db = [sample_row]" by code_simp
  then have p: "sample_row \<in> set (process_pending_patchsets True sample_task_db)" by simp
  have c: "get_patchset_status 1 (snd (cancel_patchset 1 False sample_task_db)) = Some ''Cancelled''" by code_simp
  have "review_patchset_task sample_task sample_row (\<lambda>_. second_time) (\<lambda>e. e) ([], [])
      (snd (cancel_patchset (ps_id sample_row) False sample_task_db)) \<noteq> None" by code_simp
  then obtain g' d' where r: "review_patchset_task sample_task sample_row (\<lambda>_. second_time) (\<lambda>e. e) ([], [])
      (snd (cancel_patchset (ps_id sample_row) False sample_task_db)) = Some (g', d')" by auto
  from early_cancel_lost [OF sample_task_tools p r] have "get_patchset_status 1 d' \<noteq> Some ''Cancelled''"
    by (auto simp: sample_row_id)
  with p c r show ?thesis by (auto simp: sample_row_id)
qed

theorem late_cancel_witness:
  "get_patchset_status 1 (finish_task 1 0 False (snd (cancel_patchset 1 True sample_task_db))) = Some ''Cancelled'' \<and>
   get_patchset_status 1 (finish_task 1 0 True (snd (cancel_patchset 1 True sample_task_db))) = Some ''Pending''"
proof -
  have n: "get_patchset_status 1 sample_task_db = Some ''Pending''" by code_simp
  have "cancellable True ''Pending''" by code_simp
  with late_cancel [of 1 sample_task_db] n show ?thesis by simp
qed

text \<open>Ten skipped patchsets before one that has a review.\<close>

definition stalled_db :: db where
  "stalled_db = sample_task_db\<lparr>
     patchsets := List.map (\<lambda>i. sample_row\<lparr>ps_id := i, ps_date := i, ps_status := ''Reviewed'', ps_embargo := Some 5\<rparr>) [1..11],
     reviews := [\<lparr>rv_id = 1, rv_patchset = 11, rv_patch = Some 1, rv_summary = None, rv_result = None,
       rv_created = 3, rv_started = None, rv_completed = None, rv_interaction = None,
       rv_status = ''Reviewed'', rv_logs = None, rv_inline = Some ''text'', rv_baseline = None,
       rv_model = ''m'', rv_prompts = None, rv_provider = ''p''\<rparr>]\<rparr>"

theorem release_stalls_witness:
  "(\<exists>p\<in>set (patchsets stalled_db). embargo_expired 9 stalled_db p \<and>
      get_completed_reviews_for_release (\<lambda>_. None) (ps_id p) stalled_db \<noteq> []) \<and>
   release_embargoed_results (\<lambda>_. None) (\<lambda>_. []) (Inr sample_policy) None 9 stalled_db = stalled_db"
proof -
  have l: "\<forall>p\<in>set (get_expired_embargoed_patchsets 9 10 stalled_db).
      get_completed_reviews_for_release (\<lambda>_. None) (ps_id p) stalled_db = []" by code_simp
  have "\<exists>p\<in>set (patchsets stalled_db). embargo_expired 9 stalled_db p \<and>
      get_completed_reviews_for_release (\<lambda>_. None) (ps_id p) stalled_db \<noteq> []" by code_simp
  with release_stalls [OF l] show ?thesis by blast
qed

end
