(* ===== verification/Token_Budget.thy ===== *)
theory Token_Budget
  imports Prelude "HOL-Library.Word"
begin

text \<open>
  Counting and cutting by tokens: the counter of \<open>src/ai/token_budget.rs\<close> and the truncation of
  \<open>src/ai/truncator.rs\<close>. The tokenizer (the crate \<open>tiktoken_rs\<close>) is an argument \<open>bpe\<close>, the number
  of tokens of a text that is not empty. The counter is kept at its width of 64 bits.
\<close>

subsection \<open>The counter\<close>

type_synonym tokenizer = "string \<Rightarrow> nat"

record TokenBudget =
  tb_max_tokens :: "64 word"
  tb_current :: "64 word"

definition new_budget :: "64 word \<Rightarrow> TokenBudget" where
  "new_budget max_tokens = \<lparr>tb_max_tokens = max_tokens, tb_current = 0\<rparr>"

definition remaining :: "TokenBudget \<Rightarrow> 64 word" where
  "remaining b = (if tb_max_tokens b < tb_current b then 0 else tb_max_tokens b - tb_current b)"

definition can_afford :: "TokenBudget \<Rightarrow> 64 word \<Rightarrow> bool" where
  "can_afford b estimated_tokens \<longleftrightarrow> tb_current b + estimated_tokens \<le> tb_max_tokens b"

definition consume :: "64 word \<Rightarrow> TokenBudget \<Rightarrow> TokenBudget" where
  "consume tokens b = b\<lparr>tb_current := tb_current b + tokens\<rparr>"

definition reset_budget :: "TokenBudget \<Rightarrow> TokenBudget" where
  "reset_budget b = b\<lparr>tb_current := 0\<rparr>"

definition estimate_tokens :: "tokenizer \<Rightarrow> string \<Rightarrow> nat" where
  "estimate_tokens bpe txt = (if txt = [] then 0 else bpe txt)"

subsection \<open>Characters of a text\<close>

text \<open>A character of a Rust string is a first byte and the continuation bytes behind it.\<close>

definition is_cont :: "char \<Rightarrow> bool" where
  "is_cont c \<longleftrightarrow> 128 \<le> code c \<and> code c \<le> 191"

fun take_chars :: "nat \<Rightarrow> string \<Rightarrow> string" where
  "take_chars n [] = []"
| "take_chars 0 (c # s) = (if is_cont c then c # take_chars 0 s else [])"
| "take_chars (Suc n) (c # s) = c # take_chars (if is_cont c then Suc n else n) s"

definition char_count :: "string \<Rightarrow> nat" where
  "char_count s = length (filter (\<lambda>c. \<not> is_cont c) s)"

subsection \<open>Truncation\<close>

definition notice_chars :: "nat \<Rightarrow> nat \<Rightarrow> string" where
  "notice_chars estimated max_chars =
     newline # ''... [Output truncated. Content too large ('' @ show_nat estimated @
     '' tokens). Displaying first '' @ show_nat max_chars @ '' chars] ...'' @ [newline]"

definition notice_fallback :: "nat \<Rightarrow> string" where
  "notice_fallback max_chars =
     newline # ''... [Output truncated. Content too large. Displaying first '' @ show_nat max_chars @
     '' chars] ...'' @ [newline]"

definition notice_dropped :: "nat \<Rightarrow> string" where
  "notice_dropped n = newline # ''... [Diff truncated. Dropped '' @ show_nat n @ '' lines] ...'' @ [newline, newline]"

definition notice_filtered :: "nat \<Rightarrow> string" where
  "notice_filtered estimated =
     newline # ''... [Output truncated after line filtering. Original size: '' @ show_nat estimated @
     '' tokens] ...'' @ [newline]"

definition truncate_diff :: "tokenizer \<Rightarrow> string \<Rightarrow> nat \<Rightarrow> string" where
  "truncate_diff bpe diff max_tokens =
     (let estimated = estimate_tokens bpe diff; max_chars = max_tokens * 4; ls = lines diff;
          total_lines = length ls; allowed_lines = max_chars div 50;
          keep_top = allowed_lines div 2; keep_bottom = allowed_lines div 2;
          result = unlines (take keep_top ls) @ notice_dropped (total_lines - (keep_top + keep_bottom)) @
                   unlines (drop (total_lines - keep_bottom) ls)
      in if estimated \<le> max_tokens then diff
         else if total_lines \<le> allowed_lines
         then take_chars max_chars diff @ notice_chars estimated max_chars
         else if keep_top + keep_bottom \<ge> total_lines
         then take_chars max_chars diff @ notice_fallback max_chars
         else if estimate_tokens bpe result > max_tokens
         then take_chars max_chars result @ notice_filtered estimated
         else result)"

definition notice_collapsed :: "nat \<Rightarrow> string" where
  "notice_collapsed n = ''... ['' @ show_nat n @ '' lines collapsed] ...'' @ [newline]"

definition notice_context :: "nat \<Rightarrow> string" where
  "notice_context estimated =
     newline # ''... [Output truncated. Code context too large. Original size: '' @ show_nat estimated @
     '' tokens] ...'' @ [newline]"

text \<open>A slice whose start is behind its end panics: the result is \<open>None\<close>.\<close>

definition line_slice :: "nat \<Rightarrow> nat \<Rightarrow> 'a list \<Rightarrow> 'a list option" where
  "line_slice i j xs = (if i \<le> j \<and> j \<le> length xs then Some (drop i (take j xs)) else None)"

definition truncate_code :: "tokenizer \<Rightarrow> string \<Rightarrow> (nat \<times> nat) option \<Rightarrow> nat \<Rightarrow> string option" where
  "truncate_code bpe content focus_lines max_tokens =
     (let estimated = estimate_tokens bpe content; ls = lines content; total_lines = length ls
      in if estimated \<le> max_tokens then Some content
         else case focus_lines of
           None \<Rightarrow> Some (truncate_diff bpe content max_tokens)
         | Some (first_line, last_line) \<Rightarrow>
             (let start_focus = max first_line 1 - 1; end_focus = min last_line total_lines;
                  start_keep = start_focus - 50; end_keep = min (end_focus + 50) total_lines
              in case line_slice start_keep end_keep ls of
                   None \<Rightarrow> None
                 | Some kept \<Rightarrow>
                     (let result = (if start_keep > 0 then notice_collapsed start_keep else []) @ unlines kept @
                            (if end_keep < total_lines then notice_collapsed (total_lines - end_keep) else [])
                      in Some (if estimate_tokens bpe result > max_tokens
                               then take_chars (max_tokens * 4) result @ notice_context estimated
                               else result))))"

subsection \<open>What truncation keeps\<close>

lemma take_chars_prefix: "\<exists>t. s = take_chars n s @ t"
  by (induction n s rule: take_chars.induct) auto

lemma char_count_simps [simp]:
  "char_count [] = 0" "char_count (c # s) = (if is_cont c then char_count s else Suc (char_count s))"
  "char_count (s @ t) = char_count s + char_count t"
  by (simp_all add: char_count_def)

lemma take_chars_count: "char_count (take_chars n s) \<le> n"
  by (induction n s rule: take_chars.induct) auto

lemma take_chars_all: "char_count s \<le> n \<Longrightarrow> take_chars n s = s"
  by (induction n s rule: take_chars.induct) (auto split: if_splits)

text \<open>Where the line filter drops lines, it drops all but the same number at both ends.\<close>

definition kept_ends :: "nat \<Rightarrow> string \<Rightarrow> string" where
  "kept_ends k s =
     unlines (take k (lines s)) @ notice_dropped (length (lines s) - (k + k)) @
     unlines (drop (length (lines s) - k) (lines s))"

text \<open>What \<open>truncate_diff\<close> gives: the text itself when it is within the limit; otherwise a text that
  is within the limit, made of the first and the last lines with a note of how many are left out; or,
  with a note behind, at most four characters for each allowed token from the start of the text
  or of its two ends. The note itself is not counted, so only this case can pass the limit.\<close>

theorem truncate_diff_spec:
  "let r = truncate_diff bpe diff max_tokens; k = max_tokens * 4 div 50 div 2;
       est = estimate_tokens bpe diff
   in (est \<le> max_tokens \<longrightarrow> r = diff) \<and>
      (est > max_tokens \<longrightarrow>
        (estimate_tokens bpe r \<le> max_tokens \<and> k + k < length (lines diff) \<and> r = kept_ends k diff) \<or>
        (\<exists>kept note src. r = kept @ note \<and> char_count kept \<le> 4 * max_tokens \<and> (\<exists>rest. src = kept @ rest) \<and>
           (src = diff \<and> length (lines diff) \<le> max_tokens * 4 div 50 \<and> note = notice_chars est (max_tokens * 4) \<or>
            src = kept_ends k diff \<and> estimate_tokens bpe src > max_tokens \<and> note = notice_filtered est)))"
proof -
  define est where "est = estimate_tokens bpe diff"
  define allowed where "allowed = max_tokens * 4 div 50"
  define k where "k = allowed div 2"
  have k2: "k + k \<le> allowed" unfolding k_def allowed_def by simp
  have cut: "\<exists>kept rest. src = kept @ rest \<and> char_count kept \<le> 4 * max_tokens \<and> take_chars (max_tokens * 4) src = kept" for src
    using take_chars_prefix [of src "max_tokens * 4"] take_chars_count [of "max_tokens * 4" src]
    by (metis mult.commute)
  have r: "truncate_diff bpe diff max_tokens =
    (if est \<le> max_tokens then diff
     else if length (lines diff) \<le> allowed then take_chars (max_tokens * 4) diff @ notice_chars est (max_tokens * 4)
     else if k + k \<ge> length (lines diff) then take_chars (max_tokens * 4) diff @ notice_fallback (max_tokens * 4)
     else if estimate_tokens bpe (kept_ends k diff) > max_tokens
     then take_chars (max_tokens * 4) (kept_ends k diff) @ notice_filtered est else kept_ends k diff)"
    unfolding truncate_diff_def Let_def kept_ends_def est_def k_def allowed_def by simp
  let ?r = "truncate_diff bpe diff max_tokens"
  have over: "(estimate_tokens bpe ?r \<le> max_tokens \<and> k + k < length (lines diff) \<and> ?r = kept_ends k diff) \<or>
    (\<exists>kept note src. ?r = kept @ note \<and> char_count kept \<le> 4 * max_tokens \<and> (\<exists>rest. src = kept @ rest) \<and>
       (src = diff \<and> length (lines diff) \<le> allowed \<and> note = notice_chars est (max_tokens * 4) \<or>
        src = kept_ends k diff \<and> estimate_tokens bpe src > max_tokens \<and> note = notice_filtered est))"
    if over: "\<not> est \<le> max_tokens"
  proof (cases "length (lines diff) \<le> allowed")
    case True
    with over have "?r = take_chars (max_tokens * 4) diff @ notice_chars est (max_tokens * 4)" by (simp add: r)
    with cut [of diff] True show ?thesis by metis
  next
    case False
    with k2 have k3: "\<not> k + k \<ge> length (lines diff)" by linarith
    show ?thesis
    proof (cases "estimate_tokens bpe (kept_ends k diff) > max_tokens")
      case True
      with over False k3 have "?r = take_chars (max_tokens * 4) (kept_ends k diff) @ notice_filtered est"
        by (simp add: r)
      with cut [of "kept_ends k diff"] True show ?thesis by metis
    next
      case fits: False
      with over False k3 have "?r = kept_ends k diff" by (simp add: r)
      with fits k3 show ?thesis by simp
    qed
  qed
  have fits: "?r = diff" if "est \<le> max_tokens" using that by (simp add: r)
  show ?thesis
    unfolding Let_def allowed_def [symmetric] k_def [symmetric] est_def [symmetric]
    using over fits by (metis not_le)
qed

theorem truncate_diff_spec_witness:
  "estimate_tokens length ''abcdefgh'' > 1 \<and>
   (\<exists>kept note. truncate_diff length ''abcdefgh'' 1 = kept @ note \<and> char_count kept \<le> 4)"
proof -
  have e: "estimate_tokens length ''abcdefgh'' > 1" by code_simp
  have "\<not> estimate_tokens length (truncate_diff length ''abcdefgh'' 1) \<le> 1" by code_simp
  with e truncate_diff_spec [of length "''abcdefgh''" 1]
  have "\<exists>kept note src. truncate_diff length ''abcdefgh'' 1 = kept @ note \<and> char_count kept \<le> 4 * 1"
    unfolding Let_def by blast
  with e show ?thesis by auto
qed

text \<open>The text around a focus: when its first line is more than 50 lines behind the last one that is
  kept, the slice starts behind its end and the call panics, and in no other case.\<close>

theorem truncate_code_panics:
  "truncate_code bpe content (Some (a, b)) max_tokens = None \<longleftrightarrow>
   estimate_tokens bpe content > max_tokens \<and> min (min b (length (lines content)) + 50) (length (lines content)) + 50 < max a 1 - 1"
  by (auto simp: truncate_code_def Let_def line_slice_def)

end
