(* ===== verification/OpenAi_Stream.thy ===== *)
theory OpenAi_Stream
  imports Ai Utils Token_Budget
begin

text \<open>
  The reading side of the OpenAI client of \<open>src/ai/openai.rs\<close>: the types of the chat protocol, the
  errors, and the parser of streamed responses, from the bytes of the connection over the events
  and their data to the assembled response. The numbers of tokens and the indices of tool calls are
  kept at their width of 32 bits. Of \<open>serde_json\<close> the code uses the reader and the printer of values
  and the text of a decoding error: they are the argument \<open>sd\<close>. A struct is read from an object; the
  arrays that serde would also accept for it are errors here.
\<close>

type_synonym u32 = "32 word"

record serde =
  sd_from_str :: json_parser
  sd_to_string :: "json \<Rightarrow> string"
  sd_error :: "string \<Rightarrow> string"

subsection \<open>Messages of the protocol\<close>

record OpenAiToolCallFunction =
  fn_name :: string
  fn_arguments :: string

record OpenAiToolCall =
  oc_id :: string
  oc_tool_type :: string
  oc_function :: OpenAiToolCallFunction

record OpenAiMessage =
  om_role :: string
  om_content :: "string option"
  om_tool_calls :: "OpenAiToolCall list option"
  om_tool_call_id :: "string option"

record OpenAiUsage =
  ou_prompt_tokens :: u32
  ou_completion_tokens :: u32
  ou_total_tokens :: u32

record OpenAiChoice =
  ch_index :: u32
  ch_message :: OpenAiMessage
  ch_finish_reason :: string

record OpenAiResponse =
  or_choices :: "OpenAiChoice list"
  or_usage :: OpenAiUsage

record OpenAiToolCallFunctionDelta =
  fd_name :: "string option"
  fd_arguments :: "string option"

record OpenAiToolCallDelta =
  td_index :: u32
  td_id :: "string option"
  td_tool_type :: "string option"
  td_function :: "OpenAiToolCallFunctionDelta option"

record OpenAiDelta =
  de_role :: "string option"
  de_content :: "string option"
  de_tool_calls :: "OpenAiToolCallDelta list option"

record OpenAiStreamChoice =
  sc_delta :: OpenAiDelta
  sc_finish_reason :: "string option"

record OpenAiStreamChunk =
  ck_choices :: "OpenAiStreamChoice list"
  ck_usage :: "OpenAiUsage option"

record OpenAiStreamErrorBody =
  eb_message :: "string option"
  eb_error_type :: "string option"
  eb_code :: "json option"

subsection \<open>Reading them\<close>

fun json_u32 :: "json \<Rightarrow> u32 option" where
  "json_u32 (JInt n) = (if 0 \<le> n \<and> n < 2 ^ 32 then Some (word_of_int n) else None)"
| "json_u32 _ = None"

definition usage_of :: "json \<Rightarrow> OpenAiUsage option" where
  "usage_of v =
     do { p \<leftarrow> req_field json_u32 v ''prompt_tokens'';
          c \<leftarrow> req_field json_u32 v ''completion_tokens'';
          t \<leftarrow> req_field json_u32 v ''total_tokens'';
          Some \<lparr>ou_prompt_tokens = p, ou_completion_tokens = c, ou_total_tokens = t\<rparr> }"

definition function_of :: "json \<Rightarrow> OpenAiToolCallFunction option" where
  "function_of v =
     do { n \<leftarrow> req_field as_str_opt v ''name'';
          a \<leftarrow> req_field as_str_opt v ''arguments'';
          Some \<lparr>fn_name = n, fn_arguments = a\<rparr> }"

definition tool_call_of :: "json \<Rightarrow> OpenAiToolCall option" where
  "tool_call_of v =
     do { i \<leftarrow> req_field as_str_opt v ''id'';
          t \<leftarrow> req_field as_str_opt v ''type'';
          f \<leftarrow> req_field function_of v ''function'';
          Some \<lparr>oc_id = i, oc_tool_type = t, oc_function = f\<rparr> }"

definition message_of :: "json \<Rightarrow> OpenAiMessage option" where
  "message_of v =
     do { r \<leftarrow> req_field as_str_opt v ''role'';
          c \<leftarrow> opt_field as_str_opt v ''content'';
          t \<leftarrow> opt_field (list_of tool_call_of) v ''tool_calls'';
          i \<leftarrow> opt_field as_str_opt v ''tool_call_id'';
          Some \<lparr>om_role = r, om_content = c, om_tool_calls = t, om_tool_call_id = i\<rparr> }"

definition choice_of :: "json \<Rightarrow> OpenAiChoice option" where
  "choice_of v =
     do { i \<leftarrow> req_field json_u32 v ''index'';
          m \<leftarrow> req_field message_of v ''message'';
          f \<leftarrow> req_field as_str_opt v ''finish_reason'';
          Some \<lparr>ch_index = i, ch_message = m, ch_finish_reason = f\<rparr> }"

definition response_of :: "json \<Rightarrow> OpenAiResponse option" where
  "response_of v =
     do { c \<leftarrow> req_field (list_of choice_of) v ''choices'';
          u \<leftarrow> req_field usage_of v ''usage'';
          Some \<lparr>or_choices = c, or_usage = u\<rparr> }"

text \<open>A struct without a required field still has to be an object.\<close>

definition function_delta_of :: "json \<Rightarrow> OpenAiToolCallFunctionDelta option" where
  "function_delta_of v =
     do { _ \<leftarrow> as_object_opt v;
          n \<leftarrow> opt_field as_str_opt v ''name'';
          a \<leftarrow> opt_field as_str_opt v ''arguments'';
          Some \<lparr>fd_name = n, fd_arguments = a\<rparr> }"

definition tool_call_delta_of :: "json \<Rightarrow> OpenAiToolCallDelta option" where
  "tool_call_delta_of v =
     do { i \<leftarrow> req_field json_u32 v ''index'';
          d \<leftarrow> opt_field as_str_opt v ''id'';
          t \<leftarrow> opt_field as_str_opt v ''type'';
          f \<leftarrow> opt_field function_delta_of v ''function'';
          Some \<lparr>td_index = i, td_id = d, td_tool_type = t, td_function = f\<rparr> }"

definition delta_of :: "json \<Rightarrow> OpenAiDelta option" where
  "delta_of v =
     do { _ \<leftarrow> as_object_opt v;
          r \<leftarrow> opt_field as_str_opt v ''role'';
          c \<leftarrow> opt_field as_str_opt v ''content'';
          t \<leftarrow> opt_field (list_of tool_call_delta_of) v ''tool_calls'';
          Some \<lparr>de_role = r, de_content = c, de_tool_calls = t\<rparr> }"

definition stream_choice_of :: "json \<Rightarrow> OpenAiStreamChoice option" where
  "stream_choice_of v =
     do { _ \<leftarrow> req_field json_u32 v ''index'';
          d \<leftarrow> req_field delta_of v ''delta'';
          f \<leftarrow> opt_field as_str_opt v ''finish_reason'';
          Some \<lparr>sc_delta = d, sc_finish_reason = f\<rparr> }"

definition chunk_of :: "json \<Rightarrow> OpenAiStreamChunk option" where
  "chunk_of v =
     do { _ \<leftarrow> as_object_opt v;
          c \<leftarrow> (case jget v ''choices'' of None \<Rightarrow> Some [] | Some x \<Rightarrow> list_of stream_choice_of x);
          u \<leftarrow> opt_field usage_of v ''usage'';
          Some \<lparr>ck_choices = c, ck_usage = u\<rparr> }"

definition stream_error_of :: "json \<Rightarrow> OpenAiStreamErrorBody option" where
  "stream_error_of v =
     do { e \<leftarrow> jget v ''error'';
          _ \<leftarrow> as_object_opt e;
          m \<leftarrow> opt_field as_str_opt e ''message'';
          t \<leftarrow> opt_field as_str_opt e ''type'';
          c \<leftarrow> opt_field Some e ''code'';
          Some \<lparr>eb_message = m, eb_error_type = t, eb_code = c\<rparr> }"

subsection \<open>Errors\<close>

datatype OpenAiCompatError =
    RateLimitExceeded nat
  | TransientError nat string
  | AuthenticationError string
  | ApiError nat string

fun openai_error_class :: "OpenAiCompatError \<Rightarrow> AiErrorClass" where
  "openai_error_class (RateLimitExceeded wait) = RateLimit wait"
| "openai_error_class (TransientError wait _) = Transient wait"
| "openai_error_class (AuthenticationError _) = Fatal"
| "openai_error_class (ApiError status _) =
     (case classify_status_code status of Some c \<Rightarrow> c | None \<Rightarrow> Fatal)"

definition stream_error_to_openai_error :: "serde \<Rightarrow> OpenAiStreamErrorBody \<Rightarrow> OpenAiCompatError" where
  "stream_error_to_openai_error sd e =
     (let message = (case eb_message e of Some m \<Rightarrow> m | None \<Rightarrow> ''OpenAI stream returned an error'');
          error_type = (case eb_error_type e of Some t \<Rightarrow> t | None \<Rightarrow> []);
          code = (case eb_code e of Some v \<Rightarrow> sd_to_string sd v | None \<Rightarrow> []);
          detail = (if code = [] then message else message @ '' ('' @ code @ '')'')
      in if contains error_type ''rate_limit'' \<or> contains code ''429''
         then RateLimitExceeded (60 * nanos)
         else if contains error_type ''server'' \<or> contains error_type ''overload'' \<or>
                 contains code ''bad_gateway'' \<or> contains code ''timeout''
         then TransientError (30 * nanos) detail
         else ApiError 200 detail)"

subsection \<open>Events of the stream\<close>

text \<open>\<open>windows(n).position(..)\<close>: the first place where a pattern stands.\<close>

fun find_sub :: "string \<Rightarrow> string \<Rightarrow> nat option" where
  "find_sub p [] = (if p = [] then Some 0 else None)"
| "find_sub p (c # s) = (if starts_with (c # s) p then Some 0 else map_option Suc (find_sub p s))"

definition lf_lf :: string where "lf_lf = [newline, newline]"
definition crlf_crlf :: string where "crlf_crlf = [creturn, newline, creturn, newline]"

definition find_sse_delimiter :: "string \<Rightarrow> (nat \<times> nat) option" where
  "find_sse_delimiter buffer =
     (case (find_sub lf_lf buffer, find_sub crlf_crlf buffer) of
        (Some lf, Some crlf) \<Rightarrow> if lf < crlf then Some (lf, lf + 2) else Some (crlf, crlf + 4)
      | (Some lf, None) \<Rightarrow> Some (lf, lf + 2)
      | (None, Some crlf) \<Rightarrow> Some (crlf, crlf + 4)
      | (None, None) \<Rightarrow> None)"

definition drain_next_sse_event :: "string \<Rightarrow> (string \<times> string) option" where
  "drain_next_sse_event buffer =
     (case find_sse_delimiter buffer of
        None \<Rightarrow> None
      | Some (start, stop) \<Rightarrow> Some (take start buffer, drop stop buffer))"

text \<open>\<open>String::from_utf8\<close>: where the first error is, and how many bytes it has, or that the text
  ends within a character.\<close>

definition byte_in :: "int \<Rightarrow> int \<Rightarrow> char \<Rightarrow> bool" where
  "byte_in a b c \<longleftrightarrow> a \<le> code c \<and> code c \<le> b"

definition second_ok :: "char \<Rightarrow> char \<Rightarrow> bool" where
  "second_ok a b \<longleftrightarrow>
     (if code a = 224 then byte_in 160 191 b
      else if code a = 237 then byte_in 128 159 b
      else if code a = 240 then byte_in 144 191 b
      else if code a = 244 then byte_in 128 143 b
      else byte_in 128 191 b)"

definition utf8_width :: "char \<Rightarrow> nat" where
  "utf8_width c =
     (if code c < 128 then 1
      else if byte_in 194 223 c then 2
      else if byte_in 224 239 c then 3
      else if byte_in 240 244 c then 4
      else 0)"

fun rest_ok :: "nat \<Rightarrow> nat \<Rightarrow> string \<Rightarrow> nat option option" where
  "rest_ok n 0 s = None"
| "rest_ok n (Suc k) [] = Some None"
| "rest_ok n (Suc k) (c # s) = (if byte_in 128 191 c then rest_ok (Suc n) k s else Some (Some n))"

definition char_error :: "char \<Rightarrow> string \<Rightarrow> nat option option" where
  "char_error a s =
     (let w = utf8_width a
      in if w = 0 then Some (Some 1)
         else if w = 1 then None
         else case s of
           [] \<Rightarrow> Some None
         | b # s' \<Rightarrow> if second_ok a b then rest_ok 2 (w - 2) s' else Some (Some 1))"

function utf8_error :: "nat \<Rightarrow> string \<Rightarrow> (nat \<times> nat option) option" where
  "utf8_error i [] = None"
| "utf8_error i (a # s) =
     (case char_error a s of
        Some e \<Rightarrow> Some (i, e)
      | None \<Rightarrow> utf8_error (i + utf8_width a) (drop (utf8_width a - 1) s))"
  by pat_completeness auto
termination by (relation "measure (\<lambda>(i, s). length s)") auto

definition show_utf8_error :: "nat \<times> nat option \<Rightarrow> string" where
  "show_utf8_error e =
     (case e of
        (i, Some n) \<Rightarrow> ''invalid utf-8 sequence of '' @ show_nat n @ '' bytes from index '' @ show_nat i
      | (i, None) \<Rightarrow> ''incomplete utf-8 byte sequence from index '' @ show_nat i)"

definition data_line :: "string \<Rightarrow> string option" where
  "data_line l =
     (let l = trim_end_matches (\<lambda>c. c = creturn) l
      in if starts_with l '':'' then None
         else map_option (\<lambda>d. case strip_prefix '' '' d of Some r \<Rightarrow> r | None \<Rightarrow> d) (strip_prefix ''data:'' l))"

definition sse_event_data :: "string \<Rightarrow> string option" where
  "sse_event_data event =
     (let data_lines = List.map_filter data_line (lines event)
      in if data_lines = [] then None else Some (join [newline] data_lines))"

definition parse_sse_event_bytes :: "string \<Rightarrow> OpenAiCompatError + string option" where
  "parse_sse_event_bytes event =
     (case utf8_error 0 event of
        Some e \<Rightarrow> Inl (ApiError 200 (''Streaming UTF-8 decode error: '' @ show_utf8_error e))
      | None \<Rightarrow> Inr (sse_event_data event))"

subsection \<open>The response that is built up\<close>

record OpenAiToolCallAccumulator =
  ta_id :: "string option"
  ta_tool_type :: "string option"
  ta_name :: "string option"
  ta_arguments :: string

definition empty_call :: OpenAiToolCallAccumulator where
  "empty_call = \<lparr>ta_id = None, ta_tool_type = None, ta_name = None, ta_arguments = []\<rparr>"

text \<open>The calls by their index: a \<open>BTreeMap\<close> is the list of its entries in the order of the keys.\<close>

record OpenAiStreamAccumulator =
  ac_role :: "string option"
  ac_content :: string
  ac_tool_calls :: "(u32 \<times> OpenAiToolCallAccumulator) list"
  ac_finish_reason :: "string option"
  ac_usage :: "OpenAiUsage option"

definition empty_accumulator :: OpenAiStreamAccumulator where
  "empty_accumulator =
     \<lparr>ac_role = None, ac_content = [], ac_tool_calls = [], ac_finish_reason = None, ac_usage = None\<rparr>"

definition get_or_insert :: "'a option \<Rightarrow> 'a option \<Rightarrow> 'a option" where
  "get_or_insert old new = (case (old, new) of (None, Some x) \<Rightarrow> Some x | _ \<Rightarrow> old)"

definition overwrite :: "'a option \<Rightarrow> 'a option \<Rightarrow> 'a option" where
  "overwrite old new = (case new of Some x \<Rightarrow> Some x | None \<Rightarrow> old)"

definition text_of :: "string option \<Rightarrow> string" where
  "text_of m = (case m of Some s \<Rightarrow> s | None \<Rightarrow> [])"

definition update_call :: "OpenAiToolCallDelta \<Rightarrow> OpenAiToolCallAccumulator \<Rightarrow> OpenAiToolCallAccumulator" where
  "update_call d a =
     a\<lparr>ta_id := get_or_insert (ta_id a) (td_id d),
       ta_tool_type := get_or_insert (ta_tool_type a) (td_tool_type d),
       ta_name := get_or_insert (ta_name a) (Option.bind (td_function d) fd_name),
       ta_arguments := ta_arguments a @ text_of (Option.bind (td_function d) fd_arguments)\<rparr>"

text \<open>\<open>entry(index).or_default()\<close> and its update.\<close>

fun update_entry :: "u32 \<Rightarrow> (OpenAiToolCallAccumulator \<Rightarrow> OpenAiToolCallAccumulator) \<Rightarrow>
    (u32 \<times> OpenAiToolCallAccumulator) list \<Rightarrow> (u32 \<times> OpenAiToolCallAccumulator) list" where
  "update_entry i f [] = [(i, f empty_call)]"
| "update_entry i f ((j, a) # cs) =
     (if i < j then (i, f empty_call) # (j, a) # cs
      else if i = j then (j, f a) # cs
      else (j, a) # update_entry i f cs)"

definition apply_tool_call_delta :: "OpenAiToolCallDelta \<Rightarrow> OpenAiStreamAccumulator \<Rightarrow> OpenAiStreamAccumulator" where
  "apply_tool_call_delta d acc = acc\<lparr>ac_tool_calls := update_entry (td_index d) (update_call d) (ac_tool_calls acc)\<rparr>"

definition apply_choice :: "OpenAiStreamChoice \<Rightarrow> OpenAiStreamAccumulator \<Rightarrow> OpenAiStreamAccumulator" where
  "apply_choice c acc =
     (let d = sc_delta c;
          acc = acc\<lparr>ac_role := overwrite (ac_role acc) (de_role d),
                    ac_content := ac_content acc @ text_of (de_content d)\<rparr>;
          acc = fold apply_tool_call_delta (case de_tool_calls d of Some ts \<Rightarrow> ts | None \<Rightarrow> []) acc
      in acc\<lparr>ac_finish_reason := overwrite (ac_finish_reason acc) (sc_finish_reason c)\<rparr>)"

definition apply_chunk :: "OpenAiStreamChunk \<Rightarrow> OpenAiStreamAccumulator \<Rightarrow> OpenAiStreamAccumulator" where
  "apply_chunk k acc =
     fold apply_choice (ck_choices k) (acc\<lparr>ac_usage := overwrite (ac_usage acc) (ck_usage k)\<rparr>)"

definition apply_stream_data ::
    "serde \<Rightarrow> OpenAiStreamAccumulator \<Rightarrow> string \<Rightarrow> OpenAiCompatError + OpenAiStreamAccumulator" where
  "apply_stream_data sd acc data =
     (case Option.bind (sd_from_str sd data) stream_error_of of
        Some e \<Rightarrow> Inl (stream_error_to_openai_error sd e)
      | None \<Rightarrow>
          (case Option.bind (sd_from_str sd data) chunk_of of
             None \<Rightarrow> Inl (ApiError 200 (''Streaming parse error: '' @ sd_error sd data))
           | Some k \<Rightarrow> Inr (apply_chunk k acc)))"

definition fallback_stream_usage ::
    "tokenizer \<Rightarrow> u32 \<Rightarrow> string option \<Rightarrow> OpenAiToolCall list option \<Rightarrow> OpenAiUsage" where
  "fallback_stream_usage bpe prompt_tokens content tool_calls =
     (let content_tokens = (case content of Some s \<Rightarrow> estimate_tokens bpe s | None \<Rightarrow> 0);
          tool_tokens = (case tool_calls of
              Some calls \<Rightarrow>
                (\<Sum>c\<leftarrow>calls. estimate_tokens bpe (fn_name (oc_function c)) +
                            estimate_tokens bpe (fn_arguments (oc_function c)))
            | None \<Rightarrow> 0);
          completion_tokens = of_nat (content_tokens + tool_tokens) :: u32
      in \<lparr>ou_prompt_tokens = prompt_tokens, ou_completion_tokens = completion_tokens,
          ou_total_tokens = prompt_tokens + completion_tokens\<rparr>)"

definition finished_call :: "u32 \<times> OpenAiToolCallAccumulator \<Rightarrow> OpenAiToolCall" where
  "finished_call ic = (case ic of (i, c) \<Rightarrow>
     \<lparr>oc_id = (case ta_id c of Some s \<Rightarrow> s | None \<Rightarrow> ''call_'' @ show_nat (unat i)),
      oc_tool_type = (case ta_tool_type c of Some s \<Rightarrow> s | None \<Rightarrow> ''function''),
      oc_function = \<lparr>fn_name = text_of (ta_name c), fn_arguments = ta_arguments c\<rparr>\<rparr>)"

definition into_response ::
    "tokenizer \<Rightarrow> u32 \<Rightarrow> OpenAiStreamAccumulator \<Rightarrow> OpenAiCompatError + OpenAiResponse" where
  "into_response bpe prompt_tokens acc =
     (let has_content = (ac_content acc \<noteq> []); has_tool_calls = (ac_tool_calls acc \<noteq> []);
          tool_calls = (if has_tool_calls then Some (List.map finished_call (ac_tool_calls acc)) else None);
          content = (if has_content then Some (ac_content acc) else None)
      in if \<not> has_content \<and> \<not> has_tool_calls
         then Inl (ApiError 200 ''OpenAI stream completed without content or tool calls'')
         else Inr \<lparr>or_choices =
             [\<lparr>ch_index = 0,
               ch_message = \<lparr>om_role = (case ac_role acc of Some r \<Rightarrow> r | None \<Rightarrow> ''assistant''),
                             om_content = content, om_tool_calls = tool_calls, om_tool_call_id = None\<rparr>,
               ch_finish_reason = (case ac_finish_reason acc of
                   Some r \<Rightarrow> r
                 | None \<Rightarrow> if tool_calls \<noteq> None then ''tool_calls'' else ''stop'')\<rparr>],
           or_usage = (case ac_usage acc of
               Some u \<Rightarrow> u
             | None \<Rightarrow> fallback_stream_usage bpe prompt_tokens content tool_calls)\<rparr>)"

subsection \<open>The parser\<close>

record OpenAiSseStreamParser =
  ps_buffer :: string
  ps_accumulator :: OpenAiStreamAccumulator

definition new_parser :: OpenAiSseStreamParser where
  "new_parser = \<lparr>ps_buffer = [], ps_accumulator = empty_accumulator\<rparr>"

lemma find_sub_bound: "find_sub p s = Some i \<Longrightarrow> i + length p \<le> length s"
proof (induction s arbitrary: i)
  case (Cons c s)
  then show ?case
    by (auto simp: starts_with_def split: if_splits) (metis length_Cons length_take min_def_raw nat_le_linear)+
qed (auto split: if_splits)

lemma find_sse_delimiter_bound:
  "find_sse_delimiter b = Some (i, j) \<Longrightarrow> i < j \<and> j \<le> length b"
  using find_sub_bound [of lf_lf b] find_sub_bound [of crlf_crlf b]
  by (auto simp: find_sse_delimiter_def lf_lf_def crlf_crlf_def split: option.splits if_splits)

lemma drain_shorter: "drain_next_sse_event b = Some (e, r) \<Longrightarrow> length r < length b"
  using find_sse_delimiter_bound
  by (fastforce simp: drain_next_sse_event_def split: option.splits)

text \<open>The loop of \<open>push_bytes\<close>; the parser is not used again after an error.\<close>

function push_loop :: "serde \<Rightarrow> tokenizer \<Rightarrow> u32 \<Rightarrow> OpenAiSseStreamParser \<Rightarrow>
    OpenAiCompatError + OpenAiResponse option \<times> OpenAiSseStreamParser" where
  "push_loop sd bpe prompt_tokens p =
     (case drain_next_sse_event (ps_buffer p) of
        None \<Rightarrow> Inr (None, p)
      | Some (event, rest) \<Rightarrow>
          (case parse_sse_event_bytes event of
             Inl e \<Rightarrow> Inl e
           | Inr None \<Rightarrow> push_loop sd bpe prompt_tokens (p\<lparr>ps_buffer := rest\<rparr>)
           | Inr (Some data) \<Rightarrow>
               if trim data = ''[DONE]''
               then (case into_response bpe prompt_tokens (ps_accumulator p) of
                       Inl e \<Rightarrow> Inl e
                     | Inr r \<Rightarrow> Inr (Some r, p\<lparr>ps_buffer := rest, ps_accumulator := empty_accumulator\<rparr>))
               else (case apply_stream_data sd (ps_accumulator p) data of
                       Inl e \<Rightarrow> Inl e
                     | Inr acc \<Rightarrow>
                         push_loop sd bpe prompt_tokens (p\<lparr>ps_buffer := rest, ps_accumulator := acc\<rparr>))))"
  by pat_completeness auto
termination
  by (relation "measure (\<lambda>(sd, bpe, n, p). length (ps_buffer p))") (auto dest: drain_shorter)

declare push_loop.simps [simp del]

definition push_bytes :: "serde \<Rightarrow> tokenizer \<Rightarrow> string \<Rightarrow> u32 \<Rightarrow> OpenAiSseStreamParser \<Rightarrow>
    OpenAiCompatError + OpenAiResponse option \<times> OpenAiSseStreamParser" where
  "push_bytes sd bpe bytes prompt_tokens p =
     push_loop sd bpe prompt_tokens (p\<lparr>ps_buffer := ps_buffer p @ bytes\<rparr>)"

definition finish :: "tokenizer \<Rightarrow> u32 \<Rightarrow> OpenAiSseStreamParser \<Rightarrow> OpenAiCompatError + OpenAiResponse" where
  "finish bpe prompt_tokens p = into_response bpe prompt_tokens (ps_accumulator p)"

definition parse_openai_sse_events :: "serde \<Rightarrow> tokenizer \<Rightarrow> string \<Rightarrow> u32 \<Rightarrow> OpenAiCompatError + OpenAiResponse" where
  "parse_openai_sse_events sd bpe raw prompt_tokens =
     (case push_bytes sd bpe raw prompt_tokens new_parser of
        Inl e \<Rightarrow> Inl e
      | Inr (Some r, _) \<Rightarrow> Inr r
      | Inr (None, p) \<Rightarrow> finish bpe prompt_tokens p)"

text \<open>What the connection gives: bytes, a failure, or silence for the whole of the idle timeout; it
  is closed where the list ends. Without a timeout, silence is waited out.\<close>

datatype stream_item = Chunk string | ReadError string | Idle

fun read_stream :: "engine \<Rightarrow> serde \<Rightarrow> tokenizer \<Rightarrow> nat \<Rightarrow> u32 \<Rightarrow> OpenAiSseStreamParser \<Rightarrow> stream_item list \<Rightarrow>
    OpenAiCompatError + OpenAiResponse" where
  "read_stream rx sd bpe idle_secs prompt_tokens p [] = finish bpe prompt_tokens p"
| "read_stream rx sd bpe idle_secs prompt_tokens p (Chunk bytes # xs) =
     (case push_bytes sd bpe bytes prompt_tokens p of
        Inl e \<Rightarrow> Inl e
      | Inr (Some r, _) \<Rightarrow> Inr r
      | Inr (None, p') \<Rightarrow> read_stream rx sd bpe idle_secs prompt_tokens p' xs)"
| "read_stream rx sd bpe idle_secs prompt_tokens p (ReadError e # xs) =
     Inl (TransientError (30 * nanos) (redact_secret rx e))"
| "read_stream rx sd bpe idle_secs prompt_tokens p (Idle # xs) =
     (if idle_secs = 0 then read_stream rx sd bpe idle_secs prompt_tokens p xs
      else Inl (TransientError (30 * nanos) (''OpenAI stream idle timeout after '' @ show_nat idle_secs @ '' seconds'')))"

subsection \<open>How the bytes are cut does not matter\<close>

lemma find_sub_match: "find_sub p s = Some i \<Longrightarrow> k < length p \<Longrightarrow> s ! (i + k) = p ! k"
proof (induction s arbitrary: i)
  case (Cons c s)
  then show ?case by (auto simp: starts_with_iff nth_append split: if_splits)
qed (auto split: if_splits)

lemma starts_with_longer: "length p \<le> length s \<Longrightarrow> starts_with (s @ t) p \<longleftrightarrow> starts_with s p"
  by (simp add: starts_with_def)

lemma find_sub_append: "find_sub p s = Some i \<Longrightarrow> find_sub p (s @ t) = Some i"
proof (induction s arbitrary: i)
  case (Cons c s)
  have "length p \<le> length (c # s)" using find_sub_bound [OF Cons.prems] by simp
  from starts_with_longer [OF this, of t] Cons show ?case by (auto split: if_splits)
next
  case Nil
  then show ?case by (cases t) (auto split: if_splits)
qed

lemma find_sub_new: "find_sub p s = None \<Longrightarrow> find_sub p (s @ t) = Some i \<Longrightarrow> length s < i + length p"
proof (induction s arbitrary: i)
  case (Cons c s)
  show ?case
  proof (cases "length p \<le> length (c # s)")
    case True
    from starts_with_longer [OF this, of t] Cons show ?thesis by (auto split: if_splits)
  qed simp
qed (auto simp: not_less split: if_splits)

lemma find_sse_delimiter_append:
  assumes "find_sse_delimiter b = Some d"
  shows "find_sse_delimiter (b @ x) = Some d"
proof -
  have lengths: "length lf_lf = 2" "length crlf_crlf = 4" by (simp_all add: lf_lf_def crlf_crlf_def)
  have apart: "l < c" if l: "find_sub lf_lf b = Some l" and n: "find_sub crlf_crlf b = None"
      and c: "find_sub crlf_crlf (b @ x) = Some c" for l c
  proof (rule ccontr)
    assume "\<not> l < c"
    moreover have "l + 2 \<le> length b" using find_sub_bound [OF l] lengths by simp
    moreover have "length b < c + 4" using find_sub_new [OF n c] lengths by simp
    ultimately have "l = c \<or> l = c + 1" by linarith
    moreover have "(b @ x) ! (l + 0) = newline" "(b @ x) ! (l + 1) = newline"
      using find_sub_match [OF find_sub_append [OF l, of x], of 0]
        find_sub_match [OF find_sub_append [OF l, of x], of 1] by (simp_all add: lf_lf_def)
    moreover have "(b @ x) ! (c + 0) = creturn" "(b @ x) ! (c + 2) = creturn"
      using find_sub_match [OF c, of 0] find_sub_match [OF c, of 2] by (simp_all add: crlf_crlf_def)
    ultimately show False by (auto simp: add.commute add.left_commute)
  qed
  have behind: "c < l" if "find_sub crlf_crlf b = Some c" "find_sub lf_lf b = None"
      "find_sub lf_lf (b @ x) = Some l" for l c
    using find_sub_bound [OF that(1)] find_sub_new [OF that(2,3)] lengths by linarith
  show ?thesis
  proof (cases "find_sub lf_lf b")
    case None
    with assms obtain c where c: "find_sub crlf_crlf b = Some c" "d = (c, c + 4)"
      by (auto simp: find_sse_delimiter_def split: option.splits)
    with None behind [OF c(1) None] show ?thesis
      by (cases "find_sub lf_lf (b @ x)") (auto simp: find_sse_delimiter_def find_sub_append)
  next
    case (Some l)
    show ?thesis
    proof (cases "find_sub crlf_crlf b")
      case None
      with assms Some apart [OF Some None] show ?thesis
        by (cases "find_sub crlf_crlf (b @ x)") (auto simp: find_sse_delimiter_def find_sub_append)
    next
      case c: (Some c)
      with assms Some show ?thesis by (simp add: find_sse_delimiter_def find_sub_append)
    qed
  qed
qed

lemma drain_append:
  assumes "drain_next_sse_event b = Some (e, r)"
  shows "drain_next_sse_event (b @ x) = Some (e, r @ x)"
proof -
  from assms obtain i j where d: "find_sse_delimiter b = Some (i, j)" "e = take i b" "r = drop j b"
    by (auto simp: drain_next_sse_event_def split: option.splits)
  with find_sse_delimiter_bound [OF d(1)] show ?thesis
    by (simp add: drain_next_sse_event_def find_sse_delimiter_append [OF d(1)])
qed

abbreviation feed :: "string \<Rightarrow> OpenAiSseStreamParser \<Rightarrow> OpenAiSseStreamParser" where
  "feed x p \<equiv> p\<lparr>ps_buffer := ps_buffer p @ x\<rparr>"

lemma push_loop_append:
  "case push_loop sd bpe n p of
     Inl e \<Rightarrow> push_loop sd bpe n (feed x p) = Inl e
   | Inr (Some r, _) \<Rightarrow> \<exists>q. push_loop sd bpe n (feed x p) = Inr (Some r, q)
   | Inr (None, q) \<Rightarrow> push_loop sd bpe n (feed x p) = push_loop sd bpe n (feed x q)"
proof (induction sd bpe n p rule: push_loop.induct)
  case (1 sd bpe n p)
  show ?case
  proof (cases "drain_next_sse_event (ps_buffer p)")
    case None
    then have "push_loop sd bpe n p = Inr (None, p)" by (simp add: push_loop.simps)
    then show ?thesis by simp
  next
    case (Some er)
    then obtain e r where d: "drain_next_sse_event (ps_buffer p) = Some (e, r)" by (cases er) auto
    have d': "drain_next_sse_event (ps_buffer p @ x) = Some (e, r @ x)"
      using drain_append [OF d] by simp
    note unfolds = push_loop.simps [of sd bpe n p] push_loop.simps [of sd bpe n "feed x p"] d d'
    show ?thesis
    proof (cases "parse_sse_event_bytes e")
      case (Inl a)
      then show ?thesis by (simp add: unfolds)
    next
      case (Inr m)
      note parsed = Inr
      show ?thesis
      proof (cases m)
        case None
        have here: "push_loop sd bpe n p = push_loop sd bpe n (p\<lparr>ps_buffer := r\<rparr>)"
          by (simp add: unfolds Inr None)
        have there: "push_loop sd bpe n (feed x p) = push_loop sd bpe n (feed x (p\<lparr>ps_buffer := r\<rparr>))"
          by (simp add: unfolds Inr None)
        show ?thesis unfolding here there by (rule "1.IH"(1) [OF d refl Inr None])
      next
        case m: (Some data)
        show ?thesis
        proof (cases "trim data = ''[DONE]''")
          case True
          then show ?thesis
            by (cases "into_response bpe n (ps_accumulator p)") (simp_all add: unfolds Inr m)
        next
          case more: False
          show ?thesis
          proof (cases "apply_stream_data sd (ps_accumulator p) data")
            case (Inr acc)
            let ?q = "p\<lparr>ps_buffer := r, ps_accumulator := acc\<rparr>"
            have here: "push_loop sd bpe n p = push_loop sd bpe n ?q"
              by (simp add: unfolds parsed m more Inr)
            have swap: "p\<lparr>ps_buffer := y, ps_accumulator := z\<rparr> = p\<lparr>ps_accumulator := z, ps_buffer := y\<rparr>"
              for y z by (cases p) simp
            have there: "push_loop sd bpe n (feed x p) = push_loop sd bpe n (feed x ?q)"
              by (simp add: unfolds parsed m more Inr swap)
            show ?thesis unfolding here there
              by (rule "1.IH"(2) [OF d refl parsed m more Inr])
          qed (simp add: unfolds Inr m more)
        qed
      qed
    qed
  qed
qed

lemma push_bytes_append:
  "case push_bytes sd bpe a n p of
     Inl e \<Rightarrow> push_bytes sd bpe (a @ b) n p = Inl e
   | Inr (Some r, _) \<Rightarrow> \<exists>q. push_bytes sd bpe (a @ b) n p = Inr (Some r, q)
   | Inr (None, q) \<Rightarrow> push_bytes sd bpe (a @ b) n p = push_bytes sd bpe b n q"
proof -
  have f: "feed (a @ b) p = feed b (feed a p)" by simp
  show ?thesis unfolding push_bytes_def f by (rule push_loop_append)
qed

lemma read_two_chunks:
  "read_stream rx sd bpe t n p (Chunk a # Chunk b # xs) = read_stream rx sd bpe t n p (Chunk (a @ b) # xs)"
proof (cases "push_bytes sd bpe a n p")
  case (Inl e)
  with push_bytes_append [where sd = sd and bpe = bpe and a = a and n = n and p = p and b = b] show ?thesis by simp
next
  case (Inr m)
  obtain r q where m: "m = (r, q)" by (cases m)
  from push_bytes_append [where sd = sd and bpe = bpe and a = a and n = n and p = p and b = b] Inr m show ?thesis
    by (cases r) auto
qed

lemma read_chunks:
  "read_stream rx sd bpe t n p (Chunk a # List.map Chunk cs) =
   read_stream rx sd bpe t n p [Chunk (a @ concat cs)]"
proof (induction cs arbitrary: a)
  case (Cons c cs)
  have "read_stream rx sd bpe t n p (Chunk a # List.map Chunk (c # cs)) =
      read_stream rx sd bpe t n p (Chunk (a @ c) # List.map Chunk cs)"
    using read_two_chunks by simp
  also have "\<dots> = read_stream rx sd bpe t n p [Chunk ((a @ c) @ concat cs)]" by (rule Cons.IH)
  finally show ?case by simp
qed simp

lemma push_nothing: "push_bytes sd bpe [] n new_parser = Inr (None, new_parser)"
proof -
  have "drain_next_sse_event [] = None"
    by (simp add: drain_next_sse_event_def find_sse_delimiter_def lf_lf_def crlf_crlf_def)
  then show ?thesis by (simp add: push_bytes_def new_parser_def push_loop.simps)
qed

text \<open>C30. A streamed response does not depend on how the connection cuts it into pieces, be it within an
  event, within the line ends between two events or within a character: it is what the parser makes of
  the whole text..\<close>

theorem stream_pieces:
  "read_stream rx sd bpe idle_secs prompt_tokens new_parser (List.map Chunk cs) =
   parse_openai_sse_events sd bpe (concat cs) prompt_tokens"
proof (cases cs)
  case Nil
  then show ?thesis
    using push_nothing [of sd bpe prompt_tokens] by (simp add: parse_openai_sse_events_def)
next
  case (Cons c cs')
  then show ?thesis
    using read_chunks [of rx sd bpe idle_secs prompt_tokens new_parser c cs']
    by (simp add: parse_openai_sse_events_def split: sum.splits option.splits)
qed

subsection \<open>What the response is made of\<close>

definition choice_calls :: "OpenAiStreamChoice \<Rightarrow> OpenAiToolCallDelta list" where
  "choice_calls c = (case de_tool_calls (sc_delta c) of Some ts \<Rightarrow> ts | None \<Rightarrow> [])"

definition all_choices :: "OpenAiStreamChunk list \<Rightarrow> OpenAiStreamChoice list" where
  "all_choices ks = concat (List.map ck_choices ks)"

definition all_deltas :: "OpenAiStreamChunk list \<Rightarrow> OpenAiToolCallDelta list" where
  "all_deltas ks = concat (List.map choice_calls (all_choices ks))"

text \<open>The call of an index, from the deltas in their order: the first name, id and type, and all parts
  of the arguments.\<close>

definition call_at :: "OpenAiToolCallDelta list \<Rightarrow> u32 \<Rightarrow> OpenAiToolCallAccumulator" where
  "call_at ds i =
     (let here = filter (\<lambda>d. td_index d = i) ds
      in \<lparr>ta_id = first (List.map_filter td_id here), ta_tool_type = first (List.map_filter td_tool_type here),
          ta_name = first (List.map_filter (\<lambda>d. Option.bind (td_function d) fd_name) here),
          ta_arguments = concat (List.map (\<lambda>d. text_of (Option.bind (td_function d) fd_arguments)) here)\<rparr>)"

definition calls_of :: "OpenAiToolCallDelta list \<Rightarrow> (u32 \<times> OpenAiToolCallAccumulator) list" where
  "calls_of ds = List.map (\<lambda>i. (i, call_at ds i)) (sorted_list_of_set (td_index ` set ds))"

lemma first_filter_snoc:
  "first (List.map_filter f (xs @ [x])) = get_or_insert (first (List.map_filter f xs)) (f x)"
  by (induction xs) (auto simp: List.map_filter_simps get_or_insert_def split: option.splits)

lemma call_at_snoc:
  "call_at (ds @ [d]) i = (if td_index d = i then update_call d (call_at ds i) else call_at ds i)"
  by (simp add: call_at_def Let_def update_call_def first_filter_snoc)

lemma call_at_none: "i \<notin> td_index ` set ds \<Longrightarrow> call_at ds i = empty_call"
proof -
  assume "i \<notin> td_index ` set ds"
  then have "filter (\<lambda>d. td_index d = i) ds = []" by (auto simp: filter_empty_conv)
  then show ?thesis by (simp add: call_at_def empty_call_def List.map_filter_simps)
qed

lemma update_entry_sorted:
  assumes "sorted xs" "distinct xs" "i \<notin> set xs \<longrightarrow> g i = empty_call"
  shows "update_entry i f (List.map (\<lambda>j. (j, g j)) xs) =
    List.map (\<lambda>j. (j, if i = j then f (g j) else g j)) (insort_key (\<lambda>x. x) i (remove1 i xs))"
  using assms
proof (induction xs)
  case (Cons j xs)
  have fresh: "List.map (\<lambda>k. (k, if i = k then f (g k) else g k)) ys = List.map (\<lambda>k. (k, g k)) ys"
    if "i \<notin> set ys" for ys using that by auto
  consider "i < j" | "i = j" | "j < i" by (rule linorder_cases)
  then show ?case
  proof cases
    case 1
    with Cons.prems have "i \<notin> set (j # xs)" by auto
    with 1 Cons.prems fresh [of "j # xs"] show ?thesis by (simp add: remove1_idem)
  next
    case 2
    with Cons.prems have "i \<notin> set xs" "insort_key (\<lambda>x. x) j xs = j # xs"
      by (auto simp: insort_is_Cons)
    with 2 fresh [of xs] show ?thesis by simp
  next
    case 3
    with Cons show ?thesis by auto
  qed
qed simp

lemma calls_of_snoc: "update_entry (td_index d) (update_call d) (calls_of ds) = calls_of (ds @ [d])"
proof -
  let ?S = "td_index ` set ds" and ?i = "td_index d"
  have "update_entry ?i (update_call d) (calls_of ds) =
    List.map (\<lambda>j. (j, if ?i = j then update_call d (call_at ds j) else call_at ds j))
      (insort_key (\<lambda>x. x) ?i (remove1 ?i (sorted_list_of_set ?S)))"
    unfolding calls_of_def by (rule update_entry_sorted) (simp_all add: call_at_none)
  moreover have "insort_key (\<lambda>x. x) ?i (remove1 ?i (sorted_list_of_set ?S)) = sorted_list_of_set (insert ?i ?S)"
    by (simp add: sorted_list_of_set.sorted_key_list_of_set_insert_remove sorted_list_of_set.sorted_key_list_of_set_remove)
  ultimately show ?thesis by (simp add: calls_of_def call_at_snoc)
qed

text \<open>The accumulator after some chunks.\<close>

definition last_some :: "'a option list \<Rightarrow> 'a option" where
  "last_some ms = fold (\<lambda>m acc. overwrite acc m) ms None"

definition assembled :: "OpenAiStreamChunk list \<Rightarrow> OpenAiStreamAccumulator" where
  "assembled ks =
     \<lparr>ac_role = last_some (List.map (\<lambda>c. de_role (sc_delta c)) (all_choices ks)),
      ac_content = concat (List.map (\<lambda>c. text_of (de_content (sc_delta c))) (all_choices ks)),
      ac_tool_calls = calls_of (all_deltas ks),
      ac_finish_reason = last_some (List.map sc_finish_reason (all_choices ks)),
      ac_usage = last_some (List.map ck_usage ks)\<rparr>"

text \<open>The same for choices, behind an accumulator.\<close>

definition extended :: "OpenAiStreamChoice list \<Rightarrow> OpenAiToolCallDelta list \<Rightarrow> OpenAiStreamAccumulator \<Rightarrow> OpenAiStreamAccumulator" where
  "extended cs ds acc =
     acc\<lparr>ac_role := fold (\<lambda>m r. overwrite r m) (List.map (\<lambda>c. de_role (sc_delta c)) cs) (ac_role acc),
         ac_content := ac_content acc @ concat (List.map (\<lambda>c. text_of (de_content (sc_delta c))) cs),
         ac_tool_calls := calls_of (ds @ concat (List.map choice_calls cs)),
         ac_finish_reason := fold (\<lambda>m r. overwrite r m) (List.map sc_finish_reason cs) (ac_finish_reason acc)\<rparr>"

lemma fold_tool_calls:
  "ac_tool_calls acc = calls_of ds \<Longrightarrow>
   fold apply_tool_call_delta ts acc = acc\<lparr>ac_tool_calls := calls_of (ds @ ts)\<rparr>"
proof (induction ts arbitrary: acc ds)
  case (Cons t ts)
  have "ac_tool_calls (apply_tool_call_delta t acc) = calls_of (ds @ [t])"
    using Cons.prems by (simp add: apply_tool_call_delta_def calls_of_snoc)
  from Cons.IH [OF this] show ?case by (simp add: apply_tool_call_delta_def)
qed simp

lemma apply_choice_extended:
  assumes "ac_tool_calls acc = calls_of ds"
  shows "apply_choice c acc = extended [c] ds acc"
proof -
  have "ac_tool_calls (acc\<lparr>ac_role := r, ac_content := s\<rparr>) = calls_of ds" for r s
    using assms by simp
  note fold_tool_calls [OF this]
  then show ?thesis by (simp add: apply_choice_def extended_def choice_calls_def Let_def split: option.split)
qed

lemma fold_choices:
  "ac_tool_calls acc = calls_of ds \<Longrightarrow> fold apply_choice cs acc = extended cs ds acc"
proof (induction cs arbitrary: acc ds)
  case (Cons c cs)
  have "ac_tool_calls (apply_choice c acc) = calls_of (ds @ choice_calls c)"
    using apply_choice_extended [OF Cons.prems] by (simp add: extended_def)
  note Cons.IH [OF this]
  then show ?case using apply_choice_extended [OF Cons.prems] by (simp add: extended_def)
qed (simp add: extended_def)

lemma apply_chunk_assembled: "apply_chunk k (assembled ks) = assembled (ks @ [k])"
proof -
  let ?a = "(assembled ks)\<lparr>ac_usage := overwrite (ac_usage (assembled ks)) (ck_usage k)\<rparr>"
  have "ac_tool_calls ?a = calls_of (all_deltas ks)" by (simp add: assembled_def)
  note fold_choices [OF this, of "ck_choices k"]
  then show ?thesis
    by (simp add: apply_chunk_def assembled_def extended_def all_choices_def all_deltas_def last_some_def)
qed

lemma assembled_nil: "assembled [] = empty_accumulator"
  by (simp add: assembled_def empty_accumulator_def all_choices_def all_deltas_def calls_of_def last_some_def)

lemma fold_chunks: "fold apply_chunk ks (assembled js) = assembled (js @ ks)"
  by (induction ks arbitrary: js) (simp_all add: apply_chunk_assembled)

subsection \<open>Whole streams\<close>

text \<open>An event with one line of data, as servers write it.\<close>

definition sse_event :: "string \<Rightarrow> string" where
  "sse_event d = ''data: '' @ d @ lf_lf"

definition plain_data :: "string \<Rightarrow> bool" where
  "plain_data d \<longleftrightarrow> newline \<notin> set d \<and> creturn \<notin> set d \<and> utf8_error 0 d = None"

definition chunk_data :: "serde \<Rightarrow> string \<Rightarrow> OpenAiStreamChunk \<Rightarrow> bool" where
  "chunk_data sd d k \<longleftrightarrow> plain_data d \<and> trim d \<noteq> ''[DONE]'' \<and>
     Option.bind (sd_from_str sd d) stream_error_of = None \<and>
     Option.bind (sd_from_str sd d) chunk_of = Some k"

lemma find_sub_char: "find_sub p s = Some i \<Longrightarrow> p = c # q \<Longrightarrow> c \<notin> set r \<Longrightarrow> s = r @ t \<Longrightarrow> length r \<le> i"
  using find_sub_match [of p s i 0] find_sub_bound [of p s i]
  by (metis add.right_neutral leI length_Cons nth_Cons_0 nth_append nth_mem zero_less_Suc)

lemma find_sub_here: "p = c # q \<Longrightarrow> c \<notin> set r \<Longrightarrow> find_sub p (r @ p @ t) = Some (length r)"
proof (induction r)
  case Nil
  then show ?case using starts_with_append [of p t] by simp
qed (auto simp: starts_with_def)

lemma drain_event:
  assumes "newline \<notin> set r" "creturn \<notin> set r"
  shows "drain_next_sse_event (r @ lf_lf @ t) = Some (r, t)"
proof -
  have l: "find_sub lf_lf (r @ lf_lf @ t) = Some (length r)"
    by (rule find_sub_here [of _ newline "[newline]"]) (simp_all add: lf_lf_def assms)
  have "length r < c" if c: "find_sub crlf_crlf (r @ lf_lf @ t) = Some c" for c
  proof -
    have "length (r @ lf_lf) \<le> c"
      by (rule find_sub_char [OF c, of creturn "[newline, creturn, newline]" _ t])
        (use assms in \<open>simp_all add: crlf_crlf_def lf_lf_def\<close>)
    then show ?thesis by (simp add: lf_lf_def)
  qed
  with l show ?thesis
    by (cases "find_sub crlf_crlf (r @ lf_lf @ t)")
      (simp_all add: drain_next_sse_event_def find_sse_delimiter_def lf_lf_def)
qed

lemma utf8_error_shift: "utf8_error i s = None \<longleftrightarrow> utf8_error j s = None"
proof (induction i s arbitrary: j rule: utf8_error.induct)
  case (2 i a s)
  then show ?case by (cases "char_error a s") auto
qed simp

lemma utf8_error_ascii: "code a < 128 \<Longrightarrow> utf8_error 0 (a # s) = None \<longleftrightarrow> utf8_error 0 s = None"
  using utf8_error_shift [of 1 s 0] by (simp add: char_error_def utf8_width_def)

lemma data_prefix_chars:
  "newline \<notin> set ''data: ''" "creturn \<notin> set ''data: ''" "\<forall>c\<in>set ''data: ''. code c < 128"
  "starts_with (''data: '' @ d) ''data:''" "\<not> starts_with (''data: '' @ d) '':''"
  "drop 5 (''data: '' @ d) = CHR '' '' # d"
  by (simp_all add: starts_with_def code_def)

lemma trim_end_matches_none: "\<forall>c\<in>set s. \<not> p c \<Longrightarrow> trim_end_matches p s = s"
  by (cases s rule: rev_cases) (simp_all add: trim_end_matches_def)

lemma event_data:
  assumes "plain_data d"
  shows "parse_sse_event_bytes (''data: '' @ d) = Inr (Some d)"
proof -
  let ?l = "''data: '' @ d"
  have u: "utf8_error 0 ?l = None"
    using assms data_prefix_chars(3) by (simp add: plain_data_def utf8_error_ascii del: utf8_error.simps)
  have n: "newline \<notin> set ?l" "creturn \<notin> set ?l" using assms data_prefix_chars(1,2) by (auto simp: plain_data_def)
  have "split_char newline ?l = [?l]" using n by (intro split_on_none) auto
  then have ls: "lines ?l = [?l]" by (simp add: lines_def)
  have "trim_end_matches (\<lambda>c. c = creturn) ?l = ?l" using n by (intro trim_end_matches_none) auto
  then have "data_line ?l = Some d"
    using data_prefix_chars(4-6) by (simp add: data_line_def Let_def strip_prefix_def starts_with_def)
  then have "List.map_filter data_line (lines ?l) = [d]" unfolding ls by (simp add: List.map_filter_simps)
  then have "sse_event_data ?l = Some d" unfolding sse_event_data_def by simp
  with u show ?thesis by (simp add: parse_sse_event_bytes_def)
qed

lemma drain_sse: "plain_data d \<Longrightarrow> drain_next_sse_event (sse_event d @ t) = Some (''data: '' @ d, t)"
  using drain_event [of "''data: '' @ d" t] data_prefix_chars(1,2) by (simp add: sse_event_def plain_data_def)

lemma push_event:
  assumes "chunk_data sd d k"
  shows "push_loop sd bpe n \<lparr>ps_buffer = sse_event d @ t, ps_accumulator = acc\<rparr> =
    push_loop sd bpe n \<lparr>ps_buffer = t, ps_accumulator = apply_chunk k acc\<rparr>"
proof -
  have "plain_data d" using assms by (simp add: chunk_data_def)
  note drain_sse [OF this, of t] event_data [OF this]
  with assms show ?thesis
    by (subst push_loop.simps) (simp add: chunk_data_def apply_stream_data_def del: append.simps)
qed

lemma push_events:
  "list_all2 (chunk_data sd) ds ks \<Longrightarrow>
   push_loop sd bpe n \<lparr>ps_buffer = concat (List.map sse_event ds) @ t, ps_accumulator = acc\<rparr> =
   push_loop sd bpe n \<lparr>ps_buffer = t, ps_accumulator = fold apply_chunk ks acc\<rparr>"
proof (induction ds ks arbitrary: acc rule: list_all2_induct)
  case (Cons d ds k ks)
  then show ?case using push_event [OF Cons.hyps(1)] by simp
qed simp

lemma done_plain: "plain_data ''[DONE]''" "trim ''[DONE]'' = ''[DONE]''"
  by code_simp+

text \<open>C34. A stream of events that each hold one chunk gives, when the end mark arrives, the response
  assembled from the chunks, whatever follows the mark; and when the connection is closed before the
  mark, the same response. The assembled response has the contents one behind the other, and for each
  index of a tool call, in rising order, the call with the first name and id sent for it and all pieces
  of its arguments in their order.\<close>

theorem stream_assembled:
  assumes "list_all2 (chunk_data sd) ds ks"
  shows "parse_openai_sse_events sd bpe (concat (List.map sse_event ds) @ sse_event ''[DONE]'' @ rest) n =
      into_response bpe n (assembled ks) \<and>
    parse_openai_sse_events sd bpe (concat (List.map sse_event ds)) n = into_response bpe n (assembled ks)"
proof -
  have acc: "fold apply_chunk ks empty_accumulator = assembled ks"
    using fold_chunks [of ks "[]"] by (simp add: assembled_nil)
  have push: "push_bytes sd bpe (concat (List.map sse_event ds) @ t) n new_parser =
      push_loop sd bpe n \<lparr>ps_buffer = t, ps_accumulator = assembled ks\<rparr>" for t
    using push_events [OF assms, of bpe n t empty_accumulator] by (simp add: push_bytes_def new_parser_def acc)
  have fin: "push_loop sd bpe n \<lparr>ps_buffer = sse_event ''[DONE]'' @ rest, ps_accumulator = assembled ks\<rparr> =
      (case into_response bpe n (assembled ks) of Inl e \<Rightarrow> Inl e
       | Inr r \<Rightarrow> Inr (Some r, \<lparr>ps_buffer = rest, ps_accumulator = empty_accumulator\<rparr>))"
    using drain_sse [OF done_plain(1), of rest] event_data [OF done_plain(1)] done_plain(2)
    by (subst push_loop.simps) (simp del: append.simps split: sum.split)
  have "drain_next_sse_event [] = None"
    by (simp add: drain_next_sse_event_def find_sse_delimiter_def lf_lf_def crlf_crlf_def)
  then have none: "push_loop sd bpe n \<lparr>ps_buffer = [], ps_accumulator = assembled ks\<rparr> =
      Inr (None, \<lparr>ps_buffer = [], ps_accumulator = assembled ks\<rparr>)"
    by (subst push_loop.simps) simp
  show ?thesis
    using push [of "sse_event ''[DONE]'' @ rest"] push [of "[]"] fin none
    by (simp add: parse_openai_sse_events_def finish_def split: sum.splits)
qed

text \<open>An example: the arguments of a call come in two chunks.\<close>

definition sample_call_chunk :: "string \<Rightarrow> json" where
  "sample_call_chunk args =
     JObj [(''choices'', JArr [JObj [(''index'', JInt 0), (''delta'', JObj [(''tool_calls'', JArr
       [JObj [(''index'', JInt 0), (''function'', JObj [(''name'', JStr ''f''), (''arguments'', JStr args)])]])])]])]"

definition sample_serde :: serde where
  "sample_serde =
     \<lparr>sd_from_str = (\<lambda>s. if s = ''a'' \<or> s = ''b'' then Some (sample_call_chunk s) else None),
      sd_to_string = (\<lambda>_. []), sd_error = (\<lambda>_. [])\<rparr>"

definition sample_chunks :: "OpenAiStreamChunk list" where
  "sample_chunks = List.map_filter (\<lambda>s. Option.bind (sd_from_str sample_serde s) chunk_of) [''a'', ''b'']"

theorem stream_assembled_witness:
  "map_option (List.map (\<lambda>c. fn_arguments (oc_function c)))
     (case parse_openai_sse_events sample_serde (\<lambda>_. 1)
        (concat (List.map sse_event [''a'', ''b'']) @ sse_event ''[DONE]'' @ ''junk'') 7 of
        Inr r \<Rightarrow> om_tool_calls (ch_message (hd (or_choices r))) | Inl _ \<Rightarrow> None) = Some [''ab'']"
proof -
  have "list_all2 (chunk_data sample_serde) [''a'', ''b''] sample_chunks" by code_simp
  from stream_assembled [OF this, of "\<lambda>_. 1" "''junk''" 7]
  have "parse_openai_sse_events sample_serde (\<lambda>_. 1)
      (concat (List.map sse_event [''a'', ''b'']) @ sse_event ''[DONE]'' @ ''junk'') 7 =
      into_response (\<lambda>_. 1) 7 (assembled sample_chunks)" ..
  moreover have "map_option (List.map (\<lambda>c. fn_arguments (oc_function c)))
     (case into_response (\<lambda>_. 1) 7 (assembled sample_chunks) of
        Inr r \<Rightarrow> om_tool_calls (ch_message (hd (or_choices r))) | Inl _ \<Rightarrow> None) = Some [''ab'']"
    by code_simp
  ultimately show ?thesis by (simp only:)
qed

text \<open>An error object whose \<open>error\<close> is a text is not read as an error but as a chunk without choices, and the
  stream goes on as if nothing had been sent.\<close>

theorem text_error_ignored:
  assumes "sd_from_str sd data = Some (JObj [(''error'', JStr msg)])"
  shows "apply_stream_data sd acc data = Inr acc"
  using assms
  by (simp add: apply_stream_data_def stream_error_of_def chunk_of_def opt_field_def apply_chunk_def overwrite_def)

end
