(* ===== verification/OpenAi.thy ===== *)
theory OpenAi
  imports OpenAi_Stream "HOL-Library.Code_Target_Nat"
begin

text \<open>
  The writing side and the calls of the OpenAI client of \<open>src/ai/openai.rs\<close>: addresses and defaults,
  the translation of requests and responses, the errors of HTTP and the call itself with its second
  attempt. The HTTP client is the argument \<open>post\<close>, which sends a body to the server and changes the
  world. Floating point numbers of 64 bits are rounded as IEEE 754 does. A panic is \<open>None\<close>.
\<close>

subsection \<open>Addresses and defaults\<close>

definition normalize_base_url :: "string \<Rightarrow> string" where
  "normalize_base_url url =
     (let url = trim_end_matches (\<lambda>c. c = CHR ''/'') url
      in if ends_with url ''/chat/completions'' then url else url @ ''/chat/completions'')"

definition default_base_url_for_model :: "string \<Rightarrow> string" where
  "default_base_url_for_model model =
     (if starts_with model ''glm-'' then ''https://open.bigmodel.cn/api/paas/v4/chat/completions''
      else if starts_with model ''moonshot-'' then ''https://api.moonshot.cn/v1/chat/completions''
      else if starts_with model ''abab7-'' \<or> starts_with model ''MiniMax-''
      then ''https://api.minimax.chat/v1/text/chatcompletion_v2''
      else ''https://api.openai.com/v1/chat/completions'')"

definition default_context_window_for_model :: "string \<Rightarrow> nat" where
  "default_context_window_for_model model =
     (if starts_with model ''glm-'' \<or> starts_with model ''moonshot-'' then 128000
      else if starts_with model ''abab7-'' \<or> starts_with model ''MiniMax-'' then 245760
      else if starts_with model ''gpt-4o'' \<or> starts_with model ''gpt-4-turbo'' then 128000
      else if starts_with model ''gpt-3.5'' then 16385
      else 128000)"

subsection \<open>Requests\<close>

datatype OpenAiProviderType = OfficialOpenAi | OpenAiCompatible

record OpenAiTool =
  ot_tool_type :: string
  ot_name :: string
  ot_description :: string
  ot_parameters :: json

record OpenAiRequest =
  oq_model :: string
  oq_messages :: "OpenAiMessage list"
  oq_tools :: "OpenAiTool list option"
  oq_temperature :: "string option"
  oq_max_tokens :: "u32 option"
  oq_max_completion_tokens :: "u32 option"
  oq_response_format :: "json option"
  oq_stream :: "bool option"
  oq_stream_options :: "json option"

definition plain_message :: "string \<Rightarrow> string option \<Rightarrow> OpenAiMessage" where
  "plain_message r c = \<lparr>om_role = r, om_content = c, om_tool_calls = None, om_tool_call_id = None\<rparr>"

definition translate_call :: "serde \<Rightarrow> ToolCall \<Rightarrow> OpenAiToolCall" where
  "translate_call sd t =
     \<lparr>oc_id = tc_id t, oc_tool_type = ''function'',
      oc_function = \<lparr>fn_name = tc_function_name t, fn_arguments = sd_to_string sd (tc_arguments t)\<rparr>\<rparr>"

fun translate_message :: "serde \<Rightarrow> AiMessage \<Rightarrow> OpenAiMessage" where
  "translate_message sd m =
     (case mg_role m of
        System \<Rightarrow> plain_message ''system'' (mg_content m)
      | User \<Rightarrow> plain_message ''user'' (mg_content m)
      | Assistant \<Rightarrow> (plain_message ''assistant'' (mg_content m))
          \<lparr>om_tool_calls := map_option (List.map (translate_call sd)) (mg_tool_calls m)\<rparr>
      | Tool \<Rightarrow> (plain_message ''tool'' (mg_content m))\<lparr>om_tool_call_id := mg_tool_call_id m\<rparr>)"

definition says_json :: "OpenAiMessage \<Rightarrow> bool" where
  "says_json m \<longleftrightarrow> (case om_content m of Some c \<Rightarrow> contains (lower c) ''json'' | None \<Rightarrow> False)"

definition add_json_hint :: "OpenAiMessage \<Rightarrow> OpenAiMessage" where
  "add_json_hint m = m\<lparr>om_content := Some (text_of (om_content m) @ newline # ''Respond in JSON format.'')\<rparr>"

text \<open>\<open>iter_mut().find(..)\<close>: the first element that satisfies the test is changed, if there is one.\<close>

fun change_first :: "('a \<Rightarrow> bool) \<Rightarrow> ('a \<Rightarrow> 'a) \<Rightarrow> 'a list \<Rightarrow> 'a list option" where
  "change_first p f [] = None"
| "change_first p f (x # xs) = (if p x then Some (f x # xs) else map_option ((#) x) (change_first p f xs))"

definition ensure_json_word :: "OpenAiMessage list \<Rightarrow> OpenAiMessage list" where
  "ensure_json_word ms =
     (if list_ex says_json ms then ms
      else case change_first (\<lambda>m. om_role m = ''system'') add_json_hint ms of
        Some ms' \<Rightarrow> ms'
      | None \<Rightarrow> plain_message ''system'' (Some ''Respond in JSON format.'') # ms)"

definition translate_tool :: "AiTool \<Rightarrow> OpenAiTool" where
  "translate_tool t = \<lparr>ot_tool_type = ''function'', ot_name = tl_name t, ot_description = tl_description t,
     ot_parameters = tl_parameters t\<rparr>"

definition format_json :: "AiResponseFormat \<Rightarrow> json" where
  "format_json f = JObj [(''type'', JStr (case f of Json _ \<Rightarrow> ''json_object'' | Text \<Rightarrow> ''text''))]"

definition translate_ai_request :: "serde \<Rightarrow> AiRequest \<Rightarrow> u32 \<Rightarrow> OpenAiProviderType \<Rightarrow> OpenAiRequest" where
  "translate_ai_request sd request max_tokens provider_type =
     (let messages = (case rq_system request of Some s \<Rightarrow> [plain_message ''system'' (Some s)] | None \<Rightarrow> []) @
            List.map (translate_message sd) (rq_messages request);
          tools = Option.bind (rq_tools request)
            (\<lambda>ts. if ts = [] then None else Some (List.map translate_tool ts));
          response_format = map_option format_json (rq_response_format request);
          wants_json = (case response_format of
              Some rf \<Rightarrow> jindex rf ''type'' = JStr ''json_object'' | None \<Rightarrow> False);
          messages = (if wants_json then ensure_json_word messages else messages)
      in \<lparr>oq_model = [], oq_messages = messages, oq_tools = tools, oq_temperature = rq_temperature request,
          oq_max_tokens = (if provider_type = OpenAiCompatible then Some max_tokens else None),
          oq_max_completion_tokens = (if provider_type = OfficialOpenAi then Some max_tokens else None),
          oq_response_format = response_format, oq_stream = None, oq_stream_options = None\<rparr>)"

text \<open>\<open>serde_json::to_value\<close> of the request.\<close>

definition openai_call_json :: "OpenAiToolCall \<Rightarrow> json" where
  "openai_call_json c =
     JObj [(''id'', JStr (oc_id c)), (''type'', JStr (oc_tool_type c)),
           (''function'', JObj [(''name'', JStr (fn_name (oc_function c))),
                              (''arguments'', JStr (fn_arguments (oc_function c)))])]"

definition openai_message_json :: "OpenAiMessage \<Rightarrow> json" where
  "openai_message_json m =
     JObj ([(''role'', JStr (om_role m))] @ some_field ''content'' JStr (om_content m) @
       some_field ''tool_calls'' (\<lambda>cs. JArr (List.map openai_call_json cs)) (om_tool_calls m) @
       some_field ''tool_call_id'' JStr (om_tool_call_id m))"

definition openai_tool_json :: "OpenAiTool \<Rightarrow> json" where
  "openai_tool_json t =
     JObj [(''type'', JStr (ot_tool_type t)),
           (''function'', JObj [(''name'', JStr (ot_name t)), (''description'', JStr (ot_description t)),
                              (''parameters'', ot_parameters t)])]"

definition openai_request_json :: "OpenAiRequest \<Rightarrow> json" where
  "openai_request_json r =
     JObj ([(''model'', JStr (oq_model r)), (''messages'', JArr (List.map openai_message_json (oq_messages r)))] @
       some_field ''tools'' (\<lambda>ts. JArr (List.map openai_tool_json ts)) (oq_tools r) @
       some_field ''temperature'' JFloat (oq_temperature r) @
       some_field ''max_tokens'' (\<lambda>n. JInt (uint n)) (oq_max_tokens r) @
       some_field ''max_completion_tokens'' (\<lambda>n. JInt (uint n)) (oq_max_completion_tokens r) @
       some_field ''response_format'' (\<lambda>v. v) (oq_response_format r) @
       some_field ''stream'' JBool (oq_stream r) @
       some_field ''stream_options'' (\<lambda>v. v) (oq_stream_options r))"

definition estimate_tokens_generic :: "tokenizer \<Rightarrow> serde \<Rightarrow> AiRequest \<Rightarrow> nat" where
  "estimate_tokens_generic bpe sd r =
     (case rq_system r of Some s \<Rightarrow> estimate_tokens bpe s | None \<Rightarrow> 0) +
     (\<Sum>m\<leftarrow>rq_messages r.
        (case mg_content m of Some c \<Rightarrow> estimate_tokens bpe c | None \<Rightarrow> 0) +
        (case mg_tool_calls m of
           Some cs \<Rightarrow> (\<Sum>c\<leftarrow>cs. estimate_tokens bpe (tc_function_name c) +
                               estimate_tokens bpe (sd_to_string sd (tc_arguments c)))
         | None \<Rightarrow> 0)) +
     (case rq_tools r of
        Some ts \<Rightarrow> (\<Sum>t\<leftarrow>ts. estimate_tokens bpe (tl_name t) + estimate_tokens bpe (tl_description t) +
                            estimate_tokens bpe (sd_to_string sd (tl_parameters t)))
      | None \<Rightarrow> 0)"

subsection \<open>Responses\<close>

datatype client_error = Compat OpenAiCompatError | NoChoices

fun client_error_class :: "client_error \<Rightarrow> AiErrorClass" where
  "client_error_class (Compat e) = openai_error_class e"
| "client_error_class NoChoices = Fatal"

definition received_call :: "serde \<Rightarrow> OpenAiToolCall \<Rightarrow> ToolCall" where
  "received_call sd t =
     \<lparr>tc_id = oc_id t, tc_function_name = fn_name (oc_function t),
      tc_arguments = (case sd_from_str sd (fn_arguments (oc_function t)) of Some v \<Rightarrow> v | None \<Rightarrow> JNull),
      tc_thought_signature = None\<rparr>"

definition translate_ai_response :: "serde \<Rightarrow> OpenAiResponse \<Rightarrow> client_error + AiResponse" where
  "translate_ai_response sd resp =
     (case or_choices resp of
        [] \<Rightarrow> Inl NoChoices
      | choice # _ \<Rightarrow>
          Inr \<lparr>rs_content = om_content (ch_message choice), rs_thought = None, rs_thought_signature = None,
               rs_tool_calls = map_option (List.map (received_call sd)) (om_tool_calls (ch_message choice)),
               rs_usage = Some \<lparr>us_prompt_tokens = unat (ou_prompt_tokens (or_usage resp)),
                                us_completion_tokens = unat (ou_completion_tokens (or_usage resp)),
                                us_total_tokens = unat (ou_total_tokens (or_usage resp)),
                                us_cached_tokens = None\<rparr>\<rparr>)"

subsection \<open>Seconds in floating point\<close>

definition round_half_even :: "nat \<Rightarrow> nat \<Rightarrow> nat" where
  "round_half_even a b =
     (let q = a div b; r = a mod b
      in if 2 * r < b then q else if b < 2 * r then Suc q else if even q then q else Suc q)"

text \<open>The 64-bit number next to \<open>a / b\<close>, as a fraction: 53 bits, scaled by a power of two.\<close>

function f64_down :: "nat \<Rightarrow> nat \<Rightarrow> nat \<Rightarrow> nat \<times> nat" where
  "f64_down a b k =
     (if 0 < a \<and> a < 2 ^ 52 * b then f64_down (2 * a) b (2 * k) else (round_half_even a b, k))"
  by pat_completeness auto
termination by (relation "measure (\<lambda>(a, b, k). 2 ^ 52 * b - a)") auto

function f64_up :: "nat \<Rightarrow> nat \<Rightarrow> nat \<Rightarrow> nat \<times> nat" where
  "f64_up a b k =
     (if 0 < b \<and> 2 ^ 53 * b \<le> a then f64_up a (2 * b) (2 * k) else (round_half_even a b * k, 1))"
  by pat_completeness auto
termination by (relation "measure (\<lambda>(a, b, k). a - b)") auto

declare f64_down.simps [simp del] f64_up.simps [simp del]

definition f64_of :: "nat \<Rightarrow> nat \<Rightarrow> nat \<times> nat" where
  "f64_of a b = (if 2 ^ 53 * b \<le> a then f64_up a b 1 else f64_down a b 1)"

text \<open>\<open>parse::<f64>\<close> of a text of digits and points: digits with at most one point.\<close>

definition parse_f64 :: "string \<Rightarrow> (nat \<times> nat) option" where
  "parse_f64 s =
     (let parts = split_char CHR ''.'' s; whole = hd parts; frac = concat (tl parts)
      in if length parts \<le> 2 \<and> whole @ frac \<noteq> [] \<and> list_all is_digit (whole @ frac)
         then Some (f64_of (nat (digits_value 0 (whole @ frac))) (10 ^ length frac)) else None)"

text \<open>\<open>Duration::from_secs_f64\<close>: rounded to nanoseconds; it panics where the seconds do not fit 64
  bits.\<close>

definition from_secs_f64 :: "nat \<times> nat \<Rightarrow> nat option" where
  "from_secs_f64 x =
     (let n = round_half_even (fst x * nanos) (snd x) in if n < 2 ^ 64 * nanos then Some n else None)"

subsection \<open>HTTP\<close>

record HttpResponse =
  hr_status :: nat
  hr_retry_after :: "string option"
  hr_body :: "string + string"
  hr_stream :: "stream_item list"

definition parse_u64 :: "string \<Rightarrow> nat option" where
  "parse_u64 s =
     (let d = (case s of c # r \<Rightarrow> if c = CHR ''+'' then r else s | [] \<Rightarrow> [])
      in if d \<noteq> [] \<and> list_all is_digit d \<and> digits_value 0 d < 2 ^ 64
         then Some (nat (digits_value 0 d)) else None)"

definition retry_re :: re where
  "retry_re = seqs [word_lit ''Please retry in '',
     Group 1 (Seq (Cl (OneOf ''0123456789.'')) (Star True (Cl (OneOf ''0123456789.'')))), Cl (Lit CHR ''s'')]"

definition retry_seconds :: "engine \<Rightarrow> nat option \<Rightarrow> string \<Rightarrow> nat \<times> nat" where
  "retry_seconds rx retry_after_secs error_text =
     (let secs = f64_of (case retry_after_secs of Some n \<Rightarrow> n | None \<Rightarrow> 60) 1
      in case captures rx retry_re error_text of
           None \<Rightarrow> secs
         | Some cs \<Rightarrow>
             (case Option.bind (group_text error_text cs 1) parse_f64 of Some x \<Rightarrow> x | None \<Rightarrow> secs))"

definition error_from_response :: "engine \<Rightarrow> HttpResponse \<Rightarrow> OpenAiCompatError option" where
  "error_from_response rx res =
     (let status = hr_status res;
          retry_after_secs = Option.bind (hr_retry_after res) parse_u64;
          error_text = redact_secret rx (case hr_body res of Inr t \<Rightarrow> t | Inl _ \<Rightarrow> [])
      in if status = 429
         then map_option RateLimitExceeded (from_secs_f64 (retry_seconds rx retry_after_secs error_text))
         else if status = 401 \<or> status = 403 then Some (AuthenticationError error_text)
         else if 500 \<le> status \<and> status \<le> 599
         then Some (TransientError ((case retry_after_secs of Some n \<Rightarrow> n | None \<Rightarrow> 0) * nanos) error_text)
         else Some (ApiError status error_text))"

type_synonym 'w post = "json \<Rightarrow> 'w \<Rightarrow> (string + HttpResponse) \<times> 'w"
type_synonym 'a result = "(OpenAiCompatError + 'a) option"

definition is_success :: "HttpResponse \<Rightarrow> bool" where
  "is_success res \<longleftrightarrow> 200 \<le> hr_status res \<and> hr_status res < 300"

definition transport_error :: "engine \<Rightarrow> string \<Rightarrow> OpenAiCompatError" where
  "transport_error rx e = TransientError (30 * nanos) (redact_secret rx e)"

definition post_request :: "engine \<Rightarrow> serde \<Rightarrow> 'w post \<Rightarrow> json \<Rightarrow> 'w \<Rightarrow> OpenAiResponse result \<times> 'w" where
  "post_request rx sd post body w =
     (case post body w of
        (Inl e, w) \<Rightarrow> (Some (Inl (transport_error rx e)), w)
      | (Inr res, w) \<Rightarrow>
          (if is_success res
           then (case hr_body res of
               Inl e \<Rightarrow> Some (Inl (transport_error rx e))
             | Inr body_text \<Rightarrow>
                 (case Option.bind (sd_from_str sd body_text) response_of of
                    Some r \<Rightarrow> Some (Inr r)
                  | None \<Rightarrow> Some (Inl (ApiError (hr_status res) (''Parse error: '' @ sd_error sd body_text)))))
           else map_option Inl (error_from_response rx res), w))"

definition post_stream_request ::
    "engine \<Rightarrow> serde \<Rightarrow> tokenizer \<Rightarrow> nat \<Rightarrow> 'w post \<Rightarrow> json \<Rightarrow> u32 \<Rightarrow> 'w \<Rightarrow> OpenAiResponse result \<times> 'w" where
  "post_stream_request rx sd bpe idle_secs post body prompt_tokens w =
     (case post body w of
        (Inl e, w) \<Rightarrow> (Some (Inl (transport_error rx e)), w)
      | (Inr res, w) \<Rightarrow>
          (if \<not> is_success res then map_option Inl (error_from_response rx res)
           else Some (read_stream rx sd bpe idle_secs prompt_tokens new_parser (hr_stream res)), w))"

subsection \<open>The call\<close>

record OpenAiCompatClient =
  cl_model :: string
  cl_max_tokens :: u32
  cl_provider_type :: OpenAiProviderType
  cl_streaming :: bool
  cl_stream_idle_timeout_secs :: nat

definition is_unsupported_stream_options_error :: "string \<Rightarrow> bool" where
  "is_unsupported_stream_options_error message =
     (let normalized = lower message
      in contains normalized ''stream_options'' \<and>
         (contains normalized ''include_usage'' \<or> contains normalized ''unsupported'' \<or>
          contains normalized ''unknown field'' \<or> contains normalized ''unknown parameter'' \<or>
          contains normalized ''unrecognized''))"

definition call_result :: "serde \<Rightarrow> OpenAiResponse result \<Rightarrow> (client_error + AiResponse) option" where
  "call_result sd r =
     map_option (\<lambda>m. case m of Inl e \<Rightarrow> Inl (Compat e) | Inr resp \<Rightarrow> translate_ai_response sd resp) r"

definition rejects_stream_options :: "OpenAiResponse result \<Rightarrow> bool" where
  "rejects_stream_options r =
     (case r of
        Some (Inl (ApiError status message)) \<Rightarrow> status = 400 \<and> is_unsupported_stream_options_error message
      | _ \<Rightarrow> False)"

definition generate_content :: "engine \<Rightarrow> serde \<Rightarrow> tokenizer \<Rightarrow> 'w post \<Rightarrow> OpenAiCompatClient \<Rightarrow> AiRequest \<Rightarrow> 'w \<Rightarrow>
    (client_error + AiResponse) option \<times> 'w" where
  "generate_content rx sd bpe post cl request w =
     (let prompt_tokens = of_nat (estimate_tokens_generic bpe sd request);
          openai_req = (translate_ai_request sd request (cl_max_tokens cl) (cl_provider_type cl))
            \<lparr>oq_model := cl_model cl\<rparr>
      in if cl_streaming cl
         then (let openai_req = openai_req\<lparr>oq_stream := Some True,
                     oq_stream_options := Some (JObj [(''include_usage'', JBool True)])\<rparr>;
                   send = post_stream_request rx sd bpe (cl_stream_idle_timeout_secs cl) post;
                   (r, w) = send (openai_request_json openai_req) prompt_tokens w
               in if rejects_stream_options r
                  then (let (r, w) = send (openai_request_json (openai_req\<lparr>oq_stream_options := None\<rparr>)) prompt_tokens w
                        in (call_result sd r, w))
                  else (call_result sd r, w))
         else (let (r, w) = post_request rx sd post (openai_request_json openai_req) w in (call_result sd r, w)))"

subsection \<open>The word JSON\<close>

lemma change_first_Some:
  "change_first p f xs = Some ys \<Longrightarrow>
   \<exists>us x vs. xs = us @ x # vs \<and> (\<forall>u\<in>set us. \<not> p u) \<and> p x \<and> ys = us @ f x # vs"
proof (induction xs arbitrary: ys)
  case (Cons x xs)
  show ?case
  proof (cases "p x")
    case True
    with Cons.prems show ?thesis by (intro exI [of _ "[]"]) auto
  next
    case False
    with Cons.prems obtain zs where zs: "change_first p f xs = Some zs" "ys = x # zs" by auto
    from Cons.IH [OF zs(1)] obtain us y vs
      where "xs = us @ y # vs" "\<forall>u\<in>set us. \<not> p u" "p y" "zs = us @ f y # vs" by blast
    with False zs(2) show ?thesis by (intro exI [of _ "x # us"]) auto
  qed
qed simp

lemma hint_says_json:
  "says_json (add_json_hint m)" "says_json (plain_message r (Some ''Respond in JSON format.''))"
proof -
  have *: "contains (lower (s @ ''Respond in JSON format.'')) ''json''" for s
  proof -
    have "contains (s @ ''Respond in JSON format.'') ''JSON''"
      by (rule contains_iff [THEN iffD2]) (intro exI [of _ "s @ ''Respond in ''"] exI [of _ "'' format.''"], simp)
    moreover have "lower ''JSON'' = ''json''" by code_simp
    ultimately show ?thesis using contains_lower by metis
  qed
  from * [of "text_of (om_content m) @ [newline]"] show "says_json (add_json_hint m)"
    by (simp add: says_json_def add_json_hint_def)
  from * [of "[]"] show "says_json (plain_message r (Some ''Respond in JSON format.''))"
    by (simp add: says_json_def plain_message_def)
qed

text \<open>The messages before the word is looked for.\<close>

definition source_messages :: "serde \<Rightarrow> AiRequest \<Rightarrow> OpenAiMessage list" where
  "source_messages sd r =
     (case rq_system r of Some s \<Rightarrow> [plain_message ''system'' (Some s)] | None \<Rightarrow> []) @
     List.map (translate_message sd) (rq_messages r)"

definition json_asked :: "AiRequest \<Rightarrow> bool" where
  "json_asked r \<longleftrightarrow> (\<exists>schema. rq_response_format r = Some (Json schema))"

lemma translated_messages:
  "oq_messages (translate_ai_request sd r n t) =
   (if json_asked r then ensure_json_word (source_messages sd r) else source_messages sd r)"
  by (cases "rq_response_format r")
    (auto simp: translate_ai_request_def Let_def json_asked_def source_messages_def format_json_def jindex_def
      split: AiResponseFormat.splits)

text \<open>A request for JSON is always sent with the word JSON in a message, as the API demands. The
  messages are those of the request in their order; only where none has the word, the first system
  message gets a line behind its text, or, without one, a system message is put in front.\<close>

theorem json_word_present:
  "(let ms = source_messages sd r; ms' = oq_messages (translate_ai_request sd r n t)
    in if json_asked r \<and> (\<forall>m\<in>set ms. \<not> says_json m)
       then (\<exists>us m vs. ms = us @ m # vs \<and> (\<forall>u\<in>set us. om_role u \<noteq> ''system'') \<and> om_role m = ''system'' \<and>
               ms' = us @ add_json_hint m # vs) \<or>
            (\<forall>m\<in>set ms. om_role m \<noteq> ''system'') \<and>
               ms' = plain_message ''system'' (Some ''Respond in JSON format.'') # ms
       else ms' = ms) \<and>
   (json_asked r \<longrightarrow> (\<exists>m\<in>set (oq_messages (translate_ai_request sd r n t)). says_json m))"
proof -
  let ?ms = "source_messages sd r"
  have none: "change_first p f xs = None \<longleftrightarrow> (\<forall>x\<in>set xs. \<not> p x)" for p xs and f :: "OpenAiMessage \<Rightarrow> OpenAiMessage"
    by (induction xs) auto
  show ?thesis
  proof (cases "json_asked r \<and> (\<forall>m\<in>set ?ms. \<not> says_json m)")
    case True
    then have e: "\<not> list_ex says_json ?ms" by (simp add: list_ex_iff)
    show ?thesis
    proof (cases "change_first (\<lambda>m. om_role m = ''system'') add_json_hint ?ms")
      case None
      from none [THEN iffD1, OF this] have "\<forall>m\<in>set ?ms. om_role m \<noteq> ''system''" .
      with True e None show ?thesis by (simp add: translated_messages ensure_json_word_def hint_says_json)
    next
      case (Some ms')
      from change_first_Some [OF this] obtain us m vs where d: "?ms = us @ m # vs"
        "\<forall>u\<in>set us. om_role u \<noteq> ''system''" "om_role m = ''system''" "ms' = us @ add_json_hint m # vs" by blast
      have new: "oq_messages (translate_ai_request sd r n t) = us @ add_json_hint m # vs"
        using True e Some d(4) by (simp add: translated_messages ensure_json_word_def)
      have placed: "\<exists>us' m' vs'. ?ms = us' @ m' # vs' \<and> (\<forall>u\<in>set us'. om_role u \<noteq> ''system'') \<and>
          om_role m' = ''system'' \<and> us @ add_json_hint m # vs = us' @ add_json_hint m' # vs'"
        using d(1-3) by blast
      have said: "\<exists>x\<in>set (us @ add_json_hint m # vs). says_json x"
        using hint_says_json(1) [of m] by (intro bexI [of _ "add_json_hint m"]) simp_all
      show ?thesis unfolding new Let_def if_P [OF True] using placed said by (intro conjI impI disjI1)
    qed
  next
    case False
    then have same: "oq_messages (translate_ai_request sd r n t) = ?ms"
      by (auto simp: translated_messages ensure_json_word_def list_ex_iff)
    from False have "json_asked r \<longrightarrow> (\<exists>m\<in>set ?ms. says_json m)" by blast
    then show ?thesis unfolding Let_def if_not_P [OF False] same by (intro conjI refl)
  qed
qed

definition sample_request :: AiRequest where
  "sample_request = \<lparr>rq_system = Some ''Review'', rq_messages = [], rq_tools = None, rq_temperature = None,
     rq_response_format = Some (Json None), rq_context_tag = None\<rparr>"

theorem json_word_present_witness:
  "\<exists>m\<in>set (oq_messages (translate_ai_request sample_serde sample_request 100 OfficialOpenAi)). says_json m"
proof -
  have "json_asked sample_request" by (simp add: json_asked_def sample_request_def)
  with json_word_present [of sample_serde sample_request 100 OfficialOpenAi] show ?thesis by blast
qed

subsection \<open>Errors of HTTP\<close>

text \<open>The class of a failed response depends on its status alone: too many requests are a rate limit, with
  the wait that the text or the header names, a minute without; errors of the server are transient,
  with the wait of the header, and none without; all others are final.\<close>

theorem http_error_class:
  "map_option openai_error_class (error_from_response rx res) =
   (if hr_status res = 429
    then map_option RateLimit (from_secs_f64 (retry_seconds rx (Option.bind (hr_retry_after res) parse_u64)
           (redact_secret rx (case hr_body res of Inr t \<Rightarrow> t | Inl _ \<Rightarrow> []))))
    else if 500 \<le> hr_status res \<and> hr_status res \<le> 599
    then Some (Transient ((case Option.bind (hr_retry_after res) parse_u64 of Some n \<Rightarrow> n | None \<Rightarrow> 0) * nanos))
    else Some Fatal)"
  by (auto simp: error_from_response_def Let_def option.map_comp comp_def classify_status_code_def)

text \<open>A server that asks for a wait of nearly 2 to the power of 64 seconds lets the client panic: the number is rounded up
  to a duration that does not exist.\<close>

theorem huge_wait_panics:
  "error_from_response backtrack
     \<lparr>hr_status = 429, hr_retry_after = Some ''18446744073709551615'', hr_body = Inr [], hr_stream = []\<rparr> = None"
  by code_simp

end
