(* ===== verification/Cache.thy ===== *)
theory Cache
  imports Ai Utils "HOL-Library.Word"
begin

text \<open>
  The cache of AI responses of \<open>src/ai/cache.rs\<close>, a provider around another one: its table, the key
  of a request and the counters. The hash function (the crate \<open>sha2\<close>), the JSON reader and
  printer, the inner provider and the clock are arguments; the counters have 64 bits. The database
  itself does not fail here.
\<close>

subsection \<open>Numbers in the log\<close>

fun group_from :: "nat \<Rightarrow> nat \<Rightarrow> string \<Rightarrow> string" where
  "group_from n i [] = []"
| "group_from n i (c # s) = (if 0 < i \<and> (n - i) mod 3 = 0 then [CHR ''.''] else []) @ c # group_from n (Suc i) s"

definition fmt_thousands :: "nat \<Rightarrow> string" where
  "fmt_thousands n = (let s = show_nat n in group_from (length s) 0 s)"

subsection \<open>Keys\<close>

definition format_value :: "AiResponseFormat \<Rightarrow> json" where
  "format_value f =
     (case f of
        Text \<Rightarrow> JStr ''text''
      | Json schema \<Rightarrow> JObj [(''json'', JObj (some_field ''schema'' (\<lambda>v. v) schema))])"

definition tool_json :: "AiTool \<Rightarrow> json" where
  "tool_json t = JObj [(''name'', JStr (tl_name t)), (''description'', JStr (tl_description t)),
                       (''parameters'', tl_parameters t)]"

definition request_json :: "AiRequest \<Rightarrow> json" where
  "request_json r =
     JObj (some_field ''system'' JStr (rq_system r) @
       [(''messages'', JArr (List.map message_json (rq_messages r)))] @
       some_field ''tools'' (\<lambda>ts. JArr (List.map tool_json ts)) (rq_tools r) @
       some_field ''temperature'' JFloat (rq_temperature r) @
       some_field ''response_format'' format_value (rq_response_format r) @
       some_field ''context_tag'' JStr (rq_context_tag r))"

fun jremove :: "string \<Rightarrow> json \<Rightarrow> json" where
  "jremove k (JObj ms) = JObj (filter (\<lambda>(k', v). k' \<noteq> k) ms)"
| "jremove k v = v"

definition hex_byte :: "char \<Rightarrow> string" where
  "hex_byte b = [hex_digit (code b div 16), hex_digit (code b mod 16)]"

definition compute_cache_key :: "(json \<Rightarrow> string) \<Rightarrow> (string \<Rightarrow> string) \<Rightarrow> AiRequest \<Rightarrow> string" where
  "compute_cache_key to_text sha256 request =
     concat (List.map hex_byte (sha256 (to_text (scrub_thought_signatures (jremove ''context_tag'' (request_json request))))))"

subsection \<open>The table and the counters\<close>

record response_cache_row =
  rc_request_hash :: string
  rc_provider :: string
  rc_model :: string
  rc_request_json :: string
  rc_response_json :: string
  rc_tokens_saved :: "64 word"
  rc_created_at :: int

record CachingAiProvider =
  ca_rows :: "response_cache_row list"
  ca_session_start :: int
  ca_hits_this :: "64 word"
  ca_hits_prev :: "64 word"
  ca_tokens_saved_this :: "64 word"
  ca_tokens_saved_prev :: "64 word"

definition open_cache :: "response_cache_row list \<Rightarrow> nat \<Rightarrow> int \<Rightarrow> int \<Rightarrow> CachingAiProvider" where
  "open_cache rows ttl_days now session_start =
     (let cutoff = now - int ttl_days * 86400
      in \<lparr>ca_rows = filter (\<lambda>r. \<not> rc_created_at r < cutoff) rows, ca_session_start = session_start,
          ca_hits_this = 0, ca_hits_prev = 0, ca_tokens_saved_this = 0, ca_tokens_saved_prev = 0\<rparr>)"

definition find_row :: "string \<Rightarrow> CachingAiProvider \<Rightarrow> response_cache_row option" where
  "find_row h c = first (filter (\<lambda>r. rc_request_hash r = h) (ca_rows c))"

text \<open>\<open>INSERT OR REPLACE\<close> on the primary key.\<close>

definition put_row :: "response_cache_row \<Rightarrow> CachingAiProvider \<Rightarrow> CachingAiProvider" where
  "put_row r c = c\<lparr>ca_rows := filter (\<lambda>x. rc_request_hash x \<noteq> rc_request_hash r) (ca_rows c) @ [r]\<rparr>"

definition count_hit :: "response_cache_row \<Rightarrow> CachingAiProvider \<Rightarrow> CachingAiProvider" where
  "count_hit r c =
     (if rc_created_at r \<ge> ca_session_start c
      then c\<lparr>ca_hits_this := ca_hits_this c + 1, ca_tokens_saved_this := ca_tokens_saved_this c + rc_tokens_saved r\<rparr>
      else c\<lparr>ca_hits_prev := ca_hits_prev c + 1, ca_tokens_saved_prev := ca_tokens_saved_prev c + rc_tokens_saved r\<rparr>)"

definition mark_cached :: "AiResponse \<Rightarrow> AiResponse" where
  "mark_cached resp =
     resp\<lparr>rs_usage := map_option (\<lambda>u. u\<lparr>us_cached_tokens :=
       Some ((case us_cached_tokens u of Some n \<Rightarrow> n | None \<Rightarrow> 0) + us_prompt_tokens u)\<rparr>) (rs_usage resp)\<rparr>"

subsection \<open>A call\<close>

record codec =
  co_from_str :: json_parser
  co_to_string :: "json \<Rightarrow> string"
  co_sha256 :: "string \<Rightarrow> string"

type_synonym 'w provider = "AiRequest \<Rightarrow> 'w \<Rightarrow> (AiError + AiResponse) \<times> 'w"

definition cached_response :: "codec \<Rightarrow> response_cache_row \<Rightarrow> AiResponse option" where
  "cached_response co r = Option.bind (co_from_str co (rc_response_json r)) response_of_json"

definition new_row :: "codec \<Rightarrow> string \<Rightarrow> string \<Rightarrow> AiRequest \<Rightarrow> AiResponse \<Rightarrow> int \<Rightarrow> response_cache_row" where
  "new_row co h model request resp now =
     \<lparr>rc_request_hash = h, rc_provider = model, rc_model = model,
      rc_request_json = co_to_string co (request_json request),
      rc_response_json = co_to_string co (response_json resp),
      rc_tokens_saved = (case rs_usage resp of
          Some u \<Rightarrow> of_nat (us_prompt_tokens u + us_completion_tokens u) | None \<Rightarrow> 0),
      rc_created_at = now\<rparr>"

definition generate_cached :: "codec \<Rightarrow> 'w provider \<Rightarrow> string \<Rightarrow> int \<Rightarrow> AiRequest \<Rightarrow> CachingAiProvider \<times> 'w \<Rightarrow>
    (AiError + AiResponse) \<times> CachingAiProvider \<times> 'w" where
  "generate_cached co inner model now request = (\<lambda>(c, w).
     let h = compute_cache_key (co_to_string co) (co_sha256 co) request;
         hit = Option.bind (find_row h c) (\<lambda>r. map_option (\<lambda>resp. (r, resp)) (cached_response co r))
     in case hit of
          Some (r, resp) \<Rightarrow> (Inr (mark_cached resp), count_hit r c, w)
        | None \<Rightarrow>
            (case inner request w of
               (Inl e, w) \<Rightarrow> (Inl e, c, w)
             | (Inr resp, w) \<Rightarrow> (Inr resp, put_row (new_row co h model request resp now) c, w)))"

definition cache_stats :: "CachingAiProvider \<Rightarrow> CacheStats" where
  "cache_stats c =
     \<lparr>hits_this_session = unat (ca_hits_this c), hits_prev_session = unat (ca_hits_prev c),
      tokens_saved_this_session = unat (ca_tokens_saved_this c),
      tokens_saved_prev_session = unat (ca_tokens_saved_prev c)\<rparr>"

subsection \<open>What the key ignores\<close>

definition unsigned_call :: "ToolCall \<Rightarrow> ToolCall" where
  "unsigned_call t = t\<lparr>tc_thought_signature := None\<rparr>"

definition unsigned_message :: "AiMessage \<Rightarrow> AiMessage" where
  "unsigned_message m =
     m\<lparr>mg_thought_signature := None, mg_tool_calls := map_option (List.map unsigned_call) (mg_tool_calls m)\<rparr>"

definition core_request :: "AiRequest \<Rightarrow> AiRequest" where
  "core_request r = r\<lparr>rq_messages := List.map unsigned_message (rq_messages r), rq_context_tag := None\<rparr>"

lemma scrub_members:
  "scrub_thought_signatures (JObj ms) =
   JObj (List.map (\<lambda>(k, v). (k, scrub_thought_signatures v)) (filter (\<lambda>(k, v). \<not> is_thought_key k) ms))"
  by simp

lemma filter_some_field:
  "filter (\<lambda>(k, v). p k) (some_field k f m) = (if p k then some_field k f m else [])"
  by (cases m) (simp_all add: some_field_def)

lemma map_some_field:
  "List.map (\<lambda>(k, v). (k, g v)) (some_field k f m) = some_field k (\<lambda>x. g (f x)) m"
  by (cases m) (simp_all add: some_field_def)

lemma some_field_cong: "(\<And>x. m = Some x \<Longrightarrow> f x = g x) \<Longrightarrow> some_field k f m = some_field k g m"
  by (cases m) (simp_all add: some_field_def)

lemma some_field_map: "some_field k f (map_option g m) = some_field k (\<lambda>x. f (g x)) m"
  by (cases m) (simp_all add: some_field_def)

lemmas fields = filter_some_field map_some_field some_field_map is_thought_key_def

lemma scrub_call: "scrub_thought_signatures (tool_call_json (unsigned_call t)) = scrub_thought_signatures (tool_call_json t)"
  by (simp add: tool_call_json_def unsigned_call_def fields del: scrub_thought_signatures.simps)
     (simp add: fields some_field_def)

lemma scrub_message: "scrub_thought_signatures (message_json (unsigned_message m)) = scrub_thought_signatures (message_json m)"
  by (cases "mg_tool_calls m")
    (simp_all add: message_json_def unsigned_message_def fields comp_def, simp_all add: some_field_def scrub_call)

lemma scrub_request:
  "scrub_thought_signatures (jremove ''context_tag'' (request_json r)) =
   scrub_thought_signatures (request_json (core_request r))"
  by (simp add: request_json_def core_request_def fields comp_def scrub_message some_field_def)

lemma same_key: "core_request r = core_request r' \<Longrightarrow> compute_cache_key tt sha r = compute_cache_key tt sha r'"
  by (simp add: compute_cache_key_def scrub_request)

subsection \<open>Answers from the cache\<close>

definition request_key :: "codec \<Rightarrow> AiRequest \<Rightarrow> string" where
  "request_key co = compute_cache_key (co_to_string co) (co_sha256 co)"

lemma put_row_find:
  "find_row h (put_row r c) = (if h = rc_request_hash r then Some r else find_row h c)"
proof -
  have "filter (\<lambda>x. rc_request_hash x = h) (filter (\<lambda>x. rc_request_hash x \<noteq> rc_request_hash r) (ca_rows c)) =
      (if h = rc_request_hash r then [] else filter (\<lambda>x. rc_request_hash x = h) (ca_rows c))"
    by (auto simp: filter_empty_conv intro: filter_cong)
  then show ?thesis by (auto simp: find_row_def put_row_def)
qed

lemma count_hit_find [simp]: "find_row h (count_hit r c) = find_row h c"
  by (simp add: find_row_def count_hit_def)

text \<open>A row that can be read is the answer of all requests with its key.\<close>

definition answers :: "codec \<Rightarrow> string \<Rightarrow> response_cache_row \<Rightarrow> AiResponse \<Rightarrow> CachingAiProvider \<Rightarrow> bool" where
  "answers co h r resp c \<longleftrightarrow> find_row h c = Some r \<and> cached_response co r = Some resp"

lemma answered:
  "answers co (request_key co q) r resp c \<Longrightarrow>
   generate_cached co inner model now q (c, w) = (Inr (mark_cached resp), count_hit r c, w)"
  by (simp add: generate_cached_def answers_def request_key_def Let_def)

lemma answers_kept:
  assumes "answers co h r resp c"
  shows "answers co h r resp (fst (snd (generate_cached co inner model now q (c, w))))"
proof (cases "request_key co q = h")
  case True
  with assms have "answers co (request_key co q) r resp c" by simp
  from answered [OF this, of inner model now w] assms show ?thesis by (simp add: answers_def)
next
  case False
  let ?row = "new_row co (request_key co q) model q"
  have "rc_request_hash (?row a now) \<noteq> h" for a using False by (simp add: new_row_def)
  then show ?thesis
    using assms
    by (auto simp: generate_cached_def answers_def Let_def put_row_find request_key_def
        split: option.splits sum.splits prod.splits)
qed

text \<open>Later calls, each with its time.\<close>

fun serve :: "codec \<Rightarrow> 'w provider \<Rightarrow> string \<Rightarrow> (int \<times> AiRequest) list \<Rightarrow> CachingAiProvider \<times> 'w \<Rightarrow>
    CachingAiProvider \<times> 'w" where
  "serve co inner model [] s = s"
| "serve co inner model ((now, q) # qs) s = serve co inner model qs (snd (generate_cached co inner model now q s))"

lemma answers_served: "answers co h r resp (fst s) \<Longrightarrow> answers co h r resp (fst (serve co inner model qs s))"
proof (induction qs arbitrary: s)
  case (Cons nq qs)
  obtain now q where nq: "nq = (now, q)" by (cases nq)
  obtain c w where s: "s = (c, w)" by (cases s)
  from Cons.prems s have "answers co h r resp (fst (snd (generate_cached co inner model now q s)))"
    using answers_kept [of co h r resp c] by simp
  from Cons.IH [OF this] show ?case by (simp add: nq)
qed simp

text \<open>C33. Once a response has been stored, each later request that differs at most in its context tag and in
  thought signatures gets the same response without a call of the inner provider, whatever else was asked in
  between; the tokens of its prompt are counted as cached, and a hit is counted. The JSON reader is
  assumed to read back the stored response.\<close>

theorem cache_answers:
  assumes miss: "find_row (request_key co q) c = None"
    and resp: "inner q w = (Inr resp, w')"
    and json: "co_from_str co (co_to_string co (response_json resp)) = Some (response_json resp)"
    and "pred_option usage_ok (rs_usage resp)"
    and same: "core_request q' = core_request q"
  shows "case generate_cached co inner model now q (c, w) of (a, s) \<Rightarrow>
    a = Inr resp \<and> snd s = w' \<and>
    (case serve co inner model qs s of (c2, w2) \<Rightarrow>
       \<exists>r. rc_created_at r = now \<and>
         generate_cached co inner model now2 q' (c2, w2) = (Inr (mark_cached resp), count_hit r c2, w2))"
proof -
  let ?r = "new_row co (request_key co q) model q resp now"
  have call: "generate_cached co inner model now q (c, w) = (Inr resp, put_row ?r c, w')"
    using miss resp by (simp add: generate_cached_def Let_def request_key_def)
  have "cached_response co ?r = Some resp"
    using json response_roundtrip [OF assms(4)] by (simp add: cached_response_def new_row_def)
  then have "answers co (request_key co q) ?r resp (put_row ?r c)"
    by (simp add: answers_def put_row_find) (simp add: new_row_def)
  moreover have "request_key co q' = request_key co q"
    unfolding request_key_def by (rule same_key [OF same])
  ultimately have "answers co (request_key co q') ?r resp (fst (serve co inner model qs (put_row ?r c, w')))"
    using answers_served [of co "request_key co q" ?r resp "(put_row ?r c, w')"] by simp
  then have "generate_cached co inner model now2 q' (serve co inner model qs (put_row ?r c, w')) =
      (Inr (mark_cached resp), count_hit ?r (fst (serve co inner model qs (put_row ?r c, w'))),
       snd (serve co inner model qs (put_row ?r c, w')))"
    using answered [of co q' ?r resp "fst (serve co inner model qs (put_row ?r c, w'))"] by (metis prod.collapse)
  moreover have "rc_created_at ?r = now" by (simp add: new_row_def)
  ultimately show ?thesis unfolding call by (auto split: prod.split)
qed

definition sample_ask :: "string option \<Rightarrow> AiRequest" where
  "sample_ask tag = \<lparr>rq_system = Some ''Review'', rq_messages = [], rq_tools = None, rq_temperature = None,
     rq_response_format = None, rq_context_tag = tag\<rparr>"

definition sample_answer :: AiResponse where
  "sample_answer = \<lparr>rs_content = Some ''fine'', rs_thought = None, rs_thought_signature = None, rs_tool_calls = None,
     rs_usage = Some \<lparr>us_prompt_tokens = 7, us_completion_tokens = 1, us_total_tokens = 8, us_cached_tokens = None\<rparr>\<rparr>"

definition sample_codec :: codec where
  "sample_codec = \<lparr>co_from_str = (\<lambda>s. Some (response_json sample_answer)), co_to_string = (\<lambda>_. ''x''),
     co_sha256 = (\<lambda>s. s)\<rparr>"

definition sample_provider :: "nat provider" where
  "sample_provider q n = (Inr sample_answer, Suc n)"

theorem cache_answers_witness:
  "\<exists>s. generate_cached sample_codec sample_provider ''m'' 0 (sample_ask (Some ''a'')) (open_cache [] 7 0 0, 0) =
     (Inr sample_answer, s) \<and> snd s = 1 \<and>
   (case serve sample_codec sample_provider ''m'' [(1, sample_ask None)] s of (c2, w2) \<Rightarrow>
      \<exists>r. rc_created_at r = 0 \<and>
        generate_cached sample_codec sample_provider ''m'' 2 (sample_ask (Some ''b'')) (c2, w2) =
        (Inr (mark_cached sample_answer), count_hit r c2, w2))"
proof -
  have m: "find_row (request_key sample_codec (sample_ask (Some ''a''))) (open_cache [] 7 0 0) = None"
    by (simp add: find_row_def open_cache_def)
  have u: "pred_option usage_ok (rs_usage sample_answer)"
    by (simp add: sample_answer_def usage_ok_def usize_ok_def)
  have j: "co_from_str sample_codec (co_to_string sample_codec (response_json sample_answer)) =
      Some (response_json sample_answer)"
    by (simp add: sample_codec_def)
  have i: "sample_provider (sample_ask (Some ''a'')) 0 = (Inr sample_answer, 1)" by (simp add: sample_provider_def)
  have c: "core_request (sample_ask (Some ''b'')) = core_request (sample_ask (Some ''a''))"
    by (simp add: core_request_def sample_ask_def)
  show ?thesis
    using cache_answers [where inner = sample_provider and model = "''m''" and now = 0 and
        qs = "[(1, sample_ask None)]" and ?now2.0 = 2, OF m i j u c]
    by (cases "generate_cached sample_codec sample_provider ''m'' 0 (sample_ask (Some ''a'')) (open_cache [] 7 0 0, 0)")
       simp
qed

end
