(* ===== verification/Tools.thy ===== *)
theory Tools
  imports Ai Token_Budget
begin

text \<open>
  The tools of the review worker, of \<open>src/worker/tools.rs\<close> and the git commands of \<open>src/git_ops.rs\<close> that they
  call: the check of git options and of paths, reading files, git and the other tools, and the dispatch
  by name. The operating system is the argument \<open>os\<close>: the file system, git and other programs, whose
  effects are on a world that is passed along. A path is the list of its components from the root;
  the work tree and the prompts are absolute paths. Output of programs is taken as text as it is. A panic is
  \<open>None\<close>.
\<close>

subsection \<open>The world outside\<close>

type_synonym path = "string list"

datatype io_error = NotFound string | OtherIo string

fun io_text :: "io_error \<Rightarrow> string" where
  "io_text (NotFound s) = s"
| "io_text (OtherIo s) = s"

record Output =
  out_success :: bool
  out_stdout :: string
  out_stderr :: string

record 'w os =
  os_canonicalize :: "'w \<Rightarrow> path \<Rightarrow> io_error + path"
  os_read :: "'w \<Rightarrow> path \<Rightarrow> io_error + string"
  os_read_dir :: "'w \<Rightarrow> path \<Rightarrow> io_error + (string \<times> bool) list"
  os_append :: "path \<Rightarrow> string \<Rightarrow> 'w \<Rightarrow> (io_error + unit) \<times> 'w"
  os_git :: "path \<Rightarrow> string list \<Rightarrow> 'w \<Rightarrow> (io_error + Output) \<times> 'w"
  os_timeout :: "path \<Rightarrow> string list \<Rightarrow> 'w \<Rightarrow> bool"
  os_find :: "path \<Rightarrow> path \<Rightarrow> string list \<Rightarrow> 'w \<Rightarrow> (io_error + Output) \<times> 'w"
  os_search :: "'w \<Rightarrow> string \<Rightarrow> path \<Rightarrow> path \<Rightarrow> nat \<Rightarrow> string + string"
  os_show_path :: "path \<Rightarrow> string"

record ToolBox =
  worktree_path :: path
  prompts_path :: "path option"

type_synonym 'a answer = "(string + 'a) option"

subsection \<open>Checks of arguments\<close>

definition number_option :: "string \<Rightarrow> string \<Rightarrow> bool" where
  "number_option p arg \<longleftrightarrow> starts_with arg p \<and> list_all is_digit (drop 2 arg)"

definition git_option_allowed :: "string list \<Rightarrow> string list \<Rightarrow> string \<Rightarrow> bool" where
  "git_option_allowed allowed_exact allowed_prefixes arg \<longleftrightarrow>
     arg \<in> set allowed_exact \<or> list_ex (starts_with arg) allowed_prefixes \<or>
     number_option ''-U'' arg \<or> number_option ''-n'' arg"

fun validate_git_args :: "string list \<Rightarrow> string list \<Rightarrow> string list \<Rightarrow> string + unit" where
  "validate_git_args [] exact prefixes = Inr ()"
| "validate_git_args (arg # args) exact prefixes =
     (if arg = ''--'' then Inr ()
      else if starts_with arg ''-'' \<and> \<not> git_option_allowed exact prefixes arg
      then Inl (''Forbidden git option: '' @ arg)
      else validate_git_args args exact prefixes)"

definition path_starts_with :: "path \<Rightarrow> path \<Rightarrow> bool" where
  "path_starts_with p base \<longleftrightarrow> take (length base) p = base"

text \<open>\<open>base.join(relative)\<close> for a relative path, and \<open>parent\<close>.\<close>

definition segments :: "string \<Rightarrow> path" where
  "segments relative = filter (\<lambda>s. s \<noteq> [] \<and> s \<noteq> ''.'') (split_char CHR ''/'' relative)"

definition parent :: "path \<Rightarrow> path option" where
  "parent p = (if p = [] then None else Some (butlast p))"

definition debug_path :: "'w os \<Rightarrow> path \<Rightarrow> string" where
  "debug_path os p = dquote # os_show_path os p @ [dquote]"

definition validate_path :: "'w os \<Rightarrow> 'w \<Rightarrow> string \<Rightarrow> path \<Rightarrow> string + path" where
  "validate_path os w relative base =
     (if contains relative ''..'' \<or> starts_with relative ''/'' then Inl (''Invalid path: '' @ relative)
      else let full_path = base @ segments relative
      in case os_canonicalize os w base of
           Inl e \<Rightarrow> Inl (''Failed to canonicalize base path: '' @ io_text e)
         | Inr canonical_base \<Rightarrow>
             res_bind
               (case os_canonicalize os w full_path of
                  Inr p \<Rightarrow> Inr p
                | Inl (NotFound _) \<Rightarrow>
                    (case parent full_path of
                       None \<Rightarrow> Inl (''No parent directory for path: '' @ debug_path os full_path)
                     | Some par \<Rightarrow>
                         (case os_canonicalize os w par of
                            Inl e \<Rightarrow> Inl (''Failed to canonicalize parent path: '' @ io_text e)
                          | Inr canonical_parent \<Rightarrow>
                              if path_starts_with canonical_parent canonical_base then Inr full_path
                              else Inl (''Path traversal detected in parent: '' @ debug_path os par)))
                | Inl e \<Rightarrow> Inl (''Failed to canonicalize path: '' @ io_text e))
               (\<lambda>canonical_full.
                  if path_starts_with canonical_full canonical_base then Inr canonical_full
                  else Inl (''Path traversal detected: '' @ debug_path os canonical_full)))"

subsection \<open>Declarations\<close>

definition declare_tool :: "string \<Rightarrow> string \<Rightarrow> json \<Rightarrow> AiTool" where
  "declare_tool n d p = \<lparr>tl_name = n, tl_description = d, tl_parameters = p\<rparr>"

definition described :: "string \<Rightarrow> string \<Rightarrow> json" where
  "described t d = JObj [(''type'', JStr t), (''description'', JStr d)]"

definition schema :: "(string \<times> json) list \<Rightarrow> string list \<Rightarrow> json" where
  "schema props required =
     JObj ([(''type'', JStr ''object''), (''properties'', JObj props)] @
           (if required = [] then [] else [(''required'', JArr (List.map JStr required))]))"

definition base_declarations :: "AiTool list" where
  "base_declarations =
    [declare_tool ''read_files''
       (''Read the content of one or more files. In '' @ [CHR 0x27] @ ''smart'' @ [CHR 0x27]
        @ '' mode, it collapses irrelevant code around the focus lines.'')
       (schema [(''files'', JObj [(''type'', JStr ''array''),
        (''description'', JStr ''List of files to read.''),
        (''items'', schema [(''path'', described ''string'' ''Relative path to the file.''),
        (''start_line'', described ''integer'' ''1-based start line (optional). In smart mode, this is the start of the focus area.''),
        (''end_line'', described ''integer'' ''1-based end line (optional). In smart mode, this is the end of the focus area.'')]
        [''path''])]), (''mode'', JObj [(''type'', JStr ''string''),
        (''enum'', JArr [JStr ''raw'', JStr ''smart'']), (''description'', JStr (''Read mode. Defaults to ''
        @ [CHR 0x27] @ ''raw'' @ [CHR 0x27] @ ''.''))])] [''files'']),
     declare_tool ''git_blame''
       ''Show what revision and author last modified each line of a file.''
       (schema [(''path'', described ''string'' ''Relative path to the file.''),
        (''start_line'', described ''integer'' ''1-based start line (optional).''),
        (''end_line'', described ''integer'' ''1-based end line (optional).'')] [''path'']),
     declare_tool ''git_diff''
       ''Show changes between commits, commit and working tree, etc.''
       (schema [(''args'', JObj [(''type'', JStr ''array''), (''items'', JObj [(''type'', JStr ''string'')]),
        (''description'', JStr (''Arguments for git diff (e.g., ['' @ [CHR 0x27] @ ''HEAD^'' @ [CHR 0x27]
        @ '', '' @ [CHR 0x27] @ ''HEAD'' @ [CHR 0x27] @ '']).''))])] [''args'']),
     declare_tool ''git_show''
       ''Show various types of objects (blobs, trees, tags and commits). Supports line filtering for blobs and diff suppression for commits.''
       (schema [(''object'', described ''string'' (''The object to show (e.g. '' @ [CHR 0x27] @ ''HEAD:README.md''
        @ [CHR 0x27] @ '' or '' @ [CHR 0x27] @ ''HEAD'' @ [CHR 0x27] @ '').'')),
        (''suppress_diff'', described ''boolean'' ''If true, suppresses the diff output for commits (shows only metadata). Useful for checking commit details cheaply.''),
        (''start_line'', described ''integer'' ''1-based start line (optional). Useful for reading specific parts of a file (blob).''),
        (''end_line'', described ''integer'' ''1-based end line (optional).'')] [''object'']),
     declare_tool ''git_log''
       (''Show commit logs. IMPORTANT: When using expensive search flags like -S or -G, you MUST limit the search range using --since (e.g., ''
        @ [CHR 0x27] @ ''--since=1.year.ago'' @ [CHR 0x27]
        @ '') or specific commit ranges to avoid timeouts on large repositories.'')
       (schema [(''args'', JObj [(''type'', JStr ''array''), (''items'', JObj [(''type'', JStr ''string'')]),
        (''description'', JStr (''Arguments for git log (e.g., ['' @ [CHR 0x27] @ ''-n'' @ [CHR 0x27]
        @ '', '' @ [CHR 0x27] @ ''3'' @ [CHR 0x27] @ '', '' @ [CHR 0x27] @ ''--oneline'' @ [CHR 0x27]
        @ '']). Bounded to 100 commits by default unless overridden. For -S/-G searches, always include a time limit like ''
        @ [CHR 0x27] @ ''--since=1.year.ago'' @ [CHR 0x27] @ ''.''))])] []),
     declare_tool ''git_status''
       ''Show the working tree status.''
       (schema [] []),
     declare_tool ''git_checkout''
       ''Switch branches or restore working tree files.''
       (schema [(''target'', described ''string'' ''The branch or commit to checkout.'')] [''target'']),
     declare_tool ''git_branch''
       ''List both remote-tracking branches and local branches.''
       (schema [] []),
     declare_tool ''git_tag''
       ''List tags.''
       (schema [] []),
     declare_tool ''list_dir''
       ''List files in a directory.''
       (schema [(''path'', described ''string'' ''Directory path.'')] [''path'']),
     declare_tool ''search_file_content''
       ''Search for a pattern in files using grep. Returns matching lines with context.''
       (schema [(''pattern'', described ''string'' ''Regex pattern to search for.''),
        (''path'', described ''string'' ''Directory to search in (defaults to root).''),
        (''context_lines'', described ''integer'' ''Number of context lines to show (default 0).'')] [''pattern'']),
     declare_tool ''find_files''
       (''Find files matching a glob pattern (e.g., '' @ [CHR 0x27] @ ''*.rs'' @ [CHR 0x27] @ '', ''
        @ [CHR 0x27] @ ''src/**/mod.rs'' @ [CHR 0x27] @ '').'')
       (schema [(''pattern'', described ''string'' ''Glob pattern to match.''),
        (''path'', described ''string'' ''Directory to search in (defaults to root).'')] [''pattern'']),
     declare_tool ''TodoWrite''
       ''Add a new TODO item to the TODO.md file.''
       (schema [(''content'', described ''string'' ''The TODO item content.'')] [''content''])]"

definition read_prompt_declaration :: AiTool where
  "read_prompt_declaration =
     declare_tool ''read_prompt''
       (''Read a specific prompt file from the prompt registry (e.g., '' @ [CHR 0x27] @ ''mm.md''
        @ [CHR 0x27] @ '', '' @ [CHR 0x27] @ ''locking.md'' @ [CHR 0x27] @ '').'')
       (schema [(''name'', described ''string'' (''Name of the prompt file (e.g., '' @ [CHR 0x27]
        @ ''patterns/BPF-001.md'' @ [CHR 0x27] @ '').''))] [''name''])"

definition get_declarations_generic :: "ToolBox \<Rightarrow> AiTool list" where
  "get_declarations_generic t =
     base_declarations @ (if prompts_path t \<noteq> None then [read_prompt_declaration] else [])"

subsection \<open>Reading files\<close>

fun as_u64_opt :: "json \<Rightarrow> nat option" where
  "as_u64_opt (JInt n) = (if 0 \<le> n \<and> n < 2 ^ 64 then Some (nat n) else None)"
| "as_u64_opt _ = None"

definition str_arg :: "json \<Rightarrow> string \<Rightarrow> string option" where
  "str_arg args k = as_str_opt (jindex args k)"

definition num_arg :: "json \<Rightarrow> string \<Rightarrow> nat option" where
  "num_arg args k = as_u64_opt (jindex args k)"

definition truncate_output :: "tokenizer \<Rightarrow> string \<Rightarrow> string" where
  "truncate_output bpe output = truncate_diff bpe output 10000"

text \<open>\<open>clamp(1, hi)\<close> panics when \<open>hi\<close> is 0; the range of lines that is read.\<close>

definition clamp_line :: "nat \<Rightarrow> nat option \<Rightarrow> nat option option" where
  "clamp_line hi m =
     (case m of None \<Rightarrow> Some None | Some n \<Rightarrow> if hi = 0 then None else Some (Some (min (max n 1) hi)))"

definition line_range :: "nat \<Rightarrow> nat option \<Rightarrow> nat option \<Rightarrow> nat \<times> nat" where
  "line_range n start_line end_line =
     (let start = min (case start_line of Some s \<Rightarrow> max s 1 - 1 | None \<Rightarrow> 0) n;
          stop = (case end_line of Some e \<Rightarrow> min e n | None \<Rightarrow> n)
      in (start, min (max stop start) n))"

definition read_raw :: "tokenizer \<Rightarrow> string \<Rightarrow> nat option \<Rightarrow> nat option \<Rightarrow> json" where
  "read_raw bpe content start_line end_line =
     (let ls = lines content; total_lines = length ls; (start, stop) = line_range total_lines start_line end_line;
          slice = take (stop - start) (drop start ls)
      in if start \<ge> total_lines
         then JObj [(''content'', JStr []), (''lines_read'', JInt 0), (''total_lines'', JInt (int total_lines))]
         else JObj [(''content'', JStr (truncate_output bpe (join [newline] slice))),
                    (''lines_read'', JInt (int (length slice))), (''total_lines'', JInt (int total_lines)),
                    (''start_line'', JInt (int (start + 1))), (''end_line'', JInt (int stop))])"

definition focus_of :: "nat option \<Rightarrow> nat option \<Rightarrow> (nat \<times> nat) option" where
  "focus_of start_line end_line =
     (case (start_line, end_line) of
        (Some s, Some e) \<Rightarrow> Some (s, e)
      | (Some s, None) \<Rightarrow> Some (s, s + 1)
      | (None, Some e) \<Rightarrow> Some (1, e)
      | (None, None) \<Rightarrow> None)"

definition range_error :: "nat option \<Rightarrow> nat option \<Rightarrow> string option" where
  "range_error start_line end_line =
     (case (start_line, end_line) of
        (Some s, Some e) \<Rightarrow>
          if s \<le> e then None
          else Some (''Invalid range: start_line ('' @ show_nat s @ '') > end_line ('' @ show_nat e @ '')'')
      | _ \<Rightarrow> None)"

definition read_content :: "tokenizer \<Rightarrow> string \<Rightarrow> nat option \<Rightarrow> nat option \<Rightarrow> string \<Rightarrow> json answer" where
  "read_content bpe content start_line end_line mode =
     (case range_error start_line end_line of
        Some e \<Rightarrow> Some (Inl e)
      | None \<Rightarrow>
          do { let total_lines = length (lines content);
               start_line \<leftarrow> clamp_line total_lines start_line;
               end_line \<leftarrow> clamp_line total_lines end_line;
               (if mode = ''smart''
                then map_option (\<lambda>truncated. Inr (JObj [(''content'', JStr truncated),
                         (''total_lines'', JInt (int total_lines)), (''mode'', JStr ''smart'')]))
                       (truncate_code bpe content (focus_of start_line end_line) 20000)
                else Some (Inr (read_raw bpe content start_line end_line))) })"

definition read_single_file :: "'w os \<Rightarrow> tokenizer \<Rightarrow> ToolBox \<Rightarrow> 'w \<Rightarrow> string \<Rightarrow> nat option \<Rightarrow> nat option \<Rightarrow> string \<Rightarrow>
    json answer" where
  "read_single_file os bpe t w path_str start_line end_line mode =
     (case validate_path os w path_str (worktree_path t) of
        Inl e \<Rightarrow> Some (Inl e)
      | Inr p \<Rightarrow>
          (case os_read os w p of
             Inl e \<Rightarrow> Some (Inl (io_text e))
           | Inr content \<Rightarrow> read_content bpe content start_line end_line mode))"

definition json_insert :: "string \<Rightarrow> json \<Rightarrow> json \<Rightarrow> json" where
  "json_insert k x v = (case v of JObj ms \<Rightarrow> JObj (filter (\<lambda>(k', _). k' \<noteq> k) ms @ [(k, x)]) | _ \<Rightarrow> v)"

fun read_each :: "'w os \<Rightarrow> tokenizer \<Rightarrow> ToolBox \<Rightarrow> 'w \<Rightarrow> string \<Rightarrow> json list \<Rightarrow> json list option" where
  "read_each os bpe t w mode [] = Some []"
| "read_each os bpe t w mode (file_args # fs) =
     (let path_str = (case str_arg file_args ''path'' of Some p \<Rightarrow> p | None \<Rightarrow> [])
      in if path_str = []
         then map_option ((#) (JObj [(''error'', JStr ''Missing path'')])) (read_each os bpe t w mode fs)
         else do { r \<leftarrow> read_single_file os bpe t w path_str (num_arg file_args ''start_line'')
                          (num_arg file_args ''end_line'') mode;
                   rs \<leftarrow> read_each os bpe t w mode fs;
                   Some ((case r of
                      Inr val \<Rightarrow> json_insert ''path'' (JStr path_str) val
                    | Inl e \<Rightarrow> JObj [(''path'', JStr path_str), (''error'', JStr e)]) # rs) })"

definition read_files :: "'w os \<Rightarrow> tokenizer \<Rightarrow> ToolBox \<Rightarrow> 'w \<Rightarrow> json \<Rightarrow> json answer" where
  "read_files os bpe t w args =
     (case as_array_opt (jindex args ''files'') of
        None \<Rightarrow> Some (Inl ''Missing files'')
      | Some fs \<Rightarrow>
          map_option (\<lambda>rs. Inr (JObj [(''results'', JArr rs)]))
            (read_each os bpe t w (case str_arg args ''mode'' of Some m \<Rightarrow> m | None \<Rightarrow> ''raw'') fs))"

definition read_prompt :: "'w os \<Rightarrow> ToolBox \<Rightarrow> 'w \<Rightarrow> json \<Rightarrow> string + json" where
  "read_prompt os t w args =
     (case prompts_path t of
        None \<Rightarrow> Inl ''read_prompt tool is not available''
      | Some prompts \<Rightarrow>
          (case str_arg args ''name'' of
             None \<Rightarrow> Inl ''Missing prompt name''
           | Some n \<Rightarrow>
               res_bind (validate_path os w n prompts) (\<lambda>p.
                 case os_read os w p of
                   Inl e \<Rightarrow> Inl (io_text e)
                 | Inr content \<Rightarrow> Inr (JObj [(''content'', JStr content)]))))"

subsection \<open>Git\<close>

type_synonym 'w tool = "json \<Rightarrow> 'w \<Rightarrow> json answer \<times> 'w"

definition answer_io :: "string \<Rightarrow> (Output \<Rightarrow> string + json) \<Rightarrow> io_error + Output \<Rightarrow> json answer" where
  "answer_io what f r =
     Some (case r of
        Inl e \<Rightarrow> Inl (io_text e)
      | Inr out \<Rightarrow> if out_success out then f out else Inl (what @ '' failed: '' @ trim (out_stderr out)))"

definition content_of :: "string \<Rightarrow> string + json" where
  "content_of s = Inr (JObj [(''content'', JStr s)])"

definition blame_args :: "json \<Rightarrow> string \<Rightarrow> string list" where
  "blame_args args path_str =
     [''blame''] @
     (case (num_arg args ''start_line'', num_arg args ''end_line'') of
        (Some s, Some e) \<Rightarrow> [''-L'' @ show_nat s @ '','' @ show_nat e]
      | _ \<Rightarrow> []) @
     [''--'', path_str]"

definition git_blame :: "'w os \<Rightarrow> tokenizer \<Rightarrow> ToolBox \<Rightarrow> 'w tool" where
  "git_blame os bpe t args w =
     (case str_arg args ''path'' of
        None \<Rightarrow> (Some (Inl ''Missing path''), w)
      | Some path_str \<Rightarrow>
          (let (r, w) = os_git os (worktree_path t) (blame_args args path_str) w
           in (answer_io ''git blame'' (\<lambda>out. content_of (truncate_output bpe (out_stdout out))) r, w)))"

definition string_items :: "json list \<Rightarrow> string list" where
  "string_items vs = List.map_filter as_str_opt vs"

definition diff_exact :: "string list" where
  "diff_exact = [''--stat'', ''--name-only'', ''--name-status'', ''-p'', ''-R'', ''--'']"

definition diff_prefixes :: "string list" where
  "diff_prefixes = [''--unified='', ''--diff-algorithm='']"

definition shallow_hint :: string where
  "shallow_hint = newline # ''Hint: The repository might be a shallow clone (depth=1). You cannot access history beyond HEAD. Try using '' @
     [CHR 0x27] @ ''HEAD'' @ [CHR 0x27] @ '' or diffing against specific files without revision ranges.''"

definition git_diff :: "'w os \<Rightarrow> tokenizer \<Rightarrow> ToolBox \<Rightarrow> 'w tool" where
  "git_diff os bpe t args w =
     (case as_array_opt (jindex args ''args'') of
        None \<Rightarrow> (Some (Inl ''Missing args''), w)
      | Some vs \<Rightarrow>
          (let diff_args = string_items vs
           in case validate_git_args diff_args diff_exact diff_prefixes of
                Inl e \<Rightarrow> (Some (Inl e), w)
              | Inr _ \<Rightarrow>
                  (let (r, w) = os_git os (worktree_path t) ([''diff'', ''--diff-algorithm=histogram''] @ diff_args) w
                   in (Some (case r of
                         Inl e \<Rightarrow> Inl (io_text e)
                       | Inr out \<Rightarrow>
                           if out_success out then content_of (truncate_diff bpe (out_stdout out) 10000)
                           else let stderr = trim (out_stderr out)
                             in Inl (''git diff failed: '' @ stderr @
                               (if contains stderr ''unknown revision'' \<or> contains stderr ''ambiguous argument''
                                then shallow_hint else []))), w))))"

definition log_exact :: "string list" where
  "log_exact = [''--oneline'', ''--graph'', ''--decorate'', ''--abbrev-commit'', ''-p'', ''--stat'', ''--name-only'',
     ''--name-status'', ''--follow'', ''--'', ''--since'', ''--until'', ''--author'', ''--grep'', ''-S'', ''-G'', ''-n'',
     ''--max-count'']"

definition log_prefixes :: "string list" where
  "log_prefixes = [''--since='', ''--until='', ''--author='', ''--grep='', ''-S'', ''-G'', ''-n'', ''--max-count='',
     ''--pretty='', ''--format='']"

definition log_timeout :: string where
  "log_timeout = ''git log command timed out after 120 seconds. Please avoid using extremely slow search flags like -S or -G on large repositories.''"

definition git_log :: "'w os \<Rightarrow> tokenizer \<Rightarrow> ToolBox \<Rightarrow> 'w tool" where
  "git_log os bpe t args w =
     (let log_args = (case as_array_opt (jindex args ''args'') of Some vs \<Rightarrow> string_items vs | None \<Rightarrow> [])
      in case validate_git_args log_args log_exact log_prefixes of
           Inl e \<Rightarrow> (Some (Inl e), w)
         | Inr _ \<Rightarrow>
             (let cmd = [''log'', ''-n'', ''100''] @ log_args; (r, w') = os_git os (worktree_path t) cmd w
              in (if os_timeout os (worktree_path t) cmd w
                  then Some (Inr (JObj [(''error'', JStr log_timeout)]))
                  else Some (case r of
                      Inl e \<Rightarrow> Inl (io_text e)
                    | Inr out \<Rightarrow>
                        if out_success out
                        then Inr (JObj [(''output'', JStr (truncate_output bpe (out_stdout out)))])
                        else Inr (JObj [(''error'', JStr (''git log failed: '' @ trim (out_stderr out)))])), w')))"

definition show_range :: "tokenizer \<Rightarrow> string \<Rightarrow> nat option \<Rightarrow> nat option \<Rightarrow> json" where
  "show_range bpe content start_line end_line =
     (let ls = lines content; total_lines = length ls; (start, stop) = line_range total_lines start_line end_line
      in if start \<ge> total_lines
         then JObj [(''content'', JStr []), (''lines_read'', JInt 0), (''total_lines'', JInt (int total_lines))]
         else JObj [(''content'', JStr (truncate_output bpe (join [newline] (take (stop - start) (drop start ls))))),
                    (''total_lines'', JInt (int total_lines)), (''start_line'', JInt (int (start + 1))),
                    (''end_line'', JInt (int stop))])"

definition git_show :: "'w os \<Rightarrow> tokenizer \<Rightarrow> ToolBox \<Rightarrow> 'w tool" where
  "git_show os bpe t args w =
     (case str_arg args ''object'' of
        None \<Rightarrow> (Some (Inl ''Missing object''), w)
      | Some obj \<Rightarrow>
          (let suppress_diff = (as_bool_opt (jindex args ''suppress_diff'') = Some True);
               start_line = num_arg args ''start_line''; end_line = num_arg args ''end_line''
           in if starts_with obj ''-'' then (Some (Inl (''Invalid object name: '' @ obj)), w)
              else let (r, w) = os_git os (worktree_path t)
                         ([''show''] @ (if suppress_diff then [''--no-patch''] else []) @ [obj]) w
                in (answer_io ''git show'' (\<lambda>out.
                      if start_line \<noteq> None \<or> end_line \<noteq> None
                      then Inr (show_range bpe (out_stdout out) start_line end_line)
                      else content_of (truncate_output bpe (out_stdout out))) r, w)))"

definition git_text :: "'w os \<Rightarrow> ToolBox \<Rightarrow> string \<Rightarrow> string list \<Rightarrow> 'w \<Rightarrow> json answer \<times> 'w" where
  "git_text os t what cmd w =
     (let (r, w) = os_git os (worktree_path t) cmd w
      in (answer_io what (\<lambda>out. content_of (out_stdout out)) r, w))"

definition git_status :: "'w os \<Rightarrow> ToolBox \<Rightarrow> 'w tool" where
  "git_status os t args = git_text os t ''git status'' [''status'']"

definition git_branch :: "'w os \<Rightarrow> ToolBox \<Rightarrow> 'w tool" where
  "git_branch os t args = git_text os t ''git branch'' [''branch'', ''--list'', ''--all'']"

definition git_tag :: "'w os \<Rightarrow> ToolBox \<Rightarrow> 'w tool" where
  "git_tag os t args = git_text os t ''git tag'' [''tag'', ''--list'']"

definition git_checkout :: "'w os \<Rightarrow> ToolBox \<Rightarrow> 'w tool" where
  "git_checkout os t args w =
     (case str_arg args ''target'' of
        None \<Rightarrow> (Some (Inl ''Missing target''), w)
      | Some target \<Rightarrow>
          (let (r, w) = os_git os (worktree_path t) [''checkout'', target] w
           in (answer_io ''git checkout'' (\<lambda>out.
                 Inr (JObj [(''status'', JStr ''success''), (''message'', JStr (''Checked out '' @ target))])) r, w)))"

subsection \<open>Directories, searching and notes\<close>

definition list_dir :: "'w os \<Rightarrow> ToolBox \<Rightarrow> 'w \<Rightarrow> json \<Rightarrow> string + json" where
  "list_dir os t w args =
     (case str_arg args ''path'' of
        None \<Rightarrow> Inl ''Missing path''
      | Some path_str \<Rightarrow>
          res_bind (validate_path os w path_str (worktree_path t)) (\<lambda>p.
            case os_read_dir os w p of
              Inl e \<Rightarrow> Inl (io_text e)
            | Inr es \<Rightarrow>
                Inr (JObj [(''entries'', JArr (List.map
                  (\<lambda>(n, dir). JObj [(''name'', JStr n), (''type'', JStr (if dir then ''dir'' else ''file''))])
                  (take 1000 es)))])))"

definition search_file_content :: "'w os \<Rightarrow> tokenizer \<Rightarrow> ToolBox \<Rightarrow> 'w \<Rightarrow> json \<Rightarrow> string + json" where
  "search_file_content os bpe t w args =
     (case str_arg args ''pattern'' of
        None \<Rightarrow> Inl ''Missing pattern''
      | Some pattern \<Rightarrow>
          (let path_str = (case str_arg args ''path'' of Some p \<Rightarrow> p | None \<Rightarrow> ''.'');
               context_lines = (case num_arg args ''context_lines'' of Some n \<Rightarrow> n | None \<Rightarrow> 0)
           in res_bind (validate_path os w path_str (worktree_path t)) (\<lambda>search_path.
                res_bind (os_search os w pattern search_path (worktree_path t) context_lines) (\<lambda>content.
                  if content = []
                  then Inr (JObj [(''matches'', JArr []), (''message'', JStr ''No matches found.'')])
                  else content_of (truncate_output bpe content)))))"

definition find_files :: "'w os \<Rightarrow> ToolBox \<Rightarrow> 'w tool" where
  "find_files os t args w =
     (case str_arg args ''pattern'' of
        None \<Rightarrow> (Some (Inl ''Missing pattern''), w)
      | Some pattern \<Rightarrow>
          (case validate_path os w (case str_arg args ''path'' of Some p \<Rightarrow> p | None \<Rightarrow> ''.'') (worktree_path t) of
             Inl e \<Rightarrow> (Some (Inl e), w)
           | Inr p \<Rightarrow>
               (let (r, w) = os_find os (worktree_path t) p [''-name'', pattern, ''-not'', ''-path'', ''*/.*''] w
                in (answer_io ''find'' (\<lambda>out.
                      let content = out_stdout out; files = lines content
                      in if length files > 1000
                         then Inr (JObj [(''files'', JStr (join [newline] (take 1000 files))),
                                (''total_found'', JInt (int (length files))),
                                (''message'', JStr ''Output truncated to 1000 files.'')])
                         else Inr (JObj [(''files'', JStr content)])) r, w))))"

definition todowrite :: "'w os \<Rightarrow> ToolBox \<Rightarrow> 'w tool" where
  "todowrite os t args w =
     (case str_arg args ''content'' of
        None \<Rightarrow> (Some (Inl ''Missing content''), w)
      | Some content \<Rightarrow>
          (case validate_path os w ''TODO.md'' (worktree_path t) of
             Inl e \<Rightarrow> (Some (Inl e), w)
           | Inr p \<Rightarrow>
               (let (r, w) = os_append os p (''- [ ] '' @ content @ [newline]) w
                in (Some (case r of
                      Inl e \<Rightarrow> Inl (io_text e)
                    | Inr _ \<Rightarrow> Inr (JObj [(''status'', JStr ''success''), (''message'', JStr ''TODO added.'')])), w))))"

subsection \<open>Dispatch\<close>

definition call_tool :: "'w os \<Rightarrow> tokenizer \<Rightarrow> ToolBox \<Rightarrow> string \<Rightarrow> 'w tool" where
  "call_tool os bpe t n args w =
     (let name_normalized = lower (trim n)
      in if name_normalized = ''read_files'' then (read_files os bpe t w args, w)
         else if name_normalized = ''git_blame'' then git_blame os bpe t args w
         else if name_normalized = ''git_diff'' then git_diff os bpe t args w
         else if name_normalized = ''git_show'' then git_show os bpe t args w
         else if name_normalized = ''git_log'' then git_log os bpe t args w
         else if name_normalized = ''git_status'' then git_status os t args w
         else if name_normalized = ''git_checkout'' then git_checkout os t args w
         else if name_normalized = ''git_branch'' then git_branch os t args w
         else if name_normalized = ''git_tag'' then git_tag os t args w
         else if name_normalized = ''list_dir'' then (Some (list_dir os t w args), w)
         else if name_normalized = ''search_file_content'' then (Some (search_file_content os bpe t w args), w)
         else if name_normalized = ''find_files'' then find_files os t args w
         else if name_normalized = ''todowrite'' then todowrite os t args w
         else if name_normalized = ''read_prompt'' then (Some (read_prompt os t w args), w)
         else (Some (Inl (''Unknown tool: '' @ n)), w))"

subsection \<open>What the tools reach\<close>

lemma validate_git_args_ok:
  "validate_git_args args exact prefixes = Inr () \<longleftrightarrow>
   (\<forall>a\<in>set (takeWhile (\<lambda>a. a \<noteq> ''--'') args). starts_with a ''-'' \<longrightarrow> git_option_allowed exact prefixes a)"
  by (induction args) auto

text \<open>The commands of git whose arguments have been looked at.\<close>

definition options_ok :: "string list \<Rightarrow> string list \<Rightarrow> string list \<Rightarrow> bool" where
  "options_ok exact prefixes args \<longleftrightarrow>
     (\<forall>a\<in>set (takeWhile (\<lambda>a. a \<noteq> ''--'') args). starts_with a ''-'' \<longrightarrow> git_option_allowed exact prefixes a)"

definition checked_command :: "string list \<Rightarrow> bool" where
  "checked_command cmd \<longleftrightarrow>
     cmd \<in> {[''status''], [''branch'', ''--list'', ''--all''], [''tag'', ''--list'']} \<or>
     (\<exists>target. cmd = [''checkout'', target]) \<or>
     (\<exists>obj flag. cmd = [''show''] @ flag @ [obj] \<and> set flag \<subseteq> {''--no-patch''} \<and> \<not> starts_with obj ''-'') \<or>
     (\<exists>range file. cmd = [''blame''] @ range @ [''--'', file] \<and> (\<forall>a\<in>set range. starts_with a ''-L'')) \<or>
     (\<exists>args. cmd = [''diff'', ''--diff-algorithm=histogram''] @ args \<and> options_ok diff_exact diff_prefixes args) \<or>
     (\<exists>args. cmd = [''log'', ''-n'', ''100''] @ args \<and> options_ok log_exact log_prefixes args)"

definition tool_base :: "ToolBox \<Rightarrow> path \<Rightarrow> bool" where
  "tool_base t base \<longleftrightarrow> base = worktree_path t \<or> prompts_path t = Some base"

definition inside_base :: "'w os \<Rightarrow> ToolBox \<Rightarrow> 'w \<Rightarrow> path \<Rightarrow> bool" where
  "inside_base os t w p \<longleftrightarrow>
     (\<exists>base cb. tool_base t base \<and> os_canonicalize os w base = Inr cb \<and> path_starts_with p cb)"

text \<open>Two worlds that look alike to the tools. Paths are printed alike, and a path that is written below the work
  tree or the prompts leads to the same place, which may lie outside when it goes over a link. What can be read,
  written, listed and searched is the same below the real work tree and the real prompts only, and git need do the
  same only for checked commands.\<close>

definition alike :: "ToolBox \<Rightarrow> 'w os \<Rightarrow> 'w os \<Rightarrow> bool" where
  "alike t os os' \<longleftrightarrow>
     os_show_path os' = os_show_path os \<and>
     (\<forall>base p w. tool_base t base \<and> path_starts_with p base \<longrightarrow> os_canonicalize os' w p = os_canonicalize os w p) \<and>
     (\<forall>w p. inside_base os t w p \<longrightarrow>
        os_read os' w p = os_read os w p \<and> os_read_dir os' w p = os_read_dir os w p \<and>
        (\<forall>s. os_append os' p s w = os_append os p s w) \<and>
        (\<forall>pat n. os_search os' w pat p (worktree_path t) n = os_search os w pat p (worktree_path t) n) \<and>
        (\<forall>args. os_find os' (worktree_path t) p args w = os_find os (worktree_path t) p args w)) \<and>
     (\<forall>cmd w. checked_command cmd \<longrightarrow>
        os_git os' (worktree_path t) cmd w = os_git os (worktree_path t) cmd w \<and>
        os_timeout os' (worktree_path t) cmd w = os_timeout os (worktree_path t) cmd w)"

lemma validate_path_inside:
  "validate_path os w relative base = Inr p \<Longrightarrow>
   \<exists>cb. os_canonicalize os w base = Inr cb \<and> path_starts_with p cb"
  by (auto simp: validate_path_def Let_def res_bind_Inr split: if_splits sum.splits)

lemma inside_base_valid:
  "validate_path os w relative base = Inr p \<Longrightarrow> tool_base t base \<Longrightarrow> inside_base os t w p"
  unfolding inside_base_def by (metis validate_path_inside)

lemma tool_base_simps [simp]: "tool_base t (worktree_path t)" "prompts_path t = Some b \<Longrightarrow> tool_base t b"
  by (simp_all add: tool_base_def)

lemma same_validate:
  assumes "alike t os os'" "tool_base t base"
  shows "validate_path os' w relative base = validate_path os w relative base"
proof -
  have below: "os_canonicalize os' w (base @ p) = os_canonicalize os w (base @ p)" for p
  proof -
    have "path_starts_with (base @ p) base" by (simp add: path_starts_with_def)
    with assms show ?thesis unfolding alike_def by blast
  qed
  have full: "os_canonicalize os' w base = os_canonicalize os w base"
    using below [of "[]"] by simp
  have up: "segments relative \<noteq> [] \<Longrightarrow>
      os_canonicalize os' w (butlast (base @ segments relative)) =
      os_canonicalize os w (butlast (base @ segments relative))"
    using below [of "butlast (segments relative)"] by (simp add: butlast_append)
  have shown: "debug_path os' = debug_path os"
    using assms(1) by (simp add: alike_def debug_path_def fun_eq_iff)
  show ?thesis
    by (cases "segments relative = []")
       (auto simp: validate_path_def below full up shown parent_def Let_def split: sum.splits io_error.splits)
qed

lemma same_access:
  assumes "alike t os os'" "validate_path os w relative base = Inr p" "tool_base t base"
  shows "os_read os' w p = os_read os w p" "os_read_dir os' w p = os_read_dir os w p"
    "os_append os' p s w = os_append os p s w"
    "os_search os' w pat p (worktree_path t) n = os_search os w pat p (worktree_path t) n"
    "os_find os' (worktree_path t) p args w = os_find os (worktree_path t) p args w"
  using inside_base_valid [OF assms(2,3)] assms(1) by (simp_all add: alike_def)

lemma same_git:
  "alike t os os' \<Longrightarrow> checked_command cmd \<Longrightarrow> os_git os' (worktree_path t) cmd w = os_git os (worktree_path t) cmd w"
  "alike t os os' \<Longrightarrow> checked_command cmd \<Longrightarrow> os_timeout os' (worktree_path t) cmd w = os_timeout os (worktree_path t) cmd w"
  by (simp_all add: alike_def)

lemma same_read_single:
  assumes "alike t os os'"
  shows "read_single_file os' bpe t w f s e m = read_single_file os bpe t w f s e m"
  by (auto simp: read_single_file_def same_validate [OF assms] same_access(1) [OF assms] split: sum.split)

lemma same_read_each:
  assumes "alike t os os'"
  shows "read_each os' bpe t w m fs = read_each os bpe t w m fs"
  by (induction fs) (simp_all only: read_each.simps same_read_single [OF assms])

lemma same_files:
  assumes "alike t os os'"
  shows "read_files os' bpe t w args = read_files os bpe t w args"
    "read_prompt os' t w args = read_prompt os t w args"
    "list_dir os' t w args = list_dir os t w args"
    "search_file_content os' bpe t w args = search_file_content os bpe t w args"
proof -
  note same = same_validate [OF assms] res_bind_def
  show "read_files os' bpe t w args = read_files os bpe t w args"
    by (simp only: read_files_def same_read_each [OF assms])
  show "read_prompt os' t w args = read_prompt os t w args"
    by (auto simp: read_prompt_def same same_access(1) [OF assms] split: option.split sum.split)
  show "list_dir os' t w args = list_dir os t w args"
    by (auto simp: list_dir_def same same_access(2) [OF assms] split: option.split sum.split)
  show "search_file_content os' bpe t w args = search_file_content os bpe t w args"
    by (auto simp: search_file_content_def same Let_def same_access(4) [OF assms] split: option.split sum.split)
qed

lemma same_writes:
  assumes "alike t os os'"
  shows "find_files os' t args w = find_files os t args w" "todowrite os' t args w = todowrite os t args w"
  by (auto simp: find_files_def todowrite_def same_validate [OF assms] same_access(3,5) [OF assms]
      split: option.split sum.split)

lemma blame_checked: "checked_command (blame_args args file)"
proof -
  obtain range where "blame_args args file = [''blame''] @ range @ [''--'', file]" "\<forall>a\<in>set range. starts_with a ''-L''"
  proof
    show "blame_args args file = [''blame''] @
        (case (num_arg args ''start_line'', num_arg args ''end_line'') of
           (Some s, Some e) \<Rightarrow> [''-L'' @ show_nat s @ '','' @ show_nat e] | _ \<Rightarrow> []) @ [''--'', file]"
      by (simp add: blame_args_def)
  qed (auto split: option.splits simp: starts_with_def)
  then show ?thesis unfolding checked_command_def by blast
qed

lemma validated_checked:
  "validate_git_args a diff_exact diff_prefixes = Inr () \<Longrightarrow> checked_command ([''diff'', ''--diff-algorithm=histogram''] @ a)"
  "validate_git_args a log_exact log_prefixes = Inr () \<Longrightarrow> checked_command ([''log'', ''-n'', ''100''] @ a)"
  unfolding checked_command_def validate_git_args_ok options_ok_def by blast+

lemma show_checked:
  "\<not> starts_with obj ''-'' \<Longrightarrow> set flag \<subseteq> {''--no-patch''} \<Longrightarrow> checked_command ([''show''] @ flag @ [obj])"
  unfolding checked_command_def by blast

lemma same_git_tools:
  assumes "alike t os os'"
  shows "git_blame os' bpe t args w = git_blame os bpe t args w" "git_diff os' bpe t args w = git_diff os bpe t args w"
    "git_log os' bpe t args w = git_log os bpe t args w" "git_show os' bpe t args w = git_show os bpe t args w"
proof -
  note git = same_git [OF assms]
  show "git_blame os' bpe t args w = git_blame os bpe t args w"
    by (simp add: git_blame_def git(1) [OF blame_checked] split: option.split)
  show "git_diff os' bpe t args w = git_diff os bpe t args w"
    using git(1) [OF validated_checked(1)] by (auto simp: git_diff_def Let_def split: option.split sum.split)
  show "git_log os' bpe t args w = git_log os bpe t args w"
    using git [OF validated_checked(2)] by (auto simp: git_log_def Let_def split: sum.split)
  show "git_show os' bpe t args w = git_show os bpe t args w"
    using git(1) [OF show_checked, of _ "[''--no-patch'']"] git(1) [OF show_checked, of _ "[]"]
    by (auto simp: git_show_def Let_def split: option.split)
qed

lemma same_plain:
  assumes "alike t os os'"
  shows "git_status os' t args w = git_status os t args w" "git_branch os' t args w = git_branch os t args w"
    "git_tag os' t args w = git_tag os t args w" "git_checkout os' t args w = git_checkout os t args w"
  by (simp_all add: git_status_def git_branch_def git_tag_def git_checkout_def git_text_def same_git [OF assms]
      checked_command_def split: option.split)

text \<open>C31. What the AI can reach with its tools: whatever tool it calls with whatever arguments, the answer and the
  changes are the same in any two worlds that print paths alike and agree on where the paths written below the
  work tree and the prompts lead, on the content of what is below the real work tree and the real prompts, and on the
  git commands that have been checked: no option of \<open>git diff\<close> and \<open>git log\<close> that is not on their lists, no option at
  all for \<open>git show\<close> and \<open>git blame\<close>. Only \<open>git checkout\<close> takes its argument as it comes. So of a file
  outside the AI can learn at most that a link of the work tree leads to it, or to nothing, since links are
  followed before the path is checked and a refusal names the target. What is below the real work tree is told by the name of
  the path, so a file that is made behind a link to nothing counts as below.\<close>

theorem tools_confined:
  "alike t os os' \<Longrightarrow> call_tool os' bpe t n args w = call_tool os bpe t n args w"
  by (simp only: call_tool_def same_files same_writes same_git_tools same_plain)

definition sample_box :: ToolBox where
  "sample_box = \<lparr>worktree_path = [''w''], prompts_path = None\<rparr>"

text \<open>A world where every path below the work tree is real and every file there has the same text.\<close>

definition sample_os :: "string \<Rightarrow> unit os" where
  "sample_os secret =
     \<lparr>os_canonicalize = (\<lambda>w p. if path_starts_with p [''w''] then Inr p else Inl (NotFound secret)),
      os_read = (\<lambda>w p. Inr (if path_starts_with p [''w''] then ''code'' else secret)),
      os_read_dir = (\<lambda>w p. Inr []), os_append = (\<lambda>p s w. (Inr (), w)),
      os_git = (\<lambda>d cmd w. (Inl (OtherIo ''no git''), w)), os_timeout = (\<lambda>d cmd w. False),
      os_find = (\<lambda>d p args w. (Inl (OtherIo ''no find''), w)), os_search = (\<lambda>w pat p d n. Inr []),
      os_show_path = (\<lambda>p. join ''/'' p)\<rparr>"

theorem tools_confined_witness:
  "os_read (sample_os ''x'') () [''etc''] \<noteq> os_read (sample_os ''y'') () [''etc''] \<and>
   call_tool (sample_os ''y'') (\<lambda>_. 1) sample_box ''read_files''
     (JObj [(''files'', JArr [JObj [(''path'', JStr ''etc'')]])]) () =
   call_tool (sample_os ''x'') (\<lambda>_. 1) sample_box ''read_files''
     (JObj [(''files'', JArr [JObj [(''path'', JStr ''etc'')]])]) ()"
proof -
  have "alike sample_box (sample_os ''x'') (sample_os ''y'')"
    by (auto simp: alike_def sample_os_def inside_base_def tool_base_def sample_box_def)
  from tools_confined [OF this] have "call_tool (sample_os ''y'') bpe sample_box n args w =
      call_tool (sample_os ''x'') bpe sample_box n args w" for bpe n args w .
  moreover have "os_read (sample_os ''x'') () [''etc''] \<noteq> os_read (sample_os ''y'') () [''etc'']"
    by (simp add: sample_os_def path_starts_with_def)
  ultimately show ?thesis by blast
qed

subsection \<open>Reading ranges of lines\<close>

lemma focus_in_range:
  assumes "0 < n" "clamp_line n s = Some s'" "clamp_line n e = Some e'" "focus_of s' e' = Some (a, b)"
    "range_error s e = None"
  shows "\<not> min (min b n + 50) n + 50 < max a 1 - 1"
  using assms
  by (cases s; cases e) (auto simp: clamp_line_def focus_of_def range_error_def split: if_splits)

lemma line_slice_some: "line_slice i j xs = None \<longleftrightarrow> \<not> (i \<le> j \<and> j \<le> length xs)"
  by (simp add: line_slice_def)

lemma truncate_code_returns:
  assumes "\<And>a b. f = Some (a, b) \<Longrightarrow> \<not> min (min b (length (lines c)) + 50) (length (lines c)) + 50 < max a 1 - 1"
  shows "truncate_code bpe c f m \<noteq> None"
  using assms
  by (cases f) (auto simp: truncate_code_def Let_def line_slice_def)

text \<open>Reading a range of lines of a file returns a text or an error for every range but one case: with an empty
  file, any range that is given is clamped to the lines from 1 to 0, and the call panics.\<close>

theorem empty_file_panics:
  "read_content bpe content start_line end_line mode = None \<longleftrightarrow>
   lines content = [] \<and> (start_line \<noteq> None \<or> end_line \<noteq> None) \<and> range_error start_line end_line = None"
proof (cases "range_error start_line end_line")
  case (Some e)
  then show ?thesis by (simp add: read_content_def)
next
  case None
  let ?n = "length (lines content)"
  show ?thesis
  proof (cases "?n = 0")
    case True
    then have "read_content bpe content start_line end_line mode \<noteq> None"
      if "start_line = None" "end_line = None"
      using that truncate_code_returns [of None content]
      by (auto simp: read_content_def clamp_line_def range_error_def focus_of_def)
    with True None show ?thesis
      by (cases start_line; cases end_line) (auto simp: read_content_def clamp_line_def)
  next
    case False
    then obtain s e where se: "clamp_line ?n start_line = Some s" "clamp_line ?n end_line = Some e"
      by (cases start_line; cases end_line) (auto simp: clamp_line_def)
    have "truncate_code bpe content (focus_of s e) 20000 \<noteq> None"
      by (rule truncate_code_returns) (use focus_in_range [OF _ se] False None in auto)
    with se None False show ?thesis by (auto simp: read_content_def)
  qed
qed

theorem empty_file_panics_witness:
  "read_content (\<lambda>_. 1) [] (Some 1) None ''raw'' = None \<and> read_content (\<lambda>_. 1) ''a'' (Some 1) None ''raw'' \<noteq> None"
proof -
  have "lines [] = []" "lines ''a'' \<noteq> []" "range_error (Some 1) None = None" by code_simp+
  with empty_file_panics [of "\<lambda>_. 1" "[]" "Some 1" None "''raw''"]
    empty_file_panics [of "\<lambda>_. 1" "''a''" "Some 1" None "''raw''"] show ?thesis by simp
qed

text \<open>An option reaches \<open>git checkout\<close>.\<close>

lemma checkout_option:
  "fst (call_tool ((sample_os [])\<lparr>os_git := (\<lambda>d cmd w. (Inr \<lparr>out_success = True, out_stdout = concat cmd, out_stderr = []\<rparr>, w))\<rparr>)
     bpe sample_box ''git_checkout'' (JObj [(''target'', JStr ''--force'')]) ()) =
   Some (Inr (JObj [(''status'', JStr ''success''), (''message'', JStr ''Checked out --force'')]))"
  by code_simp

end
