(* ===== verification/Git_Ops.thy ===== *)
theory Git_Ops
  imports Tools Utils OpenAi_Stream
begin

text \<open>
  Running git (\<open>src/git_ops.rs\<close>): work trees, remotes that are fetched when they are old, the questions asked
  about commits, and the parts of a commit. Programs, files and the clock are the argument \<open>host\<close>, whose
  effects are on a world that is passed along; an operation gives an error text or a value. The locks
  that keep two tasks of the service from changing one configuration at a time have no counterpart: an
  operation is one step. What a program prints is taken as text as it is.
\<close>

subsection \<open>Programs\<close>

record Command =
  cm_program :: string
  cm_dir :: path
  cm_env :: "(string \<times> string) list"
  cm_args :: "string list"
  cm_stdin :: "string option"

record Exit = Output +
  ex_code :: "int option"

text \<open>\<open>ho_age\<close> is the time since a file was changed, in nanoseconds; \<open>ho_temp_dir\<close> makes a directory with
  a new name below the given one.\<close>

record 'w host =
  ho_run :: "Command \<Rightarrow> 'w \<Rightarrow> (io_error + Exit) \<times> 'w"
  ho_exists :: "'w \<Rightarrow> path \<Rightarrow> bool"
  ho_create_dir :: "path \<Rightarrow> 'w \<Rightarrow> (io_error + unit) \<times> 'w"
  ho_remove_dir :: "path \<Rightarrow> 'w \<Rightarrow> (io_error + unit) \<times> 'w"
  ho_temp_dir :: "string \<Rightarrow> path option \<Rightarrow> 'w \<Rightarrow> (io_error + path) \<times> 'w"
  ho_touch :: "path \<Rightarrow> 'w \<Rightarrow> 'w"
  ho_age :: "'w \<Rightarrow> path \<Rightarrow> nat option"
  ho_seconds :: "'w \<Rightarrow> int"
  ho_show_path :: "path \<Rightarrow> string"

type_synonym ('w, 'a) io = "'w \<Rightarrow> (string + 'a) \<times> 'w"

definition io_ret :: "'a \<Rightarrow> ('w, 'a) io" where
  "io_ret a = (\<lambda>w. (Inr a, w))"

definition io_fail :: "string \<Rightarrow> ('w, 'a) io" where
  "io_fail e = (\<lambda>w. (Inl e, w))"

definition io_bind :: "('w, 'a) io \<Rightarrow> ('a \<Rightarrow> ('w, 'b) io) \<Rightarrow> ('w, 'b) io" where
  "io_bind m f = (\<lambda>w. case m w of (Inl e, w') \<Rightarrow> (Inl e, w') | (Inr a, w') \<Rightarrow> f a w')"

definition io_files :: "('w \<Rightarrow> (io_error + 'a) \<times> 'w) \<Rightarrow> ('w, 'a) io" where
  "io_files m = (\<lambda>w. case m w of (Inl e, w') \<Rightarrow> (Inl (io_text e), w') | (Inr a, w') \<Rightarrow> (Inr a, w'))"

definition git_command :: "path \<Rightarrow> string list \<Rightarrow> Command" where
  "git_command dir args =
     \<lparr>cm_program = ''git'', cm_dir = dir, cm_env = [], cm_args = args, cm_stdin = None\<rparr>"

definition run_git :: "'w host \<Rightarrow> path \<Rightarrow> string list \<Rightarrow> ('w, Exit) io" where
  "run_git ho dir args = io_files (ho_run ho (git_command dir args))"

text \<open>The output of a program that succeeds; its error output, behind a text, when it fails.\<close>

definition git_output :: "'w host \<Rightarrow> path \<Rightarrow> string list \<Rightarrow> string \<Rightarrow> ('w, string) io" where
  "git_output ho dir args what =
     io_bind (run_git ho dir args) (\<lambda>out.
       if out_success out then io_ret (out_stdout out) else io_fail (what @ trim (out_stderr out)))"

definition bare_ok :: "string list" where
  "bare_ok = [''-c'', ''safe.bareRepository=all'']"

definition GIT_PROTOCOL_RESTRICTIONS :: "string list" where
  "GIT_PROTOCOL_RESTRICTIONS =
     [''-c'', ''protocol.allow=never'', ''-c'', ''protocol.http.allow=always'', ''-c'', ''protocol.https.allow=always'',
      ''-c'', ''protocol.git.allow=always'', ''-c'', ''protocol.ssh.allow=always'', ''-c'', ''protocol.file.allow=always'']"

subsection \<open>Work trees\<close>

text \<open>\<open>gw_dir\<close> is the temporary directory that goes away with the value.\<close>

record GitWorktree =
  gw_dir :: path
  gw_path :: path
  gw_repo_path :: path
  gw_managed :: bool

definition drop_dir :: "'w host \<Rightarrow> path \<Rightarrow> 'w \<Rightarrow> 'w" where
  "drop_dir ho dir w = snd (ho_remove_dir ho dir w)"

definition from_path :: "'w host \<Rightarrow> path \<Rightarrow> path \<Rightarrow> 'w \<Rightarrow> (GitWorktree \<times> 'w) option" where
  "from_path ho path repo_path w =
     (case ho_temp_dir ho ''dummy'' None w of
        (Inl _, _) \<Rightarrow> None
      | (Inr d, w') \<Rightarrow> Some (\<lparr>gw_dir = d, gw_path = path, gw_repo_path = repo_path, gw_managed = False\<rparr>, w'))"

definition worktree_temp_dir :: "'w host \<Rightarrow> path option \<Rightarrow> ('w, path) io" where
  "worktree_temp_dir ho parent_dir =
     (case parent_dir of
        None \<Rightarrow> io_files (ho_temp_dir ho '''' None)
      | Some p \<Rightarrow>
          io_bind (\<lambda>w. if ho_exists ho w p then (Inr (), w) else io_files (ho_create_dir ho p) w)
            (\<lambda>_. io_files (ho_temp_dir ho ''sashiko-worktree-'' (Some p))))"

definition worktree_checkout :: "'w host \<Rightarrow> path \<Rightarrow> string \<Rightarrow> path \<Rightarrow> ('w, unit) io" where
  "worktree_checkout ho repo_path commit_hash path =
     io_bind (git_output ho repo_path
         (bare_ok @ [''worktree'', ''add'', ''--detach'', ''--no-checkout'', ho_show_path ho path, commit_hash])
         ''Failed to create worktree: '')
       (\<lambda>_. io_bind (git_output ho path (bare_ok @ [''reset'', ''--hard'', commit_hash]) ''Failed to populate worktree: '')
       (\<lambda>_. io_ret ()))"

definition new_worktree :: "'w host \<Rightarrow> path \<Rightarrow> string \<Rightarrow> path option \<Rightarrow> ('w, GitWorktree) io" where
  "new_worktree ho repo_path commit_hash parent_dir =
     io_bind (worktree_temp_dir ho parent_dir)
       (\<lambda>path w. case worktree_checkout ho repo_path commit_hash path w of
          (Inl e, w') \<Rightarrow> (Inl e, drop_dir ho path w')
        | (Inr _, w') \<Rightarrow>
            (Inr \<lparr>gw_dir = path, gw_path = path, gw_repo_path = repo_path, gw_managed = True\<rparr>, w'))"

definition am_command :: "path \<Rightarrow> string \<Rightarrow> Command" where
  "am_command dir patch_content =
     (git_command dir (bare_ok @ [''am'']))
       \<lparr>cm_env := [(''GIT_AUTHOR_NAME'', ''Sashiko Bot''), (''GIT_AUTHOR_EMAIL'', ''sashiko@localhost''),
                  (''GIT_COMMITTER_NAME'', ''Sashiko Bot''), (''GIT_COMMITTER_EMAIL'', ''sashiko@localhost'')],
        cm_stdin := Some patch_content\<rparr>"

definition apply_patch :: "'w host \<Rightarrow> GitWorktree \<Rightarrow> string \<Rightarrow> ('w, unit) io" where
  "apply_patch ho t patch_content =
     io_bind (io_files (ho_run ho (am_command (gw_path t) patch_content))) (\<lambda>out.
       if out_success out then io_ret ()
       else (\<lambda>w. (Inl (''git am failed. stdout: '' @ trim (out_stdout out) @ [newline] @ ''stderr: '' @ trim (out_stderr out)),
                  snd (run_git ho (gw_path t) (bare_ok @ [''am'', ''--abort'']) w))))"

definition apply_raw_diff :: "'w host \<Rightarrow> GitWorktree \<Rightarrow> string \<Rightarrow> ('w, Exit) io" where
  "apply_raw_diff ho t diff_content =
     io_files (ho_run ho ((git_command (gw_path t) (bare_ok @ [''apply'', ''-'']))\<lparr>cm_stdin := Some diff_content\<rparr>))"

definition get_commit_show :: "'w host \<Rightarrow> GitWorktree \<Rightarrow> string \<Rightarrow> ('w, string) io" where
  "get_commit_show ho t hash = git_output ho (gw_path t) [''show'', ''--patch'', hash] ''git show failed: ''"

definition get_commit_message :: "'w host \<Rightarrow> GitWorktree \<Rightarrow> string \<Rightarrow> ('w, string) io" where
  "get_commit_message ho t hash =
     git_output ho (gw_path t) [''show'', ''--no-patch'', hash] ''git show --no-patch failed: ''"

definition is_merge_commit :: "'w host \<Rightarrow> GitWorktree \<Rightarrow> string \<Rightarrow> ('w, bool) io" where
  "is_merge_commit ho t hash =
     io_bind (run_git ho (gw_path t) [''rev-list'', ''--parents'', ''-n'', ''1'', hash]) (\<lambda>out.
       if out_success out then io_ret (length (split_whitespace (out_stdout out)) > 2) else io_fail ''git rev-list failed'')"

definition is_empty_commit :: "'w host \<Rightarrow> GitWorktree \<Rightarrow> string \<Rightarrow> ('w, bool) io" where
  "is_empty_commit ho t hash =
     io_bind (run_git ho (gw_path t) [''diff-tree'', ''--no-commit-id'', ''--name-only'', ''-r'', ''--root'', hash]) (\<lambda>out.
       if out_success out then io_ret (trim (out_stdout out) = []) else io_fail ''git diff-tree failed'')"

definition reset_hard :: "'w host \<Rightarrow> GitWorktree \<Rightarrow> string \<Rightarrow> ('w, unit) io" where
  "reset_hard ho t ref_name =
     io_bind (git_output ho (gw_path t) [''reset'', ''--hard'', ref_name] ''git reset --hard failed: '') (\<lambda>_.
     io_bind (run_git ho (gw_path t) [''clean'', ''-fdx'']) (\<lambda>out.
       if out_success out then io_ret () else io_fail (''git clean failed: '' @ out_stderr out)))"

text \<open>Removing a work tree drops the value, and its temporary directory with it, on every path.\<close>

definition remove_worktree :: "'w host \<Rightarrow> GitWorktree \<Rightarrow> ('w, unit) io" where
  "remove_worktree ho t = (\<lambda>w.
     let (r, w') =
       (if \<not> gw_managed t then (Inr (), w)
        else io_bind (\<lambda>w. if ho_exists ho w (gw_path t) then io_files (ho_remove_dir ho (gw_path t)) w else (Inr (), w))
          (\<lambda>_. io_bind (git_output ho (gw_repo_path t)
                 (bare_ok @ [''worktree'', ''remove'', ''-f'', ho_show_path ho (gw_path t)]) ''Failed to remove worktree: '')
          (\<lambda>_. io_ret ())) w)
     in (r, drop_dir ho (gw_dir t) w'))"

subsection \<open>The repository\<close>

definition read_blob :: "'w host \<Rightarrow> path \<Rightarrow> string \<Rightarrow> ('w, string) io" where
  "read_blob ho repo_path hash = git_output ho repo_path (bare_ok @ [''cat-file'', ''-p'', hash]) ''git cat-file failed: ''"

definition prune_worktrees :: "'w host \<Rightarrow> path \<Rightarrow> ('w, unit) io" where
  "prune_worktrees ho repo_path =
     io_bind (git_output ho repo_path (bare_ok @ [''worktree'', ''prune'']) ''git worktree prune failed: '') (\<lambda>_. io_ret ())"

definition check_disk_usage :: "'w host \<Rightarrow> path \<Rightarrow> ('w, string) io" where
  "check_disk_usage ho path =
     io_bind (io_files (ho_run ho \<lparr>cm_program = ''du'', cm_dir = [], cm_env = [],
         cm_args = [''-sh'', ho_show_path ho path], cm_stdin = None\<rparr>)) (\<lambda>out.
       if out_success out then io_ret (trim (out_stdout out))
       else io_fail (''Failed to check disk usage: '' @ trim (out_stderr out)))"

definition get_commit_hash :: "'w host \<Rightarrow> path \<Rightarrow> string \<Rightarrow> ('w, string) io" where
  "get_commit_hash ho path ref_name =
     io_bind (git_output ho path [''rev-parse'', ref_name] (''Failed to resolve '' @ ref_name @ '': ''))
       (\<lambda>s. io_ret (trim s))"

definition remote_branches_of :: "string \<Rightarrow> string \<Rightarrow> string list" where
  "remote_branches_of remote_name stdout =
     filter (\<lambda>s. \<not> contains s ''->'')
       (List.map_filter (\<lambda>line. strip_prefix (remote_name @ ''/'') (trim line)) (lines stdout))"

definition get_remote_branches :: "'w host \<Rightarrow> path \<Rightarrow> string \<Rightarrow> ('w, string list) io" where
  "get_remote_branches ho repo_path remote_name =
     io_bind (git_output ho repo_path [''branch'', ''-r'', ''--list'', remote_name @ ''/*''] ''Failed to list remote branches: '')
       (\<lambda>s. io_ret (remote_branches_of remote_name s))"

text \<open>\<open>s.trim_start_matches(p)\<close>.\<close>

function trim_start_text :: "string \<Rightarrow> string \<Rightarrow> string" where
  "trim_start_text p s = (if p \<noteq> [] \<and> starts_with s p then trim_start_text p (drop (length p) s) else s)"
  by pat_completeness auto
termination
proof (relation "measure (\<lambda>(p, s). length s)")
  fix p s :: string assume "p \<noteq> [] \<and> starts_with s p"
  then show "((p, drop (length p) s), (p, s)) \<in> measure (\<lambda>(p, s). length s)"
    by (auto simp: starts_with_iff)
qed simp

declare trim_start_text.simps [simp del]

definition branch_name :: "string \<Rightarrow> string option" where
  "branch_name line =
     (let branch = trim (trim_start_text ''* '' (trim line))
      in if branch = [] \<or> contains branch '' -> '' then None
         else Some (case split_once CHR ''/'' branch of Some (_, name) \<Rightarrow> name | None \<Rightarrow> branch))"

fun add_branches :: "string list \<Rightarrow> string list \<Rightarrow> string list" where
  "add_branches branches [] = branches"
| "add_branches branches (l # ls) =
     (case branch_name l of
        None \<Rightarrow> add_branches branches ls
      | Some b \<Rightarrow> add_branches (if b \<in> set branches then branches else branches @ [b]) ls)"

definition find_branches_containing_commit :: "'w host \<Rightarrow> path \<Rightarrow> string \<Rightarrow> ('w, string list) io" where
  "find_branches_containing_commit ho repo_path commit =
     io_bind (run_git ho repo_path [''branch'', ''-r'', ''--contains'', commit, ''--format=%(refname:short)''])
       (\<lambda>out. io_ret (if out_success out then add_branches [] (lines (out_stdout out)) else []))"

subsection \<open>Remotes\<close>

definition join_path :: "path \<Rightarrow> string \<Rightarrow> path" where
  "join_path base s = (if starts_with s ''/'' then segments s else base @ segments s)"

definition fetch_args :: "string \<Rightarrow> string list" where
  "fetch_args n = GIT_PROTOCOL_RESTRICTIONS @ [''fetch'', ''--prune'', ''--no-tags'', n]"

text \<open>The remote is added when git does not know it; the result tells whether it was.\<close>

definition add_remote :: "'w host \<Rightarrow> path \<Rightarrow> string \<Rightarrow> string \<Rightarrow> ('w, bool) io" where
  "add_remote ho repo_path n url =
     io_bind (run_git ho repo_path [''remote'', ''get-url'', n]) (\<lambda>check.
       if out_success check then io_ret False
       else io_bind (run_git ho repo_path [''remote'', ''add'', n, url]) (\<lambda>added.
         if \<not> out_success added \<and> \<not> contains (out_stderr added) ''already exists''
         then io_fail (''Failed to add remote: '' @ out_stderr added) else io_ret True))"

definition ref_exists :: "'w host \<Rightarrow> path \<Rightarrow> string \<Rightarrow> ('w, bool) io" where
  "ref_exists ho repo_path r = (\<lambda>w.
     case run_git ho repo_path [''show-ref'', ''--verify'', ''-q'', r] w of
       (Inl _, w') \<Rightarrow> (Inr False, w')
     | (Inr out, w') \<Rightarrow> (Inr (out_success out), w'))"

definition fetch_interval :: "string \<Rightarrow> nat" where
  "fetch_interval url = (if contains url ''akpm/mm'' \<or> contains url ''linux-next'' then 300 else 3600) * 10 ^ 9"

definition is_old :: "string \<Rightarrow> nat option \<Rightarrow> bool" where
  "is_old url age = (case age of Some a \<Rightarrow> a > fetch_interval url | None \<Rightarrow> True)"

text \<open>The tag of the message \<open>fatal: bad object refs/tags/...\<close>.\<close>

definition bad_tag :: "string \<Rightarrow> string option" where
  "bad_tag stderr =
     (if contains stderr ''fatal: bad object refs/tags/''
      then Option.bind (find_sub ''refs/tags/'' stderr) (\<lambda>start. first (split_whitespace (drop start stderr)))
      else None)"

definition fetch_remote :: "'w host \<Rightarrow> path \<Rightarrow> string \<Rightarrow> ('w, Exit) io" where
  "fetch_remote ho repo_path n =
     io_bind (run_git ho repo_path (fetch_args n)) (\<lambda>fetch.
       if out_success fetch then io_ret fetch
       else case bad_tag (out_stderr fetch) of
         None \<Rightarrow> io_ret fetch
       | Some tag_path \<Rightarrow> (\<lambda>w.
           run_git ho repo_path (fetch_args n) (snd (run_git ho repo_path [''update-ref'', ''-d'', tag_path] w))))"

definition ensure_remote :: "'w host \<Rightarrow> path \<Rightarrow> string \<Rightarrow> string \<Rightarrow> bool \<Rightarrow> ('w, unit) io" where
  "ensure_remote ho repo_path n url force_fetch = (\<lambda>w.
     if \<not> ho_exists ho w (repo_path @ [''.git'']) \<and> \<not> ho_exists ho w (repo_path @ [''HEAD''])
     then (Inl (ho_show_path ho repo_path @ '' is not a valid git repository. Did you forget to initialize submodules?''), w)
     else io_bind (add_remote ho repo_path n url) (\<lambda>just_added.
       let timestamp_dir = repo_path @ [''.sashiko'', ''fetch_timestamps'']; timestamp_file = join_path timestamp_dir n
       in io_bind (\<lambda>w. if ho_exists ho w timestamp_dir then (Inr (), w) else io_files (ho_create_dir ho timestamp_dir) w) (\<lambda>_.
          io_bind (\<lambda>w. (Inr (ho_age ho w timestamp_file), w)) (\<lambda>age.
          io_bind (ref_exists ho repo_path (''refs/remotes/'' @ n @ ''/HEAD'')) (\<lambda>head_exists.
          if \<not> (just_added \<or> \<not> head_exists \<or> force_fetch \<or> is_old url age) then io_ret ()
          else io_bind (fetch_remote ho repo_path n) (\<lambda>fetch.
               io_bind (\<lambda>w. (Inr (), if out_success fetch then ho_touch ho timestamp_file w else w)) (\<lambda>_.
               io_bind (run_git ho repo_path (GIT_PROTOCOL_RESTRICTIONS @ [''remote'', ''set-head'', n, ''--auto''])) (\<lambda>_.
               io_ret ()))))))) w)"

subsection \<open>The log\<close>

record GitLogParams =
  gl_repo_path :: path
  gl_limit :: "nat option"
  gl_rev_range :: "string option"
  gl_paths :: "string list"
  gl_show_hash :: bool
  gl_show_author :: bool
  gl_show_date :: bool
  gl_show_subject :: bool
  gl_show_body :: bool
  gl_show_stat :: bool

definition default_log :: GitLogParams where
  "default_log = \<lparr>gl_repo_path = [], gl_limit = Some 100, gl_rev_range = None, gl_paths = [], gl_show_hash = True,
     gl_show_author = False, gl_show_date = False, gl_show_subject = True, gl_show_body = False, gl_show_stat = False\<rparr>"

definition log_args :: "GitLogParams \<Rightarrow> string list" where
  "log_args p =
     (let format_parts = (if gl_show_hash p then [''Hash: %h''] else []) @ (if gl_show_author p then [''Author: %an''] else []) @
            (if gl_show_date p then [''Date: %ad''] else []) @ (if gl_show_subject p then [''Subject: %s''] else []) @
            (if gl_show_body p then [''Body:%n%b''] else []);
          format_string = (if format_parts = [] then ''%h %s'' else join ''%n'' format_parts @ ''%n---'')
      in [''log''] @ (if gl_show_date p then [''--date=short''] else []) @ [''--pretty=format:'' @ format_string] @
         (case gl_limit p of Some n \<Rightarrow> [''-n'' @ show_nat n] | None \<Rightarrow> []) @
         (if gl_show_stat p then [''--stat''] else []) @
         (case gl_rev_range p of Some r \<Rightarrow> [r] | None \<Rightarrow> []) @
         (if gl_paths p \<noteq> [] then ''--'' # gl_paths p else []))"

definition get_git_log :: "'w host \<Rightarrow> GitLogParams \<Rightarrow> ('w, string) io" where
  "get_git_log ho p = git_output ho (gl_repo_path p) (log_args p) ''git log failed: ''"

subsection \<open>The parts of a commit\<close>

record PatchMetadata =
  md_author :: string
  md_subject :: string
  md_message :: string
  md_diff :: string
  md_base_commit :: "string option"
  md_timestamp :: int

definition resolve_git_range :: "'w host \<Rightarrow> path \<Rightarrow> string \<Rightarrow> ('w, string list) io" where
  "resolve_git_range ho repo_path r =
     io_bind (git_output ho repo_path (bare_ok @ [''rev-list'', ''--reverse'', r])
         (''Failed to resolve git range '' @ [CHR 0x27] @ r @ [CHR 0x27] @ '': ''))
       (\<lambda>s. if lines s = [] then io_fail (''Git range '' @ [CHR 0x27] @ r @ [CHR 0x27] @ '' is empty'') else io_ret (lines s))"

text \<open>\<open>s.split(p)\<close> for a text \<open>p\<close> that is not empty.\<close>

function split_text :: "string \<Rightarrow> string \<Rightarrow> string list" where
  "split_text p s =
     (case (if p = [] then None else find_sub p s) of
        None \<Rightarrow> [s]
      | Some i \<Rightarrow> take i s # split_text p (drop (i + length p) s))"
  by pat_completeness auto
termination
proof (relation "measure (\<lambda>(p, s). length s)")
  fix p s i assume "(if p = [] then None else find_sub p s) = Some i"
  then show "((p, drop (i + length p) s), (p, s)) \<in> measure (\<lambda>(p, s). length s)"
    using find_sub_bound [of p s i] by (cases p) (auto split: if_splits)
qed simp

declare split_text.simps [simp del]

definition header_end :: string where
  "header_end = ''---SASHIKO-END-HEADER---''"

definition commit_format :: string where
  "commit_format = ''format:%an%n%ae%n%s%n%b%n'' @ header_end @ ''%n''"

text \<open>What \<open>git show\<close> printed in that format, as author, subject, message and diff.\<close>

definition parse_commit :: "string \<Rightarrow> (string \<times> string \<times> string \<times> string) option" where
  "parse_commit raw =
     (case split_text (header_end @ [newline]) raw of
        header_part # (p # ps) \<Rightarrow>
          (let diff = join (header_end @ [newline]) (p # ps);
               ls = lines header_part;
               author_name = trim (case ls of l # _ \<Rightarrow> l | [] \<Rightarrow> []);
               author_email = trim (case ls of _ # l # _ \<Rightarrow> l | _ \<Rightarrow> ''unknown@localhost'');
               subject = trim (case ls of _ # _ # l # _ \<Rightarrow> l | _ \<Rightarrow> ''No Subject'');
               message = trim (join [newline] (drop 3 ls));
               author = (if author_name = [] \<or> lower author_name = ''unknown'' then author_email
                         else author_name @ '' <'' @ author_email @ ''>'')
           in Some (author, subject, message, diff))
      | _ \<Rightarrow> None)"

definition extract_patch_metadata :: "'w host \<Rightarrow> path \<Rightarrow> string \<Rightarrow> ('w, PatchMetadata) io" where
  "extract_patch_metadata ho repo_path commit =
     io_bind (run_git ho repo_path [''rev-parse'', commit @ ''^'']) (\<lambda>par.
       let base_commit = Some (if out_success par then trim (out_stdout par) else commit)
       in io_bind (git_output ho repo_path [''show'', ''--format='' @ commit_format, commit] (''git show failed for '' @ commit @ '': ''))
         (\<lambda>raw. case parse_commit raw of
            None \<Rightarrow> io_fail (''Failed to parse git show output for '' @ commit)
          | Some (author, subject, message, diff) \<Rightarrow> (\<lambda>w.
              (Inr \<lparr>md_author = author, md_subject = subject, md_message = message, md_diff = diff,
                    md_base_commit = base_commit, md_timestamp = ho_seconds ho w\<rparr>, w))))"

subsection \<open>What is run for a remote\<close>

definition remote_command :: "path \<Rightarrow> string \<Rightarrow> string \<Rightarrow> Command \<Rightarrow> bool" where
  "remote_command repo_path n url c \<longleftrightarrow>
     (\<exists>args. c = git_command repo_path args \<and>
       (args = [''remote'', ''get-url'', n] \<or> args = [''remote'', ''add'', n, url] \<or>
        args = [''show-ref'', ''--verify'', ''-q'', ''refs/remotes/'' @ n @ ''/HEAD''] \<or>
        (\<exists>t. args = [''update-ref'', ''-d'', t] \<and> starts_with t ''refs/tags/'') \<or>
        args = GIT_PROTOCOL_RESTRICTIONS @ [''fetch'', ''--prune'', ''--no-tags'', n] \<or>
        args = GIT_PROTOCOL_RESTRICTIONS @ [''remote'', ''set-head'', n, ''--auto'']))"

definition agree_on :: "(Command \<Rightarrow> bool) \<Rightarrow> 'w host \<Rightarrow> 'w host \<Rightarrow> bool" where
  "agree_on P ho ho' \<longleftrightarrow> (\<exists>f. ho' = ho\<lparr>ho_run := f\<rparr> \<and> (\<forall>c. P c \<longrightarrow> f c = ho_run ho c))"

end
