(* ===== verification/Worker_Text.thy ===== *)
theory Worker_Text
  imports Tools Utils
begin

text \<open>
  The parts of the review worker (\<open>src/worker/prompts.rs\<close>) that only look at texts and JSON values:
  the check of the final report, the search for JSON in an answer, the items of the stages, the range of
  the series, and the cutting of requests to the input limit.
\<close>

subsection \<open>Errors and input\<close>

datatype ReviewError = LimitExceeded | BudgetExceeded string | FormatRejection string

fun review_error_class :: "ReviewError \<Rightarrow> AiErrorClass" where
  "review_error_class LimitExceeded = Fatal"
| "review_error_class (BudgetExceeded _) = Fatal"
| "review_error_class (FormatRejection _) = Fatal"

fun review_error_text :: "ReviewError \<Rightarrow> string" where
  "review_error_text LimitExceeded = ''Max interactions exceeded''"
| "review_error_text (BudgetExceeded s) = ''Token budget exceeded: '' @ s"
| "review_error_text (FormatRejection s) = ''Format validation failed: '' @ s"

record PatchInput =
  pi_index :: int
  pi_diff :: string
  pi_subject :: "string option"
  pi_author :: "string option"
  pi_date :: "int option"
  pi_message_id :: "string option"
  pi_commit_id :: "string option"

record ReviewInput =
  ri_id :: int
  ri_subject :: string
  ri_patches :: "PatchInput list"

subsection \<open>The format of the report\<close>

definition fence :: string where
  "fence = replicate 3 CHR 0x60"

definition no_fences :: string where
  "no_fences = ''The output contains Markdown code blocks ('' @ [CHR 0x27] @ fence @ [CHR 0x27] @
     ''). It must be plain text as per '' @ [CHR 0x60] @ ''inline-template.md'' @ [CHR 0x60] @ ''.''"

definition no_quotes :: string where
  "no_quotes = ''The output does not appear to quote any code or context using '' @ [CHR 0x27] @ ''>'' @ [CHR 0x27] @
     ''. Please follow the quoting style in '' @ [CHR 0x60] @ ''inline-template.md'' @ [CHR 0x60] @ ''.''"

definition no_header :: "string \<Rightarrow> string" where
  "no_header h = ''The output is missing the '' @ [CHR 0x27] @ h @ [CHR 0x27] @
     '' header. Please start with the commit details (Commit, Author, Subject) as per '' @ [CHR 0x60] @
     ''inline-template.md'' @ [CHR 0x60] @ ''.''"

definition no_comments :: string where
  "no_comments = ''The output appears to lack any comments or summary. You must include a summary and interspersed comments explaining the findings.''"

definition starts_lower :: "string \<Rightarrow> string \<Rightarrow> bool" where
  "starts_lower l p \<longleftrightarrow> starts_with (lower (trim_start l)) p"

definition is_comment_line :: "string \<Rightarrow> bool" where
  "is_comment_line l =
     (let trimmed = trim l; low = lower trimmed
      in trimmed \<noteq> [] \<and> \<not> starts_with trimmed ''>'' \<and> \<not> starts_with low ''commit '' \<and>
         \<not> starts_with low ''author:'' \<and> \<not> starts_with low ''date:'' \<and> \<not> starts_with low ''link:'')"

definition validate_inline_format :: "string \<Rightarrow> string + unit" where
  "validate_inline_format content =
     (let ls = lines content
      in if list_ex (\<lambda>l. starts_with (trim_start l) fence) ls then Inl no_fences
         else if \<not> list_ex (\<lambda>l. starts_with (trim_start l) ''>'') ls then Inl no_quotes
         else if \<not> list_ex (\<lambda>l. starts_lower l ''commit '') (take 20 ls) then Inl (no_header ''commit <hash>'')
         else if \<not> list_ex (\<lambda>l. starts_lower l ''author:'') (take 20 ls) then Inl (no_header ''Author: <name>'')
         else if \<not> list_ex is_comment_line ls then Inl no_comments
         else Inr ())"

subsection \<open>JSON in an answer\<close>

text \<open>The index of the brace that closes the one a text starts with, outside of strings.\<close>

fun brace_end :: "bool \<Rightarrow> bool \<Rightarrow> int \<Rightarrow> string \<Rightarrow> nat option" where
  "brace_end in_string escape depth [] = None"
| "brace_end in_string escape depth (c # s) =
     (if in_string
      then map_option Suc
        (if escape then brace_end True False depth s
         else if c = CHR 0x5C then brace_end True True depth s
         else if c = dquote then brace_end False escape depth s
         else brace_end True escape depth s)
      else if c = dquote then map_option Suc (brace_end True escape depth s)
      else if c = CHR ''{'' then map_option Suc (brace_end False escape (depth + 1) s)
      else if c = CHR ''}''
      then if depth - 1 = 0 then Some 0 else map_option Suc (brace_end False escape (depth - 1) s)
      else map_option Suc (brace_end False escape depth s))"

definition find_matching_brace :: "string \<Rightarrow> nat option" where
  "find_matching_brace s = brace_end False False 0 s"

definition parse_candidate :: "json_parser \<Rightarrow> string \<Rightarrow> json option" where
  "parse_candidate from_str candidate =
     (case from_str (clean_json_string candidate) of Some v \<Rightarrow> Some v | None \<Rightarrow> from_str candidate)"

function find_json_candidates :: "json_parser \<Rightarrow> string \<Rightarrow> json list" where
  "find_json_candidates from_str [] = []"
| "find_json_candidates from_str (c # s) =
     (case (if c = CHR ''{'' then find_matching_brace (c # s) else None) of
        None \<Rightarrow> find_json_candidates from_str s
      | Some end_at \<Rightarrow>
          (case parse_candidate from_str (take (Suc end_at) (c # s)) of
             None \<Rightarrow> find_json_candidates from_str s
           | Some v \<Rightarrow> v # find_json_candidates from_str (drop end_at s)))"
  by pat_completeness auto
termination by (relation "measure (\<lambda>(f, s). length s)") auto

definition parse_answer :: "json_parser \<Rightarrow> string \<Rightarrow> json" where
  "parse_answer from_str raw_text =
     (case from_str (clean_json_string raw_text) of
        Some v \<Rightarrow> v
      | None \<Rightarrow>
          (let cands = find_json_candidates from_str raw_text
           in if cands = [] then JObj [] else last cands))"

definition strip_fences :: "string \<Rightarrow> string" where
  "strip_fences content =
     (let stripped = trim content;
          body = (case strip_prefix (fence @ ''json'') stripped of Some r \<Rightarrow> Some r | None \<Rightarrow> strip_prefix fence stripped)
      in case body of
           None \<Rightarrow> stripped
         | Some s \<Rightarrow> trim (case strip_suffix fence s of Some r \<Rightarrow> r | None \<Rightarrow> s))"

subsection \<open>Items of the stages\<close>

definition normalize_stage_item :: "json \<Rightarrow> nat \<Rightarrow> string \<Rightarrow> string \<Rightarrow> json option" where
  "normalize_stage_item item stage default_type default_text_key =
     (case item of
        JObj ms \<Rightarrow> Some (json_insert ''source_stage'' (JInt (int stage)) item)
      | JStr s \<Rightarrow>
          Some (json_insert default_text_key (JStr s)
            (JObj [(''source_stage'', JInt (int stage)), (''type'', JStr default_type)]))
      | _ \<Rightarrow> None)"

definition append_stage_items :: "json list \<Rightarrow> json list \<Rightarrow> nat \<Rightarrow> string \<Rightarrow> string \<Rightarrow> json list" where
  "append_stage_items target items stage default_type default_text_key =
     target @ List.map_filter (\<lambda>i. normalize_stage_item i stage default_type default_text_key) items"

definition append_stage_dismissed_concerns :: "json list \<Rightarrow> json list \<Rightarrow> nat \<Rightarrow> json list" where
  "append_stage_dismissed_concerns target items stage =
     append_stage_items target items stage ''General'' ''description''"

definition missing_array :: "string \<Rightarrow> string" where
  "missing_array k = ''JSON output is missing the required '' @ [CHR 0x27] @ k @ [CHR 0x27] @ '' array''"

definition required_stage_arrays :: "json \<Rightarrow> string + json list \<times> json list" where
  "required_stage_arrays v =
     (case get_array v ''concerns'' of
        None \<Rightarrow> Inl (missing_array ''concerns'')
      | Some cs \<Rightarrow>
          (case get_array v ''dismissed_concerns'' of
             None \<Rightarrow> Inl (missing_array ''dismissed_concerns'')
           | Some ds \<Rightarrow> Inr (cs, ds)))"

subsection \<open>The range of the series\<close>

fun max_index :: "PatchInput list \<Rightarrow> int option" where
  "max_index [] = None"
| "max_index (p # ps) = Some (case max_index ps of None \<Rightarrow> pi_index p | Some m \<Rightarrow> max (pi_index p) m)"

definition calculate_series_range ::
    "PatchInput list \<Rightarrow> PatchInput list \<Rightarrow> (int \<times> string) list \<Rightarrow> string \<Rightarrow> string option" where
  "calculate_series_range patches patches_to_review patch_shas baseline_sha =
     (case max_index patches of
        None \<Rightarrow> None
      | Some max_idx \<Rightarrow>
          (let is_last_patch_review = (case patches_to_review of [p] \<Rightarrow> pi_index p = max_idx | _ \<Rightarrow> False)
           in if is_last_patch_review then None
              else map_option (\<lambda>end_sha. baseline_sha @ ''..'' @ end_sha)
                (case Option.bind (first (filter (\<lambda>p. pi_index p = max_idx) patches)) pi_commit_id of
                   Some sha \<Rightarrow> Some sha
                 | None \<Rightarrow> map_of patch_shas max_idx)))"

end
