(* ===== verification/Worker.thy ===== *)
theory Worker
  imports Worker_Text Prompts
begin

text \<open>
  One exchange of the review worker with the AI (\<open>src/worker/prompts.rs\<close>): cutting a request to the
  input limit, the loop of turns in which the AI calls tools, and requests that must be answered in JSON.
  What the worker uses from outside is the record \<open>env\<close>: the AI provider, the tokenizer, the
  operating system of the tools, the JSON reader and printers. The worker's history and the world go
  through every step; a panic in a tool ends everything and is \<open>None\<close>. Token counts have 32 bits.
\<close>

subsection \<open>Steps\<close>

datatype worker_error = Review ReviewError | Provider AiError | Failed string

type_synonym u32 = "32 word"
type_synonym tokens = "u32 \<times> u32 \<times> u32"

record 'w worker_state =
  ws_history :: "AiMessage list"
  ws_world :: 'w

type_synonym ('w, 'a) act = "'w worker_state \<Rightarrow> ((worker_error + 'a) \<times> 'w worker_state) option"

definition act_ret :: "'a \<Rightarrow> ('w, 'a) act" where
  "act_ret a = (\<lambda>s. Some (Inr a, s))"

definition act_fail :: "worker_error \<Rightarrow> ('w, 'a) act" where
  "act_fail e = (\<lambda>s. Some (Inl e, s))"

definition act_bind :: "('w, 'a) act \<Rightarrow> ('a \<Rightarrow> ('w, 'b) act) \<Rightarrow> ('w, 'b) act" where
  "act_bind m f = (\<lambda>s. case m s of
     None \<Rightarrow> None
   | Some (Inl e, s') \<Rightarrow> Some (Inl e, s')
   | Some (Inr a, s') \<Rightarrow> f a s')"

definition act_lift :: "worker_error + 'a \<Rightarrow> ('w, 'a) act" where
  "act_lift r = (\<lambda>s. Some (r, s))"

text \<open>\<open>match m { Ok(a) => f(a), Err(e) => g(e) }\<close>.\<close>

definition act_try :: "('w, 'a) act \<Rightarrow> ('a \<Rightarrow> ('w, 'b) act) \<Rightarrow> (worker_error \<Rightarrow> ('w, 'b) act) \<Rightarrow> ('w, 'b) act" where
  "act_try m f g = (\<lambda>s. case m s of
     None \<Rightarrow> None
   | Some (Inl e, s') \<Rightarrow> g e s'
   | Some (Inr a, s') \<Rightarrow> f a s')"

record 'w env =
  ev_os :: "'w os"
  ev_bpe :: tokenizer
  ev_generate :: "AiRequest \<Rightarrow> 'w \<Rightarrow> (AiError + AiResponse) \<times> 'w"
  ev_estimate :: "AiRequest \<Rightarrow> nat"
  ev_context_window :: nat
  ev_from_str :: json_parser
  ev_to_string :: "json \<Rightarrow> string"
  ev_pretty :: "json \<Rightarrow> string"
  ev_parse_error :: "string \<Rightarrow> string"
  ev_exists :: "'w \<Rightarrow> path \<Rightarrow> bool"
  ev_show_error :: "AiError \<Rightarrow> string"
  ev_prefetch :: "'w \<Rightarrow> path \<Rightarrow> string \<Rightarrow> string option"
  ev_date :: string

record worker_config =
  wc_tools :: ToolBox
  wc_base_dir :: path
  wc_max_input_tokens :: nat
  wc_max_interactions :: nat
  wc_temperature :: string
  wc_series_range :: "string option"
  wc_context_tag :: string
  wc_stages :: "nat list option"

subsection \<open>The input limit\<close>

definition effective_input_limit :: "'w env \<Rightarrow> worker_config \<Rightarrow> nat" where
  "effective_input_limit ev cf =
     (let window = ev_context_window ev;
          reserve = min (max (if window \<ge> 20000 then max (window div 20) 1024 else window div 20) 1) (window - 1);
          provider_limit = window - reserve
      in if wc_max_input_tokens cf = 0 then provider_limit else min (wc_max_input_tokens cf) provider_limit)"

text \<open>The part with the most tokens, the first one of equals: the system text or a message.\<close>

type_synonym part = "nat option"

fun largest_message :: "tokenizer \<Rightarrow> nat \<Rightarrow> AiMessage list \<Rightarrow> (part \<times> nat) option \<Rightarrow> (part \<times> nat) option" where
  "largest_message bpe i [] largest = largest"
| "largest_message bpe i (m # ms) largest =
     largest_message bpe (Suc i) ms
       (case mg_content m of
          None \<Rightarrow> largest
        | Some c \<Rightarrow>
            (let tokens = estimate_tokens bpe c
             in case largest of
                  None \<Rightarrow> Some (Some i, tokens)
                | Some (_, n) \<Rightarrow> if tokens > n then Some (Some i, tokens) else largest))"

definition largest_part :: "tokenizer \<Rightarrow> AiRequest \<Rightarrow> (part \<times> nat) option" where
  "largest_part bpe r =
     largest_message bpe 0 (rq_messages r) (map_option (\<lambda>s. (None, estimate_tokens bpe s)) (rq_system r))"

definition part_content :: "AiRequest \<Rightarrow> part \<Rightarrow> string option" where
  "part_content r p =
     (case p of None \<Rightarrow> rq_system r
      | Some i \<Rightarrow> if i < length (rq_messages r) then mg_content (rq_messages r ! i) else None)"

definition set_part :: "part \<Rightarrow> string \<Rightarrow> AiRequest \<Rightarrow> AiRequest" where
  "set_part p s r =
     (case p of None \<Rightarrow> r\<lparr>rq_system := Some s\<rparr>
      | Some i \<Rightarrow> r\<lparr>rq_messages := (rq_messages r)[i := (rq_messages r ! i)\<lparr>mg_content := Some s\<rparr>]\<rparr>)"

fun shrink :: "'w env \<Rightarrow> nat \<Rightarrow> nat \<Rightarrow> AiRequest \<Rightarrow> AiRequest" where
  "shrink ev limit 0 r = r"
| "shrink ev limit (Suc n) r =
     (let current_tokens = ev_estimate ev r
      in if current_tokens \<le> limit then r
         else case largest_part (ev_bpe ev) r of
           None \<Rightarrow> r
         | Some (target, largest_tokens) \<Rightarrow>
             if largest_tokens = 0 then r
             else let overhead_tokens = current_tokens - largest_tokens;
                      allowed_tokens = max (limit - overhead_tokens) 1
               in case part_content r target of
                    None \<Rightarrow> r
                  | Some content \<Rightarrow>
                      (let truncated = truncate_diff (ev_bpe ev) content allowed_tokens
                       in if truncated = content then r
                          else shrink ev limit n (set_part target truncated r)))"

definition budget_text :: "string \<Rightarrow> nat \<Rightarrow> nat \<Rightarrow> nat \<Rightarrow> string" where
  "budget_text label n limit max_input =
     label @ '' input is '' @ show_nat n @ '' tokens after truncation (limit: '' @ show_nat limit @
     '', configured max_input_tokens: '' @ show_nat max_input @ '')''"

definition truncate_request_to_input_budget ::
    "'w env \<Rightarrow> worker_config \<Rightarrow> string \<Rightarrow> AiRequest \<Rightarrow> worker_error + AiRequest" where
  "truncate_request_to_input_budget ev cf label request =
     (let limit = effective_input_limit ev cf
      in if ev_estimate ev request \<le> limit then Inr request
         else let r = shrink ev limit 8 request; final_tokens = ev_estimate ev r
           in if final_tokens > limit
              then Inl (Review (BudgetExceeded (budget_text label final_tokens limit (wc_max_input_tokens cf))))
              else Inr r)"

subsection \<open>Turns\<close>

definition text_message :: "AiRole \<Rightarrow> string \<Rightarrow> AiMessage" where
  "text_message r c = \<lparr>mg_role = r, mg_content = Some c, mg_thought = None, mg_thought_signature = None,
     mg_tool_calls = None, mg_tool_call_id = None\<rparr>"

definition assistant_message :: "AiResponse \<Rightarrow> AiMessage" where
  "assistant_message r =
     \<lparr>mg_role = Assistant, mg_content = rs_content r, mg_thought = rs_thought r,
      mg_thought_signature = rs_thought_signature r, mg_tool_calls = rs_tool_calls r, mg_tool_call_id = None\<rparr>"

definition add_tokens :: "AiUsage option \<Rightarrow> tokens \<Rightarrow> tokens" where
  "add_tokens u t =
     (case u of
        None \<Rightarrow> t
      | Some u \<Rightarrow>
          (case t of (t_in, t_out, t_cached) \<Rightarrow>
             (t_in + of_nat (us_prompt_tokens u), t_out + of_nat (us_completion_tokens u),
              t_cached + of_nat (case us_cached_tokens u of Some n \<Rightarrow> n | None \<Rightarrow> 0))))"

definition sum_tokens :: "tokens \<Rightarrow> tokens \<Rightarrow> tokens" where
  "sum_tokens t u = (fst t + fst u, fst (snd t) + fst (snd u), snd (snd t) + snd (snd u))"

text \<open>The prefix of the tag is cut before its last two characters; \<open>mark\<close> is put behind it.\<close>

definition stage_tag :: "worker_config \<Rightarrow> string \<Rightarrow> string option" where
  "stage_tag cf mark = Some (take (length (wc_context_tag cf) - 2) (wc_context_tag cf) @ mark @ ''] '')"

fun run_tools :: "'w env \<Rightarrow> worker_config \<Rightarrow> ToolCall list \<Rightarrow> 'w \<Rightarrow> (AiMessage list \<times> 'w) option" where
  "run_tools ev cf [] w = Some ([], w)"
| "run_tools ev cf (c # cs) w =
     (case call_tool (ev_os ev) (ev_bpe ev) (wc_tools cf) (tc_function_name c) (tc_arguments c) w of
        (None, _) \<Rightarrow> None
      | (Some r, w1) \<Rightarrow>
          (let result = ev_to_string ev (case r of Inr v \<Rightarrow> v | Inl e \<Rightarrow> JObj [(''error'', JStr e)]);
               m = (text_message Tool result)\<lparr>mg_tool_call_id := Some (tc_id c)\<rparr>
           in map_option (\<lambda>(ms, w2). (m # ms, w2)) (run_tools ev cf cs w1)))"

definition remember :: "AiMessage list \<Rightarrow> 'w worker_state \<Rightarrow> 'w worker_state" where
  "remember ms s = s\<lparr>ws_history := ws_history s @ ms\<rparr>"

definition ask_provider :: "'w env \<Rightarrow> AiRequest \<Rightarrow> ('w, AiResponse) act" where
  "ask_provider ev r = (\<lambda>s.
     case ev_generate ev r (ws_world s) of
       (Inl e, w) \<Rightarrow> Some (Inl (Provider e), s\<lparr>ws_world := w\<rparr>)
     | (Inr resp, w) \<Rightarrow> Some (Inr resp, s\<lparr>ws_world := w\<rparr>))"

definition use_tools :: "'w env \<Rightarrow> worker_config \<Rightarrow> ToolCall list \<Rightarrow> ('w, AiMessage list) act" where
  "use_tools ev cf cs = (\<lambda>s.
     case run_tools ev cf cs (ws_world s) of
       None \<Rightarrow> None
     | Some (ms, w) \<Rightarrow> Some (Inr ms, remember ms (s\<lparr>ws_world := w\<rparr>)))"

definition stage_request :: "worker_config \<Rightarrow> nat \<Rightarrow> string \<Rightarrow> AiMessage list \<Rightarrow> AiRequest" where
  "stage_request cf stage system_prompt local =
     \<lparr>rq_system = Some system_prompt, rq_messages = local, rq_tools = Some (get_declarations_generic (wc_tools cf)),
      rq_temperature = Some (wc_temperature cf), rq_response_format = None,
      rq_context_tag = stage_tag cf ('' s:'' @ show_nat stage)\<rparr>"

definition stage_label :: "nat \<Rightarrow> string" where
  "stage_label stage = ''stage '' @ show_nat stage"

text \<open>The loop of turns: \<open>n\<close> turns are left.\<close>

fun turns :: "'w env \<Rightarrow> worker_config \<Rightarrow> nat \<Rightarrow> string \<Rightarrow> nat \<Rightarrow> AiMessage list \<Rightarrow> tokens \<Rightarrow> ('w, string \<times> tokens) act" where
  "turns ev cf stage system_prompt 0 local t = act_fail (Review LimitExceeded)"
| "turns ev cf stage system_prompt (Suc n) local t =
     act_bind (act_lift (truncate_request_to_input_budget ev cf (stage_label stage)
                 (stage_request cf stage system_prompt local)))
       (\<lambda>request. act_bind (ask_provider ev request)
       (\<lambda>resp.
          let t = add_tokens (rs_usage resp) t; m = assistant_message resp
          in act_bind (\<lambda>s. Some (Inr (), remember [m] s))
            (\<lambda>_. case rs_tool_calls resp of
               Some cs \<Rightarrow>
                 act_bind (use_tools ev cf cs)
                   (\<lambda>ms. turns ev cf stage system_prompt n (local @ [m] @ ms) t)
             | None \<Rightarrow>
                 if rs_content resp \<noteq> None \<or> rs_thought resp \<noteq> None
                 then act_ret (case rs_content resp of Some c \<Rightarrow> c | None \<Rightarrow> [], t)
                 else act_fail (Failed ''No content or tool calls from AI''))))"

definition run_ai_stage_raw ::
    "'w env \<Rightarrow> worker_config \<Rightarrow> nat \<Rightarrow> string \<times> string \<Rightarrow> string \<times> string \<Rightarrow> ('w, string \<times> tokens) act" where
  "run_ai_stage_raw ev cf stage system_prompt user_prompt = (\<lambda>s.
     let s = (if ws_history s = [] then remember [text_message System (snd system_prompt)] s else s);
         s = remember [text_message User (snd user_prompt)] s
     in turns ev cf stage (fst system_prompt) (wc_max_interactions cf)
          [text_message User (fst user_prompt)] (0, 0, 0) s)"

definition run_ai_stage ::
    "'w env \<Rightarrow> worker_config \<Rightarrow> nat \<Rightarrow> string \<times> string \<Rightarrow> string \<times> string \<Rightarrow> ('w, json \<times> tokens) act" where
  "run_ai_stage ev cf stage system_prompt user_prompt =
     act_bind (run_ai_stage_raw ev cf stage system_prompt user_prompt)
       (\<lambda>(raw_text, t). act_ret (parse_answer (ev_from_str ev) raw_text, t))"

subsection \<open>Requests for JSON\<close>

type_synonym validator = "json \<Rightarrow> string + unit"

definition try_parse :: "'w env \<Rightarrow> validator \<Rightarrow> string \<Rightarrow> string + json" where
  "try_parse ev validate content =
     (case ev_from_str ev (strip_fences content) of
        None \<Rightarrow> Inl (''JSON parse error: '' @ ev_parse_error ev (strip_fences content))
      | Some v \<Rightarrow> res_bind (validate v) (\<lambda>_. Inr v))"

definition json_request ::
    "'w env \<Rightarrow> worker_config \<Rightarrow> string \<Rightarrow> AiRequest \<Rightarrow> validator \<Rightarrow> tokens \<Rightarrow> 'w \<Rightarrow> (json option \<times> tokens) \<times> 'w" where
  "json_request ev cf label req validate t w =
     (case truncate_request_to_input_budget ev cf label req of
        Inl _ \<Rightarrow> ((None, t), w)
      | Inr req \<Rightarrow>
          (case ev_generate ev req w of
             (Inl _, w) \<Rightarrow> ((None, t), w)
           | (Inr resp, w) \<Rightarrow>
               (let t = add_tokens (rs_usage resp) t;
                    content = (case rs_content resp of Some c \<Rightarrow> c | None \<Rightarrow> [])
                in case try_parse ev validate content of
                     Inr v \<Rightarrow> ((Some v, t), w)
                   | Inl e \<Rightarrow>
                       (let retry_req = req\<lparr>rq_messages := rq_messages req @
                              [text_message Assistant content, text_message User (correction e)]\<rparr>
                        in case truncate_request_to_input_budget ev cf label retry_req of
                             Inl _ \<Rightarrow> ((None, t), w)
                           | Inr retry_req \<Rightarrow>
                               (case ev_generate ev retry_req w of
                                  (Inl _, w) \<Rightarrow> ((None, t), w)
                                | (Inr resp2, w) \<Rightarrow>
                                    (let t = add_tokens (rs_usage resp2) t;
                                         content2 = (case rs_content resp2 of Some c \<Rightarrow> c | None \<Rightarrow> [])
                                     in case try_parse ev validate content2 of
                                          Inr v \<Rightarrow> ((Some v, t), w)
                                        | Inl _ \<Rightarrow> ((None, t), w)))))))"

end
