(* ===== verification/Worker_Run.thy ===== *)
theory Worker_Run
  imports Worker "HOL-Library.List_Lexorder" "HOL-Library.Char_ord"
begin

text \<open>
  A whole run of the review worker (\<open>Worker::run\<close> of \<open>src/worker/prompts.rs\<close>): the registry of prompts, the
  choice of the guides and of the stages, the analysis of stages 1 to 7 with its attempts, and the stages 8 to
  11 that turn concerns into findings and a report. The context prefetched from the source tree is an
  argument of the environment.
\<close>

subsection \<open>The registry of prompts\<close>

definition read_file :: "'w env \<Rightarrow> path \<Rightarrow> ('w, string) act" where
  "read_file ev p = (\<lambda>s. Some
     (case os_read (ev_os ev) (ws_world s) p of Inl e \<Rightarrow> Inl (Failed (io_text e)) | Inr t \<Rightarrow> Inr t, s))"

type_synonym texts = "string \<times> string list"

definition append_file :: "'w env \<Rightarrow> path \<Rightarrow> string \<Rightarrow> texts \<Rightarrow> ('w, texts) act" where
  "append_file ev base filename = (\<lambda>(buffer, clean) s.
     let p = base @ segments filename
     in if \<not> ev_exists ev (ws_world s) p then Some (Inr (buffer, clean), s)
        else Some (case os_read (ev_os ev) (ws_world s) p of
            Inl e \<Rightarrow> Inl (Failed (''Failed to read '' @ filename))
          | Inr t \<Rightarrow> Inr (buffer @ ''# '' @ filename @ [newline] @ t @ [newline, newline], clean @ [CHR ''@'' # filename]), s))"

definition is_markdown :: "string \<Rightarrow> bool" where
  "is_markdown n \<longleftrightarrow> ends_with n ''.md'' \<and> length n > 3"

fun append_paths :: "'w env \<Rightarrow> path \<Rightarrow> string \<Rightarrow> string list \<Rightarrow> texts \<Rightarrow> ('w, texts) act" where
  "append_paths ev dir header [] = act_ret"
| "append_paths ev dir header (n # ns) = (\<lambda>(buffer, clean).
     act_bind (read_file ev (dir @ [n]))
       (\<lambda>t. append_paths ev dir header ns
          (buffer @ ''## '' @ header @ ''/'' @ n @ [newline] @ t @ [newline, newline], clean @ [CHR ''@'' # n])))"

definition append_directory :: "'w env \<Rightarrow> path \<Rightarrow> string \<Rightarrow> (string \<Rightarrow> bool) \<Rightarrow> texts \<Rightarrow> ('w, texts) act" where
  "append_directory ev base sub keep b = (\<lambda>s.
     let dir = base @ [sub]
     in if \<not> ev_exists ev (ws_world s) dir then Some (Inr b, s)
        else case os_read_dir (ev_os ev) (ws_world s) dir of
          Inl e \<Rightarrow> Some (Inl (Failed (io_text e)), s)
        | Inr es \<Rightarrow>
            append_paths ev dir sub (sort (filter (\<lambda>n. is_markdown n \<and> keep n) (List.map fst es))) b s)"

definition selected :: "string list option \<Rightarrow> string \<Rightarrow> bool" where
  "selected prompts n = (case prompts of None \<Rightarrow> True | Some ps \<Rightarrow> n \<in> set ps)"

definition build_context :: "'w env \<Rightarrow> worker_config \<Rightarrow> string list option \<Rightarrow> ('w, string \<times> string) act" where
  "build_context ev cf selected_prompts =
     (let intro = date_fact (ev_date ev) @ guidelines_intro;
          closing = ''</global_review_guidelines>'' @ [newline]
      in act_bind (append_directory ev (wc_base_dir cf) ''subsystem''
             (\<lambda>n. n \<notin> {''README.md'', ''subsystem-template.md'', ''subsystem.md''} \<and> selected selected_prompts n) (intro, []))
         (\<lambda>b. act_bind (append_directory ev (wc_base_dir cf) ''patterns'' (selected selected_prompts) b)
         (\<lambda>(content, files). act_ret
            (content @ closing,
             intro @ (if files = [] then [] else join '', '' files @ [newline, newline]) @ closing))))"

fun append_files :: "'w env \<Rightarrow> path \<Rightarrow> string list \<Rightarrow> texts \<Rightarrow> ('w, texts) act" where
  "append_files ev base [] b = act_ret b"
| "append_files ev base (f # fs) b = act_bind (append_file ev base f b) (append_files ev base fs)"

definition stage_files :: "nat \<Rightarrow> string list" where
  "stage_files stage =
     (if stage = 3 then [''callstack.md'', ''technical-patterns.md'']
      else if stage = 5 then [''subsystem/locking.md'']
      else if stage = 10 then [''false-positive-guide.md'', ''severity.md'']
      else if stage = 11 then [''inline-template.md'']
      else [])"

definition get_stage_prompt :: "'w env \<Rightarrow> worker_config \<Rightarrow> nat \<Rightarrow> ('w, string \<times> string) act" where
  "get_stage_prompt ev cf stage =
     (let head = (if stage_instruction stage = [] then [] else stage_instruction stage @ [newline, newline])
      in act_bind (append_files ev (wc_base_dir cf) (stage_files stage) (head, []))
         (\<lambda>(content, files). act_ret
            (content, head @ (if files = [] then [] else join '', '' files @ [newline, newline]))))"

subsection \<open>The context of a review\<close>

definition patch_texts :: "json \<Rightarrow> string \<times> string" where
  "patch_texts patchset =
     (case get_array patchset ''patches'' of
        None \<Rightarrow> ([], [])
      | Some ps \<Rightarrow>
          (concat (List.map (\<lambda>p. case get_str p ''git_show'' of
               Some t \<Rightarrow> t @ [newline]
             | None \<Rightarrow> (case get_str p ''diff'' of Some t \<Rightarrow> t @ [newline] | None \<Rightarrow> [])) ps),
           concat (List.map (\<lambda>p. case get_str p ''diff'' of Some t \<Rightarrow> t @ [newline] | None \<Rightarrow> []) ps)))"

definition context_tag :: "json \<Rightarrow> string" where
  "context_tag patchset =
     (let ps_id = (case as_i64_opt (jindex patchset ''id'') of Some i \<Rightarrow> show_int i | None \<Rightarrow> ''unknown'');
          p_id = (case as_i64_opt (jindex patchset ''patch_index'') of Some i \<Rightarrow> show_int i | None \<Rightarrow> ''multi'')
      in ''[ps:'' @ ps_id @ '' p:'' @ p_id @ ''] '')"

definition array_schema :: "string \<Rightarrow> (string \<times> json) list \<Rightarrow> json" where
  "array_schema k extra =
     JObj [(''type'', JStr ''OBJECT''),
           (''properties'', JObj [(k, JObj ([(''type'', JStr ''ARRAY'')] @ extra))]),
           (''required'', JArr [JStr k])]"

definition items_of :: "string \<Rightarrow> string \<times> json" where
  "items_of t = (''items'', JObj [(''type'', JStr t)])"

definition json_question :: "string option \<Rightarrow> string \<Rightarrow> json \<Rightarrow> string option \<Rightarrow> AiRequest" where
  "json_question sys question sch tag =
     \<lparr>rq_system = sys, rq_messages = [text_message User question], rq_tools = None,
      rq_temperature = Some ''0.0'', rq_response_format = Some (Json (Some sch)), rq_context_tag = tag\<rparr>"

definition needs_array :: "string \<Rightarrow> validator" where
  "needs_array k v =
     (if get_array v k = None then Inl (''missing '' @ [CHR 0x27] @ k @ [CHR 0x27] @ '' array'') else Inr ())"

text \<open>A JSON request as a step; it changes the world but not the history.\<close>

definition ask_json :: "'w env \<Rightarrow> worker_config \<Rightarrow> string \<Rightarrow> AiRequest \<Rightarrow> validator \<Rightarrow> tokens \<Rightarrow> ('w, json option \<times> tokens) act" where
  "ask_json ev cf label req validate t = (\<lambda>s.
     let (r, w) = json_request ev cf label req validate t (ws_world s) in Some (Inr r, s\<lparr>ws_world := w\<rparr>))"

definition select_prompts :: "'w env \<Rightarrow> worker_config \<Rightarrow> string \<Rightarrow> tokens \<Rightarrow> ('w, string list option \<times> tokens) act" where
  "select_prompts ev cf target_commit_diff t = (\<lambda>s.
     let p = wc_base_dir cf @ segments ''subsystem/subsystem.md''
     in if \<not> ev_exists ev (ws_world s) p then Some (Inr (None, t), s)
        else case os_read (ev_os ev) (ws_world s) p of
          Inl _ \<Rightarrow> Some (Inr (None, t), s)
        | Inr subsystem_md \<Rightarrow>
            act_bind (ask_json ev cf ''s0''
                (json_question (Some phase0_system) (phase0_prompt subsystem_md target_commit_diff)
                  (array_schema ''selected_prompts'' [items_of ''STRING'']) (stage_tag cf ''s:0''))
                (needs_array ''selected_prompts'') t)
              (\<lambda>(v, t). act_ret
                 (Option.bind v (\<lambda>v. map_option
                    (\<lambda>arr. filter (\<lambda>n. n \<notin> {''locking.md''}) (List.map_filter as_str_opt arr))
                    (get_array v ''selected_prompts'')), t)) s)"

definition prefetch_block :: "string \<Rightarrow> string" where
  "prefetch_block prefetched = prefetch_intro @ prefetched"

record review_context =
  rx_full :: "string \<times> string"
  rx_no_log :: "string \<times> string"

definition review_context_of :: "string \<times> string \<Rightarrow> string \<times> string \<Rightarrow> string option \<Rightarrow> review_context" where
  "review_context_of context texts prefetched =
     (let dynamic = [newline, newline] @ ''Target Commit:'' @ [newline] @ fst texts;
          dynamic_no_log = [newline, newline] @ ''Target Commit Diff:'' @ [newline] @ snd texts;
          closing = ''</pre_fetched_context>'' @ [newline];
          block = (case prefetched of None \<Rightarrow> [] | Some p \<Rightarrow> if p = [] then [] else prefetch_block p @ [newline] @ closing);
          clean = (case prefetched of None \<Rightarrow> [] | Some p \<Rightarrow>
            if p = [] then [] else prefetch_block ''{{prefetched_context}}'' @ [newline] @ closing)
      in \<lparr>rx_full = (fst context @ dynamic @ block, snd context @ dynamic @ clean),
          rx_no_log = (fst context @ dynamic_no_log @ block, snd context @ dynamic_no_log @ clean)\<rparr>)"

definition plan_stages :: "'w env \<Rightarrow> worker_config \<Rightarrow> string \<Rightarrow> tokens \<Rightarrow> ('w, nat list option \<times> tokens) act" where
  "plan_stages ev cf shared_context t =
     (if wc_stages cf \<noteq> None then act_ret (None, t)
      else act_bind (ask_json ev cf ''sp''
          (json_question None (shared_context @ [newline, newline] @ planning_prompt)
            (array_schema ''relevant_stages'' [items_of ''INTEGER'', (''description'', JStr relevant_stages_description)])
            (stage_tag cf '' s:p''))
          (needs_array ''relevant_stages'') t)
        (\<lambda>(v, t). act_ret
           (map_option (\<lambda>v. [1, 2, 3] @ filter (\<lambda>n. 4 \<le> n \<and> n \<le> 7)
              (List.map_filter as_u64_opt (case get_array v ''relevant_stages'' of Some arr \<Rightarrow> arr | None \<Rightarrow> []))) v, t)))"

definition stage_runs :: "worker_config \<Rightarrow> nat list option \<Rightarrow> nat \<Rightarrow> bool" where
  "stage_runs cf planned stage =
     (case wc_stages cf of
        Some sel \<Rightarrow> stage \<in> set sel
      | None \<Rightarrow> (case planned of Some ps \<Rightarrow> stage \<in> set ps | None \<Rightarrow> True))"

subsection \<open>Stages 1 to 7\<close>

record concerns =
  cn_concerns :: "json list"
  cn_dismissed :: "json list"
  cn_tokens :: tokens

definition count_tokens :: "tokens \<Rightarrow> concerns \<Rightarrow> concerns" where
  "count_tokens t c = c\<lparr>cn_tokens := sum_tokens (cn_tokens c) t\<rparr>"

definition add_items :: "nat \<Rightarrow> json list \<times> json list \<Rightarrow> concerns \<Rightarrow> concerns" where
  "add_items stage items c =
     c\<lparr>cn_concerns := append_stage_items (cn_concerns c) (fst items) stage ''General'' ''description'',
       cn_dismissed := append_stage_dismissed_concerns (cn_dismissed c) (snd items) stage\<rparr>"

type_synonym prompt = "string \<times> string"

definition augment :: "prompt \<Rightarrow> string \<Rightarrow> prompt" where
  "augment p reminder = (fst p @ reminder, snd p @ reminder)"

fun inner_attempts :: "'w env \<Rightarrow> worker_config \<Rightarrow> nat \<Rightarrow> prompt \<Rightarrow> prompt \<Rightarrow> nat \<Rightarrow> prompt \<Rightarrow> concerns \<Rightarrow>
    ('w, bool \<times> concerns) act" where
  "inner_attempts ev cf stage system_prompt user_prompt 0 active c = act_ret (False, c)"
| "inner_attempts ev cf stage system_prompt user_prompt (Suc n) active c =
     act_try (run_ai_stage ev cf stage system_prompt active)
       (\<lambda>(v, t).
          case required_stage_arrays v of
            Inr items \<Rightarrow> act_ret (True, add_items stage items (count_tokens t c))
          | Inl violation \<Rightarrow>
              inner_attempts ev cf stage system_prompt user_prompt n
                (augment user_prompt (stage_reminder violation)) (count_tokens t c))
       (\<lambda>e. case e of
          Review _ \<Rightarrow> act_fail e
        | _ \<Rightarrow> inner_attempts ev cf stage system_prompt user_prompt n active c)"

definition stage_failed :: "nat \<Rightarrow> string" where
  "stage_failed stage =
     ''Stage '' @ show_nat stage @ '' failed to produce valid '' @ [CHR 0x27] @ ''concerns'' @ [CHR 0x27] @
     '' and '' @ [CHR 0x27] @ ''dismissed_concerns'' @ [CHR 0x27] @ '' arrays after 3 attempts '' @
     [CHR 0xE2, CHR 0x80, CHR 0x94] @ '' aborting review''"

fun outer_attempts :: "'w env \<Rightarrow> worker_config \<Rightarrow> nat \<Rightarrow> prompt \<Rightarrow> prompt \<Rightarrow> nat \<Rightarrow> concerns \<Rightarrow> ('w, concerns) act" where
  "outer_attempts ev cf stage system_prompt user_prompt 0 c = act_fail (Failed (stage_failed stage))"
| "outer_attempts ev cf stage system_prompt user_prompt (Suc n) c =
     act_bind (inner_attempts ev cf stage system_prompt user_prompt 3 user_prompt c)
       (\<lambda>(success, c).
          if success then act_ret c else outer_attempts ev cf stage system_prompt user_prompt n c)"

definition analysis_stage :: "'w env \<Rightarrow> worker_config \<Rightarrow> review_context \<Rightarrow> nat \<Rightarrow> concerns \<Rightarrow> ('w, concerns) act" where
  "analysis_stage ev cf rx stage c =
     act_bind (get_stage_prompt ev cf stage)
       (\<lambda>p. outer_attempts ev cf stage (if 3 \<le> stage \<and> stage \<le> 6 then rx_no_log rx else rx_full rx)
              (augment p ([newline, newline] @ format_guidance)) 3 c)"

fun analysis_stages :: "'w env \<Rightarrow> worker_config \<Rightarrow> review_context \<Rightarrow> nat list option \<Rightarrow> nat list \<Rightarrow> concerns \<Rightarrow>
    ('w, concerns) act" where
  "analysis_stages ev cf rx planned [] c = act_ret c"
| "analysis_stages ev cf rx planned (stage # stages) c =
     (if stage_runs cf planned stage
      then act_bind (analysis_stage ev cf rx stage c) (analysis_stages ev cf rx planned stages)
      else analysis_stages ev cf rx planned stages c)"

subsection \<open>Stages 8 to 11\<close>

definition worker_error_text :: "'w env \<Rightarrow> worker_error \<Rightarrow> string" where
  "worker_error_text ev e =
     (case e of Review r \<Rightarrow> review_error_text r | Provider a \<Rightarrow> ev_show_error ev a | Failed s \<Rightarrow> s)"

definition stage_name :: "nat \<Rightarrow> string" where
  "stage_name stage = ''Stage '' @ show_nat stage"

definition quoted :: "string \<Rightarrow> string" where
  "quoted k = [CHR 0x27] @ k @ [CHR 0x27]"

definition stage_array :: "nat \<Rightarrow> string \<Rightarrow> json \<Rightarrow> worker_error + json list" where
  "stage_array stage k v =
     (case jget v k of
        None \<Rightarrow> Inl (Failed (stage_name stage @ '' failed to produce a valid '' @ quoted k @ '' array in output.''))
      | Some (JArr xs) \<Rightarrow> Inr xs
      | Some _ \<Rightarrow> Inl (Failed (stage_name stage @ '' output '' @ quoted k @ '' is not an array'')))"

definition late_stage :: "'w env \<Rightarrow> worker_config \<Rightarrow> review_context \<Rightarrow> nat \<Rightarrow> prompt \<Rightarrow> ('w, json \<times> tokens) act" where
  "late_stage ev cf rx stage user_prompt =
     act_try (run_ai_stage ev cf stage (rx_full rx) user_prompt) act_ret
       (\<lambda>e. act_fail (Failed (stage_name stage @ '' AI execution failed: '' @ worker_error_text ev e)))"

definition deduplicate :: "'w env \<Rightarrow> worker_config \<Rightarrow> review_context \<Rightarrow> concerns \<Rightarrow>
    ('w, (json list \<times> json list) \<times> tokens) act" where
  "deduplicate ev cf rx c =
     act_bind (get_stage_prompt ev cf 8)
       (\<lambda>p. let cs = ev_pretty ev (JArr (cn_concerns c)); ds = ev_pretty ev (JArr (cn_dismissed c))
        in act_bind (late_stage ev cf rx 8 (stage8_prompt (fst p) cs ds, stage8_prompt (snd p) cs ds))
       (\<lambda>(v, t). act_bind (act_lift (stage_array 8 ''concerns'' v))
       (\<lambda>cs. act_bind (act_lift (stage_array 8 ''dismissed_concerns'' v))
       (\<lambda>ds. act_ret ((cs, ds), t)))))"

definition resolve_conflicts :: "'w env \<Rightarrow> worker_config \<Rightarrow> review_context \<Rightarrow> json list \<times> json list \<Rightarrow>
    ('w, json list \<times> tokens) act" where
  "resolve_conflicts ev cf rx items =
     act_bind (get_stage_prompt ev cf 9)
       (\<lambda>p. let cs = ev_pretty ev (JArr (fst items)); ds = ev_pretty ev (JArr (snd items))
        in act_bind (late_stage ev cf rx 9 (stage9_prompt (fst p) cs ds, stage9_prompt (snd p) cs ds))
       (\<lambda>(v, t). act_bind (act_lift (stage_array 9 ''concerns'' v)) (\<lambda>cs. act_ret (cs, t))))"

definition series_context :: "'w env \<Rightarrow> worker_config \<Rightarrow> ('w, string) act" where
  "series_context ev cf = (\<lambda>s.
     case wc_series_range cf of
       None \<Rightarrow> Some (Inr ''Not applicable (single patch or last patch in series).'', s)
     | Some rng \<Rightarrow>
         (let (r, w) = os_git (ev_os ev) (worktree_path (wc_tools cf))
                [''--no-pager'', ''log'', ''--reverse'', ''--format=%s'', rng] (ws_world s)
          in Some (Inr (case r of
                 Inl _ \<Rightarrow> ''Failed to retrieve full series context (git execution error).''
               | Inr out \<Rightarrow>
                   if out_success out
                   then ''Series Range: '' @ rng @ [newline, newline] @ ''Patches in series:'' @ [newline] @ out_stdout out
                   else ''Failed to retrieve full series context (git log error).''), s\<lparr>ws_world := w\<rparr>)))"

definition verify_concerns :: "'w env \<Rightarrow> worker_config \<Rightarrow> review_context \<Rightarrow> json list \<Rightarrow> ('w, json list \<times> tokens) act" where
  "verify_concerns ev cf rx concerns =
     act_bind (get_stage_prompt ev cf 10)
       (\<lambda>p. act_bind (series_context ev cf)
       (\<lambda>series. let cs = ev_pretty ev (JArr concerns)
        in act_bind (late_stage ev cf rx 10 (stage10_prompt (fst p) series cs, stage10_clean_prompt (snd p) cs))
       (\<lambda>(v, t). act_bind (act_lift (stage_array 10 ''findings'' v)) (\<lambda>fs. act_ret (fs, t)))))"

text \<open>The report: three attempts, and one more when the last one was the first to fail for recitation.\<close>

function write_report :: "'w env \<Rightarrow> worker_config \<Rightarrow> prompt \<Rightarrow> prompt \<Rightarrow> nat \<Rightarrow> bool \<Rightarrow> prompt \<Rightarrow> tokens \<Rightarrow>
    ('w, string \<times> tokens) act" where
  "write_report ev cf system_prompt user_prompt retries free_form active t s =
     (if retries \<ge> 3 then Some (Inr ([], t), s)
      else case run_ai_stage_raw ev cf 11 system_prompt active s of
        None \<Rightarrow> None
      | Some (Inr (result_text, u), s) \<Rightarrow>
          (let t = sum_tokens t u
           in if free_form then Some (Inr (result_text, t), s)
              else case validate_inline_format result_text of
                Inr _ \<Rightarrow> Some (Inr (result_text, t), s)
              | Inl violation \<Rightarrow>
                  write_report ev cf system_prompt user_prompt (Suc retries) free_form
                    (augment user_prompt (inline_reminder violation)) t s)
      | Some (Inl e, s) \<Rightarrow>
          (if contains (worker_error_text ev e) ''RECITATION'' \<and> \<not> free_form
           then write_report ev cf system_prompt user_prompt (if Suc retries = 3 then retries else Suc retries) True
                  (augment user_prompt recitation_reminder) t s
           else write_report ev cf system_prompt user_prompt (Suc retries) free_form active t s))"
  by pat_completeness auto
termination
  by (relation "measure (\<lambda>(ev, cf, sp, up, retries, free_form, active, t, s).
        (3 - retries) * 2 + (if free_form then 0 else 1))") auto

declare write_report.simps [simp del]

definition report_stage :: "'w env \<Rightarrow> worker_config \<Rightarrow> review_context \<Rightarrow> json list \<Rightarrow> tokens \<Rightarrow> ('w, string \<times> tokens) act" where
  "report_stage ev cf rx findings t =
     act_bind (get_stage_prompt ev cf 11)
       (\<lambda>p. let user_prompt = augment p ([newline, newline] @ ''Findings:'' @ [newline] @ ev_pretty ev (JArr findings) @
                  [newline, newline] @ ''Return raw text output, not JSON.'')
        in act_bind (write_report ev cf (rx_full rx) user_prompt 0 False user_prompt t)
       (\<lambda>(report, t).
          if report = []
          then act_fail (Failed ''Stage 11 failed to generate a valid LKML report after 3 attempts.'')
          else act_ret (report, t)))"

subsection \<open>The run\<close>

definition no_issues :: string where
  "no_issues = ''No issues found.''"

definition no_issues_zh :: string where
  "no_issues_zh = [CHR 0xE6, CHR 0x9C, CHR 0xAA, CHR 0xE5, CHR 0x8F, CHR 0x91, CHR 0xE7, CHR 0x8E, CHR 0xB0,
     CHR 0xE9, CHR 0x97, CHR 0xAE, CHR 0xE9, CHR 0xA2, CHR 0x98, CHR 0xE3, CHR 0x80, CHR 0x82]"

definition worker_output :: "json list \<Rightarrow> json list \<Rightarrow> string \<Rightarrow> nat \<Rightarrow> json" where
  "worker_output findings dismissed report concerns_count =
     JObj [(''findings'', JArr findings), (''dismissed_concerns'', JArr dismissed),
           (''review_inline'', JStr report), (''fixes'', JStr []),
           (''concerns_count'', JInt (int concerns_count)),
           (''dismissed_concerns_count'', JInt (int (length dismissed)))]"

record WorkerResult =
  wr_output :: "json option"
  wr_error :: "string option"
  wr_input_context :: string
  wr_history :: "AiMessage list"
  wr_history_before_pruning :: "AiMessage list"
  wr_history_after_pruning :: "AiMessage list"
  wr_tokens :: tokens

definition completed :: "json \<Rightarrow> tokens \<Rightarrow> ('w, WorkerResult) act" where
  "completed output t = (\<lambda>s. Some (Inr
     \<lparr>wr_output = Some output, wr_error = None, wr_input_context = ''Multi-stage execution completed'',
      wr_history = ws_history s, wr_history_before_pruning = ws_history s,
      wr_history_after_pruning = ws_history s, wr_tokens = t\<rparr>, s))"

text \<open>What is left to do when a stage has answered: nothing when its list is empty, else the next stage.\<close>

definition after_verification :: "'w env \<Rightarrow> worker_config \<Rightarrow> review_context \<Rightarrow> nat \<Rightarrow> json list \<Rightarrow> json list \<Rightarrow> tokens \<Rightarrow>
    ('w, WorkerResult) act" where
  "after_verification ev cf rx n ds fs t =
     (if fs = [] then completed (worker_output [] ds no_issues_zh n) t
      else act_bind (report_stage ev cf rx fs t) (\<lambda>(report, t). completed (worker_output fs ds report n) t))"

definition after_resolution :: "'w env \<Rightarrow> worker_config \<Rightarrow> review_context \<Rightarrow> nat \<Rightarrow> json list \<Rightarrow> json list \<Rightarrow> tokens \<Rightarrow>
    ('w, WorkerResult) act" where
  "after_resolution ev cf rx n ds cs t =
     (if cs = [] then completed (worker_output [] ds no_issues n) t
      else act_bind (verify_concerns ev cf rx cs) (\<lambda>(fs, u). after_verification ev cf rx n ds fs (sum_tokens t u)))"

definition after_deduplication :: "'w env \<Rightarrow> worker_config \<Rightarrow> review_context \<Rightarrow> nat \<Rightarrow> json list \<Rightarrow> json list \<Rightarrow> tokens \<Rightarrow>
    ('w, WorkerResult) act" where
  "after_deduplication ev cf rx n ds cs t =
     (if cs = [] then completed (worker_output [] ds no_issues n) t
      else act_bind (resolve_conflicts ev cf rx (cs, ds)) (\<lambda>(cs, u). after_resolution ev cf rx n ds cs (sum_tokens t u)))"

definition conclude :: "'w env \<Rightarrow> worker_config \<Rightarrow> review_context \<Rightarrow> concerns \<Rightarrow> ('w, WorkerResult) act" where
  "conclude ev cf rx c =
     (if cn_concerns c = [] then completed (worker_output [] (cn_dismissed c) no_issues 0) (cn_tokens c)
      else act_bind (deduplicate ev cf rx c)
        (\<lambda>((cs, ds), u). after_deduplication ev cf rx (length (cn_concerns c)) ds cs (sum_tokens (cn_tokens c) u)))"

definition worker_run :: "'w env \<Rightarrow> worker_config \<Rightarrow> json \<Rightarrow> ('w, WorkerResult) act" where
  "worker_run ev cf patchset =
     (let cf = cf\<lparr>wc_context_tag := context_tag patchset\<rparr>; txts = patch_texts patchset
      in act_bind (select_prompts ev cf (fst txts) (0, 0, 0))
        (\<lambda>(selected_prompts, t). act_bind (build_context ev cf selected_prompts)
        (\<lambda>static_context. act_bind
           (\<lambda>s. Some (Inr (ev_prefetch ev (ws_world s) (worktree_path (wc_tools cf)) (fst txts)), s))
        (\<lambda>prefetched.
           let rx = review_context_of static_context txts prefetched
           in act_bind (plan_stages ev cf (fst (rx_full rx)) t)
             (\<lambda>(planned, t). act_bind
                (analysis_stages ev cf rx planned [1, 2, 3, 4, 5, 6, 7]
                  \<lparr>cn_concerns = [], cn_dismissed = [], cn_tokens = t\<rparr>)
                (conclude ev cf rx))))))"

end
