(* ===== verification/Worker_Props.thy ===== *)
theory Worker_Props
  imports Worker_Run "HOL-Library.Sublist"
begin

text \<open>
  What a run of the review worker does to the world and to its history, whatever the AI answers: the number and
  the size of the requests it sends, that it comes to an end, and that the history only grows. The run is
  followed once, step by step, for any measure of what steps may do (\<open>effects\<close>, \<open>exchange\<close>); the
  properties are instances of it.
\<close>

subsection \<open>Steps with a bounded effect\<close>

text \<open>\<open>R n s s'\<close>: what leads from \<open>s\<close> to \<open>s'\<close> costs at most \<open>n\<close>; \<open>panics\<close>: a step may end in a panic.\<close>

definition act_within ::
    "bool \<Rightarrow> (nat \<Rightarrow> 'w worker_state \<Rightarrow> 'w worker_state \<Rightarrow> bool) \<Rightarrow> nat \<Rightarrow> ('w, 'a) act \<Rightarrow> bool" where
  "act_within panics R n m \<longleftrightarrow> (\<forall>s. case m s of None \<Rightarrow> panics | Some (r, s') \<Rightarrow> R n s s')"

text \<open>Steps that only look.\<close>

definition looks :: "('w, 'a) act \<Rightarrow> bool" where
  "looks m \<longleftrightarrow> (\<forall>s. \<exists>r. m s = Some (r, s))"

lemma looks_ret: "looks (act_ret a)"
  by (simp add: looks_def act_ret_def)

lemma looks_bind: "looks a \<Longrightarrow> (\<And>x. looks (f x)) \<Longrightarrow> looks (act_bind a f)"
proof (unfold looks_def, rule allI)
  fix s assume "\<forall>s. \<exists>r. a s = Some (r, s)" "\<And>x. \<forall>s. \<exists>r. f x s = Some (r, s)"
  then show "\<exists>r. act_bind a f s = Some (r, s)"
    by (auto simp: act_bind_def dest!: spec [of _ s] split: sum.split)
qed

lemma looks_file: "looks (read_file ev p)" "looks (append_file ev base f b)"
  by (cases b; simp add: looks_def read_file_def append_file_def Let_def)+

lemma looks_paths: "looks (append_paths ev dir h ns b)"
  by (induction ns arbitrary: b) (auto simp: looks_ret intro!: looks_bind looks_file)

lemma looks_directory: "looks (append_directory ev base sub keep b)"
  by (auto simp: looks_def append_directory_def Let_def looks_paths [unfolded looks_def, rule_format] split: sum.split)

lemma looks_files: "looks (append_files ev base fs b)"
  by (induction fs arbitrary: b) (auto simp: looks_ret intro!: looks_bind looks_file)

lemma looks_context: "looks (build_context ev cf sel)"
  by (auto simp: build_context_def Let_def looks_ret intro!: looks_bind looks_directory)

lemma looks_stage_prompt: "looks (get_stage_prompt ev cf stage)"
  by (auto simp: get_stage_prompt_def Let_def looks_ret intro!: looks_bind looks_files)

locale effects =
  fixes panics :: bool and R :: "nat \<Rightarrow> 'w worker_state \<Rightarrow> 'w worker_state \<Rightarrow> bool"
  assumes stay: "R 0 s s"
    and trans: "R m s t \<Longrightarrow> R n t u \<Longrightarrow> R (m + n) s u"
    and mono: "R m s t \<Longrightarrow> m \<le> n \<Longrightarrow> R n s t"
begin

abbreviation within :: "nat \<Rightarrow> ('w, 'a) act \<Rightarrow> bool" where
  "within \<equiv> act_within panics R"

lemma R_stay: "R n s s"
  by (rule mono [OF stay]) simp

lemma step:
  "within n (\<lambda>s. Some (r s, s' s))" if "\<And>s. R n s (s' s)"
  using that by (simp add: act_within_def)

lemma ret: "within n (act_ret a)" "within n (act_fail e)" "within n (act_lift r)" "within n (\<lambda>s. Some (r' s, s))"
  by (simp_all add: act_within_def act_ret_def act_fail_def act_lift_def R_stay)

lemma look: "looks m \<Longrightarrow> within n m"
  unfolding looks_def act_within_def by (metis (mono_tags, lifting) R_stay case_prod_conv option.simps(5))

lemma weaken: "within m a \<Longrightarrow> m \<le> n \<Longrightarrow> within n a"
proof (unfold act_within_def, rule allI)
  fix s assume "\<forall>s. case a s of None \<Rightarrow> panics | Some (r, s') \<Rightarrow> R m s s'" "m \<le> n"
  then show "case a s of None \<Rightarrow> panics | Some (r, s') \<Rightarrow> R n s s'"
    by (cases "a s") (auto dest!: spec [of _ s] intro: mono)
qed

lemma attempt:
  assumes "within m a" "\<And>x. within n (f x)" "\<And>e. within n (g e)"
  shows "within (m + n) (act_try a f g)"
  unfolding act_within_def
proof
  fix s
  have a: "case a s of None \<Rightarrow> panics | Some (r, s') \<Rightarrow> R m s s'" using assms(1) by (simp add: act_within_def)
  have next_step: "case k s' of None \<Rightarrow> panics | Some (r, t) \<Rightarrow> R (m + n) s t" if "within n k" "R m s s'" for k :: "('w, 'b) act" and s'
    using that trans [of m s s' n] by (fastforce simp: act_within_def split: option.splits)
  show "case act_try a f g s of None \<Rightarrow> panics | Some (r, t) \<Rightarrow> R (m + n) s t"
  proof (cases "a s")
    case None then show ?thesis using a by (simp add: act_try_def)
  next
    case (Some p)
    obtain r s' where [simp]: "p = (r, s')" by (cases p)
    have "R m s s'" using a Some by simp
    then show ?thesis using Some next_step [OF assms(2)] next_step [OF assms(3)]
      by (cases r) (simp_all add: act_try_def)
  qed
qed

lemma bind_lift [simp]:
  "act_bind (act_lift (Inl e)) f = act_fail e" "act_bind (act_lift (Inr a)) f = f a"
  by (simp_all add: act_bind_def act_lift_def act_fail_def fun_eq_iff)

lemma bind_try: "act_bind a f = act_try a f act_fail"
  by (rule ext) (simp add: act_bind_def act_try_def act_fail_def split: option.split sum.split)

lemma bind: "within m a \<Longrightarrow> (\<And>x. within n (f x)) \<Longrightarrow> within (m + n) (act_bind a f)"
  unfolding bind_try by (intro attempt ret)

lemma bind_free: "within 0 a \<Longrightarrow> (\<And>x. within n (f x)) \<Longrightarrow> within n (act_bind a f)"
  using bind [of 0 a n f] by simp

lemma attempt_last:
  "within m a \<Longrightarrow> (\<And>x. within 0 (f x)) \<Longrightarrow> (\<And>e. within 0 (g e)) \<Longrightarrow> within m (act_try a f g)"
  using attempt [of m a 0 f g] by simp

lemma bind_last: "within m a \<Longrightarrow> (\<And>x. within 0 (f x)) \<Longrightarrow> within m (act_bind a f)"
  using bind [of m a 0 f] by simp

end

subsection \<open>A run of the worker\<close>

definition within_limit :: "'w env \<Rightarrow> worker_config \<Rightarrow> AiRequest \<Rightarrow> bool" where
  "within_limit ev cf r \<longleftrightarrow> ev_estimate ev r \<le> effective_input_limit ev cf"

lemma truncate_within_limit:
  "truncate_request_to_input_budget ev cf label r = Inr r' \<Longrightarrow> within_limit ev cf r'"
  by (auto simp: truncate_request_to_input_budget_def within_limit_def Let_def split: if_splits)

lemma tag_irrelevant [simp]:
  "effective_input_limit ev (cf\<lparr>wc_context_tag := t\<rparr>) = effective_input_limit ev cf"
  "within_limit ev (cf\<lparr>wc_context_tag := t\<rparr>) = within_limit ev cf"
proof -
  have "wc_max_input_tokens (cf\<lparr>wc_context_tag := t\<rparr>) = wc_max_input_tokens cf" by simp
  then show "effective_input_limit ev (cf\<lparr>wc_context_tag := t\<rparr>) = effective_input_limit ev cf"
    by (simp only: effective_input_limit_def)
  then show "within_limit ev (cf\<lparr>wc_context_tag := t\<rparr>) = within_limit ev cf"
    by (simp add: within_limit_def fun_eq_iff)
qed

text \<open>The laws of one exchange: a request within the limit costs one, the tools and git cost nothing, and the
  history may be extended.\<close>

locale exchange = effects panics R for panics :: bool and R :: "nat \<Rightarrow> 'w worker_state \<Rightarrow> 'w worker_state \<Rightarrow> bool" +
  fixes ev :: "'w env" and cf :: worker_config
  assumes asks: "within_limit ev cf r \<Longrightarrow> R 1 s (s\<lparr>ws_world := snd (ev_generate ev r (ws_world s))\<rparr>)"
    and tools: "act_within panics R 0 (use_tools ev (cf\<lparr>wc_context_tag := tag\<rparr>) cs)"
    and gits: "R 0 s (s\<lparr>ws_world := snd (os_git (ev_os ev) p args (ws_world s))\<rparr>)"
    and remembers: "R 0 s (remember ms s)"
begin

abbreviation "tagged t \<equiv> cf\<lparr>wc_context_tag := t\<rparr>"

lemma ask: "within_limit ev cf r \<Longrightarrow> within 1 (ask_provider ev r)"
  using asks [of r] by (auto simp: act_within_def ask_provider_def split: prod.split sum.split) (metis snd_conv)+

lemma exchange_json:
  "R 2 s (s\<lparr>ws_world := snd (json_request ev (tagged tag) label req validate t (ws_world s))\<rparr>)"
proof -
  have one: "R 1 s (s\<lparr>ws_world := w'\<rparr>)" "R 2 s (s\<lparr>ws_world := w'\<rparr>)"
    if "ev_generate ev r w = (x, w')" "ws_world s = w" "truncate_request_to_input_budget ev (tagged tag) label r' = Inr r"
    for s r r' w w' x
  proof -
    show "R 1 s (s\<lparr>ws_world := w'\<rparr>)"
      using asks [of r s] truncate_within_limit [OF that(3)] that(1,2) by simp
    then show "R 2 s (s\<lparr>ws_world := w'\<rparr>)" by (rule mono) simp
  qed
  have two: "R 2 s (s\<lparr>ws_world := w2\<rparr>)"
    if "ev_generate ev r w = (x, w1)" "ws_world s = w" "truncate_request_to_input_budget ev (tagged tag) label r' = Inr r"
      "ev_generate ev q w1 = (y, w2)" "truncate_request_to_input_budget ev (tagged tag) label q' = Inr q"
    for r r' w x w1 q q' y w2
    using trans [OF one(1) [OF that(1-3)] one(1) [OF that(4) _ that(5), of "s\<lparr>ws_world := w1\<rparr>"]] by (simp add: numeral_2_eq_2)
  show ?thesis
    by (auto simp: json_request_def Let_def R_stay intro: one two split: sum.split prod.split)
qed

lemma ask_json: "within 2 (ask_json ev (tagged tag) label req validate t)"
  using exchange_json [of _ tag label req validate t]
  by (auto simp: ask_json_def act_within_def split: prod.split) (metis snd_conv)

lemma turn_loop: "within n (turns ev (tagged tag) stage sys n local t)"
proof (induction n arbitrary: local t)
  case 0 show ?case by (simp add: ret)
next
  case (Suc n)
  let ?request = "truncate_request_to_input_budget ev (tagged tag) (stage_label stage) (stage_request (tagged tag) stage sys local)"
  show ?case
  proof (cases ?request)
    case (Inl e) then show ?thesis by (simp add: ret)
  next
    case (Inr r)
    have "within_limit ev cf r" using truncate_within_limit [OF Inr] by simp
    note sent = bind [OF ask [OF this], of n, simplified]
    show ?thesis unfolding turns.simps Inr bind_lift Let_def
      by (rule sent, rule bind_free [OF step], rule mono [OF remembers], simp, simp split: option.split add: ret)
        (auto intro!: bind_free [OF tools] Suc.IH)
  qed
qed

abbreviation mi :: nat where
  "mi \<equiv> wc_max_interactions cf"

lemma raw_stage: "within mi (run_ai_stage_raw ev (tagged tag) stage sys user)"
proof -
  let ?prepare = "\<lambda>s. remember [text_message User (snd user)]
    (if ws_history s = [] then remember [text_message System (snd sys)] s else s)"
  have "run_ai_stage_raw ev (tagged tag) stage sys user =
      act_bind (\<lambda>s. Some (Inr (), ?prepare s))
        (\<lambda>_. turns ev (tagged tag) stage (fst sys) mi [text_message User (fst user)] (0, 0, 0))"
    by (rule ext) (simp add: run_ai_stage_raw_def act_bind_def Let_def)
  moreover have "R 0 s (?prepare s)" for s
    using trans [OF remembers [of s "[text_message System (snd sys)]"] remembers] remembers by simp
  ultimately show ?thesis by (simp only:) (intro bind_free [OF step] turn_loop)
qed

lemma stage: "within mi (run_ai_stage ev (tagged tag) stage sys user)"
  unfolding run_ai_stage_def by (rule bind_last [OF raw_stage]) (simp add: ret split: prod.split)

lemma inner: "within (n * mi) (inner_attempts ev (tagged tag) stage sys user n active c)"
proof (induction n arbitrary: active c)
  case 0 show ?case by (simp add: ret)
next
  case (Suc n)
  show ?case unfolding inner_attempts.simps mult_Suc
    by (rule attempt [OF stage]) (auto simp: ret Suc.IH split: prod.split sum.split worker_error.split)
qed

lemma outer: "within (n * (3 * mi)) (outer_attempts ev (tagged tag) stage sys user n c)"
proof (induction n arbitrary: c)
  case 0 show ?case by (simp add: ret)
next
  case (Suc n)
  show ?case unfolding outer_attempts.simps mult_Suc
    by (rule bind [OF inner]) (auto simp: ret Suc.IH)
qed

lemma analysis: "within (length stages * (9 * mi)) (analysis_stages ev (tagged tag) rx planned stages c)"
proof (induction stages arbitrary: c)
  case Nil show ?case by (simp add: ret)
next
  case (Cons k stages)
  have nine: "3 * (3 * mi) = 9 * mi" by simp
  have "within (9 * mi) (analysis_stage ev (tagged tag) rx k c)"
    unfolding analysis_stage_def by (rule bind_free [OF look [OF looks_stage_prompt]]) (rule outer [of 3, unfolded nine])
  note one = bind [OF this Cons.IH]
  have "within (9 * mi + length stages * (9 * mi)) (analysis_stages ev (tagged tag) rx planned stages c)"
    by (rule weaken [OF Cons.IH]) simp
  then show ?case using one by simp
qed

lemma late: "within mi (late_stage ev (tagged tag) rx k p)"
  unfolding late_stage_def by (rule attempt_last [OF stage]) (simp_all add: ret)

lemma chain:
  assumes "R m s s1" "case a of None \<Rightarrow> panics | Some (r, s') \<Rightarrow> R n s1 s'" "m + n \<le> k"
  shows "case a of None \<Rightarrow> panics | Some (r, s') \<Rightarrow> R k s s'"
  using assms(2) by (auto split: option.splits intro: mono [OF trans [OF assms(1)] assms(3)])

lemma report:
  "case write_report ev (tagged tag) sys user retries free active t s of
     None \<Rightarrow> panics | Some (r, s') \<Rightarrow> R ((3 - retries + (if free then 0 else 1)) * mi) s s'"
proof (induction "(3 - retries) * 2 + (if free then 0 else 1 :: nat)" arbitrary: retries free active t s rule: less_induct)
  case less
  let ?ask = "run_ai_stage_raw ev (tagged tag) 11 sys active s"
  define k where "k = (3 - retries + (if free then 0 else 1)) * mi"
  define ok where "ok a \<longleftrightarrow> (case a of None \<Rightarrow> panics | Some (r, s') \<Rightarrow> R k s s')" for a :: "((worker_error + string \<times> tokens) \<times> 'w worker_state) option"
  have ask: "case ?ask of None \<Rightarrow> panics | Some (r, s1) \<Rightarrow> R mi s s1"
    using raw_stage by (simp add: act_within_def)
  have "ok (write_report ev (tagged tag) sys user retries free active t s)"
  proof (cases "retries \<ge> 3")
    case True then show ?thesis by (simp add: ok_def write_report.simps R_stay)
  next
    case False
    have le: "mi \<le> k" using False by (cases "3 - retries") (auto simp: k_def)
    show ?thesis
    proof (cases ?ask)
      case None then show ?thesis using ask False by (simp add: ok_def write_report.simps)
    next
      case (Some p)
      obtain x s1 where p: "p = (x, s1)" by (cases p)
      then have spent: "R mi s s1" using ask Some by simp
      have here: "ok (Some (r, s1))" for r using mono [OF spent le] by (simp add: ok_def)
      have again: "ok (write_report ev (tagged tag) sys user retries' free' active' t' s1)"
        if "(3 - retries') * 2 + (if free' then 0 else 1) < (3 - retries) * 2 + (if free then 0 else 1 :: nat)"
          "Suc (3 - retries' + (if free' then 0 else 1)) \<le> 3 - retries + (if free then 0 else 1)"
        for retries' free' active' t'
        unfolding ok_def
        by (rule chain [OF spent less [OF that(1)]]) (use mult_le_mono1 [OF that(2), of mi] in \<open>simp add: k_def\<close>)
      have once: "ok (write_report ev (tagged tag) sys user (Suc retries) free active' t' s1)" for active' t'
        using False by (intro again) auto
      have free_form: "ok (write_report ev (tagged tag) sys user (if Suc retries = 3 then retries else Suc retries) True active' t' s1)"
        if "\<not> free" for active' t'
        using False that by (intro again) auto
      show ?thesis
      proof (cases x)
        case (Inr v)
        obtain result_text u where v: "v = (result_text, u)" by (cases v)
        show ?thesis using once here False Some p Inr v
          by (subst write_report.simps) (cases free; simp add: Let_def split: sum.split)
      next
        case (Inl e)
        show ?thesis using once free_form False Some p Inl
          by (subst write_report.simps) (simp add: Let_def)
      qed
    qed
  qed
  then show ?case by (simp only: ok_def k_def)
qed

lemma report_within: "within (4 * mi) (write_report ev (tagged tag) sys user 0 False active t)"
proof -
  have four: "3 - 0 + (if False then 0 else 1) = (4 :: nat)" by simp
  show ?thesis unfolding act_within_def by (rule allI) (rule report [where retries = 0 and free = False, unfolded four])
qed

lemma finish: "within (7 * mi) (conclude ev (tagged tag) rx c)"
proof -
  note look = bind_free [OF look [OF looks_stage_prompt]]
  have dedup: "within mi (deduplicate ev (tagged tag) rx c)" for c
    unfolding deduplicate_def Let_def
    by (rule look, rule bind_last [OF late]) (auto simp: ret split: prod.split intro!: bind_last [OF ret(3)])
  have resolve: "within mi (resolve_conflicts ev (tagged tag) rx items)" for items
    unfolding resolve_conflicts_def Let_def
    by (rule look, rule bind_last [OF late]) (auto simp: ret split: prod.split intro!: bind_last [OF ret(3)])
  have series: "within 0 (series_context ev (tagged tag))"
    using gits by (auto simp: series_context_def act_within_def R_stay split: option.split prod.split) (metis snd_conv)
  have verify: "within mi (verify_concerns ev (tagged tag) rx cs)" for cs
    unfolding verify_concerns_def Let_def
    by (rule look, rule bind_free [OF series], rule bind_last [OF late])
      (auto simp: ret split: prod.split intro!: bind_last [OF ret(3)])
  have told: "within (4 * mi) (report_stage ev (tagged tag) rx fs t)" for fs t
    unfolding report_stage_def Let_def
    by (rule look, rule bind_last [OF report_within]) (auto simp: ret split: prod.split)
  have completed: "within n (completed out t)" for n out t
    unfolding completed_def by (rule step) (rule R_stay)
  have verified: "within (4 * mi) (after_verification ev (tagged tag) rx n ds fs t)" for n ds fs t
    by (auto simp: after_verification_def completed split: prod.split intro!: bind_last [OF told])
  have resolved: "within (mi + 4 * mi) (after_resolution ev (tagged tag) rx n ds cs t)" for n ds cs t
    unfolding after_resolution_def
    by (cases "cs = []", simp add: completed, simp only: if_False, rule bind [OF verify], unfold split_def, rule verified)
  have deduped: "within (mi + (mi + 4 * mi)) (after_deduplication ev (tagged tag) rx n ds cs t)" for n ds cs t
    unfolding after_deduplication_def
    by (cases "cs = []", simp add: completed, simp only: if_False, rule bind [OF resolve], unfold split_def, rule resolved)
  have "within (mi + (mi + (mi + 4 * mi))) (conclude ev (tagged tag) rx c)"
    unfolding conclude_def
    by (cases "cn_concerns c = []", simp add: completed, simp only: if_False, rule bind [OF dedup], unfold split_def, rule deduped)
  then show ?thesis by simp
qed

text \<open>The whole run.\<close>

theorem run_within: "within (4 + 70 * mi) (worker_run ev cf patchset)"
proof -
  let ?cf = "tagged (context_tag patchset)"
  have sel: "within 2 (select_prompts ev ?cf d t)" for d t
  proof -
    have asked: "within 2 (act_bind (ask_json ev ?cf l q v t) (\<lambda>(x, u). act_ret (h x, u)))" for l q v and h :: "json option \<Rightarrow> string list option"
      by (rule bind_last [OF ask_json]) (simp add: ret split: prod.split)
    then show ?thesis
      by (auto simp: select_prompts_def Let_def act_within_def R_stay split: sum.split)
  qed
  have plan: "within 2 (plan_stages ev ?cf d t)" for d t
    unfolding plan_stages_def by (auto simp: ret split: prod.split intro!: bind_last [OF ask_json])
  have stages: "within (63 * mi) (analysis_stages ev ?cf rx planned [1, 2, 3, 4, 5, 6, 7] c)" for rx planned c
    using analysis [where stages = "[1, 2, 3, 4, 5, 6, 7]"] by simp
  have rest: "within (2 + (63 * mi + 7 * mi)) (act_bind (plan_stages ev ?cf d t) (\<lambda>(planned, t). act_bind
      (analysis_stages ev ?cf rx planned [1, 2, 3, 4, 5, 6, 7] \<lparr>cn_concerns = [], cn_dismissed = [], cn_tokens = t\<rparr>)
      (conclude ev ?cf rx)))" for d t rx
    by (rule bind [OF plan], unfold split_def, rule bind [OF stages finish])
  have "within (2 + (2 + (63 * mi + 7 * mi))) (worker_run ev cf patchset)"
    unfolding worker_run_def Let_def
    by (rule bind [OF sel], unfold split_def, rule bind_free [OF look [OF looks_context]], rule bind_free [OF ret(4)],
        rule rest [unfolded split_def])
  then show ?thesis by (rule weaken) simp
qed

end

subsection \<open>The tools of a turn\<close>

text \<open>A world that keeps the requests the provider got, and one that keeps what the provider answered: the tools and git
  do not speak with the provider.\<close>

definition untouched :: "'w env \<Rightarrow> ('w \<Rightarrow> 'l) \<Rightarrow> bool" where
  "untouched ev sent \<longleftrightarrow>
     (\<forall>p args w. sent (snd (os_git (ev_os ev) p args w)) = sent w) \<and>
     (\<forall>p text w. sent (snd (os_append (ev_os ev) p text w)) = sent w) \<and>
     (\<forall>p q args w. sent (snd (os_find (ev_os ev) p q args w)) = sent w)"

definition logs_requests :: "'w env \<Rightarrow> ('w \<Rightarrow> AiRequest list) \<Rightarrow> bool" where
  "logs_requests ev sent \<longleftrightarrow> (\<forall>r w. sent (snd (ev_generate ev r w)) = sent w @ [r]) \<and> untouched ev sent"

definition logs_answers :: "'w env \<Rightarrow> ('w \<Rightarrow> (AiError + AiResponse) list) \<Rightarrow> bool" where
  "logs_answers ev got \<longleftrightarrow>
     (\<forall>r w. got (snd (ev_generate ev r w)) = got w @ [fst (ev_generate ev r w)]) \<and> untouched ev got"

text \<open>No file makes the tool that reads files panic.\<close>

definition readable :: "'w env \<Rightarrow> worker_config \<Rightarrow> bool" where
  "readable ev cf \<longleftrightarrow> (\<forall>w args. read_files (ev_os ev) (ev_bpe ev) (wc_tools cf) w args \<noteq> None)"

lemma call_tool_sends_nothing:
  assumes "untouched ev sent"
  shows "sent (snd (call_tool (ev_os ev) bpe t n args w)) = sent w"
proof -
  note same = assms [unfolded untouched_def] split_def Let_def
  have "sent (snd (git_blame (ev_os ev) bpe t args w)) = sent w" "sent (snd (git_diff (ev_os ev) bpe t args w)) = sent w"
    "sent (snd (git_show (ev_os ev) bpe t args w)) = sent w" "sent (snd (git_log (ev_os ev) bpe t args w)) = sent w"
    "sent (snd (git_status (ev_os ev) t args w)) = sent w" "sent (snd (git_checkout (ev_os ev) t args w)) = sent w"
    "sent (snd (git_branch (ev_os ev) t args w)) = sent w" "sent (snd (git_tag (ev_os ev) t args w)) = sent w"
    "sent (snd (find_files (ev_os ev) t args w)) = sent w" "sent (snd (todowrite (ev_os ev) t args w)) = sent w"
    by (simp_all add: same git_blame_def git_diff_def git_show_def git_log_def git_status_def git_checkout_def
        git_branch_def git_tag_def git_text_def find_files_def todowrite_def split: option.split sum.split)
  then show ?thesis by (simp only: call_tool_def Let_def if_distrib [of snd] if_distrib [of sent] snd_conv if_cancel)
qed

lemma call_tool_answers:
  "readable ev cf \<Longrightarrow> fst (call_tool (ev_os ev) (ev_bpe ev) (wc_tools cf) n args w) \<noteq> None"
proof -
  assume "readable ev cf"
  then have "read_files (ev_os ev) (ev_bpe ev) (wc_tools cf) w args \<noteq> None" by (simp add: readable_def)
  moreover have "fst (git_blame os bpe t args w) \<noteq> None" "fst (git_diff os bpe t args w) \<noteq> None"
    "fst (git_show os bpe t args w) \<noteq> None" "fst (git_log os bpe t args w) \<noteq> None"
    "fst (git_status os t args w) \<noteq> None" "fst (git_checkout os t args w) \<noteq> None"
    "fst (git_branch os t args w) \<noteq> None" "fst (git_tag os t args w) \<noteq> None"
    "fst (find_files os t args w) \<noteq> None" "fst (todowrite os t args w) \<noteq> None" for os :: "'a os" and bpe t
    by (simp_all add: split_def Let_def answer_io_def git_blame_def git_diff_def git_show_def git_log_def git_status_def
        git_checkout_def git_branch_def git_tag_def git_text_def find_files_def todowrite_def split: option.split sum.split)
  ultimately show ?thesis by (simp only: call_tool_def Let_def if_distrib [of fst] fst_conv) (simp split: if_split)
qed

lemma run_tools_sends_nothing:
  "untouched ev sent \<Longrightarrow> run_tools ev cf cs w = Some (ms, w') \<Longrightarrow> sent w' = sent w"
proof (induction cs arbitrary: w ms)
  case (Cons c cs)
  then show ?case using call_tool_sends_nothing [OF Cons.prems(1), of "ev_bpe ev" "wc_tools cf" "tc_function_name c" "tc_arguments c" w]
    by (auto simp: Let_def split: prod.splits option.splits)
qed simp

lemma run_tools_answers: "readable ev cf \<Longrightarrow> run_tools ev (cf\<lparr>wc_context_tag := tag\<rparr>) cs w \<noteq> None"
proof (induction cs arbitrary: w)
  case (Cons c cs)
  have IH: "\<exists>ms w'. run_tools ev (cf\<lparr>wc_context_tag := tag\<rparr>) cs w1 = Some (ms, w')" for w1
    using Cons.IH [OF Cons.prems, of w1] by auto
  show ?case using call_tool_answers [OF Cons.prems, of "tc_function_name c" "tc_arguments c" w] IH
    by (auto simp: Let_def split: prod.splits option.splits) (metis option.distinct(1))
qed simp

subsection \<open>Requests, history, and the end of a run\<close>

definition new_requests ::
    "'w env \<Rightarrow> worker_config \<Rightarrow> ('w \<Rightarrow> AiRequest list) \<Rightarrow> nat \<Rightarrow> 'w worker_state \<Rightarrow> 'w worker_state \<Rightarrow> bool" where
  "new_requests ev cf sent n s s' \<longleftrightarrow>
     (\<exists>rs. sent (ws_world s') = sent (ws_world s) @ rs \<and> length rs \<le> n \<and> (\<forall>r\<in>set rs. within_limit ev cf r))"

interpretation new_requests: effects p "new_requests ev cf sent" for p ev cf sent
proof
  fix m n s t u assume "new_requests ev cf sent m s t" "new_requests ev cf sent n t u"
  then show "new_requests ev cf sent (m + n) s u"
    unfolding new_requests_def by (metis (no_types, opaque_lifting) UnE add_mono append_assoc length_append set_append)
qed (fastforce simp: new_requests_def)+

interpretation sending: exchange "\<not> readable ev cf" "\<lambda>n s s'. logs_requests ev sent \<longrightarrow> new_requests ev cf sent n s s'" ev cf
  for ev cf sent
proof unfold_locales
  fix s :: "'a worker_state"
  show "logs_requests ev sent \<longrightarrow> new_requests ev cf sent 0 s s" by (simp add: new_requests.stay)
next
  fix m n and s t u :: "'a worker_state"
  assume "logs_requests ev sent \<longrightarrow> new_requests ev cf sent m s t" "logs_requests ev sent \<longrightarrow> new_requests ev cf sent n t u"
  then show "logs_requests ev sent \<longrightarrow> new_requests ev cf sent (m + n) s u" by (blast intro: new_requests.trans)
next
  fix m n and s t :: "'a worker_state"
  assume "logs_requests ev sent \<longrightarrow> new_requests ev cf sent m s t" "m \<le> n"
  then show "logs_requests ev sent \<longrightarrow> new_requests ev cf sent n s t" by (blast intro: new_requests.mono)
next
  fix tag cs
  show "act_within (\<not> readable ev cf) (\<lambda>n s s'. logs_requests ev sent \<longrightarrow> new_requests ev cf sent n s s') 0
      (use_tools ev (cf\<lparr>wc_context_tag := tag\<rparr>) cs)"
    unfolding act_within_def
  proof
    fix s :: "'a worker_state"
    show "case use_tools ev (cf\<lparr>wc_context_tag := tag\<rparr>) cs s of None \<Rightarrow> \<not> readable ev cf
      | Some (r, s') \<Rightarrow> logs_requests ev sent \<longrightarrow> new_requests ev cf sent 0 s s'"
      using run_tools_answers [of ev cf tag cs "ws_world s"]
      by (cases "run_tools ev (cf\<lparr>wc_context_tag := tag\<rparr>) cs (ws_world s)")
        (auto simp: use_tools_def new_requests_def remember_def logs_requests_def dest: run_tools_sends_nothing)
  qed
qed (auto simp: new_requests_def logs_requests_def untouched_def remember_def)

interpretation remembered: exchange True "\<lambda>n s s'. prefix (ws_history s) (ws_history s')" ev cf for ev cf
proof unfold_locales
  fix tag cs
  show "act_within True (\<lambda>n s s'. prefix (ws_history s) (ws_history s')) 0 (use_tools ev (cf\<lparr>wc_context_tag := tag\<rparr>) cs)"
    by (simp add: act_within_def use_tools_def remember_def split: option.split)
qed (auto simp: remember_def intro: prefix_order.trans)

interpretation answering: exchange True "\<lambda>n s s'. logs_answers ev got \<longrightarrow> prefix (got (ws_world s)) (got (ws_world s'))" ev cf
  for ev cf got
proof unfold_locales
  fix tag cs
  show "act_within True (\<lambda>n s s'. logs_answers ev got \<longrightarrow> prefix (got (ws_world s)) (got (ws_world s'))) 0
      (use_tools ev (cf\<lparr>wc_context_tag := tag\<rparr>) cs)"
    by (auto simp: act_within_def use_tools_def remember_def logs_answers_def split: option.split
        dest: run_tools_sends_nothing)
qed (auto simp: remember_def logs_answers_def untouched_def intro: prefix_order.trans)

text \<open>C13. A review always ends, and what it sends to the AI is bounded: when no file makes the reading tool
  panic (\<open>readable\<close>), the run returns, whatever the AI answers; it sends at most \<open>4 + 70 * max_interactions\<close>
  requests, and for every one of them the estimate of its tokens that the provider gives is at most the limit that the
  window of the model and the settings set. The estimate is what the code checks; the tokens the provider then
  counts may be others. (\<open>sent\<close> is any record of the requests that only the provider writes.)\<close>

theorem requests_bounded:
  assumes "logs_requests ev sent" "readable ev cf"
  shows "\<exists>r s' rs. worker_run ev cf patchset s = Some (r, s') \<and> sent (ws_world s') = sent (ws_world s) @ rs \<and>
    length rs \<le> 4 + 70 * wc_max_interactions cf \<and> (\<forall>r\<in>set rs. ev_estimate ev r \<le> effective_input_limit ev cf)"
  using sending.run_within [of ev cf sent patchset] assms
  by (auto simp: act_within_def new_requests_def within_limit_def dest!: spec [of _ s] split: option.splits)

text \<open>A provider that answers nothing and keeps what it is asked, on a machine without files.\<close>

definition silent_os :: "'w os" where
  "silent_os =
     \<lparr>os_canonicalize = (\<lambda>w p. Inl (OtherIo ''no files'')), os_read = (\<lambda>w p. Inl (OtherIo ''no files'')),
      os_read_dir = (\<lambda>w p. Inl (OtherIo ''no files'')), os_append = (\<lambda>p s w. (Inl (OtherIo ''no files''), w)),
      os_git = (\<lambda>d cmd w. (Inl (OtherIo ''no git''), w)), os_timeout = (\<lambda>d cmd w. False),
      os_find = (\<lambda>d p args w. (Inl (OtherIo ''no find''), w)), os_search = (\<lambda>w pat p d n. Inl ''no files''),
      os_show_path = (\<lambda>p. join ''/'' p)\<rparr>"

definition silent_env :: "(AiRequest list) env" where
  "silent_env =
     \<lparr>ev_os = silent_os, ev_bpe = (\<lambda>_. 1), ev_generate = (\<lambda>r w. (Inr \<lparr>rs_content = None, rs_thought = None,
        rs_thought_signature = None, rs_tool_calls = None, rs_usage = None\<rparr>, w @ [r])),
      ev_estimate = (\<lambda>r. length (rq_messages r)), ev_context_window = 1000, ev_from_str = (\<lambda>_. None),
      ev_to_string = (\<lambda>_. []), ev_pretty = (\<lambda>_. []), ev_parse_error = (\<lambda>_. []), ev_exists = (\<lambda>_ _. False),
      ev_show_error = (\<lambda>_. []), ev_prefetch = (\<lambda>_ _ _. None), ev_date = ''today''\<rparr>"

definition silent_config :: worker_config where
  "silent_config = \<lparr>wc_tools = sample_box, wc_base_dir = [], wc_max_input_tokens = 0, wc_max_interactions = 2,
     wc_temperature = ''0.0'', wc_series_range = None, wc_context_tag = [], wc_stages = None\<rparr>"

lemma silent_files_readable: "readable silent_env cf"
proof -
  have "read_each silent_os bpe t w mode fs \<noteq> None" for bpe t mode fs and w :: 'w
    by (induction fs) (auto simp: Let_def read_single_file_def validate_path_def silent_os_def)
  then show ?thesis
    by (auto simp: readable_def silent_env_def read_files_def split: option.split)
qed

theorem requests_bounded_witness:
  "\<exists>r s' rs. worker_run silent_env silent_config (JObj []) \<lparr>ws_history = [], ws_world = []\<rparr> = Some (r, s') \<and>
     ws_world s' = rs \<and> length rs \<le> 144 \<and> (\<forall>r\<in>set rs. length (rq_messages r) \<le> 950)"
proof -
  have "logs_requests silent_env (\<lambda>w. w)"
    by (simp add: logs_requests_def untouched_def silent_env_def silent_os_def)
  moreover have "wc_max_interactions silent_config = 2" "effective_input_limit silent_env silent_config = 950"
    "ev_estimate silent_env = (\<lambda>r. length (rq_messages r))"
    by (simp_all add: silent_config_def effective_input_limit_def silent_env_def)
  ultimately show ?thesis
    using requests_bounded [OF _ silent_files_readable, of "\<lambda>w. w" silent_config "JObj []" "\<lparr>ws_history = [], ws_world = []\<rparr>"]
    by simp
qed

subsection \<open>What stages give\<close>

definition yields :: "('a \<Rightarrow> 'w worker_state \<Rightarrow> bool) \<Rightarrow> ('w, 'a) act \<Rightarrow> bool" where
  "yields Q m \<longleftrightarrow> (\<forall>s a s'. m s = Some (Inr a, s') \<longrightarrow> Q a s')"

lemma yields_ret: "(\<And>s. Q a s) \<Longrightarrow> yields Q (act_ret a)" "yields Q (act_fail e)"
  by (simp_all add: yields_def act_ret_def act_fail_def)

lemma yields_try: "(\<And>x. yields Q (f x)) \<Longrightarrow> (\<And>e. yields Q (g e)) \<Longrightarrow> yields Q (act_try m f g)"
  unfolding yields_def act_try_def by (fastforce split: option.splits sum.splits)

lemma yields_bind: "yields P m \<Longrightarrow> (\<And>x s. P x s \<Longrightarrow> yields Q (f x)) \<Longrightarrow> yields Q (act_bind m f)"
  unfolding yields_def act_bind_def by (fastforce split: option.splits sum.splits)

lemma yields_any: "yields (\<lambda>_ _. True) m"
  by (simp add: yields_def)

lemmas yields_then = yields_bind [OF yields_any]

text \<open>The items carry the number of a stage that ran.\<close>

definition from_stage :: "worker_config \<Rightarrow> nat list option \<Rightarrow> json \<Rightarrow> bool" where
  "from_stage cf planned x \<longleftrightarrow>
     (\<exists>k\<in>{1..7}. stage_runs cf planned k \<and> jget x ''source_stage'' = Some (JInt (int k)) \<and> (\<exists>ms. x = JObj ms))"

definition items_from_stages :: "worker_config \<Rightarrow> nat list option \<Rightarrow> concerns \<Rightarrow> bool" where
  "items_from_stages cf planned c \<longleftrightarrow> (\<forall>x\<in>set (cn_concerns c) \<union> set (cn_dismissed c). from_stage cf planned x)"

lemma normalized_item:
  "normalize_stage_item i k d t = Some x \<Longrightarrow> t \<noteq> ''source_stage'' \<Longrightarrow>
   jget x ''source_stage'' = Some (JInt (int k)) \<and> (\<exists>ms. x = JObj ms)"
  by (cases i) (auto simp: normalize_stage_item_def json_insert_def map_add_def split: option.split
      dest!: map_of_SomeD)

lemma add_items_from_stages:
  "items_from_stages cf planned c \<Longrightarrow> k \<in> {1..7} \<Longrightarrow> stage_runs cf planned k \<Longrightarrow>
   items_from_stages cf planned (add_items k items (count_tokens t c))"
  by (auto simp: items_from_stages_def add_items_def count_tokens_def append_stage_items_def
      append_stage_dismissed_concerns_def set_map_filter from_stage_def dest!: normalized_item)

lemma inner_yields:
  assumes "k \<in> {1..7}" "stage_runs cf planned k"
  shows "items_from_stages cf planned c \<Longrightarrow>
    yields (\<lambda>r _. items_from_stages cf planned (snd r)) (inner_attempts ev cf k sys user n active c)"
proof (induction n arbitrary: active c)
  case 0 then show ?case by (simp add: yields_ret)
next
  case (Suc n)
  have same: "items_from_stages cf planned (count_tokens t c)" for t
    using Suc.prems by (simp add: items_from_stages_def count_tokens_def)
  show ?case unfolding inner_attempts.simps
    by (rule yields_try)
      (auto split: prod.split sum.split worker_error.split
        intro!: yields_ret Suc.IH same add_items_from_stages [OF Suc.prems assms] Suc.prems)
qed

lemma outer_yields:
  assumes "k \<in> {1..7}" "stage_runs cf planned k"
  shows "items_from_stages cf planned c \<Longrightarrow> yields (\<lambda>c _. items_from_stages cf planned c) (outer_attempts ev cf k sys user n c)"
proof (induction n arbitrary: c)
  case 0 show ?case by (simp add: yields_ret)
next
  case (Suc n)
  show ?case unfolding outer_attempts.simps
    by (rule yields_bind [OF inner_yields [OF assms Suc.prems]]) (auto intro: yields_ret Suc.IH)
qed

lemma analysis_yields:
  "set stages \<subseteq> {1..7} \<Longrightarrow> items_from_stages cf planned c \<Longrightarrow>
   yields (\<lambda>c _. items_from_stages cf planned c) (analysis_stages ev cf rx planned stages c)"
proof (induction stages arbitrary: c)
  case Nil then show ?case by (simp add: yields_ret)
next
  case (Cons k stages)
  have "yields (\<lambda>c _. items_from_stages cf planned c) (analysis_stage ev cf rx k c)" if "stage_runs cf planned k"
    unfolding analysis_stage_def using Cons.prems that by (intro yields_then outer_yields) auto
  then show ?case using Cons by (auto intro: yields_bind)
qed

text \<open>The stages 1 to 3 are never left out by the plan, and it names no stage that does not exist.\<close>

lemma plan_yields:
  "yields (\<lambda>(planned, _) _. \<forall>ps. planned = Some ps \<longrightarrow> {1, 2, 3} \<subseteq> set ps \<and> set ps \<subseteq> {1..7}) (plan_stages ev cf d t)"
  unfolding plan_stages_def
  by (auto intro!: yields_ret yields_then)

text \<open>The result of stages 1 to 7: after the planning, when the run of the stages comes to its end, every
  concern and every dismissed concern is an object that carries the number of a stage from 1 to 7 that
  was to run, and unless the settings choose the stages, the stages 1 to 3 were to run.\<close>

theorem concerns_from_stages:
  assumes "plan_stages ev cf d t s0 = Some (Inr (planned, u), s1)"
    and "analysis_stages ev cf rx planned [1, 2, 3, 4, 5, 6, 7] \<lparr>cn_concerns = [], cn_dismissed = [], cn_tokens = v\<rparr> s = Some (Inr c, s')"
    and "x \<in> set (cn_concerns c) \<union> set (cn_dismissed c)"
  shows "(\<exists>k\<in>{1..7}. stage_runs cf planned k \<and> jget x ''source_stage'' = Some (JInt (int k)) \<and> (\<exists>ms. x = JObj ms)) \<and>
    (wc_stages cf = None \<longrightarrow> (\<forall>k\<in>{1, 2, 3}. stage_runs cf planned k))"
proof
  have "items_from_stages cf planned \<lparr>cn_concerns = [], cn_dismissed = [], cn_tokens = v\<rparr>"
    by (simp add: items_from_stages_def)
  from analysis_yields [OF _ this, of "[1, 2, 3, 4, 5, 6, 7]" ev rx] assms(2) have "items_from_stages cf planned c"
    by (auto simp: yields_def simp del: analysis_stages.simps)
  then show "\<exists>k\<in>{1..7}. stage_runs cf planned k \<and> jget x ''source_stage'' = Some (JInt (int k)) \<and> (\<exists>ms. x = JObj ms)"
    using assms(3) by (simp add: items_from_stages_def from_stage_def)
  show "wc_stages cf = None \<longrightarrow> (\<forall>k\<in>{1, 2, 3}. stage_runs cf planned k)"
    using plan_yields [unfolded yields_def, rule_format, OF assms(1)] by (auto simp: stage_runs_def split: option.split)
qed

text \<open>A provider whose every answer is read as one concern, asked in stage 2 only.\<close>

definition talking_env :: "(AiRequest list) env" where
  "talking_env = silent_env
     \<lparr>ev_generate := (\<lambda>r w. (Inr \<lparr>rs_content = Some ''x'', rs_thought = None, rs_thought_signature = None,
        rs_tool_calls = None, rs_usage = None\<rparr>, w @ [r])),
      ev_from_str := (\<lambda>_. Some (JObj [(''concerns'', JArr [JStr ''leak'']), (''dismissed_concerns'', JArr [])]))\<rparr>"

definition second_stage :: worker_config where
  "second_stage = silent_config\<lparr>wc_stages := Some [2]\<rparr>"

lemma looks_none: "looks m \<Longrightarrow> \<exists>r. m s = Some (r, s)"
  by (simp add: looks_def)

lemma talking_turn:
  "\<exists>w. turns talking_env second_stage k sys (Suc n) [m] t \<lparr>ws_history = h, ws_world = w0\<rparr> =
     Some (Inr (''x'', t), \<lparr>ws_history = h @ [text_message Assistant ''x''], ws_world = w\<rparr>)"
proof -
  have "truncate_request_to_input_budget talking_env second_stage l (stage_request second_stage k sys [m]) =
      Inr (stage_request second_stage k sys [m])" for l
    by (simp add: truncate_request_to_input_budget_def effective_input_limit_def talking_env_def silent_env_def
        second_stage_def silent_config_def stage_request_def Let_def)
  then show ?thesis
    by (simp add: act_bind_def act_lift_def ask_provider_def talking_env_def add_tokens_def remember_def act_ret_def
        assistant_message_def text_message_def Let_def)
qed

lemma talking_stage:
  "\<exists>h' w. run_ai_stage talking_env second_stage k sys user \<lparr>ws_history = h, ws_world = w0\<rparr> =
     Some (Inr (JObj [(''concerns'', JArr [JStr ''leak'']), (''dismissed_concerns'', JArr [])], (0, 0, 0)),
       \<lparr>ws_history = h', ws_world = w\<rparr>)"
proof -
  have two: "wc_max_interactions second_stage = Suc (Suc 0)"
    by (simp add: second_stage_def silent_config_def)
  have parse: "parse_answer (ev_from_str talking_env) ''x'' = JObj [(''concerns'', JArr [JStr ''leak'']), (''dismissed_concerns'', JArr [])]"
    by (simp add: parse_answer_def talking_env_def)
  show ?thesis
    using talking_turn [of k "fst sys" "Suc 0" "text_message User (fst user)" "(0, 0, 0)" "if h = [] then [text_message System (snd sys), text_message User (snd user)]
        else h @ [text_message User (snd user)]" w0]
    by (auto simp: run_ai_stage_def act_bind_def run_ai_stage_raw_def two remember_def act_ret_def parse Let_def
        simp del: turns.simps)
qed

theorem concerns_from_stages_witness:
  "\<exists>c s'. analysis_stages talking_env second_stage (review_context_of ([], []) ([], []) None) None [1, 2, 3, 4, 5, 6, 7]
      \<lparr>cn_concerns = [], cn_dismissed = [], cn_tokens = (0, 0, 0)\<rparr> \<lparr>ws_history = [], ws_world = []\<rparr> = Some (Inr c, s') \<and>
     cn_concerns c \<noteq> [] \<and>
     (\<forall>x\<in>set (cn_concerns c). \<exists>k\<in>{1..7}. stage_runs second_stage None k \<and> jget x ''source_stage'' = Some (JInt (int k)))"
proof -
  let ?rx = "review_context_of ([], []) ([], []) None"
  let ?c = "\<lparr>cn_concerns = [], cn_dismissed = [], cn_tokens = (0, 0, 0)\<rparr>"
  have prompt: "\<exists>p. get_stage_prompt talking_env second_stage 2 s = Some (Inr p, s)" for s
    by (simp add: get_stage_prompt_def stage_files_def act_bind_def act_ret_def Let_def)
  have stage: "\<exists>h' w c. outer_attempts talking_env second_stage 2 sys user 3 ?c \<lparr>ws_history = h, ws_world = w0\<rparr> =
      Some (Inr c, \<lparr>ws_history = h', ws_world = w\<rparr>) \<and> cn_concerns c \<noteq> []" for sys user h w0
    using talking_stage [of 2 sys user h w0]
    by (auto simp: numeral_3_eq_3 act_bind_def act_try_def act_ret_def required_stage_arrays_def get_array_def
        add_items_def count_tokens_def append_stage_items_def append_stage_dismissed_concerns_def
        normalize_stage_item_def List.map_filter_simps)
  have run: "\<exists>h w c. analysis_stages talking_env second_stage ?rx None [1, 2, 3, 4, 5, 6, 7] ?c \<lparr>ws_history = [], ws_world = []\<rparr> =
      Some (Inr c, \<lparr>ws_history = h, ws_world = w\<rparr>) \<and> cn_concerns c \<noteq> []"
  proof -
    obtain p where p: "get_stage_prompt talking_env second_stage 2 \<lparr>ws_history = [], ws_world = []\<rparr> =
        Some (Inr p, \<lparr>ws_history = [], ws_world = []\<rparr>)"
      using prompt by blast
    obtain h w c where "outer_attempts talking_env second_stage 2 (rx_full ?rx)
        (augment p ([newline, newline] @ format_guidance)) 3 ?c \<lparr>ws_history = [], ws_world = []\<rparr> =
        Some (Inr c, \<lparr>ws_history = h, ws_world = w\<rparr>)" "cn_concerns c \<noteq> []"
      using stage by blast
    moreover have "wc_stages second_stage = Some [2]" by (simp add: second_stage_def)
    ultimately show ?thesis
      using p by (simp add: stage_runs_def analysis_stage_def act_bind_def act_ret_def)
  qed
  have plan: "plan_stages talking_env second_stage d (0, 0, 0) s = Some (Inr (None, (0, 0, 0)), s)" for d s
    by (simp add: plan_stages_def second_stage_def act_ret_def)
  from run concerns_from_stages [OF plan] show ?thesis by blast
qed

subsection \<open>The output\<close>

text \<open>The provider has refused an answer for recitation.\<close>

definition recited :: "'w env \<Rightarrow> ('w \<Rightarrow> (AiError + AiResponse) list) \<Rightarrow> 'w worker_state \<Rightarrow> bool" where
  "recited ev got s \<longleftrightarrow> (\<exists>e. Inl e \<in> set (got (ws_world s)) \<and> contains (ev_show_error ev e) ''RECITATION'')"

lemma recited_stays: "recited ev got s \<Longrightarrow> prefix (got (ws_world s)) (got (ws_world s')) \<Longrightarrow> recited ev got s'"
  by (auto simp: recited_def dest: set_mono_prefix)

lemma own_errors_recite_not:
  "truncate_request_to_input_budget ev cf (stage_label k) r = Inl e \<Longrightarrow> \<not> contains (worker_error_text ev e) ''RECITATION''"
  "\<not> contains (worker_error_text ev (Review LimitExceeded)) ''RECITATION''"
  "\<not> contains (worker_error_text ev (Failed ''No content or tool calls from AI'')) ''RECITATION''"
proof -
  have no_letter: "\<not> contains t ''RECITATION''" if "CHR ''R'' \<notin> set t" for t
    using that by (auto simp: contains_iff)
  have "CHR ''R'' \<notin> set (show_nat n)" for n
  proof -
    have "\<not> is_digit (CHR ''R'')" by code_simp
    then show ?thesis using dec_digits_digits [of "int n"] by (auto simp: show_nat_def list_all_iff)
  qed
  then show "truncate_request_to_input_budget ev cf (stage_label k) r = Inl e \<Longrightarrow>
      \<not> contains (worker_error_text ev e) ''RECITATION''"
    by (intro no_letter) (auto simp: truncate_request_to_input_budget_def worker_error_text_def budget_text_def stage_label_def
        Let_def split: if_splits)
  show "\<not> contains (worker_error_text ev (Review LimitExceeded)) ''RECITATION''"
    "\<not> contains (worker_error_text ev (Failed ''No content or tool calls from AI'')) ''RECITATION''"
    by (rule no_letter, simp add: worker_error_text_def)+
qed

text \<open>An exchange fails for recitation only when the provider said so.\<close>

lemma turns_recited:
  assumes "logs_answers ev got"
  shows "turns ev cf k sys n local t s = Some (Inl e, s') \<Longrightarrow> contains (worker_error_text ev e) ''RECITATION'' \<Longrightarrow>
    recited ev got s'"
proof (induction n arbitrary: local t s)
  case 0
  then show ?case by (auto simp: act_fail_def own_errors_recite_not)
next
  case (Suc n)
  let ?r = "truncate_request_to_input_budget ev cf (stage_label k) (stage_request cf k sys local)"
  show ?case
  proof (cases ?r)
    case (Inl e')
    with Suc.prems own_errors_recite_not(1) [OF this] show ?thesis by (simp add: act_fail_def)
  next
    case (Inr r)
    obtain x w where g: "ev_generate ev r (ws_world s) = (x, w)" by fastforce
    have log: "got w = got (ws_world s) @ [x]"
      using assms g by (auto simp: logs_answers_def) (metis fst_conv snd_conv)
    show ?thesis
    proof (cases x)
      case (Inl e')
      with Suc.prems Inr g have "e = Provider e'" "ws_world s' = w"
        by (auto simp: act_bind_def act_lift_def ask_provider_def)
      with Suc.prems(2) log Inl show ?thesis by (auto simp: recited_def worker_error_text_def)
    next
      case x: (Inr resp)
      let ?m = "assistant_message resp" and ?t = "add_tokens (rs_usage resp) t"
      have step: "turns ev cf k sys (Suc n) local t s = (case rs_tool_calls resp of
          Some cs \<Rightarrow> act_bind (use_tools ev cf cs) (\<lambda>ms. turns ev cf k sys n (local @ [?m] @ ms) ?t)
        | None \<Rightarrow> if rs_content resp \<noteq> None \<or> rs_thought resp \<noteq> None
            then act_ret (case rs_content resp of Some c \<Rightarrow> c | None \<Rightarrow> [], ?t)
            else act_fail (Failed ''No content or tool calls from AI'')) (remember [?m] (s\<lparr>ws_world := w\<rparr>))"
        by (simp add: Inr g x act_bind_def act_lift_def ask_provider_def Let_def)
      show ?thesis
      proof (cases "rs_tool_calls resp")
        case None
        with Suc.prems step have "e = Failed ''No content or tool calls from AI''"
          by (auto simp: act_ret_def act_fail_def split: if_splits)
        with Suc.prems(2) own_errors_recite_not(3) show ?thesis by blast
      next
        case (Some cs)
        with Suc.prems(1) step obtain ms s1 where "turns ev cf k sys n (local @ [?m] @ ms) ?t s1 = Some (Inl e, s')"
          by (auto simp: act_bind_def use_tools_def split: option.splits)
        from Suc.IH [OF this Suc.prems(2)] show ?thesis .
      qed
    qed
  qed
qed

lemma raw_recited:
  "logs_answers ev got \<Longrightarrow> run_ai_stage_raw ev cf k sys user s = Some (Inl e, s') \<Longrightarrow>
   contains (worker_error_text ev e) ''RECITATION'' \<Longrightarrow> recited ev got s'"
  unfolding run_ai_stage_raw_def Let_def by (rule turns_recited)

lemma raw_grows:
  assumes "logs_answers ev got" "run_ai_stage_raw ev cf k sys user s = Some (x, s')"
  shows "prefix (got (ws_world s)) (got (ws_world s'))"
proof -
  have "cf\<lparr>wc_context_tag := wc_context_tag cf\<rparr> = cf" by simp
  with answering.raw_stage [of ev got cf "wc_context_tag cf" k sys user] assms show ?thesis
    by (auto simp: act_within_def dest!: spec [of _ s])
qed

lemma report_form:
  assumes "logs_answers ev got"
  shows "write_report ev cf sys user retries free active t s = Some (Inr (text, u), s') \<Longrightarrow>
    (free \<Longrightarrow> recited ev got s) \<Longrightarrow> text = [] \<or> validate_inline_format text = Inr () \<or> recited ev got s'"
proof (induction "(3 - retries) * 2 + (if free then 0 else 1 :: nat)" arbitrary: retries free active t s rule: less_induct)
  case less
  let ?ask = "run_ai_stage_raw ev cf 11 sys active s"
  show ?case
  proof (cases "retries \<ge> 3")
    case True then show ?thesis using less.prems(1) by (simp add: write_report.simps)
  next
    case False
    note step = less.prems(1) [unfolded write_report.simps [of ev cf sys user retries free active t s] if_not_P [OF False]]
    have stays: "free \<Longrightarrow> recited ev got s1" if "?ask = Some (x, s1)" for x s1
      using less.prems(2) recited_stays raw_grows [OF assms that] by blast
    consider "?ask = None" | result_text u1 s1 where "?ask = Some (Inr (result_text, u1), s1)"
      | e s1 where "?ask = Some (Inl e, s1)"
      by (metis option.exhaust sumE surj_pair)
    then show ?thesis
    proof cases
      case 1 then show ?thesis using step by simp
    next
      case 2
      note IH = less.hyps [of "Suc retries" free]
      show ?thesis
        using step 2 False stays [OF 2] IH by (auto simp: Let_def split: if_splits sum.splits)
    next
      case 3
      show ?thesis
      proof (cases "contains (worker_error_text ev e) ''RECITATION'' \<and> \<not> free")
        case True
        then have r: "recited ev got s1" using raw_recited [OF assms 3] by blast
        note IH = less.hyps [of "if Suc retries = 3 then retries else Suc retries" True]
        show ?thesis using step 3 False True r IH by (auto split: if_splits)
      next
        case here: False
        note IH = less.hyps [of "Suc retries" free]
        show ?thesis using step 3 False stays [OF 3] IH here by (simp split: if_splits)
      qed
    qed
  qed
qed

definition sound_output :: "bool \<Rightarrow> json \<Rightarrow> bool" where
  "sound_output waived out \<longleftrightarrow> (\<exists>fs ds n text. out = worker_output fs ds text n \<and> text \<noteq> [] \<and>
     (fs \<noteq> [] \<longrightarrow> 0 < n \<and> (validate_inline_format text = Inr () \<or> waived)))"

text \<open>\<open>W\<close>: the states in which a report may lack its form.\<close>

definition report_waived :: "'w env \<Rightarrow> ('w worker_state \<Rightarrow> bool) \<Rightarrow> bool" where
  "report_waived ev W \<longleftrightarrow> (\<forall>cf sys user active t s text u s'.
     write_report ev cf sys user 0 False active t s = Some (Inr (text, u), s') \<longrightarrow>
     text = [] \<or> validate_inline_format text = Inr () \<or> W s')"

lemma report_waivers:
  "report_waived ev (\<lambda>_. True)" "logs_answers ev got \<Longrightarrow> report_waived ev (recited ev got)"
proof -
  show "report_waived ev (\<lambda>_. True)" by (simp add: report_waived_def)
  assume "logs_answers ev got"
  from report_form [OF this, where retries = 0 and free = False] show "report_waived ev (recited ev got)"
    by (simp add: report_waived_def)
qed

definition sound_result :: "('w worker_state \<Rightarrow> bool) \<Rightarrow> WorkerResult \<Rightarrow> 'w worker_state \<Rightarrow> bool" where
  "sound_result W r s \<longleftrightarrow>
     (\<exists>out. wr_output r = Some out \<and> sound_output (W s) out) \<and> wr_error r = None \<and> wr_history r = ws_history s"

lemma completed_yields: "(\<And>w. sound_output w out) \<Longrightarrow> yields (sound_result W) (completed out t)"
  by (simp add: yields_def completed_def sound_result_def)

lemma nothing_found: "sound_output w (worker_output [] ds no_issues n)" "sound_output w (worker_output [] ds no_issues_zh n)"
  unfolding sound_output_def no_issues_def no_issues_zh_def by blast+

text \<open>What comes after a step may depend on the state the step left.\<close>

lemma yields_bind_at:
  "yields P m \<Longrightarrow> (\<And>x s y s'. P x s \<Longrightarrow> f x s = Some (Inr y, s') \<Longrightarrow> Q y s') \<Longrightarrow> yields Q (act_bind m f)"
  unfolding yields_def act_bind_def by (fastforce split: option.splits sum.splits)

lemma report_yields:
  assumes "report_waived ev W"
  shows "yields (\<lambda>(text, _) s. text \<noteq> [] \<and> (validate_inline_format text = Inr () \<or> W s)) (report_stage ev cf rx fs t)"
proof -
  have form: "yields (\<lambda>(text, _) s. text = [] \<or> validate_inline_format text = Inr () \<or> W s)
      (write_report ev cf sys user 0 False active t)" for sys user active t
    unfolding yields_def split_def using assms [unfolded report_waived_def] by (metis prod.collapse)
  show ?thesis unfolding report_stage_def Let_def
    by (rule yields_then, rule yields_bind_at [OF form]) (auto simp: act_ret_def act_fail_def split: if_splits)
qed

lemma conclude_yields:
  assumes "report_waived ev W"
  shows "yields (sound_result W) (conclude ev cf rx c)"
proof -
  have 1: "yields (sound_result W) (after_verification ev cf rx n ds fs t)" if "0 < n" for n ds fs t
    unfolding after_verification_def
  proof (cases "fs = []")
    case True then show "yields (sound_result W) (if fs = [] then completed (worker_output [] ds no_issues_zh n) t
        else act_bind (report_stage ev cf rx fs t) (\<lambda>(report, t). completed (worker_output fs ds report n) t))"
      by (simp add: completed_yields nothing_found)
  next
    case False
    have "sound_output w (worker_output fs ds report n)"
      if "report \<noteq> [] \<and> (validate_inline_format report = Inr () \<or> w)" for report w
      unfolding sound_output_def using that \<open>0 < n\<close> by blast
    then show "yields (sound_result W) (if fs = [] then completed (worker_output [] ds no_issues_zh n) t
        else act_bind (report_stage ev cf rx fs t) (\<lambda>(report, t). completed (worker_output fs ds report n) t))"
      unfolding if_not_P [OF False]
      by (intro yields_bind_at [OF report_yields [OF assms]]) (auto simp: completed_def sound_result_def)
  qed
  have 2: "yields (sound_result W) (after_resolution ev cf rx n ds cs t)" if "0 < n" for n ds cs t
    unfolding after_resolution_def split_def
    by (cases "cs = []") (simp_all add: completed_yields nothing_found yields_then 1 [OF that])
  have 3: "yields (sound_result W) (after_deduplication ev cf rx n ds cs t)" if "0 < n" for n ds cs t
    unfolding after_deduplication_def split_def
    by (cases "cs = []") (simp_all add: completed_yields nothing_found yields_then 2 [OF that])
  show ?thesis unfolding conclude_def split_def
    by (cases "cn_concerns c = []") (simp_all add: completed_yields nothing_found yields_then 3)
qed

lemma run_yields: "report_waived ev W \<Longrightarrow> yields (sound_result W) (worker_run ev cf patchset)"
  unfolding worker_run_def Let_def split_def by (intro yields_then conclude_yields)

text \<open>C14. What a review that succeeds gives to the service: findings, dismissed concerns, their number, and a
  report that is never empty. When there are findings, stages 1 to 7 had raised concerns, and the report
  passed the check of its format, unless the provider refused an answer of this very run for recitation (\<open>got\<close> is any
  record of the provider's answers that was empty when the run began). The history it returns
  is what the worker remembers, and it starts with what the worker remembered before.\<close>

theorem result_sound:
  assumes "logs_answers ev got" "got (ws_world s) = []" "worker_run ev cf patchset s = Some (Inr r, s')"
  shows "\<exists>out fs ds n text. wr_output r = Some out \<and> wr_error r = None \<and>
    get_array out ''findings'' = Some fs \<and> get_array out ''dismissed_concerns'' = Some ds \<and>
    jget out ''concerns_count'' = Some (JInt (int n)) \<and>
    jget out ''dismissed_concerns_count'' = Some (JInt (int (length ds))) \<and>
    get_str out ''review_inline'' = Some text \<and> text \<noteq> [] \<and>
    (fs \<noteq> [] \<longrightarrow> 0 < n \<and>
      (validate_inline_format text = Inr () \<or>
       (\<exists>e. Inl e \<in> set (got (ws_world s')) \<and> contains (ev_show_error ev e) ''RECITATION''))) \<and>
    wr_history r = ws_history s' \<and> prefix (ws_history s) (ws_history s')"
proof -
  from run_yields [OF report_waivers(2) [OF assms(1)]] assms(3) have "sound_result (recited ev got) r s'"
    unfolding yields_def by blast
  then obtain out fs ds n report where "wr_output r = Some out" "wr_error r = None" "wr_history r = ws_history s'"
    "out = worker_output fs ds report n" "report \<noteq> []"
    "fs \<noteq> [] \<longrightarrow> 0 < n \<and> (validate_inline_format report = Inr () \<or> recited ev got s')"
    unfolding sound_result_def sound_output_def by blast
  moreover have "prefix (ws_history s) (ws_history s')"
    using remembered.run_within [where ev = ev and cf = cf and patchset = patchset] assms(3)
    by (auto simp: act_within_def dest!: spec [of _ s])
  moreover have "get_array (worker_output fs ds report n) ''findings'' = Some fs"
    "get_array (worker_output fs ds report n) ''dismissed_concerns'' = Some ds"
    "jget (worker_output fs ds report n) ''concerns_count'' = Some (JInt (int n))"
    "jget (worker_output fs ds report n) ''dismissed_concerns_count'' = Some (JInt (int (length ds)))"
    "get_str (worker_output fs ds report n) ''review_inline'' = Some report" for fs ds report n
    by (simp_all add: worker_output_def get_array_def get_str_def)
  ultimately show ?thesis unfolding recited_def
    by (intro exI [of _ out] exI [of _ fs] exI [of _ ds] exI [of _ n] exI [of _ report]) simp
qed

text \<open>A provider that finds a leak: it always answers with the same report, which is also read as the JSON of every stage;
  the world is the list of its answers.\<close>

definition leak_report :: string where
  "leak_report = join [newline] [''commit abc'', ''Author: A'', ''> x'', ''why?'']"

definition leak_json :: json where
  "leak_json = JObj [(''concerns'', JArr [JStr ''leak'']), (''dismissed_concerns'', JArr []), (''findings'', JArr [JStr ''leak''])]"

definition leak_answer :: AiResponse where
  "leak_answer = \<lparr>rs_content = Some leak_report, rs_thought = None, rs_thought_signature = None, rs_tool_calls = None,
     rs_usage = None\<rparr>"

definition leak_env :: "((AiError + AiResponse) list) env" where
  "leak_env =
     \<lparr>ev_os = silent_os, ev_bpe = (\<lambda>_. 1), ev_generate = (\<lambda>r w. (Inr leak_answer, w @ [Inr leak_answer])),
      ev_estimate = (\<lambda>r. 0), ev_context_window = 1000, ev_from_str = (\<lambda>_. Some leak_json),
      ev_to_string = (\<lambda>_. []), ev_pretty = (\<lambda>_. []), ev_parse_error = (\<lambda>_. []), ev_exists = (\<lambda>_ _. False),
      ev_show_error = (\<lambda>_. []), ev_prefetch = (\<lambda>_ _ _. None), ev_date = ''today''\<rparr>"

definition leak_config :: worker_config where
  "leak_config = silent_config\<lparr>wc_stages := Some [2], wc_context_tag := context_tag (JObj [])\<rparr>"

text \<open>A step that returns, from any state, something with the property \<open>P\<close>.\<close>

definition gives :: "('a \<Rightarrow> bool) \<Rightarrow> ('w, 'a) act \<Rightarrow> bool" where
  "gives P m \<longleftrightarrow> (\<forall>s. \<exists>x s'. m s = Some (Inr x, s') \<and> P x)"

lemma gives_ret: "P x \<Longrightarrow> gives P (act_ret x)" "P x \<Longrightarrow> gives P (\<lambda>s. Some (Inr x, s))"
  by (simp_all add: gives_def act_ret_def)

lemma gives_try:
  assumes "gives P m" "\<And>x. P x \<Longrightarrow> gives Q (f x)"
  shows "gives Q (act_try m f g)" "gives Q (act_bind m f)"
proof -
  have "\<exists>x s1. m s = Some (Inr x, s1) \<and> (\<exists>y s'. f x s1 = Some (Inr y, s') \<and> Q y)" for s
    using assms(1) assms(2) [unfolded gives_def] unfolding gives_def by blast
  then show "gives Q (act_try m f g)" "gives Q (act_bind m f)"
    unfolding gives_def act_try_def act_bind_def by (metis (no_types, lifting) case_prod_conv option.simps(5) sum.simps(6))+
qed

lemmas gives_bind = gives_try(2)

lemma leak_raw: "gives (\<lambda>x. x = (leak_report, (0, 0, 0))) (run_ai_stage_raw leak_env leak_config k sys user)"
proof -
  have two: "wc_max_interactions leak_config = Suc (Suc 0)" by (simp add: leak_config_def silent_config_def)
  have turn: "gives (\<lambda>x. x = (leak_report, (0, 0, 0))) (turns leak_env leak_config k p (Suc n) ms (0, 0, 0))" for p n ms
    by (simp add: gives_def truncate_request_to_input_budget_def act_bind_def act_lift_def ask_provider_def leak_env_def
        leak_answer_def add_tokens_def act_ret_def Let_def)
  show ?thesis unfolding run_ai_stage_raw_def Let_def two using turn unfolding gives_def by blast
qed

lemma leak_stage: "gives (\<lambda>x. x = (leak_json, (0, 0, 0))) (run_ai_stage leak_env leak_config k sys user)"
  unfolding run_ai_stage_def
  by (rule gives_bind [OF leak_raw]) (simp add: gives_ret parse_answer_def leak_env_def)

lemma leak_prompt: "k \<in> {2, 8, 9, 10, 11} \<Longrightarrow> gives (\<lambda>_. True) (get_stage_prompt leak_env leak_config k)"
  by (auto simp: gives_def get_stage_prompt_def stage_files_def act_bind_def act_ret_def append_files.simps append_file_def
      leak_env_def Let_def)

lemma leak_late: "gives (\<lambda>x. x = (leak_json, (0, 0, 0))) (late_stage leak_env leak_config rx k p)"
  unfolding late_stage_def by (rule gives_try(1) [OF leak_stage]) (simp add: gives_ret)

lemma leak_arrays:
  "stage_array k ''concerns'' leak_json = Inr [JStr ''leak'']" "stage_array k ''dismissed_concerns'' leak_json = Inr []"
  "stage_array k ''findings'' leak_json = Inr [JStr ''leak'']"
  by (simp_all add: stage_array_def leak_json_def)

lemma leak_analysis:
  "gives (\<lambda>c. cn_concerns c \<noteq> []) (analysis_stages leak_env leak_config rx None [1, 2, 3, 4, 5, 6, 7]
     \<lparr>cn_concerns = [], cn_dismissed = [], cn_tokens = t\<rparr>)"
proof -
  have items: "required_stage_arrays leak_json = Inr ([JStr ''leak''], [])"
    by (simp add: required_stage_arrays_def leak_json_def get_array_def)
  have inner: "gives (\<lambda>(ok, c). ok \<and> cn_concerns c \<noteq> [])
      (inner_attempts leak_env leak_config 2 sys user 3 active \<lparr>cn_concerns = [], cn_dismissed = [], cn_tokens = t\<rparr>)"
    for sys user active
    unfolding numeral_3_eq_3 inner_attempts.simps
    by (rule gives_try(1) [OF leak_stage]) (simp add: items gives_ret add_items_def count_tokens_def append_stage_items_def
        normalize_stage_item_def List.map_filter_simps)
  have outer: "gives (\<lambda>c. cn_concerns c \<noteq> [])
      (outer_attempts leak_env leak_config 2 sys user 3 \<lparr>cn_concerns = [], cn_dismissed = [], cn_tokens = t\<rparr>)" for sys user
    unfolding numeral_3_eq_3 outer_attempts.simps
    by (rule gives_bind [OF inner [unfolded numeral_3_eq_3]]) (auto intro: gives_ret)
  have "gives (\<lambda>c. cn_concerns c \<noteq> []) (analysis_stage leak_env leak_config rx 2
      \<lparr>cn_concerns = [], cn_dismissed = [], cn_tokens = t\<rparr>)"
    unfolding analysis_stage_def by (rule gives_bind [OF leak_prompt]) (simp_all add: outer)
  moreover have "stage_runs leak_config None k \<longleftrightarrow> k = 2" for k
    by (simp add: stage_runs_def leak_config_def)
  ultimately show ?thesis by (auto intro!: gives_bind gives_ret)
qed

lemma leak_conclude:
  assumes "cn_concerns c \<noteq> []"
  shows "gives (\<lambda>r. \<exists>ds n. wr_output r = Some (worker_output [JStr ''leak''] ds leak_report n)) (conclude leak_env leak_config rx c)"
proof -
  have fine: "validate_inline_format leak_report = Inr ()" by code_simp
  have some: "leak_report \<noteq> []" by code_simp
  have told: "gives (\<lambda>x. fst x = leak_report) (write_report leak_env leak_config sys user 0 False active t)" for sys user active t
    unfolding gives_def
  proof
    fix s
    obtain s' where "run_ai_stage_raw leak_env leak_config 11 sys active s = Some (Inr (leak_report, (0, 0, 0)), s')"
      using leak_raw [of 11 sys active] unfolding gives_def by blast
    then show "\<exists>x s'. write_report leak_env leak_config sys user 0 False active t s = Some (Inr x, s') \<and> fst x = leak_report"
      by (subst write_report.simps) (simp add: fine Let_def)
  qed
  have report: "gives (\<lambda>x. fst x = leak_report) (report_stage leak_env leak_config rx fs t)" for fs t
    unfolding report_stage_def Let_def
    by (rule gives_bind [OF leak_prompt], simp, rule gives_bind [OF told], unfold split_def) (simp add: some gives_ret)
  have verify: "gives (\<lambda>x. fst x = [JStr ''leak'']) (verify_concerns leak_env leak_config rx cs)" for cs
  proof -
    have "gives (\<lambda>_. True) (series_context leak_env leak_config)"
      by (simp add: gives_def series_context_def leak_config_def silent_config_def)
    note series = gives_bind [OF this]
    show ?thesis unfolding verify_concerns_def Let_def
      by (rule gives_bind [OF leak_prompt], simp, rule series, rule gives_bind [OF leak_late])
        (simp add: leak_arrays gives_ret)
  qed
  have resolve: "gives (\<lambda>x. fst x = [JStr ''leak'']) (resolve_conflicts leak_env leak_config rx i)" for i
    unfolding resolve_conflicts_def Let_def
    by (rule gives_bind [OF leak_prompt], simp, rule gives_bind [OF leak_late]) (simp add: leak_arrays gives_ret)
  have dedup: "gives (\<lambda>x. fst (fst x) = [JStr ''leak'']) (deduplicate leak_env leak_config rx c)" for c
    unfolding deduplicate_def Let_def
    by (rule gives_bind [OF leak_prompt], simp, rule gives_bind [OF leak_late]) (simp add: leak_arrays gives_ret)
  have 1: "gives (\<lambda>r. \<exists>ds n. wr_output r = Some (worker_output [JStr ''leak''] ds leak_report n))
      (after_verification leak_env leak_config rx n ds [JStr ''leak''] t)" for n ds t
    unfolding after_verification_def split_def
    by (simp, rule gives_bind [OF report]) (auto simp: gives_def completed_def)
  have 2: "gives (\<lambda>r. \<exists>ds n. wr_output r = Some (worker_output [JStr ''leak''] ds leak_report n))
      (after_resolution leak_env leak_config rx n ds [JStr ''leak''] t)" for n ds t
    unfolding after_resolution_def split_def by (simp, rule gives_bind [OF verify]) (simp add: 1)
  have 3: "gives (\<lambda>r. \<exists>ds n. wr_output r = Some (worker_output [JStr ''leak''] ds leak_report n))
      (after_deduplication leak_env leak_config rx n ds [JStr ''leak''] t)" for n ds t
    unfolding after_deduplication_def split_def by (simp, rule gives_bind [OF resolve]) (simp add: 2)
  show ?thesis
    unfolding conclude_def split_def using assms by (simp, intro gives_bind [OF dedup]) (simp add: 3)
qed

theorem result_sound_witness:
  "\<exists>r s' out fs text. worker_run leak_env leak_config (JObj []) \<lparr>ws_history = [], ws_world = []\<rparr> = Some (Inr r, s') \<and>
     wr_output r = Some out \<and> get_array out ''findings'' = Some fs \<and> fs \<noteq> [] \<and>
     get_str out ''review_inline'' = Some text \<and>
     (validate_inline_format text = Inr () \<or> (\<exists>e. Inl e \<in> set (ws_world s')))"
proof -
  have tag: "leak_config\<lparr>wc_context_tag := context_tag (JObj [])\<rparr> = leak_config" by (simp add: leak_config_def)
  have "gives (\<lambda>r. \<exists>ds n. wr_output r = Some (worker_output [JStr ''leak''] ds leak_report n))
      (worker_run leak_env leak_config (JObj []))"
  proof -
    have sel: "gives (\<lambda>_. True) (select_prompts leak_env leak_config d t)" for d t
    proof -
      have "select_prompts leak_env leak_config d t = (\<lambda>s. Some (Inr (None, t), s))"
        by (simp add: fun_eq_iff select_prompts_def leak_env_def Let_def)
      then show ?thesis by (simp only: gives_ret)
    qed
    have dir: "gives (\<lambda>_. True) (append_directory leak_env base sub keep b)" for base sub keep b
      by (simp add: gives_def append_directory_def leak_env_def Let_def)
    have ctx: "gives (\<lambda>_. True) (build_context leak_env leak_config p)" for p
      unfolding build_context_def Let_def split_def by (intro gives_bind [OF dir] gives_ret) simp
    have look: "gives (\<lambda>_. True) (\<lambda>s. Some (Inr (h s), s))" for h :: "_ \<Rightarrow> string option"
      by (simp add: gives_def)
    have plan: "gives (\<lambda>x. fst x = None) (plan_stages leak_env leak_config d t)" for d t
      by (simp add: plan_stages_def leak_config_def gives_ret)
    show ?thesis unfolding worker_run_def Let_def split_def tag
    proof (intro gives_bind [OF sel] gives_bind [OF ctx] gives_bind [OF look] gives_bind [OF plan])
      fix pt :: "nat list option \<times> tokens" and rx assume "fst pt = None"
      then show "gives (\<lambda>r. \<exists>ds n. wr_output r = Some (worker_output [JStr ''leak''] ds leak_report n))
          (act_bind (analysis_stages leak_env leak_config rx (fst pt) [1, 2, 3, 4, 5, 6, 7]
             \<lparr>cn_concerns = [], cn_dismissed = [], cn_tokens = snd pt\<rparr>) (conclude leak_env leak_config rx))"
        using gives_bind [OF leak_analysis leak_conclude] by simp
    qed
  qed
  then obtain r s' ds n where run: "worker_run leak_env leak_config (JObj []) \<lparr>ws_history = [], ws_world = []\<rparr> = Some (Inr r, s')"
    and out: "wr_output r = Some (worker_output [JStr ''leak''] ds leak_report n)"
    unfolding gives_def by blast
  have logs: "logs_answers leak_env (\<lambda>w. w)"
    by (simp add: logs_answers_def untouched_def leak_env_def silent_os_def)
  from result_sound [OF logs _ run] run out show ?thesis
    by (auto simp: worker_output_def get_array_def get_str_def)
qed

subsection \<open>Errors that must not be retried\<close>

text \<open>What becomes of the error that says not to try again: when every exchange runs into the limit of
  turns, a stage of the analysis gives the error back after one attempt, but the report is asked for three
  times, and its result is the empty text (which then is an error without a class).\<close>

theorem limit_retried:
  assumes "\<And>stage user s. run_ai_stage_raw ev cf stage sys user s = Some (Inl (Review LimitExceeded), f user s)"
  shows "outer_attempts ev cf stage sys user 3 c s = Some (Inl (Review LimitExceeded), f user s) \<and>
    write_report ev cf sys user 0 False user t s = Some (Inr ([], t), f user (f user (f user s)))"
proof
  show "outer_attempts ev cf stage sys user 3 c s = Some (Inl (Review LimitExceeded), f user s)"
    by (simp add: numeral_3_eq_3 act_bind_def act_try_def act_fail_def run_ai_stage_def assms)
  have "\<not> contains (worker_error_text ev (Review LimitExceeded)) ''RECITATION''"
    by (simp add: worker_error_text_def) code_simp
  then have again: "write_report ev cf sys user n False user t s =
      write_report ev cf sys user (Suc n) False user t (f user s)" if "n < 3" for n s
    using that by (subst write_report.simps) (simp add: assms)
  show "write_report ev cf sys user 0 False user t s = Some (Inr ([], t), f user (f user (f user s)))"
    by (simp add: again write_report.simps [of _ _ _ _ "Suc (Suc (Suc 0))"])
qed

theorem limit_retried_witness:
  "\<exists>f. outer_attempts silent_env (silent_config\<lparr>wc_max_interactions := 0\<rparr>) 1 ([], []) ([], []) 3 \<lparr>cn_concerns = [], cn_dismissed = [], cn_tokens = (0, 0, 0)\<rparr>
       \<lparr>ws_history = [text_message User []], ws_world = []\<rparr> =
      Some (Inl (Review LimitExceeded), f \<lparr>ws_history = [text_message User []], ws_world = []\<rparr>) \<and>
     write_report silent_env (silent_config\<lparr>wc_max_interactions := 0\<rparr>) ([], []) ([], []) 0 False ([], []) (0, 0, 0)
       \<lparr>ws_history = [text_message User []], ws_world = []\<rparr> = Some (Inr ([], (0, 0, 0)), f (f (f \<lparr>ws_history = [text_message User []], ws_world = []\<rparr>)))"
proof -
  let ?cf = "silent_config\<lparr>wc_max_interactions := 0\<rparr>"
  let ?f = "\<lambda>user s. remember [text_message User (snd user)]
    (if ws_history s = [] then remember [text_message System []] s else s)"
  have "run_ai_stage_raw silent_env ?cf stage ([], []) user s = Some (Inl (Review LimitExceeded), ?f user s)" for stage user s
    by (simp add: run_ai_stage_raw_def act_fail_def Let_def)
  from limit_retried [where f = ?f, OF this]
  show ?thesis by (intro exI [of _ "?f ([], [])"])
qed

end
