(* ===== verification/Review_Bin.thy ===== *)
theory Review_Bin
  imports Git_Ops Worker_Props
begin

text \<open>
  The program that reviews one patchset (\<open>src/bin/review.rs\<close>): it applies the patches in a work tree, runs the
  review worker up to three times and prints one JSON line for the service. Reading the command line,
  the settings and the line on standard input is outside; their values are arguments. A panic is \<open>None\<close>.
\<close>

subsection \<open>Arguments\<close>

record Args =
  ar_baseline :: "string option"
  ar_worktree_dir :: "path option"
  ar_prompts :: path
  ar_review_patch_index :: "int option"
  ar_review_commit :: "string option"
  ar_no_ai :: bool
  ar_reuse_worktree :: "path option"
  ar_custom_prompt :: "string option"
  ar_stages :: "nat list option"

record AiSettings =
  as_repository_path :: path
  as_max_input_tokens :: nat
  as_max_interactions :: nat
  as_temperature :: string

subsection \<open>Applying a patch\<close>

text \<open>What is known of the applied patches; the latest entry of an index counts.\<close>

record applied =
  ap_shas :: "(int \<times> string) list"
  ap_shows :: "(int \<times> string) list"
  ap_messages :: "(int \<times> string) list"
  ap_results :: "json list"

definition nothing_applied :: applied where
  "nothing_applied = \<lparr>ap_shas = [], ap_shows = [], ap_messages = [], ap_results = []\<rparr>"

definition add_result :: "int \<Rightarrow> (string \<times> json) list \<Rightarrow> applied \<Rightarrow> applied" where
  "add_result i ms a = a\<lparr>ap_results := ap_results a @ [JObj ((''index'', JInt i) # ms)]\<rparr>"

text \<open>What git shows of a commit, where it shows it.\<close>

definition note_show :: "'w host \<Rightarrow> GitWorktree \<Rightarrow> int \<Rightarrow> string \<Rightarrow> applied \<Rightarrow> 'w \<Rightarrow> applied \<times> 'w" where
  "note_show ho t i sha a w =
     (case get_commit_show ho t sha w of
        (Inl _, w') \<Rightarrow> (a, w') | (Inr s, w') \<Rightarrow> (a\<lparr>ap_shows := (i, s) # ap_shows a\<rparr>, w'))"

definition note_message :: "'w host \<Rightarrow> GitWorktree \<Rightarrow> int \<Rightarrow> string \<Rightarrow> applied \<Rightarrow> 'w \<Rightarrow> applied \<times> 'w" where
  "note_message ho t i sha a w =
     (case get_commit_message ho t sha w of
        (Inl _, w') \<Rightarrow> (a, w') | (Inr s, w') \<Rightarrow> (a\<lparr>ap_messages := (i, s) # ap_messages a\<rparr>, w'))"

definition note_sha :: "int \<Rightarrow> string \<Rightarrow> applied \<Rightarrow> applied" where
  "note_sha i sha a = a\<lparr>ap_shas := (i, sha) # ap_shas a\<rparr>"

definition note_commit :: "'w host \<Rightarrow> GitWorktree \<Rightarrow> int \<Rightarrow> string \<Rightarrow> applied \<Rightarrow> 'w \<Rightarrow> applied \<times> 'w" where
  "note_commit ho t i sha a w = (let (a, w) = note_show ho t i sha a w in note_message ho t i sha a w)"

definition checkout_patch :: "'w host \<Rightarrow> GitWorktree \<Rightarrow> int \<Rightarrow> string \<Rightarrow> applied \<Rightarrow> 'w \<Rightarrow> (bool \<times> applied) \<times> 'w" where
  "checkout_patch ho t i sha a w =
     (case reset_hard ho t sha w of
        (Inr _, w) \<Rightarrow>
          (let (a, w) = note_commit ho t i sha a w
           in ((True, add_result i [(''status'', JStr ''applied''), (''method'', JStr ''checkout'')] (note_sha i sha a)), w))
      | (Inl e, w) \<Rightarrow>
          ((False, add_result i [(''status'', JStr ''error''), (''method'', JStr ''checkout''), (''error'', JStr e)] a), w))"

definition date_text :: "'w host \<Rightarrow> int option \<Rightarrow> 'w \<Rightarrow> string \<times> 'w" where
  "date_text ho d w =
     (case d of
        None \<Rightarrow> ([], w)
      | Some ts \<Rightarrow>
          (let (r, w) = ho_run ho \<lparr>cm_program = ''date'', cm_dir = [], cm_env = [],
                 cm_args = [''-R'', ''-d'', CHR ''@'' # show_int ts], cm_stdin = None\<rparr> w
           in (case r of Inl _ \<Rightarrow> [] | Inr out \<Rightarrow> if out_success out then trim (out_stdout out) else [], w)))"

definition mbox_text :: "string \<Rightarrow> string \<Rightarrow> string \<Rightarrow> string \<Rightarrow> string" where
  "mbox_text author date subject diff =
     ''From: '' @ author @ [newline] @ ''Date: '' @ date @ [newline] @ ''Subject: '' @ subject @ [newline, newline] @ diff @ [newline]"

text \<open>\<open>git am\<close> of the patch as a mail, when author and subject are known: done, or the text of its error.\<close>

definition mail_patch :: "'w host \<Rightarrow> GitWorktree \<Rightarrow> PatchInput \<Rightarrow> applied \<Rightarrow> 'w \<Rightarrow> (string + applied) \<times> 'w" where
  "mail_patch ho t p a w =
     (case (pi_author p, pi_subject p) of
        (Some author, Some subject) \<Rightarrow>
          (let (date, w) = date_text ho (pi_date p) w
           in case apply_patch ho t (mbox_text author date subject (pi_diff p)) w of
                (Inl e, w) \<Rightarrow> (Inl e, w)
              | (Inr _, w) \<Rightarrow>
                  (let (a, w) = (case get_commit_hash ho (gw_path t) ''HEAD'' w of
                         (Inl _, w) \<Rightarrow> (a, w)
                       | (Inr sha, w) \<Rightarrow> note_commit ho t (pi_index p) sha (note_sha (pi_index p) sha a) w)
                   in (Inr (add_result (pi_index p) [(''status'', JStr ''applied''), (''method'', JStr ''git-am'')] a), w)))
      | _ \<Rightarrow> (Inl [], w))"

definition jtext :: "string option \<Rightarrow> json" where
  "jtext s = (case s of None \<Rightarrow> JNull | Some t \<Rightarrow> JStr t)"

definition raw_patch :: "'w host \<Rightarrow> GitWorktree \<Rightarrow> PatchInput \<Rightarrow> string \<Rightarrow> applied \<Rightarrow> 'w \<Rightarrow> (bool \<times> applied) \<times> 'w" where
  "raw_patch ho t p am_error a w =
     (let am = (''am_error'', jtext (if am_error = [] then None else Some am_error))
      in case apply_raw_diff ho t (pi_diff p) w of
           (Inr out, w) \<Rightarrow>
             ((out_success out, add_result (pi_index p)
                 [(''status'', JStr (if out_success out then ''applied'' else ''failed'')), (''method'', JStr ''git-apply''),
                  (''stdout'', JStr (out_stdout out)), (''stderr'', JStr (trim (out_stderr out))),
                  (''exit_code'', case ex_code out of None \<Rightarrow> JNull | Some n \<Rightarrow> JInt n), am] a), w)
         | (Inl e, w) \<Rightarrow>
             ((False, add_result (pi_index p)
                 [(''status'', JStr ''error''), (''method'', JStr ''git-apply''), (''error'', JStr e), am] a), w))"

definition looks_like_sha :: "string \<Rightarrow> bool" where
  "looks_like_sha s \<longleftrightarrow> length s = 40 \<and> list_all is_hexdigit s"

definition apply_single_patch :: "'w host \<Rightarrow> GitWorktree \<Rightarrow> PatchInput \<Rightarrow> applied \<Rightarrow> 'w \<Rightarrow> (bool \<times> applied) \<times> 'w" where
  "apply_single_patch ho t p a w =
     (case pi_commit_id p of
        Some sha \<Rightarrow> checkout_patch ho t (pi_index p) sha a w
      | None \<Rightarrow>
          (case pi_message_id p of
             Some sha \<Rightarrow>
               if looks_like_sha sha then checkout_patch ho t (pi_index p) sha a w
               else (case mail_patch ho t p a w of
                       (Inr a, w) \<Rightarrow> ((True, a), w) | (Inl e, w) \<Rightarrow> raw_patch ho t p e a w)
           | None \<Rightarrow>
               (case mail_patch ho t p a w of
                  (Inr a, w) \<Rightarrow> ((True, a), w) | (Inl e, w) \<Rightarrow> raw_patch ho t p e a w)))"

text \<open>All patches are tried, also after one that does not apply.\<close>

fun apply_all :: "'w host \<Rightarrow> GitWorktree \<Rightarrow> PatchInput list \<Rightarrow> applied \<Rightarrow> 'w \<Rightarrow> (bool \<times> applied) \<times> 'w" where
  "apply_all ho t [] a w = ((True, a), w)"
| "apply_all ho t (p # ps) a w =
     (let ((success, a), w) = apply_single_patch ho t p a w; ((rest, a), w) = apply_all ho t ps a w
      in ((success \<and> rest, a), w))"

text \<open>The second pass up to the patch under review stops at the first patch that does not apply.\<close>

fun apply_up_to :: "'w host \<Rightarrow> GitWorktree \<Rightarrow> PatchInput list \<Rightarrow> applied \<Rightarrow> 'w \<Rightarrow> bool \<times> 'w" where
  "apply_up_to ho t [] a w = (True, w)"
| "apply_up_to ho t (p # ps) a w =
     (let ((success, a), w) = apply_single_patch ho t p a w
      in if success then apply_up_to ho t ps a w else (False, w))"

subsection \<open>The review\<close>

definition tool_worker_config :: "Args \<Rightarrow> AiSettings \<Rightarrow> path \<Rightarrow> string option \<Rightarrow> worker_config" where
  "tool_worker_config args st tree_path series_range =
     \<lparr>wc_tools = \<lparr>worktree_path = tree_path, prompts_path = Some [''third_party'', ''prompts'', ''kernel'', ''tool.md'']\<rparr>,
      wc_base_dir = ar_prompts args, wc_max_input_tokens = as_max_input_tokens st,
      wc_max_interactions = as_max_interactions st, wc_temperature = as_temperature st,
      wc_series_range = series_range, wc_context_tag = [], wc_stages = ar_stages args\<rparr>"

fun rich_patches :: "'w host \<Rightarrow> applied \<Rightarrow> PatchInput list \<Rightarrow> 'w \<Rightarrow> json list \<times> 'w" where
  "rich_patches ho a [] w = ([], w)"
| "rich_patches ho a (p # ps) w =
     (let (date, w) = date_text ho (pi_date p) w; (js, w) = rich_patches ho a ps w
      in (JObj [(''subject'', jtext (pi_subject p)), (''author'', jtext (pi_author p)), (''date_string'', JStr date),
                (''diff'', JStr (pi_diff p)), (''commit_id'', jtext (map_of (ap_shas a) (pi_index p))),
                (''git_show'', jtext (map_of (ap_shows a) (pi_index p))),
                (''commit_message_full'', jtext (map_of (ap_messages a) (pi_index p)))] # js, w))"

text \<open>The head of every line the program prints.\<close>

definition result_json :: "ReviewInput \<Rightarrow> string \<Rightarrow> applied \<Rightarrow> (string \<times> json) list \<Rightarrow> json" where
  "result_json input baseline a ms =
     JObj ([(''patchset_id'', JInt (ri_id input)), (''baseline'', JStr baseline), (''patches'', JArr (ap_results a))] @ ms)"

definition token_fields :: "tokens \<Rightarrow> (string \<times> json) list" where
  "token_fields t =
     [(''tokens_in'', JInt (uint (fst t))), (''tokens_out'', JInt (uint (fst (snd t)))),
      (''tokens_cached'', JInt (uint (snd (snd t))))]"

definition review_fields :: "WorkerResult \<Rightarrow> string option \<Rightarrow> (string \<times> json) list" where
  "review_fields r inline =
     [(''review'', case wr_output r of None \<Rightarrow> JNull | Some v \<Rightarrow> v), (''error'', jtext (wr_error r)),
      (''inline_review'', jtext inline), (''input_context'', JStr (wr_input_context r)),
      (''history'', JArr (List.map message_json (wr_history r)))] @ token_fields (wr_tokens r)"

fun review_attempts :: "'w env \<Rightarrow> worker_config \<Rightarrow> json \<Rightarrow> ((string \<times> json) list \<Rightarrow> json) \<Rightarrow> nat \<Rightarrow> 'w \<Rightarrow> (json \<times> 'w) option" where
  "review_attempts ev cf patchset result 0 w = Some (result [(''error'', JStr ''Internal error: Review loop finished without result'')], w)"
| "review_attempts ev cf patchset result (Suc left) w =
     (case worker_run ev cf patchset \<lparr>ws_history = [], ws_world = w\<rparr> of
        None \<Rightarrow> None
      | Some (Inr r, s) \<Rightarrow>
          (let inline_content = Option.bind (wr_output r) (\<lambda>v. get_str v ''review_inline'');
               has_findings = (case Option.bind (wr_output r) (\<lambda>v. get_array v ''findings'') of
                 Some fs \<Rightarrow> fs \<noteq> [] | None \<Rightarrow> False)
           in if has_findings \<and> inline_content = None \<and> left \<noteq> 0
              then review_attempts ev cf patchset result left (ws_world s)
              else Some (result (review_fields r inline_content), ws_world s))
      | Some (Inl e, s) \<Rightarrow>
          if left \<noteq> 0 then review_attempts ev cf patchset result left (ws_world s)
          else Some (result ([(''error'', JStr (worker_error_text ev e))] @ token_fields (0, 0, 0)), ws_world s))"

definition review_patchset :: "Args \<Rightarrow> ReviewInput \<Rightarrow> json list \<Rightarrow> json" where
  "review_patchset args input rich =
     JObj [(''id'', JInt (ri_id input)), (''subject'', JStr (ri_subject input)), (''patches'', JArr rich),
           (''patch_index'', case ar_review_patch_index args of None \<Rightarrow> JNull | Some i \<Rightarrow> JInt i)]"

definition start_review :: "'w host \<Rightarrow> 'w env \<Rightarrow> Args \<Rightarrow> AiSettings \<Rightarrow> ReviewInput \<Rightarrow> string \<Rightarrow> GitWorktree \<Rightarrow> applied \<Rightarrow>
    PatchInput list \<Rightarrow> ((string \<times> json) list \<Rightarrow> json) \<Rightarrow> 'w \<Rightarrow> (json \<times> 'w) option" where
  "start_review ho ev args st input baseline_sha t a patches_to_review result w =
     (if patches_to_review = []
      then Some (result ([(''review'', JNull), (''input_context'', JStr [])] @ token_fields (0, 0, 0)), w)
      else let (rich, w) = rich_patches ho a patches_to_review w;
               series_range = calculate_series_range (ri_patches input) patches_to_review (ap_shas a) baseline_sha
           in review_attempts ev (tool_worker_config args st (gw_path t) series_range)
                (review_patchset args input rich) result 3 w)"

definition patches_to_review :: "Args \<Rightarrow> ReviewInput \<Rightarrow> PatchInput list" where
  "patches_to_review args input =
     (if ar_no_ai args then []
      else case ar_review_patch_index args of
        Some i \<Rightarrow> filter (\<lambda>p. pi_index p = i) (ri_patches input)
      | None \<Rightarrow> ri_patches input)"

text \<open>Going back to the state after the patch under review: nothing is to do for the last one.\<close>

definition prepare_tree :: "'w host \<Rightarrow> Args \<Rightarrow> ReviewInput \<Rightarrow> string \<Rightarrow> GitWorktree \<Rightarrow> 'w \<Rightarrow> (string + unit) \<times> 'w" where
  "prepare_tree ho args input baseline_sha t w =
     (case (ar_review_commit args, ar_review_patch_index args) of
        (None, Some target_idx) \<Rightarrow>
          if target_idx < (case max_index (ri_patches input) of Some m \<Rightarrow> m | None \<Rightarrow> 0)
          then (case reset_hard ho t baseline_sha w of
                  (Inl e, w) \<Rightarrow> (Inl (''Failed to reset worktree: '' @ e), w)
                | (Inr _, w) \<Rightarrow>
                    (let (success, w) = apply_up_to ho t (filter (\<lambda>p. pi_index p \<le> target_idx) (ri_patches input)) nothing_applied w
                     in (if success then Inr () else Inl ''Inconsistent patch application (failed on re-apply)'', w)))
          else (Inr (), w)
      | _ \<Rightarrow> (Inr (), w))"

definition apply_patches :: "'w host \<Rightarrow> Args \<Rightarrow> ReviewInput \<Rightarrow> GitWorktree \<Rightarrow> 'w \<Rightarrow> (string + bool \<times> applied) \<times> 'w" where
  "apply_patches ho args input t w =
     (case ar_review_commit args of
        Some commit_hash \<Rightarrow>
          (case reset_hard ho t commit_hash w of
             (Inl e, w) \<Rightarrow> (Inl (''Failed to checkout target commit: '' @ e), w)
           | (Inr _, w) \<Rightarrow>
               (case ar_review_patch_index args of
                  None \<Rightarrow> (Inr (True, nothing_applied), w)
                | Some idx \<Rightarrow>
                    (let (a, w) = note_show ho t idx commit_hash (note_sha idx commit_hash nothing_applied) w
                     in (Inr (True, add_result idx [(''status'', JStr ''applied''), (''method'', JStr ''pre-applied'')] a), w))))
      | None \<Rightarrow> (let (r, w) = apply_all ho t (ri_patches input) nothing_applied w in (Inr r, w)))"

definition run_in_tree :: "'w host \<Rightarrow> 'w env \<Rightarrow> Args \<Rightarrow> AiSettings \<Rightarrow> ReviewInput \<Rightarrow> string \<Rightarrow> string \<Rightarrow> GitWorktree \<Rightarrow> 'w \<Rightarrow>
    (json \<times> 'w) option" where
  "run_in_tree ho ev args st input baseline baseline_sha t w =
     (case apply_patches ho args input t w of
        (Inl e, w) \<Rightarrow> Some (result_json input baseline nothing_applied [(''error'', JStr e)], w)
      | (Inr (all_applied, a), w) \<Rightarrow>
          (let result = result_json input baseline a
           in if \<not> all_applied then Some (result [(''error'', JStr ''Patch application failed'')], w)
              else case prepare_tree ho args input baseline_sha t w of
                (Inl e, w) \<Rightarrow> Some (result [(''error'', JStr e)], w)
              | (Inr _, w) \<Rightarrow>
                  start_review ho ev args st input baseline_sha t a (patches_to_review args input) result w))"

definition open_tree :: "'w host \<Rightarrow> Args \<Rightarrow> AiSettings \<Rightarrow> string \<Rightarrow> 'w \<Rightarrow> ((string + GitWorktree) \<times> 'w) option" where
  "open_tree ho args st baseline_sha w =
     (case ar_reuse_worktree args of
        Some p \<Rightarrow> map_option (\<lambda>(t, w). (Inr t, w)) (from_path ho p (as_repository_path st) w)
      | None \<Rightarrow> Some (new_worktree ho (as_repository_path st) baseline_sha (ar_worktree_dir args) w))"

text \<open>The run of the program: the line it prints.\<close>

definition review_main :: "'w host \<Rightarrow> 'w env \<Rightarrow> Args \<Rightarrow> AiSettings \<Rightarrow> ReviewInput \<Rightarrow> 'w \<Rightarrow> (json \<times> 'w) option" where
  "review_main ho ev args st input w =
     (let baseline = (case ar_baseline args of Some b \<Rightarrow> b | None \<Rightarrow> ''HEAD'');
          failed_with = (\<lambda>e. JObj [(''patchset_id'', JInt (ri_id input)), (''baseline'', JStr baseline), (''error'', JStr e)])
      in case get_commit_hash ho (as_repository_path st) baseline w of
           (Inl e, w) \<Rightarrow> Some (failed_with e, w)
         | (Inr baseline_sha, w) \<Rightarrow>
             (case open_tree ho args st baseline_sha w of
                None \<Rightarrow> None
              | Some (Inl e, w) \<Rightarrow> Some (failed_with e, w)
              | Some (Inr t, w) \<Rightarrow>
                  (case run_in_tree ho ev args st input baseline baseline_sha t w of
                     None \<Rightarrow> None
                   | Some (line, w) \<Rightarrow> Some (line, snd (remove_worktree ho t w)))))"

end
