(* ===== verification/Review_Bin_Props.thy ===== *)
theory Review_Bin_Props
  imports Review_Bin Review_Loop
begin

text \<open>
  What the review program promises to the service: how many requests it can send, that in the
  ordinary mode it reviews a patch only after a successful command that puts it on, and that the service takes what it prints for a successful review.
\<close>

subsection \<open>Steps of the host\<close>

text \<open>Whatever holds between the worlds before and after each call of the host, and for a sequence when it holds for
  its parts, holds for everything the program does with git and the work tree.\<close>

definition moves_by :: "('w \<Rightarrow> 'w \<Rightarrow> bool) \<Rightarrow> ('w \<Rightarrow> 'a \<times> 'w) \<Rightarrow> bool" where
  "moves_by R m \<longleftrightarrow> (\<forall>w. R w (snd (m w)))"

locale host_steps =
  fixes R :: "'w \<Rightarrow> 'w \<Rightarrow> bool" and ho :: "'w host"
  assumes stays: "R w w" and chain: "R u v \<Longrightarrow> R v w \<Longrightarrow> R u w"
    and runs: "R w (snd (ho_run ho c w))" and makes: "R w (snd (ho_create_dir ho p w))"
    and removes: "R w (snd (ho_remove_dir ho p w))" and temps: "R w (snd (ho_temp_dir ho d q w))"
begin

abbreviation moves :: "('w \<Rightarrow> 'a \<times> 'w) \<Rightarrow> bool" where
  "moves \<equiv> moves_by R"

lemma movesD: "moves m \<Longrightarrow> m w = (r, w') \<Longrightarrow> R w w'"
  unfolding moves_by_def by (metis snd_conv)

lemma movesI: "(\<And>w r w'. m w = (r, w') \<Longrightarrow> R w w') \<Longrightarrow> moves m"
  unfolding moves_by_def by (metis prod.collapse)

lemma moves_io:
  "moves (io_ret a)" "moves (io_fail e)" "moves (\<lambda>w. (r w, w))"
  by (simp_all add: moves_by_def io_ret_def io_fail_def stays)

lemma moves_files: "moves m \<Longrightarrow> moves (io_files m)"
  by (rule movesI) (auto simp: io_files_def split: prod.splits sum.splits dest: movesD)

lemma moves_let: "moves m \<Longrightarrow> (\<And>x. moves (f x)) \<Longrightarrow> moves (\<lambda>w. case m w of (x, w') \<Rightarrow> f x w')"
  by (rule movesI) (auto split: prod.splits intro: chain movesD)

lemma moves_bind: "moves m \<Longrightarrow> (\<And>a. moves (f a)) \<Longrightarrow> moves (io_bind m f)"
  by (rule movesI) (auto simp: io_bind_def split: prod.splits sum.splits intro: chain movesD)

lemma moves_if: "moves m \<Longrightarrow> moves m' \<Longrightarrow> moves (\<lambda>w. if P w then m w else m' w)"
  by (simp add: moves_by_def)

lemma moves_run_git: "moves (run_git ho dir args)"
  unfolding run_git_def by (rule moves_files) (simp add: moves_by_def runs)

lemma moves_git_output: "moves (git_output ho dir args what)"
  by (auto simp: git_output_def moves_io intro!: moves_bind moves_run_git)

lemmas git_moves = moves_run_git moves_git_output moves_io moves_if moves_files

lemma drop_moves: "R w (drop_dir ho q w)"
  by (simp add: drop_dir_def removes)

lemma commands:
  "moves (get_commit_hash ho p r)" "moves (reset_hard ho t r)" "moves (apply_patch ho t m)"
  "moves (apply_raw_diff ho t m)" "moves (get_commit_show ho t h)" "moves (get_commit_message ho t h)"
  "moves (new_worktree ho p h d)" "moves (remove_worktree ho t)"
proof -
  have files: "moves (ho_run ho c)" "moves (ho_create_dir ho q)" "moves (ho_remove_dir ho q)" "moves (ho_temp_dir ho x u)" for c q x u
    by (simp_all add: moves_by_def runs makes removes temps)
  show "moves (get_commit_hash ho p r)" unfolding get_commit_hash_def by (intro moves_bind git_moves)
  show "moves (reset_hard ho t r)" unfolding reset_hard_def by (auto simp: git_moves intro!: moves_bind)
  show "moves (apply_raw_diff ho t m)" unfolding apply_raw_diff_def by (intro git_moves files)
  show "moves (get_commit_show ho t h)" "moves (get_commit_message ho t h)"
    unfolding get_commit_show_def get_commit_message_def by (rule git_moves)+
  have "moves (\<lambda>w. (e, snd (run_git ho q args w)))" for e :: "string + unit" and q args
    using moves_run_git [of q args] by (simp add: moves_by_def)
  then show "moves (apply_patch ho t m)"
    unfolding apply_patch_def by (auto simp: git_moves files intro!: moves_bind)
  have checkout: "moves (worktree_checkout ho p h q)" for q
    unfolding worktree_checkout_def by (auto simp: git_moves intro!: moves_bind)
  have "moves (worktree_temp_dir ho d)"
    unfolding worktree_temp_dir_def by (auto simp: git_moves files intro!: moves_bind split: option.split)
  then show "moves (new_worktree ho p h d)"
    unfolding new_worktree_def
    by (rule moves_bind) (auto intro!: movesI intro: chain [OF _ drop_moves] split: prod.splits sum.splits dest!: movesD [OF checkout])
  have remove: "moves (io_bind (\<lambda>w. if ho_exists ho w (gw_path t) then io_files (ho_remove_dir ho (gw_path t)) w else (Inr (), w))
      (\<lambda>_. io_bind (git_output ho (gw_repo_path t) args what) (\<lambda>_. io_ret ())))" for args what
    by (auto simp: git_moves files intro!: moves_bind)
  show "moves (remove_worktree ho t)"
    unfolding remove_worktree_def
    by (auto intro!: movesI intro: chain [OF _ drop_moves] drop_moves split: prod.splits if_splits dest!: movesD [OF remove])
qed

lemma date_moves: "moves (date_text ho d)"
  by (auto intro!: movesI simp: date_text_def split: option.splits prod.splits) (use runs stays in \<open>metis snd_conv\<close>)+

lemma note_moves: "moves (note_show ho t i sha a)" "moves (note_message ho t i sha a)" "moves (note_commit ho t i sha a)"
proof -
  show s: "moves (note_show ho t i sha a)" for a
    by (auto intro!: movesI simp: note_show_def split: prod.splits sum.splits dest: movesD [OF commands(5)])
  show m: "moves (note_message ho t i sha a)" for a
    by (auto intro!: movesI simp: note_message_def split: prod.splits sum.splits dest: movesD [OF commands(6)])
  show "moves (note_commit ho t i sha a)"
    using moves_let [OF s m] by (simp add: note_commit_def [abs_def])
qed

lemma single_moves:
  "moves (checkout_patch ho t i sha a)" "moves (mail_patch ho t p a)" "moves (raw_patch ho t p e a)"
  "moves (apply_single_patch ho t p a)"
proof -
  show c: "moves (checkout_patch ho t i sha a)" for i sha a
    by (auto intro!: movesI simp: checkout_patch_def Let_def split: prod.splits sum.splits dest!: movesD [OF commands(2)]
        movesD [OF note_moves(3)] intro: chain)
  show m: "moves (mail_patch ho t p a)" for a
    by (auto intro!: movesI simp: mail_patch_def Let_def stays split: option.splits prod.splits sum.splits
        dest!: movesD [OF commands(1)] movesD [OF commands(3)] movesD [OF note_moves(3)] movesD [OF date_moves])
      (meson chain)+
  show r: "moves (raw_patch ho t p e a)" for e a
    by (auto intro!: movesI simp: raw_patch_def Let_def split: prod.splits sum.splits dest!: movesD [OF commands(4)])
  show "moves (apply_single_patch ho t p a)"
    by (auto intro!: movesI simp: apply_single_patch_def split: option.splits if_splits prod.splits sum.splits
        dest!: movesD [OF c] movesD [OF m] movesD [OF r] intro: chain)
qed

lemma apply_all_moves: "moves (apply_all ho t ps a)" "moves (apply_up_to ho t ps a)"
proof (induction ps arbitrary: a)
  case (Cons p ps)
  { case 1 show ?case by (auto intro!: movesI simp: Let_def split: prod.splits
        dest!: movesD [OF single_moves(4)] movesD [OF Cons.IH(1)] intro: chain) }
  { case 2 show ?case by (auto intro!: movesI simp: Let_def split: prod.splits if_splits
        dest!: movesD [OF single_moves(4)] movesD [OF Cons.IH(2)] intro: chain) }
qed (simp_all add: moves_by_def stays)

lemma prepare_moves:
  "moves (apply_patches ho args input t)" "moves (prepare_tree ho args input sha t)" "moves (rich_patches ho a ps)"
proof -
  note git = movesD [OF commands(2)] movesD [OF note_moves(1)] movesD [OF apply_all_moves(1)] movesD [OF apply_all_moves(2)]
  show "moves (apply_patches ho args input t)"
    by (auto intro!: movesI simp: apply_patches_def Let_def split: option.splits prod.splits sum.splits dest!: git intro: chain)
  show "moves (prepare_tree ho args input sha t)"
    by (auto intro!: movesI simp: prepare_tree_def Let_def stays split: option.splits prod.splits sum.splits if_splits dest!: git
        intro: chain)
  show "moves (rich_patches ho a ps)"
  proof (induction ps)
    case (Cons p ps)
    show ?case by (auto intro!: movesI simp: Let_def split: prod.splits dest!: movesD [OF date_moves] movesD [OF Cons.IH] intro: chain)
  qed (simp add: moves_by_def stays)
qed

lemma open_moves:
  assumes "open_tree ho args st sha w = Some (r, w')"
  shows "R w w'"
  using assms temps [of w "''dummy''" None]
  by (auto simp: open_tree_def from_path_def split: option.splits prod.splits sum.splits dest: movesD [OF commands(7)])

end

subsection \<open>Git sends no requests\<close>

definition silent :: "('w \<Rightarrow> 'v) \<Rightarrow> ('w \<Rightarrow> 'a \<times> 'w) \<Rightarrow> bool" where
  "silent sent m \<longleftrightarrow> (\<forall>w. sent (snd (m w)) = sent w)"

definition silent_host :: "('w \<Rightarrow> 'v) \<Rightarrow> 'w host \<Rightarrow> bool" where
  "silent_host sent ho \<longleftrightarrow>
     (\<forall>c. silent sent (ho_run ho c)) \<and> (\<forall>p. silent sent (ho_create_dir ho p)) \<and> (\<forall>p. silent sent (ho_remove_dir ho p)) \<and>
     (\<forall>s p. silent sent (ho_temp_dir ho s p))"

interpretation quiet: host_steps "\<lambda>w w'. silent_host sent ho \<longrightarrow> sent w' = sent w" ho for sent ho
  by unfold_locales (auto simp: silent_host_def silent_def)

lemma silentD: "silent sent m \<Longrightarrow> m w = (r, w') \<Longrightarrow> sent w' = sent w"
  unfolding silent_def by (metis snd_conv)

lemma silent_commands:
  assumes "silent_host sent ho"
  shows "silent sent (get_commit_hash ho p r)" "silent sent (new_worktree ho p h d)" "silent sent (remove_worktree ho t)"
    "silent sent (apply_patches ho args input t)" "silent sent (prepare_tree ho args input sha t)" "silent sent (rich_patches ho a ps)"
  using quiet.commands(1) [of sent ho p r] quiet.commands(7) [of sent ho p h d] quiet.commands(8) [of sent ho t]
    quiet.prepare_moves(1) [of sent ho args input t] quiet.prepare_moves(2) [of sent ho args input sha t]
    quiet.prepare_moves(3) [of sent ho a ps] assms
  by (simp_all add: silent_def moves_by_def)

lemmas prepare_sends_nothing = silentD [OF silent_commands(4)] silentD [OF silent_commands(5)] silentD [OF silent_commands(6)]

subsection \<open>Requests\<close>

text \<open>The requests of the attempts add up.\<close>

lemma attempts_bounded:
  assumes "logs_requests ev sent" "readable ev cf"
  shows "\<exists>line w' rs. review_attempts ev cf patchset result n w = Some (line, w') \<and> sent w' = sent w @ rs \<and>
    length rs \<le> n * (4 + 70 * wc_max_interactions cf) \<and> (\<forall>r\<in>set rs. within_limit ev cf r)"
proof (induction n arbitrary: w)
  case 0 show ?case by simp
next
  case (Suc n)
  obtain r s rs where run: "worker_run ev cf patchset \<lparr>ws_history = [], ws_world = w\<rparr> = Some (r, s)"
    "sent (ws_world s) = sent w @ rs" "length rs \<le> 4 + 70 * wc_max_interactions cf" "\<forall>r\<in>set rs. within_limit ev cf r"
    using sending.run_within [of ev cf sent patchset] assms
    by (auto simp: act_within_def new_requests_def dest!: spec [of _ "\<lparr>ws_history = [], ws_world = w\<rparr>"] split: option.splits)
  have last: "\<exists>line w' rs. Some (x, ws_world s) = Some (line, w') \<and> sent w' = sent w @ rs \<and>
      length rs \<le> Suc n * (4 + 70 * wc_max_interactions cf) \<and> (\<forall>r\<in>set rs. within_limit ev cf r)" for x
    using run by (intro exI [of _ x] exI [of _ "ws_world s"] exI [of _ rs]) simp
  obtain line w' rs' where again: "review_attempts ev cf patchset result n (ws_world s) = Some (line, w')"
    "sent w' = sent (ws_world s) @ rs'" "length rs' \<le> n * (4 + 70 * wc_max_interactions cf)" "\<forall>r\<in>set rs'. within_limit ev cf r"
    using Suc.IH [of "ws_world s"] by blast
  then have more: "\<exists>line w' rs. review_attempts ev cf patchset result n (ws_world s) = Some (line, w') \<and> sent w' = sent w @ rs \<and>
      length rs \<le> Suc n * (4 + 70 * wc_max_interactions cf) \<and> (\<forall>r\<in>set rs. within_limit ev cf r)"
  proof (intro exI conjI)
    show "review_attempts ev cf patchset result n (ws_world s) = Some (line, w')" by (rule again(1))
    show "sent w' = sent w @ rs @ rs'" using run(2) again(2) by simp
    show "length (rs @ rs') \<le> Suc n * (4 + 70 * wc_max_interactions cf)" using run(3) again(3) by simp
    show "\<forall>r\<in>set (rs @ rs'). within_limit ev cf r" using run(4) again(4) by auto
  qed
  show ?case
  proof (cases r)
    case (Inl e)
    then show ?thesis using last more run(1) by (cases "n = 0") simp_all
  next
    case (Inr v)
    then show ?thesis using last more run(1) by (cases "n = 0") (simp_all add: Let_def)
  qed
qed

lemma tool_limit: "within_limit ev (tool_worker_config args st p r) q \<longleftrightarrow> within_limit ev (tool_worker_config args st [] None) q"
proof -
  have "wc_max_input_tokens (tool_worker_config args st p r) = wc_max_input_tokens (tool_worker_config args st [] None)"
    by (simp add: tool_worker_config_def)
  then show ?thesis by (simp only: within_limit_def effective_input_limit_def)
qed

definition sent_within :: "'w env \<Rightarrow> ('w \<Rightarrow> AiRequest list) \<Rightarrow> Args \<Rightarrow> AiSettings \<Rightarrow> 'w \<Rightarrow> (json \<times> 'w) option \<Rightarrow> bool" where
  "sent_within ev sent args st w m \<longleftrightarrow>
     (\<exists>line w' rs. m = Some (line, w') \<and> sent w' = sent w @ rs \<and> length rs \<le> 3 * (4 + 70 * as_max_interactions st) \<and>
        (\<forall>r\<in>set rs. within_limit ev (tool_worker_config args st [] None) r))"

lemma sent_within_none: "sent w' = sent w \<Longrightarrow> sent_within ev sent args st w (Some (line, w'))"
  unfolding sent_within_def by (intro exI [of _ line] exI [of _ w'] exI [of _ "[]"]) simp

lemma start_bounded:
  assumes "logs_requests ev sent" "silent_host sent ho" "\<And>p r. readable ev (tool_worker_config args st p r)" "sent w = sent w0"
  shows "sent_within ev sent args st w0 (start_review ho ev args st input sha t a ps result w)"
proof (cases "ps = []")
  case True then show ?thesis using assms(4) by (simp add: start_review_def sent_within_none)
next
  case False
  obtain js w1 where rich: "rich_patches ho a ps w = (js, w1)" by (metis prod.exhaust)
  let ?cf = "tool_worker_config args st (gw_path t) (calculate_series_range (ri_patches input) ps (ap_shas a) sha)"
  have "wc_max_interactions ?cf = as_max_interactions st" by (simp add: tool_worker_config_def)
  moreover have "sent w1 = sent w0" using prepare_sends_nothing(3) [OF assms(2) rich] assms(4) by simp
  moreover have "within_limit ev ?cf = within_limit ev (tool_worker_config args st [] None)"
    by (rule ext) (rule tool_limit)
  ultimately show ?thesis
    using attempts_bounded [OF assms(1,3), of "gw_path t" "calculate_series_range (ri_patches input) ps (ap_shas a) sha" "review_patchset args input js" result 3 w1]
      False rich
    by (simp add: start_review_def sent_within_def)
qed

text \<open>One review never costs more than three runs: when no file makes the reading tool panic and the program
  makes its own work tree, it prints its line, and until then it has sent at most
  \<open>3 * (4 + 70 * max_interactions)\<close> requests, each within the limit of tokens.\<close>

theorem review_costs:
  assumes "logs_requests ev sent" "silent_host sent ho" "ar_reuse_worktree args = None"
    and "\<And>p r. readable ev (tool_worker_config args st p r)"
  shows "\<exists>line w' rs. review_main ho ev args st input w = Some (line, w') \<and> sent w' = sent w @ rs \<and>
    length rs \<le> 3 * (4 + 70 * as_max_interactions st) \<and>
    (\<forall>r\<in>set rs. ev_estimate ev r \<le> effective_input_limit ev (tool_worker_config args st [] None))"
proof -
  have start: "sent_within ev sent args st w (run_in_tree ho ev args st input baseline sha t w1)" if "sent w1 = sent w" for baseline sha t w1
    using that by (auto simp: run_in_tree_def Let_def split: prod.split sum.split
        intro!: sent_within_none start_bounded [OF assms(1,2,4)]
        dest!: prepare_sends_nothing(1,2) [OF assms(2)])
  have removed: "sent_within ev sent args st w (case m of None \<Rightarrow> None | Some (line, w1) \<Rightarrow> Some (line, snd (remove_worktree ho t w1)))"
    if "sent_within ev sent args st w m" for m t
    using that silent_commands(3) [OF assms(2), of t] unfolding sent_within_def silent_def by fastforce
  have "sent_within ev sent args st w (review_main ho ev args st input w)"
    by (auto simp: review_main_def open_tree_def assms(3) Let_def split: prod.split sum.split
        intro!: sent_within_none removed start dest!: silentD [OF silent_commands(1) [OF assms(2)]] silentD [OF silent_commands(2) [OF assms(2)]])
  then show ?thesis by (simp add: sent_within_def within_limit_def)
qed

text \<open>A machine where every program prints a word.\<close>

definition plain_host :: "'w host" where
  "plain_host =
     \<lparr>ho_run = (\<lambda>c w. (Inr \<lparr>out_success = True, out_stdout = ''abc'', out_stderr = [], ex_code = Some 0\<rparr>, w)),
      ho_exists = (\<lambda>w p. True), ho_create_dir = (\<lambda>p w. (Inr (), w)), ho_remove_dir = (\<lambda>p w. (Inr (), w)),
      ho_temp_dir = (\<lambda>s p w. (Inr [''tmp''], w)), ho_touch = (\<lambda>p w. w), ho_age = (\<lambda>w p. None), ho_seconds = (\<lambda>w. 0),
      ho_show_path = (\<lambda>p. join ''/'' p)\<rparr>"

definition plain_args :: Args where
  "plain_args = \<lparr>ar_baseline = None, ar_worktree_dir = None, ar_prompts = [], ar_review_patch_index = Some 1,
     ar_review_commit = None, ar_no_ai = False, ar_reuse_worktree = None, ar_custom_prompt = None, ar_stages = Some []\<rparr>"

definition plain_settings :: AiSettings where
  "plain_settings = \<lparr>as_repository_path = [''linux''], as_max_input_tokens = 0, as_max_interactions = 2, as_temperature = ''0.0''\<rparr>"

definition plain_input :: ReviewInput where
  "plain_input = \<lparr>ri_id = 7, ri_subject = ''fix'', ri_patches = [\<lparr>pi_index = 1, pi_diff = ''d'', pi_subject = Some ''fix'',
     pi_author = Some ''Ann'', pi_date = None, pi_message_id = None, pi_commit_id = None\<rparr>]\<rparr>"

theorem review_costs_witness:
  "\<exists>line rs. review_main plain_host silent_env plain_args plain_settings plain_input [] = Some (line, rs) \<and> length rs \<le> 432"
proof -
  have "logs_requests silent_env (\<lambda>w. w)" by (simp add: logs_requests_def untouched_def silent_env_def silent_os_def)
  moreover have "silent_host (\<lambda>w :: AiRequest list. w) plain_host" by (simp add: silent_host_def silent_def plain_host_def)
  moreover have "ar_reuse_worktree plain_args = None" "as_max_interactions plain_settings = 2"
    by (simp_all add: plain_args_def plain_settings_def)
  ultimately show ?thesis
    using review_costs [OF _ _ _ silent_files_readable, of "\<lambda>w. w" plain_host plain_args plain_settings plain_input "[]"]
    by auto
qed

subsection \<open>What the patches tell\<close>

definition applied_json :: "json \<Rightarrow> bool" where
  "applied_json x \<longleftrightarrow> jget x ''status'' = Some (JStr ''applied'')"

lemma added_result:
  "\<exists>x. ap_results (add_result i ms a) = ap_results a @ [x] \<and> jget x ''index'' = Some (JInt i) \<and> jget x ''status'' = map_of ms ''status''"
  by (simp add: add_result_def)

lemma noted_results [simp]:
  "ap_results (note_sha i sha a) = ap_results a"
  by (simp add: note_sha_def)

lemma noted_commit_results:
  "note_show ho t i sha a w = (a', w') \<Longrightarrow> ap_results a' = ap_results a"
  "note_commit ho t i sha a w = (a', w') \<Longrightarrow> ap_results a' = ap_results a"
  by (auto simp: note_show_def note_message_def note_commit_def Let_def split: prod.splits sum.splits)

lemma apply_result:
  "apply_single_patch ho t p a w = ((b, a'), w') \<Longrightarrow>
   \<exists>x. ap_results a' = ap_results a @ [x] \<and> jget x ''index'' = Some (JInt (pi_index p)) \<and> (b \<longrightarrow> applied_json x)"
proof -
  have checkout: "\<exists>x. ap_results a' = ap_results a @ [x] \<and> jget x ''index'' = Some (JInt i) \<and> (b \<longrightarrow> applied_json x)"
    if "checkout_patch ho t i sha a w = ((b, a'), w')" for i sha a w b a' w'
    using that by (auto simp: checkout_patch_def applied_json_def add_result_def Let_def split: prod.splits sum.splits
        dest!: noted_commit_results(2))
  have mail: "\<exists>x. ap_results a' = ap_results a @ [x] \<and> jget x ''index'' = Some (JInt (pi_index p)) \<and> applied_json x"
    if "mail_patch ho t p a w = (Inr a', w')" for a w a' w'
    using that by (auto simp: mail_patch_def applied_json_def add_result_def Let_def split: option.splits prod.splits sum.splits
        dest!: noted_commit_results(2))
  have raw: "\<exists>x. ap_results a' = ap_results a @ [x] \<and> jget x ''index'' = Some (JInt (pi_index p)) \<and> (b \<longrightarrow> applied_json x)"
    if "raw_patch ho t p e a w = ((b, a'), w')" for e a w b a' w'
    using that by (auto simp: raw_patch_def applied_json_def add_result_def Let_def split: prod.splits sum.splits)
  show "apply_single_patch ho t p a w = ((b, a'), w') \<Longrightarrow> ?thesis"
    by (auto simp: apply_single_patch_def split: option.splits if_splits prod.splits sum.splits dest: checkout mail raw)
qed

lemma apply_all_results:
  "apply_all ho t ps a w = ((b, a'), w') \<Longrightarrow>
   \<exists>xs. ap_results a' = ap_results a @ xs \<and> List.map (\<lambda>x. jget x ''index'') xs = List.map (\<lambda>p. Some (JInt (pi_index p))) ps \<and>
     (b \<longrightarrow> list_all applied_json xs)"
proof (induction ps arbitrary: a a' b w w')
  case (Cons p ps)
  obtain b1 a1 w1 where one: "apply_single_patch ho t p a w = ((b1, a1), w1)" by (metis prod.exhaust)
  obtain b2 a2 w2 where rest: "apply_all ho t ps a1 w1 = ((b2, a2), w2)" by (metis prod.exhaust)
  have "b = (b1 \<and> b2)" "a' = a2" using Cons.prems one rest by simp_all
  then show ?case using apply_result [OF one] Cons.IH [OF rest] by fastforce
qed simp

lemma apply_patches_results:
  assumes "apply_patches ho args input t w = (Inr (True, a), w')"
  shows "list_all applied_json (ap_results a)"
    "ar_review_commit args = None \<Longrightarrow>
       List.map (\<lambda>x. jget x ''index'') (ap_results a) = List.map (\<lambda>p. Some (JInt (pi_index p))) (ri_patches input)"
    "ar_review_commit args = Some c \<Longrightarrow> ar_review_patch_index args = Some i \<Longrightarrow>
       List.map (\<lambda>x. jget x ''index'') (ap_results a) = [Some (JInt i)]"
proof -
  have "list_all applied_json (ap_results a) \<and> (ar_review_commit args = None \<longrightarrow>
       List.map (\<lambda>x. jget x ''index'') (ap_results a) = List.map (\<lambda>p. Some (JInt (pi_index p))) (ri_patches input)) \<and>
      (ar_review_commit args \<noteq> None \<longrightarrow> (\<forall>i. ar_review_patch_index args = Some i \<longrightarrow>
       List.map (\<lambda>x. jget x ''index'') (ap_results a) = [Some (JInt i)]))"
    using assms by (auto simp: apply_patches_def nothing_applied_def add_result_def applied_json_def Let_def
        split: option.splits prod.splits sum.splits dest!: noted_commit_results(1) apply_all_results)
  then show "list_all applied_json (ap_results a)"
    "ar_review_commit args = None \<Longrightarrow>
       List.map (\<lambda>x. jget x ''index'') (ap_results a) = List.map (\<lambda>p. Some (JInt (pi_index p))) (ri_patches input)"
    "ar_review_commit args = Some c \<Longrightarrow> ar_review_patch_index args = Some i \<Longrightarrow>
       List.map (\<lambda>x. jget x ''index'') (ap_results a) = [Some (JInt i)]"
    by auto
qed

subsection \<open>The line of a review\<close>

definition inline_of :: "WorkerResult \<Rightarrow> string option" where
  "inline_of r = Option.bind (wr_output r) (\<lambda>v. get_str v ''review_inline'')"

definition sound_line :: "'w env \<Rightarrow> ((string \<times> json) list \<Rightarrow> json) \<Rightarrow> json \<Rightarrow> bool" where
  "sound_line (ev :: 'w env) result line \<longleftrightarrow>
     (\<exists>r s. line = result (review_fields r (inline_of r)) \<and> sound_result (\<lambda>_ :: 'w worker_state. True) r s) \<or>
     (\<exists>ms. line = result ms \<and> map_of ms ''review'' = None)"

lemma attempts_line:
  "review_attempts ev cf patchset result n w = Some (line, w') \<Longrightarrow> sound_line ev result line"
proof (induction n arbitrary: w)
  case 0 then show ?case by (fastforce simp: sound_line_def)
next
  case (Suc n)
  obtain x s where run: "worker_run ev cf patchset \<lparr>ws_history = [], ws_world = w\<rparr> = Some (x, s)"
    using Suc.prems by (cases "worker_run ev cf patchset \<lparr>ws_history = [], ws_world = w\<rparr>") auto
  show ?case
  proof (cases x)
    case (Inl e)
    have "sound_line ev result (result ([(''error'', JStr t)] @ token_fields (0, 0, 0)))" for t
    proof -
      have "map_of ([(''error'', JStr t)] @ token_fields (0, 0, 0)) ''review'' = None" by (simp add: token_fields_def)
      then show ?thesis unfolding sound_line_def by blast
    qed
    then show ?thesis using Suc run Inl by (auto split: if_splits)
  next
    case (Inr r)
    have "sound_result (\<lambda>_. True) r s"
      using run_yields [OF report_waivers(1), where ev = ev and cf = cf and patchset = patchset] run Inr
      unfolding yields_def by blast
    then have "sound_line ev result (result (review_fields r (inline_of r)))"
      unfolding sound_line_def by blast
    then show ?thesis using Suc run Inr by (auto simp: Let_def inline_of_def split: if_splits)
  qed
qed

lemma start_line:
  assumes "start_review ho ev args st input sha t a ps result w = Some (line, w')"
  shows "ps = [] \<and> line = result ([(''review'', JNull), (''input_context'', JStr [])] @ token_fields (0, 0, 0)) \<or>
    ps \<noteq> [] \<and> sound_line ev result line"
  using assms attempts_line by (auto simp: start_review_def Let_def split: if_splits prod.splits)

lemma result_fields [simp]:
  "jget (result_json input baseline a ms) ''patches'' = Some (JArr (ap_results a))"
  "jget (result_json input baseline a ms) ''review'' = map_of ms ''review''"
  "jget (result_json input baseline a ms) ''error'' = map_of ms ''error''"
  "jget (result_json input baseline a ms) ''inline_review'' = map_of ms ''inline_review''"
  by (simp_all add: result_json_def)

lemma main_line:
  assumes "review_main ho ev args st input w = Some (line, w')" "jget line ''review'' = Some v"
  obtains baseline a where "list_all applied_json (ap_results a)"
    "ar_review_commit args = None \<Longrightarrow>
       List.map (\<lambda>x. jget x ''index'') (ap_results a) = List.map (\<lambda>p. Some (JInt (pi_index p))) (ri_patches input)"
    "\<And>c i. ar_review_commit args = Some c \<Longrightarrow> ar_review_patch_index args = Some i \<Longrightarrow>
       List.map (\<lambda>x. jget x ''index'') (ap_results a) = [Some (JInt i)]"
    "patches_to_review args input = [] \<and> v = JNull \<and> jget line ''patches'' = Some (JArr (ap_results a)) \<or>
     patches_to_review args input \<noteq> [] \<and> sound_line ev (result_json input baseline a) line"
proof -
  obtain t sha w1 w2 baseline where run: "run_in_tree ho ev args st input baseline sha t w1 = Some (line, w2)"
    using assms by (auto simp: review_main_def Let_def split: prod.splits sum.splits option.splits)
  obtain w3 a where applied: "apply_patches ho args input t w1 = (Inr (True, a), w3)"
    and start: "\<exists>w. start_review ho ev args st input sha t a (patches_to_review args input) (result_json input baseline a) w = Some (line, w2)"
    using run assms(2) by (auto simp: run_in_tree_def Let_def split: prod.splits sum.splits if_splits)
  from start have "patches_to_review args input = [] \<and> v = JNull \<and> jget line ''patches'' = Some (JArr (ap_results a)) \<or>
     patches_to_review args input \<noteq> [] \<and> sound_line ev (result_json input baseline a) line"
    using assms(2) by (auto dest!: start_line)
  then show ?thesis using that apply_patches_results [OF applied] by metis
qed

subsection \<open>What git did\<close>

text \<open>A record of the programs that were run, with their results, which only the host writes.\<close>

definition logs_commands :: "'w host \<Rightarrow> 'w env \<Rightarrow> ('w \<Rightarrow> (Command \<times> (io_error + Exit)) list) \<Rightarrow> bool" where
  "logs_commands ho ev cmds \<longleftrightarrow>
     (\<forall>c w. cmds (snd (ho_run ho c w)) = cmds w @ [(c, fst (ho_run ho c w))]) \<and>
     (\<forall>p. silent cmds (ho_create_dir ho p)) \<and> (\<forall>p. silent cmds (ho_remove_dir ho p)) \<and> (\<forall>s p. silent cmds (ho_temp_dir ho s p)) \<and>
     untouched ev cmds \<and> (\<forall>r. silent cmds (ev_generate ev r))"

interpretation logged: host_steps "\<lambda>w w'. logs_commands ho ev cmds \<longrightarrow> prefix (cmds w) (cmds w')" ho for ho ev cmds
  by unfold_locales (auto simp: logs_commands_def silent_def intro: prefix_order.trans)

interpretation unlogged: exchange True "\<lambda>n s s'. logs_commands ho ev cmds \<longrightarrow> cmds (ws_world s') = cmds (ws_world s)" ev cf
  for ho ev cmds cf
proof unfold_locales
  fix tag cs
  show "act_within True (\<lambda>n s s'. logs_commands ho ev cmds \<longrightarrow> cmds (ws_world s') = cmds (ws_world s)) 0
      (use_tools ev (cf\<lparr>wc_context_tag := tag\<rparr>) cs)"
    by (auto simp: act_within_def use_tools_def remember_def logs_commands_def split: option.split
        dest: run_tools_sends_nothing)
qed (auto simp: remember_def logs_commands_def untouched_def silent_def)

text \<open>The commands that put a patch on the work tree: the reset to its commit, \<open>git am\<close> of a mail with its diff, and
  \<open>git apply\<close> of its diff.\<close>

definition puts_on :: "GitWorktree \<Rightarrow> PatchInput \<Rightarrow> Command \<Rightarrow> bool" where
  "puts_on t p c \<longleftrightarrow>
     (\<exists>sha. (pi_commit_id p = Some sha \<or> pi_commit_id p = None \<and> pi_message_id p = Some sha \<and> looks_like_sha sha) \<and>
        c = git_command (gw_path t) [''reset'', ''--hard'', sha]) \<or>
     (\<exists>author date subject. pi_author p = Some author \<and> pi_subject p = Some subject \<and>
        c = am_command (gw_path t) (mbox_text author date subject (pi_diff p))) \<or>
     c = (git_command (gw_path t) (bare_ok @ [''apply'', ''-'']))\<lparr>cm_stdin := Some (pi_diff p)\<rparr>"

definition was_put :: "('w \<Rightarrow> (Command \<times> (io_error + Exit)) list) \<Rightarrow> 'w \<Rightarrow> GitWorktree \<Rightarrow> PatchInput \<Rightarrow> bool" where
  "was_put cmds w t p \<longleftrightarrow> (\<exists>c out. (c, Inr out) \<in> set (cmds w) \<and> out_success out \<and> puts_on t p c)"

lemma was_put_stays: "was_put cmds w t p \<Longrightarrow> prefix (cmds w) (cmds w') \<Longrightarrow> was_put cmds w' t p"
  unfolding was_put_def by (meson set_mono_prefix subsetD)

lemma logged_run:
  assumes "logs_commands ho ev cmds" "ho_run ho c w = (r, w')"
  shows "(c, r) \<in> set (cmds w')"
proof -
  have "cmds w' = cmds w @ [(c, r)]" using assms by (auto simp: logs_commands_def) (metis fst_conv snd_conv)
  then show ?thesis by simp
qed

lemma logged_io:
  assumes "logs_commands ho ev cmds" "io_files (ho_run ho c) w = (Inr x, w')"
  shows "(c, Inr x) \<in> set (cmds w')"
  using assms(2) logged_run [OF assms(1), of c w] by (auto simp: io_files_def split: prod.splits sum.splits)

lemma reset_logged:
  assumes "logs_commands ho ev cmds" "reset_hard ho t sha w = (Inr u, w')"
  shows "\<exists>out. (git_command (gw_path t) [''reset'', ''--hard'', sha], Inr out) \<in> set (cmds w') \<and> out_success out"
proof -
  let ?c = "git_command (gw_path t) [''reset'', ''--hard'', sha]"
  obtain out w1 r w2 where run: "io_files (ho_run ho ?c) w = (Inr out, w1)" "out_success out"
    and clean: "run_git ho (gw_path t) [''clean'', ''-fdx''] w1 = (r, w2)" "w' = w2"
    using assms(2) by (auto simp: reset_hard_def io_bind_def git_output_def run_git_def io_ret_def io_fail_def
        split: prod.splits sum.splits if_splits)
  have "(?c, Inr out) \<in> set (cmds w1)" by (rule logged_io [OF assms(1) run(1)])
  moreover have "prefix (cmds w1) (cmds w')"
    using logged.movesD [OF logged.moves_run_git clean(1), of ev cmds] assms(1) clean(2) by simp
  ultimately show ?thesis using run(2) by (meson set_mono_prefix subsetD)
qed

lemma single_put:
  assumes "logs_commands ho ev cmds" "apply_single_patch ho t p a w = ((True, a'), w')"
  shows "was_put cmds w' t p"
proof -
  have checkout: "\<exists>out. (git_command (gw_path t) [''reset'', ''--hard'', sha], Inr out) \<in> set (cmds w') \<and> out_success out"
    if c: "checkout_patch ho t i sha a w = ((True, a'), w')" for i sha a a' w w'
  proof -
    obtain u w1 a1 where "reset_hard ho t sha w = (Inr u, w1)" "note_commit ho t i sha a w1 = (a1, w')"
      using c by (auto simp: checkout_patch_def Let_def split: prod.splits sum.splits)
    moreover from this(2) have "prefix (cmds w1) (cmds w')"
      using logged.movesD [OF logged.note_moves(3), of ho t i sha a w1 a1 w' ev cmds] assms(1) by simp
    ultimately show ?thesis using reset_logged [OF assms(1)] by (meson set_mono_prefix subsetD)
  qed
  have mail: "was_put cmds w' t p" if m: "mail_patch ho t p a w = (Inr a', w')" for a a' w w'
  proof -
    obtain author subject where p: "pi_author p = Some author" "pi_subject p = Some subject"
      using m by (auto simp: mail_patch_def split: option.splits)
    obtain date w1 where date: "date_text ho (pi_date p) w = (date, w1)" by fastforce
    obtain w2 where am: "apply_patch ho t (mbox_text author date subject (pi_diff p)) w1 = (Inr (), w2)"
      using m p date by (auto simp: mail_patch_def Let_def split: prod.splits sum.splits)
    obtain h w3 where hash: "get_commit_hash ho (gw_path t) ''HEAD'' w2 = (h, w3)" by fastforce
    have one: "prefix (cmds w2) (cmds w3)"
      using logged.movesD [OF logged.commands(1) hash, of ev cmds] assms(1) by simp
    have two: "prefix (cmds w3) (cmds w')"
    proof (cases h)
      case (Inl e)
      then show ?thesis using m p date am hash by (simp add: mail_patch_def Let_def)
    next
      case (Inr sha)
      obtain a2 w4 where n: "note_commit ho t (pi_index p) sha (note_sha (pi_index p) sha a) w3 = (a2, w4)" by fastforce
      then have "w' = w4" using m p date am hash Inr by (simp add: mail_patch_def Let_def)
      then show ?thesis using logged.movesD [OF logged.note_moves(3) n, of ev cmds] assms(1) by simp
    qed
    have rest: "prefix (cmds w2) (cmds w')" using one two by (rule prefix_order.trans)
    let ?c = "am_command (gw_path t) (mbox_text author date subject (pi_diff p))"
    obtain out where "io_files (ho_run ho ?c) w1 = (Inr out, w2)" "out_success out"
      using am by (auto simp: apply_patch_def io_bind_def io_ret_def split: prod.splits sum.splits if_splits)
    then have "(?c, Inr out) \<in> set (cmds w2)" "out_success out"
      using logged_io [OF assms(1)] by simp_all
    then have "was_put cmds w2 t p" using p unfolding was_put_def puts_on_def by blast
    then show ?thesis using rest by (rule was_put_stays)
  qed
  have raw: "was_put cmds w' t p" if r: "raw_patch ho t p e a w = ((True, a'), w')" for e a a' w w'
  proof -
    obtain out where "apply_raw_diff ho t (pi_diff p) w = (Inr out, w')" "out_success out"
      using r by (auto simp: raw_patch_def Let_def split: prod.splits sum.splits)
    then show ?thesis
      using logged_io [OF assms(1)] unfolding was_put_def puts_on_def apply_raw_diff_def by blast
  qed
  show ?thesis using assms(2) unfolding apply_single_patch_def
    by (auto split: option.splits if_splits prod.splits sum.splits dest: mail raw dest!: checkout)
      (auto simp: was_put_def puts_on_def)
qed

lemma all_put:
  assumes "logs_commands ho ev cmds"
  shows "apply_all ho t ps a w = ((True, a'), w') \<Longrightarrow> \<forall>p\<in>set ps. was_put cmds w' t p"
proof (induction ps arbitrary: a w)
  case (Cons p ps)
  obtain a1 w1 where one: "apply_single_patch ho t p a w = ((True, a1), w1)" and rest: "apply_all ho t ps a1 w1 = ((True, a'), w')"
    using Cons.prems by (auto simp: Let_def split: prod.splits)
  have "prefix (cmds w1) (cmds w')"
    using logged.movesD [OF logged.apply_all_moves(1) rest, of ev cmds] assms by simp
  with single_put [OF assms one] Cons.IH [OF rest] show ?case using was_put_stays by auto
qed simp

lemma attempts_unlogged:
  assumes "logs_commands ho ev cmds"
  shows "review_attempts ev cf patchset result n w = Some (line, w') \<Longrightarrow> cmds w' = cmds w"
proof (induction n arbitrary: w)
  case (Suc n)
  obtain x s where run: "worker_run ev cf patchset \<lparr>ws_history = [], ws_world = w\<rparr> = Some (x, s)"
    using Suc.prems by (cases "worker_run ev cf patchset \<lparr>ws_history = [], ws_world = w\<rparr>") auto
  have "cmds (ws_world s) = cmds w"
    using unlogged.run_within [of ho ev cmds cf patchset] run assms
    by (auto simp: act_within_def dest!: spec [of _ "\<lparr>ws_history = [], ws_world = w\<rparr>"])
  then show ?case using Suc run by (auto simp: Let_def split: sum.splits if_splits)
qed simp

lemma start_logged:
  assumes "logs_commands ho ev cmds" "start_review ho ev args st input sha t a ps result w = Some (line, w')"
  shows "prefix (cmds w) (cmds w')"
proof (cases "ps = []")
  case True
  with assms(2) show ?thesis by (simp add: start_review_def)
next
  case False
  obtain js w1 where rich: "rich_patches ho a ps w = (js, w1)" by (metis prod.exhaust)
  then have "prefix (cmds w) (cmds w1)" using logged.movesD [OF logged.prepare_moves(3) rich, of ev cmds] assms(1) by simp
  moreover have "cmds w' = cmds w1"
    using assms(2) False rich attempts_unlogged [OF assms(1)] by (auto simp: start_review_def Let_def)
  ultimately show ?thesis by simp
qed

lemma main_put:
  assumes "logs_commands ho ev cmds" "review_main ho ev args st input w = Some (line, w')" "jget line ''review'' = Some v"
    "ar_review_commit args = None"
  shows "\<exists>t. \<forall>p\<in>set (ri_patches input). was_put cmds w' t p"
proof -
  obtain t sha w1 w2 baseline where run: "run_in_tree ho ev args st input baseline sha t w1 = Some (line, w2)"
    and removed: "w' = snd (remove_worktree ho t w2)"
    using assms by (auto simp: review_main_def Let_def split: prod.splits sum.splits option.splits)
  obtain w3 w4 a x where applied: "apply_all ho t (ri_patches input) nothing_applied w1 = ((True, a), w3)"
    and prepared: "prepare_tree ho args input sha t w3 = (x, w4)"
    and start: "start_review ho ev args st input sha t a (patches_to_review args input) (result_json input baseline a) w4 = Some (line, w2)"
    using run assms(3,4) by (auto simp: run_in_tree_def apply_patches_def Let_def split: prod.splits sum.splits if_splits)
  have "prefix (cmds w3) (cmds w4)" "prefix (cmds w4) (cmds w2)" "prefix (cmds w2) (cmds w')"
    using logged.movesD [OF logged.prepare_moves(2) prepared, of ev cmds] start_logged [OF assms(1) start]
      logged.commands(8) [of ho ev cmds t] assms(1) removed by (simp_all add: moves_by_def)
  then have "prefix (cmds w3) (cmds w')" by (meson prefix_order.trans)
  then have "\<forall>p\<in>set (ri_patches input). was_put cmds w' t p"
    using all_put [OF assms(1) applied] was_put_stays [of cmds w3 t _ w'] by blast
  then show ?thesis ..
qed

text \<open>C16. In its ordinary mode, without \<open>--review-commit\<close>, the program reviews nothing that git did not apply: a line
  with a review lists the patches of the series in their order, each as applied, and for every one of them a command
  of this run that puts it on the one work tree succeeded: the reset to its commit, \<open>git am\<close> of a mail with its diff, or
  \<open>git apply\<close> of its diff. (\<open>cmds\<close> is any record of the programs that were run, empty at the start. With
  \<open>--review-commit\<close> the program resets to the named commit, applies no patch and lists that commit as applied.)\<close>

theorem review_only_when_applied:
  assumes "logs_commands ho ev cmds" "cmds w = []" "ar_review_commit args = None"
    "review_main ho ev args st input w = Some (line, w')" "jget line ''review'' = Some v"
  shows "\<exists>ps t. get_array line ''patches'' = Some ps \<and> (\<forall>x\<in>set ps. jget x ''status'' = Some (JStr ''applied'')) \<and>
    List.map (\<lambda>x. jget x ''index'') ps = List.map (\<lambda>p. Some (JInt (pi_index p))) (ri_patches input) \<and>
    (\<forall>p\<in>set (ri_patches input). \<exists>c out. (c, Inr out) \<in> set (cmds w') \<and> out_success out \<and> puts_on t p c)"
proof (rule main_line [OF assms(4,5)], goal_cases)
  case (1 baseline a)
  then have "get_array line ''patches'' = Some (ap_results a)"
    by (auto simp: get_array_def sound_line_def)
  moreover obtain t where "\<forall>p\<in>set (ri_patches input). was_put cmds w' t p"
    using main_put [OF assms(1,4,5,3)] by blast
  ultimately show ?case using 1 assms(3)
    by (intro exI [of _ "ap_results a"] exI [of _ t]) (auto simp: list_all_iff applied_json_def was_put_def)
qed

lemma find_applied:
  assumes "list_all applied_json xs" "Some (JInt (int k)) \<in> set (List.map (\<lambda>x. jget x ''index'') xs)"
  shows "\<exists>x. find_index k xs = Some x \<and> jindex x ''status'' = JStr ''applied''"
proof -
  obtain x where "x \<in> set xs" "jindex x ''index'' = JInt (int k)" using assms(2) by (auto simp: jindex_def) (metis option.simps(5))
  then obtain y where y: "find_index k xs = Some y"
    by (cases "find_index k xs") (auto simp: find_index_def find_None_iff)
  then have "y \<in> set xs" by (auto simp: find_index_def find_Some_iff)
  with y show ?thesis using assms(1) by (auto simp: list_all_iff applied_json_def jindex_def)
qed

lemma review_line:
  assumes "review_main ho ev args st input w = Some (line, w')" "jget line ''review'' = Some v" "v \<noteq> JNull"
    and "ar_review_patch_index args = Some (int k)"
  obtains fs ds n inline where "v = worker_output fs ds inline n" "inline \<noteq> []" "jget line ''inline_review'' = Some (JStr inline)"
    "jget line ''error'' = Some JNull" "target_applied line k"
proof (rule main_line [OF assms(1,2)], goal_cases)
  case (1 baseline a)
  then have to_review: "patches_to_review args input \<noteq> []" and line: "sound_line ev (result_json input baseline a) line"
    using assms(3) by auto
  from line assms(2) obtain r and s :: "'a worker_state" where
    r: "line = result_json input baseline a (review_fields r (inline_of r))" "sound_result (\<lambda>_. True) r s"
    by (auto simp: sound_line_def)
  then obtain fs ds n inline where out: "wr_output r = Some (worker_output fs ds inline n)" "inline \<noteq> []" "wr_error r = None"
    unfolding sound_result_def sound_output_def by blast
  have "inline_of r = Some inline" using out(1) by (simp add: inline_of_def get_str_def worker_output_def)
  then have "jget line ''inline_review'' = Some (JStr inline)" "jget line ''error'' = Some JNull"
    "jget line ''review'' = Some (worker_output fs ds inline n)"
    using out by (simp_all add: r(1) review_fields_def jtext_def)
  moreover have "Some (JInt (int k)) \<in> set (List.map (\<lambda>x. jget x ''index'') (ap_results a))"
  proof (cases "ar_review_commit args")
    case None
    obtain p where "p \<in> set (ri_patches input)" "pi_index p = int k"
      using to_review assms(4) by (auto simp: patches_to_review_def filter_empty_conv split: if_splits)
    then show ?thesis using 1(3) [OF None] by simp force
  next
    case (Some c)
    then show ?thesis using 1(4) [OF Some assms(4)] by simp
  qed
  then obtain x where x: "find_index k (ap_results a) = Some x" "jindex x ''status'' = JStr ''applied''"
    using find_applied [OF 1(2)] by blast
  have "jindex line ''patches'' = JArr (ap_results a)" by (simp add: r(1) jindex_def)
  with x have "target_applied line k" by (simp add: target_applied_def)
  ultimately show ?case using that out(2) assms(2) by auto
qed

text \<open>C15. The service takes the line of a review for a success: when the program was asked for the patch of a job
  and its line has a review, the service counts the job as reviewed, with the report, which is not empty, as
  the text to send. The summary that it also looks for is never there, so the review is stored with
  an empty one.\<close>

theorem service_takes_review:
  assumes "review_main ho ev args st input w = Some (line, w')" "jget line ''review'' = Some v" "v \<noteq> JNull"
    and "ar_review_patch_index args = Some (int (jb_index job))"
  shows "fst (handle_output cx job at rid line d) = Done Success \<and>
    (\<exists>inline. as_str_opt (jindex line ''inline_review'') = Some inline \<and> inline \<noteq> []) \<and> jget v ''summary'' = None"
proof (rule review_line [OF assms], goal_cases)
  case (1 fs ds n inline)
  then show ?case using assms(2,3)
    by (simp add: handle_output_def Let_def jindex_def split: prod.split) (simp add: worker_output_def)
qed

text \<open>What a run that fails costs: an error of the worker, also one that must not be tried again, leads to
  three runs of it, and the line then says that no tokens were used.\<close>

theorem failed_runs_restart:
  assumes "\<And>w. worker_run ev cf patchset \<lparr>ws_history = [], ws_world = w\<rparr> = Some (Inl e, \<lparr>ws_history = h w, ws_world = f w\<rparr>)"
  shows "review_attempts ev cf patchset result 3 w =
    Some (result [(''error'', JStr (worker_error_text ev e)), (''tokens_in'', JInt 0), (''tokens_out'', JInt 0), (''tokens_cached'', JInt 0)],
      f (f (f w)))"
  by (simp add: numeral_3_eq_3 assms token_fields_def)

lemma custom_prompt_ignored:
  "review_main ho ev (args\<lparr>ar_custom_prompt := c\<rparr>) st input w = review_main ho ev args st input w"
proof -
  have "ar_baseline (args\<lparr>ar_custom_prompt := c\<rparr>) = ar_baseline args" "ar_worktree_dir (args\<lparr>ar_custom_prompt := c\<rparr>) = ar_worktree_dir args"
    "ar_prompts (args\<lparr>ar_custom_prompt := c\<rparr>) = ar_prompts args" "ar_review_commit (args\<lparr>ar_custom_prompt := c\<rparr>) = ar_review_commit args"
    "ar_review_patch_index (args\<lparr>ar_custom_prompt := c\<rparr>) = ar_review_patch_index args"
    "ar_no_ai (args\<lparr>ar_custom_prompt := c\<rparr>) = ar_no_ai args" "ar_stages (args\<lparr>ar_custom_prompt := c\<rparr>) = ar_stages args"
    "ar_reuse_worktree (args\<lparr>ar_custom_prompt := c\<rparr>) = ar_reuse_worktree args"
    by simp_all
  note same = this
  have "tool_worker_config (args\<lparr>ar_custom_prompt := c\<rparr>) = tool_worker_config args"
    "review_patchset (args\<lparr>ar_custom_prompt := c\<rparr>) = review_patchset args"
    by (intro ext; simp only: tool_worker_config_def review_patchset_def same)+
  note same = same this
  have "apply_patches ho (args\<lparr>ar_custom_prompt := c\<rparr>) = apply_patches ho args"
    "prepare_tree ho (args\<lparr>ar_custom_prompt := c\<rparr>) = prepare_tree ho args"
    "start_review ho ev (args\<lparr>ar_custom_prompt := c\<rparr>) = start_review ho ev args"
    "patches_to_review (args\<lparr>ar_custom_prompt := c\<rparr>) = patches_to_review args"
    "open_tree ho (args\<lparr>ar_custom_prompt := c\<rparr>) = open_tree ho args"
    by (intro ext; simp only: apply_patches_def prepare_tree_def start_review_def patches_to_review_def open_tree_def same)+
  then show ?thesis by (simp only: review_main_def run_in_tree_def same)
qed

subsection \<open>A run that is seen through\<close>

lemma plain_review:
  "map_option (\<lambda>(line, _). jget line ''review'' \<notin> {None, Some JNull}) (review_main plain_host silent_env plain_args plain_settings plain_input []) = Some True"
  by code_simp

lemma plain_line:
  "\<exists>line w v. review_main plain_host silent_env plain_args plain_settings plain_input [] = Some (line, w) \<and>
     jget line ''review'' = Some v \<and> v \<noteq> JNull"
  using plain_review by auto

text \<open>The same machine and a provider without answers, in a world that is the list of the programs that were run.\<close>

definition noting_host :: "((Command \<times> (io_error + Exit)) list) host" where
  "noting_host = plain_host\<lparr>ho_run := (\<lambda>c w. (let r = Inr \<lparr>out_success = True, out_stdout = ''abc'', out_stderr = [], ex_code = Some 0\<rparr>
     in (r, w @ [(c, r)])))\<rparr>"

definition noting_env :: "((Command \<times> (io_error + Exit)) list) env" where
  "noting_env =
     \<lparr>ev_os = silent_os, ev_bpe = (\<lambda>_. 1), ev_generate = (\<lambda>r w. (Inr \<lparr>rs_content = None, rs_thought = None,
        rs_thought_signature = None, rs_tool_calls = None, rs_usage = None\<rparr>, w)),
      ev_estimate = (\<lambda>r. length (rq_messages r)), ev_context_window = 1000, ev_from_str = (\<lambda>_. None),
      ev_to_string = (\<lambda>_. []), ev_pretty = (\<lambda>_. []), ev_parse_error = (\<lambda>_. []), ev_exists = (\<lambda>_ _. False),
      ev_show_error = (\<lambda>_. []), ev_prefetch = (\<lambda>_ _ _. None), ev_date = ''today''\<rparr>"

lemma noting_review:
  "map_option (\<lambda>(line, _). jget line ''review'' \<notin> {None, Some JNull}) (review_main noting_host noting_env plain_args plain_settings plain_input []) = Some True"
  by code_simp

theorem review_only_when_applied_witness:
  "\<exists>line w ps t. review_main noting_host noting_env plain_args plain_settings plain_input [] = Some (line, w) \<and>
     get_array line ''patches'' = Some ps \<and> List.map (\<lambda>x. jget x ''index'') ps = [Some (JInt 1)] \<and>
     (\<forall>x\<in>set ps. jget x ''status'' = Some (JStr ''applied'')) \<and>
     (\<exists>c out. (c, Inr out) \<in> set w \<and> out_success out \<and> puts_on t (hd (ri_patches plain_input)) c)"
proof -
  obtain line w v where line: "review_main noting_host noting_env plain_args plain_settings plain_input [] = Some (line, w)"
    "jget line ''review'' = Some v"
    using noting_review by auto
  have logs: "logs_commands noting_host noting_env (\<lambda>w. w)"
    by (simp add: logs_commands_def noting_host_def noting_env_def plain_host_def silent_def untouched_def silent_os_def Let_def)
  have "ar_review_commit plain_args = None" by (simp add: plain_args_def)
  from review_only_when_applied [OF logs refl this line] obtain ps t where
    "get_array line ''patches'' = Some ps" "\<forall>x\<in>set ps. jget x ''status'' = Some (JStr ''applied'')"
    "List.map (\<lambda>x. jget x ''index'') ps = List.map (\<lambda>p. Some (JInt (pi_index p))) (ri_patches plain_input)"
    "\<forall>p\<in>set (ri_patches plain_input). \<exists>c out. (c, Inr out) \<in> set w \<and> out_success out \<and> puts_on t p c"
    by blast
  moreover have "List.map (\<lambda>p. Some (JInt (pi_index p))) (ri_patches plain_input) = [Some (JInt 1)]"
    "hd (ri_patches plain_input) \<in> set (ri_patches plain_input)"
    by (simp_all add: plain_input_def)
  ultimately show ?thesis using line(1) by metis
qed

theorem service_takes_review_witness:
  "\<exists>line w. review_main plain_host silent_env plain_args plain_settings plain_input [] = Some (line, w) \<and>
     fst (handle_output sample_cx sample_job (sample_attempt (Inr line)) 1 line empty_db) = Done Success"
proof -
  have "ar_review_patch_index plain_args = Some (int (jb_index sample_job))" by (simp add: plain_args_def sample_job_def)
  moreover obtain line w v where line: "review_main plain_host silent_env plain_args plain_settings plain_input [] = Some (line, w)"
    "jget line ''review'' = Some v" "v \<noteq> JNull"
    using plain_line by blast
  ultimately show ?thesis using service_takes_review [OF line] by blast
qed

lemma limit_run:
  "\<exists>hist. \<forall>w. worker_run silent_env (silent_config\<lparr>wc_max_interactions := 0, wc_stages := Some [1]\<rparr>) (JObj []) \<lparr>ws_history = [], ws_world = w\<rparr> =
    Some (Inl (Review LimitExceeded), \<lparr>ws_history = hist, ws_world = w\<rparr>)"
  by (simp add: worker_run_def select_prompts_def build_context_def append_directory_def plan_stages_def stage_runs_def
      analysis_stage_def get_stage_prompt_def stage_files_def numeral_3_eq_3 act_bind_def act_ret_def act_try_def act_fail_def
      run_ai_stage_def run_ai_stage_raw_def remember_def silent_env_def silent_config_def Let_def split_def)

theorem failed_runs_restart_witness:
  "map_option fst (review_attempts silent_env (silent_config\<lparr>wc_max_interactions := 0, wc_stages := Some [1]\<rparr>) (JObj []) JObj 3 []) =
     Some (JObj [(''error'', JStr ''Max interactions exceeded''), (''tokens_in'', JInt 0), (''tokens_out'', JInt 0), (''tokens_cached'', JInt 0)])"
proof -
  obtain hist where "\<And>w. worker_run silent_env (silent_config\<lparr>wc_max_interactions := 0, wc_stages := Some [1]\<rparr>) (JObj []) \<lparr>ws_history = [], ws_world = w\<rparr> =
      Some (Inl (Review LimitExceeded), \<lparr>ws_history = hist, ws_world = w\<rparr>)"
    using limit_run by blast
  from failed_runs_restart [of _ _ _ _ "\<lambda>_. hist" "\<lambda>w. w", OF this, of JObj "[]"] show ?thesis
    by (simp add: worker_error_text_def)
qed

end
