(* ===== verification/Ingestion.thy ===== *)
theory Ingestion
  imports Git_Ops Threads_Inv OpenAi
begin

text \<open>
  Taking in mail (\<open>src/nntp.rs\<close>, \<open>src/ingestor.rs\<close>): the NNTP client, the mailing lists that are followed, the
  cycle that fetches the articles behind the high-water mark of each list, and the bootstrap from git
  archives. The connection, the programs and the files are arguments, whose effects are on a world
  that is passed along; what is sent to the parser is kept as a list of events, and its channel stays
  open. A read that never ends is \<open>None\<close>.
\<close>

subsection \<open>Events\<close>

datatype IngestEvent =
    ArticleFetched (ev_group: string) (ev_article_id: string) (ev_content: "string list") (ev_raw: "string option")
      (ev_baseline: "string option")
  | PatchSubmitted (sub_group: string) (sub_article_id: string) (sub_repo_url: "string option") (sub_message_id: string)
      (sub_subject: string) (sub_author: string) (sub_message: string) (sub_diff: string)
      (sub_base_commit: "string option") (sub_timestamp: int) (sub_index: nat) (sub_total: nat)
  | RawMboxSubmitted (mb_raw: string) (mb_group: string) (mb_baseline: "string option")
      (mb_skip_subjects: "string list option") (mb_only_subjects: "string list option")
  | IngestionFailed (fail_article_id: string) (fail_error: string)

subsection \<open>The NNTP client\<close>

text \<open>\<open>nt_read_line\<close> reads up to a line feed, which it keeps; at the end of the connection it reads nothing.\<close>

record 'w net =
  nt_connect :: "string \<Rightarrow> nat \<Rightarrow> ('w, unit) io"
  nt_write :: "string \<Rightarrow> ('w, unit) io"
  nt_read_line :: "('w, string) io"

record GroupInfo =
  gi_number :: nat
  gi_low :: nat
  gi_high :: nat
  gi_name :: string

definition read_response :: "'w net \<Rightarrow> ('w, string) io" where
  "read_response net = io_bind (nt_read_line net) (\<lambda>l. io_ret (trim l))"

definition nntp_connect :: "'w net \<Rightarrow> string \<Rightarrow> nat \<Rightarrow> ('w, unit) io" where
  "nntp_connect net server port =
     io_bind (nt_connect net server port) (\<lambda>_. io_bind (read_response net) (\<lambda>response.
       if starts_with response ''200'' \<or> starts_with response ''201'' then io_ret ()
       else io_fail (''Unexpected welcome message: '' @ response)))"

definition send_command :: "'w net \<Rightarrow> string \<Rightarrow> ('w, unit) io" where
  "send_command net c = nt_write net (c @ [creturn, newline])"

definition nntp_ask :: "'w net \<Rightarrow> string \<Rightarrow> ('w, string) io" where
  "nntp_ask net c = io_bind (send_command net c) (\<lambda>_. read_response net)"

text \<open>The lines of an answer, without the white space at their ends, up to the line with a dot or the end of the
  connection.\<close>

partial_function (option) read_block :: "'w net \<Rightarrow> string list \<Rightarrow> 'w \<Rightarrow> ((string + string list) \<times> 'w) option" where
  "read_block net got w =
     (case nt_read_line net w of
        (Inl e, w1) \<Rightarrow> Some (Inl e, w1)
      | (Inr buf, w1) \<Rightarrow>
          if buf = [] \<or> trim_end buf = ''.'' then Some (Inr got, w1)
          else read_block net (got @ [trim_end buf]) w1)"

definition unstuff :: "string \<Rightarrow> string" where
  "unstuff l = (if starts_with l ''..'' then tl l else l)"

type_synonym ('w, 'a) nio = "'w \<Rightarrow> ((string + 'a) \<times> 'w) option"

definition lift_io :: "('w, 'a) io \<Rightarrow> ('w, 'a) nio" where
  "lift_io m = (\<lambda>w. Some (m w))"

definition nio_bind :: "('w, 'a) nio \<Rightarrow> ('a \<Rightarrow> ('w, 'b) nio) \<Rightarrow> ('w, 'b) nio" where
  "nio_bind m f = (\<lambda>w. case m w of
     None \<Rightarrow> None | Some (Inl e, w1) \<Rightarrow> Some (Inl e, w1) | Some (Inr a, w1) \<Rightarrow> f a w1)"

definition nntp_list :: "'w net \<Rightarrow> ('w, string list) nio" where
  "nntp_list net =
     nio_bind (lift_io (nntp_ask net ''LIST'')) (\<lambda>response.
       if \<not> starts_with response ''215'' then lift_io (io_fail (''Failed to retrieve list: '' @ response))
       else nio_bind (read_block net []) (\<lambda>ls. lift_io (io_ret (List.map_filter (\<lambda>l. first (split_whitespace l)) ls))))"

definition parse_or_0 :: "string \<Rightarrow> nat" where
  "parse_or_0 s = (case parse_u64 s of Some n \<Rightarrow> n | None \<Rightarrow> 0)"

definition nntp_group :: "'w net \<Rightarrow> string \<Rightarrow> ('w, GroupInfo) io" where
  "nntp_group net group_name =
     io_bind (nntp_ask net (''GROUP '' @ group_name)) (\<lambda>response.
       if \<not> starts_with response ''211'' then io_fail (''Failed to select group '' @ group_name @ '': '' @ response)
       else let parts = split_whitespace response
         in if length parts < 5 then io_fail (''Invalid GROUP response format: '' @ response)
            else io_ret \<lparr>gi_number = parse_or_0 (parts ! 1), gi_low = parse_or_0 (parts ! 2),
                   gi_high = parse_or_0 (parts ! 3), gi_name = parts ! 4\<rparr>)"

definition nntp_article :: "'w net \<Rightarrow> string \<Rightarrow> ('w, string list) nio" where
  "nntp_article net i =
     nio_bind (lift_io (nntp_ask net (''ARTICLE '' @ i))) (\<lambda>response.
       if \<not> starts_with response ''220''
       then lift_io (io_fail (''Failed to retrieve article '' @ i @ '': '' @ response))
       else nio_bind (read_block net []) (\<lambda>ls. lift_io (io_ret (List.map unstuff ls))))"

definition nntp_quit :: "'w net \<Rightarrow> ('w, unit) io" where
  "nntp_quit net = io_bind (nntp_ask net ''QUIT'') (\<lambda>_. io_ret ())"

subsection \<open>The lists that are followed\<close>

record NntpSettings =
  ns_server :: string
  ns_port :: nat
  ns_track :: "string list"

text \<open>The groups the server has, asked for once it is needed and again as long as the question fails.\<close>

definition available_groups :: "'w net \<Rightarrow> NntpSettings \<Rightarrow> string list option \<Rightarrow> 'w \<Rightarrow> (string list option \<times> 'w) option" where
  "available_groups net st known w =
     (if known \<noteq> None then Some (known, w)
      else map_option (\<lambda>(r, w1). (case r of Inl _ \<Rightarrow> None | Inr l \<Rightarrow> Some l, w1))
        (nio_bind (lift_io (nntp_connect net (ns_server st) (ns_port st))) (\<lambda>_. nntp_list net) w))"

definition vger_group :: "string \<Rightarrow> string" where
  "vger_group entry = ''org.kernel.vger.'' @ entry"

fun tracked_groups :: "'w net \<Rightarrow> NntpSettings \<Rightarrow> string list option \<Rightarrow> string list \<Rightarrow> 'w \<Rightarrow> ((string \<times> string) list \<times> 'w) option" where
  "tracked_groups net st known [] w = Some ([], w)"
| "tracked_groups net st known (entry # es) w =
     (case split_once CHR '':'' entry of
        Some (n, g) \<Rightarrow> map_option (\<lambda>(gs, w). ((n, g) # gs, w)) (tracked_groups net st known es w)
      | None \<Rightarrow>
          if CHR ''.'' \<in> set entry
          then map_option (\<lambda>(gs, w). ((entry, entry) # gs, w)) (tracked_groups net st known es w)
          else if entry = ''linux-mm''
          then map_option (\<lambda>(gs, w). ((entry, ''org.kvack.linux-mm'') # gs, w)) (tracked_groups net st known es w)
          else (case available_groups net st known w of
             None \<Rightarrow> None
           | Some (known, w1) \<Rightarrow>
               (let g = (case Option.bind known (\<lambda>gs. List.find (\<lambda>g. ends_with g (CHR ''.'' # entry)) gs) of
                      Some found \<Rightarrow> found | None \<Rightarrow> vger_group entry)
                in map_option (\<lambda>(gs, w). ((entry, g) # gs, w)) (tracked_groups net st known es w1))))"

subsection \<open>A cycle\<close>

record 'w ingest =
  in_db :: db
  in_sent :: "IngestEvent list"
  in_world :: 'w

definition article_event :: "string \<Rightarrow> u64 \<Rightarrow> string list \<Rightarrow> IngestEvent" where
  "article_event g i ls = ArticleFetched g (show_nat (unat i)) ls None None"

definition mark :: "string \<Rightarrow> u64 \<Rightarrow> 'w ingest \<Rightarrow> 'w ingest" where
  "mark g i s = s\<lparr>in_db := update_last_article_num g i (in_db s)\<rparr>"

text \<open>The articles behind \<open>current\<close>, of which there are \<open>n\<close>.\<close>

fun fetch_pending :: "'w net \<Rightarrow> string \<Rightarrow> nat \<Rightarrow> u64 \<Rightarrow> 'w ingest \<Rightarrow> 'w ingest option" where
  "fetch_pending net g 0 current s = Some s"
| "fetch_pending net g (Suc n) current s =
     (let next_id = current + 1
      in case nntp_article net (show_nat (unat next_id)) (in_world s) of
        None \<Rightarrow> None
      | Some (Inr ls, w) \<Rightarrow>
          fetch_pending net g n next_id
            (mark g next_id (s\<lparr>in_world := w, in_sent := in_sent s @ [article_event g next_id ls]\<rparr>))
      | Some (Inl e, w) \<Rightarrow>
          if contains e ''423'' then fetch_pending net g n next_id (mark g next_id (s\<lparr>in_world := w\<rparr>))
          else Some (s\<lparr>in_world := w\<rparr>))"

definition start_mark :: "bool \<Rightarrow> nat \<Rightarrow> u64 \<Rightarrow> u64" where
  "start_mark bootstrapped high last_known =
     (if last_known = 0 \<and> high > 0 then of_nat (high - (if bootstrapped then 100 else 4000)) else last_known)"

definition process_group :: "'w net \<Rightarrow> bool \<Rightarrow> string \<times> string \<Rightarrow> 'w ingest \<Rightarrow> 'w ingest option" where
  "process_group net bootstrapped = (\<lambda>(n, g) s.
     let s = s\<lparr>in_db := ensure_mailing_list n g (in_db s)\<rparr>
     in case nntp_group net g (in_world s) of
          (Inl _, w) \<Rightarrow> Some (s\<lparr>in_world := w\<rparr>)
        | (Inr info, w) \<Rightarrow>
            (let last_known = get_last_article_num g (in_db s);
                 current = start_mark bootstrapped (gi_high info) last_known;
                 s = (if last_known = 0 \<and> gi_high info > 0 then mark g current (s\<lparr>in_world := w\<rparr>) else s\<lparr>in_world := w\<rparr>)
             in fetch_pending net g (gi_high info - unat current) current s))"

fun process_groups :: "'w net \<Rightarrow> bool \<Rightarrow> (string \<times> string) list \<Rightarrow> 'w ingest \<Rightarrow> 'w ingest option" where
  "process_groups net bootstrapped [] s = Some s"
| "process_groups net bootstrapped (g # gs) s =
     Option.bind (process_group net bootstrapped g s) (process_groups net bootstrapped gs)"

definition process_nntp_cycle :: "'w net \<Rightarrow> NntpSettings \<Rightarrow> bool \<Rightarrow> 'w ingest \<Rightarrow> ((string + unit) \<times> 'w ingest) option" where
  "process_nntp_cycle net st bootstrapped s =
     (case nntp_connect net (ns_server st) (ns_port st) (in_world s) of
        (Inl e, w) \<Rightarrow> Some (Inl e, s\<lparr>in_world := w\<rparr>)
      | (Inr _, w) \<Rightarrow>
          (case tracked_groups net st None (ns_track st) w of
             None \<Rightarrow> None
           | Some (gs, w) \<Rightarrow>
               map_option (\<lambda>s. let (r, w) = nntp_quit net (in_world s) in (r, s\<lparr>in_world := w\<rparr>))
                 (process_groups net bootstrapped gs (s\<lparr>in_world := w\<rparr>))))"

subsection \<open>Git archives\<close>

definition parse_i32 :: "string \<Rightarrow> int option" where
  "parse_i32 s =
     (let d = (case s of c # r \<Rightarrow> if c = CHR ''+'' \<or> c = CHR ''-'' then r else s | [] \<Rightarrow> []);
          v = (if first s = Some CHR ''-'' then - digits_value 0 d else digits_value 0 d)
      in if d \<noteq> [] \<and> list_all is_digit d \<and> - (2 ^ 31) \<le> v \<and> v < 2 ^ 31 then Some v else None)"

definition lore :: string where
  "lore = ''https://lore.kernel.org''"

definition epoch_of_key :: "string \<Rightarrow> string \<Rightarrow> (int \<times> string) option" where
  "epoch_of_key list_id key =
     (let prefix = ''/'' @ list_id @ ''/git/''
      in if starts_with key prefix \<and> ends_with key ''.git''
         then map_option (\<lambda>epoch. (epoch, lore @ key))
           (parse_i32 (take (length key - 4 - length prefix) (drop (length prefix) key)))
         else None)"

definition epochs_of :: "string \<Rightarrow> (string \<times> json) list \<Rightarrow> (int \<times> string) list" where
  "epochs_of list_id manifest =
     (let epochs = sort_desc fst (List.map_filter (\<lambda>(key, _). epoch_of_key list_id key) manifest)
      in if epochs = [] then [(0, lore @ ''/'' @ list_id @ ''/0.git'')] else epochs)"

definition manifest_command :: Command where
  "manifest_command = \<lparr>cm_program = ''bash'', cm_dir = [], cm_env = [],
     cm_args = [''-c'', ''curl -s https://lore.kernel.org/manifest.js.gz | gunzip''], cm_stdin = None\<rparr>"

definition find_epoch_urls :: "'w host \<Rightarrow> json_parser \<Rightarrow> (string \<Rightarrow> string) \<Rightarrow> string \<Rightarrow> ('w, (int \<times> string) list) io" where
  "find_epoch_urls ho from_slice parse_error list_id =
     io_bind (io_files (ho_run ho manifest_command)) (\<lambda>out.
       if \<not> out_success out then io_fail ''Failed to fetch manifest''
       else case from_slice (out_stdout out) of
         None \<Rightarrow> io_fail (parse_error (out_stdout out))
       | Some (JObj ms) \<Rightarrow> io_ret (epochs_of list_id ms)
       | Some _ \<Rightarrow> io_fail ''Manifest is not a JSON object'')"

definition list_id_of :: "string \<Rightarrow> string" where
  "list_id_of g = (if g = ''org.kernel.vger.linux-kernel'' then ''lkml'' else last (split_char CHR ''.'' g))"

definition resolve_git_info :: "'w host \<Rightarrow> json_parser \<Rightarrow> (string \<Rightarrow> string) \<Rightarrow> string \<Rightarrow> ('w, (int \<times> string) list \<times> path) io" where
  "resolve_git_info ho from_slice parse_error g =
     io_bind (find_epoch_urls ho from_slice parse_error (list_id_of g)) (\<lambda>epochs. io_ret (epochs, join_path [''archives''] g))"

definition bootstrap_repo :: "'w host \<Rightarrow> string \<Rightarrow> path \<Rightarrow> nat \<Rightarrow> ('w, unit) io" where
  "bootstrap_repo ho url p n = (\<lambda>w.
     if \<not> ho_exists ho w p
     then io_bind (case parent p of None \<Rightarrow> io_ret () | Some d \<Rightarrow> io_files (ho_create_dir ho d)) (\<lambda>_.
          io_bind (git_output ho [] [''clone'', ''--bare'', ''--depth='' @ show_nat n, url, ho_show_path ho p] ''Git clone failed: '')
            (\<lambda>_. io_ret ())) w
     else io_bind (run_git ho p (bare_ok @ [''remote'', ''get-url'', ''origin''])) (\<lambda>remote.
          io_bind (if out_success remote \<and> trim (out_stdout remote) \<noteq> url
                   then io_bind (run_git ho p (bare_ok @ [''remote'', ''set-url'', ''origin'', url])) (\<lambda>_. io_ret ())
                   else io_ret ()) (\<lambda>_.
          io_bind (run_git ho p (bare_ok @ [''fetch'', ''--depth='' @ show_nat n, ''origin'', ''+refs/heads/*:refs/heads/*'']))
            (\<lambda>_. io_ret ()))) w)"

text \<open>The dialogue with \<open>git cat-file --batch\<close>: \<open>reply h\<close> is what it prints when it is given \<open>h\<close>, \<open>buf\<close> what it has
  printed and has not been read.\<close>

fun read_objects :: "(string \<Rightarrow> string) \<Rightarrow> string \<Rightarrow> string list \<Rightarrow> string \<Rightarrow> IngestEvent list \<Rightarrow>
    (string + nat) \<times> IngestEvent list" where
  "read_objects reply g [] buf sent = (Inr 0, sent)"
| "read_objects reply g (line # ls) buf sent =
     (case split_whitespace line of
        [] \<Rightarrow> (Inl (''Invalid rev-list output: '' @ line), sent)
      | hash # _ \<Rightarrow>
          (let buf = buf @ reply hash
           in if buf = [] then (Inr 0, sent)
              else let (header, rest) = (case find_char newline buf of
                          None \<Rightarrow> (buf, []) | Some i \<Rightarrow> (take (Suc i) buf, drop (Suc i) buf));
                       parts = split_whitespace header
                in if length parts < 3 then read_objects reply g ls rest sent
                   else let size = parse_or_0 (parts ! 2)
                     in if length rest < Suc size then (Inl ''failed to fill whole buffer'', sent)
                        else let content = take size rest; buf = drop (Suc size) rest
                          in if parts ! 1 = ''blob''
                             then let (r, sent) = read_objects reply g ls buf (sent @ [ArticleFetched g hash [] (Some content) None])
                               in (case r of Inl e \<Rightarrow> Inl e | Inr n \<Rightarrow> Inr (Suc n), sent)
                             else read_objects reply g ls buf sent))"

definition rev_list_args :: "nat option \<Rightarrow> string list" where
  "rev_list_args limit =
     bare_ok @ [''rev-list'', ''--all'', ''--objects''] @ (case limit of None \<Rightarrow> [] | Some n \<Rightarrow> [''--max-count='' @ show_nat n])"

definition ingest_git_objects :: "'w host \<Rightarrow> (path \<Rightarrow> 'w \<Rightarrow> string \<Rightarrow> string) \<Rightarrow> string \<Rightarrow> path \<Rightarrow> nat option \<Rightarrow> 'w ingest \<Rightarrow>
    (string + nat) \<times> 'w ingest" where
  "ingest_git_objects ho cat_file g p limit s =
     (case run_git ho p (rev_list_args limit) (in_world s) of
        (Inl e, w) \<Rightarrow> (Inl e, s\<lparr>in_world := w\<rparr>)
      | (Inr out, w) \<Rightarrow>
          (let (r, sent) = read_objects (cat_file p w) g (lines (out_stdout out)) [] (in_sent s)
           in (r, s\<lparr>in_world := w, in_sent := sent\<rparr>)))"

fun bootstrap_epochs :: "'w host \<Rightarrow> (path \<Rightarrow> 'w \<Rightarrow> string \<Rightarrow> string) \<Rightarrow> string \<Rightarrow> path \<Rightarrow> (int \<times> string) list \<Rightarrow> nat \<Rightarrow>
    'w ingest \<Rightarrow> 'w ingest" where
  "bootstrap_epochs ho cat_file g base [] group_remaining s = s"
| "bootstrap_epochs ho cat_file g base ((epoch, url) # es) group_remaining s =
     (if group_remaining = 0 then s
      else let p = base @ [show_int epoch]
        in case bootstrap_repo ho url p group_remaining (in_world s) of
             (Inl _, w) \<Rightarrow> bootstrap_epochs ho cat_file g base es group_remaining (s\<lparr>in_world := w\<rparr>)
           | (Inr _, w) \<Rightarrow>
               (let (r, s) = ingest_git_objects ho cat_file g p (Some group_remaining) (s\<lparr>in_world := w\<rparr>)
                in bootstrap_epochs ho cat_file g base es
                     (case r of Inr count \<Rightarrow> group_remaining - count | Inl _ \<Rightarrow> group_remaining) s))"

fun bootstrap_groups :: "'w host \<Rightarrow> json_parser \<Rightarrow> (string \<Rightarrow> string) \<Rightarrow> (path \<Rightarrow> 'w \<Rightarrow> string \<Rightarrow> string) \<Rightarrow> nat \<Rightarrow>
    (string \<times> string) list \<Rightarrow> 'w ingest \<Rightarrow> 'w ingest" where
  "bootstrap_groups ho from_slice parse_error cat_file limit_per_group [] s = s"
| "bootstrap_groups ho from_slice parse_error cat_file limit_per_group ((n, g) # gs) s =
     (let s = s\<lparr>in_db := ensure_mailing_list n g (in_db s)\<rparr>;
          (r, w) = resolve_git_info ho from_slice parse_error g (in_world s);
          s = s\<lparr>in_world := w\<rparr>
      in bootstrap_groups ho from_slice parse_error cat_file limit_per_group gs
           (case r of
              Inl _ \<Rightarrow> s
            | Inr (epochs, base) \<Rightarrow> bootstrap_epochs ho cat_file g base epochs limit_per_group s))"

text \<open>Ceiling division.\<close>

definition div_ceil :: "nat \<Rightarrow> nat \<Rightarrow> nat" where
  "div_ceil n k = (n + k - 1) div k"

definition run_git_bootstrap :: "'w host \<Rightarrow> 'w net \<Rightarrow> NntpSettings \<Rightarrow> json_parser \<Rightarrow> (string \<Rightarrow> string) \<Rightarrow>
    (path \<Rightarrow> 'w \<Rightarrow> string \<Rightarrow> string) \<Rightarrow> nat \<Rightarrow> 'w ingest \<Rightarrow> 'w ingest option" where
  "run_git_bootstrap ho net st from_slice parse_error cat_file limit s =
     map_option (\<lambda>(groups, w).
         if groups = [] then s\<lparr>in_world := w\<rparr>
         else bootstrap_groups ho from_slice parse_error cat_file (div_ceil limit (length groups)) groups (s\<lparr>in_world := w\<rparr>))
       (tracked_groups net st None (ns_track st) (in_world s))"

end
