(* ===== verification/Ingestion_Props.thy ===== *)
theory Ingestion_Props
  imports Ingestion "HOL-Library.Sublist"
begin

text \<open>
  What the mail taken in is: the lines of an article, the articles of a list and its high-water mark, and
  the objects of an archive.
\<close>

subsection \<open>The lines of an article\<close>

text \<open>The connection gives these lines one after the other.\<close>

fun serves :: "'w net \<Rightarrow> 'w \<Rightarrow> string list \<Rightarrow> 'w \<Rightarrow> bool" where
  "serves net w [] w' \<longleftrightarrow> w' = w"
| "serves net w (l # ls) w' \<longleftrightarrow> (\<exists>w1. nt_read_line net w = (Inr l, w1) \<and> serves net w1 ls w')"

text \<open>A line as the protocol carries it: a dot in front is doubled, and it ends with the two line end characters.\<close>

definition stuff :: "string \<Rightarrow> string" where
  "stuff l = (if starts_with l ''.'' then CHR ''.'' # l else l)"

definition crlf :: string where
  "crlf = [creturn, newline]"

lemma is_space_ends [simp]: "is_space creturn" "is_space newline" "\<not> is_space CHR ''.''"
  by code_simp+

lemma trim_end_crlf [simp]: "trim_end (l @ crlf) = trim_end l"
  by (simp add: trim_end_def crlf_def)

lemma trim_end_nonspace: "\<not> is_space c \<Longrightarrow> trim_end (c # s) = c # trim_end s"
  by (cases "\<forall>x\<in>set s. is_space x") (simp_all add: trim_end_def dropWhile_append)

lemma trim_end_prefix: "\<exists>t. l = trim_end l @ t"
  by (metis rev_append rev_rev_ident takeWhile_dropWhile_id trim_end_def)

lemma unstuff_stuff: "unstuff (trim_end (stuff l)) = trim_end l \<and> trim_end (stuff l) \<noteq> ''.''"
proof (cases "starts_with l ''.''")
  case True
  then obtain r where "l = CHR ''.'' # r" by (auto simp: starts_with_iff)
  then show ?thesis by (simp add: stuff_def unstuff_def starts_with_def trim_end_nonspace)
next
  case False
  then have "\<not> starts_with (trim_end l) ''.''"
    using trim_end_prefix [of l] by (metis starts_with_iff append.assoc)
  then have "\<not> starts_with (trim_end l) ''..''" "trim_end l \<noteq> ''.''"
    by (auto simp: starts_with_iff)
  with False show ?thesis by (simp add: stuff_def unstuff_def)
qed

text \<open>Reading a block: its lines, trimmed, up to the line with a dot or the end of the connection.\<close>

definition ends_block :: "string \<Rightarrow> bool" where
  "ends_block l \<longleftrightarrow> l = [] \<or> trim_end l = ''.''"

lemma read_block_serves:
  assumes "serves net w ls w1" "\<forall>l\<in>set ls. \<not> ends_block l" "nt_read_line net w1 = (Inr e, w2)" "ends_block e"
  shows "read_block net got w = Some (Inr (got @ List.map trim_end ls), w2)"
  using assms
proof (induction ls arbitrary: w got)
  case Nil
  then show ?case by (subst read_block.simps) (simp add: ends_block_def)
next
  case (Cons l ls)
  then obtain v where v: "nt_read_line net w = (Inr l, v)" "serves net v ls w1" by auto
  have "\<not> (l = [] \<or> trim_end l = ''.'')" using Cons.prems(2) by (simp add: ends_block_def)
  then show ?case using Cons.IH [OF v(2), of "got @ [trim_end l]"] Cons.prems v(1)
    by (subst read_block.simps) simp
qed

text \<open>The request for an article and the line that accepts it.\<close>

definition accepted :: "'w net \<Rightarrow> string \<Rightarrow> 'w \<Rightarrow> 'w \<Rightarrow> bool" where
  "accepted net i w w2 \<longleftrightarrow>
     (\<exists>w1 status. nt_write net (''ARTICLE '' @ i @ crlf) w = (Inr (), w1) \<and> nt_read_line net w1 = (Inr status, w2) \<and>
        starts_with (trim status) ''220'')"

lemma article_block:
  assumes "accepted net i w w1" "serves net w1 (List.map (\<lambda>l. stuff l @ crlf) ls) w2"
    "nt_read_line net w2 = (Inr e, w3)" "ends_block e"
  shows "nntp_article net i w = Some (Inr (List.map trim_end ls), w3)"
proof -
  have "\<forall>l\<in>set (List.map (\<lambda>l. stuff l @ crlf) ls). \<not> ends_block l"
    using unstuff_stuff by (auto simp: ends_block_def crlf_def simp del: trim_end_crlf) (metis trim_end_crlf crlf_def)
  from read_block_serves [OF assms(2) this assms(3,4), of "[]"]
  have b: "read_block net [] w1 = Some (Inr (List.map (\<lambda>l. trim_end (stuff l)) ls), w3)" by (simp add: comp_def)
  have "List.map unstuff (List.map (\<lambda>l. trim_end (stuff l)) ls) = List.map trim_end ls"
    using unstuff_stuff by simp
  with b assms(1) show ?thesis
    by (auto simp: nntp_article_def nntp_ask_def send_command_def read_response_def lift_io_def nio_bind_def io_bind_def
        io_ret_def accepted_def crlf_def)
qed

subsection \<open>The articles of a list\<close>

lemma list_known_mark [simp]:
  "get_mailing_list_id_by_name g (in_db (mark g i s)) = get_mailing_list_id_by_name g (in_db s)"
  by (cases "first (filter (\<lambda>r. ml_group r = g) (mailing_lists (in_db s)))")
     (simp_all add: mark_def update_last_article_num_def get_mailing_list_id_by_name_def filter_update_same)

lemma mark_number [simp]:
  "get_mailing_list_id_by_name g (in_db s) \<noteq> None \<Longrightarrow> get_last_article_num g (in_db (mark g i s)) = i"
  by (simp add: mark_def article_num_roundtrip)

lemma mark_other [simp]: "in_sent (mark g i s) = in_sent s" "in_world (mark g i s) = in_world s"
  by (simp_all add: mark_def)

lemma ensured_row:
  "first (filter (\<lambda>r. ml_group r = g) (mailing_lists (ensure_mailing_list n g d))) \<noteq> None \<and>
   get_last_article_num g (ensure_mailing_list n g d) = get_last_article_num g d"
proof (cases "filter (\<lambda>r. ml_group r = g) (mailing_lists d)")
  case Nil
  then have "\<not> (\<exists>r\<in>set (mailing_lists d). ml_group r = g)" by (auto simp: filter_empty_conv)
  with Nil show ?thesis by (simp add: ensure_mailing_list_def get_last_article_num_def)
next
  case (Cons r rs)
  then have "r \<in> set (filter (\<lambda>r. ml_group r = g) (mailing_lists d))" by simp
  then have "\<exists>r\<in>set (mailing_lists d). ml_group r = g" by auto
  with Cons show ?thesis by (simp add: ensure_mailing_list_def get_last_article_num_def filter_update_same)
qed

lemma ensured_known: "get_mailing_list_id_by_name g (ensure_mailing_list n g d) \<noteq> None"
  using ensured_row [of g n d] by (simp add: get_mailing_list_id_by_name_def)

lemmas ensured_number = conjunct2 [OF ensured_row]

text \<open>The answers a run gets when it asks for one article after the other from behind number \<open>i\<close>, in the worlds
  that follow each other in it.\<close>

type_synonym article_answer = "string + string list"

fun asked :: "'w net \<Rightarrow> nat \<Rightarrow> article_answer list \<Rightarrow> 'w \<Rightarrow> 'w \<Rightarrow> bool" where
  "asked net i [] w w' \<longleftrightarrow> w' = w"
| "asked net i (x # xs) w w' \<longleftrightarrow>
     (\<exists>v. nntp_article net (show_nat (Suc i)) w = Some (x, v) \<and> asked net (Suc i) xs v w')"

text \<open>The articles among them, each with its number, and the answers that let the run go on: an article, or an
  error whose text has 423 in it.\<close>

fun articles_got :: "string \<Rightarrow> nat \<Rightarrow> article_answer list \<Rightarrow> IngestEvent list" where
  "articles_got g i [] = []"
| "articles_got g i (Inr ls # xs) = article_event g (of_nat (Suc i)) ls # articles_got g (Suc i) xs"
| "articles_got g i (Inl e # xs) = articles_got g (Suc i) xs"

fun goes_on :: "article_answer \<Rightarrow> bool" where
  "goes_on (Inr ls) = True"
| "goes_on (Inl e) = contains e ''423''"

lemma articles_got_stop: "\<not> goes_on x \<Longrightarrow> articles_got g i (xs @ [x]) = articles_got g i xs"
  by (induction g i xs rule: articles_got.induct) (cases x; simp)+

text \<open>How a run over \<open>n\<close> articles comes to its end, with the mark at \<open>m\<close>: all of them were asked for, or the last
  answer stopped it.\<close>

definition run_ends :: "nat \<Rightarrow> nat \<Rightarrow> article_answer list \<Rightarrow> nat \<Rightarrow> bool" where
  "run_ends start n xs m \<longleftrightarrow>
     list_all goes_on xs \<and> length xs = n \<and> m = start + n \<or>
     (\<exists>ys x. xs = ys @ [x] \<and> list_all goes_on ys \<and> \<not> goes_on x \<and> length xs \<le> n \<and> m = start + length ys)"

lemma run_ends_Cons: "run_ends (Suc i) n xs m \<Longrightarrow> goes_on x \<Longrightarrow> run_ends i (Suc n) (x # xs) m"
  unfolding run_ends_def by (auto simp: list_all_iff)

lemma fetch_pending_asks:
  assumes "fetch_pending net g n current s = Some s'" "unat current + n < 2 ^ 64"
    "get_mailing_list_id_by_name g (in_db s) \<noteq> None" "get_last_article_num g (in_db s) = current"
  shows "\<exists>xs. asked net (unat current) xs (in_world s) (in_world s') \<and>
     in_sent s' = in_sent s @ articles_got g (unat current) xs \<and>
     run_ends (unat current) n xs (unat (get_last_article_num g (in_db s')))"
  using assms
proof (induction n arbitrary: current s)
  case 0
  then show ?case by (intro exI [of _ "[]"]) (simp add: run_ends_def)
next
  case (Suc n)
  have next_nat: "unat (current + 1) = Suc (unat current)"
    using Suc.prems(2) by (simp add: unat_word_ariths)
  obtain x w where x: "nntp_article net (show_nat (unat (current + 1))) (in_world s) = Some (x, w)"
    using Suc.prems(1) by (cases "nntp_article net (show_nat (unat (current + 1))) (in_world s)") auto
  show ?case
  proof (cases "goes_on x")
    case True
    define s1 where "s1 = mark g (current + 1) (s\<lparr>in_world := w, in_sent := in_sent s @ articles_got g (unat current) [x]\<rparr>)"
    have s1: "in_world s1 = w" "in_sent s1 = in_sent s @ articles_got g (unat current) [x]"
      "get_mailing_list_id_by_name g (in_db s1) \<noteq> None" "get_last_article_num g (in_db s1) = current + 1"
      using Suc.prems(3) by (simp_all add: s1_def)
    have "fetch_pending net g n (current + 1) s1 = Some s'"
      using Suc.prems(1) True x by (cases x) (simp_all add: s1_def Let_def add.commute)
    from Suc.IH [OF this _ s1(3,4)] Suc.prems(2) next_nat s1 obtain xs where
      xs: "asked net (Suc (unat current)) xs w (in_world s')"
        "in_sent s' = in_sent s @ articles_got g (unat current) [x] @ articles_got g (Suc (unat current)) xs"
        "run_ends (Suc (unat current)) n xs (unat (get_last_article_num g (in_db s')))"
      by auto
    with x next_nat run_ends_Cons [OF xs(3) True] show ?thesis
      by (intro exI [of _ "x # xs"]) (cases x; auto)
  next
    case False
    then have "s' = s\<lparr>in_world := w\<rparr>"
      using Suc.prems(1) x by (cases x) (simp_all add: Let_def)
    with False x next_nat Suc.prems(4) show ?thesis
      by (intro exI [of _ "[x]"]) (cases x; simp add: run_ends_def)
  qed
qed

lemma parse_or_0_bound: "parse_or_0 s < 2 ^ 64"
  by (auto simp: parse_or_0_def parse_u64_def Let_def split: option.splits if_splits)

lemma group_high: "nntp_group net g w = (Inr info, w') \<Longrightarrow> gi_high info < 2 ^ 64"
  using parse_or_0_bound
  by (auto simp: nntp_group_def io_bind_def io_ret_def io_fail_def Let_def split: prod.splits sum.splits if_splits)

text \<open>C35. Of a list whose group can be selected, the articles from the mark up to the highest one are asked for in
  order. Each that the connection gives is sent once, in order and with its number; one that it refuses with an
  error whose text has 423 in it is passed over, and the first other refusal ends the run. The mark that is
  kept is the number of the last article that was sent or passed over, so it is short of the highest one only
  when the run was ended by a refusal. The text of an error has the number of the article in it, so an
  article like 1423 is passed over whatever it was refused for. What is sent is taken and the database keeps
  the mark, as the model has it; the run is one that comes to its end.\<close>

theorem articles_in_order:
  assumes "process_group net b (name, g) s = Some s'" "nntp_group net g (in_world s) = (Inr info, w)"
  defines "start \<equiv> start_mark b (gi_high info) (get_last_article_num g (in_db s))"
  shows "\<exists>xs. asked net (unat start) xs w (in_world s') \<and>
     in_sent s' = in_sent s @ articles_got g (unat start) xs \<and>
     run_ends (unat start) (gi_high info - unat start) xs (unat (get_last_article_num g (in_db s')))"
proof -
  let ?d = "ensure_mailing_list name g (in_db s)"
  define s1 where "s1 = (if get_last_article_num g (in_db s) = 0 \<and> gi_high info > 0
    then mark g start (s\<lparr>in_db := ?d, in_world := w\<rparr>) else s\<lparr>in_db := ?d, in_world := w\<rparr>)"
  have f: "fetch_pending net g (gi_high info - unat start) start s1 = Some s'"
  proof -
    have "process_group net b (name, g) s = fetch_pending net g (gi_high info - unat start) start s1"
      unfolding process_group_def Let_def case_prod_conv s1_def start_def by (simp add: assms(2) ensured_number)
    with assms(1) show ?thesis by simp
  qed
  have known: "get_mailing_list_id_by_name g (in_db s1) \<noteq> None"
    using ensured_known [of g name "in_db s"] by (simp add: s1_def)
  have "get_last_article_num g (in_db s1) = start"
    using ensured_known [of g name "in_db s"] by (auto simp: s1_def ensured_number) (auto simp: start_def start_mark_def)
  moreover have "unat start + (gi_high info - unat start) < 2 ^ 64"
  proof -
    have "unat start < 2 ^ LENGTH(64)" by (rule unsigned_less)
    with group_high [OF assms(2)] show ?thesis by simp
  qed
  moreover have "in_sent s1 = in_sent s" "in_world s1 = w" by (simp_all add: s1_def)
  ultimately show ?thesis using fetch_pending_asks [OF f _ known] by simp
qed

text \<open>A connection that gives lines from a script, whatever it is asked.\<close>

definition script_net :: "string list net" where
  "script_net = \<lparr>nt_connect = (\<lambda>h p w. (Inr (), w)), nt_write = (\<lambda>c w. (Inr (), w)),
     nt_read_line = (\<lambda>w. case w of [] \<Rightarrow> (Inr [], []) | l # ls \<Rightarrow> (Inr l, ls))\<rparr>"

definition script_lines :: "string list" where
  "script_lines = [''211 2 1 2 g'' @ crlf, ''423 no'' @ crlf, ''220 ok'' @ crlf, ''hello  '' @ crlf, ''.'' @ crlf]"

lemma script_block: "read_block script_net got w \<noteq> None"
proof (induction w arbitrary: got)
  case Nil
  show ?case by (subst read_block.simps) (simp add: script_net_def)
next
  case (Cons l w)
  have "nt_read_line script_net (l # w) = (Inr l, w)" by (simp add: script_net_def)
  then show ?case using Cons [of "got @ [trim_end l]"] by (subst read_block.simps) simp
qed

lemma script_article: "nntp_article script_net i w \<noteq> None"
  by (auto simp: nntp_article_def lift_io_def nio_bind_def script_block simp del: not_None_eq
      split: sum.splits prod.splits option.splits)

lemma script_pending: "fetch_pending script_net g n current s \<noteq> None"
proof (induction n arbitrary: current s)
  case (Suc n)
  obtain x w where "nntp_article script_net (show_nat (unat (current + 1))) (in_world s) = Some (x, w)"
    using script_article [of "show_nat (unat (current + 1))" "in_world s"] by auto
  then show ?case using Suc by (cases x) (simp_all add: Let_def)
qed simp

lemma script_group: "process_group script_net b g s \<noteq> None"
  unfolding process_group_def Let_def split_def
  by (cases "fst (nntp_group script_net (snd g) (in_world (s\<lparr>in_db := ensure_mailing_list (fst g) (snd g) (in_db s)\<rparr>)))")
     (simp_all only: script_pending sum.case option.simps not_False_eq_True)

text \<open>The first of two articles is missing and the second one is given.\<close>

theorem articles_in_order_witness:
  "(case process_group script_net False (''g'', ''g'') \<lparr>in_db = empty_db, in_sent = [], in_world = script_lines\<rparr> of
      None \<Rightarrow> False
    | Some s' \<Rightarrow> \<exists>xs. asked script_net 0 xs (drop 1 script_lines) (in_world s') \<and>
        in_sent s' = articles_got ''g'' 0 xs \<and> run_ends 0 2 xs (unat (get_last_article_num ''g'' (in_db s'))))"
proof -
  let ?s = "\<lparr>in_db = empty_db, in_sent = [], in_world = script_lines\<rparr>"
  have some: "process_group script_net False (''g'', ''g'') ?s \<noteq> None" by (rule script_group)
  have g: "(case nntp_group script_net ''g'' (in_world ?s) of
      (Inr info, w) \<Rightarrow> gi_high info = 2 \<and> w = drop 1 script_lines | _ \<Rightarrow> False)" by code_simp
  have m: "unat (start_mark False 2 (get_last_article_num ''g'' (in_db ?s))) = 0" by code_simp
  obtain s' where s': "process_group script_net False (''g'', ''g'') ?s = Some s'" using some by auto
  obtain info w where i: "nntp_group script_net ''g'' (in_world ?s) = (Inr info, w)" "gi_high info = 2"
    "w = drop 1 script_lines"
    using g by (auto split: prod.splits sum.splits)
  from articles_in_order [OF s' i(1)] m show ?thesis unfolding s' i(2,3) by simp
qed

text \<open>C38. The lines of an article come back as they were sent, without the white space at their ends, when the
  connection carries them as the protocol says: with doubled dots in front and a line with a dot behind the last
  one. A connection that ends before that line gives the lines that came before.\<close>

theorem article_roundtrip:
  assumes "accepted net i w w1" "serves net w1 (List.map (\<lambda>l. stuff l @ crlf) ls) w2"
    "nt_read_line net w2 = (Inr e, w3)" "e = ''.'' @ crlf \<or> e = []"
  shows "nntp_article net i w = Some (Inr (List.map trim_end ls), w3)"
proof -
  have "trim_end ''.'' = ''.''" by code_simp
  then have "ends_block e" using assms(4) trim_end_crlf [of "''.''"] by (auto simp: ends_block_def)
  then show ?thesis by (rule article_block [OF assms(1-3)])
qed

theorem article_roundtrip_witness:
  "nntp_article script_net ''7'' [''220 ok'' @ crlf, ''..'' @ crlf, ''+x '' @ crlf] = Some (Inr [''.'', ''+x''], [])"
proof -
  have "accepted script_net ''7'' [''220 ok'' @ crlf, ''..'' @ crlf, ''+x '' @ crlf] [''..'' @ crlf, ''+x '' @ crlf]"
  proof -
    have "starts_with (trim (''220 ok'' @ crlf)) ''220''" by code_simp
    then show ?thesis by (simp add: accepted_def script_net_def)
  qed
  moreover have "List.map (\<lambda>l. stuff l @ crlf) [''.'', ''+x ''] = [''..'' @ crlf, ''+x '' @ crlf]" by code_simp
  then have "serves script_net [''..'' @ crlf, ''+x '' @ crlf] (List.map (\<lambda>l. stuff l @ crlf) [''.'', ''+x '']) []"
    by (simp only:) (simp add: script_net_def)
  moreover have "nt_read_line script_net [] = (Inr [], [])" by (simp add: script_net_def)
  ultimately have "nntp_article script_net ''7'' [''220 ok'' @ crlf, ''..'' @ crlf, ''+x '' @ crlf] =
      Some (Inr (List.map trim_end [''.'', ''+x '']), [])"
    by (rule article_roundtrip) simp
  moreover have "List.map trim_end [''.'', ''+x ''] = [''.'', ''+x'']" by code_simp
  ultimately show ?thesis by simp
qed

text \<open>An article whose number has the digits of the code 423 is skipped for good, whatever it was refused for: the text
  of the error has the number in it.\<close>

lemma contains_in: "contains p t \<Longrightarrow> contains (a @ p @ b) t"
proof -
  have front: "contains s t \<Longrightarrow> contains (a @ s) t" for s by (induction a) auto
  have "contains p t \<Longrightarrow> contains (p @ b) t"
  proof (induction p)
    case Nil
    then have "t = []" by simp
    then show ?case by (cases b) (simp_all add: starts_with_def)
  next
    case (Cons c p)
    show ?case
    proof (cases "starts_with (c # p) t")
      case True
      then have "starts_with (c # p @ b) t" by (metis starts_with_iff append.assoc append_Cons)
      then show ?thesis by simp
    qed (use Cons in auto)
  qed
  with front show "contains p t \<Longrightarrow> contains (a @ p @ b) t" by blast
qed

theorem number_taken_for_code:
  assumes "nntp_article net (show_nat (unat (current + 1))) (in_world s) = Some (Inl e, w)"
    "e = ''Failed to retrieve article '' @ show_nat (unat (current + 1)) @ '': '' @ response"
    "contains (show_nat (unat (current + 1))) ''423''"
  shows "fetch_pending net g (Suc n) current s = fetch_pending net g n (current + 1) (mark g (current + 1) (s\<lparr>in_world := w\<rparr>))"
  using assms(1) contains_in [OF assms(3), of "''Failed to retrieve article ''" "'': '' @ response"]
  by (simp add: assms(2) Let_def)

subsection \<open>The objects of an archive\<close>

lemma parse_u64_show: "n < 2 ^ 64 \<Longrightarrow> parse_u64 (show_nat n) = Some n"
proof -
  assume n: "n < 2 ^ 64"
  note d = dec_digits_digits [of "int n"]
  then obtain c r where r: "show_nat n = c # r" and c: "is_digit c"
    by (cases "show_nat n") (auto simp: show_nat_def)
  then have "c \<noteq> CHR ''+''" by (auto simp: is_digit_def code_def)
  with n d r digits_value_dec_digits [of "int n"] show ?thesis
    by (auto simp: parse_u64_def Let_def show_nat_def)
qed

text \<open>An object by its name, its type and its content, and what \<open>git cat-file\<close> prints of it.\<close>

type_synonym git_object = "string \<times> string \<times> string"

definition plain_word :: "string \<Rightarrow> bool" where
  "plain_word s \<longleftrightarrow> s \<noteq> [] \<and> (\<forall>c\<in>set s. \<not> is_space c)"

fun object_ok :: "git_object \<Rightarrow> bool" where
  "object_ok (h, t, c) \<longleftrightarrow> plain_word h \<and> plain_word t \<and> length c < 2 ^ 64"

fun cat_reply :: "git_object \<Rightarrow> string" where
  "cat_reply (h, t, c) = h @ '' '' @ t @ '' '' @ show_nat (length c) @ newline # c @ [newline]"

definition is_blob :: "git_object \<Rightarrow> bool" where
  "is_blob x \<longleftrightarrow> fst (snd x) = ''blob''"

definition blob_event :: "string \<Rightarrow> git_object \<Rightarrow> IngestEvent" where
  "blob_event g = (\<lambda>(h, t, c). ArticleFetched g h [] (Some c) None)"

lemma show_nat_plain: "plain_word (show_nat n)"
  using dec_digits_digits [of "int n"] by (auto simp: plain_word_def show_nat_def list_all_iff is_space_def is_digit_def code_def)

lemma plain_no_newline: "plain_word s \<Longrightarrow> newline \<notin> set s"
  by (auto simp: plain_word_def)

lemma find_char_app: "c \<notin> set s \<Longrightarrow> find_char c (s @ c # t) = Some (length s)"
  by (induction s) auto

lemma header_words:
  assumes "plain_word h" "plain_word t" "plain_word n"
  shows "split_whitespace (h @ '' '' @ t @ '' '' @ n @ [newline]) = [h, t, n]"
proof -
  have sp: "is_space CHR '' ''" by code_simp
  have "split_whitespace (n @ newline # []) = [n]"
    using assms(3) split_whitespace_cons [of newline n "[]"] by (simp add: plain_word_def split_whitespace_def)
  then show ?thesis
    using assms split_whitespace_cons [OF sp, of h] split_whitespace_cons [OF sp, of t] by (simp add: plain_word_def)
qed

lemma prefix_taken: "take (length a) (a @ b) = a" "drop (length a) (a @ b) = b" for a b :: string
  by simp_all

lemma read_object:
  assumes "first (split_whitespace l) = Some h" "reply h = cat_reply (h, t, c)" "object_ok (h, t, c)"
  shows "read_objects reply g (l # ls) [] sent =
    (if is_blob (h, t, c)
     then (case read_objects reply g ls [] (sent @ [blob_event g (h, t, c)]) of (r, sent) \<Rightarrow>
             (case r of Inl e \<Rightarrow> Inl e | Inr n \<Rightarrow> Inr (Suc n), sent))
     else read_objects reply g ls [] sent)"
proof -
  obtain rest where l: "split_whitespace l = h # rest" using assms(1) by (cases "split_whitespace l") auto
  let ?n = "show_nat (length c)"
  let ?header = "h @ '' '' @ t @ '' '' @ ?n @ [newline]"
  have reply: "reply h = ?header @ c @ [newline]" by (simp add: assms(2))
  have words: "plain_word h" "plain_word t" "plain_word ?n" using assms(3) show_nat_plain by auto
  have f: "find_char newline (reply h) = Some (length (h @ '' '' @ t @ '' '' @ ?n))"
    using find_char_app [of newline "h @ '' '' @ t @ '' '' @ ?n" "c @ [newline]"] words [THEN plain_no_newline]
    by (simp add: assms(2))
  have parts: "split_whitespace ?header = [h, t, ?n]" by (rule header_words [OF words])
  have size: "parse_or_0 ?n = length c" using assms(3) by (simp add: parse_or_0_def parse_u64_show)
  have len: "Suc (length (h @ '' '' @ t @ '' '' @ ?n)) = length ?header" by simp
  have header: "take (Suc (length (h @ '' '' @ t @ '' '' @ ?n))) (reply h) = ?header"
    "drop (Suc (length (h @ '' '' @ t @ '' '' @ ?n))) (reply h) = c @ [newline]"
    unfolding reply len by (rule prefix_taken)+
  obtain k first_line n where k: "find_char newline (reply h) = Some k" "take (Suc k) (reply h) = first_line"
      "drop (Suc k) (reply h) = c @ [newline]" "split_whitespace first_line = [h, t, n]" "parse_or_0 n = length c"
    using f header parts size by blast
  have ne: "reply h \<noteq> []" by (simp add: reply)
  show ?thesis by (simp add: l k ne Let_def is_blob_def blob_event_def)
qed

text \<open>The objects git names are read in order, and every blob among them, and nothing else, is sent as an article
  with its bytes as they are.\<close>

theorem objects_roundtrip:
  assumes "list_all2 (\<lambda>l (h, t, c). first (split_whitespace l) = Some h \<and> reply h = cat_reply (h, t, c)) ls objs"
    "list_all object_ok objs"
  shows "read_objects reply g ls [] sent =
    (Inr (length (filter is_blob objs)), sent @ List.map (blob_event g) (filter is_blob objs))"
  using assms
proof (induction arbitrary: sent rule: list_all2_induct)
  case Nil
  then show ?case by simp
next
  case (Cons l ls x xs)
  obtain h t c where x: "x = (h, t, c)" by (cases x)
  have "read_objects reply g (l # ls) [] sent =
    (if is_blob x
     then (case read_objects reply g ls [] (sent @ [blob_event g x]) of (r, sent) \<Rightarrow>
             (case r of Inl e \<Rightarrow> Inl e | Inr n \<Rightarrow> Inr (Suc n), sent))
     else read_objects reply g ls [] sent)"
    using read_object [of l h reply t c g ls sent] Cons.hyps(1) Cons.prems x by simp
  with Cons.IH Cons.prems show ?case by simp
qed

theorem objects_roundtrip_witness:
  "read_objects (\<lambda>h. if h = ''a1'' then cat_reply (''a1'', ''tree'', ''x'') else cat_reply (''b2'', ''blob'', ''From: me''))
     ''g'' [''a1'', ''b2 m''] [] [] = (Inr 1, [ArticleFetched ''g'' ''b2'' [] (Some ''From: me'') None])"
proof -
  let ?reply = "\<lambda>h. if h = ''a1'' then cat_reply (''a1'', ''tree'', ''x'') else cat_reply (''b2'', ''blob'', ''From: me'')"
  let ?objs = "[(''a1'', ''tree'', ''x''), (''b2'', ''blob'', ''From: me'')]"
  have f: "first (split_whitespace ''a1'') = Some ''a1''" "first (split_whitespace ''b2 m'') = Some ''b2''" by code_simp+
  have "list_all2 (\<lambda>l (h, t, c). first (split_whitespace l) = Some h \<and> ?reply h = cat_reply (h, t, c))
      [''a1'', ''b2 m''] ?objs"
    by (simp add: f)
  moreover have "list_all object_ok ?objs" by code_simp
  ultimately show ?thesis
    using objects_roundtrip [of ?reply "[''a1'', ''b2 m'']" ?objs "''g''" "[]"]
    by (simp add: is_blob_def blob_event_def)
qed

end
