(* ===== verification/Fetcher.thy ===== *)
theory Fetcher
  imports Ingestion
begin

text \<open>
  The fetch agent (\<open>src/fetcher.rs\<close>): requests for commits and ranges of commits are collected for each
  repository; at every tick the collected ones are looked up, fetched when they are missing, taken apart
  and sent to the parser. The maps and sets of requests are lists: the order in which the hash map and
  its sets are drained is the order of the list. The channel to the parser stays open.
\<close>

subsection \<open>Requests\<close>

record FetchRequest =
  rq_repo_url :: "string option"
  rq_commit_hash :: string

type_synonym fetch_queue = "(string option \<times> string list) list"

text \<open>\<open>fa_cwd\<close> is the working directory of the process, \<open>fa_canon\<close> the path behind links when it exists, and
  \<open>fa_hash\<close> the hexadecimal text of the standard hash of a text.\<close>

record 'w agent =
  fa_host :: "'w host"
  fa_repo_path :: path
  fa_cwd :: path
  fa_canon :: "'w \<Rightarrow> path \<Rightarrow> path option"
  fa_hash :: "string \<Rightarrow> string"

record 'w fetch_state =
  ft_sent :: "IngestEvent list"
  ft_world :: 'w

definition send :: "IngestEvent \<Rightarrow> 'w fetch_state \<Rightarrow> 'w fetch_state" where
  "send e s = s\<lparr>ft_sent := ft_sent s @ [e]\<rparr>"

fun send_all :: "IngestEvent list \<Rightarrow> 'w fetch_state \<Rightarrow> 'w fetch_state" where
  "send_all [] s = s"
| "send_all (e # es) s = send_all es (send e s)"

fun enqueue :: "FetchRequest \<Rightarrow> fetch_queue \<Rightarrow> fetch_queue" where
  "enqueue r [] = [(rq_repo_url r, [rq_commit_hash r])]"
| "enqueue r ((u, cs) # q) =
     (if u = rq_repo_url r then (u, if rq_commit_hash r \<in> set cs then cs else cs @ [rq_commit_hash r]) # q
      else (u, cs) # enqueue r q)"

subsection \<open>The repository of a request\<close>

definition get_remote_name :: "'w agent \<Rightarrow> string \<Rightarrow> string" where
  "get_remote_name a url = ''fetcher-'' @ fa_hash a url"

definition url_path :: "'w agent \<Rightarrow> string \<Rightarrow> path" where
  "url_path a url = join_path (fa_cwd a) url"

definition effective_repo_path :: "'w agent \<Rightarrow> string option \<Rightarrow> 'w \<Rightarrow> path" where
  "effective_repo_path a url w =
     (case url of
        Some u \<Rightarrow> if ho_exists (fa_host a) w (url_path a u) then url_path a u else fa_repo_path a
      | None \<Rightarrow> fa_repo_path a)"

definition is_local :: "'w agent \<Rightarrow> string \<Rightarrow> 'w \<Rightarrow> bool" where
  "is_local a url w =
     (case (fa_canon a w (url_path a url), fa_canon a w (fa_repo_path a)) of
        (Some u, Some r) \<Rightarrow> u = r | _ \<Rightarrow> False)"

definition fetcher_remote :: "'w agent \<Rightarrow> string \<Rightarrow> string \<Rightarrow> ('w, unit) io" where
  "fetcher_remote a n url =
     (let git = run_git (fa_host a) (fa_repo_path a)
      in io_bind (git [''remote'', ''get-url'', n]) (\<lambda>status.
           if out_success status
           then io_bind (git [''remote'', ''get-url'', n]) (\<lambda>out.
                  if trim (out_stdout out) \<noteq> url
                  then io_bind (git [''remote'', ''set-url'', n, url]) (\<lambda>_. io_ret ()) else io_ret ())
           else io_bind (git_output (fa_host a) (fa_repo_path a) [''remote'', ''add'', n, url] ''Failed to add remote: '')
                  (\<lambda>_. io_ret ())))"

definition fetch_commits :: "'w agent \<Rightarrow> string \<Rightarrow> string list \<Rightarrow> ('w, unit) io" where
  "fetch_commits a remote commits =
     io_bind (git_output (fa_host a) (fa_repo_path a) (GIT_PROTOCOL_RESTRICTIONS @ [''fetch'', remote] @ commits) ''Fetch failed: '')
       (\<lambda>_. io_ret ())"

definition fetch_all :: "'w agent \<Rightarrow> string \<Rightarrow> ('w, unit) io" where
  "fetch_all a remote =
     io_bind (git_output (fa_host a) (fa_repo_path a) (GIT_PROTOCOL_RESTRICTIONS @ [''fetch'', remote]) ''Fetch all failed: '')
       (\<lambda>_. io_ret ())"

definition is_range :: "string \<Rightarrow> bool" where
  "is_range c = contains c ''..''"

definition present_args :: "string \<Rightarrow> string list" where
  "present_args c =
     (case find_sub ''..'' c of
        Some i \<Rightarrow> [''rev-list'', ''-n'', ''1'', take i c @ ''^{commit}..'' @ drop (i + 2) c @ ''^{commit}'']
      | None \<Rightarrow> [''rev-parse'', ''--verify'', c @ ''^{commit}''])"

definition is_present_in :: "'w agent \<Rightarrow> path \<Rightarrow> string \<Rightarrow> 'w \<Rightarrow> bool \<times> 'w" where
  "is_present_in a p c w =
     (case run_git (fa_host a) p (present_args c) w of
        (Inl _, w) \<Rightarrow> (False, w) | (Inr out, w) \<Rightarrow> (out_success out, w))"

fun missing_commits :: "'w agent \<Rightarrow> path \<Rightarrow> string list \<Rightarrow> 'w \<Rightarrow> string list \<times> 'w" where
  "missing_commits a p [] w = ([], w)"
| "missing_commits a p (c # cs) w =
     (let (present, w) = is_present_in a p c w; (rest, w) = missing_commits a p cs w
      in (if present then rest else c # rest, w))"

definition resolve_sha_in :: "'w agent \<Rightarrow> path \<Rightarrow> string \<Rightarrow> ('w, string) io" where
  "resolve_sha_in a p commit =
     io_bind (git_output (fa_host a) p [''rev-parse'', ''--verify'', commit] (''Failed to resolve SHA for '' @ commit @ '': ''))
       (\<lambda>s. io_ret (trim s))"

subsection \<open>Submitting\<close>

definition patch_event :: "string option \<Rightarrow> string \<Rightarrow> string \<Rightarrow> nat \<Rightarrow> nat \<Rightarrow> PatchMetadata \<Rightarrow> IngestEvent" where
  "patch_event url article_id message_id i n m =
     PatchSubmitted ''git-fetch'' article_id url message_id (PatchMetadata.md_subject m) (PatchMetadata.md_author m) (PatchMetadata.md_message m) (PatchMetadata.md_diff m)
       (PatchMetadata.md_base_commit m) (PatchMetadata.md_timestamp m) i n"

definition extract_patch_from_repo :: "'w agent \<Rightarrow> path \<Rightarrow> string option \<Rightarrow> string \<Rightarrow> string \<Rightarrow> nat \<Rightarrow> nat \<Rightarrow> ('w, IngestEvent) io" where
  "extract_patch_from_repo a p url commit article_id i n =
     io_bind (extract_patch_metadata (fa_host a) p commit) (\<lambda>m. io_ret (patch_event url article_id [] i n m))"

fun set_message_id :: "string \<Rightarrow> IngestEvent \<Rightarrow> IngestEvent" where
  "set_message_id sha (PatchSubmitted g i u m s au me d b t ix n) = PatchSubmitted g i u sha s au me d b t ix n"
| "set_message_id sha e = e"

fun submit_shas :: "'w agent \<Rightarrow> path \<Rightarrow> string option \<Rightarrow> string \<Rightarrow> nat \<Rightarrow> nat \<Rightarrow> string list \<Rightarrow> 'w fetch_state \<Rightarrow> 'w fetch_state" where
  "submit_shas a p url r i n [] s = s"
| "submit_shas a p url r i n (sha # shas) s =
     (case extract_patch_from_repo a p url sha r (Suc i) n (ft_world s) of
        (Inl _, w) \<Rightarrow> submit_shas a p url r (Suc i) n shas (s\<lparr>ft_world := w\<rparr>)
      | (Inr e, w) \<Rightarrow> submit_shas a p url r (Suc i) n shas (send (set_message_id sha e) (s\<lparr>ft_world := w\<rparr>)))"

definition submit_range :: "'w agent \<Rightarrow> path \<Rightarrow> string option \<Rightarrow> string \<Rightarrow> 'w fetch_state \<Rightarrow> 'w fetch_state" where
  "submit_range a p url r s =
     (case resolve_git_range (fa_host a) p r (ft_world s) of
        (Inl e, w) \<Rightarrow> send (IngestionFailed r (''Failed to resolve git range: '' @ e)) (s\<lparr>ft_world := w\<rparr>)
      | (Inr shas, w) \<Rightarrow>
          if length shas = 0 then send (IngestionFailed r ''Git range is empty'') (s\<lparr>ft_world := w\<rparr>)
          else submit_shas a p url r 0 (length shas) shas (s\<lparr>ft_world := w\<rparr>))"

definition submit_commit :: "'w agent \<Rightarrow> path \<Rightarrow> string option \<Rightarrow> string \<Rightarrow> 'w fetch_state \<Rightarrow> 'w fetch_state" where
  "submit_commit a p url c s =
     (case resolve_sha_in a p c (ft_world s) of
        (Inl e, w) \<Rightarrow> send (IngestionFailed c (''Failed to resolve SHA: '' @ e)) (s\<lparr>ft_world := w\<rparr>)
      | (Inr sha, w) \<Rightarrow>
          (case extract_patch_from_repo a p url sha c 1 1 w of
             (Inl e, w) \<Rightarrow> send (IngestionFailed c (''Failed to extract patch: '' @ e)) (s\<lparr>ft_world := w\<rparr>)
           | (Inr e, w) \<Rightarrow> send (set_message_id sha e) (s\<lparr>ft_world := w\<rparr>)))"

fun submit_all :: "'w agent \<Rightarrow> path \<Rightarrow> string option \<Rightarrow> string list \<Rightarrow> 'w fetch_state \<Rightarrow> 'w fetch_state" where
  "submit_all a p url [] s = s"
| "submit_all a p url (c # cs) s =
     submit_all a p url cs (if is_range c then submit_range a p url c s else submit_commit a p url c s)"

subsection \<open>The queue\<close>

text \<open>The fetch of the missing commits from a remote; an error is the text that is sent for each of them.\<close>

definition fetch_missing :: "'w agent \<Rightarrow> string option \<Rightarrow> string list \<Rightarrow> ('w, unit) io" where
  "fetch_missing a url missing = (\<lambda>w.
     case url of
       None \<Rightarrow> (Inr (), w)
     | Some u \<Rightarrow>
         if missing = [] \<or> is_local a u w then (Inr (), w)
         else (case fetcher_remote a (get_remote_name a u) u w of
                 (Inl e, w) \<Rightarrow> (Inl (''Failed to set up remote '' @ u @ '': '' @ e), w)
               | (Inr _, w) \<Rightarrow>
                   (case fetch_commits a (get_remote_name a u) missing w of
                      (Inr _, w) \<Rightarrow> (Inr (), w)
                    | (Inl _, w) \<Rightarrow>
                        (case fetch_all a (get_remote_name a u) w of
                           (Inl e, w) \<Rightarrow> (Inl (''Failed to fetch from '' @ u @ '': '' @ e), w)
                         | (Inr _, w) \<Rightarrow> (Inr (), w)))))"

definition process_repo :: "'w agent \<Rightarrow> string option \<times> string list \<Rightarrow> 'w fetch_state \<Rightarrow> 'w fetch_state" where
  "process_repo a = (\<lambda>(url, commits) s.
     if commits = [] then s
     else let p = effective_repo_path a url (ft_world s);
              (missing, w) = missing_commits a p commits (ft_world s)
       in case fetch_missing a url missing w of
            (Inl e, w) \<Rightarrow> send_all (List.map (\<lambda>c. IngestionFailed c e) missing) (s\<lparr>ft_world := w\<rparr>)
          | (Inr _, w) \<Rightarrow> submit_all a p url commits (s\<lparr>ft_world := w\<rparr>))"

fun process_queue :: "'w agent \<Rightarrow> fetch_queue \<Rightarrow> 'w fetch_state \<Rightarrow> 'w fetch_state" where
  "process_queue a [] s = s"
| "process_queue a (r # q) s = process_queue a q (process_repo a r s)"

datatype agent_input = Receive FetchRequest | Tick

fun agent_step :: "'w agent \<Rightarrow> agent_input \<Rightarrow> fetch_queue \<times> 'w fetch_state \<Rightarrow> fetch_queue \<times> 'w fetch_state" where
  "agent_step a (Receive r) (q, s) = (enqueue r q, s)"
| "agent_step a Tick (q, s) = ([], process_queue a q s)"

end
