(* ===== verification/Git_Props.thy ===== *)
theory Git_Props
  imports Git_Ops
begin

text \<open>
  What the operations of \<open>Git_Ops\<close> do: the commands that are run for a remote, and the parts of a commit
  read back.
\<close>

subsection \<open>Searching texts\<close>

lemma find_sub_None: "find_sub p s = None \<longleftrightarrow> \<not> contains s p"
  by (induction s) auto

lemma find_sub_split: "find_sub p s = Some i \<Longrightarrow> s = take i s @ p @ drop (i + length p) s"
proof (induction s arbitrary: i)
  case (Cons c s)
  show ?case
  proof (cases "starts_with (c # s) p")
    case True
    then show ?thesis using Cons.prems by (auto simp: starts_with_iff)
  next
    case False
    then obtain j where "i = Suc j" "find_sub p s = Some j" using Cons.prems by auto
    with Cons.IH show ?thesis by auto
  qed
qed (auto split: if_splits)

lemma find_sub_first: "p \<noteq> [] \<Longrightarrow> \<not> contains (s @ butlast p) p \<Longrightarrow> find_sub p (s @ p @ t) = Some (length s)"
proof (induction s)
  case Nil
  then show ?case by (cases p) (auto simp: starts_with_def)
next
  case (Cons c s)
  have eq: "(c # s) @ p @ t = ((c # s) @ butlast p) @ last p # t" using Cons.prems(1) by simp
  have "length p \<le> length ((c # s) @ butlast p)" by simp
  from starts_with_longer [OF this, of "last p # t"] Cons.prems(2)
  have "\<not> starts_with ((c # s) @ p @ t) p" unfolding eq by (simp add: Cons.prems(1))
  moreover have "find_sub p (s @ p @ t) = Some (length s)" using Cons by simp
  ultimately show ?case by simp
qed

lemma split_text_first:
  "p \<noteq> [] \<Longrightarrow> \<not> contains (s @ butlast p) p \<Longrightarrow> split_text p (s @ p @ t) = s # split_text p t"
  by (subst split_text.simps) (simp add: find_sub_first)

lemma split_text_not_Nil [simp]: "split_text p s \<noteq> []"
  by (subst split_text.simps) (simp split: option.split)

lemma join_split: "p \<noteq> [] \<Longrightarrow> join p (split_text p s) = s"
proof (induction p s rule: split_text.induct)
  case (1 p s)
  show ?case
  proof (cases "find_sub p s")
    case None then show ?thesis by (subst split_text.simps) simp
  next
    case (Some i)
    obtain x xs where rest: "split_text p (drop (i + length p) s) = x # xs"
      by (metis list.exhaust split_text_not_Nil)
    have "join p (x # xs) = drop (i + length p) s" using 1 Some rest by auto
    then show ?thesis using find_sub_split [OF Some] 1(2) Some rest by (subst split_text.simps) simp
  qed
qed

lemma split_on_prefix:
  "\<forall>x\<in>set a. \<not> P x \<Longrightarrow> split_on P (a @ t) = (a @ hd (split_on P t)) # tl (split_on P t)"
proof (induction a)
  case Nil show ?case by (simp add: split_on_not_Nil)
qed simp

lemma bad_tag_form: "bad_tag e = Some t \<Longrightarrow> starts_with t ''refs/tags/''"
proof -
  assume "bad_tag e = Some t"
  then obtain i where i: "find_sub ''refs/tags/'' e = Some i" "first (split_whitespace (drop i e)) = Some t"
    by (auto simp: bad_tag_def bind_eq_Some_conv split: if_splits)
  define rest where "rest = drop (i + length ''refs/tags/'') e"
  have "drop i e = ''refs/tags/'' @ rest"
    using arg_cong [OF find_sub_split [OF i(1)], of "drop i"] find_sub_bound [OF i(1)] by (simp add: rest_def)
  moreover have "\<forall>x\<in>set ''refs/tags/''. \<not> is_space x" by (simp add: is_space_def) code_simp
  ultimately have "split_on is_space (drop i e) =
      (''refs/tags/'' @ hd (split_on is_space rest)) # tl (split_on is_space rest)"
    using split_on_prefix [of "''refs/tags/''" is_space rest] by simp
  then have "split_whitespace (drop i e) = (''refs/tags/'' @ hd (split_on is_space rest)) #
      filter (\<lambda>w. w \<noteq> []) (tl (split_on is_space rest))"
    by (simp add: split_whitespace_def)
  with i(2) show ?thesis by (auto simp: starts_with_iff)
qed

subsection \<open>The commands for a remote\<close>

lemma git_command_eq [simp]: "git_command d a = git_command d' b \<longleftrightarrow> d = d' \<and> a = b"
  by (auto simp: git_command_def)

lemma same_run:
  assumes "agree_on P ho ho'" "P (git_command dir args)"
  shows "run_git ho' dir args = run_git ho dir args"
  using assms by (auto simp: agree_on_def run_git_def)

lemma same_host:
  assumes "agree_on P ho ho'"
  shows "ho_exists ho' = ho_exists ho" "ho_create_dir ho' = ho_create_dir ho" "ho_touch ho' = ho_touch ho"
    "ho_age ho' = ho_age ho" "ho_show_path ho' = ho_show_path ho"
  using assms by (auto simp: agree_on_def)

text \<open>What making sure of a remote can run, whatever git and the network answer: asking for the remote and
  its head, adding it, deleting a reference below \<open>refs/tags/\<close>, and fetching and setting the head under
  the restrictions of protocols (only http, https, git, ssh and file). Two machines that agree on these
  commands cannot be told apart.\<close>

theorem remote_commands:
  assumes "agree_on (remote_command repo_path n url) ho ho'"
  shows "ensure_remote ho' repo_path n url force_fetch = ensure_remote ho repo_path n url force_fetch"
proof -
  have run: "run_git ho' repo_path args = run_git ho repo_path args"
    if "remote_command repo_path n url (git_command repo_path args)" for args
    using same_run [OF assms that] .
  have add: "add_remote ho' repo_path n url = add_remote ho repo_path n url"
  proof -
    have "remote_command repo_path n url (git_command repo_path [''remote'', ''get-url'', n])"
      "remote_command repo_path n url (git_command repo_path [''remote'', ''add'', n, url])"
      by (simp_all add: remote_command_def)
    then show ?thesis by (simp only: add_remote_def run)
  qed
  have ref: "ref_exists ho' repo_path (''refs/remotes/'' @ n @ ''/HEAD'') = ref_exists ho repo_path (''refs/remotes/'' @ n @ ''/HEAD'')"
  proof -
    have "remote_command repo_path n url (git_command repo_path [''show-ref'', ''--verify'', ''-q'', ''refs/remotes/'' @ n @ ''/HEAD''])"
      by (simp add: remote_command_def)
    then show ?thesis by (simp only: ref_exists_def run)
  qed
  have tag: "run_git ho' repo_path [''update-ref'', ''-d'', t] = run_git ho repo_path [''update-ref'', ''-d'', t]"
    if "bad_tag e = Some t" for e t
    using bad_tag_form [OF that] by (intro run) (simp add: remote_command_def)
  have "run_git ho' repo_path (fetch_args n) = run_git ho repo_path (fetch_args n)"
    by (rule run) (simp add: remote_command_def fetch_args_def)
  then have fetch: "fetch_remote ho' repo_path n = fetch_remote ho repo_path n"
    using tag by (auto simp: fetch_remote_def fun_eq_iff io_bind_def split: prod.split sum.split option.split)
  have head: "run_git ho' repo_path (GIT_PROTOCOL_RESTRICTIONS @ [''remote'', ''set-head'', n, ''--auto'']) =
      run_git ho repo_path (GIT_PROTOCOL_RESTRICTIONS @ [''remote'', ''set-head'', n, ''--auto''])"
    by (rule run) (simp add: remote_command_def)
  show ?thesis by (simp only: ensure_remote_def add ref fetch head same_host [OF assms])
qed

text \<open>A machine whose commands all fail with a text, but those in question.\<close>

definition sample_host :: "(Command \<Rightarrow> bool) \<Rightarrow> unit host" where
  "sample_host P =
     \<lparr>ho_run = (\<lambda>c w. if P c then (Inr \<lparr>out_success = True, out_stdout = ''ok'', out_stderr = [], ex_code = Some 0\<rparr>, w)
        else (Inl (OtherIo ''no''), w)),
      ho_exists = (\<lambda>w p. True), ho_create_dir = (\<lambda>p w. (Inr (), w)), ho_remove_dir = (\<lambda>p w. (Inr (), w)),
      ho_temp_dir = (\<lambda>s p w. (Inr [], w)), ho_touch = (\<lambda>p w. w), ho_age = (\<lambda>w p. None), ho_seconds = (\<lambda>w. 0),
      ho_show_path = (\<lambda>p. join ''/'' p)\<rparr>"

theorem remote_commands_witness:
  "ho_run (sample_host (\<lambda>_. True)) (git_command [] [''gc'']) () \<noteq>
     ho_run (sample_host (remote_command [] ''o'' ''u'')) (git_command [] [''gc'']) () \<and>
   ensure_remote (sample_host (remote_command [] ''o'' ''u'')) [] ''o'' ''u'' True =
     ensure_remote (sample_host (\<lambda>_. True)) [] ''o'' ''u'' True"
proof
  have "\<not> remote_command [] ''o'' ''u'' (git_command [] [''gc''])"
    by (simp add: remote_command_def GIT_PROTOCOL_RESTRICTIONS_def)
  then show "ho_run (sample_host (\<lambda>_. True)) (git_command [] [''gc'']) () \<noteq>
     ho_run (sample_host (remote_command [] ''o'' ''u'')) (git_command [] [''gc'']) ()"
    by (simp add: sample_host_def)
  show "ensure_remote (sample_host (remote_command [] ''o'' ''u'')) [] ''o'' ''u'' True =
     ensure_remote (sample_host (\<lambda>_. True)) [] ''o'' ''u'' True"
  proof (rule remote_commands)
    show "agree_on (remote_command [] ''o'' ''u'') (sample_host (\<lambda>_. True)) (sample_host (remote_command [] ''o'' ''u''))"
      unfolding agree_on_def
      by (rule exI [of _ "ho_run (sample_host (remote_command [] ''o'' ''u''))"]) (simp add: sample_host_def fun_eq_iff)
  qed
qed

subsection \<open>The parts of a commit\<close>

definition commit_author :: "string \<Rightarrow> string \<Rightarrow> string" where
  "commit_author author_name email =
     (if trim author_name = [] \<or> lower (trim author_name) = ''unknown'' then trim email
      else trim author_name @ '' <'' @ trim email @ ''>'')"

text \<open>C32. A commit that git shows in the format of \<open>extract_patch_metadata\<close> is read back: author, subject, message
  and the diff as it is, also when the diff has the line that ends the header. The header itself must not
  have that line.\<close>

theorem parse_commit_roundtrip:
  assumes "\<forall>l\<in>set (author_name # email # subject # body). newline \<notin> set l \<and> (l = [] \<or> last l \<noteq> creturn)"
    and "\<not> contains (unlines (author_name # email # subject # body) @ header_end) (header_end @ [newline])"
  shows "parse_commit (unlines (author_name # email # subject # body) @ header_end @ [newline] @ diff) =
    Some (commit_author author_name email, trim subject, trim (join [newline] body), diff)"
proof -
  let ?h = "unlines (author_name # email # subject # body)"
  let ?p = "header_end @ [newline]"
  have "split_text ?p (?h @ ?p @ diff) = ?h # split_text ?p diff"
    using assms(2) by (intro split_text_first) simp_all
  moreover obtain p ps where "split_text ?p diff = p # ps"
    by (metis list.exhaust split_text_not_Nil)
  moreover have "join ?p (split_text ?p diff) = diff" by (rule join_split) simp
  moreover have "lines ?h = author_name # email # subject # body"
    by (rule lines_unlines [OF assms(1)])
  ultimately show ?thesis by (simp add: parse_commit_def commit_author_def)
qed

theorem parse_commit_roundtrip_witness:
  "parse_commit (''Ann'' @ [newline] @ ''a@b'' @ [newline] @ ''fix'' @ [newline] @ ''why'' @ [newline] @ header_end @ [newline] @ ''diff'') =
    Some (''Ann <a@b>'', ''fix'', ''why'', ''diff'')"
proof -
  have "\<not> contains (unlines [''Ann'', ''a@b'', ''fix'', ''why''] @ header_end) (header_end @ [newline])" by code_simp
  moreover have "\<forall>l\<in>set [''Ann'', ''a@b'', ''fix'', ''why'']. newline \<notin> set l \<and> (l = [] \<or> last l \<noteq> creturn)" by code_simp
  moreover have "commit_author ''Ann'' ''a@b'' = ''Ann <a@b>''" "trim ''fix'' = ''fix''" "trim (join [newline] [''why'']) = ''why''"
    by code_simp+
  ultimately show ?thesis
    using parse_commit_roundtrip [of "''Ann''" "''a@b''" "''fix''" "[''why'']" "''diff''"] by (simp add: unlines_def)
qed

end
