(* ===== verification/Fetch_Props.thy ===== *)
theory Fetch_Props
  imports Fetcher Git_Props "HOL-Library.Sublist"
begin

text \<open>
  What the fetch agent answers: which requests get an event, how the commits of a range are numbered, and
  that a queue answers its repositories one by one.
\<close>

subsection \<open>Events of one repository\<close>

fun event_id :: "IngestEvent \<Rightarrow> string option" where
  "event_id (PatchSubmitted g i u m s au me d b t ix n) = Some i"
| "event_id (IngestionFailed i e) = Some i"
| "event_id _ = None"

lemma ft_sent_send [simp]: "ft_sent (send e s) = ft_sent s @ [e]" "ft_world (send e s) = ft_world s"
  by (simp_all add: send_def)

lemma send_all_simps [simp]: "ft_sent (send_all es s) = ft_sent s @ es" "ft_world (send_all es s) = ft_world s"
  by (induction es arbitrary: s) auto

lemma extract_event:
  "extract_patch_from_repo a p url c r i n w = (Inr e, w') \<Longrightarrow> \<exists>m. e = patch_event url r [] i n m"
  by (auto simp: extract_patch_from_repo_def io_bind_def io_ret_def split: prod.splits sum.splits)

lemma set_message_id_event: "set_message_id sha (patch_event url r [] i n m) = patch_event url r sha i n m"
  by (simp add: patch_event_def)

lemma event_id_patch [simp]: "event_id (patch_event url r sha i n m) = Some r"
  by (simp add: patch_event_def)

text \<open>The patches of a range: the positions that were extracted, each with its own number.\<close>

definition numbered :: "string option \<Rightarrow> string \<Rightarrow> nat \<Rightarrow> (nat \<times> string) list \<Rightarrow> IngestEvent list \<Rightarrow> bool" where
  "numbered url r n ps es \<longleftrightarrow> list_all2 (\<lambda>(i, sha) e. \<exists>m. e = patch_event url r sha i n m) ps es"

lemma numbered_Cons: "numbered url r n ((i, sha) # ps) (patch_event url r sha i n m # es) = numbered url r n ps es"
  by (auto simp: numbered_def)

lemma submit_shas_events:
  "\<exists>ps es. ft_sent (submit_shas a p url r i n shas s) = ft_sent s @ es \<and> numbered url r n ps es \<and>
     subseq ps (enumerate (Suc i) shas)"
proof (induction shas arbitrary: i s)
  case Nil
  show ?case by (rule exI [of _ "[]"], rule exI [of _ "[]"]) (simp add: numbered_def)
next
  case (Cons sha shas)
  obtain x w where x: "extract_patch_from_repo a p url sha r (Suc i) n (ft_world s) = (x, w)"
    by (cases "extract_patch_from_repo a p url sha r (Suc i) n (ft_world s)")
  show ?case
  proof (cases x)
    case (Inl e)
    obtain ps es where ih: "ft_sent (submit_shas a p url r (Suc i) n shas (s\<lparr>ft_world := w\<rparr>)) = ft_sent s @ es"
        "numbered url r n ps es" "subseq ps (enumerate (Suc (Suc i)) shas)"
      using Cons.IH [of "Suc i" "s\<lparr>ft_world := w\<rparr>"] by auto
    have "ft_sent (submit_shas a p url r i n (sha # shas) s) = ft_sent s @ es" by (simp add: x Inl ih)
    moreover have "subseq ps (enumerate (Suc i) (sha # shas))" using ih(3) by (simp add: list_emb_Cons)
    ultimately show ?thesis using ih(2) by blast
  next
    case (Inr e)
    obtain m where m: "e = patch_event url r [] (Suc i) n m"
      using extract_event [of a p url sha r "Suc i" n "ft_world s" e w] x Inr by auto
    let ?e = "patch_event url r sha (Suc i) n m"
    obtain ps es where ih: "ft_sent (submit_shas a p url r (Suc i) n shas (send ?e (s\<lparr>ft_world := w\<rparr>))) = (ft_sent s @ [?e]) @ es"
        "numbered url r n ps es" "subseq ps (enumerate (Suc (Suc i)) shas)"
      using Cons.IH [of "Suc i" "send ?e (s\<lparr>ft_world := w\<rparr>)"] by auto
    have "ft_sent (submit_shas a p url r i n (sha # shas) s) = ft_sent s @ ?e # es"
      by (simp add: x Inr m set_message_id_event ih)
    moreover have "subseq ((Suc i, sha) # ps) (enumerate (Suc i) (sha # shas))" using ih(3) by simp
    moreover have "numbered url r n ((Suc i, sha) # ps) (?e # es)" using ih(2) by (simp add: numbered_Cons)
    ultimately show ?thesis by blast
  qed
qed

lemma numbered_ids: "numbered url r n ps es \<Longrightarrow> e \<in> set es \<Longrightarrow> event_id e = Some r"
  unfolding numbered_def by (induction rule: list_all2_induct) auto

lemma submit_range_ids:
  "\<exists>es. ft_sent (submit_range a p url r s) = ft_sent s @ es \<and> (\<forall>e\<in>set es. event_id e = Some r)"
proof -
  obtain x w where x: "resolve_git_range (fa_host a) p r (ft_world s) = (x, w)"
    by (cases "resolve_git_range (fa_host a) p r (ft_world s)")
  show ?thesis
  proof (cases x)
    case (Inl e) then show ?thesis by (simp add: submit_range_def x)
  next
    case (Inr shas)
    then show ?thesis
      using submit_shas_events [of a p url r 0 "length shas" shas "s\<lparr>ft_world := w\<rparr>"] numbered_ids
      by (cases "shas = []") (fastforce simp: submit_range_def x)+
  qed
qed

lemma submit_commit_id: "\<exists>e. ft_sent (submit_commit a p url c s) = ft_sent s @ [e] \<and> event_id e = Some c"
proof -
  obtain x w where x: "resolve_sha_in a p c (ft_world s) = (x, w)"
    by (cases "resolve_sha_in a p c (ft_world s)")
  show ?thesis
  proof (cases x)
    case (Inl e) then show ?thesis by (simp add: submit_commit_def x)
  next
    case (Inr sha)
    obtain y v where y: "extract_patch_from_repo a p url sha c 1 1 w = (y, v)"
      by (cases "extract_patch_from_repo a p url sha c 1 1 w")
    show ?thesis
    proof (cases y)
      case (Inl e) then show ?thesis by (simp add: submit_commit_def x Inr y del: One_nat_def)
    next
      case b: (Inr e)
      then obtain m where "e = patch_event url c [] 1 1 m"
        using extract_event [of a p url sha c 1 1 w e v] y b by auto
      with b show ?thesis by (simp add: submit_commit_def x Inr y set_message_id_event del: One_nat_def)
    qed
  qed
qed

definition answer_count :: "string \<Rightarrow> IngestEvent list \<Rightarrow> nat" where
  "answer_count c es = length (filter (\<lambda>e. event_id e = Some c) es)"

lemma answers_simps [simp]:
  "answer_count c [] = 0" "answer_count c (e # es) = (if event_id e = Some c then Suc (answer_count c es) else answer_count c es)"
  "answer_count c (es @ fs) = answer_count c es + answer_count c fs"
  by (simp_all add: answer_count_def)

lemma answers_other: "\<forall>e\<in>set es. event_id e = Some d \<Longrightarrow> d \<noteq> c \<Longrightarrow> answer_count c es = 0"
  by (simp add: answer_count_def filter_empty_conv)

text \<open>Every single commit is answered once in the last step.\<close>

lemma submit_all_answers:
  "distinct cs \<Longrightarrow> \<not> is_range c \<Longrightarrow> \<exists>es. ft_sent (submit_all a p url cs s) = ft_sent s @ es \<and>
     answer_count c es = (if c \<in> set cs then 1 else 0)"
proof (induction cs arbitrary: s)
  case (Cons d cs)
  define s' where "s' = (if is_range d then submit_range a p url d s else submit_commit a p url d s)"
  obtain es where es: "ft_sent s' = ft_sent s @ es" "answer_count c es = (if d = c then 1 else 0)"
  proof (cases "is_range d")
    case True
    then have "d \<noteq> c" using Cons.prems by auto
    then show thesis using submit_range_ids [of a p url d s] that True answers_other unfolding s'_def by fastforce
  next
    case False
    then show thesis using submit_commit_id [of a p url d s] that unfolding s'_def by fastforce
  qed
  obtain fs where "ft_sent (submit_all a p url cs s') = ft_sent s' @ fs" "answer_count c fs = (if c \<in> set cs then 1 else 0)"
    using Cons.IH [of s'] Cons.prems by auto
  then show ?case using es Cons.prems by (auto simp: s'_def [symmetric])
qed simp

lemma missing_commits_subset: "set (fst (missing_commits a p cs w)) \<subseteq> set cs"
proof (induction cs arbitrary: w)
  case (Cons c cs)
  obtain b v where b: "is_present_in a p c w = (b, v)" by (cases "is_present_in a p c w")
  obtain m u where m: "missing_commits a p cs v = (m, u)" by (cases "missing_commits a p cs v")
  show ?case using Cons.IH [of v] b m by auto
qed simp

lemma missing_commits_distinct: "distinct cs \<Longrightarrow> distinct (fst (missing_commits a p cs w))"
proof (induction cs arbitrary: w)
  case (Cons c cs)
  obtain b v where b: "is_present_in a p c w = (b, v)" by (cases "is_present_in a p c w")
  obtain m u where m: "missing_commits a p cs v = (m, u)" by (cases "missing_commits a p cs v")
  show ?case using Cons.IH [of v] Cons.prems missing_commits_subset [of a p cs v] b m by auto
qed simp

lemma answers_failures: "distinct cs \<Longrightarrow> answer_count c (List.map (\<lambda>c. IngestionFailed c e) cs) = (if c \<in> set cs then 1 else 0)"
  by (induction cs) auto

text \<open>The commits a repository is asked for that are missing in it, and what the attempt to fetch them gives.\<close>

definition lacking :: "'w agent \<Rightarrow> string option \<Rightarrow> string list \<Rightarrow> 'w \<Rightarrow> string list" where
  "lacking a url cs w = fst (missing_commits a (effective_repo_path a url w) cs w)"

definition fetched :: "'w agent \<Rightarrow> string option \<Rightarrow> string list \<Rightarrow> 'w \<Rightarrow> string + unit" where
  "fetched a url cs w =
     (let (missing, w) = missing_commits a (effective_repo_path a url w) cs w in fst (fetch_missing a url missing w))"

lemma process_repo_fetched:
  assumes "cs \<noteq> []" "fetched a url cs (ft_world s) = Inr u"
  shows "\<exists>w. process_repo a (url, cs) s = submit_all a (effective_repo_path a url (ft_world s)) url cs (s\<lparr>ft_world := w\<rparr>)"
  using assms by (auto simp: process_repo_def fetched_def split: prod.splits sum.splits)

lemma process_repo_failed:
  assumes "cs \<noteq> []" "fetched a url cs (ft_world s) = Inl e"
  shows "\<exists>w. process_repo a (url, cs) s =
    send_all (List.map (\<lambda>c. IngestionFailed c e) (lacking a url cs (ft_world s))) (s\<lparr>ft_world := w\<rparr>)"
  using assms by (auto simp: process_repo_def fetched_def lacking_def split: prod.splits sum.splits)

text \<open>C36. A commit that is asked for once is answered by exactly one event, the patch or the failure, when the
  fetch of its repository goes well or the commit itself was missing. When the fetch fails, a commit that was
  found in the repository gets no event at all.\<close>

theorem requests_answered:
  assumes "distinct cs" "c \<in> set cs" "\<not> is_range c"
  shows "\<exists>es. ft_sent (process_repo a (url, cs) s) = ft_sent s @ es \<and>
     answer_count c es = (if fetched a url cs (ft_world s) = Inr () \<or> c \<in> set (lacking a url cs (ft_world s)) then 1 else 0)"
proof -
  from assms(2) have cs: "cs \<noteq> []" by auto
  show ?thesis
  proof (cases "fetched a url cs (ft_world s)")
    case (Inr u)
    obtain w where w: "process_repo a (url, cs) s =
        submit_all a (effective_repo_path a url (ft_world s)) url cs (s\<lparr>ft_world := w\<rparr>)"
      using process_repo_fetched [OF cs Inr] by blast
    show ?thesis
      using submit_all_answers [OF assms(1,3), of a "effective_repo_path a url (ft_world s)" url "s\<lparr>ft_world := w\<rparr>"] assms(2)
      by (simp add: w Inr)
  next
    case (Inl e)
    have "distinct (lacking a url cs (ft_world s))"
      using assms(1) by (simp add: lacking_def missing_commits_distinct)
    with process_repo_failed [OF cs Inl] Inl show ?thesis by (auto simp: answers_failures)
  qed
qed

text \<open>A repository that has one of two commits and whose remote cannot be added.\<close>

definition sample_agent :: "(Command \<Rightarrow> bool) \<Rightarrow> unit agent" where
  "sample_agent P = \<lparr>fa_host = sample_host P, fa_repo_path = [''repo''], fa_cwd = [], fa_canon = (\<lambda>w p. None),
     fa_hash = (\<lambda>s. s)\<rparr>"

definition has_good :: "Command \<Rightarrow> bool" where
  "has_good c = (cm_args c = present_args ''good'')"

theorem requests_answered_witness:
  "\<exists>es. ft_sent (process_repo (sample_agent has_good) (Some ''u'', [''good'', ''bad'']) \<lparr>ft_sent = [], ft_world = ()\<rparr>) = es \<and>
     answer_count ''good'' es = 0"
proof -
  let ?a = "sample_agent has_good" and ?s = "\<lparr>ft_sent = [], ft_world = ()\<rparr>"
  have "(case fetched ?a (Some ''u'') [''good'', ''bad''] () of Inl _ \<Rightarrow> True | Inr _ \<Rightarrow> False)" by code_simp
  moreover have "lacking ?a (Some ''u'') [''good'', ''bad''] () = [''bad'']" by code_simp
  moreover have "\<not> is_range ''good''" by code_simp
  ultimately show ?thesis
    using requests_answered [of "[''good'', ''bad'']" "''good''" ?a "Some ''u''" ?s] by (auto split: sum.splits)
qed

subsection \<open>Ranges\<close>

text \<open>The commits of a range are sent with their place in the range and its length; a commit that cannot be
  read leaves a hole in the numbers.\<close>

theorem range_numbered:
  assumes "resolve_git_range (fa_host a) p r (ft_world s) = (Inr shas, w)"
  shows "\<exists>ps es. ft_sent (submit_range a p url r s) = ft_sent s @ es \<and>
     (if shas = [] then List.map event_id es = [Some r]
      else numbered url r (length shas) ps es \<and> subseq ps (enumerate 1 shas))"
  using submit_shas_events [of a p url r 0 "length shas" shas "s\<lparr>ft_world := w\<rparr>"]
  by (cases "shas = []") (simp_all add: submit_range_def assms)

theorem range_numbered_witness:
  "\<exists>ps es. ft_sent (submit_range (sample_agent (\<lambda>c. True)) [''repo''] None ''a..b'' \<lparr>ft_sent = [], ft_world = ()\<rparr>) = es \<and>
     numbered None ''a..b'' 1 ps es \<and> subseq ps [(1, ''ok'')]"
proof -
  let ?a = "sample_agent (\<lambda>c. True)" and ?s = "\<lparr>ft_sent = [], ft_world = ()\<rparr>"
  have "resolve_git_range (fa_host ?a) [''repo''] ''a..b'' (ft_world ?s) = (Inr [''ok''], ())" by code_simp
  from range_numbered [OF this, of None] show ?thesis by auto
qed

text \<open>When no commit of a range can be read, nothing is sent for it.\<close>

lemma submit_shas_none:
  assumes "\<And>sha i w. sha \<in> set shas \<Longrightarrow> \<exists>e w'. extract_patch_from_repo a p url sha r i n w = (Inl e, w')"
  shows "ft_sent (submit_shas a p url r i n shas s) = ft_sent s"
  using assms
proof (induction shas arbitrary: i s)
  case (Cons sha shas)
  obtain e w where "extract_patch_from_repo a p url sha r (Suc i) n (ft_world s) = (Inl e, w)"
    using Cons.prems [of sha "Suc i" "ft_world s"] by auto
  then show ?case using Cons.IH [of "Suc i" "s\<lparr>ft_world := w\<rparr>"] Cons.prems by simp
qed simp

theorem unreadable_range_unanswered:
  assumes "resolve_git_range (fa_host a) p r (ft_world s) = (Inr shas, w)" "shas \<noteq> []"
    "\<And>sha i w. sha \<in> set shas \<Longrightarrow> \<exists>e w'. extract_patch_from_repo a p url sha r i (length shas) w = (Inl e, w')"
  shows "ft_sent (submit_range a p url r s) = ft_sent s"
  using assms(1,2) submit_shas_none [OF assms(3)] by (simp add: submit_range_def)

text \<open>The names of the commits are arguments of \<open>git fetch\<close> as they come, an option too.\<close>

theorem commit_taken_as_option:
  assumes "fetcher_remote a (get_remote_name a u) u w = (Inr (), w1)" "\<not> is_local a u w"
    "run_git (fa_host a) (fa_repo_path a)
       (GIT_PROTOCOL_RESTRICTIONS @ [''fetch'', get_remote_name a u, ''--upload-pack=prog'']) w1 = (Inr out, w2)"
    "out_success out"
  shows "fetch_missing a (Some u) [''--upload-pack=prog''] w = (Inr (), w2)"
  using assms by (simp add: fetch_missing_def fetch_commits_def git_output_def io_bind_def io_ret_def)

end
