(* ===== verification/Service.thy ===== *)
theory Service
  imports Article Ingestion Threads_Inv
begin

text \<open>
  The service between its sources and the store (\<open>src/main.rs\<close>): the dispatcher hands every event to a task
  that parses it, at most fifty at a time; the tasks send parsed articles to the worker of the store, which
  takes them in batches and reads the e-mail policy for each batch. The channels keep their bounds, the
  order in which tasks and worker move is open. Parsing in another thread is one step of its task.
\<close>

subsection \<open>Parsing an event\<close>

text \<open>The reader of mails and of received dates is a parameter, as in \<open>Mail\<close>.\<close>

record parsing =
  pc_engine :: engine
  pc_parser :: mail_parser
  pc_date :: "string \<Rightarrow> int option"
  pc_cutoff :: "int option"

definition event_email :: "parsing \<Rightarrow> string \<Rightarrow> string + PatchsetMetadata \<times> Patch option" where
  "event_email pc raw = parse_email (pc_engine pc) (pc_parser pc) (pc_date pc) raw"

definition failed_article :: "string \<Rightarrow> string \<Rightarrow> ParsedArticle" where
  "failed_article article_id err =
     \<lparr>ar_group = ''error'', ar_article_id = article_id, ar_metadata = None, ar_patch = None, ar_baseline = None,
      ar_repo_url = None, ar_failed_error = Some err, ar_skip = None, ar_only = None\<rparr>"

definition submitted_metadata :: "string \<Rightarrow> string \<Rightarrow> string \<Rightarrow> string \<Rightarrow> string \<Rightarrow> int \<Rightarrow> nat \<Rightarrow> nat \<Rightarrow> PatchsetMetadata" where
  "submitted_metadata article_id message_id subject author message timestamp i n =
     (let root = article_id @ ''@sashiko.local''
      in \<lparr>md_message_id = message_id, md_subject = subject, md_author = author, md_date = timestamp, md_received = None,
          md_in_reply_to = (if n = 1 then None else Some root), md_references = [root], md_index = i, md_total = n,
          md_to = ''submitted'', md_cc = [], md_is_patch_or_cover = True, md_version = None, md_body = message\<rparr>)"

definition submitted_article :: "string \<Rightarrow> string \<Rightarrow> string option \<Rightarrow> string \<Rightarrow> string \<Rightarrow> string \<Rightarrow> string \<Rightarrow> string \<Rightarrow>
    string option \<Rightarrow> int \<Rightarrow> nat \<Rightarrow> nat \<Rightarrow> ParsedArticle" where
  "submitted_article g article_id url message_id subject author message diff base_commit timestamp i n =
     \<lparr>ar_group = g, ar_article_id = article_id,
      ar_metadata = Some (submitted_metadata article_id message_id subject author message timestamp i n),
      ar_patch = Some \<lparr>pt_message_id = message_id, pt_body = message, pt_diff = diff, pt_part = i\<rparr>,
      ar_baseline = base_commit, ar_repo_url = url, ar_failed_error = None, ar_skip = None, ar_only = None\<rparr>"

definition mbox_article :: "parsing \<Rightarrow> string \<Rightarrow> string option \<Rightarrow> string list option \<Rightarrow> string list option \<Rightarrow> string \<Rightarrow>
    ParsedArticle option" where
  "mbox_article pc g baseline skip only raw =
     (case event_email pc raw of
        Inl _ \<Rightarrow> None
      | Inr (md, patch) \<Rightarrow> Some
          \<lparr>ar_group = (if g = ''api-submit'' then ''manual'' else g), ar_article_id = extract_message_id raw,
           ar_metadata = Some md, ar_patch = patch, ar_baseline = baseline, ar_repo_url = None, ar_failed_error = None,
           ar_skip = skip, ar_only = only\<rparr>)"

definition before_cutoff :: "parsing \<Rightarrow> PatchsetMetadata \<Rightarrow> bool" where
  "before_cutoff pc md = (case pc_cutoff pc of Some c \<Rightarrow> md_date md < c | None \<Rightarrow> False)"

definition fetched_article :: "parsing \<Rightarrow> string \<Rightarrow> string \<Rightarrow> string option \<Rightarrow> string \<Rightarrow> ParsedArticle option" where
  "fetched_article pc g article_id baseline bytes =
     (case event_email pc bytes of
        Inl _ \<Rightarrow> None
      | Inr (md, patch) \<Rightarrow>
          if before_cutoff pc md then None
          else Some \<lparr>ar_group = g, ar_article_id = article_id, ar_metadata = Some md, ar_patch = patch,
                 ar_baseline = baseline, ar_repo_url = None, ar_failed_error = None, ar_skip = None, ar_only = None\<rparr>)"

fun parse_event :: "parsing \<Rightarrow> IngestEvent \<Rightarrow> ParsedArticle list" where
  "parse_event pc (IngestionFailed article_id err) = [failed_article article_id err]"
| "parse_event pc (PatchSubmitted g article_id url message_id subject author message diff base_commit timestamp i n) =
     [submitted_article g article_id url message_id subject author message diff base_commit timestamp i n]"
| "parse_event pc (RawMboxSubmitted raw g baseline skip only) =
     (let mails = split_mbox raw
      in if length mails > 100 then [] else List.map_filter (mbox_article pc g baseline skip only) mails)"
| "parse_event pc (ArticleFetched g article_id content raw baseline) =
     (case fetched_article pc g article_id baseline
             (case raw of Some b \<Rightarrow> b | None \<Rightarrow> join [newline] content) of
        None \<Rightarrow> [] | Some a \<Rightarrow> [a])"

text \<open>Without a download, mail that is older than the oldest message of the store is left out, on an empty store mail
  that is older than the start.\<close>

definition ingestion_cutoff :: "bool \<Rightarrow> int \<Rightarrow> db \<Rightarrow> int option" where
  "ingestion_cutoff download now d =
     (if download then None
      else case get_oldest_message_timestamp d of Some t \<Rightarrow> Some t | None \<Rightarrow> Some now)"

subsection \<open>The pipeline\<close>

text \<open>The events that wait, the tasks with what they have still to send, the articles that wait, the batch of the
  worker with its policy, the store, and the counts of articles that were ingested or failed.\<close>

record service =
  sv_events :: "IngestEvent list"
  sv_tasks :: "ParsedArticle list list"
  sv_parsed :: "ParsedArticle list"
  sv_buffer :: "ParsedArticle list"
  sv_policy :: EmailPolicyConfig
  sv_db :: db
  sv_ingested :: nat
  sv_errors :: nat

definition load_or_default :: "string + EmailPolicyConfig \<Rightarrow> EmailPolicyConfig" where
  "load_or_default r = (case r of Inr p \<Rightarrow> p | Inl _ \<Rightarrow> \<lparr>defaults = default_policy, policies = []\<rparr>)"

definition count_status :: "ProcessStatus \<times> db \<Rightarrow> service \<Rightarrow> service" where
  "count_status = (\<lambda>(st, d) s. case st of
     Ingested \<Rightarrow> s\<lparr>sv_db := d, sv_ingested := sv_ingested s + 1\<rparr>
   | ArticleError \<Rightarrow> s\<lparr>sv_db := d, sv_errors := sv_errors s + 1\<rparr>)"

definition store_article :: "parsing \<Rightarrow> int \<Rightarrow> ParsedArticle \<Rightarrow> service \<Rightarrow> service" where
  "store_article pc now a s =
     count_status (process_parsed_article (pc_engine pc) (sv_policy s) now a (sv_db s)) s"

definition permits :: nat where "permits = 50"
definition capacity :: nat where "capacity = 1000"
definition batch :: nat where "batch = 100"

text \<open>A step tells which event arrives in it or which article is stored. The event, the policy file and the time are
  chosen by the world. The dispatcher takes an event from the channel and then waits for a permit; here both are one
  step, so an event it holds while it waits still counts as one of the channel, and the channel has room for one more in
  the code.\<close>

datatype label = Arrived IngestEvent | Moved | Stored ParsedArticle

inductive service_step :: "parsing \<Rightarrow> service \<Rightarrow> label \<Rightarrow> service \<Rightarrow> bool" for pc where
  arrive: "length (sv_events s) < capacity \<Longrightarrow> service_step pc s (Arrived e) (s\<lparr>sv_events := sv_events s @ [e]\<rparr>)"
| dispatch: "sv_events s = e # es \<Longrightarrow> length (sv_tasks s) < permits \<Longrightarrow>
    service_step pc s Moved (s\<lparr>sv_events := es, sv_tasks := sv_tasks s @ [parse_event pc e]\<rparr>)"
| forward: "sv_tasks s = ts @ (a # as) # us \<Longrightarrow> length (sv_parsed s) < capacity \<Longrightarrow>
    service_step pc s Moved (s\<lparr>sv_tasks := ts @ as # us, sv_parsed := sv_parsed s @ [a]\<rparr>)"
| done_task: "sv_tasks s = ts @ [] # us \<Longrightarrow> service_step pc s Moved (s\<lparr>sv_tasks := ts @ us\<rparr>)"
| receive: "sv_buffer s = [] \<Longrightarrow> sv_parsed s = as @ bs \<Longrightarrow> as \<noteq> [] \<Longrightarrow> length as \<le> batch \<Longrightarrow>
    service_step pc s Moved (s\<lparr>sv_buffer := as, sv_parsed := bs, sv_policy := load_or_default loaded\<rparr>)"
| store_one: "sv_buffer s = a # as \<Longrightarrow> service_step pc s (Stored a) (store_article pc now a (s\<lparr>sv_buffer := as\<rparr>))"

inductive service_run :: "parsing \<Rightarrow> service \<Rightarrow> label list \<Rightarrow> service \<Rightarrow> bool" for pc where
  stop: "service_run pc s [] s"
| move: "service_run pc s ls s1 \<Longrightarrow> service_step pc s1 l s2 \<Longrightarrow> service_run pc s (ls @ [l]) s2"

inductive_cases service_stepE: "service_step pc s l s'"

definition arrivals :: "label list \<Rightarrow> IngestEvent list" where
  "arrivals ls = List.map_filter (\<lambda>l. case l of Arrived e \<Rightarrow> Some e | _ \<Rightarrow> None) ls"

definition stored :: "label list \<Rightarrow> ParsedArticle list" where
  "stored ls = List.map_filter (\<lambda>l. case l of Stored a \<Rightarrow> Some a | _ \<Rightarrow> None) ls"

definition started :: "EmailPolicyConfig \<Rightarrow> db \<Rightarrow> service" where
  "started policy d = \<lparr>sv_events = [], sv_tasks = [], sv_parsed = [], sv_buffer = [], sv_policy = policy, sv_db = d,
     sv_ingested = 0, sv_errors = 0\<rparr>"

end
