(* ===== verification/Service_Props.thy ===== *)
theory Service_Props
  imports Service "HOL-Library.Multiset"
begin

text \<open>
  The pipeline loses and doubles nothing, keeps the store consistent, never stands still while there is work,
  and ends when no more events arrive.
\<close>

subsection \<open>What is on its way\<close>

definition on_way :: "parsing \<Rightarrow> service \<Rightarrow> ParsedArticle multiset" where
  "on_way pc s = mset (concat (List.map (parse_event pc) (sv_events s))) + mset (concat (sv_tasks s)) +
     mset (sv_parsed s) + mset (sv_buffer s)"

lemma store_article_frame [simp]:
  "sv_events (store_article pc now a s) = sv_events s" "sv_tasks (store_article pc now a s) = sv_tasks s"
  "sv_parsed (store_article pc now a s) = sv_parsed s" "sv_buffer (store_article pc now a s) = sv_buffer s"
  by (simp_all add: store_article_def count_status_def split: prod.split ProcessStatus.split)

lemma store_article_counts:
  "sv_ingested (store_article pc now a s) + sv_errors (store_article pc now a s) = Suc (sv_ingested s + sv_errors s)"
  by (simp add: store_article_def count_status_def split: prod.split ProcessStatus.split)

lemma store_article_db:
  "sv_db (store_article pc now a s) = snd (process_parsed_article (pc_engine pc) (sv_policy s) now a (sv_db s))"
  by (simp add: store_article_def count_status_def split: prod.split ProcessStatus.split)

lemma labels_simps [simp]:
  "arrivals [] = []" "stored [] = []"
  "arrivals (ls @ ks) = arrivals ls @ arrivals ks" "stored (ls @ ks) = stored ls @ stored ks"
  "arrivals [Arrived e] = [e]" "arrivals [Moved] = []" "arrivals [Stored a] = []"
  "stored [Arrived e] = []" "stored [Moved] = []" "stored [Stored a] = [a]"
  by (simp_all add: arrivals_def stored_def List.map_filter_def)

lemma step_on_way:
  "service_step pc s l s' \<Longrightarrow>
   on_way pc s' + mset (stored [l]) = on_way pc s + mset (concat (List.map (parse_event pc) (arrivals [l])))"
  by (induction rule: service_step.induct) (simp_all add: on_way_def)

lemma step_counts:
  "service_step pc s l s' \<Longrightarrow> sv_ingested s' + sv_errors s' = sv_ingested s + sv_errors s + length (stored [l])"
  by (induction rule: service_step.induct) (simp_all add: store_article_counts)

lemma step_bounds:
  "service_step pc s l s' \<Longrightarrow> length (sv_tasks s) \<le> permits \<and> length (sv_parsed s) \<le> capacity \<and>
     length (sv_events s) \<le> capacity \<and> length (sv_buffer s) \<le> batch \<Longrightarrow>
   length (sv_tasks s') \<le> permits \<and> length (sv_parsed s') \<le> capacity \<and> length (sv_events s') \<le> capacity \<and>
     length (sv_buffer s') \<le> batch"
  by (induction rule: service_step.induct) auto

lemma run_on_way:
  "service_run pc s ls s' \<Longrightarrow>
   on_way pc s' + mset (stored ls) = on_way pc s + mset (concat (List.map (parse_event pc) (arrivals ls)))"
proof (induction rule: service_run.induct)
  case (move s ls s1 l s2)
  from step_on_way [OF move.hyps(2)] move.IH show ?case by (simp add: ac_simps)
qed simp

lemma run_counts:
  "service_run pc s ls s' \<Longrightarrow> sv_ingested s' + sv_errors s' = sv_ingested s + sv_errors s + length (stored ls)"
  by (induction rule: service_run.induct) (auto dest: step_counts)

lemma run_bounds:
  "service_run pc s ls s' \<Longrightarrow> length (sv_tasks s) \<le> permits \<Longrightarrow> length (sv_parsed s) \<le> capacity \<Longrightarrow>
   length (sv_events s) \<le> capacity \<Longrightarrow> length (sv_buffer s) \<le> batch \<Longrightarrow>
   length (sv_tasks s') \<le> permits \<and> length (sv_parsed s') \<le> capacity \<and> length (sv_events s') \<le> capacity \<and>
     length (sv_buffer s') \<le> batch"
  by (induction rule: service_run.induct) (auto dest: step_bounds)

lemma run_trans: "service_run pc s ls s' \<Longrightarrow> service_run pc s' ks s'' \<Longrightarrow> service_run pc s (ls @ ks) s''"
proof (rotate_tac, induction rule: service_run.induct)
  case (move s ls s1 l s2)
  then show ?case using service_run.move by (metis append.assoc)
qed simp

lemma run_step: "service_step pc s l s' \<Longrightarrow> service_run pc s [l] s'"
  using service_run.move [OF service_run.stop] by fastforce

subsection \<open>The work that is left\<close>

definition work :: "parsing \<Rightarrow> service \<Rightarrow> nat" where
  "work pc s = (\<Sum>e\<leftarrow>sv_events s. 2 + 3 * length (parse_event pc e)) + (\<Sum>t\<leftarrow>sv_tasks s. 1 + 3 * length t) +
     2 * length (sv_parsed s) + length (sv_buffer s)"

definition idle :: "service \<Rightarrow> bool" where
  "idle s \<longleftrightarrow> sv_events s = [] \<and> sv_tasks s = [] \<and> sv_parsed s = [] \<and> sv_buffer s = []"

lemma step_works:
  "service_step pc s l s' \<Longrightarrow> arrivals [l] = [] \<Longrightarrow> work pc s' < work pc s"
  by (induction rule: service_step.induct) (auto simp: work_def)

text \<open>While something is on its way a step other than an arrival is possible.\<close>

lemma not_stuck:
  assumes "\<not> idle s"
  shows "\<exists>l s'. service_step pc s l s' \<and> arrivals [l] = []"
proof -
  have sizes: "0 < permits" "0 < capacity" "0 < batch" by (simp_all add: permits_def capacity_def batch_def)
  consider (buffer) a as where "sv_buffer s = a # as"
    | (parsed) a as where "sv_buffer s = []" "sv_parsed s = a # as"
    | (empty_task) ts where "sv_parsed s = []" "sv_tasks s = [] # ts"
    | (task) a as ts where "sv_parsed s = []" "sv_tasks s = (a # as) # ts"
    | (event) e es where "sv_tasks s = []" "sv_events s = e # es"
    using assms unfolding idle_def by (metis list.exhaust)
  then show ?thesis
  proof cases
    case buffer
    then show ?thesis using service_step.store_one [of s a as pc 0] by fastforce
  next
    case parsed
    then show ?thesis using service_step.receive [of s "[a]" as pc] sizes by fastforce
  next
    case empty_task
    then show ?thesis using service_step.done_task [of s "[]" ts pc] by fastforce
  next
    case task
    then show ?thesis using service_step.forward [of s "[]" a as ts pc] sizes by fastforce
  next
    case event
    then show ?thesis using service_step.dispatch [of s e es pc] sizes by fastforce
  qed
qed

lemma drains: "\<exists>ls s'. service_run pc s ls s' \<and> arrivals ls = [] \<and> idle s'"
proof (induction "work pc s" arbitrary: s rule: less_induct)
  case less
  show ?case
  proof (cases "idle s")
    case True
    then show ?thesis using service_run.stop by fastforce
  next
    case False
    then obtain l s1 where s1: "service_step pc s l s1" "arrivals [l] = []" using not_stuck by blast
    from less [OF step_works [OF s1]] obtain ls s' where "service_run pc s1 ls s'" "arrivals ls = []" "idle s'" by blast
    with s1 run_trans [OF run_step [OF s1(1)]] show ?thesis by (metis append_Nil labels_simps(3))
  qed
qed

lemma run_length: "service_run pc s ls s' \<Longrightarrow> arrivals ls = [] \<Longrightarrow> work pc s' + length ls \<le> work pc s"
proof (induction rule: service_run.induct)
  case (move s ls s1 l s2)
  then have "work pc s2 < work pc s1" by (auto intro: step_works)
  with move show ?case by auto
qed simp


text \<open>C4. Every article the parser makes of the events that arrived is stored exactly once, and nothing else is: no
  order of the steps loses, doubles or blocks one, and the counts of the worker add up to what it stored.\<close>

theorem articles_stored_once:
  assumes "service_run pc (started policy d) ls s"
  shows "mset (stored ls) \<subseteq># mset (concat (List.map (parse_event pc) (arrivals ls))) \<and>
     sv_ingested s + sv_errors s = length (stored ls) \<and>
     (\<exists>ks s'. service_run pc (started policy d) (ls @ ks) s' \<and> arrivals ks = [] \<and> idle s' \<and>
        mset (stored (ls @ ks)) = mset (concat (List.map (parse_event pc) (arrivals ls))))"
proof (intro conjI)
  have start: "on_way pc (started policy d) = {#}" "sv_ingested (started policy d) + sv_errors (started policy d) = 0"
    by (simp_all add: on_way_def started_def)
  have o: "on_way pc s + mset (stored ls) = mset (concat (List.map (parse_event pc) (arrivals ls)))"
    using run_on_way [OF assms] start by simp
  then show "mset (stored ls) \<subseteq># mset (concat (List.map (parse_event pc) (arrivals ls)))"
    by (metis mset_subset_eq_add_right)
  show "sv_ingested s + sv_errors s = length (stored ls)" using run_counts [OF assms] start by simp
  obtain ks s' where ks: "service_run pc s ks s'" "arrivals ks = []" "idle s'" using drains by blast
  have run: "service_run pc (started policy d) (ls @ ks) s'" using run_trans [OF assms ks(1)] .
  have "on_way pc s' = {#}" using ks(3) by (simp add: on_way_def idle_def)
  then have "mset (stored (ls @ ks)) = mset (concat (List.map (parse_event pc) (arrivals ls)))"
    using run_on_way [OF run] start ks(2) by simp
  with run ks show "\<exists>ks s'. service_run pc (started policy d) (ls @ ks) s' \<and> arrivals ks = [] \<and> idle s' \<and>
      mset (stored (ls @ ks)) = mset (concat (List.map (parse_event pc) (arrivals ls)))" by blast
qed

lemma sample_run: "service_run pc (started policy d) [Arrived e] ((started policy d)\<lparr>sv_events := [e]\<rparr>)"
  using run_step [OF service_step.arrive [of "started policy d" pc e]] by (simp add: started_def capacity_def)

definition no_mail :: parsing where
  "no_mail = \<lparr>pc_engine = backtrack, pc_parser = (\<lambda>raw. None), pc_date = (\<lambda>s. None), pc_cutoff = None\<rparr>"

theorem articles_stored_once_witness:
  "\<exists>ks s'. service_run no_mail (started sample_policy empty_db) ([Arrived (IngestionFailed ''c'' ''no'')] @ ks) s' \<and>
     mset (stored ([Arrived (IngestionFailed ''c'' ''no'')] @ ks)) = {#failed_article ''c'' ''no''#}"
  using articles_stored_once [OF sample_run [of no_mail sample_policy empty_db "IngestionFailed ''c'' ''no''"]] by auto

text \<open>When no more events arrive, the number of steps the pipeline can still make is bounded by the work that is
  left: two steps for an event, one for a task, three for every article.\<close>

theorem pipeline_ends:
  assumes "service_run pc s ls s'" "arrivals ls = []"
  shows "length ls \<le> (\<Sum>e\<leftarrow>sv_events s. 2 + 3 * length (parse_event pc e)) + (\<Sum>t\<leftarrow>sv_tasks s. 1 + 3 * length t) +
     2 * length (sv_parsed s) + length (sv_buffer s)"
  using run_length [OF assms] by (simp add: work_def)

theorem pipeline_ends_witness:
  "\<exists>ls s'. service_run no_mail ((started sample_policy empty_db)\<lparr>sv_events := [IngestionFailed ''c'' ''no'']\<rparr>) ls s' \<and>
     idle s' \<and> length ls \<le> 5"
proof -
  let ?s = "(started sample_policy empty_db)\<lparr>sv_events := [IngestionFailed ''c'' ''no'']\<rparr>"
  obtain ls s' where r: "service_run no_mail ?s ls s'" "arrivals ls = []" "idle s'" using drains by blast
  from pipeline_ends [OF r(1,2)] have "length ls \<le> 5" by (simp add: started_def)
  with r show ?thesis by blast
qed

subsection \<open>The store\<close>

text \<open>Events of groups that name a git import do not come from the sources of the service.\<close>

fun event_group :: "IngestEvent \<Rightarrow> string" where
  "event_group (ArticleFetched g i c r b) = g"
| "event_group (PatchSubmitted g i u m s au me df b t ix n) = g"
| "event_group (RawMboxSubmitted r g b sk on) = g"
| "event_group (IngestionFailed i e) = ''error''"

definition sound_article :: "ParsedArticle \<Rightarrow> bool" where
  "sound_article a \<longleftrightarrow> (\<forall>md d. ar_metadata a = Some md \<longrightarrow> article_ok a md d)"

lemma sound_articleI:
  assumes "\<not> is_git_import (ar_group a)"
    "\<And>md p. ar_metadata a = Some md \<Longrightarrow> ar_patch a = Some p \<Longrightarrow> pt_message_id p = md_message_id md"
  shows "sound_article a"
  using assms by (auto simp: sound_article_def article_ok_def)

lemma parse_email_ids:
  "parse_email rx parser dt raw = Inr (md, Some p) \<Longrightarrow> pt_message_id p = md_message_id md"
  by (auto simp: parse_email_def Let_def split: option.splits prod.splits if_splits)

lemma parse_event_sound:
  assumes "\<not> is_git_import (event_group e)" "a \<in> set (parse_event pc e)"
  shows "sound_article a"
proof -
  have manual: "\<not> is_git_import ''manual''" "\<not> is_git_import ''error''" by code_simp+
  show ?thesis
  proof (cases e)
    case (ArticleFetched g i c r b)
    then show ?thesis using assms parse_email_ids
      by (auto simp: fetched_article_def event_email_def split: option.splits sum.splits if_splits intro!: sound_articleI)
  next
    case (PatchSubmitted g i u m s au me df b t ix n)
    then show ?thesis using assms
      by (auto simp: submitted_article_def submitted_metadata_def Let_def intro!: sound_articleI)
  next
    case (RawMboxSubmitted r g b sk on)
    then obtain raw where "mbox_article pc g b sk on raw = Some a"
      using assms by (auto simp: Let_def set_map_filter split: if_splits)
    then show ?thesis using assms(1) RawMboxSubmitted parse_email_ids manual
      by (auto simp: mbox_article_def event_email_def split: sum.splits if_splits intro!: sound_articleI)
  next
    case (IngestionFailed i err)
    then show ?thesis using assms manual by (auto simp: failed_article_def intro!: sound_articleI)
  qed
qed

lemma store_article_inv:
  assumes "store_inv (sv_db s)" "sound_article a"
  shows "store_inv (sv_db (store_article pc now a s))"
proof -
  obtain st d where p: "process_parsed_article (pc_engine pc) (sv_policy s) now a (sv_db s) = (st, d)" by fastforce
  have "store_inv d"
  proof (cases "ar_failed_error a")
    case (Some err)
    then show ?thesis using p status_update_inv(6) [OF assms(1), of "ar_article_id a" err]
      by (auto simp: process_parsed_article_def)
  next
    case None
    show ?thesis
    proof (cases "ar_metadata a")
      case None
      with \<open>ar_failed_error a = None\<close> p assms(1) show ?thesis by (auto simp: process_parsed_article_def)
    next
      case (Some md)
      then have "article_ok a md (sv_db s)" using assms(2) by (auto simp: sound_article_def)
      then show ?thesis using process_article_inv [OF assms(1) None Some _ p] by blast
    qed
  qed
  with p show ?thesis by (simp add: store_article_db)
qed

lemma run_inv:
  assumes "service_run pc s ls s'" "store_inv (sv_db s)" "\<forall>a\<in>#on_way pc s. sound_article a"
    "\<forall>e\<in>set (arrivals ls). \<not> is_git_import (event_group e)"
  shows "store_inv (sv_db s') \<and> (\<forall>a\<in>#on_way pc s'. sound_article a)"
  using assms
proof (induction rule: service_run.induct)
  case (move s ls s1 l s2)
  then have i: "store_inv (sv_db s1)" "\<forall>a\<in>#on_way pc s1. sound_article a" by auto
  have "\<forall>a\<in>#mset (concat (List.map (parse_event pc) (arrivals [l]))). sound_article a"
    using move.prems parse_event_sound by fastforce
  with i(2) have "\<forall>a\<in>#on_way pc s2 + mset (stored [l]). sound_article a"
    unfolding step_on_way [OF move.hyps(2)] by auto
  moreover have "store_inv (sv_db s2)"
    using move.hyps(2) i
    by (induction rule: service_step.induct) (auto simp: on_way_def intro!: store_article_inv)
  ultimately show ?case by auto
qed simp

text \<open>C5. In every order of its steps the pipeline keeps the store consistent, and its queues within their bounds.\<close>

theorem pipeline_consistent:
  assumes "service_run pc (started policy d) ls s" "store_inv d"
    "\<forall>e\<in>set (arrivals ls). \<not> is_git_import (event_group e)"
  shows "store_inv (sv_db s) \<and> length (sv_tasks s) \<le> 50 \<and> length (sv_events s) \<le> 1000 \<and>
    length (sv_parsed s) \<le> 1000 \<and> length (sv_buffer s) \<le> 100"
proof -
  have "store_inv (sv_db s)" using run_inv [OF assms(1)] assms(2,3) by (simp add: started_def on_way_def)
  then show ?thesis using run_bounds [OF assms(1)] by (simp add: started_def permits_def capacity_def batch_def)
qed

theorem pipeline_consistent_witness:
  "store_inv (sv_db ((started sample_policy empty_db)\<lparr>sv_events := [IngestionFailed ''c'' ''no'']\<rparr>))"
proof -
  have "\<not> is_git_import ''error''" by code_simp
  then show ?thesis
    using pipeline_consistent [OF sample_run [of no_mail sample_policy empty_db "IngestionFailed ''c'' ''no''"] store_inv_empty]
    by simp
qed

end
