(* ===== verification/Listing.thy ===== *)
theory Listing
  imports Reviews Patchset_Status "HOL-Library.List_Lexorder" "HOL-Library.Char_ord" "HOL-Library.Word"
begin

text \<open>
  The lists of patchsets and messages of \<open>src/db.rs\<close>: the search conditions as the SQL text they are and as
  what they select, the order of the rows, the counts of findings, pages, and what an embargo hides. The
  text SQLite makes of a time is a parameter.
\<close>

subsection \<open>Values in the order of SQLite\<close>

datatype sql_value = SqlNull | SqlInt int | SqlText string

instantiation sql_value :: linorder
begin

fun less_eq_sql_value :: "sql_value \<Rightarrow> sql_value \<Rightarrow> bool" where
  "SqlNull \<le> _ \<longleftrightarrow> True"
| "SqlInt a \<le> SqlInt b \<longleftrightarrow> a \<le> b"
| "SqlInt a \<le> SqlText t \<longleftrightarrow> True"
| "SqlText s \<le> SqlText t \<longleftrightarrow> s \<le> t"
| "(_ :: sql_value) \<le> _ \<longleftrightarrow> False"

definition less_sql_value :: "sql_value \<Rightarrow> sql_value \<Rightarrow> bool" where
  "less_sql_value a b \<longleftrightarrow> a \<le> b \<and> \<not> b \<le> a"

instance
proof
  fix a b c :: sql_value
  show "(a < b) = (a \<le> b \<and> \<not> b \<le> a)" by (simp add: less_sql_value_def)
  show "a \<le> a" by (cases a) auto
  show "a \<le> b \<Longrightarrow> b \<le> c \<Longrightarrow> a \<le> c" by (cases a; cases b; cases c) auto
  show "a \<le> b \<Longrightarrow> b \<le> a \<Longrightarrow> a = b" by (cases a; cases b) auto
  show "a \<le> b \<or> b \<le> a" by (cases a; cases b) auto
qed

end

text \<open>A value with the direction it is sorted in.\<close>

datatype sort_value = Asc sql_value | Desc sql_value

instantiation sort_value :: linorder
begin

fun less_eq_sort_value :: "sort_value \<Rightarrow> sort_value \<Rightarrow> bool" where
  "Asc a \<le> Asc b \<longleftrightarrow> a \<le> b"
| "Desc a \<le> Desc b \<longleftrightarrow> b \<le> a"
| "Asc a \<le> Desc b \<longleftrightarrow> True"
| "Desc a \<le> Asc b \<longleftrightarrow> False"

definition less_sort_value :: "sort_value \<Rightarrow> sort_value \<Rightarrow> bool" where
  "less_sort_value a b \<longleftrightarrow> a \<le> b \<and> \<not> b \<le> a"

instance
proof
  fix a b c :: sort_value
  show "(a < b) = (a \<le> b \<and> \<not> b \<le> a)" by (simp add: less_sort_value_def)
  show "a \<le> a" by (cases a) auto
  show "a \<le> b \<Longrightarrow> b \<le> c \<Longrightarrow> a \<le> c" by (cases a; cases b; cases c) auto
  show "a \<le> b \<Longrightarrow> b \<le> a \<Longrightarrow> a = b" by (cases a; cases b) auto
  show "a \<le> b \<or> b \<le> a" by (cases a; cases b) auto
qed

end

definition sql_text :: "string option \<Rightarrow> sql_value" where
  "sql_text t = (case t of Some s \<Rightarrow> SqlText s | None \<Rightarrow> SqlNull)"

subsection \<open>Search\<close>

text \<open>\<open>LIKE\<close>: \<open>%\<close> is any text, \<open>_\<close> any character, letters match in both cases.\<close>

fun like :: "string \<Rightarrow> string \<Rightarrow> bool" where
  "like [] s \<longleftrightarrow> s = []"
| "like (p # ps) [] \<longleftrightarrow> p = CHR ''%'' \<and> like ps []"
| "like (p # ps) (c # s) \<longleftrightarrow>
     (if p = CHR ''%'' then like ps (c # s) \<or> like (p # ps) s
      else if p = CHR ''_'' then like ps s
      else lower_char p = lower_char c \<and> like ps s)"

datatype condition =
    NoPlaceholder
  | ListedPatchset string
  | ListedMessage string
  | AuthorLike string
  | SubjectLike string
  | DateLike string
  | PatchsetSubsystem string
  | MessageSubsystem string
  | AnyLike string

fun condition_sql :: "condition \<Rightarrow> string" where
  "condition_sql NoPlaceholder = ''subject != '' @ [CHR 0x27] @ ''(placeholder)'' @ [CHR 0x27]"
| "condition_sql (ListedPatchset _) =
     join (newline # replicate 24 CHR '' '')
       [''p.id IN ('',
        ''SELECT patchset_id FROM patches p2 '',
        ''JOIN messages m ON p2.message_id = m.message_id '',
        ''JOIN messages_mailing_lists mml ON m.id = mml.message_id '',
        ''JOIN mailing_lists ml ON mml.mailing_list_id = ml.id '',
        ''WHERE ml.nntp_group = ?'',
        ''UNION'',
        ''SELECT ps.id FROM patchsets ps '',
        ''JOIN messages m ON ps.cover_letter_message_id = m.message_id '',
        ''JOIN messages_mailing_lists mml ON m.id = mml.message_id '',
        ''JOIN mailing_lists ml ON mml.mailing_list_id = ml.id '',
        ''WHERE ml.nntp_group = ?''] @ newline # replicate 20 CHR '' '' @ '')''"
| "condition_sql (ListedMessage _) =
     ''id IN (SELECT message_id FROM messages_mailing_lists mml JOIN mailing_lists ml ON mml.mailing_list_id = ml.id WHERE ml.nntp_group = ?)''"
| "condition_sql (AuthorLike _) = ''author LIKE ?''"
| "condition_sql (SubjectLike _) = ''subject LIKE ?''"
| "condition_sql (DateLike _) = ''datetime(date, '' @ [CHR 0x27] @ ''unixepoch'' @ [CHR 0x27] @ '') LIKE ?''"
| "condition_sql (PatchsetSubsystem _) =
     ''p.id IN (SELECT patchset_id FROM patchsets_subsystems ps JOIN subsystems s ON ps.subsystem_id = s.id WHERE s.name LIKE ?)''"
| "condition_sql (MessageSubsystem _) =
     ''id IN (SELECT message_id FROM messages_subsystems ms JOIN subsystems s ON ms.subsystem_id = s.id WHERE s.name LIKE ?)''"
| "condition_sql (AnyLike _) = ''(subject LIKE ? OR author LIKE ?)''"

fun condition_params :: "condition \<Rightarrow> string list" where
  "condition_params NoPlaceholder = []"
| "condition_params (ListedPatchset l) = [l, l]"
| "condition_params (ListedMessage l) = [l]"
| "condition_params (AuthorLike p) = [p]"
| "condition_params (SubjectLike p) = [p]"
| "condition_params (DateLike p) = [p]"
| "condition_params (PatchsetSubsystem p) = [p]"
| "condition_params (MessageSubsystem p) = [p]"
| "condition_params (AnyLike p) = [p, p]"

definition pattern :: "string \<Rightarrow> string" where
  "pattern v = ''%'' @ v @ ''%''"

definition list_conditions :: "string option \<Rightarrow> bool \<Rightarrow> condition list" where
  "list_conditions mailing_list for_patchsets =
     (case mailing_list of
        Some l \<Rightarrow> if l = [] then [] else [if for_patchsets then ListedPatchset l else ListedMessage l]
      | None \<Rightarrow> [])"

definition query_condition :: "string \<Rightarrow> bool \<Rightarrow> condition" where
  "query_condition q for_patchsets =
     (case strip_prefix ''author:'' q of Some v \<Rightarrow> AuthorLike (pattern (trim v)) | None \<Rightarrow>
      (case strip_prefix ''subject:'' q of Some v \<Rightarrow> SubjectLike (pattern (trim v)) | None \<Rightarrow>
      (case strip_prefix ''date:'' q of Some v \<Rightarrow> DateLike (pattern (trim v)) | None \<Rightarrow>
      (case strip_prefix ''subsystem:'' q of
         Some v \<Rightarrow> (if for_patchsets then PatchsetSubsystem else MessageSubsystem) (pattern (trim v))
       | None \<Rightarrow> AnyLike (pattern q)))))"

definition query_conditions :: "string option \<Rightarrow> bool \<Rightarrow> condition list" where
  "query_conditions query for_patchsets =
     (case query of
        Some q \<Rightarrow> if trim q = [] then [] else [query_condition (trim q) for_patchsets]
      | None \<Rightarrow> [])"

definition search_conditions :: "string option \<Rightarrow> string option \<Rightarrow> bool \<Rightarrow> condition list" where
  "search_conditions query mailing_list for_patchsets =
     NoPlaceholder # list_conditions mailing_list for_patchsets @ query_conditions query for_patchsets"

definition build_search :: "string option \<Rightarrow> string option \<Rightarrow> bool \<Rightarrow> string \<times> string list" where
  "build_search query mailing_list for_patchsets =
     (let cs = search_conditions query mailing_list for_patchsets
      in (''WHERE '' @ join '' AND '' (List.map condition_sql cs), concat (List.map condition_params cs)))"

text \<open>What the conditions select. A comparison with \<open>NULL\<close> selects nothing.\<close>

definition like_opt :: "string \<Rightarrow> string option \<Rightarrow> bool" where
  "like_opt p t = (case t of Some s \<Rightarrow> like p s | None \<Rightarrow> False)"

definition on_list :: "string \<Rightarrow> db \<Rightarrow> string \<Rightarrow> bool" where
  "on_list g d msg_id \<longleftrightarrow>
     (\<exists>m\<in>set (messages d). me_message_id m = msg_id \<and>
        (\<exists>l\<in>set (mailing_lists d). ml_group l = g \<and> (me_id m, ml_id l) \<in> set (messages_lists d)))"

definition in_subsystem :: "string \<Rightarrow> db \<Rightarrow> (int \<times> int) list \<Rightarrow> int \<Rightarrow> bool" where
  "in_subsystem p d links i \<longleftrightarrow> (\<exists>s\<in>set (subsystems d). like p (su_name s) \<and> (i, su_id s) \<in> set links)"

fun patchset_holds :: "(int \<Rightarrow> string option) \<Rightarrow> db \<Rightarrow> condition \<Rightarrow> patchset_row \<Rightarrow> bool" where
  "patchset_holds datetime d NoPlaceholder p \<longleftrightarrow> ps_subject p \<noteq> placeholder"
| "patchset_holds datetime d (ListedPatchset l) p \<longleftrightarrow>
     (\<exists>q\<in>set (patches d). pa_patchset q = ps_id p \<and> on_list l d (pa_message_id q)) \<or>
     (case ps_cover p of Some c \<Rightarrow> on_list l d c | None \<Rightarrow> False)"
| "patchset_holds datetime d (AuthorLike t) p \<longleftrightarrow> like_opt t (ps_author p)"
| "patchset_holds datetime d (SubjectLike t) p \<longleftrightarrow> like t (ps_subject p)"
| "patchset_holds datetime d (DateLike t) p \<longleftrightarrow> like_opt t (datetime (ps_date p))"
| "patchset_holds datetime d (PatchsetSubsystem t) p \<longleftrightarrow> in_subsystem t d (patchsets_subsystems d) (ps_id p)"
| "patchset_holds datetime d (AnyLike t) p \<longleftrightarrow> like t (ps_subject p) \<or> like_opt t (ps_author p)"
| "patchset_holds datetime d _ p \<longleftrightarrow> False"

fun message_holds :: "(int \<Rightarrow> string option) \<Rightarrow> db \<Rightarrow> condition \<Rightarrow> message_row \<Rightarrow> bool" where
  "message_holds datetime d NoPlaceholder m \<longleftrightarrow> me_subject m \<noteq> placeholder"
| "message_holds datetime d (ListedMessage l) m \<longleftrightarrow>
     (\<exists>r\<in>set (mailing_lists d). ml_group r = l \<and> (me_id m, ml_id r) \<in> set (messages_lists d))"
| "message_holds datetime d (AuthorLike t) m \<longleftrightarrow> like t (me_author m)"
| "message_holds datetime d (SubjectLike t) m \<longleftrightarrow> like t (me_subject m)"
| "message_holds datetime d (DateLike t) m \<longleftrightarrow> like_opt t (datetime (me_date m))"
| "message_holds datetime d (MessageSubsystem t) m \<longleftrightarrow> in_subsystem t d (messages_subsystems d) (me_id m)"
| "message_holds datetime d (AnyLike t) m \<longleftrightarrow> like t (me_subject m) \<or> like t (me_author m)"
| "message_holds datetime d _ m \<longleftrightarrow> False"

definition found_patchsets :: "(int \<Rightarrow> string option) \<Rightarrow> string option \<Rightarrow> string option \<Rightarrow> db \<Rightarrow> patchset_row list" where
  "found_patchsets datetime query mailing_list d =
     filter (\<lambda>p. \<forall>c\<in>set (search_conditions query mailing_list True). patchset_holds datetime d c p) (patchsets d)"

definition found_messages :: "(int \<Rightarrow> string option) \<Rightarrow> string option \<Rightarrow> string option \<Rightarrow> db \<Rightarrow> message_row list" where
  "found_messages datetime query mailing_list d =
     filter (\<lambda>m. \<forall>c\<in>set (search_conditions query mailing_list False). message_holds datetime d c m) (messages d)"

subsection \<open>Order\<close>

datatype column = CSubject | CAuthor | CBranch | CDate | CStatus | CPending | CToFix | CId

definition allowed :: "(string \<times> column) list" where
  "allowed = [(''subject'', CSubject), (''author'', CAuthor), (''branch'', CBranch), (''date'', CDate),
     (''status'', CStatus), (''pending'', CPending), (''to_fix'', CToFix)]"

fun column_sql :: "column \<Rightarrow> string" where
  "column_sql CSubject = ''p.subject''"
| "column_sql CAuthor = ''p.author''"
| "column_sql CBranch = ''b.branch''"
| "column_sql CDate = ''p.date''"
| "column_sql CStatus = ''p.status''"
| "column_sql CPending = ''COALESCE(f.pending, 0)''"
| "column_sql CToFix = ''COALESCE(f.to_fix, 0)''"
| "column_sql CId = ''p.id''"

definition sort_token :: "string \<Rightarrow> (column \<times> bool) option" where
  "sort_token token =
     (let (key, dir) = (case split_once CHR '':'' token of Some (k, r) \<Rightarrow> (trim k, lower (trim r)) | None \<Rightarrow> (trim token, []))
      in map_option (\<lambda>c. (c, dir = ''asc'')) (map_of allowed key))"

definition sort_clauses :: "string option \<Rightarrow> (column \<times> bool) list" where
  "sort_clauses sort_text =
     (let cs = (case sort_text of
           Some s \<Rightarrow> List.map_filter sort_token (filter (\<lambda>t. t \<noteq> []) (List.map trim (split_char CHR '','' s)))
         | None \<Rightarrow> [])
      in if cs = [] then [(CDate, False)] else cs @ [(CId, False)])"

definition clause_sql :: "column \<times> bool \<Rightarrow> string" where
  "clause_sql c = column_sql (fst c) @ (if snd c then '' ASC'' else '' DESC'')"

definition build_order_by :: "string option \<Rightarrow> string" where
  "build_order_by sort_text = ''ORDER BY '' @ join '', '' (List.map clause_sql (sort_clauses sort_text))"

subsection \<open>Findings of a patchset\<close>

definition count_findings :: "(finding_row \<Rightarrow> bool) \<Rightarrow> int \<Rightarrow> db \<Rightarrow> nat" where
  "count_findings P i d =
     sum_list (List.map (\<lambda>r. count_where (\<lambda>f. fi_review f = rv_id r \<and> or_else (fi_preexisting f) 0 = 0 \<and> P f) (findings d))
       (filter (\<lambda>r. rv_patchset r = i \<and> rv_status r = ''Reviewed'') (reviews d)))"

definition of_severity :: "int \<Rightarrow> finding_row \<Rightarrow> bool" where
  "of_severity n f \<longleftrightarrow> fi_severity f = n"

definition of_triage :: "string \<Rightarrow> finding_row \<Rightarrow> bool" where
  "of_triage s f \<longleftrightarrow> or_else (fi_triage_status f) ''pending'' = s"

definition patchset_baseline :: "db \<Rightarrow> patchset_row \<Rightarrow> baseline_row option" where
  "patchset_baseline d p = Option.bind (ps_baseline p) (\<lambda>b. first (filter (\<lambda>r. bl_id r = b) (baselines d)))"

fun column_value :: "db \<Rightarrow> patchset_row \<Rightarrow> column \<Rightarrow> sql_value" where
  "column_value d p CSubject = SqlText (ps_subject p)"
| "column_value d p CAuthor = sql_text (ps_author p)"
| "column_value d p CBranch = sql_text (Option.bind (patchset_baseline d p) bl_branch)"
| "column_value d p CDate = SqlInt (ps_date p)"
| "column_value d p CStatus = SqlText (ps_status p)"
| "column_value d p CPending = SqlInt (int (count_findings (of_triage ''pending'') (ps_id p) d))"
| "column_value d p CToFix = SqlInt (int (count_findings (of_triage ''to_fix'') (ps_id p) d))"
| "column_value d p CId = SqlInt (ps_id p)"

definition row_key :: "db \<Rightarrow> (column \<times> bool) list \<Rightarrow> patchset_row \<Rightarrow> sort_value list" where
  "row_key d cs p = List.map (\<lambda>(c, asc). if asc then Asc (column_value d p c) else Desc (column_value d p c)) cs"

subsection \<open>The lists\<close>

record PatchsetRow =
  pr_id :: int
  pr_subject :: string
  pr_status :: string
  pr_thread_id :: int
  pr_author :: "string option"
  pr_date :: int
  pr_message_id :: "string option"
  pr_total_parts :: "nat option"
  pr_received_parts :: "nat option"
  pr_subsystems :: "string list"
  pr_findings_low :: nat
  pr_findings_medium :: nat
  pr_findings_high :: nat
  pr_findings_critical :: nat
  pr_findings_pending :: nat
  pr_findings_to_fix :: nat
  pr_baseline_id :: "int option"
  pr_baseline_branch :: "string option"
  pr_baseline_commit :: "string option"
  pr_failed_reason :: "string option"
  pr_skip_filters :: "string list option"
  pr_only_filters :: "string list option"
  pr_target_review_count :: "nat option"
  pr_embargo_until :: "int option"

definition is_embargoed :: "int \<Rightarrow> patchset_row \<Rightarrow> bool" where
  "is_embargoed now p = (case ps_embargo p of Some until \<Rightarrow> until > now | None \<Rightarrow> False)"

definition shown_status :: "int \<Rightarrow> patchset_row \<Rightarrow> string" where
  "shown_status now p = (if is_embargoed now p \<and> ps_status p = ''Reviewed'' then ''Embargoed'' else ps_status p)"

text \<open>\<open>GROUP_CONCAT(s.name, ',')\<close>, taken apart at its commas again.\<close>

definition subsystem_names :: "db \<Rightarrow> int \<Rightarrow> string list" where
  "subsystem_names d i =
     List.map_filter (\<lambda>(a, b). if a = i then map_option su_name (first (filter (\<lambda>s. su_id s = b) (subsystems d))) else None)
       (patchsets_subsystems d)"

definition listed_subsystems :: "db \<Rightarrow> int \<Rightarrow> string list" where
  "listed_subsystems d i =
     filter (\<lambda>s. s \<noteq> []) (List.map trim (split_char CHR '','' (join '','' (subsystem_names d i))))"

definition listed_row :: "int \<Rightarrow> db \<Rightarrow> patchset_row \<Rightarrow> PatchsetRow" where
  "listed_row now d p =
     (let shown = (\<lambda>P. if is_embargoed now p then 0 else count_findings P (ps_id p) d); base = patchset_baseline d p
      in \<lparr>pr_id = ps_id p, pr_subject = ps_subject p, pr_status = shown_status now p, pr_thread_id = ps_thread p,
          pr_author = ps_author p, pr_date = ps_date p, pr_message_id = ps_cover p, pr_total_parts = ps_total p,
          pr_received_parts = ps_received p, pr_subsystems = listed_subsystems d (ps_id p),
          pr_findings_low = shown (of_severity 1), pr_findings_medium = shown (of_severity 2),
          pr_findings_high = shown (of_severity 3), pr_findings_critical = shown (of_severity 4),
          pr_findings_pending = shown (of_triage ''pending''), pr_findings_to_fix = shown (of_triage ''to_fix''),
          pr_baseline_id = ps_baseline p, pr_baseline_branch = Option.bind base bl_branch,
          pr_baseline_commit = Option.bind base bl_commit, pr_failed_reason = ps_failed_reason p,
          pr_skip_filters = ps_skip p, pr_only_filters = ps_only p, pr_target_review_count = ps_target_reviews p,
          pr_embargo_until = ps_embargo p\<rparr>)"

text \<open>\<open>LIMIT ? OFFSET ?\<close>: the numbers are signed there, a negative offset is none and a negative limit is no limit.\<close>

definition page_of :: "int \<Rightarrow> int \<Rightarrow> 'r list \<Rightarrow> 'r list" where
  "page_of limit offset rows = (let rest = drop (nat offset) rows in if limit < 0 then rest else take (nat limit) rest)"

text \<open>Rows with the same key come in the order in which the list of the table gives them. The database promises no such
  order: what holds for the lists must hold for every order of the rows of the table.\<close>

definition ordered_patchsets :: "(int \<Rightarrow> string option) \<Rightarrow> string option \<Rightarrow> string option \<Rightarrow> string option \<Rightarrow> db \<Rightarrow>
    patchset_row list" where
  "ordered_patchsets datetime query mailing_list sort_text d =
     sort_key (row_key d (sort_clauses sort_text)) (found_patchsets datetime query mailing_list d)"

definition get_patchsets_sorted :: "(int \<Rightarrow> string option) \<Rightarrow> int \<Rightarrow> u64 \<Rightarrow> u64 \<Rightarrow> string option \<Rightarrow> string option \<Rightarrow>
    string option \<Rightarrow> db \<Rightarrow> PatchsetRow list" where
  "get_patchsets_sorted datetime now limit offset query mailing_list sort_text d =
     List.map (listed_row now d)
       (page_of (sint limit) (sint offset) (ordered_patchsets datetime query mailing_list sort_text d))"

definition get_patchsets :: "(int \<Rightarrow> string option) \<Rightarrow> int \<Rightarrow> u64 \<Rightarrow> u64 \<Rightarrow> string option \<Rightarrow> string option \<Rightarrow> db \<Rightarrow>
    PatchsetRow list" where
  "get_patchsets datetime now limit offset query mailing_list d =
     get_patchsets_sorted datetime now limit offset query mailing_list None d"

definition get_messages :: "(int \<Rightarrow> string option) \<Rightarrow> u64 \<Rightarrow> u64 \<Rightarrow> string option \<Rightarrow> string option \<Rightarrow> db \<Rightarrow> message_row list" where
  "get_messages datetime limit offset query mailing_list d =
     page_of (sint limit) (sint offset) (sort_desc me_date (found_messages datetime query mailing_list d))"

definition count_patchsets :: "(int \<Rightarrow> string option) \<Rightarrow> string option \<Rightarrow> string option \<Rightarrow> db \<Rightarrow> nat" where
  "count_patchsets datetime query mailing_list d = length (found_patchsets datetime query mailing_list d)"

definition count_messages :: "(int \<Rightarrow> string option) \<Rightarrow> string option \<Rightarrow> string option \<Rightarrow> db \<Rightarrow> nat" where
  "count_messages datetime query mailing_list d = length (found_messages datetime query mailing_list d)"

end
