(* ===== verification/Listing_Props.thy ===== *)
theory Listing_Props
  imports Listing "HOL-Library.Multiset" "HOL-Library.Code_Target_Nat"
begin

text \<open>
  The lists are what their queries say: user text reaches the SQL only as a bound parameter, a search without
  wild cards is a search for a substring, the pages of a list give every row once, and an embargo hides
  what a review found.
\<close>

subsection \<open>The text of the queries\<close>

lemma count_list_join:
  "count_list sep c = 0 \<Longrightarrow> count_list (join sep xs) c = sum_list (List.map (\<lambda>x. count_list x c) xs)"
  by (induction sep xs rule: join.induct) auto

lemma condition_placeholders: "count_list (condition_sql c) CHR ''?'' = length (condition_params c)"
  by (cases c) (simp_all add: count_list_join)

text \<open>The queries that stand for all: one for each kind of condition.\<close>

definition query_shapes :: "string option list" where
  "query_shapes = [None, Some ''author:'', Some ''subject:'', Some ''date:'', Some ''subsystem:'', Some ''x'']"

definition list_shapes :: "string option list" where
  "list_shapes = [None, Some ''x'']"

lemma query_condition_shape:
  "\<exists>q'\<in>set query_shapes. query_conditions q' b \<noteq> [] \<and>
     condition_sql (query_condition q b) = condition_sql (hd (query_conditions q' b))"
proof -
  have shapes: "query_conditions (Some ''author:'') b = [AuthorLike (pattern [])]"
    "query_conditions (Some ''subject:'') b = [SubjectLike (pattern [])]"
    "query_conditions (Some ''date:'') b = [DateLike (pattern [])]"
    "query_conditions (Some ''subsystem:'') b = [(if b then PatchsetSubsystem else MessageSubsystem) (pattern [])]"
    "query_conditions (Some ''x'') b = [AnyLike (pattern ''x'')]"
    by (cases b; code_simp)+
  show ?thesis
    by (simp add: query_shapes_def shapes query_condition_def split: option.split)
qed

lemma query_conditions_shape:
  "\<exists>q'\<in>set query_shapes. List.map condition_sql (query_conditions q b) = List.map condition_sql (query_conditions q' b)"
proof (cases "query_conditions q b = []")
  case True
  then show ?thesis by (auto simp: query_shapes_def query_conditions_def)
next
  case False
  then obtain t where q: "query_conditions q b = [query_condition t b]"
    by (auto simp: query_conditions_def split: option.splits if_splits)
  obtain q' where q': "q' \<in> set query_shapes" "query_conditions q' b \<noteq> []"
    "condition_sql (query_condition t b) = condition_sql (hd (query_conditions q' b))"
    using query_condition_shape by blast
  then have "query_conditions q' b = [hd (query_conditions q' b)]"
    by (auto simp: query_conditions_def split: option.splits if_splits)
  then have "List.map condition_sql (query_conditions q' b) = [condition_sql (hd (query_conditions q' b))]"
    by (metis list.simps(8,9))
  then have "List.map condition_sql (query_conditions q b) = List.map condition_sql (query_conditions q' b)"
    unfolding q list.map q'(3) by (rule sym)
  with q'(1) show ?thesis by blast
qed

lemma list_conditions_shape:
  "\<exists>l'\<in>set list_shapes. List.map condition_sql (list_conditions l b) = List.map condition_sql (list_conditions l' b)"
proof (cases "list_conditions l b = []")
  case True
  moreover have "list_conditions None b = []" by (simp add: list_conditions_def)
  ultimately show ?thesis unfolding list_shapes_def by (intro bexI [of _ None]) simp_all
next
  case False
  then obtain t where "list_conditions l b = [if b then ListedPatchset t else ListedMessage t]"
    by (auto simp: list_conditions_def split: option.splits if_splits)
  moreover have "list_conditions (Some ''x'') b = [if b then ListedPatchset ''x'' else ListedMessage ''x'']"
    by (simp add: list_conditions_def)
  moreover have "condition_sql (ListedPatchset t) = condition_sql (ListedPatchset ''x'')"
    "condition_sql (ListedMessage t) = condition_sql (ListedMessage ''x'')"
    by (simp_all only: condition_sql.simps)
  ultimately have "List.map condition_sql (list_conditions l b) = List.map condition_sql (list_conditions (Some ''x'') b)"
    by (cases b) (simp_all only: if_True if_False list.map)
  then show ?thesis unfolding list_shapes_def by (intro bexI [of _ "Some ''x''"]) simp_all
qed

text \<open>C11. A search binds as many parameters as its SQL has question marks, and its SQL is one of twelve fixed texts:
  whatever the user writes reaches the database only as a parameter. The order of the rows is made of fixed
  columns and directions only.\<close>

theorem search_text_fixed:
  "count_list (fst (build_search q l b)) CHR ''?'' = length (snd (build_search q l b)) \<and>
   (\<exists>q'\<in>set query_shapes. \<exists>l'\<in>set list_shapes. fst (build_search q l b) = fst (build_search q' l' b)) \<and>
   (\<exists>cs. cs \<noteq> [] \<and> snd ` set cs \<subseteq> {True, False} \<and> fst ` set cs \<subseteq> insert CId (snd ` set allowed) \<and>
      build_order_by so = ''ORDER BY '' @ join '', '' (List.map clause_sql cs))"
proof (intro conjI)
  show "count_list (fst (build_search q l b)) CHR ''?'' = length (snd (build_search q l b))"
    by (simp add: build_search_def Let_def count_list_join condition_placeholders length_concat comp_def)
  obtain q' l' where "q' \<in> set query_shapes" "l' \<in> set list_shapes"
    "List.map condition_sql (query_conditions q b) = List.map condition_sql (query_conditions q' b)"
    "List.map condition_sql (list_conditions l b) = List.map condition_sql (list_conditions l' b)"
    using query_conditions_shape list_conditions_shape by metis
  then show "\<exists>q'\<in>set query_shapes. \<exists>l'\<in>set list_shapes. fst (build_search q l b) = fst (build_search q' l' b)"
    by (intro bexI [of _ q'] bexI [of _ l']) (simp_all add: build_search_def search_conditions_def Let_def)
  have m: "fst c \<in> snd ` set allowed" if "sort_token t = Some c" for t c
    using that by (auto simp: sort_token_def split: prod.splits dest!: map_of_SomeD intro: image_eqI [rotated])
  have date: "CDate \<in> snd ` set allowed" by code_simp
  have "fst ` set (sort_clauses so) \<subseteq> insert CId (snd ` set allowed)"
    using m date by (auto simp: sort_clauses_def Let_def set_map_filter simp del: image_insert split: option.splits)
  moreover have "sort_clauses so \<noteq> []" by (simp add: sort_clauses_def Let_def)
  ultimately show "\<exists>cs. cs \<noteq> [] \<and> snd ` set cs \<subseteq> {True, False} \<and> fst ` set cs \<subseteq> insert CId (snd ` set allowed) \<and>
      build_order_by so = ''ORDER BY '' @ join '', '' (List.map clause_sql cs)"
    unfolding build_order_by_def by (intro exI [of _ "sort_clauses so"]) auto
qed


subsection \<open>What a search finds\<close>

lemma like_percent: "like (CHR ''%'' # p) s \<longleftrightarrow> (\<exists>u v. s = u @ v \<and> like p v)"
proof (induction s)
  case (Cons c s)
  have "(\<exists>u v. c # s = u @ v \<and> like p v) \<longleftrightarrow> like p (c # s) \<or> (\<exists>u v. s = u @ v \<and> like p v)"
    by (auto simp: Cons_eq_append_conv)
  with Cons show ?case by simp
qed simp

lemma like_plain:
  "\<forall>c\<in>set p. c \<noteq> CHR ''%'' \<and> c \<noteq> CHR ''_'' \<Longrightarrow>
   like (p @ q) s \<longleftrightarrow> (\<exists>u v. s = u @ v \<and> lower u = lower p \<and> like q v)"
proof (induction p arbitrary: s)
  case (Cons c p)
  show ?case
  proof (cases s)
    case (Cons x t)
    have "(\<exists>u v. x # t = u @ v \<and> lower u = lower (c # p) \<and> like q v) \<longleftrightarrow>
        lower_char c = lower_char x \<and> (\<exists>u v. t = u @ v \<and> lower u = lower p \<and> like q v)"
    proof
      assume "lower_char c = lower_char x \<and> (\<exists>u v. t = u @ v \<and> lower u = lower p \<and> like q v)"
      then obtain u v where "lower_char c = lower_char x" "t = u @ v" "lower u = lower p" "like q v" by blast
      then show "\<exists>u v. x # t = u @ v \<and> lower u = lower (c # p) \<and> like q v"
        by (intro exI [of _ "x # u"] exI [of _ v]) simp
    qed (auto simp: Cons_eq_append_conv, blast)
    with Cons Cons.IH [of t] Cons.prems show ?thesis by auto
  qed (use Cons.prems in simp)
qed (simp add: lower_def)

lemma lower_split: "lower s = u @ v \<Longrightarrow> \<exists>a b. s = a @ b \<and> lower a = u \<and> lower b = v"
  unfolding lower_def by (metis append_eq_map_conv)

text \<open>A search text without the wild cards \<open>%\<close> and \<open>_\<close> finds exactly the texts it is part of, whatever the case of
  the letters.\<close>

theorem search_is_contains:
  assumes "CHR ''%'' \<notin> set v" "CHR ''_'' \<notin> set v"
  shows "like (pattern v) s \<longleftrightarrow> contains (lower s) (lower v)"
proof -
  have "like [CHR ''%''] b" for b unfolding like_percent by (intro exI [of _ b] exI [of _ "[]"]) simp
  moreover have "\<forall>c\<in>set v. c \<noteq> CHR ''%'' \<and> c \<noteq> CHR ''_''" using assms by auto
  ultimately have "like (pattern v) s \<longleftrightarrow> (\<exists>a u b. s = a @ u @ b \<and> lower u = lower v)"
    using like_plain [of v "''%''"] by (simp add: pattern_def like_percent) blast
  also have "\<dots> \<longleftrightarrow> (\<exists>a b. lower s = a @ lower v @ b)"
  proof
    assume "\<exists>a b. lower s = a @ lower v @ b"
    then obtain a b where "lower s = a @ lower v @ b" by blast
    then obtain x y where "s = x @ y" "lower y = lower v @ b" using lower_split by blast
    moreover then obtain u z where "y = u @ z" "lower u = lower v" using lower_split by blast
    ultimately show "\<exists>a u b. s = a @ u @ b \<and> lower u = lower v" by blast
  qed (metis lower_simps(2))
  finally show ?thesis by (simp add: contains_iff)
qed

theorem search_is_contains_witness: "like (pattern ''Net'') ''[PATCH] netfilter''"
  using search_is_contains [of "''Net''" "''[PATCH] netfilter''"] by code_simp

subsection \<open>Pages\<close>

lemma drop_take_pages: "concat (List.map (\<lambda>k. take n (drop (n * k) xs)) [0..<m]) = take (n * m) xs"
proof (induction m)
  case (Suc m)
  moreover have "take (n * Suc m) xs = take (n * m) xs @ take n (drop (n * m) xs)"
    using take_add [of "n * m" n xs] by (simp add: add.commute)
  ultimately show ?case by simp
qed simp

text \<open>A page of a list of \<open>n\<close> rows to the page.\<close>

lemma page_of_words:
  assumes "n * Suc k < 2 ^ 63"
  shows "page_of (sint (of_nat n :: u64)) (sint (of_nat (n * k) :: u64)) xs = take n (drop (n * k) xs)"
proof -
  have "sint (of_nat j :: u64) = int j" if "j < 2 ^ 63" for j
    using that by (simp add: sint_uint uint_nat unat_of_nat signed_take_bit_int_eq_self)
  moreover have "n < 2 ^ 63" "n * k < 2 ^ 63" using assms by (simp_all add: less_le_trans)
  ultimately have "sint (of_nat n :: u64) = int n" "sint (of_nat (n * k) :: u64) = int (n * k)" by blast+
  then show ?thesis unfolding page_of_def Let_def by (simp only: nat_int of_nat_less_0_iff if_False)
qed

text \<open>The order in which the database comes upon the rows of a table is its own; here it is the order of the list, and
  a statement that must not depend on it is made for every order of the same rows. With at least one sort key that is
  allowed, or when no two patchsets have the same date, the sorted list is a function of the rows alone.\<close>

lemma row_key_inj:
  assumes "distinct (List.map ps_id (patchsets d))"
    "sort_clauses so \<noteq> [(CDate, False)] \<or> distinct (List.map ps_date (patchsets d))"
  shows "inj_on (row_key d (sort_clauses so)) (set (patchsets d))"
proof (rule inj_onI)
  fix a b assume ab: "a \<in> set (patchsets d)" "b \<in> set (patchsets d)"
    "row_key d (sort_clauses so) a = row_key d (sort_clauses so) b"
  have col: "column_value d a c = column_value d b c" if "(c, False) \<in> set (sort_clauses so)" for c
  proof -
    have "(\<lambda>(c, asc). if asc then Asc (column_value d a c) else Desc (column_value d a c)) (c, False) =
        (\<lambda>(c, asc). if asc then Asc (column_value d b c) else Desc (column_value d b c)) (c, False)"
      using ab(3) that unfolding row_key_def by (meson map_eq_conv)
    then show ?thesis by simp
  qed
  show "a = b"
  proof (cases "sort_clauses so = [(CDate, False)]")
    case True
    then have "inj_on ps_date (set (patchsets d))" using assms(2) by (simp add: distinct_map)
    moreover have "ps_date a = ps_date b" using col [of CDate] True by simp
    ultimately show ?thesis using ab(1,2) by (simp add: inj_on_def)
  next
    case False
    then have "(CId, False) \<in> set (sort_clauses so)" by (auto simp: sort_clauses_def Let_def split: if_splits)
    from col [OF this] have "ps_id a = ps_id b" by simp
    then show ?thesis using ab(1,2) assms(1) by (simp add: distinct_map inj_on_def)
  qed
qed

lemma permuted_rows:
  assumes "mset ps = mset (patchsets d)"
  shows "mset (found_patchsets dt q l (d\<lparr>patchsets := ps\<rparr>)) = mset (found_patchsets dt q l d)"
    "row_key (d\<lparr>patchsets := ps\<rparr>) cs p = row_key d cs p"
    "listed_row now (d\<lparr>patchsets := ps\<rparr>) p = listed_row now d p"
proof -
  have holds: "patchset_holds dt (d\<lparr>patchsets := ps\<rparr>) c p = patchset_holds dt d c p" for c p
    by (cases c) (simp_all add: on_list_def in_subsystem_def cong: option.case_cong)
  show "mset (found_patchsets dt q l (d\<lparr>patchsets := ps\<rparr>)) = mset (found_patchsets dt q l d)"
    by (simp add: found_patchsets_def holds assms del: patchset_holds.simps)
  have base: "patchset_baseline (d\<lparr>patchsets := ps\<rparr>) p = patchset_baseline d p" for p
    by (simp add: patchset_baseline_def)
  have count: "count_findings P i (d\<lparr>patchsets := ps\<rparr>) = count_findings P i d" for P i
    by (simp add: count_findings_def)
  have "column_value (d\<lparr>patchsets := ps\<rparr>) p c = column_value d p c" for p c
    by (cases c) (simp_all add: base count)
  then show "row_key (d\<lparr>patchsets := ps\<rparr>) cs p = row_key d cs p" by (simp add: row_key_def split_def)
  have links: "subsystems (d\<lparr>patchsets := ps\<rparr>) = subsystems d"
    "patchsets_subsystems (d\<lparr>patchsets := ps\<rparr>) = patchsets_subsystems d" by simp_all
  have names: "listed_subsystems (d\<lparr>patchsets := ps\<rparr>) i = listed_subsystems d i" for i
    unfolding listed_subsystems_def subsystem_names_def links ..
  show "listed_row now (d\<lparr>patchsets := ps\<rparr>) p = listed_row now d p"
    by (simp add: listed_row_def base count names)
qed

theorem sorted_list_unique:
  assumes "mset ps = mset (patchsets d)" "distinct (List.map ps_id (patchsets d))"
    "sort_clauses so \<noteq> [(CDate, False)] \<or> distinct (List.map ps_date (patchsets d))"
  shows "ordered_patchsets dt q l so (d\<lparr>patchsets := ps\<rparr>) = ordered_patchsets dt q l so d"
proof -
  let ?K = "row_key d (sort_clauses so)"
  let ?xs = "found_patchsets dt q l (d\<lparr>patchsets := ps\<rparr>)" and ?ys = "found_patchsets dt q l d"
  have inj: "inj_on ?K (set ?ys)"
    by (rule inj_on_subset [OF row_key_inj [OF assms(2,3)]]) (auto simp: found_patchsets_def)
  note m = permuted_rows(1) [OF assms(1), of dt q l]
  have "mset ?xs = mset (sort_key ?K ?ys)" "inj_on ?K (set ?xs)" "sorted (List.map ?K (sort_key ?K ?ys))"
    using inj m mset_eq_setD [OF m] by simp_all
  then show ?thesis unfolding ordered_patchsets_def permuted_rows(2) [OF assms(1)] by (rule sort_key_inj_key_eq)
qed

text \<open>C10. The pages of a list of patchsets, one after the other, are the whole list in its order: as many pages as the
  count needs give every patchset that the search finds, and each of them once, although the database may come upon
  the rows in another order for every page. This is for a list with a sort key that is allowed, which the id then
  completes, and for the default order, the newest first, only when no two patchsets have the same date; the store
  stays the same from page to page, and the rows of all pages are fewer than \<open>2\<^sup>63\<close>.\<close>

theorem pages_cover:
  assumes "distinct (List.map ps_id (patchsets d))"
    "sort_clauses so \<noteq> [(CDate, False)] \<or> distinct (List.map ps_date (patchsets d))"
    "\<And>k. mset (rows k) = mset (patchsets d)"
    "count_patchsets dt q l d \<le> n * m" "n * m < 2 ^ 63"
  shows "concat (List.map (\<lambda>k. get_patchsets_sorted dt now (of_nat n) (of_nat (n * k)) q l so
        (d\<lparr>patchsets := rows k\<rparr>)) [0..<m]) =
      List.map (listed_row now d) (ordered_patchsets dt q l so d) \<and>
    mset (ordered_patchsets dt q l so d) = mset (found_patchsets dt q l d) \<and>
    sorted (List.map (row_key d (sort_clauses so)) (ordered_patchsets dt q l so d)) \<and>
    length (ordered_patchsets dt q l so d) = count_patchsets dt q l d"
proof (intro conjI)
  let ?xs = "ordered_patchsets dt q l so d"
  show c: "length ?xs = count_patchsets dt q l d" by (simp add: ordered_patchsets_def count_patchsets_def)
  have "get_patchsets_sorted dt now (of_nat n) (of_nat (n * k)) q l so (d\<lparr>patchsets := rows k\<rparr>) =
      List.map (listed_row now d) (take n (drop (n * k) ?xs))" if "k < m" for k
  proof -
    have "n * Suc k < 2 ^ 63" using that assms(5) by (meson Suc_leI le_less_trans mult_le_mono2)
    then show ?thesis
      unfolding get_patchsets_sorted_def sorted_list_unique [OF assms(3,1,2)] permuted_rows(3) [OF assms(3)]
      by (simp only: page_of_words)
  qed
  then have "concat (List.map (\<lambda>k. get_patchsets_sorted dt now (of_nat n) (of_nat (n * k)) q l so
        (d\<lparr>patchsets := rows k\<rparr>)) [0..<m]) =
      concat (List.map (\<lambda>k. List.map (listed_row now d) (take n (drop (n * k) ?xs))) [0..<m])"
    by (intro arg_cong [where f = concat] map_cong) auto
  also have "\<dots> = List.map (listed_row now d) (take (n * m) ?xs)"
    unfolding drop_take_pages [symmetric] by (simp add: map_concat comp_def)
  finally show "concat (List.map (\<lambda>k. get_patchsets_sorted dt now (of_nat n) (of_nat (n * k)) q l so
        (d\<lparr>patchsets := rows k\<rparr>)) [0..<m]) = List.map (listed_row now d) ?xs"
    using assms(4) c by simp
qed (simp_all add: ordered_patchsets_def)

text \<open>A store with two patchsets.\<close>

definition two_patchsets :: db where
  "two_patchsets = snd (create_fetching_patchset ''b'' ''B'' None None 6
     (snd (create_fetching_patchset ''a'' ''A'' None None 5 empty_db)))"

theorem pages_cover_witness:
  "List.map pr_subject (concat (List.map (\<lambda>k. get_patchsets_sorted (\<lambda>_. None) 0 (of_nat 1) (of_nat (1 * k)) None None
     (Some ''subject:asc'') (two_patchsets\<lparr>patchsets := (if k = 0 then patchsets two_patchsets
       else rev (patchsets two_patchsets))\<rparr>)) [0..<2])) = [''A'', ''B'']"
proof -
  let ?rows = "\<lambda>k::nat. if k = 0 then patchsets two_patchsets else rev (patchsets two_patchsets)"
  have d: "distinct (List.map ps_id (patchsets two_patchsets))" by code_simp
  have s: "sort_clauses (Some ''subject:asc'') \<noteq> [(CDate, False)] \<or> distinct (List.map ps_date (patchsets two_patchsets))"
    by (intro disjI1) code_simp
  have r: "mset (?rows k) = mset (patchsets two_patchsets)" for k by simp
  have c: "count_patchsets (\<lambda>_. None) None None two_patchsets \<le> 1 * 2" by code_simp
  have o: "List.map (\<lambda>p. pr_subject (listed_row 0 two_patchsets p))
      (ordered_patchsets (\<lambda>_. None) None None (Some ''subject:asc'') two_patchsets) = [''A'', ''B'']" by code_simp
  have n: "(1 * 2 :: nat) < 2 ^ 63" by simp
  show ?thesis using pages_cover [OF d s r c n, of 0] o by (simp only: list.map_comp comp_def)
qed

theorem sorted_list_unique_witness:
  "List.map ps_subject (ordered_patchsets (\<lambda>_. None) None None (Some ''subject:asc'')
     (two_patchsets\<lparr>patchsets := rev (patchsets two_patchsets)\<rparr>)) = [''A'', ''B'']"
proof -
  have d: "distinct (List.map ps_id (patchsets two_patchsets))" by code_simp
  have s: "sort_clauses (Some ''subject:asc'') \<noteq> [(CDate, False)] \<or> distinct (List.map ps_date (patchsets two_patchsets))"
    by (intro disjI1) code_simp
  have o: "List.map ps_subject (ordered_patchsets (\<lambda>_. None) None None (Some ''subject:asc'') two_patchsets) = [''A'', ''B'']"
    by code_simp
  show ?thesis using sorted_list_unique [OF mset_rev d s] o by simp
qed

text \<open>Without a sort key the newest come first, but patchsets of the same second come in the order of the database, so that
  a patchset can be on two pages or on none.\<close>

theorem default_order_open:
  "let d = two_patchsets\<lparr>patchsets := List.map (\<lambda>p. p\<lparr>ps_date := 5\<rparr>) (patchsets two_patchsets)\<rparr>;
       list = (\<lambda>ps. List.map ps_id (ordered_patchsets (\<lambda>_. None) None None None (d\<lparr>patchsets := ps\<rparr>)))
   in list (patchsets d) = [1, 2] \<and> list (rev (patchsets d)) = [2, 1]"
  by code_simp

end
