(* ===== verification/Details.thy ===== *)
theory Details
  imports Listing "HOL-Library.Product_Lexorder"
begin

text \<open>
  What the pages of one patchset and of one review get from \<open>src/db.rs\<close>, as the JSON values they are.
\<close>

subsection \<open>JSON of a row\<close>

definition jstring :: "string option \<Rightarrow> json" where
  "jstring = jopt JStr"

definition jint :: "int option \<Rightarrow> json" where
  "jint = jopt JInt"

definition jnat :: "nat option \<Rightarrow> json" where
  "jnat = jopt (\<lambda>n. JInt (int n))"

definition comment_json :: "int option \<times> string \<times> string \<times> int option \<Rightarrow> json" where
  "comment_json = (\<lambda>(i, status, comment, created).
     JObj [(''id'', jint i), (''status'', JStr status), (''comment'', JStr comment), (''created_at'', jint created)])"

definition finding_json :: "FindingView \<Rightarrow> json" where
  "finding_json f =
     JObj [(''id'', JInt (fv_id f)), (''severity'', JStr (fv_severity f)),
       (''severity_explanation'', jstring (fv_explanation f)), (''problem'', JStr (fv_problem f)),
       (''suggestion'', jstring (fv_suggestion f)), (''triage_status'', JStr (fv_triage_status f)),
       (''triage_comment'', jstring (fv_triage_comment f)), (''triage_updated_at'', jint (fv_triage_updated f)),
       (''triage_comments'', JArr (List.map comment_json (fv_comments f)))]"

definition findings_json :: "int \<Rightarrow> db \<Rightarrow> json" where
  "findings_json i d = JArr (List.map finding_json (get_findings_for_review i d))"

definition interaction_of :: "db \<Rightarrow> review_row \<Rightarrow> interaction_row option" where
  "interaction_of d r = Option.bind (rv_interaction r) (\<lambda>i. first (filter (\<lambda>a. ai_id a = i) (interactions d)))"

definition baseline_json :: "db \<Rightarrow> int option \<Rightarrow> json" where
  "baseline_json d b =
     jopt (\<lambda>r. JObj [(''repo_url'', jstring (bl_repo r)), (''branch'', jstring (bl_branch r)), (''commit'', jstring (bl_commit r))])
       (Option.bind b (\<lambda>i. first (filter (\<lambda>r. bl_id r = i) (baselines d))))"

subsection \<open>The page of a patchset\<close>

text \<open>The offset is a product of 32 bits, which wraps.\<close>

type_synonym word32 = "32 word"

definition page_offset :: "word32 \<Rightarrow> word32 \<Rightarrow> word32" where
  "page_offset limit_val page_val = limit_val * (if page_val = 0 then 0 else page_val - 1)"

text \<open>The patches joined with their messages and with their e-mails: a patch comes once for each of its e-mails.\<close>

definition joined_patches :: "int \<Rightarrow> db \<Rightarrow> (patch_row \<times> message_row option \<times> outbox_row option) list" where
  "joined_patches i d =
     sort_key (\<lambda>(p, _, _). pa_part p)
       (concat (List.map (\<lambda>p.
          let mails = filter (\<lambda>e. eo_patch e = pa_id p) (outbox d); m = find_message (pa_message_id p) d
          in if mails = [] then [(p, m, None)] else List.map (\<lambda>e. (p, m, Some e)) mails)
        (filter (\<lambda>p. pa_patchset p = i) (patches d))))"

definition page_patches :: "int \<Rightarrow> word32 \<Rightarrow> word32 \<Rightarrow> db \<Rightarrow> (patch_row \<times> message_row option \<times> outbox_row option) list" where
  "page_patches i limit_val offset_val d = page_of (uint limit_val) (uint offset_val) (joined_patches i d)"

definition shown_patch_status :: "bool \<Rightarrow> patch_row \<Rightarrow> string option" where
  "shown_patch_status embargoed p =
     (if embargoed \<and> pa_status p = Some ''Reviewed'' then Some ''Embargoed'' else pa_status p)"

definition page_patch_json :: "bool \<Rightarrow> patch_row \<times> message_row option \<times> outbox_row option \<Rightarrow> json" where
  "page_patch_json embargoed = (\<lambda>(p, m, e).
     JObj [(''id'', JInt (pa_id p)), (''message_id'', JStr (pa_message_id p)), (''part_index'', JInt (int (pa_part p))),
       (''msg_db_id'', jint (map_option me_id m)), (''subject'', jstring (map_option me_subject m)),
       (''status'', jstring (shown_patch_status embargoed p)), (''apply_error'', jstring (pa_apply_error p)),
       (''email_status'', jstring (map_option eo_status e)), (''email_to'', jstring (map_option eo_to e)),
       (''email_cc'', jstring (map_option eo_cc e))])"

definition page_reviews :: "int \<Rightarrow> int list \<Rightarrow> db \<Rightarrow> review_row list" where
  "page_reviews i patch_ids d =
     sort_key rv_created (filter (\<lambda>r. rv_patchset r = i \<and>
       (case rv_patch r of None \<Rightarrow> True | Some p \<Rightarrow> p \<in> set (if patch_ids = [] then [-1] else patch_ids))) (reviews d))"

text \<open>The details of a review in the page; the summary of a patchset leaves out the logs.\<close>

definition page_review_json :: "bool \<Rightarrow> patchset_row \<Rightarrow> db \<Rightarrow> review_row \<Rightarrow> json" where
  "page_review_json with_logs p d r =
     (let ai = interaction_of d r
      in JObj ([(''summary'', jstring (rv_summary r)), (''created_at'', JInt (rv_created r)),
           (''output'', jstring (map_option ai_output ai)), (''result'', jstring (rv_result r)),
           (''status'', JStr (rv_status r)), (''inline_review'', jstring (rv_inline r))] @
           (if with_logs then [(''logs'', jstring (rv_logs r))] else []) @
          [(''tokens_in'', jnat (map_option ai_tokens_in ai)), (''tokens_out'', jnat (map_option ai_tokens_out ai)),
           (''patch_id'', jint (rv_patch r)), (''id'', JInt (rv_id r)),
           (''tokens_cached'', jnat (map_option ai_tokens_cached ai)), (''started_at'', jint (rv_started r)),
           (''completed_at'', jint (rv_completed r)), (''interaction_created_at'', jint (map_option ai_created ai)),
           (''model'', jstring (ps_model p)), (''provider'', jstring (ps_provider p)),
           (''prompts_hash'', jstring (ps_prompts p)), (''baseline'', baseline_json d (ps_baseline p)),
           (''findings'', findings_json (rv_id r) d)]))"

definition thread_json :: "int \<Rightarrow> db \<Rightarrow> json" where
  "thread_json t d =
     JArr (List.map (\<lambda>m.
         JObj [(''id'', JInt (me_id m)), (''message_id'', JStr (me_message_id m)), (''author'', JStr (me_author m)),
           (''date'', JInt (me_date m)), (''subject'', JStr (me_subject m)), (''in_reply_to'', jstring (me_in_reply_to m))])
       (sort_key me_date (filter (\<lambda>m. me_thread m = t \<and> me_subject m \<noteq> placeholder) (messages d))))"

definition patchset_page :: "bool \<Rightarrow> int \<Rightarrow> int \<Rightarrow> word32 option \<Rightarrow> word32 option \<Rightarrow> db \<Rightarrow> (string \<times> json) list option" where
  "patchset_page with_logs now i page limit d =
     map_option (\<lambda>p.
       let limit_val = or_else limit 50; page_val = or_else page 1;
           embargoed = is_embargoed now p;
           rows = page_patches i limit_val (page_offset limit_val page_val) d;
           rs = List.map (page_review_json with_logs p d) (page_reviews i (List.map (\<lambda>(q, _, _). pa_id q) rows) d)
       in [(''id'', JInt (ps_id p)), (''message_id'', jstring (ps_cover p)), (''subject'', JStr (ps_subject p)),
           (''author'', jstring (ps_author p)), (''date'', JInt (ps_date p)), (''status'', JStr (shown_status now p)),
           (''failed_reason'', jstring (ps_failed_reason p)), (''to'', jstring (ps_to p)), (''cc'', jstring (ps_cc p)),
           (''total_parts'', jnat (ps_total p)), (''total_patches_in_db'', JInt (int (parts_of i (patches d)))),
           (''page'', JInt (uint page_val)), (''limit'', JInt (uint limit_val)),
           (''received_parts'', jnat (ps_received p)), (''reviews'', JArr (if embargoed then [] else rs)),
           (''patches'', JArr (List.map (page_patch_json embargoed) rows)), (''thread'', thread_json (ps_thread p) d),
           (''subsystems'', JArr (List.map JStr (subsystem_names d i))), (''model_name'', jstring (ps_model p)),
           (''prompts_git_hash'', jstring (ps_prompts p)), (''baseline_logs'', jstring (ps_baseline_logs p)),
           (''baseline'', baseline_json d (ps_baseline p)), (''provider'', jstring (ps_provider p)),
           (''embargo_until'', jint (ps_embargo p))])
     (find_patchset i d)"

definition get_patchset_details :: "int \<Rightarrow> int \<Rightarrow> word32 option \<Rightarrow> word32 option \<Rightarrow> db \<Rightarrow> (string \<times> json) list option" where
  "get_patchset_details = patchset_page True"

definition get_patchset_summary :: "int \<Rightarrow> int \<Rightarrow> word32 option \<Rightarrow> word32 option \<Rightarrow> db \<Rightarrow> (string \<times> json) list option" where
  "get_patchset_summary = patchset_page False"

text \<open>A message id stands for the patchset whose cover letter it is, or else the one it is a patch of.\<close>

definition patchset_of_msgid :: "string \<Rightarrow> db \<Rightarrow> int option" where
  "patchset_of_msgid msg_id d =
     (case first (filter (\<lambda>p. ps_cover p = Some msg_id) (patchsets d)) of
        Some p \<Rightarrow> Some (ps_id p)
      | None \<Rightarrow> map_option pa_patchset (first (filter (\<lambda>p. pa_message_id p = msg_id) (patches d))))"

definition get_patchset_details_by_msgid :: "int \<Rightarrow> string \<Rightarrow> word32 option \<Rightarrow> word32 option \<Rightarrow> db \<Rightarrow>
    (string \<times> json) list option" where
  "get_patchset_details_by_msgid now msg_id page limit d =
     Option.bind (patchset_of_msgid msg_id d) (\<lambda>i. get_patchset_details now i page limit d)"

definition get_patchset_summary_by_msgid :: "int \<Rightarrow> string \<Rightarrow> word32 option \<Rightarrow> word32 option \<Rightarrow> db \<Rightarrow>
    (string \<times> json) list option" where
  "get_patchset_summary_by_msgid now msg_id page limit d =
     Option.bind (patchset_of_msgid msg_id d) (\<lambda>i. get_patchset_summary now i page limit d)"

subsection \<open>One review\<close>

definition get_review_details :: "int \<Rightarrow> db \<Rightarrow> (string \<times> json) list option" where
  "get_review_details i d =
     map_option (\<lambda>r.
       let ai = interaction_of d r;
           b = Option.bind (rv_baseline r) (\<lambda>b. first (filter (\<lambda>x. bl_id x = b) (baselines d)))
       in [(''id'', JInt (rv_id r)), (''model'', JStr (rv_model r)), (''summary'', jstring (rv_summary r)),
           (''created_at'', JInt (rv_created r)), (''input'', jstring (map_option ai_input ai)),
           (''output'', jstring (map_option ai_output ai)),
           (''baseline'', JObj [(''repo_url'', jstring (Option.bind b bl_repo)), (''branch'', jstring (Option.bind b bl_branch)),
              (''commit'', jstring (Option.bind b bl_commit))]),
           (''provider'', JStr (rv_provider r)), (''prompts_hash'', jstring (rv_prompts r)),
           (''result'', jstring (rv_result r)), (''status'', JStr (rv_status r)),
           (''inline_review'', jstring (rv_inline r)), (''logs'', jstring (rv_logs r)),
           (''tokens_in'', jnat (map_option ai_tokens_in ai)), (''tokens_out'', jnat (map_option ai_tokens_out ai)),
           (''patch_id'', jint (rv_patch r)), (''tokens_cached'', jnat (map_option ai_tokens_cached ai)),
           (''started_at'', jint (rv_started r)), (''completed_at'', jint (rv_completed r)),
           (''interaction_created_at'', jint (map_option ai_created ai)), (''findings'', findings_json (rv_id r) d)])
     (first (filter (\<lambda>r. rv_id r = i) (reviews d)))"

definition get_latest_review_for_patchset :: "int \<Rightarrow> db \<Rightarrow> (string \<times> json) list option" where
  "get_latest_review_for_patchset i d = Option.bind (get_latest_review_id i d) (\<lambda>r. get_review_details r d)"

subsection \<open>Statistics\<close>

text \<open>The groups of a list by a key, in the order of the keys.\<close>

definition group_rows :: "('r \<Rightarrow> 'k :: linorder) \<Rightarrow> 'r list \<Rightarrow> ('k \<times> 'r list) list" where
  "group_rows key rows = List.map (\<lambda>k. (k, filter (\<lambda>r. key r = k) rows)) (sort (remdups (List.map key rows)))"

text \<open>\<open>day_of\<close> is the text SQLite gives for the day of a time; a row without a day is left out.\<close>

definition dated :: "(int \<Rightarrow> string option) \<Rightarrow> ('r \<Rightarrow> int) \<Rightarrow> 'r list \<Rightarrow> (string \<times> 'r) list" where
  "dated day_of time rows = List.map_filter (\<lambda>r. map_option (\<lambda>day. (day, r)) (day_of (time r))) rows"

definition day_counts :: "(string \<times> 'r) list \<Rightarrow> json" where
  "day_counts rows =
     JArr (List.map (\<lambda>(day, rs). JObj [(''day'', JStr day), (''count'', JInt (int (length rs)))]) (group_rows fst rows))"

definition day_key_counts :: "string \<Rightarrow> ('k \<Rightarrow> string) \<Rightarrow> ('r \<Rightarrow> 'k :: linorder) \<Rightarrow> (string \<times> 'r) list \<Rightarrow> json" where
  "day_key_counts name show key rows =
     JArr (List.map (\<lambda>(k, rs). JObj [(''day'', JStr (fst k)), (name, JStr (show (snd k))), (''count'', JInt (int (length rs)))])
       (group_rows (\<lambda>(day, r). (day, key r)) rows))"

text \<open>A row once for every link of its id to the subsystem, all rows without one.\<close>

definition of_subsystem :: "int option \<Rightarrow> (int \<times> int) list \<Rightarrow> ('r \<Rightarrow> int) \<Rightarrow> 'r list \<Rightarrow> 'r list" where
  "of_subsystem sid links i rows =
     (case sid of
        None \<Rightarrow> rows
      | Some s \<Rightarrow> concat (List.map (\<lambda>r. replicate (count_where (\<lambda>l. l = (i r, s)) links) r) rows))"

definition severity_text :: "int \<Rightarrow> string" where
  "severity_text n =
     (if n = 1 then ''low'' else if n = 2 then ''medium'' else if n = 3 then ''high'' else if n = 4 then ''critical''
      else ''unknown'')"

definition joined_findings :: "db \<Rightarrow> (finding_row \<times> review_row) list" where
  "joined_findings d =
     List.map_filter (\<lambda>f. map_option (Pair f) (first (filter (\<lambda>r. rv_id r = fi_review f) (reviews d)))) (findings d)"

definition get_timeline_stats :: "(int \<Rightarrow> string option) \<Rightarrow> int option \<Rightarrow> db \<Rightarrow> json" where
  "get_timeline_stats day_of sid d =
     JObj [(''messages'', day_counts (dated day_of me_date (of_subsystem sid (messages_subsystems d) me_id (messages d)))),
       (''patchsets'', day_key_counts ''status'' id ps_status
          (dated day_of ps_date (of_subsystem sid (patchsets_subsystems d) ps_id (patchsets d)))),
       (''patches'', day_counts (dated day_of (\<lambda>(p, m). me_date m)
          (of_subsystem sid (patches_subsystems d) (\<lambda>(p, m). pa_id p)
             (List.map_filter (\<lambda>p. map_option (Pair p) (find_message (pa_message_id p) d)) (patches d))))),
       (''reviews'', day_key_counts ''status'' id rv_status
          (dated day_of rv_created (of_subsystem sid (patchsets_subsystems d) rv_patchset (reviews d)))),
       (''findings'', day_key_counts ''severity'' severity_text (\<lambda>(f, r). fi_severity f)
          (dated day_of (\<lambda>(f, r). rv_created r)
             (of_subsystem sid (patchsets_subsystems d) (\<lambda>(f, r). rv_patchset r)
                (filter (\<lambda>(f, r). or_else (fi_triage_status f) ''pending'' \<noteq> ''not_issue'') (joined_findings d)))))]"

definition get_review_stats :: "db \<Rightarrow> json" where
  "get_review_stats d =
     JArr (List.map (\<lambda>((provider, model, status), rs).
         let total = (\<lambda>f. sum_list (List.map (\<lambda>r. case interaction_of d r of Some a \<Rightarrow> f a | None \<Rightarrow> (0::nat)) rs))
         in JObj [(''provider'', JStr provider), (''model'', JStr model), (''status'', JStr status),
              (''count'', JInt (int (length rs))), (''tokens_in'', JInt (int (total ai_tokens_in))),
              (''tokens_out'', JInt (int (total ai_tokens_out))), (''tokens_cached'', JInt (int (total ai_tokens_cached)))])
       (group_rows (\<lambda>r. (rv_provider r, rv_model r, rv_status r)) (reviews d)))"

definition triage_class :: "finding_row \<Rightarrow> string" where
  "triage_class f =
     (case fi_triage_status f of
        Some s \<Rightarrow> if s \<in> set [''pending'', ''not_issue'', ''to_fix'', ''fixed''] then s else ''pending''
      | None \<Rightarrow> ''pending'')"

definition count_triage :: "string \<Rightarrow> db \<Rightarrow> nat" where
  "count_triage s d = count_where (\<lambda>f. or_else (fi_preexisting f) 0 = 0 \<and> triage_class f = s) (findings d)"

definition get_finding_triage_stats :: "db \<Rightarrow> json" where
  "get_finding_triage_stats d =
     (let n = (\<lambda>s. count_triage s d)
      in JObj [(''total'', JInt (int (n ''pending'' + n ''not_issue'' + n ''to_fix'' + n ''fixed''))),
           (''pending'', JInt (int (n ''pending''))), (''not_issue'', JInt (int (n ''not_issue''))),
           (''to_fix'', JInt (int (n ''to_fix''))), (''fixed'', JInt (int (n ''fixed'')))])"

text \<open>\<open>average\<close> is the division of floating-point numbers, as the text it prints as.\<close>

definition get_tool_usage_stats :: "(int \<Rightarrow> nat \<Rightarrow> string) \<Rightarrow> db \<Rightarrow> json" where
  "get_tool_usage_stats average d =
     JArr (List.map (\<lambda>((provider, model, tool), us).
         JObj [(''provider'', JStr provider), (''model'', JStr model), (''tool'', JStr tool),
           (''count'', JInt (int (length us))),
           (''avg_output_length'', JFloat (average (sum_list (List.map tu_output_length us)) (length us)))])
       (group_rows (\<lambda>u. (tu_provider u, tu_model u, tu_tool u)) (tool_usages d)))"

end
