(* ===== verification/Api.thy ===== *)
theory Api
  imports Details Fetcher Notify
begin

text \<open>
  The handlers of the web interface (\<open>src/api.rs\<close>) over the store, with the caches in front of it and the
  queues of events and fetch requests behind it. The framework that reads requests and writes answers is not
  modelled: a handler takes the parsed request and gives a status code or a value.
\<close>

subsection \<open>Caches\<close>

text \<open>A value with the time it was made; times are nanoseconds of one clock.\<close>

type_synonym 'v cached = "'v \<times> int"

definition fresh :: "int \<Rightarrow> int \<Rightarrow> 'v cached \<Rightarrow> bool" where
  "fresh ttl now c \<longleftrightarrow> now - snd c < ttl"

definition get_or_fetch :: "int \<Rightarrow> int \<Rightarrow> 'v \<Rightarrow> 'v cached option \<Rightarrow> 'v \<times> 'v cached option" where
  "get_or_fetch ttl now fetched cache =
     (case cache of
        Some c \<Rightarrow> if fresh ttl now c then (fst c, cache) else (fetched, Some (fetched, now))
      | None \<Rightarrow> (fetched, Some (fetched, now)))"

definition map_get_or_fetch :: "int \<Rightarrow> int \<Rightarrow> 'k \<Rightarrow> 'v \<Rightarrow> ('k \<rightharpoonup> 'v cached) \<Rightarrow> 'v \<times> ('k \<rightharpoonup> 'v cached)" where
  "map_get_or_fetch ttl now key fetched cache =
     (let (v, c) = get_or_fetch ttl now fetched (cache key) in (v, cache(key := c)))"

subsection \<open>State\<close>

definition cache_seconds :: "int \<Rightarrow> int" where
  "cache_seconds n = n * 10 ^ 9"

record Caches =
  ca_timeline :: "int option \<rightharpoonup> json cached"
  ca_reviews :: "json cached option"
  ca_tools :: "json cached option"
  ca_findings :: "json cached option"
  ca_messages_count :: "nat cached option"
  ca_patchsets_count :: "nat cached option"
  ca_patchsets_homepage :: "PatchsetRow list cached option"
  ca_messages_homepage :: "message_row list cached option"

definition no_caches :: Caches where
  "no_caches = \<lparr>ca_timeline = Map.empty, ca_reviews = None, ca_tools = None, ca_findings = None, ca_messages_count = None,
     ca_patchsets_count = None, ca_patchsets_homepage = None, ca_messages_homepage = None\<rparr>"

record ServerConfig =
  sc_read_only :: bool
  sc_allow_all_submit :: bool
  sc_smtp_enabled :: bool
  sc_dry_run :: bool
  sc_repo_path :: path

text \<open>What the handlers act on; \<open>ap_db\<close> is the store, \<open>ap_requests\<close> the queue of the fetch agent, \<open>ap_threads\<close> the
  mail threads that tasks of their own have still to get.\<close>

record app =
  ap_db :: db
  ap_events :: "IngestEvent list"
  ap_requests :: "FetchRequest list"
  ap_threads :: "string list"
  ap_caches :: Caches

text \<open>The time of a request on the clock of the caches and in seconds, and the random number of a synthetic id.\<close>

record moment =
  mo_clock :: int
  mo_now :: int
  mo_random :: nat

datatype 'a http_answer = Ok 'a | Code nat

abbreviation "BAD_REQUEST \<equiv> (400 :: nat)"
abbreviation "FORBIDDEN \<equiv> (403 :: nat)"
abbreviation "NOT_FOUND \<equiv> (404 :: nat)"

subsection \<open>Addresses\<close>

datatype IpAddr = V4 "8 word" "8 word" "8 word" "8 word" | V6 "128 word"

definition is_loopback :: "IpAddr \<Rightarrow> bool" where
  "is_loopback a = (case a of V4 x _ _ _ \<Rightarrow> x = 127 | V6 w \<Rightarrow> w = 1)"

definition to_canonical :: "IpAddr \<Rightarrow> IpAddr" where
  "to_canonical a =
     (case a of
        V6 w \<Rightarrow> if drop_bit 32 w = 0xffff
          then V4 (ucast (drop_bit 24 w)) (ucast (drop_bit 16 w)) (ucast (drop_bit 8 w)) (ucast w) else a
      | _ \<Rightarrow> a)"

text \<open>The check of the handlers that change patchsets.\<close>

definition may_submit :: "ServerConfig \<Rightarrow> IpAddr \<Rightarrow> bool" where
  "may_submit cfg a \<longleftrightarrow> \<not> sc_read_only cfg \<and> (sc_allow_all_submit cfg \<or> is_loopback (to_canonical a))"

subsection \<open>Submitting\<close>

datatype SubmitRequest =
    Inject string "string option" "string list option" "string list option"
  | Remote string "string option" "string list option" "string list option"
  | RemoteRange string "string option" "string list option" "string list option"
  | Thread string

record SubmitResponse =
  sr_status :: string
  sr_id :: string

definition accepted_as :: "string \<Rightarrow> SubmitResponse" where
  "accepted_as i = \<lparr>sr_status = ''accepted'', sr_id = i\<rparr>"

definition generate_synthetic_id :: "string \<Rightarrow> moment \<Rightarrow> string" where
  "generate_synthetic_id prefix t = ''sashiko-'' @ prefix @ ''-'' @ show_int (mo_now t) @ ''-'' @ show_nat (mo_random t)"

definition submit_inject :: "moment \<Rightarrow> string \<Rightarrow> string option \<Rightarrow> string list option \<Rightarrow> string list option \<Rightarrow> app \<Rightarrow>
    SubmitResponse http_answer \<times> app" where
  "submit_inject t raw base_commit skip only s =
     (if trim raw = [] then (Code BAD_REQUEST, s)
      else if \<not> contains raw ''From '' \<and> \<not> contains raw ''Subject:'' then (Code BAD_REQUEST, s)
      else (Ok (accepted_as (generate_synthetic_id ''inject'' t)),
            s\<lparr>ap_events := ap_events s @ [RawMboxSubmitted raw ''api-submit'' base_commit skip only]\<rparr>))"

definition submit_remote :: "moment \<Rightarrow> string \<Rightarrow> string option \<Rightarrow> string list option \<Rightarrow> string list option \<Rightarrow> app \<Rightarrow>
    SubmitResponse http_answer \<times> app" where
  "submit_remote t sha repo skip only s =
     (Ok (accepted_as sha),
      s\<lparr>ap_db := snd (create_fetching_patchset sha
            (''Fetching '' @ sha @ '' from '' @ (case repo of Some r \<Rightarrow> r | None \<Rightarrow> ''local'') @ ''...'') skip only (mo_now t) (ap_db s)),
        ap_requests := ap_requests s @ [\<lparr>rq_repo_url = repo, rq_commit_hash = sha\<rparr>]\<rparr>)"

definition submit_thread :: "moment \<Rightarrow> string \<Rightarrow> app \<Rightarrow> SubmitResponse http_answer \<times> app" where
  "submit_thread t msgid s =
     (let clean = trim_matches (\<lambda>c. c = CHR ''<'' \<or> c = CHR ''>'') msgid
      in (Ok (accepted_as (generate_synthetic_id ''thread'' t)),
          s\<lparr>ap_db := snd (create_fetching_patchset clean (''Fetching thread '' @ clean @ ''...'') None None (mo_now t) (ap_db s)),
            ap_threads := ap_threads s @ [clean]\<rparr>))"

definition submit_patch :: "ServerConfig \<Rightarrow> IpAddr \<Rightarrow> moment \<Rightarrow> SubmitRequest \<Rightarrow> app \<Rightarrow> SubmitResponse http_answer \<times> app" where
  "submit_patch cfg a t request s =
     (if \<not> may_submit cfg a then (Code FORBIDDEN, s)
      else case request of
        Inject raw base_commit skip only \<Rightarrow> submit_inject t raw base_commit skip only s
      | Remote sha repo skip only \<Rightarrow> submit_remote t sha repo skip only s
      | RemoteRange sha repo skip only \<Rightarrow> submit_remote t sha repo skip only s
      | Thread msgid \<Rightarrow> submit_thread t msgid s)"

text \<open>The task that gets a thread from the archive; \<open>archive\<close> gives its mailbox, unpacked, or an error.\<close>

definition fetch_thread :: "(string \<Rightarrow> string + string) \<Rightarrow> app \<Rightarrow> app" where
  "fetch_thread archive s =
     (case ap_threads s of
        [] \<Rightarrow> s
      | msgid # rest \<Rightarrow>
          s\<lparr>ap_threads := rest,
            ap_events := ap_events s @
              [case archive msgid of
                 Inr raw \<Rightarrow> RawMboxSubmitted raw ''api-submit'' None None None
               | Inl e \<Rightarrow> IngestionFailed msgid (''Failed to fetch thread: '' @ e)]\<rparr>)"

subsection \<open>Triage\<close>

definition triage_states :: "string list" where
  "triage_states = [''pending'', ''not_issue'', ''to_fix'', ''fixed'']"

definition invalidate_lists :: "Caches \<Rightarrow> Caches" where
  "invalidate_lists c = c\<lparr>ca_patchsets_homepage := None, ca_patchsets_count := None, ca_timeline := Map.empty, ca_findings := None\<rparr>"

definition api_update_finding_triage :: "ServerConfig \<Rightarrow> moment \<Rightarrow> int \<Rightarrow> string \<Rightarrow> string option \<Rightarrow> app \<Rightarrow> string http_answer \<times> app" where
  "api_update_finding_triage cfg t i status comment s =
     (if sc_read_only cfg then (Code FORBIDDEN, s)
      else if trim status \<notin> set triage_states then (Code BAD_REQUEST, s)
      else let (updated, d) = update_finding_triage i (trim status) (nonblank comment) (mo_now t) (ap_db s)
        in if \<not> updated then (Code NOT_FOUND, s\<lparr>ap_db := d\<rparr>)
           else (Ok ''updated'', s\<lparr>ap_db := d, ap_caches := invalidate_lists (ap_caches s)\<rparr>))"

definition delete_finding_comment :: "ServerConfig \<Rightarrow> int \<Rightarrow> app \<Rightarrow> string http_answer \<times> app" where
  "delete_finding_comment cfg i s =
     (if sc_read_only cfg then (Code FORBIDDEN, s)
      else let (deleted, d) = delete_finding_triage_comment i (ap_db s)
        in (if deleted then Ok ''deleted'' else Code NOT_FOUND, s\<lparr>ap_db := d\<rparr>))"

subsection \<open>Lists\<close>

record Pagination =
  pg_page :: "u64 option"
  pg_per_page :: "u64 option"
  pg_q :: "string option"
  pg_mailing_list :: "string option"
  pg_sort :: "string option"

record 'r page =
  pa_items :: "'r list"
  pa_total :: nat
  pa_page :: u64
  pa_per_page :: u64

definition page_number :: "Pagination \<Rightarrow> u64" where
  "page_number q = max 1 (or_else (pg_page q) 1)"

definition per_page_number :: "Pagination \<Rightarrow> u64" where
  "per_page_number q = min 100 (max 1 (or_else (pg_per_page q) 50))"

definition offset_number :: "Pagination \<Rightarrow> u64" where
  "offset_number q = (page_number q - 1) * per_page_number q"

definition is_homepage :: "Pagination \<Rightarrow> bool" where
  "is_homepage q \<longleftrightarrow> pg_q q = None \<and> pg_mailing_list q = None \<and> page_number q = 1 \<and> per_page_number q = 50"

definition is_hex_sha :: "string \<Rightarrow> bool" where
  "is_hex_sha value = (length value = 40 \<and> list_all is_hexdigit value)"

text \<open>The branches of a baseline that is only known by its commit.\<close>

definition enrich_row :: "'w host \<Rightarrow> ServerConfig \<Rightarrow> PatchsetRow \<Rightarrow> 'w \<Rightarrow> PatchsetRow \<times> 'w" where
  "enrich_row ho cfg r w =
     (if \<not> (case pr_baseline_branch r of Some b \<Rightarrow> is_hex_sha b | None \<Rightarrow> True) then (r, w)
      else case (case pr_baseline_commit r of Some c \<Rightarrow> Some c | None \<Rightarrow> pr_baseline_branch r) of
        None \<Rightarrow> (r, w)
      | Some commit \<Rightarrow>
          if \<not> is_hex_sha commit then (r, w)
          else (case find_branches_containing_commit ho (sc_repo_path cfg) commit w of
                  (Inl _, w) \<Rightarrow> (r, w)
                | (Inr branches, w) \<Rightarrow>
                    (if branches = [] then r else r\<lparr>pr_baseline_branch := Some (join '', '' branches)\<rparr>, w)))"

fun enrich_rows :: "'w host \<Rightarrow> ServerConfig \<Rightarrow> PatchsetRow list \<Rightarrow> 'w \<Rightarrow> PatchsetRow list \<times> 'w" where
  "enrich_rows ho cfg [] w = ([], w)"
| "enrich_rows ho cfg (r # rs) w =
     (let (r, w) = enrich_row ho cfg r w; (rs, w) = enrich_rows ho cfg rs w in (r # rs, w))"

definition homepage_items :: "(int \<Rightarrow> string option) \<Rightarrow> moment \<Rightarrow> Pagination \<Rightarrow> app \<Rightarrow> PatchsetRow list \<times> app" where
  "homepage_items datetime t q s =
     (let (items, c) = get_or_fetch (cache_seconds 10) (mo_clock t)
            (get_patchsets datetime (mo_now t) (per_page_number q) (offset_number q) None None (ap_db s))
            (ca_patchsets_homepage (ap_caches s))
      in (items, s\<lparr>ap_caches := (ap_caches s)\<lparr>ca_patchsets_homepage := c\<rparr>\<rparr>))"

definition patchset_total :: "(int \<Rightarrow> string option) \<Rightarrow> moment \<Rightarrow> Pagination \<Rightarrow> app \<Rightarrow> nat \<times> app" where
  "patchset_total datetime t q s =
     (if pg_q q = None \<and> pg_mailing_list q = None
      then let (n, c) = get_or_fetch (cache_seconds 30) (mo_clock t) (count_patchsets datetime None None (ap_db s))
                 (ca_patchsets_count (ap_caches s))
        in (n, s\<lparr>ap_caches := (ap_caches s)\<lparr>ca_patchsets_count := c\<rparr>\<rparr>)
      else (count_patchsets datetime (pg_q q) (pg_mailing_list q) (ap_db s), s))"

definition list_patchsets :: "(int \<Rightarrow> string option) \<Rightarrow> 'w host \<Rightarrow> ServerConfig \<Rightarrow> moment \<Rightarrow> Pagination \<Rightarrow> app \<Rightarrow> 'w \<Rightarrow>
    PatchsetRow page \<times> app \<times> 'w" where
  "list_patchsets datetime ho cfg t q s w =
     (let (items, s) =
            (if is_homepage q \<and> pg_sort q = None then homepage_items datetime t q s
             else (get_patchsets_sorted datetime (mo_now t) (per_page_number q) (offset_number q) (pg_q q)
                     (pg_mailing_list q) (pg_sort q) (ap_db s), s));
          (items, w) = enrich_rows ho cfg items w;
          (n, s) = patchset_total datetime t q s
      in (\<lparr>pa_items = items, pa_total = n, pa_page = page_number q, pa_per_page = per_page_number q\<rparr>, s, w))"

definition message_items :: "(int \<Rightarrow> string option) \<Rightarrow> moment \<Rightarrow> Pagination \<Rightarrow> app \<Rightarrow> message_row list \<times> app" where
  "message_items datetime t q s =
     (if is_homepage q
      then let (items, c) = get_or_fetch (cache_seconds 10) (mo_clock t)
                 (get_messages datetime (per_page_number q) (offset_number q) None None (ap_db s))
                 (ca_messages_homepage (ap_caches s))
        in (items, s\<lparr>ap_caches := (ap_caches s)\<lparr>ca_messages_homepage := c\<rparr>\<rparr>)
      else (get_messages datetime (per_page_number q) (offset_number q) (pg_q q) (pg_mailing_list q) (ap_db s), s))"

definition message_total :: "(int \<Rightarrow> string option) \<Rightarrow> moment \<Rightarrow> Pagination \<Rightarrow> app \<Rightarrow> nat \<times> app" where
  "message_total datetime t q s =
     (if pg_q q = None \<and> pg_mailing_list q = None
      then let (n, c) = get_or_fetch (cache_seconds 30) (mo_clock t) (count_messages datetime None None (ap_db s))
                 (ca_messages_count (ap_caches s))
        in (n, s\<lparr>ap_caches := (ap_caches s)\<lparr>ca_messages_count := c\<rparr>\<rparr>)
      else (count_messages datetime (pg_q q) (pg_mailing_list q) (ap_db s), s))"

definition list_messages :: "(int \<Rightarrow> string option) \<Rightarrow> moment \<Rightarrow> Pagination \<Rightarrow> app \<Rightarrow> message_row page \<times> app" where
  "list_messages datetime t q s =
     (let (items, s) = message_items datetime t q s; (n, s) = message_total datetime t q s
      in (\<lparr>pa_items = items, pa_total = n, pa_page = page_number q, pa_per_page = per_page_number q\<rparr>, s))"

definition list_mailing_lists :: "app \<Rightarrow> json" where
  "list_mailing_lists s =
     JArr (List.map (\<lambda>(name, g). JObj [(''name'', JStr name), (''group'', JStr g)]) (get_mailing_lists (ap_db s)))"

subsection \<open>Pages\<close>

definition parse_i64 :: "string \<Rightarrow> int option" where
  "parse_i64 s =
     (let d = (case s of c # r \<Rightarrow> if c = CHR ''+'' \<or> c = CHR ''-'' then r else s | [] \<Rightarrow> []);
          v = (if first s = Some CHR ''-'' then - digits_value 0 d else digits_value 0 d)
      in if d \<noteq> [] \<and> list_all is_digit d \<and> - (2 ^ 63) \<le> v \<and> v < 2 ^ 63 then Some v else None)"

definition or_not_found :: "'a option \<Rightarrow> 'a http_answer" where
  "or_not_found r = (case r of Some x \<Rightarrow> Ok x | None \<Rightarrow> Code NOT_FOUND)"

definition with_mail_settings :: "ServerConfig \<Rightarrow> (string \<times> json) list \<Rightarrow> (string \<times> json) list" where
  "with_mail_settings cfg ms =
     ms @ [(''smtp_enabled'', JBool (sc_smtp_enabled cfg)), (''dry_run'', JBool (sc_dry_run cfg))]"

definition get_patchset :: "ServerConfig \<Rightarrow> moment \<Rightarrow> string \<Rightarrow> word32 option \<Rightarrow> word32 option \<Rightarrow> app \<Rightarrow> (string \<times> json) list http_answer" where
  "get_patchset cfg t i page per_page s =
     or_not_found (map_option (with_mail_settings cfg)
       (case parse_i64 i of
          Some n \<Rightarrow> get_patchset_details (mo_now t) n page per_page (ap_db s)
        | None \<Rightarrow> get_patchset_details_by_msgid (mo_now t) i page per_page (ap_db s)))"

definition api_patchset_summary :: "ServerConfig \<Rightarrow> moment \<Rightarrow> string \<Rightarrow> word32 option \<Rightarrow> word32 option \<Rightarrow> app \<Rightarrow>
    (string \<times> json) list http_answer" where
  "api_patchset_summary cfg t i page per_page s =
     or_not_found (map_option (with_mail_settings cfg)
       (case parse_i64 i of
          Some n \<Rightarrow> get_patchset_summary (mo_now t) n page per_page (ap_db s)
        | None \<Rightarrow> get_patchset_summary_by_msgid (mo_now t) i page per_page (ap_db s)))"

definition get_review :: "int option \<Rightarrow> int option \<Rightarrow> app \<Rightarrow> (string \<times> json) list http_answer" where
  "get_review patchset_id i s =
     (case (patchset_id, i) of
        (Some p, _) \<Rightarrow> or_not_found (get_latest_review_for_patchset p (ap_db s))
      | (None, Some r) \<Rightarrow> or_not_found (get_review_details r (ap_db s))
      | (None, None) \<Rightarrow> Code BAD_REQUEST)"

definition get_review_log :: "int option \<Rightarrow> int option \<Rightarrow> app \<Rightarrow> (string \<times> json) list http_answer" where
  "get_review_log patchset_id i s = get_review patchset_id i s"

text \<open>The body of a message that is only kept in an archive: the archives of its list are tried, the newest first.
  \<open>read_dir\<close> gives the names of the directories in a directory, \<open>parse_body\<close> the body of a mail.\<close>

definition archive_paths :: "('w \<Rightarrow> path \<Rightarrow> string list) \<Rightarrow> 'w \<Rightarrow> string \<Rightarrow> path list" where
  "archive_paths read_dir w g =
     (let root = join_path [''archives''] g
      in List.map (\<lambda>n. root @ [show_int n]) (sort_desc (\<lambda>n. n) (List.map_filter parse_i32 (read_dir w root))) @ [root])"

fun archived_body :: "'w host \<Rightarrow> (string \<Rightarrow> string option) \<Rightarrow> path list \<Rightarrow> string \<Rightarrow> 'w \<Rightarrow> string option \<times> 'w" where
  "archived_body ho parse_body [] hash w = (None, w)"
| "archived_body ho parse_body (p # ps) hash w =
     (case read_blob ho p hash w of
        (Inl _, w) \<Rightarrow> archived_body ho parse_body ps hash w
      | (Inr raw, w) \<Rightarrow>
          (case parse_body raw of Some b \<Rightarrow> (Some b, w) | None \<Rightarrow> archived_body ho parse_body ps hash w))"

definition get_message :: "'w host \<Rightarrow> ('w \<Rightarrow> path \<Rightarrow> string list) \<Rightarrow> (string \<Rightarrow> string option) \<Rightarrow> string \<Rightarrow> app \<Rightarrow> 'w \<Rightarrow>
    MessageDetails http_answer \<times> 'w" where
  "get_message ho read_dir parse_body i s w =
     (case (case parse_i64 i of Some n \<Rightarrow> get_message_details n (ap_db s) | None \<Rightarrow> get_message_details_by_msgid i (ap_db s)) of
        None \<Rightarrow> (Code NOT_FOUND, w)
      | Some details \<Rightarrow>
          (let m = MessageDetails.md_message details
           in case (me_body m, me_blob m, me_list m) of
                ([], Some hash, Some g) \<Rightarrow>
                  (case archived_body ho parse_body (archive_paths read_dir w g) hash w of
                     (Some b, w) \<Rightarrow> (Ok (details\<lparr>MessageDetails.md_message := m\<lparr>me_body := b\<rparr>\<rparr>), w)
                   | (None, w) \<Rightarrow> (Ok details, w))
              | _ \<Rightarrow> (Ok details, w)))"

subsection \<open>Statistics\<close>

definition stats_timeline :: "(int \<Rightarrow> string option) \<Rightarrow> moment \<Rightarrow> int option \<Rightarrow> app \<Rightarrow> json \<times> app" where
  "stats_timeline day_of t sid s =
     (let (v, c) = map_get_or_fetch (cache_seconds 60) (mo_clock t) sid (get_timeline_stats day_of sid (ap_db s)) (ca_timeline (ap_caches s))
      in (v, s\<lparr>ap_caches := (ap_caches s)\<lparr>ca_timeline := c\<rparr>\<rparr>))"

definition stats_reviews :: "moment \<Rightarrow> app \<Rightarrow> json \<times> app" where
  "stats_reviews t s =
     (let (v, c) = get_or_fetch (cache_seconds 60) (mo_clock t) (get_review_stats (ap_db s)) (ca_reviews (ap_caches s))
      in (v, s\<lparr>ap_caches := (ap_caches s)\<lparr>ca_reviews := c\<rparr>\<rparr>))"

definition stats_tools :: "(int \<Rightarrow> nat \<Rightarrow> string) \<Rightarrow> moment \<Rightarrow> app \<Rightarrow> json \<times> app" where
  "stats_tools average t s =
     (let (v, c) = get_or_fetch (cache_seconds 60) (mo_clock t) (get_tool_usage_stats average (ap_db s)) (ca_tools (ap_caches s))
      in (v, s\<lparr>ap_caches := (ap_caches s)\<lparr>ca_tools := c\<rparr>\<rparr>))"

definition stats_findings :: "moment \<Rightarrow> app \<Rightarrow> json \<times> app" where
  "stats_findings t s =
     (let (v, c) = get_or_fetch (cache_seconds 60) (mo_clock t) (get_finding_triage_stats (ap_db s)) (ca_findings (ap_caches s))
      in (v, s\<lparr>ap_caches := (ap_caches s)\<lparr>ca_findings := c\<rparr>\<rparr>))"

subsection \<open>Reruns and cancels\<close>

definition api_rerun_patchset :: "ServerConfig \<Rightarrow> IpAddr \<Rightarrow> string \<Rightarrow> app \<Rightarrow> string http_answer \<times> app" where
  "api_rerun_patchset cfg a i s =
     (if \<not> may_submit cfg a then (Code FORBIDDEN, s)
      else case parse_i64 i of
        None \<Rightarrow> (Code BAD_REQUEST, s)
      | Some n \<Rightarrow> (Ok ''accepted'', s\<lparr>ap_db := rerun_patchset n (ap_db s)\<rparr>))"

definition api_rerun_patch :: "ServerConfig \<Rightarrow> IpAddr \<Rightarrow> int \<Rightarrow> int \<Rightarrow> app \<Rightarrow> string http_answer \<times> app" where
  "api_rerun_patch cfg a patchset_id patch_id s =
     (if \<not> may_submit cfg a then (Code FORBIDDEN, s)
      else (Ok ''accepted'', s\<lparr>ap_db := rerun_patch patchset_id patch_id (ap_db s)\<rparr>))"

text \<open>The address is not made canonical here.\<close>

definition api_cancel_patchset :: "ServerConfig \<Rightarrow> IpAddr \<Rightarrow> int \<Rightarrow> bool \<Rightarrow> app \<Rightarrow> string http_answer \<times> app" where
  "api_cancel_patchset cfg a i force s =
     (if sc_read_only cfg then (Code FORBIDDEN, s)
      else if \<not> sc_allow_all_submit cfg \<and> \<not> is_loopback a then (Code FORBIDDEN, s)
      else let (cancelled, d) = cancel_patchset i force (ap_db s)
        in (Ok (if cancelled then ''cancelled'' else ''not_modified''), s\<lparr>ap_db := d\<rparr>))"

subsection \<open>The routes\<close>

text \<open>A request of a route that acts on the store, a queue or a cache. The other routes (\<open>get_patchset\<close>,
  \<open>get_patchset_summary\<close>, \<open>get_message\<close>, \<open>get_review\<close>, \<open>get_review_log\<close>, \<open>list_mailing_lists\<close>) only read.\<close>

datatype ApiRequest =
    SubmitPatch SubmitRequest
  | UpdateTriage int string "string option"
  | DeleteComment int
  | RerunPatchset string
  | RerunPatch int int
  | CancelPatchset int bool
  | ListPatchsets Pagination
  | ListMessages Pagination
  | StatsTimeline "int option"
  | StatsReviews
  | StatsTools
  | StatsFindings

record 'w web =
  wb_config :: ServerConfig
  wb_datetime :: "int \<Rightarrow> string option"
  wb_day :: "int \<Rightarrow> string option"
  wb_average :: "int \<Rightarrow> nat \<Rightarrow> string"
  wb_host :: "'w host"

text \<open>What a request from an address at a moment does to the server; \<open>w\<close> is the repository git then sees.\<close>

fun handle :: "'w web \<Rightarrow> IpAddr \<Rightarrow> moment \<Rightarrow> 'w \<Rightarrow> ApiRequest \<Rightarrow> app \<Rightarrow> app" where
  "handle wb a t w (SubmitPatch r) s = snd (submit_patch (wb_config wb) a t r s)"
| "handle wb a t w (UpdateTriage i status comment) s = snd (api_update_finding_triage (wb_config wb) t i status comment s)"
| "handle wb a t w (DeleteComment i) s = snd (delete_finding_comment (wb_config wb) i s)"
| "handle wb a t w (RerunPatchset i) s = snd (api_rerun_patchset (wb_config wb) a i s)"
| "handle wb a t w (RerunPatch i j) s = snd (api_rerun_patch (wb_config wb) a i j s)"
| "handle wb a t w (CancelPatchset i force) s = snd (api_cancel_patchset (wb_config wb) a i force s)"
| "handle wb a t w (ListPatchsets q) s = fst (snd (list_patchsets (wb_datetime wb) (wb_host wb) (wb_config wb) t q s w))"
| "handle wb a t w (ListMessages q) s = snd (list_messages (wb_datetime wb) t q s)"
| "handle wb a t w (StatsTimeline i) s = snd (stats_timeline (wb_day wb) t i s)"
| "handle wb a t w StatsReviews s = snd (stats_reviews t s)"
| "handle wb a t w StatsTools s = snd (stats_tools (wb_average wb) t s)"
| "handle wb a t w StatsFindings s = snd (stats_findings t s)"

definition serve_requests :: "'w web \<Rightarrow> (IpAddr \<times> moment \<times> 'w \<times> ApiRequest) list \<Rightarrow> app \<Rightarrow> app" where
  "serve_requests wb = fold (\<lambda>(a, t, w, r). handle wb a t w r)"

end
