(* ===== verification/Fetch_Scenario.thy ===== *)
theory Fetch_Scenario
  imports Service Fetcher Patchset_Properties
begin

text \<open>
  A commit that was asked for, from its placeholder to the patchset that waits for review: the event of the fetch
  agent, the article the parser makes of it and what the store does with it.
\<close>

definition no_mails :: parsing where
  "no_mails = \<lparr>pc_engine = backtrack, pc_parser = (\<lambda>raw. None), pc_date = (\<lambda>s. None), pc_cutoff = None\<rparr>"

definition sample_commit :: PatchMetadata where
  "sample_commit = \<lparr>PatchMetadata.md_author = ''A <a@b>'', md_subject = ''x'', md_message = [], md_diff = ''diff'', md_base_commit = None,
     md_timestamp = 3\<rparr>"

subsection \<open>The rows of one patchset\<close>

text \<open>The row of the patchset \<open>i\<close> fulfils \<open>P\<close>.\<close>

definition row_is :: "int \<Rightarrow> (patchset_row \<Rightarrow> bool) \<Rightarrow> db \<Rightarrow> bool" where
  "row_is i P d \<longleftrightarrow> (case find_patchset i d of Some q \<Rightarrow> P q | None \<Rightarrow> False)"

lemma row_is_modify:
  assumes "\<And>q. ps_id (f q) = ps_id q" "row_is i P d" "\<And>q. P q \<Longrightarrow> Q (f q)"
  shows "row_is i Q (modify_patchset i f d)"
  using assms(2,3) by (auto simp: row_is_def find_patchset_modify [OF assms(1)] split: option.splits)

lemma row_is_update:
  assumes "\<And>q. ps_id (f q) = ps_id q" "row_is i P d"
    "\<And>q. ps_id q = i \<Longrightarrow> P q \<Longrightarrow> Q (if R q then f q else q)"
  shows "row_is i Q (d\<lparr>patchsets := update_where R f (patchsets d)\<rparr>)"
proof -
  obtain q where q: "find_patchset i d = Some q" "P q" using assms(2) by (auto simp: row_is_def split: option.splits)
  from assms(3) [OF conjunct1 [OF find_patchset_id [OF q(1)]] q(2)] q show ?thesis
    by (simp add: row_is_def find_patchset_update [OF assms(1)])
qed

lemma row_is_same: "patchsets d' = patchsets d \<Longrightarrow> row_is i P d' = row_is i P d"
  by (simp add: row_is_def find_patchset_def)

text \<open>A row that is filled in: no longer being fetched, with its author and its one part.\<close>

definition filled :: "string \<Rightarrow> patchset_row \<Rightarrow> bool" where
  "filled author q \<longleftrightarrow> (ps_status q = ''Incomplete'' \<or> ps_status q = ''Pending'') \<and> ps_author q = Some author \<and>
     ps_total q = Some 1"

lemma update_by_cover_fills:
  assumes "row_is (ps_id p) (\<lambda>q. q = p) d" "ps_status p = fetching" "ps_total p = None" "a_total a = 1"
  shows "row_is (ps_id p) (filled (a_author a)) (update_by_cover a p d) \<and>
    ids ps_id (patchsets (update_by_cover a p d)) = ids ps_id (patchsets d)"
proof -
  let ?i = "ps_id p"
  define d1 where "d1 = modify_patchset ?i (\<lambda>q. q\<lparr>ps_thread := a_thread a,
    ps_author := Some (a_author a), ps_total := Some (final_total a p),
    ps_parser_version := a_parser_version a, ps_to := Some (a_to a), ps_cc := Some (a_cc a)\<rparr>) d"
  define d2 where "d2 = (case a_cover a of
    Some clid \<Rightarrow> modify_patchset ?i (\<lambda>q. q\<lparr>ps_cover := Some clid\<rparr>) d1 | None \<Rightarrow> d1)"
  define d3 where "d3 = (case a_baseline a of
    Some bid \<Rightarrow> modify_patchset ?i (\<lambda>q. q\<lparr>ps_baseline := Some bid\<rparr>) d2 | None \<Rightarrow> d2)"
  define d4 where "d4 = (if a_part a < ps_subject_index p
    then modify_patchset ?i (\<lambda>q. q\<lparr>ps_subject := a_subject a, ps_subject_index := a_part a\<rparr>) d3
    else d3)"
  let ?P = "\<lambda>q. ps_status q = fetching \<and> ps_author q = Some (a_author a) \<and> ps_total q = Some 1"
  have u: "update_by_cover a p d = promote ?i (end_fetching ?i d4)"
    by (simp only: update_by_cover_def Let_def d1_def d2_def d3_def d4_def)
  have 1: "row_is ?i ?P d1" "ids ps_id (patchsets d1) = ids ps_id (patchsets d)"
    unfolding d1_def using assms(2-4)
    by (auto intro!: row_is_modify [OF _ assms(1)] simp: final_total_def or_else_def)
  have 2: "row_is ?i ?P d2" "ids ps_id (patchsets d2) = ids ps_id (patchsets d)"
    unfolding d2_def using 1 by (auto split: option.split intro: row_is_modify)
  have 3: "row_is ?i ?P d3" "ids ps_id (patchsets d3) = ids ps_id (patchsets d)"
    unfolding d3_def using 2 by (auto split: option.split intro: row_is_modify)
  have 4: "row_is ?i ?P d4" "ids ps_id (patchsets d4) = ids ps_id (patchsets d)"
    unfolding d4_def using 3 by (auto intro: row_is_modify)
  have 5: "row_is ?i (filled (a_author a)) (end_fetching ?i d4)"
    unfolding end_fetching_def
    by (rule row_is_update [OF _ 4(1)]) (auto simp: filled_def)
  have "row_is ?i (filled (a_author a)) (promote ?i (end_fetching ?i d4))"
    unfolding promote_def by (rule row_is_update [OF _ 5]) (auto simp: filled_def)
  with 4(2) show ?thesis by (simp add: u)
qed


lemma create_patch_completes:
  assumes "row_is i (filled au) d" "\<forall>x\<in>set (patches d). pa_patchset x \<noteq> i \<and> pa_message_id x \<noteq> m"
    "create_patch i m k df d = (r, d')"
  shows "(\<exists>j. r = Inr j) \<and> ids ps_id (patchsets d') = ids ps_id (patchsets d) \<and>
    row_is i (\<lambda>q. ps_status q = ''Pending'' \<and> ps_author q = Some au \<and> ps_total q = Some 1 \<and> ps_received q = Some 1) d' \<and>
    (\<exists>x\<in>set (patches d'). pa_patchset x = i \<and> pa_part x = k \<and> pa_message_id x = m \<and> pa_diff x = df)"
proof -
  let ?x = "\<lparr>pa_id = next_id (List.map pa_id (patches d)), pa_patchset = i, pa_message_id = m, pa_part = k, pa_diff = df,
    pa_status = None, pa_apply_error = None\<rparr>"
  have free: "\<not> index_collision i k m d" "filter (\<lambda>p. pa_message_id p = m) (patches d) = []"
      "filter (\<lambda>p. pa_patchset p = i) (patches d) = []"
    using assms(2) by (auto simp: index_collision_def filter_empty_conv)
  have rows: "upsert_patch i m k df (patches d) = patches d @ [?x]"
    using assms(2) by (auto simp: upsert_patch_def)
  let ?d1 = "d\<lparr>patches := patches d @ [?x]\<rparr>"
  have c: "create_patch i m k df d = (Inr (pa_id ?x), promote i (recount i ?d1))"
    using free by (simp add: create_patch_def rows Let_def)
  have "row_is i (filled au) ?d1" using assms(1) row_is_same [of ?d1 d] by simp
  moreover have "parts_of i (patches d @ [?x]) = 1" using free(3) by (simp add: parts_of_def count_where_def)
  ultimately have rc: "row_is i (\<lambda>q. filled au q \<and> ps_received q = Some 1) (recount i ?d1)"
    unfolding recount_def by (intro row_is_modify [where P = "filled au"]) (simp_all add: filled_def)
  have "row_is i (\<lambda>q. ps_status q = ''Pending'' \<and> ps_author q = Some au \<and> ps_total q = Some 1 \<and> ps_received q = Some 1)
      (promote i (recount i ?d1))"
    unfolding promote_def by (rule row_is_update [OF _ rc]) (auto simp: filled_def ready_def)
  then show ?thesis using c assms(3) by (auto simp: recount_def)
qed

lemma finish_patchset_completes:
  assumes "row_is i (filled au) d" "\<forall>x\<in>set (patches d). pa_patchset x \<noteq> i \<and> pa_message_id x \<noteq> pt_message_id p"
    "finish_patchset i until sids (Some p) d = (st, d')"
  shows "st = Ingested \<and> ids ps_id (patchsets d') = ids ps_id (patchsets d) \<and>
    row_is i (\<lambda>q. ps_status q = ''Pending'' \<and> ps_author q = Some au \<and> ps_total q = Some 1 \<and> ps_received q = Some 1) d' \<and>
    (\<exists>x\<in>set (patches d'). pa_patchset x = i \<and> pa_part x = pt_part p \<and> pa_message_id x = pt_message_id p \<and>
       pa_diff x = pt_diff p)"
proof -
  define d1 where "d1 = (case until of Some t \<Rightarrow> set_patchset_embargo_until i t d | None \<Rightarrow> d)"
  define d2 where "d2 = fold (add_subsystem_to_patchset i) sids d1"
  obtain r d3 where c: "create_patch i (pt_message_id p) (pt_part p) (pt_diff p) d2 = (r, d3)" by fastforce
  have "row_is i (filled au) d1"
    unfolding d1_def set_patchset_embargo_until_def using assms(1)
    by (auto split: option.split intro: row_is_modify simp: filled_def)
  moreover have links: "patchsets (fold (add_subsystem_to_patchset i) sids e) = patchsets e \<and>
      patches (fold (add_subsystem_to_patchset i) sids e) = patches e" for e
    by (induction sids arbitrary: e) (simp_all add: add_subsystem_to_patchset_def)
  ultimately have "row_is i (filled au) d2" using row_is_same [of d2 d1] by (simp add: d2_def)
  moreover have "patches d2 = patches d" "ids ps_id (patchsets d2) = ids ps_id (patchsets d)"
    using links by (simp_all add: d2_def d1_def set_patchset_embargo_until_def split: option.split)
  ultimately have cp: "(\<exists>j. r = Inr j)" "ids ps_id (patchsets d3) = ids ps_id (patchsets d)"
    "row_is i (\<lambda>q. ps_status q = ''Pending'' \<and> ps_author q = Some au \<and> ps_total q = Some 1 \<and> ps_received q = Some 1) d3"
    "\<exists>x\<in>set (patches d3). pa_patchset x = i \<and> pa_part x = pt_part p \<and> pa_message_id x = pt_message_id p \<and>
       pa_diff x = pt_diff p"
    using create_patch_completes [OF _ _ c] assms(2) by auto
  then obtain j where j: "r = Inr j" by blast
  have f: "finish_patchset i until sids (Some p) d = (Ingested, fold (add_subsystem_to_patch j) sids d3)"
    using c j by (simp add: finish_patchset_def d1_def [symmetric] d2_def [symmetric])
  have links2: "patchsets (fold (add_subsystem_to_patch j) sids e) = patchsets e \<and>
      patches (fold (add_subsystem_to_patch j) sids e) = patches e" for e
    by (induction sids arbitrary: e) (simp_all add: add_subsystem_to_patch_def)
  with f cp assms(3) row_is_same [of "fold (add_subsystem_to_patch j) sids d3" d3] show ?thesis by auto
qed


lemma no_message_no_merge:
  assumes "me_message_id m \<notin> ids me_message_id (messages d)"
  shows "patchsets (create_message m d) = patchsets d \<and> patches (create_message m d) = patches d"
proof -
  have "get_thread_id_for_message (me_message_id m) d = None"
  proof -
    have "filter (\<lambda>r. me_message_id r = me_message_id m) (messages d) = []"
      using assms by (auto simp: filter_empty_conv ids_def) (metis imageI)
    then show ?thesis by (simp add: get_thread_id_for_message_def find_message_def)
  qed
  then show ?thesis by (simp add: create_message_def)
qed

lemma resolve_baseline_frame:
  "resolve_baseline a d = (b, d') \<Longrightarrow> patchsets d' = patchsets d \<and> patches d' = patches d"
  by (auto simp: resolve_baseline_def create_baseline_def Let_def split: option.splits)

lemma ensure_thread_messages:
  "ensure_thread_for_message s date d = (t, d') \<Longrightarrow>
   ids me_message_id (messages d') \<subseteq> insert s (ids me_message_id (messages d))"
proof (cases "get_thread_id_for_message s d")
  case None
  assume e: "ensure_thread_for_message s date d = (t, d')"
  obtain i e where c: "create_thread s placeholder date d = (i, e)" by fastforce
  have "messages e = messages d" using c by (auto simp: create_thread_def Let_def)
  then show ?thesis using e None c create_message_ids(1)
    by (auto simp: ensure_thread_for_message_def Let_def)
qed (simp add: ensure_thread_for_message_def, blast)

lemma find_placeholder:
  assumes "filter (\<lambda>q. ps_cover q = a_cover a) (patchsets d) = [p]" "a_cover a = Some clid" "ps_status p = fetching"
    "\<forall>x\<in>set (patches d). pa_patchset x \<noteq> ps_id p"
  shows "find_by_cover rx a d = Some p"
proof -
  have "clid_accepts rx a d p" using assms(3,4) by (auto simp: clid_accepts_def index_collision_def Let_def)
  then show ?thesis using assms(1,2) by (simp add: find_by_cover_def clid_candidates_def)
qed

text \<open>The article of a fetched commit up to the point where its patch is stored: nothing but its message is new.\<close>

lemma fetched_commit_steps:
  assumes inv: "store_inv d" and new: "sha \<notin> ids me_message_id (messages d)" "sha \<noteq> c @ ''@sashiko.local''"
    and a: "parse_event pc (patch_event url c sha 1 1 m) = [a]"
  obtains md bl t sids d5 where
    "cover_letter_id (ar_group a) (ar_article_id a) md = Some (c @ ''@sashiko.local'')" "\<not> is_git_import (ar_group a)"
    "ar_patch a = Some \<lparr>pt_message_id = sha, pt_body = PatchMetadata.md_message m, pt_diff = PatchMetadata.md_diff m,
       pt_part = 1\<rparr>"
    "PatchsetMetadata.md_author md = PatchMetadata.md_author m" "md_total md = 1"
    "store_inv d5" "patchsets d5 = patchsets d" "patches d5 = patches d"
    "process_parsed_article rx policy now a d =
      (if is_ignored_author policy (extract_email (PatchMetadata.md_author m)) then (Ingested, d5)
       else store_patchset rx policy now a md (ar_patch a) t bl sids d5)"
proof -
  let ?root = "c @ ''@sashiko.local''"
  define md where "md = submitted_metadata c sha (PatchMetadata.md_subject m) (PatchMetadata.md_author m)
    (PatchMetadata.md_message m) (PatchMetadata.md_timestamp m) 1 1"
  have a_is: "ar_failed_error a = None" "ar_metadata a = Some md" "ar_group a = ''git-fetch''" "ar_article_id a = c"
      "ar_patch a = Some \<lparr>pt_message_id = sha, pt_body = PatchMetadata.md_message m, pt_diff = PatchMetadata.md_diff m,
         pt_part = 1\<rparr>"
    using a by (auto simp: patch_event_def submitted_article_def md_def)
  have md_is: "md_message_id md = sha" "md_is_patch_or_cover md" "PatchsetMetadata.md_author md = PatchMetadata.md_author m"
      "md_total md = 1" "ignored policy md = is_ignored_author policy (extract_email (PatchMetadata.md_author m))"
    by (simp_all add: md_def submitted_metadata_def Let_def ignored_def)
  have no_import: "strip_prefix git_import ''git-fetch'' = None" "by_article_id ''git-fetch''" by code_simp+
  have root: "thread_root ''git-fetch'' c md = ?root" by (simp add: thread_root_def no_import)
  obtain bl d1 where b: "resolve_baseline a d = (bl, d1)" by fastforce
  obtain t d2 where t: "ensure_thread_for_message ?root (md_date md) d1 = (t, d2)" by fastforce
  let ?m = "article_message ''git-fetch'' c t md"
  define d3 where "d3 = create_message ?m d2"
  obtain sids d4 where s: "ensure_subsystems (article_subsystems ''git-fetch'' md) d3 = (sids, d4)" by fastforce
  define d5 where "d5 = link_message ''git-fetch'' t sids md d4"
  note b1 = resolve_baseline_inv [OF b inv]
  note t1 = ensure_thread_spec [OF t conjunct1 [OF b1]]
  have m: "me_message_id ?m = sha" "me_thread ?m = t" by (simp_all add: article_message_def Let_def md_is)
  have "me_message_id ?m \<notin> ids me_message_id (messages d2)"
    using ensure_thread_messages [OF t] b1 new m by auto
  from no_message_no_merge [OF this] have same3: "patchsets d3 = patchsets d" "patches d3 = patches d"
    using resolve_baseline_frame [OF b] t1 by (simp_all add: d3_def)
  have inv3: "store_inv d3" "t \<in> ids th_id (threads d3)"
    using create_message_inv [of d2 ?m] create_message_ids [of ?m d2] t1 m by (simp_all add: d3_def)
  note s1 = ensure_subsystems_inv [OF s inv3(1)]
  then have fr4: "threads d4 = threads d3" "patchsets d4 = patchsets d3" "patches d4 = patches d3"
    by (metis db.select_convs db.surjective db.update_convs(2))+
  note l = link_message_inv [of d4 sids t "''git-fetch''" md, folded d5_def]
  have inv5: "store_inv d5" "same_tables d4 d5" using l s1 inv3(2) fr4 by simp_all
  then have same5: "patchsets d5 = patchsets d" "patches d5 = patches d"
    using fr4 same3 by (simp_all add: same_tables_def)
  have "process_parsed_article rx policy now a d =
      (if is_ignored_author policy (extract_email (PatchMetadata.md_author m)) then (Ingested, d5)
       else store_patchset rx policy now a md (ar_patch a) t bl sids d5)"
    unfolding process_parsed_article_def a_is(1,2,3,4) option.case Let_def b split_conv root t d3_def [symmetric] s
      d5_def [symmetric]
    using md_is by simp
  from that [OF _ _ a_is(5) md_is(3,4) inv5(1) same5 this] show thesis
    by (simp add: a_is cover_letter_id_def no_import is_git_import_def)
qed

text \<open>A commit that the fetch agent sends for a waiting placeholder fills the placeholder: no other patchset is made,
  the placeholder takes the author, has its one part with the diff of the commit, and waits for review.\<close>

theorem fetched_commit_pending:
  assumes inv: "store_inv d"
    and p: "filter (\<lambda>q. ps_cover q = Some (c @ ''@sashiko.local'')) (patchsets d) = [p]"
      "ps_status p = fetching" "ps_total p = None"
    and new: "\<forall>x\<in>set (patches d). pa_patchset x \<noteq> ps_id p \<and> pa_message_id x \<noteq> sha"
      "sha \<notin> ids me_message_id (messages d)" "sha \<noteq> c @ ''@sashiko.local''"
    and author: "\<not> is_ignored_author policy (extract_email (PatchMetadata.md_author m))"
    and a: "parse_event pc (patch_event url c sha 1 1 m) = [a]"
    and r: "process_parsed_article rx policy now a d = (st, d')"
  shows "st = Ingested \<and> ids ps_id (patchsets d') = ids ps_id (patchsets d) \<and>
    row_is (ps_id p) (\<lambda>q. ps_status q = ''Pending'' \<and> ps_author q = Some (PatchMetadata.md_author m) \<and>
       ps_total q = Some 1 \<and> ps_received q = Some 1) d' \<and>
    (\<exists>x\<in>set (patches d'). pa_patchset x = ps_id p \<and> pa_part x = 1 \<and> pa_message_id x = sha \<and>
       pa_diff x = PatchMetadata.md_diff m)"
proof -
  let ?root = "c @ ''@sashiko.local''"
  obtain md bl t sids d5 where steps:
    "cover_letter_id (ar_group a) (ar_article_id a) md = Some ?root" "\<not> is_git_import (ar_group a)"
    "ar_patch a = Some \<lparr>pt_message_id = sha, pt_body = PatchMetadata.md_message m, pt_diff = PatchMetadata.md_diff m,
       pt_part = 1\<rparr>"
    "PatchsetMetadata.md_author md = PatchMetadata.md_author m" "md_total md = 1"
    and inv5: "store_inv d5" and same5: "patchsets d5 = patchsets d" "patches d5 = patches d"
    and e: "process_parsed_article rx policy now a d =
      (if is_ignored_author policy (extract_email (PatchMetadata.md_author m)) then (Ingested, d5)
       else store_patchset rx policy now a md (ar_patch a) t bl sids d5)"
    using fetched_commit_steps [OF inv new(2,3) a] .
  let ?args = "article_args a md t bl"
  have args: "a_cover ?args = Some ?root" "a_author ?args = PatchMetadata.md_author m" "a_total ?args = 1"
    using steps by (simp_all add: article_args_def Let_def)
  have f: "find_by_cover rx ?args d5 = Some p"
    using find_placeholder [of ?args d5 p ?root rx] p new(1) by (simp add: args same5)
  have "p \<in> set (filter (\<lambda>q. ps_cover q = Some ?root) (patchsets d))" unfolding p(1) by simp
  then have mem: "p \<in> set (patchsets d5)" using same5 by simp
  have "row_is (ps_id p) (\<lambda>q. q = p) d5" using find_patchset_mem [OF inv5 mem] by (simp add: row_is_def)
  from update_by_cover_fills [OF this p(2,3) args(3)]
  have u: "row_is (ps_id p) (filled (PatchMetadata.md_author m)) (update_by_cover ?args p d5)"
    "ids ps_id (patchsets (update_by_cover ?args p d5)) = ids ps_id (patchsets d)"
    "patches (update_by_cover ?args p d5) = patches d"
    using update_by_cover_tables [of ?args p d5] same5 by (simp_all add: args)
  have "\<exists>until. finish_patchset (ps_id p) until sids (ar_patch a) (update_by_cover ?args p d5) = (st, d')"
    using e author r by (auto simp: store_patchset_def f create_patchset_def Let_def)
  then obtain until where fin: "finish_patchset (ps_id p) until sids (ar_patch a) (update_by_cover ?args p d5) = (st, d')" ..
  from finish_patchset_completes [OF u(1) _ fin [unfolded steps(3)]] u new(1) show ?thesis by simp
qed

text \<open>The commit of an author who is ignored leaves the placeholder as it is.\<close>

lemma fetched_commit_ignored:
  assumes inv: "store_inv d" and new: "sha \<notin> ids me_message_id (messages d)" "sha \<noteq> c @ ''@sashiko.local''"
    and author: "is_ignored_author policy (extract_email (PatchMetadata.md_author m))"
    and a: "parse_event pc (patch_event url c sha 1 1 m) = [a]"
    and r: "process_parsed_article rx policy now a d = (st, d')"
  shows "st = Ingested \<and> patchsets d' = patchsets d \<and> patches d' = patches d"
  using fetched_commit_steps [OF inv new a, of rx policy now] author r by (metis prod.inject)

theorem fetched_commit_pending_witness:
  "\<exists>d'. process_parsed_article backtrack sample_policy 9
       (hd (parse_event no_mails (patch_event None ''abc'' ''abcdef'' 1 1 sample_commit)))
       (snd (create_fetching_patchset ''abc'' ''Fetching'' None None 5 empty_db)) = (Ingested, d') \<and>
     row_is 1 (\<lambda>q. ps_status q = ''Pending'') d'"
proof -
  let ?d = "snd (create_fetching_patchset ''abc'' ''Fetching'' None None 5 empty_db)"
  let ?e = "patch_event None ''abc'' ''abcdef'' 1 1 sample_commit"
  obtain st d' where r: "process_parsed_article backtrack sample_policy 9 (hd (parse_event no_mails ?e)) ?d = (st, d')"
    by fastforce
  have a: "parse_event no_mails ?e = [hd (parse_event no_mails ?e)]" by (simp add: patch_event_def)
  have q: "filter (\<lambda>q. ps_cover q = Some (''abc'' @ ''@sashiko.local'')) (patchsets ?d) = [hd (patchsets ?d)]"
    "ps_status (hd (patchsets ?d)) = fetching" "ps_total (hd (patchsets ?d)) = None" "ps_id (hd (patchsets ?d)) = 1"
    "patches ?d = []" by code_simp+
  have ms: "List.map me_message_id (messages ?d) = [''abc@sashiko.local'']" by code_simp
  have ig: "\<not> is_ignored_author sample_policy (extract_email (PatchMetadata.md_author sample_commit))" by code_simp
  have "''abcdef'' \<notin> ids me_message_id (messages ?d)" unfolding ids_def set_map [symmetric] ms by simp
  moreover have "store_inv ?d" by (rule conjunct1 [OF create_fetching_inv [OF store_inv_empty prod.collapse [symmetric]]])
  moreover have "''abcdef'' \<noteq> ''abc'' @ ''@sashiko.local''" by simp
  ultimately show ?thesis
    using fetched_commit_pending [OF _ q(1-3) _ _ _ ig a r] q(4,5) r by (auto simp: row_is_def split: option.splits)
qed

end
