(* ===== verification/Api_Props.thy ===== *)
theory Api_Props
  imports Api Reviews_Inv Fetch_Scenario
begin

text \<open>
  The web interface keeps the store consistent, lets nobody from outside submit or rerun, answers from its
  caches only what was true a short time ago, and turns a submitted commit into a patchset that waits for
  review. An embargo hides what a review found on the lists and the page of a patchset, not on the page of
  a review.
\<close>

subsection \<open>What a request changes\<close>

text \<open>The requests that only look at the store, through a cache.\<close>

fun only_looks :: "ApiRequest \<Rightarrow> bool" where
  "only_looks (ListPatchsets _) = True" | "only_looks (ListMessages _) = True" | "only_looks (StatsTimeline _) = True"
| "only_looks StatsReviews = True" | "only_looks StatsTools = True" | "only_looks StatsFindings = True" | "only_looks _ = False"

definition only_caches :: "app \<Rightarrow> app \<Rightarrow> bool" where
  "only_caches s s' \<longleftrightarrow> (\<exists>c. s' = s\<lparr>ap_caches := c\<rparr>)"

lemma only_caches_refl [simp]: "only_caches s s"
  unfolding only_caches_def by (intro exI [of _ "ap_caches s"]) simp

lemma only_caches_update [simp]: "only_caches s (s\<lparr>ap_caches := c\<rparr>)"
  by (auto simp: only_caches_def)

lemma only_caches_trans: "only_caches s s' \<Longrightarrow> only_caches s' s'' \<Longrightarrow> only_caches s s''"
  by (auto simp: only_caches_def)

lemma only_caches_same:
  "only_caches s s' \<Longrightarrow> ap_db s' = ap_db s \<and> ap_events s' = ap_events s \<and> ap_requests s' = ap_requests s \<and>
     ap_threads s' = ap_threads s"
  by (auto simp: only_caches_def)

lemma list_state:
  "fst (snd (list_patchsets dt ho cfg t q s w)) =
     snd (patchset_total dt t q (if is_homepage q \<and> pg_sort q = None then snd (homepage_items dt t q s) else s))"
  "snd (list_messages dt t q s) = snd (message_total dt t q (snd (message_items dt t q s)))"
  by (simp_all add: list_patchsets_def list_messages_def split_def Let_def)

lemma list_caches:
  "only_caches s (snd (homepage_items dt t q s))" "only_caches s (snd (patchset_total dt t q s))"
  "only_caches s (snd (message_items dt t q s))" "only_caches s (snd (message_total dt t q s))"
  by (simp_all add: homepage_items_def patchset_total_def message_items_def message_total_def split_def Let_def)

lemma looks_caches: "only_looks r \<Longrightarrow> only_caches s (handle wb a t w r s)"
proof (induction r rule: only_looks.induct)
  case (1 q)
  then show ?case by (simp add: list_state) (meson list_caches only_caches_trans)
next
  case (2 q)
  then show ?case by (simp add: list_state) (meson list_caches only_caches_trans)
qed (simp_all add: stats_timeline_def stats_reviews_def stats_tools_def stats_findings_def split_def Let_def)

lemma delete_comment_inv:
  assumes "store_inv d" shows "store_inv (snd (delete_finding_triage_comment i d))"
proof (cases "first (filter (\<lambda>c. co_id c = i) (triage_comments d))")
  case (Some row)
  let ?d1 = "d\<lparr>triage_comments := delete_where (\<lambda>c. co_id c = i) (triage_comments d)\<rparr>"
  have "store_inv ?d1" using assms by (simp add: inv_defs keys_ok_delete fk_def)
  then have "store_inv (?d1\<lparr>findings := update_where (\<lambda>f. fi_id f = co_finding row)
      (\<lambda>f. f\<lparr>fi_triage_comment := None, fi_triage_updated := None\<rparr>) (findings ?d1)\<rparr>)"
    by (rule findings_update_inv) simp_all
  with \<open>store_inv ?d1\<close> Some show ?thesis by (simp add: delete_finding_triage_comment_def Let_def)
qed (use assms in \<open>simp add: delete_finding_triage_comment_def\<close>)

lemma handle_inv:
  assumes "store_inv (ap_db s)" shows "store_inv (ap_db (handle wb a t w r s))"
proof (cases "only_looks r")
  case True
  then show ?thesis using only_caches_same [OF looks_caches] assms by metis
next
  case False
  have fetching: "store_inv (snd (create_fetching_patchset i sub sk on n (ap_db s)))" for i sub sk on n
    using conjunct1 [OF create_fetching_inv [OF assms prod.collapse [symmetric]]] .
  show ?thesis
  proof (cases r)
    case (SubmitPatch x)
    then show ?thesis using assms fetching
      by (cases x) (simp_all add: submit_patch_def submit_inject_def submit_remote_def submit_thread_def Let_def)
  next
    case (UpdateTriage i status comment)
    then show ?thesis using assms update_finding_triage_inv [OF assms]
      by (simp add: api_update_finding_triage_def split_def Let_def)
  next
    case (DeleteComment i)
    then show ?thesis using assms delete_comment_inv [OF assms]
      by (simp add: delete_finding_comment_def split_def Let_def)
  next
    case (RerunPatchset i)
    then show ?thesis using assms status_update_inv(5) [OF assms]
      by (simp add: api_rerun_patchset_def split: option.split)
  next
    case (RerunPatch i j)
    then show ?thesis using assms status_update_inv(5) [OF assms]
      by (simp add: api_rerun_patch_def rerun_patch_def)
  next
    case (CancelPatchset i force)
    then show ?thesis using assms status_update_inv(3) [OF assms]
      by (simp add: api_cancel_patchset_def split_def Let_def)
  qed (use False in simp_all)
qed

lemma serve_requests_simps:
  "serve_requests wb [] s = s" "serve_requests wb ((a, t, w, r) # reqs) s = serve_requests wb reqs (handle wb a t w r s)"
  "serve_requests wb (reqs @ reqs') s = serve_requests wb reqs' (serve_requests wb reqs s)"
  by (simp_all add: serve_requests_def)

text \<open>C9. No sequence of web requests, from any address and in any configuration, makes the store inconsistent.\<close>

theorem web_consistent:
  assumes "store_inv (ap_db s)"
  shows "store_inv (ap_db (serve_requests wb reqs s))"
  using assms
proof (induction reqs arbitrary: s)
  case (Cons x reqs)
  obtain a t w r where "x = (a, t, w, r)" by (cases x) auto
  with Cons.IH [OF handle_inv [OF Cons.prems]] show ?case by (simp add: serve_requests_simps)
qed (simp add: serve_requests_simps)

subsection \<open>Who may do what\<close>

lemma loopback_canonical: "is_loopback a \<Longrightarrow> is_loopback (to_canonical a)"
  by (cases a) (auto simp: is_loopback_def to_canonical_def)

definition findings_only :: "db \<Rightarrow> db \<Rightarrow> bool" where
  "findings_only d d' \<longleftrightarrow> (\<exists>fs cs. d' = d\<lparr>findings := fs, triage_comments := cs\<rparr>)"

lemma findings_only_intros:
  "findings_only d d" "findings_only d (snd (update_finding_triage i st c n d))"
  "findings_only d (snd (delete_finding_triage_comment i d))"
proof -
  show "findings_only d d" unfolding findings_only_def
    by (intro exI [of _ "findings d"] exI [of _ "triage_comments d"]) simp
  have upd: "findings_only d (d\<lparr>findings := fs\<rparr>)" "findings_only d (d\<lparr>triage_comments := cs\<rparr>)"
    "findings_only d (d\<lparr>findings := fs, triage_comments := cs\<rparr>)" "findings_only d (d\<lparr>triage_comments := cs, findings := fs\<rparr>)"
    for fs cs unfolding findings_only_def
    subgoal by (intro exI [of _ fs] exI [of _ "triage_comments d"]) simp
    subgoal by (intro exI [of _ "findings d"] exI [of _ cs]) simp
    by (intro exI [of _ fs] exI [of _ cs], simp)+
  then show "findings_only d (snd (update_finding_triage i st c n d))"
    by (simp add: update_finding_triage_def insert_comment_def Let_def split: option.split)
  show "findings_only d (snd (delete_finding_triage_comment i d))"
    using upd \<open>findings_only d d\<close>
    by (simp add: delete_finding_triage_comment_def Let_def split: option.split)
qed

text \<open>What a request of an address that may not submit leaves: all but the triage of findings.\<close>

definition untouched :: "app \<Rightarrow> app \<Rightarrow> bool" where
  "untouched s s' \<longleftrightarrow> findings_only (ap_db s) (ap_db s') \<and> ap_events s' = ap_events s \<and>
     ap_requests s' = ap_requests s \<and> ap_threads s' = ap_threads s"

lemma findings_only_trans: "findings_only d d' \<Longrightarrow> findings_only d' d'' \<Longrightarrow> findings_only d d''"
proof -
  assume "findings_only d d'" "findings_only d' d''"
  then obtain fs cs gs ds where e: "d' = d\<lparr>findings := fs, triage_comments := cs\<rparr>"
    "d'' = d'\<lparr>findings := gs, triage_comments := ds\<rparr>" by (auto simp: findings_only_def)
  show ?thesis unfolding findings_only_def by (intro exI [of _ gs] exI [of _ ds]) (simp add: e)
qed

lemma untouched_trans: "untouched s s' \<Longrightarrow> untouched s' s'' \<Longrightarrow> untouched s s''"
  unfolding untouched_def using findings_only_trans by metis

lemma outsider_handle:
  assumes "\<not> may_submit (wb_config wb) a"
  shows "untouched s (handle wb a t w r s) \<and> (sc_read_only (wb_config wb) \<longrightarrow> ap_db (handle wb a t w r s) = ap_db s)"
proof (cases "only_looks r")
  case True
  then show ?thesis using only_caches_same [OF looks_caches [OF True, of s wb a t w]] findings_only_intros(1)
    by (simp add: untouched_def)
next
  case False
  note f = findings_only_intros
  show ?thesis
  proof (cases r)
    case (UpdateTriage i status comment)
    then show ?thesis by (simp add: api_update_finding_triage_def split_def Let_def untouched_def f)
  next
    case (DeleteComment i)
    then show ?thesis by (simp add: delete_finding_comment_def split_def Let_def untouched_def f)
  next
    case (CancelPatchset i force)
    have "sc_read_only (wb_config wb) \<or> \<not> sc_allow_all_submit (wb_config wb) \<and> \<not> is_loopback a"
      using assms loopback_canonical [of a] by (auto simp: may_submit_def)
    with CancelPatchset show ?thesis by (auto simp: api_cancel_patchset_def untouched_def f)
  qed (use False assms in \<open>simp_all add: submit_patch_def api_rerun_patchset_def api_rerun_patch_def untouched_def f\<close>)
qed

text \<open>C8. Requests from addresses that may not submit make no patchset, change the status of none, and put nothing into a
  queue; what they can change is the triage of findings, and on a read-only server not even that.\<close>

theorem outsiders_change_triage_only:
  assumes "\<forall>(a, t, w, r)\<in>set reqs. \<not> may_submit (wb_config wb) a" "s' = serve_requests wb reqs s"
  shows "(\<exists>fs cs. ap_db s' = (ap_db s)\<lparr>findings := fs, triage_comments := cs\<rparr>) \<and> ap_events s' = ap_events s \<and>
     ap_requests s' = ap_requests s \<and> ap_threads s' = ap_threads s \<and>
     (sc_read_only (wb_config wb) \<longrightarrow> ap_db s' = ap_db s)"
proof -
  have "untouched s (serve_requests wb reqs s) \<and> (sc_read_only (wb_config wb) \<longrightarrow> ap_db (serve_requests wb reqs s) = ap_db s)"
    using assms(1)
  proof (induction reqs arbitrary: s)
    case (Cons x reqs)
    obtain a t w r where x: "x = (a, t, w, r)" by (cases x) auto
    with Cons.prems have "\<not> may_submit (wb_config wb) a" by simp
    from outsider_handle [OF this, of s t w r] Cons.IH [of "handle wb a t w r s"] Cons.prems x show ?case
      by (auto simp: serve_requests_simps intro: untouched_trans)
  qed (simp add: serve_requests_simps untouched_def findings_only_intros)
  then show ?thesis unfolding assms(2) untouched_def findings_only_def by blast
qed

subsection \<open>Caches\<close>

text \<open>What happens to the server: a request, or the other parts of the program leave another store.\<close>

type_synonym 'w happening = "(IpAddr \<times> moment \<times> 'w \<times> ApiRequest) + db"

definition happen :: "'w web \<Rightarrow> 'w happening \<Rightarrow> app \<Rightarrow> app" where
  "happen wb h s = (case h of Inl (a, t, w, r) \<Rightarrow> handle wb a t w r s | Inr d \<Rightarrow> s\<lparr>ap_db := d\<rparr>)"

definition happened :: "'w web \<Rightarrow> 'w happening list \<Rightarrow> app \<Rightarrow> app" where
  "happened wb hs s = fold (happen wb) hs (s\<lparr>ap_caches := no_caches\<rparr>)"

text \<open>A place of a cache that requests only fill with what they read from the store, or empty.\<close>

locale cache_slot =
  fixes wb :: "'w web" and slot :: "Caches \<Rightarrow> 'v cached option" and source :: "moment \<Rightarrow> db \<Rightarrow> 'v" and ttl :: int
  assumes empty_slot: "slot no_caches = None"
    and fill: "slot (ap_caches (handle wb a t w r s)) \<in>
      {slot (ap_caches s), None, snd (get_or_fetch ttl (mo_clock t) (source t (ap_db s)) (slot (ap_caches s)))}"
begin

lemma slot_origin:
  "slot (ap_caches (happened wb hs s)) = Some (v, c) \<Longrightarrow>
   \<exists>ys a t w r zs. hs = ys @ Inl (a, t, w, r) # zs \<and> c = mo_clock t \<and> v = source t (ap_db (happened wb ys s))"
proof (induction hs arbitrary: v c rule: rev_induct)
  case Nil
  then show ?case by (simp add: happened_def empty_slot)
next
  case (snoc h hs)
  have run: "happened wb (hs @ [h]) s = happen wb h (happened wb hs s)" by (simp add: happened_def)
  show ?case
  proof (cases "slot (ap_caches (happened wb hs s)) = Some (v, c)")
    case True
    with snoc.IH obtain ys a t w r zs where "hs = ys @ Inl (a, t, w, r) # zs" "c = mo_clock t"
      "v = source t (ap_db (happened wb ys s))" by blast
    then show ?thesis by (intro exI [of _ ys] exI [of _ a] exI [of _ t] exI [of _ w] exI [of _ r] exI [of _ "zs @ [h]"]) simp
  next
    case False
    show ?thesis
    proof (cases h)
      case (Inl x)
      then obtain a t w r where h: "h = Inl (a, t, w, r)" by (cases x) auto
      then have "happened wb (hs @ [h]) s = handle wb a t w r (happened wb hs s)"
        unfolding run by (simp add: happen_def)
      with fill [of a t w r "happened wb hs s"] snoc.prems False have
        "snd (get_or_fetch ttl (mo_clock t) (source t (ap_db (happened wb hs s))) (slot (ap_caches (happened wb hs s)))) =
           Some (v, c)" by simp
      with False have "v = source t (ap_db (happened wb hs s))" "c = mo_clock t"
        by (auto simp: get_or_fetch_def split: option.splits if_splits)
      with h show ?thesis
        by (intro exI [of _ hs] exI [of _ a] exI [of _ t] exI [of _ w] exI [of _ r] exI [of _ "[]"]) simp
    next
      case (Inr d)
      then have "happened wb (hs @ [h]) s = (happened wb hs s)\<lparr>ap_db := d\<rparr>" unfolding run by (simp add: happen_def)
      with snoc.prems False show ?thesis by simp
    qed
  qed
qed

text \<open>An answer is true now, or was when a request filled the place, not \<open>ttl\<close> ago.\<close>

lemma answer_recent:
  "let s = happened wb hs s0; v = fst (get_or_fetch ttl now (source t (ap_db s)) (slot (ap_caches s)))
   in v = source t (ap_db s) \<or>
     (\<exists>ys a u w r zs. hs = ys @ Inl (a, u, w, r) # zs \<and> now - mo_clock u < ttl \<and> v = source u (ap_db (happened wb ys s0)))"
proof -
  let ?s = "happened wb hs s0"
  show ?thesis
  proof (cases "slot (ap_caches ?s)")
    case None
    then show ?thesis by (simp add: get_or_fetch_def Let_def)
  next
    case (Some x)
    then obtain v c where x: "slot (ap_caches ?s) = Some (v, c)" by (cases x) auto
    show ?thesis
    proof (cases "now - c < ttl")
      case True
      with x have "fst (get_or_fetch ttl now (source t (ap_db ?s)) (slot (ap_caches ?s))) = v"
        by (simp add: get_or_fetch_def fresh_def)
      with slot_origin [OF x] True show ?thesis unfolding Let_def by metis
    next
      case False
      with x show ?thesis by (simp add: get_or_fetch_def fresh_def Let_def)
    qed
  qed
qed

end

text \<open>The eight places of the server.\<close>

lemma page_state:
  "ap_caches (snd (homepage_items dt t q s)) = (ap_caches s)\<lparr>ca_patchsets_homepage := snd (get_or_fetch (cache_seconds 10)
     (mo_clock t) (get_patchsets dt (mo_now t) (per_page_number q) (offset_number q) None None (ap_db s))
     (ca_patchsets_homepage (ap_caches s)))\<rparr>"
  "ap_caches (snd (patchset_total dt t q s)) = (if pg_q q = None \<and> pg_mailing_list q = None
     then (ap_caches s)\<lparr>ca_patchsets_count := snd (get_or_fetch (cache_seconds 30) (mo_clock t)
        (count_patchsets dt None None (ap_db s)) (ca_patchsets_count (ap_caches s)))\<rparr> else ap_caches s)"
  "ap_caches (snd (message_items dt t q s)) = (if is_homepage q
     then (ap_caches s)\<lparr>ca_messages_homepage := snd (get_or_fetch (cache_seconds 10) (mo_clock t)
        (get_messages dt (per_page_number q) (offset_number q) None None (ap_db s)) (ca_messages_homepage (ap_caches s)))\<rparr>
     else ap_caches s)"
  "ap_caches (snd (message_total dt t q s)) = (if pg_q q = None \<and> pg_mailing_list q = None
     then (ap_caches s)\<lparr>ca_messages_count := snd (get_or_fetch (cache_seconds 30) (mo_clock t)
        (count_messages dt None None (ap_db s)) (ca_messages_count (ap_caches s)))\<rparr> else ap_caches s)"
  by (simp_all add: homepage_items_def patchset_total_def message_items_def message_total_def split_def Let_def)

lemma page_db:
  "ap_db (snd (homepage_items dt t q s)) = ap_db s" "ap_db (snd (message_items dt t q s)) = ap_db s"
  using list_caches only_caches_same by blast+

lemma stats_state:
  "ap_caches (snd (stats_timeline day t i s)) = (ap_caches s)\<lparr>ca_timeline := (ca_timeline (ap_caches s))(i :=
     snd (get_or_fetch (cache_seconds 60) (mo_clock t) (get_timeline_stats day i (ap_db s)) (ca_timeline (ap_caches s) i)))\<rparr>"
  "ap_caches (snd (stats_reviews t s)) = (ap_caches s)\<lparr>ca_reviews :=
     snd (get_or_fetch (cache_seconds 60) (mo_clock t) (get_review_stats (ap_db s)) (ca_reviews (ap_caches s)))\<rparr>"
  "ap_caches (snd (stats_tools av t s)) = (ap_caches s)\<lparr>ca_tools :=
     snd (get_or_fetch (cache_seconds 60) (mo_clock t) (get_tool_usage_stats av (ap_db s)) (ca_tools (ap_caches s)))\<rparr>"
  "ap_caches (snd (stats_findings t s)) = (ap_caches s)\<lparr>ca_findings :=
     snd (get_or_fetch (cache_seconds 60) (mo_clock t) (get_finding_triage_stats (ap_db s)) (ca_findings (ap_caches s)))\<rparr>"
  by (simp_all add: stats_timeline_def stats_reviews_def stats_tools_def stats_findings_def map_get_or_fetch_def split_def Let_def)

lemma act_state:
  "ap_caches (snd (submit_patch cfg a t x s)) = ap_caches s"
  "ap_caches (snd (api_update_finding_triage cfg t i st c s)) \<in> {ap_caches s, invalidate_lists (ap_caches s)}"
  "ap_caches (snd (delete_finding_comment cfg i s)) = ap_caches s"
  "ap_caches (snd (api_rerun_patchset cfg a m s)) = ap_caches s"
  "ap_caches (snd (api_rerun_patch cfg a i j s)) = ap_caches s"
  "ap_caches (snd (api_cancel_patchset cfg a i force s)) = ap_caches s"
  subgoal by (cases x) (simp_all add: submit_patch_def submit_inject_def submit_remote_def submit_thread_def Let_def)
  by (simp_all add: api_update_finding_triage_def delete_finding_comment_def api_rerun_patchset_def api_rerun_patch_def
      api_cancel_patchset_def split_def Let_def split: option.split)

lemma homepage_numbers: "is_homepage q \<Longrightarrow> per_page_number q = 50 \<and> offset_number q = 0"
  by (simp add: is_homepage_def offset_number_def)

lemmas slot_states = page_state page_db stats_state list_state homepage_numbers

interpretation patchsets_total: cache_slot wb ca_patchsets_count
  "\<lambda>t d. count_patchsets (wb_datetime wb) None None d" "cache_seconds 30" for wb :: "'w web"
proof
  show "ca_patchsets_count (ap_caches (handle wb a t w r s)) \<in> {ca_patchsets_count (ap_caches s), None,
      snd (get_or_fetch (cache_seconds 30) (mo_clock t) (count_patchsets (wb_datetime wb) None None (ap_db s))
        (ca_patchsets_count (ap_caches s)))}" for a t w r s
  proof (cases r)
    case (UpdateTriage i st c)
    then show ?thesis using act_state(2) [of "wb_config wb" t i st c s] by (auto simp: invalidate_lists_def)
  qed (simp_all add: slot_states act_state)
qed (simp add: no_caches_def)

interpretation patchsets_homepage: cache_slot wb ca_patchsets_homepage
  "\<lambda>t d. get_patchsets (wb_datetime wb) (mo_now t) 50 0 None None d" "cache_seconds 10" for wb :: "'w web"
proof
  show "ca_patchsets_homepage (ap_caches (handle wb a t w r s)) \<in> {ca_patchsets_homepage (ap_caches s), None,
      snd (get_or_fetch (cache_seconds 10) (mo_clock t) (get_patchsets (wb_datetime wb) (mo_now t) 50 0 None None (ap_db s))
        (ca_patchsets_homepage (ap_caches s)))}" for a t w r s
  proof (cases r)
    case (UpdateTriage i st c)
    then show ?thesis using act_state(2) [of "wb_config wb" t i st c s] by (auto simp: invalidate_lists_def)
  qed (simp_all add: slot_states act_state)
qed (simp add: no_caches_def)

interpretation timeline: cache_slot wb "\<lambda>c. ca_timeline c sid" "\<lambda>t d. get_timeline_stats (wb_day wb) sid d" "cache_seconds 60"
  for wb :: "'w web" and sid
proof
  show "ca_timeline (ap_caches (handle wb a t w r s)) sid \<in> {ca_timeline (ap_caches s) sid, None,
      snd (get_or_fetch (cache_seconds 60) (mo_clock t) (get_timeline_stats (wb_day wb) sid (ap_db s))
        (ca_timeline (ap_caches s) sid))}" for a t w r s
  proof (cases r)
    case (UpdateTriage i st c)
    then show ?thesis using act_state(2) [of "wb_config wb" t i st c s] by (auto simp: invalidate_lists_def)
  qed (simp_all add: slot_states act_state)
qed (simp add: no_caches_def)

text \<open>The number of patchsets the lists show is the true one, or was it at a request less than thirty seconds before;
  the first page shows the patchsets as they are, or were at a request less than ten seconds before. It does not matter what
  the other parts of the program do to the store in between.\<close>

theorem lists_recent:
  "(\<exists>n. fst (patchset_total (wb_datetime wb) t q (happened wb hs s0)) = count_patchsets (wb_datetime wb) (pg_q q) (pg_mailing_list q) n \<and>
      (n = ap_db (happened wb hs s0) \<or> (\<exists>ys a u w r zs. hs = ys @ Inl (a, u, w, r) # zs \<and> mo_clock t - mo_clock u < 30 * 10 ^ 9 \<and>
         n = ap_db (happened wb ys s0)))) \<and>
    (\<exists>m n. fst (homepage_items (wb_datetime wb) t \<lparr>pg_page = None, pg_per_page = None, pg_q = None, pg_mailing_list = None,
          pg_sort = None\<rparr> (happened wb hs s0)) = get_patchsets (wb_datetime wb) m 50 0 None None n \<and>
      (m = mo_now t \<and> n = ap_db (happened wb hs s0) \<or> (\<exists>ys a u w r zs. hs = ys @ Inl (a, u, w, r) # zs \<and>
         mo_clock t - mo_clock u < 10 * 10 ^ 9 \<and> m = mo_now u \<and> n = ap_db (happened wb ys s0))))"
    (is "?C \<and> ?H")
proof
  show ?C
  proof (cases "pg_q q = None \<and> pg_mailing_list q = None")
    case True
    then have "fst (patchset_total (wb_datetime wb) t q (happened wb hs s0)) = fst (get_or_fetch (cache_seconds 30) (mo_clock t)
        (count_patchsets (wb_datetime wb) None None (ap_db (happened wb hs s0))) (ca_patchsets_count (ap_caches (happened wb hs s0))))"
      by (simp add: patchset_total_def split_def Let_def)
    with True patchsets_total.answer_recent [of wb hs s0 "mo_clock t"] show ?thesis
      unfolding Let_def cache_seconds_def by metis
  next
    case False
    then have "fst (patchset_total (wb_datetime wb) t q (happened wb hs s0)) =
        count_patchsets (wb_datetime wb) (pg_q q) (pg_mailing_list q) (ap_db (happened wb hs s0))"
      by (simp only: patchset_total_def if_False fst_conv)
    then show ?thesis by blast
  qed
  let ?q = "\<lparr>pg_page = None, pg_per_page = None, pg_q = None, pg_mailing_list = None, pg_sort = None\<rparr>"
  have "is_homepage ?q" by (simp add: is_homepage_def page_number_def per_page_number_def or_else_def)
  from homepage_numbers [OF this] have "fst (homepage_items (wb_datetime wb) t ?q (happened wb hs s0)) =
      fst (get_or_fetch (cache_seconds 10) (mo_clock t) (get_patchsets (wb_datetime wb) (mo_now t) 50 0 None None
        (ap_db (happened wb hs s0))) (ca_patchsets_homepage (ap_caches (happened wb hs s0))))"
    by (simp add: homepage_items_def split_def Let_def)
  with patchsets_homepage.answer_recent [of wb hs s0 "mo_clock t" t] show ?H
    unfolding Let_def cache_seconds_def by metis
qed

subsection \<open>Embargoes\<close>

lemma patchset_page_embargoed:
  assumes "find_patchset i d = Some p" "is_embargoed now p"
  shows "\<exists>ms. patchset_page logs now i page n d = Some ms \<and> map_of ms ''reviews'' = Some (JArr []) \<and>
    map_of ms ''status'' = Some (JStr (shown_status now p)) \<and> map_of ms ''patches'' =
      Some (JArr (List.map (page_patch_json True) (page_patches i (or_else n 50) (page_offset (or_else n 50) (or_else page 1)) d)))"
  using assms by (simp add: patchset_page_def Let_def)

lemma page_of_subset: "set (page_of a b xs) \<subseteq> set xs"
  using set_drop_subset [of "nat b" xs] set_take_subset [of "nat a" "drop (nat b) xs"] by (auto simp: page_of_def Let_def)

lemma first_mem: "first xs = Some x \<Longrightarrow> x \<in> set xs"
  by (cases xs) auto

lemma embargoed_status: "is_embargoed now p \<Longrightarrow> shown_status now p \<noteq> ''Reviewed''"
  by (simp add: shown_status_def)

lemma embargoed_patch: "\<exists>fs. page_patch_json True x = JObj fs \<and> map_of fs ''status'' \<noteq> Some (JStr ''Reviewed'')"
proof -
  obtain q m e where "x = (q, m, e)" by (cases x) auto
  then show ?thesis
    by (cases "pa_status q") (simp_all add: page_patch_json_def shown_patch_status_def jstring_def jopt_def)
qed

lemma map_of_mail_settings:
  "map_of ms k = Some v \<Longrightarrow> map_of (with_mail_settings cfg ms) k = Some v"
  by (simp add: with_mail_settings_def map_add_Some_iff)

text \<open>C7. While its embargo lasts a patchset is shown without any review, neither it nor a patch of it as reviewed, and in
  the lists without a finding.\<close>

theorem embargo_hides_results:
  assumes "store_inv (ap_db s)" "find_patchset i (ap_db s) = Some p" "is_embargoed (mo_now t) p" "parse_i64 x = Some i"
  shows "\<exists>ms ks. get_patchset cfg t x page n s = Ok ms \<and> api_patchset_summary cfg t x page n s = Ok ks \<and>
    (\<forall>js\<in>{ms, ks}. map_of js ''reviews'' = Some (JArr []) \<and> map_of js ''status'' \<noteq> Some (JStr ''Reviewed'') \<and>
       (\<exists>ps. map_of js ''patches'' = Some (JArr ps) \<and>
          (\<forall>j\<in>set ps. \<exists>fs. j = JObj fs \<and> map_of fs ''status'' \<noteq> Some (JStr ''Reviewed'')))) \<and>
    (\<forall>r\<in>set (get_patchsets_sorted dt (mo_now t) lim off q l so (ap_db s)). pr_id r = i \<longrightarrow>
       pr_status r \<noteq> ''Reviewed'' \<and> pr_findings_low r = 0 \<and> pr_findings_medium r = 0 \<and> pr_findings_high r = 0 \<and>
       pr_findings_critical r = 0 \<and> pr_findings_pending r = 0 \<and> pr_findings_to_fix r = 0)"
proof -
  have page: "\<exists>js. or_not_found (map_option (with_mail_settings cfg) (patchset_page logs (mo_now t) i page n (ap_db s))) = Ok js \<and>
      map_of js ''reviews'' = Some (JArr []) \<and> map_of js ''status'' \<noteq> Some (JStr ''Reviewed'') \<and>
      (\<exists>ps. map_of js ''patches'' = Some (JArr ps) \<and>
         (\<forall>j\<in>set ps. \<exists>fs. j = JObj fs \<and> map_of fs ''status'' \<noteq> Some (JStr ''Reviewed'')))" for logs
  proof -
    obtain ms where ms: "patchset_page logs (mo_now t) i page n (ap_db s) = Some ms" "map_of ms ''reviews'' = Some (JArr [])"
      "map_of ms ''status'' = Some (JStr (shown_status (mo_now t) p))"
      "map_of ms ''patches'' = Some (JArr (List.map (page_patch_json True)
         (page_patches i (or_else n 50) (page_offset (or_else n 50) (or_else page 1)) (ap_db s))))"
      using patchset_page_embargoed [OF assms(2,3)] by metis
    note m = ms(2-4) [THEN map_of_mail_settings, of cfg]
    show ?thesis
      by (intro exI [of _ "with_mail_settings cfg ms"])
         (simp add: ms(1) m or_not_found_def embargoed_status [OF assms(3)] embargoed_patch)
  qed
  have rows: "pr_status r \<noteq> ''Reviewed'' \<and> pr_findings_low r = 0 \<and> pr_findings_medium r = 0 \<and> pr_findings_high r = 0 \<and>
       pr_findings_critical r = 0 \<and> pr_findings_pending r = 0 \<and> pr_findings_to_fix r = 0"
    if r: "r \<in> set (get_patchsets_sorted dt (mo_now t) lim off q l so (ap_db s))" "pr_id r = i" for r
  proof -
    obtain p' where p': "r = listed_row (mo_now t) (ap_db s) p'" "p' \<in> set (patchsets (ap_db s))"
      using r(1) page_of_subset [of "sint lim" "sint off" "ordered_patchsets dt q l so (ap_db s)"]
      by (auto simp: get_patchsets_sorted_def ordered_patchsets_def found_patchsets_def)
    then have "ps_id p' = i" using r(2) by (simp add: listed_row_def Let_def)
    with find_patchset_mem [OF assms(1) p'(2)] assms(2) have "p' = p" by simp
    with p'(1) assms(3) embargoed_status [OF assms(3)] show ?thesis by (simp add: listed_row_def Let_def)
  qed
  from page [of True] page [of False] rows show ?thesis
    unfolding get_patchset_def api_patchset_summary_def get_patchset_details_def get_patchset_summary_def assms(4) option.case
    by blast
qed

text \<open>The page of a review asks for no embargo: what the page of the patchset hides is shown there.\<close>

theorem embargo_bypassed:
  assumes "find_patchset i (ap_db s) = Some p" "is_embargoed (mo_now t) p" "get_latest_review_id i (ap_db s) = Some r"
    "parse_i64 x = Some i"
  shows "\<exists>ms js. get_patchset cfg t x page n s = Ok ms \<and> map_of ms ''reviews'' = Some (JArr []) \<and>
    get_review (Some i) None s = Ok js \<and> map_of js ''findings'' = Some (findings_json r (ap_db s))"
proof -
  obtain row0 where "row0 \<in> set (reviews (ap_db s))" "rv_id row0 = r"
    using assms(3) by (auto simp: get_latest_review_id_def sort_desc_def dest!: first_mem)
  then have "first (filter (\<lambda>x. rv_id x = r) (reviews (ap_db s))) \<noteq> None"
    by (cases "filter (\<lambda>x. rv_id x = r) (reviews (ap_db s))") (auto simp: filter_empty_conv)
  then obtain row where row: "first (filter (\<lambda>x. rv_id x = r) (reviews (ap_db s))) = Some row" by blast
  then have "rv_id row = r" using first_filter_Some by fast
  with row show ?thesis
    using patchset_page_embargoed [OF assms(1,2), of True page n] map_of_mail_settings [of _ "''reviews''"]
    by (auto simp: get_patchset_def get_patchset_details_def assms(3,4) or_not_found_def get_review_def
        get_latest_review_for_patchset_def get_review_details_def Let_def)
qed

text \<open>A store with a reviewed patchset under embargo.\<close>

definition embargoed_app :: app where
  "embargoed_app = \<lparr>ap_db = (let d = set_patchset_embargo_until 1 1000 (update_patchset_status 1 ''Reviewed'' sample_patchset)
       in snd (create_review 1 None ''openai'' ''gpt'' None None 50 d)),
     ap_events = [], ap_requests = [], ap_threads = [], ap_caches = no_caches\<rparr>"

definition local_only :: ServerConfig where
  "local_only = \<lparr>sc_read_only = False, sc_allow_all_submit = False, sc_smtp_enabled = False, sc_dry_run = False,
     sc_repo_path = []\<rparr>"

definition at_moment :: moment where
  "at_moment = \<lparr>mo_clock = 0, mo_now = 5, mo_random = 0\<rparr>"

lemma embargoed_app_inv: "store_inv (ap_db embargoed_app)"
proof -
  let ?d = "set_patchset_embargo_until 1 1000 (update_patchset_status 1 ''Reviewed'' sample_patchset)"
  have d: "store_inv ?d" using sample_patchset_inv status_update_inv by blast
  have "List.map ps_id (patchsets ?d) = [1]" by code_simp
  then have "1 \<in> ids ps_id (patchsets ?d)" by (simp add: ids_def flip: set_map)
  from create_review_inv [where patch = None and bl = None, OF d this _ _ prod.collapse [symmetric]] show ?thesis
    by (simp add: embargoed_app_def)
qed

lemma embargoed_app_page:
  "find_patchset 1 (ap_db embargoed_app) = Some (hd (patchsets (ap_db embargoed_app)))"
  "is_embargoed (mo_now at_moment) (hd (patchsets (ap_db embargoed_app)))" "parse_i64 ''1'' = Some 1"
  "get_latest_review_id 1 (ap_db embargoed_app) = Some 1"
  by code_simp+

theorem embargo_hides_results_witness:
  "\<exists>ms. get_patchset local_only at_moment ''1'' None None embargoed_app = Ok ms \<and> map_of ms ''reviews'' = Some (JArr [])"
  using embargo_hides_results [OF embargoed_app_inv embargoed_app_page(1-3), of local_only None None] by blast

theorem embargo_bypassed_witness:
  "\<exists>js. get_review (Some 1) None embargoed_app = Ok js \<and> map_of js ''findings'' = Some (findings_json 1 (ap_db embargoed_app))"
  using embargo_bypassed [OF embargoed_app_page(1,2,4,3), of local_only None None] by blast

definition sample_web :: "unit web" where
  "sample_web = \<lparr>wb_config = local_only, wb_datetime = (\<lambda>_. None), wb_day = (\<lambda>_. None), wb_average = (\<lambda>_ _. []),
     wb_host = undefined\<rparr>"

theorem web_consistent_witness:
  "store_inv (ap_db (serve_requests sample_web [(V4 127 0 0 1, at_moment, (), CancelPatchset 1 True)] embargoed_app))"
  by (rule web_consistent [OF embargoed_app_inv])

theorem outsiders_change_triage_only_witness:
  "ap_requests (serve_requests sample_web [(V4 8 8 8 8, at_moment, (), SubmitPatch (Remote ''abc'' None None None))] embargoed_app) = []"
proof -
  let ?reqs = "[(V4 8 8 8 8, at_moment, (), SubmitPatch (Remote ''abc'' None None None))]"
  have "\<forall>(a, t, w, r)\<in>set ?reqs. \<not> may_submit (wb_config sample_web) a"
    by (simp add: may_submit_def sample_web_def local_only_def to_canonical_def is_loopback_def)
  from outsiders_change_triage_only [OF this refl, of embargoed_app] show ?thesis by (simp add: embargoed_app_def)
qed

text \<open>The offset of a page has 32 bits: for a large page size a late page is an early one.\<close>

theorem page_wraps: "page_offset 65536 65538 = page_offset 65536 2"
  by code_simp

subsection \<open>From a submission to a patchset that waits\<close>

lemma insert_fetching_row:
  "insert_fetching t m sub now skip only d = (i, d') \<Longrightarrow>
   \<exists>p. d' = d\<lparr>patchsets := patchsets d @ [p]\<rparr> \<and> ps_id p = i \<and> ps_cover p = Some m \<and> ps_status p = fetching \<and>
     ps_total p = None \<and> i = next_id (List.map ps_id (patchsets d))"
  unfolding insert_fetching_def Let_def prod.inject by (elim conjE) (rule exI, rule conjI, erule sym, simp)

lemma fetching_inserts:
  assumes inv: "store_inv d" and c: "CHR ''@'' \<notin> set c"
    and free: "\<forall>q\<in>set (patchsets d). ps_cover q \<noteq> Some c \<and> ps_cover q \<noteq> Some (c @ ''@sashiko.local'')"
    and r: "create_fetching_patchset c sub skip only now d = (i, d')"
  shows "\<exists>p. ps_id p = i \<and> ps_status p = fetching \<and> ps_total p = None \<and>
    filter (\<lambda>q. ps_cover q = Some (c @ ''@sashiko.local'')) (patchsets d') = [p] \<and> patchsets d' = patchsets d @ [p] \<and>
    patches d' = patches d \<and> i \<notin> ids ps_id (patchsets d) \<and>
    ids me_message_id (messages d') \<subseteq> insert (c @ ''@sashiko.local'') (ids me_message_id (messages d))"
proof -
  let ?root = "c @ ''@sashiko.local''"
  have root: "root_msg_id c = ?root" using c by (simp add: root_msg_id_def)
  have "filter (\<lambda>p. ps_cover p = Some c) (patchsets d) = []" "filter (\<lambda>p. ps_cover p = Some ?root) (patchsets d) = []"
    using free by (auto simp: filter_empty_conv)
  then have n: "find_fetched c d = None" "filter (\<lambda>p. ps_cover p = Some ?root) (patchsets d) = []"
    by (simp_all add: find_fetched_def root)
  obtain t d1 where e: "ensure_thread_for_message ?root now d = (t, d1)" by fastforce
  have d1: "patchsets d1 = patchsets d" "patches d1 = patches d" using ensure_thread_spec [OF e inv] by simp_all
  have ins: "insert_fetching t ?root sub now skip only d1 = (i, d')"
    using r by (simp add: create_fetching_patchset_def root n(1) e)
  from insert_fetching_row [OF ins] obtain p where p: "d' = d1\<lparr>patchsets := patchsets d1 @ [p]\<rparr>" "ps_id p = i"
    "ps_cover p = Some ?root" "ps_status p = fetching" "ps_total p = None" "i = next_id (List.map ps_id (patchsets d1))"
    by blast
  have i: "i \<notin> ids ps_id (patchsets d)" using next_id_fresh [of "List.map ps_id (patchsets d)"] p(6) d1 by (simp add: ids_def)
  have ps: "patchsets d' = patchsets d @ [p]" "patches d' = patches d" "messages d' = messages d1"
    unfolding p(1) by (simp_all add: d1)
  then have "filter (\<lambda>q. ps_cover q = Some ?root) (patchsets d') = [p]" using n(2) p(3) by simp
  with i ps p(2,4,5) ensure_thread_messages [OF e] show ?thesis by (intro exI [of _ p]) (simp only: simp_thms)
qed

lemma fresh_row_patches:
  assumes "store_inv d" "i \<notin> ids ps_id (patchsets d)"
  shows "\<forall>x\<in>set (patches d). pa_patchset x \<noteq> i"
  using assms by (auto simp: inv_defs fk_def)

text \<open>C6. A commit is submitted from an address that may submit, under a name without an \<open>@\<close> that no patchset stands
  for yet, and its id is new to the messages and the patches of the store and not the message id that the placeholder
  gets, the name followed by \<open>@sashiko.local\<close>. Then the submission is accepted, the
  fetch agent is asked for the commit, and one patchset is made. When the fetch agent has got the commit and its
  event went through the parser, that patchset, and no other, has the author and the diff of the commit and waits
  for review; but when the policy ignores the author of the commit, the patchset stays as one that is being fetched,
  without a patch.\<close>

theorem submitted_commit_waits:
  assumes inv: "store_inv (ap_db s)" and may: "may_submit cfg a" and c: "CHR ''@'' \<notin> set c"
    and free: "\<forall>q\<in>set (patchsets (ap_db s)). ps_cover q \<noteq> Some c \<and> ps_cover q \<noteq> Some (c @ ''@sashiko.local'')"
    and new: "\<forall>x\<in>set (patches (ap_db s)). pa_message_id x \<noteq> sha" "sha \<notin> ids me_message_id (messages (ap_db s))"
      "sha \<noteq> c @ ''@sashiko.local''"
    and sub: "submit_patch cfg a t (Remote c url skip only) s = (answer, s1)"
    and art: "parse_event pc (patch_event url c sha 1 1 m) = [article]"
    and st: "process_parsed_article rx policy now article (ap_db s1) = (status, d2)"
  shows "answer = Ok (accepted_as c) \<and> ap_requests s1 = ap_requests s @ [\<lparr>rq_repo_url = url, rq_commit_hash = c\<rparr>] \<and>
    status = Ingested \<and>
    (\<exists>i. i \<notin> ids ps_id (patchsets (ap_db s)) \<and> ids ps_id (patchsets d2) = insert i (ids ps_id (patchsets (ap_db s))) \<and>
       (if is_ignored_author policy (extract_email (PatchMetadata.md_author m))
        then row_is i (\<lambda>q. ps_status q = fetching) d2 \<and> patches d2 = patches (ap_db s) \<and>
          (\<forall>x\<in>set (patches d2). pa_patchset x \<noteq> i)
        else row_is i (\<lambda>q. ps_status q = ''Pending'' \<and> ps_author q = Some (PatchMetadata.md_author m) \<and>
            ps_total q = Some 1 \<and> ps_received q = Some 1) d2 \<and>
          (\<exists>x\<in>set (patches d2). pa_patchset x = i \<and> pa_part x = 1 \<and> pa_message_id x = sha \<and>
             pa_diff x = PatchMetadata.md_diff m)))"
proof -
  let ?f = "create_fetching_patchset c (''Fetching '' @ c @ '' from '' @ (case url of Some r \<Rightarrow> r | None \<Rightarrow> ''local'') @ ''...'')
    skip only (mo_now t) (ap_db s)"
  obtain i d1 where f: "?f = (i, d1)" by fastforce
  have s1: "answer = Ok (accepted_as c)" "ap_db s1 = d1"
    "ap_requests s1 = ap_requests s @ [\<lparr>rq_repo_url = url, rq_commit_hash = c\<rparr>]"
  proof -
    have "submit_patch cfg a t (Remote c url skip only) s =
        (Ok (accepted_as c), s\<lparr>ap_db := d1, ap_requests := ap_requests s @ [\<lparr>rq_repo_url = url, rq_commit_hash = c\<rparr>]\<rparr>)"
      unfolding submit_patch_def submit_remote_def using may by (simp only: f simp_thms if_False SubmitRequest.case snd_conv)
    with sub show "answer = Ok (accepted_as c)" "ap_db s1 = d1"
      "ap_requests s1 = ap_requests s @ [\<lparr>rq_repo_url = url, rq_commit_hash = c\<rparr>]" by auto
  qed
  obtain p where p: "ps_id p = i" "ps_status p = fetching" "ps_total p = None"
    "filter (\<lambda>q. ps_cover q = Some (c @ ''@sashiko.local'')) (patchsets d1) = [p]"
    "patchsets d1 = patchsets (ap_db s) @ [p]" "patches d1 = patches (ap_db s)" "i \<notin> ids ps_id (patchsets (ap_db s))"
    "ids me_message_id (messages d1) \<subseteq> insert (c @ ''@sashiko.local'') (ids me_message_id (messages (ap_db s)))"
    using fetching_inserts [OF inv c free f] by blast
  have new1: "\<forall>x\<in>set (patches d1). pa_patchset x \<noteq> ps_id p \<and> pa_message_id x \<noteq> sha" "sha \<notin> ids me_message_id (messages d1)"
    using fresh_row_patches [OF inv p(7)] new p(1,6,8) by auto
  have inv1: "store_inv d1" using conjunct1 [OF create_fetching_inv [OF inv f]] .
  have d1: "ids ps_id (patchsets d1) = insert i (ids ps_id (patchsets (ap_db s)))" using p(1,5) by (simp add: ids_def)
  show ?thesis
  proof (cases "is_ignored_author policy (extract_email (PatchMetadata.md_author m))")
    case True
    note r = fetched_commit_ignored [OF inv1 new1(2) new(3) True art st [unfolded s1(2)]]
    have "p \<in> set (patchsets d1)" using p(5) by simp
    with r find_patchset_mem [OF inv1 this] p(1,2) have "row_is i (\<lambda>q. ps_status q = fetching) d2"
      by (simp add: row_is_def find_patchset_def)
    with True r d1 p(1,6,7) new1(1) s1 show ?thesis by (intro conjI exI [of _ i]) simp_all
  next
    case False
    note r = fetched_commit_pending [OF inv1 p(4,2,3) new1 new(3) False art st [unfolded s1(2)]]
    with False d1 p(1,7) s1 show ?thesis by (intro conjI exI [of _ i]) simp_all
  qed
qed

definition empty_app :: app where
  "empty_app = \<lparr>ap_db = empty_db, ap_events = [], ap_requests = [], ap_threads = [], ap_caches = no_caches\<rparr>"

theorem submitted_commit_waits_witness:
  "\<exists>d2. process_parsed_article backtrack sample_policy 9
       (hd (parse_event no_mails (patch_event None ''abc'' ''abcdef'' 1 1 sample_commit)))
       (ap_db (snd (submit_patch local_only (V4 127 0 0 1) at_moment (Remote ''abc'' None None None) empty_app))) =
         (Ingested, d2) \<and> (\<exists>i. row_is i (\<lambda>q. ps_status q = ''Pending'') d2)"
proof -
  let ?e = "patch_event None ''abc'' ''abcdef'' 1 1 sample_commit"
  let ?sub = "submit_patch local_only (V4 127 0 0 1) at_moment (Remote ''abc'' None None None) empty_app"
  obtain st d2 where r: "process_parsed_article backtrack sample_policy 9 (hd (parse_event no_mails ?e)) (ap_db (snd ?sub)) = (st, d2)"
    by fastforce
  have a: "parse_event no_mails ?e = [hd (parse_event no_mails ?e)]" by (simp add: patch_event_def)
  have ig: "\<not> is_ignored_author sample_policy (extract_email (PatchMetadata.md_author sample_commit))" by code_simp
  have may: "may_submit local_only (V4 127 0 0 1)" by (simp add: may_submit_def local_only_def to_canonical_def is_loopback_def)
  have inv: "store_inv (ap_db empty_app)" by (simp add: empty_app_def store_inv_empty)
  have e: "patchsets (ap_db empty_app) = []" "patches (ap_db empty_app) = []" "messages (ap_db empty_app) = []"
    by (simp_all add: empty_app_def empty_db_def)
  show ?thesis
    using submitted_commit_waits [OF inv may _ _ _ _ _ prod.collapse [symmetric] a r] r ig
    by (auto simp: e ids_def row_is_def split: option.splits)
qed

end
