(* ===== verification/Prefetch.thy ===== *)
theory Prefetch
  imports Git_Ops Regex "HOL-Library.List_Lexorder" "HOL-Library.Char_ord"
begin

text \<open>
  The context that is looked up before a review (\<open>src/worker/prefetch.rs\<close>): the line ranges a diff changes, the
  definitions around them, the symbols they use, the definitions of these symbols in the tree, and the text
  made of it all. The parser tree-sitter gives a syntax tree, the grep library the lines of the tree that
  match a pattern; both are parameters, as are the files. Sets are lists without doubles, a hash map is the
  list of its entries.
\<close>

subsection \<open>Ranges of a diff\<close>

type_synonym ranges = "(nat \<times> nat) list"

text \<open>The sum of two \<open>usize\<close>, which wraps.\<close>

definition wrapping_add :: "nat \<Rightarrow> nat \<Rightarrow> nat" where
  "wrapping_add a b = (a + b) mod 2 ^ 64"

definition re_chunk_header :: re where
  "re_chunk_header = seqs [word_lit ''@@ -'', digits1, optional (Seq (Cl (Lit CHR '','')) digits1), word_lit '' +'',
     Group 1 digits1, optional (Seq (Cl (Lit CHR '','')) (Group 2 digits1)), word_lit '' @@'']"

text \<open>A number of the header; 1 when it is missing or too large.\<close>

definition chunk_number :: "string option \<Rightarrow> nat" where
  "chunk_number t =
     (case t of None \<Rightarrow> 1 | Some d \<Rightarrow> if digits_value 0 d < 2 ^ 64 then nat (digits_value 0 d) else 1)"

definition chunk_range :: "engine \<Rightarrow> string \<Rightarrow> (nat \<times> nat) option" where
  "chunk_range rx line =
     (if starts_with line ''@@''
      then case captures rx re_chunk_header line of
          None \<Rightarrow> None
        | Some cs \<Rightarrow>
            (let start = chunk_number (group_text line cs 1); count = chunk_number (group_text line cs 2)
             in if 0 < count then Some (start - 1, wrapping_add (start - 1) (count - 1)) else None)
      else None)"

fun entry_push :: "string \<Rightarrow> (nat \<times> nat) list \<Rightarrow> (string \<times> ranges) list \<Rightarrow> (string \<times> ranges) list" where
  "entry_push f rs [] = [(f, rs)]"
| "entry_push f rs ((g, gs) # m) = (if f = g then (g, gs @ rs) # m else (g, gs) # entry_push f rs m)"

definition diff_line :: "engine \<Rightarrow> string \<Rightarrow> string option \<times> (string \<times> ranges) list \<Rightarrow> string option \<times> (string \<times> ranges) list" where
  "diff_line rx line = (\<lambda>(current, files).
     case strip_prefix ''+++ b/'' line of
       Some f \<Rightarrow> (Some f, entry_push f [] files)
     | None \<Rightarrow>
         (case (current, chunk_range rx line) of
            (Some f, Some r) \<Rightarrow> (current, entry_push f [r] files)
          | _ \<Rightarrow> (current, files)))"

text \<open>The loop that joins ranges in the order of their starts; the ranges so far are held with the last one first.\<close>

definition merge_step :: "nat \<Rightarrow> nat \<times> nat \<Rightarrow> ranges \<Rightarrow> ranges" where
  "merge_step near r acc =
     (case acc of
        [] \<Rightarrow> [r]
      | l # ls \<Rightarrow> if fst r \<le> wrapping_add (snd l) near then (fst l, max (snd l) (snd r)) # ls else r # l # ls)"

definition merge_sorted :: "nat \<Rightarrow> ranges \<Rightarrow> ranges" where
  "merge_sorted near rs = rev (fold (merge_step near) rs [])"

definition parse_diff_ranges :: "engine \<Rightarrow> string \<Rightarrow> (string \<times> ranges) list" where
  "parse_diff_ranges rx diff =
     List.map (\<lambda>(f, rs). (f, merge_sorted 10 (sort_key fst rs))) (snd (fold (diff_line rx) (lines diff) (None, [])))"

subsection \<open>Syntax trees\<close>

text \<open>A node of tree-sitter: its kind, the field of its parent it stands in, its first and last line, its text, whether
  it holds an error, its children.\<close>

datatype syntax_node = Syntax (nd_kind: string) (nd_field: "string option") (nd_start: nat) (nd_end: nat) (nd_text: string)
  (nd_error: bool) (nd_children: "syntax_node list")

definition child_by_field_name :: "string \<Rightarrow> syntax_node \<Rightarrow> syntax_node option" where
  "child_by_field_name f n = first (filter (\<lambda>c. nd_field c = Some f) (nd_children n))"

lemma child_size: "child_by_field_name f n = Some c \<Longrightarrow> size c < size n"
proof -
  assume "child_by_field_name f n = Some c"
  then have "c \<in> set (nd_children n)" by (auto simp: child_by_field_name_def dest: first_filter_Some)
  then show ?thesis by (cases n) (auto dest: size_list_estimation' [where f = size, OF _ order_refl])
qed

definition outside :: "nat \<Rightarrow> nat \<Rightarrow> syntax_node \<Rightarrow> bool" where
  "outside start_line end_line n \<longleftrightarrow> nd_end n < start_line \<or> end_line < nd_start n"

definition target_kinds :: "string list" where
  "target_kinds = [''function_definition'', ''struct_specifier'', ''enum_specifier'', ''union_specifier'', ''declaration'',
     ''type_definition'', ''preproc_def'', ''preproc_function_def'']"

definition overlapping_definitions :: "(string \<Rightarrow> syntax_node option) \<Rightarrow> string \<Rightarrow> nat \<Rightarrow> nat \<Rightarrow> ranges" where
  "overlapping_definitions parse source start_line end_line =
     (case parse source of
        None \<Rightarrow> []
      | Some root \<Rightarrow>
          List.map (\<lambda>c.
              if nd_end c - nd_start c > 200
              then let center = wrapping_add start_line end_line div 2
                in (center - 100, min (wrapping_add center 100) (nd_end c))
              else (nd_start c, nd_end c))
            (filter (\<lambda>c. \<not> outside start_line end_line c \<and> nd_kind c \<in> set target_kinds) (nd_children root)))"

function declared_name :: "syntax_node \<Rightarrow> string option" where
  "declared_name n =
     (if nd_kind n = ''identifier'' then Some (nd_text n)
      else if nd_kind n \<in> {''function_declarator'', ''pointer_declarator'', ''parenthesized_declarator''}
      then (case child_by_field_name ''declarator'' n of None \<Rightarrow> None | Some c \<Rightarrow> declared_name c)
      else None)"
  by pat_completeness auto
termination by (relation "measure size") (auto dest: child_size)

declare declared_name.simps [simp del]

definition function_name :: "syntax_node \<Rightarrow> string option" where
  "function_name n = Option.bind (child_by_field_name ''declarator'' n) declared_name"

definition defined_name :: "syntax_node \<Rightarrow> string option" where
  "defined_name c =
     (if nd_kind c = ''function_definition'' then function_name c
      else if nd_kind c \<in> {''struct_specifier'', ''enum_specifier'', ''union_specifier''}
      then map_option nd_text (child_by_field_name ''name'' c)
      else None)"

definition extract_defined_names :: "(string \<Rightarrow> syntax_node option) \<Rightarrow> string \<Rightarrow> nat \<Rightarrow> nat \<Rightarrow> string list" where
  "extract_defined_names parse source start_line end_line =
     (case parse source of
        None \<Rightarrow> []
      | Some root \<Rightarrow> remdups (List.map_filter defined_name (filter (\<lambda>c. \<not> outside start_line end_line c) (nd_children root))))"

text \<open>The lines of a block, and the name when it defines just one.\<close>

definition block_of :: "string list \<Rightarrow> nat \<Rightarrow> nat \<Rightarrow> string option" where
  "block_of ls a b = (if a \<le> b \<and> a < length ls then Some (join [newline] (take (b - a + 1) (drop a ls))) else None)"

definition only_name :: "string list \<Rightarrow> string option" where
  "only_name names = (case names of [n] \<Rightarrow> Some n | _ \<Rightarrow> None)"

definition extract_enclosing_block :: "(string \<Rightarrow> syntax_node option) \<Rightarrow> string \<Rightarrow> nat \<Rightarrow> nat \<Rightarrow>
    (string \<times> string option) option" where
  "extract_enclosing_block parse source start_line end_line =
     (case overlapping_definitions parse source start_line end_line of
        [] \<Rightarrow> None
      | (a, b) # _ \<Rightarrow>
          (let ls = lines source; b = min b (length ls - 1)
           in map_option (\<lambda>t. (t, only_name (extract_defined_names parse source a b))) (block_of ls a b)))"

subsection \<open>Symbols\<close>

definition common_c_words :: "string list" where
  "common_c_words = [''int'', ''char'', ''void'', ''long'', ''short'', ''unsigned'', ''signed'', ''struct'', ''union'', ''enum'',
     ''typedef'', ''static'', ''const'', ''volatile'', ''if'', ''else'', ''for'', ''while'', ''do'', ''switch'',
     ''case'', ''default'', ''return'', ''break'', ''continue'', ''goto'', ''sizeof'', ''true'', ''false'',
     ''NULL'', ''inline'', ''extern'', ''register'', ''auto'', ''restrict'', ''u8'', ''u16'', ''u32'', ''u64'',
     ''s8'', ''s16'', ''s32'', ''s64'', ''uint8_t'', ''uint16_t'', ''uint32_t'', ''uint64_t'', ''int8_t'',
     ''int16_t'', ''int32_t'', ''int64_t'', ''bool'', ''size_t'', ''ssize_t'', ''pid_t'', ''uid_t'', ''gid_t'',
     ''off_t'', ''ret'', ''err'', ''len'', ''size'', ''res'', ''tmp'', ''val'', ''ptr'', ''idx'', ''out'']"

definition is_common_c_word :: "string \<Rightarrow> bool" where
  "is_common_c_word w \<longleftrightarrow> w \<in> set common_c_words"

definition is_symbol :: "string \<Rightarrow> bool" where
  "is_symbol s \<longleftrightarrow> 3 \<le> length s \<and> \<not> is_common_c_word s"

definition call_name :: "ranges \<Rightarrow> syntax_node \<Rightarrow> string list" where
  "call_name diff_ranges n =
     (if nd_kind n = ''call_expression'' \<and> (\<exists>(s, e)\<in>set diff_ranges. s \<le> nd_start n \<and> nd_start n \<le> e)
      then case child_by_field_name ''function'' n of
          Some f \<Rightarrow> if nd_kind f = ''identifier'' \<and> is_symbol (nd_text f) then [nd_text f] else []
        | None \<Rightarrow> []
      else [])"

fun collect_calls :: "ranges \<Rightarrow> syntax_node \<Rightarrow> string list" where
  "collect_calls rs (Syntax k f a b t e cs) =
     call_name rs (Syntax k f a b t e cs) @ concat (List.map (collect_calls rs) cs)"

definition extract_called_functions :: "(string \<Rightarrow> syntax_node option) \<Rightarrow> string \<Rightarrow> ranges \<Rightarrow> string list" where
  "extract_called_functions parse source rs =
     (case parse source of None \<Rightarrow> [] | Some root \<Rightarrow> remdups (collect_calls rs root))"

fun collect_types :: "(nat \<times> nat) option \<Rightarrow> syntax_node \<Rightarrow> string list" where
  "collect_types bounds (Syntax k f a b t e cs) =
     (if (case bounds of Some (lo, hi) \<Rightarrow> b < lo \<or> hi < a | None \<Rightarrow> False) then []
      else (if k = ''type_identifier'' \<and> is_symbol t then [t] else []) @ concat (List.map (collect_types bounds) cs))"

definition scope_kinds :: "string list" where
  "scope_kinds = [''function_definition'', ''struct_specifier'', ''union_specifier'', ''enum_specifier'', ''type_definition'']"

text \<open>From the smallest node that spans the lines up to a definition, or to the root.\<close>

fun find_scope :: "syntax_node \<Rightarrow> syntax_node list \<Rightarrow> syntax_node \<times> bool" where
  "find_scope n [] = (n, nd_kind n \<notin> set scope_kinds)"
| "find_scope n (p # ps) = (if nd_kind n \<in> set scope_kinds then (n, False) else find_scope p ps)"

text \<open>\<open>spanning\<close> gives that node with its ancestors, the nearest first.\<close>

definition extract_type_names :: "(string \<Rightarrow> nat \<Rightarrow> nat \<Rightarrow> (syntax_node \<times> syntax_node list) option) \<Rightarrow> string \<Rightarrow> nat \<Rightarrow> nat \<Rightarrow>
    string list" where
  "extract_type_names spanning source start_line end_line =
     (case spanning source start_line end_line of
        None \<Rightarrow> []
      | Some (n, ancestors) \<Rightarrow>
          (let (scope, hit_root) = find_scope n ancestors;
               bounds = (if hit_root \<or> nd_kind scope = ''struct_specifier'' \<or> nd_kind scope = ''union_specifier'' \<or> nd_error scope
                         then Some (start_line, end_line) else None)
           in remdups (collect_types bounds scope)))"

text \<open>What the context is looked up in. \<open>pf_hits\<close> gives the lines of the tree that match a pattern, with their files,
  in the order in which the threads of the walk come to them, or refuses the pattern; \<open>pf_order\<close> is the order in which the
  set of symbols is run through.\<close>

record prefetcher =
  pf_engine :: engine
  pf_read :: "path \<Rightarrow> string option"
  pf_exists :: "path \<Rightarrow> bool"
  pf_parse :: "string \<Rightarrow> syntax_node option"
  pf_spanning :: "string \<Rightarrow> nat \<Rightarrow> nat \<Rightarrow> (syntax_node \<times> syntax_node list) option"
  pf_hits :: "path \<Rightarrow> string \<Rightarrow> (path \<times> string) list option"
  pf_order :: "string list \<Rightarrow> string list"

definition text_or :: "string \<Rightarrow> string option \<Rightarrow> string" where
  "text_or d t = (case t of Some s \<Rightarrow> s | None \<Rightarrow> d)"

definition word_char :: re where
  "word_char = Cl (OneOf (filter is_word (List.map char_of [0..<256 :: nat])))"

definition words1 :: re where
  "words1 = Seq word_char (Star True word_char)"

definition spaces1 :: re where
  "spaces1 = Seq (Cl Space) (Star True (Cl Space))"

definition re_struct_pointer :: re where
  "re_struct_pointer = seqs [word_lit ''struct'', spaces1, Group 1 words1, spaces1, Cl (Lit CHR ''*''), Group 2 words1]"

definition re_member_of :: "string \<Rightarrow> re" where
  "re_member_of var = seqs [word_lit var, Star True (Cl Space), word_lit ''->'', Star True (Cl Space), Group 1 words1]"

definition struct_pointers :: "engine \<Rightarrow> string \<Rightarrow> (string \<times> string) list" where
  "struct_pointers rx content =
     List.map (\<lambda>cs. (text_or [] (group_text content cs 2), text_or [] (group_text content cs 1)))
       (captures_iter rx re_struct_pointer content)"

definition members_of :: "engine \<Rightarrow> string \<Rightarrow> string \<Rightarrow> string list" where
  "members_of rx content var =
     List.map (\<lambda>cs. text_or [] (group_text content cs 1)) (captures_iter rx (re_member_of var) content)"

definition type_members :: "prefetcher \<Rightarrow> path \<Rightarrow> string list \<Rightarrow> string \<Rightarrow> string list" where
  "type_members pf tree files t =
     concat (List.map (\<lambda>f. case pf_read pf (join_path tree f) of
         None \<Rightarrow> []
       | Some content \<Rightarrow>
           concat (List.map (\<lambda>(var, ty). if ty = t then members_of (pf_engine pf) content var else [])
             (struct_pointers (pf_engine pf) content))) files)"

definition find_opaque_types :: "prefetcher \<Rightarrow> path \<Rightarrow> string list \<Rightarrow> string list \<Rightarrow> string list" where
  "find_opaque_types pf tree files types =
     filter (\<lambda>t. \<forall>m\<in>set (type_members pf tree files t). contains m ''priv'') types"

subsection \<open>Definitions of symbols\<close>

definition is_ident_byte :: "char \<Rightarrow> bool" where
  "is_ident_byte c \<longleftrightarrow> is_alnum c \<or> c = CHR ''_''"

text \<open>The search goes on behind each occurrence; with the empty symbol it would not end.\<close>

partial_function (option) matches_symbol_from :: "string \<Rightarrow> string \<Rightarrow> nat \<Rightarrow> bool option" where
  "matches_symbol_from line sy i =
     (case find_sub sy (drop i line) of
        None \<Rightarrow> Some False
      | Some pos \<Rightarrow>
          if (i + pos = 0 \<or> \<not> is_ident_byte (line ! (i + pos - 1))) \<and>
             (length line \<le> i + pos + length sy \<or> \<not> is_ident_byte (line ! (i + pos + length sy)))
          then Some True
          else matches_symbol_from line sy (i + pos + length sy))"

definition line_matches_symbol :: "string \<Rightarrow> string \<Rightarrow> bool option" where
  "line_matches_symbol line sy = matches_symbol_from line sy 0"

definition noisy_trees :: "string list" where
  "noisy_trees = [''/tools/'', ''/samples/'', ''/Documentation/'', ''/scripts/'', ''/LICENSES/'']"

definition is_noisy_tree :: "string \<Rightarrow> bool" where
  "is_noisy_tree p \<longleftrightarrow> (\<exists>t\<in>set noisy_trees. contains p t)"

definition rsplit_dir :: "string \<Rightarrow> string option" where
  "rsplit_dir p = map_option (\<lambda>i. take i p) (rfind_char CHR ''/'' p)"

definition path_string :: "path \<Rightarrow> string" where
  "path_string p = ''/'' @ join ''/'' p"

text \<open>The path below the work tree, as text.\<close>

definition strip_tree :: "path \<Rightarrow> path \<Rightarrow> string option" where
  "strip_tree tree p = (if take (length tree) p = tree then Some (join ''/'' (drop (length tree) p)) else None)"

definition names_symbol :: "string \<Rightarrow> syntax_node \<Rightarrow> bool" where
  "names_symbol sy n = (map_option nd_text (child_by_field_name ''name'' n) = Some sy)"

definition has_child :: "string \<Rightarrow> string \<Rightarrow> syntax_node \<Rightarrow> bool" where
  "has_child kind t n \<longleftrightarrow> (\<exists>c\<in>set (nd_children n). nd_kind c = kind \<and> nd_text c = t)"

definition score_definition_node :: "string \<Rightarrow> syntax_node \<Rightarrow> int" where
  "score_definition_node sy n =
     (let k = nd_kind n; has_body = (child_by_field_name ''body'' n \<noteq> None)
      in if k \<in> {''struct_specifier'', ''union_specifier'', ''enum_specifier''}
         then if names_symbol sy n \<and> has_body then 100 else 0
         else if k = ''function_definition''
         then if function_name n = Some sy \<and> has_body then 90 else 0
         else if k \<in> {''preproc_def'', ''preproc_function_def''}
         then if names_symbol sy n then 70 else 0
         else if k = ''type_definition''
         then if has_child ''type_identifier'' sy n then 80 else 0
         else 0)"

text \<open>The nodes in the order of the stack: the last child first.\<close>

function best_node :: "string \<Rightarrow> syntax_node list \<Rightarrow> (int \<times> syntax_node) option \<Rightarrow> (int \<times> syntax_node) option" where
  "best_node sy [] best = best"
| "best_node sy (n # stack) best =
     best_node sy (rev (nd_children n) @ stack)
       (let s = score_definition_node sy n
        in if 0 < s \<and> (case best of Some (b, _) \<Rightarrow> b < s | None \<Rightarrow> True) then Some (s, n) else best)"
  by pat_completeness auto
termination
proof (relation "measure (\<lambda>(sy, stack, best). sum_list (List.map size stack))", goal_cases)
  case (2 sy n stack best)
  have "sum_list (List.map size (nd_children n)) < size n"
    by (cases n) (simp add: size_list_conv_sum_list)
  then show ?case by (simp add: rev_map [symmetric])
qed simp

definition score_best_in_file_for_sym :: "(string \<Rightarrow> syntax_node option) \<Rightarrow> string \<Rightarrow> string \<Rightarrow> (int \<times> bool \<times> nat \<times> nat) option" where
  "score_best_in_file_for_sym parse content sy =
     Option.bind (parse content) (\<lambda>root.
       map_option (\<lambda>(s, n). (s, has_child ''storage_class_specifier'' ''static'' n, nd_start n,
           if nd_end n - nd_start n > 200 then min (nd_start n + 200) (nd_end n) else nd_end n))
         (best_node sy [root] None))"

fun common_prefix :: "string list \<Rightarrow> string list \<Rightarrow> nat" where
  "common_prefix (a # as) (b # bs) = (if a = b then Suc (common_prefix as bs) else 0)"
| "common_prefix _ _ = 0"

definition common_prefix_len :: "string \<Rightarrow> string \<Rightarrow> nat" where
  "common_prefix_len a b = common_prefix (split_char CHR ''/'' a) (split_char CHR ''/'' b)"

definition proximity_score :: "string \<Rightarrow> bool \<Rightarrow> string list \<Rightarrow> int" where
  "proximity_score def_path is_static caller_dirs =
     (let def_dir = text_or [] (rsplit_dir def_path)
      in if is_static \<and> ends_with def_path ''.c'' \<and> def_dir \<notin> set caller_dirs then -200
         else if def_dir \<in> set caller_dirs then 50
         else if starts_with def_path ''include/'' then 40
         else int (foldr max (List.map (common_prefix_len def_dir) caller_dirs) 0))"

text \<open>A candidate with its score, if it is a definition.\<close>

definition scored :: "prefetcher \<Rightarrow> path \<Rightarrow> string list \<Rightarrow> string \<Rightarrow> path \<Rightarrow> (int \<times> path \<times> nat \<times> nat) option" where
  "scored pf tree caller_dirs sy p =
     Option.bind (pf_read pf p) (\<lambda>content.
       case score_best_in_file_for_sym (pf_parse pf) content sy of
         None \<Rightarrow> None
       | Some (s, is_static, a, b) \<Rightarrow>
           if s = 0 then None
           else Some (s + proximity_score (text_or (path_string p) (strip_tree tree p)) is_static caller_dirs, p, a, b))"

definition better :: "(int \<times> path \<times> nat \<times> nat) option \<Rightarrow> (int \<times> path \<times> nat \<times> nat) option \<Rightarrow>
    (int \<times> path \<times> nat \<times> nat) option" where
  "better best c =
     (case c of None \<Rightarrow> best
      | Some x \<Rightarrow> (case best of Some y \<Rightarrow> if fst x \<le> fst y then best else c | None \<Rightarrow> c))"

text \<open>Each file is looked at once, where it comes first.\<close>

fun first_places :: "'a list \<Rightarrow> 'a list \<Rightarrow> 'a list" where
  "first_places seen [] = []"
| "first_places seen (x # xs) = (if x \<in> set seen then first_places seen xs else x # first_places (x # seen) xs)"

definition best_definition_range :: "prefetcher \<Rightarrow> path \<Rightarrow> string list \<Rightarrow> string \<Rightarrow> path list \<Rightarrow> (path \<times> nat \<times> nat) option" where
  "best_definition_range pf tree caller_dirs sy hits =
     map_option snd (fold (\<lambda>p best. better best (scored pf tree caller_dirs sy p)) (first_places [] hits) None)"

definition searchable :: "path \<Rightarrow> bool" where
  "searchable p = (let s = path_string p in (ends_with s ''.h'' \<or> ends_with s ''.c'') \<and> \<not> is_noisy_tree s)"

definition is_priority :: "path \<Rightarrow> string list \<Rightarrow> path \<Rightarrow> bool" where
  "is_priority tree caller_dirs p =
     (let rel = text_or [] (strip_tree tree p)
      in starts_with rel ''include/'' \<or> (\<exists>d\<in>set caller_dirs. starts_with rel (d @ ''/'')))"

text \<open>The files where a symbol may be defined: thirty-two from the directories that count, then thirty-two others.\<close>

definition symbol_hits :: "path \<Rightarrow> string list \<Rightarrow> (path \<times> string) list \<Rightarrow> string \<Rightarrow> path list" where
  "symbol_hits tree caller_dirs found sy =
     (let ps = List.map fst (filter (\<lambda>(p, line). searchable p \<and> line_matches_symbol line sy = Some True) found)
      in take 32 (filter (is_priority tree caller_dirs) ps) @ take 32 (filter (\<lambda>p. \<not> is_priority tree caller_dirs p) ps))"

definition symbols_pattern :: "string list \<Rightarrow> string" where
  "symbols_pattern symbols =
     (let s = join ''|'' symbols
      in ''^((struct|enum|union)'' @ [backslash] @ ''s+('' @ s @ '')'' @ [backslash] @ ''b|#define'' @ [backslash] @ ''s+('' @ s @ '')'' @
         [backslash] @ ''b|([a-zA-Z_][a-zA-Z0-9_ '' @ [backslash] @ ''t*]+'' @ [backslash] @ ''s+)?('' @ s @ '')'' @ [backslash] @ ''s*'' @
         [backslash] @ ''()'')"

subsection \<open>The text\<close>

definition MAX_PREFETCH_CHARS :: nat where "MAX_PREFETCH_CHARS = 200000"

definition limit_note :: string where
  "limit_note = [newline] @ ''... (Context prefetch limits reached)'' @ [newline]"

text \<open>The map from files to sets of ranges, as the list of its pairs; a \<open>BTreeMap\<close> and a \<open>BTreeSet\<close> are in order.\<close>

type_synonym range_map = "(path \<times> nat \<times> nat) list"

definition range_files :: "range_map \<Rightarrow> path list" where
  "range_files m = sort (remdups (List.map fst m))"

definition file_ranges_of :: "range_map \<Rightarrow> path \<Rightarrow> ranges" where
  "file_ranges_of m p = sort_key fst (sort_key snd (remdups (List.map snd (filter (\<lambda>e. fst e = p) m))))"

definition merge_ranges :: "ranges \<Rightarrow> nat \<Rightarrow> ranges" where
  "merge_ranges rs gap = merge_sorted (gap + 1) rs"

definition block_header :: "string \<Rightarrow> nat \<Rightarrow> string option \<Rightarrow> string" where
  "block_header relative start name =
     ''--- '' @ relative @ '':'' @ show_nat (start + 1) @
       (case name of Some n \<Rightarrow> '' ('' @ n @ '') ---'' | None \<Rightarrow> '' ---'') @ [newline]"

text \<open>The blocks of one file, each with its header and a line feed.\<close>

definition file_blocks :: "prefetcher \<Rightarrow> path \<Rightarrow> range_map \<Rightarrow> path \<Rightarrow> string list" where
  "file_blocks pf tree m p =
     (case pf_read pf p of
        None \<Rightarrow> []
      | Some content \<Rightarrow>
          (let ls = lines content
           in List.map (\<lambda>(a, b).
                (let b' = min b (length ls - 1)
                 in block_header (text_or (path_string p) (strip_tree tree p)) a
                      (only_name (extract_defined_names (pf_parse pf) content a b')) @
                    text_or [] (block_of ls a b') @ [newline]))
              (merge_ranges (file_ranges_of m p) 3)))"

text \<open>Blocks are written until the next one would pass the limit.\<close>

fun write_blocks :: "nat \<Rightarrow> string list \<Rightarrow> string" where
  "write_blocks used [] = []"
| "write_blocks used (b # bs) =
     (if used + length b > MAX_PREFETCH_CHARS then limit_note else b @ write_blocks (used + length b) bs)"

definition render_range_map :: "prefetcher \<Rightarrow> path \<Rightarrow> range_map \<Rightarrow> string list \<Rightarrow> string" where
  "render_range_map pf tree m modified_files =
     (let modified = List.map (join_path tree) modified_files;
          ordered = sort_key (\<lambda>p. if p \<in> set modified then 0 else 1 :: nat) (range_files m)
      in write_blocks 0 (concat (List.map (file_blocks pf tree m) ordered)))"

subsection \<open>The context of a diff\<close>

text \<open>The C files of the diff that can be read, with their contents and ranges.\<close>

definition c_files :: "prefetcher \<Rightarrow> path \<Rightarrow> (string \<times> ranges) list \<Rightarrow> (path \<times> string \<times> ranges) list" where
  "c_files pf tree files =
     List.map_filter (\<lambda>(f, rs).
         let p = join_path tree f
         in if (ends_with f ''.c'' \<or> ends_with f ''.h'') \<and> pf_exists pf p
            then map_option (\<lambda>content. (p, content, rs)) (pf_read pf p) else None) files"

definition changed_ranges :: "prefetcher \<Rightarrow> (path \<times> string \<times> ranges) list \<Rightarrow> range_map" where
  "changed_ranges pf cs =
     concat (List.map (\<lambda>(p, content, rs).
       concat (List.map (\<lambda>(a, b). List.map (Pair p) (overlapping_definitions (pf_parse pf) content a b)) rs)) cs)"

definition over_ranges :: "(string \<Rightarrow> nat \<Rightarrow> nat \<Rightarrow> string list) \<Rightarrow> (path \<times> string \<times> ranges) list \<Rightarrow> string list" where
  "over_ranges names cs =
     remdups (concat (List.map (\<lambda>(p, content, rs). concat (List.map (\<lambda>(a, b). names content a b) rs)) cs))"

text \<open>The symbols that are looked up: the types that are used and not opaque, the functions that are called, without what the
  changed code defines itself and without tables of operations; fifty of them.\<close>

definition symbols_to_lookup :: "prefetcher \<Rightarrow> path \<Rightarrow> (string \<times> ranges) list \<Rightarrow> string list" where
  "symbols_to_lookup pf tree files =
     (let cs = c_files pf tree files;
          defined = over_ranges (extract_defined_names (pf_parse pf)) cs;
          types = filter (\<lambda>t. t \<notin> set defined) (over_ranges (extract_type_names (pf_spanning pf)) cs);
          opaque = find_opaque_types pf tree (List.map fst files) types;
          called = filter (\<lambda>f. f \<notin> set defined)
            (concat (List.map (\<lambda>(p, content, rs). extract_called_functions (pf_parse pf) content rs) cs));
          all = filter (\<lambda>s. \<not> ends_with s ''_ops'') (remdups (filter (\<lambda>t. t \<notin> set opaque) types @ called))
      in take 50 (pf_order pf all))"

definition caller_directories :: "(string \<times> ranges) list \<Rightarrow> string list" where
  "caller_directories files = remdups (List.map_filter (\<lambda>(f, _). rsplit_dir f) files)"

definition symbol_ranges :: "prefetcher \<Rightarrow> path \<Rightarrow> string list \<Rightarrow> string list \<Rightarrow> (path \<times> string) list \<Rightarrow> range_map" where
  "symbol_ranges pf tree dirs symbols found =
     List.map_filter (\<lambda>sy. best_definition_range pf tree dirs sy (symbol_hits tree dirs found sy)) symbols"

definition prefetch_context :: "prefetcher \<Rightarrow> path \<Rightarrow> string \<Rightarrow> string" where
  "prefetch_context pf tree diff =
     (let files = parse_diff_ranges (pf_engine pf) diff;
          changed = changed_ranges pf (c_files pf tree files);
          symbols = symbols_to_lookup pf tree files;
          referenced = (if symbols = [] then []
            else case pf_hits pf tree (symbols_pattern symbols) of
                None \<Rightarrow> []
              | Some found \<Rightarrow> symbol_ranges pf tree (caller_directories files) symbols found)
      in render_range_map pf tree (changed @ referenced) (List.map fst files))"

end
