(* ===== verification/Prefetch_Props.thy ===== *)
theory Prefetch_Props
  imports Prefetch Git_Props "HOL-Library.Code_Target_Nat"
begin

text \<open>
  The prefetched context covers what the diff changes, keeps its limit of characters, and takes for each symbol
  the definition with the best score; a symbol is found as a whole word.
\<close>

subsection \<open>Ranges\<close>

definition apart :: "nat \<Rightarrow> ranges \<Rightarrow> bool" where
  "apart near = sorted_wrt (\<lambda>x y. snd x + near < fst y)"

definition covered :: "ranges \<Rightarrow> nat \<times> nat \<Rightarrow> bool" where
  "covered rs r \<longleftrightarrow> (\<exists>x\<in>set rs. fst x \<le> fst r \<and> snd r \<le> snd x)"

lemma covered_mono: "covered rs r \<Longrightarrow> set rs \<subseteq> set qs \<Longrightarrow> covered qs r"
  by (auto simp: covered_def)

text \<open>What the loop has after the ranges \<open>done\<close>, the last one first.\<close>

definition merged_to :: "nat \<Rightarrow> ranges \<Rightarrow> ranges \<Rightarrow> bool" where
  "merged_to near done acc \<longleftrightarrow> apart near (rev acc) \<and> (\<forall>r\<in>set done. covered acc r) \<and>
     fst ` set acc \<subseteq> fst ` set done \<and> snd ` set acc \<subseteq> snd ` set done"

lemma merge_step_inv:
  assumes "merged_to near rs acc" "\<forall>x\<in>set rs. fst x \<le> fst r \<and> snd x + near < 2 ^ 64"
  shows "merged_to near (rs @ [r]) (merge_step near r acc)"
proof (cases acc)
  case Nil
  then show ?thesis using assms by (cases rs) (auto simp: merged_to_def merge_step_def apart_def covered_def)
next
  case (Cons l ls)
  have m: "apart near (rev ls @ [l])" "\<forall>x\<in>set rs. covered (l # ls) x" "fst ` set (l # ls) \<subseteq> fst ` set rs"
    "snd ` set (l # ls) \<subseteq> snd ` set rs" using assms(1) Cons by (simp_all add: merged_to_def)
  have l: "fst l \<le> fst r" "wrapping_add (snd l) near = snd l + near"
    using m(3,4) assms(2) by (auto simp: wrapping_add_def)
  show ?thesis
  proof (cases "fst r \<le> snd l + near")
    case True
    let ?n = "(fst l, max (snd l) (snd r))"
    have e: "merge_step near r acc = ?n # ls" using True l Cons by (simp add: merge_step_def)
    have "covered (?n # ls) x" if "covered (l # ls) x" for x
      using that by (auto simp: covered_def)
    moreover have "covered (?n # ls) r" using l(1) by (simp add: covered_def)
    moreover have "apart near (rev ls @ [?n])" using m(1) by (auto simp: apart_def sorted_wrt_append)
    ultimately show ?thesis using m e by (auto simp: merged_to_def max_def)
  next
    case False
    have e: "merge_step near r acc = r # acc" using False l Cons by (simp add: merge_step_def)
    have "snd x + near < fst r" if "x \<in> set acc" for x
    proof (cases "x = l")
      case False
      with that Cons m(1) have "snd x + near < fst l" by (auto simp: apart_def sorted_wrt_append)
      with l(1) show ?thesis by simp
    qed (use \<open>\<not> fst r \<le> snd l + near\<close> in simp)
    then have "apart near (rev acc @ [r])" using m(1) Cons by (simp add: apart_def sorted_wrt_append)
    moreover have "covered (r # acc) x" if "covered acc x" for x using that by (rule covered_mono) auto
    moreover have "covered (r # acc) r" by (simp add: covered_def)
    ultimately show ?thesis using assms(1) e by (auto simp: merged_to_def)
  qed
qed

lemma merge_sorted_spec:
  assumes "sorted (List.map fst rs)" "\<forall>x\<in>set rs. snd x + near < 2 ^ 64"
  shows "merged_to near rs (rev (merge_sorted near rs))"
  using assms
proof (induction rs rule: rev_induct)
  case Nil
  then show ?case by (simp add: merge_sorted_def merged_to_def apart_def)
next
  case (snoc r rs)
  then have "merged_to near rs (rev (merge_sorted near rs))" "\<forall>x\<in>set rs. fst x \<le> fst r \<and> snd x + near < 2 ^ 64"
    by (auto simp: sorted_append)
  from merge_step_inv [OF this] show ?case by (simp add: merge_sorted_def)
qed

text \<open>The hunks of a diff with their files, line by line.\<close>

fun hunks :: "engine \<Rightarrow> string option \<Rightarrow> string list \<Rightarrow> (string \<times> nat \<times> nat) list" where
  "hunks rx current [] = []"
| "hunks rx current (l # ls) =
     (case strip_prefix ''+++ b/'' l of
        Some f \<Rightarrow> hunks rx (Some f) ls
      | None \<Rightarrow> (case (current, chunk_range rx l) of (Some f, Some r) \<Rightarrow> [(f, r)] | _ \<Rightarrow> []) @ hunks rx current ls)"

definition hunks_of :: "string \<Rightarrow> (string \<times> nat \<times> nat) list \<Rightarrow> ranges" where
  "hunks_of f hs = List.map snd (filter (\<lambda>h. fst h = f) hs)"

definition entry :: "string \<Rightarrow> (string \<times> ranges) list \<Rightarrow> ranges" where
  "entry f m = (case map_of m f of Some rs \<Rightarrow> rs | None \<Rightarrow> [])"

lemma entry_of_push: "entry g (entry_push f rs m) = entry g m @ (if g = f then rs else [])"
  by (induction f rs m rule: entry_push.induct) (auto simp: entry_def)

lemma entry_push_keys: "fst ` set (entry_push f rs m) = insert f (fst ` set m)"
  by (induction f rs m rule: entry_push.induct) auto

lemma entry_push_distinct: "distinct (List.map fst m) \<Longrightarrow> distinct (List.map fst (entry_push f rs m))"
proof (induction f rs m rule: entry_push.induct)
  case (2 f rs g gs m)
  have "fst ` set (entry_push f rs m) = insert f (fst ` set m)" by (rule entry_push_keys)
  with 2 show ?case by simp
qed simp

lemma fold_diff_line:
  "entry f (snd (fold (diff_line rx) ls (current, m))) = entry f m @ hunks_of f (hunks rx current ls)"
  "distinct (List.map fst m) \<Longrightarrow> distinct (List.map fst (snd (fold (diff_line rx) ls (current, m))))"
proof (induction ls arbitrary: current m)
  case (Cons l ls)
  {
    case 1
    from Cons.IH(1) show ?case
      by (auto simp: diff_line_def hunks_of_def entry_of_push split: option.splits)
  next
    case 2
    with Cons.IH(2) entry_push_distinct show ?case
      by (auto simp: diff_line_def split: option.splits)
  }
qed (simp_all add: hunks_of_def)

lemma map_of_second: "map_of (List.map (\<lambda>(k, v). (k, g v)) m) k = map_option g (map_of m k)"
  by (induction m) auto

text \<open>C22. The ranges of a diff: every hunk lies in one range of its file, the ranges of a file are in order with more than ten
  lines between them, and they start and end where hunks do. No file comes twice.\<close>

theorem diff_ranges_spec:
  assumes "\<forall>(f, a, b)\<in>set (hunks rx None (lines diff)). b + 10 < 2 ^ 64"
  shows "distinct (List.map fst (parse_diff_ranges rx diff)) \<and>
    (\<forall>(f, r)\<in>set (hunks rx None (lines diff)). covered (entry f (parse_diff_ranges rx diff)) r) \<and>
    (\<forall>f. apart 10 (entry f (parse_diff_ranges rx diff)) \<and>
       fst ` set (entry f (parse_diff_ranges rx diff)) \<subseteq> fst ` set (hunks_of f (hunks rx None (lines diff))) \<and>
       snd ` set (entry f (parse_diff_ranges rx diff)) \<subseteq> snd ` set (hunks_of f (hunks rx None (lines diff))))"
proof -
  let ?hs = "hunks rx None (lines diff)" and ?m = "snd (fold (diff_line rx) (lines diff) (None, []))"
  let ?R = "parse_diff_ranges rx diff"
  have e: "entry f ?m = hunks_of f ?hs" for f using fold_diff_line(1) [of f rx "lines diff" None "[]"] by (simp add: entry_def)
  have merged: "merged_to 10 (sort_key fst (hunks_of f ?hs)) (rev (entry f ?R))" for f
  proof -
    have b: "\<forall>x\<in>set (hunks_of f ?hs). snd x + 10 < 2 ^ 64" using assms by (auto simp: hunks_of_def)
    have "entry f ?R = merge_sorted 10 (sort_key fst (hunks_of f ?hs))"
    proof (cases "map_of ?m f")
      case None
      then have "entry f ?R = []" by (simp add: parse_diff_ranges_def entry_def map_of_second)
      moreover have "hunks_of f ?hs = []" using e [of f] None by (simp add: entry_def)
      ultimately show ?thesis by (simp add: merge_sorted_def)
    next
      case (Some rs)
      then have "entry f ?R = merge_sorted 10 (sort_key fst rs)"
        by (simp add: parse_diff_ranges_def entry_def map_of_second)
      moreover have "rs = hunks_of f ?hs" using e [of f] Some by (simp add: entry_def)
      ultimately show ?thesis by simp
    qed
    then show ?thesis using merge_sorted_spec [of "sort_key fst (hunks_of f ?hs)" 10] b by simp
  qed
  have "distinct (List.map fst ?R)"
    using fold_diff_line(2) [of "[]" rx "lines diff" None] by (simp add: parse_diff_ranges_def split_def comp_def)
  moreover have "covered (entry f ?R) r" if "(f, r) \<in> set ?hs" for f r
  proof -
    have "r \<in> set (hunks_of f ?hs)" using that by (force simp: hunks_of_def)
    with merged [of f] have "covered (rev (entry f ?R)) r" by (simp add: merged_to_def)
    then show ?thesis by (simp add: covered_def)
  qed
  ultimately show ?thesis using merged by (auto simp: merged_to_def)
qed

definition sample_diff :: string where
  "sample_diff = unlines [''--- a/file.c'', ''+++ b/file.c'', ''@@ -10,2 +10,4 @@'', '' context'', ''@@ -50,0 +52,1 @@'', ''+new'']"

theorem diff_ranges_spec_witness:
  "covered (entry ''file.c'' (parse_diff_ranges backtrack sample_diff)) (51, 51)"
proof -
  have h: "hunks backtrack None (lines sample_diff) = [(''file.c'', 9, 12), (''file.c'', 51, 51)]" by code_simp
  have "\<forall>(f, a, b)\<in>set (hunks backtrack None (lines sample_diff)). b + 10 < 2 ^ 64" unfolding h by simp
  from diff_ranges_spec [OF this] h show ?thesis by auto
qed

subsection \<open>The size of the context\<close>

lemma write_blocks_bound: "used \<le> MAX_PREFETCH_CHARS \<Longrightarrow>
   used + length (write_blocks used bs) \<le> MAX_PREFETCH_CHARS + length limit_note"
  by (induction used bs rule: write_blocks.induct) auto

text \<open>The context has at most 200000 characters, and after them at most the note that says so; at most fifty symbols
  are looked up, none of which the changed code defines.\<close>

theorem context_bounded:
  "length (prefetch_context pf tree diff) \<le> 200000 + length limit_note \<and>
   length (symbols_to_lookup pf tree files) \<le> 50"
proof
  have "length (render_range_map pf tree m fs) \<le> 200000 + length limit_note" for m fs
    unfolding render_range_map_def Let_def using write_blocks_bound [of 0] by (simp add: MAX_PREFETCH_CHARS_def)
  then show "length (prefetch_context pf tree diff) \<le> 200000 + length limit_note"
    by (simp add: prefetch_context_def Let_def)
  show "length (symbols_to_lookup pf tree files) \<le> 50" by (simp add: symbols_to_lookup_def Let_def)
qed

subsection \<open>Whole words\<close>

definition whole_word :: "string \<Rightarrow> string \<Rightarrow> bool" where
  "whole_word sy line \<longleftrightarrow> (\<exists>u v. line = u @ sy @ v \<and> (u = [] \<or> \<not> is_ident_byte (last u)) \<and> (v = [] \<or> \<not> is_ident_byte (hd v)))"

definition word_at_offset :: "string \<Rightarrow> string \<Rightarrow> nat \<Rightarrow> bool" where
  "word_at_offset sy line k \<longleftrightarrow> k + length sy \<le> length line \<and> take (length sy) (drop k line) = sy \<and>
     (k = 0 \<or> \<not> is_ident_byte (line ! (k - 1))) \<and>
     (length line \<le> k + length sy \<or> \<not> is_ident_byte (line ! (k + length sy)))"

lemma last_take: "0 < k \<Longrightarrow> k \<le> length xs \<Longrightarrow> last (take k xs) = xs ! (k - 1)"
  by (cases xs) (auto simp: last_conv_nth min_def)

lemma whole_word_iff: "whole_word sy line \<longleftrightarrow> (\<exists>k. word_at_offset sy line k)"
proof
  assume "whole_word sy line"
  then obtain u v where l: "line = u @ sy @ v" "u = [] \<or> \<not> is_ident_byte (last u)" "v = [] \<or> \<not> is_ident_byte (hd v)"
    by (auto simp: whole_word_def)
  then have "word_at_offset sy line (length u)"
    by (cases v) (auto simp: word_at_offset_def nth_append last_conv_nth hd_conv_nth)
  then show "\<exists>k. word_at_offset sy line k" ..
next
  assume "\<exists>k. word_at_offset sy line k"
  then obtain k where k: "word_at_offset sy line k" ..
  let ?u = "take k line" and ?v = "drop (k + length sy) line"
  have "line = ?u @ take (length sy) (drop k line) @ ?v"
    by (metis append_take_drop_id drop_drop add.commute)
  then have l: "line = ?u @ sy @ ?v" using k by (simp add: word_at_offset_def)
  moreover have "?u = [] \<or> \<not> is_ident_byte (last ?u)"
  proof (cases "k = 0")
    case False
    then have "?u \<noteq> []" "last ?u = line ! (k - 1)" using k last_take [of k line] by (auto simp: word_at_offset_def)
    with k False show ?thesis by (simp add: word_at_offset_def)
  qed simp
  moreover have "?v = [] \<or> \<not> is_ident_byte (hd ?v)"
    using k by (auto simp: word_at_offset_def hd_drop_conv_nth)
  ultimately show "whole_word sy line" unfolding whole_word_def by blast
qed

lemma find_sub_least:
  "find_sub p s = Some i \<Longrightarrow> take (length p) (drop i s) = p \<and> i + length p \<le> length s \<and>
     (\<forall>j<i. take (length p) (drop j s) \<noteq> p)"
proof (induction s arbitrary: i)
  case Nil
  then show ?case by (auto split: if_splits)
next
  case (Cons c s)
  show ?case
  proof (cases "starts_with (c # s) p")
    case True
    then have "i = 0" using Cons.prems by simp
    moreover obtain t where "c # s = p @ t" using True by (auto simp: starts_with_iff)
    ultimately show ?thesis by (metis append_eq_conv_conj drop0 le_add1 length_append less_nat_zero_code plus_nat.add_0)
  next
    case False
    then obtain k where k: "find_sub p s = Some k" "i = Suc k" using Cons.prems by auto
    have "take (length p) (drop j (c # s)) \<noteq> p" if "j < i" for j
      using that False Cons.IH [OF k(1)] k(2) by (cases j) (auto simp: starts_with_def)
    with Cons.IH [OF k(1)] k(2) show ?thesis by simp
  qed
qed

text \<open>A symbol of identifier characters is found in a line exactly when it stands there as a whole word; the search
  comes to an end.\<close>

theorem symbol_as_word:
  assumes "sy \<noteq> []" "\<forall>c\<in>set sy. is_ident_byte c"
  shows "line_matches_symbol line sy = Some (whole_word sy line)"
proof -
  have "matches_symbol_from line sy i = Some (\<exists>k\<ge>i. word_at_offset sy line k)" if "i \<le> length line" for i
    using that
  proof (induction "length line - i" arbitrary: i rule: less_induct)
    case less
    show ?case
    proof (cases "find_sub sy (drop i line)")
      case None
      have "\<not> word_at_offset sy line k" if "i \<le> k" for k
      proof
        assume w: "word_at_offset sy line k"
        then have "drop i line = take (k - i) (drop i line) @ sy @ drop (k + length sy) line" using that
          by (metis (no_types) add.commute append_take_drop_id drop_drop le_add_diff_inverse2 word_at_offset_def)
        then have "contains (drop i line) sy" unfolding contains_iff by blast
        with None show False by (simp add: find_sub_None)
      qed
      with None show ?thesis by (subst matches_symbol_from.simps) auto
    next
      case (Some pos)
      note f = find_sub_least [OF Some]
      let ?k = "i + pos"
      have at: "take (length sy) (drop ?k line) = sy" "?k + length sy \<le> length line"
        using f less.prems assms(1) by (simp add: add.commute, cases sy) auto
      show ?thesis
      proof (cases "(?k = 0 \<or> \<not> is_ident_byte (line ! (?k - 1))) \<and>
          (length line \<le> ?k + length sy \<or> \<not> is_ident_byte (line ! (?k + length sy)))")
        case True
        then have "word_at_offset sy line ?k" using at by (simp add: word_at_offset_def)
        then have "\<exists>k\<ge>i. word_at_offset sy line k" by (intro exI [of _ ?k]) simp
        with True Some show ?thesis by (subst matches_symbol_from.simps) simp
      next
        case False
        have none: "\<not> word_at_offset sy line k" if k: "i \<le> k" "k < ?k + length sy" for k
        proof
          assume w: "word_at_offset sy line k"
          consider "k < ?k" | "k = ?k" | "?k < k" by linarith
          then show False
          proof cases
            case 1
            then have "k - i < pos" using k(1) by simp
            with f have "take (length sy) (drop (k - i) (drop i line)) \<noteq> sy" by blast
            with w k(1) show False by (simp add: word_at_offset_def)
          next
            case 2
            with w False show False by (simp add: word_at_offset_def)
          next
            case 3
            then have "take (length sy) (drop ?k line) ! (k - 1 - ?k) = line ! (k - 1)" using k(2) at(2) by simp
            then have "line ! (k - 1) = sy ! (k - 1 - ?k)" unfolding at(1) by simp
            moreover have "k - 1 - ?k < length sy" using k(2) 3 by simp
            ultimately have "is_ident_byte (line ! (k - 1))" using assms(2) by simp
            with w 3 show False by (simp add: word_at_offset_def)
          qed
        qed
        have "length line - (?k + length sy) < length line - i" using assms(1) at(2) by (cases sy) simp_all
        moreover have "matches_symbol_from line sy i = matches_symbol_from line sy (?k + length sy)"
          by (subst matches_symbol_from.simps) (simp only: Some option.case if_not_P [OF False])
        ultimately have "matches_symbol_from line sy i = Some (\<exists>k\<ge>?k + length sy. word_at_offset sy line k)"
          using less.hyps [OF _ at(2)] by simp
        moreover have "(\<exists>k\<ge>?k + length sy. word_at_offset sy line k) = (\<exists>k\<ge>i. word_at_offset sy line k)"
          using none by (meson add_leD1 le_trans not_le_imp_less le_add1)
        ultimately show ?thesis by simp
      qed
    qed
  qed
  then show ?thesis by (simp add: line_matches_symbol_def whole_word_iff)
qed

theorem symbol_as_word_witness:
  "line_matches_symbol ''int foo2(struct foo *p)'' ''foo'' = Some True"
proof -
  have "\<forall>c\<in>set ''foo''. is_ident_byte c" by code_simp
  from symbol_as_word [OF _ this, of "''int foo2(struct foo *p)''"]
  have "line_matches_symbol ''int foo2(struct foo *p)'' ''foo'' = Some (whole_word ''foo'' ''int foo2(struct foo *p)'')" by simp
  moreover have "whole_word ''foo'' ''int foo2(struct foo *p)''" unfolding whole_word_def
    by (intro exI [of _ "''int foo2(struct ''"] exI [of _ "'' *p)''"]) code_simp
  ultimately show ?thesis by simp
qed

subsection \<open>The best definition\<close>

lemma first_places_set: "set (first_places seen xs) = set xs - set seen"
  by (induction seen xs rule: first_places.induct) auto

lemma better_fold:
  assumes "fold (\<lambda>p best. better best (c p)) ps b = r"
  shows "(r = b \<or> (\<exists>p\<in>set ps. r = c p)) \<and>
    (\<forall>p\<in>set ps. \<forall>x. c p = Some x \<longrightarrow> (\<exists>y. r = Some y \<and> fst x \<le> fst y)) \<and>
    (\<forall>x. b = Some x \<longrightarrow> (\<exists>y. r = Some y \<and> fst x \<le> fst y))"
  using assms
proof (induction ps arbitrary: b)
  case (Cons p ps)
  let ?b = "better b (c p)"
  have b: "?b = b \<or> ?b = c p" by (auto simp: better_def split: option.split)
  have up: "\<exists>y. ?b = Some y \<and> fst x \<le> fst y" if "b = Some x \<or> c p = Some x" for x
    using that by (cases b; cases "c p") (auto simp: better_def)
  have f: "fold (\<lambda>p best. better best (c p)) ps ?b = r" using Cons.prems by simp
  note i = Cons.IH [OF f]
  have all: "\<exists>y. r = Some y \<and> fst x \<le> fst y" if "b = Some x \<or> c p = Some x" for x
    using up [OF that] i by (meson order_trans)
  show ?case
  proof (intro conjI ballI allI impI)
    show "r = b \<or> (\<exists>q\<in>set (p # ps). r = c q)"
      using conjunct1 [OF i] b by (metis list.set_intros(1) list.set_intros(2))
    show "\<exists>y. r = Some y \<and> fst x \<le> fst y" if "q \<in> set (p # ps)" "c q = Some x" for q x
    proof (cases "q = p")
      case False
      with that i show ?thesis by (metis set_ConsD)
    qed (use all that in blast)
  qed (use all in blast)
qed simp

text \<open>For a symbol the definition with the best score is taken: it is a definition in one of the files that were found, no
  definition in them scores more, and there is none only when no file defines the symbol.\<close>

theorem best_definition:
  "case best_definition_range pf tree dirs sy hits of
     Some (p, a, b) \<Rightarrow> p \<in> set hits \<and> (\<exists>s. scored pf tree dirs sy p = Some (s, p, a, b) \<and>
        list_all (\<lambda>q. case scored pf tree dirs sy q of Some x \<Rightarrow> fst x \<le> s | None \<Rightarrow> True) hits)
   | None \<Rightarrow> list_all (\<lambda>q. scored pf tree dirs sy q = None) hits"
proof -
  define r where "r = fold (\<lambda>p best. better best (scored pf tree dirs sy p)) (first_places [] hits) None"
  have f: "(r = None \<or> (\<exists>p\<in>set hits. r = scored pf tree dirs sy p)) \<and>
      (\<forall>p\<in>set hits. \<forall>x. scored pf tree dirs sy p = Some x \<longrightarrow> (\<exists>y. r = Some y \<and> fst x \<le> fst y))"
    using better_fold [OF r_def [symmetric]] by (simp add: first_places_set)
  have path: "fst (snd x) = q" if "scored pf tree dirs sy q = Some x" for q x
    using that by (auto simp: scored_def split: option.splits bind_splits prod.splits if_splits)
  show ?thesis
  proof (cases r)
    case None
    then have "scored pf tree dirs sy q = None" if "q \<in> set hits" for q using f that by (cases "scored pf tree dirs sy q") auto
    with None show ?thesis by (simp add: best_definition_range_def r_def [symmetric] list_all_iff)
  next
    case (Some x)
    then obtain s p a b where x: "r = Some (s, p, a, b)" by (cases x) auto
    with f obtain q where q: "q \<in> set hits" "scored pf tree dirs sy q = Some (s, p, a, b)" by auto
    with path have "q = p" by fastforce
    moreover have "case scored pf tree dirs sy h of Some y \<Rightarrow> fst y \<le> s | None \<Rightarrow> True" if "h \<in> set hits" for h
      using f that x by (auto split: option.split)
    ultimately show ?thesis using q x by (simp add: best_definition_range_def r_def [symmetric] list_all_iff)
  qed
qed

subsection \<open>What is missed\<close>

text \<open>The directories of no interest are looked for in the whole path, the work tree included: below a directory such as
  \<open>/scripts/\<close> no file is searched.\<close>

theorem noisy_tree_blind:
  assumes "is_noisy_tree (path_string tree @ ''/'')" "take (length tree) p = tree" "length tree < length p"
  shows "\<not> searchable p"
proof -
  have j: "join ''/'' (xs @ y # ys) = (if xs = [] then [] else join ''/'' xs @ ''/'') @ join ''/'' (y # ys)" for xs y ys
    by (induction "''/''" xs rule: join.induct) auto
  obtain y ys where "p = tree @ y # ys"
    using assms(2,3) by (metis append_take_drop_id drop_eq_Nil linorder_not_le neq_Nil_conv)
  then have "\<exists>a b. path_string p = a @ (path_string tree @ ''/'') @ b \<or> tree = []"
    using j [of tree y ys] by (cases tree) (auto simp: path_string_def)
  moreover have "\<not> is_noisy_tree (path_string [] @ ''/'')" by code_simp
  then have "tree \<noteq> []" using assms(1) by auto
  ultimately have "contains (path_string p) (path_string tree @ ''/'')" unfolding contains_iff by blast
  then have "is_noisy_tree (path_string p)" using assms(1) contains_trans unfolding is_noisy_tree_def by blast
  then show ?thesis by (simp add: searchable_def Let_def)
qed

theorem noisy_tree_blind_witness: "\<not> searchable [''home'', ''scripts'', ''tree'', ''include'', ''a.h'']"
proof -
  have n: "is_noisy_tree (path_string [''home'', ''scripts'', ''tree''] @ ''/'')" by code_simp
  show ?thesis by (rule noisy_tree_blind [OF n]) simp_all
qed

text \<open>Of a definition of more than two hundred lines the lines around the middle of the changed range are taken; when the
  range goes far beyond the definition, they are not in it and the block is empty.\<close>

theorem long_definition_missed:
  "let root = Syntax ''translation_unit'' None 0 1000 [] False
         [Syntax ''function_definition'' None 0 300 [] False []];
       rs = overlapping_definitions (\<lambda>_. Some root) [] 290 1000
   in rs = [(545, 300)] \<and> block_of ls 545 300 = None"
  by (simp add: overlapping_definitions_def outside_def target_kinds_def wrapping_add_def block_of_def)

end
