(* ===== verification/Clear_Patchsets.thy ===== *)
theory Clear_Patchsets
  imports Patchsets_Inv
begin

text \<open>
  The tool \<open>my-src/tools/clear_patchsets\<close>: it deletes the patchsets it is given, unless they
  are in review or reviewed, with the rows that belong to them. The argument \<open>fks\<close> tells
  whether the SQL engine checks foreign keys, which the tool leaves to the build of the
  library: a statement that takes away a row another row still names then fails, and the
  transaction is rolled back.
\<close>

datatype clear_error = ForeignKey

datatype clear_note = Deleted int | Refused int string | NoSuchPatchset int

subsection \<open>The engine\<close>

text \<open>\<open>lost\<close>: the keys of a table that a statement removed.\<close>

definition lost :: "('r \<Rightarrow> 'k) \<Rightarrow> 'r list \<Rightarrow> 'r list \<Rightarrow> 'k set" where
  "lost k old new = ids k old - ids k new"

definition orphans :: "('c \<Rightarrow> 'k option) \<Rightarrow> 'c list \<Rightarrow> 'k set \<Rightarrow> bool" where
  "orphans f rows K \<longleftrightarrow> (\<exists>r\<in>set rows. \<exists>k\<in>K. f r = Some k)"

definition broken :: "db \<Rightarrow> db \<Rightarrow> bool" where
  "broken d e \<longleftrightarrow>
     orphans (\<lambda>c. Some (co_finding c)) (triage_comments e) (lost fi_id (findings d) (findings e)) \<or>
     orphans rv_interaction (reviews e) (lost ai_id (interactions d) (interactions e)) \<or>
     orphans (\<lambda>f. Some (fi_review f)) (findings e) (lost rv_id (reviews d) (reviews e)) \<or>
     orphans (\<lambda>t. Some (tu_review t)) (tool_usages e) (lost rv_id (reviews d) (reviews e)) \<or>
     orphans rv_patch (reviews e) (lost pa_id (patches d) (patches e)) \<or>
     orphans (\<lambda>p. Some (fst p)) (patches_subsystems e) (lost pa_id (patches d) (patches e)) \<or>
     orphans (\<lambda>m. Some (eo_patch m)) (outbox e) (lost pa_id (patches d) (patches e)) \<or>
     orphans (\<lambda>p. Some (pa_patchset p)) (patches e) (lost ps_id (patchsets d) (patchsets e)) \<or>
     orphans (\<lambda>r. Some (rv_patchset r)) (reviews e) (lost ps_id (patchsets d) (patchsets e)) \<or>
     orphans (\<lambda>p. Some (fst p)) (patchsets_subsystems e) (lost ps_id (patchsets d) (patchsets e))"

definition execute :: "bool \<Rightarrow> (db \<Rightarrow> db) \<Rightarrow> db \<Rightarrow> clear_error + db" where
  "execute fks s d = (if fks \<and> broken d (s d) then Inl ForeignKey else Inr (s d))"

fun execute_all :: "bool \<Rightarrow> (db \<Rightarrow> db) list \<Rightarrow> db \<Rightarrow> clear_error + db" where
  "execute_all fks [] d = Inr d"
| "execute_all fks (s # ss) d =
     (case execute fks s d of Inl e \<Rightarrow> Inl e | Inr d1 \<Rightarrow> execute_all fks ss d1)"

subsection \<open>The statements\<close>

definition clear_patchset_status :: "int \<Rightarrow> db \<Rightarrow> string option" where
  "clear_patchset_status i d =
     map_option ps_status (first (filter (\<lambda>p. ps_id p = i) (patchsets d)))"

definition patches_in :: "int \<Rightarrow> db \<Rightarrow> int set" where
  "patches_in i d = ids pa_id (filter (\<lambda>p. pa_patchset p = i) (patches d))"

definition reviews_in :: "int \<Rightarrow> db \<Rightarrow> int set" where
  "reviews_in i d = ids rv_id (filter (\<lambda>r. rv_patchset r = i) (reviews d))"

definition interactions_in :: "int \<Rightarrow> db \<Rightarrow> string set" where
  "interactions_in i d =
     set (List.map_filter rv_interaction (filter (\<lambda>r. rv_patchset r = i) (reviews d)))"

definition clear_outbox :: "int \<Rightarrow> db \<Rightarrow> db" where
  "clear_outbox i d = d\<lparr>outbox := delete_where (\<lambda>m. eo_patch m \<in> patches_in i d) (outbox d)\<rparr>"

definition clear_tool_usages :: "int \<Rightarrow> db \<Rightarrow> db" where
  "clear_tool_usages i d =
     d\<lparr>tool_usages := delete_where (\<lambda>t. tu_review t \<in> reviews_in i d) (tool_usages d)\<rparr>"

definition clear_findings :: "int \<Rightarrow> db \<Rightarrow> db" where
  "clear_findings i d =
     d\<lparr>findings := delete_where (\<lambda>f. fi_review f \<in> reviews_in i d) (findings d)\<rparr>"

definition clear_interactions :: "int \<Rightarrow> db \<Rightarrow> db" where
  "clear_interactions i d =
     d\<lparr>interactions := delete_where (\<lambda>a. ai_id a \<in> interactions_in i d) (interactions d)\<rparr>"

definition clear_reviews :: "int \<Rightarrow> db \<Rightarrow> db" where
  "clear_reviews i d = d\<lparr>reviews := delete_where (\<lambda>r. rv_patchset r = i) (reviews d)\<rparr>"

definition clear_patch_subsystems :: "int \<Rightarrow> db \<Rightarrow> db" where
  "clear_patch_subsystems i d =
     d\<lparr>patches_subsystems :=
         delete_where (\<lambda>p. fst p \<in> patches_in i d) (patches_subsystems d)\<rparr>"

definition clear_patches :: "int \<Rightarrow> db \<Rightarrow> db" where
  "clear_patches i d = d\<lparr>patches := delete_where (\<lambda>p. pa_patchset p = i) (patches d)\<rparr>"

definition clear_patchset_subsystems :: "int \<Rightarrow> db \<Rightarrow> db" where
  "clear_patchset_subsystems i d =
     d\<lparr>patchsets_subsystems := delete_where (\<lambda>p. fst p = i) (patchsets_subsystems d)\<rparr>"

definition clear_patchset_row :: "int \<Rightarrow> db \<Rightarrow> db" where
  "clear_patchset_row i d = d\<lparr>patchsets := delete_where (\<lambda>p. ps_id p = i) (patchsets d)\<rparr>"

definition clear_statements :: "int \<Rightarrow> (db \<Rightarrow> db) list" where
  "clear_statements i =
     [clear_outbox i, clear_tool_usages i, clear_findings i, clear_interactions i,
      clear_reviews i, clear_patch_subsystems i, clear_patches i,
      clear_patchset_subsystems i, clear_patchset_row i]"

text \<open>The transaction: an error of a statement leaves it without a commit.\<close>

definition delete_patchset :: "bool \<Rightarrow> int \<Rightarrow> db \<Rightarrow> (clear_error + unit) \<times> db" where
  "delete_patchset fks i d =
     (case execute_all fks (clear_statements i) d of
        Inl e \<Rightarrow> (Inl e, d)
      | Inr d1 \<Rightarrow> (Inr (), d1))"

text \<open>\<open>main\<close>: the ids in order; the first error ends the run.\<close>

fun clear_main :: "bool \<Rightarrow> int list \<Rightarrow> db \<Rightarrow> clear_note list \<times> clear_error option \<times> db" where
  "clear_main fks [] d = ([], None, d)"
| "clear_main fks (i # is) d =
     (case clear_patchset_status i d of
        Some s \<Rightarrow>
          if s = ''In Review'' \<or> s = ''Reviewed'' then
            (let (ns, e, d2) = clear_main fks is d in (Refused i s # ns, e, d2))
          else
            (case delete_patchset fks i d of
               (Inl e, d1) \<Rightarrow> ([], Some e, d1)
             | (Inr _, d1) \<Rightarrow>
                 (let (ns, e, d2) = clear_main fks is d1 in (Deleted i # ns, e, d2)))
      | None \<Rightarrow> (let (ns, e, d2) = clear_main fks is d in (NoSuchPatchset i # ns, e, d2)))"

lemmas clear_defs = clear_outbox_def clear_tool_usages_def clear_findings_def
  clear_interactions_def clear_reviews_def clear_patch_subsystems_def clear_patches_def
  clear_patchset_subsystems_def clear_patchset_row_def

subsection \<open>What a deletion does\<close>

text \<open>The nine statements together, as one change: what they delete is decided by the
  database before the first of them.\<close>

definition without_patchset :: "int \<Rightarrow> db \<Rightarrow> db" where
  "without_patchset i d =
     d\<lparr>outbox := delete_where (\<lambda>m. eo_patch m \<in> patches_in i d) (outbox d),
       tool_usages := delete_where (\<lambda>t. tu_review t \<in> reviews_in i d) (tool_usages d),
       findings := delete_where (\<lambda>f. fi_review f \<in> reviews_in i d) (findings d),
       interactions := delete_where (\<lambda>a. ai_id a \<in> interactions_in i d) (interactions d),
       reviews := delete_where (\<lambda>r. rv_patchset r = i) (reviews d),
       patches_subsystems := delete_where (\<lambda>p. fst p \<in> patches_in i d) (patches_subsystems d),
       patches := delete_where (\<lambda>p. pa_patchset p = i) (patches d),
       patchsets_subsystems := delete_where (\<lambda>p. fst p = i) (patchsets_subsystems d),
       patchsets := delete_where (\<lambda>p. ps_id p = i) (patchsets d)\<rparr>"

lemma execute_all_ok:
  "execute_all fks ss d = Inr e \<Longrightarrow> e = fold (\<lambda>s. s) ss d"
  by (induction ss arbitrary: d) (auto simp: execute_def split: sum.splits if_splits)

lemma execute_all_unchecked: "execute_all False ss d = Inr (fold (\<lambda>s. s) ss d)"
  by (induction ss arbitrary: d) (auto simp: execute_def)

lemma fold_statements: "fold (\<lambda>s. s) (clear_statements i) d = without_patchset i d"
  by (simp add: clear_statements_def clear_defs without_patchset_def patches_in_def
      reviews_in_def interactions_in_def)

lemma delete_patchset_cases:
  "delete_patchset fks i d = (Inl ForeignKey, d) \<and> fks \<or>
   delete_patchset fks i d = (Inr (), without_patchset i d)"
proof (cases "execute_all fks (clear_statements i) d")
  case (Inl e)
  moreover have fks
  proof (rule ccontr)
    assume "\<not> fks"
    with Inl show False by (simp add: execute_all_unchecked)
  qed
  ultimately show ?thesis
    by (cases e) (simp add: delete_patchset_def)
next
  case (Inr e)
  have "e = without_patchset i d"
    using execute_all_ok [OF Inr] by (simp add: fold_statements)
  with Inr show ?thesis
    by (simp add: delete_patchset_def)
qed

lemma delete_unchecked: "delete_patchset False i d = (Inr (), without_patchset i d)"
  using delete_patchset_cases [of False i d] by simp

lemma without_fields [simp]:
  "outbox (without_patchset i d) = delete_where (\<lambda>m. eo_patch m \<in> patches_in i d) (outbox d)"
  "tool_usages (without_patchset i d) =
     delete_where (\<lambda>t. tu_review t \<in> reviews_in i d) (tool_usages d)"
  "findings (without_patchset i d) =
     delete_where (\<lambda>f. fi_review f \<in> reviews_in i d) (findings d)"
  "interactions (without_patchset i d) =
     delete_where (\<lambda>a. ai_id a \<in> interactions_in i d) (interactions d)"
  "reviews (without_patchset i d) = delete_where (\<lambda>r. rv_patchset r = i) (reviews d)"
  "patches_subsystems (without_patchset i d) =
     delete_where (\<lambda>p. fst p \<in> patches_in i d) (patches_subsystems d)"
  "patches (without_patchset i d) = delete_where (\<lambda>p. pa_patchset p = i) (patches d)"
  "patchsets_subsystems (without_patchset i d) =
     delete_where (\<lambda>p. fst p = i) (patchsets_subsystems d)"
  "patchsets (without_patchset i d) = delete_where (\<lambda>p. ps_id p = i) (patchsets d)"
  "triage_comments (without_patchset i d) = triage_comments d"
  "threads (without_patchset i d) = threads d"
  "messages (without_patchset i d) = messages d"
  by (simp_all add: without_patchset_def)

lemma filter_delete: "filter P (delete_where Q rows) = filter (\<lambda>r. P r \<and> \<not> Q r) rows"
  by (induction rows) (simp_all add: delete_where_def)

lemma filter_key_delete:
  "filter (\<lambda>r. k r = i) (delete_where (\<lambda>r. k r = j) rows) =
     (if i = j then [] else filter (\<lambda>r. k r = i) rows)"
  by (induction rows) (auto simp: delete_where_def)

lemma status_gone:
  "clear_patchset_status i (without_patchset j d) =
     (if i = j then None else clear_patchset_status i d)"
  by (simp add: clear_patchset_status_def filter_key_delete)

lemma status_known: "clear_patchset_status i d = Some s \<Longrightarrow> i \<in> ids ps_id (patchsets d)"
proof -
  assume "clear_patchset_status i d = Some s"
  then obtain p where p: "first (filter (\<lambda>p. ps_id p = i) (patchsets d)) = Some p"
    unfolding clear_patchset_status_def by fast
  then show ?thesis
    using first_filter_Some [OF p] by (metis ids_memI)
qed

lemma delete_twice: "delete_where P (delete_where Q rows) = delete_where (\<lambda>r. P r \<or> Q r) rows"
  by (induction rows) (simp_all add: delete_where_def)

lemma delete_cong:
  "(\<And>r. r \<in> set rows \<Longrightarrow> P r = Q r) \<Longrightarrow> delete_where P rows = delete_where Q rows"
  by (induction rows) (simp_all add: delete_where_def)

lemma delete_none: "(\<And>r. r \<in> set rows \<Longrightarrow> \<not> P r) \<Longrightarrow> delete_where P rows = rows"
  by (simp add: delete_where_def filter_id_conv)

subsection \<open>A whole run\<close>

text \<open>\<open>cleared gone d e\<close>: \<open>e\<close> is \<open>d\<close> without the patchsets \<open>gone\<close> and the rows that hang on
  them. Messages, threads and people stay.\<close>

definition cleared :: "int set \<Rightarrow> db \<Rightarrow> db \<Rightarrow> bool" where
  "cleared gone d e \<longleftrightarrow>
     patchsets e = delete_where (\<lambda>p. ps_id p \<in> gone) (patchsets d) \<and>
     patches e = delete_where (\<lambda>p. pa_patchset p \<in> gone) (patches d) \<and>
     reviews e = delete_where (\<lambda>r. rv_patchset r \<in> gone) (reviews d) \<and>
     findings e = delete_where (\<lambda>f. fi_review f \<in> \<Union> ((\<lambda>i. reviews_in i d) ` gone)) (findings d) \<and>
     tool_usages e =
       delete_where (\<lambda>t. tu_review t \<in> \<Union> ((\<lambda>i. reviews_in i d) ` gone)) (tool_usages d) \<and>
     outbox e = delete_where (\<lambda>m. eo_patch m \<in> \<Union> ((\<lambda>i. patches_in i d) ` gone)) (outbox d) \<and>
     messages e = messages d \<and> threads e = threads d \<and> people e = people d \<and>
     recipients e = recipients d \<and> messages_lists e = messages_lists d"

lemma cleared_none: "cleared {} d d"
  by (simp add: cleared_def delete_where_def)

lemma in_without:
  "reviews_in j (without_patchset i d) = (if j = i then {} else reviews_in j d)"
  "patches_in j (without_patchset i d) = (if j = i then {} else patches_in j d)"
  by (simp_all add: reviews_in_def patches_in_def filter_key_delete)

lemma cleared_insert:
  assumes "cleared gone (without_patchset i d) e" "i \<notin> gone"
  shows "cleared (insert i gone) d e"
proof -
  have "\<Union> ((\<lambda>j. reviews_in j (without_patchset i d)) ` gone) = \<Union> ((\<lambda>j. reviews_in j d) ` gone)"
    "\<Union> ((\<lambda>j. patches_in j (without_patchset i d)) ` gone) = \<Union> ((\<lambda>j. patches_in j d) ` gone)"
    using assms(2) by (auto simp: in_without)
  moreover have "people (without_patchset i d) = people d"
    "recipients (without_patchset i d) = recipients d"
    "messages_lists (without_patchset i d) = messages_lists d"
    by (simp_all add: without_patchset_def)
  ultimately show ?thesis
    using assms(1) unfolding cleared_def without_fields delete_twice
    by (auto intro!: delete_cong)
qed

definition note_id :: "clear_note \<Rightarrow> int" where
  "note_id n = (case n of Deleted i \<Rightarrow> i | Refused i _ \<Rightarrow> i | NoSuchPatchset i \<Rightarrow> i)"

definition deleted :: "clear_note list \<Rightarrow> int set" where
  "deleted ns = {i. Deleted i \<in> set ns}"

lemma deleted_simps [simp]:
  "deleted [] = {}" "deleted (Deleted i # ns) = insert i (deleted ns)"
  "deleted (Refused i s # ns) = deleted ns" "deleted (NoSuchPatchset i # ns) = deleted ns"
  by (auto simp: deleted_def)

definition kept_status :: "string \<Rightarrow> bool" where
  "kept_status s \<longleftrightarrow> s = ''In Review'' \<or> s = ''Reviewed''"

definition may_clear :: "int \<Rightarrow> db \<Rightarrow> bool" where
  "may_clear i d \<longleftrightarrow> (\<exists>s. clear_patchset_status i d = Some s \<and> \<not> kept_status s)"

lemma main_step:
  assumes "clear_main fks is d1 = (ns, e, d2)"
  shows "clear_patchset_status i d = None \<Longrightarrow> d1 = d \<Longrightarrow>
      clear_main fks (i # is) d = (NoSuchPatchset i # ns, e, d2)"
    and "clear_patchset_status i d = Some s \<Longrightarrow> kept_status s \<Longrightarrow> d1 = d \<Longrightarrow>
      clear_main fks (i # is) d = (Refused i s # ns, e, d2)"
    and "clear_patchset_status i d = Some s \<Longrightarrow> \<not> kept_status s \<Longrightarrow>
      delete_patchset fks i d = (Inr (), d1) \<Longrightarrow>
      clear_main fks (i # is) d = (Deleted i # ns, e, d2)"
  using assms by (simp_all add: kept_status_def)

lemma main_cases [consumes 1, case_names missing refused failed removed]:
  assumes "clear_main fks (i # is) d = (ns, e, d2)"
  obtains ns1 where "clear_patchset_status i d = None" "clear_main fks is d = (ns1, e, d2)"
      "ns = NoSuchPatchset i # ns1"
    | s ns1 where "clear_patchset_status i d = Some s" "kept_status s"
      "clear_main fks is d = (ns1, e, d2)" "ns = Refused i s # ns1"
    | "may_clear i d" "fks" "ns = []" "e = Some ForeignKey" "d2 = d"
      "delete_patchset fks i d = (Inl ForeignKey, d)"
    | ns1 where "may_clear i d" "clear_main fks is (without_patchset i d) = (ns1, e, d2)"
      "ns = Deleted i # ns1" "delete_patchset fks i d = (Inr (), without_patchset i d)"
proof (cases "clear_patchset_status i d")
  case None
  obtain ns1 e1 d1 where m: "clear_main fks is d = (ns1, e1, d1)"
    by (cases "clear_main fks is d")
  from main_step(1) [OF m None] assms None m that(1) show thesis
    by simp
next
  case (Some s)
  show thesis
  proof (cases "kept_status s")
    case True
    obtain ns1 e1 d1 where m: "clear_main fks is d = (ns1, e1, d1)"
      by (cases "clear_main fks is d")
    from main_step(2) [OF m Some True] assms Some True m that(2) show thesis
      by simp
  next
    case False
    with Some have c: "may_clear i d" by (simp add: may_clear_def)
    consider "delete_patchset fks i d = (Inl ForeignKey, d)" fks
      | "delete_patchset fks i d = (Inr (), without_patchset i d)"
      using delete_patchset_cases by blast
    then show thesis
    proof cases
      case 1
      with assms Some False have "ns = []" "e = Some ForeignKey" "d2 = d"
        by (auto simp: kept_status_def)
      with 1 c that(3) show thesis by simp
    next
      case 2
      obtain ns1 e1 d1 where m: "clear_main fks is (without_patchset i d) = (ns1, e1, d1)"
        by (cases "clear_main fks is (without_patchset i d)")
      from main_step(3) [OF m Some False 2] assms c m 2 that(4) show thesis
        by simp
    qed
  qed
qed

lemma deleted_may:
  "clear_main fks is d = (ns, e, d2) \<Longrightarrow> i \<in> deleted ns \<Longrightarrow> i \<in> set is \<and> may_clear i d"
proof (induction "is" arbitrary: d ns)
  case (Cons j js)
  from Cons.prems(1) show ?case
  proof (cases rule: main_cases)
    case (removed ns1)
    show ?thesis
    proof (cases "i = j")
      case False
      with removed Cons.prems(2) have "i \<in> deleted ns1" by simp
      with Cons.IH [OF removed(2)] False show ?thesis
        by (simp add: may_clear_def status_gone)
    qed (use removed in simp)
  qed (use Cons in auto)
qed simp

lemma main_cleared: "clear_main fks is d = (ns, e, d2) \<Longrightarrow> cleared (deleted ns) d d2"
proof (induction "is" arbitrary: d ns)
  case (Cons j js)
  from Cons.prems(1) show ?case
  proof (cases rule: main_cases)
    case (removed ns1)
    have "j \<notin> deleted ns1"
    proof
      assume "j \<in> deleted ns1"
      from deleted_may [OF removed(2) this] show False
        by (simp add: may_clear_def status_gone)
    qed
    from cleared_insert [OF Cons.IH [OF removed(2)] this] removed show ?thesis
      by simp
  qed (use Cons.IH in \<open>auto simp: cleared_none\<close>)
qed (simp add: cleared_none)

lemma main_answers:
  "clear_main fks is d = (ns, e, d2) \<Longrightarrow>
     List.map note_id ns = take (length ns) is \<and>
     (e = None \<longrightarrow> length ns = length is) \<and> (e \<noteq> None \<longrightarrow> fks \<and> length ns < length is)"
proof (induction "is" arbitrary: d ns)
  case (Cons j js)
  from Cons.prems(1) show ?case
    by (cases rule: main_cases) (use Cons.IH in \<open>auto simp: note_id_def\<close>)
qed simp

text \<open>C23. A run answers the ids in order, one answer each, and stops early only at an error of
  the engine. The patchsets it reports as deleted were asked for and were neither in review
  nor reviewed; exactly those and the patches, reviews, findings, tool calls and e-mails that
  hang on them are gone, and messages, threads and people stay.\<close>

theorem clear_run:
  "case clear_main fks is d of (ns, e, d2) \<Rightarrow>
     List.map note_id ns = take (length ns) is \<and> ((e = None) = (length ns = length is)) \<and>
     deleted ns \<subseteq> {i \<in> set is. may_clear i d} \<and> cleared (deleted ns) d d2"
proof -
  obtain ns e d2 where m: "clear_main fks is d = (ns, e, d2)"
    by (cases "clear_main fks is d")
  have "(e = None) = (length ns = length is)"
    using main_answers [OF m] by (cases e) auto
  moreover have "deleted ns \<subseteq> {i \<in> set is. may_clear i d}"
    using deleted_may [OF m] by blast
  ultimately show ?thesis
    using m main_answers [OF m] main_cleared [OF m] by simp
qed

subsection \<open>The store stays consistent\<close>

text \<open>\<open>shrinks d e\<close>: \<open>e\<close> has fewer rows in the tables the tool deletes from.\<close>

definition shrinks :: "db \<Rightarrow> db \<Rightarrow> bool" where
  "shrinks d e \<longleftrightarrow>
     set (outbox e) \<subseteq> set (outbox d) \<and> set (tool_usages e) \<subseteq> set (tool_usages d) \<and>
     set (findings e) \<subseteq> set (findings d) \<and> set (interactions e) \<subseteq> set (interactions d) \<and>
     set (reviews e) \<subseteq> set (reviews d) \<and>
     set (patches_subsystems e) \<subseteq> set (patches_subsystems d) \<and>
     set (patches e) \<subseteq> set (patches d) \<and>
     set (patchsets_subsystems e) \<subseteq> set (patchsets_subsystems d) \<and>
     set (patchsets e) \<subseteq> set (patchsets d) \<and>
     e = d\<lparr>outbox := outbox e, tool_usages := tool_usages e, findings := findings e,
           interactions := interactions e, reviews := reviews e,
           patches_subsystems := patches_subsystems e, patches := patches e,
           patchsets_subsystems := patchsets_subsystems e, patchsets := patchsets e\<rparr>"

lemma statements_shrink: "s \<in> set (clear_statements i) \<Longrightarrow> shrinks d (s d)"
  by (auto simp: clear_statements_def clear_defs shrinks_def)

lemma without_shrinks: "shrinks d (without_patchset i d)"
  by (auto simp: shrinks_def without_patchset_def)

lemma fk_subset: "fk f rows K \<Longrightarrow> set rows' \<subseteq> set rows \<Longrightarrow> fk f rows' K"
  "fk_opt g rows L \<Longrightarrow> set rows' \<subseteq> set rows \<Longrightarrow> fk_opt g rows' L"
  by (auto simp: fk_def fk_opt_def)

lemma fk_kept:
  "fk f rows (ids k old) \<Longrightarrow> set rows' \<subseteq> set rows \<Longrightarrow>
     \<not> orphans (\<lambda>r. Some (f r)) rows' (lost k old new) \<Longrightarrow> fk f rows' (ids k new)"
  by (auto simp: fk_def orphans_def lost_def)

lemma fk_opt_kept:
  "fk_opt f rows (ids k old) \<Longrightarrow> set rows' \<subseteq> set rows \<Longrightarrow>
     \<not> orphans f rows' (lost k old new) \<Longrightarrow> fk_opt f rows' (ids k new)"
  by (fastforce simp: fk_opt_def orphans_def lost_def)

lemma refs_kept:
  assumes refs: "refs_inv d" and shr: "shrinks d e" and ok: "\<not> broken d e"
  shows "refs_inv e"
proof -
  have shape: "e = d\<lparr>outbox := outbox e, tool_usages := tool_usages e, findings := findings e,
           interactions := interactions e, reviews := reviews e,
           patches_subsystems := patches_subsystems e, patches := patches e,
           patchsets_subsystems := patchsets_subsystems e, patchsets := patchsets e\<rparr>"
    using shr by (simp add: shrinks_def)
  have same: "threads e = threads d" "messages e = messages d" "baselines e = baselines d"
    "subsystems e = subsystems d" "triage_comments e = triage_comments d"
    "messages_subsystems e = messages_subsystems d" "threads_subsystems e = threads_subsystems d"
    "recipients e = recipients d" "people e = people d" "messages_lists e = messages_lists d"
    "mailing_lists e = mailing_lists d"
    by (subst shape, simp)+
  note sub = shr [unfolded shrinks_def]
  note old = refs [unfolded refs_inv_def]
  note no = ok [unfolded broken_def]
  have a: "fk ps_thread (patchsets e) (ids th_id (threads d))"
    "fk_opt ps_cover (patchsets e) (ids me_message_id (messages d))"
    "fk_opt ps_baseline (patchsets e) (ids bl_id (baselines d))"
    "fk pa_message_id (patches e) (ids me_message_id (messages d))"
    "fk_opt rv_baseline (reviews e) (ids bl_id (baselines d))"
    "fk snd (patches_subsystems e) (ids su_id (subsystems d))"
    "fk snd (patchsets_subsystems e) (ids su_id (subsystems d))"
    using old sub fk_subset by metis+
  have b: "fk pa_patchset (patches e) (ids ps_id (patchsets e))"
    "fk rv_patchset (reviews e) (ids ps_id (patchsets e))"
    "fk fi_review (findings e) (ids rv_id (reviews e))"
    "fk co_finding (triage_comments d) (ids fi_id (findings e))"
    "fk fst (patches_subsystems e) (ids pa_id (patches e))"
    "fk fst (patchsets_subsystems e) (ids ps_id (patchsets e))"
    "fk tu_review (tool_usages e) (ids rv_id (reviews e))"
    "fk eo_patch (outbox e) (ids pa_id (patches e))"
    using old sub no same fk_kept by (metis order_refl)+
  have c: "fk_opt rv_patch (reviews e) (ids pa_id (patches e))"
    "fk_opt rv_interaction (reviews e) (ids ai_id (interactions e))"
    using old sub no fk_opt_kept by metis+
  from a b c old show ?thesis
    unfolding refs_inv_def same by blast
qed

lemma keys_without: "keys_inv d \<Longrightarrow> keys_inv (without_patchset i d)"
  unfolding keys_inv_def without_patchset_def
  by (simp add: keys_ok_delete unique_on_delete) (simp add: delete_where_def)

lemma parts_without:
  assumes "parts_inv d"
  shows "parts_inv (without_patchset i d)"
proof -
  have "parts_of j (delete_where (\<lambda>p. pa_patchset p = i) (patches d)) = parts_of j (patches d)"
    if "j \<noteq> i" for j
    using that by (simp add: parts_of_def count_where_def filter_key_delete)
  with assms show ?thesis
    by (auto simp: parts_inv_def)
qed

lemma checked_refs:
  "execute_all True ss d = Inr e \<Longrightarrow> (\<And>s d. s \<in> set ss \<Longrightarrow> shrinks d (s d)) \<Longrightarrow>
     refs_inv d \<Longrightarrow> refs_inv e"
proof (induction ss arbitrary: d)
  case (Cons s ss)
  from Cons.prems(1) have "\<not> broken d (s d)" "execute_all True ss (s d) = Inr e"
    by (auto simp: execute_def split: if_splits)
  with Cons show ?case
    by (meson list.set_intros refs_kept)
qed simp

text \<open>What the tool takes for granted when nobody checks: no finding that goes has a comment,
  and no review of another patchset names an interaction or a patch that goes.\<close>

definition separate :: "int \<Rightarrow> db \<Rightarrow> bool" where
  "separate i d \<longleftrightarrow>
     (\<forall>c\<in>set (triage_comments d). \<forall>f\<in>set (findings d).
        fi_review f \<in> reviews_in i d \<longrightarrow> co_finding c \<noteq> fi_id f) \<and>
     (\<forall>r\<in>set (reviews d). rv_patchset r \<noteq> i \<longrightarrow>
        (\<forall>k\<in>interactions_in i d. rv_interaction r \<noteq> Some k) \<and>
        (\<forall>k\<in>patches_in i d. rv_patch r \<noteq> Some k))"

lemma separate_sound:
  assumes "separate i d"
  shows "\<not> broken d (without_patchset i d)"
proof -
  have l: "lost rv_id (reviews d) (reviews (without_patchset i d)) \<subseteq> reviews_in i d"
    "lost pa_id (patches d) (patches (without_patchset i d)) \<subseteq> patches_in i d"
    "lost ps_id (patchsets d) (patchsets (without_patchset i d)) \<subseteq> {i}"
    "lost ai_id (interactions d) (interactions (without_patchset i d)) \<subseteq> interactions_in i d"
    "lost fi_id (findings d) (findings (without_patchset i d)) \<subseteq>
       fi_id ` {f \<in> set (findings d). fi_review f \<in> reviews_in i d}"
    by (auto simp: lost_def ids_def reviews_in_def patches_in_def)
  have c: "\<not> orphans (\<lambda>c. Some (co_finding c)) (triage_comments d)
      (lost fi_id (findings d) (findings (without_patchset i d)))"
    using assms l(5) by (fastforce simp: orphans_def separate_def)
  show ?thesis
    unfolding broken_def without_fields(10)
    apply (simp only: de_Morgan_disj)
    apply (intro conjI c)
    using assms l by (auto simp: orphans_def separate_def)
qed

lemma separate_without: "separate j d \<Longrightarrow> separate j (without_patchset i d)"
proof -
  assume s: "separate j d"
  have "interactions_in j (without_patchset i d) \<subseteq> interactions_in j d"
    by (auto simp: interactions_in_def filter_key_delete List.map_filter_simps)
  with s show ?thesis
    by (auto simp: separate_def in_without split: if_splits)
qed

lemma delete_keeps_store:
  assumes inv: "store_inv d" and ok: "fks \<or> separate i d"
    and del: "delete_patchset fks i d = (Inr (), without_patchset i d)"
  shows "store_inv (without_patchset i d)"
proof -
  have "refs_inv (without_patchset i d)"
  proof (cases "separate i d")
    case True
    with inv show ?thesis
      using refs_kept [OF _ without_shrinks] separate_sound by (auto simp: store_inv_def)
  next
    case False
    with ok del have "execute_all True (clear_statements i) d = Inr (without_patchset i d)"
      by (auto simp: delete_patchset_def split: sum.splits)
    from checked_refs [OF this] inv show ?thesis
      using statements_shrink by (simp add: store_inv_def)
  qed
  with inv show ?thesis
    by (simp add: store_inv_def keys_without parts_without)
qed

text \<open>C24. A run keeps the store consistent, at any end: always when the engine checks foreign
  keys, and otherwise when the patchsets asked for have no commented finding and share no
  interaction and no patch with the reviews of other patchsets.\<close>

theorem clear_consistent:
  assumes "store_inv d" "fks \<or> (\<forall>i\<in>set is. separate i d)"
    and "clear_main fks is d = (ns, e, d2)"
  shows "store_inv d2"
  using assms
proof (induction "is" arbitrary: d ns)
  case (Cons i "is")
  from Cons.prems(3) show ?case
  proof (cases rule: main_cases)
    case (removed ns1)
    from Cons.prems removed(4) have "store_inv (without_patchset i d)"
      using delete_keeps_store by auto
    moreover have "fks \<or> (\<forall>j\<in>set is. separate j (without_patchset i d))"
      using Cons.prems(2) separate_without by auto
    ultimately show ?thesis
      using Cons.IH removed(2) by blast
  qed (use Cons in auto)
qed simp

subsection \<open>What goes wrong\<close>

text \<open>The store of the witnesses: a failed patchset with a patch and a review, next to a
  reviewed one.\<close>

definition example_patchset :: "int \<Rightarrow> string \<Rightarrow> patchset_row" where
  "example_patchset i s =
     \<lparr>ps_id = i, ps_thread = 1, ps_cover = None, ps_subject = ''s'', ps_author = None, ps_date = 0,
      ps_status = s, ps_total = None, ps_received = Some 0, ps_subject_index = 0,
      ps_parser_version = 1, ps_to = None, ps_cc = None, ps_baseline = None, ps_model = None,
      ps_prompts = None, ps_baseline_logs = None, ps_failed_reason = None, ps_skip = None,
      ps_only = None, ps_target_reviews = None, ps_provider = None, ps_embargo = None\<rparr>"

definition example_review :: "int \<Rightarrow> int \<Rightarrow> string \<Rightarrow> review_row" where
  "example_review i p k =
     \<lparr>rv_id = i, rv_patchset = p, rv_patch = None, rv_summary = None, rv_result = None,
      rv_created = 0, rv_started = None, rv_completed = None, rv_interaction = Some k,
      rv_status = ''Failed'', rv_logs = None, rv_inline = None, rv_baseline = None,
      rv_model = ''m'', rv_prompts = None, rv_provider = ''p''\<rparr>"

definition example_store :: db where
  "example_store = empty_db
     \<lparr>threads := [\<lparr>th_id = 1, th_root = ''r'', th_subject = ''s'', th_updated = 0\<rparr>],
      patchsets := [example_patchset 1 ''Failed'', example_patchset 2 ''Reviewed''],
      reviews := [example_review 1 1 ''k'', example_review 2 2 ''l''],
      interactions :=
        [\<lparr>ai_id = ''k'', ai_parent = None, ai_workflow = None, ai_provider = ''p'',
          ai_model = ''m'', ai_input = ''i'', ai_output = ''o'', ai_tokens_in = 0,
          ai_tokens_out = 0, ai_tokens_cached = 0, ai_created = 0\<rparr>,
         \<lparr>ai_id = ''l'', ai_parent = None, ai_workflow = None, ai_provider = ''p'',
          ai_model = ''m'', ai_input = ''i'', ai_output = ''o'', ai_tokens_in = 0,
          ai_tokens_out = 0, ai_tokens_cached = 0, ai_created = 0\<rparr>]\<rparr>"

lemma example_store_inv: "store_inv example_store"
  by (simp add: example_store_def store_inv_def keys_inv_def refs_inv_def parts_inv_def empty_db_def
      keys_ok_def unique_on_def fk_def fk_opt_def ids_def example_review_def example_patchset_def
      received_count_def parts_of_def count_where_def)

lemma example_separate: "separate 1 example_store \<and> separate 2 example_store \<and> separate 3 example_store"
  by (simp add: example_store_def separate_def empty_db_def reviews_in_def interactions_in_def
      patches_in_def example_review_def example_patchset_def List.map_filter_simps ids_def)

lemma example_status:
  "clear_patchset_status 1 example_store = Some ''Failed''"
  "clear_patchset_status 2 example_store = Some ''Reviewed''"
  "clear_patchset_status 3 example_store = None"
  by (simp_all add: example_store_def clear_patchset_status_def example_patchset_def)

lemma example_run:
  "\<exists>d2. clear_main False [1, 2, 3] example_store = ([Deleted 1, Refused 2 ''Reviewed'', NoSuchPatchset 3], None, d2)"
  by (simp add: delete_unchecked status_gone example_status)

theorem clear_consistent_witness:
  "\<exists>d2. clear_main False [1, 2, 3] example_store =
     ([Deleted 1, Refused 2 ''Reviewed'', NoSuchPatchset 3], None, d2) \<and> store_inv d2"
proof -
  obtain d2 where m: "clear_main False [1, 2, 3] example_store =
     ([Deleted 1, Refused 2 ''Reviewed'', NoSuchPatchset 3], None, d2)"
    using example_run by blast
  have "\<forall>i\<in>set [1, 2, 3]. separate i example_store"
    using example_separate by simp
  with clear_consistent [OF example_store_inv _ m] m show ?thesis
    by blast
qed

lemma execute_all_Cons:
  "execute_all fks (s # ss) d = Inr e \<Longrightarrow>
     \<not> (fks \<and> broken d (s d)) \<and> execute_all fks ss (s d) = Inr e"
  by (auto simp: execute_def split: if_splits)

text \<open>The statement that deletes the interactions comes before the one that deletes the
  reviews that name them: with foreign keys checked, a patchset with a review that talked to
  the AI cannot be deleted, and the run ends there.\<close>

theorem interaction_blocks:
  assumes r: "r \<in> set (reviews d)" "rv_patchset r = i" "rv_interaction r = Some k"
    and k: "k \<in> ids ai_id (interactions d)" and c: "may_clear i d"
  shows "clear_main True (i # is) d = ([], Some ForeignKey, d)"
proof -
  have del: "delete_patchset True i d = (Inl ForeignKey, d)"
  proof (rule ccontr)
    assume "\<not> ?thesis"
    then obtain e where "execute_all True (clear_statements i) d = Inr e"
      by (cases "execute_all True (clear_statements i) d")
        (use delete_patchset_cases [of True i d] in \<open>auto simp: delete_patchset_def\<close>)
    from execute_all_Cons [OF this [unfolded clear_statements_def]]
    have "execute_all True
        [clear_tool_usages i, clear_findings i, clear_interactions i, clear_reviews i,
         clear_patch_subsystems i, clear_patches i, clear_patchset_subsystems i,
         clear_patchset_row i] (clear_outbox i d) = Inr e" by simp
    from execute_all_Cons [OF conjunct2 [OF execute_all_Cons [OF conjunct2 [OF execute_all_Cons [OF this]]]]]
    have no: "\<not> broken (clear_findings i (clear_tool_usages i (clear_outbox i d)))
        (clear_interactions i (clear_findings i (clear_tool_usages i (clear_outbox i d))))"
      by simp
    have "k \<in> interactions_in i d"
      using r by (force simp: interactions_in_def set_map_filter)
    then have "k \<in> lost ai_id (interactions d)
        (delete_where (\<lambda>a. ai_id a \<in> interactions_in i d) (interactions d))"
      using k by (auto simp: lost_def ids_def)
    then have "orphans rv_interaction (reviews d) (lost ai_id (interactions d)
        (delete_where (\<lambda>a. ai_id a \<in> interactions_in i d) (interactions d)))"
      using r unfolding orphans_def by blast
    with no show False
      by (simp add: broken_def clear_findings_def clear_tool_usages_def clear_outbox_def
          clear_interactions_def interactions_in_def)
  qed
  from c obtain s where "clear_patchset_status i d = Some s" "\<not> kept_status s"
    by (auto simp: may_clear_def)
  with del show ?thesis
    by (simp add: kept_status_def)
qed

theorem interaction_blocks_witness:
  "clear_main True [1, 2] example_store = ([], Some ForeignKey, example_store)"
  by (rule interaction_blocks [where r = "example_review 1 1 ''k''" and k = "''k''"])
    (simp_all add: example_store_def empty_db_def example_review_def ids_def may_clear_def
      clear_patchset_status_def example_patchset_def kept_status_def)

text \<open>The comments of a finding are not among what is deleted: with foreign keys unchecked they
  stay and name a finding that is gone, whose id the next finding may get.\<close>

theorem comment_outlives_finding:
  assumes "keys_inv d" "c \<in> set (triage_comments d)" "f \<in> set (findings d)" "co_finding c = fi_id f"
    "r \<in> set (reviews d)" "rv_id r = fi_review f" "may_clear (rv_patchset r) d"
    and "clear_main False [rv_patchset r] d = (ns, e, d2)"
  shows "e = None \<and> c \<in> set (triage_comments d2) \<and> co_finding c \<notin> ids fi_id (findings d2) \<and> \<not> refs_inv d2"
proof -
  from assms(7) obtain s where "clear_patchset_status (rv_patchset r) d = Some s" "\<not> kept_status s"
    by (auto simp: may_clear_def)
  with assms(8) have d2: "e = None" "d2 = without_patchset (rv_patchset r) d"
    by (auto simp: kept_status_def delete_unchecked)
  have rf: "fi_review f \<in> reviews_in (rv_patchset r) d"
    using assms(5,6) by (force simp: reviews_in_def ids_def)
  have "f' = f" if "f' \<in> set (findings d)" "fi_id f' = fi_id f" for f'
    using that assms(1,3) keys_ok_eq [of fi_id "findings d" f' f] by (simp add: keys_inv_def)
  then have gone: "co_finding c \<notin> ids fi_id (findings d2)"
    using rf assms(4) by (auto simp: d2(2) ids_def)
  moreover have stay: "c \<in> set (triage_comments d2)"
    using assms(2) by (simp add: d2(2))
  moreover have "\<not> refs_inv d2"
    using gone stay fkD [of co_finding "triage_comments d2"] by (auto simp: refs_inv_def)
  ultimately show ?thesis
    using d2(1) by blast
qed

definition commented_store :: db where
  "commented_store = example_store
     \<lparr>findings :=
        [\<lparr>fi_id = 7, fi_review = 1, fi_severity = 2, fi_explanation = None, fi_problem = ''p'',
          fi_suggestion = None, fi_preexisting = None, fi_locations = None,
          fi_triage_status = None, fi_triage_comment = None, fi_triage_updated = None\<rparr>],
      triage_comments :=
        [\<lparr>co_id = 1, co_finding = 7, co_status = ''pending'', co_comment = ''c'', co_created = 0\<rparr>]\<rparr>"

lemma commented_store_inv: "store_inv commented_store"
  by (simp add: commented_store_def example_store_def store_inv_def keys_inv_def refs_inv_def
      parts_inv_def empty_db_def keys_ok_def unique_on_def fk_def fk_opt_def ids_def
      example_review_def example_patchset_def received_count_def parts_of_def count_where_def)

theorem comment_outlives_finding_witness:
  "store_inv commented_store \<and>
   (\<exists>ns d2. clear_main False [1] commented_store = (ns, None, d2) \<and> \<not> refs_inv d2)"
proof -
  obtain ns e d2 where m: "clear_main False [1] commented_store = (ns, e, d2)"
    by (cases "clear_main False [1] commented_store")
  have "e = None \<and> hd (triage_comments commented_store) \<in> set (triage_comments d2) \<and>
      co_finding (hd (triage_comments commented_store)) \<notin> ids fi_id (findings d2) \<and> \<not> refs_inv d2"
  proof (rule comment_outlives_finding [where d = commented_store and ns = ns
        and f = "hd (findings commented_store)" and r = "example_review 1 1 ''k''"])
    show "keys_inv commented_store"
      using commented_store_inv by (simp add: store_inv_def)
    show "clear_main False [rv_patchset (example_review 1 1 ''k'')] commented_store = (ns, e, d2)"
      using m by (simp add: example_review_def)
  qed (simp_all add: commented_store_def example_store_def empty_db_def example_review_def
      may_clear_def clear_patchset_status_def example_patchset_def kept_status_def)
  with m commented_store_inv show ?thesis by blast
qed

end
