(* ===== verification/Repo_Monitor.thy ===== *)
theory Repo_Monitor
  imports Tools
begin

text \<open>
  The daemon \<open>my-src/tools/repo_monitor\<close>: it fetches a repository again and again and hands each new commit
  of the configured branches to the command line client, one at a time and in order, and keeps in a file how
  far it got. Git, the client and the disk are arguments, given anew for each round; within a round git does
  not change. \<open>mo_log\<close> holds the calls of the client with their outcome, oldest first.
\<close>

subsection \<open>Configuration (\<open>config.rs\<close>)\<close>

record MonitorConfig =
  mc_repository_path :: string
  mc_max_retries :: nat
  mc_pull_interval_sec :: nat
  mc_server_ip :: string
  mc_server_port :: nat
  mc_branches :: "string list"
  mc_max_history_days :: nat

text \<open>What the \<open>config\<close> library finds in the two files together: \<open>None\<close> for a key that is missing or of
  another type; the items of a list that are no texts are \<open>None\<close>.\<close>

record config_values =
  cv_string :: "string \<Rightarrow> string option"
  cv_int :: "string \<Rightarrow> int option"
  cv_array :: "string \<Rightarrow> string option list option"

text \<open>\<open>as u32\<close> and the like keep the low bits of the two's complement.\<close>

definition as_unsigned :: "nat \<Rightarrow> int \<Rightarrow> nat" where
  "as_unsigned w n = nat (n mod 2 ^ w)"

definition or_default :: "'a \<Rightarrow> 'a option \<Rightarrow> 'a" where
  "or_default a m = (case m of None \<Rightarrow> a | Some b \<Rightarrow> b)"

definition config_of :: "config_values \<Rightarrow> MonitorConfig" where
  "config_of cv =
     \<lparr>mc_repository_path = or_default [] (cv_string cv ''git.repository_path''),
      mc_max_retries = as_unsigned 32 (or_default 3 (cv_int cv ''max_retries'')),
      mc_pull_interval_sec = as_unsigned 64 (or_default 10 (cv_int cv ''pull_interval_sec'')),
      mc_server_ip = or_default ''127.0.0.1'' (cv_string cv ''server_ip''),
      mc_server_port = as_unsigned 16 (or_default 8080 (cv_int cv ''server_port'')),
      mc_branches =
        (case cv_array cv ''branches'' of
           Some xs \<Rightarrow> List.map_filter (\<lambda>x. x) xs
         | None \<Rightarrow> [''main'']),
      mc_max_history_days = as_unsigned 32 (or_default 180 (cv_int cv ''max_history_days''))\<rparr>"

text \<open>\<open>path.join\<close> of a relative path.\<close>

definition get_absolute_repo_path :: "MonitorConfig \<Rightarrow> string + string \<Rightarrow> string + string" where
  "get_absolute_repo_path cfg current_dir =
     (if starts_with (mc_repository_path cfg) ''/'' then Inr (mc_repository_path cfg)
      else case current_dir of
        Inl e \<Rightarrow> Inl e
      | Inr d \<Rightarrow> Inr (if ends_with d ''/'' then d @ mc_repository_path cfg
                      else d @ ''/'' @ mc_repository_path cfg))"

subsection \<open>State (\<open>state.rs\<close>)\<close>

record BranchState =
  bs_branch_name :: string
  bs_last_synced_commit :: "string option"
  bs_retry_count :: nat

type_synonym MonitorState = "BranchState list"

definition new_branch :: "string \<Rightarrow> BranchState" where
  "new_branch b = \<lparr>bs_branch_name = b, bs_last_synced_commit = None, bs_retry_count = 0\<rparr>"

definition get_branch_state :: "MonitorState \<Rightarrow> string \<Rightarrow> BranchState option" where
  "get_branch_state st b = first (filter (\<lambda>s. bs_branch_name s = b) st)"

text \<open>The place of the branch in the list, which is made when there is none.\<close>

fun get_mut_branch_state :: "MonitorState \<Rightarrow> string \<Rightarrow> nat \<times> MonitorState" where
  "get_mut_branch_state [] b = (0, [new_branch b])"
| "get_mut_branch_state (s # st) b =
     (if bs_branch_name s = b then (0, s # st)
      else (let (i, st1) = get_mut_branch_state st b in (Suc i, s # st1)))"

definition branch_json :: "BranchState \<Rightarrow> json" where
  "branch_json s =
     JObj [(''branch_name'', JStr (bs_branch_name s)),
           (''last_synced_commit'', jopt JStr (bs_last_synced_commit s)),
           (''retry_count'', JInt (int (bs_retry_count s)))]"

definition state_json :: "MonitorState \<Rightarrow> json" where
  "state_json st = JArr (List.map branch_json st)"

fun commit_of_json :: "json option \<Rightarrow> string option option" where
  "commit_of_json None = Some None"
| "commit_of_json (Some JNull) = Some None"
| "commit_of_json (Some (JStr s)) = Some (Some s)"
| "commit_of_json _ = None"

fun count_of_json :: "json option \<Rightarrow> nat option" where
  "count_of_json (Some (JInt n)) = (if 0 \<le> n \<and> n < 2 ^ 32 then Some (nat n) else None)"
| "count_of_json _ = None"

text \<open>The derived reader takes an object, or an array with the fields in order.\<close>

fun branch_of_json :: "json \<Rightarrow> BranchState option" where
  "branch_of_json (JArr [JStr b, c, n]) =
     (case (commit_of_json (Some c), count_of_json (Some n)) of
        (Some c1, Some n1) \<Rightarrow>
          Some \<lparr>bs_branch_name = b, bs_last_synced_commit = c1, bs_retry_count = n1\<rparr>
      | _ \<Rightarrow> None)"
| "branch_of_json (JObj ms) =
     (case (get_str (JObj ms) ''branch_name'', commit_of_json (map_of ms ''last_synced_commit''),
            count_of_json (map_of ms ''retry_count'')) of
        (Some b, Some c1, Some n1) \<Rightarrow>
          Some \<lparr>bs_branch_name = b, bs_last_synced_commit = c1, bs_retry_count = n1\<rparr>
      | _ \<Rightarrow> None)"
| "branch_of_json _ = None"

fun branches_of_json :: "json list \<Rightarrow> MonitorState option" where
  "branches_of_json [] = Some []"
| "branches_of_json (v # vs) =
     (case (branch_of_json v, branches_of_json vs) of
        (Some s, Some st) \<Rightarrow> Some (s # st)
      | _ \<Rightarrow> None)"

fun state_of_json :: "json \<Rightarrow> MonitorState option" where
  "state_of_json (JArr vs) = branches_of_json vs"
| "state_of_json _ = None"

text \<open>\<open>pretty\<close> and \<open>parse\<close> print and read JSON text. Of a write, \<open>disk\<close> says how much of it gets onto the
  disk before an error (\<open>None\<close>: no error), and whether the rename that follows succeeds.\<close>

type_synonym files = "string \<Rightarrow> string option"
type_synonym disk = "string \<Rightarrow> nat option \<times> bool"

definition load :: "json_parser \<Rightarrow> files \<Rightarrow> string \<Rightarrow> MonitorState option" where
  "load parse fs path = Option.bind (Option.bind (fs path) parse) state_of_json"

definition tmp_of :: "string \<Rightarrow> string" where
  "tmp_of path = path @ ''.tmp''"

definition save :: "(json \<Rightarrow> string) \<Rightarrow> disk \<Rightarrow> string \<Rightarrow> MonitorState \<Rightarrow> files \<Rightarrow> bool \<times> files" where
  "save pretty disk path st fs =
     (let content = pretty (state_json st);
          (written, renamed) = disk content
      in case written of
           Some n \<Rightarrow> (False, fs(tmp_of path \<mapsto> take n content))
         | None \<Rightarrow>
             if renamed then (True, fs(path \<mapsto> content, tmp_of path := None))
             else (False, fs(tmp_of path \<mapsto> content)))"

subsection \<open>Git (\<open>git_checker.rs\<close>)\<close>

type_synonym monitor_git = "string list \<Rightarrow> io_error + Output"

definition monitor_fetch_all :: "monitor_git \<Rightarrow> string + unit" where
  "monitor_fetch_all git =
     (case git [''fetch'', ''--all''] of
        Inl _ \<Rightarrow> Inl ''Failed to execute git fetch --all''
      | Inr out \<Rightarrow>
          if out_success out then Inr ()
          else Inl (''git fetch --all failed: '' @ out_stderr out))"

definition upstream_name :: "string \<Rightarrow> string" where
  "upstream_name b = b @ ''@'' @ ''{u}''"

definition get_upstream_hash :: "monitor_git \<Rightarrow> string \<Rightarrow> string + string" where
  "get_upstream_hash git b =
     (case git [''rev-parse'', upstream_name b] of
        Inl _ \<Rightarrow> Inl ''Failed to execute git rev-parse''
      | Inr out \<Rightarrow>
          if out_success out then Inr (trim (out_stdout out))
          else Inl (''git rev-parse '' @ upstream_name b @ '' failed: '' @ out_stderr out))"

definition new_commit_args :: "string option \<Rightarrow> string \<Rightarrow> nat \<Rightarrow> string list" where
  "new_commit_args start end_hash days =
     [''rev-list'', ''--since='' @ show_nat days @ '' days ago'', ''--reverse'',
      (case start of Some s \<Rightarrow> s @ ''..'' @ end_hash | None \<Rightarrow> end_hash)]"

definition get_new_commits ::
  "monitor_git \<Rightarrow> string option \<Rightarrow> string \<Rightarrow> nat \<Rightarrow> string + string list" where
  "get_new_commits git start end_hash days =
     (case git (new_commit_args start end_hash days) of
        Inl _ \<Rightarrow> Inl ''Failed to execute git rev-list''
      | Inr out \<Rightarrow>
          if out_success out then
            Inr (filter (\<lambda>s. s \<noteq> []) (List.map trim (lines (out_stdout out))))
          else Inl (''git rev-list failed: '' @ out_stderr out))"

subsection \<open>Handing a commit over (\<open>executor.rs\<close>)\<close>

type_synonym calls = "(string list \<times> bool) list"

text \<open>Whether the client runs and succeeds may depend on what was called before.\<close>

type_synonym client = "calls \<Rightarrow> string list \<Rightarrow> bool"

definition sync_args :: "MonitorConfig \<Rightarrow> string \<Rightarrow> string \<Rightarrow> string list" where
  "sync_args cfg repo commit_hash =
     [''--server'', ''http://'' @ mc_server_ip cfg @ '':'' @ show_nat (mc_server_port cfg), ''submit'',
      ''--repo'', repo, commit_hash]"

function sync_loop :: "client \<Rightarrow> string list \<Rightarrow> nat \<Rightarrow> nat \<Rightarrow> calls \<Rightarrow> bool \<times> calls" where
  "sync_loop cli args max_retries retries log =
     (let ok = cli log args; log1 = log @ [(args, ok)]
      in if ok then (True, log1)
         else if max_retries \<le> retries + 1 then (False, log1)
         else sync_loop cli args max_retries (retries + 1) log1)"
  by pat_completeness auto

termination
  by (relation "measure (\<lambda>(_, _, m, r, _). m - r)") auto

declare sync_loop.simps [simp del]

definition execute_sync ::
  "client \<Rightarrow> MonitorConfig \<Rightarrow> string \<Rightarrow> string \<Rightarrow> calls \<Rightarrow> bool \<times> calls" where
  "execute_sync cli cfg repo commit_hash log =
     sync_loop cli (sync_args cfg repo commit_hash) (mc_max_retries cfg) 0 log"

subsection \<open>A round (\<open>poller.rs\<close>)\<close>

text \<open>The loop over the commits of a branch: the state, whether it changed, whether all went well.\<close>

fun sync_commits ::
  "client \<Rightarrow> MonitorConfig \<Rightarrow> string \<Rightarrow> string list \<Rightarrow> BranchState \<Rightarrow> bool \<Rightarrow> calls \<Rightarrow>
     BranchState \<times> bool \<times> bool \<times> calls" where
  "sync_commits cli cfg repo [] s changed log = (s, changed, True, log)"
| "sync_commits cli cfg repo (c # cs) s changed log =
     (case execute_sync cli cfg repo c log of
        (False, log1) \<Rightarrow> (s\<lparr>bs_retry_count := bs_retry_count s + 1\<rparr>, True, False, log1)
      | (True, log1) \<Rightarrow>
          sync_commits cli cfg repo cs (s\<lparr>bs_last_synced_commit := Some c\<rparr>) True log1)"

definition poll_branch ::
  "monitor_git \<Rightarrow> client \<Rightarrow> MonitorConfig \<Rightarrow> string \<Rightarrow> string \<Rightarrow> BranchState \<Rightarrow> calls \<Rightarrow>
     BranchState \<times> bool \<times> calls" where
  "poll_branch git cli cfg repo upstream s log =
     (if bs_last_synced_commit s \<noteq> Some upstream then
        if mc_max_retries cfg \<le> bs_retry_count s then (s, False, log)
        else
          (case get_new_commits git (bs_last_synced_commit s) upstream (mc_max_history_days cfg) of
             Inl _ \<Rightarrow> (s, False, log)
           | Inr commits \<Rightarrow>
               (case sync_commits cli cfg repo commits s False log of
                  (s1, changed, all_success, log1) \<Rightarrow>
                    if all_success then
                      (s1\<lparr>bs_last_synced_commit := Some upstream, bs_retry_count := 0\<rparr>, True, log1)
                    else (s1, changed, log1)))
      else if 0 < bs_retry_count s then (s\<lparr>bs_retry_count := 0\<rparr>, True, log)
      else (s, False, log))"

record monitor =
  mo_state :: MonitorState
  mo_files :: files
  mo_log :: calls

record monitor_round =
  mr_git :: monitor_git
  mr_client :: client
  mr_disk :: disk

fun poll_branches ::
  "(json \<Rightarrow> string) \<Rightarrow> monitor_round \<Rightarrow> MonitorConfig \<Rightarrow> string \<Rightarrow> string \<Rightarrow> string list \<Rightarrow>
     monitor \<Rightarrow> monitor" where
  "poll_branches pretty r cfg repo path [] m = m"
| "poll_branches pretty r cfg repo path (b # bs) m =
     poll_branches pretty r cfg repo path bs
       (case get_upstream_hash (mr_git r) b of
          Inl _ \<Rightarrow> m
        | Inr upstream \<Rightarrow>
            (case get_mut_branch_state (mo_state m) b of
               (i, st) \<Rightarrow>
                 (case poll_branch (mr_git r) (mr_client r) cfg repo upstream (st ! i) (mo_log m) of
                    (s, changed, log1) \<Rightarrow>
                      \<lparr>mo_state = st[i := s],
                       mo_files =
                         (if changed then snd (save pretty (mr_disk r) path (st[i := s]) (mo_files m))
                          else mo_files m),
                       mo_log = log1\<rparr>)))"

definition poll_once ::
  "(json \<Rightarrow> string) \<Rightarrow> monitor_round \<Rightarrow> MonitorConfig \<Rightarrow> string \<Rightarrow> string \<Rightarrow> monitor \<Rightarrow>
     (string + unit) \<times> monitor" where
  "poll_once pretty r cfg repo path m =
     (case monitor_fetch_all (mr_git r) of
        Inl e \<Rightarrow> (Inl e, m)
      | Inr _ \<Rightarrow> (Inr (), poll_branches pretty r cfg repo path (mc_branches cfg) m))"

fun pre_flight_check :: "monitor_git \<Rightarrow> string list \<Rightarrow> string + unit" where
  "pre_flight_check git [] = Inr ()"
| "pre_flight_check git (b # bs) =
     (case get_upstream_hash git b of
        Inl e \<Rightarrow> Inl (''Pre-flight check failed for branch '' @ [CHR 0x27] @ b @ [CHR 0x27] @ '': '' @ e)
      | Inr _ \<Rightarrow> pre_flight_check git bs)"

text \<open>The rounds until the shutdown signal, which is looked at before each of them; an error of a round is
  only printed.\<close>

fun run_rounds ::
  "(json \<Rightarrow> string) \<Rightarrow> MonitorConfig \<Rightarrow> string \<Rightarrow> string \<Rightarrow> (bool \<times> monitor_round) list \<Rightarrow>
     monitor \<Rightarrow> monitor" where
  "run_rounds pretty cfg repo path [] m = m"
| "run_rounds pretty cfg repo path ((shutdown, r) # rs) m =
     (if shutdown then m
      else run_rounds pretty cfg repo path rs (snd (poll_once pretty r cfg repo path m)))"

definition run_monitor ::
  "(json \<Rightarrow> string) \<Rightarrow> json_parser \<Rightarrow> monitor_git \<Rightarrow> MonitorConfig \<Rightarrow> string \<Rightarrow> string \<Rightarrow>
     (bool \<times> monitor_round) list \<Rightarrow> files \<Rightarrow> string + monitor" where
  "run_monitor pretty parse git cfg repo path rs fs =
     (case pre_flight_check git (mc_branches cfg) of
        Inl e \<Rightarrow> Inl e
      | Inr _ \<Rightarrow>
          Inr (run_rounds pretty cfg repo path rs
                 \<lparr>mo_state = or_default [] (load parse fs path), mo_files = fs, mo_log = []\<rparr>))"

end
