(* ===== verification/Repo_Monitor_Props.thy ===== *)
theory Repo_Monitor_Props
  imports Repo_Monitor
begin

text \<open>
  Properties of the daemon of \<open>my-src/tools/repo_monitor\<close>: what a round does to a branch, that the commits of a
  growing branch are handed over in order and once each, the state file, and the branch that is given up.
\<close>

subsection \<open>Calls\<close>

text \<open>The commits the client took: the last argument of the calls that succeeded.\<close>

definition taken_commits :: "calls \<Rightarrow> string list" where
  "taken_commits log = List.map (\<lambda>c. last (fst c)) (filter snd log)"

lemma taken_commits_simps [simp]:
  "taken_commits [] = []" "taken_commits (a @ b) = taken_commits a @ taken_commits b"
  "taken_commits ((args, True) # log) = last args # taken_commits log"
  "taken_commits ((args, False) # log) = taken_commits log"
  "taken_commits (replicate k (args, False)) = []"
  by (simp_all add: taken_commits_def)

definition attempts :: "MonitorConfig \<Rightarrow> nat" where
  "attempts cfg = max 1 (mc_max_retries cfg)"

lemma sync_loop_calls:
  "sync_loop cli args n r log = (ok, log1) \<Longrightarrow>
     \<exists>k. log1 = log @ replicate k (args, False) @ (if ok then [(args, True)] else []) \<and>
         (if ok then k < max 1 (n - r) else k = max 1 (n - r))"
proof (induction cli args n r log rule: sync_loop.induct)
  case (1 cli args n r log)
  show ?case
  proof (cases "cli log args")
    case True
    with "1.prems" have "log1 = log @ replicate 0 (args, False) @ [(args, True)]" ok
      by (simp_all add: sync_loop.simps [of cli args n r log] Let_def)
    then show ?thesis by (intro exI [of _ 0]) simp
  next
    case False
    show ?thesis
    proof (cases "n \<le> r + 1")
      case True
      with False "1.prems" have "log1 = log @ [(args, False)]" "\<not> ok"
        by (simp_all add: sync_loop.simps [of cli args n r log] Let_def)
      with True show ?thesis by (intro exI [of _ 1]) simp
    next
      case more: False
      with False "1.prems"
      have "sync_loop cli args n (r + 1) (log @ [(args, False)]) = (ok, log1)"
        by (simp add: sync_loop.simps [of cli args n r log] Let_def)
      with "1.IH" False more obtain k where
        k: "log1 = (log @ [(args, False)]) @ replicate k (args, False) @ (if ok then [(args, True)] else [])"
          "if ok then k < max 1 (n - (r + 1)) else k = max 1 (n - (r + 1))"
        by auto
      with more show ?thesis
        by (intro exI [of _ "Suc k"]) (auto split: if_splits)
    qed
  qed
qed

lemma execute_sync_calls:
  assumes "execute_sync cli cfg repo c log = (ok, log1)"
  shows "\<exists>k. log1 = log @ replicate k (sync_args cfg repo c, False) @
             (if ok then [(sync_args cfg repo c, True)] else []) \<and>
           (if ok then k < attempts cfg else k = attempts cfg)"
  using sync_loop_calls [OF assms [unfolded execute_sync_def]] unfolding attempts_def diff_zero .

lemma last_sync_args [simp]: "last (sync_args cfg repo c) = c"
  by (simp add: sync_args_def)

lemma execute_sync_accepted:
  "execute_sync cli cfg repo c log = (ok, log1) \<Longrightarrow>
     taken_commits log1 = taken_commits log @ (if ok then [c] else [])"
  using execute_sync_calls by fastforce

subsection \<open>The commits of a branch\<close>

text \<open>\<open>gave_up\<close>: the last calls are the failed attempts at a commit.\<close>

definition gave_up :: "MonitorConfig \<Rightarrow> string \<Rightarrow> string \<Rightarrow> calls \<Rightarrow> bool" where
  "gave_up cfg repo c log \<longleftrightarrow>
     (\<exists>pre. log = pre @ replicate (attempts cfg) (sync_args cfg repo c, False))"

definition last_of :: "string option \<Rightarrow> string list \<Rightarrow> string option" where
  "last_of c cs = (if cs = [] then c else Some (last cs))"

lemma sync_commits_spec:
  "sync_commits cli cfg repo cs s changed log = (s1, changed1, ok, log1) \<Longrightarrow>
     \<exists>k\<le>length cs. taken_commits log1 = taken_commits log @ take k cs \<and>
       ok = (k = length cs) \<and>
       (if ok then s1 = s\<lparr>bs_last_synced_commit := last_of (bs_last_synced_commit s) cs\<rparr>
        else s1 = s\<lparr>bs_last_synced_commit := last_of (bs_last_synced_commit s) (take k cs),
                    bs_retry_count := bs_retry_count s + 1\<rparr> \<and> gave_up cfg repo (cs ! k) log1)"
proof (induction cs arbitrary: s changed log)
  case Nil
  then show ?case by (simp add: last_of_def)
next
  case (Cons c cs)
  obtain took log2 where e: "execute_sync cli cfg repo c log = (took, log2)"
    by (cases "execute_sync cli cfg repo c log")
  show ?case
  proof (cases took)
    case False
    from execute_sync_calls [OF e] False have "gave_up cfg repo c log2"
      by (auto simp: gave_up_def)
    with Cons.prems e False execute_sync_accepted [OF e] show ?thesis
      by (intro exI [of _ 0]) (auto simp: last_of_def)
  next
    case True
    with Cons.prems e
    have "sync_commits cli cfg repo cs (s\<lparr>bs_last_synced_commit := Some c\<rparr>) True log2 = (s1, changed1, ok, log1)"
      by simp
    from Cons.IH [OF this] obtain k where k: "k \<le> length cs"
      "taken_commits log1 = taken_commits log2 @ take k cs" "ok = (k = length cs)"
      "if ok then s1 = s\<lparr>bs_last_synced_commit := last_of (Some c) cs\<rparr>
       else s1 = s\<lparr>bs_last_synced_commit := last_of (Some c) (take k cs),
                   bs_retry_count := bs_retry_count s + 1\<rparr> \<and> gave_up cfg repo (cs ! k) log1"
      by auto
    have "last_of (Some c) xs = last_of d (c # xs)" for xs d
      by (simp add: last_of_def)
    with k True execute_sync_accepted [OF e] show ?thesis
      by (intro exI [of _ "Suc k"]) (simp split: if_splits)
  qed
qed

lemma sync_commits_changed:
  "sync_commits cli cfg repo cs s changed log = (s1, changed1, ok, log1) \<Longrightarrow>
     changed1 = (changed \<or> cs \<noteq> [])"
proof (induction cs arbitrary: s changed log)
  case (Cons c cs)
  then show ?case
    by (cases "execute_sync cli cfg repo c log"; cases "fst (execute_sync cli cfg repo c log)") auto
qed simp

text \<open>What a round has to say about a branch: it is up to date, it is left alone, or it moves on.\<close>

definition up_to_date :: "string \<Rightarrow> BranchState \<Rightarrow> bool" where
  "up_to_date upstream s \<longleftrightarrow> bs_last_synced_commit s = Some upstream"

lemma branch_polled_facts:
  assumes "poll_branch git cli cfg repo upstream s log = (s1, changed, log1)"
  shows "up_to_date upstream s \<Longrightarrow>
      s1 = s\<lparr>bs_retry_count := 0\<rparr> \<and> log1 = log \<and> changed = (0 < bs_retry_count s)"
    and "\<not> up_to_date upstream s \<Longrightarrow>
      mc_max_retries cfg \<le> bs_retry_count s \<or>
        (\<exists>e. get_new_commits git (bs_last_synced_commit s) upstream (mc_max_history_days cfg) = Inl e) \<Longrightarrow>
      s1 = s \<and> log1 = log \<and> \<not> changed"
    and "\<not> up_to_date upstream s \<Longrightarrow> bs_retry_count s < mc_max_retries cfg \<Longrightarrow>
      get_new_commits git (bs_last_synced_commit s) upstream (mc_max_history_days cfg) = Inr cs \<Longrightarrow>
      changed \<and> (\<exists>k\<le>length cs. taken_commits log1 = taken_commits log @ take k cs \<and>
         (if k = length cs
          then s1 = s\<lparr>bs_last_synced_commit := Some upstream, bs_retry_count := 0\<rparr>
          else s1 = s\<lparr>bs_last_synced_commit := last_of (bs_last_synced_commit s) (take k cs),
                      bs_retry_count := bs_retry_count s + 1\<rparr> \<and> gave_up cfg repo (cs ! k) log1))"
proof -
  show "s1 = s\<lparr>bs_retry_count := 0\<rparr> \<and> log1 = log \<and> changed = (0 < bs_retry_count s)"
    if "up_to_date upstream s"
    using assms that by (auto simp: poll_branch_def up_to_date_def split: if_splits)
  show "s1 = s \<and> log1 = log \<and> \<not> changed"
    if "\<not> up_to_date upstream s" "mc_max_retries cfg \<le> bs_retry_count s \<or>
        (\<exists>e. get_new_commits git (bs_last_synced_commit s) upstream (mc_max_history_days cfg) = Inl e)"
    using assms that by (auto simp: poll_branch_def up_to_date_def split: if_splits)
next
  assume a: "\<not> up_to_date upstream s" "bs_retry_count s < mc_max_retries cfg"
    "get_new_commits git (bs_last_synced_commit s) upstream (mc_max_history_days cfg) = Inr cs"
  obtain s2 ch ok log2 where c: "sync_commits cli cfg repo cs s False log = (s2, ch, ok, log2)"
    by (metis prod_cases4)
  from a c assms have r: "log1 = log2" "changed = (ok \<or> ch)"
    "s1 = (if ok then s2\<lparr>bs_last_synced_commit := Some upstream, bs_retry_count := 0\<rparr> else s2)"
    by (auto simp: poll_branch_def up_to_date_def split: if_splits)
  from sync_commits_spec [OF c] obtain k where k: "k \<le> length cs"
    "taken_commits log2 = taken_commits log @ take k cs" "ok = (k = length cs)"
    "if ok then s2 = s\<lparr>bs_last_synced_commit := last_of (bs_last_synced_commit s) cs\<rparr>
     else s2 = s\<lparr>bs_last_synced_commit := last_of (bs_last_synced_commit s) (take k cs),
                 bs_retry_count := bs_retry_count s + 1\<rparr> \<and> gave_up cfg repo (cs ! k) log2"
    by blast
  have "changed"
    using r k sync_commits_changed [OF c] by auto
  moreover have "\<exists>k\<le>length cs. taken_commits log1 = taken_commits log @ take k cs \<and>
         (if k = length cs
          then s1 = s\<lparr>bs_last_synced_commit := Some upstream, bs_retry_count := 0\<rparr>
          else s1 = s\<lparr>bs_last_synced_commit := last_of (bs_last_synced_commit s) (take k cs),
                      bs_retry_count := bs_retry_count s + 1\<rparr> \<and> gave_up cfg repo (cs ! k) log1)"
    using r k by (intro exI [of _ k]) auto
  ultimately show "changed \<and> (\<exists>k\<le>length cs. taken_commits log1 = taken_commits log @ take k cs \<and>
         (if k = length cs
          then s1 = s\<lparr>bs_last_synced_commit := Some upstream, bs_retry_count := 0\<rparr>
          else s1 = s\<lparr>bs_last_synced_commit := last_of (bs_last_synced_commit s) (take k cs),
                      bs_retry_count := bs_retry_count s + 1\<rparr> \<and> gave_up cfg repo (cs ! k) log1))"
    by blast
qed

lemma branch_cases [case_names same skipped moved]:
  obtains "up_to_date upstream s"
    | "\<not> up_to_date upstream s" "mc_max_retries cfg \<le> bs_retry_count s \<or>
        (\<exists>e. get_new_commits git (bs_last_synced_commit s) upstream (mc_max_history_days cfg) = Inl e)"
    | cs where "\<not> up_to_date upstream s" "bs_retry_count s < mc_max_retries cfg"
        "get_new_commits git (bs_last_synced_commit s) upstream (mc_max_history_days cfg) = Inr cs"
  by (cases "get_new_commits git (bs_last_synced_commit s) upstream (mc_max_history_days cfg)") fastforce+

text \<open>A round hands the new commits of a branch to the client in order, up to the first that the client
  does not take in the attempts it is given. When all are taken the branch stands at its upstream commit and
  the count of failures is 0; otherwise it stands at the last commit taken and the count is one more. A
  branch that is up to date only gets its count set back, and one whose count has reached the bound, or whose
  commits cannot be listed, is left as it is.\<close>

theorem branch_polled:
  assumes "poll_branch git cli cfg repo upstream s log = (s1, changed, log1)"
  shows "(up_to_date upstream s \<longrightarrow>
            s1 = s\<lparr>bs_retry_count := 0\<rparr> \<and> log1 = log \<and> changed = (0 < bs_retry_count s)) \<and>
    (\<not> up_to_date upstream s \<and>
       (mc_max_retries cfg \<le> bs_retry_count s \<or>
        (\<exists>e. get_new_commits git (bs_last_synced_commit s) upstream (mc_max_history_days cfg) = Inl e)) \<longrightarrow>
       s1 = s \<and> log1 = log \<and> \<not> changed) \<and>
    (\<forall>cs. \<not> up_to_date upstream s \<and> bs_retry_count s < mc_max_retries cfg \<and>
       get_new_commits git (bs_last_synced_commit s) upstream (mc_max_history_days cfg) = Inr cs \<longrightarrow>
       changed \<and> (\<exists>k\<le>length cs. taken_commits log1 = taken_commits log @ take k cs \<and>
         (if k = length cs
          then s1 = s\<lparr>bs_last_synced_commit := Some upstream, bs_retry_count := 0\<rparr>
          else s1 = s\<lparr>bs_last_synced_commit := last_of (bs_last_synced_commit s) (take k cs),
                      bs_retry_count := bs_retry_count s + 1\<rparr> \<and> gave_up cfg repo (cs ! k) log1)))"
  by (rule conjI, rule impI, erule branch_polled_facts(1) [OF assms], rule conjI, rule impI, erule conjE,
      erule (1) branch_polled_facts(2) [OF assms], intro allI impI, elim conjE,
      rule branch_polled_facts(3) [OF assms], assumption+)

subsection \<open>Growing branches\<close>

text \<open>\<open>stand hs k\<close>: where a branch stands that has come to number \<open>k\<close> of its commits. \<open>git_shows\<close>: git answers
  for a branch whose commits, oldest first, are \<open>hs\<close>, whose upstream is number \<open>u\<close> of them, and the first \<open>old\<close>
  of which are too old; it may fail to list commits, and when it does not it lists those after the start that
  are not too old, as \<open>rev-list --since --reverse\<close> is documented to do where the history is a line.\<close>

definition stand :: "string list \<Rightarrow> nat \<Rightarrow> string option" where
  "stand hs k = (if k = 0 then None else Some (hs ! (k - 1)))"

definition git_shows :: "monitor_git \<Rightarrow> string \<Rightarrow> nat \<Rightarrow> string list \<Rightarrow> nat \<Rightarrow> nat \<Rightarrow> bool" where
  "git_shows git b days hs old u \<longleftrightarrow>
     u < length hs \<and> get_upstream_hash git b = Inr (hs ! u) \<and>
     (\<forall>k\<le>u. \<forall>cs. get_new_commits git (stand hs k) (hs ! u) days = Inr cs \<longrightarrow>
        cs = drop (max k old) (take (Suc u) hs))"

text \<open>What git may say in a round, with the numbers \<open>old\<close> and \<open>up\<close> of every branch.\<close>

definition git_answers ::
  "monitor_git \<Rightarrow> MonitorConfig \<Rightarrow> (string \<Rightarrow> string list) \<Rightarrow> (string \<Rightarrow> nat) \<Rightarrow> (string \<Rightarrow> nat) \<Rightarrow> bool" where
  "git_answers git cfg hist old up \<longleftrightarrow>
     (\<exists>e. monitor_fetch_all git = Inl e) \<or>
     (\<forall>b\<in>set (mc_branches cfg). (\<exists>e. get_upstream_hash git b = Inl e) \<or>
        git_shows git b (mc_max_history_days cfg) (hist b) (old b) (up b))"

definition reached :: "MonitorState \<Rightarrow> string \<Rightarrow> string option" where
  "reached st b = Option.bind (get_branch_state st b) bs_last_synced_commit"

text \<open>The daemon began with every branch \<open>b\<close> at number \<open>start b\<close> and is at number \<open>n b\<close>. Each commit the
  client took belongs to a branch; those of a branch are some of its commits from \<open>start b\<close> to \<open>n b\<close>, in
  order and once each, and none is left out but such as were too old, whose numbers are below \<open>aged b\<close>.\<close>

definition handed_over ::
  "string list \<Rightarrow> (string \<Rightarrow> string list) \<Rightarrow> (string \<Rightarrow> nat) \<Rightarrow> (string \<Rightarrow> nat) \<Rightarrow> (string \<Rightarrow> nat) \<Rightarrow> calls \<Rightarrow> bool" where
  "handed_over bs hist aged start n log \<longleftrightarrow>
     (\<exists>taken given. taken_commits log = List.map snd taken \<and> fst ` set taken \<subseteq> set bs \<and>
        (\<forall>b\<in>set bs. List.map snd (filter (\<lambda>t. fst t = b) taken) = nths (hist b) (given b) \<and>
           given b \<subseteq> {start b..<n b} \<and> {max (start b) (aged b)..<n b} \<subseteq> given b))"

definition stands ::
  "string list \<Rightarrow> (string \<Rightarrow> string list) \<Rightarrow> (string \<Rightarrow> nat) \<Rightarrow> (string \<Rightarrow> nat) \<Rightarrow> MonitorState \<Rightarrow> bool" where
  "stands bs hist start n st \<longleftrightarrow>
     (\<forall>b\<in>set bs. start b \<le> n b \<and> n b \<le> length (hist b) \<and> reached st b = stand (hist b) (n b))"

lemma nth_stand: "distinct hs \<Longrightarrow> n \<le> length hs \<Longrightarrow> u < length hs \<Longrightarrow>
    stand hs n = Some (hs ! u) \<longleftrightarrow> n = Suc u"
  by (auto simp: stand_def nth_eq_iff_index_eq)

text \<open>The place of a branch in the state.\<close>

lemma branch_place:
  "get_mut_branch_state st b = (i, st1) \<Longrightarrow>
     i < length st1 \<and> bs_branch_name (st1 ! i) = b \<and> bs_last_synced_commit (st1 ! i) = reached st b \<and>
     (\<forall>s c. bs_branch_name s = b \<longrightarrow>
        reached (st1[i := s]) c = (if c = b then bs_last_synced_commit s else reached st c))"
proof (induction st b arbitrary: i st1 rule: get_mut_branch_state.induct)
  case (1 b)
  then show ?case by (auto simp: reached_def get_branch_state_def new_branch_def)
next
  case (2 t st b)
  show ?case
  proof (cases "bs_branch_name t = b")
    case True
    with 2 show ?thesis by (auto simp: reached_def get_branch_state_def)
  next
    case False
    obtain j st2 where j: "get_mut_branch_state st b = (j, st2)" by (cases "get_mut_branch_state st b")
    with False "2.prems" have "i = Suc j" "st1 = t # st2" by simp_all
    with False "2.IH" [OF False j] show ?thesis
      by (auto simp: reached_def get_branch_state_def)
  qed
qed

lemma nths_extend:
  assumes "I \<subseteq> {..<a}"
  shows "nths hs (I \<union> {a..<e}) = nths hs I @ drop a (take e hs)"
proof (induction hs rule: rev_induct)
  case (snoc x hs)
  have "nths (hs @ [x]) J = nths hs J @ (if length hs \<in> J then [x] else [])" for J
    by (simp add: nths_append nths_singleton)
  moreover have "length hs \<in> I \<Longrightarrow> length hs < a" using assms by auto
  ultimately show ?case
    using snoc by (auto simp: not_less)
qed simp

lemma poll_branch_moves:
  assumes d: "distinct hs" and g: "git_shows git b (mc_max_history_days cfg) hs old u"
    and n: "n \<le> Suc u" and s: "bs_last_synced_commit s = stand hs n"
    and p: "poll_branch git cli cfg repo (hs ! u) s log = (s1, changed, log1)"
  shows "bs_branch_name s1 = bs_branch_name s \<and>
    (\<exists>m. n \<le> m \<and> m \<le> Suc u \<and> bs_last_synced_commit s1 = stand hs m \<and>
         taken_commits log1 = taken_commits log @ drop (max n old) (take m hs))"
proof -
  note spec = branch_polled_facts [OF p]
  from g have u: "u < length hs" by (simp add: git_shows_def)
  with n have n': "n \<le> length hs" by simp
  show ?thesis
  proof (cases rule: branch_cases [where upstream = "hs ! u" and s = s and cfg = cfg and git = git])
    case same
    with spec(1) s n show ?thesis by auto
  next
    case skipped
    with spec(2) s n show ?thesis by auto
  next
    case (moved cs)
    with s nth_stand [OF d n' u] n have nu: "n \<le> u"
      by (auto simp: up_to_date_def)
    with g moved(3) s have cs: "cs = drop (max n old) (take (Suc u) hs)"
      by (auto simp: git_shows_def)
    from spec(3) [OF moved] obtain k where k: "k \<le> length cs" "taken_commits log1 = taken_commits log @ take k cs"
      "if k = length cs then s1 = s\<lparr>bs_last_synced_commit := Some (hs ! u), bs_retry_count := 0\<rparr>
       else s1 = s\<lparr>bs_last_synced_commit := last_of (bs_last_synced_commit s) (take k cs),
                   bs_retry_count := bs_retry_count s + 1\<rparr> \<and> gave_up cfg repo (cs ! k) log1"
      by blast
    have name: "bs_branch_name s1 = bs_branch_name s"
      using k(3) by (auto split: if_splits)
    have len: "length cs = Suc u - max n old"
      using cs u by simp
    show ?thesis
    proof (cases "k = length cs")
      case True
      with k nu name cs show ?thesis
        by (intro conjI exI [of _ "Suc u"]) (simp_all add: stand_def)
    next
      case False
      with k(3) s have l: "bs_last_synced_commit s1 = last_of (stand hs n) (take k cs)" by simp
      show ?thesis
      proof (cases k)
        case 0
        with l k(2) name nu show ?thesis
          by (intro conjI exI [of _ n]) (simp_all add: last_of_def)
      next
        case (Suc j)
        define e where "e = max n old + k"
        from k(1) False len have e: "e \<le> u" "n \<le> e" by (simp_all add: e_def)
        from e have "take k cs = drop (max n old) (take e hs)"
          unfolding cs e_def by (simp add: take_drop add.commute min_absorb1)
        moreover have "j < length cs" "cs ! j = hs ! (e - 1)"
          using Suc k(1) len u e unfolding cs e_def by simp_all
        then have "last (take k cs) = hs ! (e - 1)"
          by (simp add: Suc take_Suc_conv_app_nth)
        moreover have "stand hs e = Some (hs ! (e - 1))" "take k cs \<noteq> []"
          using Suc k(1) False by (auto simp: stand_def e_def)
        ultimately show ?thesis
          using l k(2) name e by (intro conjI exI [of _ e]) (simp_all add: last_of_def)
      qed
    qed
  qed
qed

text \<open>One more branch is polled.\<close>

lemma handed_over_more:
  assumes h: "handed_over bs hist aged start n log" and b: "b \<in> set bs" "start b \<le> n b" "n b \<le> m" "old b \<le> aged b"
    and l: "taken_commits log1 = taken_commits log @ drop (max (n b) (old b)) (take m (hist b))"
  shows "handed_over bs hist aged start (n(b := m)) log1"
proof -
  define new where "new = drop (max (n b) (old b)) (take m (hist b))"
  from h obtain taken given where t: "taken_commits log = List.map snd taken" "fst ` set taken \<subseteq> set bs"
    "\<And>c. c \<in> set bs \<Longrightarrow> List.map snd (filter (\<lambda>t. fst t = c) taken) = nths (hist c) (given c) \<and>
       given c \<subseteq> {start c..<n c} \<and> {max (start c) (aged c)..<n c} \<subseteq> given c"
    unfolding handed_over_def by (elim exE conjE) (erule (1) that, erule (1) bspec)
  let ?taken = "taken @ List.map (Pair b) new"
  let ?given = "given(b := given b \<union> {max (n b) (old b)..<m})"
  have own: "filter (\<lambda>t. fst t = c) (List.map (Pair b) new) = (if c = b then List.map (Pair b) new else [])" for c
    by (induction new) simp_all
  have "given b \<subseteq> {..<max (n b) (old b)}"
    using t(3) [OF b(1)] by fastforce
  then have "List.map snd (filter (\<lambda>t. fst t = b) ?taken) = nths (hist b) (?given b)"
    using t(3) [OF b(1)] nths_extend [of "given b" "max (n b) (old b)" "hist b" m]
    by (simp add: own new_def o_def)
  moreover have "?given b \<subseteq> {start b..<m}" "{max (start b) (aged b)..<m} \<subseteq> ?given b"
    using t(3) [OF b(1)] b(2-4) by fastforce+
  moreover have "taken_commits log1 = List.map snd ?taken" "fst ` set ?taken \<subseteq> set bs"
    using l t(1,2) b(1) by (auto simp: new_def o_def)
  moreover have "\<forall>c\<in>set bs. c \<noteq> b \<longrightarrow>
      List.map snd (filter (\<lambda>t. fst t = c) ?taken) = nths (hist c) (?given c) \<and>
      ?given c \<subseteq> {start c..<(n(b := m)) c} \<and> {max (start c) (aged c)..<(n(b := m)) c} \<subseteq> ?given c"
    using t(3) by (simp add: own)
  ultimately have "taken_commits log1 = List.map snd ?taken \<and> fst ` set ?taken \<subseteq> set bs \<and>
      (\<forall>c\<in>set bs. List.map snd (filter (\<lambda>t. fst t = c) ?taken) = nths (hist c) (?given c) \<and>
        ?given c \<subseteq> {start c..<(n(b := m)) c} \<and> {max (start c) (aged c)..<(n(b := m)) c} \<subseteq> ?given c)"
    by (metis fun_upd_same)
  then show ?thesis
    unfolding handed_over_def by blast
qed

lemma poll_branches_hand_over:
  assumes "set bs \<subseteq> set (mc_branches cfg)"
    and "\<forall>b\<in>set (mc_branches cfg). distinct (hist b) \<and> old b \<le> aged b \<and>
           ((\<exists>e. get_upstream_hash (mr_git r) b = Inl e) \<or>
            git_shows (mr_git r) b (mc_max_history_days cfg) (hist b) (old b) (up b))"
    and "\<forall>b\<in>set (mc_branches cfg). n b \<le> Suc (up b)"
    and "stands (mc_branches cfg) hist start n (mo_state m)"
    and "handed_over (mc_branches cfg) hist aged start n (mo_log m)"
  shows "\<exists>n'. (\<forall>b\<in>set (mc_branches cfg). n' b \<le> Suc (up b)) \<and>
     stands (mc_branches cfg) hist start n' (mo_state (poll_branches pretty r cfg repo path bs m)) \<and>
     handed_over (mc_branches cfg) hist aged start n' (mo_log (poll_branches pretty r cfg repo path bs m))"
  using assms(1,3-5)
proof (induction bs arbitrary: n m)
  case (Cons b bs)
  have b: "b \<in> set (mc_branches cfg)" using Cons.prems(1) by simp
  show ?case
  proof (cases "get_upstream_hash (mr_git r) b")
    case (Inl e)
    with Cons show ?thesis by simp
  next
    case (Inr x)
    with assms(2) b have g: "git_shows (mr_git r) b (mc_max_history_days cfg) (hist b) (old b) (up b)"
      "distinct (hist b)" "old b \<le> aged b" "x = hist b ! up b" "up b < length (hist b)"
      by (fastforce simp: git_shows_def)+
    obtain i st where i: "get_mut_branch_state (mo_state m) b = (i, st)"
      by (cases "get_mut_branch_state (mo_state m) b")
    obtain s changed log1 where p:
      "poll_branch (mr_git r) (mr_client r) cfg repo (hist b ! up b) (st ! i) (mo_log m) = (s, changed, log1)"
      by (metis prod_cases3)
    note place = branch_place [OF i]
    have nb: "n b \<le> Suc (up b)" "start b \<le> n b" "bs_last_synced_commit (st ! i) = stand (hist b) (n b)"
      using Cons.prems(2,3) b place by (auto simp: stands_def)
    from poll_branch_moves [OF g(2,1) nb(1,3) p] place obtain k where
      k: "bs_branch_name s = b" "n b \<le> k" "k \<le> Suc (up b)" "bs_last_synced_commit s = stand (hist b) k"
      "taken_commits log1 = taken_commits (mo_log m) @ drop (max (n b) (old b)) (take k (hist b))"
      by blast
    have "stands (mc_branches cfg) hist start (n(b := k)) (st[i := s])"
      using Cons.prems(3) place k g(5) nb(2) by (auto simp: stands_def)
    moreover have "handed_over (mc_branches cfg) hist aged start (n(b := k)) log1"
      by (rule handed_over_more [where n = n and log = "mo_log m" and old = old, OF Cons.prems(4) b nb(2) k(2) g(3) k(5)])
    moreover have "\<forall>c\<in>set (mc_branches cfg). (n(b := k)) c \<le> Suc (up c)"
      using Cons.prems(2) k(3) by simp
    moreover obtain fs where m1: "poll_branches pretty r cfg repo path (b # bs) m =
        poll_branches pretty r cfg repo path bs \<lparr>mo_state = st[i := s], mo_files = fs, mo_log = log1\<rparr>"
      using Inr g(4) i p by simp
    moreover have "set bs \<subseteq> set (mc_branches cfg)"
      using Cons.prems(1) by simp
    ultimately show ?thesis
      unfolding m1 by (intro Cons.IH [of "n(b := k)"]; (assumption | simp only: monitor.simps))
  qed
qed auto

lemma poll_once_skipped:
  "monitor_fetch_all (mr_git r) = Inl e \<Longrightarrow> snd (poll_once pretty r cfg repo path m) = m"
  "mc_branches cfg = [b] \<Longrightarrow> get_upstream_hash (mr_git r) b = Inl e \<Longrightarrow>
     snd (poll_once pretty r cfg repo path m) = m"
  by (simp_all add: poll_once_def split: sum.splits)

lemma poll_once_hands_over:
  assumes "git_answers (mr_git r) cfg hist old up"
    and "\<forall>b\<in>set (mc_branches cfg). distinct (hist b) \<and> old b \<le> aged b"
    and "\<forall>b\<in>set (mc_branches cfg). n b \<le> Suc (up b)"
    and "stands (mc_branches cfg) hist start n (mo_state m)"
    and "handed_over (mc_branches cfg) hist aged start n (mo_log m)"
  shows "\<exists>n'. (\<forall>b\<in>set (mc_branches cfg). n' b \<le> Suc (up b)) \<and>
     stands (mc_branches cfg) hist start n' (mo_state (snd (poll_once pretty r cfg repo path m))) \<and>
     handed_over (mc_branches cfg) hist aged start n' (mo_log (snd (poll_once pretty r cfg repo path m)))"
proof (cases "monitor_fetch_all (mr_git r)")
  case (Inl e)
  with assms(3-5) show ?thesis by (auto simp: poll_once_skipped)
next
  case (Inr x)
  with assms(1,2) have "\<forall>b\<in>set (mc_branches cfg). distinct (hist b) \<and> old b \<le> aged b \<and>
           ((\<exists>e. get_upstream_hash (mr_git r) b = Inl e) \<or>
            git_shows (mr_git r) b (mc_max_history_days cfg) (hist b) (old b) (up b))"
    by (auto simp: git_answers_def)
  from poll_branches_hand_over [OF subset_refl this assms(3-5)] Inr show ?thesis
    by (simp add: poll_once_def)
qed

lemma rounds_hand_over:
  assumes "\<forall>b\<in>set (mc_branches cfg). distinct (hist b)"
    and "list_all2 (\<lambda>q (old, up). git_answers (mr_git (snd q)) cfg hist old up) rs gs"
    and "\<forall>b\<in>set (mc_branches cfg). sorted (List.map (\<lambda>g. snd g b) gs)"
    and "\<forall>g\<in>set gs. \<forall>b\<in>set (mc_branches cfg). fst g b \<le> aged b \<and> n b \<le> Suc (snd g b)"
    and "stands (mc_branches cfg) hist start n (mo_state m)"
    and "handed_over (mc_branches cfg) hist aged start n (mo_log m)"
  shows "\<exists>n'. stands (mc_branches cfg) hist start n' (mo_state (run_rounds pretty cfg repo path rs m)) \<and>
     handed_over (mc_branches cfg) hist aged start n' (mo_log (run_rounds pretty cfg repo path rs m))"
  using assms(2-)
proof (induction rs arbitrary: gs n m)
  case (Cons q rs)
  obtain shut r where q: "q = (shut, r)" by (cases q)
  from Cons.prems(1) q obtain old up gs1 where gs: "gs = (old, up) # gs1"
    "git_answers (mr_git r) cfg hist old up"
    "list_all2 (\<lambda>q (old, up). git_answers (mr_git (snd q)) cfg hist old up) rs gs1"
    by (auto simp: list_all2_Cons1)
  show ?case
  proof (cases shut)
    case True
    with Cons.prems(4,5) q show ?thesis by auto
  next
    case False
    have "\<forall>b\<in>set (mc_branches cfg). distinct (hist b) \<and> old b \<le> aged b"
      "\<forall>b\<in>set (mc_branches cfg). n b \<le> Suc (up b)"
      using assms(1) Cons.prems(3) gs(1) by auto
    from poll_once_hands_over [OF gs(2) this Cons.prems(4,5)] obtain k where
      k: "\<forall>b\<in>set (mc_branches cfg). k b \<le> Suc (up b)"
      "stands (mc_branches cfg) hist start k (mo_state (snd (poll_once pretty r cfg repo path m)))"
      "handed_over (mc_branches cfg) hist aged start k (mo_log (snd (poll_once pretty r cfg repo path m)))"
      by blast
    have "\<forall>g\<in>set gs1. \<forall>b\<in>set (mc_branches cfg). fst g b \<le> aged b \<and> k b \<le> Suc (snd g b)"
      using k(1) Cons.prems(2,3) gs(1) by fastforce
    with Cons.IH [OF gs(3) _ _ k(2,3)] Cons.prems(2) gs(1) False q show ?thesis
      by simp
  qed
qed auto

text \<open>C25. The branches only grow, by histories in a line, and a daemon is started that has come to number
  \<open>start b\<close> of the commits of branch \<open>b\<close>. After any rounds, with whatever failures of git, of the client and
  of the disk, every branch stands at some number \<open>n b\<close> of its commits, and the commits the client took are, branch
  by branch, commits from \<open>start b\<close> to \<open>n b\<close> in the order of the history and once each, mixed in any way. Left
  out between the two are at most commits that were older than the days of the configuration in some round, with
  numbers below \<open>aged b\<close>. It is assumed that the commits of a history are different, that the upstream never goes
  back, and that git lists the commits of the range without those that are too old, which are the first \<open>old b\<close> of the
  branch, or else fails.\<close>

theorem commits_in_order:
  assumes "\<forall>b\<in>set (mc_branches cfg). distinct (hist b) \<and> start b \<le> length (hist b) \<and>
             reached (mo_state m) b = stand (hist b) (start b)" "mo_log m = []"
    and "list_all2 (\<lambda>q (old, up). git_answers (mr_git (snd q)) cfg hist old up) rs gs"
    and "\<forall>b\<in>set (mc_branches cfg). sorted (List.map (\<lambda>g. snd g b) gs)"
    and "\<forall>g\<in>set gs. \<forall>b\<in>set (mc_branches cfg). fst g b \<le> aged b \<and> start b \<le> Suc (snd g b)"
  shows "\<exists>n. stands (mc_branches cfg) hist start n (mo_state (run_rounds pretty cfg repo path rs m)) \<and>
     handed_over (mc_branches cfg) hist aged start n (mo_log (run_rounds pretty cfg repo path rs m))"
proof (rule rounds_hand_over [where gs = gs and n = start])
  show "stands (mc_branches cfg) hist start start (mo_state m)"
    using assms(1) by (simp add: stands_def)
  show "handed_over (mc_branches cfg) hist aged start start (mo_log m)"
    unfolding handed_over_def using assms(2) by (intro exI [of _ "[]"] exI [of _ "\<lambda>_. {}"]) simp
qed (use assms in auto)

text \<open>When everything works in a round, and the branch has not been given up, all its commits are handed
  over.\<close>

lemma sync_loop_always:
  "(\<And>l a. cli l a) \<Longrightarrow> sync_loop cli args n r log = (True, log @ [(args, True)])"
  by (simp add: sync_loop.simps [of cli args n r log])

lemma sync_commits_always:
  "(\<And>l a. cli l a) \<Longrightarrow>
     \<exists>s1 ch log1. sync_commits cli cfg repo cs s changed log = (s1, ch, True, log1)"
  by (induction cs arbitrary: s changed log) (simp_all add: execute_sync_def sync_loop_always)

text \<open>So the branch stands at its upstream and all the commits that git lists have been taken.\<close>

lemma poll_branch_works:
  assumes "poll_branch git cli cfg repo upstream s log = (s1, changed, log1)" "\<And>l a. cli l a"
    and "\<not> up_to_date upstream s" "bs_retry_count s < mc_max_retries cfg"
    and "get_new_commits git (bs_last_synced_commit s) upstream (mc_max_history_days cfg) = Inr cs"
  shows "taken_commits log1 = taken_commits log @ cs \<and>
    s1 = s\<lparr>bs_last_synced_commit := Some upstream, bs_retry_count := 0\<rparr>"
proof -
  obtain s2 ch log2 where c: "sync_commits cli cfg repo cs s False log = (s2, ch, True, log2)"
    using sync_commits_always [of cli] assms(2) by blast
  with assms have "log1 = log2" "s1 = s2\<lparr>bs_last_synced_commit := Some upstream, bs_retry_count := 0\<rparr>"
    by (auto simp: poll_branch_def up_to_date_def)
  with sync_commits_spec [OF c] show ?thesis by auto
qed

subsection \<open>Given up\<close>

text \<open>The message of the code says that a branch which failed too often is skipped until a new commit comes; a
  new commit changes nothing: as long as the upstream is not the very commit the branch stands at, round after
  round leaves the daemon as it is, with every client and every git.\<close>

theorem given_up_for_good:
  assumes "mc_branches cfg = [b]" "mo_state m = [s]" "bs_branch_name s = b"
    and "mc_max_retries cfg \<le> bs_retry_count s"
    and "\<forall>q\<in>set rs. \<forall>up. get_upstream_hash (mr_git (snd q)) b = Inr up \<longrightarrow> bs_last_synced_commit s \<noteq> Some up"
  shows "run_rounds pretty cfg repo path rs m = m"
  using assms(5)
proof (induction rs)
  case (Cons q rs)
  obtain shut r where q: "q = (shut, r)" by (cases q)
  have "snd (poll_once pretty r cfg repo path m) = m"
  proof (cases "get_upstream_hash (mr_git r) b")
    case (Inl e)
    with assms(1) show ?thesis by (rule poll_once_skipped(2))
  next
    case (Inr up)
    with Cons.prems q have "bs_last_synced_commit s \<noteq> Some up" by simp
    with assms(4) have "poll_branch (mr_git r) (mr_client r) cfg repo up s (mo_log m) = (s, False, mo_log m)"
      by (simp add: poll_branch_def)
    with Inr assms(1-3) show ?thesis
      by (simp add: poll_once_def split: sum.splits)
  qed
  with Cons q show ?case by simp
qed simp

subsection \<open>The state file\<close>

lemma branch_json_read: "bs_retry_count s < 2 ^ 32 \<Longrightarrow> branch_of_json (branch_json s) = Some s"
  by (cases "bs_last_synced_commit s") (simp_all add: branch_json_def get_str_def jopt_def)

lemma state_json_read: "\<forall>s\<in>set st. bs_retry_count s < 2 ^ 32 \<Longrightarrow> state_of_json (state_json st) = Some st"
proof -
  have "\<forall>s\<in>set st. bs_retry_count s < 2 ^ 32 \<Longrightarrow> branches_of_json (List.map branch_json st) = Some st"
    by (induction st) (simp_all add: branch_json_read del: branch_of_json.simps)
  then show "\<forall>s\<in>set st. bs_retry_count s < 2 ^ 32 \<Longrightarrow> state_of_json (state_json st) = Some st"
    by (simp add: state_json_def)
qed

text \<open>Saving is all or nothing: when the disk takes the file, reading it back gives the state that was
  saved, and when the write or the rename fails, the file still holds what it held; no file but it and its
  temporary neighbour is touched.\<close>

theorem save_atomic:
  assumes "parse (pretty (state_json st)) = Some (state_json st)" "\<forall>s\<in>set st. bs_retry_count s < 2 ^ 32"
    and "save pretty disk path st fs = (ok, fs1)"
  shows "load parse fs1 path = (if ok then Some st else load parse fs path) \<and>
    (\<forall>q. q \<noteq> path \<and> q \<noteq> tmp_of path \<longrightarrow> fs1 q = fs q)"
proof -
  have t: "tmp_of path \<noteq> path" by (simp add: tmp_of_def)
  obtain written renamed where w: "disk (pretty (state_json st)) = (written, renamed)"
    by (cases "disk (pretty (state_json st))")
  from assms(3) w t have "fs1 path = (if ok then Some (pretty (state_json st)) else fs path)"
    "q \<noteq> path \<and> q \<noteq> tmp_of path \<longrightarrow> fs1 q = fs q" for q
    by (auto simp: save_def Let_def split: option.splits if_splits)
  with assms(1) state_json_read [OF assms(2)] show ?thesis
    by (auto simp: load_def simp del: state_of_json.simps)
qed

text \<open>A count of failures is only raised below the bound, so it never leaves its 32 bits.\<close>

theorem retries_bounded:
  assumes "poll_branch git cli cfg repo upstream s log = (s1, changed, log1)"
  shows "bs_retry_count s1 \<le> max (bs_retry_count s) (mc_max_retries cfg)"
proof -
  show ?thesis
  proof (cases rule: branch_cases [where upstream = upstream and s = s and cfg = cfg and git = git])
    case same
    with branch_polled_facts(1) [OF assms] show ?thesis by simp
  next
    case skipped
    with branch_polled_facts(2) [OF assms] show ?thesis by simp
  next
    case (moved cs)
    with branch_polled_facts(3) [OF assms moved] show ?thesis
      by (auto split: if_splits)
  qed
qed

subsection \<open>A small repository\<close>

text \<open>Git over two branches, with the upstream of each at number \<open>up b\<close> and the first \<open>old b\<close> commits too old,
  and a client that fails on one commit.\<close>

definition printed :: "string \<Rightarrow> io_error + Output" where
  "printed t = Inr \<lparr>out_success = True, out_stdout = t, out_stderr = []\<rparr>"

definition small_branches :: "string list" where
  "small_branches = [''main'', ''next'']"

definition small_history :: "string \<Rightarrow> string list" where
  "small_history b = (if b = ''main'' then [''a'', ''b'', ''c''] else [''d'', ''e''])"

definition small_old :: "string \<Rightarrow> nat" where
  "small_old b = (if b = ''main'' then 0 else 1)"

definition small_git :: "(string \<Rightarrow> nat) \<Rightarrow> monitor_git" where
  "small_git up args =
     (if args = [''fetch'', ''--all''] then printed []
      else if hd args = ''rev-parse'' then
        (case first (filter (\<lambda>b. args = [''rev-parse'', upstream_name b]) small_branches) of
           Some b \<Rightarrow> printed (small_history b ! up b @ [CHR 0x0A])
         | None \<Rightarrow> Inl (OtherIo ''no such branch''))
      else (case first (filter (\<lambda>(b, k). args = new_commit_args (stand (small_history b) k) (small_history b ! up b) 180)
                         (List.concat (List.map (\<lambda>b. List.map (Pair b) [0..<Suc (up b)]) small_branches))) of
              Some (b, k) \<Rightarrow> printed (unlines (drop (max k (small_old b)) (take (Suc (up b)) (small_history b))))
            | None \<Rightarrow> Inl (OtherIo ''no such commit'')))"

definition small_client :: "string \<Rightarrow> client" where
  "small_client bad log args = (last args \<noteq> bad)"

definition small_config :: MonitorConfig where
  "small_config =
     config_of \<lparr>cv_string = (\<lambda>_. None), cv_int = (\<lambda>_. None), cv_array = (\<lambda>_. Some (List.map Some small_branches))\<rparr>"

lemma small_config_values:
  "mc_branches small_config = [''main'', ''next'']" "mc_max_retries small_config = 3"
  "mc_max_history_days small_config = 180"
  by (simp_all add: small_config_def config_of_def or_default_def as_unsigned_def small_branches_def
      map_filter_def)

definition small_round :: "(string \<Rightarrow> nat) \<Rightarrow> string \<Rightarrow> monitor_round" where
  "small_round up bad = \<lparr>mr_git = small_git up, mr_client = small_client bad, mr_disk = (\<lambda>_. (None, True))\<rparr>"

definition no_monitor :: monitor where
  "no_monitor = \<lparr>mo_state = [], mo_files = (\<lambda>_. None), mo_log = []\<rparr>"

definition small_answers :: "(string \<Rightarrow> nat) \<Rightarrow> bool" where
  "small_answers up \<longleftrightarrow>
     list_all (\<lambda>b. up b < length (small_history b) \<and>
       get_upstream_hash (small_git up) b = Inr (small_history b ! up b) \<and>
       list_all (\<lambda>k. get_new_commits (small_git up) (stand (small_history b) k) (small_history b ! up b) 180 =
                    Inr (drop (max k (small_old b)) (take (Suc (up b)) (small_history b)))) [0..<Suc (up b)])
       small_branches"

text \<open>Both branches have two commits; then \<open>main\<close> gets a third.\<close>

definition early :: "string \<Rightarrow> nat" where
  "early b = 1"

definition later :: "string \<Rightarrow> nat" where
  "later b = (if b = ''main'' then 2 else 1)"

lemma small_evaluated: "small_answers early" "small_answers later"
  by code_simp+

lemma small_shows:
  assumes "small_answers up" "b \<in> set small_branches"
  shows "git_shows (small_git up) b 180 (small_history b) (small_old b) (up b)"
  using assms by (force simp: small_answers_def git_shows_def list_all_iff simp del: upt_Suc)

lemma small_git_answers: "small_answers up \<Longrightarrow> git_answers (small_git up) small_config small_history small_old up"
  using small_shows by (simp add: git_answers_def small_config_values small_branches_def)

text \<open>The client fails on \<open>b\<close> in the first two rounds, and takes it in the third.\<close>

definition small_rounds :: "(bool \<times> monitor_round) list" where
  "small_rounds = [(False, small_round early ''b''), (False, small_round early ''b''), (False, small_round later ''x'')]"

definition small_pretty :: "json \<Rightarrow> string" where
  "small_pretty v = []"

theorem commits_in_order_witness:
  "(\<exists>n. stands [''main'', ''next''] small_history (\<lambda>_. 0) n
      (mo_state (run_rounds small_pretty small_config ''/r'' ''s'' small_rounds no_monitor)) \<and>
    handed_over [''main'', ''next''] small_history small_old (\<lambda>_. 0) n
      (mo_log (run_rounds small_pretty small_config ''/r'' ''s'' small_rounds no_monitor))) \<and>
   taken_commits (mo_log (run_rounds small_pretty small_config ''/r'' ''s'' small_rounds no_monitor)) =
     [''a'', ''e'', ''b'', ''c'']"
proof (rule conjI)
  have "\<exists>n. stands (mc_branches small_config) small_history (\<lambda>_. 0) n
      (mo_state (run_rounds small_pretty small_config ''/r'' ''s'' small_rounds no_monitor)) \<and>
    handed_over (mc_branches small_config) small_history small_old (\<lambda>_. 0) n
      (mo_log (run_rounds small_pretty small_config ''/r'' ''s'' small_rounds no_monitor))"
    by (rule commits_in_order [where gs = "[(small_old, early), (small_old, early), (small_old, later)]"])
      (use small_git_answers [OF small_evaluated(1)] small_git_answers [OF small_evaluated(2)] in
        \<open>simp_all add: small_rounds_def small_round_def small_config_values small_history_def early_def later_def
           reached_def get_branch_state_def no_monitor_def stand_def\<close>)
  then show "\<exists>n. stands [''main'', ''next''] small_history (\<lambda>_. 0) n
      (mo_state (run_rounds small_pretty small_config ''/r'' ''s'' small_rounds no_monitor)) \<and>
    handed_over [''main'', ''next''] small_history small_old (\<lambda>_. 0) n
      (mo_log (run_rounds small_pretty small_config ''/r'' ''s'' small_rounds no_monitor))"
    by (simp only: small_config_values)
qed code_simp

theorem branch_polled_witness:
  "\<exists>s1 log1. poll_branch (small_git early) (small_client ''b'') small_config ''/r'' ''b'' (new_branch ''main'') [] =
     (s1, True, log1) \<and> taken_commits log1 \<in> {[], [''a''], [''a'', ''b'']} \<and>
     bs_retry_count s1 \<le> 1"
proof -
  obtain s1 ch log1 where p:
    "poll_branch (small_git early) (small_client ''b'') small_config ''/r'' ''b'' (new_branch ''main'') [] = (s1, ch, log1)"
    by (metis prod_cases3)
  have l: "get_new_commits (small_git early) (bs_last_synced_commit (new_branch ''main'')) ''b''
      (mc_max_history_days small_config) = Inr [''a'', ''b'']"
    by code_simp
  have "\<not> up_to_date ''b'' (new_branch ''main'')" "bs_retry_count (new_branch ''main'') < mc_max_retries small_config"
    by (simp_all add: up_to_date_def new_branch_def small_config_values)
  with l have r: "ch \<and> (\<exists>k\<le>length [''a'', ''b'']. taken_commits log1 = taken_commits [] @ take k [''a'', ''b''] \<and>
      (if k = length [''a'', ''b'']
       then s1 = (new_branch ''main'')\<lparr>bs_last_synced_commit := Some ''b'', bs_retry_count := 0\<rparr>
       else s1 = (new_branch ''main'')\<lparr>bs_last_synced_commit :=
                   last_of (bs_last_synced_commit (new_branch ''main'')) (take k [''a'', ''b'']),
                 bs_retry_count := bs_retry_count (new_branch ''main'') + 1\<rparr> \<and>
            gave_up small_config ''/r'' ([''a'', ''b''] ! k) log1))"
    using conjunct2 [OF conjunct2 [OF branch_polled [OF p]]] by blast
  then obtain k where k: "k \<le> length [''a'', ''b'']" "taken_commits log1 = taken_commits [] @ take k [''a'', ''b'']"
    and c: "if k = length [''a'', ''b'']
       then s1 = (new_branch ''main'')\<lparr>bs_last_synced_commit := Some ''b'', bs_retry_count := 0\<rparr>
       else s1 = (new_branch ''main'')\<lparr>bs_last_synced_commit :=
                   last_of (bs_last_synced_commit (new_branch ''main'')) (take k [''a'', ''b'']),
                 bs_retry_count := bs_retry_count (new_branch ''main'') + 1\<rparr> \<and>
            gave_up small_config ''/r'' ([''a'', ''b''] ! k) log1"
    by blast
  from c have "bs_retry_count s1 \<le> 1"
    by (auto simp: new_branch_def split: if_splits)
  with k have "ch" "k \<le> 2" "taken_commits log1 = take k [''a'', ''b'']" "bs_retry_count s1 \<le> 1"
    using r by simp_all
  moreover from this(2) have "k = 0 \<or> k = 1 \<or> k = 2" by arith
  ultimately show ?thesis
    using p by auto
qed

theorem save_atomic_witness:
  "\<exists>fs1. save (\<lambda>_. ''x'') (\<lambda>_. (None, True)) ''s'' [new_branch ''main''] (\<lambda>_. None) = (True, fs1) \<and>
     load (\<lambda>_. Some (state_json [new_branch ''main''])) fs1 ''s'' = Some [new_branch ''main'']"
proof -
  obtain fs1 where s: "save (\<lambda>_. ''x'') (\<lambda>_. (None, True)) ''s'' [new_branch ''main''] (\<lambda>_. None) = (True, fs1)"
    by (simp add: save_def)
  have "load (\<lambda>_. Some (state_json [new_branch ''main''])) fs1 ''s'' =
      (if True then Some [new_branch ''main'']
       else load (\<lambda>_. Some (state_json [new_branch ''main''])) (\<lambda>_. None) ''s'')"
    by (rule conjunct1 [OF save_atomic [OF _ _ s]]) (simp_all add: new_branch_def)
  with s show ?thesis by simp
qed

end
