(* ===== verification/Dashboard.thy ===== *)
theory Dashboard
  imports Prelude "HOL-Library.List_Lexorder" "HOL-Library.Char_ord" "HOL-Library.Word"
begin

text \<open>
  The server of \<open>my-src/src/my-server\<close>, which keeps a list of review servers and shows figures gathered from
  all of them: the table of servers (\<open>dal.rs\<close>), its handlers and environment variables (\<open>lib.rs\<close>), and the
  gathering with its cache (\<open>aggregator.rs\<close>). What a remote server answers is an argument. Sums are kept in
  the width the code keeps them in, as in a release build, where they wrap.
\<close>

subsection \<open>The servers (\<open>models.rs\<close>, \<open>dal.rs\<close>)\<close>

record RemoteServerConfig =
  sc_id :: "int option"
  sc_name :: string
  sc_ip :: string
  sc_web_port :: "16 word"
  sc_description :: string

text \<open>A row always has an id. \<open>AUTOINCREMENT\<close>: a new id is above every id ever given out, which
  \<open>sr_last\<close> remembers.\<close>

record server_row =
  so_id :: int
  so_name :: string
  so_ip :: string
  so_web_port :: "16 word"
  so_description :: string

record servers =
  sr_rows :: "server_row list"
  sr_last :: int

definition no_servers :: servers where
  "no_servers = \<lparr>sr_rows = [], sr_last = 0\<rparr>"

definition server_of :: "server_row \<Rightarrow> RemoteServerConfig" where
  "server_of r = \<lparr>sc_id = Some (so_id r), sc_name = so_name r, sc_ip = so_ip r, sc_web_port = so_web_port r,
                  sc_description = so_description r\<rparr>"

definition row_of :: "int \<Rightarrow> RemoteServerConfig \<Rightarrow> server_row" where
  "row_of i s = \<lparr>so_id = i, so_name = sc_name s, so_ip = sc_ip s, so_web_port = sc_web_port s,
                 so_description = sc_description s\<rparr>"

definition list_servers :: "servers \<Rightarrow> RemoteServerConfig list" where
  "list_servers t = List.map server_of (sr_rows t)"

definition get_server :: "int \<Rightarrow> servers \<Rightarrow> RemoteServerConfig option" where
  "get_server i t = map_option server_of (first (filter (\<lambda>r. so_id r = i) (sr_rows t)))"

definition insert_server :: "RemoteServerConfig \<Rightarrow> servers \<Rightarrow> int \<times> servers" where
  "insert_server s t =
     (let i = foldr max (List.map so_id (sr_rows t)) (sr_last t) + 1
      in (i, \<lparr>sr_rows = sr_rows t @ [row_of i s], sr_last = i\<rparr>))"

definition change_server :: "int \<Rightarrow> RemoteServerConfig \<Rightarrow> servers \<Rightarrow> servers" where
  "change_server i s t =
     t\<lparr>sr_rows := List.map (\<lambda>r. if so_id r = i then row_of i s else r) (sr_rows t)\<rparr>"

definition remove_server :: "int \<Rightarrow> servers \<Rightarrow> servers" where
  "remove_server i t = t\<lparr>sr_rows := filter (\<lambda>r. so_id r \<noteq> i) (sr_rows t)\<rparr>"

subsection \<open>Environment and handlers (\<open>lib.rs\<close>)\<close>

definition DEFAULT_PORT :: nat where "DEFAULT_PORT = 3000"

definition DEFAULT_HOST :: string where "DEFAULT_HOST = ''0.0.0.0''"

definition DEFAULT_WEBUI_DIR :: string where "DEFAULT_WEBUI_DIR = ''src/my-server/webui''"

definition parse_u16 :: "string \<Rightarrow> nat option" where
  "parse_u16 s = Option.bind (parse_u32 s) (\<lambda>n. if n < 2 ^ 16 then Some n else None)"

definition parse_port :: "string option \<Rightarrow> nat" where
  "parse_port v =
     (case Option.bind v (\<lambda>s. parse_u16 (trim s)) of
        Some p \<Rightarrow> if p \<noteq> 0 then p else DEFAULT_PORT
      | None \<Rightarrow> DEFAULT_PORT)"

text \<open>\<open>parse_ip\<close> reads an address; the model keeps the text of the address.\<close>

definition parse_host :: "(string \<Rightarrow> string option) \<Rightarrow> string option \<Rightarrow> string" where
  "parse_host parse_ip v =
     (case Option.bind v (\<lambda>s. parse_ip (trim s)) of Some a \<Rightarrow> a | None \<Rightarrow> DEFAULT_HOST)"

definition pick_webui_dir :: "string option \<Rightarrow> string" where
  "pick_webui_dir v =
     (case v of
        Some s \<Rightarrow> if trim s \<noteq> [] then trim s else DEFAULT_WEBUI_DIR
      | None \<Rightarrow> DEFAULT_WEBUI_DIR)"

definition create_server :: "RemoteServerConfig \<Rightarrow> servers \<Rightarrow> RemoteServerConfig \<times> servers" where
  "create_server payload t =
     (case insert_server payload t of (i, t1) \<Rightarrow> (payload\<lparr>sc_id := Some i\<rparr>, t1))"

definition update_server :: "int \<Rightarrow> RemoteServerConfig \<Rightarrow> servers \<Rightarrow> RemoteServerConfig \<times> servers" where
  "update_server i payload t = (payload, change_server i payload t)"

definition delete_server :: "int \<Rightarrow> servers \<Rightarrow> string \<times> servers" where
  "delete_server i t = (''success'', remove_server i t)"

subsection \<open>Gathering (\<open>aggregator.rs\<close>)\<close>

text \<open>Of the answers, the members that are used.\<close>

record RemoteStats =
  rm_status :: string
  rm_patchsets :: "64 word option"

record RemoteFindings =
  rf_total :: "32 word"
  rf_not_issue :: "32 word"
  rf_to_fix :: "32 word"
  rf_fixed :: "32 word"

record TimelinePoint =
  tp_day :: string
  tp_count :: "32 word"

record remote =
  re_stats :: "string \<Rightarrow> string + RemoteStats"
  re_findings :: "string \<Rightarrow> string + RemoteFindings"
  re_timeline :: "string \<Rightarrow> string + TimelinePoint list"

record server_answer =
  an_server :: RemoteServerConfig
  an_online :: bool
  an_stats :: "string + RemoteStats"
  an_findings :: "string + RemoteFindings"
  an_timeline :: "string + TimelinePoint list"

definition base_url :: "RemoteServerConfig \<Rightarrow> string" where
  "base_url s = ''http://'' @ sc_ip s @ '':'' @ show_nat (unat (sc_web_port s))"

definition fetch_server :: "remote \<Rightarrow> RemoteServerConfig \<Rightarrow> server_answer" where
  "fetch_server re s =
     (let url = base_url s; stats_res = re_stats re (url @ ''/api/stats'')
      in \<lparr>an_server = s,
          an_online = (case stats_res of Inr st \<Rightarrow> rm_status st = ''ok'' | Inl _ \<Rightarrow> False),
          an_stats = stats_res,
          an_findings = re_findings re (url @ ''/api/stats/findings''),
          an_timeline = re_timeline re (url @ ''/api/stats/timeline'')\<rparr>)"

record ServerCard =
  ca_id :: int
  ca_name :: string
  ca_ip :: string
  ca_web_port :: "16 word"
  ca_description :: string
  ca_online :: bool

text \<open>\<open>da_avg_accuracy\<close> keeps the two numbers whose quotient is taken, and \<open>None\<close> for 0.0.\<close>

record DashboardStats =
  da_total_patchsets :: "64 word"
  da_total_issues :: "32 word"
  da_avg_accuracy :: "(32 word \<times> 32 word) option"
  da_online_servers :: "32 word"
  da_offline_servers :: "32 word"
  da_pie_chart_data :: "(string \<times> 32 word) list"
  da_trend_days :: "string list"
  da_trend_series :: "(string \<times> 32 word list) list"
  da_servers :: "ServerCard list"

text \<open>The counts of a server by day: the map, as an association list without doubles.\<close>

fun add_day :: "string \<Rightarrow> 32 word \<Rightarrow> (string \<times> 32 word) list \<Rightarrow> (string \<times> 32 word) list" where
  "add_day d n [] = [(d, 0 + n)]"
| "add_day d n ((e, k) # xs) = (if e = d then (e, k + n) # xs else (e, k) # add_day d n xs)"

definition server_day_counts :: "string + TimelinePoint list \<Rightarrow> (string \<times> 32 word) list" where
  "server_day_counts t =
     (case t of
        Inr pts \<Rightarrow> fold (\<lambda>p xs. add_day (tp_day p) (tp_count p) xs) pts []
      | Inl _ \<Rightarrow> [])"

definition days_in :: "string + TimelinePoint list \<Rightarrow> string list" where
  "days_in t = (case t of Inr pts \<Rightarrow> List.map tp_day pts | Inl _ \<Rightarrow> [])"

text \<open>The variables of the loop.\<close>

record totals =
  to_patchsets :: "64 word"
  to_issues :: "32 word"
  to_not_issue :: "32 word"
  to_to_fix :: "32 word"
  to_fixed :: "32 word"
  to_online :: "32 word"
  to_offline :: "32 word"
  to_pie :: "(string \<times> 32 word) list"
  to_cards :: "ServerCard list"
  to_per_server :: "(string \<times> (string \<times> 32 word) list) list"
  to_days :: "string set"

definition no_totals :: totals where
  "no_totals =
     \<lparr>to_patchsets = 0, to_issues = 0, to_not_issue = 0, to_to_fix = 0, to_fixed = 0, to_online = 0,
      to_offline = 0, to_pie = [], to_cards = [], to_per_server = [], to_days = {}\<rparr>"

definition card_of :: "server_answer \<Rightarrow> ServerCard" where
  "card_of a =
     (let s = an_server a
      in \<lparr>ca_id = (case sc_id s of Some i \<Rightarrow> i | None \<Rightarrow> 0), ca_name = sc_name s, ca_ip = sc_ip s,
          ca_web_port = sc_web_port s, ca_description = sc_description s, ca_online = an_online a\<rparr>)"

definition add_answer :: "server_answer \<Rightarrow> totals \<Rightarrow> totals" where
  "add_answer a t =
     (let t1 = (if an_online a then t\<lparr>to_online := to_online t + 1\<rparr> else t\<lparr>to_offline := to_offline t + 1\<rparr>);
          t2 = (case an_stats a of
                  Inr s \<Rightarrow> t1\<lparr>to_patchsets := to_patchsets t1 + (case rm_patchsets s of Some n \<Rightarrow> n | None \<Rightarrow> 0)\<rparr>
                | Inl _ \<Rightarrow> t1);
          server_issues = (case an_findings a of Inr f \<Rightarrow> rf_total f | Inl _ \<Rightarrow> 0);
          t3 = (case an_findings a of
                  Inr f \<Rightarrow> t2\<lparr>to_issues := to_issues t2 + rf_total f,
                             to_not_issue := to_not_issue t2 + rf_not_issue f,
                             to_to_fix := to_to_fix t2 + rf_to_fix f,
                             to_fixed := to_fixed t2 + rf_fixed f\<rparr>
                | Inl _ \<Rightarrow> t2)
      in t3\<lparr>to_days := to_days t3 \<union> set (days_in (an_timeline a)),
            to_per_server := to_per_server t3 @ [(sc_name (an_server a), server_day_counts (an_timeline a))],
            to_pie := to_pie t3 @ [(sc_name (an_server a), server_issues)],
            to_cards := to_cards t3 @ [card_of a]\<rparr>)"

definition stats_of :: "totals \<Rightarrow> DashboardStats" where
  "stats_of t =
     (let denominator = to_not_issue t + to_to_fix t + to_fixed t;
          trend_days = sorted_list_of_set (to_days t)
      in \<lparr>da_total_patchsets = to_patchsets t,
          da_total_issues = to_issues t,
          da_avg_accuracy = (if denominator = 0 then None else Some (to_to_fix t + to_fixed t, denominator)),
          da_online_servers = to_online t,
          da_offline_servers = to_offline t,
          da_pie_chart_data = to_pie t,
          da_trend_days = trend_days,
          da_trend_series =
            List.map (\<lambda>(name, counts).
              (name, List.map (\<lambda>d. case map_of counts d of Some n \<Rightarrow> n | None \<Rightarrow> 0) trend_days))
              (to_per_server t),
          da_servers = to_cards t\<rparr>)"

definition process_results :: "server_answer list \<Rightarrow> DashboardStats" where
  "process_results results = stats_of (fold add_answer results no_totals)"

text \<open>The cache holds the last figures with their time, in nanoseconds. \<open>started\<close> is the time of the check
  and \<open>ended\<close> the time after the fetches.\<close>

definition aggregate ::
  "remote \<Rightarrow> nat \<Rightarrow> nat \<Rightarrow> RemoteServerConfig list \<Rightarrow> (nat \<times> DashboardStats) option \<Rightarrow>
     DashboardStats \<times> (nat \<times> DashboardStats) option" where
  "aggregate re started ended servers cache =
     (let fresh = (let stats = process_results (List.map (fetch_server re) servers)
                   in (stats, Some (ended, stats)))
      in case cache of
           Some (timestamp, stats) \<Rightarrow>
             if started - timestamp < 30 * 1000000000 then (stats, cache) else fresh
         | None \<Rightarrow> fresh)"

definition get_dashboard_stats ::
  "remote \<Rightarrow> nat \<Rightarrow> nat \<Rightarrow> servers \<Rightarrow> (nat \<times> DashboardStats) option \<Rightarrow>
     DashboardStats \<times> (nat \<times> DashboardStats) option" where
  "get_dashboard_stats re started ended t cache = aggregate re started ended (list_servers t) cache"

subsection \<open>The table of servers\<close>

text \<open>What the table promises: ids are distinct, positive and at most the last one given out.\<close>

definition servers_ok :: "servers \<Rightarrow> bool" where
  "servers_ok t \<longleftrightarrow> distinct (List.map so_id (sr_rows t)) \<and> (\<forall>r\<in>set (sr_rows t). 0 < so_id r \<and> so_id r \<le> sr_last t) \<and>
     0 \<le> sr_last t"

lemma insert_id:
  "servers_ok t \<Longrightarrow> insert_server s t = (sr_last t + 1, \<lparr>sr_rows = sr_rows t @ [row_of (sr_last t + 1) s], sr_last = sr_last t + 1\<rparr>)"
proof -
  have "\<forall>i\<in>set is. i \<le> b \<Longrightarrow> foldr max is b = b" for "is" and b :: int
    by (induction "is") auto
  then show "servers_ok t \<Longrightarrow> ?thesis"
    by (simp add: insert_server_def servers_ok_def Let_def)
qed

lemma map_id_change:
  "List.map so_id (List.map (\<lambda>r. if so_id r = i then row_of i s else r) rows) = List.map so_id rows"
  by (simp add: row_of_def)

lemma servers_ok_kept:
  "servers_ok no_servers"
  "servers_ok t \<Longrightarrow> servers_ok (snd (create_server s t))"
  "servers_ok t \<Longrightarrow> servers_ok (snd (update_server i s t))"
  "servers_ok t \<Longrightarrow> servers_ok (snd (delete_server i t))"
proof -
  show "servers_ok no_servers" by (simp add: servers_ok_def no_servers_def)
  show "servers_ok (snd (create_server s t))" if "servers_ok t"
    using that insert_id [OF that] by (force simp: create_server_def servers_ok_def row_of_def)
  show "servers_ok (snd (update_server i s t))" if "servers_ok t"
    using that unfolding servers_ok_def update_server_def change_server_def snd_conv
    by (simp add: map_id_change del: map_map) (auto simp: row_of_def)
  show "servers_ok (snd (delete_server i t))" if "servers_ok t"
    using that by (auto simp: servers_ok_def delete_server_def remove_server_def distinct_map_filter)
qed

datatype server_op = Create RemoteServerConfig | Update int RemoteServerConfig | Delete int

fun run_ops :: "server_op list \<Rightarrow> servers \<Rightarrow> int list \<times> servers" where
  "run_ops [] t = ([], t)"
| "run_ops (Create s # ops) t =
     (case create_server s t of (s1, t1) \<Rightarrow>
        (case run_ops ops t1 of (created, t2) \<Rightarrow> (the (sc_id s1) # created, t2)))"
| "run_ops (Update i s # ops) t = run_ops ops (snd (update_server i s t))"
| "run_ops (Delete i # ops) t = run_ops ops (snd (delete_server i t))"

lemma last_kept [simp]:
  "sr_last (snd (update_server i s t)) = sr_last t" "sr_last (snd (delete_server i t)) = sr_last t"
  by (simp_all add: update_server_def change_server_def delete_server_def remove_server_def)

lemma run_ops_created:
  "servers_ok t \<Longrightarrow> run_ops ops t = (created, t1) \<Longrightarrow>
     servers_ok t1 \<and> sorted_wrt (<) created \<and> (\<forall>i\<in>set created. sr_last t < i) \<and> sr_last t \<le> sr_last t1 \<and>
     (\<forall>i\<in>set created. i \<le> sr_last t1)"
proof (induction ops t arbitrary: created rule: run_ops.induct)
  case (2 s ops t)
  obtain created1 where r: "run_ops ops (snd (create_server s t)) = (created1, t1)"
    "created = (sr_last t + 1) # created1"
    using 2(3) insert_id [OF 2(2)]
    by (cases "run_ops ops (snd (create_server s t))") (auto simp: create_server_def)
  have l: "sr_last (snd (create_server s t)) = sr_last t + 1"
    by (simp add: create_server_def insert_id [OF 2(2)])
  have c: "create_server s t = (fst (create_server s t), snd (create_server s t))" by simp
  from 2(1) [OF c [symmetric] servers_ok_kept(2) [OF 2(2)] r(1)] l r(2) show ?case
    by auto
qed (auto simp: servers_ok_kept)

lemma get_change:
  "get_server j (change_server i s t) =
     (if j = i \<and> i \<in> set (List.map so_id (sr_rows t)) then Some (s\<lparr>sc_id := Some i\<rparr>) else get_server j t)"
proof -
  have "first (filter (\<lambda>r. so_id r = j) (List.map (\<lambda>r. if so_id r = i then row_of i s else r) rows)) =
      (if j = i \<and> i \<in> set (List.map so_id rows) then Some (row_of i s) else first (filter (\<lambda>r. so_id r = j) rows))"
    for rows
    by (induction rows) (auto simp: row_of_def)
  then show ?thesis
    by (simp add: get_server_def change_server_def server_of_def row_of_def)
qed

lemma get_remove: "get_server j (remove_server i t) = (if j = i then None else get_server j t)"
proof -
  have f: "filter (\<lambda>r. so_id r = j) (filter (\<lambda>r. so_id r \<noteq> i) rows) =
      (if j = i then [] else filter (\<lambda>r. so_id r = j) rows)" for rows
    by (induction rows) auto
  show ?thesis
    by (simp add: get_server_def remove_server_def f del: filter_filter)
qed

lemma first_concat: "first (xs @ ys) = (case first xs of None \<Rightarrow> first ys | Some x \<Rightarrow> Some x)"
  by (cases xs) simp_all

lemma get_create:
  assumes "servers_ok t"
  shows "get_server j (snd (create_server s t)) =
    (if j = sr_last t + 1 then Some (s\<lparr>sc_id := Some j\<rparr>) else get_server j t)"
proof -
  have "filter (\<lambda>r. so_id r = sr_last t + 1) (sr_rows t) = []"
    using assms by (auto simp: servers_ok_def filter_empty_conv)
  with insert_id [OF assms] show ?thesis
    by (auto simp: create_server_def get_server_def row_of_def server_of_def first_concat split: option.splits)
qed

text \<open>The table of servers: a server that is made gets an id that no server ever had, deleted ones
  included, and is found under it as it was given; a change is found under its id when there is such a server
  and changes nothing else; a deleted server is not found any more, and no other is touched.\<close>

theorem servers_table:
  assumes "run_ops ops no_servers = (created, t)"
  shows "distinct created \<and>
    (\<forall>s j. get_server j (snd (create_server s t)) =
       (if j = sr_last t + 1 then Some (s\<lparr>sc_id := Some j\<rparr>) else get_server j t) \<and> sr_last t + 1 \<notin> set created) \<and>
    (\<forall>i s j. get_server j (snd (update_server i s t)) =
       (if j = i \<and> i \<in> set (List.map so_id (sr_rows t)) then Some (s\<lparr>sc_id := Some i\<rparr>) else get_server j t)) \<and>
    (\<forall>i j. get_server j (snd (delete_server i t)) = (if j = i then None else get_server j t))"
proof -
  note r = run_ops_created [OF servers_ok_kept(1) assms]
  have "distinct created"
    using r by (simp add: strict_sorted_iff)
  moreover have "sr_last t + 1 \<notin> set created"
    using r by fastforce
  ultimately show ?thesis
    using r get_create get_change get_remove
    by (simp add: update_server_def delete_server_def)
qed

definition example_server :: "string \<Rightarrow> RemoteServerConfig" where
  "example_server n = \<lparr>sc_id = None, sc_name = n, sc_ip = ''10.0.0.1'', sc_web_port = 8080, sc_description = n\<rparr>"

theorem servers_table_witness:
  "\<exists>t. run_ops [Create (example_server ''a''), Create (example_server ''b''), Delete 2] no_servers = ([1, 2], t) \<and>
     get_server 3 (snd (create_server (example_server ''c'') t)) = Some ((example_server ''c'')\<lparr>sc_id := Some 3\<rparr>)"
proof -
  obtain t where t: "run_ops [Create (example_server ''a''), Create (example_server ''b''), Delete 2] no_servers =
      ([1, 2], t)" "sr_last t = 2"
    by (simp add: create_server_def insert_server_def delete_server_def remove_server_def no_servers_def
        row_of_def)
  from conjunct1 [OF conjunct2 [OF servers_table [OF t(1)]]] t(2)
  have "get_server 3 (snd (create_server (example_server ''c'') t)) = Some ((example_server ''c'')\<lparr>sc_id := Some 3\<rparr>)"
    by auto
  with t(1) show ?thesis by blast
qed

subsection \<open>The figures\<close>

text \<open>What a server told of its days: nothing when its timeline could not be fetched.\<close>

definition points_of :: "server_answer \<Rightarrow> TimelinePoint list" where
  "points_of a = (case an_timeline a of Inr pts \<Rightarrow> pts | Inl _ \<Rightarrow> [])"

definition findings_field :: "(RemoteFindings \<Rightarrow> 32 word) \<Rightarrow> server_answer \<Rightarrow> 32 word" where
  "findings_field f a = (case an_findings a of Inr x \<Rightarrow> f x | Inl _ \<Rightarrow> 0)"

definition finding_sum :: "(RemoteFindings \<Rightarrow> 32 word) \<Rightarrow> server_answer list \<Rightarrow> 32 word" where
  "finding_sum f rs = sum_list (List.map (findings_field f) rs)"

definition patchsets_of :: "server_answer \<Rightarrow> 64 word" where
  "patchsets_of a =
     (case an_stats a of
        Inr s \<Rightarrow> (case rm_patchsets s of Some n \<Rightarrow> n | None \<Rightarrow> 0)
      | Inl _ \<Rightarrow> 0)"

definition day_total :: "string \<Rightarrow> TimelinePoint list \<Rightarrow> 32 word" where
  "day_total d pts = sum_list (List.map tp_count (filter (\<lambda>p. tp_day p = d) pts))"

lemma add_day_lookup:
  "(case map_of (add_day e n xs) d of Some k \<Rightarrow> k | None \<Rightarrow> 0) =
     (case map_of xs d of Some k \<Rightarrow> k | None \<Rightarrow> 0) + (if e = d then n else 0)"
proof (induction xs)
  case (Cons x xs)
  then show ?case
    by (cases x; cases "fst x = e"; cases "fst x = d") simp_all
qed simp

lemma fold_days_lookup:
  "(case map_of (fold (\<lambda>p xs. add_day (tp_day p) (tp_count p) xs) pts xs) d of Some k \<Rightarrow> k | None \<Rightarrow> 0) =
     (case map_of xs d of Some k \<Rightarrow> k | None \<Rightarrow> 0) + day_total d pts"
proof (induction pts arbitrary: xs)
  case (Cons p pts)
  have t: "day_total d (p # pts) = (if tp_day p = d then tp_count p else 0) + day_total d pts"
    by (simp add: day_total_def)
  show ?case
    unfolding fold_simps(2) Cons.IH add_day_lookup t by (simp only: add.assoc)
qed (simp add: day_total_def)

lemma day_counts_lookup:
  "(case map_of (server_day_counts (an_timeline a)) d of Some k \<Rightarrow> k | None \<Rightarrow> 0) = day_total d (points_of a)"
  using fold_days_lookup [where xs = "[]"]
  by (simp add: server_day_counts_def points_of_def split: sum.splits) (simp add: day_total_def)

lemma add_answer_fields:
  "to_patchsets (add_answer a t) = to_patchsets t + patchsets_of a"
  "to_issues (add_answer a t) = to_issues t + findings_field rf_total a"
  "to_not_issue (add_answer a t) = to_not_issue t + findings_field rf_not_issue a"
  "to_to_fix (add_answer a t) = to_to_fix t + findings_field rf_to_fix a"
  "to_fixed (add_answer a t) = to_fixed t + findings_field rf_fixed a"
  "to_online (add_answer a t) = to_online t + (if an_online a then 1 else 0)"
  "to_offline (add_answer a t) = to_offline t + (if an_online a then 0 else 1)"
  "to_pie (add_answer a t) = to_pie t @ [(sc_name (an_server a), findings_field rf_total a)]"
  "to_cards (add_answer a t) = to_cards t @ [card_of a]"
  "to_per_server (add_answer a t) = to_per_server t @ [(sc_name (an_server a), server_day_counts (an_timeline a))]"
  "to_days (add_answer a t) = to_days t \<union> tp_day ` set (points_of a)"
proof -
  have d: "set (days_in (an_timeline a)) = tp_day ` set (points_of a)"
    by (cases "an_timeline a") (simp_all add: days_in_def points_of_def)
  show
    "to_patchsets (add_answer a t) = to_patchsets t + patchsets_of a"
    "to_issues (add_answer a t) = to_issues t + findings_field rf_total a"
    "to_not_issue (add_answer a t) = to_not_issue t + findings_field rf_not_issue a"
    "to_to_fix (add_answer a t) = to_to_fix t + findings_field rf_to_fix a"
    "to_fixed (add_answer a t) = to_fixed t + findings_field rf_fixed a"
    "to_online (add_answer a t) = to_online t + (if an_online a then 1 else 0)"
    "to_offline (add_answer a t) = to_offline t + (if an_online a then 0 else 1)"
    "to_pie (add_answer a t) = to_pie t @ [(sc_name (an_server a), findings_field rf_total a)]"
    "to_cards (add_answer a t) = to_cards t @ [card_of a]"
    "to_per_server (add_answer a t) = to_per_server t @ [(sc_name (an_server a), server_day_counts (an_timeline a))]"
    "to_days (add_answer a t) = to_days t \<union> tp_day ` set (points_of a)"
    unfolding d [symmetric]
    by (cases "an_stats a"; cases "an_findings a"; simp add: add_answer_def Let_def findings_field_def patchsets_of_def)+
qed

lemma finding_sum_simps [simp]:
  "finding_sum f [] = 0" "finding_sum f (a # rs) = findings_field f a + finding_sum f rs"
  by (simp_all add: finding_sum_def)

lemma fold_answers:
  "to_patchsets (fold add_answer rs t) = to_patchsets t + sum_list (List.map patchsets_of rs)"
  "to_issues (fold add_answer rs t) = to_issues t + finding_sum rf_total rs"
  "to_not_issue (fold add_answer rs t) = to_not_issue t + finding_sum rf_not_issue rs"
  "to_to_fix (fold add_answer rs t) = to_to_fix t + finding_sum rf_to_fix rs"
  "to_fixed (fold add_answer rs t) = to_fixed t + finding_sum rf_fixed rs"
  "to_online (fold add_answer rs t) = to_online t + of_nat (length (filter an_online rs))"
  "to_offline (fold add_answer rs t) = to_offline t + of_nat (length (filter (\<lambda>a. \<not> an_online a) rs))"
  "to_pie (fold add_answer rs t) = to_pie t @ List.map (\<lambda>a. (sc_name (an_server a), findings_field rf_total a)) rs"
  "to_cards (fold add_answer rs t) = to_cards t @ List.map card_of rs"
  "to_per_server (fold add_answer rs t) =
     to_per_server t @ List.map (\<lambda>a. (sc_name (an_server a), server_day_counts (an_timeline a))) rs"
  "to_days (fold add_answer rs t) = to_days t \<union> (\<Union>a\<in>set rs. tp_day ` set (points_of a))"
  by (induction rs arbitrary: t)
    (simp_all add: add_answer_fields Un_assoc)

text \<open>The figures: each total is the sum over the servers that answered, in the bits they have; there is a card, a
  sector and a series for each server, in the order of the servers; the days of the chart are, ascending and
  once each, the days any server told of, and a series has for each of them what its server counted that day,
  0 where it told of none.\<close>

theorem dashboard_figures:
  "let s = process_results rs; days = da_trend_days s;
       fixes_done = finding_sum rf_to_fix rs + finding_sum rf_fixed rs;
       judged = finding_sum rf_not_issue rs + finding_sum rf_to_fix rs + finding_sum rf_fixed rs
   in da_total_patchsets s = sum_list (List.map patchsets_of rs) \<and>
      da_total_issues s = finding_sum rf_total rs \<and>
      da_avg_accuracy s = (if judged = 0 then None else Some (fixes_done, judged)) \<and>
      da_online_servers s = of_nat (length (filter an_online rs)) \<and>
      da_offline_servers s = of_nat (length (filter (\<lambda>a. \<not> an_online a) rs)) \<and>
      da_servers s = List.map card_of rs \<and>
      da_pie_chart_data s = List.map (\<lambda>a. (sc_name (an_server a), findings_field rf_total a)) rs \<and>
      sorted_wrt (<) days \<and> set days = (\<Union>a\<in>set rs. tp_day ` set (points_of a)) \<and>
      da_trend_series s =
        List.map (\<lambda>a. (sc_name (an_server a), List.map (\<lambda>d. day_total d (points_of a)) days)) rs"
  by (simp add: process_results_def stats_of_def Let_def fold_answers no_totals_def day_counts_lookup comp_def)

end
