(* ===== verification/Claude.thy ===== *)
theory Claude
  imports OpenAi
begin

text \<open>
  The Claude client of \<open>src/ai/claude.rs\<close> and its form for Google Cloud, \<open>src/ai/vertex.rs\<close>: the types of the
  protocol with their JSON, the translation of requests and responses, the marks for the prompt cache, the
  errors of HTTP and the call. As in \<open>OpenAi\<close>, the HTTP client is the argument \<open>post\<close>, a duration is its
  number of nanoseconds, and numbers of tokens are kept in 32 bits, where they wrap as in a release build.
\<close>

subsection \<open>The protocol\<close>

record CacheControl =
  cc_type :: string

datatype ClaudeContent =
    CText string "CacheControl option"
  | CThinking string string "CacheControl option"
  | CToolUse string string json
  | CToolResult string string "bool option" "CacheControl option"

record ClaudeMessage =
  cm_role :: string
  cm_content :: "ClaudeContent list"

record SystemBlock =
  sb_type :: string
  sb_text :: string
  sb_cache_control :: "CacheControl option"

record ClaudeTool =
  ct_name :: string
  ct_description :: string
  ct_input_schema :: json
  ct_cache_control :: "CacheControl option"

record ThinkingConfig =
  th_thinking :: "string option"
  th_effort :: "string option"

record ClaudeRequest =
  cr_model :: string
  cr_messages :: "ClaudeMessage list"
  cr_max_tokens :: u32
  cr_system :: "SystemBlock list option"
  cr_tools :: "ClaudeTool list option"
  cr_thinking :: "ThinkingConfig option"

record ClaudeUsage =
  cu_input_tokens :: u32
  cu_output_tokens :: u32
  cu_cache_creation :: "u32 option"
  cu_cache_read :: "u32 option"

record ClaudeResponse =
  cp_id :: string
  cp_content :: "ClaudeContent list"
  cp_stop_reason :: "string option"
  cp_usage :: ClaudeUsage

subsection \<open>JSON\<close>

definition cache_json :: "CacheControl \<Rightarrow> json" where
  "cache_json c = JObj [(''type'', JStr (cc_type c))]"

fun content_json :: "ClaudeContent \<Rightarrow> json" where
  "content_json (CText t c) =
     JObj ([(''type'', JStr ''text''), (''text'', JStr t)] @ some_field ''cache_control'' cache_json c)"
| "content_json (CThinking t s c) =
     JObj ([(''type'', JStr ''thinking''), (''thinking'', JStr t), (''signature'', JStr s)] @
       some_field ''cache_control'' cache_json c)"
| "content_json (CToolUse i n v) =
     JObj [(''type'', JStr ''tool_use''), (''id'', JStr i), (''name'', JStr n), (''input'', v)]"
| "content_json (CToolResult i t e c) =
     JObj ([(''type'', JStr ''tool_result''), (''tool_use_id'', JStr i), (''content'', JStr t)] @
       some_field ''is_error'' JBool e @ some_field ''cache_control'' cache_json c)"

definition claude_message_json :: "ClaudeMessage \<Rightarrow> json" where
  "claude_message_json m =
     JObj [(''role'', JStr (cm_role m)), (''content'', JArr (List.map content_json (cm_content m)))]"

definition system_json :: "SystemBlock \<Rightarrow> json" where
  "system_json b =
     JObj ([(''type'', JStr (sb_type b)), (''text'', JStr (sb_text b))] @
       some_field ''cache_control'' cache_json (sb_cache_control b))"

definition claude_tool_json :: "ClaudeTool \<Rightarrow> json" where
  "claude_tool_json t =
     JObj ([(''name'', JStr (ct_name t)), (''description'', JStr (ct_description t)),
            (''input_schema'', ct_input_schema t)] @
       some_field ''cache_control'' cache_json (ct_cache_control t))"

definition thinking_json :: "ThinkingConfig \<Rightarrow> json" where
  "thinking_json t =
     JObj (some_field ''type'' JStr (th_thinking t) @ some_field ''effort'' JStr (th_effort t))"

text \<open>The members the two services share; Claude's own has the model in front, Vertex its version.\<close>

definition body_members :: "ClaudeRequest \<Rightarrow> (string \<times> json) list" where
  "body_members r =
     [(''messages'', JArr (List.map claude_message_json (cr_messages r))),
      (''max_tokens'', JInt (uint (cr_max_tokens r)))] @
     some_field ''system'' (\<lambda>bs. JArr (List.map system_json bs)) (cr_system r) @
     some_field ''tools'' (\<lambda>ts. JArr (List.map claude_tool_json ts)) (cr_tools r) @
     some_field ''thinking'' thinking_json (cr_thinking r)"

definition claude_request_json :: "ClaudeRequest \<Rightarrow> json" where
  "claude_request_json r = JObj ((''model'', JStr (cr_model r)) # body_members r)"

definition vertex_request_json :: "ClaudeRequest \<Rightarrow> json" where
  "vertex_request_json r = JObj ((''anthropic_version'', JStr ''vertex-2023-10-16'') # body_members r)"

text \<open>Reading a response. A block of any other type is an error of the whole response.\<close>

definition cache_of :: "json \<Rightarrow> CacheControl option" where
  "cache_of v = do { t \<leftarrow> req_field as_str_opt v ''type''; Some \<lparr>cc_type = t\<rparr> }"

definition claude_content_of :: "json \<Rightarrow> ClaudeContent option" where
  "claude_content_of v =
     do { t \<leftarrow> req_field as_str_opt v ''type'';
          if t = ''text'' then
            do { x \<leftarrow> req_field as_str_opt v ''text'';
                 c \<leftarrow> opt_field cache_of v ''cache_control'';
                 Some (CText x c) }
          else if t = ''thinking'' then
            do { x \<leftarrow> req_field as_str_opt v ''thinking'';
                 s \<leftarrow> req_field as_str_opt v ''signature'';
                 c \<leftarrow> opt_field cache_of v ''cache_control'';
                 Some (CThinking x s c) }
          else if t = ''tool_use'' then
            do { i \<leftarrow> req_field as_str_opt v ''id'';
                 n \<leftarrow> req_field as_str_opt v ''name'';
                 a \<leftarrow> req_field Some v ''input'';
                 Some (CToolUse i n a) }
          else if t = ''tool_result'' then
            do { i \<leftarrow> req_field as_str_opt v ''tool_use_id'';
                 x \<leftarrow> req_field as_str_opt v ''content'';
                 e \<leftarrow> opt_field as_bool_opt v ''is_error'';
                 c \<leftarrow> opt_field cache_of v ''cache_control'';
                 Some (CToolResult i x e c) }
          else None }"

definition claude_usage_of :: "json \<Rightarrow> ClaudeUsage option" where
  "claude_usage_of v =
     do { i \<leftarrow> req_field json_u32 v ''input_tokens'';
          t \<leftarrow> req_field json_u32 v ''output_tokens'';
          w \<leftarrow> opt_field json_u32 v ''cache_creation_input_tokens'';
          r \<leftarrow> opt_field json_u32 v ''cache_read_input_tokens'';
          Some \<lparr>cu_input_tokens = i, cu_output_tokens = t, cu_cache_creation = w, cu_cache_read = r\<rparr> }"

definition claude_response_of :: "json \<Rightarrow> ClaudeResponse option" where
  "claude_response_of v =
     do { i \<leftarrow> req_field as_str_opt v ''id'';
          c \<leftarrow> req_field (list_of claude_content_of) v ''content'';
          s \<leftarrow> opt_field as_str_opt v ''stop_reason'';
          u \<leftarrow> req_field claude_usage_of v ''usage'';
          Some \<lparr>cp_id = i, cp_content = c, cp_stop_reason = s, cp_usage = u\<rparr> }"

subsection \<open>Errors\<close>

datatype ClaudeError =
    ClaudeRateLimit nat
  | ClaudeOverloaded nat
  | ClaudeInvalidRequest string
  | ClaudeAuthentication string
  | ClaudeApiError nat string

fun claude_error_class :: "ClaudeError \<Rightarrow> AiErrorClass" where
  "claude_error_class (ClaudeRateLimit t) = RateLimit t"
| "claude_error_class (ClaudeOverloaded t) = Transient t"
| "claude_error_class (ClaudeInvalidRequest _) = Fatal"
| "claude_error_class (ClaudeAuthentication _) = Fatal"
| "claude_error_class (ClaudeApiError status _) =
     (case classify_status_code status of Some c \<Rightarrow> c | None \<Rightarrow> Fatal)"

text \<open>What a call ends with: an error of the service, or any other, which has no class.\<close>

datatype claude_failure = ClaudeFailure ClaudeError | OtherFailure string

fun failure_class :: "claude_failure \<Rightarrow> AiErrorClass" where
  "failure_class (ClaudeFailure e) = claude_error_class e"
| "failure_class (OtherFailure _) = Fatal"

subsection \<open>Requests\<close>

definition plain_block :: "string \<Rightarrow> SystemBlock" where
  "plain_block t = \<lparr>sb_type = ''text'', sb_text = t, sb_cache_control = None\<rparr>"

definition assistant_content :: "AiMessage \<Rightarrow> ClaudeContent list" where
  "assistant_content m =
     (case mg_content m of Some t \<Rightarrow> [CText t None] | None \<Rightarrow> []) @
     (case (mg_thought m, mg_thought_signature m) of
        (Some t, Some s) \<Rightarrow> [CThinking t s None]
      | _ \<Rightarrow> []) @
     (case mg_tool_calls m of
        Some cs \<Rightarrow> List.map (\<lambda>c. CToolUse (tc_id c) (tc_function_name c) (tc_arguments c)) cs
      | None \<Rightarrow> [])"

text \<open>The loop over the messages: the system blocks and the messages it adds.\<close>

fun claude_messages :: "AiMessage list \<Rightarrow> string + SystemBlock list \<times> ClaudeMessage list" where
  "claude_messages [] = Inr ([], [])"
| "claude_messages (m # ms) =
     (case mg_role m of
        System \<Rightarrow>
          res_bind (claude_messages ms) (\<lambda>(bs, cs).
            Inr ((case mg_content m of Some t \<Rightarrow> [plain_block t] | None \<Rightarrow> []) @ bs, cs))
      | User \<Rightarrow>
          res_bind (claude_messages ms) (\<lambda>(bs, cs).
            Inr (bs, \<lparr>cm_role = ''user'', cm_content = [CText (text_of (mg_content m)) None]\<rparr> # cs))
      | Assistant \<Rightarrow>
          res_bind (claude_messages ms) (\<lambda>(bs, cs).
            Inr (bs, \<lparr>cm_role = ''assistant'', cm_content = assistant_content m\<rparr> # cs))
      | Tool \<Rightarrow>
          (case mg_tool_call_id m of
             None \<Rightarrow> Inl ''Tool message missing tool_call_id''
           | Some i \<Rightarrow>
               res_bind (claude_messages ms) (\<lambda>(bs, cs).
                 Inr (bs, \<lparr>cm_role = ''user'',
                          cm_content = [CToolResult i (case mg_content m of Some t \<Rightarrow> t | None \<Rightarrow> ''{}'') None None]\<rparr>
                        # cs))))"

definition ephemeral :: CacheControl where
  "ephemeral = \<lparr>cc_type = ''ephemeral''\<rparr>"

text \<open>\<open>last_mut\<close>.\<close>

fun change_last :: "('a \<Rightarrow> 'a) \<Rightarrow> 'a list \<Rightarrow> 'a list" where
  "change_last f [] = []"
| "change_last f [x] = [f x]"
| "change_last f (x # y # xs) = x # change_last f (y # xs)"

fun mark_content :: "ClaudeContent \<Rightarrow> ClaudeContent" where
  "mark_content (CText t _) = CText t (Some ephemeral)"
| "mark_content (CThinking t s _) = CThinking t s (Some ephemeral)"
| "mark_content (CToolResult i t e _) = CToolResult i t e (Some ephemeral)"
| "mark_content (CToolUse i n v) = CToolUse i n v"

definition apply_cache_control :: "ClaudeRequest \<Rightarrow> ClaudeRequest" where
  "apply_cache_control r =
     r\<lparr>cr_system := map_option (change_last (\<lambda>b. b\<lparr>sb_cache_control := Some ephemeral\<rparr>)) (cr_system r),
       cr_tools := map_option (change_last (\<lambda>t. t\<lparr>ct_cache_control := Some ephemeral\<rparr>)) (cr_tools r),
       cr_messages :=
         change_last (\<lambda>m. m\<lparr>cm_content := change_last mark_content (cm_content m)\<rparr>) (cr_messages r)\<rparr>"

definition claude_tool :: "AiTool \<Rightarrow> ClaudeTool" where
  "claude_tool t = \<lparr>ct_name = tl_name t, ct_description = tl_description t,
     ct_input_schema = tl_parameters t, ct_cache_control = None\<rparr>"

definition claude_request ::
  "AiRequest \<Rightarrow> bool \<Rightarrow> u32 \<Rightarrow> string option \<Rightarrow> string option \<Rightarrow> string + ClaudeRequest" where
  "claude_request request enable_caching max_tokens thinking effort =
     res_bind (claude_messages (rq_messages request)) (\<lambda>(bs, messages).
       let system_blocks = (case rq_system request of Some t \<Rightarrow> [plain_block t] | None \<Rightarrow> []) @ bs;
           r = \<lparr>cr_model = [], cr_messages = messages, cr_max_tokens = max_tokens,
                cr_system = (if system_blocks = [] then None else Some system_blocks),
                cr_tools = map_option (List.map claude_tool) (rq_tools request),
                cr_thinking =
                  (if thinking \<noteq> None \<or> effort \<noteq> None
                   then Some \<lparr>th_thinking = thinking, th_effort = effort\<rparr> else None)\<rparr>
       in Inr (if enable_caching then apply_cache_control r else r))"

subsection \<open>Responses\<close>

text \<open>The loop over the blocks: the text, the thought, its signature and the calls so far.\<close>

fun take_block :: "ClaudeContent \<Rightarrow> string \<times> string \<times> string \<times> ToolCall list \<Rightarrow>
    string \<times> string \<times> string \<times> ToolCall list" where
  "take_block (CText t _) (c, th, sg, cs) = (c @ t, th, sg, cs)"
| "take_block (CThinking t s _) (c, th, sg, cs) = (c, th @ t, sg @ s, cs)"
| "take_block (CToolUse i n v) (c, th, sg, cs) =
     (c, th, sg, cs @ [\<lparr>tc_id = i, tc_function_name = n, tc_arguments = v, tc_thought_signature = None\<rparr>])"
| "take_block (CToolResult _ _ _ _) st = st"

definition nonempty :: "'a list \<Rightarrow> 'a list option" where
  "nonempty xs = (if xs = [] then None else Some xs)"

definition or_zero :: "u32 option \<Rightarrow> u32" where
  "or_zero m = (case m of Some n \<Rightarrow> n | None \<Rightarrow> 0)"

definition claude_usage :: "ClaudeUsage \<Rightarrow> AiUsage" where
  "claude_usage u =
     (let cache_read = or_zero (cu_cache_read u);
          cache_write = or_zero (cu_cache_creation u);
          total_input = cu_input_tokens u + cache_read + cache_write
      in \<lparr>us_prompt_tokens = unat total_input,
          us_completion_tokens = unat (cu_output_tokens u),
          us_total_tokens = unat (total_input + cu_output_tokens u),
          us_cached_tokens = (if 0 < cache_read then Some (unat cache_read) else None)\<rparr>)"

definition claude_answer :: "ClaudeResponse \<Rightarrow> AiResponse" where
  "claude_answer resp =
     (case fold take_block (cp_content resp) ([], [], [], []) of
        (content, thought, thought_signature, tool_calls) \<Rightarrow>
          \<lparr>rs_content = nonempty content, rs_thought = nonempty thought,
           rs_thought_signature = nonempty thought_signature, rs_tool_calls = nonempty tool_calls,
           rs_usage = Some (claude_usage (cp_usage resp))\<rparr>)"

subsection \<open>The client\<close>

record ClaudeClient =
  cx_api_key :: string
  cx_model :: string
  cx_enable_caching :: bool
  cx_max_tokens :: u32
  cx_base_url :: string
  cx_thinking :: "string option"
  cx_effort :: "string option"
  cx_extra_headers :: "(string \<times> string) list"

text \<open>The environment is \<open>var\<close>.\<close>

definition first_set :: "(string \<Rightarrow> string option) \<Rightarrow> string list \<Rightarrow> string option" where
  "first_set var ks = first (List.map_filter var ks)"

definition api_key_of :: "(string \<Rightarrow> string option) \<Rightarrow> string" where
  "api_key_of var = text_of (first_set var [''ANTHROPIC_API_KEY'', ''ANTHROPIC_AUTH_TOKEN'', ''LLM_API_KEY''])"

definition claude_default_base_url :: "(string \<Rightarrow> string option) \<Rightarrow> string" where
  "claude_default_base_url var =
     (case var ''ANTHROPIC_BASE_URL'' of
        Some u \<Rightarrow> trim_end_matches (\<lambda>c. c = CHR ''/'') u @ ''/v1/messages''
      | None \<Rightarrow> ''https://api.anthropic.com/v1/messages'')"

text \<open>The map of the additional headers, as an association list without doubles: a later line for a name
  replaces the value.\<close>

fun put_header :: "string \<Rightarrow> string \<Rightarrow> (string \<times> string) list \<Rightarrow> (string \<times> string) list" where
  "put_header k v [] = [(k, v)]"
| "put_header k v ((j, w) # hs) = (if j = k then (k, v) # hs else (j, w) # put_header k v hs)"

definition env_header :: "string \<Rightarrow> (string \<times> string) list \<Rightarrow> (string \<times> string) list" where
  "env_header line hs =
     (case split_once CHR '':'' line of
        Some (k, v) \<Rightarrow> if trim k \<noteq> [] then put_header (trim k) (trim v) hs else hs
      | None \<Rightarrow> hs)"

definition parse_env_headers :: "(string \<Rightarrow> string option) \<Rightarrow> (string \<times> string) list" where
  "parse_env_headers var =
     (case var ''ANTHROPIC_CUSTOM_HEADERS'' of Some raw \<Rightarrow> fold env_header (lines raw) [] | None \<Rightarrow> [])"

definition new_claude_client ::
  "(string \<Rightarrow> string option) \<Rightarrow> string \<Rightarrow> bool \<Rightarrow> u32 \<Rightarrow> string \<Rightarrow> string option \<Rightarrow> string option \<Rightarrow>
     ClaudeClient" where
  "new_claude_client var model enable_caching max_tokens base_url thinking effort =
     \<lparr>cx_api_key = api_key_of var, cx_model = model, cx_enable_caching = enable_caching,
      cx_max_tokens = max_tokens, cx_base_url = base_url, cx_thinking = thinking, cx_effort = effort,
      cx_extra_headers = parse_env_headers var\<rparr>"

text \<open>Headers of the \<open>http\<close> library: a value is visible ASCII, blanks and tabs; a name is a token, kept in
  lower case; \<open>insert\<close> replaces.\<close>

definition header_value_ok :: "string \<Rightarrow> bool" where
  "header_value_ok v \<longleftrightarrow> list_all (\<lambda>c. 32 \<le> code c \<and> code c < 127 \<or> code c = 9) v"

definition header_name_ok :: "string \<Rightarrow> bool" where
  "header_name_ok k \<longleftrightarrow> k \<noteq> [] \<and> list_all (\<lambda>c. is_alnum c \<or> c \<in> set ''!#$%&*+-.^_`|~'' \<or> code c = 39) k"

fun extra_header_list :: "(string \<times> string) list \<Rightarrow> (string \<times> string) list \<Rightarrow> string + (string \<times> string) list" where
  "extra_header_list [] hs = Inr hs"
| "extra_header_list ((k, v) # es) hs =
     (if \<not> header_name_ok k then Inl ''Invalid extra header name''
      else if \<not> header_value_ok v then Inl ''Invalid extra header value''
      else extra_header_list es (put_header (lower k) v hs))"

definition claude_headers :: "ClaudeClient \<Rightarrow> string + (string \<times> string) list" where
  "claude_headers cl =
     (if \<not> header_value_ok (cx_api_key cl) then Inl ''Invalid API key format''
      else extra_header_list (cx_extra_headers cl)
        [(''x-api-key'', cx_api_key cl), (''anthropic-version'', ''2023-06-01''),
         (''content-type'', ''application/json'')])"

text \<open>\<open>post\<close>: address, headers and body. \<open>redact\<close> is what is done to the text of an error before it is kept:
  secrets are removed from it, on Vertex nothing is.\<close>

type_synonym 'w http = "string \<Rightarrow> (string \<times> string) list \<Rightarrow> json \<Rightarrow> 'w \<Rightarrow> (string + HttpResponse) \<times> 'w"

definition claude_error :: "(string \<Rightarrow> string) \<Rightarrow> HttpResponse \<Rightarrow> ClaudeError" where
  "claude_error redact res =
     (let header_wait = map_option (\<lambda>n. n * nanos) (Option.bind (hr_retry_after res) parse_u64);
          error_body = (case hr_body res of Inr t \<Rightarrow> redact t | Inl _ \<Rightarrow> ''Unknown error'');
          status = hr_status res
      in if status = 429 then ClaudeRateLimit (case header_wait of Some t \<Rightarrow> t | None \<Rightarrow> 60 * nanos)
         else if 500 \<le> status \<and> status \<le> 599
         then ClaudeOverloaded (case header_wait of Some t \<Rightarrow> t | None \<Rightarrow> 0)
         else if status = 400 then ClaudeInvalidRequest error_body
         else if status = 401 \<or> status = 403 then ClaudeAuthentication error_body
         else ClaudeApiError status error_body)"

definition claude_reply ::
  "serde \<Rightarrow> (string \<Rightarrow> string) \<Rightarrow> string \<Rightarrow> HttpResponse \<Rightarrow> claude_failure + ClaudeResponse" where
  "claude_reply sd redact what res =
     (if is_success res then
        (case hr_body res of
           Inl e \<Rightarrow> Inl (OtherFailure e)
         | Inr body_text \<Rightarrow>
             (case Option.bind (sd_from_str sd body_text) claude_response_of of
                Some r \<Rightarrow> Inr r
              | None \<Rightarrow> Inl (OtherFailure what)))
      else Inl (ClaudeFailure (claude_error redact res)))"

definition claude_post ::
  "engine \<Rightarrow> serde \<Rightarrow> 'w http \<Rightarrow> ClaudeClient \<Rightarrow> ClaudeRequest \<Rightarrow> 'w \<Rightarrow>
     (claude_failure + ClaudeResponse) \<times> 'w" where
  "claude_post rx sd post cl body w =
     (case claude_headers cl of
        Inl e \<Rightarrow> (Inl (OtherFailure e), w)
      | Inr hs \<Rightarrow>
          (case post (cx_base_url cl) hs (claude_request_json body) w of
             (Inl e, w1) \<Rightarrow>
               (Inl (OtherFailure (''Failed to send request to Claude API: '' @ redact_secret rx e)), w1)
           | (Inr res, w1) \<Rightarrow>
               (claude_reply sd (redact_secret rx) ''Failed to parse Claude API response'' res, w1)))"

definition claude_generate ::
  "engine \<Rightarrow> serde \<Rightarrow> 'w http \<Rightarrow> ClaudeClient \<Rightarrow> AiRequest \<Rightarrow> 'w \<Rightarrow> (claude_failure + AiResponse) \<times> 'w" where
  "claude_generate rx sd post cl request w =
     (case claude_request request (cx_enable_caching cl) (cx_max_tokens cl) (cx_thinking cl) (cx_effort cl) of
        Inl e \<Rightarrow> (Inl (OtherFailure e), w)
      | Inr r \<Rightarrow>
          (case claude_post rx sd post cl (r\<lparr>cr_model := cx_model cl\<rparr>) w of
             (Inl e, w1) \<Rightarrow> (Inl e, w1)
           | (Inr resp, w1) \<Rightarrow> (Inr (claude_answer resp), w1)))"

definition claude_capabilities :: "ClaudeClient \<Rightarrow> ProviderCapabilities" where
  "claude_capabilities cl = \<lparr>model_name = cx_model cl, context_window_size = 200000\<rparr>"

subsection \<open>Vertex\<close>

text \<open>There is one family of models; other models are refused.\<close>

definition detect_model_family :: "string \<Rightarrow> string + unit" where
  "detect_model_family model =
     (if starts_with model ''claude'' then Inr ()
      else Inl (''Unsupported model family on Vertex AI: '' @ model @ ''. Supported prefixes: claude-*''))"

definition build_endpoint_url :: "string \<Rightarrow> string \<Rightarrow> string \<Rightarrow> string" where
  "build_endpoint_url region project_id model =
     (let path = ''v1/projects/'' @ project_id @ ''/locations/'' @ region @ ''/publishers/anthropic/models/'' @
                   model @ '':rawPredict''
      in if region = ''global'' then ''https://global-aiplatform.googleapis.com/'' @ path
         else if region = ''us'' \<or> region = ''eu''
         then ''https://aiplatform.'' @ region @ ''.rep.googleapis.com/'' @ path
         else ''https://'' @ region @ ''-aiplatform.googleapis.com/'' @ path)"

record VertexClient =
  vx_project_id :: string
  vx_region :: string
  vx_model :: string
  vx_enable_caching :: bool
  vx_max_tokens :: u32
  vx_thinking :: "string option"
  vx_effort :: "string option"
  vx_context_window_size :: nat

text \<open>\<open>credentials\<close>: whether they can be set up.\<close>

definition new_vertex_client ::
  "string + unit \<Rightarrow> string \<Rightarrow> string \<Rightarrow> string \<Rightarrow> bool \<Rightarrow> u32 \<Rightarrow> string option \<Rightarrow> string option \<Rightarrow>
     string + VertexClient" where
  "new_vertex_client credentials model project_id region enable_caching max_tokens thinking effort =
     res_bind (detect_model_family model) (\<lambda>_.
       case credentials of
         Inl e \<Rightarrow> Inl (''Failed to initialize Google Cloud credentials: '' @ e)
       | Inr _ \<Rightarrow>
           Inr \<lparr>vx_project_id = project_id, vx_region = region, vx_model = model,
                vx_enable_caching = enable_caching, vx_max_tokens = max_tokens, vx_thinking = thinking,
                vx_effort = effort,
                vx_context_window_size =
                  (if contains model ''opus-4-7'' \<or> contains model ''opus-4-6'' \<or> contains model ''sonnet-4-6''
                   then 1000000 else 200000)\<rparr>)"

text \<open>\<open>token\<close> asks the credentials for an access token.\<close>

definition vertex_post ::
  "serde \<Rightarrow> ('w \<Rightarrow> (string + string) \<times> 'w) \<Rightarrow> 'w http \<Rightarrow> VertexClient \<Rightarrow> ClaudeRequest \<Rightarrow> 'w \<Rightarrow>
     (claude_failure + ClaudeResponse) \<times> 'w" where
  "vertex_post sd token post cl body w =
     (case token w of
        (Inl e, w1) \<Rightarrow> (Inl (OtherFailure (''Failed to get Google Cloud access token: '' @ e)), w1)
      | (Inr t, w1) \<Rightarrow>
          (case post (build_endpoint_url (vx_region cl) (vx_project_id cl) (vx_model cl))
                  [(''authorization'', ''Bearer '' @ t), (''content-type'', ''application/json'')]
                  (vertex_request_json body) w1 of
             (Inl e, w2) \<Rightarrow> (Inl (OtherFailure ''Failed to send request to Vertex AI''), w2)
           | (Inr res, w2) \<Rightarrow>
               (claude_reply sd (\<lambda>t. t) ''Failed to parse Vertex AI Claude response'' res, w2)))"

definition vertex_generate ::
  "serde \<Rightarrow> ('w \<Rightarrow> (string + string) \<times> 'w) \<Rightarrow> 'w http \<Rightarrow> VertexClient \<Rightarrow> AiRequest \<Rightarrow> 'w \<Rightarrow>
     (claude_failure + AiResponse) \<times> 'w" where
  "vertex_generate sd token post cl request w =
     (case claude_request request (vx_enable_caching cl) (vx_max_tokens cl) (vx_thinking cl) (vx_effort cl) of
        Inl e \<Rightarrow> (Inl (OtherFailure e), w)
      | Inr r \<Rightarrow>
          (case vertex_post sd token post cl r w of
             (Inl e, w1) \<Rightarrow> (Inl e, w1)
           | (Inr resp, w1) \<Rightarrow> (Inr (claude_answer resp), w1)))"

end
