(* ===== verification/Claude_Props.thy ===== *)
theory Claude_Props
  imports Claude
begin

text \<open>
  Properties of the Claude client: an answer that goes back to the service in the next request reads as it
  did, the marks for the prompt cache change nothing else and are few enough, and the class of each failure.
\<close>

subsection \<open>Blocks and their JSON\<close>

lemma cache_read: "cache_of (cache_json c) = Some c"
  by (simp add: cache_of_def cache_json_def req_field_def)

lemma opt_cache:
  "jget v ''cache_control'' = map_option cache_json c \<Longrightarrow> opt_field cache_of v ''cache_control'' = Some c"
  by (rule opt_field_some [where f = cache_json], simp_all add: cache_read) (simp add: cache_json_def)

lemma content_read: "claude_content_of (content_json c) = Some c"
proof (cases c)
  case (CText t k)
  have "opt_field cache_of (content_json c) ''cache_control'' = Some k"
    by (rule opt_cache) (simp add: CText map_add_def split: option.splits)
  with CText show ?thesis by (simp add: claude_content_of_def req_field_def)
next
  case (CThinking t s k)
  have "opt_field cache_of (content_json c) ''cache_control'' = Some k"
    by (rule opt_cache) (simp add: CThinking map_add_def split: option.splits)
  with CThinking show ?thesis by (simp add: claude_content_of_def req_field_def)
next
  case (CToolUse i n v)
  then show ?thesis by (simp add: claude_content_of_def req_field_def)
next
  case (CToolResult i t e k)
  have "opt_field cache_of (content_json c) ''cache_control'' = Some k"
    by (rule opt_cache) (simp add: CToolResult map_add_def split: option.splits)
  moreover have "opt_field as_bool_opt (content_json c) ''is_error'' = Some e"
    by (rule opt_field_some [where f = JBool]) (auto simp: CToolResult map_add_def split: option.splits)
  ultimately show ?thesis
    using CToolResult by (simp add: claude_content_of_def req_field_def)
qed

subsection \<open>An answer comes back\<close>

definition claude_call :: "ToolCall \<Rightarrow> ClaudeContent" where
  "claude_call c = CToolUse (tc_id c) (tc_function_name c) (tc_arguments c)"

lemma read_calls:
  "\<forall>c\<in>set cs. tc_thought_signature c = None \<Longrightarrow>
     fold take_block (List.map claude_call cs) (a, b, d, xs) = (a, b, d, xs @ cs)"
  by (induction cs arbitrary: xs) (simp_all add: claude_call_def)

definition not_blank :: "'a list option \<Rightarrow> bool" where
  "not_blank m \<longleftrightarrow> m \<noteq> Some []"

lemma nonempty_not_blank [simp]: "not_blank m \<Longrightarrow> nonempty (case m of Some x \<Rightarrow> x | None \<Rightarrow> []) = m"
  by (cases m) (auto simp: not_blank_def nonempty_def)

text \<open>The message that keeps an answer in the conversation.\<close>

definition kept_answer :: "AiResponse \<Rightarrow> AiMessage" where
  "kept_answer r =
     \<lparr>mg_role = Assistant, mg_content = rs_content r, mg_thought = rs_thought r,
      mg_thought_signature = rs_thought_signature r, mg_tool_calls = rs_tool_calls r, mg_tool_call_id = None\<rparr>"

definition same_answer :: "AiResponse \<Rightarrow> AiResponse \<Rightarrow> bool" where
  "same_answer r s \<longleftrightarrow> rs_content r = rs_content s \<and> rs_thought r = rs_thought s \<and>
     rs_thought_signature r = rs_thought_signature s \<and> rs_tool_calls r = rs_tool_calls s"

lemma fold_assistant:
  assumes "(mg_thought m = None) = (mg_thought_signature m = None)"
    and "\<forall>cs. mg_tool_calls m = Some cs \<longrightarrow> (\<forall>c\<in>set cs. tc_thought_signature c = None)"
  shows "fold take_block (assistant_content m) ([], [], [], []) =
    (case mg_content m of Some t \<Rightarrow> t | None \<Rightarrow> [], case mg_thought m of Some t \<Rightarrow> t | None \<Rightarrow> [],
     case mg_thought_signature m of Some t \<Rightarrow> t | None \<Rightarrow> [], case mg_tool_calls m of Some cs \<Rightarrow> cs | None \<Rightarrow> [])"
proof -
  have calls: "fold take_block (case mg_tool_calls m of
        Some cs \<Rightarrow> List.map (\<lambda>c. CToolUse (tc_id c) (tc_function_name c) (tc_arguments c)) cs | None \<Rightarrow> [])
        (a, b, d, []) = (a, b, d, case mg_tool_calls m of Some cs \<Rightarrow> cs | None \<Rightarrow> [])" for a b d
    using assms(2) read_calls [where xs = "[]"] by (cases "mg_tool_calls m") (simp_all add: claude_call_def [abs_def])
  show ?thesis
    unfolding assistant_content_def fold_append comp_def
    using assms(1)
    by (cases "mg_content m"; cases "mg_thought m"; cases "mg_thought_signature m") (simp_all add: calls)
qed

text \<open>C26. An answer that Claude could give, kept in the conversation and sent again, is read from its JSON as
  it was: the same text, thought, signature and calls, as long as thought and signature come together.\<close>

theorem claude_answer_roundtrip:
  assumes "not_blank (rs_content r)" "not_blank (rs_thought r)" "not_blank (rs_thought_signature r)" "not_blank (rs_tool_calls r)"
    and "(rs_thought r = None) = (rs_thought_signature r = None)"
    and "\<forall>cs. rs_tool_calls r = Some cs \<longrightarrow> (\<forall>c\<in>set cs. tc_thought_signature c = None)"
  shows "\<exists>content. list_of claude_content_of (JArr (List.map content_json (assistant_content (kept_answer r)))) = Some content \<and>
    same_answer (claude_answer \<lparr>cp_id = i, cp_content = content, cp_stop_reason = s, cp_usage = u\<rparr>) r"
proof -
  have "list_of claude_content_of (JArr (List.map content_json (assistant_content (kept_answer r)))) =
      Some (assistant_content (kept_answer r))"
    by (rule list_of_map) (simp add: content_read)
  moreover have "fold take_block (assistant_content (kept_answer r)) ([], [], [], []) =
    (case rs_content r of Some t \<Rightarrow> t | None \<Rightarrow> [], case rs_thought r of Some t \<Rightarrow> t | None \<Rightarrow> [],
     case rs_thought_signature r of Some t \<Rightarrow> t | None \<Rightarrow> [], case rs_tool_calls r of Some cs \<Rightarrow> cs | None \<Rightarrow> [])"
    using fold_assistant [of "kept_answer r"] assms(5,6) by (simp add: kept_answer_def)
  ultimately show ?thesis
    using assms(1-4) by (simp add: claude_answer_def same_answer_def)
qed

theorem claude_answer_roundtrip_witness:
  "let r = \<lparr>rs_content = Some ''hello'', rs_thought = Some ''hm'', rs_thought_signature = Some ''sig'',
            rs_tool_calls = Some [\<lparr>tc_id = ''1'', tc_function_name = ''f'', tc_arguments = JNull,
                                   tc_thought_signature = None\<rparr>], rs_usage = None\<rparr>
   in \<exists>content. list_of claude_content_of (JArr (List.map content_json (assistant_content (kept_answer r)))) = Some content \<and>
        same_answer (claude_answer \<lparr>cp_id = ''x'', cp_content = content, cp_stop_reason = None,
          cp_usage = \<lparr>cu_input_tokens = 1, cu_output_tokens = 1, cu_cache_creation = None, cu_cache_read = None\<rparr>\<rparr>) r"
  unfolding Let_def by (rule claude_answer_roundtrip) (simp_all add: not_blank_def)

text \<open>Two thoughts of one answer become one with both signatures behind each other, which is the signature of
  neither.\<close>

theorem signatures_joined:
  "rs_thought_signature (claude_answer \<lparr>cp_id = i,
      cp_content = [CThinking a s None, CToolUse n f v, CThinking b t None], cp_stop_reason = r, cp_usage = u\<rparr>) =
     nonempty (s @ t)"
  by (simp add: claude_answer_def)

subsection \<open>Marks for the cache\<close>

fun content_marks :: "ClaudeContent \<Rightarrow> nat" where
  "content_marks (CText _ (Some _)) = 1"
| "content_marks (CThinking _ _ (Some _)) = 1"
| "content_marks (CToolResult _ _ _ (Some _)) = 1"
| "content_marks _ = 0"

definition message_marks :: "ClaudeMessage \<Rightarrow> nat" where
  "message_marks m = sum_list (List.map content_marks (cm_content m))"

definition option_mark :: "'a option \<Rightarrow> nat" where
  "option_mark m = (case m of None \<Rightarrow> 0 | Some _ \<Rightarrow> 1)"

definition marks :: "ClaudeRequest \<Rightarrow> nat" where
  "marks r =
     (case cr_system r of Some bs \<Rightarrow> (\<Sum>b\<leftarrow>bs. option_mark (sb_cache_control b)) | None \<Rightarrow> 0) +
     (case cr_tools r of Some ts \<Rightarrow> (\<Sum>t\<leftarrow>ts. option_mark (ct_cache_control t)) | None \<Rightarrow> 0) +
     (\<Sum>m\<leftarrow>cr_messages r. message_marks m)"

fun unmark_content :: "ClaudeContent \<Rightarrow> ClaudeContent" where
  "unmark_content (CText t _) = CText t None"
| "unmark_content (CThinking t s _) = CThinking t s None"
| "unmark_content (CToolResult i t e _) = CToolResult i t e None"
| "unmark_content (CToolUse i n v) = CToolUse i n v"

definition unmarked :: "ClaudeRequest \<Rightarrow> ClaudeRequest" where
  "unmarked r =
     r\<lparr>cr_system := map_option (List.map (\<lambda>b. b\<lparr>sb_cache_control := None\<rparr>)) (cr_system r),
       cr_tools := map_option (List.map (\<lambda>t. t\<lparr>ct_cache_control := None\<rparr>)) (cr_tools r),
       cr_messages := List.map (\<lambda>m. m\<lparr>cm_content := List.map unmark_content (cm_content m)\<rparr>) (cr_messages r)\<rparr>"

lemma map_change_last: "(\<And>x. g (f x) = g x) \<Longrightarrow> List.map g (change_last f xs) = List.map g xs"
  by (induction f xs rule: change_last.induct) simp_all

lemma sum_change_last:
  "(\<And>x. x \<in> set xs \<Longrightarrow> n x = (0::nat)) \<Longrightarrow> (\<And>x. x \<in> set xs \<Longrightarrow> n (f x) \<le> 1) \<Longrightarrow>
     sum_list (List.map n (change_last f xs)) \<le> 1"
  by (induction f xs rule: change_last.induct) auto

lemma unmark_mark [simp]: "unmark_content (mark_content c) = unmark_content c"
  by (cases c) simp_all

lemma unmarked_marks: "marks r = 0 \<Longrightarrow> unmarked r = r"
proof -
  have c: "content_marks c = 0 \<Longrightarrow> unmark_content c = c" for c
    by (cases c rule: content_marks.cases) auto
  have m: "message_marks m = 0 \<Longrightarrow> m\<lparr>cm_content := List.map unmark_content (cm_content m)\<rparr> = m" for m
    using c by (simp add: message_marks_def map_idI)
  have b: "option_mark (sb_cache_control b) = 0 \<Longrightarrow> b\<lparr>sb_cache_control := None\<rparr> = b" for b
    by (cases "sb_cache_control b") (simp_all add: option_mark_def)
  have t: "option_mark (ct_cache_control t) = 0 \<Longrightarrow> t\<lparr>ct_cache_control := None\<rparr> = t" for t
    by (cases "ct_cache_control t") (simp_all add: option_mark_def)
  assume "marks r = 0"
  then have "map_option (List.map (\<lambda>b. b\<lparr>sb_cache_control := None\<rparr>)) (cr_system r) = cr_system r"
    "map_option (List.map (\<lambda>t. t\<lparr>ct_cache_control := None\<rparr>)) (cr_tools r) = cr_tools r"
    "List.map (\<lambda>m. m\<lparr>cm_content := List.map unmark_content (cm_content m)\<rparr>) (cr_messages r) = cr_messages r"
    unfolding marks_def by (auto intro!: map_idI b t m split: option.splits)
  then show ?thesis
    by (simp add: unmarked_def)
qed

lemma claude_messages_plain:
  "claude_messages ms = Inr (bs, cs) \<Longrightarrow>
     (\<forall>b\<in>set bs. option_mark (sb_cache_control b) = 0) \<and> (\<forall>c\<in>set cs. message_marks c = 0)"
proof (induction ms arbitrary: bs cs)
  case (Cons m ms)
  have a: "content_marks n = 0" if "n \<in> set (assistant_content m)" for n
    using that by (auto simp: assistant_content_def split: option.splits)
  from Cons.prems obtain bs1 cs1 where r: "claude_messages ms = Inr (bs1, cs1)"
    by (cases "claude_messages ms") (auto split: AiRole.splits option.splits)
  from Cons.IH [OF this] Cons.prems r show ?case
    by (cases "mg_role m")
      (auto simp: plain_block_def option_mark_def message_marks_def a split: option.splits)
qed simp

definition needs_id :: "AiMessage \<Rightarrow> bool" where
  "needs_id m \<longleftrightarrow> mg_role m = Tool \<and> mg_tool_call_id m = None"

lemma claude_messages_fails:
  "(\<exists>e. claude_messages ms = Inl e) \<longleftrightarrow> (\<exists>m\<in>set ms. needs_id m)"
proof (induction ms)
  case (Cons m ms)
  show ?case
  proof (cases "claude_messages ms")
    case (Inl e)
    with Cons show ?thesis
      by (cases "mg_role m"; cases "mg_tool_call_id m") (auto simp: needs_id_def)
  next
    case (Inr x)
    with Cons show ?thesis
      by (cases x; cases "mg_role m"; cases "mg_tool_call_id m") (auto simp: needs_id_def)
  qed
qed simp

lemma claude_request_unmarked:
  assumes "claude_request q False n th ef = Inr r"
  shows "marks r = 0"
proof -
  from assms obtain bs cs where m: "claude_messages (rq_messages q) = Inr (bs, cs)"
    by (cases "claude_messages (rq_messages q)") (auto simp: claude_request_def)
  from claude_messages_plain [OF this] assms m show ?thesis
    by (auto simp: claude_request_def Let_def marks_def plain_block_def option_mark_def claude_tool_def
        sum_list_eq_0_iff split: option.splits if_splits)
qed

lemma apply_marks:
  assumes "marks r = 0"
  shows "unmarked (apply_cache_control r) = r" "marks (apply_cache_control r) \<le> 3"
proof -
  have e: "unmarked (apply_cache_control r) = unmarked r"
    unfolding unmarked_def apply_cache_control_def
    by (simp add: map_change_last option.map_comp comp_def cong: option.map_cong)
  then show "unmarked (apply_cache_control r) = r"
    using unmarked_marks [OF assms] by simp
  have z: "\<forall>m\<in>set (cr_messages r). message_marks m = 0"
    "\<forall>bs. cr_system r = Some bs \<longrightarrow> (\<forall>b\<in>set bs. option_mark (sb_cache_control b) = 0)"
    "\<forall>ts. cr_tools r = Some ts \<longrightarrow> (\<forall>t\<in>set ts. option_mark (ct_cache_control t) = 0)"
    using assms by (auto simp: marks_def split: option.splits)
  have "content_marks (mark_content c) \<le> 1" for c
    by (cases c) simp_all
  then have one: "message_marks (m\<lparr>cm_content := change_last mark_content (cm_content m)\<rparr>) \<le> 1" if "message_marks m = 0" for m
    using that sum_change_last [of "cm_content m" content_marks mark_content] by (simp add: message_marks_def)
  have "sum_list (List.map message_marks (cr_messages (apply_cache_control r))) \<le> 1"
    unfolding apply_cache_control_def by (simp, rule sum_change_last [unfolded One_nat_def])
      (use z(1) one in auto)
  moreover have "(case cr_system (apply_cache_control r) of
      Some bs \<Rightarrow> (\<Sum>b\<leftarrow>bs. option_mark (sb_cache_control b)) | None \<Rightarrow> 0) \<le> 1"
    using z(2) unfolding apply_cache_control_def
    by (auto intro!: sum_change_last [unfolded One_nat_def] simp: option_mark_def split: option.splits)
  moreover have "(case cr_tools (apply_cache_control r) of
      Some ts \<Rightarrow> (\<Sum>t\<leftarrow>ts. option_mark (ct_cache_control t)) | None \<Rightarrow> 0) \<le> 1"
    using z(3) unfolding apply_cache_control_def
    by (auto intro!: sum_change_last [unfolded One_nat_def] simp: option_mark_def split: option.splits)
  ultimately show "marks (apply_cache_control r) \<le> 3"
    unfolding marks_def by linarith
qed

text \<open>C40. A request is refused exactly when the result of a tool has no id of a call. Otherwise caching changes
  nothing but the marks, and sets at most three, where the service allows four.\<close>

theorem cache_marks_bounded:
  "((\<exists>e. claude_request q c n th ef = Inl e) \<longleftrightarrow> (\<exists>m\<in>set (rq_messages q). needs_id m)) \<and>
   (case (claude_request q True n th ef, claude_request q False n th ef) of
      (Inr r, Inr r0) \<Rightarrow> unmarked r = r0 \<and> marks r0 = 0 \<and> marks r \<le> 3
    | (Inl e, Inl e0) \<Rightarrow> e = e0
    | _ \<Rightarrow> False)"
proof -
  have f: "(\<exists>e. claude_request q c n th ef = Inl e) \<longleftrightarrow> (\<exists>e. claude_messages (rq_messages q) = Inl e)" for c
    by (cases "claude_messages (rq_messages q)") (auto simp: claude_request_def Let_def)
  show ?thesis
  proof (cases "claude_messages (rq_messages q)")
    case (Inl e)
    then show ?thesis
      using f claude_messages_fails [of "rq_messages q"] by (simp add: claude_request_def)
  next
    case (Inr x)
    obtain r0 where r0: "claude_request q False n th ef = Inr r0"
      using Inr by (cases x) (simp add: claude_request_def Let_def)
    have "claude_request q True n th ef = Inr (apply_cache_control r0)"
      using Inr r0 by (cases x) (simp add: claude_request_def Let_def)
    with r0 apply_marks [OF claude_request_unmarked [OF r0]] claude_request_unmarked [OF r0] show ?thesis
      using f claude_messages_fails [of "rq_messages q"] by simp
  qed
qed

subsection \<open>Failures\<close>

text \<open>The class of a failed call: a request that the service turns down for its rate waits as long as it
  says, 60 seconds by default; an error of the server may be tried again, at once by default; every other
  status is final.\<close>

theorem claude_failures_classed:
  assumes "\<not> is_success res"
  shows "\<exists>e. claude_reply sd redact what res = Inl e \<and> failure_class e =
    (let wait = map_option (\<lambda>n. n * nanos) (Option.bind (hr_retry_after res) parse_u64)
     in if hr_status res = 429 then RateLimit (case wait of Some t \<Rightarrow> t | None \<Rightarrow> 60 * nanos)
        else if 500 \<le> hr_status res \<and> hr_status res \<le> 599
        then Transient (case wait of Some t \<Rightarrow> t | None \<Rightarrow> 0)
        else Fatal)"
  using assms by (simp add: claude_reply_def claude_error_def Let_def classify_status_code_def)

theorem claude_failures_classed_witness:
  "\<exists>e. claude_reply sd redact what \<lparr>hr_status = 529, hr_retry_after = Some ''7'', hr_body = Inr ''busy'', hr_stream = []\<rparr> = Inl e \<and>
     failure_class e = Transient (7 * nanos)"
  using claude_failures_classed [of "\<lparr>hr_status = 529, hr_retry_after = Some ''7'', hr_body = Inr ''busy'', hr_stream = []\<rparr>" sd redact what]
  by (simp add: is_success_def Let_def parse_u64_def is_digit_def code_def)

end
