(* ===== verification/Gemini.thy ===== *)
theory Gemini
  imports Claude
begin

text \<open>
  The Gemini client of \<open>src/ai/gemini.rs\<close>: the types of the protocol with their JSON, the schemas, the translation
  of requests and responses, the errors and the call. A time to wait is a number of seconds in floating
  point; a value that \<open>Duration::from_secs_f64\<close> does not take is a panic, which is \<open>None\<close> here. Turning a text to
  upper case is ASCII.
\<close>

subsection \<open>The protocol\<close>

datatype Part =
    PText string "string option" bool
  | PFunctionCall string json "string option"
  | PFunctionResponse string json

record Content =
  co_role :: string
  co_parts :: "Part list"

record FunctionDeclaration =
  fc_name :: string
  fc_description :: string
  fc_parameters :: json

record GenerationConfig =
  gc_response_mime_type :: "string option"
  gc_response_schema :: "json option"
  gc_temperature :: "string option"
  gc_include_thoughts :: "bool option"

record GenerateContentRequest =
  gr_contents :: "Content list"
  gr_tools :: "FunctionDeclaration list list option"
  gr_system_instruction :: "Content option"
  gr_generation_config :: "GenerationConfig option"

record Candidate =
  cd_content :: Content
  cd_finish_reason :: "string option"

record UsageMetadata =
  um_prompt_token_count :: u32
  um_candidates_token_count :: "u32 option"
  um_total_token_count :: u32
  um_cached_content_token_count :: "u32 option"

record GenerateContentResponse =
  ge_candidates :: "Candidate list option"
  ge_block_reason :: "string option"
  ge_usage_metadata :: "UsageMetadata option"

subsection \<open>JSON\<close>

fun part_json :: "Part \<Rightarrow> json" where
  "part_json (PText t s b) =
     JObj ([(''text'', JStr t)] @ some_field ''thoughtSignature'' JStr s @ [(''thought'', JBool b)])"
| "part_json (PFunctionCall n a s) =
     JObj ([(''functionCall'', JObj [(''name'', JStr n), (''args'', a)])] @ some_field ''thoughtSignature'' JStr s)"
| "part_json (PFunctionResponse n r) =
     JObj [(''functionResponse'', JObj [(''name'', JStr n), (''response'', r)])]"

definition gemini_content_json :: "Content \<Rightarrow> json" where
  "gemini_content_json c = JObj [(''role'', JStr (co_role c)), (''parts'', JArr (List.map part_json (co_parts c)))]"

definition declaration_json :: "FunctionDeclaration \<Rightarrow> json" where
  "declaration_json f =
     JObj [(''name'', JStr (fc_name f)), (''description'', JStr (fc_description f)),
           (''parameters'', fc_parameters f)]"

definition config_json :: "GenerationConfig \<Rightarrow> json" where
  "config_json g =
     JObj (some_field ''responseMimeType'' JStr (gc_response_mime_type g) @
           some_field ''responseSchema'' (\<lambda>v. v) (gc_response_schema g) @
           some_field ''temperature'' JFloat (gc_temperature g) @
           some_field ''thinkingConfig'' (\<lambda>b. JObj [(''includeThoughts'', JBool b)]) (gc_include_thoughts g))"

definition gemini_request_json :: "GenerateContentRequest \<Rightarrow> json" where
  "gemini_request_json r =
     JObj ([(''contents'', JArr (List.map gemini_content_json (gr_contents r)))] @
       some_field ''tools''
         (\<lambda>ts. JArr (List.map (\<lambda>fs. JObj [(''functionDeclarations'', JArr (List.map declaration_json fs))]) ts))
         (gr_tools r) @
       some_field ''systemInstruction'' gemini_content_json (gr_system_instruction r) @
       some_field ''generationConfig'' config_json (gr_generation_config r))"

text \<open>A part has no tag: the first kind that fits is taken, and one that fits none is an error of the whole
  response. A field with a default may be missing, but not be null.\<close>

definition default_field :: "'a \<Rightarrow> (json \<Rightarrow> 'a option) \<Rightarrow> json \<Rightarrow> string \<Rightarrow> 'a option" where
  "default_field d dec v k = (case jget v k of None \<Rightarrow> Some d | Some x \<Rightarrow> dec x)"

definition text_part_of :: "json \<Rightarrow> Part option" where
  "text_part_of v =
     do { t \<leftarrow> req_field as_str_opt v ''text'';
          s \<leftarrow> opt_field as_str_opt v ''thoughtSignature'';
          b \<leftarrow> default_field False as_bool_opt v ''thought'';
          Some (PText t s b) }"

definition call_part_of :: "json \<Rightarrow> Part option" where
  "call_part_of v =
     do { f \<leftarrow> jget v ''functionCall'';
          n \<leftarrow> req_field as_str_opt f ''name'';
          a \<leftarrow> req_field Some f ''args'';
          s \<leftarrow> opt_field as_str_opt v ''thoughtSignature'';
          Some (PFunctionCall n a s) }"

definition response_part_of :: "json \<Rightarrow> Part option" where
  "response_part_of v =
     do { f \<leftarrow> jget v ''functionResponse'';
          n \<leftarrow> req_field as_str_opt f ''name'';
          r \<leftarrow> req_field Some f ''response'';
          Some (PFunctionResponse n r) }"

definition part_of :: "json \<Rightarrow> Part option" where
  "part_of v =
     (case text_part_of v of
        Some p \<Rightarrow> Some p
      | None \<Rightarrow> (case call_part_of v of Some p \<Rightarrow> Some p | None \<Rightarrow> response_part_of v))"

definition gemini_content_of :: "json \<Rightarrow> Content option" where
  "gemini_content_of v =
     (if as_object_opt v = None then None else
      do { r \<leftarrow> default_field [] as_str_opt v ''role'';
           ps \<leftarrow> default_field [] (list_of part_of) v ''parts'';
           Some \<lparr>co_role = r, co_parts = ps\<rparr> })"

definition candidate_of :: "json \<Rightarrow> Candidate option" where
  "candidate_of v =
     (if as_object_opt v = None then None else
      do { c \<leftarrow> default_field \<lparr>co_role = [], co_parts = []\<rparr> gemini_content_of v ''content'';
           f \<leftarrow> opt_field as_str_opt v ''finishReason'';
           Some \<lparr>cd_content = c, cd_finish_reason = f\<rparr> })"

definition usage_metadata_of :: "json \<Rightarrow> UsageMetadata option" where
  "usage_metadata_of v =
     do { p \<leftarrow> req_field json_u32 v ''promptTokenCount'';
          c \<leftarrow> opt_field json_u32 v ''candidatesTokenCount'';
          t \<leftarrow> req_field json_u32 v ''totalTokenCount'';
          k \<leftarrow> opt_field json_u32 v ''cachedContentTokenCount'';
          Some \<lparr>um_prompt_token_count = p, um_candidates_token_count = c, um_total_token_count = t,
                um_cached_content_token_count = k\<rparr> }"

definition block_reason_of :: "json \<Rightarrow> string option option" where
  "block_reason_of v = (if as_object_opt v = None then None else opt_field as_str_opt v ''blockReason'')"

definition gemini_response_of :: "json \<Rightarrow> GenerateContentResponse option" where
  "gemini_response_of v =
     (if as_object_opt v = None then None else
      do { c \<leftarrow> opt_field (list_of candidate_of) v ''candidates'';
           f \<leftarrow> opt_field block_reason_of v ''promptFeedback'';
           u \<leftarrow> opt_field usage_metadata_of v ''usageMetadata'';
           Some \<lparr>ge_candidates = c, ge_block_reason = Option.bind f (\<lambda>b. b), ge_usage_metadata = u\<rparr> })"

subsection \<open>Schemas\<close>

definition upper_char :: "char \<Rightarrow> char" where
  "upper_char c = (if is_lower c then char_of (code c - 32) else c)"

definition upper :: "string \<Rightarrow> string" where
  "upper s = List.map upper_char s"

text \<open>The text of a member \<open>type\<close> is put in upper case, here and in all objects and lists below.\<close>

fun upper_type :: "string \<times> json \<Rightarrow> string \<times> json" where
  "upper_type (k, JStr s) = (k, if k = ''type'' then JStr (upper s) else JStr s)"
| "upper_type (k, v) = (k, v)"

fun normalize_schema :: "json \<Rightarrow> json" where
  "normalize_schema (JObj ms) = JObj (List.map (\<lambda>(k, v). upper_type (k, normalize_schema v)) ms)"
| "normalize_schema (JArr vs) = JArr (List.map normalize_schema vs)"
| "normalize_schema v = v"

subsection \<open>Requests\<close>

definition plain_part :: "string \<Rightarrow> Part" where
  "plain_part t = PText t None False"

definition system_content :: "string \<Rightarrow> Content" where
  "system_content t = \<lparr>co_role = ''user'', co_parts = [plain_part t]\<rparr>"

definition assistant_parts :: "AiMessage \<Rightarrow> Part list" where
  "assistant_parts m =
     (case mg_thought m of Some t \<Rightarrow> [PText t None True] | None \<Rightarrow> []) @
     (case mg_content m of Some t \<Rightarrow> [plain_part t] | None \<Rightarrow> []) @
     (case mg_tool_calls m of
        Some cs \<Rightarrow> List.map (\<lambda>c. PFunctionCall (tc_function_name c) (tc_arguments c) (tc_thought_signature c)) cs
      | None \<Rightarrow> [])"

text \<open>A part of the user goes to the last content if that is the user's too.\<close>

definition push_user :: "Part \<Rightarrow> Content list \<Rightarrow> Content list" where
  "push_user p cs =
     (if cs \<noteq> [] \<and> co_role (last cs) = ''user''
      then butlast cs @ [(last cs)\<lparr>co_parts := co_parts (last cs) @ [p]\<rparr>]
      else cs @ [\<lparr>co_role = ''user'', co_parts = [p]\<rparr>])"

definition tool_value :: "serde \<Rightarrow> AiMessage \<Rightarrow> json" where
  "tool_value sd m =
     (case sd_from_str sd (case mg_content m of Some t \<Rightarrow> t | None \<Rightarrow> ''{}'') of Some v \<Rightarrow> v | None \<Rightarrow> JObj [])"

fun gemini_messages ::
  "serde \<Rightarrow> AiMessage list \<Rightarrow> Content option \<Rightarrow> Content list \<Rightarrow> string + Content option \<times> Content list" where
  "gemini_messages sd [] si cs = Inr (si, cs)"
| "gemini_messages sd (m # ms) si cs =
     (case mg_role m of
        System \<Rightarrow>
          gemini_messages sd ms
            (case (mg_content m, si) of (Some t, None) \<Rightarrow> Some (system_content t) | _ \<Rightarrow> si) cs
      | User \<Rightarrow> gemini_messages sd ms si (push_user (plain_part (text_of (mg_content m))) cs)
      | Assistant \<Rightarrow> gemini_messages sd ms si (cs @ [\<lparr>co_role = ''model'', co_parts = assistant_parts m\<rparr>])
      | Tool \<Rightarrow>
          (case mg_tool_call_id m of
             None \<Rightarrow> Inl ''Tool message missing tool_call_id''
           | Some i \<Rightarrow>
               gemini_messages sd ms si
                 (cs @ [\<lparr>co_role = ''function'', co_parts = [PFunctionResponse i (tool_value sd m)]\<rparr>])))"

definition declaration_of :: "AiTool \<Rightarrow> FunctionDeclaration" where
  "declaration_of t = \<lparr>fc_name = tl_name t, fc_description = tl_description t,
     fc_parameters = normalize_schema (tl_parameters t)\<rparr>"

definition gemini_request :: "serde \<Rightarrow> AiRequest \<Rightarrow> string + GenerateContentRequest" where
  "gemini_request sd request =
     res_bind (gemini_messages sd (rq_messages request) (map_option system_content (rq_system request)) [])
       (\<lambda>(system_instruction, contents).
          Inr \<lparr>gr_contents = contents,
               gr_tools = map_option (\<lambda>ts. [List.map declaration_of ts]) (rq_tools request),
               gr_system_instruction = system_instruction,
               gr_generation_config =
                 Some \<lparr>gc_response_mime_type =
                         map_option (\<lambda>f. case f of Text \<Rightarrow> ''text/plain'' | Json _ \<Rightarrow> ''application/json'')
                           (rq_response_format request),
                       gc_response_schema =
                         (case rq_response_format request of
                            Some (Json schema) \<Rightarrow> map_option normalize_schema schema
                          | _ \<Rightarrow> None),
                       gc_temperature = rq_temperature request,
                       gc_include_thoughts = Some True\<rparr>\<rparr>)"

subsection \<open>Responses\<close>

definition blocked_reasons :: "string list" where
  "blocked_reasons = [''SAFETY'', ''RECITATION'', ''OTHER'', ''BLOCKLIST'', ''PROHIBITED_CONTENT'']"

fun read_part :: "Part \<Rightarrow> string \<times> string \<times> ToolCall list \<Rightarrow> string \<times> string \<times> ToolCall list" where
  "read_part (PText t _ b) (c, th, cs) = (if b then (c, th @ t, cs) else (c @ t, th, cs))"
| "read_part (PFunctionCall n a s) (c, th, cs) =
     (c, th, cs @ [\<lparr>tc_id = n, tc_function_name = n, tc_arguments = a, tc_thought_signature = s\<rparr>])"
| "read_part (PFunctionResponse _ _) st = st"

definition gemini_usage :: "UsageMetadata \<Rightarrow> AiUsage" where
  "gemini_usage u =
     \<lparr>us_prompt_tokens = unat (um_prompt_token_count u),
      us_completion_tokens = unat (or_zero (um_candidates_token_count u)),
      us_total_tokens = unat (um_total_token_count u),
      us_cached_tokens = map_option unat (um_cached_content_token_count u)\<rparr>"

definition gemini_answer :: "GenerateContentResponse \<Rightarrow> string + AiResponse" where
  "gemini_answer resp =
     (case ge_block_reason resp of
        Some reason \<Rightarrow> Inl (''Gemini request blocked by prompt feedback (reason: '' @ reason @ '')'')
      | None \<Rightarrow>
          (case Option.bind (ge_candidates resp) first of
             None \<Rightarrow> Inl ''No candidates returned from Gemini''
           | Some candidate \<Rightarrow>
               (let blocked = (case cd_finish_reason candidate of
                                 Some reason \<Rightarrow> if reason \<in> set blocked_reasons then Some reason else None
                               | None \<Rightarrow> None)
                in case blocked of
                     Some reason \<Rightarrow> Inl (''Gemini candidate blocked (finish reason: '' @ reason @ '')'')
                   | None \<Rightarrow>
                       (case fold read_part (co_parts (cd_content candidate)) ([], [], []) of
                          (content, thought, tool_calls) \<Rightarrow>
                            Inr \<lparr>rs_content = nonempty content, rs_thought = nonempty thought,
                                 rs_thought_signature = None, rs_tool_calls = nonempty tool_calls,
                                 rs_usage = map_option gemini_usage (ge_usage_metadata resp)\<rparr>))))"

subsection \<open>Errors\<close>

datatype GeminiError =
    GeminiQuota nat
  | GeminiTransient nat string
  | GeminiPermission string
  | GeminiApiError nat string
  | GeminiOther string

fun gemini_error_class :: "GeminiError \<Rightarrow> AiErrorClass" where
  "gemini_error_class (GeminiQuota t) = RateLimit t"
| "gemini_error_class (GeminiTransient t _) = Transient t"
| "gemini_error_class (GeminiPermission _) = Fatal"
| "gemini_error_class (GeminiApiError status _) =
     (case classify_status_code status of Some c \<Rightarrow> c | None \<Rightarrow> Fatal)"
| "gemini_error_class (GeminiOther _) = Fatal"

definition extract_gemini_error_reason :: "serde \<Rightarrow> string \<Rightarrow> string option" where
  "extract_gemini_error_reason sd error_text =
     Option.bind (sd_from_str sd error_text) (\<lambda>v. Option.bind (jget v ''error'') (\<lambda>err.
       let reason = Option.bind (Option.bind (Option.bind (jget err ''details'') as_array_opt) first)
                      (\<lambda>f. get_str f ''reason'');
           message = get_str err ''message''
       in case reason of Some r \<Rightarrow> Some r | None \<Rightarrow> message))"

text \<open>\<open>show_wait\<close> and \<open>show_status\<close> print a duration and a status.\<close>

fun gemini_error_text :: "serde \<Rightarrow> (nat \<Rightarrow> string) \<Rightarrow> (nat \<Rightarrow> string) \<Rightarrow> GeminiError \<Rightarrow> string" where
  "gemini_error_text sd show_wait show_status (GeminiQuota t) = ''Quota exceeded, retry in '' @ show_wait t"
| "gemini_error_text sd show_wait show_status (GeminiTransient t msg) =
     ''Transient error: '' @ msg @ '', retry in '' @ show_wait t"
| "gemini_error_text sd show_wait show_status (GeminiPermission msg) =
     (case extract_gemini_error_reason sd msg of
        Some reason \<Rightarrow> ''Permission denied (reason: '' @ reason @ ''): '' @ msg
      | None \<Rightarrow> ''Permission denied: '' @ msg)"
| "gemini_error_text sd show_wait show_status (GeminiApiError status msg) =
     (case extract_gemini_error_reason sd msg of
        Some reason \<Rightarrow> ''Gemini API error ('' @ show_status status @ '') (reason: '' @ reason @ ''): '' @ msg
      | None \<Rightarrow> ''Gemini API error ('' @ show_status status @ ''): '' @ msg)"
| "gemini_error_text sd show_wait show_status (GeminiOther msg) = msg"

text \<open>A number of seconds as \<open>parse::<f64>\<close> gives it: a fraction that is not negative, or what no duration can
  be made of: a negative number, an infinite one, none at all.\<close>

datatype wait_seconds = Seconds "nat \<times> nat" | NoDuration

text \<open>The sum of a number and 1.0, rounded as a 64-bit number.\<close>

fun add_one :: "wait_seconds \<Rightarrow> wait_seconds" where
  "add_one (Seconds (a, b)) = Seconds (f64_of (a + b) b)"
| "add_one NoDuration = NoDuration"

fun wait_of :: "wait_seconds \<Rightarrow> nat option" where
  "wait_of (Seconds x) = from_secs_f64 x"
| "wait_of NoDuration = None"

text \<open>\<open>parse_seconds\<close> is \<open>parse::<f64>\<close> of the header; the text of the body has only digits and points.\<close>

definition quota_seconds :: "engine \<Rightarrow> wait_seconds option \<Rightarrow> string \<Rightarrow> wait_seconds" where
  "quota_seconds rx header_wait error_text =
     (case header_wait of
        Some s \<Rightarrow> s
      | None \<Rightarrow>
          (case captures rx retry_re error_text of
             Some cs \<Rightarrow>
               (case Option.bind (group_text error_text cs 1) parse_f64 of
                  Some x \<Rightarrow> Seconds x | None \<Rightarrow> Seconds (30, 1))
           | None \<Rightarrow> Seconds (30, 1)))"

definition gemini_error ::
  "engine \<Rightarrow> (string \<Rightarrow> wait_seconds option) \<Rightarrow> nat \<Rightarrow> string option \<Rightarrow> string \<Rightarrow> GeminiError option" where
  "gemini_error rx parse_seconds status retry_header error_text =
     (let header_wait = Option.bind retry_header parse_seconds
      in if status = 429 then
           map_option GeminiQuota (wait_of (add_one (quota_seconds rx header_wait error_text)))
         else if status = 403 then Some (GeminiPermission error_text)
         else if 500 \<le> status \<and> status \<le> 599 \<or> status = 499 then
           (case header_wait of
              Some s \<Rightarrow> map_option (\<lambda>t. GeminiTransient t error_text) (wait_of s)
            | None \<Rightarrow> Some (GeminiTransient 0 error_text))
         else Some (GeminiApiError status error_text))"

subsection \<open>The client\<close>

record GeminiClient =
  gx_model :: string
  gx_base_url :: string
  gx_api_key :: string

definition new_gemini_client :: "(string \<Rightarrow> string option) \<Rightarrow> string \<Rightarrow> GeminiClient" where
  "new_gemini_client var model =
     \<lparr>gx_model = model,
      gx_base_url =
        (case first_set var [''GOOGLE_GEMINI_BASE_URL'', ''GEMINI_BASE_URL''] of
           Some u \<Rightarrow> u | None \<Rightarrow> ''https://generativelanguage.googleapis.com''),
      gx_api_key = text_of (first_set var [''GEMINI_API_KEY'', ''LLM_API_KEY''])\<rparr>"

text \<open>A key that is no header value is left out.\<close>

definition gemini_headers :: "GeminiClient \<Rightarrow> (string \<times> string) list" where
  "gemini_headers cl =
     (if gx_api_key cl \<noteq> [] \<and> header_value_ok (gx_api_key cl) then [(''x-goog-api-key'', gx_api_key cl)] else [])"

definition gemini_url :: "GeminiClient \<Rightarrow> string" where
  "gemini_url cl = gx_base_url cl @ ''/v1beta/models/'' @ gx_model cl @ '':generateContent''"

datatype gemini_failure = GeminiFailure GeminiError | GeminiUnclassed string

fun gemini_failure_class :: "gemini_failure \<Rightarrow> AiErrorClass" where
  "gemini_failure_class (GeminiFailure e) = gemini_error_class e"
| "gemini_failure_class (GeminiUnclassed _) = Fatal"

definition gemini_post ::
  "engine \<Rightarrow> serde \<Rightarrow> (string \<Rightarrow> wait_seconds option) \<Rightarrow> 'w http \<Rightarrow> GeminiClient \<Rightarrow> json \<Rightarrow> 'w \<Rightarrow>
     (gemini_failure + GenerateContentResponse) option \<times> 'w" where
  "gemini_post rx sd parse_seconds post cl body w =
     (case post (gemini_url cl) (gemini_headers cl) body w of
        (Inl e, w1) \<Rightarrow>
          (Some (Inl (GeminiFailure (GeminiTransient (30 * nanos) (redact_secret rx e)))), w1)
      | (Inr res, w1) \<Rightarrow>
          (case hr_body res of
             Inl e \<Rightarrow> Some (Inl (GeminiUnclassed e))
           | Inr body_text \<Rightarrow>
               if is_success res then
                 (case Option.bind (sd_from_str sd body_text) gemini_response_of of
                    Some r \<Rightarrow> Some (Inr r)
                  | None \<Rightarrow> Some (Inl (GeminiUnclassed
                      (''Failed to decode response: '' @ sd_error sd body_text @ ''. Body: '' @ body_text))))
               else
                 map_option (\<lambda>e. Inl (GeminiFailure e))
                   (gemini_error rx parse_seconds (hr_status res) (hr_retry_after res) (redact_secret rx body_text)),
           w1))"

definition gemini_generate ::
  "engine \<Rightarrow> serde \<Rightarrow> (string \<Rightarrow> wait_seconds option) \<Rightarrow> 'w http \<Rightarrow> GeminiClient \<Rightarrow> AiRequest \<Rightarrow> 'w \<Rightarrow>
     (gemini_failure + AiResponse) option \<times> 'w" where
  "gemini_generate rx sd parse_seconds post cl request w =
     (case gemini_request sd request of
        Inl e \<Rightarrow> (Some (Inl (GeminiUnclassed e)), w)
      | Inr r \<Rightarrow>
          (case gemini_post rx sd parse_seconds post cl (gemini_request_json r) w of
             (None, w1) \<Rightarrow> (None, w1)
           | (Some (Inl e), w1) \<Rightarrow> (Some (Inl e), w1)
           | (Some (Inr resp), w1) \<Rightarrow>
               (Some (case gemini_answer resp of Inl e \<Rightarrow> Inl (GeminiUnclassed e) | Inr a \<Rightarrow> Inr a), w1)))"

text \<open>The estimate leaves the system prompt out.\<close>

definition gemini_estimate_tokens :: "tokenizer \<Rightarrow> serde \<Rightarrow> AiRequest \<Rightarrow> nat" where
  "gemini_estimate_tokens bpe sd r =
     (\<Sum>m\<leftarrow>rq_messages r.
        (case mg_content m of Some c \<Rightarrow> estimate_tokens bpe c | None \<Rightarrow> 0) +
        (case mg_tool_calls m of
           Some cs \<Rightarrow> (\<Sum>c\<leftarrow>cs. estimate_tokens bpe (tc_function_name c) +
                               estimate_tokens bpe (sd_to_string sd (tc_arguments c)))
         | None \<Rightarrow> 0)) +
     (case rq_tools r of
        Some ts \<Rightarrow> (\<Sum>t\<leftarrow>ts. estimate_tokens bpe (tl_name t) + estimate_tokens bpe (tl_description t) +
                            estimate_tokens bpe (sd_to_string sd (tl_parameters t)))
      | None \<Rightarrow> 0)"

definition gemini_capabilities :: "GeminiClient \<Rightarrow> ProviderCapabilities" where
  "gemini_capabilities cl = \<lparr>model_name = gx_model cl, context_window_size = 1000000\<rparr>"

end
