(* ===== verification/Gemini_Props.thy ===== *)
theory Gemini_Props
  imports Gemini Claude_Props
begin

text \<open>
  Properties of the Gemini client: answers that come back, what a request holds of the conversation, the
  schemas, and the waits that no duration can hold.
\<close>

subsection \<open>Parts and their JSON\<close>

lemma opt_signature:
  "jget v ''thoughtSignature'' = map_option JStr s \<Longrightarrow> opt_field as_str_opt v ''thoughtSignature'' = Some s"
  by (rule opt_field_some [where f = JStr]) simp_all

lemma part_read: "part_of (part_json p) = Some p"
proof (cases p)
  case (PText t s b)
  have "opt_field as_str_opt (part_json p) ''thoughtSignature'' = Some s"
    by (rule opt_signature) (simp add: PText map_add_def split: option.splits)
  moreover have "default_field False as_bool_opt (part_json p) ''thought'' = Some b"
    by (simp add: PText default_field_def map_add_def)
  ultimately show ?thesis
    using PText by (simp add: part_of_def text_part_of_def req_field_def)
next
  case (PFunctionCall n a s)
  have "text_part_of (part_json p) = None"
    by (simp add: PFunctionCall text_part_of_def req_field_def map_add_def)
  moreover have "opt_field as_str_opt (part_json p) ''thoughtSignature'' = Some s"
    by (rule opt_signature) (simp add: PFunctionCall map_add_def split: option.splits)
  ultimately show ?thesis
    using PFunctionCall by (simp add: part_of_def call_part_of_def req_field_def)
next
  case (PFunctionResponse n r)
  then show ?thesis
    by (simp add: part_of_def text_part_of_def call_part_of_def response_part_of_def req_field_def)
qed

lemma content_part_read:
  "gemini_content_of (gemini_content_json c) = Some c"
proof -
  have "list_of part_of (JArr (List.map part_json (co_parts c))) = Some (co_parts c)"
    by (rule list_of_map) (simp add: part_read)
  then show ?thesis
    by (simp add: gemini_content_of_def gemini_content_json_def default_field_def)
qed

subsection \<open>An answer comes back\<close>

lemma read_function_calls:
  "\<forall>c\<in>set cs. tc_id c = tc_function_name c \<Longrightarrow>
     fold read_part (List.map (\<lambda>c. PFunctionCall (tc_function_name c) (tc_arguments c) (tc_thought_signature c)) cs)
       (a, b, xs) = (a, b, xs @ cs)"
  by (induction cs arbitrary: xs) (simp_all del: fold.simps add: fold_simps)

lemma fold_assistant_parts:
  assumes "\<forall>cs. mg_tool_calls m = Some cs \<longrightarrow> (\<forall>c\<in>set cs. tc_id c = tc_function_name c)"
  shows "fold read_part (assistant_parts m) ([], [], []) =
    (case mg_content m of Some t \<Rightarrow> t | None \<Rightarrow> [], case mg_thought m of Some t \<Rightarrow> t | None \<Rightarrow> [],
     case mg_tool_calls m of Some cs \<Rightarrow> cs | None \<Rightarrow> [])"
proof -
  have calls: "fold read_part (case mg_tool_calls m of
        Some cs \<Rightarrow> List.map (\<lambda>c. PFunctionCall (tc_function_name c) (tc_arguments c) (tc_thought_signature c)) cs
      | None \<Rightarrow> []) (a, b, []) = (a, b, case mg_tool_calls m of Some cs \<Rightarrow> cs | None \<Rightarrow> [])" for a b
    using assms read_function_calls [where xs = "[]"] by (cases "mg_tool_calls m") simp_all
  show ?thesis
    unfolding assistant_parts_def fold_append comp_def plain_part_def
    by (cases "mg_content m"; cases "mg_thought m") (simp_all add: calls)
qed

definition one_candidate :: "Content \<Rightarrow> UsageMetadata option \<Rightarrow> GenerateContentResponse" where
  "one_candidate c u =
     \<lparr>ge_candidates = Some [\<lparr>cd_content = c, cd_finish_reason = Some ''STOP''\<rparr>], ge_block_reason = None,
      ge_usage_metadata = u\<rparr>"

text \<open>An answer of Gemini, kept in the conversation and sent again, is read from its JSON as it was: the
  same text, thought and calls with their signatures, a call having the name of its function as its id.\<close>

theorem gemini_answer_roundtrip:
  assumes "not_blank (rs_content r)" "not_blank (rs_thought r)" "not_blank (rs_tool_calls r)" "rs_thought_signature r = None"
    and "\<forall>cs. rs_tool_calls r = Some cs \<longrightarrow> (\<forall>c\<in>set cs. tc_id c = tc_function_name c)"
  shows "\<exists>content a.
    gemini_content_of (gemini_content_json \<lparr>co_role = ''model'', co_parts = assistant_parts (kept_answer r)\<rparr>) = Some content \<and>
    gemini_answer (one_candidate content u) = Inr a \<and> same_answer a r"
proof -
  have "fold read_part (assistant_parts (kept_answer r)) ([], [], []) =
    (case rs_content r of Some t \<Rightarrow> t | None \<Rightarrow> [], case rs_thought r of Some t \<Rightarrow> t | None \<Rightarrow> [],
     case rs_tool_calls r of Some cs \<Rightarrow> cs | None \<Rightarrow> [])"
    using fold_assistant_parts [of "kept_answer r"] assms(5) by (simp add: kept_answer_def)
  with assms(1-4) show ?thesis
    by (simp add: content_part_read one_candidate_def gemini_answer_def blocked_reasons_def same_answer_def)
qed

theorem gemini_answer_roundtrip_witness:
  "let r = \<lparr>rs_content = Some ''hello'', rs_thought = Some ''hm'', rs_thought_signature = None,
            rs_tool_calls = Some [\<lparr>tc_id = ''f'', tc_function_name = ''f'', tc_arguments = JNull,
                                   tc_thought_signature = Some ''s''\<rparr>], rs_usage = None\<rparr>
   in \<exists>content a.
        gemini_content_of (gemini_content_json \<lparr>co_role = ''model'', co_parts = assistant_parts (kept_answer r)\<rparr>) = Some content \<and>
        gemini_answer (one_candidate content None) = Inr a \<and> same_answer a r"
  unfolding Let_def by (rule gemini_answer_roundtrip) (simp_all add: not_blank_def)

subsection \<open>What a request holds\<close>

text \<open>The parts a message asks for.\<close>

definition parts_for :: "serde \<Rightarrow> AiMessage \<Rightarrow> Part list" where
  "parts_for sd m =
     (case mg_role m of
        System \<Rightarrow> []
      | User \<Rightarrow> [plain_part (text_of (mg_content m))]
      | Assistant \<Rightarrow> assistant_parts m
      | Tool \<Rightarrow> [PFunctionResponse (text_of (mg_tool_call_id m)) (tool_value sd m)])"

definition alternating :: "Content list \<Rightarrow> bool" where
  "alternating cs \<longleftrightarrow> successively (\<lambda>a b. \<not> (co_role a = ''user'' \<and> co_role b = ''user'')) cs"

definition all_parts :: "Content list \<Rightarrow> Part list" where
  "all_parts cs = concat (List.map co_parts cs)"

lemma all_parts_append [simp]: "all_parts (a @ b) = all_parts a @ all_parts b"
  by (simp add: all_parts_def)

lemma push_user_parts [simp]: "all_parts (push_user p cs) = all_parts cs @ [p]"
proof (cases "cs = []")
  case False
  then have "all_parts cs = all_parts (butlast cs) @ co_parts (last cs)"
    by (metis all_parts_append all_parts_def append_Nil2 append_butlast_last_id concat.simps list.simps(8,9))
  then show ?thesis
    by (simp add: push_user_def all_parts_def)
qed (simp add: push_user_def all_parts_def)

lemma successively_snoc:
  "successively P (xs @ [x]) \<longleftrightarrow> successively P xs \<and> (xs \<noteq> [] \<longrightarrow> P (last xs) x)"
  by (auto simp: successively_append_iff)

lemma alternating_snoc:
  "alternating (cs @ [c]) \<longleftrightarrow>
     alternating cs \<and> (cs \<noteq> [] \<longrightarrow> \<not> (co_role (last cs) = ''user'' \<and> co_role c = ''user''))"
  unfolding alternating_def successively_snoc ..

lemma alternating_push: "alternating cs \<Longrightarrow> alternating (push_user p cs)"
proof (cases "cs \<noteq> [] \<and> co_role (last cs) = ''user''")
  case True
  assume "alternating cs"
  with True have "alternating (butlast cs)" "butlast cs \<noteq> [] \<Longrightarrow> co_role (last (butlast cs)) \<noteq> ''user''"
    using alternating_snoc [of "butlast cs" "last cs"] by simp_all
  with True show ?thesis
    by (simp add: push_user_def alternating_snoc)
next
  case False
  assume "alternating cs"
  with False show ?thesis
    by (auto simp: push_user_def alternating_snoc)
qed

lemma gemini_messages_spec:
  "gemini_messages sd ms si cs = Inr (si1, cs1) \<Longrightarrow> alternating cs \<Longrightarrow>
     alternating cs1 \<and> all_parts cs1 = all_parts cs @ concat (List.map (parts_for sd) ms) \<and>
     si1 = (case si of Some x \<Rightarrow> Some x
            | None \<Rightarrow> map_option system_content
                (first (List.map_filter (\<lambda>m. if mg_role m = System then mg_content m else None) ms)))"
proof (induction ms arbitrary: si cs)
  case Nil
  then show ?case by (auto simp: List.map_filter_def split: option.splits)
next
  case (Cons m ms)
  show ?case
  proof (cases "mg_role m")
    case System
    with Cons.prems have g: "gemini_messages sd ms
        (case (mg_content m, si) of (Some t, None) \<Rightarrow> Some (system_content t) | _ \<Rightarrow> si) cs = Inr (si1, cs1)"
      by simp
    from Cons.IH [OF this Cons.prems(2)] System show ?thesis
      by (cases "mg_content m"; cases si) (simp_all add: parts_for_def List.map_filter_def)
  next
    case User
    with Cons.prems have g: "gemini_messages sd ms si (push_user (plain_part (text_of (mg_content m))) cs) = Inr (si1, cs1)"
      by simp
    from Cons.IH [OF this alternating_push [OF Cons.prems(2)]] User show ?thesis
      by (cases si) (simp_all add: parts_for_def List.map_filter_def)
  next
    case Assistant
    with Cons.prems have g: "gemini_messages sd ms si (cs @ [\<lparr>co_role = ''model'', co_parts = assistant_parts m\<rparr>]) = Inr (si1, cs1)"
      by simp
    have "alternating (cs @ [\<lparr>co_role = ''model'', co_parts = assistant_parts m\<rparr>])"
      using Cons.prems(2) by (simp add: alternating_snoc)
    from Cons.IH [OF g this] Assistant show ?thesis
      by (cases si) (simp_all add: parts_for_def List.map_filter_def all_parts_def)
  next
    case Tool
    with Cons.prems obtain i where i: "mg_tool_call_id m = Some i"
      by (cases "mg_tool_call_id m") auto
    with Tool Cons.prems have g: "gemini_messages sd ms si
        (cs @ [\<lparr>co_role = ''function'', co_parts = [PFunctionResponse i (tool_value sd m)]\<rparr>]) = Inr (si1, cs1)"
      by simp
    have "alternating (cs @ [\<lparr>co_role = ''function'', co_parts = [PFunctionResponse i (tool_value sd m)]\<rparr>])"
      using Cons.prems(2) by (simp add: alternating_snoc)
    from Cons.IH [OF g this] Tool i show ?thesis
      by (cases si) (simp_all add: parts_for_def List.map_filter_def all_parts_def text_of_def)
  qed
qed

lemma gemini_messages_fails:
  "(\<exists>e. gemini_messages sd ms si cs = Inl e) \<longleftrightarrow> (\<exists>m\<in>set ms. needs_id m)"
proof (induction ms arbitrary: si cs)
  case (Cons m ms)
  then show ?case
    by (cases "mg_role m"; cases "mg_tool_call_id m") (simp_all add: needs_id_def)
qed simp

text \<open>C27. A request is refused exactly when the result of a tool has no id of a call. Otherwise its contents
  hold the parts of all messages in order, never two contents of the user in a row, and its system instruction
  is the system prompt of the request or, where there is none, the first system message with a text; further
  system messages are left out.\<close>

theorem gemini_request_spec:
  "case gemini_request sd q of
     Inl e \<Rightarrow> \<exists>m\<in>set (rq_messages q). needs_id m
   | Inr r \<Rightarrow> \<not> (\<exists>m\<in>set (rq_messages q). needs_id m) \<and>
       all_parts (gr_contents r) = concat (List.map (parts_for sd) (rq_messages q)) \<and>
       alternating (gr_contents r) \<and>
       gr_system_instruction r =
         map_option system_content
           (case rq_system q of Some t \<Rightarrow> Some t
            | None \<Rightarrow> first (List.map_filter (\<lambda>m. if mg_role m = System then mg_content m else None) (rq_messages q)))"
proof (cases "gemini_messages sd (rq_messages q) (map_option system_content (rq_system q)) []")
  case (Inl e)
  then show ?thesis
    using gemini_messages_fails [of sd "rq_messages q" "map_option system_content (rq_system q)" "[]"]
    by (simp add: gemini_request_def)
next
  case (Inr x)
  obtain si cs where x: "x = (si, cs)" by (cases x)
  have "\<not> (\<exists>m\<in>set (rq_messages q). needs_id m)"
    using Inr gemini_messages_fails [of sd "rq_messages q" "map_option system_content (rq_system q)" "[]"] by simp
  moreover have "alternating []" by (simp add: alternating_def)
  ultimately show ?thesis
    using Inr x gemini_messages_spec [of sd "rq_messages q" "map_option system_content (rq_system q)" "[]" si cs]
    by (simp add: gemini_request_def all_parts_def split: option.splits)
qed

subsection \<open>Schemas\<close>

lemma upper_char_idem [simp]: "upper_char (upper_char c) = upper_char c"
  by (simp add: upper_char_def is_lower_def)

lemma upper_idem [simp]: "upper (upper s) = upper s"
  by (simp add: upper_def comp_def)

lemma upper_type_idem: "upper_type (k, snd (upper_type (k, v))) = upper_type (k, v)"
  by (cases v) simp_all

lemma upper_type_fst [simp]: "fst (upper_type (k, v)) = k"
  by (cases v) simp_all

lemma normalize_upper: "normalize_schema (snd (upper_type (k, v))) = snd (upper_type (k, normalize_schema v))"
  by (cases v) simp_all

theorem schema_normal:
  "normalize_schema (normalize_schema v) = normalize_schema v"
proof (induction v rule: normalize_schema.induct)
  case (1 ms)
  have "(case upper_type (k, normalize_schema v) of (k', v') \<Rightarrow> upper_type (k', normalize_schema v')) =
      upper_type (k, normalize_schema v)" if "(k, v) \<in> set ms" for k v
  proof -
    have u: "upper_type (k, normalize_schema v) = (k, snd (upper_type (k, normalize_schema v)))"
      by (metis prod.collapse upper_type_fst)
    have "normalize_schema (snd (upper_type (k, normalize_schema v))) = snd (upper_type (k, normalize_schema v))"
      using "1.IH" [OF that refl] by (simp add: normalize_upper)
    then show ?thesis
      by (subst u) (simp add: upper_type_idem)
  qed
  then show ?case by (auto simp: comp_def)
qed auto

subsection \<open>Waits\<close>

text \<open>A header with a number of seconds that no duration can hold, such as -5 or inf, kills the call.\<close>

theorem odd_wait_panics:
  "parse_seconds h = Some NoDuration \<Longrightarrow> 
     gemini_error rx parse_seconds 429 (Some h) t = None \<and> gemini_error rx parse_seconds 503 (Some h) t = None"
  by (simp add: gemini_error_def quota_seconds_def)

text \<open>The estimate of a request does not see the system prompt, which for a review holds most of the text.\<close>

theorem estimate_without_system:
  "gemini_estimate_tokens bpe sd (r\<lparr>rq_system := s\<rparr>) = gemini_estimate_tokens bpe sd r"
  by (simp add: gemini_estimate_tokens_def)

end
