(* ===== verification/Spec2Isabelle.thy ===== *)
theory Spec2Isabelle
  imports Reviews_Inv Scenarios Review_Task OpenAi Cache Review_Bin_Props Ingestion_Props Fetch_Props Service_Props Listing_Props Api_Props Prefetch_Props
    Clear_Patchsets Repo_Monitor_Props Dashboard Claude_Props Gemini_Props
begin

text \<open>
  Sashiko reviews patches of the Linux kernel. It takes in mail from lists and commits from repositories,
  groups them into patchsets, tries the patches on a baseline, lets an AI review them over several stages
  with tools, stores what it found and mails the result. This development models the program of \<open>src/\<close>
  (Rust, directory \<open>src/src\<close> of the repository) function by function and proves what makes its parts correct.

  \<^bold>\<open>Parts and how they interact.\<close> All state is in one SQLite store (\<open>db.rs\<close>, \<open>schema.sql\<close>). Articles come from
  NNTP, git archives, the web interface and the fetch agent as events; the dispatcher of \<open>main.rs\<close> parses them
  and one worker writes them to the store. The reviewer service (\<open>reviewer.rs\<close>) takes pending patchsets, finds a
  baseline to which they apply, starts one review process (\<open>bin/review.rs\<close>) per patch and answers its requests
  to the AI over its standard input and output. The process runs the review worker (\<open>worker/prompts.rs\<close>,
  \<open>worker/tools.rs\<close>). Results go to the outbox, from which the e-mail worker sends. The web interface
  (\<open>api.rs\<close>) shows the store and takes submissions.

  \<^bold>\<open>Which theory models what.\<close> A definition has the name of the Rust function, a record field that of the
  struct field with a prefix for its type.
  \<^item> \<open>Prelude\<close>, \<open>Regex\<close>, \<open>Json\<close>: strings as UTF-8 bytes, results as sums, regular expressions with a
    backtracking engine, the values of \<open>serde_json\<close>.
  \<^item> \<open>Status\<close>, \<open>Store\<close>: the enumerations of \<open>lib.rs\<close>; the tables as lists of rows and \<open>store_inv\<close>, which
    says that keys are unique, that references point to rows and that the counts of received parts are right.
  \<^item> \<open>Threads\<close>, \<open>Patchsets\<close>, \<open>Patchset_Status\<close>, \<open>Reviews\<close>, \<open>Outbox\<close>, \<open>Listing\<close>, \<open>Details\<close>: the operations of
    \<open>db.rs\<close> statement by statement; \<open>Outbox\<close> also has the loop of \<open>worker/email.rs\<close>. The properties are in
    \<open>Threads_Inv\<close>, \<open>Patchsets_Inv\<close>, \<open>Patchset_Properties\<close>, \<open>Reviews_Inv\<close>, \<open>Scenarios\<close> and \<open>Listing_Props\<close>.
  \<^item> \<open>Subject\<close>, \<open>Mail\<close>, \<open>Article\<close>: \<open>patch.rs\<close>, the mailbox functions of \<open>ingestor.rs\<close> and
    \<open>process_parsed_article\<close> of \<open>main.rs\<close>.
  \<^item> \<open>Ingestion\<close>, \<open>Fetcher\<close>, \<open>Service\<close>: \<open>nntp.rs\<close> and the cycles of \<open>ingestor.rs\<close>, \<open>fetcher.rs\<close>, the dispatcher of
    \<open>main.rs\<close> as a step relation \<open>service_step\<close>; their properties are in \<open>Ingestion_Props\<close>, \<open>Fetch_Props\<close>,
    \<open>Service_Props\<close> and, across these parts, \<open>Fetch_Scenario\<close>.
  \<^item> \<open>Email_Policy\<close>, \<open>Notify\<close>: \<open>email_policy.rs\<close>, \<open>email_router.rs\<close> and the mails of \<open>reviewer.rs\<close>.
  \<^item> \<open>Baseline\<close>, \<open>Git_Ops\<close>, \<open>Worktree\<close>: \<open>baseline.rs\<close>, \<open>git_ops.rs\<close> as sequences of git commands, and the search for
    a baseline in \<open>reviewer.rs\<close>; \<open>Git_Props\<close> has their properties.
  \<^item> \<open>Review_Jobs\<close>, \<open>Review_Loop\<close>, \<open>Review_Tool\<close>, \<open>Review_Task\<close>: the schedule, filters and pool of workers, the
    review of one patch, the conversation with the review process with \<open>ai/quota.rs\<close>, the task of a patchset
    with \<open>patchwork.rs\<close>.
  \<^item> \<open>Review_Bin\<close>, \<open>Worker_Text\<close>, \<open>Worker\<close>, \<open>Worker_Run\<close>, \<open>Prompts\<close>, \<open>Tools\<close>: the review process, its worker and the
    tools; properties in \<open>Review_Bin_Props\<close> and \<open>Worker_Props\<close>.
  \<^item> \<open>Ai\<close>, \<open>OpenAi_Stream\<close>, \<open>OpenAi\<close>, \<open>Token_Budget\<close>, \<open>Cache\<close>, \<open>Utils\<close>: \<open>ai/mod.rs\<close> with the line protocol,
    \<open>ai/openai.rs\<close>, \<open>ai/token_budget.rs\<close> and \<open>ai/truncator.rs\<close>, \<open>ai/cache.rs\<close>, \<open>utils.rs\<close>.
  \<^item> \<open>Api\<close>, \<open>Api_Props\<close>: the handlers of \<open>api.rs\<close> with their caches.
  \<^item> \<open>Prefetch\<close>, \<open>Prefetch_Props\<close>: \<open>worker/prefetch.rs\<close>, the context looked up in the source tree before a review.
  \<^item> \<open>Claude\<close>, \<open>Claude_Props\<close>: \<open>ai/claude.rs\<close> and \<open>ai/vertex.rs\<close>; \<open>Gemini\<close>, \<open>Gemini_Props\<close>: \<open>ai/gemini.rs\<close>. An answer
    that is sent back reads as it did, a request holds the whole conversation, the failures have their classes.
  \<^item> \<open>Clear_Patchsets\<close>: the tool \<open>my-src/tools/clear_patchsets\<close>, which deletes patchsets; what goes and stays, and
    when the store stays consistent, with and without the engine's check of foreign keys.
  \<^item> \<open>Repo_Monitor\<close>, \<open>Repo_Monitor_Props\<close>: the daemon \<open>my-src/tools/repo_monitor\<close>; the commits of each branch are
    handed over in order and once, apart from those that are too old, and a branch that is given up stays so.
  \<^item> \<open>Dashboard\<close>: \<open>my-src/src/my-server\<close>, the table of servers and the figures gathered from them.

  \<^bold>\<open>What is outside is a parameter.\<close> The regex crate, the mail and date parsers, TOML, JSON printers, the
  tokenizer, git and other programs, files, the AI, connections and clocks are arguments of the definitions.
  Programs and connections act on a state \<open>'w\<close> of the world that is passed along, so that a theorem holds for
  every behaviour of them.

  \<^bold>\<open>What the lemmas show.\<close> Every operation of the store keeps \<open>store_inv\<close>, and so do the intake of an article,
  every run of the pipeline and every sequence of web requests. Creating a patchset, a patch or a message is
  described on every branch. The pipeline stores every article once whatever the order of its steps, and ends.
  The mail worker sends every message at most once. A review that comes to its end leaves a final status or is given
  back to the queue, and it comes to its end when every wait for the quota does; the pool of workers does every job
  at most once and stands still only at jobs whose review does not return; the number of requests of a
  review and of the tokens it counts is bounded; what the review process prints is what the service reads. What the
  tools answer depends on files below the work tree and on where its links lead, the private lists of a policy get no mail, an embargo hides results on
  the pages and lists. Parsers are inverse to the formats they read (JSON protocol, streamed events, mailboxes,
  MAINTAINERS, commits, NNTP articles). Where the code does not do what it means to, a theorem shows the case
  instead.

  \<^bold>\<open>Bounds and fuel.\<close> Recursion is structural or has a measure wherever the code's loop ends: the loop of
  \<open>shrink\<close> has eight rounds as in the code, the turns of a stage are bounded by \<open>max_interactions\<close>, the last
  report by the attempts it has left, a review by three attempts, which gives \<open>4 + 70 * max_interactions\<close>
  requests. \<open>matches_from\<close> has the length of the text plus one as fuel, since every match moves on by a byte. Loops
  that may not end (reading events of a stream from the AI, waiting for the quota) are partial functions into
  options or relations; that they end is a theorem under the hypothesis that says why. The pipeline has the
  bounds of the code: 50 permits, channels of 1000, batches of 100.

  \<^bold>\<open>Choices.\<close> Lower-casing, trimming and white space are those of ASCII, as is \<open>LIKE\<close> of SQLite. Bytes
  that are not UTF-8 are not replaced. Numbers that cannot overflow in the code are \<open>nat\<close> or \<open>int\<close>, others words of
  their width, with the wrap-around of a release build. The statements of one operation are one step: tasks
  are interleaved between operations, at the channels and in the pool, not inside them. SQLite enforces the
  foreign keys; rows without an order come in the order of their insertion,
  except that what is said of the pages of a list holds for every order of rows the code leaves open.

  \<^bold>\<open>Not modelled.\<close> Failures of the database engine itself, apart from
  statements that name a missing column; panics of a helper task; starting processes, the environment and the logs;
  HTTP, TLS and SMTP; the locks between tasks on git directories; the quality of what the AI says.
  Not modelled as parts, because they are I/O, tables of text or copies of what is modelled: the command line
  client \<open>bin/sashiko-cli.rs\<close>, the benchmark, \<open>inspector.rs\<close>, \<open>logging.rs\<close>, \<open>metrics.rs\<close>, the reading of settings,
  the start of the tasks in \<open>main\<close>, and the AI providers \<open>bedrock.rs\<close>, which builds values of the AWS library, and
  \<open>claude_cli.rs\<close>, \<open>codex_cli.rs\<close>, \<open>copilot_cli.rs\<close> and \<open>kiro_cli.rs\<close>, which run other programs. Code under
  \<open>third_party\<close> is not the program's own.
\<close>

end
